(* ===== verification/Prelude.thy ===== *)
theory Prelude
  imports Main "HOL-Library.Word" "HOL-Library.Sublist"
begin

text \<open>
  Shared vocabulary of the development: fixed-width integers, Rust's \<open>Result\<close> as a sum
  type with its bind and its loop forms (\<open>for\<close> with \<open>?\<close> in the body, and
  \<open>collect::<Result<Vec<_>, _>>\<close>), \<open>Option\<close> helpers, and the collections of facts the
  component theories hand to the simplifier.
\<close>

section \<open>Collections of facts\<close>

named_theorems result_simps \<open>unfolding of the error-handling combinators\<close>
named_theorems str_len \<open>length bounds of string operations, for termination proofs\<close>
named_theorems wf_intros \<open>introduction rules of well-formedness predicates\<close>

section \<open>Machine integers\<close>

type_synonym u8 = "8 word"
type_synonym u32 = "32 word"
type_synonym u64 = "64 word"

text \<open>\<open>u64::checked_add\<close> and \<open>u64::saturating_add\<close>.\<close>

definition checked_add :: "u64 \<Rightarrow> u64 \<Rightarrow> u64 option" where
  "checked_add a b = (if unat a + unat b < 2 ^ 64 then Some (a + b) else None)"

definition saturating_add :: "u64 \<Rightarrow> u64 \<Rightarrow> u64" where
  "saturating_add a b = (if unat a + unat b < 2 ^ 64 then a + b else - 1)"

text \<open>\<open>u32::try_from(u64)\<close>.\<close>

definition u32_try_from :: "u64 \<Rightarrow> u32 option" where
  "u32_try_from a = (if unat a < 2 ^ 32 then Some (ucast a) else None)"

lemma unat_checked_add: "checked_add a b = Some c \<Longrightarrow> unat c = unat a + unat b"
  by (auto simp: checked_add_def unat_word_ariths split: if_splits)

lemma unat_saturating_add:
  "unat (saturating_add a b) = min (unat a + unat b) (2 ^ 64 - 1)"
proof (cases "unat a + unat b < 2 ^ 64")
  case True
  then show ?thesis by (simp add: saturating_add_def unat_word_ariths min_def)
next
  case False
  have "unat (- 1 :: u64) = 2 ^ 64 - 1" by (simp add: unsigned_minus_1_eq_mask mask_eq_exp_minus_1)
  with False show ?thesis by (simp add: saturating_add_def min_def)
qed

lemma unat_u32_try_from: "u32_try_from a = Some b \<Longrightarrow> unat b = unat a"
  by (auto simp: u32_try_from_def unsigned_ucast_eq take_bit_nat_eq_self take_bit_word_eq_self split: if_splits)

section \<open>Results\<close>

text \<open>
  \<open>Result<T, E>\<close> is \<open>'e + 't\<close> with \<open>Inl\<close> the error. \<open>rbind\<close> is the \<open>?\<close>
  operator: the rest of the function runs on the value, an error is returned at once.
\<close>

type_synonym ('e, 'a) result = "'e + 'a"

fun rbind :: "('e, 'a) result \<Rightarrow> ('a \<Rightarrow> ('e, 'b) result) \<Rightarrow> ('e, 'b) result" where
  "rbind (Inl e) f = Inl e"
| "rbind (Inr x) f = f x"

fun map_err :: "('e \<Rightarrow> 'f) \<Rightarrow> ('e, 'a) result \<Rightarrow> ('f, 'a) result" where
  "map_err g (Inl e) = Inl (g e)"
| "map_err g (Inr x) = Inr x"

fun ok_or :: "'e \<Rightarrow> 'a option \<Rightarrow> ('e, 'a) result" where
  "ok_or e None = Inl e"
| "ok_or e (Some x) = Inr x"

text \<open>\<open>if condition \{ return Err(e) \}\<close> as a statement.\<close>

definition fail_if :: "bool \<Rightarrow> 'e \<Rightarrow> ('e, unit) result" where
  "fail_if b e = (if b then Inl e else Inr ())"

text \<open>\<open>for x in xs \{ f(x)?; \}\<close>\<close>

fun for_each :: "('a \<Rightarrow> ('e, unit) result) \<Rightarrow> 'a list \<Rightarrow> ('e, unit) result" where
  "for_each f [] = Inr ()"
| "for_each f (x # xs) = rbind (f x) (\<lambda>_. for_each f xs)"

text \<open>\<open>for x in xs \{ state = f(state, x)?; \}\<close>\<close>

fun fold_result :: "('s \<Rightarrow> 'a \<Rightarrow> ('e, 's) result) \<Rightarrow> 's \<Rightarrow> 'a list \<Rightarrow> ('e, 's) result" where
  "fold_result f s [] = Inr s"
| "fold_result f s (x # xs) = rbind (f s x) (\<lambda>s'. fold_result f s' xs)"

text \<open>\<open>iter.collect::<Result<Vec<_>, _>>()\<close>: the values, or the first error.\<close>

fun collect_results :: "('e, 'a) result list \<Rightarrow> ('e, 'a list) result" where
  "collect_results [] = Inr []"
| "collect_results (r # rs) = rbind r (\<lambda>x. rbind (collect_results rs) (\<lambda>xs. Inr (x # xs)))"

text \<open>\<open>if let Some(x) = o \{ f(x)?; \}\<close>\<close>

definition when_some :: "'a option \<Rightarrow> ('a \<Rightarrow> ('e, unit) result) \<Rightarrow> ('e, unit) result" where
  "when_some x f = (case x of None \<Rightarrow> Inr () | Some v \<Rightarrow> f v)"

lemma rbind_cong [fundef_cong]:
  "m = m' \<Longrightarrow> (\<And>x. m' = Inr x \<Longrightarrow> f x = f' x) \<Longrightarrow> rbind m f = rbind m' f'"
  by (cases m') auto

lemma rbind_Inr_iff [result_simps]:
  "rbind m f = Inr y \<longleftrightarrow> (\<exists>x. m = Inr x \<and> f x = Inr y)"
  by (cases m) auto

lemma rbind_Inl_iff:
  "rbind m f = Inl e \<longleftrightarrow> m = Inl e \<or> (\<exists>x. m = Inr x \<and> f x = Inl e)"
  by (cases m) auto

lemma rbind_assoc: "rbind (rbind m f) g = rbind m (\<lambda>x. rbind (f x) g)"
  by (cases m) auto

lemma rbind_Inr_right [simp]: "rbind m Inr = m"
  by (cases m) auto

lemma map_err_Inr_iff [result_simps]: "map_err g m = Inr x \<longleftrightarrow> m = Inr x"
  by (cases m) auto

lemma map_err_Inl_iff: "map_err g m = Inl e \<longleftrightarrow> (\<exists>d. m = Inl d \<and> e = g d)"
  by (cases m) auto

lemma ok_or_Inr_iff [result_simps]: "ok_or e m = Inr x \<longleftrightarrow> m = Some x"
  by (cases m) auto

lemma ok_or_Inl_iff: "ok_or e m = Inl d \<longleftrightarrow> m = None \<and> d = e"
  by (cases m) auto

lemma fail_if_Inr_iff [result_simps]: "fail_if b e = Inr x \<longleftrightarrow> \<not> b"
  by (simp add: fail_if_def)

lemma fail_if_Inl_iff: "fail_if b e = Inl d \<longleftrightarrow> b \<and> d = e"
  by (auto simp: fail_if_def)

lemma when_some_Inr_iff [result_simps]:
  "when_some x f = Inr u \<longleftrightarrow> (\<forall>v. x = Some v \<longrightarrow> f v = Inr ())"
  by (cases x) (auto simp: when_some_def)

lemma for_each_Inr_iff [result_simps]:
  "for_each f xs = Inr u \<longleftrightarrow> (\<forall>x \<in> set xs. f x = Inr ())"
  by (induction xs) (auto simp: rbind_Inr_iff)

lemma for_each_Inl: "for_each f xs = Inl e \<Longrightarrow> \<exists>x \<in> set xs. f x = Inl e"
  by (induction xs) (auto simp: rbind_Inl_iff)

lemma collect_results_Inr_iff:
  "collect_results rs = Inr xs \<longleftrightarrow> rs = map Inr xs"
  by (induction rs arbitrary: xs) (auto simp: rbind_Inr_iff)

lemma collect_results_map_Inr_iff:
  "collect_results (map f xs) = Inr ys \<longleftrightarrow> list_all2 (\<lambda>x y. f x = Inr y) xs ys"
proof (induction xs arbitrary: ys)
  case Nil
  then show ?case by auto
next
  case (Cons x xs)
  then show ?case by (cases ys) (auto simp: rbind_Inr_iff)
qed

lemma collect_results_Inl: "collect_results rs = Inl e \<Longrightarrow> Inl e \<in> set rs"
  by (induction rs) (auto simp: rbind_Inl_iff)

lemma fold_result_append:
  "fold_result f s (xs @ ys) = rbind (fold_result f s xs) (\<lambda>s'. fold_result f s' ys)"
  by (induction xs arbitrary: s) (auto simp: rbind_assoc)

text \<open>An invariant of one loop body is an invariant of the loop.\<close>

lemma fold_result_invariant:
  assumes "fold_result f s xs = Inr s'" and "P s"
    and "\<And>s x s'. x \<in> set xs \<Longrightarrow> P s \<Longrightarrow> f s x = Inr s' \<Longrightarrow> P s'"
  shows "P s'"
  using assms
proof (induction xs arbitrary: s)
  case Nil
  then show ?case by simp
next
  case (Cons x xs)
  from Cons.prems(1) obtain s1 where s1: "f s x = Inr s1" "fold_result f s1 xs = Inr s'"
    by (auto simp: rbind_Inr_iff)
  from Cons.prems(2,3) s1(1) have "P s1" by auto
  with s1(2) Cons.prems(3) show ?case by (intro Cons.IH [of s1]) auto
qed

lemma fold_result_safe:
  assumes "fold_result f s xs = r" "P s"
    and "\<And>s x. x \<in> set xs \<Longrightarrow> P s \<Longrightarrow> f s x \<noteq> Inl panic \<and> (\<forall>s'. f s x = Inr s' \<longrightarrow> P s')"
  shows "r \<noteq> Inl panic \<and> (\<forall>s'. r = Inr s' \<longrightarrow> P s')"
  using assms
proof (induction xs arbitrary: s)
  case (Cons x xs)
  show ?case
  proof (cases "f s x")
    case (Inl e)
    with Cons.prems(1) Cons.prems(3) [of x s] Cons.prems(2) show ?thesis by auto
  next
    case (Inr s1)
    with Cons.prems have "P s1" by auto
    with Inr Cons show ?thesis by auto
  qed
qed auto

section \<open>Options\<close>

text \<open>\<open>Option::or\<close>, \<open>Option::unwrap_or\<close>.\<close>

definition opt_or :: "'a option \<Rightarrow> 'a option \<Rightarrow> 'a option" where
  "opt_or a b = (case a of None \<Rightarrow> b | Some x \<Rightarrow> Some x)"

definition unwrap_or :: "'a \<Rightarrow> 'a option \<Rightarrow> 'a" where
  "unwrap_or d x = (case x of None \<Rightarrow> d | Some v \<Rightarrow> v)"

definition is_some_and :: "('a \<Rightarrow> bool) \<Rightarrow> 'a option \<Rightarrow> bool" where
  "is_some_and p x = (case x of None \<Rightarrow> False | Some v \<Rightarrow> p v)"

lemma opt_or_simps [simp]:
  "opt_or None b = b" "opt_or (Some x) b = Some x" "opt_or a None = a"
  by (auto simp: opt_or_def split: option.splits)

lemma unwrap_or_simps [simp]: "unwrap_or d None = d" "unwrap_or d (Some v) = v"
  by (auto simp: unwrap_or_def)

lemma is_some_and_simps [simp]: "\<not> is_some_and p None" "is_some_and p (Some v) \<longleftrightarrow> p v"
  by (auto simp: is_some_and_def)

text \<open>\<open>iter.find_map(f)\<close>.\<close>

fun find_map :: "('a \<Rightarrow> 'b option) \<Rightarrow> 'a list \<Rightarrow> 'b option" where
  "find_map f [] = None"
| "find_map f (x # xs) = (case f x of Some y \<Rightarrow> Some y | None \<Rightarrow> find_map f xs)"

lemma find_map_None_iff: "find_map f xs = None \<longleftrightarrow> (\<forall>x \<in> set xs. f x = None)"
  by (induction xs) (auto split: option.splits)

lemma find_map_SomeD: "find_map f xs = Some y \<Longrightarrow> \<exists>x \<in> set xs. f x = Some y"
  by (induction xs) (auto split: option.splits)

lemma find_map_cong [fundef_cong]:
  "xs = ys \<Longrightarrow> (\<And>x. x \<in> set ys \<Longrightarrow> f x = g x) \<Longrightarrow> find_map f xs = find_map g ys"
  by (induction ys arbitrary: xs) (auto split: option.splits)

text \<open>
  A \<open>BTreeSet\<close> filled in a loop that stops at the first repeated element
  (\<open>if !seen.insert(x) \{ return Err(..) \}\<close>): the first element already seen.
\<close>

fun first_duplicate :: "'a list \<Rightarrow> 'a list \<Rightarrow> 'a option" where
  "first_duplicate seen [] = None"
| "first_duplicate seen (x # xs) =
     (if x \<in> set seen then Some x else first_duplicate (x # seen) xs)"

lemma first_duplicate_None_iff:
  "first_duplicate seen xs = None \<longleftrightarrow> distinct xs \<and> set xs \<inter> set seen = {}"
  by (induction xs arbitrary: seen) auto

end
