(* ===== verification/Rust_Str.thy ===== *)
theory Rust_Str
  imports Prelude "HOL-Library.List_Lexorder" "HOL-Library.Char_ord"
begin

text \<open>
  What the program uses of Rust's \<open>str\<close>. A string is the list of its UTF-8 bytes, one
  \<open>char\<close> per byte, so \<open>len()\<close> is \<open>length\<close>, a byte index is a list index and a slice is
  \<open>take\<close>/\<open>drop\<close>. Comparing with an ASCII character or an ASCII needle is the same on
  bytes as on code points, because every byte of a multi-byte code point is at least 128.
  \<open>trim\<close> and \<open>is_whitespace\<close> use Unicode's \<open>White_Space\<close>; the 25 code points are listed by
  their encodings.
\<close>

section \<open>White space\<close>

definition ws_ascii :: "char list" where
  "ws_ascii = [CHR 0x09, CHR 0x0A, CHR 0x0B, CHR 0x0C, CHR 0x0D, CHR 0x20]"

definition ws_patterns :: "string list" where
  "ws_patterns =
     map (\<lambda>c. [c]) ws_ascii @
     [[CHR 0xC2, CHR 0x85], [CHR 0xC2, CHR 0xA0], [CHR 0xE1, CHR 0x9A, CHR 0x80],
      [CHR 0xE2, CHR 0x80, CHR 0x80], [CHR 0xE2, CHR 0x80, CHR 0x81],
      [CHR 0xE2, CHR 0x80, CHR 0x82], [CHR 0xE2, CHR 0x80, CHR 0x83],
      [CHR 0xE2, CHR 0x80, CHR 0x84], [CHR 0xE2, CHR 0x80, CHR 0x85],
      [CHR 0xE2, CHR 0x80, CHR 0x86], [CHR 0xE2, CHR 0x80, CHR 0x87],
      [CHR 0xE2, CHR 0x80, CHR 0x88], [CHR 0xE2, CHR 0x80, CHR 0x89],
      [CHR 0xE2, CHR 0x80, CHR 0x8A], [CHR 0xE2, CHR 0x80, CHR 0xA8],
      [CHR 0xE2, CHR 0x80, CHR 0xA9], [CHR 0xE2, CHR 0x80, CHR 0xAF],
      [CHR 0xE2, CHR 0x81, CHR 0x9F], [CHR 0xE3, CHR 0x80, CHR 0x80]]"

text \<open>
  The first listed pattern that is a prefix of the string; \<open>strip_pats\<close> removes such
  prefixes as long as there are any. A pattern is never empty, and the removal drops at
  least one byte.
\<close>

definition pat_len :: "string list \<Rightarrow> string \<Rightarrow> nat" where
  "pat_len ps s = (case find (\<lambda>p. prefix p s) ps of None \<Rightarrow> 0 | Some p \<Rightarrow> length p)"

function strip_pats :: "string list \<Rightarrow> string \<Rightarrow> string" where
  "strip_pats ps s =
     (if s = [] \<or> pat_len ps s = 0 then s else strip_pats ps (drop (pat_len ps s) s))"
  by pat_completeness auto
termination
  by (relation "measure (\<lambda>(ps, s). length s)") auto

declare strip_pats.simps [simp del]

definition trim_start :: "string \<Rightarrow> string" where
  "trim_start s = strip_pats ws_patterns s"

definition trim_end :: "string \<Rightarrow> string" where
  "trim_end s = rev (strip_pats (map rev ws_patterns) (rev s))"

definition trim :: "string \<Rightarrow> string" where
  "trim s = trim_end (trim_start s)"

definition contains_whitespace :: "string \<Rightarrow> bool" where
  "contains_whitespace s = list_ex (\<lambda>p. sublist p s) ws_patterns"

text \<open>\<open>trim_matches\<close> with a set of ASCII characters.\<close>

definition trim_matches :: "char list \<Rightarrow> string \<Rightarrow> string" where
  "trim_matches cs s =
     rev (dropWhile (\<lambda>c. c \<in> set cs) (rev (dropWhile (\<lambda>c. c \<in> set cs) s)))"

section \<open>Searching and cutting\<close>

abbreviation starts_with :: "string \<Rightarrow> string \<Rightarrow> bool" where
  "starts_with s p \<equiv> prefix p s"

abbreviation ends_with :: "string \<Rightarrow> string \<Rightarrow> bool" where
  "ends_with s p \<equiv> suffix p s"

abbreviation str_contains :: "string \<Rightarrow> string \<Rightarrow> bool" where
  "str_contains s p \<equiv> sublist p s"

abbreviation has_char :: "string \<Rightarrow> char \<Rightarrow> bool" where
  "has_char s c \<equiv> List.member s c"

text \<open>The slice \<open>&s[a..b]\<close>.\<close>

definition slice :: "nat \<Rightarrow> nat \<Rightarrow> string \<Rightarrow> string" where
  "slice a b s = take (b - a) (drop a s)"

definition strip_prefix :: "string \<Rightarrow> string \<Rightarrow> string option" where
  "strip_prefix p s = (if prefix p s then Some (drop (length p) s) else None)"

text \<open>\<open>str::find\<close>: the byte index of the first occurrence.\<close>

fun str_find :: "string \<Rightarrow> string \<Rightarrow> nat option" where
  "str_find p [] = (if p = [] then Some 0 else None)"
| "str_find p (c # cs) =
     (if prefix p (c # cs) then Some 0 else map_option Suc (str_find p cs))"

definition split_once :: "char \<Rightarrow> string \<Rightarrow> (string \<times> string) option" where
  "split_once c s =
     (case str_find [c] s of None \<Rightarrow> None | Some i \<Rightarrow> Some (take i s, drop (Suc i) s))"

text \<open>\<open>str::split(c)\<close> for a character, and \<open>join\<close>.\<close>

fun split_char :: "char \<Rightarrow> string \<Rightarrow> string list" where
  "split_char c [] = [[]]"
| "split_char c (x # xs) =
     (if x = c then [] # split_char c xs
      else (case split_char c xs of [] \<Rightarrow> [[x]] | y # ys \<Rightarrow> (x # y) # ys))"

fun join :: "string \<Rightarrow> string list \<Rightarrow> string" where
  "join sep [] = []"
| "join sep [x] = x"
| "join sep (x # y # ys) = x @ sep @ join sep (y # ys)"

text \<open>
  \<open>str::lines\<close>: the text cut at line feeds, each cut line without a final carriage
  return; an empty rest after the last line feed is not a line.
\<close>

definition strip_cr :: "string \<Rightarrow> string" where
  "strip_cr s = (if s \<noteq> [] \<and> last s = CHR 0x0D then butlast s else s)"

fun lines_of_parts :: "string list \<Rightarrow> string list" where
  "lines_of_parts [] = []"
| "lines_of_parts [x] = (if x = [] then [] else [x])"
| "lines_of_parts (x # y # ys) = strip_cr x # lines_of_parts (y # ys)"

definition lines :: "string \<Rightarrow> string list" where
  "lines s = lines_of_parts (split_char (CHR 0x0A) s)"

text \<open>\<open>split_whitespace\<close>: the maximal runs without white space.\<close>

function split_ws :: "string \<Rightarrow> string \<Rightarrow> string list" where
  "split_ws acc s =
     (case s of
        [] \<Rightarrow> (if acc = [] then [] else [rev acc])
      | c # cs \<Rightarrow>
          (if pat_len ws_patterns s = 0 then split_ws (c # acc) cs
           else (if acc = [] then [] else [rev acc]) @
                split_ws [] (drop (pat_len ws_patterns s) s)))"
  by pat_completeness auto
termination
  by (relation "measure (\<lambda>(acc, s). length s)") auto

declare split_ws.simps [simp del]

definition split_whitespace :: "string \<Rightarrow> string list" where
  "split_whitespace s = split_ws [] s"

section \<open>Characters\<close>

definition is_ascii_digit :: "char \<Rightarrow> bool" where
  "is_ascii_digit c \<longleftrightarrow> 48 \<le> (of_char c :: nat) \<and> (of_char c :: nat) \<le> 57"

definition is_ascii_uppercase :: "char \<Rightarrow> bool" where
  "is_ascii_uppercase c \<longleftrightarrow> 65 \<le> (of_char c :: nat) \<and> (of_char c :: nat) \<le> 90"

definition is_ascii_lowercase :: "char \<Rightarrow> bool" where
  "is_ascii_lowercase c \<longleftrightarrow> 97 \<le> (of_char c :: nat) \<and> (of_char c :: nat) \<le> 122"

definition is_ascii_alphanumeric :: "char \<Rightarrow> bool" where
  "is_ascii_alphanumeric c \<longleftrightarrow>
     is_ascii_digit c \<or> is_ascii_uppercase c \<or> is_ascii_lowercase c"

definition to_ascii_uppercase :: "string \<Rightarrow> string" where
  "to_ascii_uppercase s =
     map (\<lambda>c. if is_ascii_lowercase c then char_of (of_char c - 32 :: nat) else c) s"

section \<open>Numbers\<close>

text \<open>
  \<open>from_str_radix\<close> on an unsigned type: one optional plus sign, at least one digit, and
  no value of \<open>bound\<close> or more.
\<close>

definition digit_value :: "nat \<Rightarrow> char \<Rightarrow> nat option" where
  "digit_value radix c =
     (if is_ascii_digit c \<and> of_char c - 48 < radix then Some (of_char c - 48) else None)"

fun digits_value :: "nat \<Rightarrow> nat \<Rightarrow> string \<Rightarrow> nat option" where
  "digits_value radix acc [] = Some acc"
| "digits_value radix acc (c # cs) =
     (case digit_value radix c of
        None \<Rightarrow> None
      | Some d \<Rightarrow> digits_value radix (acc * radix + d) cs)"

definition parse_unsigned :: "nat \<Rightarrow> nat \<Rightarrow> string \<Rightarrow> nat option" where
  "parse_unsigned radix bound s =
     (let ds = (case s of [] \<Rightarrow> [] | c # cs \<Rightarrow> if c = CHR ''+'' then cs else s)
      in if ds = [] then None
         else (case digits_value radix 0 ds of
                 None \<Rightarrow> None
               | Some n \<Rightarrow> if n < bound then Some n else None))"

definition parse_u32 :: "string \<Rightarrow> u32 option" where
  "parse_u32 s = map_option of_nat (parse_unsigned 10 (2 ^ 32) s)"

definition parse_u64_str :: "string \<Rightarrow> u64 option" where
  "parse_u64_str s = map_option of_nat (parse_unsigned 10 (2 ^ 64) s)"

text \<open>\<open>to_string\<close> of an unsigned integer.\<close>

fun to_decimal :: "nat \<Rightarrow> string" where
  "to_decimal n =
     (if n < 10 then [char_of (48 + n)]
      else to_decimal (n div 10) @ [char_of (48 + n mod 10)])"

declare to_decimal.simps [simp del]

abbreviation u32_to_string :: "u32 \<Rightarrow> string" where
  "u32_to_string n \<equiv> to_decimal (unat n)"

definition bool_to_string :: "bool \<Rightarrow> string" where
  "bool_to_string b = (if b then ''true'' else ''false'')"

section \<open>Lemmas\<close>

subsection \<open>Trimming\<close>

lemma pat_len_prefix:
  assumes "pat_len ps s \<noteq> 0"
  obtains p where "p \<in> set ps" "prefix p s" "p \<noteq> []" "pat_len ps s = length p"
proof -
  from assms obtain p where p: "find (\<lambda>p. prefix p s) ps = Some p" "pat_len ps s = length p"
    by (auto simp: pat_len_def split: option.splits)
  then have "p \<in> set ps" "prefix p s" by (auto simp: find_Some_iff)
  with p assms show thesis by (intro that [of p]) auto
qed

lemma pat_len_0_iff:
  "[] \<notin> set ps \<Longrightarrow> pat_len ps s = 0 \<longleftrightarrow> (\<forall>p \<in> set ps. \<not> prefix p s)"
  by (auto simp: pat_len_def find_None_iff find_Some_iff split: option.splits)
     (metis nth_mem)

lemma strip_pats_suffix: "suffix (strip_pats ps s) s"
proof (induction ps s rule: strip_pats.induct)
  case (1 ps s)
  show ?case
  proof (cases "s = [] \<or> pat_len ps s = 0")
    case True
    then show ?thesis by (simp add: strip_pats.simps [of ps s])
  next
    case False
    then have "suffix (strip_pats ps (drop (pat_len ps s) s)) (drop (pat_len ps s) s)"
      using "1.IH" by simp
    then have "suffix (strip_pats ps (drop (pat_len ps s) s)) s"
      using suffix_drop suffix_order.order_trans by blast
    with False show ?thesis by (subst strip_pats.simps) simp
  qed
qed

lemma strip_pats_done: "strip_pats ps s = [] \<or> pat_len ps (strip_pats ps s) = 0"
proof (induction ps s rule: strip_pats.induct)
  case (1 ps s)
  then show ?case by (cases "s = [] \<or> pat_len ps s = 0") (auto simp: strip_pats.simps [of ps s])
qed

lemma strip_pats_id: "pat_len ps s = 0 \<Longrightarrow> strip_pats ps s = s"
  by (subst strip_pats.simps) simp

lemma strip_pats_Nil [simp]: "strip_pats ps [] = []"
  by (subst strip_pats.simps) simp

lemma ws_patterns_nonempty: "[] \<notin> set ws_patterns" "[] \<notin> set (map rev ws_patterns)"
  by (auto simp: ws_patterns_def ws_ascii_def)

lemma length_trim_start [str_len]: "length (trim_start s) \<le> length s"
  unfolding trim_start_def by (rule suffix_length_le [OF strip_pats_suffix])

lemma length_trim_end [str_len]: "length (trim_end s) \<le> length s"
  unfolding trim_end_def using suffix_length_le [OF strip_pats_suffix, of _ "rev s"] by simp

lemma length_trim [str_len]: "length (trim s) \<le> length s"
  unfolding trim_def using length_trim_end length_trim_start le_trans by blast

lemma trim_Nil [simp]: "trim [] = []"
  by (simp add: trim_def trim_start_def trim_end_def)

lemma trim_end_prefix: "prefix (trim_end s) s"
  unfolding trim_end_def using strip_pats_suffix [of "map rev ws_patterns" "rev s"]
  by (simp add: suffix_to_prefix)

lemma trim_sublist: "sublist (trim s) s"
  unfolding trim_def trim_start_def
  by (meson prefix_imp_sublist strip_pats_suffix sublist_order.order_trans suffix_imp_sublist
        trim_end_prefix)

text \<open>A trimmed string starts and ends with no white space; trimming twice changes nothing.\<close>

definition trimmed :: "string \<Rightarrow> bool" where
  "trimmed s \<longleftrightarrow> pat_len ws_patterns s = 0 \<and> pat_len (map rev ws_patterns) (rev s) = 0"

lemma trim_trimmed [simp]: "trimmed s \<Longrightarrow> trim s = s"
  by (simp add: trimmed_def trim_def trim_start_def trim_end_def strip_pats_id)

lemma pat_len_Nil [simp]: "[] \<notin> set ps \<Longrightarrow> pat_len ps [] = 0"
  by (auto simp: pat_len_0_iff)

lemma strip_pats_pat_len: "[] \<notin> set ps \<Longrightarrow> pat_len ps (strip_pats ps s) = 0"
  using strip_pats_done [of ps s] by auto

lemma trimmed_trim [simp]: "trimmed (trim s)"
proof -
  let ?u = "trim_start s"
  have u: "pat_len ws_patterns ?u = 0"
    unfolding trim_start_def by (rule strip_pats_pat_len [OF ws_patterns_nonempty(1)])
  have "prefix (trim_end ?u) ?u" by (rule trim_end_prefix)
  with u have "pat_len ws_patterns (trim_end ?u) = 0"
    by (meson pat_len_0_iff prefix_order.order_trans ws_patterns_nonempty(1))
  moreover have "pat_len (map rev ws_patterns) (rev (trim_end ?u)) = 0"
    unfolding trim_end_def by (simp add: strip_pats_pat_len [OF ws_patterns_nonempty(2)])
  ultimately show ?thesis by (simp add: trimmed_def trim_def)
qed

text \<open>ASCII text whose first and last characters are not white space is trimmed.\<close>

definition is_ascii :: "string \<Rightarrow> bool" where
  "is_ascii s = list_all (\<lambda>c. (of_char c :: nat) < 128) s"

definition ws_head :: "string \<Rightarrow> bool" where
  "ws_head p = (case p of [] \<Rightarrow> False | c # cs \<Rightarrow>
     List.member ws_ascii c \<or> \<not> (of_char c :: nat) < 128)"

lemma ws_heads: "list_all ws_head ws_patterns" "list_all ws_head (map rev ws_patterns)"
  by code_simp+

lemma pat_len_ascii_head:
  assumes "list_all ws_head ps"
    and "s \<noteq> [] \<Longrightarrow> hd s \<notin> set ws_ascii \<and> (of_char (hd s) :: nat) < 128"
  shows "pat_len ps s = 0"
proof (rule ccontr)
  assume "pat_len ps s \<noteq> 0"
  then obtain p where p: "p \<in> set ps" "prefix p s" by (rule pat_len_prefix)
  from assms(1) p(1) obtain c cs
    where c: "p = c # cs" "c \<in> set ws_ascii \<or> \<not> (of_char c :: nat) < 128"
    by (cases p) (auto simp: list_all_iff ws_head_def dest!: bspec)
  from p(2) c(1) have "s \<noteq> []" "hd s = c" by (auto simp: prefix_def)
  with assms(2) c(2) show False by auto
qed

lemma trimmedI:
  assumes "s \<noteq> [] \<Longrightarrow> hd s \<notin> set ws_ascii \<and> (of_char (hd s) :: nat) < 128"
    and "s \<noteq> [] \<Longrightarrow> last s \<notin> set ws_ascii \<and> (of_char (last s) :: nat) < 128"
  shows "trimmed s"
  unfolding trimmed_def
proof
  show "pat_len ws_patterns s = 0"
    using ws_heads(1) assms(1) by (rule pat_len_ascii_head)
  have "rev s \<noteq> [] \<Longrightarrow> hd (rev s) \<notin> set ws_ascii \<and> (of_char (hd (rev s)) :: nat) < 128"
    using assms(2) by (auto simp: hd_rev)
  with ws_heads(2) show "pat_len (map rev ws_patterns) (rev s) = 0"
    by (rule pat_len_ascii_head)
qed

subsection \<open>Searching\<close>

lemma str_find_Some:
  assumes "str_find p s = Some i"
  shows "i + length p \<le> length s" "s = take i s @ p @ drop (i + length p) s"
  using assms
proof (induction p s arbitrary: i rule: str_find.induct)
  case (1 p)
  { case 1 then show ?case using "1" by (simp split: if_splits) next
    case 2 then show ?case using "1" by (simp split: if_splits) }
next
  case (2 p c cs)
  show len: "i + length p \<le> length (c # cs)" if "str_find p (c # cs) = Some i" for i
  proof (cases "prefix p (c # cs)")
    case True
    with that show ?thesis using prefix_length_le by force
  next
    case False
    with that obtain j where j: "i = Suc j" "str_find p cs = Some j" by auto
    with "2.IH"(1) [OF False j(2)] show ?thesis by simp
  qed
  show "c # cs = take i (c # cs) @ p @ drop (i + length p) (c # cs)"
    if "str_find p (c # cs) = Some i" for i
  proof (cases "prefix p (c # cs)")
    case True
    with that show ?thesis by (auto simp: prefix_def)
  next
    case False
    with that obtain j where j: "i = Suc j" "str_find p cs = Some j" by auto
    from "2.IH"(2) [OF False j(2)] show ?thesis by (simp add: j(1))
  qed
qed

lemma str_find_None: "str_find p s = None \<longleftrightarrow> \<not> sublist p s"
proof (induction p s rule: str_find.induct)
  case (2 p c cs)
  then show ?case by (auto simp: sublist_Cons_right)
qed auto

lemma str_find_char:
  "str_find [c] s = (if c \<in> set s then Some (length (takeWhile (\<lambda>x. x \<noteq> c) s)) else None)"
  by (induction s) (auto simp: prefix_def)

lemma split_once_Some:
  "split_once c s = Some (a, b) \<longleftrightarrow> s = a @ c # b \<and> c \<notin> set a"
proof
  assume "split_once c s = Some (a, b)"
  then have c: "c \<in> set s" and a: "a = takeWhile (\<lambda>x. x \<noteq> c) s"
    and b: "b = drop (Suc (length a)) s"
    by (auto simp: split_once_def str_find_char takeWhile_eq_take [symmetric] split: if_splits)
  from c obtain ys zs where s: "s = ys @ c # zs" "c \<notin> set ys"
    by (meson split_list_first)
  then have "takeWhile (\<lambda>x. x \<noteq> c) s = ys" by (auto simp: takeWhile_append)
  with a b s show "s = a @ c # b \<and> c \<notin> set a" by simp
next
  assume "s = a @ c # b \<and> c \<notin> set a"
  moreover from this have "takeWhile (\<lambda>x. x \<noteq> c) s = a" by (auto simp: takeWhile_append)
  ultimately show "split_once c s = Some (a, b)"
    by (simp add: split_once_def str_find_char)
qed

lemma length_slice [str_len]: "length (slice a b s) \<le> b - a"
  by (simp add: slice_def)

subsection \<open>Splitting and joining\<close>

lemma split_char_not_Nil [simp]: "split_char c s \<noteq> []"
  by (induction s) (auto split: list.splits)

lemma split_char_no_sep: "p \<in> set (split_char c s) \<Longrightarrow> c \<notin> set p"
proof (induction s arbitrary: p)
  case (Cons x s)
  then show ?case by (cases "split_char c s") (auto split: if_splits)
qed simp

lemma join_Cons: "xs \<noteq> [] \<Longrightarrow> join sep (x # xs) = x @ sep @ join sep xs"
  by (cases xs) auto

lemma join_Cons_Cons: "join sep ((x # y) # ys) = x # join sep (y # ys)"
  by (cases ys) auto

lemma join_split_char [simp]: "join [c] (split_char c s) = s"
proof (induction s)
  case (Cons x s)
  show ?case
  proof (cases "split_char c s")
    case Nil
    then show ?thesis by simp
  next
    case (Cons y ys)
    with Cons.IH show ?thesis by (auto simp: join_Cons_Cons)
  qed
qed simp

lemma split_char_append:
  "c \<notin> set p \<Longrightarrow> split_char c (p @ c # s) = p # split_char c s"
  by (induction p) auto

lemma split_char_single: "c \<notin> set p \<Longrightarrow> split_char c p = [p]"
  by (induction p) auto

lemma split_char_join:
  "ps \<noteq> [] \<Longrightarrow> \<forall>p \<in> set ps. c \<notin> set p \<Longrightarrow> split_char c (join [c] ps) = ps"
  by (induction "[c]" ps rule: join.induct) (auto simp: split_char_append split_char_single)

lemma split_char_subset: "p \<in> set (split_char c s) \<Longrightarrow> set p \<subseteq> set s"
proof (induction s arbitrary: p)
  case (Cons x s)
  then show ?case by (cases "split_char c s") (fastforce split: if_splits)+
qed simp

subsection \<open>Numbers\<close>

lemma of_char_digit [simp]: "n < 10 \<Longrightarrow> of_char (char_of (48 + n) :: char) = (48 + n :: nat)"
  by (simp add: of_char_of take_bit_nat_eq_self)

lemma digit_value_char_of [simp]: "n < 10 \<Longrightarrow> digit_value 10 (char_of (48 + n)) = Some n"
  by (simp add: digit_value_def is_ascii_digit_def)

lemma digits_value_append:
  "digits_value r acc (s @ t) =
     (case digits_value r acc s of None \<Rightarrow> None | Some a \<Rightarrow> digits_value r a t)"
  by (induction s arbitrary: acc) (auto split: option.splits)

lemma digits_value_to_decimal: "digits_value 10 0 (to_decimal n) = Some n"
proof (induction n rule: to_decimal.induct)
  case (1 n)
  then show ?case
    by (cases "n < 10") (auto simp: to_decimal.simps [of n] digits_value_append)
qed

lemma to_decimal_not_Nil [simp]: "to_decimal n \<noteq> []"
  by (subst to_decimal.simps) simp

lemma to_decimal_digits: "\<forall>c \<in> set (to_decimal n). is_ascii_digit c"
proof (induction n rule: to_decimal.induct)
  case (1 n)
  then show ?case
    by (cases "n < 10") (auto simp: to_decimal.simps [of n] is_ascii_digit_def)
qed

lemma plus_not_digit: "\<not> is_ascii_digit (CHR ''+'')"
  by (simp add: is_ascii_digit_def)

lemma parse_to_decimal: "n < b \<Longrightarrow> parse_unsigned 10 b (to_decimal n) = Some n"
proof -
  assume "n < b"
  have "hd (to_decimal n) \<noteq> CHR ''+''"
    using to_decimal_digits [of n] plus_not_digit by (metis hd_in_set to_decimal_not_Nil)
  then obtain c cs where "to_decimal n = c # cs" "c \<noteq> CHR ''+''"
    by (cases "to_decimal n") (use to_decimal_not_Nil in auto)
  with \<open>n < b\<close> digits_value_to_decimal [of n] show ?thesis
    by (simp add: parse_unsigned_def)
qed

lemma parse_u32_to_string [simp]: "parse_u32 (u32_to_string n) = Some n"
  by (simp add: parse_u32_def parse_to_decimal [OF unsigned_less [where 'b = 32 and 'a = nat, simplified]])

lemma parse_unsigned_bound: "parse_unsigned r b s = Some n \<Longrightarrow> n < b"
  by (auto simp: parse_unsigned_def Let_def split: if_splits option.splits list.splits)

end
