(* ===== verification/Rust_Collections.thy ===== *)
theory Rust_Collections
  imports Rust_Str
begin

text \<open>
  \<open>BTreeMap\<close> and \<open>BTreeSet\<close>. The program iterates over both, so the order of the keys
  matters: a map is the list of its entries in increasing key order, a set the increasing
  list of its elements. The laws a client relies on are the locale \<open>ordered_map\<close>, which the
  list implementation interprets.
\<close>

section \<open>Maps\<close>

type_synonym ('k, 'v) btree_map = "('k \<times> 'v) list"

definition btree_wf :: "('k :: linorder, 'v) btree_map \<Rightarrow> bool" where
  "btree_wf m = sorted_wrt (<) (map fst m)"

definition btree_get :: "'k \<Rightarrow> ('k, 'v) btree_map \<Rightarrow> 'v option" where
  "btree_get k m = map_of m k"

definition contains_key :: "'k \<Rightarrow> ('k, 'v) btree_map \<Rightarrow> bool" where
  "contains_key k m = (btree_get k m \<noteq> None)"

fun btree_insert :: "'k :: linorder \<Rightarrow> 'v \<Rightarrow> ('k, 'v) btree_map \<Rightarrow> ('k, 'v) btree_map" where
  "btree_insert k v [] = [(k, v)]"
| "btree_insert k v ((k', v') # m) =
     (if k < k' then (k, v) # (k', v') # m
      else if k = k' then (k, v) # m
      else (k', v') # btree_insert k v m)"

fun btree_remove :: "'k \<Rightarrow> ('k, 'v) btree_map \<Rightarrow> ('k, 'v) btree_map" where
  "btree_remove k [] = []"
| "btree_remove k ((k', v') # m) = (if k = k' then m else (k', v') # btree_remove k m)"

text \<open>\<open>collect::<BTreeMap<_, _>>\<close> and \<open>extend\<close>: later entries replace earlier ones.\<close>

definition btree_extend :: "('k :: linorder, 'v) btree_map \<Rightarrow> ('k \<times> 'v) list \<Rightarrow> ('k, 'v) btree_map" where
  "btree_extend m kvs = fold (\<lambda>(k, v) m. btree_insert k v m) kvs m"

definition btree_collect :: "('k :: linorder \<times> 'v) list \<Rightarrow> ('k, 'v) btree_map" where
  "btree_collect kvs = btree_extend [] kvs"

locale ordered_map =
  fixes empty_map :: "'m"
    and insert_map :: "'k :: linorder \<Rightarrow> 'v \<Rightarrow> 'm \<Rightarrow> 'm"
    and remove_map :: "'k \<Rightarrow> 'm \<Rightarrow> 'm"
    and get_map :: "'k \<Rightarrow> 'm \<Rightarrow> 'v option"
    and entries :: "'m \<Rightarrow> ('k \<times> 'v) list"
    and map_inv :: "'m \<Rightarrow> bool"
  assumes inv_empty: "map_inv empty_map"
    and inv_insert: "map_inv m \<Longrightarrow> map_inv (insert_map k v m)"
    and inv_remove: "map_inv m \<Longrightarrow> map_inv (remove_map k m)"
    and get_empty: "get_map k empty_map = None"
    and get_insert: "map_inv m \<Longrightarrow> get_map k' (insert_map k v m) = (if k' = k then Some v else get_map k' m)"
    and get_remove: "map_inv m \<Longrightarrow> get_map k' (remove_map k m) = (if k' = k then None else get_map k' m)"
    and entries_sorted: "map_inv m \<Longrightarrow> sorted_wrt (<) (map fst (entries m))"
    and get_entries: "map_inv m \<Longrightarrow> get_map k m = map_of (entries m) k"
begin

lemma entries_distinct: "map_inv m \<Longrightarrow> distinct (map fst (entries m))"
  using entries_sorted [of m] by (simp add: strict_sorted_iff)

lemma mem_entries_iff: "map_inv m \<Longrightarrow> (k, v) \<in> set (entries m) \<longleftrightarrow> get_map k m = Some v"
  by (simp add: get_entries entries_distinct)

lemma get_fold_insert:
  assumes "map_inv m" "distinct (map fst kvs)"
  shows "map_inv (fold (\<lambda>(k, v). insert_map k v) kvs m) \<and>
    get_map k (fold (\<lambda>(k, v). insert_map k v) kvs m)
      = (case map_of kvs k of Some v \<Rightarrow> Some v | None \<Rightarrow> get_map k m)"
  using assms
proof (induction kvs arbitrary: m)
  case (Cons kv kvs)
  obtain a b where kv: "kv = (a, b)" by (cases kv)
  with Cons.prems have "map_of kvs a = None" by (simp add: map_of_eq_None_iff)
  with kv Cons.prems Cons.IH [of "insert_map a b m"] show ?case
    by (auto simp: inv_insert get_insert split: option.splits)
qed simp

end

lemma btree_insert_keys: "set (map fst (btree_insert k v m)) = insert k (set (map fst m))"
  by (induction m rule: btree_insert.induct) auto

lemma btree_wf_insert [wf_intros]: "btree_wf m \<Longrightarrow> btree_wf (btree_insert k v m)"
  unfolding btree_wf_def
proof (induction k v m rule: btree_insert.induct)
  case (2 k v k' v' m)
  then show ?case using btree_insert_keys [of k v m] by auto
qed auto

lemma btree_remove_mem: "x \<in> set (btree_remove k m) \<Longrightarrow> x \<in> set m"
  by (induction k m rule: btree_remove.induct) (auto split: if_splits)

lemma btree_wf_remove [wf_intros]: "btree_wf m \<Longrightarrow> btree_wf (btree_remove k m)"
  unfolding btree_wf_def
proof (induction k m rule: btree_remove.induct)
  case (2 k k' v' m)
  then show ?case by (auto dest: btree_remove_mem)
qed auto

lemma btree_get_insert:
  "btree_wf m \<Longrightarrow> btree_get k' (btree_insert k v m) = (if k' = k then Some v else btree_get k' m)"
  unfolding btree_wf_def btree_get_def by (induction k v m rule: btree_insert.induct) auto

lemma btree_get_remove:
  "btree_wf m \<Longrightarrow> btree_get k' (btree_remove k m) = (if k' = k then None else btree_get k' m)"
  unfolding btree_wf_def btree_get_def
proof (induction k m rule: btree_remove.induct)
  case (2 k k1 v1 m)
  moreover from 2 have "k1 \<notin> fst ` set m" by auto
  then have "map_of m k1 = None" by (simp add: map_of_eq_None_iff)
  ultimately show ?case by auto
qed simp

interpretation btree: ordered_map "[]" btree_insert btree_remove btree_get "\<lambda>m. m" btree_wf
  by unfold_locales
    (auto simp: btree_get_insert btree_get_remove wf_intros, auto simp: btree_wf_def btree_get_def)

lemma btree_wf_extend [wf_intros]: "btree_wf m \<Longrightarrow> btree_wf (btree_extend m kvs)"
  unfolding btree_extend_def by (induction kvs arbitrary: m) (auto simp: btree_wf_insert)

lemma btree_wf_collect [wf_intros, simp]: "btree_wf (btree_collect kvs)"
  unfolding btree_collect_def by (intro btree_wf_extend) (simp add: btree_wf_def)

lemma btree_get_extend:
  assumes "btree_wf m"
  shows "btree_get k (btree_extend m kvs) = (case map_of (rev kvs) k of Some v \<Rightarrow> Some v | None \<Rightarrow> btree_get k m)"
  using assms unfolding btree_extend_def
proof (induction kvs arbitrary: m)
  case (Cons kv kvs)
  obtain a b where "kv = (a, b)" by (cases kv)
  with Cons show ?case
    by (auto simp: btree_get_insert btree_wf_insert map_add_def split: option.splits)
qed simp

lemma btree_get_collect: "btree_get k (btree_collect kvs) = map_of (rev kvs) k"
  unfolding btree_collect_def
  by (subst btree_get_extend) (auto simp: btree_wf_def btree_get_def split: option.splits)

lemma contains_key_iff: "contains_key k m \<longleftrightarrow> k \<in> fst ` set m"
  by (simp add: contains_key_def btree_get_def map_of_eq_None_iff)

section \<open>Sets\<close>

definition set_insert :: "'a :: linorder \<Rightarrow> 'a list \<Rightarrow> 'a list" where
  "set_insert x xs = insort_insert x xs"

definition set_collect :: "'a :: linorder list \<Rightarrow> 'a list" where
  "set_collect xs = fold set_insert xs []"

text \<open>\<open>pop_first\<close>: the least element and the rest.\<close>

fun pop_first :: "'a list \<Rightarrow> ('a \<times> 'a list) option" where
  "pop_first [] = None"
| "pop_first (x # xs) = Some (x, xs)"

text \<open>\<open>sort()\<close> followed by \<open>dedup()\<close> on a vector.\<close>

definition sort_dedup :: "'a :: linorder list \<Rightarrow> 'a list" where
  "sort_dedup xs = remdups_adj (sort xs)"

lemma set_set_insert [simp]: "set (set_insert x xs) = insert x (set xs)"
  by (simp add: set_insert_def set_insort_insert)

lemma sorted_set_insert [simp]: "sorted xs \<Longrightarrow> sorted (set_insert x xs)"
  by (simp add: set_insert_def sorted_insort_insert)

lemma distinct_set_insert [simp]: "distinct xs \<Longrightarrow> distinct (set_insert x xs)"
  by (simp add: set_insert_def distinct_insort_insert)

lemma set_collect_props:
  "set (set_collect xs) = set xs" "sorted (set_collect xs)" "distinct (set_collect xs)"
proof -
  have "set (fold set_insert xs s) = set xs \<union> set s
      \<and> (sorted s \<longrightarrow> sorted (fold set_insert xs s)) \<and> (distinct s \<longrightarrow> distinct (fold set_insert xs s))" for s
    by (induction xs arbitrary: s) auto
  from this [of "[]"] show "set (set_collect xs) = set xs" "sorted (set_collect xs)" "distinct (set_collect xs)"
    by (simp_all add: set_collect_def)
qed

lemma distinct_remdups_adj_sorted: "sorted xs \<Longrightarrow> distinct (remdups_adj xs)"
proof (induction xs rule: remdups_adj.induct)
  case (3 x y xs)
  then show ?case by (cases "x = y") auto
qed auto

lemma sort_dedup_props [simp]:
  "set (sort_dedup xs) = set xs" "sorted (sort_dedup xs)" "distinct (sort_dedup xs)"
  by (simp_all add: sort_dedup_def sorted_remdups_adj distinct_remdups_adj_sorted)

lemma btree_insert_mem: "x \<in> set (btree_insert k v m) \<Longrightarrow> x = (k, v) \<or> x \<in> set m"
  by (induction k v m rule: btree_insert.induct) (auto split: if_splits)

lemma length_insert: "length (btree_insert k v m) \<le> Suc (length m)"
  by (induction k v m rule: btree_insert.induct) auto

lemma btree_wf_filter: "btree_wf m \<Longrightarrow> btree_wf (filter P m)"
  by (simp add: btree_wf_def strict_sorted_iff sorted_map sorted_wrt_filter distinct_map_filter)

lemma btree_get_mem: "btree_get k m = Some v \<Longrightarrow> (k, v) \<in> set m"
  by (simp add: btree_get_def map_of_SomeD)

end
