(* ===== verification/Condition_Expr.thy ===== *)
theory Condition_Expr
  imports Rust_Str
begin

text \<open>
  The crate \<open>condition-expr\<close> (\<open>src/crates/condition-expr/src/lib.rs\<close>): the boolean structure
  of the conditions both products use. The scanners keep the source's state (parenthesis
  depth, open quote, cursor); \<open>parse\<close> is a total function because every recursive call is
  on a shorter string.
\<close>

section \<open>Data\<close>

datatype expr =
    Atom string
  | Equal string string
  | NotEqual string string
  | And "expr list"
  | Or "expr list"
  | Not expr

datatype parse_error =
    Empty
  | EmptyOperand string
  | InvalidComparison string
  | UnterminatedString
  | UnbalancedParentheses

record comparison =
  cmp_left :: string
  cmp_operator :: string
  cmp_right :: string

abbreviation lparen :: char where "lparen \<equiv> CHR 0x28"
abbreviation rparen :: char where "rparen \<equiv> CHR 0x29"
abbreviation dquote :: char where "dquote \<equiv> CHR 0x22"
abbreviation squote :: char where "squote \<equiv> CHR 0x27"
abbreviation bang :: char where "bang \<equiv> CHR 0x21"

section \<open>Outer parentheses\<close>

text \<open>
  The loop of \<open>strip_outer_parentheses\<close> over \<open>char_indices\<close>: the index at which the depth
  returns to zero, or the error. \<open>quote\<close> is the character that closes the current string.
\<close>

fun outer_close :: "string \<Rightarrow> nat \<Rightarrow> nat \<Rightarrow> char option \<Rightarrow> (parse_error, nat) result" where
  "outer_close [] index depth quote =
     Inl (if quote \<noteq> None then UnterminatedString else UnbalancedParentheses)"
| "outer_close (c # cs) index depth quote =
     (case quote of
        Some expected \<Rightarrow>
          outer_close cs (Suc index) depth (if c = expected then None else quote)
      | None \<Rightarrow>
          if c = squote \<or> c = dquote then outer_close cs (Suc index) depth (Some c)
          else if c = lparen then outer_close cs (Suc index) (Suc depth) None
          else if c = rparen then
            (if depth = 0 then Inl UnbalancedParentheses
             else if depth - 1 = 0 then Inr index
             else outer_close cs (Suc index) (depth - 1) None)
          else outer_close cs (Suc index) depth None)"

function strip_outer_parentheses :: "string \<Rightarrow> (parse_error, string) result" where
  "strip_outer_parentheses input =
     (if \<not> starts_with input [lparen] then Inr input
      else rbind (outer_close input 0 0 None) (\<lambda>index.
        if trim (drop (Suc index) input) = []
        then strip_outer_parentheses (slice 1 index input)
        else Inr input))"
  by pat_completeness auto
termination
  by (relation "measure length") (auto simp: slice_def prefix_def)

declare strip_outer_parentheses.simps [simp del]

section \<open>Scanning at depth zero\<close>

text \<open>
  \<open>scan_top_level\<close>: the indices handed to the callback, in order. The needles of the
  program are two characters long, so after a hit the cursor moves behind the needle:
  \<open>drop (length needle - 1)\<close> of what follows its first character.
\<close>

function scan_from ::
  "string \<Rightarrow> string \<Rightarrow> nat \<Rightarrow> nat \<Rightarrow> char option \<Rightarrow> (parse_error, nat list) result" where
  "scan_from needle [] cursor depth quote =
     (if quote \<noteq> None then Inl UnterminatedString
      else if depth \<noteq> 0 then Inl UnbalancedParentheses
      else Inr [])"
| "scan_from needle (c # cs) cursor depth quote =
     (case quote of
        Some expected \<Rightarrow>
          scan_from needle cs (Suc cursor) depth (if c = expected then None else quote)
      | None \<Rightarrow>
          if c = squote \<or> c = dquote then scan_from needle cs (Suc cursor) depth (Some c)
          else if c = lparen then scan_from needle cs (Suc cursor) (Suc depth) None
          else if c = rparen then
            (if depth = 0 then Inl UnbalancedParentheses
             else scan_from needle cs (Suc cursor) (depth - 1) None)
          else if depth = 0 \<and> starts_with (c # cs) needle then
            rbind (scan_from needle (drop (length needle - 1) cs)
                     (cursor + length needle) depth None)
              (\<lambda>hits. Inr (cursor # hits))
          else scan_from needle cs (Suc cursor) depth None)"
  by pat_completeness auto
termination
  by (relation "measure (\<lambda>(needle, s, cursor, depth, quote). length s)") auto

definition scan_top_level :: "string \<Rightarrow> string \<Rightarrow> (parse_error, nat list) result" where
  "scan_top_level input needle = scan_from needle input 0 0 None"

text \<open>The parts between the hits, as the callback of \<open>split_top_level\<close> pushes them.\<close>

fun cut_parts :: "string \<Rightarrow> nat \<Rightarrow> nat \<Rightarrow> nat list \<Rightarrow> string list" where
  "cut_parts input oplen start [] = [trim (drop start input)]"
| "cut_parts input oplen start (index # hits) =
     trim (slice start index input) # cut_parts input oplen (index + oplen) hits"

definition split_top_level :: "string \<Rightarrow> string \<Rightarrow> (parse_error, string list) result" where
  "split_top_level input operator =
     rbind (scan_top_level input operator) (\<lambda>hits.
       if hits = [] then Inr [input]
       else (let parts = cut_parts input (length operator) 0 hits
             in if list_ex (\<lambda>part. part = []) parts then Inl (EmptyOperand operator)
                else Inr parts))"

fun split_comparison_with ::
  "string list \<Rightarrow> string \<Rightarrow> (parse_error, comparison option) result" where
  "split_comparison_with [] input = Inr None"
| "split_comparison_with (operator # operators) input =
     rbind (scan_top_level input operator) (\<lambda>hits.
       case hits of
         [] \<Rightarrow> split_comparison_with operators input
       | index # _ \<Rightarrow>
           (let left = trim (take index input);
                right = trim (drop (index + length operator) input)
            in if left = [] \<or> right = [] then Inl (InvalidComparison input)
               else Inr (Some \<lparr>cmp_left = left, cmp_operator = operator, cmp_right = right\<rparr>)))"

definition split_comparison :: "string \<Rightarrow> (parse_error, comparison option) result" where
  "split_comparison input = split_comparison_with [''!='', ''==''] input"

section \<open>Length bounds\<close>

lemma length_strip_outer [str_len]:
  "strip_outer_parentheses input = Inr s \<Longrightarrow> length s \<le> length input"
proof (induction input rule: strip_outer_parentheses.induct)
  case (1 input)
  show ?case
  proof (cases "starts_with input [lparen]")
    case False
    with "1.prems" show ?thesis by (simp add: strip_outer_parentheses.simps [of input])
  next
    case True
    with "1.prems" obtain i where i: "outer_close input 0 0 None = Inr i"
      and s: "(if trim (drop (Suc i) input) = []
               then strip_outer_parentheses (slice 1 i input) else Inr input) = Inr s"
      by (auto simp: strip_outer_parentheses.simps [of input] rbind_Inr_iff)
    show ?thesis
    proof (cases "trim (drop (Suc i) input) = []")
      case True
      with s have "strip_outer_parentheses (slice 1 i input) = Inr s" by simp
      with "1.IH" \<open>starts_with input [lparen]\<close> i True have "length s \<le> length (slice 1 i input)"
        by blast
      then show ?thesis by (auto simp: slice_def)
    next
      case False
      with s show ?thesis by simp
    qed
  qed
qed

lemma scan_from_bounds:
  "scan_from needle s cursor depth quote = Inr hits \<Longrightarrow>
     \<forall>i \<in> set hits. cursor \<le> i \<and> i + length needle \<le> cursor + length s"
proof (induction needle s cursor depth quote arbitrary: hits rule: scan_from.induct)
  case (1 needle cursor depth quote)
  then show ?case by (simp split: if_splits)
next
  case (2 needle c cs cursor depth quote)
  show ?case
  proof (cases quote)
    case None
    consider (q) "c = squote \<or> c = dquote" | (l) "c = lparen" | (r) "c = rparen"
      | (h) "\<not> (c = squote \<or> c = dquote)" "c \<noteq> lparen" "c \<noteq> rparen"
          "depth = 0 \<and> starts_with (c # cs) needle"
      | (o) "\<not> (c = squote \<or> c = dquote)" "c \<noteq> lparen" "c \<noteq> rparen"
          "\<not> (depth = 0 \<and> starts_with (c # cs) needle)"
      by blast
    then show ?thesis
    proof cases
      case h
      with None "2.prems" obtain rest where
        rest: "scan_from needle (drop (length needle - 1) cs) (cursor + length needle) depth None
                 = Inr rest" and hits: "hits = cursor # rest"
        by (auto simp: rbind_Inr_iff)
      have len: "length needle \<le> Suc (length cs)"
        using h(4) prefix_length_le [of needle "c # cs"] by simp
      from "2.IH"(4) [OF None h rest] len show ?thesis
        unfolding hits by fastforce
    qed (use "2" None in \<open>fastforce split: if_splits\<close>)+
  qed (use "2" in fastforce)
qed

lemma cut_parts_shorter:
  assumes "0 < oplen" "0 < start" "input \<noteq> []"
  shows "part \<in> set (cut_parts input oplen start hits) \<Longrightarrow> length part < length input"
  using assms
proof (induction input oplen start hits rule: cut_parts.induct)
  case (1 input oplen start)
  have "length (trim (drop start input)) \<le> length (drop start input)" by (rule length_trim)
  with 1 show ?case by (cases input) auto
next
  case (2 input oplen start index hits)
  have "length (trim (slice start index input)) \<le> length (slice start index input)"
    by (rule length_trim)
  moreover have "length (slice start index input) < length input"
    using "2.prems" by (cases input) (auto simp: slice_def min_def)
  ultimately show ?case using 2 by auto
qed

lemma length_split_top_level [str_len]:
  assumes "split_top_level input operator = Inr parts" "1 < length parts"
    and "part \<in> set parts" "operator \<noteq> []"
  shows "length part < length input"
proof -
  from assms(1,2) obtain hits where scan: "scan_top_level input operator = Inr hits"
    and hits: "hits \<noteq> []" and parts: "parts = cut_parts input (length operator) 0 hits"
    by (auto simp: split_top_level_def rbind_Inr_iff Let_def split: if_splits)
  from hits obtain i rest where i: "hits = i # rest" by (cases hits) auto
  with scan scan_from_bounds have bound: "i + length operator \<le> length input"
    by (fastforce simp: scan_top_level_def)
  with assms(4) have input: "input \<noteq> []" by auto
  from parts i assms(3) consider "part = trim (slice 0 i input)"
    | "part \<in> set (cut_parts input (length operator) (i + length operator) rest)" by auto
  then show ?thesis
  proof cases
    case 1
    have "length (trim (slice 0 i input)) \<le> i"
      using length_trim [of "slice 0 i input"] length_slice [of 0 i input] by linarith
    with 1 bound assms(4) show ?thesis by (cases operator) auto
  next
    case 2
    then show ?thesis using assms(4) input by (intro cut_parts_shorter) auto
  qed
qed

section \<open>The parser\<close>

function parse :: "string \<Rightarrow> (parse_error, expr) result" where
  "parse raw =
     (let input = trim raw
      in if input = [] then Inl Empty
         else rbind (strip_outer_parentheses input) (\<lambda>input.
           rbind (split_top_level input ''||'') (\<lambda>or_parts.
             if 1 < length or_parts
             then rbind (collect_results (map parse or_parts)) (\<lambda>es. Inr (Or es))
             else rbind (split_top_level input ''&&'') (\<lambda>and_parts.
               if 1 < length and_parts
               then rbind (collect_results (map parse and_parts)) (\<lambda>es. Inr (And es))
               else (case strip_prefix [bang] input of
                 Some rest \<Rightarrow> rbind (parse rest) (\<lambda>e. Inr (Not e))
               | None \<Rightarrow>
                   rbind (split_comparison input) (\<lambda>comparison.
                     case comparison of
                       Some cmp \<Rightarrow>
                         Inr (if cmp_operator cmp = ''=='' then Equal (cmp_left cmp) (cmp_right cmp)
                              else NotEqual (cmp_left cmp) (cmp_right cmp))
                     | None \<Rightarrow> Inr (Atom input)))))))"
  by pat_completeness auto
termination
proof (relation "measure length"; (unfold in_measure)?)
  fix raw input stripped parts part
  assume *: "input = trim raw" "strip_outer_parentheses input = Inr stripped"
  have le: "length stripped \<le> length raw"
    using * length_strip_outer length_trim le_trans by metis
  { assume "split_top_level stripped ''||'' = Inr parts" "1 < length parts" "part \<in> set parts"
    with le show "length part < length raw"
      using length_split_top_level less_le_trans by blast }
  { assume "split_top_level stripped ''&&'' = Inr parts" "1 < length parts" "part \<in> set parts"
    with le show "length part < length raw"
      using length_split_top_level less_le_trans by blast }
  { fix rest assume "strip_prefix [bang] stripped = Some rest"
    with le show "length rest < length raw"
      by (auto simp: strip_prefix_def prefix_def split: if_splits) }
qed simp_all

declare parse.simps [simp del]

end
