(* ===== verification/Dev_Types.thy ===== *)
theory Dev_Types
  imports Rust_Collections Condition_Expr
begin

text \<open>
  The developer environment's data model, its leaves: the errors
  (\<open>src/crates/dev-env-model/src/error.rs\<close>), the checks of names, paths and globs
  (\<open>validation.rs\<close>), value trees (\<open>value.rs\<close>), path templates (\<open>path.rs\<close>) and conditions
  (\<open>condition.rs\<close>). A 64-bit float is kept as its bit pattern, an \<open>i64\<close> as a word read by
  \<open>sint\<close>. The texts of \<open>Display\<close> are not modelled.
  \<open>RecursionBound\<close> is not an error of the source: it marks the bound on the depth of the model's recursion over the
  providers, which is never reached.
\<close>

section \<open>Errors\<close>

datatype reason =
    ReasonEmpty | ReasonNul | ReasonNewline | InvalidMapKey | InvalidIdentifier | ReasonInvalidPath | AbsolutePathRequired
  | PathTraversal | ShellMetacharacter | ReasonDuplicate | ReasonMissing | ReasonUnsupported | MustBeScalar | MustBeNonEmpty
  | MustBeExplicit

datatype dev_condition_error =
    ConditionEmpty
  | ConditionEmptyOperand string
  | ConditionUnterminatedString
  | InvalidReference string
  | ConditionInvalidValue string
  | ConditionUnbalancedParentheses
  | ConditionShellSyntax

datatype dev_input_error =
    InputInvalidName | InputInvalidTarget | InvalidEnumValue string | InvalidAlias string | AliasTargetMissing string string
  | WrongDefaultType | InvalidBoolean string | InvalidInteger string | InputInvalidPath | InvalidString | NotRuntime

datatype shell_arg_error = ShellInvalidId | EmptyCommand | InvalidCommand | EmptyArgument

datatype provider_error =
    ProviderInvalidId | EmptyExecutable | InvalidExecutable | EmptyArg | InvalidArg | InvalidGlob | EmptyPrepareArgv
  | ProviderInvalidCondition | InvalidShellenv | InvalidTimeout | DuplicateDependency

datatype dev_error =
    UnsupportedSchema u32 u32
  | InvalidProfileId string
  | InvalidProfileReference string string
  | DuplicateProfileId string
  | MissingParentProfile string string
  | ProfileCycle "string list"
  | UnknownDefaultProfile string
  | InvalidValue string reason
  | DevEnvironmentName string string
  | InvalidEnvironmentValue string reason
  | InvalidPath string reason
  | InvalidShell string shell_arg_error
  | MissingDefaultShell string
  | InvalidProvider string provider_error
  | MissingProviderDependency string string
  | ProviderDependencyCycle "string list"
  | InvalidInput string dev_input_error
  | UnknownInput string
  | DevInvalidCondition string dev_condition_error
  | InvalidOverride string reason
  | WorkspaceOverrideNotAllowed string
  | CliOverrideNotAllowed string
  | PreferChildPolicyNotTrusted
  | RecursionBound

type_synonym 'a dev_result = "(dev_error, 'a) result"

section \<open>Names, paths and globs\<close>

definition is_ascii_alphabetic :: "char \<Rightarrow> bool" where
  "is_ascii_alphabetic c \<longleftrightarrow> is_ascii_uppercase c \<or> is_ascii_lowercase c"

definition dev_is_env_name :: "string \<Rightarrow> bool" where
  "dev_is_env_name s = (case s of [] \<Rightarrow> False | c # cs \<Rightarrow>
     (is_ascii_uppercase c \<or> c = CHR ''_'') \<and> list_all (\<lambda>c. is_ascii_uppercase c \<or> is_ascii_digit c \<or> c = CHR ''_'') cs)"

definition is_posix_env_name :: "string \<Rightarrow> bool" where
  "is_posix_env_name s = (case s of [] \<Rightarrow> False | c # cs \<Rightarrow>
     (is_ascii_alphabetic c \<or> c = CHR ''_'') \<and> list_all (\<lambda>c. is_ascii_alphanumeric c \<or> c = CHR ''_'') cs)"

definition validate_env_name :: "string \<Rightarrow> string \<Rightarrow> unit dev_result" where
  "validate_env_name s location =
     fail_if (\<not> dev_is_env_name s \<or> has_char s (CHR ''='') \<or> has_char s (CHR 0x00)) (DevEnvironmentName location s)"

definition is_identifier :: "string \<Rightarrow> bool" where
  "is_identifier s \<longleftrightarrow> s \<noteq> [] \<and> list_all (\<lambda>c. is_ascii_alphanumeric c \<or> c \<in> {CHR ''_'', CHR ''-'', CHR ''.''}) s"

definition config_part_char :: "char \<Rightarrow> bool" where
  "config_part_char c \<longleftrightarrow> is_ascii_alphanumeric c \<or> c \<in> {CHR ''_'', CHR ''-''}"

definition dev_is_config_path :: "string \<Rightarrow> bool" where
  "dev_is_config_path s \<longleftrightarrow> s \<noteq> [] \<and>
     (let parts = split_char (CHR ''.'') s in
      \<not> list_ex (\<lambda>part. part = [] \<or> part = ''..'') parts \<and>
      list_all (\<lambda>(index, part). part = ''*'' \<and> index + 1 = length parts \<or> list_all config_part_char part) (enumerate 0 parts))"

definition validate_id :: "string \<Rightarrow> string \<Rightarrow> unit dev_result" where
  "validate_id s location = fail_if (\<not> is_identifier s) (InvalidValue location InvalidIdentifier)"

definition validate_config_path :: "string \<Rightarrow> string \<Rightarrow> unit dev_result" where
  "validate_config_path s location = fail_if (\<not> dev_is_config_path s) (InvalidValue location InvalidIdentifier)"

definition validate_nonempty_text :: "string \<Rightarrow> string \<Rightarrow> bool \<Rightarrow> unit dev_result" where
  "validate_nonempty_text s location allow_newlines =
     rbind (fail_if (s = []) (InvalidValue location ReasonEmpty)) (\<lambda>_.
     rbind (fail_if (has_char s (CHR 0x00)) (InvalidValue location ReasonNul)) (\<lambda>_.
     fail_if (\<not> allow_newlines \<and> (has_char s (CHR 0x0A) \<or> has_char s (CHR 0x0D))) (InvalidValue location ReasonNewline)))"

definition validate_command_arg :: "string \<Rightarrow> string \<Rightarrow> unit dev_result" where
  "validate_command_arg s location = validate_nonempty_text s location False"

definition dev_shell_syntax :: "string \<Rightarrow> bool" where
  "dev_shell_syntax s \<longleftrightarrow> str_contains s ''$('' \<or> has_char s (CHR 0x60) \<or> has_char s (CHR '';'') \<or> has_char s (CHR ''|'') \<or>
     has_char s (CHR ''&'') \<or> has_char s (CHR ''>'') \<or> has_char s (CHR ''<'')"

definition dev_traversal :: "string \<Rightarrow> bool" where
  "dev_traversal s = list_ex (\<lambda>component. component = ''..'') (split_char (CHR ''/'') s)"

definition dev_validate_path :: "string \<Rightarrow> string \<Rightarrow> unit dev_result" where
  "dev_validate_path s location =
     rbind (validate_nonempty_text s location False) (\<lambda>_.
     rbind (fail_if (\<not> starts_with s ''/'' \<and> \<not> starts_with s ''${'') (InvalidPath location AbsolutePathRequired)) (\<lambda>_.
     rbind (fail_if (dev_traversal s) (InvalidPath location PathTraversal)) (\<lambda>_.
     rbind (fail_if (dev_shell_syntax s) (InvalidPath location ShellMetacharacter)) (\<lambda>_.
     fail_if (has_char s (CHR ''$'') \<and> \<not> str_contains s ''${'') (InvalidPath location ShellMetacharacter)))))"

definition validate_concrete_path :: "string \<Rightarrow> string \<Rightarrow> unit dev_result" where
  "validate_concrete_path s location =
     rbind (dev_validate_path s location) (\<lambda>_. fail_if (str_contains s ''${'') (InvalidPath location ReasonInvalidPath))"

definition dev_is_reference :: "string \<Rightarrow> bool" where
  "dev_is_reference s = (case split_once (CHR ''.'') s of None \<Rightarrow> False | Some (namespace, name) \<Rightarrow>
     if namespace = ''workspace'' then name \<in> {''root'', ''cwd''}
     else if namespace = ''context'' then name \<in> {''cwd'', ''os'', ''arch''}
     else if namespace \<in> {''input'', ''env''} then dev_is_env_name name
     else if namespace \<in> {''config'', ''features''} then dev_is_config_path name
     else False)"

definition validate_glob :: "string \<Rightarrow> string \<Rightarrow> unit dev_result" where
  "validate_glob s location =
     rbind (validate_nonempty_text s location False) (\<lambda>_.
     rbind (fail_if (starts_with s ''/'' \<or> dev_traversal s) (InvalidPath location ReasonInvalidPath)) (\<lambda>_.
     fail_if (dev_shell_syntax s) (InvalidPath location ShellMetacharacter)))"

section \<open>Value trees\<close>

type_synonym i64 = "64 word"
type_synonym f64 = "64 word"

datatype value_tree =
    VNull | VBool bool | VInteger i64 | VFloat f64 | VString string | VArray "value_tree list" | VMap "(string \<times> value_tree) list"

text \<open>\<open>f64::eq\<close> on bit patterns: no value equals a NaN, and both zeros are equal.\<close>

definition f64_nan :: "f64 \<Rightarrow> bool" where
  "f64_nan a \<longleftrightarrow> 0x7FF0000000000000 < unat a mod 2 ^ 63"

definition f64_eq :: "f64 \<Rightarrow> f64 \<Rightarrow> bool" where
  "f64_eq a b \<longleftrightarrow> \<not> f64_nan a \<and> \<not> f64_nan b \<and> (a = b \<or> unat a mod 2 ^ 63 = 0 \<and> unat b mod 2 ^ 63 = 0)"

fun tree_as_map :: "value_tree \<Rightarrow> (string, value_tree) btree_map option" where
  "tree_as_map (VMap vs) = Some vs"
| "tree_as_map _ = None"

definition tree_get :: "value_tree \<Rightarrow> string \<Rightarrow> value_tree option" where
  "tree_get tree key = (case tree_as_map tree of None \<Rightarrow> None | Some vs \<Rightarrow> btree_get key vs)"

fun tree_as_str :: "value_tree \<Rightarrow> string option" where
  "tree_as_str (VString s) = Some s"
| "tree_as_str _ = None"

fun tree_as_bool :: "value_tree \<Rightarrow> bool option" where
  "tree_as_bool (VBool b) = Some b"
| "tree_as_bool _ = None"

definition map_key_ok :: "string \<Rightarrow> bool" where
  "map_key_ok key \<longleftrightarrow> key \<noteq> [] \<and> \<not> has_char key (CHR 0x00)"

fun tree_validate :: "value_tree \<Rightarrow> string \<Rightarrow> unit dev_result"
  and array_validate :: "value_tree list \<Rightarrow> nat \<Rightarrow> string \<Rightarrow> unit dev_result"
  and map_validate :: "(string \<times> value_tree) list \<Rightarrow> string \<Rightarrow> unit dev_result" where
  "tree_validate (VString s) location = fail_if (has_char s (CHR 0x00)) (InvalidValue location ReasonNul)"
| "tree_validate (VArray vs) location = array_validate vs 0 location"
| "tree_validate (VMap vs) location = map_validate vs location"
| "tree_validate VNull location = Inr ()"
| "tree_validate (VBool b) location = Inr ()"
| "tree_validate (VInteger n) location = Inr ()"
| "tree_validate (VFloat x) location = Inr ()"
| "array_validate [] index location = Inr ()"
| "array_validate (v # vs) index location =
     rbind (tree_validate v (location @ ''['' @ to_decimal index @ '']'')) (\<lambda>_. array_validate vs (Suc index) location)"
| "map_validate [] location = Inr ()"
| "map_validate ((key, v) # vs) location =
     rbind (fail_if (\<not> map_key_ok key) (InvalidValue location InvalidMapKey)) (\<lambda>_.
     rbind (tree_validate v (location @ ''.'' @ key)) (\<lambda>_. map_validate vs location))"

section \<open>Path templates\<close>

datatype path_render_error = UnterminatedInterpolation | MissingValue string | InvalidRenderedPath

text \<open>The cursor of \<open>validate_interpolations\<close> is the rest of the input.\<close>

function dev_validate_interpolations :: "string \<Rightarrow> unit dev_result" where
  "dev_validate_interpolations rest =
     (case rest of
        [] \<Rightarrow> Inr ()
      | c # cs \<Rightarrow>
          if c = CHR ''$'' then
            (if \<not> starts_with rest ''${'' then Inl (InvalidPath ''path'' ReasonInvalidPath)
             else case str_find ''}'' (drop 2 rest) of
               None \<Rightarrow> Inl (InvalidPath ''path'' ReasonInvalidPath)
             | Some end_ \<Rightarrow>
                 if \<not> dev_is_reference (take end_ (drop 2 rest)) then Inl (InvalidPath ''path'' ReasonUnsupported)
                 else dev_validate_interpolations (drop (end_ + 3) rest))
          else if c = CHR ''}'' then Inl (InvalidPath ''path'' ReasonInvalidPath)
          else dev_validate_interpolations cs)"
  by pat_completeness auto
termination
  by (relation "measure length") auto

declare dev_validate_interpolations.simps [simp del]

definition dev_path_template_new :: "string \<Rightarrow> string dev_result" where
  "dev_path_template_new input =
     rbind (dev_validate_path input ''path'') (\<lambda>_. rbind (dev_validate_interpolations input) (\<lambda>_. Inr input))"

function dev_render_loop :: "string \<Rightarrow> (string, string) btree_map \<Rightarrow> string \<Rightarrow> (path_render_error, string) result" where
  "dev_render_loop output vs rest =
     (case str_find ''${'' rest of
        None \<Rightarrow> Inr (output @ rest)
      | Some start \<Rightarrow>
          (let after_start = drop (start + 2) rest in
           case str_find ''}'' after_start of
             None \<Rightarrow> Inl UnterminatedInterpolation
           | Some end_ \<Rightarrow>
               (case btree_get (take end_ after_start) vs of
                  None \<Rightarrow> Inl (MissingValue (take end_ after_start))
                | Some v \<Rightarrow> dev_render_loop (output @ take start rest @ v) vs (drop (end_ + 1) after_start))))"
  by pat_completeness auto
termination
  by (relation "measure (\<lambda>(output, vs, rest). length rest)") (auto dest: str_find_Some(1))

declare dev_render_loop.simps [simp del]

definition dev_render :: "string \<Rightarrow> (string, string) btree_map \<Rightarrow> (path_render_error, string) result" where
  "dev_render template vs =
     rbind (dev_render_loop [] vs template) (\<lambda>output.
     rbind (fail_if (output = [] \<or> \<not> starts_with output ''/'' \<or> has_char output (CHR 0x00) \<or> has_char output (CHR 0x0A) \<or>
         has_char output (CHR 0x0D) \<or> has_char output (CHR ''$'') \<or> has_char output (CHR ''{'') \<or> has_char output (CHR ''}'') \<or>
         dev_traversal output \<or> dev_shell_syntax output) InvalidRenderedPath) (\<lambda>_.
     Inr output))"

section \<open>Conditions\<close>

datatype dev_condition_value = DevReference string | DevLiteral string | DevBoolean bool

datatype dev_condition =
    DevAlways
  | DevBool bool
  | DevRef string
  | DevEqual dev_condition_value dev_condition_value
  | DevNotEqual dev_condition_value dev_condition_value
  | DevAnd "dev_condition list"
  | DevOr "dev_condition list"
  | DevNot dev_condition

definition validate_reference :: "string \<Rightarrow> (dev_condition_error, unit) result" where
  "validate_reference input =
     (let valid = (case split_once (CHR ''.'') input of
        Some (namespace, rest) \<Rightarrow>
          if namespace = ''provider'' then rest = ''enabled'' \<or> dev_is_config_path rest
          else if namespace = ''workspace'' then rest \<in> {''config-present'', ''writable'', ''root''}
          else if namespace \<in> {''features'', ''config''} then dev_is_config_path rest
          else if namespace \<in> {''input'', ''env''} then dev_is_env_name rest
          else if namespace = ''context'' then rest \<in> {''cwd'', ''os'', ''arch''}
          else False
      | None \<Rightarrow> False) in
      if valid then Inr () else Inl (InvalidReference input))"

definition dev_condition_value_parse :: "string \<Rightarrow> (dev_condition_error, dev_condition_value) result" where
  "dev_condition_value_parse raw =
     (let input = trim raw in
      if input = ''true'' then Inr (DevBoolean True)
      else if input = ''false'' then Inr (DevBoolean False)
      else if starts_with input [dquote] \<and> ends_with input [dquote] \<or> starts_with input [squote] \<and> ends_with input [squote] then
        (if length input < 2 then Inl ConditionUnterminatedString else Inr (DevLiteral (slice 1 (length input - 1) input)))
      else if list_all is_ascii_digit input \<and> input \<noteq> [] then Inr (DevLiteral input)
      else rbind (validate_reference input) (\<lambda>_. Inr (DevReference input)))"

fun dev_map_shared_error :: "parse_error \<Rightarrow> dev_condition_error" where
  "dev_map_shared_error Empty = ConditionEmpty"
| "dev_map_shared_error (EmptyOperand operator) = ConditionEmptyOperand operator"
| "dev_map_shared_error (InvalidComparison v) = ConditionInvalidValue v"
| "dev_map_shared_error UnterminatedString = ConditionUnterminatedString"
| "dev_map_shared_error UnbalancedParentheses = ConditionUnbalancedParentheses"

fun dev_from_shared :: "expr \<Rightarrow> (dev_condition_error, dev_condition) result" where
  "dev_from_shared (Atom input) =
     (if input = ''always'' then Inr DevAlways
      else if input = ''true'' then Inr (DevBool True)
      else if input = ''false'' then Inr (DevBool False)
      else rbind (validate_reference input) (\<lambda>_. Inr (DevRef input)))"
| "dev_from_shared (Equal left right) =
     rbind (dev_condition_value_parse left) (\<lambda>l. rbind (dev_condition_value_parse right) (\<lambda>r. Inr (DevEqual l r)))"
| "dev_from_shared (NotEqual left right) =
     rbind (dev_condition_value_parse left) (\<lambda>l. rbind (dev_condition_value_parse right) (\<lambda>r. Inr (DevNotEqual l r)))"
| "dev_from_shared (And children) = rbind (collect_results (map dev_from_shared children)) (\<lambda>cs. Inr (DevAnd cs))"
| "dev_from_shared (Or children) = rbind (collect_results (map dev_from_shared children)) (\<lambda>cs. Inr (DevOr cs))"
| "dev_from_shared (Not child) = rbind (dev_from_shared child) (\<lambda>c. Inr (DevNot c))"

definition dev_condition_parse :: "string \<Rightarrow> (dev_condition_error, dev_condition) result" where
  "dev_condition_parse raw =
     (let input = trim raw in
      rbind (fail_if (input = []) ConditionEmpty) (\<lambda>_.
      rbind (fail_if (str_contains input ''$('' \<or> has_char input (CHR 0x60) \<or> has_char input (CHR '';'') \<or>
          has_char input (CHR ''|'') \<and> \<not> str_contains input ''||'' \<or> has_char input (CHR ''>'') \<or> has_char input (CHR ''<''))
        ConditionShellSyntax) (\<lambda>_.
      rbind (map_err dev_map_shared_error (parse input)) dev_from_shared)))"

end
