(* ===== verification/Dev_Shellenv.thy ===== *)
theory Dev_Shellenv
  imports Dev_Types
begin

text \<open>
  Environments as text. What a provider prints is read by \<open>ShellEnvEntry::parse\<close>
  (\<open>src/crates/dev-env-model/src/shell.rs\<close>) or as dotenv or JSON
  (\<open>src/crates/dev-env-provider/src/environment.rs\<close>) into a delta; what the program prints for a
  shell is written by \<open>src/crates/dev-env-shell/src/environment.rs\<close>. The values are those of
  \<open>materialized.rs\<close> and \<open>provenance.rs\<close>. The JSON reader is a parameter.
\<close>

section \<open>Provenance and materialized values\<close>

datatype sensitivity = Public | Sensitive | Secret

datatype source_id = SourceProfile string | SourceFile string | SourceEnvironment string | SourceCli | SourceUnknown

datatype layer = LayerProfile | LayerAdmin | LayerUser | LayerWorkspace | LayerRuntime | LayerCli

record origin =
  or_source :: source_id
  or_line :: "u32 option"
  or_column :: "u32 option"
  or_layer :: layer
  or_reason :: "string option"

definition origin_new :: "source_id \<Rightarrow> layer \<Rightarrow> origin" where
  "origin_new source layer = \<lparr>or_source = source, or_line = None, or_column = None, or_layer = layer, or_reason = None\<rparr>"

definition origin_environment :: "string \<Rightarrow> origin" where
  "origin_environment name = origin_new (SourceEnvironment name) LayerRuntime"

fun sensitivity_rank :: "sensitivity \<Rightarrow> nat" where
  "sensitivity_rank Public = 0"
| "sensitivity_rank Sensitive = 1"
| "sensitivity_rank Secret = 2"

instantiation sensitivity :: linorder
begin

definition less_eq_sensitivity :: "sensitivity \<Rightarrow> sensitivity \<Rightarrow> bool" where
  "less_eq_sensitivity a b \<longleftrightarrow> sensitivity_rank a \<le> sensitivity_rank b"

definition less_sensitivity :: "sensitivity \<Rightarrow> sensitivity \<Rightarrow> bool" where
  "less_sensitivity a b \<longleftrightarrow> sensitivity_rank a < sensitivity_rank b"

lemma sensitivity_rank_inj: "sensitivity_rank a = sensitivity_rank b \<longleftrightarrow> a = b"
  by (cases a; cases b) auto

instance
  by standard (auto simp: less_eq_sensitivity_def less_sensitivity_def sensitivity_rank_inj dest: antisym)

end

record provenance_entry =
  pe_path :: string
  pe_origins :: "origin list"
  pe_sensitivity :: sensitivity

type_synonym provenance_index = "(string, provenance_entry) btree_map"

definition provenance_insert :: "string \<Rightarrow> origin \<Rightarrow> sensitivity \<Rightarrow> provenance_index \<Rightarrow> provenance_index" where
  "provenance_insert path origin sensitivity index =
     (let entry = (case btree_get path index of
        Some entry \<Rightarrow> entry | None \<Rightarrow> \<lparr>pe_path = path, pe_origins = [], pe_sensitivity = sensitivity\<rparr>) in
      btree_insert path (entry\<lparr>pe_sensitivity := max (pe_sensitivity entry) sensitivity, pe_origins := pe_origins entry @ [origin]\<rparr>) index)"

record env_value =
  ev_value :: string
  ev_origin :: "origin option"
  ev_sensitivity :: sensitivity
  ev_provider :: "string option"

definition env_value_public :: "string \<Rightarrow> env_value" where
  "env_value_public v = \<lparr>ev_value = v, ev_origin = None, ev_sensitivity = Public, ev_provider = None\<rparr>"

definition env_value_validate :: "env_value \<Rightarrow> string \<Rightarrow> unit dev_result" where
  "env_value_validate v name =
     rbind (fail_if (\<not> is_posix_env_name name) (DevEnvironmentName (''environment.variables.'' @ name) name)) (\<lambda>_.
     fail_if (has_char (ev_value v) (CHR 0x00)) (InvalidEnvironmentValue (''environment.variables.'' @ name) ReasonNul))"

record provider_receipt =
  pr_provider :: string
  pr_config_fingerprint :: "u8 list"
  pr_workspace_fingerprint :: "u8 list"
  pr_version :: "string option"
  pr_completed_at :: "string option"

record materialized_env =
  me_values :: "(string, env_value) btree_map"
  me_config_fingerprint :: "u8 list"
  me_provider_receipts :: "provider_receipt list"

definition materialized_new :: "(string, env_value) btree_map \<Rightarrow> u8 list \<Rightarrow> materialized_env" where
  "materialized_new vs fingerprint = \<lparr>me_values = vs, me_config_fingerprint = fingerprint, me_provider_receipts = []\<rparr>"

definition materialized_validate :: "materialized_env \<Rightarrow> unit dev_result" where
  "materialized_validate env = for_each (\<lambda>(name, v). env_value_validate v name) (me_values env)"

section \<open>Reading\<close>

datatype shell_env_entry = SetEntry string string | UnsetEntry string

datatype shell_env_error =
    EmptyAssignment | InvalidName string | InvalidStatement | ShellenvNul | ShellenvNewline | ShellenvSyntax | UnterminatedQuote | InvalidEscape

abbreviation newline :: char where "newline \<equiv> CHR 0x0A"
abbreviation backslash :: char where "backslash \<equiv> CHR 0x5C"

definition strip_suffix :: "string \<Rightarrow> string \<Rightarrow> string option" where
  "strip_suffix p s = (if suffix p s then Some (take (length s - length p) s) else None)"

definition double_quote_escape :: "char \<Rightarrow> char option" where
  "double_quote_escape c =
     (if c = CHR ''n'' then Some newline else if c = CHR ''r'' then Some (CHR 0x0D) else if c = CHR ''t'' then Some (CHR 0x09)
      else if c \<in> {backslash, dquote, CHR ''$'', CHR 0x60} then Some c else None)"

fun shellenv_value :: "char option \<Rightarrow> string \<Rightarrow> string \<Rightarrow> (shell_env_error, string) result" where
  "shellenv_value quote output [] = (if quote \<noteq> None then Inl UnterminatedQuote else Inr output)"
| "shellenv_value quote output (c # cs) =
     (if quote = Some squote then
        (if c = squote then shellenv_value None output cs else shellenv_value quote (output @ [c]) cs)
      else if quote = Some dquote then
        (if c = dquote then shellenv_value None output cs
         else if c = backslash then
           (case cs of [] \<Rightarrow> Inl InvalidEscape | e # rest \<Rightarrow>
              (case double_quote_escape e of None \<Rightarrow> Inl InvalidEscape | Some d \<Rightarrow> shellenv_value quote (output @ [d]) rest))
         else if c = CHR ''$'' \<and> starts_with cs [lparen] then Inl ShellenvSyntax
         else shellenv_value quote (output @ [c]) cs)
      else
        (if c = squote \<or> c = dquote then shellenv_value (Some c) output cs
         else if c = backslash then
           (case cs of [] \<Rightarrow> Inl InvalidEscape | e # rest \<Rightarrow>
              if e = newline then Inl InvalidEscape else shellenv_value None (output @ [e]) rest)
         else if c = CHR ''$'' \<and> starts_with cs [lparen] then Inl ShellenvSyntax
         else if c = CHR '';'' \<and> cs = [] then Inr output
         else if c \<in> {CHR 0x60, CHR '';'', CHR ''|'', CHR ''&'', CHR ''>'', CHR ''<''} then Inl ShellenvSyntax
         else if pat_len ws_patterns (c # cs) \<noteq> 0 then Inl ShellenvSyntax
         else shellenv_value None (output @ [c]) cs))"

fun update_quote_state :: "string \<Rightarrow> char option \<Rightarrow> char option" where
  "update_quote_state [] quote = quote"
| "update_quote_state (c # cs) quote =
     (if quote = Some squote then update_quote_state cs (if c = squote then None else quote)
      else if quote = Some dquote then
        (if c = backslash then (case cs of [] \<Rightarrow> quote | _ # rest \<Rightarrow> update_quote_state rest quote)
         else update_quote_state cs (if c = dquote then None else quote))
      else if c = squote \<or> c = dquote then update_quote_state cs (Some c)
      else if c = backslash then (case cs of [] \<Rightarrow> quote | _ # rest \<Rightarrow> update_quote_state rest quote)
      else update_quote_state cs quote)"

definition parse_line :: "string \<Rightarrow> (shell_env_error, shell_env_entry option) result" where
  "parse_line line =
     (if line = [] then Inr None
      else rbind (fail_if (has_char line (CHR 0x00)) ShellenvNul) (\<lambda>_.
      rbind (fail_if (has_char line (CHR 0x0D)) ShellenvNewline) (\<lambda>_.
      let statement = trim line in
      if statement = [] \<or> statement = ''hash -r'' then Inr None
      else case strip_prefix ''unset '' statement of
        Some name \<Rightarrow>
          (let name = unwrap_or name (strip_suffix '';'' name) in
           if name = [] \<or> contains_whitespace name \<or> \<not> is_posix_env_name name then Inl (InvalidName name)
           else Inr (Some (UnsetEntry name)))
      | None \<Rightarrow>
          (case split_once (CHR ''='') (unwrap_or statement (strip_prefix ''export '' statement)) of
             None \<Rightarrow> Inl InvalidStatement
           | Some (name, raw) \<Rightarrow>
               if name = [] then Inl EmptyAssignment
               else if \<not> is_posix_env_name name then Inl (InvalidName name)
               else rbind (shellenv_value None [] raw) (\<lambda>v. Inr (Some (SetEntry name v)))))))"

definition push_entry :: "shell_env_entry list \<Rightarrow> shell_env_entry option \<Rightarrow> shell_env_entry list" where
  "push_entry entries entry = (case entry of None \<Rightarrow> entries | Some e \<Rightarrow> entries @ [e])"

text \<open>The loop over the lines: the entries so far, the statement that is not complete yet and its open quote.\<close>

fun shellenv_lines ::
  "shell_env_entry list \<Rightarrow> string \<Rightarrow> char option \<Rightarrow> string list \<Rightarrow> (shell_env_error, shell_env_entry list) result" where
  "shellenv_lines entries statement quote [] =
     (if statement \<noteq> [] then rbind (parse_line statement) (\<lambda>entry. Inr (push_entry entries entry)) else Inr entries)"
| "shellenv_lines entries statement quote (line # remaining) =
     (let statement = (if statement \<noteq> [] then statement @ [newline] else statement) @ line;
          quote = update_quote_state line quote in
      if quote \<noteq> None then shellenv_lines entries statement quote remaining
      else rbind (parse_line statement) (\<lambda>entry. shellenv_lines (push_entry entries entry) [] None remaining))"

definition shellenv_parse :: "string \<Rightarrow> (shell_env_error, shell_env_entry list) result" where
  "shellenv_parse output = shellenv_lines [] [] None (split_char newline output)"

datatype dotenv_error = InvalidLine nat | DotenvShell nat shell_env_error

definition dotenv_line :: "nat \<times> string \<Rightarrow> (dotenv_error, shell_env_entry) result" where
  "dotenv_line numbered =
     rbind (map_err (DotenvShell (fst numbered)) (parse_line (snd numbered))) (ok_or (InvalidLine (fst numbered)))"

definition parse_dotenv :: "string \<Rightarrow> (dotenv_error, shell_env_entry list) result" where
  "parse_dotenv output =
     collect_results (map dotenv_line (filter (\<lambda>(_, line). trim line \<noteq> [] \<and> \<not> starts_with (trim line) ''#'')
       (enumerate 1 (lines output))))"

text \<open>A JSON document, as far as the environment reader looks at it.\<close>

datatype json_member = JsonString string | JsonNull | JsonOther
datatype json_document = JsonObject "(string \<times> json_member) list" | JsonNotObject

datatype 'j json_environment_error = JsonParse 'j | RootNotObject | NonString string | JsonInvalidName string

definition json_entry :: "string \<times> json_member \<Rightarrow> ('j json_environment_error, shell_env_entry) result" where
  "json_entry member = (let name = fst member in
     if \<not> dev_is_env_name name then Inl (JsonInvalidName name)
     else case snd member of JsonString v \<Rightarrow> Inr (SetEntry name v) | JsonNull \<Rightarrow> Inr (UnsetEntry name) | JsonOther \<Rightarrow> Inl (NonString name))"

definition parse_json ::
  "(string \<Rightarrow> ('j, json_document) result) \<Rightarrow> string \<Rightarrow> ('j json_environment_error, shell_env_entry list) result" where
  "parse_json from_str output =
     rbind (map_err JsonParse (from_str output)) (\<lambda>document.
     case document of JsonNotObject \<Rightarrow> Inl RootNotObject | JsonObject members \<Rightarrow> collect_results (map json_entry members))"

datatype shell_env_format = FormatShell | FormatDotenv | FormatJson

datatype 'j environment_parse_error = ParseShell shell_env_error | ParseDotenv dotenv_error | ParseJson "'j json_environment_error"

definition parse_output ::
  "(string \<Rightarrow> ('j, json_document) result) \<Rightarrow> shell_env_format \<Rightarrow> string \<Rightarrow>
   ('j environment_parse_error, shell_env_entry list) result" where
  "parse_output from_str format output =
     (case format of
        FormatShell \<Rightarrow> map_err ParseShell (shellenv_parse output)
      | FormatDotenv \<Rightarrow> map_err ParseDotenv (parse_dotenv output)
      | FormatJson \<Rightarrow> map_err ParseJson (parse_json from_str output))"

section \<open>Deltas\<close>

record environment_delta =
  ed_set :: "(string, string) btree_map"
  ed_unset :: "string list"

definition delta_empty :: environment_delta where
  "delta_empty = \<lparr>ed_set = [], ed_unset = []\<rparr>"

fun apply_entry :: "shell_env_entry \<Rightarrow> environment_delta \<Rightarrow> environment_delta" where
  "apply_entry (SetEntry name v) delta = delta\<lparr>ed_unset := remove1 name (ed_unset delta), ed_set := btree_insert name v (ed_set delta)\<rparr>"
| "apply_entry (UnsetEntry name) delta = delta\<lparr>ed_set := btree_remove name (ed_set delta), ed_unset := set_insert name (ed_unset delta)\<rparr>"

definition apply_entries :: "shell_env_entry list \<Rightarrow> environment_delta \<Rightarrow> environment_delta" where
  "apply_entries entries delta = fold apply_entry entries delta"

definition delta_apply_to :: "environment_delta \<Rightarrow> (string, string) btree_map \<Rightarrow> (string, string) btree_map" where
  "delta_apply_to delta env = btree_extend (fold btree_remove (ed_unset delta) env) (ed_set delta)"

section \<open>Printing\<close>

definition rendered_value :: "bool \<Rightarrow> env_value \<Rightarrow> string" where
  "rendered_value show_secrets v = (if show_secrets \<or> ev_sensitivity v = Public then ev_value v else ''<redacted>'')"

definition quote_posix :: "string \<Rightarrow> string" where
  "quote_posix v = [squote] @ join [squote, backslash, squote, squote] (split_char squote v) @ [squote]"

definition format_shell :: "bool \<Rightarrow> materialized_env \<Rightarrow> string dev_result" where
  "format_shell show_secrets env =
     rbind (materialized_validate env) (\<lambda>_.
     Inr (concat (map (\<lambda>(name, v). ''export '' @ name @ ''='' @ quote_posix (rendered_value show_secrets v) @ [newline]) (me_values env))))"

definition format_dotenv :: "bool \<Rightarrow> materialized_env \<Rightarrow> string dev_result" where
  "format_dotenv show_secrets env =
     rbind (materialized_validate env) (\<lambda>_.
     Inr (concat (map (\<lambda>(name, v). name @ ''='' @ quote_posix (rendered_value show_secrets v) @ [newline]) (me_values env))))"

section \<open>Lemmas\<close>

text \<open>The body between the outer quotes, character by character.\<close>

definition quoted :: "string \<Rightarrow> string" where
  "quoted v = concat (map (\<lambda>c. if c = squote then [squote, backslash, squote, squote] else [c]) v)"

lemma quoted_simps [simp]:
  "quoted [] = []" "quoted (a @ b) = quoted a @ quoted b"
  "quoted (c # v) = (if c = squote then [squote, backslash, squote, squote] else [c]) @ quoted v"
  by (auto simp: quoted_def)

lemma join_quoted: "join [squote, backslash, squote, squote] (split_char squote v) = quoted v"
proof (induction v)
  case (Cons c v)
  obtain p ps where "split_char squote v = p # ps" by (cases "split_char squote v") auto
  with Cons show ?case by (cases ps) auto
qed simp

lemma quote_posix_quoted: "quote_posix v = [squote] @ quoted v @ [squote]"
  by (simp add: quote_posix_def join_quoted)

lemma shellenv_value_quoted: "shellenv_value (Some squote) out (quoted v @ [squote]) = Inr (out @ v)"
  by (induction v arbitrary: out) auto

lemma shellenv_value_quote_posix: "shellenv_value None [] (quote_posix v) = Inr v"
  using shellenv_value_quoted [of "[]" v] by (simp add: quote_posix_quoted)

lemma quote_state_quoted [simp]: "update_quote_state (quoted v @ rest) (Some squote) = update_quote_state rest (Some squote)"
  by (induction v) auto

lemma quote_state_plain: "set s \<inter> {squote, dquote, backslash} = {} \<Longrightarrow> update_quote_state (s @ rest) None = update_quote_state rest None"
  by (induction s) auto

lemma newline_quoted [simp]: "newline \<in> set (quoted v) \<longleftrightarrow> newline \<in> set v"
  by (induction v) auto

lemma mem_quoted: "c \<in> set (quoted v) \<Longrightarrow> c \<in> set v \<or> c = squote \<or> c = backslash"
  by (induction v) (auto split: if_splits)

lemma posix_name_chars: "is_posix_env_name s \<Longrightarrow> c \<in> set s \<Longrightarrow> is_ascii_alphanumeric c \<or> c = CHR ''_''"
  by (cases s) (auto simp: is_posix_env_name_def is_ascii_alphabetic_def is_ascii_alphanumeric_def list_all_iff)

lemma posix_name_special:
  "is_posix_env_name s \<Longrightarrow> set s \<inter> {squote, dquote, backslash, newline, CHR 0x00, CHR 0x0D, CHR ''='', CHR '' ''} = {}"
proof -
  assume "is_posix_env_name s"
  then have "is_ascii_alphanumeric c \<or> c = CHR ''_''" if "c \<in> set s" for c using that posix_name_chars by blast
  moreover have "\<not> (is_ascii_alphanumeric c \<or> c = CHR ''_'')"
    if "c \<in> {squote, dquote, backslash, newline, CHR 0x00, CHR 0x0D, CHR ''='', CHR '' ''}" for c
    using that by (auto simp: is_ascii_alphanumeric_def is_ascii_digit_def is_ascii_uppercase_def is_ascii_lowercase_def)
  ultimately show ?thesis by blast
qed

text \<open>One printed statement is read back.\<close>

lemma parse_line_export:
  assumes "is_posix_env_name name" "CHR 0x00 \<notin> set v" "CHR 0x0D \<notin> set v"
  shows "parse_line (''export '' @ name @ ''='' @ quote_posix v) = Inr (Some (SetEntry name v))"
proof -
  let ?s = "''export '' @ name @ ''='' @ quote_posix v"
  note special = posix_name_special [OF assms(1)]
  have chars: "CHR 0x00 \<notin> set ?s" "CHR 0x0D \<notin> set ?s"
    using special assms(2,3) mem_quoted [of _ v] by (auto simp: quote_posix_quoted)
  have trim: "trim ?s = ?s"
    by (intro trim_trimmed trimmedI) (auto simp: quote_posix_quoted ws_ascii_def)
  have once: "split_once (CHR ''='') (name @ ''='' @ quote_posix v) = Some (name, quote_posix v)"
    using special by (auto simp: split_once_Some)
  have "name \<noteq> []" using assms(1) by (auto simp: is_posix_env_name_def)
  moreover have "strip_prefix ''unset '' ?s = None" "strip_prefix ''export '' ?s = Some (name @ ''='' @ quote_posix v)" "?s \<noteq> ''hash -r''"
    by (simp_all add: strip_prefix_def)
  ultimately show ?thesis
    using chars trim once shellenv_value_quote_posix [of v] assms(1) by (simp add: parse_line_def fail_if_def)
qed

text \<open>A value with line feeds is put together again from its lines.\<close>

lemma split_newline_quoted:
  "newline \<notin> set p \<Longrightarrow> split_char newline (quoted p @ newline # s) = quoted p # split_char newline s"
  by (simp add: split_char_append)

lemma shellenv_lines_quoted:
  assumes "statement \<noteq> []"
  shows "shellenv_lines entries statement (Some squote) (split_char newline (quoted v @ squote # newline # rest)) =
    rbind (parse_line (statement @ newline # quoted v @ [squote]))
      (\<lambda>entry. shellenv_lines (push_entry entries entry) [] None (split_char newline rest))"
  using assms
proof (induction "length v" arbitrary: v statement rule: less_induct)
  case less
  show ?case
  proof (cases "newline \<in> set v")
    case False
    then have "split_char newline (quoted v @ squote # newline # rest) = (quoted v @ [squote]) # split_char newline rest"
      using split_char_append [of newline "quoted v @ [squote]" rest] by simp
    then show ?thesis using less.prems by (simp add: Let_def)
  next
    case True
    then obtain p w where v: "v = p @ newline # w" "newline \<notin> set p" by (meson split_list_first)
    have "split_char newline (quoted v @ squote # newline # rest) = quoted p # split_char newline (quoted w @ squote # newline # rest)"
      using split_newline_quoted [of p] v by simp
    moreover have "update_quote_state (quoted p) (Some squote) = Some squote" using quote_state_quoted [of p "[]"] by simp
    ultimately show ?thesis using less.hyps [of w "statement @ newline # quoted p"] v less.prems by (simp add: Let_def)
  qed
qed

lemma shellenv_lines_export:
  assumes "is_posix_env_name name"
  shows "shellenv_lines entries [] None (split_char newline (''export '' @ name @ ''='' @ quote_posix v @ newline # rest)) =
    rbind (parse_line (''export '' @ name @ ''='' @ quote_posix v))
      (\<lambda>entry. shellenv_lines (push_entry entries entry) [] None (split_char newline rest))"
proof -
  let ?h = "''export '' @ name @ ''='' @ [squote]"
  note special = posix_name_special [OF assms(1)]
  have state: "update_quote_state (?h @ s) None = update_quote_state s (Some squote)" for s
    using quote_state_plain [of "''export '' @ name @ ''=''" "squote # s"] special by auto
  show ?thesis
  proof (cases "newline \<in> set v")
    case False
    then have "split_char newline (?h @ quoted v @ squote # newline # rest) = (?h @ quoted v @ [squote]) # split_char newline rest"
      using split_char_append [of newline "?h @ quoted v @ [squote]" rest] special by auto
    moreover have "update_quote_state (?h @ quoted v @ [squote]) None = None" by (subst state) simp
    ultimately show ?thesis by (simp add: quote_posix_quoted Let_def)
  next
    case True
    then obtain p w where v: "v = p @ newline # w" "newline \<notin> set p" by (meson split_list_first)
    then have "split_char newline (?h @ quoted v @ squote # newline # rest) =
        (?h @ quoted p) # split_char newline (quoted w @ squote # newline # rest)"
      using split_char_append [of newline "?h @ quoted p" "quoted w @ squote # newline # rest"] special by auto
    moreover have "update_quote_state (?h @ quoted p) None = Some squote"
      using quote_state_quoted [of p "[]"] by (subst state) simp
    ultimately show ?thesis
      using shellenv_lines_quoted [of "?h @ quoted p" entries w rest] v by (simp add: quote_posix_quoted Let_def)
  qed
qed

lemma parse_line_export_cr:
  assumes "is_posix_env_name name" "CHR 0x00 \<notin> set v" "CHR 0x0D \<in> set v"
  shows "parse_line (''export '' @ name @ ''='' @ quote_posix v) = Inl ShellenvNewline"
proof -
  let ?s = "''export '' @ name @ ''='' @ quote_posix v"
  have "CHR 0x00 \<notin> set ?s"
    using posix_name_special [OF assms(1)] assms(2) mem_quoted [of _ v] by (auto simp: quote_posix_quoted)
  moreover have "CHR 0x0D \<in> set (quoted v)" using assms(3) by (auto simp: quoted_def)
  then have "CHR 0x0D \<in> set ?s" by (simp add: quote_posix_quoted)
  ultimately show ?thesis by (simp add: parse_line_def fail_if_def)
qed

lemma shellenv_lines_exports:
  assumes "\<forall>(name, v) \<in> set bindings. is_posix_env_name name \<and> CHR 0x00 \<notin> set v"
  shows "shellenv_lines entries [] None (split_char newline (concat (map (\<lambda>(name, v). ''export '' @ name @ ''='' @ quote_posix v @ [newline]) bindings))) =
    (if \<exists>(name, v) \<in> set bindings. CHR 0x0D \<in> set v then Inl ShellenvNewline
     else Inr (entries @ map (\<lambda>(name, v). SetEntry name v) bindings))"
  using assms
proof (induction bindings arbitrary: entries)
  case Nil
  then show ?case by (simp add: parse_line_def push_entry_def)
next
  case (Cons x xs)
  obtain name v where x: "x = (name, v)" by (cases x)
  with Cons.prems have ok: "is_posix_env_name name" "CHR 0x00 \<notin> set v" by auto
  note read = shellenv_lines_export [OF ok(1), of entries v]
  show ?case
  proof (cases "CHR 0x0D \<in> set v")
    case True
    with x read parse_line_export_cr [OF ok True] show ?thesis by (simp add: append_assoc)
  next
    case False
    with x read parse_line_export [OF ok False] Cons show ?thesis by (simp add: append_assoc push_entry_def)
  qed
qed

text \<open>A delta made of settings alone: later ones win, nothing is unset.\<close>

lemma apply_entries_sets:
  "ed_unset delta = [] \<Longrightarrow> apply_entries (map (\<lambda>(name, v). SetEntry name v) bindings) delta =
     delta\<lparr>ed_set := btree_extend (ed_set delta) bindings\<rparr>"
proof (induction bindings arbitrary: delta)
  case Nil
  then show ?case by (simp add: apply_entries_def btree_extend_def)
next
  case (Cons x xs)
  obtain name v where "x = (name, v)" by (cases x)
  with Cons show ?case by (simp add: apply_entries_def btree_extend_def)
qed

section \<open>Properties\<close>

text \<open>
  C36. What the program prints for a POSIX shell, as its own reader takes it: every environment that validates is printed; the
  reader refuses it exactly when a shown value has a carriage return, which the printer lets through; otherwise it
  gets one setting for each variable, in order, with exactly the shown value: quotes, dollar signs, backquotes, line
  feeds and any other byte survive. The shown value is the value itself if it is public or secrets are asked
  for, and the placeholder \<open><redacted>\<close> in the other cases.
\<close>

theorem shell_export_roundtrip:
  assumes "materialized_validate env = Inr ()"
  shows "\<exists>output. format_shell show_secrets env = Inr output \<and>
    shellenv_parse output =
      (if \<exists>(name, v) \<in> set (me_values env). CHR 0x0D \<in> set (rendered_value show_secrets v) then Inl ShellenvNewline
       else Inr (map (\<lambda>(name, v). SetEntry name
         (if show_secrets \<or> ev_sensitivity v = Public then ev_value v else ''<redacted>'')) (me_values env)))"
proof -
  let ?vs = "map (\<lambda>(name, v). (name, rendered_value show_secrets v)) (me_values env)"
  have "\<forall>(name, v) \<in> set ?vs. is_posix_env_name name \<and> CHR 0x00 \<notin> set v"
    using assms by (auto simp: materialized_validate_def for_each_Inr_iff env_value_validate_def rbind_Inr_iff fail_if_Inr_iff rendered_value_def dest!: bspec split: if_splits)
  from shellenv_lines_exports [OF this, of "[]"] assms(1) show ?thesis
    by (simp add: format_shell_def shellenv_parse_def case_prod_unfold comp_def rendered_value_def)
qed

definition sample_environment :: materialized_env where
  "sample_environment = materialized_new
     [(''PS1'', env_value_public (''it'' @ [squote] @ ''s'' @ [newline] @ ''$(id)'')), (''TOKEN'', (env_value_public ''x'')\<lparr>ev_sensitivity := Secret\<rparr>)] []"

theorem shell_export_roundtrip_witness:
  "\<exists>output. format_shell False sample_environment = Inr output \<and>
    shellenv_parse output = Inr [SetEntry ''PS1'' (''it'' @ [squote] @ ''s'' @ [newline] @ ''$(id)''), SetEntry ''TOKEN'' ''<redacted>'']"
proof -
  have valid: "materialized_validate sample_environment = Inr ()" by code_simp
  have none: "(\<exists>(name, v) \<in> set (me_values sample_environment). CHR 0x0D \<in> set (rendered_value False v)) \<longleftrightarrow> False" by code_simp
  have shown: "map (\<lambda>(name, v). SetEntry name (if False \<or> ev_sensitivity v = Public then ev_value v else ''<redacted>''))
      (me_values sample_environment) =
    [SetEntry ''PS1'' (''it'' @ [squote] @ ''s'' @ [newline] @ ''$(id)''), SetEntry ''TOKEN'' ''<redacted>'']" by code_simp
  show ?thesis using shell_export_roundtrip [OF valid, of False] unfolding none shown if_False .
qed

end
