(* ===== verification/Profile_Graph.thy ===== *)
theory Profile_Graph
  imports Rust_Str
begin

text \<open>
  The crate \<open>profile-graph\<close> (\<open>src/crates/profile-graph/src/lib.rs\<close>): validation and
  parent-first traversal of profile inheritance. The callbacks are parameters: \<open>load\<close> reads
  an immutable profile collection, so it is a function of the id; \<open>apply\<close> threads the
  caller's state. The \<open>visiting\<close> stack is pushed before and popped after the loop over the
  parents, so it is passed down as an argument; \<open>visited\<close> and the caller's state are
  threaded through.
\<close>

section \<open>Data\<close>

datatype profile_graph_error =
    InvalidId string
  | DuplicateParent string string
  | InheritanceDepthExceeded nat
  | MissingProfile string
  | MissingParent string string
  | Cycle "string list"

datatype 'e traverse_error = Graph profile_graph_error | Source 'e

datatype 'e resolve_error = ResolveGraph profile_graph_error | ResolveSource 'e

type_synonym ('t, 'e) loader = "string \<Rightarrow> ('e, ('t \<times> string list) option) result"
type_synonym ('s, 't, 'e) applier = "'s \<Rightarrow> string \<Rightarrow> 't \<Rightarrow> ('e, 's) result"

section \<open>Operations\<close>

definition profile_id_char :: "char \<Rightarrow> bool" where
  "profile_id_char c \<longleftrightarrow> is_ascii_alphanumeric c \<or> List.member ''._-'' c"

definition validate_profile_id :: "string \<Rightarrow> (profile_graph_error, unit) result" where
  "validate_profile_id pid =
     (if pid \<noteq> [] \<and> list_all profile_id_char pid then Inr () else Inl (InvalidId pid))"

fun validate_extends_loop ::
  "string \<Rightarrow> string list \<Rightarrow> string list \<Rightarrow> (profile_graph_error, unit) result" where
  "validate_extends_loop profile seen [] = Inr ()"
| "validate_extends_loop profile seen (parent # parents) =
     rbind (validate_profile_id parent) (\<lambda>_.
       if List.member seen parent then Inl (DuplicateParent profile parent)
       else validate_extends_loop profile (parent # seen) parents)"

definition validate_extends :: "string \<Rightarrow> string list \<Rightarrow> (profile_graph_error, unit) result" where
  "validate_extends profile parents = validate_extends_loop profile [] parents"

function visit ::
    "('t, 'e) loader \<Rightarrow> ('s, 't, 'e) applier \<Rightarrow> nat \<Rightarrow> string list \<Rightarrow> string option \<Rightarrow> string \<Rightarrow>
     string list \<times> 's \<Rightarrow> ('e traverse_error, string list \<times> 's) result"
  and visit_parents ::
    "('t, 'e) loader \<Rightarrow> ('s, 't, 'e) applier \<Rightarrow> nat \<Rightarrow> string list \<Rightarrow> string \<Rightarrow> string list \<Rightarrow>
     string list \<times> 's \<Rightarrow> ('e traverse_error, string list \<times> 's) result"
where
  "visit load app max_depth visiting parent pid (visited, s) =
     (if List.member visiting pid
      then Inl (Graph (Cycle (dropWhile (\<lambda>current. current \<noteq> pid) visiting @ [pid])))
      else if max_depth \<le> length visiting
      then Inl (Graph (InheritanceDepthExceeded max_depth))
      else if List.member visited pid then Inr (visited, s)
      else rbind (map_err Source (load pid)) (\<lambda>node.
        case node of
          None \<Rightarrow> Inl (Graph (case parent of
              Some profile \<Rightarrow> MissingParent profile pid
            | None \<Rightarrow> MissingProfile pid))
        | Some (value, parents) \<Rightarrow>
            rbind (map_err Graph (validate_extends pid parents)) (\<lambda>_.
              rbind (visit_parents load app max_depth (visiting @ [pid]) pid parents (visited, s))
                (\<lambda>(visited, s).
                  rbind (map_err Source (app s pid value)) (\<lambda>s. Inr (pid # visited, s))))))"
| "visit_parents load app max_depth visiting pid [] st = Inr st"
| "visit_parents load app max_depth visiting pid (parent # parents) st =
     rbind (visit load app max_depth visiting (Some pid) parent st)
       (\<lambda>st. visit_parents load app max_depth visiting pid parents st)"
  by pat_completeness auto
termination
  by (relation "measures
        [\<lambda>x. case x of Inl (_, _, m, visiting, _, _, _) \<Rightarrow> m - length visiting
                     | Inr (_, _, m, visiting, _, _, _) \<Rightarrow> m - length visiting,
         \<lambda>x. case x of Inl _ \<Rightarrow> 0 | Inr (_, _, _, _, _, ps, _) \<Rightarrow> Suc (length ps)]") auto

declare visit.simps [simp del]

definition traverse_with_max_depth ::
  "string \<Rightarrow> nat \<Rightarrow> ('t, 'e) loader \<Rightarrow> ('s, 't, 'e) applier \<Rightarrow> 's \<Rightarrow>
   ('e traverse_error, 's) result" where
  "traverse_with_max_depth root max_depth load app s =
     rbind (visit load app max_depth [] None root ([], s)) (\<lambda>(visited, s). Inr s)"

definition usize_max :: nat where
  "usize_max = 2 ^ 64 - 1"

definition traverse ::
  "string \<Rightarrow> ('t, 'e) loader \<Rightarrow> ('s, 't, 'e) applier \<Rightarrow> 's \<Rightarrow> ('e traverse_error, 's) result" where
  "traverse root load app s = traverse_with_max_depth root usize_max load app s"

fun resolve_error_from :: "'e traverse_error \<Rightarrow> 'e resolve_error" where
  "resolve_error_from (Graph e) = ResolveGraph e"
| "resolve_error_from (Source e) = ResolveSource e"

text \<open>\<open>resolve_order\<close>: the loaded value is the unit, and \<open>apply\<close> pushes the id.\<close>

definition unit_loader ::
  "(string \<Rightarrow> ('e, string list option) result) \<Rightarrow> (unit, 'e) loader" where
  "unit_loader parents pid =
     rbind (parents pid) (\<lambda>ps. Inr (map_option (\<lambda>parents. ((), parents)) ps))"

definition push_id :: "string list \<Rightarrow> string \<Rightarrow> unit \<Rightarrow> ('e, string list) result" where
  "push_id order pid _ = Inr (order @ [pid])"

definition resolve_order ::
  "string \<Rightarrow> (string \<Rightarrow> ('e, string list option) result) \<Rightarrow> ('e resolve_error, string list) result" where
  "resolve_order root parents =
     map_err resolve_error_from (traverse root (unit_loader parents) push_id [])"

section \<open>The graph a loader describes\<close>

definition parents_of :: "('t, 'e) loader \<Rightarrow> string \<Rightarrow> string list" where
  "parents_of load x = (case load x of Inr (Some (_, ps)) \<Rightarrow> ps | _ \<Rightarrow> [])"

definition edge :: "('t, 'e) loader \<Rightarrow> string \<Rightarrow> string \<Rightarrow> bool" where
  "edge load x y \<longleftrightarrow> y \<in> set (parents_of load x)"

definition valid_node :: "('t, 'e) loader \<Rightarrow> string \<Rightarrow> bool" where
  "valid_node load x \<longleftrightarrow>
     (case load x of Inr (Some (_, ps)) \<Rightarrow> validate_extends x ps = Inr () | _ \<Rightarrow> False)"

text \<open>
  \<open>parent_first load seen order\<close>: every node of \<open>order\<close> is loaded and valid, occurs once
  and not in \<open>seen\<close>, and comes after all of its parents.
\<close>

fun parent_first :: "('t, 'e) loader \<Rightarrow> string set \<Rightarrow> string list \<Rightarrow> bool" where
  "parent_first load seen [] = True"
| "parent_first load seen (y # ys) =
     (valid_node load y \<and> y \<notin> seen \<and> set (parents_of load y) \<subseteq> seen \<and>
      parent_first load (insert y seen) ys)"

fun apply_all ::
  "('t, 'e) loader \<Rightarrow> ('s, 't, 'e) applier \<Rightarrow> 's \<Rightarrow> string list \<Rightarrow> ('e, 's) result" where
  "apply_all load app s [] = Inr s"
| "apply_all load app s (y # ys) =
     (case load y of
        Inr (Some (value, _)) \<Rightarrow> rbind (app s y value) (\<lambda>s. apply_all load app s ys)
      | _ \<Rightarrow> Inr s)"

lemma parent_first_append:
  "parent_first load seen (xs @ ys) \<longleftrightarrow>
     parent_first load seen xs \<and> parent_first load (seen \<union> set xs) ys"
  by (induction xs arbitrary: seen) auto

lemma apply_all_append:
  "apply_all load app s xs = Inr s1 \<Longrightarrow> parent_first load seen xs \<Longrightarrow>
     apply_all load app s (xs @ ys) = apply_all load app s1 ys"
  by (induction xs arbitrary: s seen)
    (auto simp: rbind_Inr_iff valid_node_def split: sum.splits option.splits)

lemma parent_first_distinct: "parent_first load seen ys \<Longrightarrow> distinct ys \<and> set ys \<inter> seen = {}"
  by (induction ys arbitrary: seen) fastforce+

lemma parent_first_edge:
  "parent_first load seen ys \<Longrightarrow> x \<in> set ys \<Longrightarrow> edge load x y \<Longrightarrow> y \<in> seen \<union> set ys"
  by (induction ys arbitrary: seen) (fastforce simp: edge_def)+

lemma parent_first_closed:
  assumes "parent_first load {} ys" "x \<in> set ys" "(edge load)\<^sup>*\<^sup>* x y"
  shows "y \<in> set ys"
  using assms(3,2) by induction (use parent_first_edge [OF assms(1)] in auto)

lemma apply_all_push:
  "parent_first load seen ys \<Longrightarrow> apply_all load push_id acc ys = Inr (acc @ ys)"
  by (induction ys arbitrary: seen acc)
    (auto simp: valid_node_def push_id_def split: sum.splits option.splits)

section \<open>Success\<close>

text \<open>What a successful visit adds to \<open>visited\<close>, as a predicate of the states around it.\<close>

definition visit_post ::
  "('t, 'e) loader \<Rightarrow> ('s, 't, 'e) applier \<Rightarrow> string list \<Rightarrow> string set \<Rightarrow>
   string list \<times> 's \<Rightarrow> string list \<times> 's \<Rightarrow> string list \<Rightarrow> bool" where
  "visit_post load app visiting from st st' new \<longleftrightarrow>
     fst st' = rev new @ fst st \<and>
     parent_first load (set (fst st)) new \<and>
     apply_all load app (snd st) new = Inr (snd st') \<and>
     set new \<inter> set visiting = {} \<and>
     (\<forall>y \<in> set new. \<exists>x \<in> from. (edge load)\<^sup>*\<^sup>* x y)"

lemma visit_post_refl: "visit_post load app visiting from st st []"
  by (simp add: visit_post_def)

lemma visit_post_trans:
  assumes "visit_post load app visiting from st st1 new1"
    and "visit_post load app visiting from st1 st2 new2"
  shows "visit_post load app visiting from st st2 (new1 @ new2)"
  using assms apply_all_append [of load app "snd st" new1 "snd st1" "set (fst st)" new2]
  by (auto simp: visit_post_def parent_first_append Un_commute)

lemma visit_post_mono:
  "visit_post load app visiting from st st' new \<Longrightarrow> from \<subseteq> from' \<Longrightarrow>
     visit_post load app visiting from' st st' new"
  unfolding visit_post_def by blast

lemma visit_post_node:
  assumes "visit_post load app (visiting @ [pid]) (set ps) (visited, s) (visited1, s1) new"
    and "set ps \<subseteq> set visited1" "pid \<notin> set visited" "pid \<notin> set visiting"
    and "load pid = Inr (Some (v, ps))" "validate_extends pid ps = Inr ()" "app s1 pid v = Inr s2"
  shows "visit_post load app visiting {pid} (visited, s) (pid # visited1, s2) (new @ [pid])"
proof -
  have node: "valid_node load pid" "parents_of load pid = ps"
    using assms(5,6) by (simp_all add: valid_node_def parents_of_def)
  from assms(1) have visited1: "set visited1 = set visited \<union> set new" "pid \<notin> set new"
    by (auto simp: visit_post_def)
  have "parent_first load (set visited) (new @ [pid])"
    using assms(1-3) node visited1 by (auto simp: visit_post_def parent_first_append)
  moreover have "apply_all load app s (new @ [pid]) = Inr s2"
    using assms(1,5,7) apply_all_append [of load app s new s1 "set visited" "[pid]"]
    by (simp add: visit_post_def)
  moreover have "\<forall>y \<in> set (new @ [pid]). (edge load)\<^sup>*\<^sup>* pid y"
    using assms(1) node(2)
    by (auto simp: visit_post_def) (metis converse_rtranclp_into_rtranclp edge_def)
  ultimately show ?thesis using assms(1,4) by (auto simp: visit_post_def)
qed

lemma visit_new_cases:
  assumes "visit load app max_depth visiting parent pid (visited, s) = Inr st'"
  obtains "pid \<in> set visited" "st' = (visited, s)"
  | v ps visited1 s1 s2 where "pid \<notin> set visited" "pid \<notin> set visiting"
      "\<not> max_depth \<le> length visiting"
      "load pid = Inr (Some (v, ps))" "validate_extends pid ps = Inr ()"
      "visit_parents load app max_depth (visiting @ [pid]) pid ps (visited, s) = Inr (visited1, s1)"
      "app s1 pid v = Inr s2" "st' = (pid # visited1, s2)"
  using assms
  by (auto simp: visit.simps rbind_Inr_iff map_err_Inr_iff split: if_splits option.splits)

lemma visit_success:
  "visit load app max_depth visiting parent pid st = Inr st' \<Longrightarrow>
     \<exists>new. visit_post load app visiting {pid} st st' new \<and> pid \<in> set (fst st')"
  "visit_parents load app max_depth visiting pid ps st = Inr st' \<Longrightarrow>
     \<exists>new. visit_post load app visiting (set ps) st st' new \<and> set ps \<subseteq> set (fst st')"
proof (induction load app max_depth visiting parent pid st
    and load app max_depth visiting pid ps st
    arbitrary: st' and st' rule: visit_visit_parents.induct)
  case (1 load app max_depth visiting parent pid visited s)
  from "1.prems" show ?case
  proof (cases rule: visit_new_cases)
    case 1
    then show ?thesis using visit_post_refl by fastforce
  next
    case (2 v ps visited1 s1 s2)
    then obtain new where
      "visit_post load app (visiting @ [pid]) (set ps) (visited, s) (visited1, s1) new"
      "set ps \<subseteq> set visited1"
      using "1.IH" [of "Some (v, ps)" "(v, ps)" v ps "()" "(visited1, s1)"] by auto
    from visit_post_node [OF this 2(1,2,4,5,7)] 2(8) show ?thesis by auto
  qed
next
  case (2 load app max_depth visiting pid st)
  then show ?case using visit_post_refl by fastforce
next
  case (3 load app max_depth visiting pid parent parents st)
  from "3.prems" obtain st1 where
    st1: "visit load app max_depth visiting (Some pid) parent st = Inr st1"
      "visit_parents load app max_depth visiting pid parents st1 = Inr st'"
    by (auto simp: rbind_Inr_iff)
  from "3.IH"(1) [OF st1(1)] obtain n1 where
    n1: "visit_post load app visiting {parent} st st1 n1" "parent \<in> set (fst st1)" by blast
  from "3.IH"(2) [OF st1] obtain n2 where
    n2: "visit_post load app visiting (set parents) st1 st' n2" "set parents \<subseteq> set (fst st')"
    by blast
  have "visit_post load app visiting (set (parent # parents)) st st' (n1 @ n2)"
    using n1(1) n2(1) by (intro visit_post_trans) (auto intro: visit_post_mono)
  moreover have "parent \<in> set (fst st')" using n1(2) n2(1) by (auto simp: visit_post_def)
  ultimately show ?case using n2(2) by fastforce
qed

section \<open>Errors\<close>

text \<open>What each error says of the graph below \<open>root\<close>.\<close>

fun error_cause ::
  "('t, 'e) loader \<Rightarrow> ('s, 't, 'e) applier \<Rightarrow> nat \<Rightarrow> string \<Rightarrow> 'e traverse_error \<Rightarrow> bool" where
  "error_cause load app max_depth root (Graph (Cycle c)) =
     (2 \<le> length c \<and> hd c = last c \<and> successively (edge load) c \<and> (edge load)\<^sup>*\<^sup>* root (hd c))"
| "error_cause load app max_depth root (Graph (InheritanceDepthExceeded limit)) =
     (limit = max_depth \<and> (\<exists>p. length p = Suc max_depth \<and> distinct p \<and> hd p = root \<and>
        successively (edge load) p))"
| "error_cause load app max_depth root (Graph (MissingProfile x)) =
     (x = root \<and> load root = Inr None)"
| "error_cause load app max_depth root (Graph (MissingParent x y)) =
     ((edge load)\<^sup>*\<^sup>* root x \<and> edge load x y \<and> load y = Inr None)"
| "error_cause load app max_depth root (Graph (InvalidId y)) =
     (\<exists>x. (edge load)\<^sup>*\<^sup>* root x \<and> edge load x y \<and> validate_profile_id y \<noteq> Inr ())"
| "error_cause load app max_depth root (Graph (DuplicateParent x y)) =
     ((edge load)\<^sup>*\<^sup>* root x \<and> edge load x y \<and> \<not> distinct (parents_of load x))"
| "error_cause load app max_depth root (Source e) =
     (\<exists>x. (edge load)\<^sup>*\<^sup>* root x \<and>
       (load x = Inl e \<or> (\<exists>s v ps. load x = Inr (Some (v, ps)) \<and> app s x v = Inl e)))"

lemma validate_extends_loop_Inl:
  "validate_extends_loop x seen ps = Inl err \<Longrightarrow>
     (\<exists>y \<in> set ps. err = InvalidId y \<and> validate_profile_id y \<noteq> Inr ()) \<or>
     (\<exists>y \<in> set ps. err = DuplicateParent x y \<and> \<not> (distinct ps \<and> set ps \<inter> set seen = {}))"
  by (induction x seen ps rule: validate_extends_loop.induct)
    (auto simp: rbind_Inl_iff validate_profile_id_def split: if_splits)

lemma validate_extends_Inr:
  "validate_extends x ps = Inr () \<longleftrightarrow> distinct ps \<and> (\<forall>p \<in> set ps. validate_profile_id p = Inr ())"
proof -
  have "validate_extends_loop x seen ps = Inr () \<longleftrightarrow>
      distinct ps \<and> set ps \<inter> set seen = {} \<and> (\<forall>p \<in> set ps. validate_profile_id p = Inr ())" for seen
    by (induction x seen ps rule: validate_extends_loop.induct)
      (auto simp: rbind_Inr_iff split: if_splits)
  then show ?thesis by (simp add: validate_extends_def)
qed

text \<open>The call stack: a walk from the root to the node being visited.\<close>

definition stack_ok :: "('t, 'e) loader \<Rightarrow> string \<Rightarrow> string list \<Rightarrow> string \<Rightarrow> bool" where
  "stack_ok load root visiting pid \<longleftrightarrow>
     distinct visiting \<and> hd (visiting @ [pid]) = root \<and> successively (edge load) (visiting @ [pid])"

lemma successively_rtranclp:
  "successively R (x # xs) \<Longrightarrow> y \<in> set (x # xs) \<Longrightarrow> R\<^sup>*\<^sup>* x y"
proof (induction xs arbitrary: x)
  case (Cons z zs)
  then show ?case by (auto intro: converse_rtranclp_into_rtranclp)
qed simp

lemma successively_tranclp:
  "successively R (x # zs @ [y]) \<Longrightarrow> R\<^sup>+\<^sup>+ x y"
proof (induction zs arbitrary: x)
  case (Cons z zs)
  then have "R x z" "R\<^sup>+\<^sup>+ z y" by auto
  then show ?case by (rule tranclp_into_tranclp2)
qed auto

lemma stack_reaches:
  assumes "stack_ok load root visiting pid" "y \<in> set (visiting @ [pid])"
  shows "(edge load)\<^sup>*\<^sup>* root y"
proof -
  obtain x xs where x: "visiting @ [pid] = x # xs" by (cases "visiting @ [pid]") auto
  with assms have "x = root" "successively (edge load) (x # xs)" by (auto simp: stack_ok_def)
  with successively_rtranclp assms(2) x show ?thesis by metis
qed

lemma stack_push:
  assumes "stack_ok load root visiting pid" "pid \<notin> set visiting" "edge load pid y"
  shows "stack_ok load root (visiting @ [pid]) y"
proof -
  have "successively (edge load) ((visiting @ [pid]) @ [y])"
    using assms by (subst successively_append_iff) (simp add: stack_ok_def)
  moreover have "hd ((visiting @ [pid]) @ [y]) = root"
    using assms(1) by (cases visiting) (simp_all add: stack_ok_def)
  ultimately show ?thesis using assms(1,2) by (simp add: stack_ok_def)
qed

lemma stack_cycle:
  assumes "stack_ok load root visiting pid" "pid \<in> set visiting"
  shows "error_cause load app m root (Graph (Cycle (dropWhile (\<lambda>c. c \<noteq> pid) visiting @ [pid])))"
proof -
  from assms(2) obtain us vs where v: "visiting = us @ pid # vs" "pid \<notin> set us"
    by (meson split_list_first)
  then have d: "dropWhile (\<lambda>c. c \<noteq> pid) visiting = pid # vs"
    by (auto simp: dropWhile_append)
  have "successively (edge load) (us @ (pid # vs @ [pid]))"
    using assms(1) v(1) by (simp add: stack_ok_def)
  then have "successively (edge load) (pid # vs @ [pid])"
    by (simp only: successively_append_iff)
  moreover have "(edge load)\<^sup>*\<^sup>* root pid" using stack_reaches [OF assms(1)] by simp
  ultimately show ?thesis unfolding d by simp
qed

lemma stack_depth:
  assumes "stack_ok load root visiting pid" "pid \<notin> set visiting" "m \<le> length visiting"
  shows "error_cause load app m root (Graph (InheritanceDepthExceeded m))"
proof -
  let ?p = "take (Suc m) (visiting @ [pid])"
  have "successively (edge load) (?p @ drop (Suc m) (visiting @ [pid]))"
    using assms(1) by (simp only: append_take_drop_id stack_ok_def)
  then have "successively (edge load) ?p" unfolding successively_append_iff by blast
  moreover have "distinct (visiting @ [pid])" using assms(1,2) by (simp add: stack_ok_def)
  then have "distinct ?p" by (rule distinct_take)
  moreover have "hd ?p = root" using assms(1) by (cases visiting) (auto simp: stack_ok_def)
  moreover have "length ?p = Suc m" using assms(3) by simp
  ultimately show ?thesis unfolding error_cause.simps by blast
qed

lemma stack_last_edge:
  "stack_ok load root visiting pid \<Longrightarrow> visiting \<noteq> [] \<Longrightarrow> edge load (last visiting) pid"
  by (auto simp: stack_ok_def successively_append_iff)

lemma missing_cause:
  assumes "stack_ok load root visiting pid" "load pid = Inr None"
    and "parent = (if visiting = [] then None else Some (last visiting))"
  shows "error_cause load app m root (Graph (case parent of
           Some profile \<Rightarrow> MissingParent profile pid | None \<Rightarrow> MissingProfile pid))"
  using assms stack_last_edge [OF assms(1)] stack_reaches [OF assms(1), of "last visiting"]
  by (auto simp: stack_ok_def)

lemma validate_cause:
  assumes "(edge load)\<^sup>*\<^sup>* root pid" "load pid = Inr (Some (v, ps))" "validate_extends pid ps = Inl err"
  shows "error_cause load app m root (Graph err)"
proof -
  have ps: "parents_of load pid = ps" using assms(2) by (simp add: parents_of_def)
  from validate_extends_loop_Inl [OF assms(3) [unfolded validate_extends_def]] show ?thesis
    using assms(1) ps by (auto simp: edge_def)
qed

lemma visit_error_cases:
  assumes "visit load app max_depth visiting parent pid (visited, s) = Inl err"
  obtains (cycle) "pid \<in> set visiting"
      "err = Graph (Cycle (dropWhile (\<lambda>c. c \<noteq> pid) visiting @ [pid]))"
  | (depth) "pid \<notin> set visiting" "max_depth \<le> length visiting"
      "err = Graph (InheritanceDepthExceeded max_depth)"
  | (source) e where "load pid = Inl e" "err = Source e"
  | (missing) "load pid = Inr None" "err = Graph (case parent of
        Some profile \<Rightarrow> MissingParent profile pid | None \<Rightarrow> MissingProfile pid)"
  | (invalid) v ps e where "load pid = Inr (Some (v, ps))" "validate_extends pid ps = Inl e"
      "err = Graph e"
  | (parents) v ps where "pid \<notin> set visiting" "\<not> max_depth \<le> length visiting"
      "pid \<notin> set visited" "load pid = Inr (Some (v, ps))" "validate_extends pid ps = Inr ()"
      "visit_parents load app max_depth (visiting @ [pid]) pid ps (visited, s) = Inl err"
  | (app) v ps s1 e where "load pid = Inr (Some (v, ps))" "app s1 pid v = Inl e" "err = Source e"
proof (cases "load pid")
  case (Inl e)
  with assms cycle depth source show thesis by (auto simp: visit.simps split: if_splits)
next
  case (Inr node)
  show thesis
  proof (cases node)
    case None
    with Inr assms cycle depth missing show thesis by (auto simp: visit.simps split: if_splits)
  next
    case (Some node')
    with Inr assms cycle depth invalid parents app show thesis
      by (cases node') (auto simp: visit.simps rbind_Inl_iff map_err_Inl_iff map_err_Inr_iff
          split: if_splits)
  qed
qed

lemma visit_error:
  "visit load app max_depth visiting parent pid st = Inl err \<Longrightarrow>
     stack_ok load root visiting pid \<Longrightarrow>
     parent = (if visiting = [] then None else Some (last visiting)) \<Longrightarrow>
     error_cause load app max_depth root err"
  "visit_parents load app max_depth visiting pid ps st = Inl err \<Longrightarrow>
     \<forall>p \<in> set ps. stack_ok load root visiting p \<Longrightarrow>
     visiting \<noteq> [] \<and> pid = last visiting \<Longrightarrow>
     error_cause load app max_depth root err"
proof (induction load app max_depth visiting parent pid st
    and load app max_depth visiting pid ps st rule: visit_visit_parents.induct)
  case (1 load app max_depth visiting parent pid visited s)
  note reach = stack_reaches [OF "1.prems"(2), of pid, simplified]
  from "1.prems"(1) show ?case
  proof (cases rule: visit_error_cases)
    case (parents v ps)
    have "stack_ok load root (visiting @ [pid]) p" if "p \<in> set ps" for p
      using stack_push [OF "1.prems"(2) parents(1)] that parents(4)
      by (simp add: edge_def parents_of_def)
    then show ?thesis
      using "1.IH" [of "Some (v, ps)" "(v, ps)" v ps "()"] parents by simp
  next
    case (invalid v ps e)
    then show ?thesis by (simp only: validate_cause [OF reach])
  qed (use reach stack_cycle [OF "1.prems"(2)] stack_depth [OF "1.prems"(2)]
        missing_cause [OF "1.prems"(2) _ "1.prems"(3)] in auto)
next
  case (2 load app max_depth visiting pid st)
  then show ?case by simp
next
  case (3 load app max_depth visiting pid parent parents st)
  from "3.prems"(1) show ?case
    using "3.IH" "3.prems"(2,3) by (auto simp: rbind_Inl_iff)
qed


section \<open>The interface of a traversal\<close>

text \<open>
  What the loaders rely on. \<open>complete_order\<close> is the order a successful traversal has
  applied the profiles in.
\<close>

definition complete_order :: "('t, 'e) loader \<Rightarrow> string \<Rightarrow> string list \<Rightarrow> bool" where
  "complete_order load root order \<longleftrightarrow>
     parent_first load {} order \<and> distinct order \<and> order \<noteq> [] \<and> last order = root \<and>
     set order = {y. (edge load)\<^sup>*\<^sup>* root y}"

text \<open>
  A graph without missing, invalid or cyclic profiles below \<open>root\<close>, and no deeper than the
  bound.
\<close>

definition healthy :: "('t, 'e) loader \<Rightarrow> nat \<Rightarrow> string \<Rightarrow> bool" where
  "healthy load depth root \<longleftrightarrow>
     (\<forall>x. (edge load)\<^sup>*\<^sup>* root x \<longrightarrow> valid_node load x \<and> \<not> (edge load)\<^sup>+\<^sup>+ x x) \<and>
     (\<forall>p. hd p = root \<longrightarrow> distinct p \<longrightarrow> successively (edge load) p \<longrightarrow> length p \<le> depth)"

lemma valid_node_iff:
  "valid_node load x \<longleftrightarrow>
     (\<exists>v ps. load x = Inr (Some (v, ps)) \<and> distinct ps \<and> (\<forall>p \<in> set ps. validate_profile_id p = Inr ()))"
  by (auto simp: valid_node_def validate_extends_Inr split: sum.splits option.splits)

lemma closed_walk_tranclp:
  assumes "2 \<le> length c" "hd c = last c" "successively R c"
  shows "R\<^sup>+\<^sup>+ (hd c) (hd c)"
proof -
  from assms(1,2) obtain x zs where "c = x # zs @ [x]"
    by (cases c rule: list.exhaust; cases "tl c" rule: rev_cases) auto
  with assms(3) show ?thesis using successively_tranclp by fastforce
qed

lemma healthy_no_graph_error:
  assumes "healthy load depth root"
  shows "\<not> error_cause load app depth root (Graph e)"
proof (cases e)
  case (MissingParent x y)
  then show ?thesis using assms rtranclp.rtrancl_into_rtrancl [of "edge load" root x y]
    by (auto simp: healthy_def valid_node_iff)
next
  case (DuplicateParent x y)
  then show ?thesis using assms by (auto simp: healthy_def valid_node_iff parents_of_def)
next
  case (InvalidId y)
  then show ?thesis using assms
    by (auto simp: healthy_def valid_node_iff parents_of_def edge_def)
next
  case (Cycle c)
  then show ?thesis using assms closed_walk_tranclp [of c "edge load"] by (auto simp: healthy_def)
qed (use assms in \<open>fastforce simp: healthy_def valid_node_iff\<close>)+

locale profile_traversal =
  fixes traversal ::
      "string \<Rightarrow> ('t, 'e) loader \<Rightarrow> ('s, 't, 'e) applier \<Rightarrow> 's \<Rightarrow> ('e traverse_error, 's) result"
    and depth :: nat
  assumes success: "traversal root load app s = Inr s' \<Longrightarrow>
      \<exists>order. complete_order load root order \<and> apply_all load app s order = Inr s'"
    and failure: "traversal root load app s = Inl err \<Longrightarrow> error_cause load app depth root err"
begin

text \<open>An invariant that every application keeps holds of the final state.\<close>

lemma state_invariant:
  assumes "traversal root load app s = Inr s'" "P s"
    and keep: "\<And>x v ps s s'. load x = Inr (Some (v, ps)) \<Longrightarrow> P s \<Longrightarrow> app s x v = Inr s' \<Longrightarrow> P s'"
  shows "P s'"
proof -
  have "P s'" if "apply_all load app s order = Inr s'" "P s" for order s
    using that
  proof (induction order arbitrary: s)
    case (Cons y ys)
    then show ?case
      by (auto simp: rbind_Inr_iff keep split: sum.splits option.splits prod.splits)
  qed simp
  with assms(1,2) success show ?thesis by blast
qed

text \<open>On a healthy graph a traversal whose applications succeed returns.\<close>

lemma returns:
  assumes "healthy load depth root"
    and applies: "\<And>s x v ps. load x = Inr (Some (v, ps)) \<Longrightarrow> \<exists>s'. app s x v = Inr s'"
  shows "\<exists>s'. traversal root load app s = Inr s'"
proof (cases "traversal root load app s")
  case (Inl err)
  then have cause: "error_cause load app depth root err" by (rule failure)
  obtain e where err: "err = Source e"
    using cause healthy_no_graph_error [OF assms(1), of app] by (cases err) auto
  from cause [unfolded err error_cause.simps] obtain x where "(edge load)\<^sup>*\<^sup>* root x"
    "load x = Inl e \<or> (\<exists>s v ps. load x = Inr (Some (v, ps)) \<and> app s x v = Inl e)"
    by (elim exE conjE)
  moreover from this assms(1) have "load x \<noteq> Inl e" by (auto simp: healthy_def valid_node_iff)
  ultimately obtain s v ps where "load x = Inr (Some (v, ps))" "app s x v = Inl e" by blast
  with applies [of x v ps s] show ?thesis by simp
qed auto

end

lemma traverse_success:
  assumes "traverse_with_max_depth root max_depth load app s = Inr s'"
  shows "\<exists>order. complete_order load root order \<and> apply_all load app s order = Inr s'"
proof -
  from assms obtain visited where
    v: "visit load app max_depth [] None root ([], s) = Inr (visited, s')"
    by (auto simp: traverse_with_max_depth_def rbind_Inr_iff)
  then obtain new where new: "visit_post load app [] {root} ([], s) (visited, s') new"
    and root: "root \<in> set visited" using visit_success(1) by fastforce
  then have order: "visited = rev new" "parent_first load {} new" "apply_all load app s new = Inr s'"
    "\<forall>y \<in> set new. (edge load)\<^sup>*\<^sup>* root y" by (auto simp: visit_post_def)
  from v have "hd visited = root" by (cases rule: visit_new_cases) auto
  with order(1) root have "last new = root" "new \<noteq> []" by (auto simp: hd_rev)
  moreover have "{y. (edge load)\<^sup>*\<^sup>* root y} \<subseteq> set new"
    using order(1) root parent_first_closed [OF order(2), of root] by (auto simp del: rtranclp.simps)
  then have "set new = {y. (edge load)\<^sup>*\<^sup>* root y}" using order(4) by blast
  ultimately show ?thesis
    using order parent_first_distinct [OF order(2)] unfolding complete_order_def by blast
qed

lemma traverse_failure:
  assumes "traverse_with_max_depth root max_depth load app s = Inl err"
  shows "error_cause load app max_depth root err"
  using assms visit_error(1) [of load app max_depth "[]" None root "([], s)" err root]
  by (auto simp: traverse_with_max_depth_def rbind_Inl_iff stack_ok_def)

interpretation bounded: profile_traversal
  "\<lambda>root. traverse_with_max_depth root max_depth" max_depth for max_depth
  by unfold_locales (rule traverse_success traverse_failure, assumption)+

interpretation unbounded: profile_traversal traverse usize_max
  unfolding traverse_def by unfold_locales (rule traverse_success traverse_failure, assumption)+


section \<open>Properties\<close>

text \<open>
  C33. A traversal that succeeds has visited exactly the profiles reachable from the root,
  each of them once, loaded and with a valid parent list, every profile after all of its
  parents and the root last; and the caller's state is what applying them in that order
  gives.
\<close>

theorem traverse_parent_first:
  "traverse_with_max_depth root max_depth load app s = Inr s' \<Longrightarrow>
     \<exists>order. parent_first load {} order \<and> distinct order \<and> order \<noteq> [] \<and> last order = root \<and>
       set order = {y. (edge load)\<^sup>*\<^sup>* root y} \<and> apply_all load app s order = Inr s'"
  using bounded.success unfolding complete_order_def by fast

definition diamond :: "string \<Rightarrow> (unit, string list option) result" where
  "diamond x = Inr (map_of
     [(''root'', [''left'', ''right'']), (''left'', [''base'']), (''right'', [''base'']), (''base'', [])] x)"

theorem traverse_parent_first_witness:
  "traverse_with_max_depth ''root'' 3 (unit_loader diamond) push_id [] =
     Inr [''base'', ''left'', ''right'', ''root''] \<and>
   (\<exists>order. parent_first (unit_loader diamond) {} order \<and> last order = ''root'')"
proof -
  have run: "traverse_with_max_depth ''root'' 3 (unit_loader diamond) push_id [] =
     Inr [''base'', ''left'', ''right'', ''root'']" by code_simp
  from traverse_parent_first [OF run] run show ?thesis by blast
qed

text \<open>
  C34. Every error names a real defect of the graph below the root: a reported cycle is a
  closed walk along parent edges, a reported depth is witnessed by a walk of more distinct
  profiles than the bound, a missing parent is listed by a reachable profile and cannot be
  loaded, an invalid or repeated parent id is in a reachable profile, and any other error
  is one the callbacks returned for a reachable profile.
\<close>

theorem traverse_error_cause:
  "traverse_with_max_depth root max_depth load app s = Inl err \<Longrightarrow>
     error_cause load app max_depth root err"
  by (rule bounded.failure)

theorem traverse_error_cause_witness:
  "traverse_with_max_depth ''root'' 2 (unit_loader diamond) push_id [] =
     Inl (Graph (InheritanceDepthExceeded 2)) \<and>
   error_cause (unit_loader diamond) push_id 2 ''root'' (Graph (InheritanceDepthExceeded 2))"
proof -
  have run: "traverse_with_max_depth ''root'' 2 (unit_loader diamond) push_id [] =
     Inl (Graph (InheritanceDepthExceeded 2))" by code_simp
  from traverse_error_cause [OF run] run show ?thesis by blast
qed

text \<open>
  Completeness: on a graph with no missing, invalid or cyclic profile below the root
  and no chain of distinct profiles longer than the bound, a traversal whose applications
  succeed returns a state; the function is total, so no input makes it run forever.
\<close>

theorem traverse_returns:
  "healthy load max_depth root \<Longrightarrow>
   (\<And>s x v ps. load x = Inr (Some (v, ps)) \<Longrightarrow> \<exists>s'. app s x v = Inr s') \<Longrightarrow>
     \<exists>s'. traverse_with_max_depth root max_depth load app s = Inr s'"
  by (rule bounded.returns)

lemma single_edge: "edge (unit_loader (\<lambda>_. Inr (Some []))) x y \<longleftrightarrow> False"
  by (simp add: edge_def parents_of_def unit_loader_def)

theorem traverse_returns_witness:
  "\<exists>s'. traverse_with_max_depth ''a'' 1 (unit_loader (\<lambda>_. Inr (Some []) :: (unit, string list option) result))
     push_id [] = Inr s'"
proof (rule traverse_returns)
  let ?load = "unit_loader (\<lambda>_. Inr (Some []) :: (unit, string list option) result)"
  have no: "edge ?load = (\<lambda>_ _. False)" by (auto simp: single_edge fun_eq_iff)
  have "length p \<le> 1" if "distinct p" "successively (edge ?load) p" for p
    using that by (cases p; cases "tl p") (auto simp: no)
  moreover have "\<not> (edge ?load)\<^sup>+\<^sup>+ x x" for x unfolding no by (auto elim: tranclp.cases)
  ultimately show "healthy ?load 1 ''a''"
    by (simp add: healthy_def valid_node_iff unit_loader_def)
qed (simp add: push_id_def)

text \<open>
  \<open>resolve_order\<close> lists exactly the profiles reachable from the root, each once, parents
  before children and the root last.
\<close>

theorem resolve_order_sound:
  "resolve_order root parents = Inr order \<Longrightarrow>
     parent_first (unit_loader parents) {} order \<and> distinct order \<and> last order = root \<and>
     set order = {y. (edge (unit_loader parents))\<^sup>*\<^sup>* root y}"
proof -
  assume "resolve_order root parents = Inr order"
  then have "traverse root (unit_loader parents) push_id [] = Inr order"
    by (simp add: resolve_order_def map_err_Inr_iff)
  from unbounded.success [OF this] obtain o' where o': "complete_order (unit_loader parents) root o'"
    "apply_all (unit_loader parents) push_id [] o' = Inr order" by blast
  from o' have "order = o'"
    using apply_all_push [of "unit_loader parents" "{}" o' "[]"]
    by (simp add: complete_order_def)
  with o'(1) show ?thesis by (simp add: complete_order_def)
qed

definition two_profiles :: "string \<Rightarrow> (unit, string list option) result" where
  "two_profiles x = Inr (map_of [(''b'', [''a'']), (''a'', [])] x)"

theorem resolve_order_sound_witness:
  "resolve_order ''b'' two_profiles = Inr [''a'', ''b''] \<and>
   parent_first (unit_loader two_profiles) {} [''a'', ''b'']"
proof -
  have run: "resolve_order ''b'' two_profiles = Inr [''a'', ''b'']"
    by (simp add: resolve_order_def traverse_def traverse_with_max_depth_def visit.simps usize_max_def
        unit_loader_def two_profiles_def push_id_def validate_extends_def validate_profile_id_def
        profile_id_char_def is_ascii_alphanumeric_def is_ascii_lowercase_def)
  from resolve_order_sound [OF run] run show ?thesis by blast
qed

section \<open>Invariants of the caller\<close>

text \<open>A traversal with an invariant of the caller's state and an error that no callback gives.\<close>

definition callbacks_safe ::
  "('t, 'e) loader \<Rightarrow> ('s, 't, 'e) applier \<Rightarrow> ('s \<Rightarrow> bool) \<Rightarrow> 'e \<Rightarrow> bool" where
  "callbacks_safe load app P bad \<longleftrightarrow> (\<forall>x. load x \<noteq> Inl bad) \<and>
     (\<forall>x v ps s. load x = Inr (Some (v, ps)) \<longrightarrow> P s \<longrightarrow> app s x v \<noteq> Inl bad \<and> (\<forall>s'. app s x v = Inr s' \<longrightarrow> P s'))"

lemma visit_safe:
  "callbacks_safe load app P bad \<Longrightarrow> P (snd st) \<Longrightarrow> visit load app max_depth visiting parent pid st = r \<Longrightarrow>
     r \<noteq> Inl (Source bad) \<and> (\<forall>st'. r = Inr st' \<longrightarrow> P (snd st'))"
  "callbacks_safe load app P bad \<Longrightarrow> P (snd st) \<Longrightarrow> visit_parents load app max_depth visiting pid parents st = r \<Longrightarrow>
     r \<noteq> Inl (Source bad) \<and> (\<forall>st'. r = Inr st' \<longrightarrow> P (snd st'))"
proof (induction load app max_depth visiting parent pid st and load app max_depth visiting pid parents st
    arbitrary: r and r rule: visit_visit_parents.induct)
  case (1 load app max_depth visiting parent pid visited s)
  note safe = "1.prems"(1) [unfolded callbacks_safe_def]
  show ?case
  proof (cases "List.member visiting pid \<or> max_depth \<le> length visiting \<or> List.member visited pid")
    case True
    then have "r = Inl (Graph (Cycle (dropWhile (\<lambda>current. current \<noteq> pid) visiting @ [pid]))) \<or>
        r = Inl (Graph (InheritanceDepthExceeded max_depth)) \<or> r = Inr (visited, s)"
      unfolding "1.prems"(3) [symmetric] visit.simps by presburger
    with "1.prems"(2) show ?thesis by auto
  next
    case False
    note guards = False
    show ?thesis
    proof (cases "load pid")
      case (Inl e)
      with "1.prems"(3) guards safe show ?thesis by (auto simp: visit.simps)
    next
      case (Inr node)
      show ?thesis
      proof (cases node)
        case None
        with Inr "1.prems"(3) guards show ?thesis by (auto simp: visit.simps split: option.splits)
      next
        case (Some entry)
        obtain v ps where entry: "entry = (v, ps)" by (cases entry)
        show ?thesis
        proof (cases "validate_extends pid ps")
          case (Inl e)
          with \<open>load pid = Inr node\<close> Some entry "1.prems"(3) guards show ?thesis by (auto simp: visit.simps)
        next
          case (Inr u)
          note valid = this
          obtain parents where parents: "visit_parents load app max_depth (visiting @ [pid]) pid ps (visited, s) = parents" by blast
          from guards \<open>load pid = Inr node\<close> Some entry valid "1.prems"(1,2) parents
          have IH: "parents \<noteq> Inl (Source bad) \<and> (\<forall>st'. parents = Inr st' \<longrightarrow> P (snd st'))"
            by (intro "1.IH" [of node entry v ps u parents]) auto
          have r: "r = rbind parents (\<lambda>(visited, s). rbind (map_err Source (app s pid v)) (\<lambda>s. Inr (pid # visited, s)))"
            using "1.prems"(3) guards \<open>load pid = Inr node\<close> Some entry valid parents by (simp add: visit.simps)
          show ?thesis
          proof (cases parents)
            case (Inl e)
            with IH r show ?thesis by simp
          next
            case (Inr st1)
            then obtain visited1 s1 where st1: "parents = Inr (visited1, s1)" by (cases st1) auto
            with IH have "P s1" by simp
            moreover have "load pid = Inr (Some (v, ps))" using \<open>load pid = Inr node\<close> Some entry by simp
            ultimately have "app s1 pid v \<noteq> Inl bad" "\<forall>s'. app s1 pid v = Inr s' \<longrightarrow> P s'" using safe by blast+
            then show ?thesis by (cases "app s1 pid v") (auto simp: r st1)
          qed
        qed
      qed
    qed
  qed
next
  case (3 load app max_depth visiting pid parent parents st)
  obtain r1 where r1: "visit load app max_depth visiting (Some pid) parent st = r1" by blast
  note first = "3.IH"(1) [OF "3.prems"(1,2) r1]
  show ?case
  proof (cases r1)
    case (Inl e)
    with first r1 "3.prems"(3) show ?thesis by auto
  next
    case (Inr st1)
    with first have "P (snd st1)" by simp
    from "3.IH"(2) [OF _ "3.prems"(1) this] Inr r1 "3.prems"(3) show ?thesis by simp
  qed
qed auto

lemma traverse_safe:
  assumes "callbacks_safe load app P bad" "P s" "traverse_with_max_depth root max_depth load app s = r"
  shows "r \<noteq> Inl (Source bad) \<and> (\<forall>s'. r = Inr s' \<longrightarrow> P s')"
proof -
  obtain r1 where r1: "visit load app max_depth [] None root ([], s) = r1" by blast
  have "r1 \<noteq> Inl (Source bad) \<and> (\<forall>st'. r1 = Inr st' \<longrightarrow> P (snd st'))" by (rule visit_safe(1) [OF assms(1) _ r1]) (simp add: assms(2))
  with assms(3) r1 show ?thesis by (cases r1) (auto simp: traverse_with_max_depth_def)
qed

end
