(* ===== verification/Dev_Config.thy ===== *)
theory Dev_Config
  imports Dev_Shellenv Profile_Graph
begin

text \<open>
  The developer environment's configuration: declared inputs
  (\<open>src/crates/dev-env-model/src/input.rs\<close>), the environment section (\<open>environment.rs\<close>), shells
  (\<open>shell.rs\<close>), providers (\<open>provider.rs\<close>), policies, overrides, profile documents and resolved
  configurations (\<open>config.rs\<close>), each with its validation in source order, and the order in which
  providers run.
\<close>

section \<open>Inputs\<close>

datatype dev_input_type = InputBool | InputEnum | InputInteger | InputPath | InputString

datatype dev_input_value = InBool bool | InInteger i64 | InString string

datatype dev_parsed_input = ParsedBool bool | ParsedEnum string | ParsedInteger i64 | ParsedPath string | ParsedString string

record input_spec =
  is_target :: string
  is_type :: dev_input_type
  is_values :: "string list"
  is_aliases :: "(string, string) btree_map"
  is_runtime :: bool
  is_export_as :: "string option"
  is_default :: "dev_input_value option"
  is_sensitivity :: sensitivity

text \<open>\<open>i64::from_str\<close> and \<open>i64::to_string\<close>.\<close>

definition parse_i64 :: "string \<Rightarrow> i64 option" where
  "parse_i64 s =
     (let (negative, ds) = (case s of [] \<Rightarrow> (False, []) | c # cs \<Rightarrow>
            if c = CHR ''-'' then (True, cs) else if c = CHR ''+'' then (False, cs) else (False, s)) in
      if ds = [] then None
      else case digits_value 10 0 ds of
        None \<Rightarrow> None
      | Some n \<Rightarrow>
          if negative then (if n \<le> 2 ^ 63 then Some (- of_nat n) else None)
          else if n < 2 ^ 63 then Some (of_nat n) else None)"

definition i64_to_string :: "i64 \<Rightarrow> string" where
  "i64_to_string n = (if sint n < 0 then CHR ''-'' # to_decimal (nat (- sint n)) else to_decimal (nat (sint n)))"

fun input_as_raw :: "dev_input_value \<Rightarrow> string" where
  "input_as_raw (InBool b) = bool_to_string b"
| "input_as_raw (InInteger n) = i64_to_string n"
| "input_as_raw (InString s) = s"

definition parse_input_text :: "input_spec \<Rightarrow> string \<Rightarrow> (dev_input_error, dev_parsed_input) result" where
  "parse_input_text input raw =
     (case is_type input of
        InputBool \<Rightarrow>
          if raw \<in> {''1'', ''true'', ''TRUE'', ''True''} then Inr (ParsedBool True)
          else if raw \<in> {''0'', ''false'', ''FALSE'', ''False''} then Inr (ParsedBool False)
          else Inl (InvalidBoolean raw)
      | InputEnum \<Rightarrow>
          (let v = unwrap_or raw (btree_get raw (is_aliases input)) in
           if v \<in> set (is_values input) then Inr (ParsedEnum v) else Inl (InvalidEnumValue raw))
      | InputInteger \<Rightarrow> (case parse_i64 raw of Some n \<Rightarrow> Inr (ParsedInteger n) | None \<Rightarrow> Inl (InvalidInteger raw))
      | InputPath \<Rightarrow> (case validate_concrete_path raw ''input'' of Inr _ \<Rightarrow> Inr (ParsedPath raw) | Inl _ \<Rightarrow> Inl InputInvalidPath)
      | InputString \<Rightarrow> if has_char raw (CHR 0x00) then Inl InvalidString else Inr (ParsedString raw))"

definition parse_value_named :: "input_spec \<Rightarrow> string \<Rightarrow> string \<Rightarrow> dev_parsed_input dev_result" where
  "parse_value_named input name raw = map_err (InvalidInput name) (parse_input_text input raw)"

definition parse_runtime_value_named :: "input_spec \<Rightarrow> string \<Rightarrow> string \<Rightarrow> dev_parsed_input dev_result" where
  "parse_runtime_value_named input name raw =
     (if \<not> is_runtime input then Inl (InvalidInput name NotRuntime) else parse_value_named input name raw)"

definition parse_declared_value :: "input_spec \<Rightarrow> value_tree \<Rightarrow> dev_parsed_input dev_result" where
  "parse_declared_value input tree =
     (case tree of
        VBool b \<Rightarrow> parse_value_named input (is_target input) (bool_to_string b)
      | VInteger n \<Rightarrow> parse_value_named input (is_target input) (i64_to_string n)
      | VString s \<Rightarrow> parse_value_named input (is_target input) s
      | _ \<Rightarrow> Inl (InvalidInput (is_target input) WrongDefaultType))"

definition validate_default :: "input_spec \<Rightarrow> dev_input_value \<Rightarrow> (dev_input_error, unit) result" where
  "validate_default input default_value =
     (case (is_type input, default_value) of
        (InputBool, InBool _) \<Rightarrow> Inr ()
      | (InputInteger, InInteger _) \<Rightarrow> Inr ()
      | (InputString, InString s) \<Rightarrow> fail_if (has_char s (CHR 0x00)) InvalidString
      | (InputPath, InString s) \<Rightarrow> map_err (\<lambda>_. InputInvalidPath) (validate_concrete_path s ''input.default'')
      | (InputEnum, InString s) \<Rightarrow>
          map_err (\<lambda>_. InvalidEnumValue s) (rbind (parse_value_named input (is_target input) s) (\<lambda>_. Inr ()))
      | _ \<Rightarrow> Inl WrongDefaultType)"

definition validate_enum :: "input_spec \<Rightarrow> (dev_input_error, unit) result" where
  "validate_enum input =
     rbind (fail_if (is_values input = []) (InvalidEnumValue ''<empty enum>'')) (\<lambda>_.
     rbind (for_each (\<lambda>v. fail_if (v = [] \<or> has_char v (CHR 0x00) \<or> 1 < length (filter (\<lambda>item. item = v) (is_values input)))
       (InvalidEnumValue v)) (is_values input)) (\<lambda>_.
     for_each (\<lambda>(alias, target).
       rbind (fail_if (alias = [] \<or> has_char alias (CHR 0x00)) (InvalidAlias alias)) (\<lambda>_.
       fail_if (target \<notin> set (is_values input)) (AliasTargetMissing alias target))) (is_aliases input)))"

definition input_spec_validate :: "input_spec \<Rightarrow> string \<Rightarrow> unit dev_result" where
  "input_spec_validate input name =
     rbind (map_err (\<lambda>_. InvalidInput name InputInvalidName) (validate_env_name name (''inputs.'' @ name))) (\<lambda>_.
     rbind (map_err (\<lambda>_. InvalidInput name InputInvalidTarget)
       (validate_config_path (is_target input) (''inputs.'' @ name @ ''.target''))) (\<lambda>_.
     rbind (fail_if (has_char (is_target input) (CHR ''*'')) (InvalidInput name InputInvalidTarget)) (\<lambda>_.
     rbind (when_some (is_export_as input) (\<lambda>export_as. fail_if (\<not> dev_is_env_name export_as) (InvalidInput name InputInvalidName))) (\<lambda>_.
     rbind (if is_type input = InputEnum then map_err (InvalidInput name) (validate_enum input)
            else fail_if (is_values input \<noteq> [] \<or> is_aliases input \<noteq> [])
              (InvalidInput name (InvalidEnumValue ''values and aliases are only valid for enum inputs''))) (\<lambda>_.
     when_some (is_default input) (\<lambda>default_value. map_err (InvalidInput name) (validate_default input default_value)))))))"

section \<open>The environment section\<close>

datatype precedence = Locked | Ambient
datatype path_mode = PathMerge | PathReplace

record environment_path =
  ep_prepend :: "string list"
  ep_append :: "string list"
  ep_remove :: "string list"

definition environment_path_validate :: "environment_path \<Rightarrow> unit dev_result" where
  "environment_path_validate path =
     for_each (\<lambda>(kind, entries).
       for_each (\<lambda>(index, entry).
         validate_concrete_path entry (''environment.path.'' @ kind @ ''['' @ to_decimal index @ '']'')) (enumerate 0 entries))
       [(''prepend'', ep_prepend path), (''append'', ep_append path), (''remove'', ep_remove path)]"

fun resolve_loop :: "string list \<Rightarrow> string list \<Rightarrow> string list \<Rightarrow> string list" where
  "resolve_loop removed res [] = res"
| "resolve_loop removed res (entry # entries) =
     (if entry \<in> set removed \<or> entry \<in> set res then resolve_loop removed res entries
      else resolve_loop removed (res @ [entry]) entries)"

definition environment_path_resolve :: "environment_path \<Rightarrow> string list \<Rightarrow> string list dev_result" where
  "environment_path_resolve path inherited =
     rbind (environment_path_validate path) (\<lambda>_.
     Inr (resolve_loop (ep_remove path) [] (ep_prepend path @ inherited @ ep_append path)))"

record conditional_variable =
  cv_value :: string
  cv_when :: string

definition conditional_variable_validate :: "conditional_variable \<Rightarrow> string \<Rightarrow> unit dev_result" where
  "conditional_variable_validate variable name =
     (let location = ''environment.conditional_variables.'' @ name in
      rbind (validate_env_name name location) (\<lambda>_.
      rbind (fail_if (has_char (cv_value variable) (CHR 0x00)) (InvalidEnvironmentValue (location @ ''.value'') ReasonNul)) (\<lambda>_.
      rbind (map_err (DevInvalidCondition (location @ ''.when'')) (dev_condition_parse (cv_when variable))) (\<lambda>_. Inr ()))))"

record environment_config =
  ec_inherit_process :: bool
  ec_precedence :: precedence
  ec_variables :: "(string, string) btree_map"
  ec_conditional_variables :: "(string, conditional_variable) btree_map"
  ec_path :: environment_path

definition environment_config_validate :: "environment_config \<Rightarrow> unit dev_result" where
  "environment_config_validate env =
     rbind (for_each (\<lambda>(name, v).
       rbind (validate_env_name name (''environment.variables.'' @ name)) (\<lambda>_.
       fail_if (has_char v (CHR 0x00)) (InvalidEnvironmentValue (''environment.variables.'' @ name) ReasonNul))) (ec_variables env)) (\<lambda>_.
     rbind (for_each (\<lambda>(name, variable).
       rbind (conditional_variable_validate variable name) (\<lambda>_.
       fail_if (contains_key name (ec_variables env)) (InvalidValue (''environment.conditional_variables.'' @ name) ReasonDuplicate)))
       (ec_conditional_variables env)) (\<lambda>_.
     environment_path_validate (ec_path env)))"

section \<open>Shells and providers\<close>

datatype shell_kind = Posix | Argv

record shell_config =
  sh_command :: string
  sh_kind :: shell_kind
  sh_login_args :: "string list"
  sh_interactive_args :: "string list"
  sh_command_arg :: "string option"

definition shell_config_validate :: "shell_config \<Rightarrow> string \<Rightarrow> unit dev_result" where
  "shell_config_validate shell pid =
     rbind (map_err (\<lambda>_. InvalidShell pid ShellInvalidId) (validate_id pid (''shells.'' @ pid))) (\<lambda>_.
     rbind (fail_if (sh_command shell = []) (InvalidShell pid EmptyCommand)) (\<lambda>_.
     rbind (map_err (\<lambda>_. InvalidShell pid InvalidCommand)
       (validate_concrete_path (sh_command shell) (''shells.'' @ pid @ ''.command''))) (\<lambda>_.
     for_each (\<lambda>argument.
       rbind (fail_if (argument = []) (InvalidShell pid EmptyArgument)) (\<lambda>_.
       map_err (\<lambda>_. InvalidShell pid InvalidCommand) (validate_command_arg argument (''shells.'' @ pid @ ''.args''))))
       (sh_login_args shell @ sh_interactive_args shell @ (case sh_command_arg shell of None \<Rightarrow> [] | Some a \<Rightarrow> [a])))))"

datatype failure_policy = FailError | FailWarn | FailIgnore
datatype missing_provider_policy = MissingError | MissingWarn | MissingIgnore

record prepare_step =
  ps_argv :: "string list"
  ps_when :: "string option"
  ps_failure :: failure_policy
  ps_timeout_ms :: "u64 option"
  ps_sensitivity :: sensitivity

definition argv_validate :: "string list \<Rightarrow> string \<Rightarrow> string \<Rightarrow> unit dev_result" where
  "argv_validate arguments provider location =
     for_each (\<lambda>argument.
       rbind (fail_if (argument = []) (InvalidProvider provider EmptyArg)) (\<lambda>_.
       map_err (\<lambda>_. InvalidProvider provider InvalidArg) (validate_command_arg argument location))) arguments"

definition prepare_step_validate :: "prepare_step \<Rightarrow> string \<Rightarrow> nat \<Rightarrow> unit dev_result" where
  "prepare_step_validate step provider index =
     rbind (fail_if (ps_argv step = []) (InvalidProvider provider EmptyPrepareArgv)) (\<lambda>_.
     rbind (argv_validate (ps_argv step) provider (''providers.'' @ provider @ ''.prepare['' @ to_decimal index @ ''].argv'')) (\<lambda>_.
     rbind (when_some (ps_when step) (\<lambda>condition.
       map_err (\<lambda>_. InvalidProvider provider ProviderInvalidCondition) (rbind (dev_condition_parse condition) (\<lambda>_. Inr ())))) (\<lambda>_.
     fail_if (ps_timeout_ms step = Some 0) (InvalidProvider provider InvalidTimeout))))"

record shell_env_config =
  se_argv :: "string list"
  se_format :: shell_env_format
  se_failure :: failure_policy
  se_path_mode :: path_mode
  se_timeout_ms :: "u64 option"

definition shell_env_config_validate :: "shell_env_config \<Rightarrow> string \<Rightarrow> unit dev_result" where
  "shell_env_config_validate shellenv provider =
     rbind (fail_if (se_argv shellenv = []) (InvalidProvider provider InvalidShellenv)) (\<lambda>_.
     rbind (argv_validate (se_argv shellenv) provider (''providers.'' @ provider @ ''.shellenv.argv'')) (\<lambda>_.
     fail_if (se_timeout_ms shellenv = Some 0) (InvalidProvider provider InvalidTimeout)))"

record provider_config =
  pc_executable :: string
  pc_detect_files :: "string list"
  pc_missing :: missing_provider_policy
  pc_depends_on :: "string list"
  pc_prepare :: "prepare_step list"
  pc_shellenv :: "shell_env_config option"
  pc_sensitivity :: sensitivity

fun dependencies_validate :: "string \<Rightarrow> string list \<Rightarrow> string list \<Rightarrow> unit dev_result" where
  "dependencies_validate pid seen [] = Inr ()"
| "dependencies_validate pid seen (dependency # dependencies) =
     rbind (map_err (\<lambda>_. InvalidProvider pid ProviderInvalidId) (validate_id dependency (''providers.'' @ pid @ ''.depends_on''))) (\<lambda>_.
     rbind (fail_if (dependency \<in> set seen) (InvalidProvider pid DuplicateDependency)) (\<lambda>_.
     dependencies_validate pid (dependency # seen) dependencies))"

definition provider_config_validate :: "provider_config \<Rightarrow> string \<Rightarrow> unit dev_result" where
  "provider_config_validate provider pid =
     (let executable = pc_executable provider in
      rbind (map_err (\<lambda>_. InvalidProvider pid ProviderInvalidId) (validate_id pid (''providers.'' @ pid))) (\<lambda>_.
      rbind (map_err (\<lambda>_. InvalidProvider pid (if executable = [] then EmptyExecutable else InvalidExecutable))
        (validate_nonempty_text executable (''providers.'' @ pid @ ''.executable'') False)) (\<lambda>_.
      rbind (fail_if (contains_whitespace executable \<or> dev_shell_syntax executable) (InvalidProvider pid InvalidExecutable)) (\<lambda>_.
      rbind (for_each (\<lambda>(index, glob). map_err (\<lambda>_. InvalidProvider pid InvalidGlob)
        (validate_glob glob (''providers.'' @ pid @ ''.detect_files['' @ to_decimal index @ '']''))) (enumerate 0 (pc_detect_files provider))) (\<lambda>_.
      rbind (dependencies_validate pid [] (pc_depends_on provider)) (\<lambda>_.
      rbind (for_each (\<lambda>(index, step). prepare_step_validate step pid index) (enumerate 0 (pc_prepare provider))) (\<lambda>_.
      when_some (pc_shellenv provider) (\<lambda>shellenv. shell_env_config_validate shellenv pid))))))))"

section \<open>Policies and overrides\<close>

datatype merge_policy = Strict | PreferChild
datatype unknown_input_policy = UnknownError | UnknownIgnore
datatype untrusted_workspace_policy = Prompt | Deny | Allow

record policy_config =
  po_merge :: merge_policy
  po_workspace_can_override :: "string list"
  po_cli_can_override :: "string list"
  po_unknown_input :: unknown_input_policy
  po_untrusted_workspace :: untrusted_workspace_policy

definition policy_default :: policy_config where
  "policy_default = \<lparr>po_merge = Strict, po_workspace_can_override = [], po_cli_can_override = [],
     po_unknown_input = UnknownError, po_untrusted_workspace = Prompt\<rparr>"

definition policy_validate :: "policy_config \<Rightarrow> unit dev_result" where
  "policy_validate policy =
     for_each (\<lambda>path. validate_config_path path ''policy.override'') (po_workspace_can_override policy @ po_cli_can_override policy)"

definition path_matches :: "string \<Rightarrow> string \<Rightarrow> bool" where
  "path_matches pattern path \<longleftrightarrow> pattern = path \<or>
     is_some_and (\<lambda>prefix. starts_with path prefix \<and> length prefix < length path \<and> path ! length prefix = CHR ''.'')
       (strip_suffix ''.*'' pattern)"

definition allows_workspace_override :: "policy_config \<Rightarrow> string \<Rightarrow> bool" where
  "allows_workspace_override policy path = list_ex (\<lambda>pattern. path_matches pattern path) (po_workspace_can_override policy)"

definition allows_cli_override :: "policy_config \<Rightarrow> string \<Rightarrow> bool" where
  "allows_cli_override policy path = list_ex (\<lambda>pattern. path_matches pattern path) (po_cli_can_override policy)"

definition policy_validate_for_layer :: "policy_config \<Rightarrow> layer \<Rightarrow> unit dev_result" where
  "policy_validate_for_layer policy layer =
     rbind (policy_validate policy) (\<lambda>_.
     fail_if (po_merge policy = PreferChild \<and> layer \<notin> {LayerProfile, LayerAdmin}) PreferChildPolicyNotTrusted)"

datatype override_operation = OverrideSet | OverrideUnset | OverrideReplace | OverrideAppend | OverrideRemove

record override_spec =
  os_op :: override_operation
  os_value :: "value_tree option"
  os_values :: "value_tree list"
  os_reason :: string

definition override_shape :: "override_spec \<Rightarrow> string \<Rightarrow> unit dev_result" where
  "override_shape spec path =
     (case os_op spec of
        OverrideSet \<Rightarrow> fail_if (os_value spec = None \<or> os_values spec \<noteq> []) (InvalidOverride path MustBeExplicit)
      | OverrideUnset \<Rightarrow> fail_if (os_value spec \<noteq> None \<or> os_values spec \<noteq> []) (InvalidOverride path MustBeExplicit)
      | _ \<Rightarrow> fail_if (os_values spec = [] \<or> os_value spec \<noteq> None) (InvalidOverride path MustBeNonEmpty))"

definition override_spec_validate :: "override_spec \<Rightarrow> string \<Rightarrow> unit dev_result" where
  "override_spec_validate spec path =
     rbind (validate_config_path path (''override.'' @ path)) (\<lambda>_.
     rbind (fail_if (os_reason spec = [] \<or> has_char (os_reason spec) (CHR 0x00)) (InvalidOverride path ReasonEmpty)) (\<lambda>_.
     rbind (override_shape spec path) (\<lambda>_.
     rbind (when_some (os_value spec) (\<lambda>v. tree_validate v (''override.'' @ path @ ''.value''))) (\<lambda>_.
     rbind (for_each (\<lambda>(index, v). tree_validate v (''override.'' @ path @ ''.values['' @ to_decimal index @ '']''))
       (enumerate 0 (os_values spec))) (\<lambda>_.
     if path \<in> {''environment.path.prepend'', ''environment.path.append'', ''environment.path.remove''} then
       for_each (\<lambda>v. case tree_as_str v of
           None \<Rightarrow> Inl (InvalidOverride path MustBeScalar)
         | Some path_value \<Rightarrow> validate_concrete_path path_value (''override.'' @ path @ ''.values'')) (os_values spec)
     else Inr ())))))"

section \<open>Profiles\<close>

datatype workspace_search = Upward | Fixed

record workspace_config =
  wc_root :: string
  wc_search :: workspace_search

definition workspace_config_validate :: "workspace_config \<Rightarrow> unit dev_result" where
  "workspace_config_validate workspace = validate_concrete_path (wc_root workspace) ''workspace.root''"

definition shell_selection_validate :: "string \<Rightarrow> unit dev_result" where
  "shell_selection_validate shell = validate_id shell ''shell.default''"

record environment_layer =
  el_inherit_process :: "bool option"
  el_precedence :: "precedence option"
  el_variables :: "(string, string) btree_map"
  el_conditional_variables :: "(string, conditional_variable) btree_map"
  el_path :: environment_path

definition environment_layer_validate :: "environment_layer \<Rightarrow> unit dev_result" where
  "environment_layer_validate env =
     environment_config_validate \<lparr>ec_inherit_process = unwrap_or True (el_inherit_process env),
       ec_precedence = unwrap_or Locked (el_precedence env), ec_variables = el_variables env,
       ec_conditional_variables = el_conditional_variables env, ec_path = el_path env\<rparr>"

record config_layer =
  cl_workspace :: "workspace_config option"
  cl_shell :: "string option"
  cl_shells :: "(string, shell_config) btree_map"
  cl_environment :: environment_layer
  cl_features :: value_tree
  cl_providers :: "(string, provider_config) btree_map"

definition config_layer_validate :: "config_layer \<Rightarrow> unit dev_result" where
  "config_layer_validate config =
     rbind (when_some (cl_workspace config) workspace_config_validate) (\<lambda>_.
     rbind (when_some (cl_shell config) shell_selection_validate) (\<lambda>_.
     rbind (for_each (\<lambda>(pid, shell). shell_config_validate shell pid) (cl_shells config)) (\<lambda>_.
     rbind (environment_layer_validate (cl_environment config)) (\<lambda>_.
     rbind (tree_validate (cl_features config) ''config.features'') (\<lambda>_.
     for_each (\<lambda>(pid, provider). provider_config_validate provider pid) (cl_providers config))))))"

record profile_document =
  pd_schema :: u32
  pd_id :: string
  pd_extends :: "string list"
  pd_policy :: policy_config
  pd_config :: config_layer
  pd_overrides :: "(string, override_spec) btree_map"
  pd_inputs :: "(string, input_spec) btree_map"

definition DEV_ENV_SCHEMA_V1 :: u32 where
  "DEV_ENV_SCHEMA_V1 = 1"

text \<open>The last error cannot come from \<open>validate_extends\<close>; the source marks it unreachable.\<close>

fun extends_error :: "string \<Rightarrow> profile_graph_error \<Rightarrow> dev_error" where
  "extends_error pid (InvalidId reference) = InvalidProfileReference pid reference"
| "extends_error pid (DuplicateParent _ _) = InvalidValue (''profile '' @ pid @ ''.extends'') ReasonDuplicate"
| "extends_error pid _ = InvalidProfileId pid"

definition profile_document_validate :: "profile_document \<Rightarrow> unit dev_result" where
  "profile_document_validate profile =
     rbind (fail_if (pd_schema profile \<noteq> DEV_ENV_SCHEMA_V1) (UnsupportedSchema (pd_schema profile) DEV_ENV_SCHEMA_V1)) (\<lambda>_.
     rbind (map_err (\<lambda>_. InvalidProfileId (pd_id profile)) (validate_profile_id (pd_id profile))) (\<lambda>_.
     rbind (map_err (extends_error (pd_id profile)) (validate_extends (pd_id profile) (pd_extends profile))) (\<lambda>_.
     rbind (policy_validate (pd_policy profile)) (\<lambda>_.
     rbind (config_layer_validate (pd_config profile)) (\<lambda>_.
     rbind (for_each (\<lambda>(path, spec). override_spec_validate spec path) (pd_overrides profile)) (\<lambda>_.
     for_each (\<lambda>(name, input). input_spec_validate input name) (pd_inputs profile)))))))"

definition profile_validate_for_layer :: "profile_document \<Rightarrow> layer \<Rightarrow> unit dev_result" where
  "profile_validate_for_layer profile layer =
     rbind (profile_document_validate profile) (\<lambda>_. policy_validate_for_layer (pd_policy profile) layer)"

record profile_set =
  st_profiles :: "(string, profile_document) btree_map"
  st_default_profile :: string

fun chain_error :: "string \<Rightarrow> unit traverse_error \<Rightarrow> dev_error" where
  "chain_error pid (Graph (MissingProfile _)) = UnknownDefaultProfile pid"
| "chain_error pid (Graph (MissingParent profile parent)) = MissingParentProfile profile parent"
| "chain_error pid (Graph (Cycle profiles)) = ProfileCycle profiles"
| "chain_error pid (Graph (InvalidId reference)) = InvalidProfileReference pid reference"
| "chain_error pid (Graph (DuplicateParent profile _)) = InvalidValue (''profile '' @ profile @ ''.extends'') ReasonDuplicate"
| "chain_error pid (Graph (InheritanceDepthExceeded _)) = InvalidValue ''profile inheritance'' ReasonUnsupported"
| "chain_error pid (Source _) = UnknownDefaultProfile pid"

definition chain_load :: "(string, profile_document) btree_map \<Rightarrow> (profile_document, unit) loader" where
  "chain_load profiles pid = Inr (map_option (\<lambda>profile. (profile, pd_extends profile)) (btree_get pid profiles))"

definition chain_push :: "profile_document list \<Rightarrow> string \<Rightarrow> profile_document \<Rightarrow> (unit, profile_document list) result" where
  "chain_push res pid profile = Inr (res @ [profile])"

definition resolve_chain :: "profile_set \<Rightarrow> string \<Rightarrow> profile_document list dev_result" where
  "resolve_chain profiles pid = map_err (chain_error pid) (traverse pid (chain_load (st_profiles profiles)) chain_push [])"

fun index_profiles ::
  "(string, profile_document) btree_map \<Rightarrow> profile_document list \<Rightarrow> (string, profile_document) btree_map dev_result" where
  "index_profiles indexed [] = Inr indexed"
| "index_profiles indexed (profile # profiles) =
     rbind (profile_document_validate profile) (\<lambda>_.
     if contains_key (pd_id profile) indexed then Inl (DuplicateProfileId (pd_id profile))
     else index_profiles (btree_insert (pd_id profile) profile indexed) profiles)"

definition profile_set_new :: "profile_document list \<Rightarrow> string \<Rightarrow> profile_set dev_result" where
  "profile_set_new profiles default_profile =
     rbind (index_profiles [] profiles) (\<lambda>indexed.
     let profile_set = \<lparr>st_profiles = indexed, st_default_profile = default_profile\<rparr> in
     rbind (resolve_chain profile_set default_profile) (\<lambda>_. Inr profile_set))"

section \<open>The order of providers\<close>

datatype visit_state = Visiting | Done

type_synonym providers = "(string, provider_config) btree_map"

record visit_record =
  vr_state :: "(string, visit_state) btree_map"
  vr_stack :: "string list"
  vr_result :: "string list"

definition visit_start :: visit_record where
  "visit_start = \<lparr>vr_state = [], vr_stack = [], vr_result = []\<rparr>"

definition stack_from :: "string \<Rightarrow> string list \<Rightarrow> string list" where
  "stack_from pid stack = (let rest = dropWhile (\<lambda>item. item \<noteq> pid) stack in if rest = [] then stack else rest)"

text \<open>The recursion of \<open>visit_provider\<close> with a bound on its depth.\<close>

definition enter_provider :: "string \<Rightarrow> visit_record \<Rightarrow> visit_record" where
  "enter_provider pid vr = vr\<lparr>vr_state := btree_insert pid Visiting (vr_state vr), vr_stack := vr_stack vr @ [pid]\<rparr>"

definition leave_provider :: "string \<Rightarrow> visit_record \<Rightarrow> visit_record" where
  "leave_provider pid vr = vr\<lparr>vr_stack := butlast (vr_stack vr), vr_state := btree_insert pid Done (vr_state vr), vr_result := vr_result vr @ [pid]\<rparr>"

primrec visit_provider :: "nat \<Rightarrow> providers \<Rightarrow> visit_record \<Rightarrow> string \<Rightarrow> visit_record dev_result" where
  "visit_provider 0 ps vr pid = Inl RecursionBound"
| "visit_provider (Suc depth) ps vr pid =
     (case btree_get pid (vr_state vr) of
        Some Done \<Rightarrow> Inr vr
      | Some Visiting \<Rightarrow> Inl (ProviderDependencyCycle (stack_from pid (vr_stack vr) @ [pid]))
      | None \<Rightarrow>
          (case btree_get pid ps of
             None \<Rightarrow> Inl (MissingProviderDependency pid pid)
           | Some provider \<Rightarrow>
               rbind (fold_result (visit_provider depth ps) (enter_provider pid vr) (pc_depends_on provider)) (\<lambda>vr'.
               Inr (leave_provider pid vr'))))"

definition visit_providers :: "providers \<Rightarrow> visit_record dev_result" where
  "visit_providers ps = fold_result (visit_provider (Suc (length ps)) ps) visit_start (map fst ps)"

definition validate_provider_graph :: "providers \<Rightarrow> unit dev_result" where
  "validate_provider_graph ps =
     rbind (for_each (\<lambda>(pid, provider). for_each (\<lambda>dependency.
       fail_if (\<not> contains_key dependency ps) (MissingProviderDependency pid dependency)) (pc_depends_on provider)) ps) (\<lambda>_.
     rbind (visit_providers ps) (\<lambda>_. Inr ()))"

definition provider_order :: "providers \<Rightarrow> string list dev_result" where
  "provider_order ps = rbind (validate_provider_graph ps) (\<lambda>_. rbind (visit_providers ps) (\<lambda>vr. Inr (vr_result vr)))"

section \<open>Resolved configurations\<close>

record resolved_config =
  rc_workspace :: workspace_config
  rc_shell :: string
  rc_shells :: "(string, shell_config) btree_map"
  rc_environment :: environment_config
  rc_features :: value_tree
  rc_providers :: providers
  rc_inputs :: "(string, input_spec) btree_map"
  rc_policy :: policy_config
  rc_provenance :: provenance_index

definition resolved_config_validate :: "resolved_config \<Rightarrow> unit dev_result" where
  "resolved_config_validate config =
     rbind (workspace_config_validate (rc_workspace config)) (\<lambda>_.
     rbind (shell_selection_validate (rc_shell config)) (\<lambda>_.
     rbind (fail_if (\<not> contains_key (rc_shell config) (rc_shells config)) (MissingDefaultShell (rc_shell config))) (\<lambda>_.
     rbind (for_each (\<lambda>(pid, shell). shell_config_validate shell pid) (rc_shells config)) (\<lambda>_.
     rbind (environment_config_validate (rc_environment config)) (\<lambda>_.
     rbind (tree_validate (rc_features config) ''features'') (\<lambda>_.
     rbind (for_each (\<lambda>(pid, provider). provider_config_validate provider pid) (rc_providers config)) (\<lambda>_.
     rbind (validate_provider_graph (rc_providers config)) (\<lambda>_.
     rbind (for_each (\<lambda>(name, input). input_spec_validate input name) (rc_inputs config)) (\<lambda>_.
     policy_validate (rc_policy config))))))))))"

section \<open>Lemmas\<close>

subsection \<open>Search paths\<close>

lemma resolve_loop_spec:
  "resolve_loop removed res entries =
     res @ filter (\<lambda>e. e \<notin> set res) (rev (remdups (rev (filter (\<lambda>e. e \<notin> set removed) entries))))"
proof (induction entries arbitrary: res rule: rev_induct)
  case Nil
  then show ?case by simp
next
  case (snoc x xs)
  have "resolve_loop removed res (xs @ [x]) =
      (let r = resolve_loop removed res xs in if x \<in> set removed \<or> x \<in> set r then r else r @ [x])" for res
    by (induction xs arbitrary: res) (auto simp: Let_def)
  with snoc show ?case by (auto simp: Let_def)
qed

subsection \<open>The provider graph\<close>

definition depends :: "providers \<Rightarrow> string \<Rightarrow> string \<Rightarrow> bool" where
  "depends ps x y \<longleftrightarrow> (\<exists>provider. btree_get x ps = Some provider \<and> y \<in> set (pc_depends_on provider))"

fun dependencies_first :: "providers \<Rightarrow> string set \<Rightarrow> string list \<Rightarrow> bool" where
  "dependencies_first ps seen [] \<longleftrightarrow> True"
| "dependencies_first ps seen (x # xs) \<longleftrightarrow>
     x \<notin> seen \<and> contains_key x ps \<and> (\<forall>y. depends ps x y \<longrightarrow> y \<in> seen) \<and> dependencies_first ps (insert x seen) xs"

lemma dependencies_first_append:
  "dependencies_first ps seen (xs @ ys) \<longleftrightarrow> dependencies_first ps seen xs \<and> dependencies_first ps (seen \<union> set xs) ys"
  by (induction xs arbitrary: seen) auto

lemma dependencies_first_distinct:
  "dependencies_first ps seen xs \<Longrightarrow> distinct xs \<and> set xs \<inter> seen = {} \<and> (\<forall>x \<in> set xs. contains_key x ps)"
  by (induction xs arbitrary: seen) fastforce+

lemma dependencies_first_closed:
  assumes "dependencies_first ps seen xs" "\<forall>a b. a \<in> seen \<longrightarrow> depends ps a b \<longrightarrow> b \<in> seen" "a \<in> seen \<union> set xs" "depends ps a b"
  shows "b \<in> seen \<union> set xs"
  using assms
proof (induction xs arbitrary: seen)
  case (Cons z zs)
  have "dependencies_first ps (insert z seen) zs" "a \<in> insert z seen \<union> set zs" using Cons.prems by auto
  moreover have "\<forall>a b. a \<in> insert z seen \<longrightarrow> depends ps a b \<longrightarrow> b \<in> insert z seen" using Cons.prems(1,2) by simp
  ultimately have "b \<in> insert z seen \<union> set zs" using Cons.IH Cons.prems(4) by blast
  then show ?case by auto
qed auto

lemma dependencies_first_acyclic:
  assumes "dependencies_first ps seen xs" "x \<in> set xs" "(depends ps)\<^sup>+\<^sup>+ x y" "\<forall>a b. a \<in> seen \<longrightarrow> depends ps a b \<longrightarrow> b \<in> seen"
  shows "y \<noteq> x"
proof -
  from split_list [OF assms(2)] obtain as bs where xs: "xs = as @ x # bs" by blast
  with assms(1) have head: "dependencies_first ps seen as" "x \<notin> seen \<union> set as" "\<forall>y. depends ps x y \<longrightarrow> y \<in> seen \<union> set as"
    by (auto simp: dependencies_first_append)
  note closed = dependencies_first_closed [OF head(1) assms(4)]
  from assms(3) have "y \<in> seen \<union> set as"
    by (induction rule: tranclp_induct) (use head(3) closed in blast)+
  with head(2) show ?thesis by blast
qed

definition genuine_cycle :: "providers \<Rightarrow> string list \<Rightarrow> bool" where
  "genuine_cycle ps cycle \<longleftrightarrow> 2 \<le> length cycle \<and> hd cycle = last cycle \<and> successively (depends ps) cycle"

definition visit_inv :: "providers \<Rightarrow> visit_record \<Rightarrow> bool" where
  "visit_inv ps vr \<longleftrightarrow> btree_wf (vr_state vr) \<and>
     (\<forall>x. btree_get x (vr_state vr) = Some Visiting \<longleftrightarrow> x \<in> set (vr_stack vr)) \<and>
     (\<forall>x. btree_get x (vr_state vr) = Some Done \<longleftrightarrow> x \<in> set (vr_result vr)) \<and>
     distinct (vr_stack vr) \<and> (\<forall>x \<in> set (vr_stack vr). contains_key x ps) \<and> successively (depends ps) (vr_stack vr) \<and>
     dependencies_first ps {} (vr_result vr)"

definition called_from :: "providers \<Rightarrow> visit_record \<Rightarrow> string \<Rightarrow> bool" where
  "called_from ps vr pid \<longleftrightarrow> (if vr_stack vr = [] then contains_key pid ps else depends ps (last (vr_stack vr)) pid)"

definition visit_ok :: "providers \<Rightarrow> visit_record \<Rightarrow> string list \<Rightarrow> visit_record dev_result \<Rightarrow> bool" where
  "visit_ok ps vr pids outcome \<longleftrightarrow>
     (case outcome of
        Inr vr' \<Rightarrow> visit_inv ps vr' \<and> vr_stack vr' = vr_stack vr \<and> set (vr_result vr) \<subseteq> set (vr_result vr') \<and>
          set pids \<subseteq> set (vr_result vr')
      | Inl e \<Rightarrow> (\<exists>x z. e = MissingProviderDependency x x \<and> depends ps z x \<and> \<not> contains_key x ps) \<or>
          (\<exists>cycle. e = ProviderDependencyCycle cycle \<and> genuine_cycle ps cycle))"

lemma stack_bound: "visit_inv ps vr \<Longrightarrow> length (vr_stack vr) \<le> length ps"
proof -
  assume "visit_inv ps vr"
  then have "distinct (vr_stack vr)" "set (vr_stack vr) \<subseteq> fst ` set ps" by (auto simp: visit_inv_def contains_key_iff)
  then have "length (vr_stack vr) \<le> card (fst ` set ps)" by (metis List.finite_set card_mono distinct_card finite_imageI)
  also have "\<dots> \<le> length ps" by (metis card_length length_map list.set_map)
  finally show ?thesis .
qed

lemma visit_all_ok:
  assumes "visit_inv ps vr" "\<forall>pid \<in> set pids. called_from ps vr pid"
    and "\<And>pid vr. visit_inv ps vr \<Longrightarrow> vr_stack vr = stack \<Longrightarrow> called_from ps vr pid \<Longrightarrow> visit_ok ps vr [pid] (go vr pid)"
    and "vr_stack vr = stack"
  shows "visit_ok ps vr pids (fold_result go vr pids)"
  using assms
proof (induction pids arbitrary: vr)
  case Nil
  then show ?case by (simp add: visit_ok_def)
next
  case (Cons pid pids)
  then have first: "visit_ok ps vr [pid] (go vr pid)" by auto
  show ?case
  proof (cases "go vr pid")
    case (Inl e)
    with first show ?thesis by (simp add: visit_ok_def)
  next
    case (Inr vr')
    with first have vr': "visit_inv ps vr'" "vr_stack vr' = vr_stack vr" "set (vr_result vr) \<subseteq> set (vr_result vr')"
      "pid \<in> set (vr_result vr')" by (auto simp: visit_ok_def)
    with Cons.prems have "visit_ok ps vr' pids (fold_result go vr' pids)"
      by (intro Cons.IH) (auto simp: called_from_def)
    with Inr vr' show ?thesis by (auto simp: visit_ok_def split: sum.splits)
  qed
qed

lemma cycle_found:
  assumes "visit_inv ps vr" "called_from ps vr pid" "pid \<in> set (vr_stack vr)"
  shows "genuine_cycle ps (stack_from pid (vr_stack vr) @ [pid])"
proof -
  from split_list_first [OF assms(3)] obtain as bs where stack: "vr_stack vr = as @ pid # bs" "pid \<notin> set as" by blast
  then have from_stack: "stack_from pid (vr_stack vr) = pid # bs"
    by (auto simp: stack_from_def Let_def dropWhile_append)
  have "successively (depends ps) (pid # bs)"
    using assms(1) stack by (auto simp: visit_inv_def successively_append_iff)
  moreover have "depends ps (last (pid # bs)) pid" using assms(2) stack by (auto simp: called_from_def)
  ultimately show ?thesis unfolding genuine_cycle_def from_stack using successively_append_iff [of "depends ps" "pid # bs" "[pid]"] by auto
qed

lemma visit_inv_enter:
  assumes "visit_inv ps vr" "called_from ps vr pid" "btree_get pid (vr_state vr) = None" "contains_key pid ps"
  shows "visit_inv ps (enter_provider pid vr)"
proof -
  from assms(1,3) have "pid \<notin> set (vr_stack vr)" "pid \<notin> set (vr_result vr)" unfolding visit_inv_def by (metis option.distinct(1))+
  moreover have "vr_stack vr \<noteq> [] \<Longrightarrow> depends ps (last (vr_stack vr)) pid" using assms(2) by (simp add: called_from_def)
  ultimately show ?thesis
    using assms(1,4) by (auto simp: visit_inv_def enter_provider_def btree_get_insert wf_intros successively_append_iff)
qed

lemma visit_inv_leave:
  assumes "visit_inv ps vr" "vr_stack vr = stack @ [pid]" "btree_get pid ps = Some provider"
    "set (pc_depends_on provider) \<subseteq> set (vr_result vr)"
  shows "visit_inv ps (leave_provider pid vr)"
proof -
  from assms(1,2) have visiting: "btree_get pid (vr_state vr) = Some Visiting" and distinct: "pid \<notin> set stack" by (auto simp: visit_inv_def)
  with assms(1) have "pid \<notin> set (vr_result vr)" unfolding visit_inv_def by (metis option.inject visit_state.distinct(1))
  then show ?thesis
    using assms distinct visiting
    by (auto simp: visit_inv_def leave_provider_def btree_get_insert wf_intros successively_append_iff dependencies_first_append
        depends_def contains_key_def)
qed

lemma visit_provider_ok:
  assumes "visit_inv ps vr" "called_from ps vr pid" "length ps < depth + length (vr_stack vr)"
  shows "visit_ok ps vr [pid] (visit_provider depth ps vr pid)"
  using assms
proof (induction depth arbitrary: pid vr)
  case 0
  then show ?case using stack_bound by fastforce
next
  case (Suc depth)
  consider (finished) "btree_get pid (vr_state vr) = Some Done" | (cycle) "btree_get pid (vr_state vr) = Some Visiting"
    | (missing) "btree_get pid (vr_state vr) = None" "btree_get pid ps = None"
    | (new) provider where "btree_get pid (vr_state vr) = None" "btree_get pid ps = Some provider"
    by (cases "btree_get pid (vr_state vr)"; cases "btree_get pid ps") (auto intro: visit_state.exhaust)
  then show ?case
  proof cases
    case finished
    then have "pid \<in> set (vr_result vr)" using Suc.prems(1) by (simp add: visit_inv_def)
    then show ?thesis using finished Suc.prems(1) by (simp add: visit_ok_def)
  next
    case cycle
    then have "pid \<in> set (vr_stack vr)" using Suc.prems(1) by (auto simp: visit_inv_def)
    then show ?thesis using cycle cycle_found [OF Suc.prems(1,2)] by (simp add: visit_ok_def)
  next
    case missing
    then show ?thesis using Suc.prems(2) by (auto simp: visit_ok_def contains_key_def called_from_def split: if_splits)
  next
    case new
    let ?vr = "enter_provider pid vr"
    have inv: "visit_inv ps ?vr" using visit_inv_enter [OF Suc.prems(1,2) new(1)] new(2) by (simp add: contains_key_def)
    have stack: "vr_stack ?vr = vr_stack vr @ [pid]" "vr_result ?vr = vr_result vr" by (simp_all add: enter_provider_def)
    have "visit_ok ps ?vr (pc_depends_on provider) (fold_result (visit_provider depth ps) ?vr (pc_depends_on provider))" (is "visit_ok _ _ _ ?loop")
    proof (rule visit_all_ok [OF inv _ _ stack(1)])
      show "\<forall>y \<in> set (pc_depends_on provider). called_from ps ?vr y" using new(2) stack by (auto simp: called_from_def depends_def)
      show "visit_ok ps vr' [y] (visit_provider depth ps vr' y)"
        if "visit_inv ps vr'" "vr_stack vr' = vr_stack vr @ [pid]" "called_from ps vr' y" for y vr'
        using Suc.IH [OF that(1,3)] Suc.prems(3) that(2) by simp
    qed
    then show ?thesis
    proof (cases ?loop)
      case (Inl e)
      then show ?thesis using \<open>visit_ok ps ?vr _ _\<close> new by (simp add: visit_ok_def)
    next
      case (Inr vr')
      with \<open>visit_ok ps ?vr _ _\<close> stack have vr': "visit_inv ps vr'" "vr_stack vr' = vr_stack vr @ [pid]"
        "set (vr_result vr) \<subseteq> set (vr_result vr')" "set (pc_depends_on provider) \<subseteq> set (vr_result vr')" by (auto simp: visit_ok_def)
      have "visit_inv ps (leave_provider pid vr')" by (rule visit_inv_leave [OF vr'(1,2) new(2) vr'(4)])
      then show ?thesis using Inr new vr' by (auto simp: visit_ok_def leave_provider_def)
    qed
  qed
qed

lemma visit_providers_ok: "visit_ok ps visit_start (map fst ps) (visit_providers ps)"
  unfolding visit_providers_def
proof (rule visit_all_ok)
  show "visit_inv ps visit_start" by (simp add: visit_inv_def visit_start_def btree_wf_def btree_get_def)
  show "visit_ok ps vr [pid] (visit_provider (Suc (length ps)) ps vr pid)"
    if "visit_inv ps vr" "called_from ps vr pid" for pid vr by (rule visit_provider_ok [OF that]) simp
qed (auto simp: called_from_def visit_start_def contains_key_iff)

text \<open>What \<open>provider_order\<close> reports is what is the case.\<close>

definition missing_dependency :: "providers \<Rightarrow> string \<Rightarrow> string \<Rightarrow> bool" where
  "missing_dependency ps x y \<longleftrightarrow> (\<exists>provider. (x, provider) \<in> set ps \<and> y \<in> set (pc_depends_on provider)) \<and> \<not> contains_key y ps"

lemma provider_order_cases:
  obtains (order) pids where "provider_order ps = Inr pids" "dependencies_first ps {} pids" "set (map fst ps) \<subseteq> set pids"
  | (missing) x y where "provider_order ps = Inl (MissingProviderDependency x y)" "missing_dependency ps x y"
  | (cycle) pids where "provider_order ps = Inl (ProviderDependencyCycle pids)" "genuine_cycle ps pids"
proof -
  let ?check = "for_each (\<lambda>(pid, provider). for_each (\<lambda>dependency.
    fail_if (\<not> contains_key dependency ps) (MissingProviderDependency pid dependency)) (pc_depends_on provider)) ps"
  show thesis
  proof (cases ?check)
    case (Inl e)
    then have "\<exists>x y. e = MissingProviderDependency x y \<and> missing_dependency ps x y"
      unfolding missing_dependency_def by (auto dest!: for_each_Inl simp: fail_if_Inl_iff)
    with Inl missing show thesis by (auto simp: provider_order_def validate_provider_graph_def)
  next
    case check: (Inr u)
    have present: "contains_key y ps" if "depends ps x y" for x y
    proof -
      from that obtain provider where "(x, provider) \<in> set ps" "y \<in> set (pc_depends_on provider)"
        by (auto simp: depends_def dest: btree_get_mem)
      with check show ?thesis by (auto simp: for_each_Inr_iff fail_if_Inr_iff dest!: bspec)
    qed
    show thesis
    proof (cases "visit_providers ps")
      case (Inl e)
      with visit_providers_ok [of ps] present have "\<exists>c. e = ProviderDependencyCycle c \<and> genuine_cycle ps c"
        unfolding visit_ok_def by auto
      with cycle check Inl show thesis by (auto simp: provider_order_def validate_provider_graph_def)
    next
      case (Inr vr)
      with visit_providers_ok [of ps] have "dependencies_first ps {} (vr_result vr)" "set (map fst ps) \<subseteq> set (vr_result vr)"
        by (auto simp: visit_ok_def visit_inv_def)
      with order check Inr show thesis by (auto simp: provider_order_def validate_provider_graph_def)
    qed
  qed
qed

section \<open>Properties\<close>

text \<open>
  C27. The search path of a configuration is exact: it is what the entries to prepend, the inherited ones and those to append leave when
  the removed ones are taken out and only first occurrences are kept, in that order.
\<close>

theorem path_resolution_exact:
  "environment_path_resolve path inherited =
     rbind (environment_path_validate path) (\<lambda>_. Inr (rev (remdups (rev
       (filter (\<lambda>e. e \<notin> set (ep_remove path)) (ep_prepend path @ inherited @ ep_append path))))))"
  by (simp add: environment_path_resolve_def resolve_loop_spec)

text \<open>
  C14. Providers run after what they depend on: the order has every configured provider exactly once and each after all its
  dependencies. The computation always ends, and it fails only for a dependency that is not configured or for a genuine
  dependency cycle, which it names; when there is neither, there is an order.
\<close>

theorem provider_order_sound:
  "(\<exists>pids. provider_order ps = Inr pids \<and> dependencies_first ps {} pids \<and> distinct pids \<and> set pids = fst ` set ps \<and>
      (\<forall>x. \<not> (depends ps)\<^sup>+\<^sup>+ x x)) \<or>
   (\<exists>x y. provider_order ps = Inl (MissingProviderDependency x y) \<and> missing_dependency ps x y) \<or>
   (\<exists>pids. provider_order ps = Inl (ProviderDependencyCycle pids) \<and> genuine_cycle ps pids \<and> (depends ps)\<^sup>+\<^sup>+ (hd pids) (hd pids))"
proof (cases ps rule: provider_order_cases)
  case (order pids)
  then have props: "distinct pids" "set pids = fst ` set ps"
    using dependencies_first_distinct [OF order(2)] by (auto simp: contains_key_iff)
  have "\<not> (depends ps)\<^sup>+\<^sup>+ x x" for x
  proof
    assume cycle: "(depends ps)\<^sup>+\<^sup>+ x x"
    then obtain y where "depends ps x y" by (meson tranclpD)
    then have "x \<in> set pids" using props by (auto simp: depends_def dest!: btree_get_mem) force
    from dependencies_first_acyclic [OF order(2) this cycle] show False by simp
  qed
  with order props show ?thesis by blast
next
  case (missing x y)
  then show ?thesis by blast
next
  case (cycle pids)
  then obtain x zs y where "pids = x # zs @ [y]" "x = y"
    by (cases pids; cases "tl pids" rule: rev_cases) (auto simp: genuine_cycle_def)
  with cycle(2) have "(depends ps)\<^sup>+\<^sup>+ (hd pids) (hd pids)"
    using successively_tranclp [of "depends ps" x zs y] by (simp add: genuine_cycle_def)
  with cycle show ?thesis by blast
qed

end
