(* ===== verification/Dev_Merge.thy ===== *)
theory Dev_Merge
  imports Dev_Config
begin

text \<open>
  Merging the profiles and overlays of a developer environment
  (\<open>src/crates/dev-env-loader/src/{merge,raw,source}.rs\<close>). A document is a TOML tree; the parser of
  TOML and the derived conversions between trees and the records of the model are parameters,
  collected in \<open>dev_codec\<close>. A path is its text, cut at dots where the source cuts it. Where
  the source panics the model returns \<open>LoaderPanic\<close>.
\<close>

section \<open>Documents\<close>

datatype doc_value =
    DString string
  | DInteger i64
  | DFloat f64
  | DBoolean bool
  | DDatetime string
  | DArray "doc_value list"
  | DTable "(string \<times> doc_value) list"

type_synonym doc_table = "(string, doc_value) btree_map"

text \<open>\<open>Value::eq\<close>.\<close>

fun doc_eq :: "doc_value \<Rightarrow> doc_value \<Rightarrow> bool"
  and docs_eq :: "doc_value list \<Rightarrow> doc_value list \<Rightarrow> bool"
  and entries_eq :: "(string \<times> doc_value) list \<Rightarrow> (string \<times> doc_value) list \<Rightarrow> bool" where
  "doc_eq (DString a) b = (b = DString a)"
| "doc_eq (DInteger a) b = (b = DInteger a)"
| "doc_eq (DBoolean a) b = (b = DBoolean a)"
| "doc_eq (DDatetime a) b = (b = DDatetime a)"
| "doc_eq (DFloat a) b = (case b of DFloat c \<Rightarrow> f64_eq a c | _ \<Rightarrow> False)"
| "doc_eq (DArray a) b = (case b of DArray c \<Rightarrow> docs_eq a c | _ \<Rightarrow> False)"
| "doc_eq (DTable a) b = (case b of DTable c \<Rightarrow> entries_eq a c | _ \<Rightarrow> False)"
| "docs_eq [] b = (b = [])"
| "docs_eq (x # xs) b = (case b of [] \<Rightarrow> False | y # ys \<Rightarrow> doc_eq x y \<and> docs_eq xs ys)"
| "entries_eq [] b = (b = [])"
| "entries_eq ((k, x) # xs) b = (case b of [] \<Rightarrow> False | (k', y) # ys \<Rightarrow> k = k' \<and> doc_eq x y \<and> entries_eq xs ys)"

fun as_table :: "doc_value \<Rightarrow> doc_table option" where
  "as_table (DTable t) = Some t"
| "as_table _ = None"

fun get_parts :: "string list \<Rightarrow> doc_table \<Rightarrow> doc_value option" where
  "get_parts [] t = None"
| "get_parts [k] t = btree_get k t"
| "get_parts (k # ks) t = (case btree_get k t of Some (DTable s) \<Rightarrow> get_parts ks s | _ \<Rightarrow> None)"

fun set_parts :: "string list \<Rightarrow> doc_value \<Rightarrow> doc_table \<Rightarrow> doc_table option" where
  "set_parts [] v t = None"
| "set_parts [k] v t = Some (btree_insert k v t)"
| "set_parts (k # ks) v t =
     (case btree_get k t of
        None \<Rightarrow> map_option (\<lambda>s. btree_insert k (DTable s) t) (set_parts ks v [])
      | Some (DTable s) \<Rightarrow> map_option (\<lambda>s. btree_insert k (DTable s) t) (set_parts ks v s)
      | Some _ \<Rightarrow> None)"

fun remove_parts :: "string list \<Rightarrow> doc_table \<Rightarrow> doc_table" where
  "remove_parts [] t = t"
| "remove_parts [k] t = btree_remove k t"
| "remove_parts (k # ks) t =
     (case btree_get k t of Some (DTable s) \<Rightarrow> btree_insert k (DTable (remove_parts ks s)) t | _ \<Rightarrow> t)"

abbreviation path_parts :: "string \<Rightarrow> string list" where
  "path_parts path \<equiv> split_char (CHR ''.'') path"

definition doc_get_path :: "doc_table \<Rightarrow> string \<Rightarrow> doc_value option" where
  "doc_get_path root path = get_parts (path_parts path) root"

definition doc_set_path :: "doc_table \<Rightarrow> string \<Rightarrow> doc_value \<Rightarrow> doc_table option" where
  "doc_set_path root path v = set_parts (path_parts path) v root"

definition doc_remove_path :: "doc_table \<Rightarrow> string \<Rightarrow> doc_table" where
  "doc_remove_path root path = remove_parts (path_parts path) root"

section \<open>Sources and errors\<close>

datatype dev_source_kind = ImageProfile | AdminProfile | UserOverlay | WorkspaceOverlay | RuntimeSource | CliSource | UnknownSource

definition source_trusted :: "dev_source_kind \<Rightarrow> bool" where
  "source_trusted kind \<longleftrightarrow> kind \<in> {ImageProfile, AdminProfile}"

fun source_layer :: "dev_source_kind \<Rightarrow> layer" where
  "source_layer ImageProfile = LayerProfile"
| "source_layer AdminProfile = LayerAdmin"
| "source_layer UserOverlay = LayerUser"
| "source_layer WorkspaceOverlay = LayerWorkspace"
| "source_layer RuntimeSource = LayerRuntime"
| "source_layer CliSource = LayerCli"
| "source_layer UnknownSource = LayerProfile"

record dev_source =
  ds_id :: string
  ds_source :: dev_source_kind
  ds_location :: "string option"
  ds_contents :: string

definition source_origin :: "dev_source \<Rightarrow> string \<Rightarrow> string option \<Rightarrow> origin" where
  "source_origin source profile rsn =
     (let here = unwrap_or profile (ds_location source);
          sid = (case ds_source source of
            ImageProfile \<Rightarrow> SourceProfile profile
          | RuntimeSource \<Rightarrow> SourceEnvironment here
          | CliSource \<Rightarrow> SourceCli
          | UnknownSource \<Rightarrow> SourceUnknown
          | _ \<Rightarrow> SourceFile here) in
      (origin_new sid (source_layer (ds_source source)))\<lparr>or_reason := rsn\<rparr>)"

definition origin_default :: origin where
  "origin_default = origin_new SourceUnknown LayerProfile"

datatype trust_violation_reason =
    OnlyTrustedSourcesMayChangePolicy | OnlyTrustedSourcesMayDeclareInputs | ReasonWorkspaceOverride | ReasonCliOverride
  | ProviderNotDeclared | UntrustedSourceMayNotOverride

datatype value_kind = KindScalar | KindArray | KindTable

datatype 'x dev_loader_error =
    DevParse string 'x
  | DevSerialize string 'x
  | DevModel "string option" dev_error
  | DevInvalidSourceId string
  | ProfileIdMismatch string string
  | DevMissingProfile string
  | DevInheritanceCycle "string list"
  | DevDuplicateProfile string "string option" "string option"
  | DevConflict string origin origin
  | TrustViolation string dev_source_kind string trust_violation_reason
  | MissingRequired string
  | OverrideTypeMismatch string override_operation value_kind
  | UnrepresentableOverride string
  | DuplicateInputName string string string
  | InputTargetMissing string string
  | RuntimeInputConflict string string string
  | LoaderPanic

type_synonym ('x, 'a) dev_load = "('x dev_loader_error, 'a) result"

text \<open>The conversions of \<open>toml\<close> and of the derived \<open>Serialize\<close> and \<open>Deserialize\<close> implementations.\<close>

record 'x dev_codec =
  dc_parse :: "string \<Rightarrow> ('x, doc_value) result"
  dc_document :: "doc_value \<Rightarrow> ('x, profile_document) result"
  dc_policy :: "doc_value \<Rightarrow> ('x, policy_config) result"
  dc_config :: "doc_value \<Rightarrow> ('x, resolved_config) result"
  dc_to_value :: "resolved_config \<Rightarrow> ('x, doc_value) result"
  dc_provenance :: "doc_value \<Rightarrow> ('x, provenance_index) result"

section \<open>Raw profiles\<close>

record raw_dev_profile =
  rd_document :: profile_document
  rd_root :: doc_value

definition environment_projection :: "doc_value \<Rightarrow> doc_value" where
  "environment_projection root = (case root of DTable t \<Rightarrow> DTable (btree_remove ''bootstrap'' t) | other \<Rightarrow> other)"

definition raw_profile_parse :: "'x dev_codec \<Rightarrow> string \<Rightarrow> string \<Rightarrow> ('x, raw_dev_profile) dev_load" where
  "raw_profile_parse codec contents location =
     rbind (map_err (DevParse location) (dc_parse codec contents)) (\<lambda>root.
     rbind (map_err (DevParse location) (dc_document codec (environment_projection root))) (\<lambda>document.
     rbind (map_err (DevModel (Some location)) (profile_document_validate document)) (\<lambda>_.
     Inr \<lparr>rd_document = document, rd_root = root\<rparr>)))"

definition raw_table :: "raw_dev_profile \<Rightarrow> string \<Rightarrow> doc_table option" where
  "raw_table profile key = Option.bind (as_table (rd_root profile)) (\<lambda>t. Option.bind (btree_get key t) as_table)"

definition has_section :: "raw_dev_profile \<Rightarrow> string \<Rightarrow> bool" where
  "has_section profile key = is_some_and (contains_key key) (as_table (rd_root profile))"

definition is_protected_path :: "string \<Rightarrow> bool" where
  "is_protected_path path \<longleftrightarrow> path = ''policy'' \<or> starts_with path ''policy.'' \<or> path = ''inputs'' \<or> starts_with path ''inputs.''"

definition protected_override_path :: "raw_dev_profile \<Rightarrow> string option" where
  "protected_override_path profile = find is_protected_path (map fst (pd_overrides (rd_document profile)))"

section \<open>The merged document\<close>

record merged_config =
  mc_root :: doc_table
  mc_origins :: "(string, origin) btree_map"
  mc_provenance :: provenance_index

definition merged_default :: merged_config where
  "merged_default = \<lparr>mc_root = [], mc_origins = [], mc_provenance = []\<rparr>"

record merge_context =
  mx_source :: dev_source
  mx_overrides :: "(string, override_spec) btree_map"
  mx_policy :: policy_config

fun record_value :: "string \<Rightarrow> doc_value \<Rightarrow> origin \<Rightarrow> sensitivity \<Rightarrow> provenance_index \<Rightarrow> provenance_index"
  and record_items :: "string \<Rightarrow> nat \<Rightarrow> doc_value list \<Rightarrow> origin \<Rightarrow> sensitivity \<Rightarrow> provenance_index \<Rightarrow> provenance_index"
  and record_entries :: "string \<Rightarrow> (string \<times> doc_value) list \<Rightarrow> origin \<Rightarrow> sensitivity \<Rightarrow> provenance_index \<Rightarrow> provenance_index" where
  "record_value path v origin sensitivity index =
     (let index = provenance_insert path origin sensitivity index in
      case v of
        DTable t \<Rightarrow> record_entries path t origin sensitivity index
      | DArray vs \<Rightarrow> record_items path 0 vs origin sensitivity index
      | _ \<Rightarrow> index)"
| "record_items path n [] origin sensitivity index = index"
| "record_items path n (v # vs) origin sensitivity index =
     record_items path (Suc n) vs origin sensitivity (record_value (path @ ''['' @ to_decimal n @ '']'') v origin sensitivity index)"
| "record_entries path [] origin sensitivity index = index"
| "record_entries path ((key, v) # vs) origin sensitivity index =
     record_entries path vs origin sensitivity (record_value (path @ ''.'' @ key) v origin sensitivity index)"

definition set_value :: "string \<Rightarrow> doc_value \<Rightarrow> origin \<Rightarrow> sensitivity \<Rightarrow> merged_config \<Rightarrow> ('x, merged_config) dev_load" where
  "set_value path v origin sensitivity merged =
     rbind (ok_or LoaderPanic (doc_set_path (mc_root merged) path v)) (\<lambda>root.
     Inr (merged\<lparr>mc_root := root, mc_provenance := record_value path v origin sensitivity (mc_provenance merged),
       mc_origins := btree_insert path origin (mc_origins merged)\<rparr>))"

definition dev_conflict :: "merged_config \<Rightarrow> string \<Rightarrow> origin \<Rightarrow> 'x dev_loader_error" where
  "dev_conflict merged path incoming = DevConflict path (unwrap_or origin_default (btree_get path (mc_origins merged))) incoming"

definition merged_policy :: "'x dev_codec \<Rightarrow> merged_config \<Rightarrow> ('x, policy_config) dev_load" where
  "merged_policy codec merged =
     (case btree_get ''policy'' (mc_root merged) of
        None \<Rightarrow> Inr policy_default
      | Some policy \<Rightarrow> map_err (DevParse ''merged policy'') (dc_policy codec policy))"

definition validate_source_permissions :: "raw_dev_profile \<Rightarrow> dev_source \<Rightarrow> ('x, unit) dev_load" where
  "validate_source_permissions profile source =
     (let violation = (\<lambda>path rsn. TrustViolation (pd_id (rd_document profile)) (ds_source source) path rsn) in
      if source_trusted (ds_source source) then Inr ()
      else
        rbind (fail_if (has_section profile ''policy'') (violation ''policy'' OnlyTrustedSourcesMayChangePolicy)) (\<lambda>_.
        rbind (fail_if (has_section profile ''inputs'') (violation ''inputs'' OnlyTrustedSourcesMayDeclareInputs)) (\<lambda>_.
        when_some (protected_override_path profile) (\<lambda>path. Inl (violation path OnlyTrustedSourcesMayChangePolicy)))))"

definition provider_of_path :: "string \<Rightarrow> doc_value \<Rightarrow> string option" where
  "provider_of_path path incoming =
     (case strip_prefix ''providers.'' path of
        Some rest \<Rightarrow> Some (hd (path_parts rest))
      | None \<Rightarrow>
          if path = ''providers'' then
            (case as_table incoming of Some ((key, _) # _) \<Rightarrow> Some key | _ \<Rightarrow> None)
          else None)"

definition reject_untrusted_provider_addition ::
  "merged_config \<Rightarrow> string \<Rightarrow> doc_value \<Rightarrow> dev_source \<Rightarrow> ('x, unit) dev_load" where
  "reject_untrusted_provider_addition merged path incoming source =
     (if source_trusted (ds_source source) \<or> \<not> starts_with path ''providers'' then Inr ()
      else when_some (provider_of_path path incoming) (\<lambda>provider_id.
        fail_if (doc_get_path (mc_root merged) (''providers.'' @ provider_id) = None)
          (TrustViolation (ds_id source) (ds_source source) (''providers.'' @ provider_id) ProviderNotDeclared)))"

definition merge_conflicting :: "merge_context \<Rightarrow> string \<Rightarrow> doc_value \<Rightarrow> merged_config \<Rightarrow> ('x, merged_config) dev_load" where
  "merge_conflicting cx path incoming merged =
     (let source = mx_source cx; origin = source_origin source (ds_id source) None in
      if po_merge (mx_policy cx) = PreferChild \<and> source_trusted (ds_source source) then set_value path incoming origin Public merged
      else if ds_source source = WorkspaceOverlay \<and> \<not> allows_workspace_override (mx_policy cx) path then
        Inl (DevModel (Some path) (WorkspaceOverrideNotAllowed path))
      else if ds_source source = CliSource \<and> \<not> allows_cli_override (mx_policy cx) path then
        Inl (DevModel (Some path) (CliOverrideNotAllowed path))
      else Inl (dev_conflict merged path origin))"

definition record_same :: "merge_context \<Rightarrow> string \<Rightarrow> doc_value \<Rightarrow> merged_config \<Rightarrow> merged_config" where
  "record_same cx path incoming merged =
     merged\<lparr>mc_provenance := record_value path incoming (source_origin (mx_source cx) (ds_id (mx_source cx)) None) Public (mc_provenance merged)\<rparr>"

fun merge_path :: "merge_context \<Rightarrow> string \<Rightarrow> doc_value \<Rightarrow> merged_config \<Rightarrow> ('x, merged_config) dev_load"
  and merge_children :: "merge_context \<Rightarrow> string \<Rightarrow> (string \<times> doc_value) list \<Rightarrow> merged_config \<Rightarrow> ('x, merged_config) dev_load" where
  "merge_path cx path incoming merged =
     (if contains_key path (mx_overrides cx) then Inr merged
      else
        rbind (reject_untrusted_provider_addition merged path incoming (mx_source cx)) (\<lambda>_.
        case doc_get_path (mc_root merged) path of
          None \<Rightarrow> set_value path incoming (source_origin (mx_source cx) (ds_id (mx_source cx)) None) Public merged
        | Some existing \<Rightarrow>
            (case (as_table existing, incoming) of
               (Some _, DTable t) \<Rightarrow> merge_children cx path t merged
             | _ \<Rightarrow>
                 if doc_eq existing incoming then Inr (record_same cx path incoming merged)
                 else merge_conflicting cx path incoming merged)))"
| "merge_children cx path [] merged = Inr merged"
| "merge_children cx path ((key, v) # entries) merged =
     rbind (merge_path cx (path @ ''.'' @ key) v merged) (merge_children cx path entries)"

declare merge_path.simps [simp del]

definition merge_table :: "merge_context \<Rightarrow> string \<Rightarrow> doc_table \<Rightarrow> merged_config \<Rightarrow> ('x, merged_config) dev_load" where
  "merge_table cx base incoming merged =
     fold_result (\<lambda>m (key, v). merge_path cx (if base = [] then key else base @ ''.'' @ key) v m) merged incoming"

definition validate_override_permission :: "string \<Rightarrow> dev_source \<Rightarrow> policy_config \<Rightarrow> string \<Rightarrow> ('x, unit) dev_load" where
  "validate_override_permission path source policy profile =
     (if source_trusted (ds_source source) then Inr ()
      else
        let (allowed, rsn) = (case ds_source source of
            WorkspaceOverlay \<Rightarrow> (allows_workspace_override policy path, ReasonWorkspaceOverride)
          | CliSource \<Rightarrow> (allows_cli_override policy path, ReasonCliOverride)
          | _ \<Rightarrow> (False, UntrustedSourceMayNotOverride)) in
        fail_if (\<not> allowed) (TrustViolation profile (ds_source source) path rsn))"

fun value_tree_to_toml :: "string \<Rightarrow> value_tree \<Rightarrow> ('x, doc_value) dev_load"
  and trees_to_toml :: "string \<Rightarrow> value_tree list \<Rightarrow> ('x, doc_value list) dev_load"
  and map_to_toml :: "string \<Rightarrow> (string \<times> value_tree) list \<Rightarrow> ('x, (string \<times> doc_value) list) dev_load" where
  "value_tree_to_toml path VNull = Inl (UnrepresentableOverride path)"
| "value_tree_to_toml path (VBool b) = Inr (DBoolean b)"
| "value_tree_to_toml path (VInteger n) = Inr (DInteger n)"
| "value_tree_to_toml path (VFloat x) = Inr (DFloat x)"
| "value_tree_to_toml path (VString s) = Inr (DString s)"
| "value_tree_to_toml path (VArray vs) = rbind (trees_to_toml path vs) (\<lambda>ds. Inr (DArray ds))"
| "value_tree_to_toml path (VMap vs) = rbind (map_to_toml path vs) (\<lambda>ds. Inr (DTable (btree_collect ds)))"
| "trees_to_toml path [] = Inr []"
| "trees_to_toml path (v # vs) = rbind (value_tree_to_toml path v) (\<lambda>d. rbind (trees_to_toml path vs) (\<lambda>ds. Inr (d # ds)))"
| "map_to_toml path [] = Inr []"
| "map_to_toml path ((key, v) # vs) = rbind (value_tree_to_toml path v) (\<lambda>d. rbind (map_to_toml path vs) (\<lambda>ds. Inr ((key, d) # ds)))"

fun doc_kind :: "doc_value \<Rightarrow> value_kind" where
  "doc_kind (DArray _) = KindArray"
| "doc_kind (DTable _) = KindTable"
| "doc_kind _ = KindScalar"

definition override_next ::
  "string \<Rightarrow> override_operation \<Rightarrow> doc_value list \<Rightarrow> doc_value option \<Rightarrow> ('x, doc_value option) dev_load" where
  "override_next path op vs current =
     (case current of
        None \<Rightarrow> if op = OverrideRemove then Inr None else Inr (Some (DArray vs))
      | Some (DArray items) \<Rightarrow>
          Inr (Some (DArray (if op = OverrideReplace then vs else if op = OverrideAppend then items @ vs
            else filter (\<lambda>v. \<not> list_ex (\<lambda>item. doc_eq item v) vs) items)))
      | Some v \<Rightarrow> Inl (OverrideTypeMismatch path op (doc_kind v)))"

definition apply_override :: "string \<Rightarrow> override_spec \<Rightarrow> dev_source \<Rightarrow> merged_config \<Rightarrow> ('x, merged_config) dev_load" where
  "apply_override path spec source merged =
     (let origin = source_origin source (ds_id source) (Some (os_reason spec));
          note_origin = (\<lambda>m. m\<lparr>mc_provenance := provenance_insert path origin Public (mc_provenance m)\<rparr>) in
      case os_op spec of
        OverrideSet \<Rightarrow>
          (case os_value spec of
             None \<Rightarrow> Inl LoaderPanic
           | Some tree \<Rightarrow> rbind (value_tree_to_toml path tree) (\<lambda>v. set_value path v origin Public merged))
      | OverrideUnset \<Rightarrow>
          Inr (note_origin (merged\<lparr>mc_root := doc_remove_path (mc_root merged) path, mc_origins := btree_remove path (mc_origins merged)\<rparr>))
      | op \<Rightarrow>
          rbind (trees_to_toml path (os_values spec)) (\<lambda>vs.
          rbind (override_next path op vs (doc_get_path (mc_root merged) path)) (\<lambda>next_value.
          case next_value of Some v \<Rightarrow> set_value path v origin Public merged | None \<Rightarrow> Inr (note_origin merged))))"

definition merge_profile :: "'x dev_codec \<Rightarrow> raw_dev_profile \<Rightarrow> dev_source \<Rightarrow> merged_config \<Rightarrow> ('x, merged_config) dev_load" where
  "merge_profile codec profile source merged =
     (let overrides = pd_overrides (rd_document profile);
          cx = (\<lambda>policy. \<lparr>mx_source = source, mx_overrides = overrides, mx_policy = policy\<rparr>);
          section_into = (\<lambda>key base policy m. case raw_table profile key of None \<Rightarrow> Inr m | Some t \<Rightarrow> merge_table (cx policy) base t m) in
      rbind (validate_source_permissions profile source) (\<lambda>_.
      rbind (case raw_table profile ''policy'' of
               None \<Rightarrow> Inr merged
             | Some t \<Rightarrow> rbind (merged_policy codec merged) (\<lambda>policy. merge_table (cx policy) ''policy'' t merged)) (\<lambda>merged.
      rbind (merged_policy codec merged) (\<lambda>policy.
      rbind (section_into ''config'' [] policy merged) (\<lambda>merged.
      rbind (section_into ''inputs'' ''inputs'' policy merged) (\<lambda>merged.
      fold_result (\<lambda>m (path, spec).
        rbind (validate_override_permission path source policy (pd_id (rd_document profile))) (\<lambda>_. apply_override path spec source m))
        merged overrides))))))"

section \<open>Lemmas\<close>

subsection \<open>Paths\<close>

lemma get_insert: "btree_get k' (btree_insert k v m) = (if k' = k then Some v else btree_get k' m)"
  unfolding btree_get_def by (induction k v m rule: btree_insert.induct) auto

lemma get_remove_other: "k' \<noteq> k \<Longrightarrow> btree_get k' (btree_remove k m) = btree_get k' m"
  unfolding btree_get_def by (induction k m rule: btree_remove.induct) auto

lemma split_char_append_gen: "split_char c (a @ c # b) = split_char c a @ split_char c b"
proof (induction a)
  case (Cons x a)
  then show ?case by (cases "split_char c a") auto
qed simp

lemma get_parts_Cons: "ks \<noteq> [] \<Longrightarrow> get_parts (k # ks) t = (case btree_get k t of Some (DTable s) \<Rightarrow> get_parts ks s | _ \<Rightarrow> None)"
  by (cases ks) auto

lemma set_parts_Cons:
  "ks \<noteq> [] \<Longrightarrow> set_parts (k # ks) v t =
     (case btree_get k t of
        None \<Rightarrow> map_option (\<lambda>s. btree_insert k (DTable s) t) (set_parts ks v [])
      | Some (DTable s) \<Rightarrow> map_option (\<lambda>s. btree_insert k (DTable s) t) (set_parts ks v s)
      | Some _ \<Rightarrow> None)"
  by (cases ks) auto

lemma remove_parts_Cons:
  "ks \<noteq> [] \<Longrightarrow> remove_parts (k # ks) t =
     (case btree_get k t of Some (DTable s) \<Rightarrow> btree_insert k (DTable (remove_parts ks s)) t | _ \<Rightarrow> t)"
  by (cases ks) auto

definition leaf :: "doc_table \<Rightarrow> string list \<Rightarrow> doc_value \<Rightarrow> bool" where
  "leaf t ps v \<longleftrightarrow> get_parts ps t = Some v \<and> as_table v = None"

lemma get_parts_prefix: "get_parts (ks @ ls) t = Some v \<Longrightarrow> ks \<noteq> [] \<Longrightarrow> get_parts ks t \<noteq> None"
proof (induction ks arbitrary: t)
  case (Cons k ks)
  show ?case
  proof (cases "ks = []")
    case True
    with Cons.prems show ?thesis by (cases ls) (auto split: option.splits)
  next
    case False
    with Cons show ?thesis by (auto simp: get_parts_Cons split: option.splits doc_value.splits)
  qed
qed simp

lemma set_parts_top: "set_parts ks v t = Some t' \<Longrightarrow> k \<noteq> hd ks \<Longrightarrow> btree_get k t' = btree_get k t"
  by (cases ks rule: set_parts.cases [of "(ks, v, t)" for ks]) (auto simp: get_insert split: option.splits doc_value.splits)

lemma leaf_Cons: "leaf t (k # qs) w \<longleftrightarrow>
    (if qs = [] then btree_get k t = Some w \<and> as_table w = None else (\<exists>s. btree_get k t = Some (DTable s) \<and> leaf s qs w))"
  by (auto simp: leaf_def get_parts_Cons split: option.splits doc_value.splits)

lemma leaf_other_key:
  assumes "leaf t ps w" "\<And>k. k \<noteq> hd ks \<Longrightarrow> btree_get k t' = btree_get k t" "ps \<noteq> [] \<Longrightarrow> hd ps \<noteq> hd ks"
  shows "leaf t' ps w"
proof (cases ps)
  case Nil
  with assms(1) show ?thesis by (simp add: leaf_def)
next
  case (Cons p qs)
  with assms have "btree_get p t' = btree_get p t" by simp
  with assms(1) Cons show ?thesis by (simp add: leaf_Cons)
qed

lemma set_parts_leaf:
  assumes "set_parts ks v t = Some t'" "leaf t ps w" "\<not> prefix ks ps"
  shows "leaf t' ps w"
  using assms
proof (induction ks arbitrary: ps t t')
  case (Cons k ks)
  show ?case
  proof (cases "ps \<noteq> [] \<and> hd ps = k")
    case False
    show ?thesis by (rule leaf_other_key [where ks = "k # ks", OF Cons.prems(2) set_parts_top [OF Cons.prems(1)]]) (use False in auto)
  next
    case True
    then obtain qs where ps: "ps = k # qs" by (cases ps) auto
    with Cons.prems(3) have ks: "ks \<noteq> []" "\<not> prefix ks qs" by auto
    from Cons.prems(1) ks(1) ps Cons.prems(2) obtain s s'
      where s: "btree_get k t = Some (DTable s)" "set_parts ks v s = Some s'" "t' = btree_insert k (DTable s') t" "qs \<noteq> []" "leaf s qs w"
      by (auto simp: set_parts_Cons leaf_Cons split: option.splits doc_value.splits if_splits)
    with Cons.IH [OF s(2,5) ks(2)] ps show ?thesis by (simp add: leaf_Cons get_insert)
  qed
qed simp

lemma remove_parts_top: "k \<noteq> hd ks \<Longrightarrow> btree_get k (remove_parts ks t) = btree_get k t"
  by (cases "(ks, t)" rule: remove_parts.cases) (auto simp: get_insert get_remove_other split: option.splits doc_value.splits)

lemma remove_parts_leaf:
  assumes "leaf t ps w" "\<not> prefix ks ps"
  shows "leaf (remove_parts ks t) ps w"
  using assms
proof (induction ks arbitrary: ps t)
  case (Cons k ks)
  show ?case
  proof (cases "ps \<noteq> [] \<and> hd ps = k")
    case False
    show ?thesis by (rule leaf_other_key [where ks = "k # ks", OF Cons.prems(1) remove_parts_top [of _ "k # ks" t]]) (use False in auto)
  next
    case True
    then obtain qs where ps: "ps = k # qs" by (cases ps) auto
    with Cons.prems(2) have ks: "ks \<noteq> []" "\<not> prefix ks qs" by auto
    show ?thesis
    proof (cases "qs = []")
      case True
      with Cons.prems(1) ps ks(1) show ?thesis by (auto simp: leaf_Cons remove_parts_Cons split: doc_value.splits)
    next
      case False
      with Cons.prems(1) ps obtain s where s: "btree_get k t = Some (DTable s)" "leaf s qs w" by (auto simp: leaf_Cons)
      with Cons.IH [OF s(2) ks(2)] False ps ks(1) show ?thesis by (simp add: leaf_Cons remove_parts_Cons get_insert)
    qed
  qed
qed simp

lemma path_parts_not_Nil: "path_parts path \<noteq> []" by simp

lemma hd_path_parts: "k \<noteq> [] \<Longrightarrow> CHR ''.'' \<notin> set k \<Longrightarrow> hd (path_parts path) = k \<longleftrightarrow> path = k \<or> starts_with path (k @ ''.'')"
proof
  assume "hd (path_parts path) = k" "CHR ''.'' \<notin> set k"
  then obtain ps where "path_parts path = k # ps" by (cases "path_parts path") auto
  then have "path = join ''.'' (k # ps)" using join_split_char [of "CHR ''.''" path] by simp
  then show "path = k \<or> starts_with path (k @ ''.'')" by (cases ps) auto
next
  assume "CHR ''.'' \<notin> set k" "path = k \<or> starts_with path (k @ ''.'')"
  then show "hd (path_parts path) = k"
    by (auto simp: split_char_single prefix_def split_char_append_gen)
qed

subsection \<open>What an untrusted source can change\<close>

definition provider_ids :: "doc_table \<Rightarrow> string set" where
  "provider_ids root = (case btree_get ''providers'' root of Some (DTable t) \<Rightarrow> fst ` set t | _ \<Rightarrow> {})"

text \<open>
  \<open>confined paths root root'\<close>: policy and inputs are the same, every value that was set is kept unless it lies at or below one of
  the paths, and every provider that is new is the one, or lies in the table, that one of the paths names.
\<close>

definition confined :: "string set \<Rightarrow> doc_table \<Rightarrow> doc_table \<Rightarrow> bool" where
  "confined paths root root' \<longleftrightarrow>
     btree_get ''policy'' root' = btree_get ''policy'' root \<and> btree_get ''inputs'' root' = btree_get ''inputs'' root \<and>
     (\<forall>ps v. leaf root ps v \<longrightarrow> leaf root' ps v \<or> (\<exists>path \<in> paths. prefix (path_parts path) ps)) \<and>
     (\<forall>k \<in> provider_ids root' - provider_ids root.
        \<exists>path \<in> paths. path_parts path = [''providers''] \<or> prefix [''providers'', k] (path_parts path))"

lemma confined_refl: "confined paths root root"
  by (simp add: confined_def)

lemma confined_trans: "confined paths a b \<Longrightarrow> confined paths b c \<Longrightarrow> confined paths a c"
  unfolding confined_def by (elim conjE, intro conjI allI impI ballI) (simp_all, blast+)

lemma confined_mono: "confined {} a b \<Longrightarrow> confined paths a b"
  by (auto simp: confined_def)

lemma confined_fold:
  assumes "fold_result f s xs = Inr s'"
    and "\<And>s x s'. x \<in> set xs \<Longrightarrow> f s x = Inr s' \<Longrightarrow> confined paths (mc_root s) (mc_root s')"
  shows "confined paths (mc_root s) (mc_root s')"
  using assms
proof (induction xs arbitrary: s)
  case Nil
  then show ?case by (simp add: confined_refl)
next
  case (Cons x xs)
  then obtain s1 where "f s x = Inr s1" "fold_result f s1 xs = Inr s'" by (auto simp: rbind_Inr_iff)
  with Cons show ?case by (meson confined_trans list.set_intros)
qed

lemma provider_ids_set_below:
  assumes "set_parts (''providers'' # pid # ks) v root = Some root'" "get_parts [''providers'', pid] root \<noteq> None"
  shows "provider_ids root' = provider_ids root"
proof -
  from assms obtain t t' where t: "btree_get ''providers'' root = Some (DTable t)" "set_parts (pid # ks) v t = Some t'"
    "root' = btree_insert ''providers'' (DTable t') root" "btree_get pid t \<noteq> None"
    by (auto split: option.splits doc_value.splits)
  from t(2) obtain w where "t' = btree_insert pid w t"
    by (cases ks) (auto split: option.splits doc_value.splits)
  moreover from t(4) have "pid \<in> fst ` set t" using contains_key_iff [of pid t] by (simp add: contains_key_def)
  ultimately show ?thesis using t btree_insert_keys [of pid w t] by (auto simp: provider_ids_def get_insert)
qed

lemma provider_ids_set:
  assumes "set_parts (''providers'' # pid # ks) v root = Some root'"
  shows "provider_ids root' \<subseteq> insert pid (provider_ids root)"
proof -
  from assms obtain t t' where t: "set_parts (pid # ks) v t = Some t'" "root' = btree_insert ''providers'' (DTable t') root"
    "btree_get ''providers'' root = Some (DTable t) \<or> t = []"
    by (auto split: option.splits doc_value.splits)
  from t(1) obtain w where "t' = btree_insert pid w t"
    by (cases ks) (auto split: option.splits doc_value.splits)
  then have "provider_ids root' = insert pid (fst ` set t)"
    using t(2) btree_insert_keys [of pid w t] by (simp add: provider_ids_def get_insert)
  moreover from t(3) have "fst ` set t \<subseteq> provider_ids root" by (elim disjE) (simp_all add: provider_ids_def)
  ultimately show ?thesis by blast
qed

lemma remove_keys: "fst ` set (btree_remove k m) \<subseteq> fst ` set m"
  by (induction k m rule: btree_remove.induct) auto

lemma provider_ids_remove: "provider_ids (remove_parts (''providers'' # pid # ks) root) \<subseteq> provider_ids root"
proof -
  have "fst ` set (remove_parts (pid # ks) t) \<subseteq> fst ` set t" for t
    using remove_keys [of pid t] btree_insert_keys [of pid _ t] contains_key_iff [of pid t]
    by (cases ks) (auto simp: contains_key_def split: option.splits doc_value.splits)
  then show ?thesis by (auto simp: provider_ids_def get_insert split: option.splits doc_value.splits)
qed

lemma set_value_root:
  "set_value path v origin sensitivity merged = Inr merged' \<Longrightarrow> set_parts (path_parts path) v (mc_root merged) = Some (mc_root merged')"
  by (auto simp: set_value_def rbind_Inr_iff ok_or_Inr_iff doc_set_path_def)

lemma provider_ids_absent:
  assumes set: "set_parts (path_parts path) v root = Some root'" and absent: "doc_get_path root path = None"
    and ok: "reject_untrusted_provider_addition merged path v source = Inr ()" "mc_root merged = root" "\<not> source_trusted (ds_source source)"
  shows "provider_ids root' \<subseteq> provider_ids root"
proof (cases "hd (path_parts path) = ''providers''")
  case False
  then have "btree_get ''providers'' root' = btree_get ''providers'' root" using set_parts_top [OF set] by auto
  then show ?thesis by (simp add: provider_ids_def)
next
  case True
  then consider (top) "path = ''providers''" | (below) rest where "path = ''providers.'' @ rest"
    using hd_path_parts [of "''providers''" path] by (auto simp: prefix_def)
  then show ?thesis
  proof cases
    case top
    then have parts: "path_parts path = [''providers'']" by (simp add: split_char_single)
    with absent have none: "btree_get ''providers'' root = None" by (simp add: doc_get_path_def)
    then have "get_parts (''providers'' # ks) root = None" for ks by (cases ks) auto
    moreover have "path_parts (''providers.'' @ key) = ''providers'' # path_parts key" for key
      using split_char_append [of "CHR ''.''" "''providers''" key] by simp
    ultimately have "doc_get_path root (''providers.'' @ key) = None" for key by (simp add: doc_get_path_def)
    then have "provider_of_path path v = None"
      using ok top by (auto simp: reject_untrusted_provider_addition_def when_some_Inr_iff fail_if_def split: if_splits)
    with top have "as_table v = None \<or> as_table v = Some []"
      by (auto simp: provider_of_path_def strip_prefix_def split: option.splits list.splits)
    then have "provider_ids (btree_insert ''providers'' v root) = {}"
      by (cases v) (auto simp: provider_ids_def get_insert)
    with set parts show ?thesis by simp
  next
    case below
    let ?pid = "hd (path_parts rest)"
    have parts: "path_parts path = ''providers'' # path_parts rest"
      using below split_char_append [of "CHR ''.''" "''providers''" rest] by simp
    obtain ks where ks: "path_parts rest = ?pid # ks" by (cases "path_parts rest") auto
    then have "CHR ''.'' \<notin> set ?pid" by (intro split_char_no_sep [of _ _ rest]) auto
    then have "path_parts (''providers.'' @ ?pid) = [''providers'', ?pid]"
      using split_char_append [of "CHR ''.''" "''providers''" ?pid] by (simp add: split_char_single)
    moreover have "provider_of_path path v = Some ?pid" using below by (simp add: provider_of_path_def strip_prefix_def)
    ultimately have "get_parts [''providers'', ?pid] root \<noteq> None"
      using ok below by (auto simp: reject_untrusted_provider_addition_def when_some_def fail_if_Inr_iff doc_get_path_def split: if_splits)
    with provider_ids_set_below [of ?pid ks v root root'] set parts ks show ?thesis by simp
  qed
qed

definition foreign_path :: "string \<Rightarrow> bool" where
  "foreign_path path \<longleftrightarrow> hd (path_parts path) \<notin> {''policy'', ''inputs''}"

lemma confined_add:
  assumes "set_value path v origin sensitivity merged = Inr merged'" "doc_get_path (mc_root merged) path = None"
    and "reject_untrusted_provider_addition merged path v source = Inr ()" "\<not> source_trusted (ds_source source)" "foreign_path path"
  shows "confined {} (mc_root merged) (mc_root merged')"
proof -
  note set = set_value_root [OF assms(1)]
  have "leaf (mc_root merged') ps w" if "leaf (mc_root merged) ps w" for ps w
  proof (rule set_parts_leaf [OF set that])
    show "\<not> prefix (path_parts path) ps"
    proof
      assume "prefix (path_parts path) ps"
      then obtain ls where "ps = path_parts path @ ls" by (auto simp: prefix_def)
      with that get_parts_prefix [of "path_parts path" ls "mc_root merged" w] assms(2) show False by (auto simp: leaf_def doc_get_path_def)
    qed
  qed
  moreover have "btree_get k (mc_root merged') = btree_get k (mc_root merged)" if "k \<in> {''policy'', ''inputs''}" for k
    using set_parts_top [OF set] that assms(5) by (auto simp: foreign_path_def)
  ultimately show ?thesis
    using provider_ids_absent [OF set assms(2,3) refl assms(4)] by (auto simp: confined_def)
qed

lemma foreign_child: "foreign_path path \<Longrightarrow> foreign_path (path @ ''.'' @ key)"
  using split_char_append_gen [of "CHR ''.''" path key] by (simp add: foreign_path_def hd_append)

lemma merge_path_confined:
  "(merge_path cx path incoming merged :: ('x, merged_config) dev_load) = Inr merged' \<Longrightarrow> \<not> source_trusted (ds_source (mx_source cx)) \<Longrightarrow> foreign_path path \<Longrightarrow>
     confined {} (mc_root merged) (mc_root merged')"
  "(merge_children cx path entries merged :: ('x, merged_config) dev_load) = Inr merged' \<Longrightarrow> \<not> source_trusted (ds_source (mx_source cx)) \<Longrightarrow> foreign_path path \<Longrightarrow>
     confined {} (mc_root merged) (mc_root merged')"
proof (induction cx path incoming merged and cx path entries merged arbitrary: merged' and merged' rule: merge_path_merge_children.induct [where 'x = 'x])
  case (1 cx path incoming merged)
  note run = 1(2) [unfolded merge_path.simps]
  show ?case
  proof (cases "contains_key path (mx_overrides cx)")
    case True
    with run show ?thesis by (simp add: confined_refl)
  next
    case False
    with run have rej: "(reject_untrusted_provider_addition merged path incoming (mx_source cx) :: ('x, unit) dev_load) = Inr ()" by (auto simp: rbind_Inr_iff)
    show ?thesis
    proof (cases "doc_get_path (mc_root merged) path")
      case None
      with run False rej have "(set_value path incoming (source_origin (mx_source cx) (ds_id (mx_source cx)) None) Public merged :: ('x, merged_config) dev_load) = Inr merged'"
        by simp
      from confined_add [OF this None rej 1(3,4)] show ?thesis .
    next
      case (Some existing)
      show ?thesis
      proof (cases "\<exists>s t. as_table existing = Some s \<and> incoming = DTable t")
        case True
        then obtain s t where t: "as_table existing = Some s" "incoming = DTable t" by blast
        with run False rej Some have "(merge_children cx path t merged :: ('x, merged_config) dev_load) = Inr merged'" by simp
        with 1(1) False rej Some t 1(3,4) show ?thesis by blast
      next
        case other: False
        then have "(if doc_eq existing incoming then Inr (record_same cx path incoming merged)
            else merge_conflicting cx path incoming merged :: ('x, merged_config) dev_load) = Inr merged'"
          using run False rej Some by (auto split: option.splits doc_value.splits)
        then have "mc_root merged' = mc_root merged"
          using 1(3) by (auto simp: record_same_def merge_conflicting_def Let_def split: if_splits)
        then show ?thesis by (simp add: confined_refl)
      qed
    qed
  qed
next
  case (2 cx path merged)
  then show ?case by (simp add: confined_refl)
next
  case (3 cx path key v entries merged)
  then obtain m where m: "(merge_path cx (path @ ''.'' @ key) v merged :: ('x, merged_config) dev_load) = Inr m"
    "(merge_children cx path entries m :: ('x, merged_config) dev_load) = Inr merged'" by (auto simp: rbind_Inr_iff)
  then have "confined {} (mc_root merged) (mc_root m)" "confined {} (mc_root m) (mc_root merged')"
    using 3 foreign_child by blast+
  then show ?case by (rule confined_trans)
qed

lemma merge_table_confined:
  assumes "(merge_table cx [] t merged :: ('x, merged_config) dev_load) = Inr merged'" "\<not> source_trusted (ds_source (mx_source cx))"
    "\<forall>(key, v) \<in> set t. foreign_path key"
  shows "confined {} (mc_root merged) (mc_root merged')"
  using assms(1) unfolding merge_table_def
  by (rule confined_fold) (use merge_path_confined(1) assms(2,3) in fastforce)

lemma path_parts_cases:
  obtains (top) "path_parts path = [''providers'']" | (below) pid ks where "path_parts path = ''providers'' # pid # ks"
  | (other) "''providers'' \<noteq> hd (path_parts path)"
  by (metis hd_Cons_tl path_parts_not_Nil)

lemma apply_override_confined:
  assumes "(apply_override path spec source merged :: ('x, merged_config) dev_load) = Inr merged'" "foreign_path path"
  shows "confined {path} (mc_root merged) (mc_root merged')"
proof -
  from assms(1) consider (set) v origin where "(set_value path v origin Public merged :: ('x, merged_config) dev_load) = Inr merged'"
    | (unset) "mc_root merged' = remove_parts (path_parts path) (mc_root merged)" | (same) "mc_root merged' = mc_root merged"
    by (auto simp: apply_override_def Let_def rbind_Inr_iff doc_remove_path_def split: override_operation.splits option.splits)
  then show ?thesis
  proof cases
    case set
    note set = set_value_root [OF set]
    have ids: "\<forall>k \<in> provider_ids (mc_root merged') - provider_ids (mc_root merged).
        path_parts path = [''providers''] \<or> prefix [''providers'', k] (path_parts path)"
      using path_parts_cases [of path]
    proof cases
      case other
      then have "btree_get ''providers'' (mc_root merged') = btree_get ''providers'' (mc_root merged)"
        using set_parts_top [OF set] by metis
      then show ?thesis by (simp add: provider_ids_def)
    next
      case below
      with provider_ids_set [of _ _ v "mc_root merged" "mc_root merged'"] set show ?thesis by auto
    qed simp
    with set_parts_top [OF set] set_parts_leaf [OF set] assms(2) show ?thesis
      unfolding confined_def foreign_path_def by auto
  next
    case unset
    have ids: "\<forall>k \<in> provider_ids (mc_root merged') - provider_ids (mc_root merged).
        path_parts path = [''providers''] \<or> prefix [''providers'', k] (path_parts path)"
      using path_parts_cases [of path]
    proof cases
      case other
      then have "btree_get ''providers'' (mc_root merged') = btree_get ''providers'' (mc_root merged)"
        using remove_parts_top [of _ "path_parts path"] unset by metis
      then show ?thesis by (simp add: provider_ids_def)
    next
      case below
      with provider_ids_remove [of _ _ "mc_root merged"] unset show ?thesis by auto
    qed simp
    with unset remove_parts_top [of _ "path_parts path"] remove_parts_leaf [of "mc_root merged" _ _ "path_parts path"] assms(2) show ?thesis
      unfolding confined_def foreign_path_def by auto
  next
    case same
    then show ?thesis by (simp add: confined_refl)
  qed
qed

lemma unprotected_foreign: "\<not> is_protected_path path \<Longrightarrow> foreign_path path"
  using hd_path_parts [of "''policy''" path] hd_path_parts [of "''inputs''" path] by (auto simp: is_protected_path_def foreign_path_def)

definition config_fields :: "string list" where
  "config_fields = [''workspace'', ''shell'', ''shells'', ''environment'', ''features'', ''providers'']"

lemma config_fields_foreign: "key \<in> set config_fields \<Longrightarrow> foreign_path key"
proof -
  have "list_all foreign_path config_fields" by code_simp
  then show "key \<in> set config_fields \<Longrightarrow> foreign_path key" by (simp add: list_all_iff)
qed

text \<open>
  \<open>ConfigLayer\<close> denies unknown fields: a document that converts has only the declared ones in its \<open>config\<close> table.
\<close>

definition codec_denies_unknown :: "'x dev_codec \<Rightarrow> bool" where
  "codec_denies_unknown codec \<longleftrightarrow>
     (\<forall>t c document. dc_document codec (DTable t) = Inr document \<longrightarrow> btree_get ''config'' t = Some (DTable c) \<longrightarrow> fst ` set c \<subseteq> set config_fields)"

lemma raw_config_foreign:
  assumes "codec_denies_unknown codec" "raw_profile_parse codec contents location = Inr profile" "raw_table profile ''config'' = Some c"
  shows "\<forall>(key, v) \<in> set c. foreign_path key"
proof -
  from assms(3) obtain t where t: "rd_root profile = DTable t" "btree_get ''config'' t = Some (DTable c)"
    by (auto simp: raw_table_def Option.bind_eq_Some_conv elim!: as_table.elims)
  with assms(2) obtain document where "dc_document codec (DTable (btree_remove ''bootstrap'' t)) = Inr document"
    by (auto simp: raw_profile_parse_def rbind_Inr_iff map_err_Inr_iff environment_projection_def)
  with assms(1) t get_remove_other [of "''config''" "''bootstrap''" t] have "fst ` set c \<subseteq> set config_fields"
    by (auto simp: codec_denies_unknown_def)
  with config_fields_foreign show ?thesis by fastforce
qed

text \<open>The overrides of an untrusted source that the policy permits.\<close>

definition permitted_overrides :: "raw_dev_profile \<Rightarrow> dev_source \<Rightarrow> policy_config \<Rightarrow> string set" where
  "permitted_overrides profile source policy =
     {path \<in> fst ` set (pd_overrides (rd_document profile)).
        ds_source source = WorkspaceOverlay \<and> allows_workspace_override policy path \<or>
        ds_source source = CliSource \<and> allows_cli_override policy path}"

lemma validate_override_permission_Inr:
  "validate_override_permission path source policy profile = Inr () \<Longrightarrow> \<not> source_trusted (ds_source source) \<Longrightarrow>
     ds_source source = WorkspaceOverlay \<and> allows_workspace_override policy path \<or> ds_source source = CliSource \<and> allows_cli_override policy path"
  by (auto simp: validate_override_permission_def fail_if_Inr_iff split: dev_source_kind.splits)

lemma merge_profile_confined:
  fixes codec :: "'x dev_codec"
  assumes "codec_denies_unknown codec" "raw_profile_parse codec contents location = Inr profile"
    and "\<not> source_trusted (ds_source source)" "merge_profile codec profile source merged = Inr merged'"
  shows "\<exists>policy. merged_policy codec merged = Inr policy \<and>
    confined (permitted_overrides profile source policy) (mc_root merged) (mc_root merged')"
proof -
  have perm: "\<not> has_section profile ''policy''" "\<not> has_section profile ''inputs''" "protected_override_path profile = None"
    using assms(3,4) by (auto simp: merge_profile_def Let_def rbind_Inr_iff validate_source_permissions_def fail_if_Inr_iff when_some_Inr_iff
        split: if_splits)
  have tables: "raw_table profile ''policy'' = None" "raw_table profile ''inputs'' = None"
    using perm(1,2) by (auto simp: raw_table_def has_section_def contains_key_def is_some_and_def split: option.splits)
  let ?overrides = "pd_overrides (rd_document profile)"
  from assms(4) tables obtain policy m where policy: "merged_policy codec merged = Inr policy"
    and config: "(case raw_table profile ''config'' of None \<Rightarrow> Inr merged
      | Some t \<Rightarrow> merge_table \<lparr>mx_source = source, mx_overrides = ?overrides, mx_policy = policy\<rparr> [] t merged) = (Inr m :: ('x, merged_config) dev_load)"
    and loop: "fold_result (\<lambda>m (path, spec).
      rbind (validate_override_permission path source policy (pd_id (rd_document profile))) (\<lambda>_. apply_override path spec source m))
      m ?overrides = (Inr merged' :: ('x, merged_config) dev_load)"
    by (auto simp: merge_profile_def Let_def rbind_Inr_iff)
  let ?paths = "permitted_overrides profile source policy"
  have "confined ?paths (mc_root merged) (mc_root m)"
  proof (cases "raw_table profile ''config''")
    case None
    with config show ?thesis by (simp add: confined_refl)
  next
    case (Some t)
    with config have "merge_table \<lparr>mx_source = source, mx_overrides = ?overrides, mx_policy = policy\<rparr> [] t merged = (Inr m :: ('x, merged_config) dev_load)" by simp
    from merge_table_confined [OF this _ raw_config_foreign [OF assms(1,2) Some]] assms(3) show ?thesis
      by (auto intro: confined_mono)
  qed
  moreover have "confined ?paths (mc_root m) (mc_root merged')"
    using loop
  proof (rule confined_fold)
    fix s x s'
    assume x: "x \<in> set ?overrides" and step: "(case x of (path, spec) \<Rightarrow>
      rbind (validate_override_permission path source policy (pd_id (rd_document profile))) (\<lambda>_. apply_override path spec source s)) = (Inr s' :: ('x, merged_config) dev_load)"
    obtain path spec where path: "x = (path, spec)" by (cases x)
    with x have "path \<in> fst ` set ?overrides" by force
    with perm(3) have "\<not> is_protected_path path" by (auto simp: protected_override_path_def find_None_iff)
    moreover from step path have ok: "(validate_override_permission path source policy (pd_id (rd_document profile)) :: ('x, unit) dev_load) = Inr ()"
      "(apply_override path spec source s :: ('x, merged_config) dev_load) = Inr s'" by (auto simp: rbind_Inr_iff)
    ultimately have "confined {path} (mc_root s) (mc_root s')" by (intro apply_override_confined unprotected_foreign)
    moreover have "path \<in> ?paths"
      using validate_override_permission_Inr [OF ok(1) assms(3)] \<open>path \<in> fst ` _\<close> by (simp add: permitted_overrides_def)
    ultimately show "confined ?paths (mc_root s) (mc_root s')" unfolding confined_def by blast
  qed
  ultimately show ?thesis using policy confined_trans by blast
qed

section \<open>A concrete overlay\<close>

text \<open>A workspace overlay that adds a variable and overrides a permitted one.\<close>

definition sample_overlay_document :: profile_document where
  "sample_overlay_document = \<lparr>pd_schema = 1, pd_id = ''workspace'', pd_extends = [], pd_policy = policy_default,
     pd_config = \<lparr>cl_workspace = None, cl_shell = None, cl_shells = [],
       cl_environment = \<lparr>el_inherit_process = None, el_precedence = None, el_variables = [(''NEW'', ''1'')], el_conditional_variables = [],
         el_path = \<lparr>ep_prepend = [], ep_append = [], ep_remove = []\<rparr>\<rparr>, cl_features = VMap [], cl_providers = []\<rparr>,
     pd_overrides = [(''environment.variables.EDITOR'', \<lparr>os_op = OverrideSet, os_value = Some (VString ''vi''), os_values = [], os_reason = ''mine''\<rparr>)],
     pd_inputs = []\<rparr>"

definition sample_overlay_root :: doc_value where
  "sample_overlay_root = DTable [(''config'', DTable [(''environment'', DTable [(''variables'', DTable [(''NEW'', DString ''1'')])])]),
     (''id'', DString ''workspace''), (''schema'', DInteger 1)]"

definition sample_policy :: policy_config where
  "sample_policy = policy_default\<lparr>po_workspace_can_override := [''environment.variables.*'']\<rparr>"

definition sample_codec :: "unit dev_codec" where
  "sample_codec = \<lparr>dc_parse = (\<lambda>_. Inr sample_overlay_root),
     dc_document = (\<lambda>v. if v = sample_overlay_root then Inr sample_overlay_document else Inl ()), dc_policy = (\<lambda>_. Inr sample_policy),
     dc_config = (\<lambda>_. Inl ()), dc_to_value = (\<lambda>_. Inl ()), dc_provenance = (\<lambda>_. Inl ())\<rparr>"

definition sample_overlay_profile :: raw_dev_profile where
  "sample_overlay_profile = \<lparr>rd_document = sample_overlay_document, rd_root = sample_overlay_root\<rparr>"

definition sample_overlay_source :: dev_source where
  "sample_overlay_source = \<lparr>ds_id = ''workspace'', ds_source = WorkspaceOverlay, ds_location = None, ds_contents = []\<rparr>"

definition sample_merged :: merged_config where
  "sample_merged = merged_default\<lparr>mc_root := [(''environment'', DTable [(''variables'', DTable [(''EDITOR'', DString ''emacs''), (''LANG'', DString ''C'')])]),
     (''policy'', DTable [])]\<rparr>"

end
