(* ===== verification/Dev_Loader.thy ===== *)
theory Dev_Loader
  imports Dev_Merge
begin

text \<open>
  Loading a developer environment (\<open>src/crates/dev-env-loader/src/loader.rs\<close>,
  \<open>loader/runtime.rs\<close> and the last part of \<open>merge.rs\<close>): profiles are merged parents first, then
  the overlays, then declared runtime inputs, then patches of the command line, and the result
  is converted and validated. Reading files is not modelled; a source is given with its contents.
\<close>

section \<open>Registering profiles\<close>

record dev_loader =
  dl_profiles :: "(string, dev_source) btree_map"
  dl_overlays :: "dev_source list"

definition loader_new :: dev_loader where
  "loader_new = \<lparr>dl_profiles = [], dl_overlays = []\<rparr>"

definition source_label :: "dev_source \<Rightarrow> string" where
  "source_label source = unwrap_or (''profile '' @ ds_id source) (ds_location source)"

definition parse_source :: "'x dev_codec \<Rightarrow> dev_source \<Rightarrow> ('x, raw_dev_profile) dev_load" where
  "parse_source codec source =
     rbind (raw_profile_parse codec (ds_contents source) (source_label source)) (\<lambda>parsed.
     rbind (fail_if (pd_id (rd_document parsed) \<noteq> ds_id source) (ProfileIdMismatch (ds_id source) (pd_id (rd_document parsed)))) (\<lambda>_.
     Inr parsed))"

definition check_source :: "'x dev_codec \<Rightarrow> dev_source \<Rightarrow> ('x, unit) dev_load" where
  "check_source codec source =
     rbind (parse_source codec source) (\<lambda>_. map_err (\<lambda>_. DevInvalidSourceId (ds_id source)) (validate_profile_id (ds_id source)))"

definition dev_add_profile :: "'x dev_codec \<Rightarrow> dev_source \<Rightarrow> dev_loader \<Rightarrow> ('x, dev_loader) dev_load" where
  "dev_add_profile codec profile loader =
     rbind (check_source codec profile) (\<lambda>_.
     rbind (when_some (btree_get (ds_id profile) (dl_profiles loader)) (\<lambda>previous.
       Inl (DevDuplicateProfile (ds_id profile) (ds_location previous) (ds_location profile)))) (\<lambda>_.
     Inr (loader\<lparr>dl_profiles := btree_insert (ds_id profile) profile (dl_profiles loader)\<rparr>)))"

definition dev_add_overlay :: "'x dev_codec \<Rightarrow> dev_source \<Rightarrow> dev_loader \<Rightarrow> ('x, dev_loader) dev_load" where
  "dev_add_overlay codec overlay loader =
     rbind (check_source codec overlay) (\<lambda>_. Inr (loader\<lparr>dl_overlays := dl_overlays loader @ [overlay]\<rparr>))"

section \<open>Finishing a merge\<close>

definition register_input_name :: "(string, string) btree_map \<Rightarrow> string \<times> string \<Rightarrow> ('x, (string, string) btree_map) dev_load" where
  "register_input_name names entry =
     (let (name, owner) = entry; names' = btree_insert name owner names in
      case btree_get name names of
        Some previous \<Rightarrow> if previous \<noteq> owner then Inl (DuplicateInputName name previous owner) else Inr names'
      | None \<Rightarrow> Inr names')"

definition validate_input_names :: "resolved_config \<Rightarrow> ('x, unit) dev_load" where
  "validate_input_names config =
     rbind (fold_result register_input_name [] (map (\<lambda>(name, _). (name, name)) (rc_inputs config))) (\<lambda>names.
     rbind (fold_result register_input_name names
       (concat (map (\<lambda>(name, input). case is_export_as input of None \<Rightarrow> [] | Some export_as \<Rightarrow> [(export_as, name)]) (rc_inputs config)))) (\<lambda>_.
     Inr ()))"

definition validate_input_targets :: "resolved_config \<Rightarrow> doc_table \<Rightarrow> ('x, unit) dev_load" where
  "validate_input_targets config root =
     for_each (\<lambda>(name, input). fail_if (doc_get_path root (is_target input) = None) (InputTargetMissing name (is_target input))) (rc_inputs config)"

definition entry_or_table :: "string \<Rightarrow> doc_table \<Rightarrow> doc_table" where
  "entry_or_table key root = (if contains_key key root then root else btree_insert key (DTable []) root)"

definition convert_config :: "'x dev_codec \<Rightarrow> string \<Rightarrow> merged_config \<Rightarrow> doc_table \<Rightarrow> ('x, resolved_config) dev_load" where
  "convert_config codec location merged root =
     rbind (map_err (DevParse location) (dc_config codec (DTable root))) (\<lambda>config.
     let config = config\<lparr>rc_provenance := mc_provenance merged\<rparr> in
     rbind (map_err (DevModel (Some location)) (resolved_config_validate config)) (\<lambda>_. Inr config))"

definition config_snapshot :: "'x dev_codec \<Rightarrow> merged_config \<Rightarrow> ('x, resolved_config) dev_load" where
  "config_snapshot codec merged =
     convert_config codec ''runtime input configuration'' merged (entry_or_table ''environment'' (mc_root merged))"

definition merged_finish :: "'x dev_codec \<Rightarrow> merged_config \<Rightarrow> ('x, resolved_config) dev_load" where
  "merged_finish codec merged =
     rbind (for_each (\<lambda>required. fail_if (\<not> contains_key required (mc_root merged)) (MissingRequired required))
       [''workspace'', ''shell'', ''shells'']) (\<lambda>_.
     let root = entry_or_table ''environment'' (mc_root merged) in
     rbind (convert_config codec ''merged environment configuration'' merged root) (\<lambda>config.
     rbind (validate_input_names config) (\<lambda>_.
     rbind (validate_input_targets config root) (\<lambda>_.
     Inr config))))"

section \<open>Patches of the command line\<close>

definition last_origins :: "provenance_index \<Rightarrow> (string, origin) btree_map" where
  "last_origins index =
     fold (\<lambda>(path, entry) m. if pe_origins entry = [] then m else btree_insert path (last (pe_origins entry)) m) index []"

definition merged_from_config :: "'x dev_codec \<Rightarrow> resolved_config \<Rightarrow> ('x, merged_config) dev_load" where
  "merged_from_config codec config =
     rbind (map_err (DevSerialize ''resolved config'') (dc_to_value codec config)) (\<lambda>v.
     case as_table v of
       None \<Rightarrow> Inl (MissingRequired ''resolved config'')
     | Some root \<Rightarrow>
         rbind (case btree_get ''provenance'' root of
                  None \<Rightarrow> Inr []
                | Some p \<Rightarrow> map_err (DevParse ''resolved config.provenance'') (dc_provenance codec p)) (\<lambda>provenance.
         Inr \<lparr>mc_root = btree_remove ''provenance'' root, mc_origins = last_origins provenance, mc_provenance = provenance\<rparr>))"

definition cli_source :: dev_source where
  "cli_source = \<lparr>ds_id = ''<cli>'', ds_source = CliSource, ds_location = None, ds_contents = []\<rparr>"

definition apply_cli_patch :: "'x dev_codec \<Rightarrow> merged_config \<Rightarrow> string \<times> override_spec \<Rightarrow> ('x, merged_config) dev_load" where
  "apply_cli_patch codec merged patch =
     (let (path, spec) = patch in
      rbind (map_err (DevModel (Some (''override.'' @ path))) (override_spec_validate spec path)) (\<lambda>_.
      rbind (merged_policy codec merged) (\<lambda>policy.
      rbind (fail_if (\<not> allows_cli_override policy path) (TrustViolation ''<cli>'' CliSource path ReasonCliOverride)) (\<lambda>_.
      apply_override path spec cli_source merged))))"

section \<open>Runtime inputs\<close>

fun parsed_input_value :: "dev_parsed_input \<Rightarrow> value_tree" where
  "parsed_input_value (ParsedBool b) = VBool b"
| "parsed_input_value (ParsedEnum s) = VString s"
| "parsed_input_value (ParsedPath s) = VString s"
| "parsed_input_value (ParsedString s) = VString s"
| "parsed_input_value (ParsedInteger n) = VInteger n"

text \<open>\<open>str::split\<close> with a text.\<close>

function split_text :: "string \<Rightarrow> string \<Rightarrow> string list" where
  "split_text p s =
     (case str_find p s of
        None \<Rightarrow> [s]
      | Some i \<Rightarrow> if p = [] then [s] else take i s # split_text p (drop (i + length p) s))"
  by pat_completeness auto
termination
proof (relation "measure (\<lambda>(p, s). length s)", goal_cases)
  case (2 p s i)
  then have "i + length p \<le> length s" "0 < length p" using str_find_Some(1) by auto
  then have "0 < length s" "0 < i + length p" by linarith+
  then show ?case by simp
qed simp

declare split_text.simps [simp del]

definition to_ascii_lowercase :: "string \<Rightarrow> string" where
  "to_ascii_lowercase s = map (\<lambda>c. if is_ascii_uppercase c then char_of (of_char c + 32 :: nat) else c) s"

definition namespace_path :: "string \<Rightarrow> ('x, string) dev_load" where
  "namespace_path raw =
     (let parts = split_text ''__'' raw in
      if parts = [] \<or> list_ex (\<lambda>part. part = [] \<or> \<not> list_all (\<lambda>c. is_ascii_alphanumeric c \<or> c = CHR ''_'') part) parts
      then Inl (DevModel (Some (''DEVENV_OVERRIDE__'' @ raw)) (InvalidValue ''runtime override'' InvalidIdentifier))
      else Inr (join ''.'' (map to_ascii_lowercase parts)))"

definition set_runtime_value :: "string \<Rightarrow> value_tree \<Rightarrow> origin \<Rightarrow> sensitivity \<Rightarrow> merged_config \<Rightarrow> ('x, merged_config) dev_load" where
  "set_runtime_value path tree origin sensitivity merged =
     rbind (value_tree_to_toml path tree) (\<lambda>v. set_value path v origin sensitivity merged)"

definition supplied_value :: "(string, string) btree_map \<Rightarrow> string \<Rightarrow> string option \<Rightarrow> ('x, (string \<times> string) option) dev_load" where
  "supplied_value environment name export_as =
     fold_result (\<lambda>supplied candidate.
       case btree_get candidate environment of
         None \<Rightarrow> Inr supplied
       | Some v \<Rightarrow>
           (case supplied of
              None \<Rightarrow> Inr (Some (candidate, v))
            | Some (previous_name, previous_value) \<Rightarrow>
                if previous_value \<noteq> v then Inl (RuntimeInputConflict name previous_name candidate) else Inr supplied))
       None (name # (case export_as of None \<Rightarrow> [] | Some e \<Rightarrow> [e]))"

definition apply_declared_input ::
  "(string, string) btree_map \<Rightarrow> merged_config \<Rightarrow> string \<times> input_spec \<Rightarrow> ('x, merged_config) dev_load" where
  "apply_declared_input environment merged entry =
     (let (name, input) = entry in
      if \<not> is_runtime input then Inr merged
      else
        rbind (supplied_value environment name (is_export_as input)) (\<lambda>supplied.
        case supplied of
          None \<Rightarrow> Inr merged
        | Some (environment_name, raw) \<Rightarrow>
            rbind (map_err (DevModel None) (parse_runtime_value_named input environment_name raw)) (\<lambda>parsed.
            set_runtime_value (is_target input) (parsed_input_value parsed) (origin_environment environment_name) (is_sensitivity input) merged)))"

definition apply_namespaced ::
  "resolved_config \<Rightarrow> merged_config \<Rightarrow> string \<times> string \<Rightarrow> ('x, merged_config) dev_load" where
  "apply_namespaced config merged entry =
     (let (name, raw) = entry; policy = rc_policy config in
      case strip_prefix ''DEVENV_OVERRIDE__'' name of
        None \<Rightarrow> Inr merged
      | Some raw_path \<Rightarrow>
          rbind (namespace_path raw_path) (\<lambda>path.
          if \<not> allows_workspace_override policy path then
            (if po_unknown_input policy = UnknownIgnore then Inr merged
             else Inl (TrustViolation ''<runtime>'' RuntimeSource path ReasonWorkspaceOverride))
          else
            case find (\<lambda>(_, input). is_target input = path) (rc_inputs config) of
              Some (_, input) \<Rightarrow>
                rbind (map_err (DevModel None) (parse_runtime_value_named input name raw)) (\<lambda>parsed.
                set_runtime_value path (parsed_input_value parsed) (origin_environment name) Public merged)
            | None \<Rightarrow>
                if doc_get_path (mc_root merged) path = None then
                  (if po_unknown_input policy = UnknownIgnore then Inr merged else Inl (DevModel None (UnknownInput name)))
                else set_runtime_value path (VString raw) (origin_environment name) Public merged))"

definition runtime_apply :: "'x dev_codec \<Rightarrow> (string, string) btree_map \<Rightarrow> merged_config \<Rightarrow> ('x, merged_config) dev_load" where
  "runtime_apply codec environment merged =
     rbind (config_snapshot codec merged) (\<lambda>config.
     rbind (fold_result (apply_declared_input environment) merged (rc_inputs config)) (\<lambda>merged.
     fold_result (apply_namespaced config) merged environment))"

section \<open>Loading\<close>

record dev_loaded_profile =
  lp_id :: string
  lp_source :: dev_source_kind
  lp_location :: "string option"

definition loaded_profile_of :: "dev_source \<Rightarrow> dev_loaded_profile" where
  "loaded_profile_of source = \<lparr>lp_id = ds_id source, lp_source = ds_source source, lp_location = ds_location source\<rparr>"

fun map_graph_error :: "'x dev_loader_error traverse_error \<Rightarrow> 'x dev_loader_error" where
  "map_graph_error (Source e) = e"
| "map_graph_error (Graph (MissingProfile pid)) = DevMissingProfile pid"
| "map_graph_error (Graph (MissingParent _ parent)) = DevMissingProfile parent"
| "map_graph_error (Graph (Cycle profiles)) = DevInheritanceCycle profiles"
| "map_graph_error (Graph (InvalidId pid)) = DevInvalidSourceId pid"
| "map_graph_error (Graph (DuplicateParent profile _)) =
     DevModel (Some (''profile '' @ profile @ ''.extends'')) (InvalidValue (''profile '' @ profile @ ''.extends'') ReasonDuplicate)"
| "map_graph_error (Graph (InheritanceDepthExceeded limit)) =
     DevInvalidSourceId (''inheritance exceeds maximum depth '' @ to_decimal limit)"

type_synonym load_state = "merged_config \<times> dev_loaded_profile list"

definition load_profile :: "'x dev_codec \<Rightarrow> dev_loader \<Rightarrow> (raw_dev_profile, 'x dev_loader_error) loader" where
  "load_profile codec loader pid =
     (case btree_get pid (dl_profiles loader) of
        None \<Rightarrow> Inr None
      | Some profile \<Rightarrow> rbind (parse_source codec profile) (\<lambda>parsed. Inr (Some (parsed, pd_extends (rd_document parsed)))))"

definition apply_loaded :: "'x dev_codec \<Rightarrow> dev_loader \<Rightarrow> load_state \<Rightarrow> string \<Rightarrow> raw_dev_profile \<Rightarrow> ('x, load_state) dev_load" where
  "apply_loaded codec loader st pid parsed =
     (case btree_get pid (dl_profiles loader) of
        None \<Rightarrow> Inl LoaderPanic
      | Some profile \<Rightarrow>
          rbind (merge_profile codec parsed profile (fst st)) (\<lambda>merged.
          Inr (merged, snd st @ [(loaded_profile_of profile)\<lparr>lp_id := pd_id (rd_document parsed)\<rparr>])))"

definition apply_source :: "'x dev_codec \<Rightarrow> load_state \<Rightarrow> dev_source \<Rightarrow> ('x, load_state) dev_load" where
  "apply_source codec st source =
     rbind (parse_source codec source) (\<lambda>parsed.
     rbind (merge_profile codec parsed source (fst st)) (\<lambda>merged.
     Inr (merged, snd st @ [loaded_profile_of source])))"

definition load_internal ::
  "'x dev_codec \<Rightarrow> dev_loader \<Rightarrow> string \<Rightarrow> (string, string) btree_map option \<Rightarrow> dev_source list \<Rightarrow>
   ('x, resolved_config \<times> dev_loaded_profile list) dev_load" where
  "load_internal codec loader profile_id environment extra_overlays =
     rbind (map_err map_graph_error (traverse profile_id (load_profile codec loader) (apply_loaded codec loader) (merged_default, []))) (\<lambda>st.
     rbind (fold_result (apply_source codec) st (dl_overlays loader @ extra_overlays)) (\<lambda>st.
     rbind (case environment of None \<Rightarrow> Inr (fst st) | Some env \<Rightarrow> runtime_apply codec env (fst st)) (\<lambda>merged.
     rbind (merged_finish codec merged) (\<lambda>config. Inr (config, snd st)))))"

definition apply_cli_patches ::
  "'x dev_codec \<Rightarrow> resolved_config \<times> dev_loaded_profile list \<Rightarrow> (string \<times> override_spec) list \<Rightarrow>
   ('x, resolved_config \<times> dev_loaded_profile list) dev_load" where
  "apply_cli_patches codec loaded patches =
     rbind (merged_from_config codec (fst loaded)) (\<lambda>merged.
     rbind (fold_result (apply_cli_patch codec) merged patches) (\<lambda>merged.
     rbind (merged_finish codec merged) (\<lambda>config. Inr (config, snd loaded))))"

definition load_with_overlays_runtime_and_cli ::
  "'x dev_codec \<Rightarrow> dev_loader \<Rightarrow> string \<Rightarrow> dev_source list \<Rightarrow> (string, string) btree_map \<Rightarrow> (string \<times> override_spec) list \<Rightarrow>
   ('x, resolved_config \<times> dev_loaded_profile list) dev_load" where
  "load_with_overlays_runtime_and_cli codec loader profile_id overlays environment patches =
     rbind (load_internal codec loader profile_id (Some environment) overlays) (\<lambda>loaded. apply_cli_patches codec loaded patches)"

section \<open>Lemmas\<close>

subsection \<open>Names of inputs\<close>

lemma register_keeps:
  "(register_input_name names entry :: ('x, _) dev_load) = Inr names' \<Longrightarrow>
     btree_get (fst entry) names' = Some (snd entry) \<and> (\<forall>n owner. btree_get n names = Some owner \<longrightarrow> btree_get n names' = Some owner)"
  by (auto simp: register_input_name_def get_insert Let_def split: prod.splits option.splits if_splits)

lemma registered_all:
  assumes "(fold_result register_input_name names entries :: ('x, _) dev_load) = Inr names'"
  shows "\<forall>(n, owner) \<in> set entries. btree_get n names' = Some owner" "btree_get n names = Some owner \<Longrightarrow> btree_get n names' = Some owner"
proof -
  have "(\<forall>(n, owner) \<in> set entries. btree_get n names' = Some owner) \<and> (\<forall>n owner. btree_get n names = Some owner \<longrightarrow> btree_get n names' = Some owner)"
    using assms
  proof (induction entries arbitrary: names)
    case (Cons e es)
    then obtain m where m: "(register_input_name names e :: ('x, _) dev_load) = Inr m" "(fold_result register_input_name m es :: ('x, _) dev_load) = Inr names'"
      by (auto simp: rbind_Inr_iff)
    with Cons.IH [OF m(2)] register_keeps [OF m(1)] show ?case by (cases e) auto
  qed simp
  then show "\<forall>(n, owner) \<in> set entries. btree_get n names' = Some owner" "btree_get n names = Some owner \<Longrightarrow> btree_get n names' = Some owner" by auto
qed

text \<open>The names of the environment an input answers to.\<close>

definition answers_to :: "string \<times> input_spec \<Rightarrow> string set" where
  "answers_to entry = insert (fst entry) (set_option (is_export_as (snd entry)))"

lemma validate_input_names_owner:
  assumes "(validate_input_names config :: ('x, _) dev_load) = Inr ()"
  obtains owner where "\<forall>entry \<in> set (rc_inputs config). \<forall>name \<in> answers_to entry. owner name = Some (fst entry)"
proof -
  from assms obtain names names' where reg:
    "(fold_result register_input_name [] (map (\<lambda>(name, _). (name, name)) (rc_inputs config)) :: ('x, _) dev_load) = Inr names"
    "(fold_result register_input_name names (concat (map (\<lambda>(name, input).
       case is_export_as input of None \<Rightarrow> [] | Some export_as \<Rightarrow> [(export_as, name)]) (rc_inputs config))) :: ('x, _) dev_load) = Inr names'"
    by (auto simp: validate_input_names_def rbind_Inr_iff)
  have "btree_get name names' = Some (fst entry)" if entry: "entry \<in> set (rc_inputs config)" "name \<in> answers_to entry" for entry name
  proof (cases "name = fst entry")
    case True
    with entry(1) registered_all(1) [OF reg(1)] have "btree_get name names = Some (fst entry)" by (force split: prod.splits)
    then show ?thesis by (rule registered_all(2) [OF reg(2)])
  next
    case False
    obtain owner input where e: "entry = (owner, input)" by (cases entry)
    with entry(2) False have "is_export_as input = Some name" by (simp add: answers_to_def elem_set)
    with entry(1) e have "(name, fst entry) \<in> set (concat (map (\<lambda>(name, input).
       case is_export_as input of None \<Rightarrow> [] | Some export_as \<Rightarrow> [(export_as, name)]) (rc_inputs config)))"
      unfolding set_concat set_map UN_iff by (intro bexI [of _ "[(name, owner)]"] rev_image_eqI [of entry]) simp_all
    with registered_all(1) [OF reg(2)] show ?thesis by blast
  qed
  then show thesis by (intro that [of "\<lambda>name. btree_get name names'"]) blast
qed

subsection \<open>Overlays\<close>

definition overlay_permits :: "'x dev_codec \<Rightarrow> policy_config \<Rightarrow> dev_source \<Rightarrow> string set" where
  "overlay_permits codec policy source =
     (case parse_source codec source of Inl _ \<Rightarrow> {} | Inr parsed \<Rightarrow> permitted_overrides parsed source policy)"

lemma merged_policy_cong: "btree_get ''policy'' (mc_root a) = btree_get ''policy'' (mc_root b) \<Longrightarrow> merged_policy codec a = merged_policy codec b"
  by (simp add: merged_policy_def)

lemma confined_policy: "confined paths a b \<Longrightarrow> btree_get ''policy'' b = btree_get ''policy'' a"
  by (simp add: confined_def)

lemma confined_subset: "confined P a b \<Longrightarrow> P \<subseteq> Q \<Longrightarrow> confined Q a b"
  unfolding confined_def by blast

lemma overlays_step:
  fixes codec :: "'x dev_codec"
  assumes "codec_denies_unknown codec" "\<not> source_trusted (ds_source source)" "apply_source codec st source = Inr st'"
  shows "\<exists>policy. merged_policy codec (fst st) = Inr policy \<and> confined (overlay_permits codec policy source) (mc_root (fst st)) (mc_root (fst st'))"
proof -
  from assms(3) obtain parsed where parsed: "parse_source codec source = Inr parsed" "merge_profile codec parsed source (fst st) = Inr (fst st')"
    by (auto simp: apply_source_def rbind_Inr_iff)
  then have "raw_profile_parse codec (ds_contents source) (source_label source) = Inr parsed" by (auto simp: parse_source_def rbind_Inr_iff)
  from merge_profile_confined [OF assms(1) this assms(2) parsed(2)] parsed(1) show ?thesis by (simp add: overlay_permits_def)
qed

lemma overlays_confined:
  fixes codec :: "'x dev_codec"
  assumes "codec_denies_unknown codec" "\<forall>source \<in> set overlays. \<not> source_trusted (ds_source source)"
    and "fold_result (apply_source codec) st overlays = Inr st'" "merged_policy codec (fst st) = Inr policy"
  shows "confined (\<Union>source \<in> set overlays. overlay_permits codec policy source) (mc_root (fst st)) (mc_root (fst st'))"
  using assms(2-)
proof (induction overlays arbitrary: st)
  case Nil
  then show ?case by (simp add: confined_refl)
next
  case (Cons source overlays)
  from Cons.prems(2) obtain m where m: "apply_source codec st source = Inr m" "fold_result (apply_source codec) m overlays = Inr st'"
    by (auto simp: rbind_Inr_iff)
  from overlays_step [OF assms(1) _ m(1)] Cons.prems(1,3)
  have first: "confined (overlay_permits codec policy source) (mc_root (fst st)) (mc_root (fst m))" by auto
  have "merged_policy codec (fst m) = Inr policy"
    using merged_policy_cong [where codec = codec, OF confined_policy [OF first]] Cons.prems(3) by simp
  with Cons.IH [OF _ m(2)] Cons.prems(1)
  have "confined (\<Union>source \<in> set overlays. overlay_permits codec policy source) (mc_root (fst m)) (mc_root (fst st'))" by simp
  with confined_trans [OF confined_subset [OF first] confined_subset] show ?case by auto
qed

subsection \<open>Runtime inputs\<close>

definition kept_outside :: "string set \<Rightarrow> doc_table \<Rightarrow> doc_table \<Rightarrow> bool" where
  "kept_outside paths root root' \<longleftrightarrow>
     (\<forall>ps v. leaf root ps v \<longrightarrow> leaf root' ps v \<or> (\<exists>path \<in> paths. prefix (path_parts path) ps))"

lemma kept_refl: "kept_outside paths root root"
  by (simp add: kept_outside_def)

lemma kept_trans: "kept_outside paths a b \<Longrightarrow> kept_outside paths b c \<Longrightarrow> kept_outside paths a c"
  unfolding kept_outside_def by blast

lemma kept_fold:
  assumes "fold_result f s xs = Inr s'" "\<And>s x s'. x \<in> set xs \<Longrightarrow> f s x = Inr s' \<Longrightarrow> kept_outside paths (mc_root s) (mc_root s')"
  shows "kept_outside paths (mc_root s) (mc_root s')"
  using assms
proof (induction xs arbitrary: s)
  case Nil
  then show ?case by (simp add: kept_refl)
next
  case (Cons x xs)
  then obtain s1 where "f s x = Inr s1" "fold_result f s1 xs = Inr s'" by (auto simp: rbind_Inr_iff)
  with Cons show ?case by (meson kept_trans list.set_intros)
qed

lemma set_runtime_value_kept:
  assumes "(set_runtime_value path tree origin sensitivity merged :: ('x, _) dev_load) = Inr merged'" "path \<in> paths"
  shows "kept_outside paths (mc_root merged) (mc_root merged')"
proof -
  from assms(1) obtain v where "(set_value path v origin sensitivity merged :: ('x, _) dev_load) = Inr merged'"
    by (auto simp: set_runtime_value_def rbind_Inr_iff)
  from set_parts_leaf [OF set_value_root [OF this]] assms(2) show ?thesis unfolding kept_outside_def by blast
qed

text \<open>The paths the environment may set: targets of runtime inputs it supplies, and paths open to the workspace.\<close>

definition supplied_targets :: "resolved_config \<Rightarrow> (string, string) btree_map \<Rightarrow> string set" where
  "supplied_targets config environment =
     {is_target (snd entry) | entry. entry \<in> set (rc_inputs config) \<and> is_runtime (snd entry) \<and> answers_to entry \<inter> fst ` set environment \<noteq> {}}"

lemma supplied_value_mem:
  assumes "(supplied_value environment name export_as :: ('x, _) dev_load) = Inr (Some (n, v))"
  shows "n \<in> insert name (set_option export_as) \<and> n \<in> fst ` set environment"
proof -
  let ?P = "\<lambda>supplied. \<forall>n v. supplied = Some (n, v) \<longrightarrow> n \<in> insert name (set_option export_as) \<and> n \<in> fst ` set environment"
  have "?P (Some (n, v))"
  proof (rule fold_result_invariant [OF assms [unfolded supplied_value_def], where P = ?P])
    show "?P None" by simp
  next
    fix s x s'
    assume x: "x \<in> set (name # (case export_as of None \<Rightarrow> [] | Some e \<Rightarrow> [e]))" and P: "?P s"
      and step: "(case btree_get x environment of None \<Rightarrow> Inr s | Some v \<Rightarrow>
           (case s of None \<Rightarrow> Inr (Some (x, v)) | Some (pn, pv) \<Rightarrow>
              if pv \<noteq> v then Inl (RuntimeInputConflict name pn x) else Inr s)) = (Inr s' :: ('x, _) dev_load)"
    show "?P s'"
    proof (cases "btree_get x environment")
      case None
      with step P show ?thesis by simp
    next
      case (Some v)
      then have "x \<in> fst ` set environment" using contains_key_iff [of x environment] by (simp add: contains_key_def)
      moreover have "x \<in> insert name (set_option export_as)" using x by (cases export_as) auto
      ultimately show ?thesis using step Some P by (auto split: option.splits prod.splits if_splits)
    qed
  qed
  then show ?thesis by blast
qed

lemma apply_declared_kept:
  assumes "(apply_declared_input environment merged entry :: ('x, _) dev_load) = Inr merged'" "entry \<in> set (rc_inputs config)"
  shows "kept_outside (supplied_targets config environment) (mc_root merged) (mc_root merged')"
proof -
  obtain name input where entry: "entry = (name, input)" by (cases entry)
  with assms(1) consider "merged' = merged"
    | n raw parsed where "is_runtime input" "(supplied_value environment name (is_export_as input) :: ('x, _) dev_load) = Inr (Some (n, raw))"
      "(set_runtime_value (is_target input) (parsed_input_value parsed) (origin_environment n) (is_sensitivity input) merged :: ('x, _) dev_load) = Inr merged'"
    by (auto simp: apply_declared_input_def rbind_Inr_iff split: if_splits option.splits prod.splits)
  then show ?thesis
  proof cases
    case 1
    then show ?thesis by (simp add: kept_refl)
  next
    case 2
    have "answers_to entry \<inter> fst ` set environment \<noteq> {}"
      using supplied_value_mem [OF 2(2)] entry by (auto simp: answers_to_def)
    with 2(1) entry assms(2) have "is_target input \<in> supplied_targets config environment"
      unfolding supplied_targets_def by force
    with 2(3) show ?thesis by (rule set_runtime_value_kept)
  qed
qed

lemma apply_namespaced_kept:
  assumes "(apply_namespaced config merged entry :: ('x, _) dev_load) = Inr merged'"
  shows "kept_outside {path. allows_workspace_override (rc_policy config) path} (mc_root merged) (mc_root merged')"
proof -
  obtain name raw where entry: "entry = (name, raw)" by (cases entry)
  with assms consider "merged' = merged"
    | path tree origin where "allows_workspace_override (rc_policy config) path"
      "(set_runtime_value path tree origin Public merged :: ('x, _) dev_load) = Inr merged'"
    by (auto simp: apply_namespaced_def Let_def rbind_Inr_iff split: option.splits if_splits prod.splits)
  then show ?thesis
  proof cases
    case 1
    then show ?thesis by (simp add: kept_refl)
  next
    case 2
    then show ?thesis by (intro set_runtime_value_kept [OF 2(2)]) simp
  qed
qed

lemma kept_mono: "kept_outside P a b \<Longrightarrow> P \<subseteq> Q \<Longrightarrow> kept_outside Q a b"
  unfolding kept_outside_def by blast

lemma override_adds_provider:
  assumes "(apply_override (''providers.'' @ k) spec source merged :: ('x, merged_config) dev_load) = Inr merged'" "CHR ''.'' \<notin> set k" "os_op spec = OverrideSet"
  shows "k \<in> provider_ids (mc_root merged')"
proof -
  have parts: "path_parts (''providers.'' @ k) = [''providers'', k]"
    using assms(2) split_char_append [of "CHR ''.''" "''providers''" k] by (simp add: split_char_single)
  from assms(1,3) obtain v origin where "(set_value (''providers.'' @ k) v origin Public merged :: ('x, merged_config) dev_load) = Inr merged'"
    by (auto simp: apply_override_def Let_def rbind_Inr_iff split: option.splits)
  from set_value_root [OF this]
  have "set_parts [''providers'', k] v (mc_root merged) = Some (mc_root merged')" unfolding parts .
  then have "\<exists>t. mc_root merged' = btree_insert ''providers'' (DTable (btree_insert k v t)) (mc_root merged)"
    by (auto split: option.splits doc_value.splits dest!: sym [of _ "mc_root merged'"] intro: exI [of _ "[]"])
  then show ?thesis using btree_insert_keys [of k v] by (auto simp: provider_ids_def get_insert)
qed

lemma dotted_merge_panics:
  fixes old :: doc_value
  assumes "CHR ''.'' \<notin> set a" "btree_get ''features'' (mc_root merged) = Some (DTable features)"
    and "btree_get a features = Some old" "as_table old = None" "mx_overrides cx = []"
  shows "(merge_table cx [] [(''features'', DTable [(a @ ''.'' @ b, v)])] merged :: ('x, merged_config) dev_load) = Inl LoaderPanic"
proof -
  let ?path = "''features.'' @ a @ ''.'' @ b"
  obtain qs where qs: "path_parts b = qs" "qs \<noteq> []" by simp
  have parts: "path_parts ?path = ''features'' # a # qs" "path_parts ''features'' = [''features'']"
    using assms(1) qs(1) split_char_append [of "CHR ''.''" "''features''" "a @ ''.'' @ b"]
      split_char_append [of "CHR ''.''" a b] by (simp_all add: split_char_single)
  have absent: "doc_get_path (mc_root merged) ?path = None" "doc_set_path (mc_root merged) ?path v = None"
    using assms(2-4) parts qs(2) by (auto simp: doc_get_path_def doc_set_path_def get_parts_Cons set_parts_Cons split: doc_value.splits)
  have here: "doc_get_path (mc_root merged) ''features'' = Some (DTable features)"
    using assms(2) parts(2) by (simp add: doc_get_path_def)
  have ok: "(reject_untrusted_provider_addition merged path w source :: ('x, unit) dev_load) = Inr ()"
    if "starts_with path ''features''" for path w source
    using that by (auto simp: reject_untrusted_provider_addition_def prefix_def)
  have "(merge_path cx ?path v merged :: ('x, merged_config) dev_load) = Inl LoaderPanic"
    using absent ok [of ?path] assms(5) by (simp add: merge_path.simps contains_key_def btree_get_def set_value_def)
  then have "(merge_path cx ''features'' (DTable [(a @ ''.'' @ b, v)]) merged :: ('x, merged_config) dev_load) = Inl LoaderPanic"
    using here ok [of "''features''"] assms(5) by (simp add: merge_path.simps [of _ "''features''"] contains_key_def btree_get_def)
  then show ?thesis by (simp add: merge_table_def)
qed

section \<open>Properties\<close>

text \<open>
  C9. Overlays that are not trusted cannot take over an environment. However many are applied, the policy and the declared inputs of
  the profiles stay; every value that is set keeps its value, except at or below a path that an overlay overrides by name and
  that the policy of the profiles lets its kind of source (workspace or command line) override; and a provider is only added by
  such an override, of the table \<open>providers\<close> or of a path in that provider. (The configuration guide says that
  an untrusted source never adds a provider: a permitted override does, \<open>override_adds_provider\<close>.)
\<close>

theorem untrusted_overlays_confined:
  assumes "codec_denies_unknown codec" "\<forall>source \<in> set overlays. \<not> source_trusted (ds_source source)"
    and "fold_result (apply_source codec) st overlays = Inr st'" "merged_policy codec (fst st) = Inr policy"
  shows "confined (\<Union>source \<in> set overlays. overlay_permits codec policy source) (mc_root (fst st)) (mc_root (fst st'))"
  using assms by (rule overlays_confined)

theorem untrusted_overlays_confined_witness:
  "\<exists>st'. fold_result (apply_source sample_codec) (sample_merged, []) [sample_overlay_source] = Inr st' \<and>
     btree_get ''environment'' (mc_root (fst st')) =
       Some (DTable [(''variables'', DTable [(''EDITOR'', DString ''vi''), (''LANG'', DString ''C''), (''NEW'', DString ''1'')])]) \<and>
     confined (overlay_permits sample_codec sample_policy sample_overlay_source) (mc_root sample_merged) (mc_root (fst st'))"
proof -
  have denies: "codec_denies_unknown sample_codec"
    by (auto simp: codec_denies_unknown_def sample_codec_def sample_overlay_root_def config_fields_def btree_get_def split: if_splits)
  have untrusted: "\<forall>source \<in> set [sample_overlay_source]. \<not> source_trusted (ds_source source)" by code_simp
  have policy: "merged_policy sample_codec (fst (sample_merged, [])) = Inr sample_policy" by code_simp
  have "case fold_result (apply_source sample_codec) (sample_merged, []) [sample_overlay_source] of Inl _ \<Rightarrow> False | Inr m \<Rightarrow>
    btree_get ''environment'' (mc_root (fst m)) =
      Some (DTable [(''variables'', DTable [(''EDITOR'', DString ''vi''), (''LANG'', DString ''C''), (''NEW'', DString ''1'')])])"
    by code_simp
  then obtain m where m: "fold_result (apply_source sample_codec) (sample_merged, []) [sample_overlay_source] = Inr m"
    "btree_get ''environment'' (mc_root (fst m)) =
       Some (DTable [(''variables'', DTable [(''EDITOR'', DString ''vi''), (''LANG'', DString ''C''), (''NEW'', DString ''1'')])])"
    by (auto split: sum.splits)
  with untrusted_overlays_confined [OF denies untrusted m(1) policy] show ?thesis by auto
qed

text \<open>
  C31. A feature name with a dot stops the loader. When a source parses to a profile that declares nothing but one feature
  \<open>"a.b"\<close> (\<open>a\<close> without a dot), and the configuration so far has a feature \<open>a\<close> that is not a table, then applying the
  source panics: the merge addresses the feature by the text \<open>features.a.b\<close> and \<open>set_path\<close> expects a table at \<open>a\<close>.
\<close>

theorem dotted_feature_panics:
  fixes codec :: "'x dev_codec"
  assumes "parse_source codec source = Inr profile" "pd_overrides (rd_document profile) = []"
    and "\<not> has_section profile ''policy''" "\<not> has_section profile ''inputs''"
    and "raw_table profile ''config'' = Some [(''features'', DTable [(a @ ''.'' @ b, v)])]" "CHR ''.'' \<notin> set a"
    and "btree_get ''features'' (mc_root (fst st)) = Some (DTable features)" "btree_get a features = Some old" "as_table old = None"
    and "merged_policy codec (fst st) = Inr policy"
  shows "apply_source codec st source = Inl LoaderPanic"
proof -
  have "(validate_source_permissions profile source :: ('x, unit) dev_load) = Inr ()"
    using assms(2-4) by (simp add: validate_source_permissions_def Let_def fail_if_def protected_override_path_def when_some_def)
  moreover have "raw_table profile ''policy'' = None"
    using assms(3) by (auto simp: raw_table_def has_section_def contains_key_def is_some_and_def split: option.splits)
  moreover have "(merge_table \<lparr>mx_source = source, mx_overrides = [], mx_policy = policy\<rparr> []
      [(''features'', DTable [(a @ ''.'' @ b, v)])] (fst st) :: ('x, merged_config) dev_load) = Inl LoaderPanic"
    by (rule dotted_merge_panics [OF assms(6-9)]) simp
  ultimately have "merge_profile codec profile source (fst st) = Inl LoaderPanic"
    using assms(2,5,10) by (simp add: merge_profile_def Let_def)
  with assms(1) show ?thesis by (simp add: apply_source_def)
qed

definition dotted_root :: doc_value where
  "dotted_root = DTable [(''config'', DTable [(''features'', DTable [(''a.b'', DBoolean True)])]),
     (''id'', DString ''workspace''), (''schema'', DInteger 1)]"

definition dotted_document :: profile_document where
  "dotted_document = sample_overlay_document\<lparr>pd_overrides := [],
     pd_config := (pd_config sample_overlay_document)\<lparr>cl_environment := (cl_environment (pd_config sample_overlay_document))\<lparr>el_variables := []\<rparr>,
       cl_features := VMap [(''a.b'', VBool True)]\<rparr>\<rparr>"

theorem dotted_feature_panics_witness:
  "apply_source (sample_codec\<lparr>dc_parse := \<lambda>_. Inr dotted_root, dc_document := \<lambda>_. Inr dotted_document\<rparr>)
     (merged_default\<lparr>mc_root := [(''features'', DTable [(''a'', DBoolean True)]), (''policy'', DTable [])]\<rparr>, [])
     sample_overlay_source = Inl LoaderPanic"
proof -
  let ?codec = "sample_codec\<lparr>dc_parse := \<lambda>_. Inr dotted_root, dc_document := \<lambda>_. Inr dotted_document\<rparr>"
  let ?profile = "\<lparr>rd_document = dotted_document, rd_root = dotted_root\<rparr>"
  let ?st = "(merged_default\<lparr>mc_root := [(''features'', DTable [(''a'', DBoolean True)]), (''policy'', DTable [])]\<rparr>, []) :: load_state"
  have p: "parse_source ?codec sample_overlay_source = Inr ?profile" by code_simp
  have q: "merged_policy ?codec (fst ?st) = Inr sample_policy" by code_simp
  have r: "pd_overrides (rd_document ?profile) = []" "\<not> has_section ?profile ''policy''" "\<not> has_section ?profile ''inputs''"
    "raw_table ?profile ''config'' = Some [(''features'', DTable [(''a'' @ ''.'' @ ''b'', DBoolean True)])]" by code_simp+
  have s: "CHR ''.'' \<notin> set ''a''" "btree_get ''features'' (mc_root (fst ?st)) = Some (DTable [(''a'', DBoolean True)])"
    "btree_get ''a'' [(''a'', DBoolean True)] = Some (DBoolean True)" "as_table (DBoolean True) = None" by code_simp+
  show ?thesis using dotted_feature_panics [OF p r s q] .
qed

text \<open>
  C17. The environment of a request sets what is declared for it and nothing else: applying it keeps every value that is
  set, except at or below the target of a runtime input that answers to one of its variables, or a path the
  policy opens to the workspace.
\<close>

theorem runtime_values_confined:
  assumes "runtime_apply codec environment merged = Inr merged'"
  shows "\<exists>config. config_snapshot codec merged = Inr config \<and>
    kept_outside (supplied_targets config environment \<union> {path. allows_workspace_override (rc_policy config) path})
      (mc_root merged) (mc_root merged')"
proof -
  from assms obtain config m where config: "config_snapshot codec merged = Inr config"
    and declared: "fold_result (apply_declared_input environment) merged (rc_inputs config) = (Inr m :: ('a, _) dev_load)"
    and namespaced: "fold_result (apply_namespaced config) m environment = (Inr merged' :: ('a, _) dev_load)"
    by (auto simp: runtime_apply_def rbind_Inr_iff)
  have "kept_outside (supplied_targets config environment) (mc_root merged) (mc_root m)"
    using declared by (rule kept_fold) (rule apply_declared_kept)
  moreover have "kept_outside {path. allows_workspace_override (rc_policy config) path} (mc_root m) (mc_root merged')"
    using namespaced by (rule kept_fold) (rule apply_namespaced_kept)
  ultimately show ?thesis using config kept_trans kept_mono by (meson Un_upper1 Un_upper2)
qed

definition sample_config :: resolved_config where
  "sample_config = \<lparr>rc_workspace = \<lparr>wc_root = ''/w'', wc_search = Upward\<rparr>, rc_shell = ''bash'',
     rc_shells = [(''bash'', \<lparr>sh_command = ''/bin/bash'', sh_kind = Posix, sh_login_args = [''-l''], sh_interactive_args = [''-i''], sh_command_arg = Some ''-c''\<rparr>)],
     rc_environment = \<lparr>ec_inherit_process = True, ec_precedence = Locked, ec_variables = [(''EDITOR'', ''emacs''), (''LANG'', ''C'')],
       ec_conditional_variables = [], ec_path = \<lparr>ep_prepend = [''/opt/bin''], ep_append = [], ep_remove = []\<rparr>\<rparr>,
     rc_features = VMap [], rc_providers = [],
     rc_inputs = [(''MY_EDITOR'', \<lparr>is_target = ''environment.variables.EDITOR'', is_type = InputString, is_values = [], is_aliases = [], is_runtime = True,
       is_export_as = None, is_default = None, is_sensitivity = Public\<rparr>)],
     rc_policy = policy_default, rc_provenance = []\<rparr>"

theorem runtime_values_confined_witness:
  "\<exists>merged' config. runtime_apply (sample_codec\<lparr>dc_config := \<lambda>_. Inr sample_config\<rparr>) [(''MY_EDITOR'', ''nano''), (''TERM'', ''xterm'')] sample_merged = Inr merged' \<and>
     get_parts [''environment'', ''variables'', ''EDITOR''] (mc_root merged') = Some (DString ''nano'') \<and>
     kept_outside (supplied_targets config [(''MY_EDITOR'', ''nano''), (''TERM'', ''xterm'')] \<union> {path. allows_workspace_override (rc_policy config) path})
       (mc_root sample_merged) (mc_root merged')"
proof -
  let ?codec = "sample_codec\<lparr>dc_config := \<lambda>_. Inr sample_config\<rparr>"
  have "case runtime_apply ?codec [(''MY_EDITOR'', ''nano''), (''TERM'', ''xterm'')] sample_merged of Inl _ \<Rightarrow> False | Inr m \<Rightarrow>
    get_parts [''environment'', ''variables'', ''EDITOR''] (mc_root m) = Some (DString ''nano'')" by code_simp
  then obtain m where m: "runtime_apply ?codec [(''MY_EDITOR'', ''nano''), (''TERM'', ''xterm'')] sample_merged = Inr m"
    "get_parts [''environment'', ''variables'', ''EDITOR''] (mc_root m) = Some (DString ''nano'')" by (auto split: sum.splits)
  with runtime_values_confined [OF m(1)] show ?thesis by blast
qed

text \<open>
  In a loaded environment no two inputs answer to the same variable: names and export names of different inputs never
  coincide.
\<close>

theorem loaded_inputs_unambiguous:
  assumes "load_internal codec loader profile_id environment overlays = Inr (config, chain)"
    and "a \<in> set (rc_inputs config)" "b \<in> set (rc_inputs config)" "name \<in> answers_to a" "name \<in> answers_to b"
  shows "fst a = fst b"
proof -
  from assms(1) obtain merged where "merged_finish codec merged = Inr config" by (auto simp: load_internal_def rbind_Inr_iff)
  then have "(validate_input_names config :: ('a, _) dev_load) = Inr ()" by (auto simp: merged_finish_def Let_def rbind_Inr_iff)
  then obtain owner where "\<forall>entry \<in> set (rc_inputs config). \<forall>name \<in> answers_to entry. owner name = Some (fst entry)"
    by (rule validate_input_names_owner)
  with assms(2-5) show ?thesis by (metis option.inject)
qed

end
