(* ===== verification/Posix_Namespace.thy ===== *)
theory Posix_Namespace
  imports Rust_Str
begin

text \<open>
  User namespaces, mount information and workspace paths
  (\<open>src/crates/container-init-posix/src/namespace.rs\<close> and \<open>observe_workspace\<close> of \<open>lib.rs\<close>).
  File contents and \<open>lstat\<close> are parameters; \<open>unshare\<close>, \<open>mount\<close> and the reads of \<open>/proc\<close>
  themselves are system calls and not modelled.
\<close>

section \<open>Errors\<close>

datatype namespace_message =
    MapFieldCount nat
  | MapInterval nat
  | MapEmpty
  | MapNotDecimal nat
  | ParentNotCovered u32
  | MappedOverflow
  | MappedOutOfRange u64
  | MountNoSeparator nat
  | MountMalformed nat
  | MountInvalidId nat
  | MountEscape nat
  | MountNotAbsolute nat
  | WorkspaceNotAbsolute
  | WorkspaceParent
  | WorkspaceSymlink string
  | WorkspaceInspect string
  | MountinfoUnreadable

section \<open>Identifier maps\<close>

record id_map_entry =
  container_start :: u64
  parent_start :: u64
  map_length :: u64

type_synonym namespace_map = "id_map_entry list"

definition parse_u64 :: "string \<Rightarrow> nat \<Rightarrow> (namespace_message, u64) result" where
  "parse_u64 value line_number =
     (if value = [] \<or> \<not> list_all is_ascii_digit value then Inl (MapNotDecimal (line_number + 1))
      else ok_or (MapNotDecimal (line_number + 1)) (parse_u64_str value))"

definition parse_map_line ::
  "namespace_map \<Rightarrow> nat \<times> string \<Rightarrow> (namespace_message, namespace_map) result" where
  "parse_map_line entries numbered =
     (let (line_number, line) = numbered in
      if trim line = [] then Inr entries
      else let fields = split_whitespace line in
        if length fields \<noteq> 3 then Inl (MapFieldCount (line_number + 1))
        else
          rbind (parse_u64 (fields ! 0) line_number) (\<lambda>container.
          rbind (parse_u64 (fields ! 1) line_number) (\<lambda>parent.
          rbind (parse_u64 (fields ! 2) line_number) (\<lambda>len.
          if len = 0 \<or> checked_add container len = None \<or> checked_add parent len = None
          then Inl (MapInterval (line_number + 1))
          else Inr (entries @ [\<lparr>container_start = container, parent_start = parent, map_length = len\<rparr>])))))"

definition namespace_map_parse :: "string \<Rightarrow> (namespace_message, namespace_map) result" where
  "namespace_map_parse contents =
     rbind (fold_result parse_map_line [] (enumerate 0 (lines contents))) (\<lambda>entries.
     if entries = [] then Inl MapEmpty else Inr entries)"

definition map_parent_id :: "namespace_map \<Rightarrow> u32 \<Rightarrow> (namespace_message, u32) result" where
  "map_parent_id entries parent =
     (let parent_id = ucast parent :: u64 in
      case find (\<lambda>entry. parent_start entry \<le> parent_id \<and>
          parent_id < saturating_add (parent_start entry) (map_length entry)) entries of
        None \<Rightarrow> Inl (ParentNotCovered parent)
      | Some entry \<Rightarrow>
          rbind (ok_or MappedOverflow
            (checked_add (container_start entry) (parent_id - parent_start entry))) (\<lambda>mapped.
          ok_or (MappedOutOfRange mapped) (u32_try_from mapped)))"

section \<open>Mount information\<close>

record mount_info_entry =
  mount_id :: u64
  mount_point :: string

text \<open>The loop over the bytes; \<open>None\<close> is the error \<open>invalid octal escape\<close>.\<close>

fun decode_mountinfo_path :: "string \<Rightarrow> string option" where
  "decode_mountinfo_path [] = Some []"
| "decode_mountinfo_path (c # rest) =
     (if c \<noteq> CHR 0x5C then map_option ((#) c) (decode_mountinfo_path rest)
      else case rest of
        a # b # d # rest' \<Rightarrow>
          if is_ascii_digit a \<and> is_ascii_digit b \<and> is_ascii_digit d then
            (case parse_unsigned 8 256 [a, b, d] of
               None \<Rightarrow> None
             | Some byte \<Rightarrow> map_option ((#) (char_of byte)) (decode_mountinfo_path rest'))
          else None
      | _ \<Rightarrow> None)"

definition split_once_str :: "string \<Rightarrow> string \<Rightarrow> (string \<times> string) option" where
  "split_once_str sep s =
     (case str_find sep s of None \<Rightarrow> None | Some i \<Rightarrow> Some (take i s, drop (i + length sep) s))"

definition parse_mountinfo_line ::
  "mount_info_entry list \<Rightarrow> nat \<times> string \<Rightarrow> (namespace_message, mount_info_entry list) result" where
  "parse_mountinfo_line entries numbered =
     (let (line_number, line) = numbered in
      if trim line = [] then Inr entries
      else
        rbind (ok_or (MountNoSeparator (line_number + 1)) (split_once_str '' - '' line))
          (\<lambda>(mount_fields, filesystem_fields).
        let fields = split_whitespace mount_fields in
        rbind (fail_if (length fields < 6 \<or> length (split_whitespace filesystem_fields) < 1)
          (MountMalformed (line_number + 1))) (\<lambda>_.
        rbind (ok_or (MountInvalidId (line_number + 1)) (parse_u64_str (fields ! 0))) (\<lambda>ident.
        rbind (ok_or (MountEscape (line_number + 1)) (decode_mountinfo_path (fields ! 4))) (\<lambda>point.
        rbind (fail_if (\<not> starts_with point ''/'') (MountNotAbsolute (line_number + 1))) (\<lambda>_.
        Inr (entries @ [\<lparr>mount_id = ident, mount_point = point\<rparr>])))))))"

definition parse_mountinfo :: "string \<Rightarrow> (namespace_message, mount_info_entry list) result" where
  "parse_mountinfo contents = fold_result parse_mountinfo_line [] (enumerate 0 (lines contents))"

section \<open>Paths\<close>

text \<open>
  \<open>Path::components\<close> on Unix: a leading slash is \<open>RootDir\<close>; empty parts and \<open>.\<close> are skipped,
  except a \<open>.\<close> that starts a relative path.
\<close>

datatype component = RootDir | CurDir | ParentDir | Normal string

definition part_component :: "string \<Rightarrow> component option" where
  "part_component part =
     (if part = [] \<or> part = ''.'' then None
      else if part = ''..'' then Some ParentDir
      else Some (Normal part))"

definition components :: "string \<Rightarrow> component list" where
  "components path =
     (let parts = split_char (CHR ''/'') path in
      (if starts_with path ''/'' then [RootDir] else if hd parts = ''.'' then [CurDir] else []) @
      List.map_filter part_component parts)"

definition is_absolute :: "string \<Rightarrow> bool" where
  "is_absolute path = starts_with path ''/''"

text \<open>\<open>PathBuf::push\<close> of a relative component.\<close>

definition push_component :: "string \<Rightarrow> string \<Rightarrow> string" where
  "push_component path value =
     (if ends_with path ''/'' \<or> path = [] then path @ value else path @ ''/'' @ value)"

fun normalize_step :: "string \<Rightarrow> component \<Rightarrow> (namespace_message, string) result" where
  "normalize_step normalized RootDir = Inr normalized"
| "normalize_step normalized CurDir = Inr normalized"
| "normalize_step normalized (Normal value) = Inr (push_component normalized value)"
| "normalize_step normalized ParentDir = Inl WorkspaceParent"

definition normalize_workspace_path :: "string \<Rightarrow> (namespace_message, string) result" where
  "normalize_workspace_path path =
     (if \<not> is_absolute path then Inl WorkspaceNotAbsolute
      else fold_result normalize_step ''/'' (components path))"

datatype lstat_outcome = LSymlink | LDirectory u32 u32 | LOther | LNotFound | LError

fun reject_symlink_loop ::
  "(string \<Rightarrow> lstat_outcome) \<Rightarrow> string \<Rightarrow> component list \<Rightarrow> (namespace_message, unit) result" where
  "reject_symlink_loop lstat current [] = Inr ()"
| "reject_symlink_loop lstat current (Normal value # rest) =
     (let current = push_component current value in
      case lstat current of
        LSymlink \<Rightarrow> Inl (WorkspaceSymlink current)
      | LNotFound \<Rightarrow> Inr ()
      | LError \<Rightarrow> Inl (WorkspaceInspect current)
      | _ \<Rightarrow> reject_symlink_loop lstat current rest)"
| "reject_symlink_loop lstat current (_ # rest) = reject_symlink_loop lstat current rest"

definition reject_symlink_components ::
  "(string \<Rightarrow> lstat_outcome) \<Rightarrow> string \<Rightarrow> (namespace_message, unit) result" where
  "reject_symlink_components lstat path = reject_symlink_loop lstat ''/'' (components path)"

section \<open>Observing the workspace\<close>

datatype not_mounted_reason = OnlyRootFilesystem | NotADirectory | DoesNotExist

datatype workspace_observation =
    Mounted u32 u32 string u64
  | NotMounted not_mounted_reason
  | Unavailable namespace_message

text \<open>\<open>Path\<close> equality and \<open>starts_with\<close> compare components.\<close>

definition is_mount_parent :: "string \<Rightarrow> string \<Rightarrow> bool" where
  "is_mount_parent point workspace \<longleftrightarrow>
     components workspace = components point \<or> prefix (components point) (components workspace)"

text \<open>\<open>max_by_key\<close>: the last element whose key is maximal.\<close>

fun max_by_key :: "('a \<Rightarrow> nat) \<Rightarrow> 'a list \<Rightarrow> 'a option" where
  "max_by_key key [] = None"
| "max_by_key key (x # xs) =
     (case max_by_key key xs of
        None \<Rightarrow> Some x
      | Some y \<Rightarrow> if key y < key x then Some x else Some y)"

definition observe_workspace ::
  "workspace_observation option \<Rightarrow> string option \<Rightarrow> (string \<Rightarrow> lstat_outcome) \<Rightarrow> string \<Rightarrow> workspace_observation" where
  "observe_workspace override mountinfo lstat path =
     (case override of
        Some observation \<Rightarrow> observation
      | None \<Rightarrow>
        (case normalize_workspace_path path of
           Inl e \<Rightarrow> Unavailable e
         | Inr path \<Rightarrow>
           (case reject_symlink_components lstat path of
              Inl e \<Rightarrow> Unavailable e
            | Inr _ \<Rightarrow>
              (case mountinfo of
                 None \<Rightarrow> Unavailable MountinfoUnreadable
               | Some contents \<Rightarrow>
                 (case parse_mountinfo contents of
                    Inl e \<Rightarrow> Unavailable e
                  | Inr mounts \<Rightarrow>
                    (case max_by_key (\<lambda>m. length (components (mount_point m)))
                        (filter (\<lambda>m. components (mount_point m) \<noteq> components ''/'' \<and>
                           is_mount_parent (mount_point m) path) mounts) of
                       None \<Rightarrow> NotMounted OnlyRootFilesystem
                     | Some m \<Rightarrow>
                       (case lstat path of
                          LDirectory uid gid \<Rightarrow> Mounted uid gid (mount_point m) (mount_id m)
                        | LNotFound \<Rightarrow> NotMounted DoesNotExist
                        | LError \<Rightarrow> Unavailable (WorkspaceInspect path)
                        | _ \<Rightarrow> NotMounted NotADirectory)))))))"

section \<open>Lemmas on maps\<close>

definition valid_entry :: "id_map_entry \<Rightarrow> bool" where
  "valid_entry e \<longleftrightarrow>
     map_length e \<noteq> 0 \<and> unat (container_start e) + unat (map_length e) < 2 ^ 64 \<and>
     unat (parent_start e) + unat (map_length e) < 2 ^ 64"

lemma checked_add_None: "checked_add a b = None \<longleftrightarrow> \<not> unat a + unat b < 2 ^ 64"
  by (simp add: checked_add_def)

lemma parse_map_line_valid:
  "parse_map_line entries nl = Inr entries' \<Longrightarrow> list_all valid_entry entries \<Longrightarrow> list_all valid_entry entries'"
  by (cases nl) (auto simp: parse_map_line_def Let_def rbind_Inr_iff valid_entry_def checked_add_None split: if_splits)

lemma namespace_map_valid:
  assumes "namespace_map_parse contents = Inr m"
  shows "m \<noteq> []" "list_all valid_entry m"
proof -
  from assms have fold: "fold_result parse_map_line [] (enumerate 0 (lines contents)) = Inr m" and "m \<noteq> []"
    by (auto simp: namespace_map_parse_def rbind_Inr_iff split: if_splits)
  then show "m \<noteq> []" by simp
  show "list_all valid_entry m"
    by (rule fold_result_invariant [OF fold]) (auto intro: parse_map_line_valid)
qed

text \<open>Coverage and translation over the natural numbers.\<close>

definition covers :: "id_map_entry \<Rightarrow> nat \<Rightarrow> bool" where
  "covers e p \<longleftrightarrow> unat (parent_start e) \<le> p \<and> p < unat (parent_start e) + unat (map_length e)"

definition translate :: "id_map_entry \<Rightarrow> nat \<Rightarrow> nat" where
  "translate e p = unat (container_start e) + (p - unat (parent_start e))"

lemma unat_ucast_u32: "unat (ucast (p :: u32) :: u64) = unat p"
  by (simp add: unsigned_ucast_eq take_bit_nat_eq_self_iff less_trans [OF unsigned_less])

lemma ucast_of_nat_u64: "n < 2 ^ 32 \<Longrightarrow> ucast (of_nat n :: u64) = (of_nat n :: u32)"
  by (rule word_unat_eq_iff [THEN iffD2]) (simp add: unsigned_ucast_eq unat_of_nat take_bit_eq_mod)

lemma covers_iff:
  assumes "valid_entry e"
  shows "(parent_start e \<le> ucast p \<and> ucast p < saturating_add (parent_start e) (map_length e)) \<longleftrightarrow> covers e (unat (p :: u32))"
  using assms
  by (simp add: covers_def word_le_nat_alt word_less_nat_alt unat_ucast_u32 unat_saturating_add valid_entry_def)

lemma map_parent_id_exact:
  assumes "list_all valid_entry m"
  shows "map_parent_id m p =
    (case find (\<lambda>e. covers e (unat p)) m of
       None \<Rightarrow> Inl (ParentNotCovered p)
     | Some e \<Rightarrow>
         if translate e (unat p) < 2 ^ 32 then Inr (of_nat (translate e (unat p)))
         else Inl (MappedOutOfRange (of_nat (translate e (unat p)))))"
proof -
  have "find (\<lambda>e. parent_start e \<le> ucast p \<and> ucast p < saturating_add (parent_start e) (map_length e)) m
      = find (\<lambda>e. covers e (unat p)) m"
    using assms by (intro find_cong) (auto simp: covers_iff list_all_iff)
  moreover have "rbind (ok_or MappedOverflow (checked_add (container_start e) (ucast p - parent_start e)))
        (\<lambda>mapped. ok_or (MappedOutOfRange mapped) (u32_try_from mapped)) =
      (if translate e (unat p) < 2 ^ 32 then Inr (of_nat (translate e (unat p)))
       else Inl (MappedOutOfRange (of_nat (translate e (unat p)))))"
    if "find (\<lambda>e. covers e (unat p)) m = Some e" for e
  proof -
    from that assms have e: "valid_entry e" "covers e (unat p)"
      by (auto simp: find_Some_iff list_all_length)
    then have diff: "unat (ucast p - parent_start e) = unat p - unat (parent_start e)"
      by (simp add: unat_sub word_le_nat_alt unat_ucast_u32 covers_def)
    have "translate e (unat p) < 2 ^ 64" using e by (auto simp: translate_def covers_def valid_entry_def)
    then have "checked_add (container_start e) (ucast p - parent_start e) = Some (of_nat (translate e (unat p)))"
      by (auto simp: checked_add_def diff translate_def intro!: word_unat_eq_iff [THEN iffD2]
          simp: unat_word_ariths unat_of_nat)
    then show ?thesis
      using \<open>translate e (unat p) < 2 ^ 64\<close>
      by (auto simp: u32_try_from_def unat_of_nat ucast_of_nat_u64)
  qed
  ultimately show ?thesis by (simp add: map_parent_id_def split: option.splits)
qed

section \<open>Lemmas on paths\<close>

text \<open>A path in normal form: slashes before plain components.\<close>

definition plain :: "string \<Rightarrow> bool" where
  "plain s \<longleftrightarrow> s \<noteq> [] \<and> s \<noteq> ''.'' \<and> s \<noteq> ''..'' \<and> CHR ''/'' \<notin> set s"

definition normal_path :: "string list \<Rightarrow> string" where
  "normal_path names = (if names = [] then ''/'' else concat (map ((#) (CHR ''/'')) names))"

lemma push_normal:
  assumes "list_all plain names" "plain v"
  shows "push_component (normal_path names) v = normal_path (names @ [v])"
proof (cases names rule: rev_cases)
  case Nil
  then show ?thesis by (simp add: push_component_def normal_path_def)
next
  case (snoc ns n)
  with assms(1) have n: "n \<noteq> []" "CHR ''/'' \<notin> set n" by (auto simp: plain_def)
  then have "\<not> suffix ''/'' (normal_path names)"
    using snoc by (cases n rule: rev_cases) (auto simp: normal_path_def suffix_def)
  moreover have "normal_path names \<noteq> []" using snoc by (simp add: normal_path_def)
  ultimately show ?thesis using snoc by (simp add: push_component_def normal_path_def)
qed

definition normal_names :: "component list \<Rightarrow> string list" where
  "normal_names cs = List.map_filter (\<lambda>c. case c of Normal v \<Rightarrow> Some v | _ \<Rightarrow> None) cs"

lemma normal_names_mem: "v \<in> set (normal_names cs) \<longleftrightarrow> Normal v \<in> set cs"
  by (induction cs) (auto simp: normal_names_def map_filter_simps split: component.splits option.splits)

lemma map_filter_part_component:
  "ParentDir \<notin> set (List.map_filter part_component parts) \<Longrightarrow>
     List.map_filter part_component parts = map Normal (normal_names (List.map_filter part_component parts))"
  by (induction parts)
    (auto simp: map_filter_simps part_component_def normal_names_def split: option.splits if_splits)

lemma normalize_fold:
  assumes "list_all plain names" "\<And>v. Normal v \<in> set cs \<Longrightarrow> plain v"
  shows "fold_result normalize_step (normal_path names) cs = Inr out \<longleftrightarrow>
    ParentDir \<notin> set cs \<and> out = normal_path (names @ normal_names cs)"
  using assms
proof (induction cs arbitrary: names)
  case Nil
  then show ?case by (auto simp: map_filter_simps normal_names_def)
next
  case (Cons c cs)
  show ?case
  proof (cases c)
    case (Normal v)
    with Cons.prems have "plain v" by auto
    with Cons.IH [of "names @ [v]"] Cons.prems Normal show ?thesis
      by (simp add: push_normal map_filter_simps normal_names_def)
  qed (use Cons in \<open>auto simp: map_filter_simps normal_names_def\<close>)
qed

lemma component_plain: "Normal v \<in> set (components path) \<Longrightarrow> plain v"
  using split_char_no_sep [of v "CHR ''/''" path]
  by (auto simp: components_def Let_def map_filter_def part_component_def plain_def split: if_splits)

lemma components_normal_path:
  assumes "list_all plain names"
  shows "components (normal_path names) = RootDir # map Normal names"
proof (cases names)
  case Nil
  then show ?thesis by (simp add: normal_path_def components_def map_filter_simps part_component_def)
next
  case (Cons n ns)
  have "concat (map ((#) c) xs) = c # join [c] xs" if "xs \<noteq> []" for c :: char and xs
    using that by (induction xs rule: induct_list012) auto
  from this [of names "CHR ''/''"] Cons have path: "normal_path names = CHR ''/'' # join ''/'' names"
    by (simp add: normal_path_def)
  have "split_char (CHR ''/'') (join ''/'' names) = names"
    using assms Cons by (intro split_char_join) (auto simp: plain_def list_all_iff)
  moreover have "List.map_filter part_component names = map Normal names"
    using assms by (induction names) (auto simp: map_filter_simps part_component_def plain_def)
  ultimately show ?thesis by (simp add: components_def path map_filter_simps part_component_def)
qed

lemma normalize_Inr:
  "normalize_workspace_path path = Inr out \<longleftrightarrow>
     is_absolute path \<and> ParentDir \<notin> set (components path) \<and>
     out = normal_path (normal_names (components path))"
proof -
  have "''/'' = normal_path []" by (simp add: normal_path_def)
  then show ?thesis
    using normalize_fold [of "[]" "components path" out] component_plain
    by (auto simp: normalize_workspace_path_def)
qed


section \<open>Lemmas on mount points\<close>

text \<open>How the kernel writes a path into \<open>mountinfo\<close>: the bytes it escapes, as three octal digits.\<close>

definition octal_escape :: "char \<Rightarrow> string" where
  "octal_escape c =
     (let n = of_char c :: nat in
      [CHR 0x5C, char_of (48 + n div 64), char_of (48 + n div 8 mod 8), char_of (48 + n mod 8)])"

fun encode_mountinfo_path :: "string \<Rightarrow> string" where
  "encode_mountinfo_path [] = []"
| "encode_mountinfo_path (c # cs) =
     (if c \<in> {CHR 0x09, CHR 0x0A, CHR 0x20, CHR 0x5C} then octal_escape c else [c]) @ encode_mountinfo_path cs"

lemma decode_escape:
  "decode_mountinfo_path (octal_escape c @ rest) = map_option ((#) c) (decode_mountinfo_path rest)"
proof -
  let ?n = "of_char c :: nat"
  have n: "?n < 256" by simp
  have digit: "is_ascii_digit (char_of (48 + d :: nat))" "digit_value 8 (char_of (48 + d)) = Some d" if "d < 8" for d
    using that by (auto simp: is_ascii_digit_def digit_value_def)
  have small: "?n div 64 < 8" "?n div 8 mod 8 < 8" "?n mod 8 < 8"
    by (rule less_mult_imp_div_less, use n in linarith) simp_all
  have plus: "char_of (48 + ?n div 64) \<noteq> CHR ''+''" using digit(1) [OF small(1)] plus_not_digit by metis
  have "?n div 64 = ?n div 8 div 8" by (simp flip: div_mult2_eq)
  then have "(?n div 64 * 8 + ?n div 8 mod 8) * 8 + ?n mod 8 = ?n" by (simp only: div_mult_mod_eq)
  then have "parse_unsigned 8 256 [char_of (48 + ?n div 64), char_of (48 + ?n div 8 mod 8), char_of (48 + ?n mod 8)] = Some ?n"
    using plus n digit(2) [OF small(1)] digit(2) [OF small(2)] digit(2) [OF small(3)]
    by (simp add: parse_unsigned_def)
  then show ?thesis
    using digit(1) [OF small(1)] digit(1) [OF small(2)] digit(1) [OF small(3)]
    by (simp add: octal_escape_def Let_def)
qed

lemma decode_encode_mountinfo: "decode_mountinfo_path (encode_mountinfo_path p) = Some p"
  by (induction p) (auto simp: decode_escape simp del: decode_mountinfo_path.simps(2) simp: decode_mountinfo_path.simps(2) [of _ "encode_mountinfo_path _"])

definition sample_map_text :: string where
  "sample_map_text = ''0 1000 1'' @ [CHR 0x0A] @ ''1 100000 65536''"

definition sample_map :: namespace_map where
  "sample_map = [\<lparr>container_start = 0, parent_start = 1000, map_length = 1\<rparr>,
     \<lparr>container_start = 1, parent_start = 100000, map_length = 65536\<rparr>]"

lemma sample_map_parse: "namespace_map_parse sample_map_text = Inr sample_map"
proof -
  have lines: "enumerate 0 (lines sample_map_text) = [(0, ''0 1000 1''), (1, ''1 100000 65536'')]" by code_simp
  have words: "trim ''0 1000 1'' \<noteq> []" "split_whitespace ''0 1000 1'' = [''0'', ''1000'', ''1'']"
    "trim ''1 100000 65536'' \<noteq> []" "split_whitespace ''1 100000 65536'' = [''1'', ''100000'', ''65536'']"
    by code_simp+
  have nums: "parse_u64 ''0'' n = Inr 0" "parse_u64 ''1'' n = Inr 1" "parse_u64 ''1000'' n = Inr 1000"
    "parse_u64 ''100000'' n = Inr 100000" "parse_u64 ''65536'' n = Inr 65536" for n
    by (simp_all add: parse_u64_def parse_u64_str_def parse_unsigned_def digit_value_def is_ascii_digit_def)
  show ?thesis
    by (simp add: sample_map_def namespace_map_parse_def lines parse_map_line_def words nums checked_add_def)
qed

section \<open>Properties\<close>

text \<open>
  Identifier translation is exact. With a map that was parsed, a parent identifier is
  translated by the first interval that covers it, to the container identifier at the same
  offset, computed without wrap-around: the saturating and checked 64-bit arithmetic never
  changes the result, the overflow error is never reached, and the only errors are an
  identifier no interval covers and a result that does not fit in 32 bits.
\<close>

theorem map_parent_id_spec:
  assumes "namespace_map_parse contents = Inr m"
  shows "map_parent_id m p =
    (case find (\<lambda>e. covers e (unat p)) m of
       None \<Rightarrow> Inl (ParentNotCovered p)
     | Some e \<Rightarrow>
         if translate e (unat p) < 2 ^ 32 then Inr (of_nat (translate e (unat p)))
         else Inl (MappedOutOfRange (of_nat (translate e (unat p)))))"
  by (rule map_parent_id_exact [OF namespace_map_valid(2) [OF assms]])

theorem map_parent_id_spec_witness: "map_parent_id sample_map 100999 = Inr 1000"
  using map_parent_id_spec [OF sample_map_parse, of 100999]
  by (simp add: sample_map_def covers_def translate_def)

text \<open>
  Translation keeps users apart: when the container ranges of a parsed map do not overlap,
  two parent identifiers never become the same container identifier.
\<close>

theorem map_parent_id_injective:
  assumes "namespace_map_parse contents = Inr m"
    and "\<And>e e' x. e \<in> set m \<Longrightarrow> e' \<in> set m \<Longrightarrow> x \<in> {unat (container_start e)..<unat (container_start e) + unat (map_length e)}
      \<Longrightarrow> x \<in> {unat (container_start e')..<unat (container_start e') + unat (map_length e')} \<Longrightarrow> e = e'"
    and "map_parent_id m p = Inr r" and "q \<noteq> p"
  shows "map_parent_id m q \<noteq> Inr r"
proof
  assume other: "map_parent_id m q = Inr r"
  note exact = map_parent_id_exact [OF namespace_map_valid(2) [OF assms(1)]]
  have at: "\<exists>e \<in> set m. covers e (unat p) \<and> unat r = translate e (unat p)" if "map_parent_id m p = Inr r" for p
    using that unfolding exact
    by (auto simp: find_Some_iff unat_of_nat split: option.splits if_splits)
  from at [OF assms(3)] at [OF other] obtain e e' where
    e: "e \<in> set m" "covers e (unat p)" "unat r = translate e (unat p)"
    and e': "e' \<in> set m" "covers e' (unat q)" "unat r = translate e' (unat q)" by blast
  have "e = e'" using assms(2) [OF e(1) e'(1), of "unat r"] e e' by (auto simp: covers_def translate_def)
  with e e' have "unat p = unat q" by (auto simp: covers_def translate_def)
  then have "p = q" by (rule word_unat_eq_iff [THEN iffD2])
  with assms(4) show False by simp
qed

theorem map_parent_id_injective_witness: "map_parent_id sample_map 100998 \<noteq> Inr 1000"
proof (rule map_parent_id_injective [OF sample_map_parse])
  show "map_parent_id sample_map 100999 = Inr 1000"
    using map_parent_id_exact [OF namespace_map_valid(2) [OF sample_map_parse], of 100999]
    by (simp add: sample_map_def covers_def translate_def)
qed (auto simp: sample_map_def)

text \<open>
  The workspace path is normalised: what \<open>normalize_workspace_path\<close> accepts becomes slashes
  before plain names (none empty, \<open>.\<close> or \<open>..\<close>), has the same components as before, and is left
  alone by a second normalisation.
\<close>

theorem normalize_workspace_path_normal:
  assumes "normalize_workspace_path path = Inr out"
  shows "\<exists>names. list_all plain names \<and> out = normal_path names \<and>
    components path = RootDir # map Normal names \<and> components out = components path \<and>
    normalize_workspace_path out = Inr out"
proof -
  from assms have abs: "is_absolute path" "ParentDir \<notin> set (components path)"
    and out: "out = normal_path (normal_names (components path))" by (auto simp: normalize_Inr)
  let ?names = "normal_names (components path)"
  have plain: "list_all plain ?names"
    by (auto simp: list_all_iff normal_names_mem intro: component_plain)
  have comps: "components path = RootDir # map Normal ?names"
  proof -
    have root: "components path = RootDir # List.map_filter part_component (split_char (CHR ''/'') path)"
      using abs(1) by (simp add: components_def is_absolute_def)
    with abs(2) show ?thesis
      using map_filter_part_component [of "split_char (CHR ''/'') path"] by (simp add: normal_names_def map_filter_simps)
  qed
  have again: "components out = components path" using comps components_normal_path [OF plain] out by simp
  have "is_absolute out" by (cases ?names) (auto simp: out normal_path_def is_absolute_def)
  with again abs out have "normalize_workspace_path out = Inr out" by (simp add: normalize_Inr)
  with plain out comps again show ?thesis by blast
qed

theorem normalize_workspace_path_normal_witness:
  "\<exists>names. list_all plain names \<and> ''/srv/work'' = normal_path names"
proof -
  have "normalize_workspace_path ''//srv/./work/'' = Inr ''/srv/work''" by code_simp
  from normalize_workspace_path_normal [OF this] show ?thesis by blast
qed

text \<open>
  Mount points come back as they were: decoding the octal escapes the kernel writes for
  blanks, tabs, line feeds and backslashes gives the original bytes for every path.
\<close>

theorem mountinfo_path_roundtrip: "decode_mountinfo_path (encode_mountinfo_path path) = Some path"
  by (rule decode_encode_mountinfo)

end
