(* ===== verification/Unix_Frame.thy ===== *)
theory Unix_Frame
  imports Prelude
begin

text \<open>
  The crate \<open>unix-frame\<close> (\<open>src/crates/unix-frame/src/lib.rs\<close>): four-byte big-endian length
  prefixes around JSON payloads, with a length limit, and the deadline-bounded reads and
  writes on a socket. The JSON library is a parameter: \<open>ser v\<close> gives the buffers
  \<open>to_writer\<close> hands to the writer and the serializer's own error, \<open>de\<close> is \<open>from_slice\<close>. The
  operating system is a parameter too: the outcomes of the \<open>poll\<close>, \<open>recv\<close> and \<open>send\<close> calls
  are lists the loops consume, and a loop that has used up its list has not returned
  (\<open>None\<close>).
\<close>

section \<open>Data\<close>

type_synonym bytes = "u8 list"

datatype io_error =
    UnexpectedEof
  | WriteZero
  | TimedOut
  | InvalidInput
  | PollFailed
  | OsError nat

datatype 'j frame_error =
    Io io_error
  | Json 'j
  | EmptyFrame
  | TooLarge nat nat
  | LengthOverflow nat

record bounded_writer =
  bw_bytes :: bytes
  bw_limit :: nat
  bw_exceeded :: "nat option"

type_synonym ('v, 'j) serializer = "'v \<Rightarrow> bytes list \<times> 'j option"
type_synonym ('v, 'j) deserializer = "bytes \<Rightarrow> ('j, 'v) result"

section \<open>Encoding\<close>

definition check_length :: "nat \<Rightarrow> nat \<Rightarrow> ('j frame_error, unit) result" where
  "check_length len limit =
     (if len = 0 then Inl EmptyFrame
      else if limit < len then Inl (TooLarge len limit)
      else Inr ())"

definition to_be_bytes :: "u32 \<Rightarrow> bytes" where
  "to_be_bytes w =
     map (\<lambda>k. of_nat (unat w div 2 ^ k mod 256)) [24, 16, 8, 0]"

fun from_be_bytes :: "bytes \<Rightarrow> u32" where
  "from_be_bytes bs = of_nat (foldl (\<lambda>acc b. acc * 256 + unat b) 0 bs)"

definition encode_payload_frame :: "bytes \<Rightarrow> nat \<Rightarrow> ('j frame_error, bytes) result" where
  "encode_payload_frame payload limit =
     rbind (check_length (length payload) limit) (\<lambda>_.
       if length payload < 2 ^ 32
       then Inr (to_be_bytes (of_nat (length payload)) @ payload)
       else Inl (LengthOverflow (length payload)))"

text \<open>\<open>BoundedVecWriter::write\<close>: the new writer, and whether the call succeeded.\<close>

definition bounded_write :: "bounded_writer \<Rightarrow> bytes \<Rightarrow> bounded_writer \<times> bool" where
  "bounded_write w buffer =
     (let next_length = length (bw_bytes w) + length buffer
      in if 2 ^ 64 \<le> next_length then (w\<lparr>bw_exceeded := Some (2 ^ 64 - 1)\<rparr>, False)
         else if bw_limit w < next_length then (w\<lparr>bw_exceeded := Some next_length\<rparr>, False)
         else (w\<lparr>bw_bytes := bw_bytes w @ buffer\<rparr>, True))"

text \<open>\<open>to_writer\<close> stops at the first buffer the writer refuses.\<close>

fun write_buffers :: "bounded_writer \<Rightarrow> bytes list \<Rightarrow> bounded_writer \<times> bool" where
  "write_buffers w [] = (w, True)"
| "write_buffers w (buffer # buffers) =
     (case bounded_write w buffer of
        (w', False) \<Rightarrow> (w', False)
      | (w', True) \<Rightarrow> write_buffers w' buffers)"

definition serialize_bounded ::
  "('v, 'j) serializer \<Rightarrow> 'v \<Rightarrow> nat \<Rightarrow> ('j frame_error, bytes) result" where
  "serialize_bounded ser v limit =
     (let (buffers, failure) = ser v;
          (w, ok) = write_buffers \<lparr>bw_bytes = [], bw_limit = limit, bw_exceeded = None\<rparr> buffers
      in case bw_exceeded w of
           Some len \<Rightarrow> Inl (TooLarge len limit)
         | None \<Rightarrow>
             (case failure of
                Some j \<Rightarrow> Inl (Json j)
              | None \<Rightarrow> rbind (check_length (length (bw_bytes w)) limit) (\<lambda>_. Inr (bw_bytes w))))"

definition encode_json_frame ::
  "('v, 'j) serializer \<Rightarrow> 'v \<Rightarrow> nat \<Rightarrow> ('j frame_error, bytes) result" where
  "encode_json_frame ser v limit =
     rbind (serialize_bounded ser v limit) (\<lambda>payload. encode_payload_frame payload limit)"

section \<open>Reading from a byte stream\<close>

definition read_exact :: "nat \<Rightarrow> bytes \<Rightarrow> ('j frame_error, bytes \<times> bytes) result" where
  "read_exact n s =
     (if length s < n then Inl (Io UnexpectedEof) else Inr (take n s, drop n s))"

definition read_payload :: "bytes \<Rightarrow> nat \<Rightarrow> ('j frame_error, bytes \<times> bytes) result" where
  "read_payload reader limit =
     rbind (read_exact 4 reader) (\<lambda>(header, reader).
       let len = unat (from_be_bytes header)
       in rbind (check_length len limit) (\<lambda>_. read_exact len reader))"

definition read_json_frame ::
  "('v, 'j) deserializer \<Rightarrow> bytes \<Rightarrow> nat \<Rightarrow> ('j frame_error, 'v \<times> bytes) result" where
  "read_json_frame de reader limit =
     rbind (read_payload reader limit) (\<lambda>(payload, reader).
       rbind (map_err Json (de payload)) (\<lambda>v. Inr (v, reader)))"

definition read_payload_frame :: "bytes \<Rightarrow> nat \<Rightarrow> ('j frame_error, bytes \<times> bytes) result" where
  "read_payload_frame reader limit = read_payload reader limit"

text \<open>The writer is any \<open>impl Write\<close>: its \<open>write_all\<close> and \<open>flush\<close> are parameters.\<close>

record 'w writer_ops =
  write_all :: "'w \<Rightarrow> bytes \<Rightarrow> (io_error, 'w) result"
  flush :: "'w \<Rightarrow> (io_error, 'w) result"

definition write_payload_frame ::
  "'w writer_ops \<Rightarrow> 'w \<Rightarrow> bytes \<Rightarrow> nat \<Rightarrow> ('j frame_error, 'w) result" where
  "write_payload_frame ops writer payload limit =
     rbind (encode_payload_frame payload limit) (\<lambda>frame.
     rbind (map_err Io (write_all ops writer frame)) (\<lambda>writer.
       map_err Io (flush ops writer)))"

definition write_json_frame ::
  "('v, 'j) serializer \<Rightarrow> 'w writer_ops \<Rightarrow> 'w \<Rightarrow> 'v \<Rightarrow> nat \<Rightarrow> ('j frame_error, 'w) result" where
  "write_json_frame ser ops writer v limit =
     rbind (encode_json_frame ser v limit) (\<lambda>frame.
     rbind (map_err Io (write_all ops writer frame)) (\<lambda>writer.
       map_err Io (flush ops writer)))"

section \<open>Deadline-bounded socket loops\<close>

text \<open>
  One turn of the loop in \<open>wait_fd\<close>: the deadline has passed, or \<open>poll\<close> returned
  descriptors (with the flags the code tests: invalid, error, one of the wanted events or
  hang-up), zero, or an error (interrupted or not).
\<close>

datatype poll_outcome =
    Expired
  | Ready bool bool bool
  | PollZero
  | PollInterrupted
  | PollError nat

fun wait_fd :: "poll_outcome list \<Rightarrow> (('j frame_error, unit) result \<times> poll_outcome list) option" where
  "wait_fd [] = None"
| "wait_fd (Expired # ps) = Some (Inl (Io TimedOut), ps)"
| "wait_fd (Ready nval err wanted # ps) =
     (if nval then Some (Inl (Io InvalidInput), ps)
      else if err then Some (Inl (Io PollFailed), ps)
      else if wanted then Some (Inr (), ps)
      else wait_fd ps)"
| "wait_fd (PollZero # ps) = wait_fd ps"
| "wait_fd (PollInterrupted # ps) = wait_fd ps"
| "wait_fd (PollError code # ps) = Some (Inl (Io (OsError code)), ps)"

text \<open>
  The outcome of \<open>recv\<close>: bytes (none when the peer closed the connection), an interrupted or
  would-block error, or another error.
\<close>

datatype recv_outcome = Received bytes | RecvRetry | RecvError nat

fun read_exact_until ::
  "nat \<Rightarrow> bytes \<Rightarrow> poll_outcome list \<Rightarrow> recv_outcome list \<Rightarrow>
   (('j frame_error, bytes) result \<times> poll_outcome list \<times> recv_outcome list) option" where
  "read_exact_until n buffer polls recvs =
     (if n \<le> length buffer then Some (Inr buffer, polls, recvs)
      else case wait_fd polls of
        None \<Rightarrow> None
      | Some (Inl e, polls) \<Rightarrow> Some (Inl e, polls, recvs)
      | Some (Inr _, polls) \<Rightarrow>
          (case recvs of
             [] \<Rightarrow> None
           | Received bs # recvs \<Rightarrow>
               (if bs \<noteq> [] then read_exact_until n (buffer @ bs) polls recvs
                else Some (Inl (Io UnexpectedEof), polls, recvs))
           | RecvRetry # recvs \<Rightarrow> read_exact_until n buffer polls recvs
           | RecvError code # recvs \<Rightarrow> Some (Inl (Io (OsError code)), polls, recvs)))"

declare read_exact_until.simps [simp del]

definition read_json_frame_until ::
  "('v, 'j) deserializer \<Rightarrow> nat \<Rightarrow> poll_outcome list \<Rightarrow> recv_outcome list \<Rightarrow>
   (('j frame_error, 'v) result) option" where
  "read_json_frame_until de limit polls recvs =
     (case read_exact_until 4 [] polls recvs of
        None \<Rightarrow> None
      | Some (Inl e, _, _) \<Rightarrow> Some (Inl e)
      | Some (Inr header, polls, recvs) \<Rightarrow>
          (let len = unat (from_be_bytes header)
           in case check_length len limit of
                Inl e \<Rightarrow> Some (Inl e)
              | Inr _ \<Rightarrow>
                  (case read_exact_until len [] polls recvs of
                     None \<Rightarrow> None
                   | Some (Inl e, _, _) \<Rightarrow> Some (Inl e)
                   | Some (Inr payload, _, _) \<Rightarrow> Some (map_err Json (de payload)))))"

datatype send_outcome = Sent nat | SendRetry | SendError nat

record 'j frame_write_error =
  fw_error :: "'j frame_error"
  fw_bytes_written :: nat

fun write_all_until ::
  "nat \<Rightarrow> nat \<Rightarrow> poll_outcome list \<Rightarrow> send_outcome list \<Rightarrow>
   (('j frame_error \<times> nat, nat) result \<times> send_outcome list) option" where
  "write_all_until len offset polls sends =
     (if len \<le> offset then Some (Inr offset, sends)
      else case wait_fd polls of
        None \<Rightarrow> None
      | Some (Inl e, polls) \<Rightarrow> Some (Inl (e, offset), sends)
      | Some (Inr _, polls) \<Rightarrow>
          (case sends of
             [] \<Rightarrow> None
           | Sent k # sends \<Rightarrow>
               (if 0 < k then write_all_until len (offset + k) polls sends
                else Some (Inl (Io WriteZero, offset), sends))
           | SendRetry # sends \<Rightarrow> write_all_until len offset polls sends
           | SendError code # sends \<Rightarrow> Some (Inl (Io (OsError code), offset), sends)))"

declare write_all_until.simps [simp del]

definition write_json_frame_until ::
  "('v, 'j) serializer \<Rightarrow> 'v \<Rightarrow> nat \<Rightarrow> poll_outcome list \<Rightarrow> send_outcome list \<Rightarrow>
   (('j frame_write_error, nat) result \<times> send_outcome list) option" where
  "write_json_frame_until ser v limit polls sends =
     (case encode_json_frame ser v limit of
        Inl e \<Rightarrow> Some (Inl \<lparr>fw_error = e, fw_bytes_written = 0\<rparr>, sends)
      | Inr frame \<Rightarrow>
          (case write_all_until (length frame) 0 polls sends of
             None \<Rightarrow> None
           | Some (Inl (e, written), sends) \<Rightarrow>
               Some (Inl \<lparr>fw_error = e, fw_bytes_written = written\<rparr>, sends)
           | Some (Inr written, sends) \<Rightarrow> Some (Inr written, sends)))"


section \<open>The codec\<close>

text \<open>
  The interface the protocols rely on: what is encoded is decoded, whatever follows it on
  the stream. A sequence of frames is then read back message by message.
\<close>

locale frame_codec =
  fixes encode :: "'m \<Rightarrow> nat \<Rightarrow> ('e, bytes) result"
    and decode :: "bytes \<Rightarrow> nat \<Rightarrow> ('e, 'm \<times> bytes) result"
  assumes decode_encode:
    "encode m limit = Inr frame \<Longrightarrow> decode (frame @ rest) limit = Inr (m, rest)"
begin

fun encode_all :: "'m list \<Rightarrow> nat \<Rightarrow> ('e, bytes) result" where
  "encode_all [] limit = Inr []"
| "encode_all (m # ms) limit =
     rbind (encode m limit) (\<lambda>frame. rbind (encode_all ms limit) (\<lambda>frames. Inr (frame @ frames)))"

fun decode_all :: "nat \<Rightarrow> bytes \<Rightarrow> nat \<Rightarrow> ('e, 'm list \<times> bytes) result" where
  "decode_all 0 s limit = Inr ([], s)"
| "decode_all (Suc n) s limit =
     rbind (decode s limit) (\<lambda>(m, s). rbind (decode_all n s limit) (\<lambda>(ms, s). Inr (m # ms, s)))"

lemma decode_all_encode_all:
  "encode_all ms limit = Inr frames \<Longrightarrow> decode_all (length ms) (frames @ rest) limit = Inr (ms, rest)"
  by (induction ms arbitrary: frames) (auto simp: rbind_Inr_iff decode_encode)

lemma frames_injective:
  assumes "encode m limit = Inr frame" "encode m' limit = Inr frame'" "frame @ s = frame' @ s'"
  shows "m = m' \<and> s = s'"
  using assms decode_encode by (metis Inr_inject Pair_inject)

end

lemma base256_digits:
  assumes "(n :: nat) < 2 ^ 32"
  shows "((n div 2 ^ 24 mod 256 * 256 + n div 2 ^ 16 mod 256) * 256 + n div 2 ^ 8 mod 256) * 256
     + n mod 256 = n"
proof -
  have split: "m div 256 * 256 + m mod 256 = m" for m :: nat by simp
  have "n div 2 ^ 24 mod 256 = n div 2 ^ 16 div 256" "n div 2 ^ 16 = n div 2 ^ 8 div 256"
    using assms by (simp_all flip: div_mult2_eq)
  then have "n div 2 ^ 24 mod 256 * 256 + n div 2 ^ 16 mod 256 = n div 2 ^ 8 div 256"
    using split [of "n div 2 ^ 16"] by simp
  then have "(n div 2 ^ 24 mod 256 * 256 + n div 2 ^ 16 mod 256) * 256 + n div 2 ^ 8 mod 256 = n div 2 ^ 8"
    by (simp only: split)
  then show ?thesis using split [of n] by (simp only:) simp
qed

lemma from_to_be_bytes: "from_be_bytes (to_be_bytes w) = w"
proof -
  have w: "unat w < 2 ^ 32" using unsigned_less [of w] by simp
  have byte: "unat (of_nat (m mod 256) :: u8) = m mod 256" for m
    by (simp add: unat_of_nat)
  have "foldl (\<lambda>acc b. acc * 256 + unat b) 0 (to_be_bytes w) =
      ((unat w div 2 ^ 24 mod 256 * 256 + unat w div 2 ^ 16 mod 256) * 256 + unat w div 2 ^ 8 mod 256) * 256
        + unat w mod 256"
    by (simp only: to_be_bytes_def list.map foldl_Cons foldl_Nil byte power_0 div_by_1 mult_0 add_0)
  also have "\<dots> = unat w" by (rule base256_digits [OF w])
  finally show ?thesis by simp
qed

lemma length_to_be_bytes [simp]: "length (to_be_bytes w) = 4"
  by (simp add: to_be_bytes_def)

lemma check_length_Inr_iff [result_simps]:
  "check_length len limit = Inr u \<longleftrightarrow> 0 < len \<and> len \<le> limit"
  by (auto simp: check_length_def)

lemma encode_payload_Inr_iff:
  "encode_payload_frame payload limit = Inr frame \<longleftrightarrow>
     payload \<noteq> [] \<and> length payload \<le> limit \<and> length payload < 2 ^ 32 \<and>
     frame = to_be_bytes (of_nat (length payload)) @ payload"
  by (auto simp: encode_payload_frame_def rbind_Inr_iff check_length_Inr_iff)

lemma read_encoded_payload:
  assumes "encode_payload_frame payload limit = Inr frame"
  shows "read_payload (frame @ rest) limit = Inr (payload, rest)"
proof -
  from assms have p: "payload \<noteq> []" "length payload \<le> limit" "length payload < 2 ^ 32"
    and frame: "frame = to_be_bytes (of_nat (length payload)) @ payload"
    by (auto simp: encode_payload_Inr_iff)
  have "unat (of_nat (length payload) :: u32) = length payload"
    using p(3) by (simp add: unat_of_nat)
  with p show ?thesis
    by (simp add: read_payload_def read_exact_def frame from_to_be_bytes Let_def check_length_def
        del: from_be_bytes.simps)
qed

interpretation payload: frame_codec encode_payload_frame read_payload
  by unfold_locales (rule read_encoded_payload)

section \<open>The bounded writer\<close>

lemma write_buffers_ok:
  assumes "bw_exceeded w = None" "length (bw_bytes w) \<le> bw_limit w" "write_buffers w bs = (w', ok)"
  shows "(bw_exceeded w' = None \<longleftrightarrow> ok) \<and> length (bw_bytes w') \<le> bw_limit w \<and>
     (ok \<longrightarrow> bw_bytes w' = bw_bytes w @ concat bs)"
  using assms
proof (induction w bs rule: write_buffers.induct)
  case (2 w b bs)
  show ?case
  proof (cases "snd (bounded_write w b)")
    case True
    then have "fst (bounded_write w b) = w\<lparr>bw_bytes := bw_bytes w @ b\<rparr>"
      "length (bw_bytes w) + length b \<le> bw_limit w"
      by (auto simp: bounded_write_def Let_def split: if_splits)
    with True 2 show ?thesis
      by (cases "bounded_write w b") auto
  next
    case False
    then have "\<exists>l. fst (bounded_write w b) = w\<lparr>bw_exceeded := Some l\<rparr>"
      by (auto simp: bounded_write_def Let_def split: if_splits)
    with False 2 show ?thesis
      by (cases "bounded_write w b") auto
  qed
qed auto

lemma serialize_bounded_Inr:
  assumes "serialize_bounded ser v limit = Inr payload"
  shows "payload = concat (fst (ser v)) \<and> snd (ser v) = None \<and> 0 < length payload \<and> length payload \<le> limit"
proof -
  obtain w ok where w:
    "write_buffers \<lparr>bw_bytes = [], bw_limit = limit, bw_exceeded = None\<rparr> (fst (ser v)) = (w, ok)"
    by fastforce
  with write_buffers_ok [OF _ _ w] assms show ?thesis
    by (auto simp: serialize_bounded_def Let_def rbind_Inr_iff check_length_Inr_iff
        split: prod.splits option.splits)
qed

section \<open>The socket loops\<close>

lemma wait_fd_Inr_length:
  "wait_fd ps = Some (Inr u, ps') \<Longrightarrow> length ps' < length ps"
  by (induction ps rule: wait_fd.induct) (auto split: if_splits)

lemma wait_fd_keeps_expiry:
  "wait_fd ps = Some (Inr u, ps') \<Longrightarrow> Expired \<in> set ps \<Longrightarrow> Expired \<in> set ps'"
  by (induction ps rule: wait_fd.induct) (auto split: if_splits)

lemma wait_fd_returns: "Expired \<in> set ps \<Longrightarrow> wait_fd ps \<noteq> None"
  by (induction ps rule: wait_fd.induct) auto

text \<open>The bytes that the sends of a list accepted.\<close>

fun accepted :: "send_outcome list \<Rightarrow> nat" where
  "accepted [] = 0"
| "accepted (Sent k # sends) = k + accepted sends"
| "accepted (_ # sends) = accepted sends"

lemma write_all_until_cases:
  assumes "write_all_until len offset polls sends = Some (r, rest)"
  obtains (finish) "len \<le> offset" "r = Inr offset" "rest = sends"
  | (wait) e where "offset < len" "r = Inl (e, offset)" "rest = sends"
  | (sent) k polls' ss where "offset < len" "sends = Sent k # ss"
      "write_all_until len (offset + k) polls' ss = Some (r, rest)"
  | (retry) polls' ss where "offset < len" "sends = SendRetry # ss"
      "write_all_until len offset polls' ss = Some (r, rest)"
  | (fail) s e where "offset < len" "sends = s # rest" "accepted [s] = 0" "r = Inl (e, offset)"
  using assms
  by (subst (asm) write_all_until.simps)
    (auto split: if_splits option.splits sum.splits list.splits send_outcome.splits)

lemma write_all_until_counts:
  "write_all_until len offset polls sends = Some (r, rest) \<Longrightarrow>
     \<exists>used. sends = used @ rest \<and>
       (case r of Inr written \<Rightarrow> written = offset + accepted used \<and> len \<le> written
        | Inl (e, written) \<Rightarrow> written = offset + accepted used \<and> written < len)"
proof (induction sends arbitrary: offset polls)
  case Nil
  then show ?case by (cases rule: write_all_until_cases) auto
next
  case (Cons s ss)
  from Cons.prems show ?case
  proof (cases rule: write_all_until_cases)
    case (sent k polls' ss')
    with Cons.IH obtain used where "ss = used @ rest"
      "case r of Inr written \<Rightarrow> written = offset + k + accepted used \<and> len \<le> written
       | Inl (e, written) \<Rightarrow> written = offset + k + accepted used \<and> written < len" by blast
    with sent show ?thesis by (intro exI [of _ "s # used"]) (auto split: sum.splits)
  next
    case (retry polls' ss')
    with Cons.IH obtain used where "ss = used @ rest"
      "case r of Inr written \<Rightarrow> written = offset + accepted used \<and> len \<le> written
       | Inl (e, written) \<Rightarrow> written = offset + accepted used \<and> written < len" by blast
    with retry show ?thesis by (intro exI [of _ "s # used"]) (auto split: sum.splits)
  next
    case (fail s' e)
    then show ?thesis by (intro exI [of _ "[s]"]) auto
  qed auto
qed

lemma write_all_until_returns:
  "Expired \<in> set polls \<Longrightarrow> length polls \<le> length sends \<Longrightarrow>
     (write_all_until len offset polls sends ::
        (('j frame_error \<times> nat, nat) result \<times> send_outcome list) option) \<noteq> None"
proof (induction sends arbitrary: offset polls)
  case Nil
  then show ?case by simp
next
  case (Cons s ss)
  have wait: "(wait_fd polls :: (('j frame_error, unit) result \<times> poll_outcome list) option) \<noteq> None"
    by (rule wait_fd_returns [OF Cons.prems(1)])
  have rec: "(write_all_until len o' polls' ss ::
      (('j frame_error \<times> nat, nat) result \<times> send_outcome list) option) \<noteq> None"
    if "wait_fd polls = Some (Inr u :: ('j frame_error, unit) result, polls')" for u polls' o'
    using Cons.prems wait_fd_Inr_length [OF that] wait_fd_keeps_expiry [OF that] by (intro Cons.IH) auto
  show ?case
    using wait rec
    by (subst write_all_until.simps) (auto split: option.splits sum.splits send_outcome.splits)
qed

text \<open>\<open>recv\<close> never returns more bytes than it was asked for.\<close>

fun recv_respects :: "nat \<Rightarrow> bytes \<Rightarrow> recv_outcome list \<Rightarrow> bool" where
  "recv_respects n buffer [] = True"
| "recv_respects n buffer (Received bs # recvs) =
     (length buffer < n \<and> bs \<noteq> [] \<longrightarrow>
        length bs \<le> n - length buffer \<and> recv_respects n (buffer @ bs) recvs)"
| "recv_respects n buffer (_ # recvs) = recv_respects n buffer recvs"

fun received :: "recv_outcome list \<Rightarrow> bytes" where
  "received [] = []"
| "received (Received bs # recvs) = bs @ received recvs"
| "received (_ # recvs) = received recvs"

lemma read_exact_until_cases:
  assumes "read_exact_until n buffer polls recvs = Some (r, polls', rest)"
  obtains (finish) "n \<le> length buffer" "r = Inr buffer" "rest = recvs"
  | (got) bs polls1 rs where "length buffer < n" "bs \<noteq> []" "recvs = Received bs # rs"
      "read_exact_until n (buffer @ bs) polls1 rs = Some (r, polls', rest)"
  | (retry) polls1 rs where "length buffer < n" "recvs = RecvRetry # rs"
      "read_exact_until n buffer polls1 rs = Some (r, polls', rest)"
  | (fail) e where "r = Inl e"
  using assms
  by (subst (asm) read_exact_until.simps)
    (auto split: if_splits option.splits sum.splits list.splits recv_outcome.splits)

lemma read_exact_until_exact:
  assumes "read_exact_until n buffer polls recvs = Some (Inr out, polls', rest)"
    and "length buffer \<le> n" "recv_respects n buffer recvs"
  shows "length out = n \<and> (\<exists>used. recvs = used @ rest \<and> out = buffer @ received used)"
  using assms
proof (induction recvs arbitrary: buffer polls)
  case Nil
  from Nil.prems(1) show ?case by (cases rule: read_exact_until_cases) (use Nil in auto)
next
  case (Cons r rs)
  from Cons.prems(1) show ?case
  proof (cases rule: read_exact_until_cases)
    case finish
    with Cons.prems show ?thesis by auto
  next
    case (got bs polls1 rs')
    with Cons.prems have "length (buffer @ bs) \<le> n" "recv_respects n (buffer @ bs) rs" by auto
    with Cons.IH got obtain used where "length out = n" "rs = used @ rest"
      "out = (buffer @ bs) @ received used" by blast
    with got show ?thesis by (intro conjI exI [of _ "r # used"]) auto
  next
    case (retry polls1 rs')
    with Cons.prems have "recv_respects n buffer rs" by simp
    with Cons.IH retry Cons.prems(2) obtain used where "length out = n" "rs = used @ rest"
      "out = buffer @ received used" by blast
    with retry show ?thesis by (intro conjI exI [of _ "r # used"]) auto
  qed auto
qed

lemma read_exact_until_returns:
  "Expired \<in> set polls \<Longrightarrow> length polls \<le> length recvs \<Longrightarrow>
     (read_exact_until n buffer polls recvs ::
        (('j frame_error, bytes) result \<times> poll_outcome list \<times> recv_outcome list) option) \<noteq> None"
proof (induction recvs arbitrary: buffer polls)
  case Nil
  then show ?case by simp
next
  case (Cons r rs)
  have wait: "(wait_fd polls :: (('j frame_error, unit) result \<times> poll_outcome list) option) \<noteq> None"
    by (rule wait_fd_returns [OF Cons.prems(1)])
  have rec: "(read_exact_until n buffer' polls' rs ::
      (('j frame_error, bytes) result \<times> poll_outcome list \<times> recv_outcome list) option) \<noteq> None"
    if "wait_fd polls = Some (Inr u :: ('j frame_error, unit) result, polls')" for u polls' buffer'
    using Cons.prems wait_fd_Inr_length [OF that] wait_fd_keeps_expiry [OF that] by (intro Cons.IH) auto
  show ?case
    using wait rec
    by (subst read_exact_until.simps) (auto split: option.splits sum.splits recv_outcome.splits)
qed


text \<open>A successful bounded read leaves the deadline, and at least as many polls as receives, ahead.\<close>

lemma read_exact_until_keeps_deadline:
  assumes "read_exact_until n buffer polls recvs
      = Some (Inr out :: ('j frame_error, bytes) result, polls', rest)"
    and "Expired \<in> set polls" "length polls \<le> length recvs"
  shows "Expired \<in> set polls' \<and> length polls' \<le> length rest"
  using assms
proof (induction recvs arbitrary: buffer polls)
  case Nil
  then show ?case by simp
next
  case (Cons r rs)
  show ?case
  proof (cases "n \<le> length buffer")
    case True
    with Cons.prems show ?thesis by (subst (asm) read_exact_until.simps) auto
  next
    case False
    from Cons.prems(1) obtain u polls1 buffer1 where
      w: "wait_fd polls = Some (Inr u :: ('j frame_error, unit) result, polls1)"
      and rec: "read_exact_until n buffer1 polls1 rs
        = Some (Inr out :: ('j frame_error, bytes) result, polls', rest)"
      using False read_exact_until.simps [of n buffer polls "r # rs", where 'j = 'j]
      by (auto split: if_splits option.splits sum.splits recv_outcome.splits)
    from Cons.prems wait_fd_Inr_length [OF w] wait_fd_keeps_expiry [OF w] show ?thesis
      by (intro Cons.IH [OF rec]) auto
  qed
qed

lemma received_append: "received (xs @ ys) = received xs @ received ys"
  by (induction xs rule: received.induct) auto

section \<open>Properties\<close>

text \<open>A serializer that writes two buffers, for the concrete instances below.\<close>

lemma sample_encoding:
  "encode_json_frame (\<lambda>v :: bool. ([[123], [125]], None :: unit option)) b 2
    = Inr [0, 0, 0, 2, 123, 125]"
proof -
  have "serialize_bounded (\<lambda>v :: bool. ([[123], [125]], None :: unit option)) b 2 = Inr [123, 125]"
    by (simp add: serialize_bounded_def bounded_write_def check_length_def)
  then show ?thesis
    by (simp add: encode_json_frame_def encode_payload_frame_def check_length_def to_be_bytes_def)
qed

text \<open>
  C37. A JSON value that was encoded as a frame is read back from the stream, whatever follows
  the frame, and the frame is never more than four bytes longer than the limit. The JSON
  library is only asked to deserialise what it serialised.
\<close>

theorem json_frame_roundtrip:
  assumes "encode_json_frame ser v limit = (Inr frame :: ('j frame_error, bytes) result)"
    and "de (concat (fst (ser v))) = Inr v"
  shows "read_json_frame de (frame @ rest) limit = (Inr (v, rest) :: ('j frame_error, 'v \<times> bytes) result)
    \<and> length frame \<le> limit + 4"
proof -
  from assms(1) obtain payload where ser: "serialize_bounded ser v limit = Inr payload"
    and enc: "encode_payload_frame payload limit = (Inr frame :: ('j frame_error, bytes) result)"
    by (auto simp: encode_json_frame_def rbind_Inr_iff)
  from serialize_bounded_Inr [OF ser]
  have payload: "payload = concat (fst (ser v))" "length payload \<le> limit" by blast+
  from enc have "length frame = 4 + length payload" by (simp add: encode_payload_Inr_iff)
  moreover have "read_payload (frame @ rest) limit
      = (Inr (payload, rest) :: ('j frame_error, bytes \<times> bytes) result)"
    by (rule read_encoded_payload [OF enc])
  with assms(2) payload(1) have "read_json_frame de (frame @ rest) limit = (Inr (v, rest) :: ('j frame_error, 'v \<times> bytes) result)"
    by (simp add: read_json_frame_def)
  ultimately show ?thesis using payload(2) by simp
qed

theorem json_frame_roundtrip_witness:
  "read_json_frame (\<lambda>bs. if bs = [123, 125] then Inr True else Inl ()) ([0, 0, 0, 2, 123, 125] @ [7]) 2
     = Inr (True, [7]) \<and> length [0, 0, 0, 2, 123, 125 :: u8] \<le> 2 + 4"
proof -
  have "encode_json_frame (\<lambda>v :: bool. ([[123], [125]], None :: unit option)) True 2
      = Inr [0, 0, 0, 2, 123, 125]"
    by (simp add: sample_encoding)
  from json_frame_roundtrip [OF this, of "\<lambda>bs. if bs = [123, 125] then Inr True else Inl ()" "[7]"]
  show ?thesis by simp
qed

text \<open>
  A sequence of payload frames written one after another is read back frame by frame, in
  order, and nothing of what follows is consumed.
\<close>

theorem payload_stream_roundtrip:
  assumes "payload.encode_all payloads limit = (Inr frames :: ('j frame_error, bytes) result)"
  shows "payload.decode_all (length payloads) (frames @ rest) limit
    = (Inr (payloads, rest) :: ('j frame_error, bytes list \<times> bytes) result)"
  using assms by (rule payload.decode_all_encode_all)

theorem payload_stream_roundtrip_witness:
  "payload.decode_all 2 ([0, 0, 0, 1, 5, 0, 0, 0, 2, 6, 7] @ [0]) 2
    = (Inr ([[5], [6, 7]], [0]) :: (unit frame_error, bytes list \<times> bytes) result)"
proof -
  have "payload.encode_all [[5], [6, 7]] 2
      = (Inr [0, 0, 0, 1, 5, 0, 0, 0, 2, 6, 7] :: (unit frame_error, bytes) result)"
    by (simp add: encode_payload_frame_def check_length_def to_be_bytes_def)
  from payload_stream_roundtrip [OF this, of "[0]"] show ?thesis by (simp add: numeral_2_eq_2)
qed

text \<open>
  A frame cut short anywhere is reported as an unexpected end of the stream: no prefix of
  a frame is ever taken for a message.
\<close>

theorem truncated_frame:
  assumes "encode_payload_frame payload limit = (Inr frame :: ('j frame_error, bytes) result)"
    and "n < length frame"
  shows "read_payload (take n frame) limit = (Inl (Io UnexpectedEof) :: ('j frame_error, bytes \<times> bytes) result)"
proof -
  from assms(1) have p: "payload \<noteq> []" "length payload \<le> limit" "length payload < 2 ^ 32"
    and frame: "frame = to_be_bytes (of_nat (length payload)) @ payload"
    by (auto simp: encode_payload_Inr_iff)
  have "unat (of_nat (length payload) :: u32) = length payload"
    using p(3) by (simp add: unat_of_nat)
  with p assms(2) show ?thesis
    by (auto simp: read_payload_def read_exact_def frame from_to_be_bytes Let_def check_length_def
        simp del: from_be_bytes.simps)
qed

theorem truncated_frame_witness:
  "read_payload (take 5 [0, 0, 0, 2, 6, 7]) 2
    = (Inl (Io UnexpectedEof) :: (unit frame_error, bytes \<times> bytes) result)"
proof -
  have "encode_payload_frame [6, 7] 2
      = (Inr [0, 0, 0, 2, 6, 7] :: (unit frame_error, bytes) result)"
    by (simp add: encode_payload_frame_def check_length_def to_be_bytes_def)
  from truncated_frame [OF this, of 5] show ?thesis by simp
qed

text \<open>
  What a client relies on to decide whether a retry is safe: the byte count that a failed
  write reports is exactly the number of bytes the socket accepted, and fewer than the frame
  has; a write that succeeds has sent the whole frame.
\<close>

theorem write_json_frame_until_counts:
  assumes "write_json_frame_until ser v limit polls sends = Some (r, rest)"
  shows "\<exists>used. sends = used @ rest \<and>
    (case r of
       Inl failure \<Rightarrow> fw_bytes_written failure = accepted used \<and>
         (\<forall>frame. encode_json_frame ser v limit = Inr frame \<longrightarrow> accepted used < length frame)
     | Inr written \<Rightarrow> written = accepted used \<and>
         (\<exists>frame. encode_json_frame ser v limit = Inr frame \<and> length frame \<le> written))"
proof (cases "encode_json_frame ser v limit")
  case (Inl e)
  with assms show ?thesis by (auto simp: write_json_frame_until_def)
next
  case (Inr frame)
  with assms obtain r' where w: "write_all_until (length frame) 0 polls sends = Some (r', rest)"
    and r: "r = (case r' of Inl (e, n) \<Rightarrow> Inl \<lparr>fw_error = e, fw_bytes_written = n\<rparr> | Inr n \<Rightarrow> Inr n)"
    by (auto simp: write_json_frame_until_def split: option.splits sum.splits)
  from write_all_until_counts [OF w] r Inr show ?thesis by (auto split: sum.splits)
qed

theorem write_json_frame_until_counts_witness:
  "\<exists>used. [Sent 4, SendError 32] = used @ [] \<and> accepted used = 4"
proof -
  have "write_json_frame_until (\<lambda>v :: bool. ([[123], [125]], None :: unit option)) True 2
      [Ready False False True, Ready False False True] [Sent 4, SendError 32]
      = Some (Inl \<lparr>fw_error = Io (OsError 32), fw_bytes_written = 4\<rparr>, [])"
    by (simp add: write_json_frame_until_def sample_encoding write_all_until.simps)
  from write_json_frame_until_counts [OF this] show ?thesis by auto
qed

text \<open>
  C38. The deadline-bounded read refines the plain one: what it returns is what
  \<open>read_json_frame\<close> returns on exactly the bytes that were received, with none left over,
  when \<open>recv\<close> returns at most what it is asked for.
\<close>

theorem read_json_frame_until_refines:
  assumes "read_json_frame_until de limit polls recvs = Some (Inr v :: ('j frame_error, 'v) result)"
    and "recv_respects 4 [] recvs"
    and "\<And>header polls' rest. read_exact_until 4 [] polls recvs
        = Some (Inr header :: ('j frame_error, bytes) result, polls', rest)
      \<Longrightarrow> recv_respects (unat (from_be_bytes header)) [] rest"
  shows "\<exists>used rest. recvs = used @ rest \<and> read_json_frame de (received used) limit = Inr (v, [])"
proof -
  from assms(1) obtain header polls1 recvs1 payload polls2 recvs2 where
    h: "read_exact_until 4 [] polls recvs
        = Some (Inr header :: ('j frame_error, bytes) result, polls1, recvs1)"
    and len: "check_length (unat (from_be_bytes header)) limit = (Inr () :: ('j frame_error, unit) result)"
    and p: "read_exact_until (unat (from_be_bytes header)) [] polls1 recvs1
        = Some (Inr payload :: ('j frame_error, bytes) result, polls2, recvs2)"
    and de: "map_err Json (de payload) = (Inr v :: ('j frame_error, 'v) result)"
    by (auto simp: read_json_frame_until_def Let_def simp del: from_be_bytes.simps
        split: option.splits sum.splits)
  from read_exact_until_exact [OF h _ assms(2)] obtain used where
    u: "length header = 4" "recvs = used @ recvs1" "header = received used" by auto
  from read_exact_until_exact [OF p _ assms(3) [OF h]] obtain used' where
    u': "length payload = unat (from_be_bytes header)" "recvs1 = used' @ recvs2" "payload = received used'"
    by auto
  from u u' len de have "read_json_frame de (received (used @ used')) limit = Inr (v, [])"
    by (simp add: received_append read_json_frame_def read_payload_def read_exact_def Let_def
        del: from_be_bytes.simps)
  with u u' show ?thesis by (intro exI [of _ "used @ used'"] exI [of _ recvs2]) simp
qed

theorem read_json_frame_until_refines_witness:
  "\<exists>used rest. [Received [0, 0, 0], Received [1], RecvRetry, Received [5]] = used @ rest \<and>
    read_json_frame (\<lambda>bs. Inr bs :: (unit, bytes) result) (received used) 8 = Inr ([5], [])"
proof -
  let ?polls = "replicate 5 (Ready False False True)"
  let ?recvs = "[Received [0, 0, 0], Received [1], RecvRetry, Received [5]]"
  have header: "read_exact_until 4 [] ?polls ?recvs
      = Some (Inr [0, 0, 0, 1] :: (unit frame_error, bytes) result,
          replicate 3 (Ready False False True), [RecvRetry, Received [5]])"
    by (simp add: read_exact_until.simps numeral_eq_Suc)
  have "read_json_frame_until (\<lambda>bs. Inr bs :: (unit, bytes) result) 8 ?polls ?recvs
      = Some (Inr [5] :: (unit frame_error, bytes) result)"
    unfolding read_json_frame_until_def header
    by (simp add: read_exact_until.simps check_length_def numeral_eq_Suc)
  moreover have "recv_respects 4 [] ?recvs" by simp
  ultimately show ?thesis
    using header by (rule_tac read_json_frame_until_refines) auto
qed

text \<open>
  The deadline ends both loops: once the polls run into the expired deadline, a
  deadline-bounded write or read of a frame returns, with a value or an error, whatever the
  socket did before. It never waits for ever.
\<close>

theorem deadline_operations_return:
  assumes "Expired \<in> set polls" and "length polls \<le> length sends" and "length polls \<le> length recvs"
  shows "(write_json_frame_until (ser :: ('w, 'j) serializer) w limit polls sends ::
      (('j frame_write_error, nat) result \<times> send_outcome list) option) \<noteq> None
    \<and> (read_json_frame_until de limit polls recvs :: ('k frame_error, 'v) result option) \<noteq> None"
proof
  show "(write_json_frame_until ser w limit polls sends ::
      (('j frame_write_error, nat) result \<times> send_outcome list) option) \<noteq> None"
    using write_all_until_returns [OF assms(1,2), where 'j = 'j and offset = 0]
    by (cases "encode_json_frame ser w limit")
      (auto simp: write_json_frame_until_def split: option.splits sum.splits)
next
  note returns = read_exact_until_returns [where 'j = 'k]
  show "(read_json_frame_until de limit polls recvs :: ('k frame_error, 'v) result option) \<noteq> None"
  proof (cases "read_exact_until 4 [] polls recvs ::
      (('k frame_error, bytes) result \<times> poll_outcome list \<times> recv_outcome list) option")
    case None
    with returns [OF assms(1,3)] show ?thesis by blast
  next
    case (Some out)
    obtain h polls1 recvs1 where out: "out = (h, polls1, recvs1)" by (cases out)
    show ?thesis
    proof (cases h)
      case (Inl e)
      with Some out show ?thesis by (simp add: read_json_frame_until_def)
    next
      case (Inr header)
      with Some out have first: "read_exact_until 4 [] polls recvs
          = Some (Inr header :: ('k frame_error, bytes) result, polls1, recvs1)" by simp
      from read_exact_until_keeps_deadline [OF first assms(1,3)]
      have "(read_exact_until (unat (from_be_bytes header)) [] polls1 recvs1 ::
          (('k frame_error, bytes) result \<times> poll_outcome list \<times> recv_outcome list) option) \<noteq> None"
        by (intro returns) simp_all
      then show ?thesis
        by (auto simp: read_json_frame_until_def first Let_def simp del: from_be_bytes.simps
            split: sum.splits)
    qed
  qed
qed

theorem deadline_operations_return_witness:
  "(write_json_frame_until (\<lambda>v :: bool. ([[123], [125]], None :: unit option)) True 2
      [Ready False False True, Expired] [Sent 1, SendRetry]) \<noteq> None
    \<and> read_json_frame_until (\<lambda>bs. Inr bs :: (unit, bytes) result) 2
      [Ready False False True, Expired] [Received [0], RecvRetry] \<noteq> None"
  by (rule deadline_operations_return) simp_all

end
