(* ===== verification/Dev_Request.thy ===== *)
theory Dev_Request
  imports Dev_Config Posix_Namespace Unix_Frame
begin

text \<open>
  Requests to the backend of the developer environment
  (\<open>src/crates/dev-env-model/src/{identity,request,snapshot,backend}.rs\<close>): identities, the context of a
  request, the snapshot of a configuration a backend serves, the key under which results are cached, and the
  messages with their checks and frames. JSON and SHA-256 are parameters. Sizes are natural numbers; where the
  source adds with a check for overflow of \<open>usize\<close>, so does the model.
\<close>

type_synonym u16 = "16 word"

section \<open>Identities\<close>

datatype identity_request_error = InvalidRequestUser

datatype identity_request = IdentityPeer | IdentityRoot | IdentityUser string

definition identity_request_validate :: "identity_request \<Rightarrow> (identity_request_error, unit) result" where
  "identity_request_validate r =
     (case r of
        IdentityUser name \<Rightarrow>
          fail_if (\<not> (name \<noteq> [] \<and> length name \<le> 32 \<and>
            list_all (\<lambda>c. is_ascii_alphanumeric c \<or> c = CHR ''_'' \<or> c = CHR ''-'') name)) InvalidRequestUser
      | _ \<Rightarrow> Inr ())"

record identity_peer =
  ip_pid :: u32
  ip_uid :: u32
  ip_gid :: u32

datatype identity_error = IdentityInvalidUser | IdentityInvalidHome | RootGroupMismatch

datatype identity_source = FromRoot | FromPeer | FromNamedUser | FromBroker

datatype workspace_status = WorkspaceMounted | WorkspaceNotMounted | WorkspaceUnavailable

record identity =
  iy_uid :: u32
  iy_gid :: u32
  iy_user :: string
  iy_home :: string
  iy_groups :: "u32 list"
  iy_run_as_root :: bool
  iy_source :: identity_source
  iy_workspace :: workspace_status

definition identity_new :: "u32 \<Rightarrow> u32 \<Rightarrow> string \<Rightarrow> string \<Rightarrow> identity_source \<Rightarrow> identity" where
  "identity_new uid gid user home source =
     \<lparr>iy_uid = uid, iy_gid = gid, iy_user = user, iy_home = home, iy_groups = [], iy_run_as_root = False, iy_source = source,
      iy_workspace = WorkspaceUnavailable\<rparr>"

definition identity_root :: identity where
  "identity_root =
     \<lparr>iy_uid = 0, iy_gid = 0, iy_user = ''root'', iy_home = ''/root'', iy_groups = [], iy_run_as_root = True, iy_source = FromRoot,
      iy_workspace = WorkspaceUnavailable\<rparr>"

definition identity_validate :: "identity \<Rightarrow> (identity_error, unit) result" where
  "identity_validate i =
     rbind (fail_if (iy_user i = [] \<or> has_char (iy_user i) (CHR 0x00)) IdentityInvalidUser) (\<lambda>_.
     rbind (fail_if (iy_home i = [] \<or> \<not> is_absolute (iy_home i)) IdentityInvalidHome) (\<lambda>_.
     fail_if (iy_uid i = 0 \<and> iy_gid i \<noteq> 0) RootGroupMismatch))"

section \<open>The context of a request\<close>

datatype request_mode = ModeExec | ModeShell | ModeLoginShell | ModeShim | ModePrint

datatype request_error =
    InvalidRequestId
  | InvalidRequestCwd string
  | InvalidRequestShell
  | RequestIdentity identity_request_error
  | TooManyRuntimeInputs
  | TooManyShellArguments
  | RequestEnvironmentName string
  | RequestNul string

record request_context =
  rx_request_id :: string
  rx_mode :: request_mode
  rx_cwd :: string
  rx_shell :: string
  rx_shell_args :: "string list"
  rx_requested_identity :: identity_request
  rx_runtime_inputs :: "(string, string) btree_map"
  rx_ambient_environment :: "(string, string) btree_map"

definition request_id_ok :: "string \<Rightarrow> bool" where
  "request_id_ok rid \<longleftrightarrow> rid \<noteq> [] \<and> length rid \<le> 128 \<and>
     list_all (\<lambda>c. is_ascii_alphanumeric c \<or> c = CHR ''-'' \<or> c = CHR ''_'' \<or> c = CHR ''.'') rid"

definition absolute_ok :: "string \<Rightarrow> bool" where
  "absolute_ok path \<longleftrightarrow> path \<noteq> [] \<and> is_absolute path \<and> \<not> has_char path (CHR 0x00)"

definition upper_name :: "string \<Rightarrow> bool" where
  "upper_name name \<longleftrightarrow>
     (case name of
        [] \<Rightarrow> False
      | c # cs \<Rightarrow> (is_ascii_uppercase c \<or> c = CHR ''_'') \<and> list_all (\<lambda>c. is_ascii_uppercase c \<or> is_ascii_digit c \<or> c = CHR ''_'') cs)"

definition add_value :: "nat \<Rightarrow> string \<times> string \<Rightarrow> (request_error, nat) result" where
  "add_value bytes_so_far entry =
     (let (name, v) = entry in
      if \<not> upper_name name then Inl (RequestEnvironmentName name)
      else if has_char v (CHR 0x00) then Inl (RequestNul name)
      else if 2 ^ 64 \<le> bytes_so_far + length name + length v then Inl (RequestNul name)
      else Inr (bytes_so_far + length name + length v))"

definition request_values :: "(string, string) btree_map \<Rightarrow> (request_error, unit) result" where
  "request_values vs = rbind (fold_result add_value 0 vs) (\<lambda>total_bytes. fail_if (64 * 1024 < total_bytes) TooManyRuntimeInputs)"

definition request_validate :: "request_context \<Rightarrow> (request_error, unit) result" where
  "request_validate rx =
     rbind (fail_if (\<not> request_id_ok (rx_request_id rx)) InvalidRequestId) (\<lambda>_.
     rbind (fail_if (\<not> absolute_ok (rx_cwd rx)) (InvalidRequestCwd (rx_cwd rx))) (\<lambda>_.
     rbind (fail_if (rx_shell rx = [] \<or> has_char (rx_shell rx) (CHR 0x00)) InvalidRequestShell) (\<lambda>_.
     rbind (fail_if (128 < length (rx_shell_args rx) \<or> list_ex (\<lambda>arg. has_char arg (CHR 0x00)) (rx_shell_args rx)) TooManyShellArguments) (\<lambda>_.
     rbind (fail_if (64 * 1024 < sum_list (map length (rx_shell_args rx))) TooManyShellArguments) (\<lambda>_.
     rbind (map_err RequestIdentity (identity_request_validate (rx_requested_identity rx))) (\<lambda>_.
     rbind (fail_if (64 < length (rx_runtime_inputs rx)) TooManyRuntimeInputs) (\<lambda>_.
     rbind (request_values (rx_runtime_inputs rx)) (\<lambda>_.
     request_values (rx_ambient_environment rx)))))))))"

section \<open>Snapshots\<close>

datatype 'j snapshot_error =
    SnapshotModel dev_error
  | SnapshotFingerprint 'j
  | GenerationExhausted
  | InvalidWorkspaceRoot string
  | ProviderOrderMismatch
  | DerivedStateMismatch

type_synonym generation = u64

definition generation_next :: "generation \<Rightarrow> ('j snapshot_error, generation) result" where
  "generation_next g = ok_or GenerationExhausted (checked_add g 1)"

datatype prepare_policy = OncePerKey | PrepareAlways

record provider_policy =
  py_prepare :: prepare_policy
  py_cache_shellenv :: bool
  py_missing :: missing_provider_policy

definition policy_from_config :: "provider_config \<Rightarrow> provider_policy" where
  "policy_from_config config = \<lparr>py_prepare = OncePerKey, py_cache_shellenv = True, py_missing = pc_missing config\<rparr>"

text \<open>The derived \<open>Default\<close> of the rules forbids the search, unlike the default of the decoder.\<close>

record executable_rules =
  er_allow_path_search :: bool
  er_allowed_roots :: "string list"
  er_allow_workspace_override :: bool

definition executable_rules_default :: executable_rules where
  "executable_rules_default = \<lparr>er_allow_path_search = False, er_allowed_roots = [], er_allow_workspace_override = False\<rparr>"

record overlay_policy =
  op_enabled :: bool
  op_search :: workspace_search
  op_allowed_paths :: "string list"

definition overlay_policy_default :: overlay_policy where
  "overlay_policy_default = \<lparr>op_enabled = True, op_search = Upward, op_allowed_paths = []\<rparr>"

record config_snapshot =
  cs_generation :: generation
  cs_config_fingerprint :: "u8 list"
  cs_profile_chain :: "string list"
  cs_resolved_config :: resolved_config
  cs_source_provenance :: provenance_index
  cs_trust_fingerprint :: "u8 list"
  cs_shells :: "(string, shell_config) btree_map"
  cs_runtime_inputs :: "(string, input_spec) btree_map"
  cs_provider_order :: "string list"
  cs_provider_policy :: "(string, provider_policy) btree_map"
  cs_executable_resolution :: executable_rules
  cs_workspace_root :: string
  cs_workspace_overlay :: overlay_policy

definition provider_policies :: "resolved_config \<Rightarrow> (string, provider_policy) btree_map" where
  "provider_policies config = btree_collect (map (\<lambda>(pid, p). (pid, policy_from_config p)) (rc_providers config))"

definition snapshot_validate :: "config_snapshot \<Rightarrow> ('j snapshot_error, unit) result" where
  "snapshot_validate s =
     rbind (map_err SnapshotModel (resolved_config_validate (cs_resolved_config s))) (\<lambda>_.
     rbind (fail_if (cs_workspace_root s = [] \<or> \<not> is_absolute (cs_workspace_root s)) (InvalidWorkspaceRoot (cs_workspace_root s))) (\<lambda>_.
     rbind (map_err SnapshotModel (provider_order (rc_providers (cs_resolved_config s)))) (\<lambda>expected_order.
     fail_if (cs_provider_order s \<noteq> expected_order \<or> cs_shells s \<noteq> rc_shells (cs_resolved_config s) \<or>
       cs_runtime_inputs s \<noteq> rc_inputs (cs_resolved_config s) \<or> cs_provider_policy s \<noteq> provider_policies (cs_resolved_config s))
       DerivedStateMismatch)))"

definition snapshot_new ::
  "(resolved_config \<Rightarrow> ('j, u8 list) result) \<Rightarrow> (u8 list \<Rightarrow> u8 list) \<Rightarrow> generation \<Rightarrow> string list \<Rightarrow> resolved_config \<Rightarrow>
   provenance_index \<Rightarrow> u8 list \<Rightarrow> ('j snapshot_error, config_snapshot) result" where
  "snapshot_new encode sha256 gen profile_chain config provenance trust_fingerprint =
     rbind (map_err SnapshotFingerprint (encode config)) (\<lambda>encoded.
     rbind (map_err SnapshotModel (resolved_config_validate config)) (\<lambda>_.
     rbind (map_err SnapshotModel (provider_order (rc_providers config))) (\<lambda>order.
     let snapshot = \<lparr>cs_generation = gen, cs_config_fingerprint = sha256 encoded, cs_profile_chain = profile_chain,
       cs_resolved_config = config, cs_source_provenance = provenance, cs_trust_fingerprint = trust_fingerprint,
       cs_shells = rc_shells config, cs_runtime_inputs = rc_inputs config, cs_provider_order = order,
       cs_provider_policy = provider_policies config, cs_executable_resolution = executable_rules_default,
       cs_workspace_root = wc_root (rc_workspace config), cs_workspace_overlay = overlay_policy_default\<rparr> in
     rbind (snapshot_validate snapshot) (\<lambda>_. Inr snapshot))))"

section \<open>Keys of the cache\<close>

datatype 'j key_error =
    KeyInvalidPath string string
  | KeyCwdOutsideWorkspace
  | KeyInvalidShell
  | KeyEnvironmentName string
  | KeyNul string
  | KeyIdentity identity_error
  | KeyEncoding 'j

record materialization_key =
  mk_generation :: generation
  mk_config_fingerprint :: "u8 list"
  mk_workspace :: string
  mk_cwd :: string
  mk_shell :: string
  mk_identity :: identity
  mk_runtime_inputs :: "(string, string) btree_map"
  mk_ambient_environment :: "(string, string) btree_map"
  mk_detect_fingerprints :: "(string, u8 list) btree_map"

text \<open>A path under construction is the list of its names; popping the last one never removes the root.\<close>

fun normalize_name :: "component \<Rightarrow> string list \<Rightarrow> string list" where
  "normalize_name RootDir names = names"
| "normalize_name CurDir names = names"
| "normalize_name ParentDir names = butlast names"
| "normalize_name (Normal v) names = names @ [v]"

definition normalize_absolute_path :: "string \<Rightarrow> string" where
  "normalize_absolute_path path =
     (let names = fold normalize_name (components path) [] in
      (if is_absolute path then ''/'' else []) @ join ''/'' names)"

definition key_new :: "generation \<Rightarrow> string \<Rightarrow> string \<Rightarrow> string \<Rightarrow> identity \<Rightarrow> materialization_key" where
  "key_new gen workspace cwd shell idy =
     \<lparr>mk_generation = gen, mk_config_fingerprint = replicate 32 0, mk_workspace = normalize_absolute_path workspace,
      mk_cwd = normalize_absolute_path cwd, mk_shell = shell, mk_identity = idy, mk_runtime_inputs = [],
      mk_ambient_environment = [], mk_detect_fingerprints = []\<rparr>"

definition key_with ::
  "u8 list \<Rightarrow> (string, string) btree_map \<Rightarrow> (string, string) btree_map \<Rightarrow> (string, u8 list) btree_map \<Rightarrow> materialization_key \<Rightarrow> materialization_key" where
  "key_with config_fingerprint runtime_inputs ambient fingerprints key =
     key\<lparr>mk_config_fingerprint := config_fingerprint, mk_runtime_inputs := runtime_inputs, mk_ambient_environment := ambient,
       mk_detect_fingerprints := fingerprints\<rparr>"

definition key_value :: "string \<times> string \<Rightarrow> ('j key_error, unit) result" where
  "key_value entry =
     (let (name, v) = entry in
      if \<not> upper_name name then Inl (KeyEnvironmentName name) else fail_if (has_char v (CHR 0x00)) (KeyNul name))"

definition path_starts_with :: "string \<Rightarrow> string \<Rightarrow> bool" where
  "path_starts_with path base \<longleftrightarrow> prefix (components base) (components path)"

definition key_validate :: "materialization_key \<Rightarrow> ('j key_error, unit) result" where
  "key_validate key =
     rbind (fail_if (\<not> absolute_ok (mk_workspace key)) (KeyInvalidPath ''workspace'' (mk_workspace key))) (\<lambda>_.
     rbind (fail_if (\<not> absolute_ok (mk_cwd key)) (KeyInvalidPath ''cwd'' (mk_cwd key))) (\<lambda>_.
     rbind (fail_if (\<not> path_starts_with (mk_cwd key) (mk_workspace key)) KeyCwdOutsideWorkspace) (\<lambda>_.
     rbind (fail_if (mk_shell key = [] \<or> has_char (mk_shell key) (CHR 0x00)) KeyInvalidShell) (\<lambda>_.
     rbind (map_err KeyIdentity (identity_validate (mk_identity key))) (\<lambda>_.
     rbind (for_each key_value (mk_runtime_inputs key)) (\<lambda>_.
     for_each key_value (mk_ambient_environment key)))))))"

definition key_build :: "materialization_key \<Rightarrow> ('j key_error, materialization_key) result" where
  "key_build key = rbind (key_validate key) (\<lambda>_. Inr key)"

definition key_fingerprint ::
  "(materialization_key \<Rightarrow> ('j, u8 list) result) \<Rightarrow> (u8 list \<Rightarrow> u8 list) \<Rightarrow> materialization_key \<Rightarrow> ('j key_error, u8 list) result" where
  "key_fingerprint encode sha256 key =
     rbind (key_validate key) (\<lambda>_. rbind (map_err KeyEncoding (encode key)) (\<lambda>encoded. Inr (sha256 encoded)))"

section \<open>Messages\<close>

definition DEVENV_BACKEND_PROTOCOL_VERSION :: u16 where
  "DEVENV_BACKEND_PROTOCOL_VERSION = 5"

definition DEVENV_BACKEND_ERROR_VERSION :: u16 where
  "DEVENV_BACKEND_ERROR_VERSION = 2"

definition MAX_BACKEND_FRAME_BYTES :: nat where
  "MAX_BACKEND_FRAME_BYTES = 1024 * 1024"

datatype invalid_message =
    MessageRequestId | MessageContextId | MessageExplainNul | MessageTrustPath | MessageResponseId

datatype 'j protocol_error =
    ProtocolJson 'j
  | ProtocolIo io_error
  | UnsupportedVersion u16
  | UnsupportedErrorVersion u16
  | InvalidMessage invalid_message
  | InvalidContext request_error
  | FrameTooLarge nat

datatype control_plane_state = PlaneStarting | PlaneServing | PlaneReloading | PlaneStopping | PlaneFailed

datatype initial_runtime_state = RuntimePreparing | RuntimeRunning | RuntimeExited | RuntimeFailed

datatype trust_target = TrustPath string | TrustSha256 "u8 list"

datatype backend_request =
    RequestHello
  | RequestPrepare request_context
  | RequestStatus
  | RequestPlan
  | RequestExplain "string option"
  | RequestDoctor
  | RequestTrust trust_target
  | RequestReload bool
  | RequestStop

record backend_request_message =
  bq_protocol :: u16
  bq_request_id :: string
  bq_request :: backend_request

record hello_info =
  hi_control_plane :: control_plane_state
  hi_initial_runtime :: initial_runtime_state
  hi_startup_phase :: "string option"
  hi_exit_code :: "int option"
  hi_error :: "string option"
  hi_generation :: generation
  hi_config_fingerprint :: "u8 list"
  hi_runtime_inputs :: "string list"
  hi_environment_names :: "string list"

record shell_invocation =
  si_executable :: string
  si_args :: "string list"

record diagnostic_summary =
  dg_provider :: string
  dg_class :: string
  dg_operation :: "string option"
  dg_status :: "int option"
  dg_timed_out :: bool
  dg_orphaned_children :: u32

record receipt_summary =
  rs_succeeded :: bool
  rs_action_count :: nat
  rs_warning_count :: nat

record backend_status =
  bs_control_plane :: control_plane_state
  bs_initial_runtime :: initial_runtime_state
  bs_startup_phase :: "string option"
  bs_exit_code :: "int option"
  bs_error :: "string option"
  bs_generation :: generation
  bs_config_fingerprint :: "u8 list"
  bs_backend_pid :: u32
  bs_active_requests :: nat

record backend_error =
  be_error_version :: u16
  be_class :: string
  be_retryable :: bool
  be_message :: string
  be_generation :: "generation option"
  be_provider_id :: "string option"
  be_operation :: "string option"
  be_request_id :: "string option"

record prepared_response =
  pp_generation :: generation
  pp_config_fingerprint :: "u8 list"
  pp_cwd :: string
  pp_shell_invocation :: shell_invocation
  pp_environment :: materialized_env
  pp_identity :: identity
  pp_supplemental_groups :: "u32 list"
  pp_diagnostics :: "diagnostic_summary list"
  pp_cache_hit :: bool
  pp_receipt_summary :: receipt_summary

text \<open>The JSON values of the answers to plan, explain and doctor are left as a type \<open>'v\<close>.\<close>

datatype 'v backend_response =
    ResponseHello hello_info
  | ResponsePrepared prepared_response
  | ResponseStatus backend_status
  | ResponsePlan 'v
  | ResponseExplain 'v
  | ResponseDoctor 'v
  | ResponseTrusted generation
  | ResponseReloaded generation "u8 list"
  | ResponseStopped
  | ResponseError backend_error

record 'v backend_response_message =
  bp_protocol :: u16
  bp_request_id :: string
  bp_response :: "'v backend_response"

definition trust_target_validate :: "trust_target \<Rightarrow> ('j protocol_error, unit) result" where
  "trust_target_validate t =
     (case t of
        TrustPath path \<Rightarrow> fail_if (\<not> absolute_ok path) (InvalidMessage MessageTrustPath)
      | TrustSha256 _ \<Rightarrow> Inr ())"

definition backend_request_new :: "string \<Rightarrow> backend_request \<Rightarrow> backend_request_message" where
  "backend_request_new rid request = \<lparr>bq_protocol = DEVENV_BACKEND_PROTOCOL_VERSION, bq_request_id = rid, bq_request = request\<rparr>"

definition backend_request_validate :: "backend_request_message \<Rightarrow> ('j protocol_error, unit) result" where
  "backend_request_validate m =
     rbind (fail_if (bq_protocol m \<noteq> DEVENV_BACKEND_PROTOCOL_VERSION) (UnsupportedVersion (bq_protocol m))) (\<lambda>_.
     rbind (fail_if (\<not> request_id_ok (bq_request_id m)) (InvalidMessage MessageRequestId)) (\<lambda>_.
     case bq_request m of
       RequestPrepare rx \<Rightarrow>
         rbind (fail_if (rx_request_id rx \<noteq> bq_request_id m) (InvalidMessage MessageContextId)) (\<lambda>_.
         map_err InvalidContext (request_validate rx))
     | RequestExplain path \<Rightarrow>
         fail_if (is_some_and (\<lambda>path. has_char path (CHR 0x00)) path) (InvalidMessage MessageExplainNul)
     | RequestTrust target \<Rightarrow> trust_target_validate target
     | _ \<Rightarrow> Inr ()))"

definition backend_response_new :: "string \<Rightarrow> 'v backend_response \<Rightarrow> 'v backend_response_message" where
  "backend_response_new rid response =
     \<lparr>bp_protocol = DEVENV_BACKEND_PROTOCOL_VERSION, bp_request_id = rid, bp_response = response\<rparr>"

definition backend_error_new :: "string \<Rightarrow> bool \<Rightarrow> string \<Rightarrow> backend_error" where
  "backend_error_new class retryable message =
     \<lparr>be_error_version = DEVENV_BACKEND_ERROR_VERSION, be_class = class, be_retryable = retryable, be_message = message,
      be_generation = None, be_provider_id = None, be_operation = None, be_request_id = None\<rparr>"

definition backend_error_validate :: "backend_error \<Rightarrow> ('j protocol_error, unit) result" where
  "backend_error_validate e =
     fail_if (be_error_version e \<noteq> DEVENV_BACKEND_ERROR_VERSION) (UnsupportedErrorVersion (be_error_version e))"

definition backend_response_validate :: "'v backend_response_message \<Rightarrow> ('j protocol_error, unit) result" where
  "backend_response_validate m =
     rbind (fail_if (bp_protocol m \<noteq> DEVENV_BACKEND_PROTOCOL_VERSION) (UnsupportedVersion (bp_protocol m))) (\<lambda>_.
     rbind (fail_if (\<not> request_id_ok (bp_request_id m)) (InvalidMessage MessageResponseId)) (\<lambda>_.
     case bp_response m of ResponseError e \<Rightarrow> backend_error_validate e | _ \<Rightarrow> Inr ()))"

section \<open>Messages on a stream\<close>

text \<open>The encoder \<open>to_vec\<close> and the decoder \<open>from_slice\<close> of JSON are parameters.\<close>

definition encode_json :: "('m \<Rightarrow> ('j, bytes) result) \<Rightarrow> 'm \<Rightarrow> ('j protocol_error, bytes) result" where
  "encode_json to_vec m =
     rbind (map_err ProtocolJson (to_vec m)) (\<lambda>payload.
     rbind (fail_if (MAX_BACKEND_FRAME_BYTES < length payload) (FrameTooLarge (length payload))) (\<lambda>_. Inr payload))"

fun dev_map_frame_error :: "'j frame_error \<Rightarrow> 'j protocol_error" where
  "dev_map_frame_error (Io e) = ProtocolIo e"
| "dev_map_frame_error (Json e) = ProtocolJson e"
| "dev_map_frame_error EmptyFrame = FrameTooLarge 0"
| "dev_map_frame_error (TooLarge len _) = FrameTooLarge len"
| "dev_map_frame_error (LengthOverflow len) = FrameTooLarge len"

definition ensure_frame_size :: "bytes \<Rightarrow> ('j protocol_error, unit) result" where
  "ensure_frame_size payload = fail_if (payload = [] \<or> MAX_BACKEND_FRAME_BYTES < length payload) (FrameTooLarge (length payload))"

text \<open>The two kinds of messages share this code with their own check.\<close>

definition message_encode ::
  "('m \<Rightarrow> ('j protocol_error, unit) result) \<Rightarrow> ('m \<Rightarrow> ('j, bytes) result) \<Rightarrow> 'm \<Rightarrow> ('j protocol_error, bytes) result" where
  "message_encode check to_vec m = rbind (check m) (\<lambda>_. encode_json to_vec m)"

definition message_decode ::
  "('m \<Rightarrow> ('j protocol_error, unit) result) \<Rightarrow> (bytes \<Rightarrow> ('j, 'm) result) \<Rightarrow> bytes \<Rightarrow> ('j protocol_error, 'm) result" where
  "message_decode check from_slice payload =
     rbind (ensure_frame_size payload) (\<lambda>_.
     rbind (map_err ProtocolJson (from_slice payload)) (\<lambda>m.
     rbind (check m) (\<lambda>_. Inr m)))"

definition message_write ::
  "('m \<Rightarrow> ('j protocol_error, unit) result) \<Rightarrow> ('m \<Rightarrow> ('j, bytes) result) \<Rightarrow> 'w writer_ops \<Rightarrow> 'w \<Rightarrow> 'm \<Rightarrow> ('j protocol_error, 'w) result" where
  "message_write check to_vec ops writer m =
     rbind (message_encode check to_vec m) (\<lambda>payload.
     map_err dev_map_frame_error (write_payload_frame ops writer payload MAX_BACKEND_FRAME_BYTES))"

definition message_read ::
  "('m \<Rightarrow> ('j protocol_error, unit) result) \<Rightarrow> (bytes \<Rightarrow> ('j, 'm) result) \<Rightarrow> bytes \<Rightarrow> ('j protocol_error, 'm \<times> bytes) result" where
  "message_read check from_slice reader =
     rbind (map_err dev_map_frame_error (read_payload_frame reader MAX_BACKEND_FRAME_BYTES)) (\<lambda>(payload, reader).
     rbind (message_decode check from_slice payload) (\<lambda>m. Inr (m, reader)))"

section \<open>Keys stay inside the workspace\<close>

lemma normalize_name_plain:
  assumes "list_all plain names" "\<And>v. Normal v \<in> set cs \<Longrightarrow> plain v"
  shows "list_all plain (fold normalize_name cs names)"
  using assms
proof (induction cs arbitrary: names)
  case (Cons c cs)
  have "list_all plain (normalize_name c names)"
    using Cons.prems by (cases c) (auto simp: list_all_iff dest: in_set_butlastD)
  with Cons show ?case by simp
qed simp

lemma normal_path_join: "''/'' @ join ''/'' names = normal_path names"
proof (cases "names = []")
  case False
  then have "concat (map ((#) (CHR ''/'')) names) = ''/'' @ join ''/'' names"
    by (induction names rule: induct_list012) auto
  with False show ?thesis by (simp add: normal_path_def)
qed (simp add: normal_path_def)

lemma join_plain_relative: "list_all plain names \<Longrightarrow> \<not> is_absolute (join ''/'' names)"
  by (cases names rule: remdups_adj.cases) (auto simp: is_absolute_def plain_def prefix_def append_eq_Cons_conv Cons_eq_append_conv)

lemma normalized_absolute:
  assumes "is_absolute (normalize_absolute_path path)"
  obtains names where "list_all plain names" "normalize_absolute_path path = normal_path names"
proof -
  have plain: "list_all plain (fold normalize_name (components path) [])"
    by (rule normalize_name_plain) (auto dest: component_plain)
  moreover from this assms have "is_absolute path"
    using join_plain_relative by (auto simp: normalize_absolute_path_def split: if_splits)
  ultimately show thesis
    using that[of "fold normalize_name (components path) []"] normal_path_join by (simp add: normalize_absolute_path_def)
qed

text \<open>
  A cached result belongs to a directory of its workspace. Whatever texts a request gives for the workspace and the
  working directory, with links to parent directories in any place, the key that is built from them has two
  paths in normal form, and the names of the first begin the names of the second; otherwise there is no key.
\<close>

theorem key_cwd_inside_workspace:
  assumes "key_build (key_with config_fingerprint runtime_inputs ambient fingerprints (key_new gen workspace cwd shell idy)) =
    (Inr key :: ('j key_error, materialization_key) result)"
  shows "\<exists>names rest. list_all plain (names @ rest) \<and> mk_workspace key = normal_path names \<and> mk_cwd key = normal_path (names @ rest)"
proof -
  from assms have key: "mk_workspace key = normalize_absolute_path workspace" "mk_cwd key = normalize_absolute_path cwd"
    "is_absolute (mk_workspace key)" "is_absolute (mk_cwd key)" "prefix (components (mk_workspace key)) (components (mk_cwd key))"
    by (auto simp: key_build_def key_validate_def rbind_Inr_iff fail_if_Inr_iff key_with_def key_new_def absolute_ok_def path_starts_with_def)
  obtain ws where ws: "list_all plain ws" "mk_workspace key = normal_path ws"
    using normalized_absolute key(1,3) by metis
  obtain ns where ns: "list_all plain ns" "mk_cwd key = normal_path ns"
    using normalized_absolute key(2,4) by metis
  from key(5) ws ns have "prefix (map Normal ws) (map Normal ns)" by (simp add: components_normal_path)
  then have "prefix ws ns" by (auto dest: map_mono_prefix[of _ _ "\<lambda>c. case c of Normal v \<Rightarrow> v | _ \<Rightarrow> []"] simp: comp_def)
  then obtain rest where "ns = ws @ rest" by (auto simp: prefix_def)
  with ws ns show ?thesis by blast
qed

theorem key_cwd_inside_workspace_witness:
  "\<exists>key. key_build (key_with [] [] [] [] (key_new 1 ''/w/./x/..'' ''/w/a/../b'' ''bash'' identity_root)) = (Inr key :: (unit key_error, materialization_key) result) \<and>
     mk_workspace key = ''/w'' \<and> mk_cwd key = ''/w/b'' \<and>
     (\<exists>names rest. list_all plain (names @ rest) \<and> mk_workspace key = normal_path names \<and> mk_cwd key = normal_path (names @ rest))"
proof -
  have "case key_build (key_with [] [] [] [] (key_new 1 ''/w/./x/..'' ''/w/a/../b'' ''bash'' identity_root)) of
      Inl (_ :: unit key_error) \<Rightarrow> False | Inr key \<Rightarrow> mk_workspace key = ''/w'' \<and> mk_cwd key = ''/w/b''" by code_simp
  then obtain key where "key_build (key_with [] [] [] [] (key_new 1 ''/w/./x/..'' ''/w/a/../b'' ''bash'' identity_root)) =
      (Inr key :: (unit key_error, materialization_key) result)" "mk_workspace key = ''/w''" "mk_cwd key = ''/w/b''"
    by (auto split: sum.splits)
  with key_cwd_inside_workspace[OF this(1)] show ?thesis by blast
qed

section \<open>Messages survive the stream\<close>

definition append_writer :: "bytes writer_ops" where
  "append_writer = \<lparr>write_all = \<lambda>w bs. Inr (w @ bs), flush = Inr\<rparr>"

lemma message_write_read:
  fixes to_vec :: "'m \<Rightarrow> ('j, bytes) result" and from_slice :: "bytes \<Rightarrow> ('j, 'm) result"
  assumes "\<And>payload. to_vec m = Inr payload \<Longrightarrow> from_slice payload = Inr m"
    "message_write check to_vec append_writer w m = Inr w'"
  shows "\<exists>fr. w' = w @ fr \<and> message_read check from_slice (fr @ rest) = Inr (m, rest)"
proof -
  from assms(2) obtain payload fr where
    p: "check m = Inr ()" "to_vec m = Inr payload" "length payload \<le> MAX_BACKEND_FRAME_BYTES"
      "encode_payload_frame payload MAX_BACKEND_FRAME_BYTES = (Inr fr :: ('j frame_error, bytes) result)" "w' = w @ fr"
    by (auto simp: message_write_def message_encode_def encode_json_def write_payload_frame_def append_writer_def
        rbind_Inr_iff map_err_Inr_iff fail_if_Inr_iff)
  from p(4) have "payload \<noteq> []" by (simp add: encode_payload_Inr_iff)
  moreover have "read_payload (fr @ rest) MAX_BACKEND_FRAME_BYTES = (Inr (payload, rest) :: ('j frame_error, bytes \<times> bytes) result)"
    by (rule read_encoded_payload[OF p(4)])
  ultimately have "message_read check from_slice (fr @ rest) = Inr (m, rest)"
    using p(1-3) assms(1)[OF p(2)]
    by (simp add: message_read_def read_payload_frame_def message_decode_def ensure_frame_size_def fail_if_def)
  with p(5) show ?thesis by blast
qed

text \<open>
  Messages arrive as they were sent. When JSON decodes what it encodes, a request and an answer that were written
  one after the other to a stream are read back, each by its own reader, and what follows on the stream is left
  there; in particular every message that can be written passes the checks of the reader and its limit.
\<close>

theorem backend_messages_roundtrip:
  fixes to_vec :: "backend_request_message \<Rightarrow> ('j, bytes) result" and from_slice :: "bytes \<Rightarrow> ('j, backend_request_message) result"
    and to_vec' :: "'v backend_response_message \<Rightarrow> ('j, bytes) result" and from_slice' :: "bytes \<Rightarrow> ('j, 'v backend_response_message) result"
  assumes "\<And>payload. to_vec request = Inr payload \<Longrightarrow> from_slice payload = Inr request"
    and "\<And>payload. to_vec' response = Inr payload \<Longrightarrow> from_slice' payload = Inr response"
    and "message_write backend_request_validate to_vec append_writer [] request = Inr w"
    and "message_write backend_response_validate to_vec' append_writer w response = Inr w'"
  shows "\<exists>s. message_read backend_request_validate from_slice (w' @ rest) = Inr (request, s) \<and>
    message_read backend_response_validate from_slice' s = Inr (response, rest)"
proof -
  obtain fr2 where w': "w' = w @ fr2" "message_read backend_response_validate from_slice' (fr2 @ rest) = Inr (response, rest)"
    using message_write_read[where from_slice = from_slice' and rest = rest, OF _ assms(4)] assms(2) by blast
  from message_write_read[where from_slice = from_slice and rest = "fr2 @ rest", OF _ assms(3)] assms(1) w' show ?thesis by auto
qed


definition sample_codec_hello :: "backend_request_message \<Rightarrow> (unit, bytes) result" where
  "sample_codec_hello m = (if m = backend_request_new ''r'' RequestHello then Inr [1] else Inl ())"

lemmas small_message = message_write_def message_encode_def encode_json_def write_payload_frame_def encode_payload_frame_def
  check_length_def append_writer_def to_be_bytes_def MAX_BACKEND_FRAME_BYTES_def request_id_ok_def fail_if_def
  is_ascii_alphanumeric_def is_ascii_lowercase_def

theorem backend_messages_roundtrip_witness:
  "\<exists>w w' s. message_write backend_request_validate sample_codec_hello append_writer [] (backend_request_new ''r'' RequestHello) = Inr w \<and>
     message_write backend_response_validate (\<lambda>_. Inr [2] :: (unit, bytes) result) append_writer w
       (backend_response_new ''r'' ResponseStopped :: unit backend_response_message) = Inr w' \<and>
     message_read backend_request_validate (\<lambda>_. Inr (backend_request_new ''r'' RequestHello) :: (unit, _) result) (w' @ [9]) =
       Inr (backend_request_new ''r'' RequestHello, s) \<and>
     message_read backend_response_validate (\<lambda>_. Inr (backend_response_new ''r'' ResponseStopped) :: (unit, unit backend_response_message) result) s =
       Inr (backend_response_new ''r'' ResponseStopped, [9])"
proof -
  have w: "message_write backend_request_validate sample_codec_hello append_writer [] (backend_request_new ''r'' RequestHello) = Inr [0, 0, 0, 1, 1]"
    by (simp add: small_message backend_request_validate_def sample_codec_hello_def backend_request_new_def)
  have w': "message_write backend_response_validate (\<lambda>_. Inr [2] :: (unit, bytes) result) append_writer [0, 0, 0, 1, 1]
      (backend_response_new ''r'' ResponseStopped :: unit backend_response_message) = Inr [0, 0, 0, 1, 1, 0, 0, 0, 1, 2]"
    by (simp add: small_message backend_response_validate_def backend_response_new_def)
  have "\<exists>s. message_read backend_request_validate (\<lambda>_. Inr (backend_request_new ''r'' RequestHello) :: (unit, _) result) ([0, 0, 0, 1, 1, 0, 0, 0, 1, 2] @ [9]) =
       Inr (backend_request_new ''r'' RequestHello, s) \<and>
     message_read backend_response_validate (\<lambda>_. Inr (backend_response_new ''r'' ResponseStopped) :: (unit, unit backend_response_message) result) s =
       Inr (backend_response_new ''r'' ResponseStopped, [9])"
    by (rule backend_messages_roundtrip[OF _ _ w w']) simp_all
  with w w' show ?thesis by blast
qed

end
