(* ===== verification/Dev_Provider.thy ===== *)
theory Dev_Provider
  imports Dev_Request
begin

text \<open>
  Providers at run time (\<open>src/crates/dev-env-provider/src/{context,condition,template,detect,runner}.rs\<close>):
  the facts a provider sees, the evaluation of conditions, the expansion of argument templates,
  the detection of a provider by files of the workspace, and the run of its steps. Commands run in
  a world that is passed along: the executor of commands, the search for executables and the
  fingerprints are parameters.
\<close>

section \<open>The context of a provider\<close>

record provider_context =
  px_workspace :: string
  px_cwd :: string
  px_shell :: string
  px_environment :: "(string, string) btree_map"
  px_config :: value_tree
  px_workspace_writable :: bool
  px_workspace_config_present :: bool
  px_user_id :: u32
  px_config_fingerprint :: "u8 list"
  px_provider_enabled :: bool

fun tree_at :: "string list \<Rightarrow> value_tree \<Rightarrow> value_tree option" where
  "tree_at [] tree = Some tree"
| "tree_at (part # parts) tree =
     (case tree of VMap vs \<Rightarrow> Option.bind (btree_get part vs) (tree_at parts) | _ \<Rightarrow> None)"

definition config_value :: "provider_context \<Rightarrow> string \<Rightarrow> value_tree option" where
  "config_value px path = tree_at (split_char (CHR ''.'') path) (px_config px)"

definition namespace_value :: "provider_context \<Rightarrow> string \<Rightarrow> string \<Rightarrow> value_tree option" where
  "namespace_value px namespace path =
     (case config_value px (namespace @ ''.'' @ path) of
        Some v \<Rightarrow> Some v
      | None \<Rightarrow> if namespace = ''features'' then config_value px path else None)"

definition template_value :: "provider_context \<Rightarrow> string \<Rightarrow> string option" where
  "template_value px name =
     (if name = ''workspace'' then Some (px_workspace px)
      else if name = ''cwd'' then Some (px_cwd px)
      else if name = ''shell'' then Some (px_shell px)
      else if name = ''user-id'' then Some (u32_to_string (px_user_id px))
      else if name = ''workspace-config-present'' then Some (bool_to_string (px_workspace_config_present px))
      else if name = ''workspace-writable'' then Some (bool_to_string (px_workspace_writable px))
      else None)"

section \<open>Conditions\<close>

datatype runtime_value = RtString string | RtBoolean bool | RtInteger i64 | RtOther

fun value_from_tree :: "value_tree \<Rightarrow> runtime_value" where
  "value_from_tree (VBool b) = RtBoolean b"
| "value_from_tree (VInteger n) = RtInteger n"
| "value_from_tree (VString s) = RtString s"
| "value_from_tree _ = RtOther"

fun is_truthy :: "runtime_value \<Rightarrow> bool" where
  "is_truthy (RtBoolean b) = b"
| "is_truthy (RtString s) = (s \<noteq> [])"
| "is_truthy (RtInteger n) = (n \<noteq> 0)"
| "is_truthy RtOther = False"

text \<open>\<open>OS\<close> and \<open>ARCH\<close> are constants of the build, here parameters.\<close>

record platform =
  pf_os :: string
  pf_arch :: string

definition resolve_reference :: "platform \<Rightarrow> provider_context \<Rightarrow> string \<Rightarrow> runtime_value option" where
  "resolve_reference pf px reference =
     (case split_once (CHR ''.'') reference of
        None \<Rightarrow> None
      | Some (namespace, path) \<Rightarrow>
          if namespace = ''provider'' \<and> path = ''enabled'' then Some (RtBoolean (px_provider_enabled px))
          else if namespace = ''workspace'' then
            (if path = ''config-present'' then Some (RtBoolean (px_workspace_config_present px))
             else if path = ''writable'' then Some (RtBoolean (px_workspace_writable px))
             else if path = ''root'' then Some (RtString (px_workspace px))
             else None)
          else if namespace = ''context'' then
            (if path = ''cwd'' then Some (RtString (px_cwd px))
             else if path = ''os'' then Some (RtString (pf_os pf))
             else if path = ''arch'' then Some (RtString (pf_arch pf))
             else None)
          else if namespace \<in> {''input'', ''env''} then map_option RtString (btree_get path (px_environment px))
          else if namespace \<in> {''config'', ''features''} then map_option value_from_tree (namespace_value px namespace path)
          else None)"

fun resolve_value :: "platform \<Rightarrow> provider_context \<Rightarrow> dev_condition_value \<Rightarrow> runtime_value option" where
  "resolve_value pf px (DevBoolean b) = Some (RtBoolean b)"
| "resolve_value pf px (DevLiteral s) = Some (RtString s)"
| "resolve_value pf px (DevReference r) = resolve_reference pf px r"

fun evaluate :: "platform \<Rightarrow> provider_context \<Rightarrow> dev_condition \<Rightarrow> bool" where
  "evaluate pf px DevAlways = True"
| "evaluate pf px (DevBool b) = b"
| "evaluate pf px (DevRef r) = (case resolve_reference pf px r of Some v \<Rightarrow> is_truthy v | None \<Rightarrow> False)"
| "evaluate pf px (DevEqual l r) =
     (case (resolve_value pf px l, resolve_value pf px r) of (Some a, Some b) \<Rightarrow> a = b | _ \<Rightarrow> False)"
| "evaluate pf px (DevNotEqual l r) =
     (case (resolve_value pf px l, resolve_value pf px r) of (Some a, Some b) \<Rightarrow> a \<noteq> b | _ \<Rightarrow> False)"
| "evaluate pf px (DevAnd cs) = list_all (evaluate pf px) cs"
| "evaluate pf px (DevOr cs) = list_ex (evaluate pf px) cs"
| "evaluate pf px (DevNot c) = (\<not> evaluate pf px c)"

section \<open>Argument templates\<close>

datatype template_error =
    EmptyPlaceholder | UnterminatedPlaceholder string | UnknownPlaceholder string string | TemplateNul

function expand_loop ::
  "string \<Rightarrow> string \<Rightarrow> provider_context \<Rightarrow> string \<Rightarrow> string \<Rightarrow> (template_error, string) result" where
  "expand_loop argument provider px out rest =
     (case str_find ''{'' rest of
        None \<Rightarrow> Inr (out @ rest)
      | Some start \<Rightarrow>
          (let after_start = drop (start + 1) rest in
           case str_find ''}'' after_start of
             None \<Rightarrow> Inl (UnterminatedPlaceholder argument)
           | Some end_ \<Rightarrow>
               (let name = take end_ after_start in
                if name = [] then Inl EmptyPlaceholder
                else case (if name = ''provider'' then Some provider else template_value px name) of
                  None \<Rightarrow> Inl (UnknownPlaceholder argument name)
                | Some v \<Rightarrow> expand_loop argument provider px (out @ take start rest @ v) (drop (end_ + 1) after_start))))"
  by pat_completeness auto
termination
  by (relation "measure (\<lambda>(argument, provider, px, out, rest). length rest)") (auto dest: str_find_Some(1))

declare expand_loop.simps [simp del]

definition expand_argument :: "string \<Rightarrow> string \<Rightarrow> provider_context \<Rightarrow> (template_error, string) result" where
  "expand_argument argument provider px =
     (if has_char argument (CHR 0x00) then Inl TemplateNul else expand_loop argument provider px [] argument)"

definition expand_argv :: "string list \<Rightarrow> string \<Rightarrow> provider_context \<Rightarrow> (template_error, string list) result" where
  "expand_argv arguments provider px = collect_results (map (\<lambda>argument. expand_argument argument provider px) arguments)"

section \<open>Globs\<close>

text \<open>\<open>str::chars\<close>: a character is its lead byte with the continuation bytes that follow.\<close>

definition continuation_byte :: "char \<Rightarrow> bool" where
  "continuation_byte c \<longleftrightarrow> 128 \<le> (of_char c :: nat) \<and> (of_char c :: nat) < 192"

function chars :: "string \<Rightarrow> string list" where
  "chars [] = []"
| "chars (c # cs) = (c # takeWhile continuation_byte cs) # chars (dropWhile continuation_byte cs)"
  by pat_completeness auto
termination
  by (relation "measure length") (auto simp: le_imp_less_Suc length_dropWhile_le)

text \<open>\<open>component_matches\<close> fills a table of answers; a row is a position in the pattern, a column one in
  the value. Positions beyond both ends are never asked for.\<close>

type_synonym match_table = "bool option list list"

function glob_visit :: "string list \<Rightarrow> string list \<Rightarrow> nat \<Rightarrow> nat \<Rightarrow> match_table \<Rightarrow> bool \<times> match_table" where
  "glob_visit pattern v i j table =
     (if length pattern < i \<or> length v < j then (False, table)
      else case table ! i ! j of
        Some answer \<Rightarrow> (answer, table)
      | None \<Rightarrow>
          (let (answer, table) =
             (if i = length pattern then (j = length v, table)
              else if pattern ! i = ''*'' then
                (let (skip, table) = glob_visit pattern v (i + 1) j table in
                 if skip then (True, table)
                 else if j < length v then glob_visit pattern v i (j + 1) table else (False, table))
              else if j < length v \<and> (pattern ! i = ''?'' \<or> pattern ! i = v ! j) then glob_visit pattern v (i + 1) (j + 1) table
              else (False, table)) in
           (answer, table[i := (table ! i)[j := Some answer]])))"
  by pat_completeness auto
termination
  by (relation "measure (\<lambda>(pattern, v, i, j, table). (Suc (length pattern) - i) + (Suc (length v) - j))") auto

declare glob_visit.simps [simp del]

definition component_matches :: "string \<Rightarrow> string \<Rightarrow> bool" where
  "component_matches pattern v =
     (let pattern = chars pattern; v = chars v in
      fst (glob_visit pattern v 0 0 (replicate (length pattern + 1) (replicate (length v + 1) None))))"

fun glob_components :: "string list \<Rightarrow> string list \<Rightarrow> bool" where
  "glob_components [] [] = True"
| "glob_components [] (_ # _) = False"
| "glob_components (component # pattern) [] = (component = ''**'' \<and> glob_components pattern [])"
| "glob_components (component # pattern) (path_component # rest) =
     (if component = ''**'' then glob_components pattern (path_component # rest) \<or> glob_components (component # pattern) rest
      else component_matches component path_component \<and> glob_components pattern rest)"

definition glob_matches :: "string \<Rightarrow> string \<Rightarrow> bool" where
  "glob_matches pattern path = glob_components (split_char (CHR ''/'') pattern) (split_char (CHR ''/'') path)"

definition has_glob_magic :: "string \<Rightarrow> bool" where
  "has_glob_magic pattern \<longleftrightarrow> has_char pattern (CHR ''*'') \<or> has_char pattern (CHR ''?'')"

section \<open>Detection\<close>

datatype ws_node = WsFile | WsOther | WsUnreadable | WsDirUnreadable | WsDir "(string \<times> ws_node) list"

datatype detection_error = ReadWorkspace string | LocateExecutable string

text \<open>The files below a directory, as the lists of names that lead to them.\<close>

fun walk_node :: "string \<Rightarrow> string list \<Rightarrow> ws_node \<Rightarrow> (detection_error, string list list) result"
  and walk_entries :: "string \<Rightarrow> string list \<Rightarrow> (string \<times> ws_node) list \<Rightarrow> (detection_error, string list list) result" where
  "walk_node path names WsFile = Inr [names]"
| "walk_node path names WsOther = Inr []"
| "walk_node path names WsUnreadable = Inl (ReadWorkspace path)"
| "walk_node path names WsDirUnreadable = Inl (ReadWorkspace path)"
| "walk_node path names (WsDir entries) = walk_entries path names entries"
| "walk_entries path names [] = Inr []"
| "walk_entries path names ((name, node) # entries) =
     rbind (walk_node (push_component path name) (names @ [name]) node) (\<lambda>found.
     rbind (walk_entries path names entries) (\<lambda>more_found. Inr (found @ more_found)))"

text \<open>What the file system says of the workspace: its tree, and whether a literal pattern names a file (through links).\<close>

record workspace_view =
  wv_exists :: bool
  wv_is_file :: "string \<Rightarrow> bool"
  wv_root :: ws_node

definition path_key :: "string \<Rightarrow> string list" where
  "path_key path = filter (\<lambda>part. part \<noteq> [] \<and> part \<noteq> ''.'') (split_char (CHR ''/'') path)"

fun dedup_paths :: "string list \<Rightarrow> string list" where
  "dedup_paths (a # b # rest) = (if path_key a = path_key b then dedup_paths (a # rest) else a # dedup_paths (b # rest))"
| "dedup_paths paths = paths"

definition detect_files :: "workspace_view \<Rightarrow> string \<Rightarrow> string list \<Rightarrow> (detection_error, string list) result" where
  "detect_files view workspace patterns =
     (if patterns = [] \<or> \<not> wv_exists view then Inr []
      else
        let candidates = map (push_component workspace) (filter (\<lambda>pattern. \<not> has_glob_magic pattern \<and> wv_is_file view pattern) patterns) in
        if length candidates = length patterns then Inr (dedup_paths (sort_key path_key candidates))
        else
          rbind (walk_node workspace [] (wv_root view)) (\<lambda>found.
          Inr (map (foldl push_component workspace)
            (filter (\<lambda>names. list_ex (\<lambda>pattern. glob_matches pattern (join ''/'' names)) patterns) (remdups_adj (sort found))))))"

record detection_result =
  dr_executable :: "string option"
  dr_matched_files :: "string list"
  dr_applicable :: bool

definition detect ::
  "workspace_view \<Rightarrow> (string \<Rightarrow> (string, string) btree_map \<Rightarrow> (unit, string option) result) \<Rightarrow> provider_config \<Rightarrow> string \<Rightarrow>
   (string, string) btree_map \<Rightarrow> (detection_error, detection_result) result" where
  "detect view locate config workspace environment =
     rbind (detect_files view workspace (pc_detect_files config)) (\<lambda>matched_files.
     if pc_detect_files config \<noteq> [] \<and> matched_files = [] then
       Inr \<lparr>dr_executable = None, dr_matched_files = matched_files, dr_applicable = False\<rparr>
     else
       rbind (map_err (\<lambda>_. LocateExecutable (pc_executable config)) (locate (pc_executable config) environment)) (\<lambda>executable.
       Inr \<lparr>dr_executable = executable, dr_matched_files = matched_files, dr_applicable = executable \<noteq> None\<rparr>))"

section \<open>Running a provider\<close>

record command_request =
  cq_program :: string
  cq_args :: "string list"
  cq_cwd :: string
  cq_environment :: "(string, string) btree_map"
  cq_timeout_ms :: nat
  cq_max_stdout :: nat
  cq_max_stderr :: nat

record command_output =
  co_status :: "int option"
  co_timed_out :: bool
  co_stdout :: "u8 list"
  co_stderr :: "u8 list"

definition command_succeeded :: "command_output \<Rightarrow> bool" where
  "command_succeeded out \<longleftrightarrow> co_status out = Some 0 \<and> \<not> co_timed_out out"

text \<open>
  The parameters of a run: the executor, which also changes the world, the search for executables, the
  conversion of bytes to text, the JSON reader and the fingerprints.
\<close>

record ('w, 'c, 'j, 'f) runner =
  rn_execute :: "command_request \<Rightarrow> identity option \<Rightarrow> 'w \<Rightarrow> ('c, command_output) result \<times> 'w"
  rn_locate :: "string \<Rightarrow> (string, string) btree_map \<Rightarrow> (unit, string option) result"
  rn_view :: workspace_view
  rn_platform :: platform
  rn_from_utf8 :: "u8 list \<Rightarrow> string option"
  rn_from_json :: "string \<Rightarrow> ('j, json_document) result"
  rn_config_fingerprint :: "provider_config \<Rightarrow> ('f, u8 list) result"
  rn_workspace_fingerprint :: "string \<Rightarrow> string list \<Rightarrow> ('f, u8 list) result"
  rn_command_timeout_ms :: nat
  rn_max_stdout :: nat
  rn_max_stderr :: nat

datatype ('c, 'j, 'f) provider_runtime_error =
    RtModel dev_error
  | RtDetection string detection_error
  | RtMissingExecutable string string missing_provider_policy
  | RtTemplate string string template_error
  | RtCommand string string 'c
  | RtCommandFailed string string command_output
  | RtOutputUtf8 string string
  | RtOutputRejected string string "'j environment_parse_error"
  | RtFingerprint string 'f

datatype provider_diagnostic =
    DiagMissingExecutable string string missing_provider_policy
  | DiagNotApplicable string
  | DiagPrepareFailed string nat failure_policy "int option" bool "u8 list"
  | DiagShellenvFailed string failure_policy "int option" bool "u8 list"
  | DiagShellenvRejected string failure_policy

record provider_run_result =
  rr_provider :: string
  rr_sensitivity :: sensitivity
  rr_detection :: detection_result
  rr_prepared_steps :: nat
  rr_environment :: environment_delta
  rr_diagnostics :: "provider_diagnostic list"
  rr_receipt :: "provider_receipt option"

definition failure_parts :: "('c, 'j, 'f) provider_runtime_error \<Rightarrow> int option \<times> bool \<times> u8 list" where
  "failure_parts e = (case e of RtCommandFailed _ _ out \<Rightarrow> (co_status out, co_timed_out out, co_stderr out) | _ \<Rightarrow> (None, False, []))"

definition prepare_diagnostic :: "string \<Rightarrow> nat \<Rightarrow> failure_policy \<Rightarrow> ('c, 'j, 'f) provider_runtime_error \<Rightarrow> provider_diagnostic" where
  "prepare_diagnostic provider step policy e =
     (let (status, timed_out, stderr) = failure_parts e in DiagPrepareFailed provider step policy status timed_out stderr)"

definition shellenv_diagnostic :: "string \<Rightarrow> failure_policy \<Rightarrow> ('c, 'j, 'f) provider_runtime_error \<Rightarrow> provider_diagnostic" where
  "shellenv_diagnostic provider policy e =
     (let (status, timed_out, stderr) = failure_parts e in DiagShellenvFailed provider policy status timed_out stderr)"

definition login_variables :: "identity option \<Rightarrow> (string, string) btree_map \<Rightarrow> (string, string) btree_map" where
  "login_variables idy env =
     (case idy of
        None \<Rightarrow> env
      | Some i \<Rightarrow> btree_insert ''LOGNAME'' (iy_user i) (btree_insert ''USER'' (iy_user i) (btree_insert ''HOME'' (iy_home i) env)))"

text \<open>
  Paths are strings here: the code's \<open>display\<close> and \<open>to_string_lossy\<close> are the identity on a path that is UTF-8, and the model has
  no others.
\<close>

definition runner_request ::
  "('w, 'c, 'j, 'f) runner \<Rightarrow> string \<Rightarrow> string list \<Rightarrow> provider_context \<Rightarrow> u64 option \<Rightarrow> identity option \<Rightarrow> command_request" where
  "runner_request rn executable args px timeout_ms idy =
     \<lparr>cq_program = executable, cq_args = args, cq_cwd = px_cwd px, cq_environment = login_variables idy (px_environment px),
      cq_timeout_ms = (case timeout_ms of None \<Rightarrow> rn_command_timeout_ms rn | Some ms \<Rightarrow> unat ms),
      cq_max_stdout = rn_max_stdout rn, cq_max_stderr = rn_max_stderr rn\<rparr>"

definition condition_matches :: "platform \<Rightarrow> prepare_step \<Rightarrow> provider_context \<Rightarrow> (('c, 'j, 'f) provider_runtime_error, bool) result" where
  "condition_matches pf step px =
     (case ps_when step of
        None \<Rightarrow> Inr True
      | Some condition \<Rightarrow>
          (case dev_condition_parse condition of
             Inr c \<Rightarrow> Inr (evaluate pf px c)
           | Inl rsn \<Rightarrow> Inl (RtModel (DevInvalidCondition ''provider prepare condition'' rsn))))"

fun runnable_steps ::
  "platform \<Rightarrow> provider_context \<Rightarrow> (nat \<times> prepare_step) list \<Rightarrow> (('c, 'j, 'f) provider_runtime_error, (nat \<times> prepare_step) list) result" where
  "runnable_steps pf px [] = Inr []"
| "runnable_steps pf px ((index, step) # steps) =
     rbind (condition_matches pf step px) (\<lambda>run.
     rbind (runnable_steps pf px steps) (\<lambda>later. Inr (if run then (index, step) # later else later)))"

definition expand_args :: "string \<Rightarrow> string \<Rightarrow> string list \<Rightarrow> provider_context \<Rightarrow> (('c, 'j, 'f) provider_runtime_error, string list) result" where
  "expand_args provider operation args px = map_err (RtTemplate provider operation) (expand_argv args provider px)"

text \<open>A command and its failure as a runtime error.\<close>

definition run_command ::
  "('w, 'c, 'j, 'f) runner \<Rightarrow> string \<Rightarrow> string \<Rightarrow> string \<Rightarrow> string list \<Rightarrow> provider_context \<Rightarrow> u64 option \<Rightarrow> identity option \<Rightarrow> 'w \<Rightarrow>
   (('c, 'j, 'f) provider_runtime_error, command_output) result \<times> 'w" where
  "run_command rn provider operation executable args px timeout_ms idy w =
     (let (r, w') = rn_execute rn (runner_request rn executable args px timeout_ms idy) idy w in
      (case r of
         Inl e \<Rightarrow> Inl (RtCommand provider operation e)
       | Inr out \<Rightarrow> if command_succeeded out then Inr out else Inl (RtCommandFailed provider operation out), w'))"

fun prepare_steps ::
  "('w, 'c, 'j, 'f) runner \<Rightarrow> string \<Rightarrow> string \<Rightarrow> provider_context \<Rightarrow> identity option \<Rightarrow> (nat \<times> prepare_step) list \<Rightarrow>
   nat \<Rightarrow> provider_diagnostic list \<Rightarrow> 'w \<Rightarrow> (('c, 'j, 'f) provider_runtime_error, nat \<times> provider_diagnostic list) result \<times> 'w" where
  "prepare_steps rn provider executable px idy [] prepared diagnostics w = (Inr (prepared, diagnostics), w)"
| "prepare_steps rn provider executable px idy ((index, step) # steps) prepared diagnostics w =
     (let operation = ''prepare['' @ to_decimal index @ '']'' in
      case expand_args provider operation (ps_argv step) px of
        Inl e \<Rightarrow> (Inl e, w)
      | Inr args \<Rightarrow>
          (let (r, w') = run_command rn provider operation executable args px (ps_timeout_ms step) idy w in
           case r of
             Inr _ \<Rightarrow> prepare_steps rn provider executable px idy steps (Suc prepared) diagnostics w'
           | Inl e \<Rightarrow>
               if ps_failure step = FailError then (Inl e, w')
               else prepare_steps rn provider executable px idy steps prepared
                 (diagnostics @ [prepare_diagnostic provider index (ps_failure step) e]) w'))"

definition read_shellenv ::
  "('w, 'c, 'j, 'f) runner \<Rightarrow> string \<Rightarrow> shell_env_config \<Rightarrow> command_output \<Rightarrow> (('c, 'j, 'f) provider_runtime_error, shell_env_entry list) result" where
  "read_shellenv rn provider shellenv out =
     (case rn_from_utf8 rn (co_stdout out) of
        None \<Rightarrow> Inl (RtOutputUtf8 provider ''shellenv'')
      | Some content \<Rightarrow> map_err (RtOutputRejected provider ''shellenv'') (parse_output (rn_from_json rn) (se_format shellenv) content))"

definition run_shellenv ::
  "('w, 'c, 'j, 'f) runner \<Rightarrow> string \<Rightarrow> string \<Rightarrow> provider_context \<Rightarrow> identity option \<Rightarrow> shell_env_config option \<Rightarrow>
   provider_diagnostic list \<Rightarrow> 'w \<Rightarrow> (('c, 'j, 'f) provider_runtime_error, environment_delta \<times> provider_diagnostic list) result \<times> 'w" where
  "run_shellenv rn provider executable px idy config diagnostics w =
     (case config of
        None \<Rightarrow> (Inr (delta_empty, diagnostics), w)
      | Some shellenv \<Rightarrow>
          (case expand_args provider ''shellenv'' (se_argv shellenv) px of
             Inl e \<Rightarrow> (Inl e, w)
           | Inr args \<Rightarrow>
               (let (r, w') = run_command rn provider ''shellenv'' executable args px (se_timeout_ms shellenv) idy w in
                (case r of
                   Inr out \<Rightarrow>
                     (case read_shellenv rn provider shellenv out of
                        Inr entries \<Rightarrow> Inr (apply_entries entries delta_empty, diagnostics)
                      | Inl e \<Rightarrow>
                          if se_failure shellenv = FailError then Inl e
                          else Inr (delta_empty, diagnostics @ [DiagShellenvRejected provider (se_failure shellenv)]))
                 | Inl e \<Rightarrow>
                     if se_failure shellenv = FailError then Inl e
                     else Inr (delta_empty, diagnostics @ [shellenv_diagnostic provider (se_failure shellenv) e]), w'))))"

definition run_receipt ::
  "('w, 'c, 'j, 'f) runner \<Rightarrow> string \<Rightarrow> provider_config \<Rightarrow> provider_context \<Rightarrow> string list \<Rightarrow> nat \<Rightarrow>
   (('c, 'j, 'f) provider_runtime_error, provider_receipt option) result" where
  "run_receipt rn provider config px matched prepared =
     (if prepared = 0 then Inr None
      else
        rbind (if px_config_fingerprint px = replicate 32 0 then map_err (RtFingerprint provider) (rn_config_fingerprint rn config)
               else Inr (px_config_fingerprint px)) (\<lambda>config_fingerprint.
        rbind (map_err (RtFingerprint provider) (rn_workspace_fingerprint rn (px_workspace px) matched)) (\<lambda>workspace_fingerprint.
        Inr (Some \<lparr>pr_provider = provider, pr_config_fingerprint = config_fingerprint, pr_workspace_fingerprint = workspace_fingerprint,
          pr_version = None, pr_completed_at = None\<rparr>))))"

definition not_applicable ::
  "string \<Rightarrow> provider_config \<Rightarrow> detection_result \<Rightarrow> (('c, 'j, 'f) provider_runtime_error, provider_run_result) result" where
  "not_applicable provider config detection =
     rbind (if pc_detect_files config \<noteq> [] \<and> dr_matched_files detection = [] then Inr [DiagNotApplicable provider]
            else if pc_missing config = MissingError then Inl (RtMissingExecutable provider (pc_executable config) (pc_missing config))
            else Inr [DiagMissingExecutable provider (pc_executable config) (pc_missing config)]) (\<lambda>diagnostics.
     Inr \<lparr>rr_provider = provider, rr_sensitivity = pc_sensitivity config, rr_detection = detection, rr_prepared_steps = 0,
       rr_environment = delta_empty, rr_diagnostics = diagnostics, rr_receipt = None\<rparr>)"

text \<open>The rest of a run, once the executable is known.\<close>

definition run_applicable ::
  "('w, 'c, 'j, 'f) runner \<Rightarrow> string \<Rightarrow> provider_config \<Rightarrow> provider_context \<Rightarrow> identity option \<Rightarrow> detection_result \<Rightarrow> string \<Rightarrow> 'w \<Rightarrow>
   (('c, 'j, 'f) provider_runtime_error, provider_run_result) result \<times> 'w" where
  "run_applicable rn provider config px idy detection executable w =
     (let px' = px\<lparr>px_workspace_config_present := px_workspace_config_present px \<or> dr_matched_files detection \<noteq> []\<rparr> in
      case runnable_steps (rn_platform rn) px' (enumerate 0 (pc_prepare config)) of
        Inl e \<Rightarrow> (Inl e, w)
      | Inr steps \<Rightarrow>
          (case prepare_steps rn provider executable px' idy steps 0 [] w of
             (Inl e, w1) \<Rightarrow> (Inl e, w1)
           | (Inr (prepared, diagnostics), w1) \<Rightarrow>
               (case run_shellenv rn provider executable px' idy (pc_shellenv config) diagnostics w1 of
                  (Inl e, w2) \<Rightarrow> (Inl e, w2)
                | (Inr (delta, diagnostics), w2) \<Rightarrow>
                    (rbind (run_receipt rn provider config px (dr_matched_files detection) prepared) (\<lambda>receipt.
                     Inr \<lparr>rr_provider = provider, rr_sensitivity = pc_sensitivity config, rr_detection = detection,
                       rr_prepared_steps = prepared, rr_environment = delta, rr_diagnostics = diagnostics, rr_receipt = receipt\<rparr>), w2))))"

definition run_with_identity ::
  "('w, 'c, 'j, 'f) runner \<Rightarrow> string \<Rightarrow> provider_config \<Rightarrow> provider_context \<Rightarrow> identity option \<Rightarrow> 'w \<Rightarrow>
   (('c, 'j, 'f) provider_runtime_error, provider_run_result) result \<times> 'w" where
  "run_with_identity rn provider config px idy w =
     (case rbind (map_err RtModel (provider_config_validate config provider)) (\<lambda>_.
           map_err (RtDetection provider) (detect (rn_view rn) (rn_locate rn) config (px_workspace px) (px_environment px))) of
        Inl e \<Rightarrow> (Inl e, w)
      | Inr detection \<Rightarrow>
          (case (if dr_applicable detection then dr_executable detection else None) of
             None \<Rightarrow> (not_applicable provider config detection, w)
           | Some executable \<Rightarrow> run_applicable rn provider config px idy detection executable w))"

section \<open>Globs and their meaning\<close>

text \<open>A sequence matches a pattern when it can be cut into one piece per item of the pattern.\<close>

definition cut_match :: "('p \<Rightarrow> 'a list \<Rightarrow> bool) \<Rightarrow> 'p list \<Rightarrow> 'a list \<Rightarrow> bool" where
  "cut_match ok ps xs \<longleftrightarrow> (\<exists>pieces. list_all2 ok ps pieces \<and> concat pieces = xs)"

definition char_piece :: "string \<Rightarrow> string list \<Rightarrow> bool" where
  "char_piece p piece \<longleftrightarrow> (if p = ''*'' then True else if p = ''?'' then length piece = 1 else piece = [p])"

definition component_piece :: "string \<Rightarrow> string list \<Rightarrow> bool" where
  "component_piece p piece \<longleftrightarrow>
     (if p = ''**'' then True else \<exists>component. piece = [component] \<and> cut_match char_piece (chars p) (chars component))"

lemma cut_match_Nil [simp]: "cut_match ok [] xs \<longleftrightarrow> xs = []"
  by (auto simp: cut_match_def)

lemma cut_match_Cons: "cut_match ok (p # ps) xs \<longleftrightarrow> (\<exists>ys zs. xs = ys @ zs \<and> ok p ys \<and> cut_match ok ps zs)"
proof
  assume "cut_match ok (p # ps) xs"
  then show "\<exists>ys zs. xs = ys @ zs \<and> ok p ys \<and> cut_match ok ps zs"
    by (force simp: cut_match_def list_all2_Cons1)
next
  assume "\<exists>ys zs. xs = ys @ zs \<and> ok p ys \<and> cut_match ok ps zs"
  then obtain ys pieces where "xs = concat (ys # pieces)" "list_all2 ok (p # ps) (ys # pieces)"
    by (auto simp: cut_match_def)
  then show "cut_match ok (p # ps) xs" unfolding cut_match_def by metis
qed

lemma cut_match_one:
  assumes "\<And>piece. ok p piece \<Longrightarrow> length piece = 1"
  shows "cut_match ok (p # ps) xs \<longleftrightarrow> (case xs of [] \<Rightarrow> False | y # ys \<Rightarrow> ok p [y] \<and> cut_match ok ps ys)"
proof (cases xs)
  case Nil
  then show ?thesis using assms by (force simp: cut_match_Cons)
next
  case (Cons y ys)
  have "ok p as \<Longrightarrow> y # ys = as @ bs \<Longrightarrow> as = [y] \<and> bs = ys" for as bs
    using assms[of as] by (cases as) auto
  then have "(\<exists>as bs. y # ys = as @ bs \<and> ok p as \<and> cut_match ok ps bs) \<longleftrightarrow> ok p [y] \<and> cut_match ok ps ys"
    by (metis append_Cons append_Nil)
  then show ?thesis by (simp add: Cons cut_match_Cons)
qed

lemma cut_match_any:
  assumes "\<And>piece. ok p piece"
  shows "cut_match ok (p # ps) xs \<longleftrightarrow> cut_match ok ps xs \<or> (case xs of [] \<Rightarrow> False | y # ys \<Rightarrow> cut_match ok (p # ps) ys)"
proof (cases xs)
  case Nil
  then show ?thesis using assms by (simp add: cut_match_Cons)
next
  case (Cons y ys)
  have "(\<exists>as bs. y # ys = as @ bs \<and> cut_match ok ps bs) \<longleftrightarrow>
      cut_match ok ps (y # ys) \<or> (\<exists>as bs. ys = as @ bs \<and> cut_match ok ps bs)"
    by (metis append_Cons append_Nil append_eq_Cons_conv list.inject)
  then show ?thesis using assms Cons by (simp add: cut_match_Cons)
qed

lemma star_step:
  "cut_match char_piece (''*'' # ps) xs \<longleftrightarrow>
     cut_match char_piece ps xs \<or> (case xs of [] \<Rightarrow> False | y # ys \<Rightarrow> cut_match char_piece (''*'' # ps) ys)"
  by (rule cut_match_any) (simp add: char_piece_def)

lemma char_step:
  "p \<noteq> ''*'' \<Longrightarrow> cut_match char_piece (p # ps) xs \<longleftrightarrow>
     (case xs of [] \<Rightarrow> False | y # ys \<Rightarrow> (p = ''?'' \<or> p = y) \<and> cut_match char_piece ps ys)"
  by (subst cut_match_one) (auto simp: char_piece_def split: if_splits list.splits)

text \<open>The table holds right answers only; a visit keeps that and returns the right answer.\<close>

definition table_ok :: "string list \<Rightarrow> string list \<Rightarrow> match_table \<Rightarrow> bool" where
  "table_ok pattern v table \<longleftrightarrow>
     length table = Suc (length pattern) \<and> (\<forall>i \<le> length pattern. length (table ! i) = Suc (length v)) \<and>
     (\<forall>i \<le> length pattern. \<forall>j \<le> length v. \<forall>answer.
        table ! i ! j = Some answer \<longrightarrow> answer = cut_match char_piece (drop i pattern) (drop j v))"

lemma table_ok_update:
  assumes "table_ok pattern v table" "i \<le> length pattern" "j \<le> length v" "answer = cut_match char_piece (drop i pattern) (drop j v)"
  shows "table_ok pattern v (table[i := (table ! i)[j := Some answer]])"
proof -
  have "table[i := (table ! i)[j := Some answer]] ! i' ! j' =
      (if i' = i \<and> j' = j then Some answer else table ! i' ! j')" if "i' \<le> length pattern" "j' \<le> length v" for i' j'
    using assms(1-3) that by (auto simp: table_ok_def nth_list_update)
  then show ?thesis using assms by (auto simp: table_ok_def nth_list_update)
qed

lemma glob_visit_exact:
  assumes "table_ok pattern v table" "i \<le> length pattern" "j \<le> length v"
  shows "fst (glob_visit pattern v i j table) = cut_match char_piece (drop i pattern) (drop j v) \<and>
    table_ok pattern v (snd (glob_visit pattern v i j table))"
  using assms
proof (induction pattern v i j table rule: glob_visit.induct)
  case (1 pattern v i j table)
  let ?want = "cut_match char_piece (drop i pattern) (drop j v)"
  show ?case
  proof (cases "table ! i ! j")
    case (Some answer)
    with "1.prems" show ?thesis by (subst (1 2) glob_visit.simps) (auto simp: table_ok_def)
  next
    case None
    define inner where "inner =
      (if i = length pattern then (j = length v, table)
       else if pattern ! i = ''*'' then
         (let (skip, table) = glob_visit pattern v (i + 1) j table in
          if skip then (True, table)
          else if j < length v then glob_visit pattern v i (j + 1) table else (False, table))
       else if j < length v \<and> (pattern ! i = ''?'' \<or> pattern ! i = v ! j) then glob_visit pattern v (i + 1) (j + 1) table
       else (False, table))"
    have "fst inner = ?want \<and> table_ok pattern v (snd inner)"
    proof (cases "i = length pattern")
      case True
      then show ?thesis using 1(4,6) by (auto simp: inner_def)
    next
      case False
      then have i: "i < length pattern" and at: "drop i pattern = pattern ! i # drop (Suc i) pattern"
        using 1(5) by (auto simp: Cons_nth_drop_Suc)
      have rest: "j < length v \<Longrightarrow> drop j v = v ! j # drop (Suc j) v" "\<not> j < length v \<Longrightarrow> drop j v = []"
        by (auto simp: Cons_nth_drop_Suc)
      have in_range: "\<not> (length pattern < i \<or> length v < j)" using 1(5,6) by simp
      show ?thesis
      proof (cases "pattern ! i = ''*''")
        case True
        define first where "first = glob_visit pattern v (i + 1) j table"
        have first: "fst first = cut_match char_piece (drop (Suc i) pattern) (drop j v)" "table_ok pattern v (snd first)"
          using "1.IH"(1)[OF in_range None False True] 1(4,6) i by (auto simp: first_def)
        have "fst (glob_visit pattern v i (j + 1) (snd first)) = cut_match char_piece (drop i pattern) (drop (Suc j) v) \<and>
            table_ok pattern v (snd (glob_visit pattern v i (j + 1) (snd first)))" if "\<not> fst first" "j < length v"
          using "1.IH"(2)[OF in_range None False True _ _ that] first(2) 1(5) that(2) by (auto simp: first_def)
        moreover have "?want \<longleftrightarrow> cut_match char_piece (drop (Suc i) pattern) (drop j v) \<or>
            j < length v \<and> cut_match char_piece (drop i pattern) (drop (Suc j) v)"
          using star_step[of "drop (Suc i) pattern" "drop j v"] at True rest by (cases "j < length v") simp_all
        moreover have "inner = (if fst first then (True, snd first)
            else if j < length v then glob_visit pattern v i (j + 1) (snd first) else (False, snd first))"
          using False True by (simp add: inner_def first_def case_prod_beta)
        ultimately show ?thesis using first by (simp split: if_split)
      next
        case other: False
        show ?thesis
        proof (cases "j < length v \<and> (pattern ! i = ''?'' \<or> pattern ! i = v ! j)")
          case True
          then show ?thesis
            using "1.IH"(3)[OF in_range None False other True] 1(4) i at rest other False
            by (auto simp: inner_def char_step)
        next
          case no: False
          then show ?thesis
            using 1(4) at rest other False by (cases "j < length v") (auto simp: inner_def char_step)
        qed
      qed
    qed
    moreover have "glob_visit pattern v i j table = (let (answer, table) = inner in (answer, table[i := (table ! i)[j := Some answer]]))"
      using None 1(5,6) by (subst glob_visit.simps) (simp add: inner_def)
    ultimately show ?thesis using 1(5,6) by (simp add: case_prod_beta table_ok_update)
  qed
qed

lemma component_matches_exact: "component_matches pattern v \<longleftrightarrow> cut_match char_piece (chars pattern) (chars v)"
proof -
  have "table_ok (chars pattern) (chars v) (replicate (length (chars pattern) + 1) (replicate (length (chars v) + 1) None))"
    by (auto simp: table_ok_def simp del: replicate_Suc)
  from glob_visit_exact[OF this, of 0 0] show ?thesis by (simp add: component_matches_def)
qed

lemma any_components_step:
  "cut_match component_piece (''**'' # ps) xs \<longleftrightarrow>
     cut_match component_piece ps xs \<or> (case xs of [] \<Rightarrow> False | y # ys \<Rightarrow> cut_match component_piece (''**'' # ps) ys)"
  by (rule cut_match_any) (simp add: component_piece_def)

lemma component_step:
  "p \<noteq> ''**'' \<Longrightarrow> cut_match component_piece (p # ps) xs \<longleftrightarrow>
     (case xs of [] \<Rightarrow> False | y # ys \<Rightarrow> component_matches p y \<and> cut_match component_piece ps ys)"
  by (subst cut_match_one) (auto simp: component_piece_def component_matches_exact split: list.splits)

lemma glob_components_exact: "glob_components pattern path \<longleftrightarrow> cut_match component_piece pattern path"
proof (induction pattern path rule: glob_components.induct)
  case (3 component pattern)
  then show ?case using any_components_step[of pattern "[]"] component_step[of component pattern "[]"]
    by (cases "component = ''**''") simp_all
next
  case (4 component pattern path_component rest)
  then show ?case
    using any_components_step[of pattern "path_component # rest"] component_step[of component pattern "path_component # rest"]
    by (cases "component = ''**''") simp_all
qed simp_all

text \<open>
  C26. Globs mean what they say. The matcher that fills a table of answers, and the walk over the components
  of a path around it, accept a path exactly when the path can be cut into one run of components per component
  of the pattern, any run for \<open>**\<close> and a single component otherwise, and that component in turn can be cut into
  any run of characters per \<open>*\<close>, one character per \<open>?\<close> and the same character otherwise.
\<close>

theorem glob_matches_exact:
  "glob_matches pattern path \<longleftrightarrow>
     (\<exists>runs. list_all2 component_piece (split_char (CHR ''/'') pattern) runs \<and> concat runs = split_char (CHR ''/'') path)"
  using glob_components_exact by (simp add: glob_matches_def cut_match_def)


section \<open>Runs of a provider\<close>

text \<open>
  A provider controls what it runs through the requests alone: what every request keeps of the world, a run keeps.
\<close>

definition confined_request ::
  "('w, 'c, 'j, 'f) runner \<Rightarrow> string \<Rightarrow> provider_config \<Rightarrow> provider_context \<Rightarrow> identity option \<Rightarrow> command_request \<Rightarrow> bool" where
  "confined_request rn provider config px idy req \<longleftrightarrow>
     rn_locate rn (pc_executable config) (px_environment px) = Inr (Some (cq_program req)) \<and>
     cq_cwd req = px_cwd px \<and>
     (\<forall>i. idy = Some i \<longrightarrow> btree_get ''HOME'' (cq_environment req) = Some (iy_home i) \<and>
        btree_get ''USER'' (cq_environment req) = Some (iy_user i) \<and> btree_get ''LOGNAME'' (cq_environment req) = Some (iy_user i)) \<and>
     (\<forall>name. name \<notin> {''HOME'', ''USER'', ''LOGNAME''} \<or> idy = None \<longrightarrow>
        btree_get name (cq_environment req) = btree_get name (px_environment px)) \<and>
     (\<exists>present. \<exists>args \<in> ps_argv ` set (pc_prepare config) \<union> se_argv ` set_option (pc_shellenv config).
        list_all2 (\<lambda>a e. expand_argument a provider (px\<lparr>px_workspace_config_present := present\<rparr>) = Inr e) args (cq_args req))"

lemma runner_request_confined:
  assumes "btree_wf (px_environment px)" "rn_locate rn (pc_executable config) (px_environment px) = Inr (Some executable)"
    "args \<in> ps_argv ` set (pc_prepare config) \<union> se_argv ` set_option (pc_shellenv config)"
    "expand_args provider operation args (px\<lparr>px_workspace_config_present := present\<rparr>) =
       (Inr expanded :: (('c, 'j, 'f) provider_runtime_error, string list) result)"
  shows "confined_request rn provider config px idy
    (runner_request rn executable expanded (px\<lparr>px_workspace_config_present := present\<rparr>) timeout_ms idy)"
proof -
  have "list_all2 (\<lambda>a e. expand_argument a provider (px\<lparr>px_workspace_config_present := present\<rparr>) = Inr e) args expanded"
    using assms(4) by (auto simp: expand_args_def expand_argv_def collect_results_map_Inr_iff result_simps)
  moreover have "login_variables idy env = btree_insert ''LOGNAME'' (iy_user i) (btree_insert ''USER'' (iy_user i) (btree_insert ''HOME'' (iy_home i) env))"
    if "idy = Some i" for i env using that by (simp add: login_variables_def)
  ultimately show ?thesis
    using assms(1-3) unfolding confined_request_def runner_request_def
    by (cases idy) (auto simp: btree_get_insert btree_wf_insert login_variables_def)
qed

text \<open>What the requests of a provider keep of the world, each part of its run keeps.\<close>

lemma run_command_keeps:
  assumes "\<And>w. P w \<Longrightarrow> P (snd (rn_execute rn (runner_request rn executable args px timeout_ms idy) idy w))" "P w"
  shows "P (snd (run_command rn provider operation executable args px timeout_ms idy w))"
  using assms by (simp add: run_command_def Let_def case_prod_beta)

lemma prepare_steps_keeps:
  assumes "\<And>operation index step args w. (index, step) \<in> set steps \<Longrightarrow>
      expand_args provider operation (ps_argv step) px = (Inr args :: (('c, 'j, 'f) provider_runtime_error, string list) result) \<Longrightarrow> P w \<Longrightarrow>
      P (snd (rn_execute rn (runner_request rn executable args px (ps_timeout_ms step) idy) idy w))" "P w"
  shows "P (snd (prepare_steps (rn :: ('w, 'c, 'j, 'f) runner) provider executable px idy steps prepared diagnostics w))"
  using assms
proof (induction steps arbitrary: prepared diagnostics w)
  case (Cons entry steps)
  obtain index step where entry: "entry = (index, step)" by force
  define operation where "operation = ''prepare['' @ to_decimal index @ '']''"
  have later: "P (snd (prepare_steps rn provider executable px idy steps n ds w'))" if "P w'" for n ds w'
    by (rule Cons.IH, rule Cons.prems(1)) (use that in auto)
  show ?case
  proof (cases "expand_args provider operation (ps_argv step) px :: (('c, 'j, 'f) provider_runtime_error, string list) result")
    case (Inl e)
    then show ?thesis using Cons.prems(2) by (simp add: entry operation_def)
  next
    case (Inr args)
    define ran where "ran = run_command rn provider operation executable args px (ps_timeout_ms step) idy w"
    have "P (snd ran)" unfolding ran_def
      by (rule run_command_keeps) (use Cons.prems(1)[OF _ Inr] Cons.prems(2) in \<open>auto simp: entry\<close>)
    moreover have "prepare_steps rn provider executable px idy (entry # steps) prepared diagnostics w =
        (case fst ran of
           Inr _ \<Rightarrow> prepare_steps rn provider executable px idy steps (Suc prepared) diagnostics (snd ran)
         | Inl e \<Rightarrow>
             if ps_failure step = FailError then (Inl e, snd ran)
             else prepare_steps rn provider executable px idy steps prepared
               (diagnostics @ [prepare_diagnostic provider index (ps_failure step) e]) (snd ran))"
      using Inr unfolding entry prepare_steps.simps operation_def[symmetric]
      by (simp add: Let_def ran_def case_prod_beta split: sum.split)
    ultimately show ?thesis by (simp add: later split: sum.splits)
  qed
qed simp

lemma run_shellenv_keeps:
  assumes "\<And>operation s args w. shellenv = Some s \<Longrightarrow>
      expand_args provider operation (se_argv s) px = (Inr args :: (('c, 'j, 'f) provider_runtime_error, string list) result) \<Longrightarrow> P w \<Longrightarrow>
      P (snd (rn_execute rn (runner_request rn executable args px (se_timeout_ms s) idy) idy w))" "P w"
  shows "P (snd (run_shellenv (rn :: ('w, 'c, 'j, 'f) runner) provider executable px idy shellenv diagnostics w))"
proof -
  have "P (snd (run_command rn provider ''shellenv'' executable args px (se_timeout_ms s) idy w))"
    if "shellenv = Some s" "expand_args provider ''shellenv'' (se_argv s) px = (Inr args :: (('c, 'j, 'f) provider_runtime_error, string list) result)"
    for s args
    by (rule run_command_keeps) (use assms that in auto)
  then show ?thesis
    using assms(2) by (auto simp: run_shellenv_def Let_def case_prod_beta split: option.splits sum.splits)
qed

lemma runnable_steps_subset:
  "runnable_steps pf px steps = Inr chosen \<Longrightarrow> set chosen \<subseteq> set steps"
  by (induction pf px steps arbitrary: chosen rule: runnable_steps.induct) (auto simp: rbind_Inr_iff split: if_splits, blast+)


lemma detect_executable:
  assumes "detect view locate config workspace env = Inr detection" "dr_applicable detection" "dr_executable detection = Some executable"
  shows "locate (pc_executable config) env = Inr (Some executable)"
  using assms by (auto simp: detect_def rbind_Inr_iff result_simps split: if_splits)

lemma run_applicable_keeps:
  assumes keeps: "\<And>req w. confined_request rn provider config px idy req \<Longrightarrow> P w \<Longrightarrow> P (snd (rn_execute rn req idy w))"
    and wf: "btree_wf (px_environment px)" and "P w"
    and located: "rn_locate rn (pc_executable config) (px_environment px) = Inr (Some executable)"
  shows "P (snd (run_applicable (rn :: ('w, 'c, 'j, 'f) runner) provider config px idy detection executable w))"
proof -
  define px' where "px' = px\<lparr>px_workspace_config_present := px_workspace_config_present px \<or> dr_matched_files detection \<noteq> []\<rparr>"
  have step: "P (snd (rn_execute rn (runner_request rn executable expanded px' timeout_ms idy) idy w))"
    if "P w" "expand_args provider operation args px' = (Inr expanded :: (('c, 'j, 'f) provider_runtime_error, string list) result)"
      "args \<in> ps_argv ` set (pc_prepare config) \<union> se_argv ` set_option (pc_shellenv config)"
    for operation expanded args timeout_ms w
    using keeps[OF runner_request_confined[OF wf located that(3) that(2)[unfolded px'_def]] that(1)] by (simp add: px'_def)
  have shell: "P (snd (run_shellenv rn provider executable px' idy (pc_shellenv config) ds w))" if "P w" for ds w
    by (rule run_shellenv_keeps) (use step that in auto)
  show ?thesis
  proof (cases "runnable_steps (rn_platform rn) px' (enumerate 0 (pc_prepare config)) ::
      (('c, 'j, 'f) provider_runtime_error, (nat \<times> prepare_step) list) result")
    case (Inl e)
    then show ?thesis using \<open>P w\<close> by (simp add: run_applicable_def px'_def)
  next
    case (Inr chosen)
    have chosen: "s \<in> set (pc_prepare config)" if "(index, s) \<in> set chosen" for index s
      using runnable_steps_subset[OF Inr] that by (force simp: in_set_enumerate_eq)
    obtain r w1 where prepared: "prepare_steps rn provider executable px' idy chosen 0 [] w = (r, w1)" by force
    have "P (snd (prepare_steps rn provider executable px' idy chosen 0 [] w))"
      by (rule prepare_steps_keeps) (use step chosen \<open>P w\<close> in blast)+
    then have w1: "P w1" by (simp add: prepared)
    obtain r2 w2 where ran: "run_shellenv rn provider executable px' idy (pc_shellenv config) (snd (projr r)) w1 = (r2, w2)" by force
    have "P w2" using shell[OF w1, of "snd (projr r)"] by (simp add: ran)
    then show ?thesis
      using Inr prepared ran w1 by (cases r; cases r2) (auto simp: run_applicable_def px'_def[symmetric])
  qed
qed

lemma run_with_identity_keeps:
  assumes "\<And>req w. confined_request rn provider config px idy req \<Longrightarrow> P w \<Longrightarrow> P (snd (rn_execute rn req idy w))"
    and "btree_wf (px_environment px)" "P w"
  shows "P (snd (run_with_identity (rn :: ('w, 'c, 'j, 'f) runner) provider config px idy w))"
proof -
  have "P (snd (run_applicable rn provider config px idy detection executable w))"
    if "detect (rn_view rn) (rn_locate rn) config (px_workspace px) (px_environment px) = Inr detection"
      "dr_applicable detection" "dr_executable detection = Some executable" for detection executable
    by (rule run_applicable_keeps) (use assms detect_executable[OF that] in auto)
  then show ?thesis
    using assms(3) by (auto simp: run_with_identity_def rbind_Inr_iff result_simps split: sum.splits option.splits if_splits)
qed

text \<open>
  C10. What a provider can run. Whatever holds of the world and is kept by every command that (a) is the
  configured executable as the search found it, (b) runs in the working directory of the context, (c) has the
  home directory and names of the identity in its environment and every other variable as the context has it, and
  (d) takes the arguments of one configured prepare step or of the shell environment step, each expanded on its own
  into exactly one argument, still holds after the provider has run, whether the run succeeds or fails: there is no
  other command.
\<close>

theorem provider_commands_confined:
  assumes "\<And>req w. confined_request rn provider config px idy req \<Longrightarrow> P w \<Longrightarrow> P (snd (rn_execute rn req idy w))"
    and "btree_wf (px_environment px)" "P w"
  shows "P (snd (run_with_identity (rn :: ('w, 'c, 'j, 'f) runner) provider config px idy w))"
  using assms by (rule run_with_identity_keeps)

definition demo_provider :: provider_config where
  "demo_provider = \<lparr>pc_executable = ''mise'', pc_detect_files = [''mise.toml''], pc_missing = MissingError, pc_depends_on = [],
     pc_prepare = [\<lparr>ps_argv = [''install'', ''{workspace}''], ps_when = Some ''workspace.writable'', ps_failure = FailError,
       ps_timeout_ms = None, ps_sensitivity = Public\<rparr>],
     pc_shellenv = None, pc_sensitivity = Public\<rparr>"

definition demo_context :: provider_context where
  "demo_context = \<lparr>px_workspace = ''/w'', px_cwd = ''/w'', px_shell = ''bash'', px_environment = [(''HOME'', ''/root''), (''PATH'', ''/bin'')],
     px_config = VMap [], px_workspace_writable = True, px_workspace_config_present = False, px_user_id = 1000,
     px_config_fingerprint = [], px_provider_enabled = True\<rparr>"

definition demo_identity :: identity where
  "demo_identity = identity_new 1000 1000 ''dev'' ''/home/dev'' FromPeer"

definition demo_runner :: "(command_request list, unit, unit, unit) runner" where
  "demo_runner = \<lparr>rn_execute = \<lambda>req _ w. (Inr \<lparr>co_status = Some 0, co_timed_out = False, co_stdout = [], co_stderr = []\<rparr>, w @ [req]),
     rn_locate = \<lambda>_ _. Inr (Some ''/bin/mise''),
     rn_view = \<lparr>wv_exists = True, wv_is_file = \<lambda>_. True, wv_root = WsDir [(''mise.toml'', WsFile)]\<rparr>,
     rn_platform = \<lparr>pf_os = ''linux'', pf_arch = ''x86_64''\<rparr>, rn_from_utf8 = \<lambda>_. None, rn_from_json = \<lambda>_. Inl (),
     rn_config_fingerprint = \<lambda>_. Inr [], rn_workspace_fingerprint = \<lambda>_ _. Inr [], rn_command_timeout_ms = 10,
     rn_max_stdout = 10, rn_max_stderr = 10\<rparr>"

theorem provider_commands_confined_witness:
  "list_all (\<lambda>req. cq_program req = ''/bin/mise'' \<and> btree_get ''HOME'' (cq_environment req) = Some ''/home/dev'')
     (snd (run_with_identity demo_runner ''mise'' demo_provider demo_context (Some demo_identity) [])) \<and>
   map cq_args (snd (run_with_identity demo_runner ''mise'' demo_provider demo_context (Some demo_identity) [])) = [[''install'', ''/w'']]"
proof
  show "list_all (\<lambda>req. cq_program req = ''/bin/mise'' \<and> btree_get ''HOME'' (cq_environment req) = Some ''/home/dev'')
     (snd (run_with_identity demo_runner ''mise'' demo_provider demo_context (Some demo_identity) []))"
    by (rule provider_commands_confined)
      (auto simp: confined_request_def demo_runner_def demo_identity_def identity_new_def demo_context_def btree_wf_def)
  show "map cq_args (snd (run_with_identity demo_runner ''mise'' demo_provider demo_context (Some demo_identity) [])) = [[''install'', ''/w'']]"
    by code_simp
qed

section \<open>Numbers in conditions\<close>

lemma validate_reference_Nil: "validate_reference [] \<noteq> Inr ()"
  by code_simp

text \<open>
  A number written in a condition is kept as text, and text never equals an integer of the configuration: such
  a comparison is false whatever the two numbers are, and its negation is true.
\<close>

lemma integer_literal_never_equal:
  assumes "list_all is_ascii_digit (trim raw)" "dev_condition_value_parse raw = Inr literal"
    "resolve_reference pf px reference = Some (RtInteger n)"
  shows "\<not> evaluate pf px (DevEqual (DevReference reference) literal) \<and> evaluate pf px (DevNotEqual (DevReference reference) literal)"
  using assms validate_reference_Nil by (auto simp: dev_condition_value_parse_def Let_def rbind_Inr_iff is_ascii_digit_def split: if_splits)

lemma integer_literal_example:
  "\<not> evaluate \<lparr>pf_os = [], pf_arch = []\<rparr> (demo_context\<lparr>px_config := VMap [(''features'', VMap [(''jobs'', VInteger 4)])]\<rparr>)
     (DevEqual (DevReference ''features.jobs'') (DevLiteral ''4''))"
proof -
  have "\<not> evaluate \<lparr>pf_os = [], pf_arch = []\<rparr> (demo_context\<lparr>px_config := VMap [(''features'', VMap [(''jobs'', VInteger 4)])]\<rparr>)
     (DevEqual (DevReference ''features.jobs'') (DevLiteral ''4'')) \<and> evaluate \<lparr>pf_os = [], pf_arch = []\<rparr> (demo_context\<lparr>px_config := VMap [(''features'', VMap [(''jobs'', VInteger 4)])]\<rparr>)
     (DevNotEqual (DevReference ''features.jobs'') (DevLiteral ''4''))"
    by (rule integer_literal_never_equal[of "''4''" _ _ _ _ 4]) code_simp+
  then show ?thesis by blast
qed

end
