(* ===== verification/Dev_Materialize.thy ===== *)
theory Dev_Materialize
  imports Dev_Provider
begin

text \<open>
  Materialisation of an environment (\<open>src/crates/dev-env-core/src/{context,environment,config_tree,materializer}.rs\<close>):
  the context of a session, the environment before providers run, what providers change, and the loop over the
  providers. The providers run through a runner of the theory \<open>Dev_Provider\<close>;
  the JSON encoding of a configuration and its fingerprint are parameters.
\<close>

section \<open>The context of a session\<close>

datatype context_path_error = ContextEmpty | ContextRelative | ContextNul

datatype context_error =
    ContextInvalidPath string string context_path_error
  | CwdOutsideWorkspace string string
  | EmptyShell
  | UnknownShell string
  | ContextInvalidEnvironment dev_error

record runtime_context =
  rt_workspace :: string
  rt_cwd :: string
  rt_shell :: "string option"
  rt_process_environment :: "(string, string) btree_map"
  rt_user_id :: u32
  rt_workspace_writable :: "bool option"
  rt_workspace_config_present :: bool

definition context_absolute :: "string \<Rightarrow> string \<Rightarrow> (context_error, unit) result" where
  "context_absolute name path =
     (if path = [] then Inl (ContextInvalidPath name path ContextEmpty)
      else if has_char path (CHR 0x00) then Inl (ContextInvalidPath name path ContextNul)
      else if \<not> is_absolute path then Inl (ContextInvalidPath name path ContextRelative)
      else Inr ())"

definition context_validate :: "runtime_context \<Rightarrow> (context_error, unit) result" where
  "context_validate rt =
     rbind (context_absolute ''workspace'' (rt_workspace rt)) (\<lambda>_.
     rbind (context_absolute ''cwd'' (rt_cwd rt)) (\<lambda>_.
     rbind (fail_if (\<not> path_starts_with (rt_cwd rt) (rt_workspace rt)) (CwdOutsideWorkspace (rt_cwd rt) (rt_workspace rt))) (\<lambda>_.
     rbind (for_each (\<lambda>(name, v). map_err ContextInvalidEnvironment (env_value_validate (env_value_public v) name)) (rt_process_environment rt)) (\<lambda>_.
     fail_if (rt_shell rt = Some []) EmptyShell))))"

section \<open>Configurations as values\<close>

text \<open>Numbers as \<open>serde_json\<close> has them; the last is one that none of its three readings takes.\<close>

datatype json_number = JsonI64 i64 | JsonU64 u64 | JsonF64 f64 | JsonOther

datatype json_value =
    JsonNull | JsonBool bool | JsonNumber json_number | JsonString string
  | JsonArray "json_value list" | JsonObject "(string \<times> json_value) list"

datatype 'j tree_error = TreeSerialize 'j | UnsupportedNumber

text \<open>The conversion of a large integer to a float is a parameter. A word is an \<open>i64\<close> when its sign bit is clear.\<close>

definition convert_number :: "(u64 \<Rightarrow> f64) \<Rightarrow> json_number \<Rightarrow> ('j tree_error, value_tree) result" where
  "convert_number as_f64 number =
     (case number of
        JsonI64 n \<Rightarrow> Inr (VInteger n)
      | JsonU64 n \<Rightarrow> Inr (if unat n < 2 ^ 63 then VInteger n else VFloat (as_f64 n))
      | JsonF64 x \<Rightarrow> Inr (VFloat x)
      | JsonOther \<Rightarrow> Inl UnsupportedNumber)"

fun convert :: "(u64 \<Rightarrow> f64) \<Rightarrow> json_value \<Rightarrow> ('j tree_error, value_tree) result"
  and convert_items :: "(u64 \<Rightarrow> f64) \<Rightarrow> json_value list \<Rightarrow> ('j tree_error, value_tree list) result"
  and convert_members :: "(u64 \<Rightarrow> f64) \<Rightarrow> (string \<times> json_value) list \<Rightarrow> ('j tree_error, (string \<times> value_tree) list) result" where
  "convert as_f64 JsonNull = Inr VNull"
| "convert as_f64 (JsonBool b) = Inr (VBool b)"
| "convert as_f64 (JsonNumber n) = convert_number as_f64 n"
| "convert as_f64 (JsonString s) = Inr (VString s)"
| "convert as_f64 (JsonArray items) = rbind (convert_items as_f64 items) (\<lambda>vs. Inr (VArray vs))"
| "convert as_f64 (JsonObject members) = rbind (convert_members as_f64 members) (\<lambda>vs. Inr (VMap (btree_collect vs)))"
| "convert_items as_f64 [] = Inr []"
| "convert_items as_f64 (item # items) = rbind (convert as_f64 item) (\<lambda>v. rbind (convert_items as_f64 items) (\<lambda>vs. Inr (v # vs)))"
| "convert_members as_f64 [] = Inr []"
| "convert_members as_f64 ((key, item) # members) =
     rbind (convert as_f64 item) (\<lambda>v. rbind (convert_members as_f64 members) (\<lambda>vs. Inr ((key, v) # vs)))"

section \<open>The environment\<close>

datatype ('c, 'j, 'f, 's) core_failure =
    CoreModel dev_error
  | CoreContext context_error
  | CoreConfigTree "'s tree_error"
  | CoreFingerprint 's
  | CoreProvider string "('c, 'j, 'f) provider_runtime_error"
  | CorePathJoin

definition configured_provenance :: "resolved_config \<Rightarrow> string \<Rightarrow> origin option \<times> sensitivity" where
  "configured_provenance config path =
     (let fallbacks = (if path = ''environment.path.prepend''
        then [''environment.path.append'', ''environment.path.remove'', ''environment.variables.PATH''] else []) in
      case find_map (\<lambda>path. btree_get path (rc_provenance config)) (path # fallbacks) of
        Some entry \<Rightarrow> (if pe_origins entry = [] then None else Some (last (pe_origins entry)), pe_sensitivity entry)
      | None \<Rightarrow> (None, Public))"

definition checked_value ::
  "string \<Rightarrow> string \<Rightarrow> origin option \<Rightarrow> sensitivity \<Rightarrow> string option \<Rightarrow> (('c, 'j, 'f, 's) core_failure, env_value) result" where
  "checked_value name v org sens provider =
     (let r = \<lparr>ev_value = v, ev_origin = org, ev_sensitivity = sens, ev_provider = provider\<rparr> in
      rbind (map_err CoreModel (env_value_validate r name)) (\<lambda>_. Inr r))"

definition split_path :: "string \<Rightarrow> string list" where
  "split_path v = (if v = [] then [] else split_char (CHR '':'') v)"

definition join_path :: "string list \<Rightarrow> (('c, 'j, 'f, 's) core_failure, string) result" where
  "join_path vs = (if list_ex (\<lambda>v. has_char v (CHR '':'')) vs then Inl CorePathJoin else Inr (join '':'' vs))"

definition push_new :: "string \<Rightarrow> string list \<Rightarrow> string list" where
  "push_new path vs = (if path \<in> set vs then vs else vs @ [path])"

definition merge_provider_path :: "string option \<Rightarrow> string \<Rightarrow> (('c, 'j, 'f, 's) core_failure, string) result" where
  "merge_provider_path current provider_path =
     join_path (fold push_new (split_path provider_path @ (case current of None \<Rightarrow> [] | Some v \<Rightarrow> split_path v)) [])"

definition apply_configured_path ::
  "resolved_config \<Rightarrow> (string, env_value) btree_map \<Rightarrow> (('c, 'j, 'f, 's) core_failure, (string, env_value) btree_map) result" where
  "apply_configured_path config vs =
     (let path = ec_path (rc_environment config) in
      if ep_prepend path = [] \<and> ep_append path = [] \<and> ep_remove path = [] then Inr vs
      else
        let inherited = (case btree_get ''PATH'' vs of None \<Rightarrow> [] | Some v \<Rightarrow> split_path (ev_value v)) in
        rbind (map_err CoreModel (environment_path_resolve path inherited)) (\<lambda>resolved.
        rbind (join_path resolved) (\<lambda>path_value.
        let (org, sens) = configured_provenance config ''environment.path.prepend'' in
        Inr (btree_insert ''PATH'' \<lparr>ev_value = path_value, ev_origin = org, ev_sensitivity = sens, ev_provider = None\<rparr> vs))))"

definition inherit_variable ::
  "(string, env_value) btree_map \<Rightarrow> string \<times> string \<Rightarrow> (('c, 'j, 'f, 's) core_failure, (string, env_value) btree_map) result" where
  "inherit_variable vs entry =
     (let (name, v) = entry in
      rbind (checked_value name v (Some (origin_environment name)) Public None) (\<lambda>r. Inr (btree_insert name r vs)))"

definition configure_variable ::
  "resolved_config \<Rightarrow> (string, env_value) btree_map \<Rightarrow> string \<times> string \<Rightarrow> (('c, 'j, 'f, 's) core_failure, (string, env_value) btree_map) result" where
  "configure_variable config vs entry =
     (let (name, v) = entry in
      if ec_precedence (rc_environment config) = Locked \<or> \<not> contains_key name vs then
        let (org, sens) = configured_provenance config (''environment.variables.'' @ name) in
        rbind (checked_value name v org sens None) (\<lambda>r. Inr (btree_insert name r vs))
      else Inr vs)"

definition initial_environment ::
  "resolved_config \<Rightarrow> runtime_context \<Rightarrow> (('c, 'j, 'f, 's) core_failure, materialized_env) result" where
  "initial_environment config rt =
     rbind (if ec_inherit_process (rc_environment config) then fold_result inherit_variable [] (rt_process_environment rt) else Inr []) (\<lambda>vs.
     rbind (fold_result (configure_variable config) vs (ec_variables (rc_environment config))) (\<lambda>vs.
     rbind (apply_configured_path config vs) (\<lambda>vs.
     let env = materialized_new vs (replicate 32 0) in
     rbind (map_err CoreModel (materialized_validate env)) (\<lambda>_. Inr env))))"

definition env_insert :: "string \<Rightarrow> env_value \<Rightarrow> materialized_env \<Rightarrow> materialized_env" where
  "env_insert name v env = env\<lparr>me_values := btree_insert name v (me_values env)\<rparr>"

definition env_remove :: "string \<Rightarrow> materialized_env \<Rightarrow> materialized_env" where
  "env_remove name env = env\<lparr>me_values := btree_remove name (me_values env)\<rparr>"

definition set_from_provider ::
  "string \<Rightarrow> sensitivity \<Rightarrow> path_mode \<Rightarrow> materialized_env \<Rightarrow> string \<times> string \<Rightarrow> (('c, 'j, 'f, 's) core_failure, materialized_env) result" where
  "set_from_provider provider sens mode env entry =
     (let (name, v) = entry in
      rbind (if name = ''PATH'' \<and> mode = PathMerge then merge_provider_path (map_option ev_value (btree_get ''PATH'' (me_values env))) v else Inr v) (\<lambda>v.
      Inr (env_insert name \<lparr>ev_value = v, ev_origin = None, ev_sensitivity = sens, ev_provider = Some provider\<rparr> env)))"

definition apply_provider_delta ::
  "materialized_env \<Rightarrow> environment_delta \<Rightarrow> string \<Rightarrow> sensitivity \<Rightarrow> path_mode \<Rightarrow> (('c, 'j, 'f, 's) core_failure, materialized_env) result" where
  "apply_provider_delta env delta provider sens mode =
     rbind (fold_result (set_from_provider provider sens mode) (fold env_remove (ed_unset delta) env) (ed_set delta)) (\<lambda>env.
     rbind (map_err CoreModel (materialized_validate env)) (\<lambda>_. Inr env))"

section \<open>The materializer\<close>

datatype materialization_diagnostic = ProviderReported string provider_diagnostic | ProviderDisabled string

record materialization =
  mt_environment :: materialized_env
  mt_diagnostics :: "materialization_diagnostic list"

record metadata =
  md_request_id :: string
  md_generation :: generation
  md_identity :: identity

record provider_job =
  pj_job_id :: string
  pj_request_id :: string
  pj_generation :: generation
  pj_provider_id :: string
  pj_config :: provider_config
  pj_context :: provider_context
  pj_identity :: identity

text \<open>The parameters of a materialisation: the runner, the encodings of the configuration and the look at the workspace directory.\<close>

record ('w, 'c, 'j, 'f, 's) materializer =
  mz_config :: resolved_config
  mz_runner :: "('w, 'c, 'j, 'f) runner"
  mz_to_value :: "resolved_config \<Rightarrow> ('s, json_value) result"
  mz_as_f64 :: "u64 \<Rightarrow> f64"
  mz_fingerprint :: "resolved_config \<Rightarrow> ('s, u8 list) result"
  mz_directory_writable :: "string \<Rightarrow> bool"

definition provider_is_enabled :: "value_tree \<Rightarrow> string \<Rightarrow> bool" where
  "provider_is_enabled features provider =
     (case features of
        VMap features \<Rightarrow>
          (case btree_get provider features of
             Some (VMap provider_features) \<Rightarrow>
               (case btree_get ''enabled'' provider_features of Some (VBool enabled) \<Rightarrow> enabled | _ \<Rightarrow> True)
           | _ \<Rightarrow> True)
      | _ \<Rightarrow> True)"

definition select_shell :: "resolved_config \<Rightarrow> runtime_context \<Rightarrow> (('c, 'j, 'f, 's) core_failure, string) result" where
  "select_shell config rt =
     (let shell = unwrap_or (rc_shell config) (rt_shell rt) in
      if contains_key shell (rc_shells config) then Inr shell else Inl (CoreContext (UnknownShell shell)))"

definition environment_map :: "materialized_env \<Rightarrow> (string, string) btree_map" where
  "environment_map env = map (\<lambda>(name, v). (name, ev_value v)) (me_values env)"

definition context_for_provider ::
  "(string \<Rightarrow> bool) \<Rightarrow> runtime_context \<Rightarrow> string \<Rightarrow> materialized_env \<Rightarrow> value_tree \<Rightarrow> u8 list \<Rightarrow> bool \<Rightarrow> provider_context" where
  "context_for_provider directory_writable rt shell env config_tree fingerprint enabled =
     \<lparr>px_workspace = rt_workspace rt, px_cwd = rt_cwd rt, px_shell = shell, px_environment = environment_map env,
      px_config = config_tree, px_workspace_writable = unwrap_or (directory_writable (rt_workspace rt)) (rt_workspace_writable rt),
      px_workspace_config_present = rt_workspace_config_present rt, px_user_id = rt_user_id rt,
      px_config_fingerprint = fingerprint, px_provider_enabled = enabled\<rparr>"

definition apply_conditional_variable ::
  "('w, 'c, 'j, 'f, 's) materializer \<Rightarrow> runtime_context \<Rightarrow> string \<Rightarrow> value_tree \<Rightarrow> u8 list \<Rightarrow> materialized_env \<Rightarrow> string \<times> conditional_variable \<Rightarrow>
   (('c, 'j, 'f, 's) core_failure, materialized_env) result" where
  "apply_conditional_variable mz rt shell config_tree fingerprint env entry =
     (let (name, variable) = entry in
      rbind (map_err (\<lambda>rsn. CoreModel (DevInvalidCondition (''environment.conditional_variables.'' @ name @ ''.when'') rsn))
        (dev_condition_parse (cv_when variable))) (\<lambda>condition.
      if evaluate (rn_platform (mz_runner mz)) (context_for_provider (mz_directory_writable mz) rt shell env config_tree fingerprint True) condition
      then
        let (org, sens) = configured_provenance (mz_config mz) (''environment.conditional_variables.'' @ name) in
        Inr (env_insert name \<lparr>ev_value = cv_value variable, ev_origin = org, ev_sensitivity = sens, ev_provider = None\<rparr> env)
      else Inr (env_remove name env)))"

definition supervisor_prepare ::
  "('w, 'c, 'j, 'f) runner \<Rightarrow> provider_job \<Rightarrow> 'w \<Rightarrow> (('c, 'j, 'f) provider_runtime_error, provider_run_result) result \<times> 'w" where
  "supervisor_prepare rn job w = run_with_identity rn (pj_provider_id job) (pj_config job) (pj_context job) (Some (pj_identity job)) w"

definition apply_result ::
  "materialized_env \<Rightarrow> materialization_diagnostic list \<Rightarrow> string \<Rightarrow> provider_config \<Rightarrow> provider_run_result \<Rightarrow>
   (('c, 'j, 'f, 's) core_failure, materialized_env \<times> materialization_diagnostic list) result" where
  "apply_result env diagnostics pid config r =
     (let mode = (case pc_shellenv config of Some s \<Rightarrow> se_path_mode s | None \<Rightarrow> PathMerge) in
      rbind (apply_provider_delta env (rr_environment r) pid (rr_sensitivity r) mode) (\<lambda>env.
      Inr ((case rr_receipt r of
              None \<Rightarrow> env
            | Some receipt \<Rightarrow> env\<lparr>me_provider_receipts := me_provider_receipts env @ [receipt]\<rparr>),
           diagnostics @ map (ProviderReported pid) (rr_diagnostics r))))"

text \<open>The configuration of an ordered provider is always there; a missing one would be the panic of the source.\<close>

fun run_providers ::
  "('w, 'c, 'j, 'f, 's) materializer \<Rightarrow> runtime_context \<Rightarrow> metadata \<Rightarrow> string \<Rightarrow> value_tree \<Rightarrow> u8 list \<Rightarrow> string list \<Rightarrow>
   materialized_env \<Rightarrow> materialization_diagnostic list \<Rightarrow> 'w \<Rightarrow>
   (('c, 'j, 'f, 's) core_failure, materialized_env \<times> materialization_diagnostic list) result option \<times> 'w" where
  "run_providers mz rt md shell config_tree fingerprint [] env diagnostics w = (Some (Inr (env, diagnostics)), w)"
| "run_providers mz rt md shell config_tree fingerprint (pid # pids) env diagnostics w =
     (case btree_get pid (rc_providers (mz_config mz)) of
        None \<Rightarrow> (None, w)
      | Some config \<Rightarrow>
          if \<not> provider_is_enabled (rc_features (mz_config mz)) pid then
            run_providers mz rt md shell config_tree fingerprint pids env (diagnostics @ [ProviderDisabled pid]) w
          else
            (let job = \<lparr>pj_job_id = md_request_id md @ '':'' @ pid, pj_request_id = md_request_id md, pj_generation = md_generation md,
                   pj_provider_id = pid, pj_config = config,
                   pj_context = context_for_provider (mz_directory_writable mz) rt shell env config_tree fingerprint
                     (provider_is_enabled (rc_features (mz_config mz)) pid),
                   pj_identity = md_identity md\<rparr>;
                 (r, w') = supervisor_prepare (mz_runner mz) job w in
             case rbind (map_err (CoreProvider pid) r) (apply_result env diagnostics pid config) of
               Inl e \<Rightarrow> (Some (Inl e), w')
             | Inr (env', diagnostics') \<Rightarrow> run_providers mz rt md shell config_tree fingerprint pids env' diagnostics' w'))"

definition prepare_environment ::
  "('w, 'c, 'j, 'f, 's) materializer \<Rightarrow> runtime_context \<Rightarrow>
   (('c, 'j, 'f, 's) core_failure, string \<times> value_tree \<times> u8 list \<times> materialized_env \<times> string list) result" where
  "prepare_environment mz rt =
     rbind (map_err CoreModel (resolved_config_validate (mz_config mz))) (\<lambda>_.
     rbind (map_err CoreContext (context_validate rt)) (\<lambda>_.
     rbind (select_shell (mz_config mz) rt) (\<lambda>shell.
     rbind (map_err CoreConfigTree (rbind (map_err TreeSerialize (mz_to_value mz (mz_config mz))) (convert (mz_as_f64 mz)))) (\<lambda>config_tree.
     rbind (map_err CoreFingerprint (mz_fingerprint mz (mz_config mz))) (\<lambda>fingerprint.
     rbind (initial_environment (mz_config mz) rt) (\<lambda>env.
     rbind (fold_result (apply_conditional_variable mz rt shell config_tree fingerprint) (env\<lparr>me_config_fingerprint := fingerprint\<rparr>)
       (ec_conditional_variables (rc_environment (mz_config mz)))) (\<lambda>env.
     rbind (map_err CoreModel (provider_order (rc_providers (mz_config mz)))) (\<lambda>order.
     Inr (shell, config_tree, fingerprint, env, order)))))))))"

definition materialize_with_metadata ::
  "('w, 'c, 'j, 'f, 's) materializer \<Rightarrow> runtime_context \<Rightarrow> metadata \<Rightarrow> 'w \<Rightarrow> (('c, 'j, 'f, 's) core_failure, materialization) result option \<times> 'w" where
  "materialize_with_metadata mz rt md w =
     (case prepare_environment mz rt of
        Inl e \<Rightarrow> (Some (Inl e), w)
      | Inr (shell, config_tree, fingerprint, env, order) \<Rightarrow>
          (case run_providers mz rt md shell config_tree fingerprint order env [] w of
             (None, w') \<Rightarrow> (None, w')
           | (Some (Inl e), w') \<Rightarrow> (Some (Inl e), w')
           | (Some (Inr (env, diagnostics)), w') \<Rightarrow>
               (Some (rbind (map_err CoreModel (materialized_validate env)) (\<lambda>_. Inr \<lparr>mt_environment = env, mt_diagnostics = diagnostics\<rparr>)), w')))"

section \<open>The environment before providers\<close>

lemma checked_value_Inr: "checked_value name v org sens provider = (Inr r :: (('c, 'j, 'f, 's) core_failure, _) result) \<Longrightarrow> ev_value r = v"
  by (auto simp: checked_value_def rbind_Inr_iff Let_def)

lemma inherit_variable_Inr:
  "inherit_variable vs (name, v) = (Inr vs' :: (('c, 'j, 'f, 's) core_failure, _) result) \<Longrightarrow> \<exists>r. ev_value r = v \<and> vs' = btree_insert name r vs"
  by (auto simp: inherit_variable_def rbind_Inr_iff dest!: checked_value_Inr)

lemma configure_variable_Inr:
  "configure_variable config vs (name, v) = (Inr vs' :: (('c, 'j, 'f, 's) core_failure, _) result) \<Longrightarrow>
     if ec_precedence (rc_environment config) = Locked \<or> btree_get name vs = None then \<exists>r. ev_value r = v \<and> vs' = btree_insert name r vs
     else vs' = vs"
  by (auto simp: configure_variable_def rbind_Inr_iff Let_def contains_key_def case_prod_beta split: if_splits dest!: checked_value_Inr)

lemma inherit_fold:
  assumes "fold_result inherit_variable vs entries = (Inr vs' :: (('c, 'j, 'f, 's) core_failure, _) result)" "btree_wf vs" "distinct (map fst entries)"
  shows "btree_wf vs' \<and> (\<forall>name. map_option ev_value (btree_get name vs') =
    (case map_of entries name of Some v \<Rightarrow> Some v | None \<Rightarrow> map_option ev_value (btree_get name vs)))"
  using assms
proof (induction entries arbitrary: vs)
  case (Cons entry entries)
  obtain n v where entry: "entry = (n, v)" by force
  from Cons.prems(1) obtain r where r: "ev_value r = v"
    "fold_result inherit_variable (btree_insert n r vs) entries = (Inr vs' :: (('c, 'j, 'f, 's) core_failure, _) result)"
    by (auto simp: entry rbind_Inr_iff dest!: inherit_variable_Inr)
  have "map_of entries n = None" using Cons.prems(3) by (auto simp: entry map_of_eq_None_iff)
  with Cons.IH[OF r(2) btree_wf_insert[OF Cons.prems(2)]] Cons.prems(2,3) r(1) show ?case
    by (auto simp: entry btree_get_insert split: option.splits)
qed simp

lemma configure_fold:
  assumes "fold_result (configure_variable config) vs entries = (Inr vs' :: (('c, 'j, 'f, 's) core_failure, _) result)" "btree_wf vs" "distinct (map fst entries)"
  shows "btree_wf vs' \<and> (\<forall>name. map_option ev_value (btree_get name vs') =
    (case map_of entries name of
       Some v \<Rightarrow> if ec_precedence (rc_environment config) = Locked \<or> btree_get name vs = None then Some v else map_option ev_value (btree_get name vs)
     | None \<Rightarrow> map_option ev_value (btree_get name vs)))"
  using assms
proof (induction entries arbitrary: vs)
  case (Cons entry entries)
  obtain n v where entry: "entry = (n, v)" by force
  have none: "map_of entries n = None" using Cons.prems(3) by (auto simp: entry map_of_eq_None_iff)
  show ?case
  proof (cases "ec_precedence (rc_environment config) = Locked \<or> btree_get n vs = None")
    case True
    with Cons.prems(1) obtain r where r: "ev_value r = v"
      "fold_result (configure_variable config) (btree_insert n r vs) entries = (Inr vs' :: (('c, 'j, 'f, 's) core_failure, _) result)"
      by (auto simp: entry rbind_Inr_iff dest!: configure_variable_Inr)
    from Cons.IH[OF r(2) btree_wf_insert[OF Cons.prems(2)]] Cons.prems(2,3) r(1) none True show ?thesis
      by (auto simp: entry btree_get_insert split: option.splits)
  next
    case False
    with Cons.prems(1) have "fold_result (configure_variable config) vs entries = (Inr vs' :: (('c, 'j, 'f, 's) core_failure, _) result)"
      by (auto simp: entry rbind_Inr_iff dest!: configure_variable_Inr)
    from Cons.IH[OF this Cons.prems(2)] Cons.prems(3) none False show ?thesis
      by (auto simp: entry split: option.splits)
  qed
qed simp

lemma configured_path_other:
  assumes "apply_configured_path config vs = (Inr vs' :: (('c, 'j, 'f, 's) core_failure, _) result)" "btree_wf vs"
  shows "btree_wf vs' \<and> (\<forall>name. name \<noteq> ''PATH'' \<longrightarrow> btree_get name vs' = btree_get name vs)"
  using assms by (auto simp: apply_configured_path_def rbind_Inr_iff Let_def case_prod_beta btree_get_insert btree_wf_insert split: if_splits)

definition inherited_value :: "resolved_config \<Rightarrow> runtime_context \<Rightarrow> string \<Rightarrow> string option" where
  "inherited_value config rt name =
     (if ec_inherit_process (rc_environment config) then map_of (rt_process_environment rt) name else None)"

lemma initial_environment_values:
  assumes "initial_environment config rt = (Inr env :: (('c, 'j, 'f, 's) core_failure, _) result)"
    and "btree_wf (rt_process_environment rt)" "btree_wf (ec_variables (rc_environment config))"
  shows "btree_wf (me_values env)"
    "name \<noteq> ''PATH'' \<Longrightarrow> map_option ev_value (btree_get name (me_values env)) =
      (case map_of (ec_variables (rc_environment config)) name of
         Some v \<Rightarrow> if ec_precedence (rc_environment config) = Locked \<or> inherited_value config rt name = None then Some v
           else inherited_value config rt name
       | None \<Rightarrow> inherited_value config rt name)"
proof -
  from assms(1) obtain a b where
    a: "(if ec_inherit_process (rc_environment config) then fold_result inherit_variable [] (rt_process_environment rt) else Inr []) =
      (Inr a :: (('c, 'j, 'f, 's) core_failure, _) result)"
    and b: "fold_result (configure_variable config) a (ec_variables (rc_environment config)) = (Inr b :: (('c, 'j, 'f, 's) core_failure, _) result)"
    and c: "apply_configured_path config b = (Inr (me_values env) :: (('c, 'j, 'f, 's) core_failure, _) result)"
    by (auto simp: initial_environment_def rbind_Inr_iff Let_def materialized_new_def)
  have "distinct (map fst (rt_process_environment rt))" "distinct (map fst (ec_variables (rc_environment config)))"
    using assms(2,3) by (auto simp: btree_wf_def strict_sorted_iff)
  note d = this
  have a': "btree_wf a" "map_option ev_value (btree_get name a) = inherited_value config rt name" for name
  proof -
    have "btree_wf a \<and> map_option ev_value (btree_get name a) = inherited_value config rt name"
    proof (cases "ec_inherit_process (rc_environment config)")
      case True
      with inherit_fold[of "[]" "rt_process_environment rt" a] a d(1) show ?thesis
        by (auto simp: inherited_value_def btree_wf_def btree_get_def split: option.splits)
    next
      case False
      with a show ?thesis by (auto simp: inherited_value_def btree_wf_def btree_get_def)
    qed
    then show "btree_wf a" "map_option ev_value (btree_get name a) = inherited_value config rt name" by auto
  qed
  have none: "btree_get name a = None \<longleftrightarrow> inherited_value config rt name = None" for name
    using a'(2)[of name] by auto
  note b' = configure_fold[OF b a'(1) d(2)]
  note c' = configured_path_other[OF c conjunct1[OF b']]
  show "btree_wf (me_values env)" using c' by blast
  show "map_option ev_value (btree_get name (me_values env)) =
      (case map_of (ec_variables (rc_environment config)) name of
         Some v \<Rightarrow> if ec_precedence (rc_environment config) = Locked \<or> inherited_value config rt name = None then Some v
           else inherited_value config rt name
       | None \<Rightarrow> inherited_value config rt name)" if "name \<noteq> ''PATH''"
    using spec[OF conjunct2[OF b'], of name] spec[OF conjunct2[OF c'], of name] that
    unfolding a'(2) none by simp
qed

section \<open>The loop over the providers\<close>

lemma env_wf_insert [wf_intros]: "btree_wf (me_values env) \<Longrightarrow> btree_wf (me_values (env_insert name v env))"
  by (simp add: env_insert_def btree_wf_insert)

lemma env_wf_remove [wf_intros]: "btree_wf (me_values env) \<Longrightarrow> btree_wf (me_values (env_remove name env))"
  by (simp add: env_remove_def btree_wf_remove)

lemma environment_map_wf: "btree_wf (environment_map env) \<longleftrightarrow> btree_wf (me_values env)"
  by (simp add: btree_wf_def environment_map_def case_prod_beta comp_def)

lemma fold_result_inv:
  assumes "fold_result f s xs = Inr s'" "I s" "\<And>s x s'. f s x = Inr s' \<Longrightarrow> I s \<Longrightarrow> I s'"
  shows "I s'"
  using assms(1,2) by (induction xs arbitrary: s) (auto simp: rbind_Inr_iff intro: assms(3))

lemma conditional_wf:
  "apply_conditional_variable mz rt shell tree fingerprint env entry = Inr env' \<Longrightarrow> btree_wf (me_values env) \<Longrightarrow> btree_wf (me_values env')"
  by (auto simp: apply_conditional_variable_def rbind_Inr_iff Let_def case_prod_beta wf_intros split: if_splits)

lemma set_from_provider_wf:
  "set_from_provider provider sens mode env entry = (Inr env' :: (('c, 'j, 'f, 's) core_failure, _) result) \<Longrightarrow>
     btree_wf (me_values env) \<Longrightarrow> btree_wf (me_values env')"
  by (auto simp: set_from_provider_def rbind_Inr_iff Let_def case_prod_beta wf_intros)

lemma apply_result_wf:
  assumes "apply_result env diagnostics pid config r = (Inr (env', diagnostics') :: (('c, 'j, 'f, 's) core_failure, _) result)"
    "btree_wf (me_values env)"
  shows "btree_wf (me_values env')"
proof -
  have "btree_wf (me_values (fold env_remove names env))" for names
    using assms(2) by (induction names arbitrary: env) (auto intro: wf_intros)
  with assms(1) show ?thesis
    by (auto simp: apply_result_def apply_provider_delta_def rbind_Inr_iff Let_def split: option.splits
        dest!: fold_result_inv[where I = "\<lambda>env. btree_wf (me_values env)"] intro: set_from_provider_wf)
qed

lemma run_providers_keeps:
  fixes mz :: "('w, 'c, 'j, 'f, 's) materializer"
  assumes keeps: "\<And>pid config px req w. btree_get pid (rc_providers (mz_config mz)) = Some config \<Longrightarrow>
      provider_is_enabled (rc_features (mz_config mz)) pid \<Longrightarrow> px_workspace px = rt_workspace rt \<Longrightarrow> px_cwd px = rt_cwd rt \<Longrightarrow>
      confined_request (mz_runner mz) pid config px (Some (md_identity md)) req \<Longrightarrow> P w \<Longrightarrow>
      P (snd (rn_execute (mz_runner mz) req (Some (md_identity md)) w))"
    and "btree_wf (me_values env)" "P w"
  shows "P (snd (run_providers mz rt md shell tree fingerprint pids env diagnostics w))"
  using assms(2,3)
proof (induction pids arbitrary: env diagnostics w)
  case (Cons pid pids)
  show ?case
  proof (cases "btree_get pid (rc_providers (mz_config mz))")
    case None
    then show ?thesis using Cons.prems by simp
  next
    case (Some config)
    show ?thesis
    proof (cases "provider_is_enabled (rc_features (mz_config mz)) pid")
      case False
      then show ?thesis using Some Cons by simp
    next
      case True
      define px where "px = context_for_provider (mz_directory_writable mz) rt shell env tree fingerprint True"
      define ran where "ran = run_with_identity (mz_runner mz) pid config px (Some (md_identity md)) w"
      have px: "px_workspace px = rt_workspace rt" "px_cwd px = rt_cwd rt" "btree_wf (px_environment px)"
        using Cons.prems(1) by (simp_all add: px_def context_for_provider_def environment_map_wf)
      have w': "P (snd ran)" unfolding ran_def
        by (rule run_with_identity_keeps) (use keeps[OF Some True px(1,2)] px(3) Cons.prems(2) in auto)
      have step: "run_providers mz rt md shell tree fingerprint (pid # pids) env diagnostics w =
          (case rbind (map_err (CoreProvider pid) (fst ran)) (apply_result env diagnostics pid config) of
             Inl e \<Rightarrow> (Some (Inl e), snd ran)
           | Inr (env', diagnostics') \<Rightarrow> run_providers mz rt md shell tree fingerprint pids env' diagnostics' (snd ran))"
        using Some True by (simp add: supervisor_prepare_def px_def ran_def Let_def case_prod_beta split: sum.split)
      show ?thesis
      proof (cases "rbind (map_err (CoreProvider pid) (fst ran)) (apply_result env diagnostics pid config) ::
          (('c, 'j, 'f, 's) core_failure, _) result")
        case (Inl e)
        then show ?thesis unfolding step using w' by simp
      next
        case (Inr r)
        obtain env' diagnostics' where r: "r = (env', diagnostics')" by force
        with Inr have "btree_wf (me_values env')" by (auto simp: rbind_Inr_iff intro: apply_result_wf[OF _ Cons.prems(1)])
        then show ?thesis unfolding step using Inr Cons.IH[OF _ w'] by (simp add: r)
      qed
    qed
  qed
qed simp

lemma run_providers_total:
  "set pids \<subseteq> fst ` set (rc_providers (mz_config mz)) \<Longrightarrow> fst (run_providers mz rt md shell tree fingerprint pids env diagnostics w) \<noteq> None"
proof (induction pids arbitrary: env diagnostics w)
  case (Cons pid pids)
  then obtain config where "btree_get pid (rc_providers (mz_config mz)) = Some config"
    by (auto simp: btree_get_def dest!: weak_map_of_SomeI)
  with Cons show ?case by (auto simp: Let_def case_prod_beta split: sum.splits)
qed simp

lemma prepare_environment_Inr:
  assumes "prepare_environment mz rt = (Inr (shell, tree, fingerprint, env, order) :: (('c, 'j, 'f, 's) core_failure, _) result)"
    and "btree_wf (rt_process_environment rt)" "btree_wf (ec_variables (rc_environment (mz_config mz)))"
  shows "btree_wf (me_values env)" "provider_order (rc_providers (mz_config mz)) = Inr order"
proof -
  from assms(1) obtain env0 where env0: "initial_environment (mz_config mz) rt = (Inr env0 :: (('c, 'j, 'f, 's) core_failure, _) result)"
    and env: "fold_result (apply_conditional_variable mz rt shell tree fingerprint) (env0\<lparr>me_config_fingerprint := fingerprint\<rparr>)
       (ec_conditional_variables (rc_environment (mz_config mz))) = Inr env"
    and order: "provider_order (rc_providers (mz_config mz)) = Inr order"
    by (auto simp: prepare_environment_def rbind_Inr_iff map_err_Inr_iff)
  show "provider_order (rc_providers (mz_config mz)) = Inr order" by (rule order)
  show "btree_wf (me_values env)"
    by (rule fold_result_inv[OF env, where I = "\<lambda>env. btree_wf (me_values env)"])
      (use initial_environment_values(1)[OF env0 assms(2,3)] in \<open>auto intro: conditional_wf\<close>)
qed

lemma provider_order_keys: "provider_order ps = Inr pids \<Longrightarrow> set pids = fst ` set ps"
proof (cases ps rule: provider_order_cases)
  case (order pids')
  moreover assume "provider_order ps = Inr pids"
  ultimately show ?thesis using dependencies_first_distinct[of ps "{}" pids'] by (auto simp: contains_key_iff)
qed simp_all

text \<open>
  What a materialisation can run. Whatever holds of the world and is kept by every command that a configured and enabled
  provider may issue, in the workspace and working directory of the session and with the identity of the request, still
  holds after the environment has been materialised, whether that succeeds or fails; and it ends with a result or an error:
  the configuration of a provider that is to run is always found.
\<close>

theorem materialization_commands_confined:
  fixes mz :: "('w, 'c, 'j, 'f, 's) materializer"
  assumes "\<And>pid config px req w. btree_get pid (rc_providers (mz_config mz)) = Some config \<Longrightarrow>
      provider_is_enabled (rc_features (mz_config mz)) pid \<Longrightarrow> px_workspace px = rt_workspace rt \<Longrightarrow> px_cwd px = rt_cwd rt \<Longrightarrow>
      confined_request (mz_runner mz) pid config px (Some (md_identity md)) req \<Longrightarrow> P w \<Longrightarrow>
      P (snd (rn_execute (mz_runner mz) req (Some (md_identity md)) w))"
    and "btree_wf (rt_process_environment rt)" "btree_wf (ec_variables (rc_environment (mz_config mz)))" "P w"
  shows "P (snd (materialize_with_metadata mz rt md w)) \<and> fst (materialize_with_metadata mz rt md w) \<noteq> None"
proof (cases "prepare_environment mz rt")
  case (Inl e)
  then show ?thesis using assms(4) by (simp add: materialize_with_metadata_def)
next
  case (Inr ready)
  obtain shell tree fingerprint env order where ready: "ready = (shell, tree, fingerprint, env, order)" by (cases ready) auto
  note env = prepare_environment_Inr[OF Inr[unfolded ready] assms(2,3)]
  obtain r w' where ran: "run_providers mz rt md shell tree fingerprint order env [] w = (r, w')" by force
  have "P (snd (run_providers mz rt md shell tree fingerprint order env [] w))"
    by (rule run_providers_keeps) (use assms(1,4) env(1) in blast)+
  then have "P w'" by (simp add: ran)
  moreover have "r \<noteq> None"
    using run_providers_total[of order mz rt md shell tree fingerprint env "[]" w] provider_order_keys[OF env(2)] ran by simp
  ultimately show ?thesis
    by (auto simp: materialize_with_metadata_def Inr ready ran split: sum.splits)
qed

text \<open>
  Which value a variable has before providers run. A configured value wins over the one of the process when the
  configuration is locked, or when the process has none or is not inherited; otherwise the value is the inherited one, and
  no other variable appears; \<open>PATH\<close>, which is computed, is the exception.
\<close>

theorem initial_environment_exact:
  assumes "initial_environment config rt = (Inr env :: (('c, 'j, 'f, 's) core_failure, _) result)"
    and "btree_wf (rt_process_environment rt)" "btree_wf (ec_variables (rc_environment config))" "name \<noteq> ''PATH''"
  shows "map_option ev_value (btree_get name (me_values env)) =
    (let inherited = (if ec_inherit_process (rc_environment config) then btree_get name (rt_process_environment rt) else None) in
     case btree_get name (ec_variables (rc_environment config)) of
       Some v \<Rightarrow> if ec_precedence (rc_environment config) = Locked \<or> inherited = None then Some v else inherited
     | None \<Rightarrow> inherited)"
  using initial_environment_values(2)[OF assms] unfolding Let_def inherited_value_def btree_get_def .

definition demo_config :: resolved_config where
  "demo_config = \<lparr>rc_workspace = \<lparr>wc_root = ''/w'', wc_search = Upward\<rparr>, rc_shell = ''bash'',
     rc_shells = [(''bash'', \<lparr>sh_command = ''/bin/bash'', sh_kind = Posix, sh_login_args = [''-l''], sh_interactive_args = [''-i''], sh_command_arg = Some ''-c''\<rparr>)],
     rc_environment = \<lparr>ec_inherit_process = True, ec_precedence = Locked, ec_variables = [(''EDITOR'', ''vi'')], ec_conditional_variables = [],
       ec_path = \<lparr>ep_prepend = [''/opt/bin''], ep_append = [], ep_remove = []\<rparr>\<rparr>,
     rc_features = VMap [], rc_providers = [(''mise'', demo_provider)], rc_inputs = [], rc_policy = policy_default, rc_provenance = []\<rparr>"

definition demo_session :: runtime_context where
  "demo_session = \<lparr>rt_workspace = ''/w'', rt_cwd = ''/w/x'', rt_shell = None, rt_process_environment = [(''EDITOR'', ''nano''), (''PATH'', ''/bin'')],
     rt_user_id = 1000, rt_workspace_writable = Some True, rt_workspace_config_present = False\<rparr>"

definition demo_materializer :: "(command_request list, unit, unit, unit, unit) materializer" where
  "demo_materializer = \<lparr>mz_config = demo_config, mz_runner = demo_runner, mz_to_value = \<lambda>_. Inr (JsonObject []), mz_as_f64 = \<lambda>_. 0,
     mz_fingerprint = \<lambda>_. Inr [1], mz_directory_writable = \<lambda>_. False\<rparr>"

definition demo_metadata :: metadata where
  "demo_metadata = \<lparr>md_request_id = ''r'', md_generation = 1, md_identity = demo_identity\<rparr>"

theorem materialization_commands_confined_witness:
  "list_all (\<lambda>req. cq_program req = ''/bin/mise'' \<and> cq_cwd req = ''/w/x'' \<and> btree_get ''USER'' (cq_environment req) = Some ''dev'')
     (snd (materialize_with_metadata demo_materializer demo_session demo_metadata [])) \<and>
   map cq_args (snd (materialize_with_metadata demo_materializer demo_session demo_metadata [])) = [[''install'', ''/w'']]"
proof
  have "list_all (\<lambda>req. cq_program req = ''/bin/mise'' \<and> cq_cwd req = ''/w/x'' \<and> btree_get ''USER'' (cq_environment req) = Some ''dev'')
      (snd (materialize_with_metadata demo_materializer demo_session demo_metadata [])) \<and>
    fst (materialize_with_metadata demo_materializer demo_session demo_metadata []) \<noteq> None"
    by (rule materialization_commands_confined)
      (auto simp: demo_materializer_def demo_runner_def demo_metadata_def demo_identity_def identity_new_def demo_session_def
        demo_config_def confined_request_def btree_wf_def)
  then show "list_all (\<lambda>req. cq_program req = ''/bin/mise'' \<and> cq_cwd req = ''/w/x'' \<and> btree_get ''USER'' (cq_environment req) = Some ''dev'')
     (snd (materialize_with_metadata demo_materializer demo_session demo_metadata []))" by blast
  show "map cq_args (snd (materialize_with_metadata demo_materializer demo_session demo_metadata [])) = [[''install'', ''/w'']]"
    by code_simp
qed

theorem initial_environment_exact_witness:
  "\<exists>env. initial_environment demo_config demo_session = (Inr env :: ((unit, unit, unit, unit) core_failure, _) result) \<and>
     map_option ev_value (btree_get ''EDITOR'' (me_values env)) = Some ''vi''"
proof -
  have "case initial_environment demo_config demo_session of Inl (_ :: (unit, unit, unit, unit) core_failure) \<Rightarrow> False | Inr _ \<Rightarrow> True" by code_simp
  then obtain env where env: "initial_environment demo_config demo_session = (Inr env :: ((unit, unit, unit, unit) core_failure, _) result)"
    by (auto split: sum.splits)
  have wf: "btree_wf (rt_process_environment demo_session)" "btree_wf (ec_variables (rc_environment demo_config))"
    by (simp_all add: demo_session_def demo_config_def btree_wf_def)
  have "map_option ev_value (btree_get ''EDITOR'' (me_values env)) = Some ''vi''"
    using initial_environment_exact[OF env wf, of "''EDITOR''"] by (simp add: demo_config_def btree_get_def)
  with env show ?thesis by blast
qed

end
