(* ===== verification/Machines.thy ===== *)
theory Machines
  imports Prelude
begin

text \<open>
  Machines that take events: a state changes by \<open>step event\<close>, a run is a list of events. The locale
  carries an invariant from single steps to runs.
\<close>

locale machine =
  fixes start :: "'s \<Rightarrow> bool" and step :: "'e \<Rightarrow> 's \<Rightarrow> 's" and inv :: "'s \<Rightarrow> bool"
  assumes start_inv: "start s \<Longrightarrow> inv s"
    and step_inv: "inv s \<Longrightarrow> inv (step event s)"
begin

lemma run_inv: "inv s \<Longrightarrow> inv (fold step events s)"
  by (induction events arbitrary: s) (auto intro: step_inv)

lemma run_start_inv: "start s \<Longrightarrow> inv (fold step events s)"
  by (rule run_inv) (rule start_inv)

end

end
