(* ===== verification/Dev_Cache.thy ===== *)
theory Dev_Cache
  imports Dev_Materialize Machines "HOL-Library.AList" "HOL-Library.Multiset"
begin

text \<open>
  The service that owns a materializer and keeps its results (\<open>src/crates/dev-env-core/src/service.rs\<close>): a table of
  results by key with a limit on entries, on the bytes of values that are not public, and on age. Shown over all sequences of
  calls: the limits hold, the accounting is exact, and a hit is a result for its key.
\<close>

section \<open>The cache of results\<close>

text \<open>
  The table is a hash map; the list has its entries in the order in which the map iterates over them. An insertion
  may change that order, which is the parameter \<open>reorder\<close>. Instants are natural numbers and given with
  each call, one for each reading of the clock. Sums of sizes of values in memory stay within \<open>usize\<close>.
\<close>

record cache_entry =
  ce_value :: materialization
  ce_last_used :: nat
  ce_sensitive_bytes :: nat

type_synonym cache = "(materialization_key \<times> cache_entry) list"

record service =
  sv_cache :: cache
  sv_sensitive_bytes :: nat
  sv_max_entries :: nat
  sv_max_sensitive_bytes :: nat
  sv_ttl :: "nat option"

definition service_new :: service where
  "service_new = \<lparr>sv_cache = [], sv_sensitive_bytes = 0, sv_max_entries = 128, sv_max_sensitive_bytes = 8 * 1024 * 1024,
     sv_ttl = Some (900 * 10 ^ 9)\<rparr>"

definition with_limits :: "nat \<Rightarrow> nat option \<Rightarrow> service \<Rightarrow> service" where
  "with_limits max_entries ttl sv = sv\<lparr>sv_max_entries := max max_entries 1, sv_ttl := ttl\<rparr>"

definition with_sensitive_byte_limit :: "nat \<Rightarrow> service \<Rightarrow> service" where
  "with_sensitive_byte_limit limit sv = sv\<lparr>sv_max_sensitive_bytes := limit\<rparr>"

definition service_clear :: "service \<Rightarrow> service" where
  "service_clear sv = sv\<lparr>sv_cache := [], sv_sensitive_bytes := 0\<rparr>"

definition sensitive_bytes :: "materialization \<Rightarrow> nat" where
  "sensitive_bytes m =
     sum_list (map (\<lambda>(name, v). min (2 ^ 64 - 1) (length name + length (ev_value v)))
       (filter (\<lambda>(name, v). ev_sensitivity v \<noteq> Public) (me_values (mt_environment m))))"

definition remove_expired :: "nat \<Rightarrow> service \<Rightarrow> service" where
  "remove_expired now sv =
     (case sv_ttl sv of
        None \<Rightarrow> sv
      | Some ttl \<Rightarrow>
          (let kept = filter (\<lambda>(_, entry). now - ce_last_used entry \<le> ttl) (sv_cache sv) in
           sv\<lparr>sv_cache := kept, sv_sensitive_bytes := sum_list (map (ce_sensitive_bytes \<circ> snd) kept)\<rparr>))"

definition cached :: "materialization_key \<Rightarrow> nat \<Rightarrow> nat \<Rightarrow> service \<Rightarrow> materialization option \<times> service" where
  "cached key now now' sv =
     (let sv = remove_expired now sv in
      case map_of (sv_cache sv) key of
        None \<Rightarrow> (None, sv)
      | Some entry \<Rightarrow> (Some (ce_value entry), sv\<lparr>sv_cache := AList.update key (entry\<lparr>ce_last_used := now'\<rparr>) (sv_cache sv)\<rparr>))"

text \<open>\<open>min_by_key\<close> returns the first of several smallest elements.\<close>

fun oldest_entry :: "cache \<Rightarrow> (materialization_key \<times> cache_entry) option" where
  "oldest_entry [] = None"
| "oldest_entry (e # es) =
     (case oldest_entry es of
        None \<Rightarrow> Some e
      | Some e' \<Rightarrow> Some (if ce_last_used (snd e) \<le> ce_last_used (snd e') then e else e'))"

lemma oldest_entry_mem: "oldest_entry es = Some e \<Longrightarrow> e \<in> set es"
  by (induction es arbitrary: e) (auto split: option.splits if_splits)

lemma length_delete_less: "k \<in> fst ` set xs \<Longrightarrow> length (AList.delete k xs) < length xs"
  by (induction xs) (auto simp: le_imp_less_Suc AList.length_delete_le)

function evict_to_limits :: "service \<Rightarrow> service" where
  "evict_to_limits sv =
     (if sv_max_entries sv < length (sv_cache sv) \<or> sv_max_sensitive_bytes sv < sv_sensitive_bytes sv then
        (case oldest_entry (sv_cache sv) of
           None \<Rightarrow> sv
         | Some (key, entry) \<Rightarrow>
             evict_to_limits (sv\<lparr>sv_cache := AList.delete key (sv_cache sv),
               sv_sensitive_bytes := sv_sensitive_bytes sv - ce_sensitive_bytes entry\<rparr>))
      else sv)"
  by pat_completeness auto
termination
  by (relation "measure (\<lambda>sv. length (sv_cache sv))")
    (auto intro!: length_delete_less dest!: oldest_entry_mem intro: rev_image_eqI)

declare evict_to_limits.simps [simp del]

text \<open>The order in which the map iterates after an insertion: any rearrangement of its entries.\<close>

definition hash_order :: "(cache \<Rightarrow> cache) \<Rightarrow> cache \<Rightarrow> cache" where
  "hash_order reorder entries = (if mset (reorder entries) = mset entries then reorder entries else entries)"

definition cache_success :: "(cache \<Rightarrow> cache) \<Rightarrow> materialization_key \<Rightarrow> materialization \<Rightarrow> nat \<Rightarrow> service \<Rightarrow> service" where
  "cache_success reorder key m now sv =
     (let bytes = sensitive_bytes m in
      if sv_max_sensitive_bytes sv < bytes then sv
      else
        let entry = \<lparr>ce_value = m, ce_last_used = now, ce_sensitive_bytes = bytes\<rparr>;
            before = (case map_of (sv_cache sv) key of None \<Rightarrow> sv_sensitive_bytes sv
              | Some previous \<Rightarrow> sv_sensitive_bytes sv - ce_sensitive_bytes previous) in
        evict_to_limits (sv\<lparr>sv_cache := hash_order reorder (AList.update key entry (sv_cache sv)),
          sv_sensitive_bytes := min (2 ^ 64 - 1) (before + bytes)\<rparr>))"

datatype ('c, 'j, 'f, 's) service_error = ServiceCore "('c, 'j, 'f, 's) core_failure" | ServiceKey "'s key_error"

definition service_prepare ::
  "(cache \<Rightarrow> cache) \<Rightarrow> ('w, 'c, 'j, 'f, 's) materializer \<Rightarrow> materialization_key \<Rightarrow> runtime_context \<Rightarrow> metadata \<Rightarrow> nat \<Rightarrow> nat \<Rightarrow> nat \<Rightarrow>
   service \<Rightarrow> 'w \<Rightarrow> (('c, 'j, 'f, 's) service_error, materialization \<times> bool) result option \<times> service \<times> 'w" where
  "service_prepare reorder mz key rt md now now' now'' sv w =
     (case key_validate key of
        Inl e \<Rightarrow> (Some (Inl (ServiceKey e)), sv, w)
      | Inr _ \<Rightarrow>
          (case cached key now now' sv of
             (Some m, sv) \<Rightarrow> (Some (Inr (m, True)), sv, w)
           | (None, sv) \<Rightarrow>
               (case materialize_with_metadata mz rt md w of
                  (None, w) \<Rightarrow> (None, sv, w)
                | (Some (Inl e), w) \<Rightarrow> (Some (Inl (ServiceCore e)), sv, w)
                | (Some (Inr m), w) \<Rightarrow> (Some (Inr (m, False)), cache_success reorder key m now'' sv, w))))"

section \<open>The cache keeps its bounds\<close>

lemma delete_conv_filter: "AList.delete key entries = filter (\<lambda>entry. fst entry \<noteq> key) entries"
  by (induction entries) auto

abbreviation entries_bytes :: "cache \<Rightarrow> nat" where
  "entries_bytes entries \<equiv> sum_list (map (ce_sensitive_bytes \<circ> snd) entries)"

definition accounted :: "service \<Rightarrow> bool" where
  "accounted sv \<longleftrightarrow> distinct (map fst (sv_cache sv)) \<and> sv_sensitive_bytes sv = entries_bytes (sv_cache sv) \<and>
     (\<forall>(key, entry) \<in> set (sv_cache sv). ce_sensitive_bytes entry = sensitive_bytes (ce_value entry))"

definition within_limits :: "service \<Rightarrow> bool" where
  "within_limits sv \<longleftrightarrow> length (sv_cache sv) \<le> sv_max_entries sv \<and> sv_sensitive_bytes sv \<le> sv_max_sensitive_bytes sv"

definition limits :: "service \<Rightarrow> nat \<times> nat \<times> nat option" where
  "limits sv = (sv_max_entries sv, sv_max_sensitive_bytes sv, sv_ttl sv)"

lemma delete_bytes:
  assumes "distinct (map fst entries)" "(key, entry) \<in> set entries"
  shows "entries_bytes (AList.delete key entries) = entries_bytes entries - ce_sensitive_bytes entry"
    "ce_sensitive_bytes entry \<le> entries_bytes entries"
proof -
  have "AList.delete key es = es" if "key \<notin> fst ` set es" for es :: cache
    using that by (induction es) auto
  then have "entries_bytes (AList.delete key entries) + ce_sensitive_bytes entry = entries_bytes entries"
    using assms by (induction entries) (auto simp: rev_image_eqI)
  then show "entries_bytes (AList.delete key entries) = entries_bytes entries - ce_sensitive_bytes entry"
    "ce_sensitive_bytes entry \<le> entries_bytes entries" by linarith+
qed

lemma update_bytes:
  assumes "distinct (map fst entries)"
  shows "entries_bytes (AList.update key entry entries) =
    entries_bytes entries - (case map_of entries key of None \<Rightarrow> 0 | Some previous \<Rightarrow> ce_sensitive_bytes previous) + ce_sensitive_bytes entry"
    "map_of entries key = Some previous \<Longrightarrow> ce_sensitive_bytes previous \<le> entries_bytes entries"
proof -
  show "map_of entries key = Some previous \<Longrightarrow> ce_sensitive_bytes previous \<le> entries_bytes entries"
    using delete_bytes(2)[OF assms] map_of_SomeD by metis
  have "entries_bytes (AList.update key entry entries) + (case map_of entries key of None \<Rightarrow> 0 | Some previous \<Rightarrow> ce_sensitive_bytes previous) =
      entries_bytes entries + ce_sensitive_bytes entry"
    using assms by (induction entries) (auto split: option.splits)
  then show "entries_bytes (AList.update key entry entries) =
    entries_bytes entries - (case map_of entries key of None \<Rightarrow> 0 | Some previous \<Rightarrow> ce_sensitive_bytes previous) + ce_sensitive_bytes entry"
    using delete_bytes(2)[OF assms, of key] by (auto split: option.splits dest!: map_of_SomeD)
qed

lemma hash_order_same:
  "mset (hash_order reorder entries) = mset entries" "set (hash_order reorder entries) = set entries"
  "entries_bytes (hash_order reorder entries) = entries_bytes entries"
  "distinct (map fst (hash_order reorder entries)) \<longleftrightarrow> distinct (map fst entries)"
proof -
  show same: "mset (hash_order reorder entries) = mset entries" by (simp add: hash_order_def)
  then show "set (hash_order reorder entries) = set entries" by (rule mset_eq_setD)
  from same have "mset (map f (hash_order reorder entries)) = mset (map f entries)" for f :: "_ \<Rightarrow> 'b" by simp
  then show "entries_bytes (hash_order reorder entries) = entries_bytes entries"
    by (metis same mset_map sum_mset_sum_list)
  show "distinct (map fst (hash_order reorder entries)) \<longleftrightarrow> distinct (map fst entries)"
    by (rule mset_eq_imp_distinct_iff) (simp add: same)
qed

lemma evict_limits:
  assumes "accounted sv"
  shows "accounted (evict_to_limits sv) \<and> within_limits (evict_to_limits sv) \<and> limits (evict_to_limits sv) = limits sv \<and>
    set (sv_cache (evict_to_limits sv)) \<subseteq> set (sv_cache sv)"
  using assms
proof (induction sv rule: evict_to_limits.induct)
  case (1 sv)
  show ?case
  proof (cases "sv_max_entries sv < length (sv_cache sv) \<or> sv_max_sensitive_bytes sv < sv_sensitive_bytes sv")
    case False
    then show ?thesis using 1(2) by (simp add: evict_to_limits.simps[of sv] within_limits_def)
  next
    case True
    show ?thesis
    proof (cases "oldest_entry (sv_cache sv)")
      case None
      then have "sv_cache sv = []" by (cases "sv_cache sv") (auto split: option.splits)
      then show ?thesis using 1(2) True by (simp add: accounted_def)
    next
      case (Some oldest)
      obtain key entry where oldest: "oldest = (key, entry)" by force
      define sv' where "sv' = sv\<lparr>sv_cache := AList.delete key (sv_cache sv), sv_sensitive_bytes := sv_sensitive_bytes sv - ce_sensitive_bytes entry\<rparr>"
      have "(key, entry) \<in> set (sv_cache sv)" using oldest_entry_mem[OF Some] by (simp add: oldest)
      moreover have subset: "set (AList.delete key (sv_cache sv)) \<subseteq> set (sv_cache sv)" by (auto simp: delete_conv_filter)
      ultimately have "accounted sv'"
        using 1(2) delete_bytes(1) by (auto simp: accounted_def sv'_def distinct_delete)
      moreover have "evict_to_limits sv = evict_to_limits sv'"
        using True Some by (simp add: evict_to_limits.simps[of sv] oldest sv'_def)
      moreover have "limits sv' = limits sv" "set (sv_cache sv') \<subseteq> set (sv_cache sv)"
        using subset by (auto simp: sv'_def limits_def)
      ultimately show ?thesis using "1.IH"[OF True Some oldest[symmetric], folded sv'_def] by auto
    qed
  qed
qed

lemma update_subset: "set (AList.update key entry entries) \<subseteq> insert (key, entry) (set entries)"
  by (induction entries) auto

lemma length_update: "key \<in> fst ` set entries \<Longrightarrow> length (AList.update key entry entries) = length entries"
  by (induction entries) auto

lemma filter_bytes_le: "entries_bytes (filter keep entries) \<le> entries_bytes entries"
  by (induction entries) auto

lemma remove_expired_inv:
  assumes "accounted sv" "within_limits sv"
  shows "accounted (remove_expired now sv) \<and> within_limits (remove_expired now sv) \<and> limits (remove_expired now sv) = limits sv \<and>
    set (sv_cache (remove_expired now sv)) \<subseteq> set (sv_cache sv)"
proof (cases "sv_ttl sv")
  case None
  then show ?thesis using assms by (simp add: remove_expired_def)
next
  case (Some ttl)
  let ?kept = "filter (\<lambda>(_, entry). now - ce_last_used entry \<le> ttl) (sv_cache sv)"
  have "distinct (map fst ?kept)" using assms(1) by (simp add: accounted_def distinct_map_filter)
  moreover have "length ?kept \<le> sv_max_entries sv"
    using assms(2) length_filter_le le_trans unfolding within_limits_def by blast
  moreover have "entries_bytes ?kept \<le> entries_bytes (sv_cache sv)" by (rule filter_bytes_le)
  ultimately show ?thesis
    using assms Some by (auto simp: remove_expired_def accounted_def within_limits_def limits_def Let_def)
qed

lemma cached_inv:
  assumes "accounted sv" "within_limits sv"
  shows "accounted (snd (cached key now now' sv)) \<and> within_limits (snd (cached key now now' sv)) \<and> limits (snd (cached key now now' sv)) = limits sv"
proof -
  define sv1 where "sv1 = remove_expired now sv"
  have sv1: "accounted sv1" "within_limits sv1" "limits sv1 = limits sv" using remove_expired_inv[OF assms] by (auto simp: sv1_def)
  show ?thesis
  proof (cases "map_of (sv_cache sv1) key")
    case None
    then show ?thesis using sv1 by (simp add: cached_def sv1_def[symmetric])
  next
    case (Some entry)
    then have mem: "(key, entry) \<in> set (sv_cache sv1)" by (rule map_of_SomeD)
    have d: "distinct (map fst (sv_cache sv1))" using sv1(1) by (simp add: accounted_def)
    have "length (AList.update key e (sv_cache sv1)) = length (sv_cache sv1)" for e
      by (rule length_update) (use mem in force)
    moreover have "\<forall>(key', entry') \<in> set (AList.update key (entry\<lparr>ce_last_used := now'\<rparr>) (sv_cache sv1)). ce_sensitive_bytes entry' = sensitive_bytes (ce_value entry')"
      using update_subset[of key "entry\<lparr>ce_last_used := now'\<rparr>" "sv_cache sv1"] sv1(1) mem by (fastforce simp: accounted_def)
    ultimately show ?thesis
      using sv1 Some d update_bytes(1)[OF d, of key "entry\<lparr>ce_last_used := now'\<rparr>"] update_bytes(2)[OF d Some]
      by (auto simp: cached_def sv1_def[symmetric] accounted_def within_limits_def limits_def distinct_update)
  qed
qed

lemma cache_success_inv:
  assumes "accounted sv" "within_limits sv" "2 * sv_max_sensitive_bytes sv < 2 ^ 64"
  shows "accounted (cache_success reorder key m now sv) \<and> within_limits (cache_success reorder key m now sv) \<and>
    limits (cache_success reorder key m now sv) = limits sv"
proof (cases "sv_max_sensitive_bytes sv < sensitive_bytes m")
  case True
  then show ?thesis using assms by (simp add: cache_success_def)
next
  case False
  define entry where "entry = \<lparr>ce_value = m, ce_last_used = now, ce_sensitive_bytes = sensitive_bytes m\<rparr>"
  define before where "before = (case map_of (sv_cache sv) key of None \<Rightarrow> sv_sensitive_bytes sv
    | Some previous \<Rightarrow> sv_sensitive_bytes sv - ce_sensitive_bytes previous)"
  define sv1 where "sv1 = sv\<lparr>sv_cache := hash_order reorder (AList.update key entry (sv_cache sv)),
    sv_sensitive_bytes := min (2 ^ 64 - 1) (before + sensitive_bytes m)\<rparr>"
  have d: "distinct (map fst (sv_cache sv))" using assms(1) by (simp add: accounted_def)
  have "before \<le> sv_sensitive_bytes sv" by (simp add: before_def split: option.splits)
  then have "before + sensitive_bytes m \<le> 2 ^ 64 - 1" using assms(2,3) False by (simp add: within_limits_def)
  moreover have "entries_bytes (AList.update key entry (sv_cache sv)) = before + sensitive_bytes m"
    using update_bytes(1)[OF d, of key entry] assms(1) by (auto simp: before_def entry_def accounted_def split: option.splits)
  moreover have "set (AList.update key entry (sv_cache sv)) \<subseteq> insert (key, entry) (set (sv_cache sv))" by (rule update_subset)
  ultimately have "accounted sv1"
    using assms(1) d by (auto simp: accounted_def sv1_def hash_order_same distinct_update entry_def)
  moreover have "cache_success reorder key m now sv = evict_to_limits sv1"
    using False by (simp add: cache_success_def Let_def sv1_def entry_def before_def)
  moreover have "limits sv1 = limits sv" by (simp add: sv1_def limits_def)
  ultimately show ?thesis using evict_limits[of sv1] by auto
qed

text \<open>What a service goes through: questions to the cache, results to store, whole preparations, and clearing.\<close>

datatype ('w, 'c, 'j, 'f, 's) service_event =
    AskCache materialization_key nat nat
  | StoreResult "cache \<Rightarrow> cache" materialization_key materialization nat
  | ClearCache
  | PrepareKey "cache \<Rightarrow> cache" "('w, 'c, 'j, 'f, 's) materializer" materialization_key runtime_context metadata nat nat nat

fun service_step :: "('w, 'c, 'j, 'f, 's) service_event \<Rightarrow> service \<times> 'w \<Rightarrow> service \<times> 'w" where
  "service_step (AskCache key now now') (sv, w) = (snd (cached key now now' sv), w)"
| "service_step (StoreResult reorder key m now) (sv, w) = (cache_success reorder key m now sv, w)"
| "service_step ClearCache (sv, w) = (service_clear sv, w)"
| "service_step (PrepareKey reorder mz key rt md now now' now'') (sv, w) = snd (service_prepare reorder mz key rt md now now' now'' sv w)"

definition service_start :: "nat \<Rightarrow> nat \<Rightarrow> nat option \<Rightarrow> service" where
  "service_start max_entries max_bytes ttl = with_sensitive_byte_limit max_bytes (with_limits max_entries ttl service_new)"

definition service_inv :: "nat \<times> nat \<times> nat option \<Rightarrow> service \<Rightarrow> bool" where
  "service_inv lim sv \<longleftrightarrow> accounted sv \<and> within_limits sv \<and> limits sv = lim \<and> 2 * sv_max_sensitive_bytes sv < 2 ^ 64"

lemma cached_service_inv: "service_inv lim sv \<Longrightarrow> service_inv lim (snd (cached key now now' sv))"
  using cached_inv[of sv key now now'] by (auto simp: service_inv_def limits_def)

lemma success_service_inv: "service_inv lim sv \<Longrightarrow> service_inv lim (cache_success reorder key m now sv)"
  using cache_success_inv[of sv reorder key m now] by (auto simp: service_inv_def limits_def)

text \<open>What a preparation does to the cache.\<close>

lemma service_prepare_cache:
  fixes mz :: "('w, 'c, 'j, 'f, 's) materializer"
  obtains (invalid) "fst (snd (service_prepare reorder mz key rt md now now' now'' sv w)) = sv" "snd (snd (service_prepare reorder mz key rt md now now' now'' sv w)) = w"
  | (asked) w' where "snd (service_prepare reorder mz key rt md now now' now'' sv w) = (snd (cached key now now' sv), w')"
  | (stored) m w' where "snd (service_prepare reorder mz key rt md now now' now'' sv w) = (cache_success reorder key m now'' (snd (cached key now now' sv)), w')"
      "fst (materialize_with_metadata mz rt md w) = Some (Inr m)"
proof (cases "key_validate key :: ('s key_error, unit) result")
  case (Inl e)
  then show thesis using invalid by (simp add: service_prepare_def)
next
  case (Inr u)
  obtain hit sv1 where hit: "cached key now now' sv = (hit, sv1)" by force
  obtain r w' where ran: "materialize_with_metadata mz rt md w = (r, w')" by force
  consider "hit \<noteq> None" | "hit = None" "r = None" | e where "hit = None" "r = Some (Inl e)" | m where "hit = None" "r = Some (Inr m)"
    by (metis option.exhaust sum.exhaust)
  then show thesis
    by cases (use Inr hit ran asked stored in \<open>auto simp: service_prepare_def\<close>)
qed

lemma service_step_inv: "service_inv lim (fst state) \<Longrightarrow> service_inv lim (fst (service_step event state))"
proof (cases "(event, state)" rule: service_step.cases)
  case (3 sv w)
  assume "service_inv lim (fst state)"
  with 3 show ?thesis by (auto simp: service_inv_def service_clear_def accounted_def within_limits_def limits_def)
next
  case (4 reorder mz key rt md now now' now'' sv w)
  assume "service_inv lim (fst state)"
  with 4 show ?thesis
    by (cases rule: service_prepare_cache[of reorder mz key rt md now now' now'' sv w])
      (auto intro: cached_service_inv success_service_inv)
qed (auto intro: cached_service_inv success_service_inv)

lemma service_start_inv: "2 * b < 2 ^ 64 \<Longrightarrow> service_inv (max n 1, b, ttl) (service_start n b ttl)"
  by (simp add: service_start_def service_new_def with_limits_def with_sensitive_byte_limit_def service_inv_def
      accounted_def within_limits_def limits_def)

interpretation cache: machine
  "\<lambda>state. \<exists>n b ttl. fst state = service_start n b ttl \<and> 2 * b < 2 ^ 64 \<and> lim = (max n 1, b, ttl)"
  service_step "\<lambda>state. service_inv lim (fst state)"
  by unfold_locales (use service_start_inv service_step_inv in \<open>metis, blast\<close>)

text \<open>
  C23. The cache of results stays small. Whatever is asked, stored, prepared and cleared, in any order and at any times, and
  however the hash map orders its entries, it has at most the configured number of entries, no key twice, and the
  values that are not public take together at most the configured number of bytes, which is what the service
  believes they take.
\<close>

theorem cache_bounded:
  assumes "fold service_step events (service_start max_entries max_bytes ttl, w) = (sv, w')" "2 * max_bytes < 2 ^ 64"
  shows "length (sv_cache sv) \<le> max max_entries 1 \<and> distinct (map fst (sv_cache sv)) \<and>
    sum_list (map (\<lambda>(key, entry). sensitive_bytes (ce_value entry)) (sv_cache sv)) = sv_sensitive_bytes sv \<and>
    sv_sensitive_bytes sv \<le> max_bytes"
proof -
  have "service_inv (max max_entries 1, max_bytes, ttl) (fst (fold service_step events (service_start max_entries max_bytes ttl, w)))"
    by (rule cache.run_start_inv) (use assms(2) in auto)
  then have inv: "service_inv (max max_entries 1, max_bytes, ttl) sv" by (simp add: assms(1))
  then have bytes: "map (\<lambda>(key, entry). sensitive_bytes (ce_value entry)) (sv_cache sv) = map (ce_sensitive_bytes \<circ> snd) (sv_cache sv)"
    by (auto simp: service_inv_def accounted_def)
  from inv show ?thesis unfolding bytes by (auto simp: service_inv_def accounted_def within_limits_def limits_def)
qed

section \<open>Where cached results come from\<close>

lemma evict_subset: "set (sv_cache (evict_to_limits sv)) \<subseteq> set (sv_cache sv)"
proof (induction sv rule: evict_to_limits.induct)
  case (1 sv)
  show ?case
  proof (cases "\<exists>key entry. (sv_max_entries sv < length (sv_cache sv) \<or> sv_max_sensitive_bytes sv < sv_sensitive_bytes sv) \<and>
      oldest_entry (sv_cache sv) = Some (key, entry)")
    case True
    then obtain key entry where oldest: "oldest_entry (sv_cache sv) = Some (key, entry)"
      and over: "sv_max_entries sv < length (sv_cache sv) \<or> sv_max_sensitive_bytes sv < sv_sensitive_bytes sv" by blast
    from "1.IH"[OF over oldest refl] over oldest show ?thesis
      by (auto simp: evict_to_limits.simps[of sv] delete_conv_filter)
  next
    case False
    then show ?thesis by (auto simp: evict_to_limits.simps[of sv] split: option.splits)
  qed
qed

lemma success_entries:
  "(k, e) \<in> set (sv_cache (cache_success reorder key m now sv)) \<Longrightarrow> k = key \<and> ce_value e = m \<or> (k, e) \<in> set (sv_cache sv)"
  using evict_subset update_subset
  by (fastforce simp: cache_success_def Let_def hash_order_same split: if_splits)

lemma expired_entries: "set (sv_cache (remove_expired now sv)) \<subseteq> set (sv_cache sv)"
  by (auto simp: remove_expired_def Let_def split: option.splits)

lemma cached_entries:
  assumes "(k, e) \<in> set (sv_cache (snd (cached key now now' sv)))"
  shows "\<exists>e'. (k, e') \<in> set (sv_cache sv) \<and> ce_value e' = ce_value e"
proof (cases "map_of (sv_cache (remove_expired now sv)) key")
  case None
  then show ?thesis using assms expired_entries by (auto simp: cached_def Let_def)
next
  case (Some entry)
  with assms have "(k, e) \<in> set (AList.update key (entry\<lparr>ce_last_used := now'\<rparr>) (sv_cache (remove_expired now sv)))"
    by (simp add: cached_def Let_def)
  then have "(k, e) = (key, entry\<lparr>ce_last_used := now'\<rparr>) \<or> (k, e) \<in> set (sv_cache (remove_expired now sv))"
    using update_subset[of key "entry\<lparr>ce_last_used := now'\<rparr>" "sv_cache (remove_expired now sv)"] by (simp add: subset_iff)
  moreover have "(key, entry) \<in> set (sv_cache sv)" using expired_entries map_of_SomeD[OF Some] by blast
  moreover have "ce_value (entry\<lparr>ce_last_used := now'\<rparr>) = ce_value entry" by simp
  ultimately show ?thesis using expired_entries[of now sv] by (metis prod.inject subset_iff)
qed

lemma cached_hit:
  "cached key now now' sv = (Some m, sv') \<Longrightarrow> \<exists>e. (key, e) \<in> set (sv_cache sv) \<and> ce_value e = m"
  using expired_entries[of now sv] by (auto simp: cached_def Let_def split: option.splits dest!: map_of_SomeD)

definition stored_by :: "('w, 'c, 'j, 'f, 's) service_event list \<Rightarrow> service \<times> 'w \<Rightarrow> materialization_key \<Rightarrow> materialization \<Rightarrow> bool" where
  "stored_by events start key m \<longleftrightarrow>
     (\<exists>reorder t. StoreResult reorder key m t \<in> set events) \<or>
     (\<exists>before reorder mz rt md t t' t'' after. events = before @ PrepareKey reorder mz key rt md t t' t'' # after \<and>
        fst (materialize_with_metadata mz rt md (snd (fold service_step before start))) = Some (Inr m))"

lemma stored_by_append: "stored_by events start key m \<Longrightarrow> stored_by (events @ [event]) start key m"
  unfolding stored_by_def by (auto, (metis append_Cons append_assoc)+)

lemma step_entries:
  assumes "(k, e) \<in> set (sv_cache (fst (service_step event (fold service_step events start))))"
    and "\<And>k e. (k, e) \<in> set (sv_cache (fst (fold service_step events start))) \<Longrightarrow> stored_by events start k (ce_value e)"
  shows "stored_by (events @ [event]) start k (ce_value e)"
proof -
  obtain sv w where state: "fold service_step events start = (sv, w)" by force
  have old: "stored_by (events @ [event]) start k (ce_value e)" if "(k, e') \<in> set (sv_cache sv)" "ce_value e' = ce_value e" for e'
    using stored_by_append[OF assms(2)[of k e']] that state by simp
  have from_cached: "stored_by (events @ [event]) start k (ce_value e)" if "(k, e) \<in> set (sv_cache (snd (cached key now now' sv)))" for key now now'
    using cached_entries[OF that] old by blast
  show ?thesis
  proof (cases event)
    case (AskCache key now now')
    then show ?thesis using assms(1) from_cached by (simp add: state)
  next
    case (StoreResult reorder key m now)
    then show ?thesis using assms(1) old success_entries[of k e reorder key m now sv] by (auto simp: state stored_by_def)
  next
    case ClearCache
    then show ?thesis using assms(1) by (simp add: state service_clear_def)
  next
    case (PrepareKey reorder mz key rt md now now' now'')
    show ?thesis
    proof (cases rule: service_prepare_cache[of reorder mz key rt md now now' now'' sv w])
      case invalid
      then show ?thesis using assms(1) old by (simp add: state PrepareKey)
    next
      case (asked w')
      then show ?thesis using assms(1) from_cached by (simp add: state PrepareKey)
    next
      case (stored m w')
      then have "k = key \<and> ce_value e = m \<or> (k, e) \<in> set (sv_cache (snd (cached key now now' sv)))"
        using assms(1) success_entries by (simp add: state PrepareKey)
      moreover have "stored_by (events @ [event]) start key m"
        unfolding stored_by_def PrepareKey using stored(2) state by (metis append_Nil2 snd_conv)
      ultimately show ?thesis using from_cached by blast
    qed
  qed
qed

text \<open>
  A hit in the cache is a result for that very key. Whatever happened before, when the cache answers a question, its
  answer was stored for an equal key, or it is what a preparation for an equal key computed in the world of its time.
\<close>

theorem cache_hit_origin:
  assumes "fold service_step events (service_start max_entries max_bytes ttl, w) = (sv, w')"
    and "cached key now now' sv = (Some m, sv')"
  shows "stored_by events (service_start max_entries max_bytes ttl, w) key m"
proof -
  let ?start = "(service_start max_entries max_bytes ttl, w)"
  have "\<forall>(k, e) \<in> set (sv_cache (fst (fold service_step events ?start))). stored_by events ?start k (ce_value e)"
  proof (induction events rule: rev_induct)
    case Nil
    then show ?case by (simp add: service_start_def service_new_def with_limits_def with_sensitive_byte_limit_def)
  next
    case (snoc event events)
    have "stored_by (events @ [event]) ?start k (ce_value e)"
      if "(k, e) \<in> set (sv_cache (fst (service_step event (fold service_step events ?start))))" for k e
      by (rule step_entries[OF that]) (use snoc in blast)
    then show ?case by auto
  qed
  with cached_hit[OF assms(2)] assms(1) show ?thesis by auto
qed


definition demo_key :: materialization_key where
  "demo_key = key_new 1 ''/w'' ''/w/x'' ''bash'' demo_identity"

theorem cache_bounded_witness:
  "length (sv_cache (fst (fold service_step [PrepareKey rev demo_materializer demo_key demo_session demo_metadata 0 0 1, AskCache demo_key 2 2]
     (service_start 1 10 None, [])))) \<le> 1"
proof -
  obtain sv w where run: "fold service_step [PrepareKey rev demo_materializer demo_key demo_session demo_metadata 0 0 1, AskCache demo_key 2 2]
     (service_start 1 10 None, []) = (sv, w)" by force
  from cache_bounded[OF run] show ?thesis unfolding run by simp
qed

definition demo_result :: materialization where
  "demo_result = \<lparr>mt_environment = materialized_new [(''TOKEN'', (env_value_public ''x'')\<lparr>ev_sensitivity := Secret\<rparr>)] [], mt_diagnostics = []\<rparr>"

theorem cache_hit_origin_witness:
  "\<exists>sv. fold service_step [StoreResult id demo_key demo_result 1 :: (unit, unit, unit, unit, unit) service_event] (service_start 1 10 None, ()) = (sv, ()) \<and>
     fst (cached demo_key 2 2 sv) = Some demo_result \<and>
     stored_by [StoreResult id demo_key demo_result 1 :: (unit, unit, unit, unit, unit) service_event] (service_start 1 10 None, ()) demo_key demo_result"
proof -
  let ?events = "[StoreResult id demo_key demo_result 1 :: (unit, unit, unit, unit, unit) service_event]"
  obtain sv where run: "fold service_step ?events (service_start 1 10 None, ()) = (sv, ())" by simp
  then have "sv = cache_success id demo_key demo_result 1 (service_start 1 10 None)" by simp
  then have hit: "fst (cached demo_key 2 2 sv) = Some demo_result"
    by (simp add: cached_def cache_success_def remove_expired_def service_start_def service_new_def with_limits_def with_sensitive_byte_limit_def
        hash_order_def evict_to_limits.simps sensitive_bytes_def demo_result_def materialized_new_def env_value_public_def)
  then obtain sv' where "cached demo_key 2 2 sv = (Some demo_result, sv')" by (cases "cached demo_key 2 2 sv") auto
  from cache_hit_origin[OF run this] run hit show ?thesis by blast
qed

end
