(* ===== verification/Dev_Worker.thy ===== *)
theory Dev_Worker
  imports Dev_Provider
begin

text \<open>
  The frames between the supervisor of provider commands and its worker
  (\<open>src/crates/dev-env-provider/src/worker_protocol.rs\<close>, with the checks of \<open>CommandRequest\<close> in \<open>command.rs\<close>). A decoder is a function of the bytes that are still ahead of its
  offset; an encoder returns the bytes it appends. Texts are lists of bytes here, as on the wire;
  a command of a provider always has a timeout (see \<open>command_request\<close>).
\<close>

section \<open>Bytes\<close>

text \<open>\<open>str::from_utf8\<close> accepts well-formed UTF-8 only: no overlong forms, no surrogates, nothing above U+10FFFF.\<close>

definition between :: "nat \<Rightarrow> nat \<Rightarrow> u8 \<Rightarrow> bool" where
  "between lo hi b \<longleftrightarrow> lo \<le> unat b \<and> unat b \<le> hi"

fun utf8_valid :: "bytes \<Rightarrow> bool" where
  "utf8_valid [] = True"
| "utf8_valid (b # bs) =
     (if between 0x00 0x7F b then utf8_valid bs
      else case bs of
        [] \<Rightarrow> False
      | c # cs \<Rightarrow>
          if between 0xC2 0xDF b then between 0x80 0xBF c \<and> utf8_valid cs
          else case cs of
            [] \<Rightarrow> False
          | d # ds \<Rightarrow>
              if between 0xE0 0xEF b then
                between (if unat b = 0xE0 then 0xA0 else 0x80) (if unat b = 0xED then 0x9F else 0xBF) c \<and> between 0x80 0xBF d \<and> utf8_valid ds
              else case ds of
                [] \<Rightarrow> False
              | e # es \<Rightarrow>
                  between 0xF0 0xF4 b \<and> between (if unat b = 0xF0 then 0x90 else 0x80) (if unat b = 0xF4 then 0x8F else 0xBF) c \<and>
                  between 0x80 0xBF d \<and> between 0x80 0xBF e \<and> utf8_valid es)"

definition be_bytes :: "nat \<Rightarrow> nat \<Rightarrow> bytes" where
  "be_bytes n v = map (\<lambda>k. of_nat (v div 256 ^ k mod 256)) (rev [0..<n])"

definition be_value :: "bytes \<Rightarrow> nat" where
  "be_value bs = foldl (\<lambda>acc b. acc * 256 + unat b) 0 bs"

section \<open>Requests\<close>

definition FRAME_LIMIT :: nat where "FRAME_LIMIT = 34 * 1024 * 1024"
definition FIELD_LIMIT :: nat where "FIELD_LIMIT = 1024 * 1024"
definition OUTPUT_LIMIT :: nat where "OUTPUT_LIMIT = 16 * 1024 * 1024"
definition WORKER_PROTOCOL_VERSION :: nat where "WORKER_PROTOCOL_VERSION = 1"

datatype worker_message =
    FrameTruncated | FrameTrailing | FrameKind | FrameVersion nat | FieldLimit | OutputLimit | CountLimit | NotUtf8
  | RepeatedKey | RequestOutputLimit | RootNonRootGroup | IdentityFlag | OptionFlag | ProgramInvalid | ArgumentNul
  | EnvironmentInvalid | TimeoutZero | StatusFlag | ResponseKind | FieldTooLarge | OutputTooLarge | FrameLimitExceeded | CollectionTooLarge

datatype command_error =
    CommandInvalidProgram | CommandInvalidArgument | CommandInvalidEnvironment | CommandInvalidTimeout
  | CommandWorker bytes | CommandProtocol worker_message



definition text_bytes :: "string \<Rightarrow> bytes" where
  "text_bytes s = map (\<lambda>c. of_nat (of_char c)) s"



section \<open>Encoding\<close>

definition encode_finish :: "nat \<Rightarrow> bytes \<Rightarrow> (command_error, bytes) result" where
  "encode_finish limit bs = (if limit < length bs then Inl (CommandProtocol FrameLimitExceeded) else Inr bs)"

definition checked_count :: "nat \<Rightarrow> (command_error, nat) result" where
  "checked_count n = (if n < 2 ^ 32 then Inr n else Inl (CommandProtocol CollectionTooLarge))"

definition encode_bounded :: "nat \<Rightarrow> worker_message \<Rightarrow> worker_message \<Rightarrow> bytes \<Rightarrow> (command_error, bytes) result" where
  "encode_bounded limit too_large exceeded bs =
     (if 2 ^ 32 \<le> length bs then Inl (CommandProtocol too_large)
      else if limit < length bs then Inl (CommandProtocol exceeded)
      else Inr (be_bytes 4 (length bs) @ bs))"

definition encode_bytes :: "bytes \<Rightarrow> (command_error, bytes) result" where
  "encode_bytes = encode_bounded FIELD_LIMIT FieldTooLarge FieldLimit"

definition encode_large_bytes :: "bytes \<Rightarrow> (command_error, bytes) result" where
  "encode_large_bytes = encode_bounded OUTPUT_LIMIT OutputTooLarge OutputLimit"

fun encode_many :: "('a \<Rightarrow> (command_error, bytes) result) \<Rightarrow> 'a list \<Rightarrow> (command_error, bytes) result" where
  "encode_many enc [] = Inr []"
| "encode_many enc (x # xs) = rbind (enc x) (\<lambda>bs. rbind (encode_many enc xs) (\<lambda>cs. Inr (bs @ cs)))"

definition encode_list :: "('a \<Rightarrow> (command_error, bytes) result) \<Rightarrow> 'a list \<Rightarrow> (command_error, bytes) result" where
  "encode_list enc xs = rbind (checked_count (length xs)) (\<lambda>n. rbind (encode_many enc xs) (\<lambda>bs. Inr (be_bytes 4 n @ bs)))"





definition encode_header :: "u8 \<Rightarrow> bytes" where
  "encode_header kind = be_bytes 2 WORKER_PROTOCOL_VERSION @ [kind]"


section \<open>Decoding\<close>

type_synonym 'a decoder = "bytes \<Rightarrow> (worker_message, 'a \<times> bytes) result"

definition dreturn :: "'a \<Rightarrow> 'a decoder" where
  "dreturn v bs = Inr (v, bs)"

definition dfail_if :: "bool \<Rightarrow> worker_message \<Rightarrow> unit decoder" where
  "dfail_if b e bs = (if b then Inl e else Inr ((), bs))"

definition dbind :: "'a decoder \<Rightarrow> ('a \<Rightarrow> 'b decoder) \<Rightarrow> 'b decoder" where
  "dbind d f bs = rbind (d bs) (\<lambda>(v, rest). f v rest)"

definition dtake :: "nat \<Rightarrow> bytes decoder" where
  "dtake n bs = (if length bs < n then Inl FrameTruncated else Inr (take n bs, drop n bs))"

definition duint :: "nat \<Rightarrow> nat decoder" where
  "duint n = dbind (dtake n) (\<lambda>bs. dreturn (be_value bs))"

definition dcount :: "nat \<Rightarrow> nat decoder" where
  "dcount limit = dbind (duint 4) (\<lambda>n. dbind (dfail_if (limit < n) CountLimit) (\<lambda>_. dreturn n))"

definition dbounded :: "nat \<Rightarrow> worker_message \<Rightarrow> bytes decoder" where
  "dbounded limit e = dbind (duint 4) (\<lambda>n. dbind (dfail_if (limit < n) e) (\<lambda>_. dtake n))"

definition dbytes :: "bytes decoder" where
  "dbytes = dbounded FIELD_LIMIT FieldLimit"

definition dlarge_bytes :: "bytes decoder" where
  "dlarge_bytes = dbounded OUTPUT_LIMIT OutputLimit"

definition dstring :: "bytes decoder" where
  "dstring = dbind dbytes (\<lambda>bs. dbind (dfail_if (\<not> utf8_valid bs) NotUtf8) (\<lambda>_. dreturn bs))"

fun dmany :: "nat \<Rightarrow> 'a decoder \<Rightarrow> 'a list decoder" where
  "dmany 0 d = dreturn []"
| "dmany (Suc n) d = dbind d (\<lambda>v. dbind (dmany n d) (\<lambda>vs. dreturn (v # vs)))"

definition dlist :: "nat \<Rightarrow> 'a decoder \<Rightarrow> 'a list decoder" where
  "dlist limit d = dbind (dcount limit) (\<lambda>n. dmany n d)"

definition dheader :: "nat \<Rightarrow> unit decoder" where
  "dheader kind =
     dbind (duint 2) (\<lambda>version.
     dbind (dfail_if (version \<noteq> WORKER_PROTOCOL_VERSION) (FrameVersion version)) (\<lambda>_.
     dbind (duint 1) (\<lambda>k. dfail_if (k \<noteq> kind) FrameKind)))"




definition dfinish :: "unit decoder" where
  "dfinish bs = (if bs = [] then Inr ((), bs) else Inl FrameTrailing)"




section \<open>Responses\<close>

definition encode_cancel :: bytes where
  "encode_cancel = encode_header 2"

definition decode_cancel :: "bytes \<Rightarrow> (worker_message, unit) result" where
  "decode_cancel fr = rbind (dbind (dheader 2) (\<lambda>_. dfinish) fr) (\<lambda>_. Inr ())"

text \<open>An exit status is an \<open>i32\<close>.\<close>

definition i32_bytes :: "int \<Rightarrow> bytes" where
  "i32_bytes v = be_bytes 4 (unat (word_of_int v :: u32))"

definition i32_value :: "nat \<Rightarrow> int" where
  "i32_value n = sint (of_nat n :: u32)"

definition encode_output :: "command_output \<Rightarrow> (command_error, bytes) result" where
  "encode_output out =
     rbind (encode_large_bytes (co_stdout out)) (\<lambda>stdout.
     rbind (encode_large_bytes (co_stderr out)) (\<lambda>stderr.
     encode_finish FRAME_LIMIT (encode_header 3 @ [0] @
       (case co_status out of Some status \<Rightarrow> [1] @ i32_bytes status | None \<Rightarrow> [0]) @ [of_bool (co_timed_out out)] @ stdout @ stderr)))"

text \<open>A message is cut at the last boundary of a character within the limit.\<close>

definition is_char_boundary :: "bytes \<Rightarrow> nat \<Rightarrow> bool" where
  "is_char_boundary s n \<longleftrightarrow> n = 0 \<or> n = length s \<or> (n < length s \<and> \<not> between 0x80 0xBF (s ! n))"

fun boundary_before :: "bytes \<Rightarrow> nat \<Rightarrow> nat" where
  "boundary_before s 0 = 0"
| "boundary_before s (Suc n) = (if is_char_boundary s (Suc n) then Suc n else boundary_before s n)"

definition encode_failure :: "bytes \<Rightarrow> (command_error, bytes) result" where
  "encode_failure message =
     (let field = encode_bytes (take (boundary_before message (min (length message) FIELD_LIMIT)) message) in
      encode_finish FRAME_LIMIT (encode_header 3 @ [1] @ (case field of Inr bs \<Rightarrow> bs | Inl _ \<Rightarrow> [])))"

definition dresponse :: "(bytes + command_output) decoder" where
  "dresponse =
     dbind (dheader 3) (\<lambda>_.
     dbind (duint 1) (\<lambda>kind.
     if kind = 0 then
       dbind (duint 1) (\<lambda>flag.
       dbind (if flag = 0 then dreturn None
              else if flag = 1 then dbind (duint 4) (\<lambda>n. dreturn (Some (i32_value n)))
              else dbind (dfail_if True StatusFlag) (\<lambda>_. dreturn None)) (\<lambda>status.
       dbind (duint 1) (\<lambda>timed_out.
       dbind dlarge_bytes (\<lambda>stdout.
       dbind dlarge_bytes (\<lambda>stderr.
       dbind dfinish (\<lambda>_.
       dreturn (Inr \<lparr>co_status = status, co_timed_out = timed_out \<noteq> 0, co_stdout = stdout, co_stderr = stderr\<rparr>)))))))
     else if kind = 1 then dbind dstring (\<lambda>message. dbind dfinish (\<lambda>_. dreturn (Inl message)))
     else dbind (dfail_if True ResponseKind) (\<lambda>_. dreturn (Inl []))))"

definition decode_response :: "bytes \<Rightarrow> (command_error, command_output) result" where
  "decode_response fr =
     rbind (map_err CommandProtocol (dresponse fr)) (\<lambda>(r, _). case r of Inl message \<Rightarrow> Inl (CommandWorker message) | Inr out \<Rightarrow> Inr out)"

text \<open>The frames themselves; a frame that is too long to announce, or to accept, is an error of the stream.\<close>

definition worker_write_frame :: "bytes \<Rightarrow> bytes option" where
  "worker_write_frame fr = (if length fr < 2 ^ 32 then Some (be_bytes 4 (length fr) @ fr) else None)"

definition worker_read_frame :: "nat \<Rightarrow> bytes \<Rightarrow> (bytes \<times> bytes) option" where
  "worker_read_frame limit bs =
     (if length bs < 4 then None
      else let n = be_value (take 4 bs); rest = drop 4 bs in
        if limit < n \<or> length rest < n then None else Some (take n rest, drop n rest))"

section \<open>What is encoded decodes to the same\<close>

section \<open>What is encoded is decoded\<close>

lemma be_bytes_Suc: "be_bytes (Suc n) v = of_nat (v div 256 ^ n mod 256) # be_bytes n v"
  by (simp add: be_bytes_def)

lemma length_be_bytes [simp]: "length (be_bytes n v) = n"
  by (simp add: be_bytes_def)

lemma foldl_be_bytes: "foldl (\<lambda>acc b. acc * 256 + unat (b :: u8)) a (be_bytes n v) = a * 256 ^ n + v mod 256 ^ n"
proof (induction n arbitrary: a)
  case 0
  then show ?case by (simp add: be_bytes_def)
next
  case (Suc n)
  have byte: "unat (of_nat (m mod 256) :: u8) = m mod 256" for m by (simp add: unat_of_nat)
  have "v mod 256 ^ Suc n = v div 256 ^ n mod 256 * 256 ^ n + v mod 256 ^ n"
    using mod_mult2_eq[of v "256 ^ n" 256] by (simp add: mult.commute)
  with Suc show ?case by (simp add: be_bytes_Suc byte algebra_simps)
qed

lemma be_value_bytes: "v < 256 ^ n \<Longrightarrow> be_value (be_bytes n v) = v"
  by (simp add: be_value_def foldl_be_bytes)

lemma dtake_append: "length bs = n \<Longrightarrow> dtake n (bs @ rest) = Inr (bs, rest)"
  by (simp add: dtake_def)

lemma duint_be: "v < 256 ^ n \<Longrightarrow> duint n (be_bytes n v @ rest) = Inr (v, rest)"
  by (simp add: duint_def dbind_def dtake_append dreturn_def be_value_bytes)

lemma duint_byte [simp]: "duint (Suc 0) (b # rest) = Inr (unat b, rest)"
  by (simp add: duint_def dbind_def dtake_def dreturn_def be_value_def)

lemma dfail_if_False: "dfail_if False e bs = Inr ((), bs)"
  by (simp add: dfail_if_def)

text \<open>
  The interface of a field: what its encoder writes, its decoder reads, whatever follows, for values the field may have.
  Lists of fields then have it too.
\<close>

locale field_codec =
  fixes enc :: "'a \<Rightarrow> (command_error, bytes) result" and dec :: "'a decoder" and ok :: "'a \<Rightarrow> bool"
  assumes dec_enc: "ok v \<Longrightarrow> enc v = Inr bs \<Longrightarrow> dec (bs @ rest) = Inr (v, rest)"
begin

lemma dec_many: "list_all ok vs \<Longrightarrow> encode_many enc vs = Inr bs \<Longrightarrow> dmany (length vs) dec (bs @ rest) = Inr (vs, rest)"
  by (induction vs arbitrary: bs) (auto simp: dreturn_def rbind_Inr_iff dec_enc dbind_def append.assoc)

lemma dec_list:
  assumes "list_all ok vs" "encode_list enc vs = Inr bs" "length vs \<le> limit"
  shows "dlist limit dec (bs @ rest) = Inr (vs, rest)"
proof -
  from assms(2) obtain cs where cs: "length vs < 2 ^ 32" "encode_many enc vs = Inr cs" "bs = be_bytes 4 (length vs) @ cs"
    by (auto simp: encode_list_def checked_count_def rbind_Inr_iff split: if_splits)
  then have "duint 4 (bs @ rest) = Inr (length vs, cs @ rest)" using duint_be[of "length vs" 4] by simp
  with dec_many[OF assms(1) cs(2)] assms(3) show ?thesis
    by (simp add: dlist_def dcount_def dbind_def dfail_if_False dreturn_def)
qed

end

lemma dbounded_encoded:
  assumes "encode_bounded limit too_large exceeded v = Inr bs"
  shows "dbounded limit e (bs @ rest) = Inr (v, rest)"
proof -
  from assms have v: "length v < 2 ^ 32" "length v \<le> limit" "bs = be_bytes 4 (length v) @ v"
    by (auto simp: encode_bounded_def split: if_splits)
  then have "duint 4 (bs @ rest) = Inr (length v, v @ rest)" using duint_be[of "length v" 4] by simp
  with v show ?thesis by (simp add: dbounded_def dbind_def dfail_if_False dtake_append)
qed


interpretation field: field_codec encode_bytes dbytes "\<lambda>_. True"
  by unfold_locales (simp add: encode_bytes_def dbytes_def dbounded_encoded)

interpretation large_field: field_codec encode_large_bytes dlarge_bytes "\<lambda>_. True"
  by unfold_locales (simp add: encode_large_bytes_def dlarge_bytes_def dbounded_encoded)

interpretation text_field: field_codec encode_bytes dstring utf8_valid
  by unfold_locales (simp add: dstring_def field.dec_enc dbind_def dfail_if_False dreturn_def)

lemma dheader_encoded: "dheader (unat kind) (encode_header kind @ rest) = Inr ((), rest)"
proof -
  have "duint 2 (be_bytes 2 WORKER_PROTOCOL_VERSION @ kind # rest) = Inr (WORKER_PROTOCOL_VERSION, kind # rest)"
    by (rule duint_be) (simp add: WORKER_PROTOCOL_VERSION_def)
  then show ?thesis
    by (simp add: dheader_def encode_header_def dbind_def dfail_if_False duint_byte)
qed












section \<open>The command that was checked\<close>





lemma text_bytes_Nil [simp]: "text_bytes s = [] \<longleftrightarrow> s = []"
  by (simp add: text_bytes_def)







text \<open>The answer of the worker, and that its failures always have a frame.\<close>

lemma i32_roundtrip: "- (2 ^ 31) \<le> v \<Longrightarrow> v < 2 ^ 31 \<Longrightarrow> i32_value (unat (word_of_int v :: u32)) = v"
  by (simp add: i32_value_def sint_sbintrunc' signed_take_bit_int_eq_self)

lemma worker_output_roundtrip:
  assumes "encode_output out = Inr fr" "\<And>v. co_status out = Some v \<Longrightarrow> - (2 ^ 31) \<le> v \<and> v < 2 ^ 31"
  shows "decode_response fr = Inr out"
proof -
  from assms(1) obtain so se where bs: "encode_large_bytes (co_stdout out) = Inr so" "encode_large_bytes (co_stderr out) = Inr se"
    and fr: "fr = encode_header 3 @ [0] @ (case co_status out of Some status \<Rightarrow> [1] @ i32_bytes status | None \<Rightarrow> [0]) @
      [of_bool (co_timed_out out)] @ so @ se"
    by (auto simp: encode_output_def encode_finish_def rbind_Inr_iff split: if_splits)
  have header: "dheader 3 (encode_header 3 @ s) = Inr ((), s)" for s using dheader_encoded[of 3 s] by simp
  have so: "dlarge_bytes (so @ s) = Inr (co_stdout out, s)" for s by (rule large_field.dec_enc[OF _ bs(1)]) simp
  have se: "dlarge_bytes se = Inr (co_stderr out, [])" using large_field.dec_enc[OF _ bs(2), of "[]"] by simp
  have status: "duint 4 (i32_bytes v @ s) = Inr (unat (word_of_int v :: u32), s)" for v s
    unfolding i32_bytes_def by (rule duint_be) (use unsigned_less[of "word_of_int v :: u32"] in simp)
  show ?thesis
    using assms(2) i32_roundtrip
    by (cases "co_status out")
      (simp_all add: fr decode_response_def dresponse_def dbind_def dreturn_def header so se status dfinish_def)
qed

lemma boundary_before_le: "boundary_before s n \<le> n"
  by (induction n) auto

lemma encode_failure_total: "\<exists>fr. encode_failure message = Inr fr"
proof -
  have "length (take (boundary_before message (min (length message) FIELD_LIMIT)) message) \<le> FIELD_LIMIT"
    using boundary_before_le[of message "min (length message) FIELD_LIMIT"] by simp
  then show ?thesis
    by (auto simp: encode_failure_def encode_finish_def encode_bytes_def encode_bounded_def encode_header_def FRAME_LIMIT_def FIELD_LIMIT_def)
qed

lemma boundary_before_length: "boundary_before s (length s) = length s"
  by (cases "length s") (simp_all add: is_char_boundary_def)

text \<open>A message that fits into a field comes back whole as the error of the worker.\<close>

lemma worker_failure_roundtrip:
  assumes "utf8_valid message" "length message \<le> FIELD_LIMIT" "encode_failure message = Inr fr"
  shows "decode_response fr = Inl (CommandWorker message)"
proof -
  obtain bs where bs: "encode_bytes message = Inr bs"
    using assms(2) by (auto simp: encode_bytes_def encode_bounded_def FIELD_LIMIT_def)
  with assms(2,3) have fr: "fr = encode_header 3 @ [1] @ bs"
    by (auto simp: encode_failure_def boundary_before_length encode_finish_def min_absorb1 split: if_splits)
  have "dheader 3 (encode_header 3 @ s) = Inr ((), s)" for s using dheader_encoded[of 3 s] by simp
  moreover have "dstring bs = Inr (message, [])" using text_field.dec_enc[OF _ bs, of "[]"] assms(1) by simp
  ultimately show ?thesis
    by (simp add: fr decode_response_def dresponse_def dbind_def dreturn_def dfinish_def)
qed

lemma worker_frame_roundtrip:
  assumes "worker_write_frame fr = Some bs" "length fr \<le> limit"
  shows "worker_read_frame limit (bs @ rest) = Some (fr, rest)"
proof -
  from assms(1) have bs: "bs = be_bytes 4 (length fr) @ fr" and len: "length fr < 2 ^ 32"
    by (auto simp: worker_write_frame_def split: if_splits)
  have "duint 4 (be_bytes 4 (length fr) @ fr @ rest) = Inr (length fr, fr @ rest)"
    by (rule duint_be) (use len in simp)
  then have "be_value (take 4 (bs @ rest)) = length fr" "drop 4 (bs @ rest) = fr @ rest" "4 \<le> length (bs @ rest)"
    by (auto simp: bs duint_def dbind_def dreturn_def dtake_def split: if_splits)
  moreover have "take (length fr) (fr @ rest) = fr" "drop (length fr) (fr @ rest) = rest" by simp_all
  ultimately show ?thesis using assms(2) by (simp add: worker_read_frame_def Let_def del: take_append drop_append)
qed


end
