(* ===== verification/Dev_Shell.thy ===== *)
theory Dev_Shell
  imports Dev_Request
begin

text \<open>
  Command lines (\<open>src/crates/dev-env-shell/src/{command,adapter,invocation,shim}.rs\<close>): a program with its arguments,
  the ways a configured shell is started, and the shim. Every argument is one element of the argument vector;
  a command line is data and only its last use would start a process.
\<close>

section \<open>Command lines\<close>

datatype command_line_error = EmptyProgram | NulProgram | NulArgument nat | CommandEnvironment dev_error

record command_line =
  cm_program :: string
  cm_args :: "string list"

fun check_args :: "nat \<Rightarrow> string list \<Rightarrow> (command_line_error, unit) result" where
  "check_args index [] = Inr ()"
| "check_args index (argument # arguments) =
     (if has_char argument (CHR 0x00) then Inl (NulArgument index) else check_args (Suc index) arguments)"

definition command_line_validate :: "command_line \<Rightarrow> (command_line_error, unit) result" where
  "command_line_validate line =
     rbind (fail_if (cm_program line = []) EmptyProgram) (\<lambda>_.
     rbind (fail_if (has_char (cm_program line) (CHR 0x00)) NulProgram) (\<lambda>_.
     check_args 0 (cm_args line)))"

definition command_line_try_new :: "string \<Rightarrow> string list \<Rightarrow> (command_line_error, command_line) result" where
  "command_line_try_new program args =
     (let line = \<lparr>cm_program = program, cm_args = args\<rparr> in rbind (command_line_validate line) (\<lambda>_. Inr line))"

text \<open>A \<open>Command\<close> after \<open>env_clear\<close>: the variables are those set afterwards.\<close>

record process_command =
  pm_program :: string
  pm_args :: "string list"
  pm_environment :: "(string, string) btree_map"

definition command_with_environment :: "command_line \<Rightarrow> materialized_env \<Rightarrow> (command_line_error, process_command) result" where
  "command_with_environment line env =
     rbind (command_line_validate line) (\<lambda>_.
     rbind (map_err CommandEnvironment (materialized_validate env)) (\<lambda>_.
     Inr \<lparr>pm_program = cm_program line, pm_args = cm_args line,
       pm_environment = btree_collect (map (\<lambda>(name, v). (name, ev_value v)) (me_values env))\<rparr>))"

section \<open>Configured shells\<close>

datatype shell_build_error = ShellModel dev_error | MissingCommandArgument string | ShellCommandLine command_line_error

definition build_with_configured_args :: "string \<Rightarrow> string list \<Rightarrow> string list \<Rightarrow> (shell_build_error, command_line) result" where
  "build_with_configured_args program configured extra = map_err ShellCommandLine (command_line_try_new program (configured @ extra))"

definition build_interactive :: "string \<Rightarrow> shell_config \<Rightarrow> string list \<Rightarrow> (shell_build_error, command_line) result" where
  "build_interactive sid config args =
     rbind (map_err ShellModel (shell_config_validate config sid)) (\<lambda>_.
     build_with_configured_args (sh_command config) (sh_interactive_args config) args)"

definition build_login :: "string \<Rightarrow> shell_config \<Rightarrow> string list \<Rightarrow> (shell_build_error, command_line) result" where
  "build_login sid config args =
     rbind (map_err ShellModel (shell_config_validate config sid)) (\<lambda>_.
     let configured = (if args = [] then sh_login_args config @ sh_interactive_args config else sh_login_args config) in
     build_with_configured_args (sh_command config) configured args)"

definition build_command :: "string \<Rightarrow> shell_config \<Rightarrow> string \<Rightarrow> (shell_build_error, command_line) result" where
  "build_command sid config script =
     rbind (map_err ShellModel (shell_config_validate config sid)) (\<lambda>_.
     rbind (ok_or (MissingCommandArgument sid) (sh_command_arg config)) (\<lambda>command_arg.
     build_with_configured_args (sh_command config) [command_arg] [script]))"

datatype invocation = Interactive "string list" | Login "string list" | ScriptCommand string

datatype invocation_error = InvocationBuild shell_build_error

definition build_invocation :: "string \<Rightarrow> shell_config \<Rightarrow> invocation \<Rightarrow> (invocation_error, command_line) result" where
  "build_invocation sid config request =
     (case request of
        Interactive args \<Rightarrow> map_err InvocationBuild (build_interactive sid config args)
      | Login args \<Rightarrow> map_err InvocationBuild (build_login sid config args)
      | ScriptCommand script \<Rightarrow> map_err InvocationBuild (build_command sid config script))"

section \<open>Shims\<close>

datatype shim_path_error = ShimEmpty | ShimRelative | ShimNul

datatype shim_error = InvalidRealPath string shim_path_error | ShimRecursive string string | ShimCommandLine command_line_error

record shim =
  sm_real :: string
  sm_configured_command :: "string option"

definition validate_real_path :: "string \<Rightarrow> (shim_error, unit) result" where
  "validate_real_path path =
     (if path = [] then Inl (InvalidRealPath path ShimEmpty)
      else if has_char path (CHR 0x00) then Inl (InvalidRealPath path ShimNul)
      else if \<not> is_absolute path then Inl (InvalidRealPath path ShimRelative)
      else Inr ())"

text \<open>Paths are compared by their components.\<close>

definition validate_configured_command :: "shim \<Rightarrow> string \<Rightarrow> (shim_error, unit) result" where
  "validate_configured_command s configured =
     rbind (validate_real_path (sm_real s)) (\<lambda>_.
     fail_if (components (sm_real s) = components configured) (ShimRecursive (sm_real s) configured))"

definition shim_build :: "shim \<Rightarrow> string list \<Rightarrow> (shim_error, command_line) result" where
  "shim_build s args =
     rbind (validate_real_path (sm_real s)) (\<lambda>_.
     rbind (when_some (sm_configured_command s) (validate_configured_command s)) (\<lambda>_.
     map_err ShimCommandLine (command_line_try_new (sm_real s) args)))"

section \<open>What a command line is\<close>

abbreviation nul_free :: "string \<Rightarrow> bool" where
  "nul_free s \<equiv> \<not> has_char s (CHR 0x00)"

lemma check_args_Inr: "check_args index args = Inr () \<longleftrightarrow> list_all nul_free args"
  by (induction args arbitrary: index) auto

lemma check_args_Inl:
  "check_args index args = Inl e \<longleftrightarrow>
     (\<exists>n < length args. e = NulArgument (index + n) \<and> \<not> nul_free (args ! n) \<and> list_all nul_free (take n args))"
proof (induction args arbitrary: index)
  case (Cons a args)
  show ?case
  proof (cases "nul_free a")
    case True
    have "(\<exists>n < length (a # args). e = NulArgument (index + n) \<and> \<not> nul_free ((a # args) ! n) \<and> list_all nul_free (take n (a # args))) \<longleftrightarrow>
      (\<exists>n < length args. e = NulArgument (Suc index + n) \<and> \<not> nul_free (args ! n) \<and> list_all nul_free (take n args))"
      using True by (simp add: Ex_less_Suc2)
    then show ?thesis using True Cons by simp
  next
    case False
    have "(\<exists>n < length (a # args). e = NulArgument (index + n) \<and> \<not> nul_free ((a # args) ! n) \<and> list_all nul_free (take n (a # args))) \<longleftrightarrow>
      e = NulArgument index"
      using False by (auto simp: Ex_less_Suc2)
    then show ?thesis using False by auto
  qed
qed simp

lemma command_line_try_new_Inr:
  "command_line_try_new program args = Inr line \<longleftrightarrow>
     line = \<lparr>cm_program = program, cm_args = args\<rparr> \<and> program \<noteq> [] \<and> nul_free program \<and> list_all nul_free args"
  by (auto simp: command_line_try_new_def command_line_validate_def Let_def result_simps check_args_Inr)

text \<open>The arguments a way of starting the shell gives it.\<close>

fun invocation_argv :: "shell_config \<Rightarrow> invocation \<Rightarrow> string list option" where
  "invocation_argv config (Interactive args) = Some (sh_interactive_args config @ args)"
| "invocation_argv config (Login []) = Some (sh_login_args config @ sh_interactive_args config)"
| "invocation_argv config (Login args) = Some (sh_login_args config @ args)"
| "invocation_argv config (ScriptCommand script) = map_option (\<lambda>a. [a, script]) (sh_command_arg config)"

text \<open>
  A shell is started with the arguments of its configuration and then those of the caller, each of them unchanged. The
  argument vector is the configured arguments of the mode followed by the given ones, where a login shell without
  arguments gets the interactive ones too; it is built exactly when the configuration is valid, the mode is configured and
  no argument has a NUL.
\<close>

lemma invocation_argv_exact:
  "build_invocation sid config request = Inr line \<longleftrightarrow>
     shell_config_validate config sid = Inr () \<and> invocation_argv config request = Some (cm_args line) \<and> cm_program line = sh_command config \<and>
     sh_command config \<noteq> [] \<and> nul_free (sh_command config) \<and> list_all nul_free (cm_args line)"
proof (cases request)
  case (Interactive args)
  then show ?thesis
    by (cases line) (auto simp: build_invocation_def build_interactive_def build_with_configured_args_def result_simps command_line_try_new_Inr)
next
  case (Login args)
  then show ?thesis
    by (cases line; cases args)
      (auto simp: build_invocation_def build_login_def build_with_configured_args_def result_simps command_line_try_new_Inr)
next
  case (ScriptCommand script)
  then show ?thesis
    by (cases line) (auto simp: build_invocation_def build_command_def build_with_configured_args_def result_simps command_line_try_new_Inr)
qed

text \<open>A shim runs the real program, given by an absolute path, with the arguments of the caller and nothing else.\<close>

lemma shim_build_Inr:
  "shim_build s args = Inr line \<longleftrightarrow>
     line = \<lparr>cm_program = sm_real s, cm_args = args\<rparr> \<and> is_absolute (sm_real s) \<and> nul_free (sm_real s) \<and> list_all nul_free args \<and>
     (\<forall>configured. sm_configured_command s = Some configured \<longrightarrow> components (sm_real s) \<noteq> components configured)"
proof -
  have "validate_real_path path = Inr () \<longleftrightarrow> path \<noteq> [] \<and> nul_free path \<and> is_absolute path" for path
    by (simp add: validate_real_path_def)
  then show ?thesis
    by (auto simp: shim_build_def validate_configured_command_def result_simps command_line_try_new_Inr is_absolute_def)
qed

end
