(* ===== verification/Condition_Grammar.thy ===== *)
theory Condition_Grammar
  imports Condition_Expr
begin

text \<open>
  Correctness of the parser of \<open>condition-expr\<close>: a reference automaton for nesting, a
  printer that writes parentheses only where precedence needs them, the round trip, and
  that a successful parse has read a well-nested text.
\<close>

section \<open>White space around a text\<close>

lemma strip_pats_decompose: "\<exists>qs. set qs \<subseteq> set ps \<and> s = concat qs @ strip_pats ps s"
proof (induction ps s rule: strip_pats.induct)
  case (1 ps s)
  show ?case
  proof (cases "s = [] \<or> pat_len ps s = 0")
    case True
    then show ?thesis by (intro exI [of _ "[]"]) (auto simp: strip_pats.simps [of ps s])
  next
    case False
    then have "pat_len ps s \<noteq> 0" by simp
    then obtain p where p: "p \<in> set ps" "prefix p s" "pat_len ps s = length p"
      by (rule pat_len_prefix)
    from False "1.IH" obtain qs where qs: "set qs \<subseteq> set ps"
      "drop (length p) s = concat qs @ strip_pats ps (drop (length p) s)"
      using p(3) by auto
    from p(2) have "s = p @ drop (length p) s" by (auto simp: prefix_def)
    also have "\<dots> = concat (p # qs) @ strip_pats ps (drop (length p) s)"
      using qs(2) by simp
    also have "strip_pats ps (drop (length p) s) = strip_pats ps s"
      using False p(3) by (simp add: strip_pats.simps [of ps s])
    finally show ?thesis using p(1) qs(1) by (intro exI [of _ "p # qs"]) auto
  qed
qed

definition ws_char :: "char \<Rightarrow> bool" where
  "ws_char c \<longleftrightarrow> List.member ws_ascii c \<or> \<not> (of_char c :: nat) < 128"

lemma ws_patterns_chars: "list_all (list_all ws_char) ws_patterns"
  by code_simp

lemma trim_decompose:
  "\<exists>u v. s = u @ trim s @ v \<and> list_all ws_char u \<and> list_all ws_char v"
proof -
  obtain qs where qs: "set qs \<subseteq> set ws_patterns" "s = concat qs @ trim_start s"
    using strip_pats_decompose [of ws_patterns s] unfolding trim_start_def by blast
  obtain rs where rs: "set rs \<subseteq> set (map rev ws_patterns)"
    "rev (trim_start s) = concat rs @ strip_pats (map rev ws_patterns) (rev (trim_start s))"
    using strip_pats_decompose by blast
  from rs(2) have "trim_start s = trim s @ rev (concat rs)"
    unfolding trim_def trim_end_def by (metis rev_append rev_rev_ident)
  with qs(2) have "s = concat qs @ trim s @ rev (concat rs)" by simp
  moreover have "list_all ws_char (concat qs)"
    using qs(1) ws_patterns_chars by (fastforce simp: list_all_iff)
  moreover have "list_all ws_char (rev (concat rs))"
    using rs(1) ws_patterns_chars by (fastforce simp: list_all_iff)
  ultimately show ?thesis by blast
qed

lemma trim_not_Nil: "c \<in> set s \<Longrightarrow> \<not> ws_char c \<Longrightarrow> trim s \<noteq> []"
  using trim_decompose [of s] by (auto simp: list_all_iff)

lemma space_patterns:
  "list_all (\<lambda>p. List.member p (CHR '' '') \<longrightarrow> p = [CHR '' '']) ws_patterns"
  "find (\<lambda>p. prefix p (CHR '' '' # s)) ws_patterns = Some [CHR '' '']"
  "find (\<lambda>p. prefix p (CHR '' '' # s)) (map rev ws_patterns) = Some [CHR '' '']"
  by code_simp (simp_all add: ws_patterns_def ws_ascii_def)

lemma trim_start_space: "trim_start (CHR '' '' # s) = trim_start s"
  unfolding trim_start_def
  by (subst strip_pats.simps) (simp add: pat_len_def space_patterns)

lemma trim_end_space: "trim_end (s @ [CHR '' '']) = trim_end s"
  unfolding trim_end_def
  by (subst strip_pats.simps) (simp add: pat_len_def space_patterns)

lemma trim_space_left [simp]: "trim (CHR '' '' # s) = trim s"
  by (simp add: trim_def trim_start_space)

lemma pat_len_before_space:
  assumes "[] \<notin> set ps" "list_all (\<lambda>p. List.member p (CHR '' '') \<longrightarrow> p = [CHR '' '']) ps"
    and "pat_len ps s = 0" "s \<noteq> []"
  shows "pat_len ps (s @ CHR '' '' # t) = 0"
proof -
  have "\<not> prefix q (s @ CHR '' '' # t)" if q: "q \<in> set ps" for q
  proof
    assume pre: "prefix q (s @ CHR '' '' # t)"
    from assms(1,3) q have "\<not> prefix q s" by (auto simp: pat_len_0_iff)
    with pre obtain us where eq: "q = s @ us" "prefix us (CHR '' '' # t)" "us \<noteq> []"
      by (auto simp: prefix_append)
    then have "List.member q (CHR '' '')" by (cases us) auto
    with q assms(2) have "q = [CHR '' '']" unfolding list_all_iff by blast
    with eq assms(4) show False by (cases s) auto
  qed
  with assms(1) show ?thesis by (simp add: pat_len_0_iff)
qed

lemma space_patterns_rev:
  "list_all (\<lambda>p. List.member p (CHR '' '') \<longrightarrow> p = [CHR '' '']) (map rev ws_patterns)"
  by code_simp

lemma trimmed_spaced:
  assumes "trimmed p" "p \<noteq> []" "trimmed q" "q \<noteq> []"
  shows "trimmed (p @ [CHR '' ''] @ m @ [CHR '' ''] @ q)"
  using assms pat_len_before_space [OF ws_patterns_nonempty(1) space_patterns(1), of p]
    pat_len_before_space [OF ws_patterns_nonempty(2) space_patterns_rev, of "rev q"]
  by (simp add: trimmed_def)

lemma trim_space_right:
  assumes "trimmed p" "p \<noteq> []"
  shows "trim (p @ [CHR '' '']) = p"
proof -
  have "trim_start (p @ [CHR '' '']) = p @ [CHR '' '']"
    unfolding trim_start_def using assms
    by (intro strip_pats_id pat_len_before_space ws_patterns_nonempty space_patterns(1))
      (auto simp: trimmed_def)
  moreover have "trim_end p = p" using assms(1)
    by (simp add: trimmed_def trim_end_def strip_pats_id)
  ultimately show ?thesis by (simp add: trim_def trim_end_space)
qed

section \<open>Nesting\<close>

fun nest :: "string \<Rightarrow> nat \<Rightarrow> char option \<Rightarrow> (nat \<times> char option) option" where
  "nest [] depth quote = Some (depth, quote)"
| "nest (c # cs) depth quote =
     (case quote of
        Some expected \<Rightarrow> nest cs depth (if c = expected then None else quote)
      | None \<Rightarrow>
          if c = squote \<or> c = dquote then nest cs depth (Some c)
          else if c = lparen then nest cs (Suc depth) None
          else if c = rparen then (if depth = 0 then None else nest cs (depth - 1) None)
          else nest cs depth None)"

definition well_nested :: "string \<Rightarrow> bool" where
  "well_nested s \<longleftrightarrow> nest s 0 None = Some (0, None)"

fun quiet :: "char \<Rightarrow> string \<Rightarrow> nat \<Rightarrow> char option \<Rightarrow> bool" where
  "quiet n [] depth quote = True"
| "quiet n (c # cs) depth quote =
     (case quote of
        Some expected \<Rightarrow> quiet n cs depth (if c = expected then None else quote)
      | None \<Rightarrow>
          if c = squote \<or> c = dquote then quiet n cs depth (Some c)
          else if c = lparen then quiet n cs (Suc depth) None
          else if c = rparen then depth \<noteq> 0 \<and> quiet n cs (depth - 1) None
          else (depth \<noteq> 0 \<or> c \<noteq> n) \<and> quiet n cs depth None)"

lemma nest_append:
  "nest (s @ t) d q = (case nest s d q of None \<Rightarrow> None | Some (d', q') \<Rightarrow> nest t d' q')"
  by (induction s arbitrary: d q) (simp_all split: option.split)

lemma nest_Suc: "nest s d q = Some (d', q') \<Longrightarrow> nest s (Suc d) q = Some (Suc d', q')"
proof (induction s arbitrary: d q)
  case (Cons c s)
  then show ?case by (cases q; cases d) (auto split: if_splits)
qed simp

lemma nest_shift: "nest s d q = Some (d', q') \<Longrightarrow> nest s (d + k) q = Some (d' + k, q')"
  by (induction k) (simp_all add: nest_Suc)

lemma well_nested_append: "well_nested s \<Longrightarrow> well_nested t \<Longrightarrow> well_nested (s @ t)"
  by (simp add: well_nested_def nest_append)

lemma nest_well_nested: "well_nested s \<Longrightarrow> nest s d None = Some (d, None)"
  using nest_shift [of s 0 None 0 None d] by (simp add: well_nested_def)

lemma well_nested_paren: "well_nested s \<Longrightarrow> well_nested (lparen # s @ [rparen])"
  using nest_well_nested [of s "Suc 0"] by (simp add: well_nested_def nest_append)

lemma quiet_append:
  "nest s d q = Some (d', q') \<Longrightarrow> quiet n (s @ t) d q \<longleftrightarrow> quiet n s d q \<and> quiet n t d' q'"
proof (induction s arbitrary: d q)
  case (Cons c s)
  then show ?case by (cases q) (auto split: if_splits)
qed simp

lemma quiet_deep: "nest s k q = Some (k', q') \<Longrightarrow> quiet n s (Suc k) q"
proof (induction s arbitrary: k q)
  case (Cons c s)
  then show ?case by (cases q; cases k) (auto split: if_splits)
qed simp

lemma scan_quiet:
  "nest s d q = Some (d', q') \<Longrightarrow> quiet n s d q \<Longrightarrow>
     scan_from (n # ns) (s @ rest) cursor d q =
     scan_from (n # ns) rest (cursor + length s) d' q'"
proof (induction s arbitrary: d q cursor)
  case (Cons c s)
  then show ?case by (cases q) (auto split: if_splits)
qed simp

lemma outer_close_nest:
  "nest s d q = Some (d', q') \<Longrightarrow>
     outer_close (s @ rest) i (Suc d) q = outer_close rest (i + length s) (Suc d') q'"
proof (induction s arbitrary: d q i)
  case (Cons c s)
  then show ?case by (cases q; cases d) (auto split: if_splits)
qed simp


section \<open>A successful parse read a well-nested text\<close>

definition inert :: "char \<Rightarrow> bool" where
  "inert c \<longleftrightarrow> c \<noteq> squote \<and> c \<noteq> dquote \<and> c \<noteq> lparen \<and> c \<noteq> rparen"

lemma nest_inert: "list_all inert s \<Longrightarrow> nest s d None = Some (d, None)"
  by (induction s) (auto simp: inert_def)

lemma ws_char_inert: "ws_char c \<Longrightarrow> inert c"
  by (auto simp: ws_char_def inert_def ws_ascii_def)

lemma nest_ws: "list_all ws_char s \<Longrightarrow> nest s d None = Some (d, None)"
  by (rule nest_inert) (auto simp: list_all_iff ws_char_inert)

lemma scan_from_nest:
  "list_all inert needle \<Longrightarrow> scan_from needle s cursor d q = Inr hits \<Longrightarrow>
     nest s d q = Some (0, None)"
proof (induction needle s cursor d q arbitrary: hits rule: scan_from.induct)
  case (1 needle cursor depth quote)
  then show ?case by (auto split: if_splits)
next
  case (2 needle c cs cursor depth quote)
  show ?case
  proof (cases "quote = None \<and> c \<noteq> squote \<and> c \<noteq> dquote \<and> c \<noteq> lparen \<and> c \<noteq> rparen \<and>
                depth = 0 \<and> starts_with (c # cs) needle")
    case True
    then obtain rest where rest:
      "scan_from needle (drop (length needle - 1) cs) (cursor + length needle) depth None = Inr rest"
      using "2.prems" by (auto simp: rbind_Inr_iff)
    with True "2.IH"(4) "2.prems"(1) have n: "nest (drop (length needle - 1) cs) depth None = Some (0, None)"
      by blast
    have "list_all inert (take (length needle - 1) cs)"
    proof -
      from True obtain zs where "c # cs = needle @ zs" by (auto simp: prefix_def)
      then have "take (length needle - 1) cs = tl needle" by (cases needle) auto
      with "2.prems"(1) show ?thesis by (cases needle) auto
    qed
    then have "nest (take (length needle - 1) cs @ drop (length needle - 1) cs) depth None
                 = Some (0, None)"
      using n by (simp only: nest_append nest_inert option.case prod.case)
    with True show ?thesis by simp
  next
    case False
    show ?thesis
    proof (cases quote)
      case None
      with False "2" show ?thesis by (auto split: if_splits)
    next
      case (Some a)
      with "2" show ?thesis by (cases "c = a") fastforce+
    qed
  qed
qed

lemma split_top_level_nested:
  "split_top_level input operator = Inr parts \<Longrightarrow> list_all inert operator \<Longrightarrow> well_nested input"
  using scan_from_nest [of operator input 0 0 None]
  by (auto simp: split_top_level_def scan_top_level_def rbind_Inr_iff well_nested_def)

lemma outer_close_index:
  "outer_close s i d q = Inr j \<Longrightarrow> i \<le> j \<and> j - i < length s \<and> s ! (j - i) = rparen"
proof (induction s arbitrary: i d q)
  case (Cons c s)
  have step: "\<And>d q. outer_close s (Suc i) d q = Inr j \<Longrightarrow>
      i \<le> j \<and> j - i < length (c # s) \<and> (c # s) ! (j - i) = rparen"
    using Cons.IH by (force simp: nth_Cons' Suc_diff_le split: if_splits)
  from Cons.prems show ?case by (cases q) (auto dest: step split: if_splits)
qed simp

lemma strip_outer_nested:
  "strip_outer_parentheses input = Inr s \<Longrightarrow> well_nested s \<Longrightarrow> well_nested input"
proof (induction input rule: strip_outer_parentheses.induct)
  case (1 input)
  show ?case
  proof (cases "strip_outer_parentheses input = Inr input")
    case True
    with "1.prems" show ?thesis by simp
  next
    case False
    with "1.prems" obtain i where start: "starts_with input [lparen]"
      and i: "outer_close input 0 0 None = Inr i"
      and tail: "trim (drop (Suc i) input) = []"
      and s: "strip_outer_parentheses (slice 1 i input) = Inr s"
      by (subst (asm) (1 2) strip_outer_parentheses.simps)
         (auto simp: rbind_Inr_iff split: if_splits)
    from "1.IH" [OF _ i tail s "1.prems"(2)] start have "well_nested (slice 1 i input)" by simp
    then have nested: "well_nested (lparen # slice 1 i input @ [rparen])"
      by (rule well_nested_paren)
    from outer_close_index [OF i] have close: "i < length input" "input ! i = rparen" by auto
    from start obtain r where r: "input = lparen # r" by (auto simp: prefix_def)
    with close have "0 < i" by (cases i) auto
    with r close have "input = (lparen # slice 1 i input @ [rparen]) @ drop (Suc i) input"
      using id_take_nth_drop [of "i - 1" r] by (cases i) (auto simp: slice_def)
    moreover have "list_all ws_char (drop (Suc i) input)"
      using trim_decompose [of "drop (Suc i) input"] tail by (auto simp: list_all_iff)
    then have "well_nested (drop (Suc i) input)" by (simp add: well_nested_def nest_ws)
    ultimately show ?thesis using nested well_nested_append by metis
  qed
qed

lemma parse_nested:
  assumes "parse raw = Inr e"
  shows "well_nested raw"
proof -
  from assms obtain s parts where s: "strip_outer_parentheses (trim raw) = Inr s"
    and parts: "split_top_level s ''||'' = Inr parts"
    by (subst (asm) parse.simps) (auto simp: rbind_Inr_iff Let_def split: if_splits)
  have "list_all inert ''||''" by (simp add: inert_def)
  with parts have "well_nested s" by (rule split_top_level_nested)
  with s have "well_nested (trim raw)" by (rule strip_outer_nested)
  moreover obtain u v where "raw = u @ trim raw @ v" "list_all ws_char u" "list_all ws_char v"
    using trim_decompose by blast
  ultimately show ?thesis
    by (metis nest_ws well_nested_append well_nested_def)
qed


section \<open>Printing\<close>

text \<open>
  The concrete syntax of an expression, with parentheses only where precedence needs them:
  \<open>||\<close> binds weakest, then \<open>&&\<close>, then \<open>!\<close>, then the comparisons. (An \<open>And\<close> directly in an \<open>And\<close>, and an
  \<open>Or\<close> in an \<open>Or\<close>, needs them to stay apart.)
\<close>

definition op_chars :: "char list" where
  "op_chars = [CHR ''|'', CHR ''&'', CHR ''!'', CHR ''='']"

text \<open>
  A text an operand may be: not empty, no white space at its ends, well nested, and no
  operator character outside quotes and parentheses.
\<close>

definition operand :: "string \<Rightarrow> bool" where
  "operand s \<longleftrightarrow> s \<noteq> [] \<and> trimmed s \<and> well_nested s \<and> list_all (\<lambda>n. quiet n s 0 None) op_chars"

definition leading_operand :: "string \<Rightarrow> bool" where
  "leading_operand s \<longleftrightarrow> operand s \<and> hd s \<noteq> lparen"

fun wf_expr :: "expr \<Rightarrow> bool" where
  "wf_expr (Atom a) = leading_operand a"
| "wf_expr (Equal l r) = (leading_operand l \<and> operand r)"
| "wf_expr (NotEqual l r) = (leading_operand l \<and> operand r)"
| "wf_expr (And es) = (2 \<le> length es \<and> list_all wf_expr es)"
| "wf_expr (Or es) = (2 \<le> length es \<and> list_all wf_expr es)"
| "wf_expr (Not e) = wf_expr e"

definition paren :: "string \<Rightarrow> string" where
  "paren s = lparen # s @ [rparen]"

definition in_or :: "expr \<Rightarrow> string \<Rightarrow> string" where
  "in_or e s = (case e of Or _ \<Rightarrow> paren s | _ \<Rightarrow> s)"

definition in_and :: "expr \<Rightarrow> string \<Rightarrow> string" where
  "in_and e s = (case e of Or _ \<Rightarrow> paren s | And _ \<Rightarrow> paren s | _ \<Rightarrow> s)"

fun print_expr :: "expr \<Rightarrow> string" where
  "print_expr (Atom a) = a"
| "print_expr (Equal l r) = l @ '' == '' @ r"
| "print_expr (NotEqual l r) = l @ '' != '' @ r"
| "print_expr (And es) = join '' && '' (map (\<lambda>e. in_and e (print_expr e)) es)"
| "print_expr (Or es) = join '' || '' (map (\<lambda>e. in_or e (print_expr e)) es)"
| "print_expr (Not e) = bang # in_and e (print_expr e)"

section \<open>Parsing what was printed\<close>

subsection \<open>Texts the scanners pass over\<close>

text \<open>\<open>calm ns s\<close>: well nested, trimmed, not empty, and no operator character of \<open>ns\<close> in the open.\<close>

definition calm :: "char list \<Rightarrow> string \<Rightarrow> bool" where
  "calm ns s \<longleftrightarrow> s \<noteq> [] \<and> trimmed s \<and> well_nested s \<and> list_all (\<lambda>n. quiet n s 0 None) ns"

lemma operand_calm: "operand s \<longleftrightarrow> calm op_chars s"
  by (simp add: operand_def calm_def)

lemma quiet_inert: "list_all inert s \<Longrightarrow> n \<notin> set s \<Longrightarrow> quiet n s 0 None"
  by (induction s) (auto simp: inert_def)

lemma quiet_well_nested_append:
  "well_nested s \<Longrightarrow> quiet n (s @ t) 0 None \<longleftrightarrow> quiet n s 0 None \<and> quiet n t 0 None"
  using quiet_append [of s 0 None 0 None n t] by (simp add: well_nested_def)

lemma quiet_paren: "well_nested s \<Longrightarrow> quiet n (paren s) 0 None"
  using quiet_append [OF nest_well_nested [of s "Suc 0"], of n "[rparen]"]
    quiet_deep [of s 0 None 0 None n]
  by (simp add: paren_def well_nested_def)

lemma trimmed_paren: "trimmed (paren s)"
  by (rule trimmedI) (auto simp: paren_def ws_ascii_def)

lemma calm_paren: "well_nested s \<Longrightarrow> calm ns (paren s)"
  using quiet_paren [of s] well_nested_paren [of s] trimmed_paren [of s]
  by (auto simp: calm_def list_all_iff) (simp_all add: paren_def)

subsection \<open>Hits\<close>

lemma scan_hit:
  assumes "inert n"
  shows "scan_from (n # ns) ((n # ns) @ rest) cursor 0 None =
     rbind (scan_from (n # ns) rest (cursor + length (n # ns)) 0 None) (\<lambda>hits. Inr (cursor # hits))"
  using assms by (simp add: inert_def)

lemma scan_space: "n \<noteq> CHR '' '' \<Longrightarrow>
    scan_from (n # ns) (CHR '' '' # rest) cursor 0 None = scan_from (n # ns) rest (Suc cursor) 0 None"
  by simp

lemma scan_calm:
  "well_nested s \<Longrightarrow> quiet n s 0 None \<Longrightarrow>
     scan_from (n # ns) (s @ rest) cursor 0 None = scan_from (n # ns) rest (cursor + length s) 0 None"
  using scan_quiet [of s 0 None 0 None n] by (simp add: well_nested_def)

text \<open>
  The operator \<open>n n\<close> between spaces, as \<open>print_expr\<close> writes \<open>||\<close> and \<open>&&\<close>: scanning the
  joined parts finds every operator, and cutting gives the parts back.
\<close>

abbreviation spaced :: "char \<Rightarrow> string" where
  "spaced n \<equiv> [CHR '' '', n, n, CHR '' '']"

lemma scan_joined:
  assumes "inert n" "n \<noteq> CHR '' ''" "ps \<noteq> []" "\<forall>p \<in> set ps. calm [n] p"
    and "input = pre @ [CHR '' ''] @ join (spaced n) ps"
  shows "\<exists>hits. scan_from [n, n] (join (spaced n) ps) (Suc (length pre)) 0 None = Inr hits \<and>
     cut_parts input 2 (length pre) hits = ps \<and> (hits = [] \<longleftrightarrow> length ps = 1)"
  using assms(3-5)
proof (induction ps arbitrary: pre)
  case Nil
  then show ?case by simp
next
  case (Cons p ps)
  then have p: "p \<noteq> []" "trimmed p" "well_nested p" "quiet n p 0 None" by (auto simp: calm_def)
  show ?case
  proof (cases "ps = []")
    case True
    have "scan_from [n, n] (p @ []) (Suc (length pre)) 0 None = Inr []"
      by (subst scan_calm [OF p(3,4)]) simp
    with True Cons.prems p show ?thesis by simp
  next
    case False
    define pre' where "pre' = pre @ [CHR '' ''] @ p @ [CHR '' '', n, n]"
    have input: "input = pre' @ [CHR '' ''] @ join (spaced n) ps"
      using Cons.prems(3) False by (simp add: join_Cons pre'_def)
    from Cons.IH [OF False _ input] Cons.prems(2) obtain hits where hits:
      "scan_from [n, n] (join (spaced n) ps) (Suc (length pre')) 0 None = Inr hits"
      "cut_parts input 2 (length pre') hits = ps" by auto
    let ?i = "Suc (Suc (length pre + length p))"
    have "scan_from [n, n] (p @ spaced n @ join (spaced n) ps) (Suc (length pre)) 0 None
        = rbind (Inr hits) (\<lambda>hits. Inr (?i # hits))"
      using hits(1) assms(1,2) unfolding scan_calm [OF p(3,4)]
      by (simp add: inert_def pre'_def)
    moreover have "slice (length pre) ?i input = CHR '' '' # p @ [CHR '' '']"
      using Cons.prems(3) False by (simp add: slice_def join_Cons)
    moreover have "length pre' = ?i + 2" by (simp add: pre'_def)
    ultimately show ?thesis using hits(2) False p
      by (auto simp: join_Cons trim_space_right)
  qed
qed

lemma split_joined:
  assumes "inert n" "n \<noteq> CHR '' ''" "2 \<le> length ps" "\<forall>p \<in> set ps. calm [n] p"
  shows "split_top_level (join (spaced n) ps) [n, n] = Inr ps"
proof -
  from assms(3) obtain p qs where ps: "ps = p # qs" "qs \<noteq> []" by (cases ps) fastforce+
  with assms(4) have p: "p \<noteq> []" "trimmed p" "well_nested p" "quiet n p 0 None"
    by (auto simp: calm_def)
  define input where "input = join (spaced n) ps"
  define pre where "pre = p @ [CHR '' '', n, n]"
  have input: "input = pre @ [CHR '' ''] @ join (spaced n) qs"
    using ps by (simp add: input_def pre_def join_Cons)
  from scan_joined [OF assms(1,2) ps(2) _ input] assms(4) ps obtain hits where hits:
    "scan_from [n, n] (join (spaced n) qs) (Suc (length pre)) 0 None = Inr hits"
    "cut_parts input 2 (length pre) hits = qs" by auto
  have "scan_top_level (p @ spaced n @ join (spaced n) qs) [n, n]
      = rbind (Inr hits) (\<lambda>hits. Inr (Suc (length p) # hits))"
    using hits(1) assms(1,2) unfolding scan_top_level_def scan_calm [OF p(3,4)]
    by (simp add: inert_def pre_def)
  then have scan: "scan_top_level input [n, n] = Inr (Suc (length p) # hits)"
    using ps by (simp add: input_def join_Cons)
  have "slice 0 (Suc (length p)) input = p @ [CHR '' '']"
    using ps by (simp add: slice_def input_def join_Cons)
  then have cut: "cut_parts input (length [n, n]) 0 (Suc (length p) # hits) = ps"
    using hits(2) ps p by (simp add: trim_space_right pre_def numeral_2_eq_2)
  have "\<not> list_ex (\<lambda>part. part = []) ps"
    using assms(4) by (auto simp: list_ex_iff calm_def)
  then show ?thesis
    unfolding split_top_level_def input_def [symmetric] scan rbind.simps Let_def cut by simp
qed

lemma split_calm:
  assumes "calm [n] s"
  shows "split_top_level s [n, n] = Inr [s]"
  using assms scan_calm [of s n "[n]" "[]" 0]
  by (simp add: split_top_level_def scan_top_level_def calm_def)

subsection \<open>Outer parentheses\<close>

lemma outer_close_paren:
  "well_nested s \<Longrightarrow> outer_close (paren s @ rest) 0 0 None = Inr (Suc (length s))"
  using outer_close_nest [of s 0 None 0 None "rparen # rest" "Suc 0"]
  by (simp add: paren_def well_nested_def)

lemma strip_paren:
  assumes "well_nested s"
  shows "strip_outer_parentheses (paren s) = strip_outer_parentheses s"
proof -
  have "drop (Suc (Suc (length s))) (paren s) = []" "slice 1 (Suc (length s)) (paren s) = s"
    by (simp_all add: paren_def slice_def)
  then show ?thesis
    using outer_close_paren [OF assms, of "[]"]
    by (subst strip_outer_parentheses.simps) (simp add: paren_def)
qed

text \<open>A text that \<open>strip_outer_parentheses\<close> leaves alone.\<close>

definition headed :: "string \<Rightarrow> bool" where
  "headed s \<longleftrightarrow> (s \<noteq> [] \<and> hd s \<noteq> lparen) \<or>
     (\<exists>u t. s = paren u @ t \<and> well_nested u \<and> (\<exists>c \<in> set t. \<not> ws_char c))"

lemma strip_headed:
  assumes "headed s"
  shows "strip_outer_parentheses s = Inr s"
  using assms unfolding headed_def
proof
  assume "s \<noteq> [] \<and> hd s \<noteq> lparen"
  then show ?thesis by (subst strip_outer_parentheses.simps) (cases s; auto)
next
  assume "\<exists>u t. s = paren u @ t \<and> well_nested u \<and> (\<exists>c \<in> set t. \<not> ws_char c)"
  then obtain u t where s: "s = paren u @ t" "well_nested u" and t: "trim t \<noteq> []"
    using trim_not_Nil by blast
  have "drop (Suc (Suc (length u))) s = t" by (simp add: s(1) paren_def)
  with t outer_close_paren [OF s(2), of t] show ?thesis
    by (subst strip_outer_parentheses.simps) (simp add: s(1))
qed

lemma headed_append: "headed s \<Longrightarrow> headed (s @ t)"
  unfolding headed_def by (cases s) fastforce+

lemma headed_paren_append: "well_nested s \<Longrightarrow> c \<in> set t \<Longrightarrow> \<not> ws_char c \<Longrightarrow> headed (paren s @ t)"
  unfolding headed_def by blast

lemma headed_join:
  assumes "ps \<noteq> []" "headed p \<or> (\<exists>u. p = paren u \<and> well_nested u)" "\<not> ws_char n"
  shows "headed (join (spaced n) (p # ps))"
proof -
  have "join (spaced n) (p # ps) = p @ (spaced n @ join (spaced n) ps)"
    using assms(1) by (simp add: join_Cons)
  moreover have "n \<in> set (spaced n @ join (spaced n) ps)" by simp
  ultimately show ?thesis using assms(2,3) headed_append headed_paren_append by metis
qed

lemma parse_paren:
  assumes "well_nested s" "trimmed s" "s \<noteq> []"
  shows "parse (paren s) = parse s"
proof -
  have "trim (paren s) = paren s" "trim s = s" "paren s \<noteq> []"
    using assms trimmed_paren by (simp_all add: paren_def)
  with assms show ?thesis by (simp add: parse.simps strip_paren Let_def)
qed


subsection \<open>The printed texts\<close>

lemma calm_spaced:
  assumes "calm ns p" "calm ns q" "list_all inert m" "list_all (\<lambda>n. n \<notin> set m \<and> n \<noteq> CHR '' '') ns"
  shows "calm ns (p @ [CHR '' ''] @ m @ [CHR '' ''] @ q)"
proof -
  let ?m = "[CHR '' ''] @ m @ [CHR '' '']"
  have inert: "list_all inert ?m" using assms(3) by (simp add: inert_def)
  then have m: "well_nested ?m" by (simp only: well_nested_def nest_inert)
  have q: "\<forall>n \<in> set ns. quiet n ?m 0 None"
    using quiet_inert [OF inert] assms(4) by (auto simp: list_all_iff)
  have "well_nested (p @ ?m @ q)"
    using assms(1,2) m by (simp only: calm_def well_nested_append)
  moreover have "\<forall>n \<in> set ns. quiet n (p @ ?m @ q) 0 None"
    using assms(1,2) m q by (auto simp only: calm_def quiet_well_nested_append list_all_iff)
  moreover have "trimmed (p @ ?m @ q)"
    using assms(1,2) trimmed_spaced [of p q m] by (simp add: calm_def)
  ultimately show ?thesis using assms(1) by (simp add: calm_def list_all_iff)
qed

lemma calm_join:
  assumes "ps \<noteq> []" "\<forall>p \<in> set ps. calm ns p" "inert n"
    "list_all (\<lambda>c. c \<noteq> n \<and> c \<noteq> CHR '' '') ns"
  shows "calm ns (join (spaced n) ps)"
  using assms(1,2)
proof (induction ps)
  case (Cons p ps)
  show ?case
  proof (cases "ps = []")
    case False
    then have "calm ns (p @ [CHR '' ''] @ [n, n] @ [CHR '' ''] @ join (spaced n) ps)"
      using Cons assms(3,4) by (intro calm_spaced) (auto simp: list_all_iff)
    with False show ?thesis by (simp add: join_Cons)
  qed (use Cons in simp)
qed simp

text \<open>The operator characters a printed expression keeps out of the open.\<close>

fun level :: "expr \<Rightarrow> char list" where
  "level (Or _) = []"
| "level (And _) = [CHR ''|'']"
| "level _ = [CHR ''|'', CHR ''&'']"

lemma calm_mono: "calm ns s \<Longrightarrow> set ms \<subseteq> set ns \<Longrightarrow> calm ms s"
  by (auto simp: calm_def list_all_iff)

lemma op_chars_set: "set op_chars = {CHR ''|'', CHR ''&'', CHR ''!'', CHR ''=''}"
  by (simp add: op_chars_def)

lemma operand_calm_bool: "operand s \<Longrightarrow> calm [CHR ''|'', CHR ''&''] s"
  unfolding operand_calm by (erule calm_mono) (simp add: op_chars_set)

lemma in_or_calm: "calm (level e) s \<Longrightarrow> calm [CHR ''|''] (in_or e s)"
  using calm_paren [of s] by (cases e) (auto simp: in_or_def calm_def)

lemma in_and_calm: "calm (level e) s \<Longrightarrow> calm [CHR ''|'', CHR ''&''] (in_and e s)"
  using calm_paren [of s] by (cases e) (auto simp: in_and_def calm_def)

lemma no_bang_patterns: "list_all (\<lambda>p. \<not> List.member p bang) (map rev ws_patterns)"
  by code_simp

lemma trimmed_bang:
  assumes "trimmed s"
  shows "trimmed (bang # s)"
  unfolding trimmed_def
proof
  show "pat_len ws_patterns (bang # s) = 0"
    by (rule pat_len_ascii_head [OF ws_heads(1)]) (simp add: ws_ascii_def)
  have none: "\<forall>p \<in> set (map rev ws_patterns). \<not> prefix p (rev s)"
    using assms pat_len_0_iff [OF ws_patterns_nonempty(2), of "rev s"] by (simp add: trimmed_def)
  have "\<not> prefix p (rev s @ [bang])" if p: "p \<in> set (map rev ws_patterns)" for p
  proof
    assume "prefix p (rev s @ [bang])"
    with none p have "p = rev s @ [bang]" by (auto simp: prefix_snoc)
    moreover have "bang \<notin> set p" using no_bang_patterns p by (auto simp: list_all_iff)
    ultimately show False by simp
  qed
  then show "pat_len (map rev ws_patterns) (rev (bang # s)) = 0"
    by (simp add: pat_len_0_iff [OF ws_patterns_nonempty(2)])
qed

lemma calm_bang: "calm [CHR ''|'', CHR ''&''] s \<Longrightarrow> calm [CHR ''|'', CHR ''&''] (bang # s)"
  by (simp add: calm_def trimmed_bang well_nested_def)

lemma print_expr_calm: "wf_expr e \<Longrightarrow> calm (level e) (print_expr e)"
proof (induction e)
  case (Atom a)
  then show ?case by (simp add: leading_operand_def operand_calm_bool)
next
  case (Equal l r)
  then show ?case
    using calm_spaced [of "[CHR ''|'', CHR ''&'']" l r "''==''"]
    by (simp add: leading_operand_def operand_calm_bool inert_def)
next
  case (NotEqual l r)
  then show ?case
    using calm_spaced [of "[CHR ''|'', CHR ''&'']" l r "''!=''"]
    by (simp add: leading_operand_def operand_calm_bool inert_def)
next
  case (And es)
  then have "calm [CHR ''|''] (in_and e (print_expr e))" if "e \<in> set es" for e
    using that by (auto simp: list_all_iff intro!: calm_mono [OF in_and_calm])
  with And show ?case
    by (auto intro!: calm_join simp: inert_def)
next
  case (Or es)
  then have "calm [] (in_or e (print_expr e))" if "e \<in> set es" for e
    using that by (auto simp: list_all_iff intro!: calm_mono [OF in_or_calm])
  with Or show ?case
    by (auto intro!: calm_join simp: inert_def)
next
  case (Not e)
  then show ?case by (simp add: calm_bang in_and_calm)
qed


lemma print_expr_facts:
  assumes "wf_expr e"
  shows "print_expr e \<noteq> []" "trimmed (print_expr e)" "well_nested (print_expr e)"
  using print_expr_calm [OF assms] by (simp_all add: calm_def)

lemma in_or_cases: "in_or e s = s \<or> in_or e s = paren s"
  by (cases e) (auto simp: in_or_def)

lemma in_and_cases: "in_and e s = s \<or> in_and e s = paren s"
  by (cases e) (auto simp: in_and_def)

lemma ws_op_chars: "c \<in> set op_chars \<Longrightarrow> \<not> ws_char c"
  by (auto simp: op_chars_def ws_char_def ws_ascii_def)

lemma print_expr_headed: "wf_expr e \<Longrightarrow> headed (print_expr e)"
proof (induction e)
  case (And es)
  then obtain e es' where es: "es = e # es'" "es' \<noteq> []" by (cases es) fastforce+
  with And have "headed (print_expr e)" "well_nested (print_expr e)"
    using print_expr_facts by auto
  then have "headed (in_and e (print_expr e)) \<or>
      (\<exists>u. in_and e (print_expr e) = paren u \<and> well_nested u)"
    using in_and_cases [of e "print_expr e"] by auto
  then show ?case using es ws_op_chars
    by (simp add: headed_join op_chars_set)
next
  case (Or es)
  then obtain e es' where es: "es = e # es'" "es' \<noteq> []" by (cases es) fastforce+
  with Or have "headed (print_expr e)" "well_nested (print_expr e)"
    using print_expr_facts by auto
  then have "headed (in_or e (print_expr e)) \<or>
      (\<exists>u. in_or e (print_expr e) = paren u \<and> well_nested u)"
    using in_or_cases [of e "print_expr e"] by auto
  then show ?case using es ws_op_chars
    by (simp add: headed_join op_chars_set)
qed (auto simp: headed_def leading_operand_def operand_def)

lemma parse_in:
  assumes "wf_expr e"
  shows "parse (in_or e (print_expr e)) = parse (print_expr e)"
    and "parse (in_and e (print_expr e)) = parse (print_expr e)"
  using in_or_cases [of e "print_expr e"] in_and_cases [of e "print_expr e"]
    parse_paren print_expr_facts [OF assms] by auto

lemma parse_start:
  assumes "wf_expr e"
  shows "trim (print_expr e) = print_expr e" "strip_outer_parentheses (print_expr e) = Inr (print_expr e)"
  using print_expr_facts [OF assms] strip_headed [OF print_expr_headed [OF assms]] by auto

lemma split_bool_ops:
  assumes "calm [CHR ''|'', CHR ''&''] s"
  shows "split_top_level s ''||'' = Inr [s]" "split_top_level s ''&&'' = Inr [s]"
  using assms by (auto intro!: split_calm calm_mono [OF assms])

lemma scan_operand: "operand s \<Longrightarrow> n \<in> set op_chars \<Longrightarrow> scan_top_level s [n, m] = Inr []"
  using scan_calm [of s n "[m]" "[]" 0]
  by (simp add: operand_def list_all_iff scan_top_level_def)


lemma no_bang: "calm ns s \<Longrightarrow> bang \<in> set ns \<Longrightarrow> strip_prefix [bang] s = None"
  by (cases s) (auto simp: calm_def list_all_iff strip_prefix_def)

lemma parse_leaf:
  assumes "wf_expr e" "calm [CHR ''|'', CHR ''&''] (print_expr e)"
    and "strip_prefix [bang] (print_expr e) = None"
  shows "parse (print_expr e) = rbind (split_comparison (print_expr e)) (\<lambda>comparison.
     case comparison of
       Some cmp \<Rightarrow> Inr (if cmp_operator cmp = ''=='' then Equal (cmp_left cmp) (cmp_right cmp)
                       else NotEqual (cmp_left cmp) (cmp_right cmp))
     | None \<Rightarrow> Inr (Atom (print_expr e)))"
  using parse_start [OF assms(1)] print_expr_facts [OF assms(1)] split_bool_ops [OF assms(2)] assms(3)
  by (simp add: parse.simps [of "print_expr e"] Let_def)

lemma scan_comparison:
  assumes "operand l" "operand r" "n \<in> set op_chars" "set m \<subseteq> set op_chars" "n \<notin> set m"
  shows "scan_top_level (l @ CHR '' '' # m @ CHR '' '' # r) [n, c] = Inr []"
proof -
  have inert: "list_all inert (CHR '' '' # m @ [CHR '' ''])"
    using assms(4) by (auto simp: list_all_iff inert_def op_chars_set)
  then have m: "well_nested (CHR '' '' # m @ [CHR '' ''])" by (simp only: well_nested_def nest_inert)
  have "n \<noteq> CHR '' ''" using assms(3) by (auto simp: op_chars_set)
  then have "quiet n (CHR '' '' # m @ [CHR '' '']) 0 None"
    using quiet_inert [OF inert] assms(5) by auto
  with m assms have "well_nested (l @ (CHR '' '' # m @ [CHR '' '']) @ r)"
    "quiet n (l @ (CHR '' '' # m @ [CHR '' '']) @ r) 0 None"
    by (simp_all only: operand_def well_nested_append quiet_well_nested_append list_all_iff)
  from scan_calm [OF this, of "[c]" "[]" 0] show ?thesis by (simp add: scan_top_level_def)
qed

lemma scan_comparison_hit:
  assumes "operand l" "operand r" "n \<in> set op_chars"
  shows "\<exists>hits. scan_top_level (l @ CHR '' '' # [n, c] @ CHR '' '' # r) [n, c]
     = Inr (Suc (length l) # hits)"
proof -
  have n: "inert n" "n \<noteq> CHR '' ''" using assms(3) by (auto simp: op_chars_set inert_def)
  from assms have l: "well_nested l" "quiet n l 0 None" and r: "well_nested r" "quiet n r 0 None"
    by (auto simp: operand_def list_all_iff)
  from scan_calm [OF r, of "[c]" "[]"] n(2)
  have "scan_from [n, c] (CHR '' '' # r) k 0 None = Inr []" for k
    by (simp add: scan_space)
  then show ?thesis
    using scan_hit [OF n(1), of "[c]" "CHR '' '' # r" "Suc (length l)"] n(2)
    unfolding scan_top_level_def scan_calm [OF l] by (simp add: scan_space)
qed

lemma split_comparison_print:
  assumes "operand l" "operand r"
  shows "split_comparison (l @ '' == '' @ r) =
      Inr (Some \<lparr>cmp_left = l, cmp_operator = ''=='', cmp_right = r\<rparr>)"
    and "split_comparison (l @ '' != '' @ r) =
      Inr (Some \<lparr>cmp_left = l, cmp_operator = ''!='', cmp_right = r\<rparr>)"
proof -
  have t: "trim (l @ '' '') = l" "trim (CHR '' '' # r) = r" "l \<noteq> []" "r \<noteq> []"
    using assms by (simp_all add: operand_def trim_space_right)
  have none: "scan_top_level (l @ '' == '' @ r) ''!='' = Inr []"
    using scan_comparison [OF assms, of bang "''==''" "CHR ''=''"] by (simp add: op_chars_set)
  obtain h1 where h1: "scan_top_level (l @ '' == '' @ r) ''=='' = Inr (Suc (length l) # h1)"
    using scan_comparison_hit [OF assms, of "CHR ''=''" "CHR ''=''"] by (auto simp: op_chars_set)
  obtain h2 where h2: "scan_top_level (l @ '' != '' @ r) ''!='' = Inr (Suc (length l) # h2)"
    using scan_comparison_hit [OF assms, of bang "CHR ''=''"] by (auto simp: op_chars_set)
  show "split_comparison (l @ '' == '' @ r) =
      Inr (Some \<lparr>cmp_left = l, cmp_operator = ''=='', cmp_right = r\<rparr>)"
    using none h1 t by (simp add: split_comparison_def)
  show "split_comparison (l @ '' != '' @ r) =
      Inr (Some \<lparr>cmp_left = l, cmp_operator = ''!='', cmp_right = r\<rparr>)"
    using h2 t by (simp add: split_comparison_def)
qed

lemma parse_print_atom:
  assumes "wf_expr (Atom a)"
  shows "parse (print_expr (Atom a)) = Inr (Atom a)"
proof -
  from assms have a: "operand a" by (simp add: leading_operand_def)
  then have "split_comparison (print_expr (Atom a)) = Inr None"
    by (simp add: split_comparison_def scan_operand op_chars_set)
  moreover have "strip_prefix [bang] a = None"
    using a by (intro no_bang [of op_chars]) (simp_all add: operand_calm op_chars_set)
  ultimately show ?thesis using parse_leaf [OF assms] a operand_calm_bool by simp
qed

lemma leading_operand_no_bang:
  "leading_operand l \<Longrightarrow> strip_prefix [bang] (l @ s) = None"
  using no_bang [of op_chars l]
  by (cases l) (auto simp: leading_operand_def operand_calm op_chars_set calm_def strip_prefix_def)

lemma parse_print_comparison:
  assumes "leading_operand l" "operand r"
  shows "parse (print_expr (Equal l r)) = Inr (Equal l r)"
    and "parse (print_expr (NotEqual l r)) = Inr (NotEqual l r)"
proof -
  have wf: "wf_expr (Equal l r)" "wf_expr (NotEqual l r)" using assms by simp_all
  have l: "operand l" using assms(1) by (simp add: leading_operand_def)
  note cmp = split_comparison_print [OF l assms(2), simplified]
    leading_operand_no_bang [OF assms(1)]
  show "parse (print_expr (Equal l r)) = Inr (Equal l r)"
    using parse_leaf [OF wf(1)] print_expr_calm [OF wf(1)] by (simp add: cmp)
  show "parse (print_expr (NotEqual l r)) = Inr (NotEqual l r)"
    using parse_leaf [OF wf(2)] print_expr_calm [OF wf(2)] by (simp add: cmp)
qed

lemma parse_print_and:
  assumes "wf_expr (And es)" "\<forall>e \<in> set es. parse (print_expr e) = Inr e"
  shows "parse (print_expr (And es)) = Inr (And es)"
proof -
  let ?ps = "map (\<lambda>e. in_and e (print_expr e)) es"
  have calm: "\<forall>p \<in> set ?ps. calm [CHR ''&''] p"
    using assms print_expr_calm by (auto simp: list_all_iff intro!: calm_mono [OF in_and_calm])
  have "split_top_level (print_expr (And es)) ''&&'' = Inr ?ps"
    using split_joined [OF _ _ _ calm] assms(1) by (simp add: inert_def)
  moreover have "split_top_level (print_expr (And es)) ''||'' = Inr [print_expr (And es)]"
    using print_expr_calm [OF assms(1)] by (intro split_calm) simp
  moreover have "map parse ?ps = map Inr es"
    using assms by (auto simp: parse_in list_all_iff)
  then have "collect_results (map parse ?ps) = Inr es" by (simp only: collect_results_Inr_iff)
  ultimately show ?thesis
    using parse_start [OF assms(1)] print_expr_facts [OF assms(1)] assms(1)
    by (subst parse.simps) (simp add: Let_def del: print_expr.simps map_map)
qed

lemma parse_print_or:
  assumes "wf_expr (Or es)" "\<forall>e \<in> set es. parse (print_expr e) = Inr e"
  shows "parse (print_expr (Or es)) = Inr (Or es)"
proof -
  let ?ps = "map (\<lambda>e. in_or e (print_expr e)) es"
  have calm: "\<forall>p \<in> set ?ps. calm [CHR ''|''] p"
    using assms print_expr_calm by (auto simp: list_all_iff intro!: calm_mono [OF in_or_calm])
  have "split_top_level (print_expr (Or es)) ''||'' = Inr ?ps"
    using split_joined [OF _ _ _ calm] assms(1) by (simp add: inert_def)
  moreover have "map parse ?ps = map Inr es"
    using assms by (auto simp: parse_in list_all_iff)
  then have "collect_results (map parse ?ps) = Inr es" by (simp only: collect_results_Inr_iff)
  ultimately show ?thesis
    using parse_start [OF assms(1)] print_expr_facts [OF assms(1)] assms(1)
    by (subst parse.simps) (simp add: Let_def del: print_expr.simps map_map)
qed

lemma parse_print_not:
  assumes "wf_expr (Not e)" "parse (print_expr e) = Inr e"
  shows "parse (print_expr (Not e)) = Inr (Not e)"
proof -
  have "parse (in_and e (print_expr e)) = Inr e"
    using assms by (simp add: parse_in)
  moreover have "strip_prefix [bang] (print_expr (Not e)) = Some (in_and e (print_expr e))"
    by (simp add: strip_prefix_def)
  ultimately show ?thesis
    using parse_start [OF assms(1)] print_expr_facts [OF assms(1)]
      split_bool_ops [OF print_expr_calm [OF assms(1), simplified]]
    by (subst parse.simps) (simp add: Let_def)
qed

lemma parse_paren_blank:
  assumes "operand a"
  shows "parse (paren ('' '' @ a @ '' '')) = Inr (Atom ('' '' @ a @ '' ''))"
proof -
  let ?s = "'' '' @ a @ '' ''"
  have sp: "well_nested '' ''" by (simp add: well_nested_def)
  have nested: "well_nested ?s" using assms sp by (simp only: operand_def well_nested_append)
  have quiet: "quiet n ?s 0 None" if "n \<in> set op_chars" for n
  proof -
    have "quiet n '' '' 0 None" using that by (auto simp: op_chars_set)
    then show ?thesis using that assms sp
      by (simp only: operand_def quiet_well_nested_append list_all_iff)
  qed
  have scan: "scan_top_level ?s [n, m] = Inr []" if "n \<in> set op_chars" for n m
    using scan_calm [OF nested quiet [OF that], of "[m]" "[]" 0] by (simp add: scan_top_level_def)
  have scans: "scan_top_level ?s ''||'' = Inr []" "scan_top_level ?s ''&&'' = Inr []"
    "scan_top_level ?s ''!='' = Inr []" "scan_top_level ?s ''=='' = Inr []"
    by (rule scan; simp add: op_chars_set)+
  have "strip_outer_parentheses (paren ?s) = Inr ?s"
    unfolding strip_paren [OF nested] by (rule strip_headed) (simp add: headed_def)
  moreover have "split_top_level ?s ''||'' = Inr [?s]" "split_top_level ?s ''&&'' = Inr [?s]"
    "split_comparison ?s = Inr None"
    unfolding split_top_level_def split_comparison_def split_comparison_with.simps
      scans rbind.simps by simp_all
  moreover have "trim (paren ?s) = paren ?s" "paren ?s \<noteq> []" "strip_prefix [bang] ?s = None"
    using trim_trimmed [OF trimmed_paren, of ?s] by (simp_all add: paren_def strip_prefix_def)
  ultimately show ?thesis by (subst parse.simps) (simp add: Let_def)
qed

section \<open>Properties\<close>

lemma parse_print_wf: "wf_expr e \<Longrightarrow> parse (print_expr e) = Inr e"
  by (induction e)
    (auto intro!: parse_print_atom parse_print_comparison parse_print_and parse_print_or
      parse_print_not simp: list_all_iff simp del: print_expr.simps)

text \<open>
  C35. Round trip with precedence. Every well-formed expression, printed with parentheses
  only where precedence needs them, is read back unchanged by \<open>parse\<close>: \<open>||\<close> binds weaker
  than \<open>&&\<close>, \<open>&&\<close> weaker than \<open>!\<close>, \<open>!\<close> weaker than the comparisons (\<open>!a == b\<close> negates the
  comparison, \<open>!!a\<close> is a double negation), and operators inside quotes or parentheses of an
  operand are not seen.
\<close>

theorem parse_print_expr: "wf_expr e \<Longrightarrow> parse (print_expr e) = Inr e"
  by (rule parse_print_wf)

definition sample_expr :: expr where
  "sample_expr =
     Or [Atom ''a'', And [Atom ''f(x)'', Not (Or [Atom ''b'', Equal ''c'' (squote # ''x||y'' @ [squote])]),
         Not (Not (Equal ''g'' ''h'')), NotEqual ''d'' ''e'']]"

theorem parse_print_expr_witness:
  "wf_expr sample_expr \<and> parse (print_expr sample_expr) = Inr sample_expr"
proof -
  have "wf_expr sample_expr" by code_simp
  then show ?thesis using parse_print_expr by blast
qed

text \<open>
  No unbalanced condition is accepted: if \<open>parse\<close> succeeds, the parentheses of the whole
  input outside quotes are balanced and never close before they open, and every quote is
  closed.
\<close>

theorem parse_well_nested: "parse raw = Inr e \<Longrightarrow> well_nested raw"
  by (rule parse_nested)

theorem parse_well_nested_witness:
  "parse '' ((a) && !b) '' = Inr (And [Atom ''a'', Not (Atom ''b'')]) \<and> well_nested '' ((a) && !b) ''"
proof -
  have "parse '' ((a) && !b) '' = Inr (And [Atom ''a'', Not (Atom ''b'')])" by code_simp
  then show ?thesis using parse_well_nested by blast
qed

text \<open>
  White space inside the outer parentheses is kept: an operand without operators,
  padded by a blank on each side and put into parentheses, becomes an atom that includes
  the blanks, while without the blanks, or with the blanks but without the parentheses, it
  becomes the bare atom.
\<close>

theorem parse_parenthesised_padding:
  "wf_expr (Atom a) \<Longrightarrow>
     parse (paren ('' '' @ a @ '' '')) = Inr (Atom ('' '' @ a @ '' '')) \<and>
     parse (paren a) = Inr (Atom a) \<and> parse ('' '' @ a @ '' '') = Inr (Atom a)"
proof (intro conjI)
  assume wf: "wf_expr (Atom a)"
  note print = parse_print_atom [OF wf, simplified]
  have a: "a \<noteq> []" "trimmed a" "well_nested a" using print_expr_facts [OF wf] by simp_all
  show "parse (paren ('' '' @ a @ '' '')) = Inr (Atom ('' '' @ a @ '' ''))"
    using wf by (intro parse_paren_blank) (simp add: leading_operand_def)
  show "parse (paren a) = Inr (Atom a)" using a print by (simp add: parse_paren)
  have "trim ('' '' @ a @ '' '') = trim a" using a by (simp add: trim_space_right)
  then show "parse ('' '' @ a @ '' '') = Inr (Atom a)" using print by (simp add: parse.simps Let_def)
qed

theorem parse_parenthesised_padding_witness:
  "parse ''( always )'' = Inr (Atom '' always '') \<and> parse ''(always)'' = Inr (Atom ''always'')"
proof -
  have "wf_expr (Atom ''always'')" by code_simp
  from parse_parenthesised_padding [OF this] show ?thesis by (simp add: paren_def)
qed

end
