(* ===== verification/Bootstrap_Types.thy ===== *)
theory Bootstrap_Types
  imports Rust_Collections
begin

text \<open>
  The enumerations and errors of \<open>container-init-bootstrap-model\<close>
  (\<open>src/crates/container-init-bootstrap-model/src\<close>: \<open>lib.rs\<close>, and the enums of \<open>action.rs\<close>,
  \<open>input.rs\<close>, \<open>plan.rs\<close>). A \<open>ModelError::Invalid\<close> keeps its location as the string the code
  builds; its message is one constructor per message text of the source, with the values the
  text interpolates.
\<close>

section \<open>Enumerations\<close>

datatype run_as = RunRoot | RunTarget | RunCurrent

datatype failure_policy = FailError | FailWarn | FailIgnore

datatype sensitivity = Public | Sensitive | Secret

datatype idempotency = Idempotent | NonIdempotent

datatype source_kind =
    ImageProfile | AdminProfile | UserOverlay | WorkspaceOverlay | Runtime | Cli | UnknownSource

definition is_trusted :: "source_kind \<Rightarrow> bool" where
  "is_trusted s = (s \<in> {ImageProfile, AdminProfile})"

definition is_workspace :: "source_kind \<Rightarrow> bool" where
  "is_workspace s = (s = WorkspaceOverlay)"

datatype action_kind =
    IdentityResolve | IdentityMapUser | IdentityEnsureHome
  | FilesystemEnsureDir | FilesystemEnsureFile | FilesystemEnsureSymlink
  | FilesystemChown | FilesystemChmod
  | ProcessSetUserShell | ProcessDropPrivileges
  | ServiceSshPrepare | CgroupV2Init | HandoffExec

datatype input_type = TUidPair | TGid | TBool | TPath

datatype input_namespace = NsHost | NsContainer

datatype plan_phase = PhaseRoot | PhaseCurrent | PhaseTarget | PhaseHandoff

text \<open>The derived order of \<open>PlanPhase\<close> is the order of its variants.\<close>

fun phase_rank :: "plan_phase \<Rightarrow> nat" where
  "phase_rank PhaseRoot = 0"
| "phase_rank PhaseCurrent = 1"
| "phase_rank PhaseTarget = 2"
| "phase_rank PhaseHandoff = 3"

instantiation plan_phase :: linorder
begin

definition less_eq_plan_phase :: "plan_phase \<Rightarrow> plan_phase \<Rightarrow> bool" where
  "less_eq_plan_phase p q = (phase_rank p \<le> phase_rank q)"

definition less_plan_phase :: "plan_phase \<Rightarrow> plan_phase \<Rightarrow> bool" where
  "less_plan_phase p q = (phase_rank p < phase_rank q)"

instance
proof
  fix p q r :: plan_phase
  show "(p < q) = (p \<le> q \<and> \<not> q \<le> p)"
    by (auto simp: less_eq_plan_phase_def less_plan_phase_def)
  show "p \<le> p" by (simp add: less_eq_plan_phase_def)
  show "p \<le> q \<Longrightarrow> q \<le> r \<Longrightarrow> p \<le> r" by (simp add: less_eq_plan_phase_def)
  show "p \<le> q \<Longrightarrow> q \<le> p \<Longrightarrow> p = q"
    by (cases p; cases q) (simp_all add: less_eq_plan_phase_def)
  show "p \<le> q \<or> q \<le> p" by (auto simp: less_eq_plan_phase_def)
qed

end

lemma phase_root_least [simp]: "PhaseRoot \<le> p"
  by (simp add: less_eq_plan_phase_def)

lemma phase_handoff_greatest [simp]: "p \<le> PhaseHandoff"
  by (cases p) (simp_all add: less_eq_plan_phase_def)

section \<open>Messages\<close>

datatype path_message =
    PathEmpty
  | PathNul
  | PathShell
  | PathNewline
  | OnlyStructured
  | UnterminatedInterpolation
  | UnsupportedReference string
  | PathNotAbsolute
  | PathTraversal

datatype condition_message =
    ConditionEmpty
  | OperandEmpty string
  | ComparisonOperands
  | UnterminatedQuote
  | UnbalancedCondition
  | InvalidInputSet string
  | InvalidFeature string
  | UnsupportedCondition string
  | ComparisonValueEmpty
  | UnterminatedComparison string
  | InvalidComparisonValue string
  | UnterminatedFunction string
  | InvalidFunctionArgument string

datatype input_message =
    UnsupportedTarget string
  | RequiresType string input_type
  | NamespaceMissing
  | NamespaceNotAllowed
  | InvalidEnvironmentName string
  | NotAValidId string string
  | IdOutOfRange string string
  | UidPairForm
  | NotABoolean string
  | PathNotConcrete

datatype action_message =
    ModeNotOctal
  | ModeRange
  | ExecutableNotConcrete
  | ExecutableNotAbsolute
  | ArgvControl
  | ArgvShell
  | InvalidUserName string
  | OwnerForm
  | OwnerUid
  | OwnerGid
  | ActionIdForm
  | KindMustRunAsRoot
  | ContentNul
  | InvalidDependencyId string
  | FieldRequired
  | EnsureFileContent
  | KeyTypesEmpty
  | UnsupportedKeyType string
  | DuplicateKeyType string
  | KeysExclusive
  | InvalidMountMode string
  | SubgroupForm
  | ControllersEmpty
  | InvalidController string
  | DuplicateController string
  | SubgroupTypeForm
  | SubgroupControllersEmpty
  | InvalidSubgroupController string
  | SubgroupValuesEmpty
  | SubgroupValueForm string string

datatype config_message =
    TooManyActions nat
  | UnsupportedSchema u32
  | WorkspaceRootNotConcrete
  | InputNameForm
  | InputNotDeclared string
  | NamespaceMismatch input_namespace input_namespace
  | InvalidInputName string
  | PrefixTooManyItems nat
  | PrefixItemTooLong nat
  | PrefixOverflow
  | PrefixTooLong nat
  | DependsOnRuntime string
  | ConditionDependsOnRuntime string
  | ResolveTwice
  | HandoffTwice
  | DropTwice

datatype message =
    PathMsg path_message
  | ConditionMsg condition_message
  | InputMsg input_message
  | ActionMsg action_message
  | ConfigMsg config_message

datatype trust_message =
    RestrictedToAdmin
  | PolicyAdminOnly
  | RootRequiresTrust
  | NotWorkspaceSafe
  | WorkspaceRunsAsTarget
  | SourceNotAllowed

datatype model_error =
    Invalid string message
  | DuplicateActionId string
  | MissingDependency string string
  | MissingIdentityResolve string
  | DependencyCycle "string list"
  | PhaseViolation string string
  | TrustViolation string source_kind trust_message
  | WorkspaceOverlayDisabled string

type_synonym 'a model_result = "(model_error, 'a) result"

end
