(* ===== verification/Bootstrap_Condition.thy ===== *)
theory Bootstrap_Condition
  imports Bootstrap_Types Condition_Grammar
begin

text \<open>
  Path templates and conditions of the bootstrap DSL
  (\<open>src/crates/container-init-bootstrap-model/src/condition.rs\<close>), with the name predicates of
  \<open>BootstrapInput\<close> that they call. A cursor into a string is modelled by the rest of the
  string after it.
\<close>

section \<open>Names and references\<close>

definition is_env_name :: "string \<Rightarrow> bool" where
  "is_env_name value =
     (case value of
        [] \<Rightarrow> False
      | c # cs \<Rightarrow>
          (is_ascii_uppercase c \<or> c = CHR ''_'') \<and>
          list_all (\<lambda>c. is_ascii_uppercase c \<or> is_ascii_digit c \<or> c = CHR ''_'') cs)"

definition is_config_path :: "string \<Rightarrow> bool" where
  "is_config_path value \<longleftrightarrow>
     value \<noteq> [] \<and>
     \<not> list_ex (\<lambda>part. part = [] \<or> part = ''..'') (split_char (CHR ''.'') value) \<and>
     list_all (\<lambda>c. is_ascii_alphanumeric c \<or> c \<in> {CHR ''.'', CHR ''_'', CHR ''-''}) value"

definition is_reference :: "string \<Rightarrow> bool" where
  "is_reference value =
     (let (namespace, name) = unwrap_or ([], []) (split_once (CHR ''.'') value)
      in if namespace = ''bootstrap'' then name = ''workspace_root''
         else if namespace = ''identity'' then
           name \<in> {''uid'', ''gid'', ''user'', ''home'', ''target''}
         else if namespace = ''context'' then name \<in> {''cwd'', ''os'', ''arch''}
         else if namespace = ''input'' then is_env_name name
         else if namespace = ''config'' then is_config_path name
         else if namespace = ''env'' then is_env_name name
         else False)"

section \<open>Path templates\<close>

abbreviation nul :: char where "nul \<equiv> CHR 0x00"
abbreviation newline :: char where "newline \<equiv> CHR 0x0A"
abbreviation carriage :: char where "carriage \<equiv> CHR 0x0D"

text \<open>The test for shell syntax that \<open>validate_template\<close> and \<open>validate_rendered\<close> share.\<close>

definition shell_syntax :: "string \<Rightarrow> bool" where
  "shell_syntax value \<longleftrightarrow>
     str_contains value ''$('' \<or> has_char value (CHR 0x60) \<or> has_char value (CHR '';'') \<or>
     has_char value (CHR ''|'') \<or> has_char value (CHR ''&'') \<or> has_char value (CHR ''>'') \<or>
     has_char value (CHR ''<'')"

definition has_traversal :: "string \<Rightarrow> bool" where
  "has_traversal value = list_ex (\<lambda>component. component = ''..'') (split_char (CHR ''/'') value)"

function validate_interpolations :: "string \<Rightarrow> string \<Rightarrow> unit model_result" where
  "validate_interpolations location rest =
     (case rest of
        [] \<Rightarrow> Inr ()
      | c # cs \<Rightarrow>
          if c \<noteq> CHR ''$'' \<and> c \<noteq> CHR ''{'' \<and> c \<noteq> CHR ''}''
          then validate_interpolations location cs
          else if c \<noteq> CHR ''$'' \<or> \<not> starts_with rest ''${''
          then Inl (Invalid location (PathMsg OnlyStructured))
          else
            let after_start = drop 2 rest in
            (case str_find ''}'' after_start of
               None \<Rightarrow> Inl (Invalid location (PathMsg UnterminatedInterpolation))
             | Some e \<Rightarrow>
                 let reference = take e after_start in
                 if \<not> is_reference reference
                 then Inl (Invalid location (PathMsg (UnsupportedReference reference)))
                 else validate_interpolations location (drop (e + 1) after_start)))"
  by pat_completeness auto
termination
  by (relation "measure (\<lambda>(_, rest). length rest)") (auto split: option.splits)

declare validate_interpolations.simps [simp del]

definition validate_template :: "string \<Rightarrow> string \<Rightarrow> unit model_result" where
  "validate_template location value =
     rbind (fail_if (value = []) (Invalid location (PathMsg PathEmpty))) (\<lambda>_.
     rbind (fail_if (has_char value nul) (Invalid location (PathMsg PathNul))) (\<lambda>_.
     rbind (fail_if (shell_syntax value) (Invalid location (PathMsg PathShell))) (\<lambda>_.
     rbind (fail_if (has_char value newline \<or> has_char value carriage)
       (Invalid location (PathMsg PathNewline))) (\<lambda>_.
     rbind (validate_interpolations location value) (\<lambda>_.
     rbind (fail_if (\<not> starts_with value ''/'' \<and> \<not> starts_with value ''${'')
       (Invalid location (PathMsg PathNotAbsolute))) (\<lambda>_.
     fail_if (has_traversal value) (Invalid location (PathMsg PathTraversal))))))))"

text \<open>\<open>PathTemplate\<close> is its text; \<open>PathTemplate::new\<close> is the only way to make one.\<close>

type_synonym path_template = string

definition path_template_new :: "string \<Rightarrow> path_template model_result" where
  "path_template_new input =
     rbind (validate_template ''path'' input) (\<lambda>_. Inr input)"

datatype render_error =
    RenderedNotAbsolute
  | RenderedNul
  | RenderedNewline
  | RenderedShell
  | RenderedTraversal
  | RenderUnterminated
  | RenderMissing string

definition validate_rendered :: "string \<Rightarrow> (render_error, unit) result" where
  "validate_rendered value =
     rbind (fail_if (value = [] \<or> \<not> starts_with value ''/'') RenderedNotAbsolute) (\<lambda>_.
     rbind (fail_if (has_char value nul) RenderedNul) (\<lambda>_.
     rbind (fail_if (has_char value newline \<or> has_char value carriage) RenderedNewline) (\<lambda>_.
     rbind (fail_if (shell_syntax value) RenderedShell) (\<lambda>_.
     fail_if (has_traversal value) RenderedTraversal))))"

function render_loop ::
  "(string, string) btree_map \<Rightarrow> string \<Rightarrow> string \<Rightarrow> (render_error, string) result" where
  "render_loop values output rest =
     (case str_find ''${'' rest of
        None \<Rightarrow> Inr (output @ rest)
      | Some start \<Rightarrow>
          let output = output @ take start rest;
              after_start = drop (start + 2) rest in
          (case str_find ''}'' after_start of
             None \<Rightarrow> Inl RenderUnterminated
           | Some e \<Rightarrow>
               let reference = take e after_start in
               (case btree_get reference values of
                  None \<Rightarrow> Inl (RenderMissing reference)
                | Some value \<Rightarrow>
                    render_loop values (output @ value) (drop (e + 1) after_start))))"
  by pat_completeness auto
termination
  by (relation "measure (\<lambda>(_, _, rest). length rest)") (auto dest: str_find_Some(1))

declare render_loop.simps [simp del]

definition render :: "path_template \<Rightarrow> (string, string) btree_map \<Rightarrow> (render_error, string) result" where
  "render template values =
     rbind (render_loop values [] template) (\<lambda>output.
     rbind (validate_rendered output) (\<lambda>_. Inr output))"

section \<open>Conditions\<close>

datatype condition_value = Reference string | Literal string | BooleanValue bool

datatype condition =
    Always
  | Boolean bool
  | ContextPathExistsOrCreate
  | Exists path_template
  | Writable path_template
  | InputSet string
  | Feature string
  | CEqual condition_value condition_value
  | CNotEqual condition_value condition_value
  | CAnd "condition list"
  | COr "condition list"
  | CNot condition

abbreviation condition_invalid :: "condition_message \<Rightarrow> model_error" where
  "condition_invalid m \<equiv> Invalid ''bootstrap.condition'' (ConditionMsg m)"

definition function_argument :: "string \<Rightarrow> string \<Rightarrow> string option model_result" where
  "function_argument input name =
     (let pre = name @ [lparen]
      in if \<not> starts_with input pre then Inr None
         else if \<not> ends_with input [rparen] then Inl (condition_invalid (UnterminatedFunction name))
         else let argument = slice (length pre) (length input - 1) input
              in if argument = [] \<or> has_char argument lparen \<or> has_char argument rparen
                 then Inl (condition_invalid (InvalidFunctionArgument name))
                 else Inr (Some (trim_matches [CHR '' '', squote, dquote] argument)))"

definition parse_atom :: "string \<Rightarrow> condition model_result" where
  "parse_atom input =
     (if input = ''always'' then Inr Always
      else if input = ''context.path_exists_or_create'' then Inr ContextPathExistsOrCreate
      else if input = ''true'' then Inr (Boolean True)
      else if input = ''false'' then Inr (Boolean False)
      else rbind (function_argument input ''exists'') (\<lambda>exists_argument.
        case exists_argument of
          Some argument \<Rightarrow> rbind (path_template_new argument) (\<lambda>t. Inr (Exists t))
        | None \<Rightarrow> rbind (function_argument input ''writable'') (\<lambda>writable_argument.
        case writable_argument of
          Some argument \<Rightarrow> rbind (path_template_new argument) (\<lambda>t. Inr (Writable t))
        | None \<Rightarrow> rbind (function_argument input ''input_set'') (\<lambda>input_set_argument.
        case input_set_argument of
          Some argument \<Rightarrow>
            if \<not> is_env_name argument then Inl (condition_invalid (InvalidInputSet argument))
            else Inr (InputSet argument)
        | None \<Rightarrow>
        (case strip_prefix ''feature:'' input of
           Some feature \<Rightarrow>
             if feature = [] \<or> \<not> is_config_path feature
             then Inl (condition_invalid (InvalidFeature feature))
             else Inr (Feature feature)
         | None \<Rightarrow> Inl (condition_invalid (UnsupportedCondition input)))))))"

definition condition_value_parse :: "string \<Rightarrow> condition_value model_result" where
  "condition_value_parse input =
     (let input = trim input
      in if input = [] then Inl (condition_invalid ComparisonValueEmpty)
         else if input = ''true'' then Inr (BooleanValue True)
         else if input = ''false'' then Inr (BooleanValue False)
         else if starts_with input [dquote] \<or> starts_with input [squote] then
           (if length input < 2 \<or> last input \<noteq> hd input
            then Inl (condition_invalid (UnterminatedComparison input))
            else Inr (Literal (slice 1 (length input - 1) input)))
         else if list_all is_ascii_digit input then Inr (Literal input)
         else if is_reference input then Inr (Reference input)
         else Inl (condition_invalid (InvalidComparisonValue input)))"

fun map_shared_error :: "parse_error \<Rightarrow> model_error" where
  "map_shared_error Empty = condition_invalid ConditionEmpty"
| "map_shared_error (EmptyOperand operator) = condition_invalid (OperandEmpty operator)"
| "map_shared_error (InvalidComparison _) = condition_invalid ComparisonOperands"
| "map_shared_error UnterminatedString = condition_invalid UnterminatedQuote"
| "map_shared_error UnbalancedParentheses = condition_invalid UnbalancedCondition"

fun from_shared :: "expr \<Rightarrow> condition model_result" where
  "from_shared (Atom input) = parse_atom input"
| "from_shared (Equal left right) =
     rbind (condition_value_parse left) (\<lambda>l.
     rbind (condition_value_parse right) (\<lambda>r. Inr (CEqual l r)))"
| "from_shared (NotEqual left right) =
     rbind (condition_value_parse left) (\<lambda>l.
     rbind (condition_value_parse right) (\<lambda>r. Inr (CNotEqual l r)))"
| "from_shared (And children) =
     rbind (collect_results (map from_shared children)) (\<lambda>cs. Inr (CAnd cs))"
| "from_shared (Or children) =
     rbind (collect_results (map from_shared children)) (\<lambda>cs. Inr (COr cs))"
| "from_shared (Not child) = rbind (from_shared child) (\<lambda>c. Inr (CNot c))"

definition condition_parse :: "string \<Rightarrow> condition model_result" where
  "condition_parse input =
     (let input = trim input
      in if input = [] then Inl (condition_invalid ConditionEmpty)
         else rbind (map_err map_shared_error (parse input)) from_shared)"


section \<open>The template grammar\<close>

text \<open>
  What a template means: literal text and references. \<open>wf_segment\<close> is what the validator
  allows in each, \<open>print_template\<close> the concrete syntax, \<open>substitute\<close> the value.
\<close>

datatype segment = Text string | Ref string

fun wf_segment :: "segment \<Rightarrow> bool" where
  "wf_segment (Text s) = (set s \<inter> {CHR ''$'', CHR ''{'', CHR ''}''} = {})"
| "wf_segment (Ref r) = is_reference r"

fun print_segment :: "segment \<Rightarrow> string" where
  "print_segment (Text s) = s"
| "print_segment (Ref r) = ''${'' @ r @ ''}''"

abbreviation print_template :: "segment list \<Rightarrow> string" where
  "print_template segs \<equiv> concat (map print_segment segs)"

fun substitute :: "(string, string) btree_map \<Rightarrow> segment list \<Rightarrow> (render_error, string) result" where
  "substitute vs [] = Inr []"
| "substitute vs (Text s # segs) = rbind (substitute vs segs) (\<lambda>out. Inr (s @ out))"
| "substitute vs (Ref r # segs) =
     rbind (ok_or (RenderMissing r) (btree_get r vs)) (\<lambda>v.
     rbind (substitute vs segs) (\<lambda>out. Inr (v @ out)))"

lemma env_name_chars: "is_env_name s \<Longrightarrow> c \<in> set s \<Longrightarrow> is_ascii_alphanumeric c \<or> c = CHR ''_''"
  by (cases s) (auto simp: is_env_name_def is_ascii_alphanumeric_def list_all_iff)

lemma config_path_chars:
  "is_config_path s \<Longrightarrow> c \<in> set s \<Longrightarrow> is_ascii_alphanumeric c \<or> c \<in> {CHR ''.'', CHR ''_'', CHR ''-''}"
  by (auto simp: is_config_path_def list_all_iff)

text \<open>The characters of names: letters, digits, and four punctuation marks.\<close>

definition name_char :: "char \<Rightarrow> bool" where
  "name_char c \<longleftrightarrow> is_ascii_alphanumeric c \<or> c \<in> {CHR ''.'', CHR ''_'', CHR ''-'', CHR '':''}"

lemma name_char_not_special:
  "name_char c \<Longrightarrow> c \<notin> {CHR ''$'', CHR ''{'', CHR ''}'', lparen, rparen, squote, dquote, bang,
     CHR ''|'', CHR ''&'', CHR ''='', CHR '' ''}"
  by (auto simp: name_char_def is_ascii_alphanumeric_def is_ascii_uppercase_def
      is_ascii_lowercase_def is_ascii_digit_def)

definition reference_words :: "string list" where
  "reference_words = [''bootstrap'', ''identity'', ''context'', ''input'', ''config'', ''env'',
     ''workspace_root'', ''uid'', ''gid'', ''user'', ''home'', ''target'', ''cwd'', ''os'', ''arch'']"

lemma reference_words: "list_all (list_all name_char) reference_words"
  by code_simp

lemma reference_chars:
  assumes "is_reference r" "c \<in> set r"
  shows "name_char c"
proof -
  obtain ns n where split: "split_once (CHR ''.'') r = Some (ns, n)"
    using assms(1) by (cases "split_once (CHR ''.'') r") (auto simp: is_reference_def)
  then have r: "r = ns @ CHR ''.'' # n" by (simp add: split_once_Some)
  have "ns \<in> set reference_words \<and> (n \<in> set reference_words \<or> is_env_name n \<or> is_config_path n)"
    using assms(1) unfolding is_reference_def split unwrap_or_simps Let_def prod.case
      reference_words_def set_simps
    by (auto simp only: insert_iff empty_iff split: if_splits)
  with reference_words env_name_chars [of n] config_path_chars [of n]
  have "list_all name_char ns \<and> list_all name_char n"
    by (auto simp: list_all_iff name_char_def)
  with assms(2) r show ?thesis by (auto simp: list_all_iff name_char_def)
qed

lemma reference_dot: "is_reference r \<Longrightarrow> CHR ''.'' \<in> set r"
  by (cases "split_once (CHR ''.'') r") (auto simp: is_reference_def split_once_Some)

lemma reference_no_brace: "is_reference r \<Longrightarrow> CHR ''}'' \<notin> set r"
  using reference_chars name_char_not_special by blast

lemma find_brace:
  "CHR ''}'' \<notin> set r \<Longrightarrow> str_find ''}'' (r @ CHR ''}'' # rest) = Some (length r)"
  by (simp add: str_find_char) (subst takeWhile_append2, auto)

lemma validate_text:
  "set s \<inter> {CHR ''$'', CHR ''{'', CHR ''}''} = {} \<Longrightarrow>
     validate_interpolations loc (s @ rest) = validate_interpolations loc rest"
  by (induction s) (auto simp: validate_interpolations.simps [of loc "_ # _"])

lemma validate_print_template:
  "list_all wf_segment segs \<Longrightarrow> validate_interpolations loc (print_template segs) = Inr ()"
proof (induction segs)
  case Nil
  then show ?case by (simp add: validate_interpolations.simps)
next
  case (Cons seg segs)
  show ?case
  proof (cases seg)
    case (Text s)
    with Cons show ?thesis by (simp add: validate_text)
  next
    case (Ref r)
    with Cons find_brace [OF reference_no_brace, of r "print_template segs"] show ?thesis
      by (simp add: validate_interpolations.simps [of loc "_ # _"])
  qed
qed

lemma validate_interpolations_segments:
  "validate_interpolations loc v = Inr () \<Longrightarrow> \<exists>segs. list_all wf_segment segs \<and> v = print_template segs"
proof (induction loc v rule: validate_interpolations.induct)
  case (1 loc v)
  show ?case
  proof (cases v)
    case Nil
    then show ?thesis by (intro exI [of _ "[]"]) simp
  next
    case (Cons c cs)
    show ?thesis
    proof (cases "c \<noteq> CHR ''$'' \<and> c \<noteq> CHR ''{'' \<and> c \<noteq> CHR ''}''")
      case True
      with 1 Cons obtain segs where "list_all wf_segment segs" "cs = print_template segs"
        by (auto simp: validate_interpolations.simps [of loc "_ # _"])
      with True Cons show ?thesis by (intro exI [of _ "Text [c] # segs"]) simp
    next
      case False
      with 1(3) Cons obtain e where dollar: "c = CHR ''$''" "prefix ''${'' v"
        and e: "str_find ''}'' (drop 2 v) = Some e" "is_reference (take e (drop 2 v))"
        and rest: "validate_interpolations loc (drop (e + 1) (drop 2 v)) = Inr ()"
        by (auto simp: validate_interpolations.simps [of loc "_ # _"] Let_def split: if_splits option.splits)
      from 1(2) [OF Cons False _ refl e(1) refl _ rest] dollar e(2) obtain segs where
        segs: "list_all wf_segment segs" "drop (e + 1) (drop 2 v) = print_template segs" by auto
      from str_find_Some(2) [OF e(1)] segs(2) have "drop 2 v = take e (drop 2 v) @ ''}'' @ print_template segs"
        by simp
      with dollar(2) have "v = print_template (Ref (take e (drop 2 v)) # segs)"
        by (auto simp: prefix_def)
      with segs e(2) show ?thesis by (intro exI [of _ "Ref (take e (drop 2 v)) # segs"]) auto
    qed
  qed
qed

lemma find_dollar_text:
  "CHR ''$'' \<notin> set s \<Longrightarrow> str_find ''${'' (s @ rest) = map_option ((+) (length s)) (str_find ''${'' rest)"
  by (induction s; cases "str_find ''${'' rest") auto

lemma render_text:
  "CHR ''$'' \<notin> set s \<Longrightarrow> render_loop vs out (s @ rest) = render_loop vs (out @ s) rest"
  by (subst (1 2) render_loop.simps) (auto simp: find_dollar_text Let_def split: option.splits)

lemma render_ref:
  assumes "CHR ''}'' \<notin> set r"
  shows "render_loop vs out (''${'' @ r @ ''}'' @ rest) =
     rbind (ok_or (RenderMissing r) (btree_get r vs)) (\<lambda>v. render_loop vs (out @ v) rest)"
  using find_brace [OF assms, of rest]
  by (subst render_loop.simps) (auto split: option.splits)

lemma render_print_template:
  "list_all wf_segment segs \<Longrightarrow>
     render_loop vs out (print_template segs) = rbind (substitute vs segs) (\<lambda>s. Inr (out @ s))"
proof (induction segs arbitrary: out)
  case Nil
  then show ?case by (simp add: render_loop.simps)
next
  case (Cons seg segs)
  show ?case
  proof (cases seg)
    case (Text s)
    with Cons show ?thesis by (simp add: render_text rbind_assoc)
  next
    case (Ref r)
    with Cons render_ref [OF reference_no_brace, of r vs out "print_template segs"] show ?thesis
      by (simp add: rbind_assoc)
  qed
qed

section \<open>Rendered paths\<close>

text \<open>A path an action may touch: absolute, no component \<open>..\<close>, no control or shell characters.\<close>

definition forbidden_chars :: "char set" where
  "forbidden_chars = {nul, newline, carriage, CHR 0x60, CHR '';'', CHR ''|'', CHR ''&'', CHR ''>'', CHR ''<''}"

definition safe_path :: "string \<Rightarrow> bool" where
  "safe_path p \<longleftrightarrow>
     (\<exists>components. p = concat (map ((#) (CHR ''/'')) components) \<and> components \<noteq> [] \<and>
        ''..'' \<notin> set components \<and> CHR ''/'' \<notin> \<Union> (set ` set components)) \<and>
     set p \<inter> forbidden_chars = {} \<and> \<not> sublist ''$('' p"

lemma absolute_components:
  assumes "prefix ''/'' p"
  shows "p = concat (map ((#) (CHR ''/'')) (tl (split_char (CHR ''/'') p)))" "tl (split_char (CHR ''/'') p) \<noteq> []"
proof -
  from assms obtain s where p: "p = CHR ''/'' # s" by (auto simp: prefix_def)
  have parts: "split_char (CHR ''/'') p = [] # split_char (CHR ''/'') s" by (simp add: p)
  have "concat (map ((#) c) xs) = c # join [c] xs" if "xs \<noteq> []" for c :: char and xs
    using that by (induction xs rule: induct_list012) auto
  from this [OF split_char_not_Nil, of "CHR ''/''" "CHR ''/''" s] parts p
  show "p = concat (map ((#) (CHR ''/'')) (tl (split_char (CHR ''/'') p)))" "tl (split_char (CHR ''/'') p) \<noteq> []"
    by simp_all
qed

lemma validate_rendered_safe: "validate_rendered p = Inr u \<Longrightarrow> safe_path p"
proof -
  assume ok: "validate_rendered p = Inr u"
  then have "prefix ''/'' p" and free: "set p \<inter> forbidden_chars = {}" "\<not> sublist ''$('' p"
    and dots: "''..'' \<notin> set (split_char (CHR ''/'') p)"
    by (auto simp: validate_rendered_def rbind_Inr_iff fail_if_Inr_iff shell_syntax_def
        forbidden_chars_def has_traversal_def list_ex_iff)
  let ?cs = "tl (split_char (CHR ''/'') p)"
  have "set ?cs \<subseteq> set (split_char (CHR ''/'') p)" by (cases "split_char (CHR ''/'') p") auto
  with dots have "''..'' \<notin> set ?cs" "CHR ''/'' \<notin> \<Union> (set ` set ?cs)"
    using split_char_no_sep [of _ "CHR ''/''" p] by auto
  with absolute_components [OF \<open>prefix ''/'' p\<close>] free show ?thesis
    unfolding safe_path_def by blast
qed

lemma validate_template_Inr:
  "validate_template loc v = Inr u \<longleftrightarrow>
     v \<noteq> [] \<and> nul \<notin> set v \<and> \<not> shell_syntax v \<and> newline \<notin> set v \<and> carriage \<notin> set v \<and>
     validate_interpolations loc v = Inr () \<and> (prefix ''/'' v \<or> prefix ''${'' v) \<and> \<not> has_traversal v"
  by (auto simp: validate_template_def rbind_Inr_iff fail_if_Inr_iff)

section \<open>Printing conditions\<close>

definition quote_text :: "string \<Rightarrow> string" where
  "quote_text s = dquote # s @ [dquote]"

definition call_text :: "string \<Rightarrow> string \<Rightarrow> string" where
  "call_text name argument = name @ paren argument"

fun value_text :: "condition_value \<Rightarrow> string" where
  "value_text (Reference r) = r"
| "value_text (Literal s) = quote_text s"
| "value_text (BooleanValue b) = bool_to_string b"

fun to_expr :: "condition \<Rightarrow> expr" where
  "to_expr Always = Atom ''always''"
| "to_expr (Boolean b) = Atom (bool_to_string b)"
| "to_expr ContextPathExistsOrCreate = Atom ''context.path_exists_or_create''"
| "to_expr (Exists t) = Atom (call_text ''exists'' t)"
| "to_expr (Writable t) = Atom (call_text ''writable'' t)"
| "to_expr (InputSet n) = Atom (call_text ''input_set'' n)"
| "to_expr (Feature f) = Atom (''feature:'' @ f)"
| "to_expr (CEqual l r) = Equal (value_text l) (value_text r)"
| "to_expr (CNotEqual l r) = NotEqual (value_text l) (value_text r)"
| "to_expr (CAnd cs) = And (map to_expr cs)"
| "to_expr (COr cs) = Or (map to_expr cs)"
| "to_expr (CNot c) = Not (to_expr c)"

definition print_condition :: "condition \<Rightarrow> string" where
  "print_condition c = print_expr (to_expr c)"

text \<open>
  What the syntax can carry: a path inside \<open>exists(..)\<close> has no parentheses or quotes and no
  blank at its ends, a literal has no double quote.
\<close>

definition bare_argument :: "string \<Rightarrow> bool" where
  "bare_argument a \<longleftrightarrow>
     a \<noteq> [] \<and> set a \<inter> {lparen, rparen, squote, dquote} = {} \<and> hd a \<noteq> CHR '' '' \<and> last a \<noteq> CHR '' ''"

fun wf_value :: "condition_value \<Rightarrow> bool" where
  "wf_value (Reference r) = is_reference r"
| "wf_value (Literal s) = (dquote \<notin> set s)"
| "wf_value (BooleanValue b) = True"

fun wf_condition :: "condition \<Rightarrow> bool" where
  "wf_condition (Exists t) = (bare_argument t \<and> path_template_new t = Inr t)"
| "wf_condition (Writable t) = (bare_argument t \<and> path_template_new t = Inr t)"
| "wf_condition (InputSet n) = is_env_name n"
| "wf_condition (Feature f) = is_config_path f"
| "wf_condition (CEqual l r) = (wf_value l \<and> wf_value r)"
| "wf_condition (CNotEqual l r) = (wf_value l \<and> wf_value r)"
| "wf_condition (CAnd cs) = (2 \<le> length cs \<and> list_all wf_condition cs)"
| "wf_condition (COr cs) = (2 \<le> length cs \<and> list_all wf_condition cs)"
| "wf_condition (CNot c) = wf_condition c"
| "wf_condition _ = True"

lemma nest_plain:
  "set s \<inter> {lparen, rparen, squote, dquote} = {} \<Longrightarrow> nest s d None = Some (d, None)"
  by (induction s) auto

lemma name_char_plain:
  assumes "list_all name_char s"
  shows "set s \<inter> {lparen, rparen, squote, dquote} = {}" "list_all inert s" "set s \<inter> set op_chars = {}"
  using assms name_char_not_special
  by (fastforce simp: list_all_iff inert_def op_chars_def)+

lemma name_char_trimmed:
  assumes "name_char c"
  shows "c \<notin> set ws_ascii \<and> (of_char c :: nat) < 128"
  using assms by (auto simp: name_char_def ws_ascii_def is_ascii_alphanumeric_def is_ascii_uppercase_def
      is_ascii_lowercase_def is_ascii_digit_def)

lemma operand_name:
  assumes "s \<noteq> []" "list_all name_char s"
  shows "leading_operand s"
proof -
  have "trimmed s"
    using assms by (intro trimmedI) (auto simp: list_all_iff intro!: name_char_trimmed)
  moreover have "well_nested s"
    unfolding well_nested_def using name_char_plain(1) [OF assms(2)] by (rule nest_plain)
  moreover have "list_all (\<lambda>n. quiet n s 0 None) op_chars"
    using name_char_plain(2,3) [OF assms(2)] quiet_inert by (fastforce simp: list_all_iff)
  moreover have "hd s \<noteq> lparen" using assms(1) name_char_plain(1) [OF assms(2)] by (cases s) auto
  ultimately show ?thesis
    using assms by (auto simp: leading_operand_def operand_def)
qed

lemma nest_quoted: "dquote \<notin> set s \<Longrightarrow> nest (s @ [dquote]) d (Some dquote) = Some (d, None)"
  by (induction s) auto

lemma quiet_quoted: "dquote \<notin> set s \<Longrightarrow> quiet n (s @ [dquote]) d (Some dquote)"
  by (induction s) auto

lemma operand_quote: "dquote \<notin> set s \<Longrightarrow> leading_operand (quote_text s)"
  using nest_quoted [of s 0] quiet_quoted [of s _ 0] trimmedI [of "quote_text s"]
  by (auto simp: leading_operand_def operand_def quote_text_def well_nested_def list_all_iff ws_ascii_def)

lemma operand_call:
  assumes "name \<noteq> []" "list_all name_char name" "bare_argument a"
  shows "leading_operand (call_text name a)"
proof -
  have a: "well_nested a" using assms(3) nest_plain [of a 0] by (auto simp: bare_argument_def well_nested_def)
  note name = operand_name [OF assms(1,2), unfolded leading_operand_def operand_def]
  have "trimmed (call_text name a)"
  proof (rule trimmedI)
    show "hd (call_text name a) \<notin> set ws_ascii \<and> (of_char (hd (call_text name a)) :: nat) < 128"
      using assms(1,2) name_char_trimmed [of "hd name"] by (simp add: call_text_def list_all_iff)
    show "last (call_text name a) \<notin> set ws_ascii \<and> (of_char (last (call_text name a)) :: nat) < 128"
      by (simp add: call_text_def paren_def ws_ascii_def)
  qed
  moreover have "well_nested (call_text name a)"
    using name well_nested_paren [OF a] by (auto simp: call_text_def paren_def intro: well_nested_append)
  moreover have "list_all (\<lambda>n. quiet n (call_text name a) 0 None) op_chars"
    using name quiet_paren [OF a] by (auto simp: call_text_def quiet_well_nested_append list_all_iff)
  ultimately show ?thesis
    using name by (auto simp: leading_operand_def operand_def call_text_def)
qed

lemma operand_value: "wf_value v \<Longrightarrow> leading_operand (value_text v)"
proof (cases v)
  case (Reference r)
  moreover assume "wf_value v"
  moreover have "r \<noteq> []" if "is_reference r" using that by (auto simp: is_reference_def split_once_def)
  ultimately show ?thesis using reference_chars operand_name by (auto simp: list_all_iff)
next
  case (BooleanValue b)
  have "list_all name_char (bool_to_string b)" "bool_to_string b \<noteq> []"
    by (cases b; simp add: bool_to_string_def; code_simp)+
  with BooleanValue show ?thesis using operand_name by auto
qed (auto intro: operand_quote)


lemma bare_name: "s \<noteq> [] \<Longrightarrow> list_all name_char s \<Longrightarrow> bare_argument s"
  using name_char_plain(1) [of s] name_char_not_special [of "hd s"] name_char_not_special [of "last s"]
    hd_in_set [of s] last_in_set [of s]
  unfolding bare_argument_def list_all_iff by blast

lemma env_name_name: "is_env_name s \<Longrightarrow> s \<noteq> [] \<and> list_all name_char s"
  using env_name_chars [of s] by (auto simp: list_all_iff name_char_def is_env_name_def)

lemma config_path_name: "is_config_path s \<Longrightarrow> s \<noteq> [] \<and> list_all name_char s"
  by (auto simp: is_config_path_def list_all_iff name_char_def)

lemma trim_matches_bare: "bare_argument a \<Longrightarrow> trim_matches [CHR '' '', squote, dquote] a = a"
proof -
  assume bare: "bare_argument a"
  then have "a \<noteq> []" "hd a \<notin> {CHR '' '', squote, dquote}" "last a \<notin> {CHR '' '', squote, dquote}"
    using hd_in_set [of a] last_in_set [of a] unfolding bare_argument_def by blast+
  then have "dropWhile (\<lambda>c. c \<in> set [CHR '' '', squote, dquote]) a = a"
    "dropWhile (\<lambda>c. c \<in> set [CHR '' '', squote, dquote]) (rev a) = rev a"
    unfolding dropWhile_eq_self_iff by (auto simp: hd_rev)
  then show ?thesis by (simp only: trim_matches_def rev_rev_ident)
qed

lemma function_argument_call:
  assumes "bare_argument a"
  shows "function_argument (call_text name a) name = Inr (Some a)"
proof -
  have "slice (length (name @ [lparen])) (length (call_text name a) - 1) (call_text name a) = a"
    by (simp add: call_text_def paren_def slice_def)
  with assms trim_matches_bare [OF assms] show ?thesis
    by (auto simp: function_argument_def call_text_def paren_def bare_argument_def suffix_def)
qed

lemma function_argument_other:
  "\<not> prefix (name @ [lparen]) input \<Longrightarrow> function_argument input name = Inr None"
  by (simp add: function_argument_def)

lemma parse_atom_call:
  "bare_argument t \<Longrightarrow> parse_atom (call_text ''exists'' t) = rbind (path_template_new t) (\<lambda>t. Inr (Exists t))"
  "bare_argument t \<Longrightarrow> parse_atom (call_text ''writable'' t) = rbind (path_template_new t) (\<lambda>t. Inr (Writable t))"
  "bare_argument t \<Longrightarrow> parse_atom (call_text ''input_set'' t)
     = (if is_env_name t then Inr (InputSet t) else Inl (condition_invalid (InvalidInputSet t)))"
proof -
  have other: "\<not> prefix (''exists'' @ [lparen]) (call_text ''writable'' t)"
    "\<not> prefix (''exists'' @ [lparen]) (call_text ''input_set'' t)"
    "\<not> prefix (''writable'' @ [lparen]) (call_text ''input_set'' t)"
    by (simp_all add: call_text_def)
  have open_paren: "lparen \<in> set (call_text n t)" for n by (simp add: call_text_def paren_def)
  have words: "call_text n t \<noteq> ''always''" "call_text n t \<noteq> ''context.path_exists_or_create''"
    "call_text n t \<noteq> ''true''" "call_text n t \<noteq> ''false''" for n
    by (rule notI, use open_paren [of n] in simp)+
  show "bare_argument t \<Longrightarrow> parse_atom (call_text ''exists'' t) = rbind (path_template_new t) (\<lambda>t. Inr (Exists t))"
    by (simp only: parse_atom_def words function_argument_call if_False rbind.simps option.case)
  show "bare_argument t \<Longrightarrow> parse_atom (call_text ''writable'' t) = rbind (path_template_new t) (\<lambda>t. Inr (Writable t))"
    by (simp only: parse_atom_def words function_argument_call function_argument_other [OF other(1)]
        if_False rbind.simps option.case)
  show "bare_argument t \<Longrightarrow> parse_atom (call_text ''input_set'' t)
     = (if is_env_name t then Inr (InputSet t) else Inl (condition_invalid (InvalidInputSet t)))"
    by (simp only: parse_atom_def words function_argument_call function_argument_other [OF other(2)]
        function_argument_other [OF other(3)] if_False rbind.simps option.case if_not_P if_P) simp
qed


lemma parse_atom_feature: "is_config_path f \<Longrightarrow> parse_atom (''feature:'' @ f) = Inr (Feature f)"
  by (auto simp: parse_atom_def function_argument_other strip_prefix_def is_config_path_def)

lemma condition_value_parse_text: "wf_value v \<Longrightarrow> condition_value_parse (value_text v) = Inr v"
proof -
  assume wf: "wf_value v"
  then have trim: "trim (value_text v) = value_text v" "value_text v \<noteq> []"
    using operand_value [OF wf] by (simp_all add: leading_operand_def operand_def)
  show ?thesis
  proof (cases v)
    case (Reference r)
    with wf have r: "is_reference r" by simp
    from r have "dquote \<notin> set r" "squote \<notin> set r"
      using reference_chars name_char_not_special by blast+
    then have "\<not> prefix [dquote] r" "\<not> prefix [squote] r" by (auto simp: prefix_def)
    moreover have "r \<noteq> ''true''" "r \<noteq> ''false''" "\<not> list_all is_ascii_digit r"
      using reference_dot [OF r] by (auto simp: list_all_iff is_ascii_digit_def intro!: bexI [of _ "CHR ''.''"])
    ultimately show ?thesis
      using r trim Reference by (simp add: condition_value_parse_def Let_def)
  next
    case (Literal s)
    with trim show ?thesis
      by (simp add: condition_value_parse_def Let_def quote_text_def slice_def)
  next
    case (BooleanValue b)
    with trim show ?thesis
      by (cases b) (simp_all add: condition_value_parse_def Let_def bool_to_string_def)
  qed
qed

lemma parse_atom_words [simp]:
  "parse_atom ''always'' = Inr Always"
  "parse_atom ''context.path_exists_or_create'' = Inr ContextPathExistsOrCreate"
  "parse_atom (bool_to_string b) = Inr (Boolean b)"
  by (simp_all add: parse_atom_def bool_to_string_def)

lemma from_shared_list:
  assumes "\<And>c. c \<in> set cs \<Longrightarrow> wf_condition c \<Longrightarrow> from_shared (to_expr c) = Inr c"
    and "list_all wf_condition cs"
  shows "collect_results (map (from_shared \<circ> to_expr) cs) = Inr cs"
  using assms by (induction cs) auto

lemma from_shared_to_expr: "wf_condition c \<Longrightarrow> from_shared (to_expr c) = Inr c"
proof (induction c)
  case (InputSet n)
  then have "bare_argument n" using env_name_name bare_name by auto
  with InputSet show ?case by (simp add: parse_atom_call)
next
  case (Feature f)
  then show ?case by (simp add: parse_atom_feature del: append_Cons)
qed (simp_all add: parse_atom_call condition_value_parse_text from_shared_list)

lemma wf_expr_to_expr: "wf_condition c \<Longrightarrow> wf_expr (to_expr c)"
proof (induction c)
  case (Feature f)
  moreover have "list_all name_char ''feature:''" by code_simp
  ultimately have "leading_operand (''feature:'' @ f)"
    using config_path_name [of f] by (intro operand_name) (simp_all add: list_all_append)
  then show ?case by simp
next
  case (InputSet n)
  then have "bare_argument n" using env_name_name bare_name by auto
  moreover have "list_all name_char ''input_set''" by code_simp
  ultimately show ?case by (simp add: operand_call)
next
  case (Exists t)
  moreover have "list_all name_char ''exists''" by code_simp
  ultimately show ?case by (simp add: operand_call)
next
  case (Writable t)
  moreover have "list_all name_char ''writable''" by code_simp
  ultimately show ?case by (simp add: operand_call)
next
  case Always
  then show ?case by (simp, intro operand_name) (simp, code_simp)
next
  case ContextPathExistsOrCreate
  then show ?case by (simp, intro operand_name) (simp, code_simp)
next
  case (Boolean b)
  then show ?case using operand_value [of "BooleanValue b"] by simp
next
  case (CEqual l r)
  then show ?case using operand_value by (auto simp: leading_operand_def)
next
  case (CNotEqual l r)
  then show ?case using operand_value by (auto simp: leading_operand_def)
qed (auto simp: list_all_iff)

lemma condition_parse_print: "wf_condition c \<Longrightarrow> condition_parse (print_condition c) = Inr c"
proof -
  assume wf: "wf_condition c"
  note e = wf_expr_to_expr [OF wf]
  from print_expr_calm [OF e] have "trim (print_condition c) = print_condition c" "print_condition c \<noteq> []"
    by (simp_all add: print_condition_def calm_def)
  with parse_print_wf [OF e] from_shared_to_expr [OF wf] show ?thesis
    by (simp add: condition_parse_def print_condition_def)
qed

section \<open>Properties\<close>

text \<open>
  The template validator accepts exactly the grammar: the interpolations of a text are
  accepted if and only if the text is a sequence of literal pieces without \<open>$\<close>, \<open>{\<close>, \<open>}\<close> and of
  references in braces to the namespaces the DSL knows; and rendering such a text substitutes
  the references from left to right, failing on the first one without a value and never on
  the syntax.
\<close>

theorem template_grammar:
  "(validate_interpolations location t = Inr () \<longleftrightarrow>
      (\<exists>segs. list_all wf_segment segs \<and> t = print_template segs)) \<and>
   (list_all wf_segment segs \<longrightarrow>
      render (print_template segs) vs =
        rbind (substitute vs segs) (\<lambda>p. rbind (validate_rendered p) (\<lambda>_. Inr p)))"
  using validate_interpolations_segments validate_print_template
  by (auto simp: render_def render_print_template)

text \<open>The template \<open>$\{identity.home\}/.ssh\<close>.\<close>

definition sample_segments :: "segment list" where
  "sample_segments = [Ref ''identity.home'', Text ''/.ssh'']"

theorem template_grammar_witness:
  "list_all wf_segment sample_segments \<and>
   render ''${identity.home}/.ssh'' [(''identity.home'', ''/home/dev'')] = Inr ''/home/dev/.ssh''"
proof -
  have "list_all wf_segment sample_segments"
    by (simp add: sample_segments_def is_reference_def split_once_def)
  moreover have "validate_rendered ''/home/dev/.ssh'' = Inr ()" by code_simp
  ultimately show ?thesis
    using template_grammar [of "[]" "[]" sample_segments "[(''identity.home'', ''/home/dev'')]"]
    by (simp add: sample_segments_def btree_get_def)
qed

text \<open>
  Every condition of the DSL can be written and is read back: a condition whose references,
  names and paths are valid, printed with \<open>exists(..)\<close>, \<open>feature:..\<close>, quoted literals and the
  boolean operators, is what \<open>Condition::parse\<close> returns for its text.
\<close>

theorem condition_roundtrip: "wf_condition c \<Longrightarrow> condition_parse (print_condition c) = Inr c"
  by (rule condition_parse_print)

definition sample_condition :: condition where
  "sample_condition =
     CAnd [COr [Exists ''/run/x'', CNot (InputSet ''HOST_UID'')],
       CEqual (Reference ''identity.user'') (Literal ''a && b''), Feature ''ssh.enabled'']"

theorem condition_roundtrip_witness:
  "wf_condition sample_condition \<and> condition_parse (print_condition sample_condition) = Inr sample_condition"
proof -
  have "wf_condition sample_condition" by code_simp
  then show ?thesis using condition_roundtrip by blast
qed

end
