(* ===== verification/Bootstrap_Input.thy ===== *)
theory Bootstrap_Input
  imports Bootstrap_Condition
begin

text \<open>
  Declared runtime inputs (\<open>src/crates/container-init-bootstrap-model/src/input.rs\<close>): the
  record of a declaration, its validation and the typed parse of a raw value.
\<close>

section \<open>Data\<close>

datatype input_value = BoolValue bool | IntegerValue u64 | StringValue string

datatype parsed_input =
    PUidPair u32 "u32 option"
  | PGid u32
  | PBool bool
  | PPath string

record bootstrap_input =
  in_target :: string
  in_type :: input_type
  in_aliases :: "string list"
  in_runtime :: bool
  in_format :: "string option"
  in_namespace :: "input_namespace option"
  in_default :: "input_value option"
  in_allow_outside_workspace :: bool

definition bootstrap_input_new :: "string \<Rightarrow> input_type \<Rightarrow> bootstrap_input" where
  "bootstrap_input_new target ty =
     \<lparr>in_target = target, in_type = ty, in_aliases = [], in_runtime = False, in_format = None,
      in_namespace = None, in_default = None, in_allow_outside_workspace = False\<rparr>"

fun to_string_value :: "input_value \<Rightarrow> string" where
  "to_string_value (BoolValue b) = bool_to_string b"
| "to_string_value (IntegerValue n) = to_decimal (unat n)"
| "to_string_value (StringValue s) = s"

section \<open>Operations\<close>

definition is_bootstrap_target :: "string \<Rightarrow> bool" where
  "is_bootstrap_target value =
     (value \<in> {''identity.uid'', ''identity.gid'', ''identity.run_as_root'', ''identity.home''})"

definition parse_id :: "string \<Rightarrow> string \<Rightarrow> u32 model_result" where
  "parse_id kind value =
     (if value = [] \<or> \<not> list_all is_ascii_digit value
      then Inl (Invalid (''bootstrap input '' @ kind) (InputMsg (NotAValidId value kind)))
      else ok_or (Invalid (''bootstrap input '' @ kind) (InputMsg (IdOutOfRange value kind)))
        (parse_u32 value))"

definition parse_value :: "bootstrap_input \<Rightarrow> string \<Rightarrow> parsed_input model_result" where
  "parse_value input raw =
     (case in_type input of
        TUidPair \<Rightarrow>
          (let parts = split_char (CHR '':'') raw in
           rbind (parse_id ''uid'' (case parts of [] \<Rightarrow> [] | p # _ \<Rightarrow> p)) (\<lambda>uid.
           rbind (case tl parts of
                    [] \<Rightarrow> Inr None
                  | value # _ \<Rightarrow> rbind (parse_id ''gid'' value) (\<lambda>gid. Inr (Some gid))) (\<lambda>gid.
           if drop 2 parts \<noteq> [] then Inl (Invalid ''bootstrap input'' (InputMsg UidPairForm))
           else Inr (PUidPair uid gid))))
      | TGid \<Rightarrow> rbind (parse_id ''gid'' raw) (\<lambda>gid. Inr (PGid gid))
      | TBool \<Rightarrow>
          if raw \<in> {''1'', ''true'', ''TRUE'', ''True''} then Inr (PBool True)
          else if raw \<in> {''0'', ''false'', ''FALSE'', ''False''} then Inr (PBool False)
          else Inl (Invalid ''bootstrap input'' (InputMsg (NotABoolean raw)))
      | TPath \<Rightarrow>
          if str_contains raw ''${'' then Inl (Invalid ''bootstrap input'' (InputMsg PathNotConcrete))
          else rbind (validate_template ''bootstrap input'' raw) (\<lambda>_. Inr (PPath raw)))"

definition expected_type :: "string \<Rightarrow> input_type option" where
  "expected_type target =
     (if target = ''identity.uid'' then Some TUidPair
      else if target = ''identity.gid'' then Some TGid
      else if target = ''identity.run_as_root'' then Some TBool
      else if target = ''identity.home'' then Some TPath
      else None)"

definition input_validate :: "bootstrap_input \<Rightarrow> string \<Rightarrow> unit model_result" where
  "input_validate input name =
     (let location = ''bootstrap.inputs.'' @ name in
      rbind (fail_if (\<not> is_bootstrap_target (in_target input))
        (Invalid (location @ ''.target'') (InputMsg (UnsupportedTarget (in_target input))))) (\<lambda>_.
      rbind (ok_or (Invalid (location @ ''.target'') (InputMsg (UnsupportedTarget (in_target input))))
        (expected_type (in_target input))) (\<lambda>expected.
      rbind (fail_if (in_type input \<noteq> expected)
        (Invalid (location @ ''.type'') (InputMsg (RequiresType (in_target input) expected)))) (\<lambda>_.
      rbind (fail_if (in_type input \<in> {TUidPair, TGid} \<and> in_namespace input = None)
        (Invalid (location @ ''.namespace'') (InputMsg NamespaceMissing))) (\<lambda>_.
      rbind (fail_if (in_type input \<notin> {TUidPair, TGid} \<and> in_namespace input \<noteq> None)
        (Invalid (location @ ''.namespace'') (InputMsg NamespaceNotAllowed))) (\<lambda>_.
      rbind (for_each (\<lambda>alias. fail_if (\<not> is_env_name alias)
        (Invalid (location @ ''.aliases'') (InputMsg (InvalidEnvironmentName alias)))) (in_aliases input)) (\<lambda>_.
      when_some (in_default input) (\<lambda>default.
        rbind (parse_value input (to_string_value default)) (\<lambda>_. Inr ())))))))))"

section \<open>Lemmas\<close>

lemma parse_id_Inr:
  "parse_id kind s = Inr n \<longleftrightarrow> s \<noteq> [] \<and> list_all is_ascii_digit s \<and> parse_u32 s = Some n"
  by (auto simp: parse_id_def ok_or_Inr_iff)

lemma parse_id_to_string [simp]: "parse_id kind (u32_to_string n) = Inr n"
  using to_decimal_digits [of "unat n"] by (simp add: parse_id_Inr list_all_iff)

text \<open>The text of an identity as a runtime input.\<close>

definition uid_pair_text :: "u32 \<Rightarrow> u32 option \<Rightarrow> string" where
  "uid_pair_text uid gid =
     u32_to_string uid @ (case gid of None \<Rightarrow> [] | Some g \<Rightarrow> CHR '':'' # u32_to_string g)"

lemma colon_not_digit: "CHR '':'' \<notin> set (to_decimal n)"
  using to_decimal_digits [of n] by (auto simp: is_ascii_digit_def)

lemma split_uid_pair_text:
  "split_char (CHR '':'') (uid_pair_text uid gid) =
     u32_to_string uid # (case gid of None \<Rightarrow> [] | Some g \<Rightarrow> [u32_to_string g])"
  by (simp add: uid_pair_text_def split_char_append split_char_single colon_not_digit split: option.splits)

lemma parse_value_uid_pair:
  "in_type i = TUidPair \<Longrightarrow> parse_value i (uid_pair_text uid gid) = Inr (PUidPair uid gid)"
  by (simp add: parse_value_def split_uid_pair_text Let_def split: option.splits)

text \<open>What each target accepts.\<close>

fun value_fits :: "string \<Rightarrow> parsed_input \<Rightarrow> bool" where
  "value_fits target (PUidPair _ _) = (target = ''identity.uid'')"
| "value_fits target (PGid _) = (target = ''identity.gid'')"
| "value_fits target (PBool _) = (target = ''identity.run_as_root'')"
| "value_fits target (PPath p) = (target = ''identity.home'' \<and> safe_path p)"

lemma input_validate_type: "input_validate i name = Inr u \<Longrightarrow> expected_type (in_target i) = Some (in_type i)"
  by (auto simp: input_validate_def Let_def rbind_Inr_iff fail_if_Inr_iff ok_or_Inr_iff)

fun type_target :: "input_type \<Rightarrow> string" where
  "type_target TUidPair = ''identity.uid''"
| "type_target TGid = ''identity.gid''"
| "type_target TBool = ''identity.run_as_root''"
| "type_target TPath = ''identity.home''"

lemma expected_type_target: "expected_type target = Some ty \<Longrightarrow> target = type_target ty"
  unfolding expected_type_def
  by (auto simp only: option.inject option.distinct type_target.simps split: if_splits)

lemma concrete_template_safe:
  assumes "validate_template loc p = Inr u" "\<not> sublist ''${'' p"
  shows "safe_path p"
proof -
  from assms(2) have "\<not> prefix ''${'' p" using prefix_imp_sublist by blast
  with assms(1) have "validate_rendered p = Inr ()"
    by (auto simp: validate_template_Inr validate_rendered_def rbind_Inr_iff fail_if_Inr_iff)
  then show ?thesis by (rule validate_rendered_safe)
qed

section \<open>Properties\<close>

text \<open>
  An identity written as \<open>uid\<close> or \<open>uid:gid\<close> is read back exactly, over the whole 32-bit
  range, by an input of type \<open>uid_pair\<close>.
\<close>

theorem uid_pair_roundtrip:
  "in_type i = TUidPair \<Longrightarrow> parse_value i (uid_pair_text uid gid) = Inr (PUidPair uid gid)"
  by (rule parse_value_uid_pair)

theorem uid_pair_roundtrip_witness:
  "parse_value (bootstrap_input_new ''identity.uid'' TUidPair) (uid_pair_text 1000 (Some 4294967295))
     = Inr (PUidPair 1000 (Some 4294967295))"
  by (rule uid_pair_roundtrip) (simp add: bootstrap_input_new_def)

text \<open>
  C39. A validated declaration is typed by its target: whatever raw value it accepts at run time
  has the shape the target needs, and a home directory it accepts is a safe absolute path
  with no interpolation left to resolve.
\<close>

theorem validated_input_typed:
  assumes "input_validate i name = Inr ()" and "parse_value i raw = Inr v"
  shows "value_fits (in_target i) v"
proof -
  have target: "in_target i = type_target (in_type i)"
    by (rule expected_type_target [OF input_validate_type [OF assms(1)]])
  show ?thesis
  proof (cases "in_type i")
    case TUidPair
    with assms(2) target show ?thesis by (auto simp: parse_value_def rbind_Inr_iff Let_def split: if_splits)
  next
    case TGid
    with assms(2) target show ?thesis by (auto simp: parse_value_def rbind_Inr_iff)
  next
    case TBool
    with assms(2) have "v = PBool True \<or> v = PBool False"
      by (simp add: parse_value_def split: if_splits)
    with TBool target show ?thesis by (elim disjE) simp_all
  next
    case TPath
    with assms(2) target show ?thesis
      by (auto simp: parse_value_def rbind_Inr_iff intro: concrete_template_safe split: if_splits)
  qed
qed

theorem validated_input_typed_witness: "value_fits ''identity.home'' (PPath ''/home/dev'')"
proof -
  let ?i = "bootstrap_input_new ''identity.home'' TPath"
  have "input_validate ?i ''CONTAINER_HOME'' = Inr ()" by code_simp
  moreover have "parse_value ?i ''/home/dev'' = Inr (PPath ''/home/dev'')" by code_simp
  ultimately have "value_fits (in_target ?i) (PPath ''/home/dev'')" by (rule validated_input_typed)
  then show ?thesis by (simp add: bootstrap_input_new_def)
qed

end
