(* ===== verification/Bootstrap_Action.thy ===== *)
theory Bootstrap_Action
  imports Bootstrap_Input
begin

text \<open>
  Actions (\<open>src/crates/container-init-bootstrap-model/src/action.rs\<close>): the record of the flat
  DSL, the properties of a kind (phase, idempotency, admin-only), and the field validators.
\<close>

section \<open>Data\<close>

record origin =
  or_profile :: string
  or_source :: source_kind
  or_location :: "string option"

definition origin_new :: "string \<Rightarrow> source_kind \<Rightarrow> string option \<Rightarrow> origin" where
  "origin_new profile source location =
     \<lparr>or_profile = profile, or_source = source, or_location = location\<rparr>"

definition origin_image :: "string \<Rightarrow> origin" where
  "origin_image profile = origin_new profile ImageProfile None"

definition origin_admin :: "string \<Rightarrow> origin" where
  "origin_admin profile = origin_new profile AdminProfile None"

definition origin_workspace :: "string \<Rightarrow> origin" where
  "origin_workspace profile = origin_new profile WorkspaceOverlay None"

definition origin_unknown :: origin where
  "origin_unknown = origin_new ''<unknown>'' UnknownSource None"

record action =
  ac_id :: string
  ac_kind :: action_kind
  ac_path :: "string option"
  ac_link :: "string option"
  ac_target :: "string option"
  ac_mode :: "string option"
  ac_parent_mode :: "string option"
  ac_owner :: "string option"
  ac_user :: "string option"
  ac_shell :: "string option"
  ac_content :: "string option"
  ac_host_key_dir :: "string option"
  ac_authorized_keys_dir :: "string option"
  ac_authorized_keys_source :: "string option"
  ac_runtime_dir :: "string option"
  ac_host_key_types :: "string list option"
  ac_ssh_keygen :: "string option"
  ac_subgroup :: "string option"
  ac_controllers :: "string list option"
  ac_optional_controllers :: "string list option"
  ac_subgroup_type :: "string option"
  ac_subgroup_controllers :: "string list option"
  ac_subgroup_controller_values :: "(string, string) btree_map option"
  ac_mount_mode :: "string option"
  ac_shadow_path :: "string option"
  ac_when :: "string option"
  ac_failure :: failure_policy
  ac_run_as :: run_as
  ac_depends_on :: "string list"
  ac_reason :: "string option"
  ac_sensitivity :: sensitivity
  ac_recursive :: bool
  ac_origin :: origin

definition action_new :: "string \<Rightarrow> action_kind \<Rightarrow> origin \<Rightarrow> action" where
  "action_new name kind orig =
     \<lparr>ac_id = name, ac_kind = kind, ac_path = None, ac_link = None, ac_target = None,
      ac_mode = None, ac_parent_mode = None, ac_owner = None, ac_user = None, ac_shell = None,
      ac_content = None, ac_host_key_dir = None, ac_authorized_keys_dir = None,
      ac_authorized_keys_source = None, ac_runtime_dir = None, ac_host_key_types = None,
      ac_ssh_keygen = None, ac_subgroup = None, ac_controllers = None,
      ac_optional_controllers = None, ac_subgroup_type = None, ac_subgroup_controllers = None,
      ac_subgroup_controller_values = None, ac_mount_mode = None, ac_shadow_path = None,
      ac_when = None, ac_failure = FailError, ac_run_as = RunCurrent, ac_depends_on = [],
      ac_reason = None, ac_sensitivity = Public, ac_recursive = False, ac_origin = orig\<rparr>"

section \<open>Kinds\<close>

definition kind_idempotency :: "action_kind \<Rightarrow> idempotency" where
  "kind_idempotency kind = (case kind of HandoffExec \<Rightarrow> NonIdempotent | _ \<Rightarrow> Idempotent)"

definition intrinsic_admin_only :: "action_kind \<Rightarrow> bool" where
  "intrinsic_admin_only kind =
     (kind \<in> {IdentityMapUser, ProcessSetUserShell, ProcessDropPrivileges, ServiceSshPrepare,
        CgroupV2Init, HandoffExec})"

definition kind_phase :: "action_kind \<Rightarrow> run_as \<Rightarrow> plan_phase" where
  "kind_phase kind run =
     (if kind \<in> {HandoffExec, ProcessDropPrivileges} then PhaseHandoff
      else if kind \<in> {IdentityResolve, IdentityMapUser, IdentityEnsureHome} \<and> run = RunRoot then PhaseRoot
      else if kind = CgroupV2Init then PhaseRoot
      else (case run of RunRoot \<Rightarrow> PhaseRoot | RunCurrent \<Rightarrow> PhaseCurrent | RunTarget \<Rightarrow> PhaseTarget))"

definition action_phase :: "action \<Rightarrow> plan_phase" where
  "action_phase a = kind_phase (ac_kind a) (ac_run_as a)"

section \<open>Queries\<close>

definition references_identity :: "action \<Rightarrow> bool" where
  "references_identity a \<longleftrightarrow>
     (ac_kind a \<noteq> IdentityResolve \<and>
      list_ex (\<lambda>field. is_some_and (\<lambda>value. str_contains value ''${identity.'') field)
        [ac_path a, ac_link a, ac_target a, ac_owner a, ac_user a, ac_shell a, ac_host_key_dir a,
         ac_authorized_keys_dir a, ac_authorized_keys_source a, ac_runtime_dir a, ac_subgroup a,
         ac_shadow_path a])
     \<or> ac_owner a = Some ''identity.target''
     \<or> ac_user a = Some ''identity.target''
     \<or> ac_kind a \<in> {IdentityMapUser, IdentityEnsureHome, ServiceSshPrepare, ProcessDropPrivileges}"

definition action_condition :: "action \<Rightarrow> condition model_result" where
  "action_condition a = (case ac_when a of None \<Rightarrow> Inr Always | Some text \<Rightarrow> condition_parse text)"

definition ssh_host_key_dir :: "action \<Rightarrow> string option" where
  "ssh_host_key_dir a = opt_or (ac_host_key_dir a) (ac_path a)"

definition ssh_authorized_keys_dir :: "action \<Rightarrow> string option" where
  "ssh_authorized_keys_dir a = opt_or (ac_authorized_keys_dir a) (ac_target a)"

definition ssh_runtime_dir :: "action \<Rightarrow> string option" where
  "ssh_runtime_dir a = opt_or (ac_runtime_dir a) (ac_link a)"

definition ssh_host_key_types :: "action \<Rightarrow> string list" where
  "ssh_host_key_types a = unwrap_or [] (ac_host_key_types a)"

definition cgroup_mount_mode :: "action \<Rightarrow> string" where
  "cgroup_mount_mode a =
     (if is_some_and (\<lambda>mode. mode \<in> {''bind_mount'', ''mount_shadow'', ''shadow''})
           (opt_or (ac_mount_mode a) (ac_mode a))
      then ''bind_mount'' else ''default'')"

section \<open>Field validators\<close>

definition is_action_id :: "string \<Rightarrow> bool" where
  "is_action_id value \<longleftrightarrow>
     value \<noteq> [] \<and>
     list_all (\<lambda>c. is_ascii_alphanumeric c \<or> c \<in> {CHR ''.'', CHR ''_'', CHR ''-''}) value"

definition parse_mode :: "string \<Rightarrow> (message, u32) result" where
  "parse_mode value =
     (if value = [] \<or> 4 < length value \<or>
         \<not> list_all (\<lambda>c. 48 \<le> (of_char c :: nat) \<and> (of_char c :: nat) \<le> 55) value
      then Inl (ActionMsg ModeNotOctal)
      else ok_or (ActionMsg ModeRange) (map_option of_nat (parse_unsigned 8 (2 ^ 32) value)))"

definition validate_argv_value :: "string \<Rightarrow> string \<Rightarrow> unit model_result" where
  "validate_argv_value location value =
     rbind (fail_if (value = [] \<or> has_char value nul \<or> has_char value newline \<or> has_char value carriage)
       (Invalid location (ActionMsg ArgvControl))) (\<lambda>_.
     fail_if (str_contains value ''$('' \<or> has_char value (CHR 0x60) \<or> has_char value (CHR '';'') \<or>
         has_char value (CHR ''|''))
       (Invalid location (ActionMsg ArgvShell)))"

definition validate_executable :: "string \<Rightarrow> string \<Rightarrow> unit model_result" where
  "validate_executable location value =
     rbind (validate_argv_value location value) (\<lambda>_.
     rbind (fail_if (str_contains value ''${'' \<or> contains_whitespace value)
       (Invalid location (ActionMsg ExecutableNotConcrete))) (\<lambda>_.
     rbind (validate_template location value) (\<lambda>_.
     fail_if (\<not> starts_with value ''/'') (Invalid location (ActionMsg ExecutableNotAbsolute)))))"

definition validate_user_name :: "string \<Rightarrow> string \<Rightarrow> unit model_result" where
  "validate_user_name location value =
     fail_if (value = [] \<or> 32 < length value \<or>
         \<not> list_all (\<lambda>c. is_ascii_alphanumeric c \<or> c \<in> {CHR ''_'', CHR ''-''}) value)
       (Invalid location (ActionMsg (InvalidUserName value)))"

definition validate_owner :: "string \<Rightarrow> string \<Rightarrow> unit model_result" where
  "validate_owner location value =
     (if value = ''root'' \<or> value = ''identity.target'' then Inr ()
      else case split_once (CHR '':'') value of
        None \<Rightarrow> Inl (Invalid location (ActionMsg OwnerForm))
      | Some (uid, gid) \<Rightarrow>
          rbind (map_err (\<lambda>_. Invalid location (ActionMsg OwnerUid)) (parse_id ''uid'' uid)) (\<lambda>_.
          rbind (map_err (\<lambda>_. Invalid location (ActionMsg OwnerGid)) (parse_id ''gid'' gid)) (\<lambda>_.
            Inr ())))"

section \<open>Lemmas\<close>

text \<open>A mode the validator accepts has at most twelve bits.\<close>

lemma digits_value_bound:
  assumes "list_all (\<lambda>c. 48 \<le> (of_char c :: nat) \<and> (of_char c :: nat) \<le> 55) s" "digits_value 8 acc s = Some n"
  shows "n < (acc + 1) * 8 ^ length s"
  using assms
proof (induction s arbitrary: acc)
  case (Cons c s)
  obtain d where d: "digit_value 8 c = Some d" "digits_value 8 (acc * 8 + d) s = Some n"
    using Cons.prems(2) by (auto split: option.splits)
  then have "d < 8" by (auto simp: digit_value_def split: if_splits)
  with Cons.IH [of "acc * 8 + d"] Cons.prems(1) d(2) have "n < (acc * 8 + d + 1) * 8 ^ length s" by simp
  also have "\<dots> \<le> ((acc + 1) * 8) * 8 ^ length s" using \<open>d < 8\<close> by (intro mult_right_mono) auto
  finally show ?case by (simp add: algebra_simps)
qed simp

lemma parse_mode_bound:
  assumes "parse_mode raw = Inr m"
  shows "unat m < 8 ^ 4"
proof -
  from assms have v: "raw \<noteq> []" "length raw \<le> 4"
    "list_all (\<lambda>c. 48 \<le> (of_char c :: nat) \<and> (of_char c :: nat) \<le> 55) raw"
    and "ok_or (ActionMsg ModeRange) (map_option of_nat (parse_unsigned 8 (2 ^ 32) raw)) = Inr m"
    by (auto simp: parse_mode_def split: if_splits)
  then obtain n where n: "parse_unsigned 8 (2 ^ 32) raw = Some n" "m = of_nat n"
    by (auto simp: ok_or_Inr_iff)
  from v(1) obtain c cs where raw: "raw = c # cs" by (cases raw) auto
  with v(3) have "48 \<le> (of_char c :: nat)" by simp
  then have "c \<noteq> CHR ''+''" by auto
  with raw n(1) have "digits_value 8 0 raw = Some n" by (auto simp: parse_unsigned_def split: option.splits if_splits)
  from digits_value_bound [OF v(3) this] have "n < 8 ^ length raw" by simp
  also have "\<dots> \<le> 8 ^ 4" using v(2) by (intro power_increasing) auto
  finally show ?thesis using n(2) by (simp add: unat_of_nat)
qed

lemma validate_executable_safe:
  "validate_executable loc v = Inr u \<Longrightarrow> safe_path v \<and> \<not> contains_whitespace v"
  by (auto simp: validate_executable_def rbind_Inr_iff fail_if_Inr_iff intro: concrete_template_safe)

lemma kind_phase_handoff:
  "kind_phase kind run = PhaseHandoff \<longleftrightarrow> kind \<in> {HandoffExec, ProcessDropPrivileges}"
  by (auto simp: kind_phase_def split: run_as.splits)

lemma run_root_phase: "kind_phase kind RunRoot \<in> {PhaseRoot, PhaseHandoff}"
  by (auto simp: kind_phase_def)

end
