(* ===== verification/Bootstrap_Config.thy ===== *)
theory Bootstrap_Config
  imports Bootstrap_Action
begin

text \<open>
  The bootstrap configuration and its validation
  (\<open>src/crates/container-init-bootstrap-model/src/config.rs\<close>, \<open>config/identity.rs\<close>,
  \<open>config/handoff.rs\<close>). \<open>config_validate\<close> is the trust boundary of the product: every action
  passes \<open>validate_action\<close>, which decides from the action's origin what it may do.
\<close>

section \<open>Data\<close>

record identity_config =
  ic_default_user :: "string option"
  ic_default_uid :: "u32 option"
  ic_default_gid :: "u32 option"
  ic_default_home :: "string option"
  ic_auto_mapping :: bool
  ic_run_as_root_input :: "string option"
  ic_uid_input :: "string option"
  ic_gid_input :: "string option"
  ic_home_input :: "string option"

definition identity_config_new :: identity_config where
  "identity_config_new =
     \<lparr>ic_default_user = None, ic_default_uid = None, ic_default_gid = None, ic_default_home = None,
      ic_auto_mapping = False, ic_run_as_root_input = None, ic_uid_input = None,
      ic_gid_input = None, ic_home_input = None\<rparr>"

record handoff_config =
  hc_runtime :: string
  hc_exec_prefix :: "string list"
  hc_initial_exec_prefix :: "string list"
  hc_shell_prefix :: "string list"
  hc_root_service :: bool
  hc_ssh_daemon :: "string option"
  hc_login_shell :: "string option"

definition handoff_config_new :: "string \<Rightarrow> handoff_config" where
  "handoff_config_new runtime =
     \<lparr>hc_runtime = runtime, hc_exec_prefix = [], hc_initial_exec_prefix = [], hc_shell_prefix = [],
      hc_root_service = False, hc_ssh_daemon = None, hc_login_shell = None\<rparr>"

datatype bootstrap_mode = Strict

datatype non_interactive_policy = Deny | Allow

record bootstrap_policy =
  workspace_safe_action_kinds :: "action_kind list"
  admin_only_action_kinds :: "action_kind list"

record bootstrap_config =
  bc_schema :: u32
  bc_mode :: bootstrap_mode
  bc_workspace_root :: string
  bc_allow_workspace_overlay :: bool
  bc_non_interactive :: non_interactive_policy
  bc_identity :: identity_config
  bc_handoff :: handoff_config
  bc_policy :: bootstrap_policy
  bc_inputs :: "(string, bootstrap_input) btree_map"
  bc_actions :: "action list"

definition MAX_BOOTSTRAP_ACTIONS :: nat where "MAX_BOOTSTRAP_ACTIONS = 8192"
definition BOOTSTRAP_SCHEMA_V1 :: u32 where "BOOTSTRAP_SCHEMA_V1 = 1"
definition MAX_HANDOFF_PREFIX_ITEMS :: nat where "MAX_HANDOFF_PREFIX_ITEMS = 64"
definition MAX_HANDOFF_PREFIX_ITEM_BYTES :: nat where "MAX_HANDOFF_PREFIX_ITEM_BYTES = 64 * 1024"
definition MAX_HANDOFF_PREFIX_TOTAL_BYTES :: nat where "MAX_HANDOFF_PREFIX_TOTAL_BYTES = 256 * 1024"

definition bootstrap_config_new ::
  "string \<Rightarrow> identity_config \<Rightarrow> handoff_config \<Rightarrow> (string, bootstrap_input) btree_map \<Rightarrow> action list \<Rightarrow>
   bootstrap_config" where
  "bootstrap_config_new workspace_root identity handoff inputs actions =
     \<lparr>bc_schema = BOOTSTRAP_SCHEMA_V1, bc_mode = Strict, bc_workspace_root = workspace_root,
      bc_allow_workspace_overlay = False, bc_non_interactive = Deny, bc_identity = identity,
      bc_handoff = handoff,
      bc_policy = \<lparr>workspace_safe_action_kinds = [], admin_only_action_kinds = []\<rparr>,
      bc_inputs = inputs, bc_actions = actions\<rparr>"

section \<open>Identity and handoff\<close>

definition identity_config_validate :: "identity_config \<Rightarrow> unit model_result" where
  "identity_config_validate c =
     rbind (when_some (ic_default_user c) (validate_user_name ''bootstrap.identity.default_user'')) (\<lambda>_.
     rbind (when_some (ic_default_home c) (validate_template ''bootstrap.identity.default_home'')) (\<lambda>_.
     for_each (\<lambda>(field, value).
       when_some value (\<lambda>name. fail_if (\<not> is_env_name name)
         (Invalid (''bootstrap.identity.'' @ field) (ConfigMsg (InvalidInputName name)))))
       [(''run_as_root_input'', ic_run_as_root_input c), (''uid_input'', ic_uid_input c),
        (''gid_input'', ic_gid_input c), (''home_input'', ic_home_input c)]))"

text \<open>
  \<open>HandoffConfig::validate_prefix\<close>. The loop state is the sum of the lengths so far; the
  checked addition is on 64-bit \<open>usize\<close>.
\<close>

definition validate_prefix_item :: "string \<Rightarrow> nat \<Rightarrow> nat \<times> string \<Rightarrow> nat model_result" where
  "validate_prefix_item field total_bytes item =
     (let (index, argument) = item;
          location = ''bootstrap.handoff.'' @ field @ ''['' @ to_decimal index @ '']''
      in rbind (validate_argv_value location argument) (\<lambda>_.
         rbind (fail_if (MAX_HANDOFF_PREFIX_ITEM_BYTES < length argument)
           (Invalid location (ConfigMsg (PrefixItemTooLong (length argument))))) (\<lambda>_.
         if total_bytes + length argument < 2 ^ 64 then Inr (total_bytes + length argument)
         else Inl (Invalid (''bootstrap.handoff.'' @ field) (ConfigMsg PrefixOverflow)))))"

definition validate_prefix :: "string \<Rightarrow> string list \<Rightarrow> unit model_result" where
  "validate_prefix field pre =
     (let location = ''bootstrap.handoff.'' @ field
      in rbind (fail_if (MAX_HANDOFF_PREFIX_ITEMS < length pre)
           (Invalid location (ConfigMsg (PrefixTooManyItems (length pre))))) (\<lambda>_.
         rbind (fold_result (validate_prefix_item field) 0 (enumerate 0 pre)) (\<lambda>total_bytes.
         fail_if (MAX_HANDOFF_PREFIX_TOTAL_BYTES < total_bytes)
           (Invalid location (ConfigMsg (PrefixTooLong total_bytes))))))"

definition handoff_config_validate :: "handoff_config \<Rightarrow> unit model_result" where
  "handoff_config_validate c =
     rbind (validate_executable ''bootstrap.handoff.runtime'' (hc_runtime c)) (\<lambda>_.
     rbind (validate_prefix ''exec_prefix'' (hc_exec_prefix c)) (\<lambda>_.
     rbind (validate_prefix ''initial_exec_prefix'' (hc_initial_exec_prefix c)) (\<lambda>_.
     rbind (validate_prefix ''shell_prefix'' (hc_shell_prefix c)) (\<lambda>_.
     rbind (when_some (hc_ssh_daemon c) (validate_executable ''bootstrap.handoff.ssh_daemon'')) (\<lambda>_.
     when_some (hc_login_shell c) (validate_executable ''bootstrap.handoff.login_shell''))))))"

section \<open>Runtime references\<close>

function runtime_reference_loop :: "string list \<Rightarrow> string \<Rightarrow> string option" where
  "runtime_reference_loop runtime_inputs rest =
     (case str_find ''${'' rest of
        None \<Rightarrow> None
      | Some start \<Rightarrow>
          let after = drop (start + 2) rest in
          (case str_find ''}'' after of
             None \<Rightarrow> None
           | Some e \<Rightarrow>
               let reference = take e after in
               (case strip_prefix ''input.'' reference of
                  Some name \<Rightarrow>
                    if name \<in> set runtime_inputs then Some (''runtime input '' @ name)
                    else runtime_reference_loop runtime_inputs (drop (e + 1) after)
                | None \<Rightarrow>
                    if starts_with reference ''env.'' then Some (''runtime environment '' @ reference)
                    else if starts_with reference ''identity.'' then Some ''request identity''
                    else runtime_reference_loop runtime_inputs (drop (e + 1) after))))"
  by pat_completeness auto
termination
  by (relation "measure (\<lambda>(_, rest). length rest)") (auto dest: str_find_Some(1))

declare runtime_reference_loop.simps [simp del]

definition runtime_reference :: "string \<Rightarrow> string list \<Rightarrow> string option" where
  "runtime_reference value runtime_inputs =
     (if value = ''identity.target'' \<or> str_contains value ''identity.'' then Some ''request identity''
      else runtime_reference_loop runtime_inputs value)"

definition value_reference :: "condition_value \<Rightarrow> string list \<Rightarrow> string option" where
  "value_reference value runtime_inputs =
     (case value of
        Reference reference \<Rightarrow>
          if starts_with reference ''identity.'' then Some ''request identity''
          else if is_some_and (\<lambda>name. name \<in> set runtime_inputs) (strip_prefix ''input.'' reference)
          then Some (''runtime input '' @ drop 6 reference)
          else if starts_with reference ''env.'' then Some (''runtime environment '' @ reference)
          else None
      | _ \<Rightarrow> None)"

fun condition_runtime_reference :: "condition \<Rightarrow> string list \<Rightarrow> string option" where
  "condition_runtime_reference (CEqual left right) runtime_inputs =
     opt_or (value_reference left runtime_inputs) (value_reference right runtime_inputs)"
| "condition_runtime_reference (CNotEqual left right) runtime_inputs =
     opt_or (value_reference left runtime_inputs) (value_reference right runtime_inputs)"
| "condition_runtime_reference (CAnd parts) runtime_inputs =
     find_map (\<lambda>part. condition_runtime_reference part runtime_inputs) parts"
| "condition_runtime_reference (COr parts) runtime_inputs =
     find_map (\<lambda>part. condition_runtime_reference part runtime_inputs) parts"
| "condition_runtime_reference (CNot part) runtime_inputs = condition_runtime_reference part runtime_inputs"
| "condition_runtime_reference (Exists path) runtime_inputs = runtime_reference path runtime_inputs"
| "condition_runtime_reference (Writable path) runtime_inputs = runtime_reference path runtime_inputs"
| "condition_runtime_reference (InputSet name) runtime_inputs =
     (if name \<in> set runtime_inputs then Some (''runtime input '' @ name) else None)"
| "condition_runtime_reference _ runtime_inputs = None"

definition runtime_input_names :: "bootstrap_config \<Rightarrow> string list" where
  "runtime_input_names c =
     set_collect (concat (map (\<lambda>(name, input). name # in_aliases input)
       (filter (\<lambda>(_, input). in_runtime input) (bc_inputs c))))"

definition input_declaration ::
  "(string, bootstrap_input) btree_map \<Rightarrow> string \<Rightarrow> bootstrap_input option" where
  "input_declaration inputs name =
     opt_or (btree_get name inputs) (find (\<lambda>input. name \<in> set (in_aliases input)) (map snd inputs))"

text \<open>The string fields that \<open>validate_runtime_invariance\<close> scans, with their names.\<close>

definition invariance_fields :: "action \<Rightarrow> (string \<times> string option) list" where
  "invariance_fields a =
     [(''path'', ac_path a), (''link'', ac_link a), (''target'', ac_target a), (''mode'', ac_mode a),
      (''parent_mode'', ac_parent_mode a), (''owner'', ac_owner a), (''user'', ac_user a),
      (''shell'', ac_shell a), (''content'', ac_content a), (''host_key_dir'', ac_host_key_dir a),
      (''authorized_keys_dir'', ac_authorized_keys_dir a),
      (''authorized_keys_source'', ac_authorized_keys_source a), (''runtime_dir'', ac_runtime_dir a),
      (''ssh_keygen'', ac_ssh_keygen a), (''subgroup'', ac_subgroup a), (''shadow_path'', ac_shadow_path a)]"

definition action_location :: "action \<Rightarrow> string \<Rightarrow> string" where
  "action_location a field = ''bootstrap.actions.'' @ ac_id a @ ''.'' @ field"

text \<open>Kinds that request reconciliation reruns, so that they may depend on the request.\<close>

definition rerun_kinds :: "action_kind list" where
  "rerun_kinds = [IdentityResolve, IdentityMapUser, IdentityEnsureHome, ProcessSetUserShell,
     ProcessDropPrivileges, HandoffExec]"

definition validate_action_invariance :: "string list \<Rightarrow> action \<Rightarrow> unit model_result" where
  "validate_action_invariance runtime_inputs a =
     (if is_workspace (or_source (ac_origin a)) then Inr ()
      else if ac_kind a \<in> set rerun_kinds then Inr ()
      else
        rbind (for_each (\<lambda>(field, value).
          when_some value (\<lambda>v.
            when_some (runtime_reference v runtime_inputs) (\<lambda>reference.
              Inl (Invalid (action_location a field) (ConfigMsg (DependsOnRuntime reference))))))
          (invariance_fields a)) (\<lambda>_.
        when_some (ac_when a) (\<lambda>condition.
          rbind (condition_parse condition) (\<lambda>condition.
            when_some (condition_runtime_reference condition runtime_inputs) (\<lambda>reference.
              Inl (Invalid (action_location a ''when'') (ConfigMsg (ConditionDependsOnRuntime reference))))))))"

definition validate_runtime_invariance :: "bootstrap_config \<Rightarrow> unit model_result" where
  "validate_runtime_invariance c =
     for_each (validate_action_invariance (runtime_input_names c)) (bc_actions c)"

section \<open>Fields each kind requires\<close>

definition require :: "action \<Rightarrow> string \<Rightarrow> 'v option \<Rightarrow> unit model_result" where
  "require a name value =
     fail_if (value = None) (Invalid (action_location a name) (ActionMsg FieldRequired))"

text \<open>The loop over host key types: unsupported before duplicate, element by element.\<close>

fun check_key_types :: "action \<Rightarrow> string list \<Rightarrow> string list \<Rightarrow> unit model_result" where
  "check_key_types a seen [] = Inr ()"
| "check_key_types a seen (key_type # types) =
     (if key_type \<notin> {''rsa'', ''ed25519'', ''ecdsa''}
      then Inl (Invalid (action_location a ''host_key_types'') (ActionMsg (UnsupportedKeyType key_type)))
      else if key_type \<in> set seen
      then Inl (Invalid (action_location a ''host_key_types'') (ActionMsg (DuplicateKeyType key_type)))
      else check_key_types a (key_type # seen) types)"

definition validate_ssh_fields :: "action \<Rightarrow> unit model_result" where
  "validate_ssh_fields a =
     rbind (if ac_host_key_dir a = None \<and> ac_path a = None
            then require a ''host_key_dir'' (None :: string option) else Inr ()) (\<lambda>_.
     rbind (if ac_authorized_keys_dir a = None \<and> ac_target a = None
            then require a ''authorized_keys_dir'' (None :: string option) else Inr ()) (\<lambda>_.
     rbind (if ac_runtime_dir a = None \<and> ac_link a = None
            then require a ''runtime_dir'' (None :: string option) else Inr ()) (\<lambda>_.
     rbind (when_some (ac_host_key_types a) (\<lambda>types.
       rbind (fail_if (types = []) (Invalid (action_location a ''host_key_types'') (ActionMsg KeyTypesEmpty))) (\<lambda>_.
       check_key_types a [] types))) (\<lambda>_.
     fail_if (ac_authorized_keys_source a \<noteq> None \<and> ac_content a \<noteq> None)
       (Invalid (''bootstrap.actions.'' @ ac_id a) (ActionMsg KeysExclusive))))))"

definition bad_controller :: "string \<Rightarrow> bool" where
  "bad_controller controller \<longleftrightarrow>
     controller = [] \<or> contains_whitespace controller \<or> has_char controller nul"

text \<open>
  The loop over \<open>controllers\<close> and \<open>optional_controllers\<close>; the set of names seen is shared by
  the two lists and is the loop state.
\<close>

fun check_controllers :: "action \<Rightarrow> string \<Rightarrow> string list \<Rightarrow> string list \<Rightarrow> string list model_result" where
  "check_controllers a field seen [] = Inr seen"
| "check_controllers a field seen (controller # controllers) =
     (if bad_controller controller
      then Inl (Invalid (action_location a field) (ActionMsg (InvalidController controller)))
      else if controller \<in> set seen
      then Inl (Invalid (action_location a field) (ActionMsg (DuplicateController controller)))
      else check_controllers a field (controller # seen) controllers)"

definition check_controller_list ::
  "action \<Rightarrow> string list \<Rightarrow> string \<times> string list option \<Rightarrow> string list model_result" where
  "check_controller_list a seen entry =
     (case entry of
        (field, None) \<Rightarrow> Inr seen
      | (field, Some controllers) \<Rightarrow>
          rbind (fail_if (controllers = []) (Invalid (action_location a field) (ActionMsg ControllersEmpty))) (\<lambda>_.
          check_controllers a field seen controllers))"

fun check_subgroup_controllers :: "action \<Rightarrow> string list \<Rightarrow> string list \<Rightarrow> unit model_result" where
  "check_subgroup_controllers a seen [] = Inr ()"
| "check_subgroup_controllers a seen (controller # controllers) =
     (if bad_controller controller \<or> controller \<in> set seen
      then Inl (Invalid (action_location a ''subgroup_controllers'')
        (ActionMsg (InvalidSubgroupController controller)))
      else check_subgroup_controllers a (controller # seen) controllers)"

definition bad_cgroup_file :: "string \<Rightarrow> bool" where
  "bad_cgroup_file value \<longleftrightarrow>
     value = [] \<or> starts_with value ''/'' \<or> has_char value (CHR ''/'') \<or> str_contains value ''..'' \<or>
     has_char value nul"

definition validate_cgroup_fields :: "action \<Rightarrow> unit model_result" where
  "validate_cgroup_fields a =
     rbind (when_some (opt_or (ac_mount_mode a) (ac_mode a)) (\<lambda>mode.
       fail_if (mode \<notin> {''default'', ''direct'', ''bind_mount'', ''mount_shadow'', ''shadow''})
         (Invalid (action_location a ''mount_mode'') (ActionMsg (InvalidMountMode mode))))) (\<lambda>_.
     rbind (when_some (ac_subgroup a) (\<lambda>subgroup.
       fail_if (subgroup = [] \<or> has_char subgroup (CHR ''/'') \<or> str_contains subgroup ''..'' \<or>
           has_char subgroup nul)
         (Invalid (action_location a ''subgroup'') (ActionMsg SubgroupForm)))) (\<lambda>_.
     rbind (fold_result (check_controller_list a) []
       [(''controllers'', ac_controllers a), (''optional_controllers'', ac_optional_controllers a)]) (\<lambda>_.
     rbind (when_some (ac_subgroup_type a) (\<lambda>subgroup_type.
       fail_if (ac_subgroup a = None \<or> bad_controller subgroup_type)
         (Invalid (action_location a ''subgroup_type'') (ActionMsg SubgroupTypeForm)))) (\<lambda>_.
     rbind (when_some (ac_subgroup_controllers a) (\<lambda>controllers.
       rbind (fail_if (ac_subgroup a = None \<or> controllers = [])
         (Invalid (action_location a ''subgroup_controllers'') (ActionMsg SubgroupControllersEmpty))) (\<lambda>_.
       check_subgroup_controllers a [] controllers))) (\<lambda>_.
     when_some (ac_subgroup_controller_values a) (\<lambda>values.
       rbind (fail_if (ac_subgroup a = None \<or> values = [])
         (Invalid (action_location a ''subgroup_controller_values'') (ActionMsg SubgroupValuesEmpty))) (\<lambda>_.
       for_each (\<lambda>(target, source).
         for_each (\<lambda>(field, value). fail_if (bad_cgroup_file value)
             (Invalid (action_location a (''subgroup_controller_values.'' @ field))
               (ActionMsg (SubgroupValueForm field value))))
           [(''target'', target), (''source'', source)]) values)))))))"

definition validate_action_kind_fields :: "action \<Rightarrow> unit model_result" where
  "validate_action_kind_fields a =
     (case ac_kind a of
        FilesystemEnsureDir \<Rightarrow> require a ''path'' (ac_path a)
      | FilesystemEnsureFile \<Rightarrow>
          rbind (require a ''path'' (ac_path a)) (\<lambda>_.
          fail_if (ac_content a = None \<and> ac_mode a = None)
            (Invalid (action_location a ''content'') (ActionMsg EnsureFileContent)))
      | FilesystemEnsureSymlink \<Rightarrow>
          rbind (require a ''link'' (ac_link a)) (\<lambda>_. require a ''target'' (ac_target a))
      | FilesystemChown \<Rightarrow>
          rbind (require a ''path'' (ac_path a)) (\<lambda>_. require a ''owner'' (ac_owner a))
      | FilesystemChmod \<Rightarrow>
          rbind (require a ''path'' (ac_path a)) (\<lambda>_. require a ''mode'' (ac_mode a))
      | ProcessSetUserShell \<Rightarrow>
          rbind (require a ''user'' (ac_user a)) (\<lambda>_. require a ''shell'' (ac_shell a))
      | ServiceSshPrepare \<Rightarrow> validate_ssh_fields a
      | CgroupV2Init \<Rightarrow> validate_cgroup_fields a
      | _ \<Rightarrow> Inr ())"

section \<open>Actions\<close>

text \<open>The trust checks at the head of \<open>validate_action\<close>, in the order of the source.\<close>

definition validate_trust :: "bootstrap_config \<Rightarrow> action \<Rightarrow> unit model_result" where
  "validate_trust c a =
     (let source = or_source (ac_origin a);
          violation = (\<lambda>m. TrustViolation (ac_id a) source m)
      in rbind (fail_if (intrinsic_admin_only (ac_kind a) \<and> \<not> is_trusted source)
           (violation RestrictedToAdmin)) (\<lambda>_.
         rbind (fail_if (ac_kind a \<in> set (admin_only_action_kinds (bc_policy c)) \<and> \<not> is_trusted source)
           (violation PolicyAdminOnly)) (\<lambda>_.
         rbind (fail_if (ac_run_as a = RunRoot \<and> \<not> is_trusted source) (violation RootRequiresTrust)) (\<lambda>_.
         rbind (if is_workspace source then
             rbind (fail_if (\<not> bc_allow_workspace_overlay c) (WorkspaceOverlayDisabled (ac_id a))) (\<lambda>_.
             rbind (fail_if (ac_kind a \<notin> set (workspace_safe_action_kinds (bc_policy c)))
               (violation NotWorkspaceSafe)) (\<lambda>_.
             fail_if (ac_run_as a \<noteq> RunTarget) (violation WorkspaceRunsAsTarget)))
           else Inr ()) (\<lambda>_.
         fail_if (\<not> is_trusted source \<and> \<not> is_workspace source) (violation SourceNotAllowed))))))"

definition path_fields :: "action \<Rightarrow> (string \<times> string option) list" where
  "path_fields a =
     [(''path'', ac_path a), (''link'', ac_link a), (''target'', ac_target a),
      (''host_key_dir'', ac_host_key_dir a), (''authorized_keys_dir'', ac_authorized_keys_dir a),
      (''authorized_keys_source'', ac_authorized_keys_source a), (''runtime_dir'', ac_runtime_dir a),
      (''shadow_path'', ac_shadow_path a)]"

definition validate_mode_field :: "action \<Rightarrow> string \<Rightarrow> string option \<Rightarrow> unit model_result" where
  "validate_mode_field a field mode =
     when_some mode (\<lambda>mode.
       rbind (map_err (Invalid (action_location a field)) (parse_mode mode)) (\<lambda>_. Inr ()))"

definition validate_action_fields :: "action \<Rightarrow> unit model_result" where
  "validate_action_fields a =
     rbind (when_some (ac_when a) (\<lambda>text. rbind (condition_parse text) (\<lambda>_. Inr ()))) (\<lambda>_.
     rbind (for_each (\<lambda>(field, value). when_some value (validate_template (action_location a field)))
       (path_fields a)) (\<lambda>_.
     rbind (if ac_kind a \<noteq> CgroupV2Init then validate_mode_field a ''mode'' (ac_mode a) else Inr ()) (\<lambda>_.
     rbind (validate_mode_field a ''parent_mode'' (ac_parent_mode a)) (\<lambda>_.
     rbind (when_some (ac_shell a) (validate_executable (action_location a ''shell''))) (\<lambda>_.
     rbind (when_some (ac_ssh_keygen a) (validate_executable (action_location a ''ssh_keygen''))) (\<lambda>_.
     rbind (when_some (ac_user a) (\<lambda>user.
       if user \<noteq> ''identity.target'' then validate_user_name (action_location a ''user'') user
       else Inr ())) (\<lambda>_.
     rbind (when_some (ac_owner a) (validate_owner (action_location a ''owner''))) (\<lambda>_.
     rbind (when_some (ac_content a) (\<lambda>content. fail_if (has_char content nul)
       (Invalid (action_location a ''content'') (ActionMsg ContentNul)))) (\<lambda>_.
     rbind (for_each (\<lambda>dependency. fail_if (\<not> is_action_id dependency)
       (Invalid (action_location a ''depends_on'') (ActionMsg (InvalidDependencyId dependency))))
       (ac_depends_on a)) (\<lambda>_.
     validate_action_kind_fields a))))))))))"

definition validate_action :: "bootstrap_config \<Rightarrow> action \<Rightarrow> unit model_result" where
  "validate_action c a =
     rbind (fail_if (ac_id a = [] \<or> \<not> is_action_id (ac_id a))
       (Invalid (''bootstrap.actions['' @ ac_id a @ ''].id'') (ActionMsg ActionIdForm))) (\<lambda>_.
     rbind (validate_trust c a) (\<lambda>_.
     rbind (fail_if (ac_kind a \<in> {IdentityResolve, IdentityMapUser, IdentityEnsureHome,
           ServiceSshPrepare, ProcessDropPrivileges, CgroupV2Init} \<and> ac_run_as a \<noteq> RunRoot)
       (Invalid (action_location a ''run_as'') (ActionMsg KindMustRunAsRoot))) (\<lambda>_.
     validate_action_fields a)))"

section \<open>Configurations\<close>

definition validate_inputs :: "bootstrap_config \<Rightarrow> unit model_result" where
  "validate_inputs c =
     for_each (\<lambda>(name, input).
       rbind (fail_if (name \<noteq> to_ascii_uppercase name \<or> \<not> is_env_name name)
         (Invalid (''bootstrap.inputs.'' @ name) (ConfigMsg InputNameForm))) (\<lambda>_.
       input_validate input name)) (bc_inputs c)"

definition validate_identity_inputs :: "bootstrap_config \<Rightarrow> unit model_result" where
  "validate_identity_inputs c =
     for_each (\<lambda>(field, input_name).
       when_some input_name (\<lambda>name.
         fail_if (\<not> (contains_key name (bc_inputs c) \<or>
             list_ex (\<lambda>input. name \<in> set (in_aliases input)) (map snd (bc_inputs c))))
           (Invalid (''bootstrap.identity.'' @ field) (ConfigMsg (InputNotDeclared name)))))
       [(''run_as_root_input'', ic_run_as_root_input (bc_identity c)),
        (''uid_input'', ic_uid_input (bc_identity c)), (''gid_input'', ic_gid_input (bc_identity c)),
        (''home_input'', ic_home_input (bc_identity c))]"

definition namespace_of :: "bootstrap_config \<Rightarrow> string option \<Rightarrow> input_namespace option" where
  "namespace_of c name =
     Option.bind (Option.bind name (input_declaration (bc_inputs c))) in_namespace"

definition validate_namespaces :: "bootstrap_config \<Rightarrow> unit model_result" where
  "validate_namespaces c =
     (case (namespace_of c (ic_uid_input (bc_identity c)), namespace_of c (ic_gid_input (bc_identity c))) of
        (Some u, Some g) \<Rightarrow>
          fail_if (u \<noteq> g) (Invalid ''bootstrap.identity'' (ConfigMsg (NamespaceMismatch u g)))
      | _ \<Rightarrow> Inr ())"

text \<open>The loop over the actions; its state is the set of ids seen so far.\<close>

fun validate_actions :: "bootstrap_config \<Rightarrow> string list \<Rightarrow> action list \<Rightarrow> unit model_result" where
  "validate_actions c seen [] = Inr ()"
| "validate_actions c seen (a # actions) =
     (if ac_id a \<in> set seen then Inl (DuplicateActionId (ac_id a))
      else rbind (validate_action c a) (\<lambda>_. validate_actions c (ac_id a # seen) actions))"

definition config_validate :: "bootstrap_config \<Rightarrow> unit model_result" where
  "config_validate c =
     rbind (fail_if (MAX_BOOTSTRAP_ACTIONS < length (bc_actions c))
       (Invalid ''bootstrap.actions'' (ConfigMsg (TooManyActions (length (bc_actions c)))))) (\<lambda>_.
     rbind (fail_if (bc_schema c \<noteq> BOOTSTRAP_SCHEMA_V1)
       (Invalid ''bootstrap.schema'' (ConfigMsg (UnsupportedSchema (bc_schema c))))) (\<lambda>_.
     rbind (validate_template ''bootstrap.workspace_root'' (bc_workspace_root c)) (\<lambda>_.
     rbind (fail_if (starts_with (bc_workspace_root c) ''${'')
       (Invalid ''bootstrap.workspace_root'' (ConfigMsg WorkspaceRootNotConcrete))) (\<lambda>_.
     rbind (identity_config_validate (bc_identity c)) (\<lambda>_.
     rbind (handoff_config_validate (bc_handoff c)) (\<lambda>_.
     rbind (validate_inputs c) (\<lambda>_.
     rbind (validate_identity_inputs c) (\<lambda>_.
     rbind (validate_namespaces c) (\<lambda>_.
     rbind (validate_actions c [] (bc_actions c)) (\<lambda>_.
     validate_runtime_invariance c))))))))))"

section \<open>Lemmas\<close>

lemma validate_actions_Inr:
  "validate_actions c seen actions = Inr u \<longleftrightarrow>
     distinct (map ac_id actions) \<and> set (map ac_id actions) \<inter> set seen = {} \<and>
     (\<forall>a \<in> set actions. validate_action c a = Inr ())"
proof (induction c seen actions rule: validate_actions.induct)
  case (2 c seen a actions)
  then show ?case by (auto simp: rbind_Inr_iff)
qed simp

lemma config_validate_Inr:
  assumes "config_validate c = Inr u"
  shows "length (bc_actions c) \<le> MAX_BOOTSTRAP_ACTIONS"
    and "distinct (map ac_id (bc_actions c))"
    and "a \<in> set (bc_actions c) \<Longrightarrow> validate_action c a = Inr ()"
    and "a \<in> set (bc_actions c) \<Longrightarrow> validate_action_invariance (runtime_input_names c) a = Inr ()"
    and "identity_config_validate (bc_identity c) = Inr ()"
    and "handoff_config_validate (bc_handoff c) = Inr ()"
    and "validate_inputs c = Inr ()"
    and "validate_identity_inputs c = Inr ()"
    and "validate_namespaces c = Inr ()"
  using assms
  by (auto simp: config_validate_def rbind_Inr_iff fail_if_Inr_iff validate_actions_Inr
      validate_runtime_invariance_def for_each_Inr_iff)

lemma validate_action_Inr:
  "validate_action c a = Inr u \<longleftrightarrow>
     is_action_id (ac_id a) \<and> validate_trust c a = Inr () \<and>
     (ac_kind a \<in> {IdentityResolve, IdentityMapUser, IdentityEnsureHome, ServiceSshPrepare,
        ProcessDropPrivileges, CgroupV2Init} \<longrightarrow> ac_run_as a = RunRoot) \<and>
     validate_action_fields a = Inr ()"
  by (auto simp: validate_action_def rbind_Inr_iff fail_if_Inr_iff is_action_id_def)

lemma validate_trust_Inr:
  "validate_trust c a = Inr u \<longleftrightarrow>
     (is_trusted (or_source (ac_origin a)) \<or>
      (is_workspace (or_source (ac_origin a)) \<and> bc_allow_workspace_overlay c \<and>
       ac_kind a \<in> set (workspace_safe_action_kinds (bc_policy c)) \<and> ac_run_as a = RunTarget \<and>
       \<not> intrinsic_admin_only (ac_kind a) \<and> ac_kind a \<notin> set (admin_only_action_kinds (bc_policy c))))"
  by (auto simp: validate_trust_def Let_def rbind_Inr_iff fail_if_Inr_iff is_workspace_def is_trusted_def
      split: if_splits)

text \<open>What an action from an untrusted source can be.\<close>

definition workspace_kinds :: "action_kind set" where
  "workspace_kinds = {FilesystemEnsureDir, FilesystemEnsureFile, FilesystemEnsureSymlink,
     FilesystemChown, FilesystemChmod}"

lemma untrusted_action:
  assumes "validate_action c a = Inr u" "\<not> is_trusted (or_source (ac_origin a))"
  shows "or_source (ac_origin a) = WorkspaceOverlay" "bc_allow_workspace_overlay c"
    "ac_kind a \<in> set (workspace_safe_action_kinds (bc_policy c)) \<inter> workspace_kinds"
    "ac_kind a \<notin> set (admin_only_action_kinds (bc_policy c))"
    "ac_run_as a = RunTarget" "action_phase a = PhaseTarget"
proof -
  from assms have "is_workspace (or_source (ac_origin a))" "bc_allow_workspace_overlay c"
    "ac_kind a \<in> set (workspace_safe_action_kinds (bc_policy c))" and run: "ac_run_as a = RunTarget"
    and kind: "\<not> intrinsic_admin_only (ac_kind a)" "ac_kind a \<notin> set (admin_only_action_kinds (bc_policy c))"
    "ac_kind a \<notin> {IdentityResolve, IdentityMapUser, IdentityEnsureHome}"
    by (auto simp: validate_action_Inr validate_trust_Inr)
  moreover from kind have "ac_kind a \<in> workspace_kinds"
    by (cases "ac_kind a") (auto simp: workspace_kinds_def intrinsic_admin_only_def)
  ultimately show "or_source (ac_origin a) = WorkspaceOverlay" "bc_allow_workspace_overlay c"
    "ac_kind a \<in> set (workspace_safe_action_kinds (bc_policy c)) \<inter> workspace_kinds"
    "ac_kind a \<notin> set (admin_only_action_kinds (bc_policy c))"
    "ac_run_as a = RunTarget" "action_phase a = PhaseTarget"
    by (auto simp: is_workspace_def action_phase_def kind_phase_def workspace_kinds_def)
qed

section \<open>References that depend on the request\<close>

definition request_scoped :: "string list \<Rightarrow> string \<Rightarrow> bool" where
  "request_scoped runtime_inputs r \<longleftrightarrow>
     prefix ''identity.'' r \<or> prefix ''env.'' r \<or> (\<exists>name \<in> set runtime_inputs. r = ''input.'' @ name)"

lemma reference_loop_text:
  "CHR ''$'' \<notin> set s \<Longrightarrow> runtime_reference_loop ns (s @ rest) = runtime_reference_loop ns rest"
  by (subst (1 2) runtime_reference_loop.simps) (auto simp: find_dollar_text Let_def split: option.splits)

lemma reference_loop_ref:
  assumes "CHR ''}'' \<notin> set r" and "runtime_reference_loop ns (''${'' @ r @ ''}'' @ rest) = None"
  shows "\<not> request_scoped ns r \<and> runtime_reference_loop ns rest = None"
proof -
  have rest: "drop (Suc (length r)) (r @ CHR ''}'' # rest) = rest" "drop (length r + 1) (r @ CHR ''}'' # rest) = rest"
    by simp_all
  from assms(2) find_brace [OF assms(1), of rest]
  have none: "(case strip_prefix ''input.'' r of
      Some name \<Rightarrow> if name \<in> set ns then Some (''runtime input '' @ name) else runtime_reference_loop ns rest
    | None \<Rightarrow> if prefix ''env.'' r then Some (''runtime environment '' @ r)
        else if prefix ''identity.'' r then Some ''request identity'' else runtime_reference_loop ns rest) = None"
    by (subst (asm) runtime_reference_loop.simps) (simp add: Let_def rest cong: option.case_cong if_cong)
  show ?thesis
  proof (cases "prefix ''input.'' r")
    case True
    then obtain n where "r = ''input.'' @ n" by (auto simp: prefix_def)
    with none show ?thesis by (auto simp: request_scoped_def strip_prefix_def split: if_splits)
  next
    case False
    with none show ?thesis by (auto simp: request_scoped_def strip_prefix_def split: if_splits)
  qed
qed

lemma reference_loop_segments:
  assumes "list_all wf_segment segs" "runtime_reference_loop ns (print_template segs) = None" "Ref r \<in> set segs"
  shows "\<not> request_scoped ns r"
  using assms
proof (induction segs)
  case (Cons seg segs)
  show ?case
  proof (cases seg)
    case (Text s)
    with Cons show ?thesis by (auto simp: reference_loop_text)
  next
    case (Ref q)
    with Cons.prems have "CHR ''}'' \<notin> set q" by (simp add: reference_no_brace)
    with reference_loop_ref [OF this, of ns "print_template segs"] Cons Ref show ?thesis by auto
  qed
qed simp

lemma substitute_cong:
  "(\<And>r. Ref r \<in> set segs \<Longrightarrow> btree_get r vs = btree_get r vs') \<Longrightarrow> substitute vs segs = substitute vs' segs"
proof (induction segs)
  case (Cons seg segs)
  then have "substitute vs segs = substitute vs' segs" by simp
  with Cons.prems show ?case by (cases seg) auto
qed simp

lemma runtime_invariant_render:
  assumes "validate_interpolations loc t = Inr ()" "runtime_reference t ns = None"
    and "\<And>r. \<not> request_scoped ns r \<Longrightarrow> btree_get r vs = btree_get r vs'"
  shows "render t vs = render t vs'"
proof -
  obtain segs where segs: "list_all wf_segment segs" "t = print_template segs"
    using validate_interpolations_segments [OF assms(1)] by blast
  have "runtime_reference_loop ns (print_template segs) = None"
    using assms(2) segs(2) by (simp add: runtime_reference_def split: if_splits)
  with segs assms(3) have "substitute vs segs = substitute vs' segs"
    using reference_loop_segments by (intro substitute_cong) blast
  with segs show ?thesis by (simp add: render_def render_print_template)
qed

lemma validated_path_field:
  assumes "validate_action c a = Inr u" "(f, Some t) \<in> set (path_fields a)"
  shows "validate_template (action_location a f) t = Inr ()"
proof -
  from assms(1) have "for_each (\<lambda>(field, v). when_some v (validate_template (action_location a field)))
      (path_fields a) = Inr ()"
    by (auto simp: validate_action_Inr validate_action_fields_def rbind_Inr_iff)
  with assms(2) show ?thesis by (auto simp: for_each_Inr_iff when_some_Inr_iff)
qed

lemma startup_field_not_runtime:
  assumes "validate_action_invariance ns a = Inr u" "\<not> is_workspace (or_source (ac_origin a))"
    "ac_kind a \<notin> set rerun_kinds" "(f, Some t) \<in> set (invariance_fields a)"
  shows "runtime_reference t ns = None"
proof -
  from assms(1-3) have "for_each (\<lambda>(field, v). when_some v (\<lambda>v. when_some (runtime_reference v ns)
      (\<lambda>reference. Inl (Invalid (action_location a field) (ConfigMsg (DependsOnRuntime reference))))))
      (invariance_fields a) = Inr ()"
    by (auto simp: validate_action_invariance_def rbind_Inr_iff)
  with assms(4) show ?thesis by (auto simp: for_each_Inr_iff when_some_Inr_iff)
qed

lemma path_fields_invariance: "set (path_fields a) \<subseteq> set (invariance_fields a)"
  by (auto simp: path_fields_def invariance_fields_def)


section \<open>Properties\<close>

text \<open>
  C1. The trust boundary. In a configuration that validates, an action either comes from an
  image or admin profile, or it comes from the workspace overlay, the overlay is enabled,
  the policy lists its kind as workspace-safe and not as admin-only, the kind is one of the
  five plain file system kinds, and it runs as the target user in the target phase. So no
  untrusted action runs as root, changes accounts, prepares services or hands off.
\<close>

theorem validated_trust_boundary:
  assumes "config_validate c = Inr ()" and "a \<in> set (bc_actions c)"
  shows "is_trusted (or_source (ac_origin a)) \<or>
    (or_source (ac_origin a) = WorkspaceOverlay \<and> bc_allow_workspace_overlay c \<and>
     ac_kind a \<in> set (workspace_safe_action_kinds (bc_policy c)) \<inter> workspace_kinds \<and>
     ac_kind a \<notin> set (admin_only_action_kinds (bc_policy c)) \<and>
     ac_run_as a = RunTarget \<and> action_phase a = PhaseTarget)"
  using untrusted_action [OF config_validate_Inr(3) [OF assms]] by blast

text \<open>A configuration with an image action and a workspace action.\<close>

definition sample_actions :: "action list" where
  "sample_actions =
     [(action_new ''cache'' FilesystemEnsureDir (origin_workspace ''ws''))
        \<lparr>ac_path := Some ''${bootstrap.workspace_root}/.cache'', ac_run_as := RunTarget\<rparr>,
      (action_new ''resolve'' IdentityResolve (origin_image ''base''))\<lparr>ac_run_as := RunRoot\<rparr>,
      (action_new ''run'' FilesystemEnsureDir (origin_image ''base''))
        \<lparr>ac_path := Some ''/run/app'', ac_run_as := RunRoot\<rparr>,
      (action_new ''handoff'' HandoffExec (origin_image ''base''))\<lparr>ac_depends_on := [''cache'']\<rparr>]"

definition sample_config :: bootstrap_config where
  "sample_config =
     (bootstrap_config_new ''/workspace'' identity_config_new (handoff_config_new ''/bin/runtime'') [] sample_actions)
       \<lparr>bc_allow_workspace_overlay := True,
        bc_policy := \<lparr>workspace_safe_action_kinds = [FilesystemEnsureDir], admin_only_action_kinds = []\<rparr>\<rparr>"

lemma sample_with_actions_valid:
  assumes "length actions \<le> MAX_BOOTSTRAP_ACTIONS"
    and "validate_actions (sample_config\<lparr>bc_actions := actions\<rparr>) [] actions = Inr ()"
    and "validate_runtime_invariance (sample_config\<lparr>bc_actions := actions\<rparr>) = Inr ()"
  shows "config_validate (sample_config\<lparr>bc_actions := actions\<rparr>) = Inr ()"
proof -
  let ?c = "sample_config\<lparr>bc_actions := actions\<rparr>"
  have "validate_executable ''bootstrap.handoff.runtime'' ''/bin/runtime'' = Inr ()" by code_simp
  then have "handoff_config_validate (bc_handoff ?c) = Inr ()"
    by (simp add: sample_config_def bootstrap_config_new_def handoff_config_validate_def
        handoff_config_new_def validate_prefix_def when_some_def fail_if_def)
  moreover have "bc_schema sample_config = BOOTSTRAP_SCHEMA_V1" "bc_inputs sample_config = []"
    "validate_template ''bootstrap.workspace_root'' (bc_workspace_root sample_config) = Inr ()"
    "\<not> prefix ''${'' (bc_workspace_root sample_config)"
    "bc_identity sample_config = identity_config_new"
    "identity_config_validate identity_config_new = Inr ()"
    by code_simp+
  moreover from this have "validate_inputs ?c = Inr ()" "validate_identity_inputs ?c = Inr ()"
    "validate_namespaces ?c = Inr ()"
    by (simp_all add: validate_inputs_def validate_identity_inputs_def validate_namespaces_def
        namespace_of_def identity_config_new_def when_some_def)
  ultimately show ?thesis using assms by (simp add: config_validate_def fail_if_def)
qed

lemma sample_config_valid: "config_validate sample_config = Inr ()"
proof -
  have "sample_config\<lparr>bc_actions := sample_actions\<rparr> = sample_config"
    by (simp add: sample_config_def bootstrap_config_new_def)
  moreover have "validate_actions sample_config [] sample_actions = Inr ()"
    "validate_runtime_invariance sample_config = Inr ()" by code_simp+
  ultimately show ?thesis
    using sample_with_actions_valid [of sample_actions]
    by (simp add: sample_actions_def MAX_BOOTSTRAP_ACTIONS_def)
qed

theorem validated_trust_boundary_witness:
  "hd sample_actions \<in> set (bc_actions sample_config) \<and> ac_run_as (hd sample_actions) = RunTarget"
proof -
  have a: "hd sample_actions \<in> set (bc_actions sample_config)"
    by (simp add: sample_config_def bootstrap_config_new_def sample_actions_def)
  with validated_trust_boundary [OF sample_config_valid a] show ?thesis
    by (auto simp: sample_actions_def action_new_def origin_workspace_def origin_new_def is_trusted_def)
qed

text \<open>
  Startup actions do not depend on the request. Reconciliation does not rerun them, so in a
  validated configuration the paths of an action that is neither a workspace action nor of a
  kind that is rerun render to the same result whatever the request's identity, environment
  and runtime inputs are.
\<close>

theorem startup_paths_request_independent:
  assumes "config_validate c = Inr ()" and "a \<in> set (bc_actions c)"
    and "\<not> is_workspace (or_source (ac_origin a))" and "ac_kind a \<notin> set rerun_kinds"
    and "(field, Some template) \<in> set (path_fields a)"
    and "\<And>r. \<not> request_scoped (runtime_input_names c) r \<Longrightarrow> btree_get r vs = btree_get r vs'"
  shows "render template vs = render template vs'"
proof (rule runtime_invariant_render [OF _ _ assms(6)])
  from validated_path_field [OF config_validate_Inr(3) [OF assms(1,2)] assms(5)]
  show "validate_interpolations (action_location a field) template = Inr ()"
    by (simp add: validate_template_Inr)
  show "runtime_reference template (runtime_input_names c) = None"
    using startup_field_not_runtime [OF config_validate_Inr(4) [OF assms(1,2)] assms(3,4)]
      assms(5) path_fields_invariance by blast
qed

theorem startup_paths_request_independent_witness:
  "render ''/run/app'' [] = render ''/run/app'' [(''identity.home'', ''/root'')]"
proof (rule startup_paths_request_independent [OF sample_config_valid, of "sample_actions ! 2" "''path''"])
  show "sample_actions ! 2 \<in> set (bc_actions sample_config)"
    by (simp add: sample_config_def bootstrap_config_new_def sample_actions_def numeral_2_eq_2)
  show "(''path'', Some ''/run/app'') \<in> set (path_fields (sample_actions ! 2))"
    by (simp add: sample_actions_def numeral_2_eq_2 path_fields_def)
  show "btree_get r [] = btree_get r [(''identity.home'', ''/root'')]"
    if "\<not> request_scoped (runtime_input_names sample_config) r" for r
    using that by (auto simp: btree_get_def request_scoped_def)
qed (simp_all add: sample_actions_def numeral_2_eq_2 action_new_def is_workspace_def origin_image_def
    origin_new_def rerun_kinds_def)

end
