(* ===== verification/Loader_Raw.thy ===== *)
theory Loader_Raw
  imports Bootstrap_Config Profile_Graph
begin

text \<open>
  Profile documents of the bootstrap loader (\<open>src/crates/container-init-bootstrap-loader/src/raw.rs\<close>,
  \<open>error.rs\<close>, \<open>source.rs\<close>): the raw records, the normalisation of action kinds on the TOML document,
  parsing, and the catalog of overrides. The TOML parser and the derived deserialiser of
  \<open>RawProfile\<close> are parameters.
\<close>

section \<open>Errors\<close>

datatype load_message =
    ProfileTooLarge
  | CollectionOverflow
  | CollectionTooLarge nat
  | SourceIdMismatch string string
  | InvalidProfileId profile_graph_error
  | ProfileSchemaZero
  | DuplicateOverride string
  | OverrideNotTable
  | OverrideOperation string
  | OverrideReasonMissing
  | OverridePathUnsupported string
  | OverridesWithoutBootstrap
  | NoBootstrapNamespace
  | RequiredValueMissing
  | AliasDeclaredTwice string string string
  | GraphInvalidId string
  | GraphDuplicateParent string
  | GraphDepthExceeded nat

datatype load_trust_message =
    OnlyWorkspaceOverlays
  | UntrustedOnlyActions
  | UntrustedNoOverrides
  | OverrideNeedsTrust
  | UntrustedNoReplacement

datatype 'x loader_error =
    LoadParse string 'x
  | LoadInvalid string load_message
  | LoadModel model_error
  | LoadActionLimit
  | LoadMissingProfile string
  | InheritanceCycle "string list"
  | DuplicateProfile string "string option" "string option"
  | LoadDuplicateAction string string
  | LoadConflict string origin origin
  | LoadTrust string source_kind string load_trust_message
  | LoadPanic

section \<open>Documents\<close>

datatype toml_value =
    TString string
  | TInteger int
  | TFloat string
  | TBoolean bool
  | TDatetime string
  | TArray "toml_value list"
  | TTable "(string \<times> toml_value) list"

record raw_identity =
  rw_default_user :: "string option"
  rw_default_uid :: "u32 option"
  rw_default_gid :: "u32 option"
  rw_default_home :: "string option"
  rw_auto_mapping :: "bool option"
  rw_run_as_root_input :: "string option"
  rw_uid_input :: "string option"
  rw_gid_input :: "string option"
  rw_home_input :: "string option"

record raw_handoff =
  rw_runtime :: "string option"
  rw_exec_prefix :: "string list option"
  rw_initial_exec_prefix :: "string list option"
  rw_shell_prefix :: "string list option"
  rw_root_service :: "bool option"
  rw_ssh_daemon :: "string option"
  rw_login_shell :: "string option"

record raw_bootstrap =
  rb_schema :: "u32 option"
  rb_mode :: "bootstrap_mode option"
  rb_workspace_root :: "string option"
  rb_allow_workspace_overlay :: "bool option"
  rb_non_interactive :: "non_interactive_policy option"
  rb_identity :: "raw_identity option"
  rb_handoff :: "raw_handoff option"
  rb_policy :: "bootstrap_policy option"
  rb_inputs :: "(string, bootstrap_input) btree_map"
  rb_actions :: "action list"
  rb_overrides :: "(string, toml_value) btree_map"

record raw_profile =
  rp_schema :: "u32 option"
  rp_id :: string
  rp_extends :: "string list"
  rp_bootstrap :: "raw_bootstrap option"
  rp_overrides :: "(string, toml_value) btree_map"

record profile_source =
  so_id :: string
  so_source :: source_kind
  so_location :: "string option"
  so_contents :: string

record loaded_profile =
  lo_id :: string
  lo_source :: source_kind
  lo_location :: "string option"

section \<open>Normalising action kinds\<close>

definition on_table :: "((string \<times> toml_value) list \<Rightarrow> (string \<times> toml_value) list) \<Rightarrow> toml_value \<Rightarrow> toml_value" where
  "on_table f value = (case value of TTable entries \<Rightarrow> TTable (f entries) | other \<Rightarrow> other)"

definition on_array :: "(toml_value \<Rightarrow> toml_value) \<Rightarrow> toml_value \<Rightarrow> toml_value" where
  "on_array f value = (case value of TArray items \<Rightarrow> TArray (map f items) | other \<Rightarrow> other)"

definition at_key ::
  "string \<Rightarrow> (toml_value \<Rightarrow> toml_value) \<Rightarrow> (string \<times> toml_value) list \<Rightarrow> (string \<times> toml_value) list" where
  "at_key key f entries = map (\<lambda>(k, v). (k, if k = key then f v else v)) entries"

definition normalize_kind :: "toml_value \<Rightarrow> toml_value" where
  "normalize_kind value =
     (case value of
        TString kind \<Rightarrow> TString (map (\<lambda>c. if c = CHR ''.'' then CHR ''_'' else c) kind)
      | other \<Rightarrow> other)"

definition normalize_bootstrap :: "(string \<times> toml_value) list \<Rightarrow> (string \<times> toml_value) list" where
  "normalize_bootstrap bootstrap =
     at_key ''policy'' (on_table (\<lambda>policy.
       at_key ''admin_only_action_kinds'' (on_array normalize_kind)
         (at_key ''workspace_safe_action_kinds'' (on_array normalize_kind) policy)))
       (at_key ''actions'' (on_array (on_table (at_key ''kind'' normalize_kind))) bootstrap)"

definition normalize_dsl_action_kinds :: "toml_value \<Rightarrow> toml_value" where
  "normalize_dsl_action_kinds document = on_table (at_key ''bootstrap'' (on_table normalize_bootstrap)) document"

section \<open>Parsing\<close>

text \<open>\<open>toml::from_str\<close> and \<open>Value::try_into\<close> for \<open>RawProfile\<close>.\<close>

record 'x toml_parser =
  toml_from_str :: "string \<Rightarrow> ('x, toml_value) result"
  toml_try_into :: "toml_value \<Rightarrow> ('x, raw_profile) result"

definition parser_validate_profile_id :: "string \<Rightarrow> ('x loader_error, unit) result" where
  "parser_validate_profile_id pid =
     map_err (\<lambda>e. LoadInvalid ''id'' (InvalidProfileId e)) (validate_profile_id pid)"

definition relocate :: "string \<Rightarrow> 'x loader_error \<Rightarrow> 'x loader_error" where
  "relocate location error = (case error of LoadInvalid _ message \<Rightarrow> LoadInvalid location message | other \<Rightarrow> other)"

definition parse_profile :: "'x toml_parser \<Rightarrow> string \<Rightarrow> string \<Rightarrow> ('x loader_error, raw_profile) result" where
  "parse_profile toml contents location =
     rbind (map_err (LoadParse location) (toml_from_str toml contents)) (\<lambda>document.
     rbind (map_err (LoadParse location) (toml_try_into toml (normalize_dsl_action_kinds document))) (\<lambda>profile.
     rbind (map_err (relocate location) (parser_validate_profile_id (rp_id profile))) (\<lambda>_.
     rbind (fail_if (rp_schema profile = Some 0) (LoadInvalid location ProfileSchemaZero)) (\<lambda>_.
     Inr profile))))"

section \<open>Overrides\<close>

definition override_paths :: "string list" where
  "override_paths =
     [''bootstrap.schema'', ''bootstrap.mode'', ''bootstrap.workspace_root'',
      ''bootstrap.allow_workspace_overlay'', ''bootstrap.non_interactive'',
      ''bootstrap.identity.default_user'', ''bootstrap.identity.default_uid'',
      ''bootstrap.identity.default_gid'', ''bootstrap.identity.default_home'',
      ''bootstrap.identity.auto_mapping'', ''bootstrap.identity.run_as_root_input'',
      ''bootstrap.identity.uid_input'', ''bootstrap.identity.gid_input'',
      ''bootstrap.identity.home_input'', ''bootstrap.handoff.runtime'',
      ''bootstrap.handoff.exec_prefix'', ''bootstrap.handoff.initial_exec_prefix'',
      ''bootstrap.handoff.shell_prefix'', ''bootstrap.handoff.root_service'',
      ''bootstrap.handoff.ssh_daemon'', ''bootstrap.handoff.login_shell'']"

definition action_id_chars :: "string \<Rightarrow> bool" where
  "action_id_chars value \<longleftrightarrow>
     value \<noteq> [] \<and> list_all (\<lambda>c. is_ascii_alphanumeric c \<or> c \<in> {CHR ''.'', CHR ''_'', CHR ''-''}) value"

definition input_name_chars :: "string \<Rightarrow> bool" where
  "input_name_chars value \<longleftrightarrow>
     value \<noteq> [] \<and> list_all (\<lambda>c. is_ascii_uppercase c \<or> is_ascii_digit c \<or> c = CHR ''_'') value"

definition validate_bootstrap_override_path :: "string \<Rightarrow> string \<Rightarrow> ('x loader_error, unit) result" where
  "validate_bootstrap_override_path path profile =
     (if path \<in> set override_paths then Inr ()
      else if is_some_and action_id_chars (strip_prefix ''bootstrap.actions.'' path) then Inr ()
      else if is_some_and input_name_chars (strip_prefix ''bootstrap.inputs.'' path) then Inr ()
      else Inl (LoadInvalid (''profile '' @ profile @ ''.override'') (OverridePathUnsupported path)))"

type_synonym override_catalog = "(string, string) btree_map"

definition full_override_path :: "string \<Rightarrow> string" where
  "full_override_path path = (if starts_with path ''bootstrap.'' then path else ''bootstrap.'' @ path)"

definition raw_override_entries :: "raw_profile \<Rightarrow> ('x loader_error, (string, toml_value) btree_map) result" where
  "raw_override_entries profile =
     (case rp_bootstrap profile of
        None \<Rightarrow> Inr (rp_overrides profile)
      | Some bootstrap \<Rightarrow>
          fold_result (\<lambda>entries (path, value).
            let full_path = full_override_path path in
            if contains_key full_path entries
            then Inl (LoadInvalid (''profile '' @ rp_id profile @ ''.override'') (DuplicateOverride full_path))
            else Inr (btree_insert full_path value entries))
            (rp_overrides profile) (rb_overrides bootstrap))"

fun as_str :: "toml_value \<Rightarrow> string option" where
  "as_str (TString s) = Some s"
| "as_str _ = None"

fun as_table :: "toml_value \<Rightarrow> (string \<times> toml_value) list option" where
  "as_table (TTable entries) = Some entries"
| "as_table _ = None"

definition table_str :: "string \<Rightarrow> (string \<times> toml_value) list \<Rightarrow> string option" where
  "table_str key entries = (case map_of entries key of None \<Rightarrow> None | Some value \<Rightarrow> as_str value)"

definition catalog_entry ::
  "raw_profile \<Rightarrow> source_kind \<Rightarrow> override_catalog \<Rightarrow> string \<times> toml_value \<Rightarrow> ('x loader_error, override_catalog) result" where
  "catalog_entry profile source entries entry =
     (let (path, value) = entry; location = ''profile '' @ rp_id profile @ ''.override'' in
      if \<not> starts_with path ''bootstrap.'' then Inr entries
      else
        rbind (validate_bootstrap_override_path path (rp_id profile)) (\<lambda>_.
        rbind (fail_if (\<not> is_trusted source) (LoadTrust (rp_id profile) source path OverrideNeedsTrust)) (\<lambda>_.
        rbind (ok_or (LoadInvalid location OverrideNotTable) (as_table value)) (\<lambda>table.
        rbind (when_some (table_str ''op'' table) (\<lambda>op.
          fail_if (op \<noteq> ''set'') (LoadInvalid (location @ ''.'' @ path) (OverrideOperation op)))) (\<lambda>_.
        rbind (case table_str ''reason'' table of
                 Some reason \<Rightarrow> if trim reason \<noteq> [] then Inr reason
                   else Inl (LoadInvalid (location @ ''.'' @ path) OverrideReasonMissing)
               | None \<Rightarrow> Inl (LoadInvalid (location @ ''.'' @ path) OverrideReasonMissing)) (\<lambda>reason.
        Inr (btree_insert path reason entries)))))))"

definition override_catalog_new :: "raw_profile \<Rightarrow> source_kind \<Rightarrow> ('x loader_error, override_catalog) result" where
  "override_catalog_new profile source =
     rbind (raw_override_entries profile) (\<lambda>raw_entries. fold_result (catalog_entry profile source) [] raw_entries)"

end
