(* ===== verification/Loader_Merge.thy ===== *)
theory Loader_Merge
  imports Loader_Raw
begin

text \<open>
  Merging bootstrap namespaces (\<open>src/crates/container-init-bootstrap-loader/src/merge.rs\<close>).
  \<open>MergedIdentity\<close> and \<open>MergedHandoff\<close> have the fields of \<open>RawIdentity\<close> and \<open>RawHandoff\<close> and are the
  same records here. \<open>LoadPanic\<close> stands for the panics of \<open>expect\<close> and of indexing.
\<close>

section \<open>State\<close>

record merged_bootstrap =
  md_schema :: "u32 option"
  md_mode :: "bootstrap_mode option"
  md_workspace_root :: "string option"
  md_allow_workspace_overlay :: "bool option"
  md_non_interactive :: "non_interactive_policy option"
  md_identity :: raw_identity
  md_handoff :: raw_handoff
  md_policy :: bootstrap_policy
  md_inputs :: "(string, bootstrap_input) btree_map"
  md_input_origins :: "(string, origin) btree_map"
  md_actions :: "action list"
  md_action_indexes :: "(string, nat) btree_map"
  md_field_origins :: "(string, origin) btree_map"
  md_saw_bootstrap :: bool

definition merged_default :: merged_bootstrap where
  "merged_default =
     \<lparr>md_schema = None, md_mode = None, md_workspace_root = None, md_allow_workspace_overlay = None,
      md_non_interactive = None,
      md_identity = \<lparr>rw_default_user = None, rw_default_uid = None, rw_default_gid = None,
        rw_default_home = None, rw_auto_mapping = None, rw_run_as_root_input = None,
        rw_uid_input = None, rw_gid_input = None, rw_home_input = None\<rparr>,
      md_handoff = \<lparr>rw_runtime = None, rw_exec_prefix = None, rw_initial_exec_prefix = None,
        rw_shell_prefix = None, rw_root_service = None, rw_ssh_daemon = None, rw_login_shell = None\<rparr>,
      md_policy = \<lparr>workspace_safe_action_kinds = [], admin_only_action_kinds = []\<rparr>,
      md_inputs = [], md_input_origins = [], md_actions = [], md_action_indexes = [],
      md_field_origins = [], md_saw_bootstrap = False\<rparr>"

section \<open>Scalars\<close>

record scalar_context =
  sc_origin :: origin
  sc_overrides :: override_catalog

definition merge_scalar ::
  "scalar_context \<Rightarrow> string \<Rightarrow> 'a option \<Rightarrow> 'a option \<Rightarrow> (string, origin) btree_map \<Rightarrow>
   ('x loader_error, 'a option \<times> (string, origin) btree_map) result" where
  "merge_scalar cx path slot incoming origins =
     (case incoming of
        None \<Rightarrow> Inr (slot, origins)
      | Some new \<Rightarrow>
          (case slot of
             None \<Rightarrow> Inr (Some new, btree_insert path (sc_origin cx) origins)
           | Some current \<Rightarrow>
               if current = new then Inr (slot, origins)
               else if \<not> contains_key path (sc_overrides cx) then
                 (case btree_get path origins of
                    None \<Rightarrow> Inl LoadPanic
                  | Some previous \<Rightarrow> Inl (LoadConflict path previous (sc_origin cx)))
               else Inr (Some new, btree_insert path (sc_origin cx) origins)))"

text \<open>The call of \<open>merge_scalar\<close> on one field of the state.\<close>

definition merge_field ::
  "scalar_context \<Rightarrow> string \<Rightarrow> (merged_bootstrap \<Rightarrow> 'a option) \<Rightarrow> ('a option \<Rightarrow> merged_bootstrap \<Rightarrow> merged_bootstrap) \<Rightarrow>
   'a option \<Rightarrow> merged_bootstrap \<Rightarrow> ('x loader_error, merged_bootstrap) result" where
  "merge_field cx path get put incoming m =
     rbind (merge_scalar cx path (get m) incoming (md_field_origins m)) (\<lambda>(slot, origins).
     Inr ((put slot m)\<lparr>md_field_origins := origins\<rparr>))"

definition put_identity :: "(raw_identity \<Rightarrow> raw_identity) \<Rightarrow> merged_bootstrap \<Rightarrow> merged_bootstrap" where
  "put_identity f m = m\<lparr>md_identity := f (md_identity m)\<rparr>"

definition put_handoff :: "(raw_handoff \<Rightarrow> raw_handoff) \<Rightarrow> merged_bootstrap \<Rightarrow> merged_bootstrap" where
  "put_handoff f m = m\<lparr>md_handoff := f (md_handoff m)\<rparr>"

definition merge_identity ::
  "scalar_context \<Rightarrow> raw_identity \<Rightarrow> merged_bootstrap \<Rightarrow> ('x loader_error, merged_bootstrap) result" where
  "merge_identity cx identity m =
     rbind (merge_field cx ''bootstrap.identity.default_user'' (\<lambda>m. rw_default_user (md_identity m))
       (\<lambda>v. put_identity (\<lambda>i. i\<lparr>rw_default_user := v\<rparr>)) (rw_default_user identity) m) (\<lambda>m.
     rbind (merge_field cx ''bootstrap.identity.default_uid'' (\<lambda>m. rw_default_uid (md_identity m))
       (\<lambda>v. put_identity (\<lambda>i. i\<lparr>rw_default_uid := v\<rparr>)) (rw_default_uid identity) m) (\<lambda>m.
     rbind (merge_field cx ''bootstrap.identity.default_gid'' (\<lambda>m. rw_default_gid (md_identity m))
       (\<lambda>v. put_identity (\<lambda>i. i\<lparr>rw_default_gid := v\<rparr>)) (rw_default_gid identity) m) (\<lambda>m.
     rbind (merge_field cx ''bootstrap.identity.default_home'' (\<lambda>m. rw_default_home (md_identity m))
       (\<lambda>v. put_identity (\<lambda>i. i\<lparr>rw_default_home := v\<rparr>)) (rw_default_home identity) m) (\<lambda>m.
     rbind (merge_field cx ''bootstrap.identity.auto_mapping'' (\<lambda>m. rw_auto_mapping (md_identity m))
       (\<lambda>v. put_identity (\<lambda>i. i\<lparr>rw_auto_mapping := v\<rparr>)) (rw_auto_mapping identity) m) (\<lambda>m.
     rbind (merge_field cx ''bootstrap.identity.run_as_root_input'' (\<lambda>m. rw_run_as_root_input (md_identity m))
       (\<lambda>v. put_identity (\<lambda>i. i\<lparr>rw_run_as_root_input := v\<rparr>)) (rw_run_as_root_input identity) m) (\<lambda>m.
     rbind (merge_field cx ''bootstrap.identity.uid_input'' (\<lambda>m. rw_uid_input (md_identity m))
       (\<lambda>v. put_identity (\<lambda>i. i\<lparr>rw_uid_input := v\<rparr>)) (rw_uid_input identity) m) (\<lambda>m.
     rbind (merge_field cx ''bootstrap.identity.gid_input'' (\<lambda>m. rw_gid_input (md_identity m))
       (\<lambda>v. put_identity (\<lambda>i. i\<lparr>rw_gid_input := v\<rparr>)) (rw_gid_input identity) m) (\<lambda>m.
     merge_field cx ''bootstrap.identity.home_input'' (\<lambda>m. rw_home_input (md_identity m))
       (\<lambda>v. put_identity (\<lambda>i. i\<lparr>rw_home_input := v\<rparr>)) (rw_home_input identity) m))))))))"

definition merge_handoff ::
  "scalar_context \<Rightarrow> raw_handoff \<Rightarrow> merged_bootstrap \<Rightarrow> ('x loader_error, merged_bootstrap) result" where
  "merge_handoff cx handoff m =
     rbind (merge_field cx ''bootstrap.handoff.runtime'' (\<lambda>m. rw_runtime (md_handoff m))
       (\<lambda>v. put_handoff (\<lambda>h. h\<lparr>rw_runtime := v\<rparr>)) (rw_runtime handoff) m) (\<lambda>m.
     rbind (merge_field cx ''bootstrap.handoff.exec_prefix'' (\<lambda>m. rw_exec_prefix (md_handoff m))
       (\<lambda>v. put_handoff (\<lambda>h. h\<lparr>rw_exec_prefix := v\<rparr>)) (rw_exec_prefix handoff) m) (\<lambda>m.
     rbind (merge_field cx ''bootstrap.handoff.initial_exec_prefix'' (\<lambda>m. rw_initial_exec_prefix (md_handoff m))
       (\<lambda>v. put_handoff (\<lambda>h. h\<lparr>rw_initial_exec_prefix := v\<rparr>)) (rw_initial_exec_prefix handoff) m) (\<lambda>m.
     rbind (merge_field cx ''bootstrap.handoff.shell_prefix'' (\<lambda>m. rw_shell_prefix (md_handoff m))
       (\<lambda>v. put_handoff (\<lambda>h. h\<lparr>rw_shell_prefix := v\<rparr>)) (rw_shell_prefix handoff) m) (\<lambda>m.
     rbind (merge_field cx ''bootstrap.handoff.root_service'' (\<lambda>m. rw_root_service (md_handoff m))
       (\<lambda>v. put_handoff (\<lambda>h. h\<lparr>rw_root_service := v\<rparr>)) (rw_root_service handoff) m) (\<lambda>m.
     rbind (merge_field cx ''bootstrap.handoff.ssh_daemon'' (\<lambda>m. rw_ssh_daemon (md_handoff m))
       (\<lambda>v. put_handoff (\<lambda>h. h\<lparr>rw_ssh_daemon := v\<rparr>)) (rw_ssh_daemon handoff) m) (\<lambda>m.
     merge_field cx ''bootstrap.handoff.login_shell'' (\<lambda>m. rw_login_shell (md_handoff m))
       (\<lambda>v. put_handoff (\<lambda>h. h\<lparr>rw_login_shell := v\<rparr>)) (rw_login_shell handoff) m))))))"

definition merge_scalars ::
  "scalar_context \<Rightarrow> u32 option \<Rightarrow> raw_bootstrap \<Rightarrow> merged_bootstrap \<Rightarrow> ('x loader_error, merged_bootstrap) result" where
  "merge_scalars cx profile_schema bootstrap m =
     rbind (merge_field cx ''bootstrap.schema'' md_schema (\<lambda>v m. m\<lparr>md_schema := v\<rparr>) profile_schema m) (\<lambda>m.
     rbind (merge_field cx ''bootstrap.mode'' md_mode (\<lambda>v m. m\<lparr>md_mode := v\<rparr>) (rb_mode bootstrap) m) (\<lambda>m.
     rbind (merge_field cx ''bootstrap.workspace_root'' md_workspace_root (\<lambda>v m. m\<lparr>md_workspace_root := v\<rparr>)
       (rb_workspace_root bootstrap) m) (\<lambda>m.
     rbind (merge_field cx ''bootstrap.allow_workspace_overlay'' md_allow_workspace_overlay
       (\<lambda>v m. m\<lparr>md_allow_workspace_overlay := v\<rparr>) (rb_allow_workspace_overlay bootstrap) m) (\<lambda>m.
     rbind (merge_field cx ''bootstrap.non_interactive'' md_non_interactive
       (\<lambda>v m. m\<lparr>md_non_interactive := v\<rparr>) (rb_non_interactive bootstrap) m) (\<lambda>m.
     rbind (case rb_identity bootstrap of None \<Rightarrow> Inr m | Some identity \<Rightarrow> merge_identity cx identity m) (\<lambda>m.
     case rb_handoff bootstrap of None \<Rightarrow> Inr m | Some handoff \<Rightarrow> merge_handoff cx handoff m))))))"

section \<open>Policy, inputs and actions\<close>

definition extend_kinds :: "action_kind list \<Rightarrow> action_kind list \<Rightarrow> action_kind list" where
  "extend_kinds kinds new = kinds @ filter (\<lambda>kind. kind \<notin> set kinds) new"

definition merge_policy :: "bootstrap_policy option \<Rightarrow> merged_bootstrap \<Rightarrow> merged_bootstrap" where
  "merge_policy policy m =
     (case policy of
        None \<Rightarrow> m
      | Some p \<Rightarrow>
          m\<lparr>md_policy :=
            \<lparr>workspace_safe_action_kinds =
               extend_kinds (workspace_safe_action_kinds (md_policy m)) (workspace_safe_action_kinds p),
             admin_only_action_kinds =
               extend_kinds (admin_only_action_kinds (md_policy m)) (admin_only_action_kinds p)\<rparr>\<rparr>)"

definition profile_origin :: "loaded_profile \<Rightarrow> profile_source \<Rightarrow> string \<Rightarrow> origin" where
  "profile_origin profile source field =
     (let location = unwrap_or (lo_id profile) (so_location source) in
      origin_new (lo_id profile) (so_source source) (Some (location @ '':'' @ field)))"

definition merge_input ::
  "loaded_profile \<Rightarrow> profile_source \<Rightarrow> override_catalog \<Rightarrow> merged_bootstrap \<Rightarrow> string \<times> bootstrap_input \<Rightarrow>
   ('x loader_error, merged_bootstrap) result" where
  "merge_input info source overrides m entry =
     (let (name, input) = entry;
          path = ''bootstrap.inputs.'' @ name;
          input_origin = profile_origin info source path;
          inserted = m\<lparr>md_inputs := btree_insert name input (md_inputs m),
            md_input_origins := btree_insert name input_origin (md_input_origins m)\<rparr> in
      case btree_get name (md_inputs m) of
        None \<Rightarrow> Inr inserted
      | Some previous \<Rightarrow>
          if previous = input then Inr m
          else if \<not> contains_key path overrides then
            (case btree_get name (md_input_origins m) of
               None \<Rightarrow> Inl LoadPanic
             | Some previous_origin \<Rightarrow> Inl (LoadConflict path previous_origin input_origin))
          else Inr inserted)"

definition same_action_definition :: "action \<Rightarrow> action \<Rightarrow> bool" where
  "same_action_definition left right \<longleftrightarrow> left\<lparr>ac_origin := origin_unknown\<rparr> = right\<lparr>ac_origin := origin_unknown\<rparr>"

text \<open>The part of the loop over the actions after the action got its origin.\<close>

definition place_action ::
  "raw_profile \<Rightarrow> profile_source \<Rightarrow> override_catalog \<Rightarrow> action \<Rightarrow> merged_bootstrap \<Rightarrow>
   ('x loader_error, merged_bootstrap) result" where
  "place_action profile source overrides a m =
     (case btree_get (ac_id a) (md_action_indexes m) of
        None \<Rightarrow>
          rbind (fail_if (MAX_BOOTSTRAP_ACTIONS \<le> length (md_actions m)) LoadActionLimit) (\<lambda>_.
          Inr (m\<lparr>md_action_indexes := btree_insert (ac_id a) (length (md_actions m)) (md_action_indexes m),
                 md_actions := md_actions m @ [a]\<rparr>))
      | Some existing_index \<Rightarrow>
          (let path = ''bootstrap.actions.'' @ ac_id a in
           if length (md_actions m) \<le> existing_index then Inl LoadPanic
           else if same_action_definition (md_actions m ! existing_index) a then Inr m
           else
             rbind (fail_if (\<not> is_trusted (so_source source))
               (LoadTrust (rp_id profile) (so_source source) path UntrustedNoReplacement)) (\<lambda>_.
             case btree_get path overrides of
               None \<Rightarrow> Inl (LoadConflict path (ac_origin (md_actions m ! existing_index)) (ac_origin a))
             | Some override_reason \<Rightarrow>
                 Inr (m\<lparr>md_actions := (md_actions m)[existing_index :=
                   (if ac_reason a = None then a\<lparr>ac_reason := Some override_reason\<rparr> else a)]\<rparr>))))"

definition merge_action ::
  "raw_profile \<Rightarrow> loaded_profile \<Rightarrow> profile_source \<Rightarrow> override_catalog \<Rightarrow> merged_bootstrap \<times> string list \<Rightarrow>
   nat \<times> action \<Rightarrow> ('x loader_error, merged_bootstrap \<times> string list) result" where
  "merge_action profile info source overrides st numbered =
     (let (m, seen) = st; (index, a) = numbered in
      rbind (fail_if (ac_id a \<in> set seen) (LoadDuplicateAction (rp_id profile) (ac_id a))) (\<lambda>_.
      rbind (place_action profile source overrides
        (a\<lparr>ac_origin := profile_origin info source (''bootstrap.actions['' @ to_decimal index @ '']'')\<rparr>) m) (\<lambda>m.
      Inr (m, set_insert (ac_id a) seen))))"

section \<open>Profiles\<close>

definition reject_untrusted_bootstrap_fields ::
  "raw_bootstrap \<Rightarrow> profile_source \<Rightarrow> ('x loader_error, unit) result" where
  "reject_untrusted_bootstrap_fields bootstrap source =
     fail_if (rb_schema bootstrap \<noteq> None \<or> rb_mode bootstrap \<noteq> None \<or> rb_workspace_root bootstrap \<noteq> None \<or>
         rb_allow_workspace_overlay bootstrap \<noteq> None \<or> rb_non_interactive bootstrap \<noteq> None \<or>
         rb_identity bootstrap \<noteq> None \<or> rb_handoff bootstrap \<noteq> None \<or> rb_policy bootstrap \<noteq> None \<or>
         rb_inputs bootstrap \<noteq> [] \<or> rb_overrides bootstrap \<noteq> [])
       (LoadTrust (so_id source) (so_source source) ''bootstrap'' UntrustedOnlyActions)"

definition check_untrusted ::
  "raw_profile \<Rightarrow> raw_bootstrap \<Rightarrow> profile_source \<Rightarrow> override_catalog \<Rightarrow> ('x loader_error, unit) result" where
  "check_untrusted profile bootstrap source overrides =
     (if is_trusted (so_source source) then Inr ()
      else
        rbind (fail_if (so_source source \<noteq> WorkspaceOverlay)
          (LoadTrust (rp_id profile) (so_source source) ''bootstrap'' OnlyWorkspaceOverlays)) (\<lambda>_.
        rbind (reject_untrusted_bootstrap_fields bootstrap source) (\<lambda>_.
        fail_if (overrides \<noteq> []) (LoadTrust (rp_id profile) (so_source source) ''override'' UntrustedNoOverrides))))"

definition merge_profile ::
  "raw_profile \<Rightarrow> profile_source \<Rightarrow> loaded_profile \<Rightarrow> merged_bootstrap \<Rightarrow> ('x loader_error, merged_bootstrap) result" where
  "merge_profile profile source info m =
     rbind (override_catalog_new profile (so_source source)) (\<lambda>overrides.
     case rp_bootstrap profile of
       None \<Rightarrow>
         rbind (fail_if (overrides \<noteq> [])
           (LoadInvalid (''profile '' @ rp_id profile @ ''.override'') OverridesWithoutBootstrap)) (\<lambda>_. Inr m)
     | Some bootstrap \<Rightarrow>
         (let m = m\<lparr>md_saw_bootstrap := True\<rparr>;
              cx = \<lparr>sc_origin = profile_origin info source ''bootstrap'', sc_overrides = overrides\<rparr> in
          rbind (check_untrusted profile bootstrap source overrides) (\<lambda>_.
          rbind (merge_scalars cx (opt_or (rb_schema bootstrap) (rp_schema profile)) bootstrap m) (\<lambda>m.
          rbind (fold_result (merge_input info source overrides) (merge_policy (rb_policy bootstrap) m)
            (rb_inputs bootstrap)) (\<lambda>m.
          rbind (fold_result (merge_action profile info source overrides) (m, []) (enumerate 0 (rb_actions bootstrap)))
            (\<lambda>(m, _). Inr m))))))"

section \<open>The configuration\<close>

definition register_input_name ::
  "string \<Rightarrow> (string, string) btree_map \<Rightarrow> string \<Rightarrow> ('x loader_error, (string, string) btree_map) result" where
  "register_input_name owner names name =
     rbind (case btree_get name names of
              None \<Rightarrow> Inr ()
            | Some previous \<Rightarrow> fail_if (previous \<noteq> owner)
                (LoadInvalid ''bootstrap.inputs'' (AliasDeclaredTwice name previous owner))) (\<lambda>_.
     Inr (btree_insert name owner names))"

definition validate_input_aliases :: "bootstrap_config \<Rightarrow> ('x loader_error, unit) result" where
  "validate_input_aliases config =
     rbind (fold_result (\<lambda>names (name, input). fold_result (register_input_name name) names (name # in_aliases input))
       [] (bc_inputs config)) (\<lambda>_. Inr ())"

definition required_value :: "string \<Rightarrow> 'a option \<Rightarrow> ('x loader_error, 'a) result" where
  "required_value location value = ok_or (LoadInvalid location RequiredValueMissing) value"

definition merged_identity_config :: "raw_identity \<Rightarrow> identity_config" where
  "merged_identity_config i =
     \<lparr>ic_default_user = rw_default_user i, ic_default_uid = rw_default_uid i, ic_default_gid = rw_default_gid i,
      ic_default_home = rw_default_home i, ic_auto_mapping = unwrap_or False (rw_auto_mapping i),
      ic_run_as_root_input = rw_run_as_root_input i, ic_uid_input = rw_uid_input i,
      ic_gid_input = rw_gid_input i, ic_home_input = rw_home_input i\<rparr>"

definition merged_handoff_config :: "string \<Rightarrow> raw_handoff \<Rightarrow> handoff_config" where
  "merged_handoff_config runtime h =
     \<lparr>hc_runtime = runtime, hc_exec_prefix = unwrap_or [] (rw_exec_prefix h),
      hc_initial_exec_prefix = unwrap_or [] (opt_or (rw_initial_exec_prefix h) (rw_exec_prefix h)),
      hc_shell_prefix = unwrap_or [] (rw_shell_prefix h),
      hc_root_service = unwrap_or False (rw_root_service h), hc_ssh_daemon = rw_ssh_daemon h,
      hc_login_shell = rw_login_shell h\<rparr>"

definition finish :: "merged_bootstrap \<Rightarrow> ('x loader_error, bootstrap_config) result" where
  "finish m =
     rbind (fail_if (\<not> md_saw_bootstrap m) (LoadInvalid ''bootstrap'' NoBootstrapNamespace)) (\<lambda>_.
     rbind (required_value ''bootstrap.schema'' (md_schema m)) (\<lambda>schema.
     let mode = unwrap_or Strict (md_mode m) in
     rbind (required_value ''bootstrap.workspace_root'' (md_workspace_root m)) (\<lambda>workspace_root.
     rbind (required_value ''bootstrap.handoff.runtime'' (rw_runtime (md_handoff m))) (\<lambda>runtime.
     let config = (bootstrap_config_new workspace_root (merged_identity_config (md_identity m))
           (merged_handoff_config runtime (md_handoff m)) (md_inputs m) (md_actions m))
         \<lparr>bc_schema := schema, bc_mode := mode,
          bc_allow_workspace_overlay := unwrap_or False (md_allow_workspace_overlay m),
          bc_non_interactive := unwrap_or Deny (md_non_interactive m), bc_policy := md_policy m\<rparr> in
     rbind (map_err LoadModel (config_validate config)) (\<lambda>_.
     rbind (validate_input_aliases config) (\<lambda>_.
     Inr config))))))"

section \<open>The settings of a merged state\<close>

text \<open>
  The 21 scalar fields as one list, in the order of \<open>override_paths\<close>, so that merging them can be
  described position by position.
\<close>

datatype setting =
    SetNumber u32 | SetMode bootstrap_mode | SetPolicy non_interactive_policy | SetText string | SetFlag bool
  | SetTexts "string list"

definition identity_settings :: "raw_identity \<Rightarrow> setting option list" where
  "identity_settings i =
     [map_option SetText (rw_default_user i), map_option SetNumber (rw_default_uid i),
      map_option SetNumber (rw_default_gid i), map_option SetText (rw_default_home i),
      map_option SetFlag (rw_auto_mapping i), map_option SetText (rw_run_as_root_input i),
      map_option SetText (rw_uid_input i), map_option SetText (rw_gid_input i), map_option SetText (rw_home_input i)]"

definition handoff_settings :: "raw_handoff \<Rightarrow> setting option list" where
  "handoff_settings h =
     [map_option SetText (rw_runtime h), map_option SetTexts (rw_exec_prefix h),
      map_option SetTexts (rw_initial_exec_prefix h), map_option SetTexts (rw_shell_prefix h),
      map_option SetFlag (rw_root_service h), map_option SetText (rw_ssh_daemon h), map_option SetText (rw_login_shell h)]"

definition settings :: "merged_bootstrap \<Rightarrow> setting option list" where
  "settings m =
     [map_option SetNumber (md_schema m), map_option SetMode (md_mode m), map_option SetText (md_workspace_root m),
      map_option SetFlag (md_allow_workspace_overlay m), map_option SetPolicy (md_non_interactive m)] @
     identity_settings (md_identity m) @ handoff_settings (md_handoff m)"

abbreviation declared_identity :: "raw_bootstrap \<Rightarrow> raw_identity" where
  "declared_identity b \<equiv> unwrap_or (md_identity merged_default) (rb_identity b)"

abbreviation declared_handoff :: "raw_bootstrap \<Rightarrow> raw_handoff" where
  "declared_handoff b \<equiv> unwrap_or (md_handoff merged_default) (rb_handoff b)"

definition declared_settings :: "u32 option \<Rightarrow> raw_bootstrap \<Rightarrow> setting option list" where
  "declared_settings schema b =
     [map_option SetNumber schema, map_option SetMode (rb_mode b), map_option SetText (rb_workspace_root b),
      map_option SetFlag (rb_allow_workspace_overlay b), map_option SetPolicy (rb_non_interactive b)] @
     identity_settings (declared_identity b) @ handoff_settings (declared_handoff b)"

lemmas settings_defs = settings_def declared_settings_def identity_settings_def handoff_settings_def

lemma settings_length [simp]: "length (settings m) = 21" "length (declared_settings schema b) = 21"
  "length override_paths = 21"
  by (simp_all add: settings_defs override_paths_def)

text \<open>The rest of the state.\<close>

definition others :: "merged_bootstrap \<Rightarrow> bootstrap_policy \<times> (string, bootstrap_input) btree_map \<times>
    (string, origin) btree_map \<times> action list \<times> (string, nat) btree_map \<times> bool" where
  "others m = (md_policy m, md_inputs m, md_input_origins m, md_actions m, md_action_indexes m, md_saw_bootstrap m)"

text \<open>Every setting that has a value has an origin.\<close>

definition origins_cover :: "merged_bootstrap \<Rightarrow> bool" where
  "origins_cover m \<longleftrightarrow> btree_wf (md_field_origins m) \<and>
     (\<forall>k < 21. settings m ! k \<noteq> None \<longrightarrow> contains_key (override_paths ! k) (md_field_origins m))"

text \<open>How one setting changes: a value that is already there only gives way to an override.\<close>

definition replaceable :: "override_catalog \<Rightarrow> string \<Rightarrow> 'a option \<Rightarrow> 'a option \<Rightarrow> bool" where
  "replaceable overrides path old incoming \<longleftrightarrow>
     (old \<noteq> None \<longrightarrow> incoming \<noteq> None \<longrightarrow> old \<noteq> incoming \<longrightarrow> contains_key path overrides)"

definition merges_setting ::
  "scalar_context \<Rightarrow> nat \<Rightarrow> setting option \<Rightarrow> (merged_bootstrap \<Rightarrow> ('x loader_error, merged_bootstrap) result) \<Rightarrow> bool" where
  "merges_setting cx k incoming f \<longleftrightarrow>
     (\<forall>m. (\<forall>m'. f m = Inr m' \<longrightarrow>
         settings m' = (settings m)[k := opt_or incoming (settings m ! k)] \<and> others m' = others m \<and>
         replaceable (sc_overrides cx) (override_paths ! k) (settings m ! k) incoming \<and>
         (origins_cover m \<longrightarrow> origins_cover m')) \<and>
       (origins_cover m \<longrightarrow> f m \<noteq> Inl LoadPanic))"

lemma contains_key_insert: "btree_wf m \<Longrightarrow> contains_key k' (btree_insert k v m) \<longleftrightarrow> k' = k \<or> contains_key k' m"
  by (simp add: contains_key_def btree_get_insert)

lemma merge_field_merges:
  fixes get :: "merged_bootstrap \<Rightarrow> 'a option"
  assumes at: "k < 21" "path = override_paths ! k" and inj: "inj wrap"
    and get: "\<And>m. settings m ! k = map_option wrap (get m)"
    and put: "\<And>v m origins. settings ((put v m)\<lparr>md_field_origins := origins\<rparr>) = (settings m)[k := map_option wrap v]"
    and others: "\<And>v m origins. others ((put v m)\<lparr>md_field_origins := origins\<rparr>) = others m"
  shows "merges_setting cx k (map_option wrap incoming)
    (merge_field cx path get put incoming :: merged_bootstrap \<Rightarrow> ('x loader_error, merged_bootstrap) result)"
  unfolding merges_setting_def
proof (intro allI conjI impI)
  let ?scalar = "\<lambda>m. merge_scalar cx path (get m) incoming (md_field_origins m) ::
      ('x loader_error, 'a option \<times> (string, origin) btree_map) result"
  fix m m' assume run: "(merge_field cx path get put incoming m :: ('x loader_error, merged_bootstrap) result) = Inr m'"
  then obtain slot origins where scalar: "?scalar m = Inr (slot, origins)"
    and m': "m' = (put slot m)\<lparr>md_field_origins := origins\<rparr>" by (auto simp: merge_field_def rbind_Inr_iff)
  from scalar have slot: "slot = opt_or incoming (get m)" and rep: "replaceable (sc_overrides cx) path (get m) incoming"
    and o: "origins = md_field_origins m \<and> (slot = None \<or> get m \<noteq> None) \<or>
      origins = btree_insert path (sc_origin cx) (md_field_origins m)"
    by (auto simp: merge_scalar_def replaceable_def split: option.splits if_splits)
  have wrap_eq: "map_option wrap a = map_option wrap b \<longleftrightarrow> a = b" for a b
    using inj by (cases a; cases b) (auto simp: inj_def)
  have new: "opt_or (map_option wrap incoming) (map_option wrap (get m)) = map_option wrap slot"
    by (cases incoming) (simp_all add: slot)
  show "settings m' = (settings m)[k := opt_or (map_option wrap incoming) (settings m ! k)]"
    unfolding m' put get new ..
  show "others m' = others m" unfolding m' by (rule others)
  show "replaceable (sc_overrides cx) (override_paths ! k) (settings m ! k) (map_option wrap incoming)"
    using rep by (simp add: replaceable_def get wrap_eq at(2))
  assume cover: "origins_cover m"
  have "contains_key (override_paths ! j) origins" if j: "j < 21" and some: "settings m' ! j \<noteq> None" for j
  proof (cases "j = k")
    case True
    with some m' put at(1) have "slot \<noteq> None" by auto
    with o cover get at show ?thesis by (auto simp: origins_cover_def contains_key_insert True)
  next
    case False
    with some m' put have "settings m ! j \<noteq> None" by simp
    with o cover j show ?thesis by (auto simp: origins_cover_def contains_key_insert)
  qed
  moreover have "btree_wf origins" using o cover by (auto simp: origins_cover_def btree_wf_insert)
  ultimately show "origins_cover m'" by (simp add: origins_cover_def m')
next
  let ?scalar = "\<lambda>m. merge_scalar cx path (get m) incoming (md_field_origins m) ::
      ('x loader_error, 'a option \<times> (string, origin) btree_map) result"
  fix m assume cover: "origins_cover m"
  show "(merge_field cx path get put incoming m :: ('x loader_error, merged_bootstrap) result) \<noteq> Inl LoadPanic"
  proof
    assume "(merge_field cx path get put incoming m :: ('x loader_error, merged_bootstrap) result) = Inl LoadPanic"
    then have "?scalar m = Inl LoadPanic" by (cases "?scalar m") (auto simp: merge_field_def)
    then have "get m \<noteq> None" "\<not> contains_key path (md_field_origins m)"
      by (auto simp: merge_scalar_def contains_key_def split: option.splits if_splits)
    with cover at get [of m] show False by (auto simp: origins_cover_def)
  qed
qed

text \<open>A computation that merges the settings from one position up to another.\<close>

definition merges_span ::
  "scalar_context \<Rightarrow> setting option list \<Rightarrow> nat \<Rightarrow> nat \<Rightarrow> (merged_bootstrap \<Rightarrow> ('x loader_error, merged_bootstrap) result) \<Rightarrow> bool" where
  "merges_span cx incoming lo hi f \<longleftrightarrow>
     (\<forall>m. (\<forall>m'. f m = Inr m' \<longrightarrow>
         others m' = others m \<and> (origins_cover m \<longrightarrow> origins_cover m') \<and>
         (\<forall>k < 21. if lo \<le> k \<and> k < hi
            then settings m' ! k = opt_or (incoming ! k) (settings m ! k) \<and>
              replaceable (sc_overrides cx) (override_paths ! k) (settings m ! k) (incoming ! k)
            else settings m' ! k = settings m ! k)) \<and>
       (origins_cover m \<longrightarrow> f m \<noteq> Inl LoadPanic))"

lemma span_skip: "(\<And>k. lo \<le> k \<Longrightarrow> k < hi \<Longrightarrow> incoming ! k = None) \<Longrightarrow> merges_span cx incoming lo hi Inr"
  by (auto simp: merges_span_def replaceable_def)

lemma span_one:
  assumes "merges_setting cx k (incoming ! k) f" "k < 21"
  shows "merges_span cx incoming k (Suc k) f"
  using assms unfolding merges_span_def merges_setting_def by (auto simp: nth_list_update)

lemma span_bind:
  assumes f: "merges_span cx incoming lo mid f" and g: "merges_span cx incoming mid hi g" and "lo \<le> mid" "mid \<le> hi"
  shows "merges_span cx incoming lo hi (\<lambda>m. rbind (f m) g)"
  unfolding merges_span_def
proof (intro allI conjI impI)
  fix m m' assume "rbind (f m) g = Inr m'"
  then obtain m1 where run: "f m = Inr m1" "g m1 = Inr m'" by (auto simp: rbind_Inr_iff)
  note f = f [unfolded merges_span_def, rule_format, of m] and g = g [unfolded merges_span_def, rule_format, of m1]
  show "others m' = others m" using f run(1) g run(2) by metis
  show "origins_cover m'" if "origins_cover m" using f run(1) g run(2) that by metis
  fix k :: nat assume k: "k < 21"
  have 1: "if lo \<le> k \<and> k < mid then settings m1 ! k = opt_or (incoming ! k) (settings m ! k) \<and>
      replaceable (sc_overrides cx) (override_paths ! k) (settings m ! k) (incoming ! k)
    else settings m1 ! k = settings m ! k" using f run(1) k by blast
  have 2: "if mid \<le> k \<and> k < hi then settings m' ! k = opt_or (incoming ! k) (settings m1 ! k) \<and>
      replaceable (sc_overrides cx) (override_paths ! k) (settings m1 ! k) (incoming ! k)
    else settings m' ! k = settings m1 ! k" using g run(2) k by blast
  show "if lo \<le> k \<and> k < hi then settings m' ! k = opt_or (incoming ! k) (settings m ! k) \<and>
      replaceable (sc_overrides cx) (override_paths ! k) (settings m ! k) (incoming ! k)
    else settings m' ! k = settings m ! k"
    using 1 2 assms(3,4) by (cases "k < mid"; cases "lo \<le> k"; cases "k < hi") auto
next
  fix m assume "origins_cover m"
  with f g show "rbind (f m) g \<noteq> Inl LoadPanic" unfolding merges_span_def by (cases "f m") auto
qed

lemma span_field:
  assumes "k < 21" "path = override_paths ! k" "inj wrap" "incoming ! k = map_option wrap declared"
    and "\<And>m. settings m ! k = map_option wrap (get m)"
    and "\<And>v m origins. settings ((put v m)\<lparr>md_field_origins := origins\<rparr>) = (settings m)[k := map_option wrap v]"
    and "\<And>v m origins. others ((put v m)\<lparr>md_field_origins := origins\<rparr>) = others m"
  shows "merges_span cx incoming k (Suc k) (merge_field cx path get put declared)"
  using merge_field_merges [OF assms(1-3,5-7)] assms(1,4) by (intro span_one) simp_all

lemma setting_injs: "inj SetNumber" "inj SetMode" "inj SetPolicy" "inj SetText" "inj SetFlag" "inj SetTexts"
  by (simp_all add: inj_def)

lemmas span_simps = settings_defs others_def override_paths_def put_identity_def put_handoff_def setting_injs

lemma span_last:
  "merges_span cx incoming k (Suc k) f \<Longrightarrow> Suc k = hi \<Longrightarrow> merges_span cx incoming k hi f"
  by simp

lemma span_step:
  "merges_span cx incoming k (Suc k) f \<Longrightarrow> merges_span cx incoming (Suc k) hi g \<Longrightarrow> Suc k \<le> hi \<Longrightarrow>
     merges_span cx incoming k hi (\<lambda>m. rbind (f m) g)"
  by (rule span_bind) simp_all

lemmas span_kinds =
  span_field [OF _ _ setting_injs(1)] span_field [OF _ _ setting_injs(2)] span_field [OF _ _ setting_injs(3)]
  span_field [OF _ _ setting_injs(4)] span_field [OF _ _ setting_injs(5)] span_field [OF _ _ setting_injs(6)]

lemma part_lengths [simp]: "length (identity_settings i) = 9" "length (handoff_settings h) = 7"
  by (simp_all add: identity_settings_def handoff_settings_def)

lemma default_parts [simp]: "identity_settings (md_identity merged_default) = replicate 9 None"
  "handoff_settings (md_handoff merged_default) = replicate 7 None"
  by (simp_all add: identity_settings_def handoff_settings_def merged_default_def numeral_eq_Suc)

lemma merge_identity_span:
  assumes "\<And>k. k < 9 \<Longrightarrow> incoming ! (5 + k) = identity_settings identity ! k"
  shows "merges_span cx incoming 5 14 (merge_identity cx identity)"
proof -
  note inc = assms [of 0] assms [of 1] assms [of 2] assms [of 3] assms [of 4] assms [of 5] assms [of 6] assms [of 7] assms [of 8]
  show ?thesis
    unfolding merge_identity_def
    by ((rule span_step span_last, (rule span_kinds; (insert inc, simp add: span_simps; fail)))+, simp_all)
qed

lemma merge_handoff_span:
  assumes "\<And>k. k < 7 \<Longrightarrow> incoming ! (14 + k) = handoff_settings handoff ! k"
  shows "merges_span cx incoming 14 21 (merge_handoff cx handoff)"
proof -
  note inc = assms [of 0] assms [of 1] assms [of 2] assms [of 3] assms [of 4] assms [of 5] assms [of 6]
  show ?thesis
    unfolding merge_handoff_def
    by ((rule span_step span_last, (rule span_kinds; (insert inc, simp add: span_simps; fail)))+, simp_all)
qed

lemma merge_scalars_span:
  "merges_span cx (declared_settings schema bootstrap) 0 21
    (merge_scalars cx schema bootstrap :: merged_bootstrap \<Rightarrow> ('x loader_error, merged_bootstrap) result)"
proof -
  let ?inc = "declared_settings schema bootstrap"
  have inc: "?inc ! 0 = map_option SetNumber schema" "?inc ! 1 = map_option SetMode (rb_mode bootstrap)"
    "?inc ! 2 = map_option SetText (rb_workspace_root bootstrap)"
    "?inc ! 3 = map_option SetFlag (rb_allow_workspace_overlay bootstrap)"
    "?inc ! 4 = map_option SetPolicy (rb_non_interactive bootstrap)"
    by (simp_all add: declared_settings_def)
  have identity: "?inc ! (5 + k) = identity_settings (declared_identity bootstrap) ! k" if "k < 9" for k
    using that by (simp add: declared_settings_def nth_append)
  have handoff: "?inc ! (14 + k) = handoff_settings (declared_handoff bootstrap) ! k" if "k < 7" for k
    using that by (simp add: declared_settings_def nth_append)
  have part1: "merges_span cx ?inc 5 14 (\<lambda>m. case rb_identity bootstrap of None \<Rightarrow> Inr m | Some identity \<Rightarrow> merge_identity cx identity m)"
  proof (cases "rb_identity bootstrap")
    case None
    have "?inc ! k = None" if "5 \<le> k" "k < 14" for k
      using identity [of "k - 5"] that by (simp add: None)
    then show ?thesis by (simp add: None span_skip)
  next
    case (Some i)
    with identity show ?thesis by (simp add: merge_identity_span)
  qed
  have part2: "merges_span cx ?inc 14 21 (\<lambda>m. case rb_handoff bootstrap of None \<Rightarrow> Inr m | Some handoff \<Rightarrow> merge_handoff cx handoff m)"
  proof (cases "rb_handoff bootstrap")
    case None
    have "?inc ! k = None" if "14 \<le> k" "k < 21" for k
      using handoff [of "k - 14"] that by (simp add: None)
    then show ?thesis by (simp add: None span_skip)
  next
    case (Some h)
    with handoff show ?thesis by (simp add: merge_handoff_span)
  qed
  have last_part: "merges_span cx ?inc (Suc (Suc (Suc (Suc (Suc 0))))) 21
      (\<lambda>m. rbind (case rb_identity bootstrap of None \<Rightarrow> Inr m | Some identity \<Rightarrow> merge_identity cx identity m) (\<lambda>m.
        case rb_handoff bootstrap of None \<Rightarrow> Inr m | Some handoff \<Rightarrow> merge_handoff cx handoff m))"
    using span_bind [OF part1 part2] by (simp add: numeral_eq_Suc)
  show ?thesis
    unfolding merge_scalars_def
    by ((rule span_step, (rule span_kinds; (insert inc, simp add: span_simps; fail)))+, rule last_part, simp_all)
qed

section \<open>Well-formed merged states\<close>

definition inputs_cover :: "merged_bootstrap \<Rightarrow> bool" where
  "inputs_cover m \<longleftrightarrow> btree_wf (md_inputs m) \<and> btree_wf (md_input_origins m) \<and>
     (\<forall>name. contains_key name (md_inputs m) \<longrightarrow> contains_key name (md_input_origins m))"

definition actions_indexed :: "merged_bootstrap \<Rightarrow> bool" where
  "actions_indexed m \<longleftrightarrow> btree_wf (md_action_indexes m) \<and> length (md_actions m) \<le> MAX_BOOTSTRAP_ACTIONS \<and>
     (\<forall>name i. btree_get name (md_action_indexes m) = Some i \<longleftrightarrow> i < length (md_actions m) \<and> ac_id (md_actions m ! i) = name)"

definition merged_wf :: "merged_bootstrap \<Rightarrow> bool" where
  "merged_wf m \<longleftrightarrow> origins_cover m \<and> inputs_cover m \<and> actions_indexed m"

lemma merged_default_wf: "merged_wf merged_default"
proof -
  have "settings merged_default = replicate 21 None"
    unfolding settings_def default_parts by (simp add: merged_default_def numeral_eq_Suc)
  then show ?thesis
    by (simp add: merged_wf_def origins_cover_def inputs_cover_def actions_indexed_def)
      (simp add: merged_default_def btree_wf_def btree_get_def contains_key_def)
qed

lemma indexed_distinct: "actions_indexed m \<Longrightarrow> distinct (map ac_id (md_actions m))"
proof -
  assume indexed: "actions_indexed m"
  have "i = j" if "i < length (md_actions m)" "j < length (md_actions m)" "ac_id (md_actions m ! i) = ac_id (md_actions m ! j)" for i j
  proof -
    from indexed that(1) have "btree_get (ac_id (md_actions m ! i)) (md_action_indexes m) = Some i"
      by (simp add: actions_indexed_def)
    moreover from indexed that(2,3) have "btree_get (ac_id (md_actions m ! i)) (md_action_indexes m) = Some j"
      by (simp add: actions_indexed_def)
    ultimately show ?thesis by simp
  qed
  then show ?thesis by (auto simp: distinct_conv_nth)
qed

section \<open>Inputs\<close>

abbreviation beside_inputs :: "merged_bootstrap \<Rightarrow> merged_bootstrap" where
  "beside_inputs m \<equiv> m\<lparr>md_inputs := [], md_input_origins := []\<rparr>"

lemma merge_input_step:
  assumes "inputs_cover m"
  shows "merge_input info source overrides m entry \<noteq> Inl LoadPanic \<and>
    (\<forall>m'. merge_input info source overrides m entry = Inr m' \<longrightarrow> inputs_cover m' \<and> beside_inputs m' = beside_inputs m)"
proof -
  obtain name input where entry: "entry = (name, input)" by (cases entry)
  have new: "inputs_cover (m\<lparr>md_inputs := btree_insert name input (md_inputs m),
      md_input_origins := btree_insert name orig (md_input_origins m)\<rparr>)" for orig
    using assms by (simp add: inputs_cover_def btree_wf_insert contains_key_insert)
  have origin: "\<exists>o'. btree_get name (md_input_origins m) = Some o'" if "btree_get name (md_inputs m) = Some previous" for previous
    using assms that unfolding inputs_cover_def contains_key_def by fastforce
  show ?thesis
  proof (cases "btree_get name (md_inputs m)")
    case None
    with new show ?thesis by (simp add: merge_input_def entry Let_def)
  next
    case (Some previous)
    with origin new assms show ?thesis by (auto simp: merge_input_def entry Let_def)
  qed
qed

lemma merge_inputs_step:
  assumes "fold_result (merge_input info source overrides) m entries = r" "inputs_cover m"
  shows "r \<noteq> Inl LoadPanic \<and> (\<forall>m'. r = Inr m' \<longrightarrow> inputs_cover m' \<and> beside_inputs m' = beside_inputs m)"
proof (rule fold_result_safe [where P = "\<lambda>m1. inputs_cover m1 \<and> beside_inputs m1 = beside_inputs m", OF assms(1)])
  fix m1 x assume inv: "inputs_cover m1 \<and> beside_inputs m1 = beside_inputs m"
  show "merge_input info source overrides m1 x \<noteq> Inl LoadPanic \<and>
    (\<forall>m'. merge_input info source overrides m1 x = Inr m' \<longrightarrow> inputs_cover m' \<and> beside_inputs m' = beside_inputs m)"
    using merge_input_step [of m1 info source overrides x] inv by auto
qed (use assms(2) in simp)

section \<open>Actions\<close>

text \<open>
  What merging the actions of a profile does to the list: actions keep their places and their
  ids; one that was there before either stays or, only for a trusted profile that declares an
  override of it, gives way to a new definition with a reason; new ones are appended. All that is
  new bears the origin of the profile.
\<close>

abbreviation beside_actions :: "merged_bootstrap \<Rightarrow> merged_bootstrap" where
  "beside_actions m \<equiv> m\<lparr>md_actions := [], md_action_indexes := []\<rparr>"

definition from_profile :: "loaded_profile \<Rightarrow> profile_source \<Rightarrow> action \<Rightarrow> bool" where
  "from_profile info source a \<longleftrightarrow> or_profile (ac_origin a) = lo_id info \<and> or_source (ac_origin a) = so_source source"

definition actions_merged ::
  "loaded_profile \<Rightarrow> profile_source \<Rightarrow> override_catalog \<Rightarrow> action list \<Rightarrow> action list \<Rightarrow> bool" where
  "actions_merged info source overrides before after \<longleftrightarrow>
     length before \<le> length after \<and>
     (\<forall>i < length before. after ! i = before ! i \<or>
        (is_trusted (so_source source) \<and> contains_key (''bootstrap.actions.'' @ ac_id (before ! i)) overrides \<and>
         ac_id (after ! i) = ac_id (before ! i) \<and> ac_reason (after ! i) \<noteq> None \<and> from_profile info source (after ! i))) \<and>
     (\<forall>i. length before \<le> i \<and> i < length after \<longrightarrow> from_profile info source (after ! i))"

lemma actions_merged_refl: "actions_merged info source overrides actions actions"
  by (auto simp: actions_merged_def)

lemma actions_merged_append:
  "actions_merged info source overrides before after \<Longrightarrow> from_profile info source a \<Longrightarrow>
     actions_merged info source overrides before (after @ [a])"
  by (auto simp: actions_merged_def nth_append)

lemma actions_merged_replace:
  assumes "actions_merged info source overrides before after" "i < length after" "from_profile info source a"
    and "is_trusted (so_source source)" "ac_id a = ac_id (after ! i)" "ac_reason a \<noteq> None"
    and "contains_key (''bootstrap.actions.'' @ ac_id a) overrides"
  shows "actions_merged info source overrides before (after[i := a])"
  unfolding actions_merged_def
proof (intro conjI allI impI)
  show "length before \<le> length (after[i := a])" using assms(1) by (simp add: actions_merged_def)
next
  fix j assume "length before \<le> j \<and> j < length (after[i := a])"
  with assms show "from_profile info source (after[i := a] ! j)" by (auto simp: actions_merged_def nth_list_update)
next
  fix j assume j: "j < length before"
  with assms(1) have same: "ac_id (after ! j) = ac_id (before ! j)" by (auto simp: actions_merged_def)
  show "after[i := a] ! j = before ! j \<or>
      (is_trusted (so_source source) \<and> contains_key (''bootstrap.actions.'' @ ac_id (before ! j)) overrides \<and>
       ac_id (after[i := a] ! j) = ac_id (before ! j) \<and> ac_reason (after[i := a] ! j) \<noteq> None \<and>
       from_profile info source (after[i := a] ! j))"
  proof (cases "j = i")
    case True
    with same assms show ?thesis by simp
  next
    case False
    with assms(1) j show ?thesis unfolding actions_merged_def by (metis nth_list_update_neq)
  qed
qed

lemma indexed_append:
  assumes "actions_indexed m" "btree_get (ac_id a) (md_action_indexes m) = None" "length (md_actions m) < MAX_BOOTSTRAP_ACTIONS"
  shows "actions_indexed (m\<lparr>md_action_indexes := btree_insert (ac_id a) (length (md_actions m)) (md_action_indexes m),
    md_actions := md_actions m @ [a]\<rparr>)"
proof -
  have fresh: "ac_id (md_actions m ! i) \<noteq> ac_id a" if "i < length (md_actions m)" for i
    using assms(1,2) that unfolding actions_indexed_def by (metis option.distinct(1))
  show ?thesis
    using assms fresh unfolding actions_indexed_def
    by (auto simp: btree_get_insert btree_wf_insert nth_append less_Suc_eq split: if_splits)
qed

lemma indexed_replace:
  assumes "actions_indexed m" "i < length (md_actions m)" "ac_id a = ac_id (md_actions m ! i)"
  shows "actions_indexed (m\<lparr>md_actions := (md_actions m)[i := a]\<rparr>)"
  using assms unfolding actions_indexed_def by (auto simp: nth_list_update)

lemma from_profile_origin: "from_profile info source (a\<lparr>ac_origin := profile_origin info source field\<rparr>)"
  by (simp add: from_profile_def profile_origin_def origin_new_def Let_def)

lemma place_action_step:
  assumes "actions_indexed m1" "actions_merged info source overrides before (md_actions m1)" "from_profile info source a"
    and r: "place_action profile source overrides a m1 = r"
  shows "r \<noteq> Inl LoadPanic \<and> (\<forall>m'. r = Inr m' \<longrightarrow>
       actions_indexed m' \<and> beside_actions m' = beside_actions m1 \<and>
       actions_merged info source overrides before (md_actions m'))"
proof (cases "btree_get (ac_id a) (md_action_indexes m1)")
  case None
  then show ?thesis
    using indexed_append [OF assms(1) None] actions_merged_append [OF assms(2,3)]
    by (auto simp: r [symmetric] place_action_def rbind_Inr_iff fail_if_def)
next
  case (Some i)
  with assms(1) have i: "i < length (md_actions m1)" "ac_id (md_actions m1 ! i) = ac_id a" by (auto simp: actions_indexed_def)
  obtain path where path: "path = ''bootstrap.actions.'' @ ac_id a" by blast
  have run: "r =
      (if same_action_definition (md_actions m1 ! i) a then Inr m1
       else rbind (fail_if (\<not> is_trusted (so_source source))
          (LoadTrust (rp_id profile) (so_source source) path UntrustedNoReplacement)) (\<lambda>_.
        case btree_get path overrides of
          None \<Rightarrow> Inl (LoadConflict path (ac_origin (md_actions m1 ! i)) (ac_origin a))
        | Some reason \<Rightarrow> Inr (m1\<lparr>md_actions := (md_actions m1)[i :=
            (if ac_reason a = None then a\<lparr>ac_reason := Some reason\<rparr> else a)]\<rparr>)))"
    unfolding r [symmetric] place_action_def Some path option.case Let_def using i(1) by (subst if_not_P) simp_all
  have replaced: "actions_indexed (m1\<lparr>md_actions := (md_actions m1)[i := b]\<rparr>) \<and>
      actions_merged info source overrides before ((md_actions m1)[i := b])"
    if "is_trusted (so_source source)" "btree_get path overrides = Some reason"
      "b = (if ac_reason a = None then a\<lparr>ac_reason := Some reason\<rparr> else a)" for reason b
  proof -
    have b: "ac_id b = ac_id (md_actions m1 ! i)" "from_profile info source b" "ac_reason b \<noteq> None" "ac_id b = ac_id a"
      using that(3) i(2) assms(3) by (auto simp: from_profile_def)
    have "contains_key (''bootstrap.actions.'' @ ac_id b) overrides"
      unfolding b(4) path [symmetric] contains_key_def using that(2) by simp
    from indexed_replace [OF assms(1) i(1) b(1)] actions_merged_replace [OF assms(2) i(1) b(2) that(1) b(1,3) this]
    show ?thesis ..
  qed
  show ?thesis
  proof (cases "same_action_definition (md_actions m1 ! i) a")
    case True
    with assms show ?thesis by (simp add: run)
  next
    case False
    show ?thesis
    proof (cases "btree_get path overrides")
      case None
      with False show ?thesis by (simp add: run fail_if_def)
    next
      case (Some reason)
      from False have run': "r =
          (if is_trusted (so_source source) then Inr (m1\<lparr>md_actions := (md_actions m1)[i :=
            (if ac_reason a = None then a\<lparr>ac_reason := Some reason\<rparr> else a)]\<rparr>)
           else Inl (LoadTrust (rp_id profile) (so_source source) path UntrustedNoReplacement))"
        by (simp add: run Some fail_if_def)
      show ?thesis unfolding run' using replaced [OF _ Some HOL.refl] by simp
    qed
  qed
qed

lemma merge_action_step:
  assumes "actions_indexed m1" "actions_merged info source overrides before (md_actions m1)"
    and r: "merge_action profile info source overrides (m1, seen) numbered = (r :: ('x loader_error, _) result)"
  shows "r \<noteq> Inl LoadPanic \<and> (\<forall>m' seen'. r = Inr (m', seen') \<longrightarrow>
       actions_indexed m' \<and> beside_actions m' = beside_actions m1 \<and>
       actions_merged info source overrides before (md_actions m'))"
proof -
  obtain index a where numbered: "numbered = (index, a)" by (cases numbered)
  obtain b where b: "b = a\<lparr>ac_origin := profile_origin info source (''bootstrap.actions['' @ to_decimal index @ '']'')\<rparr>" by blast
  obtain placed where placed: "place_action profile source overrides b m1 = (placed :: ('x loader_error, _) result)" by blast
  have run: "r =
      rbind (fail_if (ac_id a \<in> set seen) (LoadDuplicateAction (rp_id profile) (ac_id a))) (\<lambda>_.
      rbind placed (\<lambda>m. Inr (m, set_insert (ac_id a) seen)))"
    unfolding r [symmetric] placed [symmetric] merge_action_def numbered b Let_def prod.case ..
  from b have "from_profile info source b" by (simp only: from_profile_origin)
  from place_action_step [OF assms(1,2) this placed] show ?thesis
    unfolding run by (cases placed) (auto simp: fail_if_def)
qed

lemma merge_actions_step:
  assumes "fold_result (merge_action profile info source overrides) (m, seen) numbered = (r :: ('x loader_error, _) result)" "actions_indexed m"
  shows "r \<noteq> Inl LoadPanic \<and> (\<forall>m' seen'. r = Inr (m', seen') \<longrightarrow>
    actions_indexed m' \<and> beside_actions m' = beside_actions m \<and>
    actions_merged info source overrides (md_actions m) (md_actions m'))"
proof -
  let ?P = "\<lambda>st :: merged_bootstrap \<times> string list. actions_indexed (fst st) \<and> beside_actions (fst st) = beside_actions m \<and>
    actions_merged info source overrides (md_actions m) (md_actions (fst st))"
  have "r \<noteq> Inl LoadPanic \<and> (\<forall>st. r = Inr st \<longrightarrow> ?P st)"
  proof (rule fold_result_safe [where P = ?P, OF assms(1)])
    fix st x assume inv: "?P st"
    obtain m1 seen1 where st: "st = (m1, seen1)" by (cases st)
    with inv have "actions_indexed m1" "actions_merged info source overrides (md_actions m) (md_actions m1)" by simp_all
    moreover obtain r1 where r1: "merge_action profile info source overrides (m1, seen1) x = (r1 :: ('x loader_error, _) result)" by blast
    ultimately have "r1 \<noteq> Inl LoadPanic \<and> (\<forall>st'. r1 = Inr st' \<longrightarrow> ?P st')"
      using merge_action_step [OF _ _ r1, of "md_actions m"] inv by (auto simp: st)
    then show "(merge_action profile info source overrides st x :: ('x loader_error, _) result) \<noteq> Inl LoadPanic \<and>
        (\<forall>st'. (merge_action profile info source overrides st x :: ('x loader_error, _) result) = Inr st' \<longrightarrow> ?P st')"
      unfolding st r1 .
  qed (simp add: assms(2) actions_merged_refl)
  then show ?thesis by simp
qed

section \<open>Profiles\<close>

text \<open>Results that are not a panic, put together.\<close>

definition calm :: "('x loader_error, 'a) result \<Rightarrow> bool" where
  "calm r \<longleftrightarrow> r \<noteq> Inl LoadPanic"

lemma calm_rules:
  "calm (Inr x)" "e \<noteq> LoadPanic \<Longrightarrow> calm (Inl e)" "e \<noteq> LoadPanic \<Longrightarrow> calm (fail_if b e)"
  "e \<noteq> LoadPanic \<Longrightarrow> calm (ok_or e v)" "(\<And>x. g x \<noteq> LoadPanic) \<Longrightarrow> calm (map_err g r')"
  by (cases b; cases v; cases r'; simp add: calm_def fail_if_def)+

lemma calm_rbind: "calm m \<Longrightarrow> (\<And>x. m = Inr x \<Longrightarrow> calm (f x)) \<Longrightarrow> calm (rbind m f)"
  by (cases m) (auto simp: calm_def)

lemma calm_if: "(b \<Longrightarrow> calm r) \<Longrightarrow> (\<not> b \<Longrightarrow> calm r') \<Longrightarrow> calm (if b then r else r')"
  by simp

lemma calm_option: "(v = None \<Longrightarrow> calm r) \<Longrightarrow> (\<And>x. v = Some x \<Longrightarrow> calm (f x)) \<Longrightarrow> calm (case v of None \<Rightarrow> r | Some x \<Rightarrow> f x)"
  by (cases v) simp_all

lemma calm_fold: "(\<And>s x. calm (f s x)) \<Longrightarrow> calm (fold_result f s xs)"
  by (induction xs arbitrary: s) (auto intro: calm_rules calm_rbind)

lemmas calm_intros = calm_rules calm_rbind calm_if calm_option calm_fold

lemma catalog_entry_calm: "calm (catalog_entry profile source entries entry)"
proof -
  obtain path v where entry: "entry = (path, v)" by (cases entry)
  show ?thesis
    unfolding entry catalog_entry_def validate_bootstrap_override_path_def when_some_def Let_def prod.case
    by (intro calm_intros) simp_all
qed

lemma catalog_entry_trusted:
  "catalog_entry profile source entries entry = Inr entries' \<Longrightarrow> is_trusted source \<or> entries' = entries"
  by (cases entry) (auto simp: catalog_entry_def Let_def rbind_Inr_iff fail_if_Inr_iff split: if_splits)

lemma override_catalog_calm: "calm (override_catalog_new profile source :: ('x loader_error, _) result)"
  unfolding override_catalog_new_def raw_override_entries_def Let_def
  by (intro calm_intros catalog_entry_calm) (auto intro!: calm_intros)

lemma override_catalog_trusted:
  assumes "override_catalog_new profile source = (Inr overrides :: ('x loader_error, _) result)"
  shows "is_trusted source \<or> overrides = []"
proof -
  from assms obtain entries where
    "fold_result (catalog_entry profile source) [] entries = (Inr overrides :: ('x loader_error, _) result)"
    by (auto simp: override_catalog_new_def rbind_Inr_iff)
  then show ?thesis
  proof (rule fold_result_invariant [where P = "\<lambda>o1. is_trusted source \<or> o1 = []"])
    show "is_trusted source \<or> o2 = []" if "is_trusted source \<or> o1 = []" "catalog_entry profile source o1 x = (Inr o2 :: ('x loader_error, _) result)" for o1 o2 x
      using that catalog_entry_trusted [OF that(2)] by auto
  qed simp
qed

lemma check_untrusted_step:
  assumes "check_untrusted profile bootstrap source overrides = r"
  shows "r \<noteq> Inl LoadPanic \<and> (r = Inr () \<longrightarrow> is_trusted (so_source source) \<or>
    (so_source source = WorkspaceOverlay \<and> overrides = [] \<and> rb_inputs bootstrap = [] \<and> rb_policy bootstrap = None \<and>
     (\<forall>schema. declared_settings (opt_or (rb_schema bootstrap) schema) bootstrap =
        map_option SetNumber schema # replicate 20 None)))"
proof -
  have settings: "declared_settings (opt_or (rb_schema bootstrap) schema) bootstrap = map_option SetNumber schema # replicate 20 None"
    if "rb_schema bootstrap = None" "rb_mode bootstrap = None" "rb_workspace_root bootstrap = None"
      "rb_allow_workspace_overlay bootstrap = None" "rb_non_interactive bootstrap = None"
      "rb_identity bootstrap = None" "rb_handoff bootstrap = None" for schema
    using that by (simp add: declared_settings_def numeral_eq_Suc)
  show ?thesis
    unfolding assms [symmetric] check_untrusted_def reject_untrusted_bootstrap_fields_def fail_if_def
    using settings by auto
qed

text \<open>What merging a profile that declares a bootstrap namespace does.\<close>

definition profile_merged ::
  "raw_profile \<Rightarrow> raw_bootstrap \<Rightarrow> profile_source \<Rightarrow> loaded_profile \<Rightarrow> override_catalog \<Rightarrow> merged_bootstrap \<Rightarrow> merged_bootstrap \<Rightarrow> bool" where
  "profile_merged profile bootstrap source info overrides m m' \<longleftrightarrow>
     (let incoming = declared_settings (opt_or (rb_schema bootstrap) (rp_schema profile)) bootstrap in
      \<forall>k < 21. settings m' ! k = opt_or (incoming ! k) (settings m ! k) \<and>
        replaceable overrides (override_paths ! k) (settings m ! k) (incoming ! k)) \<and>
     actions_merged info source overrides (md_actions m) (md_actions m') \<and>
     md_policy m' = md_policy (merge_policy (rb_policy bootstrap) m) \<and>
     (rb_inputs bootstrap = [] \<longrightarrow> md_inputs m' = md_inputs m)"

lemma settings_beside:
  "beside_inputs m = beside_inputs m' \<Longrightarrow> settings m = settings m' \<and> md_policy m = md_policy m' \<and>
     md_actions m = md_actions m' \<and> md_action_indexes m = md_action_indexes m' \<and> md_field_origins m = md_field_origins m'"
  "beside_actions m = beside_actions m' \<Longrightarrow> settings m = settings m' \<and> md_policy m = md_policy m' \<and>
     md_inputs m = md_inputs m' \<and> md_input_origins m = md_input_origins m' \<and> md_field_origins m = md_field_origins m'"
  by (cases m; cases m'; simp add: settings_def)+

lemma merge_policy_beside [simp]:
  "settings (merge_policy p m) = settings m" "md_actions (merge_policy p m) = md_actions m"
  "md_action_indexes (merge_policy p m) = md_action_indexes m" "md_inputs (merge_policy p m) = md_inputs m"
  "md_input_origins (merge_policy p m) = md_input_origins m" "md_field_origins (merge_policy p m) = md_field_origins m"
  by (simp_all add: merge_policy_def settings_def split: option.splits)

lemma merge_profile_step:
  assumes "merge_profile profile source info m = (r :: ('x loader_error, _) result)" "merged_wf m"
  shows "r \<noteq> Inl LoadPanic \<and> (\<forall>m'. r = Inr m' \<longrightarrow> merged_wf m' \<and>
    (\<exists>overrides. override_catalog_new profile (so_source source) = (Inr overrides :: ('x loader_error, _) result) \<and>
      (case rp_bootstrap profile of
         None \<Rightarrow> m' = m
       | Some bootstrap \<Rightarrow>
           check_untrusted profile bootstrap source overrides = (Inr () :: ('x loader_error, _) result) \<and>
           profile_merged profile bootstrap source info overrides m m')))"
proof (cases "override_catalog_new profile (so_source source) :: ('x loader_error, _) result")
  case (Inl e)
  with override_catalog_calm [where 'x = 'x, of profile "so_source source"] assms(1) show ?thesis
    by (auto simp: merge_profile_def calm_def)
next
  case (Inr overrides)
  show ?thesis
  proof (cases "rp_bootstrap profile")
    case None
    with Inr assms show ?thesis by (cases "overrides = []") (auto simp: merge_profile_def fail_if_def)
  next
    case (Some bootstrap)
    let ?m0 = "m\<lparr>md_saw_bootstrap := True\<rparr>"
    let ?cx = "\<lparr>sc_origin = profile_origin info source ''bootstrap'', sc_overrides = overrides\<rparr>"
    let ?schema = "opt_or (rb_schema bootstrap) (rp_schema profile)"
    have r: "r = rbind (check_untrusted profile bootstrap source overrides) (\<lambda>_.
          rbind (merge_scalars ?cx ?schema bootstrap ?m0) (\<lambda>m.
          rbind (fold_result (merge_input info source overrides) (merge_policy (rb_policy bootstrap) m)
            (rb_inputs bootstrap)) (\<lambda>m.
          rbind (fold_result (merge_action profile info source overrides) (m, []) (enumerate 0 (rb_actions bootstrap)))
            (\<lambda>(m, _). Inr m))))"
      using assms(1) unfolding merge_profile_def Inr Some rbind.simps option.case Let_def by simp
    have wf0: "origins_cover ?m0" "inputs_cover ?m0" "actions_indexed ?m0" and settings0: "settings ?m0 = settings m"
      using assms(2) by (simp_all add: merged_wf_def origins_cover_def inputs_cover_def actions_indexed_def settings_def)
    obtain r0 where r0: "check_untrusted profile bootstrap source overrides = (r0 :: ('x loader_error, _) result)" by blast
    obtain r1 where r1: "merge_scalars ?cx ?schema bootstrap ?m0 = (r1 :: ('x loader_error, _) result)" by blast
    note span = merge_scalars_span [where 'x = 'x, of ?cx ?schema bootstrap, unfolded merges_span_def, rule_format, of ?m0, unfolded r1]
    show ?thesis
    proof (cases "r0 = Inr () \<and> (\<exists>m1. r1 = Inr m1)")
      case False
      have "r1 \<noteq> Inl LoadPanic" using span wf0(1) by blast
      with False check_untrusted_step [OF r0] show ?thesis unfolding r r0 r1 by (cases r0; cases r1) auto
    next
      case True
      then obtain m1 where r0': "r0 = Inr ()" and r1': "r1 = Inr m1" by blast
      with span wf0(1) have m1: "others m1 = others ?m0" "origins_cover m1"
        and settings1: "\<And>k. k < 21 \<Longrightarrow> settings m1 ! k = opt_or (declared_settings ?schema bootstrap ! k) (settings m ! k) \<and>
          replaceable overrides (override_paths ! k) (settings m ! k) (declared_settings ?schema bootstrap ! k)"
        unfolding settings0 by auto
      let ?m2 = "merge_policy (rb_policy bootstrap) m1"
      have m2: "inputs_cover ?m2" "actions_indexed ?m2" "md_actions ?m2 = md_actions m" "md_inputs ?m2 = md_inputs m"
        "origins_cover ?m2" "md_policy ?m2 = md_policy (merge_policy (rb_policy bootstrap) m)"
        using m1 wf0(2,3) by (simp_all add: others_def inputs_cover_def actions_indexed_def origins_cover_def)
          (simp add: merge_policy_def split: option.splits)
      obtain r2 where r2: "fold_result (merge_input info source overrides) ?m2 (rb_inputs bootstrap) = (r2 :: ('x loader_error, _) result)" by blast
      note inputs = merge_inputs_step [OF r2 m2(1)]
      show ?thesis
      proof (cases r2)
        case (Inl e)
        with inputs show ?thesis unfolding r r0 r1 r0' r1' by (simp add: r2)
      next
        case (Inr m3)
        with inputs have m3: "inputs_cover m3" "beside_inputs m3 = beside_inputs ?m2" by blast+
        note b3 = settings_beside(1) [OF m3(2)]
        have indexed3: "actions_indexed m3" using m2(2) b3 by (simp add: actions_indexed_def)
        obtain r3 where r3: "fold_result (merge_action profile info source overrides) (m3, []) (enumerate 0 (rb_actions bootstrap)) =
          (r3 :: ('x loader_error, _) result)" by blast
        note acts = merge_actions_step [OF r3 indexed3]
        have run: "r = rbind r3 (\<lambda>(m, _). Inr m)" unfolding r r0 r1 r0' r1' using Inr r2 r3 by simp
        show ?thesis
        proof (cases r3)
          case (Inl e)
          with acts show ?thesis by (simp add: run)
        next
          case (Inr st)
          then obtain m4 seen where st: "r3 = Inr (m4, seen)" by (cases st) auto
          with acts have m4: "actions_indexed m4" "beside_actions m4 = beside_actions m3"
            "actions_merged info source overrides (md_actions m3) (md_actions m4)" by blast+
          note b4 = settings_beside(2) [OF m4(2)]
          have "merged_wf m4"
            using m4(1) m3(1) m2(5) b3 b4 by (simp add: merged_wf_def origins_cover_def inputs_cover_def)
          moreover have "md_inputs m4 = md_inputs m" if "rb_inputs bootstrap = []"
            using r2 \<open>r2 = Inr m3\<close> that b4 m2(4) by simp
          then have "profile_merged profile bootstrap source info overrides m m4"
            using m4(3) b3 b4 m2(3,6) settings1 by (simp add: profile_merged_def Let_def)
          ultimately show ?thesis
            using Some \<open>override_catalog_new profile (so_source source) = Inr overrides\<close> r0 r0' by (simp add: run st)
        qed
      qed
    qed
  qed
qed

section \<open>Properties\<close>

lemma actions_merged_untrusted:
  assumes "actions_merged info source overrides before after" "\<not> is_trusted (so_source source)"
  shows "\<exists>new. after = before @ new \<and> (\<forall>a \<in> set new. from_profile info source a)"
proof (intro exI conjI ballI)
  show "after = before @ drop (length before) after"
    using assms by (intro nth_equalityI) (auto simp: actions_merged_def nth_append)
  fix a assume "a \<in> set (drop (length before) after)"
  then obtain i where "i < length after - length before" "a = after ! (length before + i)" by (auto simp: in_set_conv_nth)
  with assms(1) show "from_profile info source a" by (auto simp: actions_merged_def)
qed

lemma setting_kept:
  assumes "new = opt_or incoming old" "replaceable overrides path old incoming" "old \<noteq> None"
  shows "new \<noteq> None \<and> (new = old \<or> contains_key path overrides)"
  using assms by (cases incoming) (auto simp: replaceable_def)

lemma merge_policy_grows:
  "set (workspace_safe_action_kinds (md_policy m)) \<subseteq> set (workspace_safe_action_kinds (md_policy (merge_policy p m)))"
  "set (admin_only_action_kinds (md_policy m)) \<subseteq> set (admin_only_action_kinds (md_policy (merge_policy p m)))"
  by (auto simp: merge_policy_def extend_kinds_def split: option.splits)

text \<open>
  C15. An untrusted profile can only add. When one is merged, every setting stays as it was, except
  that its schema number is taken when none was set; policy and inputs stay; the actions that
  were there stay, in their places, and the new ones bear a workspace origin.
\<close>

theorem merge_untrusted_isolated:
  assumes "merge_profile profile source info m = (Inr m' :: ('x loader_error, _) result)" "merged_wf m" "\<not> is_trusted (so_source source)"
  shows "(\<forall>k < 21. settings m' ! k = settings m ! k \<or> (k = 0 \<and> settings m ! k = None)) \<and>
    md_policy m' = md_policy m \<and> md_inputs m' = md_inputs m \<and>
    (\<exists>new. md_actions m' = md_actions m @ new \<and> (\<forall>a \<in> set new. or_source (ac_origin a) = WorkspaceOverlay))"
proof -
  from merge_profile_step [OF assms(1,2)] obtain overrides where
    catalog: "override_catalog_new profile (so_source source) = (Inr overrides :: ('x loader_error, _) result)"
    and merged: "case rp_bootstrap profile of None \<Rightarrow> m' = m | Some bootstrap \<Rightarrow>
      check_untrusted profile bootstrap source overrides = (Inr () :: ('x loader_error, _) result) \<and>
      profile_merged profile bootstrap source info overrides m m'" by blast
  show ?thesis
  proof (cases "rp_bootstrap profile")
    case None
    with merged show ?thesis by simp
  next
    case (Some bootstrap)
    let ?inc = "declared_settings (opt_or (rb_schema bootstrap) (rp_schema profile)) bootstrap"
    from merged Some have check: "check_untrusted profile bootstrap source overrides = (Inr () :: ('x loader_error, _) result)"
      and pm: "profile_merged profile bootstrap source info overrides m m'" by simp_all
    from check_untrusted_step [OF check] assms(3) have none: "so_source source = WorkspaceOverlay" "overrides = []"
      "rb_inputs bootstrap = []" "rb_policy bootstrap = None"
      "?inc = map_option SetNumber (rp_schema profile) # replicate 20 None" by blast+
    have "settings m' ! k = settings m ! k \<or> (k = 0 \<and> settings m ! k = None)" if "k < 21" for k
    proof -
      from pm that have new: "settings m' ! k = opt_or (?inc ! k) (settings m ! k)"
        "replaceable overrides (override_paths ! k) (settings m ! k) (?inc ! k)" by (auto simp: profile_merged_def Let_def)
      show ?thesis
      proof (cases k)
        case 0
        with setting_kept [OF new] none(2) show ?thesis by (auto simp: contains_key_def btree_get_def)
      next
        case (Suc j)
        with none(5) that have "?inc ! k = None" by simp
        with new show ?thesis by simp
      qed
    qed
    moreover obtain new where "md_actions m' = md_actions m @ new" "\<forall>a \<in> set new. from_profile info source a"
      using actions_merged_untrusted [OF _ assms(3), of info overrides "md_actions m" "md_actions m'"] pm
      by (auto simp: profile_merged_def)
    moreover have "md_policy m' = md_policy m" "md_inputs m' = md_inputs m"
      using pm none by (simp_all add: profile_merged_def merge_policy_def)
    ultimately show ?thesis using none(1) by (auto simp: from_profile_def)
  qed
qed

text \<open>
  C16. Nothing is overridden silently. A setting that has a value keeps one, and it only changes,
  just as an action that is already there, when the profile is trusted and declares an override for
  it (for an action the new definition also carries a reason); and policy sets never shrink.
\<close>

theorem merge_overrides_explicit:
  assumes "merge_profile profile source info m = (Inr m' :: ('x loader_error, _) result)" "merged_wf m"
  shows "\<exists>overrides. override_catalog_new profile (so_source source) = (Inr overrides :: ('x loader_error, _) result) \<and>
    (\<forall>k < 21. settings m ! k \<noteq> None \<longrightarrow> settings m' ! k \<noteq> None \<and>
       (settings m' ! k = settings m ! k \<or>
        is_trusted (so_source source) \<and> contains_key (override_paths ! k) overrides)) \<and>
    (\<forall>i < length (md_actions m). md_actions m' ! i = md_actions m ! i \<or>
       is_trusted (so_source source) \<and> contains_key (''bootstrap.actions.'' @ ac_id (md_actions m ! i)) overrides \<and>
       ac_id (md_actions m' ! i) = ac_id (md_actions m ! i) \<and> ac_reason (md_actions m' ! i) \<noteq> None) \<and>
    set (workspace_safe_action_kinds (md_policy m)) \<subseteq> set (workspace_safe_action_kinds (md_policy m')) \<and>
    set (admin_only_action_kinds (md_policy m)) \<subseteq> set (admin_only_action_kinds (md_policy m'))"
proof -
  from merge_profile_step [OF assms] obtain overrides where
    catalog: "override_catalog_new profile (so_source source) = (Inr overrides :: ('x loader_error, _) result)"
    and merged: "case rp_bootstrap profile of None \<Rightarrow> m' = m | Some bootstrap \<Rightarrow>
      check_untrusted profile bootstrap source overrides = (Inr () :: ('x loader_error, _) result) \<and>
      profile_merged profile bootstrap source info overrides m m'" by blast
  have trusted: "contains_key path overrides \<Longrightarrow> is_trusted (so_source source)" for path
    using override_catalog_trusted [OF catalog] by (auto simp: contains_key_def btree_get_def)
  show ?thesis
  proof (cases "rp_bootstrap profile")
    case None
    with merged catalog show ?thesis by (intro exI [of _ overrides]) simp
  next
    case (Some bootstrap)
    with merged have pm: "profile_merged profile bootstrap source info overrides m m'" by simp
    show ?thesis
    proof (intro exI [of _ overrides] conjI allI impI catalog)
      fix k :: nat assume "k < 21" "settings m ! k \<noteq> None"
      with pm setting_kept [of "settings m' ! k" _ "settings m ! k" overrides "override_paths ! k"] trusted
      show "settings m' ! k \<noteq> None" "settings m' ! k = settings m ! k \<or>
          is_trusted (so_source source) \<and> contains_key (override_paths ! k) overrides"
        by (auto simp: profile_merged_def Let_def)
    next
      fix i assume "i < length (md_actions m)"
      with pm show "md_actions m' ! i = md_actions m ! i \<or>
         is_trusted (so_source source) \<and> contains_key (''bootstrap.actions.'' @ ac_id (md_actions m ! i)) overrides \<and>
         ac_id (md_actions m' ! i) = ac_id (md_actions m ! i) \<and> ac_reason (md_actions m' ! i) \<noteq> None"
        unfolding profile_merged_def actions_merged_def by blast
    qed (use pm merge_policy_grows in \<open>simp_all add: profile_merged_def\<close>)
  qed
qed

section \<open>An image profile and a workspace overlay\<close>

definition empty_bootstrap :: raw_bootstrap where
  "empty_bootstrap =
     \<lparr>rb_schema = None, rb_mode = None, rb_workspace_root = None, rb_allow_workspace_overlay = None,
      rb_non_interactive = None, rb_identity = None, rb_handoff = None, rb_policy = None, rb_inputs = [],
      rb_actions = [], rb_overrides = []\<rparr>"

definition base_profile :: raw_profile where
  "base_profile =
     \<lparr>rp_schema = Some 1, rp_id = ''base'', rp_extends = [],
      rp_bootstrap = Some (empty_bootstrap
        \<lparr>rb_workspace_root := Some ''/workspace'', rb_allow_workspace_overlay := Some True,
         rb_handoff := Some ((md_handoff merged_default)\<lparr>rw_runtime := Some ''/bin/runtime''\<rparr>),
         rb_policy := Some \<lparr>workspace_safe_action_kinds = [FilesystemEnsureDir], admin_only_action_kinds = []\<rparr>,
         rb_actions := tl sample_actions\<rparr>),
      rp_overrides = []\<rparr>"

definition overlay_profile :: raw_profile where
  "overlay_profile =
     \<lparr>rp_schema = Some 1, rp_id = ''ws'', rp_extends = [''base''],
      rp_bootstrap = Some (empty_bootstrap\<lparr>rb_actions := [hd sample_actions]\<rparr>), rp_overrides = []\<rparr>"

definition base_source :: profile_source where
  "base_source = \<lparr>so_id = ''base'', so_source = ImageProfile, so_location = None, so_contents = ''base''\<rparr>"

definition overlay_source :: profile_source where
  "overlay_source = \<lparr>so_id = ''ws'', so_source = WorkspaceOverlay, so_location = None, so_contents = ''ws''\<rparr>"

text \<open>A parser for which the contents name the document.\<close>

definition sample_toml :: "unit toml_parser" where
  "sample_toml = \<lparr>toml_from_str = (\<lambda>contents. Inr (TString contents)),
     toml_try_into = (\<lambda>document.
       if document = TString ''base'' then Inr base_profile
       else if document = TString ''ws'' then Inr overlay_profile else Inl ())\<rparr>"

abbreviation info_of :: "profile_source \<Rightarrow> loaded_profile" where
  "info_of source \<equiv> \<lparr>lo_id = so_id source, lo_source = so_source source, lo_location = so_location source\<rparr>"

definition base_origin :: "string \<Rightarrow> origin" where
  "base_origin field = origin_new ''base'' ImageProfile (Some (''base:'' @ field))"

definition base_merged :: merged_bootstrap where
  "base_merged = merged_default
     \<lparr>md_schema := Some 1, md_workspace_root := Some ''/workspace'', md_allow_workspace_overlay := Some True,
      md_handoff := (md_handoff merged_default)\<lparr>rw_runtime := Some ''/bin/runtime''\<rparr>,
      md_policy := \<lparr>workspace_safe_action_kinds = [FilesystemEnsureDir], admin_only_action_kinds = []\<rparr>,
      md_actions := [(sample_actions ! 1)\<lparr>ac_origin := base_origin ''bootstrap.actions[0]''\<rparr>,
        (sample_actions ! 2)\<lparr>ac_origin := base_origin ''bootstrap.actions[1]''\<rparr>,
        (sample_actions ! 3)\<lparr>ac_origin := base_origin ''bootstrap.actions[2]''\<rparr>],
      md_action_indexes := [(''handoff'', 2), (''resolve'', 0), (''run'', 1)],
      md_field_origins := [(''bootstrap.allow_workspace_overlay'', base_origin ''bootstrap''),
        (''bootstrap.handoff.runtime'', base_origin ''bootstrap''), (''bootstrap.schema'', base_origin ''bootstrap''),
        (''bootstrap.workspace_root'', base_origin ''bootstrap'')],
      md_saw_bootstrap := True\<rparr>"

lemma digits: "to_decimal 0 = ''0''" "to_decimal (Suc 0) = ''1''" "to_decimal (Suc (Suc 0)) = ''2''"
  by code_simp+

lemma base_merge: "merge_profile base_profile base_source (info_of base_source) merged_default = (Inr base_merged :: (unit loader_error, _) result)"
proof -
  obtain bootstrap where b: "rp_bootstrap base_profile = Some bootstrap" by (simp add: base_profile_def)
  have catalog: "override_catalog_new base_profile (so_source base_source) = (Inr [] :: (unit loader_error, _) result)" by code_simp
  have check: "check_untrusted base_profile bootstrap base_source [] = (Inr () :: (unit loader_error, _) result)"
    by (simp add: check_untrusted_def base_source_def is_trusted_def)
  let ?cx = "\<lparr>sc_origin = profile_origin (info_of base_source) base_source ''bootstrap'', sc_overrides = []\<rparr>"
  let ?m1 = "base_merged\<lparr>md_actions := [], md_action_indexes := [], md_policy := md_policy merged_default\<rparr>"
  have scalars: "merge_scalars ?cx (opt_or (rb_schema (the (rp_bootstrap base_profile))) (rp_schema base_profile)) (the (rp_bootstrap base_profile))
      (merged_default\<lparr>md_saw_bootstrap := True\<rparr>) = (Inr ?m1 :: (unit loader_error, _) result)" by code_simp
  have policy: "merge_policy (rb_policy (the (rp_bootstrap base_profile))) ?m1 = base_merged\<lparr>md_actions := [], md_action_indexes := []\<rparr>" by code_simp
  have acts: "fold_result (merge_action base_profile (info_of base_source) base_source []) (base_merged\<lparr>md_actions := [], md_action_indexes := []\<rparr>, [])
      (enumerate 0 (rb_actions (the (rp_bootstrap base_profile)))) = (Inr (base_merged, [''handoff'', ''resolve'', ''run'']) :: (unit loader_error, _) result)"
    by (simp add: base_profile_def empty_bootstrap_def sample_actions_def merge_action_def place_action_def fail_if_def
        MAX_BOOTSTRAP_ACTIONS_def base_merged_def base_source_def action_new_def btree_get_def merged_default_def digits
        profile_origin_def base_origin_def origin_new_def set_insert_def insort_insert_key_def numeral_eq_Suc)
  have inputs: "rb_inputs (the (rp_bootstrap base_profile)) = []" by code_simp
  show ?thesis
    using b catalog check scalars policy acts inputs by (simp add: merge_profile_def)
qed

definition cache_action :: action where
  "cache_action = (hd sample_actions)\<lparr>ac_origin := origin_new ''ws'' WorkspaceOverlay (Some ''ws:bootstrap.actions[0]'')\<rparr>"

definition overlay_merged :: merged_bootstrap where
  "overlay_merged = base_merged\<lparr>md_actions := md_actions base_merged @ [cache_action],
     md_action_indexes := [(''cache'', 3), (''handoff'', 2), (''resolve'', 0), (''run'', 1)]\<rparr>"

lemma overlay_merge: "merge_profile overlay_profile overlay_source (info_of overlay_source) base_merged = (Inr overlay_merged :: (unit loader_error, _) result)"
proof -
  obtain bootstrap where b: "rp_bootstrap overlay_profile = Some bootstrap" by (simp add: overlay_profile_def)
  have catalog: "override_catalog_new overlay_profile (so_source overlay_source) = (Inr [] :: (unit loader_error, _) result)" by code_simp
  have check: "check_untrusted overlay_profile (the (rp_bootstrap overlay_profile)) overlay_source [] = (Inr () :: (unit loader_error, _) result)"
    by code_simp
  let ?cx = "\<lparr>sc_origin = profile_origin (info_of overlay_source) overlay_source ''bootstrap'', sc_overrides = []\<rparr>"
  have scalars: "merge_scalars ?cx (opt_or (rb_schema (the (rp_bootstrap overlay_profile))) (rp_schema overlay_profile)) (the (rp_bootstrap overlay_profile))
      (base_merged\<lparr>md_saw_bootstrap := True\<rparr>) = (Inr base_merged :: (unit loader_error, _) result)" by code_simp
  have policy: "merge_policy (rb_policy (the (rp_bootstrap overlay_profile))) base_merged = base_merged" by code_simp
  have acts: "fold_result (merge_action overlay_profile (info_of overlay_source) overlay_source []) (base_merged, [])
      (enumerate 0 (rb_actions (the (rp_bootstrap overlay_profile)))) = (Inr (overlay_merged, [''cache'']) :: (unit loader_error, _) result)"
    by (simp add: overlay_profile_def empty_bootstrap_def sample_actions_def merge_action_def place_action_def fail_if_def
        MAX_BOOTSTRAP_ACTIONS_def base_merged_def overlay_merged_def overlay_source_def action_new_def btree_get_def merged_default_def digits
        profile_origin_def base_origin_def origin_new_def set_insert_def insort_insert_key_def numeral_eq_Suc cache_action_def)
  have inputs: "rb_inputs (the (rp_bootstrap overlay_profile)) = []" by code_simp
  show ?thesis
    using b catalog check scalars policy acts inputs by (simp add: merge_profile_def)
qed

lemma base_merged_wf: "merged_wf base_merged"
  using merge_profile_step [OF base_merge merged_default_wf] by blast

theorem merge_untrusted_isolated_witness:
  "(merge_profile overlay_profile overlay_source (info_of overlay_source) base_merged :: (unit loader_error, _) result) = Inr overlay_merged \<and>
   (\<exists>new. md_actions overlay_merged = md_actions base_merged @ new \<and> (\<forall>a \<in> set new. or_source (ac_origin a) = WorkspaceOverlay))"
proof -
  have "\<not> is_trusted (so_source overlay_source)" by code_simp
  from merge_untrusted_isolated [OF overlay_merge base_merged_wf this] show ?thesis using overlay_merge by blast
qed

text \<open>An image profile on top that overrides an action, with its reason.\<close>

definition override_profile :: raw_profile where
  "override_profile =
     \<lparr>rp_schema = None, rp_id = ''top'', rp_extends = [''base''],
      rp_bootstrap = Some (empty_bootstrap\<lparr>rb_actions := [(sample_actions ! 2)\<lparr>ac_path := Some ''/run/other''\<rparr>]\<rparr>),
      rp_overrides = [(''bootstrap.actions.run'', TTable [(''op'', TString ''set''), (''reason'', TString ''moved'')])]\<rparr>"

definition override_source :: profile_source where
  "override_source = \<lparr>so_id = ''top'', so_source = ImageProfile, so_location = None, so_contents = ''top''\<rparr>"

definition override_merged :: merged_bootstrap where
  "override_merged = base_merged\<lparr>md_actions := (md_actions base_merged)[1 := (sample_actions ! 2)\<lparr>ac_path := Some ''/run/other'',
     ac_reason := Some ''moved'', ac_origin := origin_new ''top'' ImageProfile (Some ''top:bootstrap.actions[0]'')\<rparr>]\<rparr>"

lemma override_merge: "merge_profile override_profile override_source (info_of override_source) base_merged = (Inr override_merged :: (unit loader_error, _) result)"
proof -
  obtain bootstrap where b: "rp_bootstrap override_profile = Some bootstrap" by (simp add: override_profile_def)
  have catalog: "override_catalog_new override_profile (so_source override_source) = (Inr [(''bootstrap.actions.run'', ''moved'')] :: (unit loader_error, _) result)" by code_simp
  have check: "check_untrusted override_profile bootstrap override_source overrides = (Inr () :: (unit loader_error, _) result)" for overrides
    by (simp add: check_untrusted_def override_source_def is_trusted_def)
  let ?cx = "\<lparr>sc_origin = profile_origin (info_of override_source) override_source ''bootstrap'', sc_overrides = [(''bootstrap.actions.run'', ''moved'')]\<rparr>"
  have scalars: "merge_scalars ?cx (opt_or (rb_schema (the (rp_bootstrap override_profile))) (rp_schema override_profile)) (the (rp_bootstrap override_profile))
      (base_merged\<lparr>md_saw_bootstrap := True\<rparr>) = (Inr base_merged :: (unit loader_error, _) result)" by code_simp
  have policy: "merge_policy (rb_policy (the (rp_bootstrap override_profile))) base_merged = base_merged" by code_simp
  have acts: "fold_result (merge_action override_profile (info_of override_source) override_source [(''bootstrap.actions.run'', ''moved'')]) (base_merged, [])
      (enumerate 0 (rb_actions (the (rp_bootstrap override_profile)))) = (Inr (override_merged, [''run'']) :: (unit loader_error, _) result)"
    by code_simp
  have inputs: "rb_inputs (the (rp_bootstrap override_profile)) = []" by code_simp
  show ?thesis
    using b catalog check scalars policy acts inputs by (simp add: merge_profile_def)
qed

theorem merge_overrides_explicit_witness:
  "(merge_profile override_profile override_source (info_of override_source) base_merged :: (unit loader_error, _) result) = Inr override_merged \<and>
   md_actions override_merged ! 1 \<noteq> md_actions base_merged ! 1 \<and> is_trusted (so_source override_source) \<and>
   ac_reason (md_actions override_merged ! 1) \<noteq> None"
proof -
  have changed: "md_actions override_merged ! 1 \<noteq> md_actions base_merged ! 1" by code_simp
  moreover have "1 < length (md_actions base_merged)" by code_simp
  ultimately show ?thesis using merge_overrides_explicit [OF override_merge base_merged_wf] override_merge by blast
qed

end
