(* ===== verification/Loader_Load.thy ===== *)
theory Loader_Load
  imports Loader_Merge
begin

text \<open>
  The profile registry and loading (\<open>src/crates/container-init-bootstrap-loader/src/loader.rs\<close>):
  adding profiles under the byte limits, and resolving a profile with its parents through
  \<open>Profile_Graph\<close>, merging their bootstrap namespaces parents first.
\<close>

section \<open>The registry\<close>

definition MAX_PROFILE_BYTES :: nat where "MAX_PROFILE_BYTES = 8 * 1024 * 1024"
definition MAX_PROFILE_COLLECTION_BYTES :: nat where "MAX_PROFILE_COLLECTION_BYTES = 32 * 1024 * 1024"
definition MAX_PROFILE_INHERITANCE_DEPTH :: nat where "MAX_PROFILE_INHERITANCE_DEPTH = 64"

type_synonym registry = "(string, profile_source) btree_map"

definition source_location :: "profile_source \<Rightarrow> string" where
  "source_location source = unwrap_or (''profile '' @ so_id source) (so_location source)"

text \<open>\<open>checked_add\<close> on \<open>usize\<close>.\<close>

definition add_bytes :: "nat \<Rightarrow> nat \<Rightarrow> ('x loader_error, nat) result" where
  "add_bytes so_far bytes =
     (if so_far + bytes < 2 ^ 64 then Inr (so_far + bytes) else Inl (LoadInvalid ''profiles'' CollectionOverflow))"

definition add_profile ::
  "'x toml_parser \<Rightarrow> registry \<Rightarrow> profile_source \<Rightarrow> ('x loader_error, registry) result" where
  "add_profile toml profiles source =
     rbind (fail_if (MAX_PROFILE_BYTES < length (so_contents source))
       (LoadInvalid (source_location source) ProfileTooLarge)) (\<lambda>_.
     rbind (fold_result (\<lambda>so_far entry. add_bytes so_far (length (so_contents entry))) 0 (map snd profiles))
       (\<lambda>existing_bytes.
     rbind (add_bytes existing_bytes (length (so_contents source))) (\<lambda>collection_bytes.
     rbind (fail_if (MAX_PROFILE_COLLECTION_BYTES < collection_bytes)
       (LoadInvalid ''profiles'' (CollectionTooLarge collection_bytes))) (\<lambda>_.
     rbind (parser_validate_profile_id (so_id source)) (\<lambda>_.
     rbind (parse_profile toml (so_contents source) (source_location source)) (\<lambda>parsed.
     rbind (fail_if (rp_id parsed \<noteq> so_id source)
       (LoadInvalid (source_location source) (SourceIdMismatch (so_id source) (rp_id parsed)))) (\<lambda>_.
     case btree_get (so_id source) profiles of
       Some previous \<Rightarrow> Inl (DuplicateProfile (so_id source) (so_location previous) (so_location source))
     | None \<Rightarrow> Inr (btree_insert (so_id source) source profiles))))))))"

section \<open>Loading\<close>

definition load_source ::
  "'x toml_parser \<Rightarrow> registry \<Rightarrow> (raw_profile, 'x loader_error) loader" where
  "load_source toml profiles pid =
     (case btree_get pid profiles of
        None \<Rightarrow> Inr None
      | Some source \<Rightarrow>
          let location = unwrap_or (''profile '' @ pid) (so_location source) in
          rbind (parse_profile toml (so_contents source) location) (\<lambda>raw.
          rbind (fail_if (rp_id raw \<noteq> so_id source)
            (LoadInvalid location (SourceIdMismatch (so_id source) (rp_id raw)))) (\<lambda>_.
          rbind (parser_validate_profile_id (rp_id raw)) (\<lambda>_.
          Inr (Some (raw, rp_extends raw))))))"

definition apply_source ::
  "registry \<Rightarrow> (merged_bootstrap \<times> loaded_profile list, raw_profile, 'x loader_error) applier" where
  "apply_source profiles st pid raw =
     (let (merged, chain) = st in
      case btree_get pid profiles of
        None \<Rightarrow> Inl LoadPanic
      | Some source \<Rightarrow>
          let info = \<lparr>lo_id = rp_id raw, lo_source = so_source source, lo_location = so_location source\<rparr> in
          rbind (merge_profile raw source info merged) (\<lambda>merged. Inr (merged, chain @ [info])))"

fun map_graph_error :: "'x loader_error traverse_error \<Rightarrow> 'x loader_error" where
  "map_graph_error (Source error) = error"
| "map_graph_error (Graph (MissingProfile pid)) = LoadMissingProfile pid"
| "map_graph_error (Graph (MissingParent profile parent)) = LoadMissingProfile parent"
| "map_graph_error (Graph (Cycle cycle)) = InheritanceCycle cycle"
| "map_graph_error (Graph (InvalidId pid)) = LoadInvalid ''id'' (GraphInvalidId pid)"
| "map_graph_error (Graph (DuplicateParent profile parent)) =
     LoadInvalid (''profile '' @ profile @ ''.extends'') (GraphDuplicateParent parent)"
| "map_graph_error (Graph (InheritanceDepthExceeded limit)) =
     LoadInvalid ''profile inheritance'' (GraphDepthExceeded limit)"

definition load_bootstrap ::
  "'x toml_parser \<Rightarrow> registry \<Rightarrow> string \<Rightarrow> ('x loader_error, bootstrap_config \<times> loaded_profile list) result" where
  "load_bootstrap toml profiles profile_id =
     rbind (map_err map_graph_error
       (traverse_with_max_depth profile_id MAX_PROFILE_INHERITANCE_DEPTH (load_source toml profiles)
         (apply_source profiles) (merged_default, []))) (\<lambda>(merged, chain).
     rbind (finish merged) (\<lambda>config. Inr (config, chain)))"

section \<open>The state of a load\<close>

text \<open>A registry as \<open>add_profile\<close> builds it: profiles under their own ids.\<close>

definition registry_wf :: "registry \<Rightarrow> bool" where
  "registry_wf profiles \<longleftrightarrow> btree_wf profiles \<and> (\<forall>pid source. btree_get pid profiles = Some source \<longrightarrow> so_id source = pid)"

lemma add_profile_Inr:
  assumes "add_profile toml profiles source = Inr profiles'"
  shows "profiles' = btree_insert (so_id source) source profiles"
  using assms by (auto simp: add_profile_def rbind_Inr_iff split: option.splits)

lemma registry_built:
  assumes "fold_result (add_profile toml) [] sources = (Inr profiles :: ('x loader_error, _) result)"
  shows "registry_wf profiles \<and> (\<forall>pid source. btree_get pid profiles = Some source \<longrightarrow> source \<in> set sources)"
proof (rule fold_result_invariant [where P = "\<lambda>profiles. registry_wf profiles \<and>
      (\<forall>pid source. btree_get pid profiles = Some source \<longrightarrow> source \<in> set sources)", OF assms])
  show "registry_wf [] \<and> (\<forall>pid source. btree_get pid [] = Some source \<longrightarrow> source \<in> set sources)"
    by (simp add: registry_wf_def btree_wf_def btree_get_def)
next
  fix profiles1 x and profiles2 :: registry
  assume x: "x \<in> set sources" and inv: "registry_wf profiles1 \<and> (\<forall>pid source. btree_get pid profiles1 = Some source \<longrightarrow> source \<in> set sources)"
    and add: "add_profile toml profiles1 x = (Inr profiles2 :: ('x loader_error, _) result)"
  from add_profile_Inr [OF add] inv x
  show "registry_wf profiles2 \<and> (\<forall>pid source. btree_get pid profiles2 = Some source \<longrightarrow> source \<in> set sources)"
    by (auto simp: registry_wf_def btree_get_insert btree_wf_insert split: if_splits)
qed

lemma calm_relocate: "calm (map_err (relocate location) (parser_validate_profile_id pid))"
  by (cases "validate_profile_id pid") (auto simp: parser_validate_profile_id_def relocate_def calm_def)

lemma parse_profile_calm: "calm (parse_profile toml contents location)"
  unfolding parse_profile_def by (intro calm_relocate calm_intros) simp_all

lemma load_source_calm: "calm (load_source toml profiles pid)"
  unfolding load_source_def parser_validate_profile_id_def Let_def
  by (intro calm_intros parse_profile_calm) simp_all

lemma finish_calm: "calm (finish m)"
proof -
  have "calm (register_input_name owner names name)" for owner names name
    unfolding register_input_name_def by (intro calm_intros) simp
  then have "calm (validate_input_aliases config)" for config
    unfolding validate_input_aliases_def by (intro calm_intros) (auto intro!: calm_intros)
  then show ?thesis unfolding finish_def required_value_def Let_def by (intro calm_intros) simp_all
qed

lemma load_source_Inr:
  assumes "load_source toml profiles pid = Inr (Some (raw, parents))"
  obtains source where "btree_get pid profiles = Some source" "rp_id raw = so_id source"
  using assms by (auto simp: load_source_def Let_def rbind_Inr_iff fail_if_Inr_iff split: option.splits)

text \<open>
  The state of a load: a well-formed merge, and every action bears the id and the source of a
  profile in the chain.
\<close>

definition load_inv :: "registry \<Rightarrow> merged_bootstrap \<times> loaded_profile list \<Rightarrow> bool" where
  "load_inv profiles st \<longleftrightarrow> merged_wf (fst st) \<and>
     (\<forall>a \<in> set (md_actions (fst st)). \<exists>p \<in> set (snd st). \<exists>source.
        lo_id p = or_profile (ac_origin a) \<and> lo_source p = or_source (ac_origin a) \<and>
        btree_get (lo_id p) profiles = Some source \<and> so_source source = lo_source p)"

lemma actions_merged_mem:
  assumes "actions_merged info source overrides before after" "a \<in> set after"
  shows "a \<in> set before \<or> from_profile info source a"
  using assms unfolding actions_merged_def by (metis in_set_conv_nth not_le)

lemma load_callbacks_safe:
  fixes toml :: "'x toml_parser"
  assumes "registry_wf profiles"
  shows "callbacks_safe (load_source toml profiles) (apply_source profiles) (load_inv profiles) LoadPanic"
  unfolding callbacks_safe_def
proof (intro conjI allI impI)
  show "load_source toml profiles pid \<noteq> Inl LoadPanic" for pid using load_source_calm by (simp add: calm_def)
  fix pid raw parents st
  assume load: "load_source toml profiles pid = Inr (Some (raw, parents))" and inv: "load_inv profiles st"
  from load obtain source where source: "btree_get pid profiles = Some source" "rp_id raw = so_id source" by (rule load_source_Inr)
  with assms have pid: "rp_id raw = pid" by (simp add: registry_wf_def)
  obtain m chain where st: "st = (m, chain)" by (cases st)
  let ?info = "\<lparr>lo_id = rp_id raw, lo_source = so_source source, lo_location = so_location source\<rparr>"
  obtain r where r: "merge_profile raw source ?info m = (r :: ('x loader_error, _) result)" by blast
  from inv have wf: "merged_wf m" by (simp add: load_inv_def st)
  note step = merge_profile_step [OF r wf]
  have run: "(apply_source profiles st pid raw :: ('x loader_error, _) result) = rbind r (\<lambda>m. Inr (m, chain @ [?info]))"
    unfolding apply_source_def st Let_def prod.case source(1) option.case r ..
  show "(apply_source profiles st pid raw :: ('x loader_error, _) result) \<noteq> Inl LoadPanic"
    using step unfolding run by (cases r) auto
  fix st' assume "(apply_source profiles st pid raw :: ('x loader_error, _) result) = Inr st'"
  then obtain m' where m': "r = Inr m'" "st' = (m', chain @ [?info])" unfolding run by (cases r) auto
  from step m'(1) have wf': "merged_wf m'" by blast
  from step m'(1) obtain overrides where merged: "case rp_bootstrap raw of None \<Rightarrow> m' = m | Some bootstrap \<Rightarrow>
      check_untrusted raw bootstrap source overrides = (Inr () :: ('x loader_error, _) result) \<and>
      profile_merged raw bootstrap source ?info overrides m m'" by blast
  have new: "a \<in> set (md_actions m) \<or> from_profile ?info source a" if "a \<in> set (md_actions m')" for a
  proof (cases "rp_bootstrap raw")
    case None
    with merged that show ?thesis by simp
  next
    case (Some bootstrap)
    with merged have "actions_merged ?info source overrides (md_actions m) (md_actions m')" by (simp add: profile_merged_def)
    then show ?thesis using that by (rule actions_merged_mem)
  qed
  show "load_inv profiles st'"
    unfolding load_inv_def m'(2) fst_conv snd_conv
  proof (intro conjI ballI)
    show "merged_wf m'" by (rule wf')
    fix a assume "a \<in> set (md_actions m')"
    from new [OF this] show "\<exists>p \<in> set (chain @ [?info]). \<exists>source. lo_id p = or_profile (ac_origin a) \<and>
        lo_source p = or_source (ac_origin a) \<and> btree_get (lo_id p) profiles = Some source \<and> so_source source = lo_source p"
    proof
      assume "a \<in> set (md_actions m)"
      with inv show ?thesis unfolding load_inv_def st by auto
    next
      assume "from_profile ?info source a"
      then show ?thesis using source pid by (auto simp: from_profile_def)
    qed
  qed
qed

section \<open>Properties\<close>

text \<open>
  Loading never panics: the origin of every value that conflicts is known, the index of
  every action is in range and every profile that is merged is registered.
\<close>

theorem load_never_panics:
  fixes toml :: "'x toml_parser"
  assumes "fold_result (add_profile toml) [] sources = Inr profiles"
  shows "load_bootstrap toml profiles profile_id \<noteq> Inl LoadPanic"
proof -
  from assms registry_built have wf: "registry_wf profiles" by blast
  obtain r where r: "traverse_with_max_depth profile_id MAX_PROFILE_INHERITANCE_DEPTH (load_source toml profiles)
      (apply_source profiles) (merged_default, []) = r" by blast
  have "load_inv profiles (merged_default, [])" using merged_default_wf by (simp add: load_inv_def) (simp add: merged_default_def)
  from traverse_safe [OF load_callbacks_safe [OF wf] this r] have "r \<noteq> Inl (Source LoadPanic)" by blast
  moreover have "map_graph_error e = LoadPanic \<Longrightarrow> e = Source LoadPanic" for e :: "'x loader_error traverse_error"
    by (cases e rule: map_graph_error.cases) simp_all
  ultimately have "calm (map_err map_graph_error r)" by (cases r) (auto simp: calm_def)
  moreover have "calm (load_bootstrap toml profiles profile_id)"
    unfolding load_bootstrap_def r using calculation
    by (intro calm_rbind) (auto intro!: calm_rbind finish_calm calm_rules)
  ultimately show ?thesis by (simp add: calm_def)
qed

lemma load_bootstrap_Inr:
  fixes toml :: "'x toml_parser"
  assumes "load_bootstrap toml profiles profile_id = Inr (config, chain)" "registry_wf profiles"
  shows "config_validate config = Inr () \<and> distinct (map ac_id (bc_actions config)) \<and>
    (\<forall>a \<in> set (bc_actions config). \<exists>p \<in> set chain. \<exists>source.
        lo_id p = or_profile (ac_origin a) \<and> lo_source p = or_source (ac_origin a) \<and>
        btree_get (lo_id p) profiles = Some source \<and> so_source source = lo_source p)"
proof -
  from assms(1) obtain m where trav: "traverse_with_max_depth profile_id MAX_PROFILE_INHERITANCE_DEPTH (load_source toml profiles)
      (apply_source profiles) (merged_default, []) = Inr (m, chain)" and fin: "finish m = (Inr config :: ('x loader_error, _) result)"
    by (auto simp: load_bootstrap_def rbind_Inr_iff map_err_Inr_iff)
  have "load_inv profiles (merged_default, [])" using merged_default_wf by (simp add: load_inv_def) (simp add: merged_default_def)
  from traverse_safe [OF load_callbacks_safe [OF assms(2)] this trav] have inv: "load_inv profiles (m, chain)" by simp
  from fin have "bc_actions config = md_actions m" "config_validate config = Inr ()"
    by (auto simp: finish_def rbind_Inr_iff map_err_Inr_iff Let_def bootstrap_config_new_def)
  with inv show ?thesis using indexed_distinct [of m] by (auto simp: load_inv_def merged_wf_def)
qed

definition sample_registry :: registry where
  "sample_registry = [(''base'', base_source), (''ws'', overlay_source)]"

definition merged_config :: bootstrap_config where
  "merged_config = sample_config\<lparr>bc_actions := md_actions overlay_merged\<rparr>"

lemma sample_parse:
  "parse_profile sample_toml ''base'' location = Inr base_profile"
  "parse_profile sample_toml ''ws'' location = Inr overlay_profile"
  by code_simp+

lemma sample_registry_built: "fold_result (add_profile sample_toml) [] [base_source, overlay_source] = Inr sample_registry"
proof -
  have id: "parser_validate_profile_id ''base'' = (Inr () :: (unit loader_error, _) result)" "parser_validate_profile_id ''ws'' = (Inr () :: (unit loader_error, _) result)"
    by code_simp+
  have add: "add_profile sample_toml [] base_source = Inr [(''base'', base_source)]"
    by (simp add: add_profile_def base_source_def add_bytes_def MAX_PROFILE_BYTES_def MAX_PROFILE_COLLECTION_BYTES_def fail_if_def
       id sample_parse btree_get_def) (simp add: base_profile_def)
  have "add_profile sample_toml [(''base'', base_source)] overlay_source = Inr sample_registry"
    by (simp add: add_profile_def base_source_def overlay_source_def add_bytes_def MAX_PROFILE_BYTES_def MAX_PROFILE_COLLECTION_BYTES_def fail_if_def
       id sample_parse btree_get_def sample_registry_def) (simp add: overlay_profile_def)
  with add show ?thesis by simp
qed

lemma sample_finish: "finish overlay_merged = (Inr merged_config :: (unit loader_error, _) result)"
proof -
  have v: "config_validate merged_config = Inr ()" unfolding merged_config_def
  proof (rule sample_with_actions_valid)
    show "length (md_actions overlay_merged) \<le> MAX_BOOTSTRAP_ACTIONS"
      by (simp add: overlay_merged_def base_merged_def MAX_BOOTSTRAP_ACTIONS_def)
  qed code_simp+
  have "md_saw_bootstrap overlay_merged" "md_schema overlay_merged = Some BOOTSTRAP_SCHEMA_V1" "md_mode overlay_merged = None"
    "md_workspace_root overlay_merged = Some ''/workspace''" "rw_runtime (md_handoff overlay_merged) = Some ''/bin/runtime''"
    "merged_identity_config (md_identity overlay_merged) = identity_config_new"
    "merged_handoff_config ''/bin/runtime'' (md_handoff overlay_merged) = handoff_config_new ''/bin/runtime''"
    "md_inputs overlay_merged = []" "md_allow_workspace_overlay overlay_merged = Some True" "md_non_interactive overlay_merged = None"
    "md_policy overlay_merged = bc_policy sample_config" by code_simp+
  moreover have "validate_input_aliases merged_config = (Inr () :: (unit loader_error, _) result)" by code_simp
  moreover have "(bootstrap_config_new ''/workspace'' identity_config_new (handoff_config_new ''/bin/runtime'') [] (md_actions overlay_merged))
     \<lparr>bc_schema := BOOTSTRAP_SCHEMA_V1, bc_mode := Strict, bc_allow_workspace_overlay := True, bc_non_interactive := Deny,
      bc_policy := bc_policy sample_config\<rparr> = merged_config"
    by (simp add: merged_config_def sample_config_def bootstrap_config_new_def)
  ultimately show ?thesis using v by (simp add: finish_def required_value_def fail_if_def)
qed

lemma sample_load: "load_bootstrap sample_toml sample_registry ''ws'' = Inr (merged_config, [info_of base_source, info_of overlay_source])"
proof -
  have load: "load_source sample_toml sample_registry ''ws'' = Inr (Some (overlay_profile, [''base'']))"
    "load_source sample_toml sample_registry ''base'' = Inr (Some (base_profile, []))" by code_simp+
  have app: "apply_source sample_registry (merged_default, []) ''base'' base_profile = (Inr (base_merged, [info_of base_source]) :: (unit loader_error, _) result)"
    using base_merge by (simp add: apply_source_def sample_registry_def btree_get_def) (simp add: base_profile_def base_source_def)
  have app2: "apply_source sample_registry (base_merged, chain) ''ws'' overlay_profile = (Inr (overlay_merged, chain @ [info_of overlay_source]) :: (unit loader_error, _) result)" for chain
    using overlay_merge by (simp add: apply_source_def sample_registry_def btree_get_def) (simp add: overlay_profile_def overlay_source_def)
  have "validate_extends ''ws'' [''base''] = Inr ()" "validate_extends ''base'' [] = Inr ()" "validate_profile_id ''ws'' = Inr ()" by code_simp+
  then show ?thesis using load app app2 sample_finish
    by (simp add: load_bootstrap_def traverse_with_max_depth_def visit.simps MAX_PROFILE_INHERITANCE_DEPTH_def)
qed

theorem load_never_panics_witness:
  "fold_result (add_profile sample_toml) [] [base_source, overlay_source] = Inr sample_registry \<and>
   load_bootstrap sample_toml sample_registry ''ws'' \<noteq> Inl LoadPanic"
  using load_never_panics [OF sample_registry_built] sample_registry_built by blast

end
