(* ===== verification/Posix_Accounts.thy ===== *)
theory Posix_Accounts
  imports Posix_Namespace
begin

text \<open>
  The account database (\<open>src/crates/container-init-posix/src/accounts.rs\<close>, \<open>credentials.rs\<close>):
  reconciling \<open>passwd\<close> and \<open>group\<close>, changing a login shell, looking a user up, and dropping
  privileges. The two files are the state. \<open>atomic_replace\<close> writes a temporary file and
  renames it, so it either replaces the whole file or leaves it alone; which of the two
  happens is a parameter, and so are the outcomes of the credential system calls.
\<close>

section \<open>Data\<close>

record posix_identity =
  pi_uid :: u32
  pi_gid :: u32
  pi_user :: string
  pi_home :: string

record posix_user =
  pu_name :: string
  pu_uid :: u32
  pu_gid :: u32
  pu_home :: string
  pu_shell :: string

datatype posix_message =
    BadUserName string
  | ProhibitedCharacter string
  | HomeNotAbsolute
  | UidZeroNotRoot
  | RootNotZero
  | NoTargetAccount
  | ReplacePasswdFailed
  | ReplaceGroupFailed bool
  | NotReadBack string
  | VerificationFailed string
  | ShellNotAbsolute
  | FewerThanSeven
  | NoSuchUser string
  | PasswdFieldCount nat
  | PasswdNumber string nat
  | PasswdUid nat
  | UidOccupied u32 string
  | DuplicateUser string
  | GroupFieldCount nat
  | GroupGid nat
  | UserNameNul

datatype lookup_error = LookupIo | LookupNul | LookupMalformed nat | LookupEmptyName nat | LookupUid nat | LookupGid nat

datatype posix_error = PosixInvalid posix_message | PosixIo | PosixLookup lookup_error | PosixPermission

datatype action_change =
    RootUnchanged | MappedPasswd | AlreadyMapped | RootShellUnchanged | UpdatedShell | ShellAlreadySet
  | AlreadyTarget | DroppedPrivileges

abbreviation colon :: char where "colon \<equiv> CHR '':''"
abbreviation nl :: char where "nl \<equiv> CHR 0x0A"
abbreviation cr :: char where "cr \<equiv> CHR 0x0D"

section \<open>Field checks\<close>

definition validate_user_name :: "string \<Rightarrow> (posix_message, unit) result" where
  "validate_user_name user =
     fail_if (user = [] \<or> 32 < length user \<or>
         \<not> list_all (\<lambda>c. is_ascii_alphanumeric c \<or> c \<in> {CHR ''_'', CHR ''-''}) user)
       (BadUserName user)"

definition validate_account_field :: "string \<Rightarrow> string \<Rightarrow> (posix_message, unit) result" where
  "validate_account_field field value =
     fail_if (list_ex (\<lambda>c. c \<in> {colon, CHR 0x00, nl, cr}) value) (ProhibitedCharacter field)"

definition validate_passwd_fields :: "string list \<Rightarrow> nat \<Rightarrow> (posix_message, unit) result" where
  "validate_passwd_fields columns line_number =
     rbind (fail_if (length columns \<noteq> 7) (PasswdFieldCount line_number)) (\<lambda>_.
     rbind (validate_user_name (columns ! 0)) (\<lambda>_.
     rbind (for_each (\<lambda>(field, value).
         rbind (ok_or (PasswdNumber field line_number) (parse_u32 value)) (\<lambda>_. Inr ()))
       [(''uid'', columns ! 2), (''gid'', columns ! 3)]) (\<lambda>_.
     rbind (validate_account_field ''home'' (columns ! 5)) (\<lambda>_.
     validate_account_field ''shell'' (columns ! 6)))))"

definition group_members :: "string \<Rightarrow> string list" where
  "group_members field = filter (\<lambda>member. member \<noteq> []) (split_char (CHR '','') field)"

definition validate_group_fields :: "string list \<Rightarrow> nat \<Rightarrow> (posix_message, unit) result" where
  "validate_group_fields columns line_number =
     rbind (fail_if (length columns \<noteq> 4) (GroupFieldCount line_number)) (\<lambda>_.
     rbind (validate_user_name (columns ! 0)) (\<lambda>_.
     rbind (ok_or (GroupGid line_number) (parse_u32 (columns ! 2))) (\<lambda>_.
     rbind (validate_account_field ''group members'' (columns ! 3)) (\<lambda>_.
     for_each validate_user_name (group_members (columns ! 3))))))"

definition is_skipped :: "string \<Rightarrow> bool" where
  "is_skipped line \<longleftrightarrow> starts_with line ''#'' \<or> trim line = []"

section \<open>Reconciling passwd\<close>

record passwd_reconciliation =
  pr_contents :: string
  pr_changed :: bool
  pr_found_target :: bool

text \<open>\<open>if fields[index] != value \{ fields[index] = value; changed = true; \}\<close>\<close>

definition set_field :: "nat \<times> string \<Rightarrow> string list \<times> bool \<Rightarrow> string list \<times> bool" where
  "set_field entry state =
     (let (index, value) = entry; (columns, changed) = state
      in if columns ! index \<noteq> value then (columns[index := value], True) else state)"

type_synonym passwd_state = "bool \<times> bool \<times> string list"

definition reconcile_passwd_line ::
  "posix_identity \<Rightarrow> passwd_state \<Rightarrow> nat \<times> string \<Rightarrow> (posix_message, passwd_state) result" where
  "reconcile_passwd_line identity state numbered =
     (let (found, changed, out) = state; (line_number, line) = numbered in
      if is_skipped line then Inr (found, changed, out @ [line])
      else
        let columns = split_char colon line in
        rbind (validate_passwd_fields columns (line_number + 1)) (\<lambda>_.
        rbind (ok_or (PasswdUid (line_number + 1)) (parse_u32 (columns ! 2))) (\<lambda>entry_uid.
        rbind (fail_if (entry_uid = pi_uid identity \<and> columns ! 0 \<noteq> pi_user identity)
          (UidOccupied (pi_uid identity) (columns ! 0))) (\<lambda>_.
        if columns ! 0 = pi_user identity then
          rbind (fail_if found (DuplicateUser (pi_user identity))) (\<lambda>_.
          let (columns, changed) =
            fold set_field [(2, u32_to_string (pi_uid identity)), (3, u32_to_string (pi_gid identity)),
              (5, pi_home identity)] (columns, changed)
          in Inr (True, changed, out @ [join [colon] columns]))
        else Inr (found, changed, out @ [join [colon] columns])))))"

definition passwd_entry :: "posix_identity \<Rightarrow> string" where
  "passwd_entry identity =
     pi_user identity @ '':x:'' @ u32_to_string (pi_uid identity) @ '':'' @ u32_to_string (pi_gid identity) @
     ''::'' @ pi_home identity @ '':/bin/sh''"

definition reconcile_passwd :: "string \<Rightarrow> posix_identity \<Rightarrow> (posix_message, passwd_reconciliation) result" where
  "reconcile_passwd contents identity =
     rbind (fold_result (reconcile_passwd_line identity) (False, False, []) (enumerate 0 (lines contents)))
       (\<lambda>(found, changed, out).
       let (found, changed, out) =
         (if \<not> found then (True, True, out @ [passwd_entry identity]) else (found, changed, out))
       in Inr \<lparr>pr_contents = join [nl] out @ (if ends_with contents [nl] then [nl] else []),
               pr_changed = changed, pr_found_target = found\<rparr>)"

section \<open>Reconciling group\<close>

text \<open>The loop over the members: the list so far, whether the user was seen, and \<open>changed\<close>.\<close>

fun reconcile_members ::
  "string \<Rightarrow> string list \<Rightarrow> string list \<times> bool \<times> bool \<Rightarrow> (posix_message, string list \<times> bool \<times> bool) result" where
  "reconcile_members user [] state = Inr state"
| "reconcile_members user (member # members) (reconciled, target_seen, changed) =
     rbind (validate_user_name member) (\<lambda>_.
     if member = user then
       (if target_seen then reconcile_members user members (reconciled, target_seen, True)
        else reconcile_members user members (reconciled @ [member], True, changed))
     else reconcile_members user members (reconciled @ [member], target_seen, changed))"

definition reconcile_group_line ::
  "posix_identity \<Rightarrow> passwd_state \<Rightarrow> nat \<times> string \<Rightarrow> (posix_message, passwd_state) result" where
  "reconcile_group_line identity state numbered =
     (let (matched, changed, out) = state; (line_number, line) = numbered in
      if is_skipped line then Inr (matched, changed, out @ [line])
      else
        let columns = split_char colon line in
        rbind (validate_group_fields columns (line_number + 1)) (\<lambda>_.
        rbind (ok_or (GroupGid (line_number + 1)) (parse_u32 (columns ! 2))) (\<lambda>gid.
        if gid = pi_gid identity then
          rbind (reconcile_members (pi_user identity) (group_members (columns ! 3)) ([], False, changed))
            (\<lambda>(reconciled, target_seen, changed).
            let (reconciled, changed) =
                  (if \<not> target_seen then (reconciled @ [pi_user identity], True) else (reconciled, changed));
                (columns, changed) = set_field (3, join '','' reconciled) (columns, changed)
            in Inr (True, changed, out @ [join [colon] columns]))
        else Inr (matched, changed, out @ [join [colon] columns]))))"

definition group_entry :: "posix_identity \<Rightarrow> string" where
  "group_entry identity = pi_user identity @ '':x:'' @ u32_to_string (pi_gid identity) @ '':''"

definition reconcile_group :: "string \<Rightarrow> posix_identity \<Rightarrow> (posix_message, string \<times> bool) result" where
  "reconcile_group contents identity =
     rbind (fold_result (reconcile_group_line identity) (False, False, []) (enumerate 0 (lines contents)))
       (\<lambda>(matched, changed, out).
       let (changed, out) = (if \<not> matched then (True, out @ [group_entry identity]) else (changed, out))
       in Inr (join [nl] out @ (if ends_with contents [nl] \<or> changed then [nl] else []), changed))"

section \<open>Looking a user up\<close>

fun lookup_lines ::
  "(string list \<Rightarrow> bool) \<Rightarrow> (nat \<times> string) list \<Rightarrow> (lookup_error, posix_user option) result" where
  "lookup_lines p [] = Inr None"
| "lookup_lines p ((line_number, line) # rest) =
     (if is_skipped line then lookup_lines p rest
      else
        let columns = split_char colon line in
        rbind (fail_if (length columns \<noteq> 7) (LookupMalformed (line_number + 1))) (\<lambda>_.
        rbind (fail_if (columns ! 0 = []) (LookupEmptyName (line_number + 1))) (\<lambda>_.
        rbind (ok_or (LookupUid (line_number + 1)) (parse_u32 (columns ! 2))) (\<lambda>uid.
        rbind (ok_or (LookupGid (line_number + 1)) (parse_u32 (columns ! 3))) (\<lambda>gid.
        if p columns
        then Inr (Some \<lparr>pu_name = columns ! 0, pu_uid = uid, pu_gid = gid, pu_home = columns ! 5, pu_shell = columns ! 6\<rparr>)
        else lookup_lines p rest)))))"

text \<open>
  \<open>None\<close> is a missing file; \<open>fault\<close> is any other error of reading it.
\<close>

definition lookup_file_user ::
  "bool \<Rightarrow> string option \<Rightarrow> (string list \<Rightarrow> bool) \<Rightarrow> (lookup_error, posix_user option) result" where
  "lookup_file_user fault file p =
     (if fault then Inl LookupIo
      else case file of None \<Rightarrow> Inr None | Some contents \<Rightarrow> lookup_lines p (enumerate 0 (lines contents)))"

text \<open>
  \<open>fallback\<close> is what \<open>getpwnam\<close> or \<open>getpwuid\<close> give when the database is the system's own:
  \<open>Inr None\<close> for any other database, an error for a name with a NUL byte.
\<close>

definition lookup_user_by_name ::
  "bool \<Rightarrow> string option \<Rightarrow> (lookup_error, posix_user option) result \<Rightarrow> string \<Rightarrow> (lookup_error, posix_user option) result" where
  "lookup_user_by_name fault file fallback name =
     rbind (lookup_file_user fault file (\<lambda>columns. columns \<noteq> [] \<and> columns ! 0 = name)) (\<lambda>user.
     case user of Some u \<Rightarrow> Inr (Some u) | None \<Rightarrow> fallback)"

definition lookup_user_by_uid ::
  "bool \<Rightarrow> string option \<Rightarrow> (lookup_error, posix_user option) result \<Rightarrow> u32 \<Rightarrow> (lookup_error, posix_user option) result" where
  "lookup_user_by_uid fault file fallback uid =
     rbind (lookup_file_user fault file (\<lambda>columns. 2 < length columns \<and> parse_u32 (columns ! 2) = Some uid)) (\<lambda>user.
     case user of Some u \<Rightarrow> Inr (Some u) | None \<Rightarrow> fallback)"

section \<open>Mapping a user\<close>

record account_files =
  af_passwd :: "string option"
  af_group :: "string option"

text \<open>
  Which of the file operations fail: reading \<open>group\<close> with an error other than \<open>NotFound\<close>,
  the three possible replacements (passwd, group, rollback of passwd), and reading \<open>passwd\<close>
  again at the end to check the result. A missing \<open>passwd\<close> stands for every error of reading
  it at the start.
\<close>

record replace_faults =
  fail_group_read :: bool
  fail_passwd :: bool
  fail_group :: bool
  fail_rollback :: bool
  fail_verify_read :: bool

definition check_identity :: "posix_identity \<Rightarrow> (posix_message, unit) result" where
  "check_identity identity =
     rbind (validate_user_name (pi_user identity)) (\<lambda>_.
     rbind (validate_account_field ''home'' (pi_home identity)) (\<lambda>_.
     rbind (fail_if (\<not> is_absolute (pi_home identity)) HomeNotAbsolute) (\<lambda>_.
     rbind (fail_if (pi_uid identity = 0 \<and> pi_user identity \<noteq> ''root'') UidZeroNotRoot) (\<lambda>_.
     fail_if (pi_user identity = ''root'' \<and> pi_uid identity \<noteq> 0) RootNotZero))))"

definition verify_mapped ::
  "bool \<Rightarrow> account_files \<Rightarrow> (lookup_error, posix_user option) result \<Rightarrow> posix_identity \<Rightarrow> bool \<Rightarrow> (posix_error, action_change) result" where
  "verify_mapped fault files fallback identity changed =
     rbind (map_err PosixLookup (lookup_user_by_name fault (af_passwd files) fallback (pi_user identity))) (\<lambda>user.
     rbind (ok_or (PosixInvalid (NotReadBack (pi_user identity))) user) (\<lambda>mapped.
     if pu_uid mapped \<noteq> pi_uid identity \<or> pu_gid mapped \<noteq> pi_gid identity \<or>
        components (pu_home mapped) \<noteq> components (pi_home identity)
     then Inl (PosixInvalid (VerificationFailed (pi_user identity)))
     else Inr (if changed then MappedPasswd else AlreadyMapped)))"

definition map_user ::
  "(lookup_error, posix_user option) result \<Rightarrow> replace_faults \<Rightarrow> account_files \<Rightarrow> posix_identity \<Rightarrow>
   (posix_error, action_change) result \<times> account_files" where
  "map_user fallback faults files identity =
     (case check_identity identity of
        Inl e \<Rightarrow> (Inl (PosixInvalid e), files)
      | Inr _ \<Rightarrow>
        if pi_uid identity = 0 \<and> pi_user identity = ''root'' then (Inr RootUnchanged, files)
        else
        (case af_passwd files of
           None \<Rightarrow> (Inl PosixIo, files)
         | Some passwd \<Rightarrow>
           (case reconcile_passwd passwd identity of
              Inl e \<Rightarrow> (Inl (PosixInvalid e), files)
            | Inr r \<Rightarrow>
              if \<not> pr_found_target r then (Inl (PosixInvalid NoTargetAccount), files)
              else if fail_group_read faults then (Inl PosixIo, files)
              else
              (case reconcile_group (unwrap_or [] (af_group files)) identity of
                 Inl e \<Rightarrow> (Inl (PosixInvalid e), files)
               | Inr (group_output, group_changed) \<Rightarrow>
                 if pr_changed r \<and> fail_passwd faults then (Inl (PosixInvalid ReplacePasswdFailed), files)
                 else
                   let files1 = (if pr_changed r then files\<lparr>af_passwd := Some (pr_contents r)\<rparr> else files) in
                   if group_changed \<and> fail_group faults then
                     (if pr_changed r \<and> \<not> fail_rollback faults
                      then (Inl (PosixInvalid (ReplaceGroupFailed False)), files1\<lparr>af_passwd := Some passwd\<rparr>)
                      else (Inl (PosixInvalid (ReplaceGroupFailed (pr_changed r))), files1))
                   else
                     let files2 = (if group_changed then files1\<lparr>af_group := Some group_output\<rparr> else files1)
                     in (verify_mapped (fail_verify_read faults) files2 fallback identity (pr_changed r), files2)))))"

section \<open>Login shells\<close>

definition set_shell_line ::
  "string \<Rightarrow> string \<Rightarrow> passwd_state \<Rightarrow> string \<Rightarrow> (posix_message, passwd_state) result" where
  "set_shell_line user shell state line =
     (let (found, changed, out) = state in
      if is_skipped line then Inr (found, changed, out @ [line])
      else
        let columns = split_char colon line in
        if columns \<noteq> [] \<and> columns ! 0 = user then
          rbind (fail_if (length columns < 7) FewerThanSeven) (\<lambda>_.
          let (columns, changed) = set_field (6, shell) (columns, changed)
          in Inr (True, changed, out @ [join [colon] columns]))
        else Inr (found, changed, out @ [line]))"

definition set_user_shell ::
  "bool \<Rightarrow> account_files \<Rightarrow> string \<Rightarrow> string \<Rightarrow> (posix_error, action_change) result \<times> account_files" where
  "set_user_shell replace_fails files user shell =
     (case validate_user_name user of
        Inl e \<Rightarrow> (Inl (PosixInvalid e), files)
      | Inr _ \<Rightarrow>
        if user = ''root'' then (Inr RootShellUnchanged, files)
        else
        (case rbind (validate_account_field ''shell'' shell) (\<lambda>_.
                fail_if (\<not> is_absolute shell) ShellNotAbsolute) of
           Inl e \<Rightarrow> (Inl (PosixInvalid e), files)
         | Inr _ \<Rightarrow>
           (case af_passwd files of
              None \<Rightarrow> (Inl PosixIo, files)
            | Some contents \<Rightarrow>
              (case fold_result (set_shell_line user shell) (False, False, []) (lines contents) of
                 Inl e \<Rightarrow> (Inl (PosixInvalid e), files)
               | Inr (found, changed, out) \<Rightarrow>
                 if \<not> found then (Inl (PosixInvalid (NoSuchUser user)), files)
                 else if changed then
                   (if replace_fails then (Inl PosixIo, files)
                    else (Inr UpdatedShell, files\<lparr>af_passwd :=
                      Some (join [nl] out @ (if ends_with contents [nl] then [nl] else []))\<rparr>))
                 else (Inr ShellAlreadySet, files)))))"

section \<open>Dropping privileges\<close>

record credentials =
  cr_euid :: u32
  cr_egid :: u32
  cr_groups :: "u32 list"

text \<open>
  The kernel: each call gives the new credentials or fails. \<open>supplementary\<close> is \<open>getgroups\<close>.
\<close>

record credential_calls =
  sys_initgroups :: "credentials \<Rightarrow> string \<Rightarrow> u32 \<Rightarrow> credentials option"
  sys_setgroups :: "credentials \<Rightarrow> u32 list \<Rightarrow> credentials option"
  sys_setgid :: "credentials \<Rightarrow> u32 \<Rightarrow> credentials option"
  sys_setuid :: "credentials \<Rightarrow> u32 \<Rightarrow> credentials option"
  sys_getgroups :: "credentials \<Rightarrow> u32 list option"

definition supplementary_groups_contain :: "credential_calls \<Rightarrow> credentials \<Rightarrow> u32 \<Rightarrow> (posix_error, bool) result" where
  "supplementary_groups_contain sys creds gid =
     rbind (ok_or PosixIo (sys_getgroups sys creds)) (\<lambda>groups. Inr (gid \<in> set groups))"

definition change_credentials ::
  "credential_calls \<Rightarrow> (lookup_error, posix_user option) result \<Rightarrow> credentials \<Rightarrow> posix_identity \<Rightarrow>
   (posix_error, action_change) result \<times> credentials" where
  "change_credentials sys lookup creds identity =
     (if has_char (pi_user identity) (CHR 0x00) then (Inl (PosixInvalid UserNameNul), creds)
      else
      (case lookup of
         Inl e \<Rightarrow> (Inl (PosixLookup e), creds)
       | Inr user \<Rightarrow>
         (case (if user \<noteq> None then sys_initgroups sys creds (pi_user identity) (pi_gid identity)
                else sys_setgroups sys creds [pi_gid identity]) of
            None \<Rightarrow> (Inl PosixIo, creds)
          | Some creds1 \<Rightarrow>
            (case sys_setgid sys creds1 (pi_gid identity) of
               None \<Rightarrow> (Inl PosixIo, creds1)
             | Some creds2 \<Rightarrow>
               (case sys_setuid sys creds2 (pi_uid identity) of
                  None \<Rightarrow> (Inl PosixIo, creds2)
                | Some creds3 \<Rightarrow>
                  if cr_euid creds3 \<noteq> pi_uid identity \<or> cr_egid creds3 \<noteq> pi_gid identity
                  then (Inl PosixPermission, creds3)
                  else
                  (case supplementary_groups_contain sys creds3 (pi_gid identity) of
                     Inl e \<Rightarrow> (Inl e, creds3)
                   | Inr False \<Rightarrow> (Inl PosixPermission, creds3)
                   | Inr True \<Rightarrow> (Inr DroppedPrivileges, creds3)))))))"

definition drop_privileges ::
  "credential_calls \<Rightarrow> (lookup_error, posix_user option) result \<Rightarrow> credentials \<Rightarrow> posix_identity \<Rightarrow>
   (posix_error, action_change) result \<times> credentials" where
  "drop_privileges sys lookup creds identity =
     (case (if cr_euid creds = pi_uid identity \<and> cr_egid creds = pi_gid identity
            then supplementary_groups_contain sys creds (pi_gid identity) else Inr False) of
        Inl e \<Rightarrow> (Inl e, creds)
      | Inr True \<Rightarrow> (Inr AlreadyTarget, creds)
      | Inr False \<Rightarrow>
          if cr_euid creds \<noteq> 0 then (Inl PosixPermission, creds)
          else change_credentials sys lookup creds identity)"

end
