(* ===== verification/Posix_Reconcile.thy ===== *)
theory Posix_Reconcile
  imports Posix_Accounts
begin

text \<open>
  What reconciling the account files does, and what dropping privileges guarantees: the effect
  of one run on the lines of \<open>passwd\<close>, idempotence, reading the account back, failure
  atomicity of \<open>map_user\<close>, and the credentials after \<open>drop_privileges\<close>.
\<close>

section \<open>Lines\<close>

text \<open>A text as its lines and whether it ends with a line feed; no carriage returns.\<close>

definition text_of_lines :: "string list \<Rightarrow> bool \<Rightarrow> string" where
  "text_of_lines ls final = join [nl] ls @ (if final then [nl] else [])"

definition proper_lines :: "string list \<Rightarrow> bool \<Rightarrow> bool" where
  "proper_lines ls final \<longleftrightarrow>
     (\<forall>l \<in> set ls. nl \<notin> set l \<and> cr \<notin> set l) \<and> (if final then ls \<noteq> [] else ls = [] \<or> last ls \<noteq> [])"

lemma strip_cr_id: "cr \<notin> set s \<Longrightarrow> strip_cr s = s"
  by (auto simp: strip_cr_def dest: last_in_set)

lemma lines_of_parts_id:
  "\<forall>p \<in> set ps. cr \<notin> set p \<Longrightarrow> ps \<noteq> [] \<Longrightarrow>
     lines_of_parts ps = butlast ps @ (if last ps = [] then [] else [last ps])"
  by (induction ps rule: lines_of_parts.induct) (auto simp: strip_cr_id)

lemma lines_text_of_lines:
  assumes "proper_lines ls final"
  shows "lines (text_of_lines ls final) = ls"
proof (cases "ls = []")
  case True
  with assms show ?thesis by (auto simp: proper_lines_def text_of_lines_def lines_def split: if_splits)
next
  case False
  have sep: "\<forall>l \<in> set ls. nl \<notin> set l" and crs: "\<forall>l \<in> set ls. cr \<notin> set l" using assms by (auto simp: proper_lines_def)
  show ?thesis
  proof (cases final)
    case True
    have "text_of_lines ls final = join [nl] (ls @ [[]])"
      using False True by (induction ls rule: induct_list012) (auto simp: text_of_lines_def)
    then have "split_char nl (text_of_lines ls final) = ls @ [[]]"
      using sep by (simp add: split_char_join)
    then show ?thesis using crs by (simp add: lines_def lines_of_parts_id)
  next
    case no_final: False
    then have "split_char nl (text_of_lines ls final) = ls"
      using sep False by (simp add: text_of_lines_def split_char_join)
    moreover have "last ls \<noteq> []" using assms no_final False by (simp add: proper_lines_def)
    ultimately show ?thesis using crs False by (simp add: lines_def lines_of_parts_id)
  qed
qed

lemma lines_proper:
  assumes "cr \<notin> set s"
  shows "proper_lines (lines s) (suffix [nl] s)" "s = text_of_lines (lines s) (suffix [nl] s)"
proof -
  let ?ps = "split_char nl s"
  have parts: "\<forall>p \<in> set ?ps. nl \<notin> set p \<and> cr \<notin> set p"
    using assms split_char_no_sep [of _ nl s] split_char_subset [of _ nl s] by blast
  have s: "s = join [nl] ?ps" by simp
  have snoc: "join [nl] (ps @ [p]) = (if ps = [] then p else join [nl] ps @ [nl] @ p)" for ps p
    by (induction ps rule: induct_list012) auto
  obtain ps p where ps: "?ps = ps @ [p]" by (cases ?ps rule: rev_cases) auto
  have lines: "lines s = ps @ (if p = [] then [] else [p])"
    using parts ps by (simp add: lines_def lines_of_parts_id)
  have "p \<noteq> [] \<Longrightarrow> \<not> suffix [nl] s"
    using s ps parts by (cases p rule: rev_cases) (auto simp: snoc suffix_def split: if_splits)
  moreover have "p = [] \<Longrightarrow> ps \<noteq> [] \<Longrightarrow> suffix [nl] s"
    using s ps by (auto simp: snoc suffix_def)
  moreover have "p = [] \<Longrightarrow> ps = [] \<Longrightarrow> s = []" using s ps by simp
  ultimately show "proper_lines (lines s) (suffix [nl] s)" "s = text_of_lines (lines s) (suffix [nl] s)"
    using lines parts ps s
    by (auto simp: proper_lines_def text_of_lines_def snoc split: if_splits)
qed

section \<open>What reconciliation does to a line\<close>

definition target_columns :: "posix_identity \<Rightarrow> string list \<Rightarrow> string list" where
  "target_columns identity cs =
     cs[2 := u32_to_string (pi_uid identity), 3 := u32_to_string (pi_gid identity), 5 := pi_home identity]"

definition is_target :: "posix_identity \<Rightarrow> string \<Rightarrow> bool" where
  "is_target identity line \<longleftrightarrow> \<not> is_skipped line \<and> split_char colon line ! 0 = pi_user identity"

definition passwd_line :: "posix_identity \<Rightarrow> string \<Rightarrow> string" where
  "passwd_line identity line =
     (if is_target identity line then join [colon] (target_columns identity (split_char colon line)) else line)"

text \<open>The lines reconciliation accepts.\<close>

definition columns_ok :: "string list \<Rightarrow> bool" where
  "columns_ok cs \<longleftrightarrow> validate_passwd_fields cs 0 = Inr ()"

definition line_ok :: "posix_identity \<Rightarrow> string \<Rightarrow> bool" where
  "line_ok identity line \<longleftrightarrow>
     is_skipped line \<or>
     (columns_ok (split_char colon line) \<and>
      (split_char colon line ! 0 \<noteq> pi_user identity \<longrightarrow> parse_u32 (split_char colon line ! 2) \<noteq> Some (pi_uid identity)))"

lemma columns_ok_iff:
  "validate_passwd_fields cs n = Inr u \<longleftrightarrow> columns_ok cs"
  by (auto simp: columns_ok_def validate_passwd_fields_def rbind_Inr_iff fail_if_Inr_iff ok_or_Inr_iff)

lemma columns_okD:
  "columns_ok cs \<Longrightarrow> length cs = 7 \<and> validate_user_name (cs ! 0) = Inr () \<and>
     parse_u32 (cs ! 2) \<noteq> None \<and> parse_u32 (cs ! 3) \<noteq> None \<and>
     validate_account_field ''home'' (cs ! 5) = Inr () \<and> validate_account_field ''shell'' (cs ! 6) = Inr ()"
  by (auto simp: columns_ok_def validate_passwd_fields_def rbind_Inr_iff fail_if_Inr_iff ok_or_Inr_iff)

lemma seven_columns:
  assumes "length cs = 7"
  obtains a b c d e f g where "cs = [a, b, c, d, e, f, g]"
  using assms by (auto simp: numeral_eq_Suc length_Suc_conv)

lemma target_columns_explicit:
  "target_columns identity [a, b, c, d, e, f, g] =
     [a, b, u32_to_string (pi_uid identity), u32_to_string (pi_gid identity), e, pi_home identity, g]"
  by (simp add: target_columns_def numeral_eq_Suc)

lemma set_fields_target:
  assumes "length cs = 7"
  shows "fold set_field [(2, u32_to_string (pi_uid identity)), (3, u32_to_string (pi_gid identity)), (5, pi_home identity)]
      (cs, changed) = (target_columns identity cs, changed \<or> target_columns identity cs \<noteq> cs)"
proof -
  obtain a b c d e f g where "cs = [a, b, c, d, e, f, g]" using assms by (rule seven_columns)
  then show ?thesis
    by (auto simp: set_field_def target_columns_explicit numeral_eq_Suc)
qed

lemma target_columns_no_colon:
  assumes "colon \<notin> set (pi_home identity)" "\<forall>c \<in> set cs. colon \<notin> set c" "c \<in> set (target_columns identity cs)"
  shows "colon \<notin> set c"
proof -
  have digits: "colon \<notin> set (u32_to_string w)" for w
    using to_decimal_digits [of "unat w"] by (auto simp: is_ascii_digit_def)
  from assms(3) have "c \<in> {u32_to_string (pi_uid identity), u32_to_string (pi_gid identity), pi_home identity} \<union> set cs"
    unfolding target_columns_def
    by (auto dest!: set_update_subset_insert [THEN subsetD])
  with assms(1,2) digits show ?thesis by auto
qed

lemma split_target_line:
  assumes "colon \<notin> set (pi_home identity)" "length (split_char colon line) = 7"
  shows "split_char colon (join [colon] (target_columns identity (split_char colon line)))
    = target_columns identity (split_char colon line)"
proof (rule split_char_join)
  show "target_columns identity (split_char colon line) \<noteq> []"
    by (simp add: target_columns_def)
  show "\<forall>c \<in> set (target_columns identity (split_char colon line)). colon \<notin> set c"
    using target_columns_no_colon [OF assms(1)] split_char_no_sep by blast
qed

lemma passwd_line_unchanged:
  assumes "colon \<notin> set (pi_home identity)" "is_target identity line" "length (split_char colon line) = 7"
  shows "passwd_line identity line = line \<longleftrightarrow>
     target_columns identity (split_char colon line) = split_char colon line"
  using split_target_line [OF assms(1,3)] assms(2) by (auto simp: passwd_line_def)

lemma reconcile_line_Inr:
  assumes "colon \<notin> set (pi_home identity)"
  shows "reconcile_passwd_line identity (found, changed, out) (n, line) = Inr state \<longleftrightarrow>
     line_ok identity line \<and> \<not> (found \<and> is_target identity line) \<and>
     state = (found \<or> is_target identity line, changed \<or> passwd_line identity line \<noteq> line,
       out @ [passwd_line identity line])"
proof (cases "is_skipped line")
  case True
  then show ?thesis by (auto simp: reconcile_passwd_line_def line_ok_def is_target_def passwd_line_def)
next
  case False
  let ?cs = "split_char colon line"
  show ?thesis
  proof (cases "columns_ok ?cs")
    case ok: True
    then obtain uid where uid: "parse_u32 (?cs ! 2) = Some uid" and len: "length ?cs = 7"
      using columns_okD by blast
    have valid: "validate_passwd_fields ?cs (Suc n) = Inr ()" using ok by (simp add: columns_ok_iff)
    show ?thesis
    proof (cases "?cs ! 0 = pi_user identity")
      case True
      with False have target: "is_target identity line" by (simp add: is_target_def)
      show ?thesis
        using False True uid valid ok passwd_line_unchanged [OF assms target len] set_fields_target [OF len, of identity changed] target
        by (auto simp: reconcile_passwd_line_def rbind_Inr_iff fail_if_def line_ok_def passwd_line_def Let_def)
    next
      case other: False
      with False uid valid ok show ?thesis
        by (auto simp: reconcile_passwd_line_def fail_if_def line_ok_def is_target_def passwd_line_def)
    qed
  next
    case bad: False
    then have "validate_passwd_fields ?cs (Suc n) \<noteq> Inr u" for u by (simp add: columns_ok_iff)
    with False bad show ?thesis by (auto simp: reconcile_passwd_line_def rbind_Inr_iff line_ok_def Let_def)
  qed
qed

lemma reconcile_fold:
  assumes "colon \<notin> set (pi_home identity)"
  shows "fold_result (reconcile_passwd_line identity) (found, changed, out) (enumerate k ls) = Inr state \<longleftrightarrow>
     list_all (line_ok identity) ls \<and>
     length (filter (is_target identity) ls) + (if found then 1 else 0) \<le> 1 \<and>
     state = (found \<or> list_ex (is_target identity) ls, changed \<or> map (passwd_line identity) ls \<noteq> ls,
       out @ map (passwd_line identity) ls)"
proof (induction ls arbitrary: found changed out k)
  case Nil
  then show ?case by auto
next
  case (Cons l ls)
  have none: "filter (is_target identity) ls = [] \<longleftrightarrow> \<not> list_ex (is_target identity) ls"
    by (auto simp: filter_empty_conv list_ex_iff)
  show ?case
    by (auto simp: rbind_Inr_iff reconcile_line_Inr [OF assms] Cons.IH none split: if_splits)
qed


lemma reconcile_passwd_Inr:
  assumes "colon \<notin> set (pi_home identity)"
  shows "reconcile_passwd contents identity = Inr r \<longleftrightarrow>
    list_all (line_ok identity) (lines contents) \<and>
    length (filter (is_target identity) (lines contents)) \<le> 1 \<and>
    r = \<lparr>pr_contents = text_of_lines (map (passwd_line identity) (lines contents) @
            (if list_ex (is_target identity) (lines contents) then [] else [passwd_entry identity]))
            (suffix [nl] contents),
         pr_changed = (map (passwd_line identity) (lines contents) \<noteq> lines contents \<or>
            \<not> list_ex (is_target identity) (lines contents)),
         pr_found_target = True\<rparr>"
  by (auto simp: reconcile_passwd_def rbind_Inr_iff reconcile_fold [OF assms] text_of_lines_def Let_def)

section \<open>The reconciled file\<close>

lemma strip_pats_chars:
  "c \<in> set s \<Longrightarrow> c \<in> set (strip_pats ps s) \<or> (\<exists>p \<in> set ps. c \<in> set p)"
proof (induction ps s rule: strip_pats.induct)
  case (1 ps s)
  show ?case
  proof (cases "s = [] \<or> pat_len ps s = 0")
    case True
    with 1(2) show ?thesis by (auto simp: strip_pats.simps [of ps s])
  next
    case False
    then have "pat_len ps s \<noteq> 0" by simp
    then obtain p where p: "p \<in> set ps" "prefix p s" "pat_len ps s = length p" by (rule pat_len_prefix)
    then have "s = p @ drop (pat_len ps s) s" by (auto simp: prefix_def)
    with 1(2) have "c \<in> set p \<or> c \<in> set (drop (pat_len ps s) s)" by (metis Un_iff set_append)
    with p 1(1) False show ?thesis by (auto simp: strip_pats.simps [of ps s])
  qed
qed

lemma ws_pattern_chars:
  "list_all (list_all (\<lambda>c. List.member ws_ascii c \<or> \<not> (of_char c :: nat) < 128)) ws_patterns"
  by code_simp

lemma trim_keeps:
  assumes "c \<in> set s" "c \<notin> set ws_ascii" "(of_char c :: nat) < 128"
  shows "c \<in> set (trim s)"
proof -
  have plain: "\<not> (\<exists>p \<in> set ws_patterns. c \<in> set p)"
    using ws_pattern_chars assms(2,3) unfolding list_all_iff by auto
  have "c \<in> set (trim_start s)"
    using strip_pats_chars [OF assms(1), of ws_patterns] plain by (simp add: trim_start_def)
  then show ?thesis
    using strip_pats_chars [of c "rev (trim_start s)" "map rev ws_patterns"] plain
    by (simp add: trim_def trim_end_def)
qed

text \<open>What \<open>check_identity\<close> gives.\<close>

definition identity_ok :: "posix_identity \<Rightarrow> bool" where
  "identity_ok identity \<longleftrightarrow>
     validate_user_name (pi_user identity) = Inr () \<and>
     validate_account_field ''home'' (pi_home identity) = Inr ()"

lemma account_field_Inr:
  "validate_account_field f v = Inr u \<longleftrightarrow> set v \<inter> {colon, CHR 0x00, nl, cr} = {}"
  by (auto simp: validate_account_field_def fail_if_Inr_iff list_ex_iff)

lemma user_name_Inr:
  "validate_user_name v = Inr u \<longleftrightarrow> v \<noteq> [] \<and> length v \<le> 32 \<and>
     list_all (\<lambda>c. is_ascii_alphanumeric c \<or> c \<in> {CHR ''_'', CHR ''-''}) v"
  by (auto simp: validate_user_name_def fail_if_Inr_iff)

lemma user_char:
  assumes "validate_user_name v = Inr u" "c \<in> set v"
  shows "c \<notin> set ws_ascii" "(of_char c :: nat) < 128" "c \<notin> {colon, nl, cr, CHR ''#'', CHR '','', CHR 0x00}"
proof -
  from assms have "is_ascii_alphanumeric c \<or> c \<in> {CHR ''_'', CHR ''-''}"
    by (auto simp: user_name_Inr list_all_iff)
  then show "c \<notin> set ws_ascii" "(of_char c :: nat) < 128" "c \<notin> {colon, nl, cr, CHR ''#'', CHR '','', CHR 0x00}"
    by (auto simp: ws_ascii_def is_ascii_alphanumeric_def is_ascii_digit_def is_ascii_uppercase_def
        is_ascii_lowercase_def)
qed

lemma digit_string_chars: "set (u32_to_string w) \<inter> {colon, nl, cr} = {}"
  using to_decimal_digits [of "unat w"] by (auto simp: is_ascii_digit_def)

text \<open>A line of columns that starts with a user name is never skipped.\<close>

lemma entry_not_skipped:
  assumes "validate_user_name (cs ! 0) = Inr u" "cs \<noteq> []"
  shows "\<not> is_skipped (join [colon] cs)"
proof -
  obtain a as where cs: "cs = a # as" using assms(2) by (cases cs) auto
  with assms(1) obtain x xs where a: "a = x # xs" by (cases a) (auto simp: user_name_Inr)
  have x: "x \<notin> set ws_ascii" "(of_char x :: nat) < 128" "x \<noteq> CHR ''#''"
    using user_char [OF assms(1), of x] cs a by auto
  obtain rest where line: "join [colon] cs = x # rest" by (cases as) (auto simp: cs a)
  from trim_keeps [of x "join [colon] cs"] x(1,2) have "trim (join [colon] cs) \<noteq> []" by (auto simp: line)
  moreover have "\<not> prefix ''#'' (join [colon] cs)" using x(3) by (simp add: line)
  ultimately show ?thesis by (simp add: is_skipped_def)
qed

text \<open>A line that reconciliation leaves alone and accepts.\<close>

definition settled :: "posix_identity \<Rightarrow> string \<Rightarrow> bool" where
  "settled identity line \<longleftrightarrow>
     line_ok identity line \<and> passwd_line identity line = line \<and> nl \<notin> set line \<and> cr \<notin> set line"

lemma target_settled:
  assumes "identity_ok identity" "length cs = 7" "columns_ok cs" "cs ! 0 = pi_user identity"
    and "\<forall>c \<in> set cs. set c \<inter> {colon, nl, cr} = {}" "target_columns identity cs = cs"
  shows "settled identity (join [colon] cs) \<and> is_target identity (join [colon] cs)"
proof -
  have user: "validate_user_name (cs ! 0) = Inr ()" using assms(1,4) by (simp add: identity_ok_def)
  have split: "split_char colon (join [colon] cs) = cs"
    using assms(2,5) by (intro split_char_join) auto
  have target: "is_target identity (join [colon] cs)"
    using entry_not_skipped [OF user] split assms(2,4) by (fastforce simp: is_target_def)
  have "set (join [colon] cs) \<subseteq> \<Union> (set ` set cs) \<union> {colon}"
    by (induction cs rule: induct_list012) auto
  then have "nl \<notin> set (join [colon] cs)" "cr \<notin> set (join [colon] cs)" using assms(5) by fastforce+
  with target split assms(3,4,6) show ?thesis by (simp add: settled_def line_ok_def passwd_line_def)
qed

lemma settled_passwd_line:
  assumes "identity_ok identity" "line_ok identity line" "nl \<notin> set line" "cr \<notin> set line"
  shows "settled identity (passwd_line identity line) \<and>
    (is_target identity (passwd_line identity line) \<longleftrightarrow> is_target identity line)"
proof (cases "is_target identity line")
  case False
  with assms show ?thesis by (simp add: settled_def passwd_line_def)
next
  case True
  let ?cs = "split_char colon line" and ?ts = "target_columns identity (split_char colon line)"
  from True assms(2) have ok: "columns_ok ?cs" by (simp add: line_ok_def is_target_def)
  then have len: "length ?cs = 7" using columns_okD by blast
  then obtain a b c d e f g where cs: "?cs = [a, b, c, d, e, f, g]" by (rule seven_columns)
  have ts: "?ts = [a, b, u32_to_string (pi_uid identity), u32_to_string (pi_gid identity), e, pi_home identity, g]"
    by (simp add: cs target_columns_explicit)
  have home: "set (pi_home identity) \<inter> {colon, nl, cr} = {}" using assms(1) by (auto simp: identity_ok_def account_field_Inr)
  have old: "set x \<inter> {colon, nl, cr} = {}" if "x \<in> set ?cs" for x
    using split_char_no_sep [OF that] split_char_subset [OF that] assms(3,4) by blast
  have "set x \<inter> {colon, nl, cr} = {}" if "x \<in> {a, b, e, g}" for x
    by (rule old) (use that in \<open>auto simp: cs\<close>)
  then have chars: "\<forall>x \<in> set ?ts. set x \<inter> {colon, nl, cr} = {}"
    unfolding ts using home digit_string_chars by (simp only: set_simps ball_simps) blast
  have "columns_ok ?ts"
    using columns_okD [OF ok] assms(1) unfolding ts cs
    by (simp add: columns_ok_def validate_passwd_fields_def identity_ok_def fail_if_def
        target_columns_explicit)
  moreover have "?ts ! 0 = pi_user identity" using True by (simp add: is_target_def target_columns_def)
  ultimately have "settled identity (join [colon] ?ts) \<and> is_target identity (join [colon] ?ts)"
    using assms(1) chars by (intro target_settled) (simp_all add: ts target_columns_explicit)
  with True show ?thesis by (simp add: passwd_line_def)
qed

lemma settled_entry:
  assumes "identity_ok identity"
  shows "settled identity (passwd_entry identity) \<and> is_target identity (passwd_entry identity)"
proof -
  let ?cs = "[pi_user identity, ''x'', u32_to_string (pi_uid identity), u32_to_string (pi_gid identity), [],
      pi_home identity, ''/bin/sh'']"
  have entry: "passwd_entry identity = join [colon] ?cs" by (simp add: passwd_entry_def)
  have home: "set (pi_home identity) \<inter> {colon, nl, cr} = {}" using assms by (auto simp: identity_ok_def account_field_Inr)
  have user: "set (pi_user identity) \<inter> {colon, nl, cr} = {}"
    using assms user_char by (fastforce simp: identity_ok_def)
  have "validate_account_field ''shell'' ''/bin/sh'' = Inr ()" by code_simp
  with assms have "columns_ok ?cs"
    by (simp add: columns_ok_def validate_passwd_fields_def identity_ok_def fail_if_def)
  moreover have "\<forall>x \<in> set ?cs. set x \<inter> {colon, nl, cr} = {}"
    using home user digit_string_chars by (simp only: set_simps ball_simps) auto
  ultimately show ?thesis
    using assms unfolding entry by (intro target_settled) (simp_all add: target_columns_explicit)
qed


lemma suffix_text_of_lines:
  assumes "proper_lines ls final" "ls \<noteq> []"
  shows "suffix [nl] (text_of_lines ls final) \<longleftrightarrow> final"
proof (cases final)
  case True
  then show ?thesis by (simp add: text_of_lines_def suffix_def)
next
  case False
  obtain ks l where ls: "ls = ks @ [l]" using assms(2) by (cases ls rule: rev_cases) auto
  with assms False have l: "l \<noteq> []" "nl \<notin> set l" by (auto simp: proper_lines_def)
  have "\<exists>u. join [nl] (ks @ [l]) = u @ l" by (induction ks rule: induct_list012) (auto simp: append_assoc [symmetric] simp del: append_assoc)
  then obtain u where u: "join [nl] ls = u @ l" using ls by blast
  obtain l' c where "l = l' @ [c]" "c \<noteq> nl" using l by (cases l rule: rev_cases) auto
  with u False show ?thesis by (auto simp: text_of_lines_def suffix_def)
qed

text \<open>The lines of the reconciled file.\<close>

definition passwd_result :: "posix_identity \<Rightarrow> string list \<Rightarrow> string list" where
  "passwd_result identity ls =
     map (passwd_line identity) ls @ (if list_ex (is_target identity) ls then [] else [passwd_entry identity])"

lemma passwd_line_not_empty:
  assumes "line_ok identity line" "line \<noteq> []"
  shows "passwd_line identity line \<noteq> []"
proof (cases "is_target identity line")
  case True
  with assms(1) have "length (split_char colon line) = 7"
    by (auto simp: line_ok_def is_target_def dest: columns_okD)
  then obtain a b c d e f g where "split_char colon line = [a, b, c, d, e, f, g]" by (rule seven_columns)
  with True show ?thesis by (simp add: passwd_line_def target_columns_explicit)
qed (simp add: passwd_line_def assms(2))

lemma filter_length_map:
  "(\<And>x. x \<in> set xs \<Longrightarrow> P (f x) = P x) \<Longrightarrow> length (filter P (map f xs)) = length (filter P xs)"
  by (induction xs) auto

lemma reconciled_lines:
  assumes "identity_ok identity" "reconcile_passwd contents identity = Inr r" "cr \<notin> set contents"
  shows "lines (pr_contents r) = passwd_result identity (lines contents)"
    and "list_all (settled identity) (passwd_result identity (lines contents))"
    and "length (filter (is_target identity) (passwd_result identity (lines contents))) = 1"
    and "cr \<notin> set (pr_contents r)"
proof -
  let ?ls = "lines contents" and ?out = "passwd_result identity (lines contents)"
  have home: "colon \<notin> set (pi_home identity)" using assms(1) by (auto simp: identity_ok_def account_field_Inr)
  note r = assms(2) [unfolded reconcile_passwd_Inr [OF home]]
  note proper = lines_proper(1) [OF assms(3)]
  have chars: "nl \<notin> set l" "cr \<notin> set l" if "l \<in> set ?ls" for l using proper that by (auto simp: proper_lines_def)
  have each: "settled identity (passwd_line identity l) \<and> (is_target identity (passwd_line identity l) \<longleftrightarrow> is_target identity l)"
    if "l \<in> set ?ls" for l
    using settled_passwd_line [OF assms(1) _ chars [OF that]] r that by (auto simp: list_all_iff)
  note entry = settled_entry [OF assms(1)]
  show settled: "list_all (settled identity) ?out"
    using each entry by (auto simp: passwd_result_def list_all_iff)
  have "length (filter (is_target identity) (map (passwd_line identity) ?ls)) = length (filter (is_target identity) ?ls)"
    using each by (intro filter_length_map) blast
  moreover have "length (filter (is_target identity) ?ls) = (if list_ex (is_target identity) ?ls then 1 else 0)"
    using r by (auto simp: filter_empty_conv list_ex_iff le_Suc_eq)
  ultimately show "length (filter (is_target identity) ?out) = 1"
    using entry by (auto simp: passwd_result_def)
  have last: "last ?out \<noteq> []" if "\<not> suffix [nl] contents"
  proof (cases "list_ex (is_target identity) ?ls")
    case False
    then show ?thesis by (simp add: passwd_result_def passwd_entry_def)
  next
    case True
    then have "?ls \<noteq> []" by auto
    with proper that have "last ?ls \<noteq> []" by (auto simp: proper_lines_def)
    moreover have "line_ok identity (last ?ls)" using r \<open>?ls \<noteq> []\<close> by (auto simp: list_all_iff)
    ultimately have "passwd_line identity (last ?ls) \<noteq> []" by (simp add: passwd_line_not_empty)
    then show ?thesis using True \<open>?ls \<noteq> []\<close> by (simp add: passwd_result_def last_map)
  qed
  have "?out \<noteq> []" by (cases ?ls) (auto simp: passwd_result_def)
  with settled last have "proper_lines ?out (suffix [nl] contents)"
    by (auto simp: proper_lines_def list_all_iff settled_def)
  moreover have content: "pr_contents r = text_of_lines ?out (suffix [nl] contents)" using r by (simp add: passwd_result_def)
  ultimately show "lines (pr_contents r) = ?out" by (simp add: lines_text_of_lines)
  have "set (join [nl] ls) \<subseteq> \<Union> (set ` set ls) \<union> {nl}" for ls
    by (induction ls rule: induct_list012) auto
  from this [of ?out] settled show "cr \<notin> set (pr_contents r)"
    unfolding content text_of_lines_def by (auto simp: list_all_iff settled_def)
qed


lemma lookup_settled:
  assumes "list_all (settled identity) ls" "list_ex (is_target identity) ls" and home: "colon \<notin> set (pi_home identity)"
  shows "\<exists>u. lookup_lines (\<lambda>cs. cs \<noteq> [] \<and> cs ! 0 = pi_user identity) (enumerate k ls) = Inr (Some u) \<and>
    pu_name u = pi_user identity \<and> pu_uid u = pi_uid identity \<and> pu_gid u = pi_gid identity \<and> pu_home u = pi_home identity"
  using assms(1,2)
proof (induction ls arbitrary: k)
  case (Cons l ls)
  show ?case
  proof (cases "is_skipped l")
    case True
    with Cons show ?thesis by (simp add: is_target_def)
  next
    case False
    let ?cs = "split_char colon l"
    from Cons.prems False have ok: "columns_ok ?cs" by (simp add: settled_def line_ok_def)
    then obtain a b c d e f g where cs: "?cs = [a, b, c, d, e, f, g]" using columns_okD seven_columns by blast
    have "a \<noteq> []" "parse_u32 c \<noteq> None" "parse_u32 d \<noteq> None"
      using columns_okD [OF ok] by (auto simp: cs user_name_Inr)
    then obtain x y where nums: "a \<noteq> []" "parse_u32 c = Some x" "parse_u32 d = Some y" by blast
    show ?thesis
    proof (cases "is_target identity l")
      case True
      then have a: "a = pi_user identity" by (simp add: is_target_def cs)
      have "length ?cs = 7" by (simp add: cs)
      with Cons.prems(1) have "target_columns identity ?cs = ?cs"
        using passwd_line_unchanged [OF home True] by (simp add: settled_def)
      then have "c = u32_to_string (pi_uid identity)" "d = u32_to_string (pi_gid identity)" "f = pi_home identity"
        by (auto simp: cs target_columns_explicit)
      with False cs nums a show ?thesis by (simp add: fail_if_def)
    next
      case other: False
      with False cs nums Cons show ?thesis by (simp add: fail_if_def is_target_def)
    qed
  qed
qed simp


lemma lookup_after_reconcile:
  assumes "identity_ok identity" "reconcile_passwd contents identity = Inr r" "cr \<notin> set contents"
  shows "\<exists>u. lookup_user_by_name False (Some (pr_contents r)) fallback (pi_user identity) = Inr (Some u) \<and>
    pu_name u = pi_user identity \<and> pu_uid u = pi_uid identity \<and> pu_gid u = pi_gid identity \<and> pu_home u = pi_home identity"
proof -
  note out = reconciled_lines [OF assms]
  have "list_ex (is_target identity) (passwd_result identity (lines contents))"
    using out(3) by (metis (no_types, lifting) filter_False length_0_conv list_ex_iff zero_neq_one)
  moreover have "colon \<notin> set (pi_home identity)" using assms(1) by (auto simp: identity_ok_def account_field_Inr)
  ultimately show ?thesis
    using lookup_settled [OF out(2), of 0] out(1)
    by (auto simp: lookup_user_by_name_def lookup_file_user_def)
qed

lemma verify_mapped_unread [simp]: "verify_mapped True files fallback identity changed = Inl (PosixLookup LookupIo)"
  by (simp add: verify_mapped_def lookup_user_by_name_def lookup_file_user_def)

lemma unchanged_reconcile:
  assumes "identity_ok identity" "reconcile_passwd contents identity = Inr r" "cr \<notin> set contents" "\<not> pr_changed r"
  shows "pr_contents r = contents"
proof -
  have home: "colon \<notin> set (pi_home identity)" using assms(1) by (auto simp: identity_ok_def account_field_Inr)
  note r = assms(2) [unfolded reconcile_passwd_Inr [OF home]]
  with assms(4) have same: "map (passwd_line identity) (lines contents) = lines contents"
    "list_ex (is_target identity) (lines contents)" by auto
  with r lines_proper(2) [OF assms(3)] show ?thesis by simp
qed

lemma check_identity_ok: "check_identity identity = Inr u \<Longrightarrow> identity_ok identity"
  by (auto simp: check_identity_def rbind_Inr_iff identity_ok_def)

lemma verify_mapped_ok:
  assumes "identity_ok identity" "reconcile_passwd contents identity = Inr r" "cr \<notin> set contents"
    and "af_passwd files = Some (if pr_changed r then pr_contents r else contents)"
  shows "verify_mapped False files fallback identity changed = Inr (if changed then MappedPasswd else AlreadyMapped)"
proof -
  from assms(4) have "af_passwd files = Some (pr_contents r)"
    using unchanged_reconcile [OF assms(1-3)] by (auto split: if_splits)
  with lookup_after_reconcile [OF assms(1-3), of fallback] show ?thesis by (auto simp: verify_mapped_def)
qed

section \<open>A group without members\<close>

definition group_line :: "posix_identity \<Rightarrow> string list \<Rightarrow> string" where
  "group_line identity members =
     join [colon] [pi_user identity, ''x'', u32_to_string (pi_gid identity), join '','' members]"

lemma group_entry_line: "group_entry identity = group_line identity []"
  by (simp add: group_entry_def group_line_def)

lemma reconcile_own_group:
  assumes "identity_ok identity" "members \<in> {[], [pi_user identity]}"
  shows "reconcile_group (group_line identity members @ [nl]) identity =
     Inr (group_line identity [pi_user identity] @ [nl], members = [])"
proof -
  let ?u = "pi_user identity" and ?m = "join '','' members"
  let ?cs = "[?u, ''x'', u32_to_string (pi_gid identity), ?m]"
  have user: "validate_user_name ?u = Inr ()" using assms(1) by (simp add: identity_ok_def)
  have chars: "set ?u \<inter> {colon, nl, cr, CHR '','', CHR ''#''} = {}" using user_char(3) [OF user] by blast
  have m: "?m = [] \<or> ?m = ?u" using assms(2) by auto
  have sep: "\<forall>c \<in> set ?cs. set c \<inter> {colon, nl, cr} = {}"
    using chars m digit_string_chars by (simp only: set_simps ball_simps) auto
  have split: "split_char colon (group_line identity members) = ?cs"
    unfolding group_line_def using sep by (intro split_char_join) auto
  have "nl \<notin> set (group_line identity members)" "cr \<notin> set (group_line identity members)"
    using sep by (auto simp: group_line_def)
  then have lines: "lines (group_line identity members @ [nl]) = [group_line identity members]"
    using lines_text_of_lines [of "[group_line identity members]" True]
    by (simp add: proper_lines_def text_of_lines_def)
  have skipped: "\<not> is_skipped (group_line identity members)"
    using entry_not_skipped [of ?cs] user by (simp add: group_line_def)
  have parts: "group_members ?m = members"
    using assms(2) chars user by (auto simp: group_members_def user_name_Inr split_char_single)
  have field: "validate_account_field ''group members'' ?m = Inr ()"
    using m user by (auto simp: account_field_Inr dest: user_char(3))
  have step: "reconcile_group_line identity (False, False, []) (0, group_line identity members) =
      Inr (True, members = [], [group_line identity [?u]])"
  proof -
    have checked: "validate_group_fields ?cs 1 = Inr ()"
      using assms(2) user field parts by (auto simp: validate_group_fields_def fail_if_def)
    have "reconcile_members ?u members ([], False, False) = Inr (members, members \<noteq> [], False)"
      using assms(2) user by auto
    then show ?thesis
      using assms(2) checked parts user
      by (auto simp: reconcile_group_line_def skipped split set_field_def group_line_def [of _ "[?u]"] user_name_Inr)
  qed
  show ?thesis
    by (simp add: reconcile_group_def lines step Let_def suffix_def)
qed

lemma reconcile_group_empty: "reconcile_group [] identity = Inr (group_entry identity @ [nl], True)"
  by (simp add: reconcile_group_def lines_def)

lemma reconcile_passwd_found: "reconcile_passwd contents identity = Inr r \<Longrightarrow> pr_found_target r"
  by (auto simp: reconcile_passwd_def rbind_Inr_iff Let_def split: if_splits)

section \<open>Properties\<close>

text \<open>
  Reconciling \<open>passwd\<close> changes one account and nothing else. When it succeeds, every line is
  kept as it is except the one line of the target user, where only the three columns uid, gid
  and home are set; if there is no such line, one is appended; no other account has the
  target's uid, and the target occurs once.
\<close>

theorem reconcile_passwd_exact:
  assumes "identity_ok identity" and "reconcile_passwd contents identity = Inr r"
  shows "pr_contents r = text_of_lines (passwd_result identity (lines contents)) (suffix [nl] contents) \<and>
    length (filter (is_target identity) (lines contents)) \<le> 1 \<and>
    (\<forall>line \<in> set (lines contents). is_skipped line \<or> is_target identity line \<or>
       (passwd_line identity line = line \<and> parse_u32 (split_char colon line ! 2) \<noteq> Some (pi_uid identity)))"
proof -
  have home: "colon \<notin> set (pi_home identity)" using assms(1) by (auto simp: identity_ok_def account_field_Inr)
  note r = assms(2) [unfolded reconcile_passwd_Inr [OF home]]
  then show ?thesis
    by (auto simp: passwd_result_def list_all_iff line_ok_def is_target_def passwd_line_def)
qed

definition sample_identity :: posix_identity where
  "sample_identity = \<lparr>pi_uid = 1000, pi_gid = 1000, pi_user = ''dev'', pi_home = ''/home/dev''\<rparr>"

definition sample_passwd :: string where
  "sample_passwd = ''root:x:0:0:root:/root:/bin/sh'' @ [nl]"

lemma sample_identity_ok: "identity_ok sample_identity"
  unfolding identity_ok_def by code_simp

lemma sample_lines: "lines sample_passwd = [''root:x:0:0:root:/root:/bin/sh'']"
  unfolding sample_passwd_def by code_simp

lemma sample_numbers: "u32_to_string (0 :: u32) = ''0''" "u32_to_string (1000 :: u32) = ''1000''"
  by (simp, code_simp)+

lemma sample_line_ok: "line_ok sample_identity ''root:x:0:0:root:/root:/bin/sh''"
proof -
  have cs: "split_char colon ''root:x:0:0:root:/root:/bin/sh'' =
      [''root'', ''x'', ''0'', ''0'', ''root'', ''/root'', ''/bin/sh'']" by code_simp
  have zero: "parse_u32 ''0'' = Some 0" using parse_u32_to_string [of 0] by (simp only: sample_numbers)
  have names: "validate_user_name ''root'' = Inr ()" "validate_account_field ''home'' ''/root'' = Inr ()"
    "validate_account_field ''shell'' ''/bin/sh'' = Inr ()" by code_simp+
  show ?thesis
    unfolding line_ok_def columns_ok_def validate_passwd_fields_def cs
    by (simp add: zero names fail_if_def sample_identity_def)
qed

lemma sample_reconcile:
  "reconcile_passwd sample_passwd sample_identity =
     Inr \<lparr>pr_contents = sample_passwd @ ''dev:x:1000:1000::/home/dev:/bin/sh'' @ [nl],
       pr_changed = True, pr_found_target = True\<rparr>"
proof -
  have home: "colon \<notin> set (pi_home sample_identity)" by (simp add: sample_identity_def)
  have no: "\<not> is_target sample_identity ''root:x:0:0:root:/root:/bin/sh''" by code_simp
  have final: "suffix [nl] sample_passwd" by (simp add: sample_passwd_def suffix_def)
  have entry: "passwd_entry sample_identity = ''dev:x:1000:1000::/home/dev:/bin/sh''"
    unfolding passwd_entry_def sample_identity_def by (simp only: posix_identity.select_convs sample_numbers) simp
  show ?thesis
    unfolding reconcile_passwd_Inr [OF home] sample_lines
    using sample_line_ok no final
    by (simp add: passwd_line_def entry text_of_lines_def) (simp add: sample_passwd_def)
qed

theorem reconcile_passwd_exact_witness:
  "length (filter (is_target sample_identity) (lines sample_passwd)) \<le> 1"
  using reconcile_passwd_exact [OF sample_identity_ok sample_reconcile] by blast

text \<open>
  Reconciling \<open>passwd\<close> is idempotent: run again on its own output it finds the account,
  reports no change and returns the same contents (for a file without carriage returns).
\<close>

theorem reconcile_passwd_idempotent:
  assumes "identity_ok identity" and "reconcile_passwd contents identity = Inr r" and "cr \<notin> set contents"
  shows "reconcile_passwd (pr_contents r) identity = Inr \<lparr>pr_contents = pr_contents r, pr_changed = False, pr_found_target = True\<rparr>"
proof -
  have home: "colon \<notin> set (pi_home identity)" using assms(1) by (auto simp: identity_ok_def account_field_Inr)
  note out = reconciled_lines [OF assms]
  have ex: "list_ex (is_target identity) (passwd_result identity (lines contents))"
    using out(3) by (metis (no_types, lifting) filter_False length_0_conv list_ex_iff zero_neq_one)
  have same: "map (passwd_line identity) (passwd_result identity (lines contents)) = passwd_result identity (lines contents)"
    using out(2) by (auto simp: list_all_iff settled_def intro: map_idI)
  have ok: "list_all (line_ok identity) (passwd_result identity (lines contents))"
    using out(2) by (auto simp: list_all_iff settled_def)
  show ?thesis
    unfolding reconcile_passwd_Inr [OF home] out(1)
    using lines_proper(2) [OF out(4)] out ex same ok by simp
qed

theorem reconcile_passwd_idempotent_witness:
  "reconcile_passwd (sample_passwd @ ''dev:x:1000:1000::/home/dev:/bin/sh'' @ [nl]) sample_identity =
     Inr \<lparr>pr_contents = sample_passwd @ ''dev:x:1000:1000::/home/dev:/bin/sh'' @ [nl],
       pr_changed = False, pr_found_target = True\<rparr>"
  using reconcile_passwd_idempotent [OF sample_identity_ok sample_reconcile]
  by (simp add: sample_passwd_def)


text \<open>
  Mapping a user works whenever both files can be reconciled: with no file fault, for a
  valid identity other than root and a \<open>passwd\<close> without carriage returns, \<open>map_user\<close> returns
  success, its own read-back check never fails, and looking the user up afterwards gives the
  requested uid, gid and home.
\<close>

theorem map_user_reads_back:
  assumes "check_identity identity = Inr ()" and "pi_user identity \<noteq> ''root''"
    and "af_passwd files = Some passwd" and "cr \<notin> set passwd"
    and "reconcile_passwd passwd identity = Inr r"
    and "reconcile_group (unwrap_or [] (af_group files)) identity = Inr (group_output, group_changed)"
    and "faults = \<lparr>fail_group_read = False, fail_passwd = False, fail_group = False, fail_rollback = False,
      fail_verify_read = False\<rparr>"
  shows "\<exists>files' u. map_user fallback faults files identity =
        (Inr (if pr_changed r then MappedPasswd else AlreadyMapped), files') \<and>
      lookup_user_by_name False (af_passwd files') fallback (pi_user identity) = Inr (Some u) \<and>
      pu_uid u = pi_uid identity \<and> pu_gid u = pi_gid identity \<and> pu_home u = pi_home identity \<and>
      (group_changed \<longrightarrow> af_group files' = Some group_output)"
proof -
  note ok = check_identity_ok [OF assms(1)]
  let ?files1 = "if pr_changed r then files\<lparr>af_passwd := Some (pr_contents r)\<rparr> else files"
  let ?files' = "if group_changed then ?files1\<lparr>af_group := Some group_output\<rparr> else ?files1"
  have stored: "af_passwd ?files' = Some (if pr_changed r then pr_contents r else passwd)"
    using assms(3) by simp
  have found: "pr_found_target r" using assms(5) by (rule reconcile_passwd_found)
  have "map_user fallback faults files identity =
      (verify_mapped False ?files' fallback identity (pr_changed r), ?files')"
    using assms found by (simp add: map_user_def Let_def)
  moreover note verify_mapped_ok [OF ok assms(5,4) stored]
  moreover have "af_passwd ?files' = Some (pr_contents r)"
    using unchanged_reconcile [OF ok assms(5,4)] stored by (auto split: if_splits)
  ultimately show ?thesis
    using lookup_after_reconcile [OF ok assms(5,4), of fallback] by fastforce
qed

definition no_faults :: replace_faults where
  "no_faults = \<lparr>fail_group_read = False, fail_passwd = False, fail_group = False, fail_rollback = False,
     fail_verify_read = False\<rparr>"

definition sample_files :: account_files where
  "sample_files = \<lparr>af_passwd = Some sample_passwd, af_group = None\<rparr>"

lemma sample_check: "check_identity sample_identity = Inr ()"
proof -
  have "is_absolute (pi_home sample_identity)" by (simp add: sample_identity_def is_absolute_def)
  with sample_identity_ok show ?thesis
    by (simp add: check_identity_def identity_ok_def fail_if_def) (simp add: sample_identity_def)
qed

lemma sample_cr: "cr \<notin> set sample_passwd"
  by (simp add: sample_passwd_def)

theorem map_user_reads_back_witness:
  "\<exists>files' u. map_user (Inr None) no_faults sample_files sample_identity = (Inr MappedPasswd, files') \<and>
     lookup_user_by_name False (af_passwd files') (Inr None) ''dev'' = Inr (Some u) \<and> pu_uid u = 1000"
  using map_user_reads_back [OF sample_check _ _ sample_cr sample_reconcile, of sample_files
      "group_entry sample_identity @ [nl]" True no_faults "Inr None"]
  by (auto simp: sample_files_def sample_identity_def no_faults_def reconcile_group_empty)

text \<open>
  C40. A failed \<open>map_user\<close> leaves both account files as they were (for a \<open>passwd\<close> without carriage
  returns), with two exceptions. Replacing \<open>group\<close> and then restoring \<open>passwd\<close> both failed: the
  error says so, \<open>passwd\<close> is the reconciled one and \<open>group\<close> the old one. Or everything was
  replaced and only reading \<open>passwd\<close> again for the final check failed: the error is that of the
  read, and both files are the reconciled ones. The final check never fails otherwise.
\<close>

theorem map_user_all_or_nothing:
  assumes "map_user fallback faults files identity = (Inl e, files')"
    and "\<And>passwd. af_passwd files = Some passwd \<Longrightarrow> cr \<notin> set passwd"
  shows "files' = files \<or>
    (\<exists>passwd r g gc. af_passwd files = Some passwd \<and> reconcile_passwd passwd identity = Inr r \<and>
      reconcile_group (unwrap_or [] (af_group files)) identity = Inr (g, gc) \<and>
      (e = PosixInvalid (ReplaceGroupFailed True) \<and> fail_group faults \<and> fail_rollback faults \<and>
         files' = files\<lparr>af_passwd := Some (pr_contents r)\<rparr> \<or>
       e = PosixLookup LookupIo \<and> fail_verify_read faults \<and>
         files' = files\<lparr>af_passwd := Some (pr_contents r), af_group := if gc then Some g else af_group files\<rparr>))"
proof (rule ccontr)
  assume contr: "\<not> ?thesis"
  then have changed: "files' \<noteq> files" by blast
  obtain u where check: "check_identity identity = Inr u"
    using assms(1) changed by (cases "check_identity identity") (auto simp: map_user_def)
  have root: "\<not> (pi_uid identity = 0 \<and> pi_user identity = ''root'')"
    using assms(1) check by (auto simp: map_user_def)
  obtain passwd where stored: "af_passwd files = Some passwd"
    using assms(1) check root changed by (cases "af_passwd files") (auto simp: map_user_def)
  obtain r where r: "reconcile_passwd passwd identity = Inr r"
    using assms(1) check root changed stored
    by (cases "reconcile_passwd passwd identity") (auto simp: map_user_def)
  have read: "\<not> fail_group_read faults"
    using assms(1) check root changed stored r reconcile_passwd_found [OF r] by (auto simp: map_user_def)
  obtain g gc where g: "reconcile_group (unwrap_or [] (af_group files)) identity = Inr (g, gc)"
    using assms(1) check root changed stored r read reconcile_passwd_found [OF r]
    by (cases "reconcile_group (unwrap_or [] (af_group files)) identity") (auto simp: map_user_def)
  note ok = check_identity_ok [OF check]
  note verified = verify_mapped_ok [OF ok r assms(2) [OF stored], where fallback = fallback]
  have same: "files\<lparr>af_passwd := Some passwd\<rparr> = files" using stored by (cases files) simp
  have kept: "files\<lparr>af_passwd := Some (pr_contents r)\<rparr> = files" if "\<not> pr_changed r"
    using unchanged_reconcile [OF ok r assms(2) [OF stored] that] same by simp
  have group: "f\<lparr>af_group := af_group f\<rparr> = f" for f :: account_files by (cases f) simp
  show False
  proof (cases "fail_verify_read faults")
    case True
    then show False
      using assms(1) check root stored r read g contr reconcile_passwd_found [OF r] same kept group
      by (auto simp: map_user_def Let_def split: if_splits)
  next
    case False
    then show False
      using assms(1) check root stored r read g contr reconcile_passwd_found [OF r] same
      by (auto simp: map_user_def Let_def verified split: if_splits)
  qed
qed

theorem map_user_all_or_nothing_witness:
  "snd (map_user (Inr None) (no_faults\<lparr>fail_group := True\<rparr>) sample_files sample_identity) = sample_files"
proof -
  let ?run = "map_user (Inr None) (no_faults\<lparr>fail_group := True\<rparr>) sample_files sample_identity"
  have run: "?run = (Inl (PosixInvalid (ReplaceGroupFailed False)), snd ?run)"
    using sample_check sample_reconcile
    by (simp add: map_user_def sample_files_def no_faults_def reconcile_group_empty Let_def)
      (simp add: sample_identity_def)
  show ?thesis
    using map_user_all_or_nothing [OF run] sample_cr by (auto simp: sample_files_def no_faults_def)
qed

lemma drop_privileges_spec:
  assumes "drop_privileges sys lookup creds identity = (result, creds')"
  shows "(\<forall>change. result = Inr change \<longrightarrow>
      cr_euid creds' = pi_uid identity \<and> cr_egid creds' = pi_gid identity \<and>
      (\<exists>groups. sys_getgroups sys creds' = Some groups \<and> pi_gid identity \<in> set groups)) \<and>
    (cr_euid creds \<noteq> 0 \<longrightarrow> creds' = creds)"
  using assms
  by (auto simp: drop_privileges_def change_credentials_def supplementary_groups_contain_def
      rbind_Inr_iff ok_or_Inr_iff split: if_splits sum.splits bool.splits option.splits)

text \<open>
  Dropping privileges either reports an error or leaves the process with exactly the target's
  effective uid and gid and the target gid among the supplementary groups, whatever the system
  calls do; and without effective root the credentials are never touched.
\<close>

theorem drop_privileges_effective:
  assumes "drop_privileges sys lookup creds identity = (result, creds')"
  shows "(\<forall>change. result = Inr change \<longrightarrow>
      cr_euid creds' = pi_uid identity \<and> cr_egid creds' = pi_gid identity \<and>
      (\<exists>groups. sys_getgroups sys creds' = Some groups \<and> pi_gid identity \<in> set groups)) \<and>
    (cr_euid creds \<noteq> 0 \<longrightarrow> creds' = creds)"
  using assms by (rule drop_privileges_spec)

definition sample_calls :: credential_calls where
  "sample_calls = \<lparr>
     sys_initgroups = (\<lambda>creds user gid. Some (creds\<lparr>cr_groups := [gid]\<rparr>)),
     sys_setgroups = (\<lambda>creds groups. Some (creds\<lparr>cr_groups := groups\<rparr>)),
     sys_setgid = (\<lambda>creds gid. Some (creds\<lparr>cr_egid := gid\<rparr>)),
     sys_setuid = (\<lambda>creds uid. Some (creds\<lparr>cr_euid := uid\<rparr>)),
     sys_getgroups = (\<lambda>creds. Some (cr_groups creds))\<rparr>"

definition root_creds :: credentials where
  "root_creds = \<lparr>cr_euid = 0, cr_egid = 0, cr_groups = [0]\<rparr>"

theorem drop_privileges_effective_witness:
  "fst (drop_privileges sample_calls (Inr None) root_creds sample_identity) = Inr DroppedPrivileges \<and>
   cr_euid (snd (drop_privileges sample_calls (Inr None) root_creds sample_identity)) = 1000"
proof -
  let ?run = "drop_privileges sample_calls (Inr None) root_creds sample_identity"
  have "fst ?run = Inr DroppedPrivileges"
    by (simp add: drop_privileges_def change_credentials_def supplementary_groups_contain_def
        sample_calls_def root_creds_def sample_identity_def)
  moreover have "?run = (fst ?run, snd ?run)" by simp
  ultimately show ?thesis
    using drop_privileges_effective [of sample_calls "Inr None" root_creds sample_identity "fst ?run" "snd ?run"]
    by (simp add: sample_identity_def)
qed

text \<open>
  A group that is created is not finished in one run. On an empty group file the user's group
  is appended without a member and a change is reported; run again on its own output,
  \<open>reconcile_group\<close> reports a change once more, because it now adds the user as a member;
  only the third run finds nothing to do.
\<close>

theorem reconcile_group_needs_two_runs:
  assumes "identity_ok identity"
  shows "\<exists>once twice. reconcile_group [] identity = Inr (once, True) \<and>
    reconcile_group once identity = Inr (twice, True) \<and> twice \<noteq> once \<and>
    reconcile_group twice identity = Inr (twice, False)"
proof (intro exI conjI)
  let ?once = "group_line identity [] @ [nl]" and ?twice = "group_line identity [pi_user identity] @ [nl]"
  show "reconcile_group [] identity = Inr (?once, True)" by (simp add: reconcile_group_empty group_entry_line)
  show "reconcile_group ?once identity = Inr (?twice, True)" using reconcile_own_group [OF assms, of "[]"] by simp
  show "reconcile_group ?twice identity = Inr (?twice, False)"
    using reconcile_own_group [OF assms, of "[pi_user identity]"] by simp
  show "?twice \<noteq> ?once" using assms by (auto simp: group_line_def identity_ok_def user_name_Inr)
qed

theorem reconcile_group_needs_two_runs_witness:
  "\<exists>once twice. reconcile_group [] sample_identity = Inr (once, True) \<and>
     reconcile_group once sample_identity = Inr (twice, True) \<and> twice \<noteq> once"
  using reconcile_group_needs_two_runs [OF sample_identity_ok] by blast

end
