(* ===== verification/Core_Identity.thy ===== *)
theory Core_Identity
  imports Bootstrap_Config Posix_Reconcile
begin

text \<open>
  The runtime context, declared inputs and identity resolution of the bootstrap core
  (\<open>src/crates/container-init-core/src/context.rs\<close>, \<open>identity.rs\<close>, the errors of \<open>error.rs\<close>,
  and \<open>PosixSystem\<close> of \<open>src/crates/container-init-posix/src/lib.rs\<close>). What the process reads from
  the system (the contents of \<open>/proc\<close> files and of the account files, \<open>lstat\<close>, \<open>getpwnam\<close>,
  \<open>getpwuid\<close>, the effective ids) is the record \<open>posix_system\<close>.
\<close>

section \<open>Errors\<close>

datatype identity_message =
    RootUserNonZeroUid
  | IdInputNotSet
  | NoDeclaredNamespace string
  | CannotMapUid u32 namespace_message
  | CannotMapGid u32 namespace_message
  | NotAUidPair string
  | NotAGid string
  | NotABool string
  | NotAPath string
  | OutsideWorkspace string
  | UidZeroOccupied string
  | NonZeroUidAsRoot
  | TargetUidOccupied u32 string
  | ResolvedHomeNotAbsolute string

datatype core_message =
    RenderFailed render_error
  | RuntimeInputNotSet string
  | EnvironmentNotSet string
  | CannotEvaluate string
  | CommandArgument
  | CoreFieldRequired
  | ModeText message
  | PlanActionAbsent
  | PlanKindMismatch
  | PlanForeign

datatype permission_message =
    RequiresRoot
  | RequiresTargetUid u32
  | CannotChangeIdentity
  | PermissionDenied

datatype fs_call =
    LstatCall | MkdirCall | OpenCall | ReadCall | WriteCall | RenameCall | RemoveCall
  | ChmodCall | ChownCall | ReadlinkCall | SymlinkCall | ReaddirCall

datatype io_failure = LookupFailure lookup_error | CallFailure fs_call | AccountFileFailure

datatype action_failure =
    ExistsNotDirectory
  | ExistsNotRegular
  | ContentDiffers
  | SymlinkDiffers string string
  | ExistingMountPoint
  | ExistingReal
  | ChmodSymlink
  | WildcardPath
  | RecursiveRoot
  | PathMustBeAbsolute
  | UnexpectedSymlink
  | OwnerTextForm
  | OwnerUidText
  | OwnerGidText
  | ServiceDisabled
  | PosixFailure posix_message
  | CapabilityFailure

datatype core_error =
    CoreModel model_error
  | CoreInvalid string core_message
  | CoreIdentity identity_message
  | CorePermission "string option" permission_message
  | CoreAction string "string option" action_failure
  | CoreIo "string option" "string option" io_failure
  | CoreReceipt
  | CorePanic
  | CoreAnnotated string origin core_error

fun from_posix :: "string \<Rightarrow> string option \<Rightarrow> posix_error \<Rightarrow> core_error" where
  "from_posix action path (PosixInvalid m) = CoreAction action path (PosixFailure m)"
| "from_posix action path PosixPermission = CorePermission (Some action) PermissionDenied"
| "from_posix action path PosixIo = CoreIo (Some action) path AccountFileFailure"
| "from_posix action path (PosixLookup e) = CoreIo (Some action) path (LookupFailure e)"

abbreviation lookup_failed :: "lookup_error \<Rightarrow> core_error" where
  "lookup_failed e \<equiv> CoreIo None None (LookupFailure e)"

section \<open>The system\<close>

record posix_system =
  ps_files :: account_files
  ps_passwd_fault :: bool
  ps_getpwnam :: "string \<Rightarrow> (lookup_error, posix_user option) result"
  ps_getpwuid :: "u32 \<Rightarrow> (lookup_error, posix_user option) result"
  ps_uid_map :: "(namespace_message, namespace_map) result"
  ps_gid_map :: "(namespace_message, namespace_map) result"
  ps_mountinfo :: "string option"
  ps_lstat :: "string \<Rightarrow> lstat_outcome"
  ps_observation :: "workspace_observation option"
  ps_current_ids :: "u32 \<times> u32"

definition map_uid_from_parent :: "posix_system \<Rightarrow> u32 \<Rightarrow> (namespace_message, u32) result" where
  "map_uid_from_parent posix uid = rbind (ps_uid_map posix) (\<lambda>m. map_parent_id m uid)"

definition map_gid_from_parent :: "posix_system \<Rightarrow> u32 \<Rightarrow> (namespace_message, u32) result" where
  "map_gid_from_parent posix gid = rbind (ps_gid_map posix) (\<lambda>m. map_parent_id m gid)"

definition system_user_by_name :: "posix_system \<Rightarrow> string \<Rightarrow> (lookup_error, posix_user option) result" where
  "system_user_by_name posix name =
     lookup_user_by_name (ps_passwd_fault posix) (af_passwd (ps_files posix)) (ps_getpwnam posix name) name"

definition system_user_by_uid :: "posix_system \<Rightarrow> u32 \<Rightarrow> (lookup_error, posix_user option) result" where
  "system_user_by_uid posix uid =
     lookup_user_by_uid (ps_passwd_fault posix) (af_passwd (ps_files posix)) (ps_getpwuid posix uid) uid"

definition system_observe_workspace :: "posix_system \<Rightarrow> string \<Rightarrow> workspace_observation" where
  "system_observe_workspace posix path =
     observe_workspace (ps_observation posix) (ps_mountinfo posix) (ps_lstat posix) path"

section \<open>The runtime context\<close>

record runtime_context =
  rc_cwd :: string
  rc_env :: "(string, string) btree_map"
  rc_cli_inputs :: "(string, string) btree_map"
  rc_features :: "string list"
  rc_workspace_observation :: "workspace_observation option"

definition runtime_context_new :: "string \<Rightarrow> runtime_context" where
  "runtime_context_new cwd =
     \<lparr>rc_cwd = cwd, rc_env = [], rc_cli_inputs = [], rc_features = [], rc_workspace_observation = None\<rparr>"

definition with_environment :: "(string \<times> string) list \<Rightarrow> runtime_context \<Rightarrow> runtime_context" where
  "with_environment vars context = context\<lparr>rc_env := btree_collect vars\<rparr>"

definition with_cli_input :: "string \<Rightarrow> string \<Rightarrow> runtime_context \<Rightarrow> runtime_context" where
  "with_cli_input name raw context =
     context\<lparr>rc_cli_inputs := btree_insert name raw (rc_cli_inputs context)\<rparr>"

definition with_feature :: "string \<Rightarrow> runtime_context \<Rightarrow> runtime_context" where
  "with_feature feature context = context\<lparr>rc_features := set_insert feature (rc_features context)\<rparr>"

section \<open>Data\<close>

definition DEFAULT_ROOT_HOME :: string where "DEFAULT_ROOT_HOME = ''/root''"

datatype identity_source =
    FromRunAsRoot | ExplicitHost | ExplicitContainer | WorkspaceMount | ProfileDefault | FromCurrent

datatype workspace_status = WsMounted | WsNotMounted | WsUnavailable

fun status_from_observation :: "workspace_observation \<Rightarrow> workspace_status" where
  "status_from_observation (Mounted _ _ _ _) = WsMounted"
| "status_from_observation (NotMounted _) = WsNotMounted"
| "status_from_observation (Unavailable _) = WsUnavailable"

record resolved_identity =
  id_uid :: u32
  id_gid :: u32
  id_user :: string
  id_home :: string
  id_run_as_root :: bool
  id_uid_source :: identity_source
  id_gid_source :: identity_source
  id_workspace :: workspace_status

datatype parsed_runtime_input =
    RUidPair u32 "u32 option"
  | RGid u32
  | RBool bool
  | RPath string

record runtime_input =
  ri_name :: string
  ri_raw :: string
  ri_parsed :: parsed_runtime_input

type_synonym resolved_inputs = "(string, runtime_input) btree_map"

definition inputs_value :: "resolved_inputs \<Rightarrow> string \<Rightarrow> string option" where
  "inputs_value inputs name = map_option ri_raw (btree_get name inputs)"

section \<open>Resolving inputs\<close>

definition declared_value :: "string \<Rightarrow> bootstrap_input \<Rightarrow> runtime_context \<Rightarrow> string option" where
  "declared_value name declaration context =
     (let default = map_option to_string_value (in_default declaration) in
      if \<not> in_runtime declaration then default
      else
        let names = name # in_aliases declaration in
        opt_or (opt_or (find_map (\<lambda>n. btree_get n (rc_cli_inputs context)) names)
                       (find_map (\<lambda>n. btree_get n (rc_env context)) names))
               default)"

fun to_runtime_value :: "parsed_input \<Rightarrow> parsed_runtime_input" where
  "to_runtime_value (PUidPair uid gid) = RUidPair uid gid"
| "to_runtime_value (PGid gid) = RGid gid"
| "to_runtime_value (PBool b) = RBool b"
| "to_runtime_value (PPath p) = RPath p"

definition resolve_input ::
  "runtime_context \<Rightarrow> resolved_inputs \<Rightarrow> string \<times> bootstrap_input \<Rightarrow> (core_error, resolved_inputs) result" where
  "resolve_input context resolved entry =
     (let (name, declaration) = entry in
      case declared_value name declaration context of
        None \<Rightarrow> Inr resolved
      | Some raw \<Rightarrow>
          rbind (map_err CoreModel (parse_value declaration raw)) (\<lambda>parsed.
          let input = \<lparr>ri_name = name, ri_raw = raw, ri_parsed = to_runtime_value parsed\<rparr> in
          Inr (fold (\<lambda>alias. btree_insert alias input) (in_aliases declaration)
            (btree_insert name input resolved))))"

definition resolve_inputs ::
  "bootstrap_config \<Rightarrow> runtime_context \<Rightarrow> (core_error, resolved_inputs) result" where
  "resolve_inputs config context = fold_result (resolve_input context) [] (bc_inputs config)"

section \<open>Reading inputs\<close>

definition find_input ::
  "bootstrap_config \<Rightarrow> resolved_inputs \<Rightarrow> string option \<Rightarrow> runtime_input option" where
  "find_input config inputs name =
     Option.bind name (\<lambda>name.
       opt_or (btree_get name inputs)
         (Option.bind (find (\<lambda>(_, declaration). name \<in> set (in_aliases declaration)) (bc_inputs config))
           (\<lambda>(canonical, _). btree_get canonical inputs)))"

definition core_input_declaration :: "bootstrap_config \<Rightarrow> string option \<Rightarrow> bootstrap_input option" where
  "core_input_declaration config name =
     Option.bind name (\<lambda>name. opt_or (btree_get name (bc_inputs config))
       (find (\<lambda>declaration. name \<in> set (in_aliases declaration)) (map snd (bc_inputs config))))"

definition input_namespace_of ::
  "bootstrap_config \<Rightarrow> resolved_inputs \<Rightarrow> string option \<Rightarrow> (core_error, input_namespace) result" where
  "input_namespace_of config inputs name =
     (case find_input config inputs name of
        None \<Rightarrow> Inl (CoreIdentity IdInputNotSet)
      | Some input \<Rightarrow>
          ok_or (CoreIdentity (NoDeclaredNamespace (ri_name input)))
            (Option.bind (core_input_declaration config (Some (ri_name input))) in_namespace))"

definition map_uid :: "posix_system \<Rightarrow> u32 \<Rightarrow> input_namespace \<Rightarrow> (core_error, u32) result" where
  "map_uid posix uid namespace =
     (case namespace of
        NsHost \<Rightarrow> map_err (\<lambda>e. CoreIdentity (CannotMapUid uid e)) (map_uid_from_parent posix uid)
      | NsContainer \<Rightarrow> Inr uid)"

definition map_gid :: "posix_system \<Rightarrow> u32 \<Rightarrow> input_namespace \<Rightarrow> (core_error, u32) result" where
  "map_gid posix gid namespace =
     (case namespace of
        NsHost \<Rightarrow> map_err (\<lambda>e. CoreIdentity (CannotMapGid gid e)) (map_gid_from_parent posix gid)
      | NsContainer \<Rightarrow> Inr gid)"

fun source_for_namespace :: "input_namespace \<Rightarrow> identity_source" where
  "source_for_namespace NsHost = ExplicitHost"
| "source_for_namespace NsContainer = ExplicitContainer"

definition input_uid_pair ::
  "bootstrap_config \<Rightarrow> resolved_inputs \<Rightarrow> string option \<Rightarrow> (core_error, (u32 \<times> u32 option) option) result" where
  "input_uid_pair config inputs name =
     (case find_input config inputs name of
        None \<Rightarrow> Inr None
      | Some input \<Rightarrow>
          (case ri_parsed input of
             RUidPair uid gid \<Rightarrow> Inr (Some (uid, gid))
           | _ \<Rightarrow> Inl (CoreIdentity (NotAUidPair (ri_name input)))))"

definition input_gid ::
  "bootstrap_config \<Rightarrow> resolved_inputs \<Rightarrow> string option \<Rightarrow> (core_error, u32 option) result" where
  "input_gid config inputs name =
     (case find_input config inputs name of
        None \<Rightarrow> Inr None
      | Some input \<Rightarrow>
          (case ri_parsed input of
             RGid gid \<Rightarrow> Inr (Some gid)
           | _ \<Rightarrow> Inl (CoreIdentity (NotAGid (ri_name input)))))"

definition input_bool ::
  "bootstrap_config \<Rightarrow> resolved_inputs \<Rightarrow> string option \<Rightarrow> (core_error, bool option) result" where
  "input_bool config inputs name =
     (case find_input config inputs name of
        None \<Rightarrow> Inr None
      | Some input \<Rightarrow>
          (case ri_parsed input of
             RBool b \<Rightarrow> Inr (Some b)
           | _ \<Rightarrow> Inl (CoreIdentity (NotABool (ri_name input)))))"

definition input_home ::
  "bootstrap_config \<Rightarrow> resolved_inputs \<Rightarrow> string option \<Rightarrow> (core_error, string option) result" where
  "input_home config inputs name =
     (case find_input config inputs name of
        None \<Rightarrow> Inr None
      | Some input \<Rightarrow>
          (case ri_parsed input of
             RPath path \<Rightarrow>
               if is_some_and (\<lambda>d. \<not> in_allow_outside_workspace d)
                    (core_input_declaration config (Some (ri_name input))) \<and>
                  \<not> prefix (components (bc_workspace_root config)) (components path)
               then Inl (CoreIdentity (OutsideWorkspace (ri_name input)))
               else Inr (Some path)
           | _ \<Rightarrow> Inl (CoreIdentity (NotAPath (ri_name input)))))"

section \<open>Resolving the identity\<close>

text \<open>
  The cascade of \<open>resolve_prevalidated\<close> for the uid, once the explicit pair is mapped into the
  container: \<open>explicit\<close> is the pair with the namespace it was given in (the code keeps the two in
  options that are set together).
\<close>

type_synonym explicit_pair = "(u32 \<times> u32 option \<times> input_namespace) option"

definition map_pair ::
  "posix_system \<Rightarrow> bootstrap_config \<Rightarrow> resolved_inputs \<Rightarrow> (u32 \<times> u32 option) option \<Rightarrow>
   (core_error, explicit_pair) result" where
  "map_pair posix config inputs uid_pair =
     (case uid_pair of
        None \<Rightarrow> Inr None
      | Some (raw_uid, raw_gid) \<Rightarrow>
          rbind (input_namespace_of config inputs (ic_uid_input (bc_identity config))) (\<lambda>namespace.
          rbind (map_uid posix raw_uid namespace) (\<lambda>uid.
          rbind (case raw_gid of
                   None \<Rightarrow> Inr None
                 | Some g \<Rightarrow> rbind (map_gid posix g namespace) (\<lambda>gid. Inr (Some gid))) (\<lambda>gid.
          Inr (Some (uid, gid, namespace))))))"

fun mounted_owner :: "workspace_observation \<Rightarrow> (u32 \<times> u32) option" where
  "mounted_owner (Mounted uid gid _ _) = Some (uid, gid)"
| "mounted_owner _ = None"

definition select_uid ::
  "posix_system \<Rightarrow> identity_config \<Rightarrow> explicit_pair \<Rightarrow> (u32 \<times> u32) option \<Rightarrow> posix_user option \<Rightarrow>
   u32 \<times> identity_source" where
  "select_uid posix c explicit owner named =
     (case explicit of
        Some (uid, _, namespace) \<Rightarrow> (uid, source_for_namespace namespace)
      | None \<Rightarrow>
          (case (if ic_auto_mapping c then owner else None) of
             Some (uid, _) \<Rightarrow> (uid, WorkspaceMount)
           | None \<Rightarrow>
               (case ic_default_uid c of
                  Some uid \<Rightarrow> (uid, ProfileDefault)
                | None \<Rightarrow>
                    (case named of
                       Some user \<Rightarrow> (pu_uid user, ProfileDefault)
                     | None \<Rightarrow> (fst (ps_current_ids posix), FromCurrent)))))"

text \<open>Without auto mapping the last resort for the gid is the uid, with it the current gid.\<close>

definition select_gid ::
  "posix_system \<Rightarrow> bootstrap_config \<Rightarrow> resolved_inputs \<Rightarrow> u32 option \<Rightarrow> explicit_pair \<Rightarrow>
   (u32 \<times> u32) option \<Rightarrow> posix_user option \<Rightarrow> u32 \<Rightarrow> (core_error, u32 \<times> identity_source) result" where
  "select_gid posix config inputs explicit_gid explicit owner named uid =
     (let c = bc_identity config in
      case explicit_gid of
        Some gid \<Rightarrow>
          rbind (input_namespace_of config inputs (ic_gid_input c)) (\<lambda>namespace.
          rbind (map_gid posix gid namespace) (\<lambda>gid. Inr (gid, source_for_namespace namespace)))
      | None \<Rightarrow>
          (case explicit of
             Some (_, Some gid, namespace) \<Rightarrow> Inr (gid, source_for_namespace namespace)
           | _ \<Rightarrow>
               (case (if ic_auto_mapping c then owner else None) of
                  Some (_, gid) \<Rightarrow> Inr (gid, WorkspaceMount)
                | None \<Rightarrow>
                    (case ic_default_gid c of
                       Some gid \<Rightarrow> Inr (gid, ProfileDefault)
                     | None \<Rightarrow>
                         (case named of
                            Some user \<Rightarrow> Inr (pu_gid user, ProfileDefault)
                          | None \<Rightarrow>
                              if ic_auto_mapping c then Inr (snd (ps_current_ids posix), FromCurrent)
                              else Inr (uid, FromCurrent))))))"

definition select_user ::
  "string option \<Rightarrow> posix_user option \<Rightarrow> u32 \<Rightarrow> (core_error, string) result" where
  "select_user configured uid_user uid =
     (if uid = 0 then
        (case uid_user of
           Some candidate \<Rightarrow>
             if pu_name candidate \<noteq> ''root'' then Inl (CoreIdentity (UidZeroOccupied (pu_name candidate)))
             else Inr ''root''
         | None \<Rightarrow> Inr ''root'')
      else
        (case configured of
           Some user \<Rightarrow> if user = ''root'' then Inl (CoreIdentity NonZeroUidAsRoot) else Inr user
         | None \<Rightarrow>
             (case uid_user of
                Some user \<Rightarrow> Inr (pu_name user)
              | None \<Rightarrow> Inr (''uid-'' @ u32_to_string uid))))"

definition check_occupied :: "posix_user option \<Rightarrow> u32 \<Rightarrow> string \<Rightarrow> (core_error, unit) result" where
  "check_occupied uid_user uid user =
     (if uid = 0 then Inr ()
      else when_some uid_user (\<lambda>owner.
        fail_if (pu_name owner \<noteq> user) (CoreIdentity (TargetUidOccupied uid (pu_name owner)))))"

definition fallback_home :: "posix_user option \<Rightarrow> posix_user option \<Rightarrow> u32 \<Rightarrow> string \<Rightarrow> string" where
  "fallback_home named uid_user uid user =
     (if uid = 0 then DEFAULT_ROOT_HOME
      else unwrap_or (''/home/'' @ user) (opt_or (map_option pu_home named) (map_option pu_home uid_user)))"

text \<open>The part of \<open>resolve_prevalidated\<close> for identities other than \<open>run_as_root\<close>.\<close>

definition resolve_target ::
  "posix_system \<Rightarrow> bootstrap_config \<Rightarrow> runtime_context \<Rightarrow> resolved_inputs \<Rightarrow> (core_error, resolved_identity) result" where
  "resolve_target posix config context inputs =
     (let c = bc_identity config in
      rbind (input_uid_pair config inputs (ic_uid_input c)) (\<lambda>uid_pair.
      rbind (input_gid config inputs (ic_gid_input c)) (\<lambda>explicit_gid.
      rbind (fail_if (ic_default_user c = Some ''root'' \<and>
          is_some_and (\<lambda>uid. uid \<noteq> 0) (opt_or (map_option fst uid_pair) (ic_default_uid c)))
        (CoreIdentity RootUserNonZeroUid)) (\<lambda>_.
      rbind (case ic_default_user c of
               None \<Rightarrow> Inr None
             | Some name \<Rightarrow> map_err lookup_failed (system_user_by_name posix name)) (\<lambda>named.
      let observation = unwrap_or (system_observe_workspace posix (rc_cwd context)) (rc_workspace_observation context);
          owner = mounted_owner observation in
      rbind (map_pair posix config inputs uid_pair) (\<lambda>explicit.
      let (uid, uid_source) = select_uid posix c explicit owner named in
      rbind (select_gid posix config inputs explicit_gid explicit owner named uid) (\<lambda>(gid, gid_source).
      rbind (map_err lookup_failed (system_user_by_uid posix uid)) (\<lambda>uid_user.
      rbind (select_user (ic_default_user c) uid_user uid) (\<lambda>user.
      rbind (check_occupied uid_user uid user) (\<lambda>_.
      rbind (input_home config inputs (ic_home_input c)) (\<lambda>requested_home.
      let home = unwrap_or (fallback_home named uid_user uid user) (opt_or requested_home (ic_default_home c)) in
      rbind (fail_if (\<not> is_absolute home) (CoreIdentity (ResolvedHomeNotAbsolute home))) (\<lambda>_.
      Inr \<lparr>id_uid = uid, id_gid = gid, id_user = user, id_home = home, id_run_as_root = False,
           id_uid_source = uid_source, id_gid_source = gid_source,
           id_workspace = status_from_observation observation\<rparr>))))))))))))"

definition resolve_prevalidated ::
  "posix_system \<Rightarrow> bootstrap_config \<Rightarrow> runtime_context \<Rightarrow> (core_error, resolved_identity) result" where
  "resolve_prevalidated posix config context =
     (let c = bc_identity config in
      rbind (resolve_inputs config context) (\<lambda>inputs.
      rbind (input_bool config inputs (ic_run_as_root_input c)) (\<lambda>requested_root.
      if unwrap_or False requested_root then
        rbind (input_home config inputs (ic_home_input c)) (\<lambda>requested_home.
        Inr \<lparr>id_uid = 0, id_gid = 0, id_user = ''root'',
             id_home = unwrap_or DEFAULT_ROOT_HOME (opt_or requested_home (ic_default_home c)),
             id_run_as_root = True, id_uid_source = FromRunAsRoot, id_gid_source = FromRunAsRoot,
             id_workspace = WsNotMounted\<rparr>)
      else resolve_target posix config context inputs)))"

definition resolve ::
  "posix_system \<Rightarrow> bootstrap_config \<Rightarrow> runtime_context \<Rightarrow> (core_error, resolved_identity) result" where
  "resolve posix config context =
     rbind (map_err CoreModel (config_validate config)) (\<lambda>_. resolve_prevalidated posix config context)"

section \<open>Lemmas\<close>

lemma resolve_targetE:
  assumes "resolve_target posix config context inputs = Inr identity"
  obtains uid_pair explicit_gid named explicit uid_user requested_home observation where
    "input_uid_pair config inputs (ic_uid_input (bc_identity config)) = Inr uid_pair"
    "input_gid config inputs (ic_gid_input (bc_identity config)) = Inr explicit_gid"
    "case ic_default_user (bc_identity config) of None \<Rightarrow> named = None
      | Some name \<Rightarrow> system_user_by_name posix name = Inr named"
    "observation = unwrap_or (system_observe_workspace posix (rc_cwd context)) (rc_workspace_observation context)"
    "map_pair posix config inputs uid_pair = Inr explicit"
    "select_uid posix (bc_identity config) explicit (mounted_owner observation) named =
      (id_uid identity, id_uid_source identity)"
    "select_gid posix config inputs explicit_gid explicit (mounted_owner observation) named (id_uid identity) =
      Inr (id_gid identity, id_gid_source identity)"
    "system_user_by_uid posix (id_uid identity) = Inr uid_user"
    "select_user (ic_default_user (bc_identity config)) uid_user (id_uid identity) = Inr (id_user identity)"
    "check_occupied uid_user (id_uid identity) (id_user identity) = Inr ()"
    "input_home config inputs (ic_home_input (bc_identity config)) = Inr requested_home"
    "id_home identity = unwrap_or (fallback_home named uid_user (id_uid identity) (id_user identity))
      (opt_or requested_home (ic_default_home (bc_identity config)))"
    "is_absolute (id_home identity)" "\<not> id_run_as_root identity"
    "id_workspace identity = status_from_observation observation"
proof -
  let ?observation = "unwrap_or (system_observe_workspace posix (rc_cwd context)) (rc_workspace_observation context)"
  from assms show thesis
    unfolding resolve_target_def Let_def case_prod_beta rbind_Inr_iff fail_if_Inr_iff map_err_Inr_iff
    by (elim exE conjE) (rule that [of _ _ _ ?observation]; (assumption | auto split: option.splits simp: map_err_Inr_iff))
qed

lemma map_pair_Some:
  assumes "map_pair posix config inputs uid_pair = Inr (Some (uid, gid, namespace))"
  obtains raw raw_gid where "uid_pair = Some (raw, raw_gid)" "map_uid posix raw namespace = Inr uid"
  using assms by (auto simp: map_pair_def rbind_Inr_iff split: option.splits prod.splits)

lemma map_pair_None: "map_pair posix config inputs uid_pair = Inr None \<Longrightarrow> uid_pair = None"
  by (auto simp: map_pair_def rbind_Inr_iff split: option.splits prod.splits)

lemma mounted_owner_Some: "mounted_owner observation = Some (uid, gid) \<Longrightarrow> \<exists>point n. observation = Mounted uid gid point n"
  by (cases observation) auto

definition observed :: "posix_system \<Rightarrow> runtime_context \<Rightarrow> workspace_observation" where
  "observed posix context =
     unwrap_or (system_observe_workspace posix (rc_cwd context)) (rc_workspace_observation context)"

text \<open>What each reported source of the uid claims.\<close>

definition uid_justified ::
  "posix_system \<Rightarrow> bootstrap_config \<Rightarrow> runtime_context \<Rightarrow> resolved_inputs \<Rightarrow> resolved_identity \<Rightarrow> bool" where
  "uid_justified posix config context inputs identity =
     (let c = bc_identity config; uid = id_uid identity; requested = input_uid_pair config inputs (ic_uid_input c) in
      case id_uid_source identity of
        FromRunAsRoot \<Rightarrow> uid = 0 \<and> input_bool config inputs (ic_run_as_root_input c) = Inr (Some True)
      | ExplicitHost \<Rightarrow> \<exists>raw gid. requested = Inr (Some (raw, gid)) \<and> map_uid_from_parent posix raw = Inr uid
      | ExplicitContainer \<Rightarrow> \<exists>gid. requested = Inr (Some (uid, gid))
      | WorkspaceMount \<Rightarrow> requested = Inr None \<and> ic_auto_mapping c \<and>
          (\<exists>gid point n. observed posix context = Mounted uid gid point n)
      | ProfileDefault \<Rightarrow> requested = Inr None \<and>
          (ic_default_uid c = Some uid \<or> ic_default_uid c = None \<and>
           (\<exists>name user. ic_default_user c = Some name \<and> system_user_by_name posix name = Inr (Some user) \<and>
              pu_uid user = uid))
      | FromCurrent \<Rightarrow> requested = Inr None \<and> ic_default_uid c = None \<and> uid = fst (ps_current_ids posix))"

lemma resolve_target_justified:
  assumes "resolve_target posix config context inputs = Inr identity"
  shows "uid_justified posix config context inputs identity"
  using assms
proof (rule resolve_targetE)
  fix uid_pair explicit_gid named explicit uid_user requested_home observation
  assume pair: "input_uid_pair config inputs (ic_uid_input (bc_identity config)) = Inr uid_pair"
    and named: "case ic_default_user (bc_identity config) of None \<Rightarrow> named = None
      | Some name \<Rightarrow> system_user_by_name posix name = Inr named"
    and observation: "observation = unwrap_or (system_observe_workspace posix (rc_cwd context)) (rc_workspace_observation context)"
    and mapped: "map_pair posix config inputs uid_pair = Inr explicit"
    and selected: "select_uid posix (bc_identity config) explicit (mounted_owner observation) named =
      (id_uid identity, id_uid_source identity)"
  show ?thesis
  proof (cases explicit)
    case None
    with mapped have "uid_pair = None" by (simp add: map_pair_None)
    with None pair named selected observation show ?thesis
      by (auto simp: uid_justified_def select_uid_def observed_def dest: mounted_owner_Some
          split: option.splits if_splits prod.splits)
  next
    case (Some e)
    obtain uid gid namespace where e: "e = (uid, gid, namespace)" by (cases e)
    obtain raw raw_gid where raw: "uid_pair = Some (raw, raw_gid)" "map_uid posix raw namespace = Inr uid"
      using mapped unfolding Some e by (rule map_pair_Some)
    with Some e pair selected show ?thesis
      by (cases namespace) (auto simp: uid_justified_def select_uid_def map_uid_def map_err_Inr_iff)
  qed
qed

section \<open>Properties\<close>

text \<open>
  C32. A resolved identity is consistent. Uid 0 always goes with the account name \<open>root\<close>; a request
  to run as root gives uid and gid 0, and there the account database is not asked who owns uid 0
  and the home is not required to be absolute. Every other identity has an absolute home, and
  its uid, when the database (which could be read) has an account with it, is given to that
  account. In both cases a home taken from the home input is inside the workspace unless the
  declaration of that input allows otherwise.
\<close>

theorem resolved_identity_consistent:
  assumes "resolve posix config context = Inr identity" and "resolve_inputs config context = Inr inputs"
  shows "(id_uid identity = 0 \<longrightarrow> id_user identity = ''root'') \<and>
    (id_run_as_root identity \<longrightarrow> id_uid identity = 0 \<and> id_gid identity = 0) \<and>
    (\<not> id_run_as_root identity \<longrightarrow> is_absolute (id_home identity) \<and>
      (\<forall>owner. system_user_by_uid posix (id_uid identity) = Inr (Some owner) \<longrightarrow>
        pu_name owner = id_user identity)) \<and>
    (\<forall>input declaration. find_input config inputs (ic_home_input (bc_identity config)) = Some input \<longrightarrow>
      core_input_declaration config (Some (ri_name input)) = Some declaration \<longrightarrow>
      \<not> in_allow_outside_workspace declaration \<longrightarrow>
      prefix (components (bc_workspace_root config)) (components (id_home identity)))"
proof -
  let ?home = "input_home config inputs (ic_home_input (bc_identity config))"
  have inside: "prefix (components (bc_workspace_root config)) (components home)"
    if "?home = Inr requested" "home = unwrap_or other (opt_or requested dflt)"
      "find_input config inputs (ic_home_input (bc_identity config)) = Some input"
      "core_input_declaration config (Some (ri_name input)) = Some decl"
      "\<not> in_allow_outside_workspace decl" for requested home other dflt input decl
    using that by (auto simp: input_home_def split: parsed_runtime_input.splits if_splits)
  show ?thesis
  proof (cases "id_run_as_root identity")
    case True
    have "\<not> resolve_target posix config context inputs = Inr identity" using True by (auto elim: resolve_targetE)
    with assms obtain requested where "?home = Inr requested"
        "identity = \<lparr>id_uid = 0, id_gid = 0, id_user = ''root'',
             id_home = unwrap_or DEFAULT_ROOT_HOME (opt_or requested (ic_default_home (bc_identity config))),
             id_run_as_root = True, id_uid_source = FromRunAsRoot, id_gid_source = FromRunAsRoot,
             id_workspace = WsNotMounted\<rparr>"
      by (auto simp: resolve_def resolve_prevalidated_def Let_def rbind_Inr_iff split: if_splits)
    with inside show ?thesis by auto
  next
    case False
    then have "resolve_target posix config context inputs = Inr identity"
      using assms by (auto simp: resolve_def resolve_prevalidated_def Let_def rbind_Inr_iff split: if_splits)
    then show ?thesis
    proof (rule resolve_targetE)
      fix named uid_user requested
      assume uid_user: "system_user_by_uid posix (id_uid identity) = Inr uid_user"
        and "select_user (ic_default_user (bc_identity config)) uid_user (id_uid identity) = Inr (id_user identity)"
        "check_occupied uid_user (id_uid identity) (id_user identity) = Inr ()"
        and home: "?home = Inr requested"
          "id_home identity = unwrap_or (fallback_home named uid_user (id_uid identity) (id_user identity))
            (opt_or requested (ic_default_home (bc_identity config)))"
        and "is_absolute (id_home identity)"
      then have "(id_uid identity = 0 \<longrightarrow> id_user identity = ''root'') \<and> is_absolute (id_home identity) \<and>
          (\<forall>owner. uid_user = Some owner \<longrightarrow> pu_name owner = id_user identity)"
        by (auto simp: select_user_def check_occupied_def when_some_Inr_iff fail_if_Inr_iff
            split: option.splits if_splits)
      with False uid_user inside [OF home] show ?thesis by auto
    qed
  qed
qed

definition sample_posix :: posix_system where
  "sample_posix = \<lparr>ps_files = \<lparr>af_passwd = None, af_group = None\<rparr>, ps_passwd_fault = False,
     ps_getpwnam = (\<lambda>_. Inr None), ps_getpwuid = (\<lambda>_. Inr None), ps_uid_map = Inr [], ps_gid_map = Inr [],
     ps_mountinfo = None, ps_lstat = (\<lambda>_. LNotFound), ps_observation = None, ps_current_ids = (1000, 1000)\<rparr>"

definition sample_resolved :: resolved_identity where
  "sample_resolved = \<lparr>id_uid = 1000, id_gid = 1000, id_user = ''uid-1000'', id_home = ''/home/uid-1000'',
     id_run_as_root = False, id_uid_source = FromCurrent, id_gid_source = FromCurrent,
     id_workspace = WsUnavailable\<rparr>"

lemma sample_inputs: "resolve_inputs sample_config context = Inr []"
  by (simp add: resolve_inputs_def sample_config_def bootstrap_config_new_def)

lemma sample_resolve: "resolve_prevalidated sample_posix sample_config (runtime_context_new ''/w'') = Inr sample_resolved"
proof -
  have c: "bc_identity sample_config = identity_config_new"
    by (simp add: sample_config_def bootstrap_config_new_def)
  have reject: "reject_symlink_components (\<lambda>_. LNotFound) ''/w'' = Inr ()"
    "normalize_workspace_path ''/w'' = Inr ''/w''" by code_simp+
  have observed: "system_observe_workspace sample_posix ''/w'' = Unavailable MountinfoUnreadable"
    using reject by (simp add: system_observe_workspace_def sample_posix_def observe_workspace_def)
  have lookup: "system_user_by_uid sample_posix uid = Inr None" for uid
    by (simp add: system_user_by_uid_def sample_posix_def lookup_user_by_uid_def lookup_file_user_def)
  have dec: "to_decimal 1000 = ''1000''" by code_simp
  show ?thesis
    by (simp add: resolve_prevalidated_def sample_inputs c identity_config_new_def input_bool_def find_input_def
        resolve_target_def input_uid_pair_def input_gid_def fail_if_def runtime_context_new_def observed
        map_pair_def select_uid_def select_gid_def lookup select_user_def check_occupied_def when_some_def
        input_home_def fallback_home_def is_absolute_def sample_resolved_def)
      (simp add: sample_posix_def dec)
qed

theorem resolved_identity_consistent_witness:
  "resolve sample_posix sample_config (runtime_context_new ''/w'') = Inr sample_resolved \<and>
   is_absolute (id_home sample_resolved)"
proof -
  have r: "resolve sample_posix sample_config (runtime_context_new ''/w'') = Inr sample_resolved"
    by (simp add: resolve_def sample_config_valid sample_resolve)
  with resolved_identity_consistent [OF r sample_inputs] show ?thesis by (simp add: sample_resolved_def)
qed

text \<open>
  The source an identity reports for its uid is the truth: a host id went through the
  namespace map, a container id was taken as it is, the workspace owner was only used when auto
  mapping is on, no id was requested and the workspace is mounted, and so on down to the id of
  the process itself.
\<close>

theorem identity_source_truthful:
  assumes "resolve_prevalidated posix config context = Inr identity" and "resolve_inputs config context = Inr inputs"
  shows "uid_justified posix config context inputs identity"
proof (cases "input_bool config inputs (ic_run_as_root_input (bc_identity config)) = Inr (Some True)")
  case True
  with assms show ?thesis by (auto simp: resolve_prevalidated_def Let_def rbind_Inr_iff uid_justified_def)
next
  case False
  with assms have "resolve_target posix config context inputs = Inr identity"
    by (auto simp: resolve_prevalidated_def Let_def rbind_Inr_iff unwrap_or_def split: if_splits option.splits)
  then show ?thesis by (rule resolve_target_justified)
qed

theorem identity_source_truthful_witness:
  "id_uid sample_resolved = fst (ps_current_ids sample_posix) \<and>
   uid_justified sample_posix sample_config (runtime_context_new ''/w'') [] sample_resolved"
  using identity_source_truthful [OF sample_resolve sample_inputs]
  by (simp add: sample_resolved_def sample_posix_def)

end
