(* ===== verification/Core_Condition.thy ===== *)
theory Core_Condition
  imports Core_Identity
begin

text \<open>
  Evaluation of conditions (\<open>src/crates/container-init-core/src/condition.rs\<close>). The file system and
  the platform constants are the record \<open>host_view\<close>. Conjunctions and disjunctions stop at the
  first part that decides them, and an error of a part before that is the error of the whole.
\<close>

section \<open>Contexts\<close>

record host_view =
  hv_exists :: "string \<Rightarrow> bool"
  hv_writable :: "string \<Rightarrow> bool"
  hv_os :: string
  hv_arch :: string

record condition_context =
  cc_identity :: resolved_identity
  cc_inputs :: resolved_inputs
  cc_runtime :: runtime_context
  cc_workspace_root :: string

datatype comparable_value = ComparableString string | ComparableBool bool

section \<open>Evaluation\<close>

text \<open>
  The table of interpolation values, in the order of insertion; a later entry replaces an
  earlier one with the same key. The executor builds the same table for its actions.
\<close>

definition base_entries ::
  "host_view \<Rightarrow> string \<Rightarrow> resolved_identity \<Rightarrow> runtime_context \<Rightarrow> (string \<times> string) list" where
  "base_entries host workspace_root identity context =
     [(''bootstrap.workspace_root'', workspace_root),
      (''identity.uid'', u32_to_string (id_uid identity)), (''identity.gid'', u32_to_string (id_gid identity)),
      (''identity.user'', id_user identity), (''identity.home'', id_home identity),
      (''identity.target'', id_user identity), (''context.cwd'', rc_cwd context),
      (''context.os'', hv_os host), (''context.arch'', hv_arch host)]"

definition input_entries :: "resolved_inputs \<Rightarrow> (string \<times> string) list" where
  "input_entries inputs = map (\<lambda>(name, input). (''input.'' @ name, ri_raw input)) inputs"

definition env_entries :: "runtime_context \<Rightarrow> (string \<times> string) list" where
  "env_entries context = map (\<lambda>(name, v). (''env.'' @ name, v)) (rc_env context)"

definition condition_values :: "host_view \<Rightarrow> condition_context \<Rightarrow> (string, string) btree_map" where
  "condition_values host cx =
     btree_collect (base_entries host (cc_workspace_root cx) (cc_identity cx) (cc_runtime cx) @
       input_entries (cc_inputs cx) @ env_entries (cc_runtime cx))"

definition condition_render :: "host_view \<Rightarrow> condition_context \<Rightarrow> path_template \<Rightarrow> (core_error, string) result" where
  "condition_render host cx template =
     map_err (\<lambda>e. CoreInvalid ''bootstrap condition'' (RenderFailed e)) (render template (condition_values host cx))"

definition reference_value ::
  "host_view \<Rightarrow> condition_context \<Rightarrow> string \<Rightarrow> (core_error, comparable_value) result" where
  "reference_value host cx reference =
     (let identity = cc_identity cx; ok = (\<lambda>s. Inr (ComparableString s)) in
      if reference = ''identity.uid'' then ok (u32_to_string (id_uid identity))
      else if reference = ''identity.gid'' then ok (u32_to_string (id_gid identity))
      else if reference = ''identity.user'' then ok (id_user identity)
      else if reference = ''identity.home'' then ok (id_home identity)
      else if reference = ''identity.target'' then ok (id_user identity)
      else if reference = ''context.cwd'' then ok (rc_cwd (cc_runtime cx))
      else if reference = ''context.os'' then ok (hv_os host)
      else if reference = ''context.arch'' then ok (hv_arch host)
      else if starts_with reference ''input.'' then
        rbind (ok_or (CoreInvalid ''bootstrap condition'' (RuntimeInputNotSet reference))
          (inputs_value (cc_inputs cx) (drop 6 reference))) ok
      else if starts_with reference ''env.'' then
        rbind (ok_or (CoreInvalid ''bootstrap condition'' (EnvironmentNotSet reference))
          (btree_get (drop 4 reference) (rc_env (cc_runtime cx)))) ok
      else Inl (CoreInvalid ''bootstrap condition'' (CannotEvaluate reference)))"

fun condition_value_of ::
  "host_view \<Rightarrow> condition_context \<Rightarrow> condition_value \<Rightarrow> (core_error, comparable_value) result" where
  "condition_value_of host cx (Literal s) = Inr (ComparableString s)"
| "condition_value_of host cx (BooleanValue b) = Inr (ComparableBool b)"
| "condition_value_of host cx (Reference reference) = reference_value host cx reference"

fun evaluate :: "host_view \<Rightarrow> condition_context \<Rightarrow> condition \<Rightarrow> (core_error, bool) result"
  and evaluate_and :: "host_view \<Rightarrow> condition_context \<Rightarrow> condition list \<Rightarrow> (core_error, bool) result"
  and evaluate_or :: "host_view \<Rightarrow> condition_context \<Rightarrow> condition list \<Rightarrow> (core_error, bool) result" where
  "evaluate host cx Always = Inr True"
| "evaluate host cx (Boolean b) = Inr b"
| "evaluate host cx ContextPathExistsOrCreate = Inr True"
| "evaluate host cx (Exists path) = rbind (condition_render host cx path) (\<lambda>p. Inr (hv_exists host p))"
| "evaluate host cx (Writable path) = rbind (condition_render host cx path) (\<lambda>p. Inr (hv_writable host p))"
| "evaluate host cx (InputSet name) = Inr (contains_key name (cc_inputs cx))"
| "evaluate host cx (Feature feature) = Inr (feature \<in> set (rc_features (cc_runtime cx)))"
| "evaluate host cx (CEqual left right) =
     rbind (condition_value_of host cx left) (\<lambda>l. rbind (condition_value_of host cx right) (\<lambda>r. Inr (l = r)))"
| "evaluate host cx (CNotEqual left right) =
     rbind (condition_value_of host cx left) (\<lambda>l. rbind (condition_value_of host cx right) (\<lambda>r. Inr (l \<noteq> r)))"
| "evaluate host cx (CAnd conditions) = evaluate_and host cx conditions"
| "evaluate host cx (COr conditions) = evaluate_or host cx conditions"
| "evaluate host cx (CNot condition) = rbind (evaluate host cx condition) (\<lambda>b. Inr (\<not> b))"
| "evaluate_and host cx [] = Inr True"
| "evaluate_and host cx (c # cs) =
     rbind (evaluate host cx c) (\<lambda>b. if \<not> b then Inr False else evaluate_and host cx cs)"
| "evaluate_or host cx [] = Inr False"
| "evaluate_or host cx (c # cs) =
     rbind (evaluate host cx c) (\<lambda>b. if b then Inr True else evaluate_or host cx cs)"

section \<open>Inputs that do not depend on the request\<close>

lemma get_fold_aliases:
  assumes "btree_wf m"
  shows "btree_wf (fold (\<lambda>alias. btree_insert alias input) aliases m) \<and>
    btree_get n (fold (\<lambda>alias. btree_insert alias input) aliases m) =
      (if n \<in> set aliases then Some input else btree_get n m)"
  using assms by (induction aliases arbitrary: m) (auto simp: btree_get_insert btree_wf_insert)

lemma resolve_input_step:
  assumes "resolve_input context resolved (name, d) = Inr resolved'" "btree_wf resolved"
  shows "btree_wf resolved'"
    and "n \<notin> set (name # in_aliases d) \<Longrightarrow> btree_get n resolved' = btree_get n resolved"
    and "n \<in> set (name # in_aliases d) \<Longrightarrow> btree_get n resolved' =
      (case declared_value name d context of
         None \<Rightarrow> btree_get n resolved
       | Some raw \<Rightarrow> (case parse_value d raw of
           Inl _ \<Rightarrow> None
         | Inr parsed \<Rightarrow> Some \<lparr>ri_name = name, ri_raw = raw, ri_parsed = to_runtime_value parsed\<rparr>))"
  using assms get_fold_aliases [OF btree_wf_insert [OF assms(2)]]
  by (auto simp: resolve_input_def rbind_Inr_iff map_err_Inr_iff Let_def btree_get_insert split: option.splits)

definition same_outside :: "string set \<Rightarrow> resolved_inputs \<Rightarrow> resolved_inputs \<Rightarrow> bool" where
  "same_outside ns m m' \<longleftrightarrow> btree_wf m \<and> btree_wf m' \<and> (\<forall>n. n \<notin> ns \<longrightarrow> btree_get n m = btree_get n m')"

lemma resolve_input_same:
  assumes "resolve_input context m (name, d) = Inr r" "resolve_input context' m' (name, d) = Inr r'"
    and "same_outside ns m m'" "in_runtime d \<Longrightarrow> set (name # in_aliases d) \<subseteq> ns"
  shows "same_outside ns r r'"
proof -
  have wf: "btree_wf m" "btree_wf m'" using assms(3) by (simp_all add: same_outside_def)
  note step = resolve_input_step [OF assms(1) wf(1)] and step' = resolve_input_step [OF assms(2) wf(2)]
  have "btree_get n r = btree_get n r'" if "n \<notin> ns" for n
  proof (cases "n \<in> set (name # in_aliases d)")
    case False
    with that assms(3) step(2) step'(2) show ?thesis by (simp add: same_outside_def)
  next
    case True
    with that assms(4) have "\<not> in_runtime d" by blast
    then have "declared_value name d context = declared_value name d context'" by (simp add: declared_value_def)
    with True that assms(3) step(3) step'(3) show ?thesis
      by (simp add: same_outside_def split: option.splits)
  qed
  with step(1) step'(1) show ?thesis by (simp add: same_outside_def)
qed

lemma resolve_fold_same:
  assumes "fold_result (resolve_input context) m ds = Inr r" "fold_result (resolve_input context') m' ds = Inr r'"
    and "same_outside ns m m'" "\<And>name d. (name, d) \<in> set ds \<Longrightarrow> in_runtime d \<Longrightarrow> set (name # in_aliases d) \<subseteq> ns"
  shows "same_outside ns r r'"
  using assms
proof (induction ds arbitrary: m m')
  case (Cons d ds)
  obtain name decl where d: "d = (name, decl)" by (cases d)
  from Cons.prems(1,2) obtain m1 m1' where steps: "resolve_input context m d = Inr m1"
      "resolve_input context' m' d = Inr m1'"
    and rest: "fold_result (resolve_input context) m1 ds = Inr r" "fold_result (resolve_input context') m1' ds = Inr r'"
    by (auto simp: rbind_Inr_iff)
  have "same_outside ns m1 m1'"
    using resolve_input_same [OF steps [unfolded d] Cons.prems(3)] Cons.prems(4) [of name decl] d by auto
  with rest Cons.prems(4) show ?case by (intro Cons.IH) auto
qed simp

lemma resolve_inputs_same:
  assumes "resolve_inputs config context = Inr r" "resolve_inputs config context' = Inr r'"
  shows "same_outside (set (runtime_input_names config)) r r'"
proof (rule resolve_fold_same [OF assms [unfolded resolve_inputs_def]])
  show "same_outside (set (runtime_input_names config)) [] []"
    by (simp add: same_outside_def btree_wf_def)
  show "set (name # in_aliases d) \<subseteq> set (runtime_input_names config)"
    if "(name, d) \<in> set (bc_inputs config)" "in_runtime d" for name d
    using that by (force simp: runtime_input_names_def set_collect_props)
qed

section \<open>Conditions that do not depend on the request\<close>

text \<open>Two contexts of the same host that may differ in everything a request brings.\<close>

definition same_startup :: "string list \<Rightarrow> condition_context \<Rightarrow> condition_context \<Rightarrow> bool" where
  "same_startup ns cx cx' \<longleftrightarrow>
     same_outside (set ns) (cc_inputs cx) (cc_inputs cx') \<and> cc_workspace_root cx = cc_workspace_root cx' \<and>
     rc_cwd (cc_runtime cx) = rc_cwd (cc_runtime cx') \<and> rc_features (cc_runtime cx) = rc_features (cc_runtime cx')"

lemma map_of_rev_wf: "btree_wf m \<Longrightarrow> map_of (rev m) = map_of m"
  by (intro ext map_of_eqI) (auto simp: btree_wf_def strict_sorted_iff rev_map [symmetric] map_of_eq_Some_iff)

lemma map_of_prefixed:
  "map_of (map (\<lambda>(n, v). (p @ n, f v)) xs) r =
     (if prefix p r then map_option f (map_of xs (drop (length p) r)) else None)"
  by (induction xs) (auto simp: prefix_def)

lemma not_scoped:
  assumes "\<not> request_scoped ns r"
  shows "\<not> prefix ''env.'' r" "\<not> prefix ''identity.'' r" "prefix ''input.'' r \<Longrightarrow> drop 6 r \<notin> set ns"
  using assms by (auto simp: request_scoped_def prefix_def)

lemma env_entries_get: "\<not> prefix ''env.'' r \<Longrightarrow> map_of (rev (env_entries context)) r = None"
  using map_of_prefixed [of "''env.''" "\<lambda>v. v" "rev (rc_env context)" r] by (simp add: env_entries_def rev_map)

lemma input_entries_get:
  assumes "btree_wf m"
  shows "map_of (rev (input_entries m)) r =
     (if prefix ''input.'' r then inputs_value m (drop 6 r) else None)"
proof -
  have six: "length ''input.'' = 6" by simp
  show ?thesis
    unfolding input_entries_def rev_map map_of_prefixed six inputs_value_def btree_get_def map_of_rev_wf [OF assms] ..
qed

lemma base_entries_get:
  assumes "\<not> prefix ''identity.'' r" "rc_cwd context = rc_cwd context'"
  shows "map_of (rev (base_entries host root identity context)) r = map_of (rev (base_entries host root identity' context')) r"
proof -
  have "r \<noteq> ''identity.uid''" "r \<noteq> ''identity.gid''" "r \<noteq> ''identity.user''" "r \<noteq> ''identity.home''"
    "r \<noteq> ''identity.target''" using assms(1) by auto
  then show ?thesis using assms(2) by (simp add: base_entries_def)
qed

lemma condition_values_same:
  assumes "same_startup ns cx cx'" "\<not> request_scoped ns r"
  shows "btree_get r (condition_values host cx) = btree_get r (condition_values host cx')"
proof -
  note r = not_scoped [OF assms(2)]
  from assms(1) have same: "btree_wf (cc_inputs cx)" "btree_wf (cc_inputs cx')"
      "cc_workspace_root cx = cc_workspace_root cx'" "rc_cwd (cc_runtime cx) = rc_cwd (cc_runtime cx')"
    by (simp_all add: same_startup_def same_outside_def)
  have "prefix ''input.'' r \<Longrightarrow> inputs_value (cc_inputs cx) (drop 6 r) = inputs_value (cc_inputs cx') (drop 6 r)"
    using assms(1) r(3) by (simp add: same_startup_def same_outside_def inputs_value_def)
  then show ?thesis
    using base_entries_get [OF r(2) same(4), of host "cc_workspace_root cx'"]
    by (simp add: condition_values_def btree_get_collect map_add_def env_entries_get [OF r(1)]
        input_entries_get same(1-3) split: option.splits)
qed

text \<open>The templates of a parsed condition are well formed.\<close>

fun templates_ok :: "condition \<Rightarrow> bool" where
  "templates_ok (Exists path) = (validate_interpolations ''path'' path = Inr ())"
| "templates_ok (Writable path) = (validate_interpolations ''path'' path = Inr ())"
| "templates_ok (CAnd cs) = list_all templates_ok cs"
| "templates_ok (COr cs) = list_all templates_ok cs"
| "templates_ok (CNot c) = templates_ok c"
| "templates_ok _ = True"

lemma path_template_ok: "path_template_new s = Inr t \<Longrightarrow> validate_interpolations ''path'' t = Inr ()"
  by (auto simp: path_template_new_def rbind_Inr_iff validate_template_def)

lemma parse_atom_templates: "parse_atom input = Inr c \<Longrightarrow> templates_ok c"
  unfolding parse_atom_def
  by (auto simp: rbind_Inr_iff path_template_ok split: if_splits option.splits)

lemma collect_templates:
  assumes "collect_results (map from_shared es) = Inr cs"
    and "\<And>e c. e \<in> set es \<Longrightarrow> from_shared e = Inr c \<Longrightarrow> templates_ok c"
  shows "list_all templates_ok cs"
proof -
  from assms(1) have "list_all2 (\<lambda>e c. from_shared e = Inr c) es cs" by (simp add: collect_results_map_Inr_iff)
  then show ?thesis using assms(2) by (induction rule: list_all2_induct) auto
qed

lemma from_shared_templates: "from_shared e = Inr c \<Longrightarrow> templates_ok c"
proof (induction e arbitrary: c rule: from_shared.induct)
  case (1 input)
  then show ?case by (simp add: parse_atom_templates)
next
  case (4 children)
  then obtain cs where cs: "collect_results (map from_shared children) = Inr cs" "c = CAnd cs"
    by (auto simp: rbind_Inr_iff)
  show ?case using collect_templates [OF cs(1)] 4(1) cs(2) by auto
next
  case (5 children)
  then obtain cs where cs: "collect_results (map from_shared children) = Inr cs" "c = COr cs"
    by (auto simp: rbind_Inr_iff)
  show ?case using collect_templates [OF cs(1)] 5(1) cs(2) by auto
qed (auto simp: rbind_Inr_iff)

lemma action_condition_templates: "action_condition a = Inr c \<Longrightarrow> templates_ok c"
  by (auto simp: action_condition_def condition_parse_def rbind_Inr_iff Let_def from_shared_templates
      split: option.splits if_splits)

lemma condition_render_same:
  assumes "same_startup ns cx cx'" "runtime_reference path ns = None" "validate_interpolations loc path = Inr ()"
  shows "condition_render host cx path = condition_render host cx' path"
proof -
  have "render path (condition_values host cx) = render path (condition_values host cx')"
    using assms(3,2) condition_values_same [OF assms(1)] by (rule runtime_invariant_render)
  then show ?thesis by (simp add: condition_render_def)
qed

lemma value_reference_input:
  "prefix ''input.'' r \<Longrightarrow> is_some_and (\<lambda>name. name \<in> set ns) (strip_prefix ''input.'' r) \<longleftrightarrow> drop 6 r \<in> set ns"
  by (auto simp: strip_prefix_def prefix_def)

lemma condition_value_same:
  assumes "same_startup ns cx cx'" "value_reference v ns = None"
  shows "condition_value_of host cx v = condition_value_of host cx' v"
proof (cases v)
  case (Reference r)
  have r: "\<not> prefix ''identity.'' r" "\<not> prefix ''env.'' r" "prefix ''input.'' r \<Longrightarrow> drop 6 r \<notin> set ns"
    using assms(2) value_reference_input [of r ns]
    by (auto simp: Reference value_reference_def split: if_splits)
  have no: "r \<noteq> ''identity.uid''" "r \<noteq> ''identity.gid''" "r \<noteq> ''identity.user''" "r \<noteq> ''identity.home''"
    "r \<noteq> ''identity.target''" using r(1) by auto
  have "prefix ''input.'' r \<Longrightarrow> inputs_value (cc_inputs cx) (drop 6 r) = inputs_value (cc_inputs cx') (drop 6 r)"
    using assms(1) r(3) by (simp add: same_startup_def same_outside_def inputs_value_def)
  with no r(2) assms(1) show ?thesis
    by (simp add: Reference reference_value_def Let_def same_startup_def)
qed simp_all

lemma evaluate_list_same:
  assumes "\<And>c. c \<in> set cs \<Longrightarrow> evaluate host cx c = evaluate host cx' c"
  shows "evaluate_and host cx cs = evaluate_and host cx' cs" "evaluate_or host cx cs = evaluate_or host cx' cs"
  using assms by (induction cs) (auto intro!: rbind_cong)

lemma evaluate_same:
  assumes "same_startup ns cx cx'" "templates_ok c" "condition_runtime_reference c ns = None"
  shows "evaluate host cx c = evaluate host cx' c"
  using assms(2,3)
proof (induction c)
  case (InputSet name)
  with assms(1) show ?case by (auto simp: same_startup_def same_outside_def contains_key_def split: if_splits)
next
  case (CEqual l r)
  then show ?case
    using condition_value_same [OF assms(1)] by (auto simp: opt_or_def split: option.splits)
next
  case (CNotEqual l r)
  then show ?case
    using condition_value_same [OF assms(1)] by (auto simp: opt_or_def split: option.splits)
next
  case (CAnd cs)
  then show ?case using evaluate_list_same(1) [of cs host cx cx'] by (simp add: list_all_iff find_map_None_iff)
next
  case (COr cs)
  then show ?case using evaluate_list_same(2) [of cs host cx cx'] by (simp add: list_all_iff find_map_None_iff)
next
  case (Exists path)
  then show ?case using condition_render_same [OF assms(1)] by simp
next
  case (Writable path)
  then show ?case using condition_render_same [OF assms(1)] by simp
qed (use assms(1) in \<open>simp_all add: same_startup_def\<close>)

lemma startup_condition_not_runtime:
  assumes "config_validate c = Inr ()" "a \<in> set (bc_actions c)" "\<not> is_workspace (or_source (ac_origin a))"
    "ac_kind a \<notin> set rerun_kinds" "action_condition a = Inr condition"
  shows "condition_runtime_reference condition (runtime_input_names c) = None"
proof (cases "ac_when a")
  case None
  with assms(5) show ?thesis by (auto simp: action_condition_def)
next
  case (Some t)
  then have "condition_parse t = Inr condition" using assms(5) by (simp add: action_condition_def)
  moreover have "validate_action_invariance (runtime_input_names c) a = Inr ()"
    using config_validate_Inr(4) [OF assms(1,2)] .
  ultimately show ?thesis
    using assms(3,4) Some by (auto simp: validate_action_invariance_def rbind_Inr_iff when_some_Inr_iff when_some_def
      split: option.splits)
qed

section \<open>Properties\<close>

text \<open>
  Whether a startup action runs does not depend on the request. Its condition is evaluated
  once, at startup, so in a validated configuration the condition of an action that is neither
  a workspace action nor of a kind that is rerun has the same outcome (value or error) for any
  two requests on the same host: whatever their identities, environments, command-line inputs
  and resolved inputs are, as long as the working directory and the features are the same.
\<close>

theorem startup_condition_request_independent:
  assumes "config_validate c = Inr ()" and "a \<in> set (bc_actions c)"
    and "\<not> is_workspace (or_source (ac_origin a))" and "ac_kind a \<notin> set rerun_kinds"
    and "action_condition a = Inr condition"
    and "resolve_inputs c context = Inr inputs" and "resolve_inputs c context' = Inr inputs'"
    and "rc_cwd context = rc_cwd context'" and "rc_features context = rc_features context'"
  shows "evaluate host \<lparr>cc_identity = identity, cc_inputs = inputs, cc_runtime = context,
        cc_workspace_root = bc_workspace_root c\<rparr> condition =
      evaluate host \<lparr>cc_identity = identity', cc_inputs = inputs', cc_runtime = context',
        cc_workspace_root = bc_workspace_root c\<rparr> condition"
proof (rule evaluate_same)
  show "templates_ok condition" using assms(5) by (rule action_condition_templates)
  show "condition_runtime_reference condition (runtime_input_names c) = None"
    using assms(1-5) by (rule startup_condition_not_runtime)
qed (use assms(8,9) resolve_inputs_same [OF assms(6,7)] in \<open>simp add: same_startup_def\<close>)

definition conditional_actions :: "action list" where
  "conditional_actions =
     [(action_new ''gpu'' FilesystemEnsureDir (origin_image ''base''))
        \<lparr>ac_path := Some ''/run/gpu'', ac_run_as := RunRoot,
         ac_when := Some ''exists(${context.cwd}/gpu) && feature:gpu''\<rparr>]"

definition conditional_config :: bootstrap_config where
  "conditional_config = sample_config\<lparr>bc_actions := conditional_actions\<rparr>"

lemma conditional_config_valid: "config_validate conditional_config = Inr ()"
  unfolding conditional_config_def
proof (rule sample_with_actions_valid)
  show "length conditional_actions \<le> MAX_BOOTSTRAP_ACTIONS"
    by (simp add: conditional_actions_def MAX_BOOTSTRAP_ACTIONS_def)
qed code_simp+

theorem startup_condition_request_independent_witness:
  "\<forall>host identity identity'. evaluate host \<lparr>cc_identity = identity, cc_inputs = [], cc_runtime = runtime_context_new ''/w'',
      cc_workspace_root = ''/workspace''\<rparr> (CAnd [Exists ''${context.cwd}/gpu'', Feature ''gpu'']) =
   evaluate host \<lparr>cc_identity = identity', cc_inputs = [],
      cc_runtime = with_environment [(''HOME'', ''/root'')] (runtime_context_new ''/w''),
      cc_workspace_root = ''/workspace''\<rparr> (CAnd [Exists ''${context.cwd}/gpu'', Feature ''gpu''])"
proof -
  let ?a = "hd conditional_actions"
  have a: "?a \<in> set (bc_actions conditional_config)"
    by (simp add: conditional_config_def conditional_actions_def)
  have image: "\<not> is_workspace (or_source (ac_origin ?a))" "ac_kind ?a \<notin> set rerun_kinds" by code_simp+
  have cond: "action_condition ?a = Inr (CAnd [Exists ''${context.cwd}/gpu'', Feature ''gpu''])" by code_simp
  have inputs: "resolve_inputs conditional_config cx = Inr []" for cx
    by (simp add: resolve_inputs_def conditional_config_def sample_config_def bootstrap_config_new_def)
  have root: "bc_workspace_root conditional_config = ''/workspace''" by code_simp
  show ?thesis
    using startup_condition_request_independent [OF conditional_config_valid a image cond inputs inputs,
        of "runtime_context_new ''/w''" "with_environment [(''HOME'', ''/root'')] (runtime_context_new ''/w'')"]
    by (simp add: root with_environment_def runtime_context_new_def)
qed

end
