(* ===== verification/Effects.thy ===== *)
theory Effects
  imports Prelude
begin

text \<open>
  Fallible code that changes state. A computation takes the state and returns its result
  together with the new state; an error keeps the state reached so far, because what the
  program did before failing is not undone. \<open>ebind\<close> is sequencing with the \<open>?\<close> operator.
\<close>

type_synonym ('s, 'e, 'a) effect = "'s \<Rightarrow> ('e, 'a) result \<times> 's"

definition eret :: "'a \<Rightarrow> ('s, 'e, 'a) effect" where
  "eret x s = (Inr x, s)"

definition efail :: "'e \<Rightarrow> ('s, 'e, 'a) effect" where
  "efail e s = (Inl e, s)"

definition elift :: "('e, 'a) result \<Rightarrow> ('s, 'e, 'a) effect" where
  "elift r s = (r, s)"

definition egets :: "('s \<Rightarrow> ('e, 'a) result) \<Rightarrow> ('s, 'e, 'a) effect" where
  "egets f s = (f s, s)"

definition ebind :: "('s, 'e, 'a) effect \<Rightarrow> ('a \<Rightarrow> ('s, 'e, 'b) effect) \<Rightarrow> ('s, 'e, 'b) effect" where
  "ebind m f s = (case m s of (Inl e, s') \<Rightarrow> (Inl e, s') | (Inr x, s') \<Rightarrow> f x s')"

definition emap_err :: "('e \<Rightarrow> 'f) \<Rightarrow> ('s, 'e, 'a) effect \<Rightarrow> ('s, 'f, 'a) effect" where
  "emap_err g m s = (let (r, s') = m s in (map_err g r, s'))"

text \<open>\<open>if let Some(x) = o \{ f(x)?; \}\<close> and \<open>for x in xs \{ f(x)?; \}\<close>\<close>

definition ewhen_some :: "'a option \<Rightarrow> ('a \<Rightarrow> ('s, 'e, unit) effect) \<Rightarrow> ('s, 'e, unit) effect" where
  "ewhen_some x f = (case x of None \<Rightarrow> eret () | Some v \<Rightarrow> f v)"

fun efor_each :: "('a \<Rightarrow> ('s, 'e, unit) effect) \<Rightarrow> 'a list \<Rightarrow> ('s, 'e, unit) effect" where
  "efor_each f [] = eret ()"
| "efor_each f (x # xs) = ebind (f x) (\<lambda>_. efor_each f xs)"

lemma eret_apply [simp]: "eret x s = (Inr x, s)"
  by (simp add: eret_def)

lemma efail_apply [simp]: "efail e s = (Inl e, s)"
  by (simp add: efail_def)

lemma elift_apply [simp]: "elift r s = (r, s)"
  by (simp add: elift_def)

lemma egets_apply [simp]: "egets f s = (f s, s)"
  by (simp add: egets_def)

lemma ebind_Inr_iff:
  "ebind m f s = (Inr y, s') \<longleftrightarrow> (\<exists>x s1. m s = (Inr x, s1) \<and> f x s1 = (Inr y, s'))"
  by (auto simp: ebind_def split: prod.splits sum.splits)

lemma ebind_Inl_iff:
  "ebind m f s = (Inl e, s') \<longleftrightarrow> m s = (Inl e, s') \<or> (\<exists>x s1. m s = (Inr x, s1) \<and> f x s1 = (Inl e, s'))"
  by (auto simp: ebind_def split: prod.splits sum.splits)

lemma ebind_Inr [simp]: "m s = (Inr x, s1) \<Longrightarrow> ebind m f s = f x s1"
  by (simp add: ebind_def)

lemma ebind_Inl [simp]: "m s = (Inl e, s1) \<Longrightarrow> ebind m f s = (Inl e, s1)"
  by (simp add: ebind_def)

lemma ebind_assoc: "ebind (ebind m f) g = ebind m (\<lambda>x. ebind (f x) g)"
  by (intro ext) (auto simp: ebind_def split: prod.splits sum.splits)

text \<open>
  \<open>keeps P m\<close>: whatever its result, \<open>m\<close> leads from a state to one related by \<open>P\<close>. For a
  reflexive and transitive \<open>P\<close> the combinators preserve it, so it is shown primitive by primitive.
\<close>

definition keeps :: "('s \<Rightarrow> 's \<Rightarrow> bool) \<Rightarrow> ('s, 'e, 'a) effect \<Rightarrow> bool" where
  "keeps P m \<longleftrightarrow> (\<forall>s. P s (snd (m s)))"

locale frame =
  fixes P :: "'s \<Rightarrow> 's \<Rightarrow> bool"
  assumes refl: "P s s" and trans: "P s t \<Longrightarrow> P t u \<Longrightarrow> P s u"
begin

lemma keeps_pure: "keeps P (eret x)" "keeps P (efail e)" "keeps P (elift r)" "keeps P (egets f)"
  by (simp_all add: keeps_def refl)

lemma keeps_bind_at:
  assumes "P s (snd (m s))" "\<And>x. keeps P (f x)"
  shows "P s (snd (ebind m f s))"
proof -
  obtain r s1 where m: "m s = (r, s1)" by (cases "m s")
  with assms(1) have s1: "P s s1" by simp
  show ?thesis
  proof (cases r)
    case (Inl e)
    with m s1 show ?thesis by simp
  next
    case (Inr x)
    with m have "snd (ebind m f s) = snd (f x s1)" by simp
    with s1 assms(2) [of x] show ?thesis by (metis keeps_def trans)
  qed
qed

lemma keeps_bind:
  assumes "keeps P m" "\<And>x. keeps P (f x)"
  shows "keeps P (ebind m f)"
  using assms by (auto simp: keeps_def intro!: keeps_bind_at)

lemma keeps_map_err: "keeps P m \<Longrightarrow> keeps P (emap_err g m)"
  by (auto simp: keeps_def emap_err_def split: prod.splits) (metis snd_conv)

lemma keeps_when_some: "(\<And>x. keeps P (f x)) \<Longrightarrow> keeps P (ewhen_some v f)"
  by (cases v) (auto simp: ewhen_some_def keeps_pure)

lemma keeps_for_each: "(\<And>x. x \<in> set xs \<Longrightarrow> keeps P (f x)) \<Longrightarrow> keeps P (efor_each f xs)"
  by (induction xs) (auto simp: keeps_pure intro!: keeps_bind)

lemma keeps_if: "(b \<Longrightarrow> keeps P m) \<Longrightarrow> (\<not> b \<Longrightarrow> keeps P m') \<Longrightarrow> keeps P (if b then m else m')"
  by simp

lemmas keeps_rules = keeps_pure keeps_bind keeps_map_err keeps_when_some keeps_for_each keeps_if

end

end
