(* ===== verification/Core_Filesystem.thy ===== *)
theory Core_Filesystem
  imports Core_Condition Effects "HOL-Library.AList"
begin

text \<open>
  The file system actions (\<open>src/crates/container-init-core/src/filesystem.rs\<close>) over an explicit file
  tree. A path stands for the list of its names, looked up without following symbolic links:
  the code checks every component with \<open>lstat\<close> before it uses a path. Which system calls fail
  for other reasons is the parameter \<open>fe_fault\<close>.
\<close>

section \<open>The file tree\<close>

datatype node_kind = Directory | Regular string | Symlink string

record fs_node =
  fn_kind :: node_kind
  fn_mode :: u32
  fn_uid :: u32
  fn_gid :: u32

type_synonym file_tree = "(string list \<times> fs_node) list"

text \<open>
  The process as the file system sees it: its ids and umask, the suffix of temporary names
  (process id and time), the directories that are on another device than their parent, and
  the calls that fail.
\<close>

record fs_env =
  fe_uid :: u32
  fe_gid :: u32
  fe_umask :: u32
  fe_suffix :: string
  fe_mount_point :: "string list \<Rightarrow> bool"
  fe_fault :: "fs_call \<Rightarrow> string list \<Rightarrow> bool"

definition path_names :: "string \<Rightarrow> string list" where
  "path_names path = normal_names (components path)"

definition node_at :: "file_tree \<Rightarrow> string list \<Rightarrow> fs_node option" where
  "node_at tree names = map_of tree names"

definition put_node :: "string list \<Rightarrow> fs_node \<Rightarrow> file_tree \<Rightarrow> file_tree" where
  "put_node names node tree = AList.update names node tree"

definition remove_node :: "string list \<Rightarrow> file_tree \<Rightarrow> file_tree" where
  "remove_node names tree = AList.delete names tree"

text \<open>\<open>lstat\<close>: below something that is not a directory it fails with another error than \<open>NotFound\<close>.\<close>

datatype stat_outcome = Found fs_node | Missing | StatFailed

definition is_directory :: "file_tree \<Rightarrow> string list \<Rightarrow> bool" where
  "is_directory tree names = is_some_and (\<lambda>n. fn_kind n = Directory) (node_at tree names)"

definition stat :: "fs_env \<Rightarrow> file_tree \<Rightarrow> string list \<Rightarrow> stat_outcome" where
  "stat env tree names =
     (if fe_fault env LstatCall names then StatFailed
      else
        case node_at tree names of
          Some n \<Rightarrow> Found n
        | None \<Rightarrow>
            if list_ex (\<lambda>k. is_some_and (\<lambda>n. fn_kind n \<noteq> Directory) (node_at tree (take k names)))
                 [0..<length names]
            then StatFailed else Missing)"

text \<open>\<open>Path::parent\<close> on names: the root has none.\<close>

definition parent_names :: "string list \<Rightarrow> string list option" where
  "parent_names names = (if names = [] then None else Some (butlast names))"

definition names_path :: "string list \<Rightarrow> string" where
  "names_path names = normal_path names"

type_synonym 'a fs_effect = "(file_tree, core_error, 'a) effect"

definition fs_io :: "string \<Rightarrow> string list \<Rightarrow> fs_call \<Rightarrow> core_error" where
  "fs_io action names call = CoreIo (Some action) (Some (names_path names)) (CallFailure call)"

abbreviation fs_action :: "string \<Rightarrow> string list \<Rightarrow> action_failure \<Rightarrow> core_error" where
  "fs_action action names failure \<equiv> CoreAction action (Some (names_path names)) failure"

section \<open>System calls\<close>

definition new_node :: "fs_env \<Rightarrow> node_kind \<Rightarrow> u32 \<Rightarrow> fs_node" where
  "new_node env kind mode =
     \<lparr>fn_kind = kind, fn_mode = and mode (not (fe_umask env)), fn_uid = fe_uid env, fn_gid = fe_gid env\<rparr>"

text \<open>\<open>create_dir_all\<close>: the missing directories from the top down.\<close>

definition make_dir :: "fs_env \<Rightarrow> string \<Rightarrow> string list \<Rightarrow> string list \<Rightarrow> unit fs_effect" where
  "make_dir env action whole names tree =
     (case node_at tree names of
        Some n \<Rightarrow> if fn_kind n = Directory then (Inr (), tree) else (Inl (fs_io action whole MkdirCall), tree)
      | None \<Rightarrow>
          if fe_fault env MkdirCall names then (Inl (fs_io action whole MkdirCall), tree)
          else (Inr (), put_node names (new_node env Directory 511) tree))"

definition create_dir_all :: "fs_env \<Rightarrow> string \<Rightarrow> string list \<Rightarrow> unit fs_effect" where
  "create_dir_all env action names =
     efor_each (make_dir env action names) (map (\<lambda>k. take k names) [1..<length names + 1])"

definition set_mode :: "fs_env \<Rightarrow> string \<Rightarrow> string list \<Rightarrow> u32 \<Rightarrow> unit fs_effect" where
  "set_mode env action names mode tree =
     (case node_at tree names of
        Some n \<Rightarrow>
          if fe_fault env ChmodCall names then (Inl (fs_io action names ChmodCall), tree)
          else (Inr (), put_node names (n\<lparr>fn_mode := mode\<rparr>) tree)
      | None \<Rightarrow> (Inl (fs_io action names ChmodCall), tree))"

text \<open>
  \<open>lchown\<close>: an id of all ones leaves the id as it is; a regular file loses its set-user-id bit,
  and its set-group-id bit when its group may execute it.
\<close>

definition chown_node :: "u32 \<Rightarrow> u32 \<Rightarrow> fs_node \<Rightarrow> fs_node" where
  "chown_node uid gid n =
     n\<lparr>fn_uid := (if uid = - 1 then fn_uid n else uid), fn_gid := (if gid = - 1 then fn_gid n else gid),
       fn_mode := (case fn_kind n of
           Regular _ \<Rightarrow> and (fn_mode n) (not (if and (fn_mode n) 8 = 8 then 3072 else 2048))
         | _ \<Rightarrow> fn_mode n)\<rparr>"

text \<open>\<open>Filesystem::chown\<close> of \<open>container-init-posix\<close>: nothing is done when the ids already match.\<close>

definition posix_chown :: "fs_env \<Rightarrow> string \<Rightarrow> string list \<Rightarrow> u32 \<Rightarrow> u32 \<Rightarrow> unit fs_effect" where
  "posix_chown env action names uid gid tree =
     (case stat env tree names of
        Found n \<Rightarrow>
          if fn_uid n = uid \<and> fn_gid n = gid then (Inr (), tree)
          else if fe_fault env ChownCall names then (Inl (fs_io action names ChownCall), tree)
          else (Inr (), put_node names (chown_node uid gid n) tree)
      | _ \<Rightarrow> (Inl (fs_io action names LstatCall), tree))"

section \<open>Helpers\<close>

definition fs_parse_mode :: "string \<Rightarrow> (core_error, u32) result" where
  "fs_parse_mode value = map_err (\<lambda>m. CoreInvalid ''filesystem mode'' (ModeText m)) (parse_mode value)"

definition owner_ids :: "string \<Rightarrow> resolved_identity \<Rightarrow> (action_failure, u32 \<times> u32) result" where
  "owner_ids owner identity =
     (if owner = ''root'' then Inr (0, 0)
      else if owner = ''identity.target'' then Inr (id_uid identity, id_gid identity)
      else
        rbind (ok_or OwnerTextForm (split_once (CHR '':'') owner)) (\<lambda>(uid, gid).
        rbind (ok_or OwnerUidText (parse_u32 uid)) (\<lambda>uid.
        rbind (ok_or OwnerGidText (parse_u32 gid)) (\<lambda>gid. Inr (uid, gid)))))"

definition chown_with_owner ::
  "fs_env \<Rightarrow> string \<Rightarrow> resolved_identity \<Rightarrow> string list \<Rightarrow> string \<Rightarrow> unit fs_effect" where
  "chown_with_owner env action identity names owner =
     ebind (elift (map_err (fs_action action names) (owner_ids owner identity))) (\<lambda>(uid, gid).
     posix_chown env action names uid gid)"

fun safe_path_loop ::
  "fs_env \<Rightarrow> file_tree \<Rightarrow> string \<Rightarrow> bool \<Rightarrow> string list \<Rightarrow> component list \<Rightarrow> (core_error, unit) result" where
  "safe_path_loop env tree action allow_final current [] = Inr ()"
| "safe_path_loop env tree action allow_final current (Normal name # rest) =
     (let current = current @ [name] in
      case stat env tree current of
        Found n \<Rightarrow>
          (case fn_kind n of
             Symlink _ \<Rightarrow>
               if allow_final \<and> rest = [] then safe_path_loop env tree action allow_final current rest
               else Inl (fs_action action current UnexpectedSymlink)
           | _ \<Rightarrow> safe_path_loop env tree action allow_final current rest)
      | Missing \<Rightarrow> Inr ()
      | StatFailed \<Rightarrow> Inl (fs_io action current LstatCall))"
| "safe_path_loop env tree action allow_final current (_ # rest) =
     safe_path_loop env tree action allow_final current rest"

definition validate_safe_path ::
  "fs_env \<Rightarrow> file_tree \<Rightarrow> string \<Rightarrow> bool \<Rightarrow> string \<Rightarrow> (core_error, unit) result" where
  "validate_safe_path env tree path allow_final action =
     (if \<not> is_absolute path then Inl (CoreAction action (Some path) PathMustBeAbsolute)
      else safe_path_loop env tree action allow_final [] (components path))"

definition validate_recursive_path :: "string \<Rightarrow> string \<Rightarrow> bool \<Rightarrow> (core_error, unit) result" where
  "validate_recursive_path action path recursive =
     rbind (fail_if (list_ex (\<lambda>c. c \<in> {CHR ''*'', CHR ''?'', CHR ''['', CHR '']''}) path)
       (CoreAction action (Some path) WildcardPath)) (\<lambda>_.
     fail_if (recursive \<and> path_names path = []) (CoreAction action (Some path) RecursiveRoot))"

definition render_path ::
  "string \<Rightarrow> string \<Rightarrow> string \<Rightarrow> (string, string) btree_map \<Rightarrow> (core_error, string) result" where
  "render_path action field value values =
     rbind (map_err CoreModel (path_template_new value)) (\<lambda>template.
     map_err (\<lambda>e. CoreInvalid (''bootstrap.actions.'' @ action @ ''.'' @ field) (RenderFailed e))
       (render template values))"

section \<open>Actions\<close>

datatype fs_change =
    DirectoryReconciled | CreatedDirectory | FileReconciled | CreatedFile | SymlinkMatched
  | OwnershipUpdated bool | ModeUpdated bool

definition apply_mode :: "fs_env \<Rightarrow> string \<Rightarrow> string list \<Rightarrow> string option \<Rightarrow> unit fs_effect" where
  "apply_mode env action names mode =
     ewhen_some mode (\<lambda>mode. ebind (elift (fs_parse_mode mode)) (set_mode env action names))"

definition apply_owner ::
  "fs_env \<Rightarrow> string \<Rightarrow> resolved_identity \<Rightarrow> string list \<Rightarrow> string option \<Rightarrow> unit fs_effect" where
  "apply_owner env action identity names owner =
     ewhen_some owner (chown_with_owner env action identity names)"

definition ensure_dir ::
  "fs_env \<Rightarrow> string \<Rightarrow> resolved_identity \<Rightarrow> string \<Rightarrow> string option \<Rightarrow> string option \<Rightarrow> fs_change fs_effect" where
  "ensure_dir env action identity path mode owner =
     (let names = path_names path in
      ebind (egets (\<lambda>tree. validate_safe_path env tree path False action)) (\<lambda>_.
      ebind (\<lambda>tree. case stat env tree names of
          Found n \<Rightarrow>
            if fn_kind n \<noteq> Directory then (Inl (fs_action action names ExistsNotDirectory), tree)
            else (Inr True, tree)
        | Missing \<Rightarrow> ebind (create_dir_all env action names) (\<lambda>_. eret False) tree
        | StatFailed \<Rightarrow> (Inl (fs_io action names LstatCall), tree)) (\<lambda>existed.
      ebind (apply_mode env action names mode) (\<lambda>_.
      ebind (apply_owner env action identity names owner) (\<lambda>_.
      eret (if existed then DirectoryReconciled else CreatedDirectory))))))"

text \<open>
  The temporary file of \<open>ensure_file\<close>: \<open>create_new\<close> fails if it exists; after an error it is removed,
  and a failure to remove it is ignored.
\<close>

definition temporary_names :: "fs_env \<Rightarrow> string list \<Rightarrow> string list" where
  "temporary_names env names =
     butlast names @ [''.'' @ (if names = [] then ''file'' else last names) @ ''.container-init-'' @ fe_suffix env]"

definition open_temporary :: "fs_env \<Rightarrow> string \<Rightarrow> string list \<Rightarrow> u32 \<Rightarrow> unit fs_effect" where
  "open_temporary env action temporary mode tree =
     (if fe_fault env OpenCall temporary \<or> node_at tree temporary \<noteq> None
      then (Inl (fs_io action temporary OpenCall), tree)
      else (Inr (), put_node temporary (new_node env (Regular []) mode) tree))"

definition write_temporary :: "fs_env \<Rightarrow> string list \<Rightarrow> string \<Rightarrow> (file_tree, fs_call, unit) effect" where
  "write_temporary env temporary content tree =
     (if fe_fault env WriteCall temporary then (Inl WriteCall, tree)
      else
        case node_at tree temporary of
          None \<Rightarrow> (Inl WriteCall, tree)
        | Some n \<Rightarrow> (Inr (), put_node temporary (n\<lparr>fn_kind := Regular content\<rparr>) tree))"

definition rename_temporary :: "fs_env \<Rightarrow> string list \<Rightarrow> string list \<Rightarrow> (file_tree, fs_call, unit) effect" where
  "rename_temporary env temporary names tree =
     (if fe_fault env RenameCall names then (Inl RenameCall, tree)
      else
        case node_at tree temporary of
          None \<Rightarrow> (Inl RenameCall, tree)
        | Some n \<Rightarrow> (Inr (), put_node names n (remove_node temporary tree)))"

definition create_file :: "fs_env \<Rightarrow> string \<Rightarrow> string list \<Rightarrow> string \<Rightarrow> u32 \<Rightarrow> unit fs_effect" where
  "create_file env action names content mode =
     (let temporary = temporary_names env names in
      ebind (open_temporary env action temporary mode) (\<lambda>_ tree.
        case ebind (write_temporary env temporary content) (\<lambda>_. rename_temporary env temporary names) tree of
          (Inr _, tree) \<Rightarrow> (Inr (), tree)
        | (Inl call, tree) \<Rightarrow>
            (Inl (fs_io action names call),
             if fe_fault env RemoveCall temporary then tree else remove_node temporary tree)))"

definition check_existing_file ::
  "fs_env \<Rightarrow> string \<Rightarrow> string list \<Rightarrow> string option \<Rightarrow> file_tree \<Rightarrow> (core_error, bool) result" where
  "check_existing_file env action names content tree =
     (case stat env tree names of
        Found n \<Rightarrow>
          (case fn_kind n of
             Regular actual \<Rightarrow>
               (case content of
                  None \<Rightarrow> Inr True
                | Some expected \<Rightarrow>
                    if fe_fault env ReadCall names then Inl (fs_io action names ReadCall)
                    else if actual \<noteq> expected then Inl (fs_action action names ContentDiffers)
                    else Inr True)
           | _ \<Rightarrow> Inl (fs_action action names ExistsNotRegular))
      | Missing \<Rightarrow> Inr False
      | StatFailed \<Rightarrow> Inl (fs_io action names LstatCall))"

definition ensure_parent :: "fs_env \<Rightarrow> string \<Rightarrow> string list \<Rightarrow> unit fs_effect" where
  "ensure_parent env action names =
     ewhen_some (parent_names names) (\<lambda>parent.
       ebind (egets (\<lambda>tree. validate_safe_path env tree (names_path parent) False action)) (\<lambda>_.
       create_dir_all env action parent))"

definition ensure_file ::
  "fs_env \<Rightarrow> string \<Rightarrow> resolved_identity \<Rightarrow> string \<Rightarrow> string option \<Rightarrow> string option \<Rightarrow> string option \<Rightarrow>
   fs_change fs_effect" where
  "ensure_file env action identity path content mode owner =
     (let names = path_names path in
      ebind (egets (\<lambda>tree. validate_safe_path env tree path False action)) (\<lambda>_.
      ebind (ensure_parent env action names) (\<lambda>_.
      ebind (egets (check_existing_file env action names content)) (\<lambda>existed.
      ebind (if existed then eret ()
             else ebind (elift (case mode of None \<Rightarrow> Inr 420 | Some m \<Rightarrow> fs_parse_mode m))
               (create_file env action names (unwrap_or [] content))) (\<lambda>_.
      ebind (apply_mode env action names mode) (\<lambda>_.
      ebind (apply_owner env action identity names owner) (\<lambda>_.
      eret (if existed then FileReconciled else CreatedFile))))))))"

definition link_step :: "fs_env \<Rightarrow> string \<Rightarrow> string list \<Rightarrow> string \<Rightarrow> unit fs_effect" where
  "link_step env action names target tree =
     (case stat env tree names of
        Found n \<Rightarrow>
          (case fn_kind n of
             Symlink actual \<Rightarrow>
               if fe_fault env ReadlinkCall names then (Inl (fs_io action names ReadlinkCall), tree)
               else if components actual \<noteq> components target
               then (Inl (fs_action action names (SymlinkDiffers actual target)), tree)
               else (Inr (), tree)
           | kind \<Rightarrow>
               (Inl (fs_action action names
                 (if kind = Directory \<and> (names = [] \<or> fe_mount_point env names) then ExistingMountPoint
                  else ExistingReal)), tree))
      | Missing \<Rightarrow>
          if fe_fault env SymlinkCall names then (Inl (fs_io action names SymlinkCall), tree)
          else (Inr (), put_node names
            \<lparr>fn_kind = Symlink target, fn_mode = 511, fn_uid = fe_uid env, fn_gid = fe_gid env\<rparr> tree)
      | StatFailed \<Rightarrow> (Inl (fs_io action names LstatCall), tree))"

definition link_parent :: "fs_env \<Rightarrow> string \<Rightarrow> string list \<Rightarrow> string option \<Rightarrow> unit fs_effect" where
  "link_parent env action names parent_mode =
     ewhen_some (parent_names names) (\<lambda>parent.
       ebind (egets (\<lambda>tree. validate_safe_path env tree (names_path parent) False action)) (\<lambda>_.
       ebind (\<lambda>tree. if node_at tree parent \<noteq> None then (Inr (), tree) else create_dir_all env action parent tree) (\<lambda>_.
       apply_mode env action parent parent_mode)))"

definition ensure_symlink ::
  "fs_env \<Rightarrow> string \<Rightarrow> resolved_identity \<Rightarrow> string \<Rightarrow> string \<Rightarrow> string option \<Rightarrow> string option \<Rightarrow>
   fs_change fs_effect" where
  "ensure_symlink env action identity link target parent_mode owner =
     (let names = path_names link in
      ebind (egets (\<lambda>tree. validate_safe_path env tree link True action)) (\<lambda>_.
      ebind (link_parent env action names parent_mode) (\<lambda>_.
      ebind (link_step env action names target) (\<lambda>_.
      ebind (apply_owner env action identity names owner) (\<lambda>_.
      eret SymlinkMatched)))))"

text \<open>
  \<open>walk_no_symlinks\<close>. Each level of the recursion is one step deeper in the tree; the first
  argument bounds the depth, and \<open>walk_depth\<close> is enough for every tree.
\<close>

definition children :: "file_tree \<Rightarrow> string list \<Rightarrow> string list list" where
  "children tree names = filter (\<lambda>p. p \<noteq> [] \<and> butlast p = names) (map fst tree)"

definition walk_depth :: "file_tree \<Rightarrow> nat" where
  "walk_depth tree = Suc (foldr max (map (\<lambda>(p, _). length p) tree) 0)"

fun walk_no_symlinks ::
  "nat \<Rightarrow> fs_env \<Rightarrow> (string list \<Rightarrow> unit fs_effect) \<Rightarrow> string list \<Rightarrow> unit fs_effect" where
  "walk_no_symlinks 0 env callback names tree = (Inr (), tree)"
| "walk_no_symlinks (Suc depth) env callback names tree =
     (case stat env tree names of
        Found n \<Rightarrow>
          if fn_kind n \<noteq> Directory then (Inr (), tree)
          else if fe_fault env ReaddirCall names
          then (Inl (CoreIo None (Some (names_path names)) (CallFailure ReaddirCall)), tree)
          else efor_each (\<lambda>child. ebind (callback child) (\<lambda>_. walk_no_symlinks depth env callback child))
            (children tree names) tree
      | _ \<Rightarrow> (Inl (CoreIo None (Some (names_path names)) (CallFailure LstatCall)), tree))"

definition fs_chown ::
  "fs_env \<Rightarrow> string \<Rightarrow> resolved_identity \<Rightarrow> string \<Rightarrow> string \<Rightarrow> bool \<Rightarrow> fs_change fs_effect" where
  "fs_chown env action identity path owner recursive =
     (let names = path_names path; step = (\<lambda>names. chown_with_owner env action identity names owner) in
      ebind (elift (validate_recursive_path action path recursive)) (\<lambda>_.
      ebind (egets (\<lambda>tree. validate_safe_path env tree path False action)) (\<lambda>_.
      ebind (step names) (\<lambda>_.
      ebind (if recursive then (\<lambda>tree. walk_no_symlinks (walk_depth tree) env step names tree) else eret ()) (\<lambda>_.
      eret (OwnershipUpdated recursive))))))"

definition set_mode_for_action :: "fs_env \<Rightarrow> string \<Rightarrow> string \<Rightarrow> string list \<Rightarrow> unit fs_effect" where
  "set_mode_for_action env action mode names tree =
     (case stat env tree names of
        Found n \<Rightarrow>
          (case fn_kind n of
             Symlink _ \<Rightarrow> (Inl (fs_action action names ChmodSymlink), tree)
           | _ \<Rightarrow> ebind (elift (fs_parse_mode mode)) (set_mode env action names) tree)
      | _ \<Rightarrow> (Inl (fs_io action names LstatCall), tree))"

definition fs_chmod :: "fs_env \<Rightarrow> string \<Rightarrow> string \<Rightarrow> string \<Rightarrow> bool \<Rightarrow> fs_change fs_effect" where
  "fs_chmod env action path mode recursive =
     (let names = path_names path; step = set_mode_for_action env action mode in
      ebind (elift (validate_recursive_path action path recursive)) (\<lambda>_.
      ebind (egets (\<lambda>tree. validate_safe_path env tree path False action)) (\<lambda>_.
      ebind (step names) (\<lambda>_.
      ebind (if recursive then (\<lambda>tree. walk_no_symlinks (walk_depth tree) env step names tree) else eret ()) (\<lambda>_.
      eret (ModeUpdated recursive))))))"

section \<open>What is there stays\<close>

text \<open>
  Every node of the first tree is in the second, with the same kind: the same file content, the
  same link target. Modes and owners may differ.
\<close>

definition same_kinds :: "file_tree \<Rightarrow> file_tree \<Rightarrow> bool" where
  "same_kinds tree tree' \<longleftrightarrow>
     (\<forall>names n. node_at tree names = Some n \<longrightarrow> (\<exists>n'. node_at tree' names = Some n' \<and> fn_kind n' = fn_kind n))"

lemma same_kinds_trans: "same_kinds a b \<Longrightarrow> same_kinds b c \<Longrightarrow> same_kinds a c"
  unfolding same_kinds_def by metis

interpretation kinds: frame same_kinds
  by unfold_locales (simp add: same_kinds_def, rule same_kinds_trans)
lemma node_at_put [simp]: "node_at (put_node names n tree) names' = (if names' = names then Some n else node_at tree names')"
  by (simp add: node_at_def put_node_def update_conv')

lemma node_at_remove [simp]:
  "node_at (remove_node names tree) names' = (if names' = names then None else node_at tree names')"
  by (simp add: node_at_def remove_node_def delete_conv')

lemma put_same [simp]: "node_at tree names = Some n \<Longrightarrow> put_node names n tree = tree"
  unfolding node_at_def put_node_def by (induction tree) (auto split: if_splits)

lemma stat_found: "stat env tree names = Found n \<Longrightarrow> node_at tree names = Some n"
  and stat_missing: "stat env tree names = Missing \<Longrightarrow> node_at tree names = None"
  by (auto simp: stat_def split: if_splits option.splits)

lemma keeps_make_dir: "keeps same_kinds (make_dir env action whole names)"
  by (auto simp: keeps_def make_dir_def same_kinds_def split: option.splits)

lemma keeps_set_mode: "keeps same_kinds (set_mode env action names mode)"
  by (auto simp: keeps_def set_mode_def same_kinds_def split: option.splits)

lemma chown_node_kind [simp]: "fn_kind (chown_node uid gid n) = fn_kind n"
  by (simp add: chown_node_def)

lemma keeps_chown: "keeps same_kinds (posix_chown env action names uid gid)"
  by (auto simp: keeps_def posix_chown_def same_kinds_def dest: stat_found split: stat_outcome.splits)

lemma keeps_link_step: "keeps same_kinds (link_step env action names target)"
  by (auto simp: keeps_def link_step_def same_kinds_def dest: stat_missing split: stat_outcome.splits node_kind.splits)

lemma keeps_create_dir_all: "keeps same_kinds (create_dir_all env action names)"
  unfolding create_dir_all_def by (intro kinds.keeps_for_each keeps_make_dir)

lemma keeps_apply_mode: "keeps same_kinds (apply_mode env action names mode)"
  unfolding apply_mode_def by (intro kinds.keeps_rules keeps_set_mode)

lemma keeps_chown_with_owner: "keeps same_kinds (chown_with_owner env action identity names owner)"
  unfolding chown_with_owner_def by (auto intro!: kinds.keeps_rules keeps_chown split: prod.splits)

lemma keeps_apply_owner: "keeps same_kinds (apply_owner env action identity names owner)"
  unfolding apply_owner_def by (intro kinds.keeps_rules keeps_chown_with_owner)

lemma keeps_set_mode_for_action: "keeps same_kinds (set_mode_for_action env action mode names)"
proof -
  have "keeps same_kinds (ebind (elift (fs_parse_mode mode)) (set_mode env action names))"
    by (intro kinds.keeps_rules keeps_set_mode)
  then show ?thesis
    by (auto simp: keeps_def set_mode_for_action_def kinds.refl split: stat_outcome.splits node_kind.splits)
qed

lemma keeps_walk:
  assumes "\<And>names. keeps same_kinds (callback names)"
  shows "keeps same_kinds (walk_no_symlinks depth env callback names)"
proof (induction depth arbitrary: names)
  case (Suc depth)
  have "keeps same_kinds (efor_each (\<lambda>child. ebind (callback child) (\<lambda>_. walk_no_symlinks depth env callback child)) children)"
    for children by (intro kinds.keeps_rules assms Suc)
  then show ?case by (auto simp: keeps_def kinds.refl split: stat_outcome.splits)
qed (simp add: keeps_def kinds.refl)

lemmas keeps_steps = keeps_create_dir_all keeps_apply_mode keeps_apply_owner keeps_chown_with_owner
  keeps_link_step keeps_set_mode_for_action

lemma temporary_differs: "temporary_names env names \<noteq> names"
proof
  assume same: "temporary_names env names = names"
  show False
  proof (cases "names = []")
    case True
    with same show False by (simp add: temporary_names_def)
  next
    case False
    have "length (last (temporary_names env names)) = length (last names)" by (simp add: same)
    with False show False by (simp add: temporary_names_def)
  qed
qed

lemma create_file_same_kinds:
  assumes "node_at tree names = None"
  shows "same_kinds tree (snd (create_file env action names content mode tree))"
proof -
  obtain t where t: "t = temporary_names env names" "t \<noteq> names" using temporary_differs by blast
  show ?thesis
  proof (cases "fe_fault env OpenCall t \<or> node_at tree t \<noteq> None")
    case True
    then show ?thesis by (simp add: create_file_def t(1) [symmetric] ebind_def open_temporary_def kinds.refl)
  next
    case False
    let ?r = "ebind (write_temporary env t content) (\<lambda>_. rename_temporary env t names)
      (put_node t (new_node env (Regular []) mode) tree)"
    have rest: "same_kinds tree (snd ?r)" "same_kinds tree (remove_node t (snd ?r))"
      using False assms t(2)
      by (auto simp: ebind_def write_temporary_def rename_temporary_def same_kinds_def)
    with False show ?thesis
      by (auto simp: create_file_def t(1) [symmetric] open_temporary_def split: prod.splits sum.splits) 
  qed
qed

lemma check_existing_missing: "check_existing_file env action names content tree = Inr False \<Longrightarrow> node_at tree names = None"
  by (auto simp: check_existing_file_def dest: stat_missing split: stat_outcome.splits node_kind.splits option.splits if_splits)

lemma keeps_ensure_parent: "keeps same_kinds (ensure_parent env action names)"
  unfolding ensure_parent_def by (intro kinds.keeps_rules keeps_steps)

lemma keeps_link_parent: "keeps same_kinds (link_parent env action names mode)"
proof -
  have "keeps same_kinds (\<lambda>tree. if node_at tree parent \<noteq> None then (Inr (), tree) else create_dir_all env action parent tree)"
    for parent using keeps_create_dir_all [of env action parent] by (simp add: keeps_def kinds.refl)
  then show ?thesis unfolding link_parent_def by (intro kinds.keeps_rules keeps_steps)
qed

lemma keeps_ensure_dir: "keeps same_kinds (ensure_dir env action identity path mode owner)"
proof -
  have "keeps same_kinds (ebind (create_dir_all env action names) (\<lambda>_. eret False))" for names
    by (intro kinds.keeps_rules keeps_steps)
  then have "keeps same_kinds (\<lambda>tree. case stat env tree names of
          Found n \<Rightarrow>
            if fn_kind n \<noteq> Directory then (Inl (fs_action action names ExistsNotDirectory), tree)
            else (Inr True, tree)
        | Missing \<Rightarrow> ebind (create_dir_all env action names) (\<lambda>_. eret False) tree
        | StatFailed \<Rightarrow> (Inl (fs_io action names LstatCall), tree))" for names
    by (auto simp: keeps_def kinds.refl split: stat_outcome.splits)
  then show ?thesis unfolding ensure_dir_def Let_def by (intro kinds.keeps_rules keeps_steps)
qed

lemma keeps_ensure_file: "keeps same_kinds (ensure_file env action identity path content mode owner)"
proof -
  have rest: "keeps same_kinds (ebind (apply_mode env action names mode) (\<lambda>_.
      ebind (apply_owner env action identity names owner) (\<lambda>_. eret (if existed then FileReconciled else CreatedFile))))"
    for names existed by (intro kinds.keeps_rules keeps_steps)
  have "keeps same_kinds (ebind (egets (check_existing_file env action names content)) (\<lambda>existed.
      ebind (if existed then eret ()
             else ebind (elift (case mode of None \<Rightarrow> Inr 420 | Some m \<Rightarrow> fs_parse_mode m))
               (create_file env action names (unwrap_or [] content))) (\<lambda>_.
      ebind (apply_mode env action names mode) (\<lambda>_.
      ebind (apply_owner env action identity names owner) (\<lambda>_.
      eret (if existed then FileReconciled else CreatedFile))))))" for names
    unfolding keeps_def
  proof
    fix tree
    let ?m = "\<lambda>existed. if existed then eret ()
             else ebind (elift (case mode of None \<Rightarrow> Inr 420 | Some m \<Rightarrow> fs_parse_mode m))
               (create_file env action names (unwrap_or [] content))"
    show "same_kinds tree (snd (ebind (egets (check_existing_file env action names content)) (\<lambda>existed.
      ebind (?m existed) (\<lambda>_. ebind (apply_mode env action names mode) (\<lambda>_.
      ebind (apply_owner env action identity names owner) (\<lambda>_.
      eret (if existed then FileReconciled else CreatedFile))))) tree))"
    proof (cases "check_existing_file env action names content tree")
      case (Inl e)
      then show ?thesis by (simp add: ebind_def kinds.refl)
    next
      case (Inr existed)
      have "same_kinds tree (snd (?m existed tree))"
        using create_file_same_kinds [OF check_existing_missing, of env action names content tree] Inr
        by (auto simp: ebind_def kinds.refl split: sum.splits)
      then have "same_kinds tree (snd (ebind (?m existed) (\<lambda>_. ebind (apply_mode env action names mode) (\<lambda>_.
          ebind (apply_owner env action identity names owner) (\<lambda>_.
          eret (if existed then FileReconciled else CreatedFile)))) tree))"
        by (intro kinds.keeps_bind_at rest)
      with Inr show ?thesis by (simp add: ebind_Inr [of "egets _"])
    qed
  qed
  note last_part = this
  show ?thesis
    unfolding ensure_file_def Let_def
    by (rule kinds.keeps_bind [OF kinds.keeps_pure(4) kinds.keeps_bind [OF keeps_ensure_parent last_part]])
qed

lemma keeps_ensure_symlink: "keeps same_kinds (ensure_symlink env action identity link target parent_mode owner)"
  unfolding ensure_symlink_def Let_def by (intro kinds.keeps_rules keeps_steps keeps_link_parent)

lemma keeps_recursive:
  assumes "\<And>names. keeps same_kinds (step names)"
  shows "keeps same_kinds (if recursive then (\<lambda>tree. walk_no_symlinks (walk_depth tree) env step names tree) else eret ())"
  using keeps_walk [OF assms] by (simp add: keeps_def kinds.refl)

lemma keeps_fs_chown: "keeps same_kinds (fs_chown env action identity path owner recursive)"
  unfolding fs_chown_def Let_def by (intro kinds.keeps_rules keeps_steps keeps_recursive)

lemma keeps_fs_chmod: "keeps same_kinds (fs_chmod env action path mode recursive)"
  unfolding fs_chmod_def Let_def by (intro kinds.keeps_rules keeps_steps keeps_recursive)

section \<open>Directories\<close>

text \<open>A node has the mode and the owner asked for; an id of all ones asks for nothing.\<close>

definition mode_reached :: "string option \<Rightarrow> fs_node \<Rightarrow> bool" where
  "mode_reached mode n \<longleftrightarrow> (\<forall>m. mode = Some m \<longrightarrow> fs_parse_mode m = Inr (fn_mode n))"

definition owner_reached :: "string option \<Rightarrow> resolved_identity \<Rightarrow> fs_node \<Rightarrow> bool" where
  "owner_reached owner identity n \<longleftrightarrow>
     (\<forall>w. owner = Some w \<longrightarrow> (\<exists>uid gid. owner_ids w identity = Inr (uid, gid) \<and>
        (uid \<noteq> - 1 \<longrightarrow> fn_uid n = uid) \<and> (gid \<noteq> - 1 \<longrightarrow> fn_gid n = gid)))"

text \<open>In a tree whatever lies above a node is a directory.\<close>

definition tree_wf :: "file_tree \<Rightarrow> bool" where
  "tree_wf tree \<longleftrightarrow>
     (\<forall>names n k. node_at tree names = Some n \<longrightarrow> 0 < k \<longrightarrow> k < length names \<longrightarrow> is_directory tree (take k names))"

lemma make_dir_Inr:
  "make_dir env action whole names tree = (Inr u, tree') \<Longrightarrow> is_directory tree' names"
  by (auto simp: make_dir_def is_directory_def new_node_def split: option.splits if_splits)

lemma is_directory_kept: "same_kinds tree tree' \<Longrightarrow> is_directory tree names \<Longrightarrow> is_directory tree' names"
  by (auto simp: is_directory_def is_some_and_def same_kinds_def split: option.splits) (metis option.inject option.distinct(1))

lemma keeps_at: "keeps P m \<Longrightarrow> m s = (r, s') \<Longrightarrow> P s s'"
  by (metis keeps_def snd_conv)

lemma create_dirs_Inr:
  assumes "efor_each (make_dir env action whole) paths tree = (Inr u, tree')"
  shows "\<forall>p \<in> set paths. is_directory tree' p"
  using assms
proof (induction paths arbitrary: tree)
  case (Cons p paths)
  then obtain v tree1 where first: "make_dir env action whole p tree = (Inr v, tree1)"
    and rest: "efor_each (make_dir env action whole) paths tree1 = (Inr u, tree')" by (auto simp: ebind_Inr_iff)
  have "same_kinds tree1 tree'" by (rule keeps_at [OF kinds.keeps_for_each rest]) (rule keeps_make_dir)
  with make_dir_Inr [OF first] Cons.IH [OF rest] show ?case by (auto dest: is_directory_kept)
qed simp

lemma create_dir_all_Inr:
  assumes "create_dir_all env action names tree = (Inr u, tree')" "0 < k" "k \<le> length names"
  shows "is_directory tree' (take k names)"
proof -
  have "take k names \<in> set (map (\<lambda>k. take k names) [1..<length names + 1])" using assms(2,3) by auto
  with create_dirs_Inr [OF assms(1) [unfolded create_dir_all_def]] show ?thesis by blast
qed

lemma apply_mode_Inr:
  assumes "apply_mode env action names mode tree = (Inr u, tree')" "node_at tree names = Some n"
  shows "\<exists>n'. tree' = put_node names n' tree \<and> fn_kind n' = fn_kind n \<and> mode_reached mode n' \<and>
    (mode_reached mode n \<longrightarrow> n' = n)"
proof (cases mode)
  case None
  with assms have "tree' = put_node names n tree" by (simp add: apply_mode_def ewhen_some_def)
  with None show ?thesis by (auto simp: mode_reached_def)
next
  case (Some m)
  with assms obtain w where "fs_parse_mode m = Inr w" "tree' = put_node names (n\<lparr>fn_mode := w\<rparr>) tree"
    by (auto simp: apply_mode_def ewhen_some_def ebind_Inr_iff set_mode_def split: if_splits)
  with Some show ?thesis by (intro exI [of _ "n\<lparr>fn_mode := w\<rparr>"]) (auto simp: mode_reached_def)
qed

lemma chown_node_directory:
  "fn_kind n = Directory \<Longrightarrow> fn_mode (chown_node uid gid n) = fn_mode n"
  "(uid \<noteq> - 1 \<longrightarrow> fn_uid n = uid) \<Longrightarrow> (gid \<noteq> - 1 \<longrightarrow> fn_gid n = gid) \<Longrightarrow> fn_kind n = Directory \<Longrightarrow> chown_node uid gid n = n"
  by (auto simp: chown_node_def)

lemma apply_owner_Inr:
  assumes "apply_owner env action identity names owner tree = (Inr u, tree')" "node_at tree names = Some n"
    "fn_kind n = Directory"
  shows "\<exists>n'. tree' = put_node names n' tree \<and> fn_kind n' = Directory \<and> fn_mode n' = fn_mode n \<and>
    owner_reached owner identity n' \<and> (owner_reached owner identity n \<longrightarrow> n' = n)"
proof (cases owner)
  case None
  with assms have "tree' = put_node names n tree" by (simp add: apply_owner_def ewhen_some_def)
  with None assms(3) show ?thesis by (auto simp: owner_reached_def)
next
  case (Some w)
  with assms(1) obtain uid gid where ids: "owner_ids w identity = Inr (uid, gid)"
    and run: "posix_chown env action names uid gid tree = (Inr u, tree')"
    by (auto simp: apply_owner_def ewhen_some_def chown_with_owner_def ebind_Inr_iff map_err_Inr_iff)
  from run obtain n0 where found: "stat env tree names = Found n0" by (auto simp: posix_chown_def split: stat_outcome.splits)
  with assms(2) stat_found have n0: "n0 = n" by fastforce
  from run found consider "fn_uid n = uid" "fn_gid n = gid" "tree' = tree" | "tree' = put_node names (chown_node uid gid n) tree"
    by (auto simp: posix_chown_def n0 split: if_splits)
  then show ?thesis
  proof cases
    case 1
    with assms(2,3) Some ids show ?thesis by (intro exI [of _ n]) (auto simp: owner_reached_def)
  next
    case 2
    have "owner_reached owner identity (chown_node uid gid n)"
      using Some ids by (auto simp: owner_reached_def chown_node_def)
    moreover have "owner_reached owner identity n \<longrightarrow> chown_node uid gid n = n"
      using Some ids assms(3) by (auto simp: owner_reached_def intro!: chown_node_directory)
    ultimately show ?thesis using 2 assms(3)
      by (intro exI [of _ "chown_node uid gid n"]) (simp add: chown_node_directory(1))
  qed
qed

text \<open>On a path of directories the checks pass when no call fails.\<close>

lemma safe_path_directories:
  assumes "\<And>p. \<not> fe_fault env LstatCall p" "normal_names cs = rest"
    and "\<And>k. 0 < k \<Longrightarrow> k \<le> length rest \<Longrightarrow> is_directory tree (current @ take k rest)"
  shows "safe_path_loop env tree action allow current cs = Inr ()"
  using assms(2,3)
proof (induction cs arbitrary: current rest)
  case (Cons c cs)
  show ?case
  proof (cases c)
    case (Normal name)
    with Cons.prems(1) have rest: "rest = name # normal_names cs" by (simp add: normal_names_def)
    from Cons.prems(2) [of 1] obtain n where "node_at tree (current @ [name]) = Some n" "fn_kind n = Directory"
      by (auto simp: rest is_directory_def is_some_and_def split: option.splits)
    then have "stat env tree (current @ [name]) = Found n" "fn_kind n = Directory" using assms(1) by (simp_all add: stat_def)
    moreover have "safe_path_loop env tree action allow (current @ [name]) cs = Inr ()"
    proof (rule Cons.IH [OF HOL.refl])
      fix k assume "0 < k" "k \<le> length (normal_names cs)"
      with Cons.prems(2) [of "Suc k"] show "is_directory tree ((current @ [name]) @ take k (normal_names cs))"
        by (simp add: rest)
    qed
    ultimately show ?thesis by (simp add: Normal)
  qed (use Cons in \<open>simp_all add: normal_names_def\<close>)
qed simp

lemma safe_path_symlink:
  assumes "normal_names cs = rest" "0 < k" "k \<le> length rest" "node_at tree (current @ take k rest) = Some n"
    and "fn_kind n = Symlink target" "allow \<longrightarrow> k < length rest"
    and "\<And>j. 0 < j \<Longrightarrow> j < k \<Longrightarrow> is_directory tree (current @ take j rest)"
  shows "\<exists>e. safe_path_loop env tree action allow current cs = Inl e"
  using assms
proof (induction cs arbitrary: current rest k)
  case (Cons c cs)
  show ?case
  proof (cases c)
    case (Normal name)
    with Cons.prems(1) have rest: "rest = name # normal_names cs" by (simp add: normal_names_def)
    show ?thesis
    proof (cases "k = 1")
      case True
      with Cons.prems(6) rest have "allow \<longrightarrow> cs \<noteq> []" by (auto simp: normal_names_def)
      with True Cons.prems(4,5) show ?thesis by (auto simp: Normal rest stat_def Let_def)
    next
      case False
      with Cons.prems(2) obtain j where k: "k = Suc j" "0 < j" by (cases k) auto
      from Cons.prems(7) [of 1] k have "is_directory tree (current @ [name])" by (simp add: rest)
      then obtain n' where "node_at tree (current @ [name]) = Some n'" "fn_kind n' = Directory"
        by (auto simp: is_directory_def is_some_and_def split: option.splits)
      moreover have "\<exists>e. safe_path_loop env tree action allow (current @ [name]) cs = Inl e"
      proof (rule Cons.IH [OF HOL.refl, of j])
        show "0 < j" "j \<le> length (normal_names cs)" "node_at tree ((current @ [name]) @ take j (normal_names cs)) = Some n"
          "fn_kind n = Symlink target" "allow \<longrightarrow> j < length (normal_names cs)"
          using Cons.prems k by (simp_all add: rest)
        fix i assume "0 < i" "i < j"
        with Cons.prems(7) [of "Suc i"] k show "is_directory tree ((current @ [name]) @ take i (normal_names cs))"
          by (simp add: rest)
      qed
      ultimately show ?thesis by (auto simp: Normal stat_def Let_def)
    qed
  qed (use Cons in \<open>simp_all add: normal_names_def\<close>)
qed (simp add: normal_names_def)

lemma validate_refuses_symlink:
  assumes "tree_wf tree" "0 < k" "k \<le> length (path_names path)" "node_at tree (take k (path_names path)) = Some n"
    and "fn_kind n = Symlink target" "allow \<longrightarrow> k < length (path_names path)"
  shows "\<exists>e. validate_safe_path env tree path allow action = Inl e"
proof -
  let ?p = "take k (path_names path)"
  have "is_directory tree (take j (path_names path))" if "0 < j" "j < k" for j
  proof -
    have "j < length ?p" using that assms(3) by simp
    then have "is_directory tree (take j ?p)" using assms(1,4) that(1) unfolding tree_wf_def by blast
    with that(2) show ?thesis by (simp add: min_def)
  qed
  with assms have "\<exists>e. safe_path_loop env tree action allow [] (components path) = Inl e"
    by (intro safe_path_symlink [where rest = "path_names path"]) (auto simp: path_names_def)
  then show ?thesis by (simp add: validate_safe_path_def)
qed

text \<open>
  No file action works through a symbolic link: when one lies on the path, or is its last
  component, creating a directory or a file there, or changing owner or mode, fails and changes
  nothing. For \<open>ensure_symlink\<close> it holds of the components before the last.
\<close>

theorem symlink_paths_refused:
  assumes "tree_wf tree" "0 < k" "k \<le> length (path_names path)"
    and "node_at tree (take k (path_names path)) = Some n" "fn_kind n = Symlink link"
  shows "(\<exists>e. ensure_dir env action identity path mode owner tree = (Inl e, tree)) \<and>
    (\<exists>e. ensure_file env action identity path content mode owner tree = (Inl e, tree)) \<and>
    (\<exists>e. fs_chown env action identity path new_owner recursive tree = (Inl e, tree)) \<and>
    (\<exists>e. fs_chmod env action path new_mode recursive tree = (Inl e, tree)) \<and>
    (k < length (path_names path) \<longrightarrow>
      (\<exists>e. ensure_symlink env action identity path target mode owner tree = (Inl e, tree)))"
proof -
  obtain e where "validate_safe_path env tree path False action = Inl e"
    using validate_refuses_symlink [OF assms, of False env action] by auto
  moreover have "\<exists>e. validate_safe_path env tree path True action = Inl e" if "k < length (path_names path)"
    using validate_refuses_symlink [OF assms, of True env action] that by simp
  ultimately show ?thesis
    unfolding ensure_dir_def ensure_file_def fs_chown_def fs_chmod_def ensure_symlink_def Let_def
    by (auto simp: ebind_def split: sum.splits)
qed

definition plain_node :: "node_kind \<Rightarrow> fs_node" where
  "plain_node kind = \<lparr>fn_kind = kind, fn_mode = 493, fn_uid = 0, fn_gid = 0\<rparr>"

definition sample_tree :: file_tree where
  "sample_tree =
     [([''home''], plain_node Directory), ([''home'', ''dev''], plain_node Directory),
      ([''home'', ''dev'', ''notes''], plain_node (Regular ''mine'')),
      ([''home'', ''link''], plain_node (Symlink ''/etc''))]"

definition sample_env :: fs_env where
  "sample_env = \<lparr>fe_uid = 0, fe_gid = 0, fe_umask = 18, fe_suffix = ''1-2'', fe_mount_point = (\<lambda>_. False),
     fe_fault = (\<lambda>_ _. False)\<rparr>"

lemma sample_tree_wf: "tree_wf sample_tree"
proof -
  have "k = 1 \<or> k = 2" if "0 < k" "k < (3::nat)" for k using that by auto
  then show ?thesis
    by (auto simp: tree_wf_def sample_tree_def node_at_def is_directory_def plain_node_def less_Suc_eq numeral_eq_Suc split: if_splits)
qed

theorem symlink_paths_refused_witness:
  "\<exists>e. ensure_file sample_env ''write'' sample_resolved ''/home/link/passwd'' (Some ''x'') None None sample_tree =
     (Inl e, sample_tree)"
proof -
  have "path_names ''/home/link/passwd'' = [''home'', ''link'', ''passwd'']" by code_simp
  moreover have "node_at sample_tree [''home'', ''link''] = Some (plain_node (Symlink ''/etc''))" by code_simp
  moreover have "fn_kind (plain_node (Symlink ''/etc'')) = Symlink ''/etc''" by (simp add: plain_node_def)
  ultimately show ?thesis
    using symlink_paths_refused [OF sample_tree_wf, of 2 "''/home/link/passwd''" "plain_node (Symlink ''/etc'')" "''/etc''"]
    by simp
qed

lemma ensure_dir_existing:
  assumes "ensure_dir env action identity path mode owner tree = (Inr change, tree')" "path_names path \<noteq> []"
  obtains n tree1 n2 where "is_absolute path" "same_kinds tree tree1" "node_at tree1 (path_names path) = Some n"
    "fn_kind n2 = Directory" "tree' = put_node (path_names path) n2 tree1" "mode_reached mode n2" "owner_reached owner identity n2"
    "fn_kind n = Directory"
    "(\<exists>m. node_at tree (path_names path) = Some m) \<or> (\<forall>k. 0 < k \<longrightarrow> k \<le> length (path_names path) \<longrightarrow> is_directory tree1 (take k (path_names path)))"
proof -
  let ?names = "path_names path"
  from assms(1) obtain existed tree1 u tree2 v where
    safe: "validate_safe_path env tree path False action = Inr ()"
    and first: "(case stat env tree ?names of
          Found n \<Rightarrow>
            if fn_kind n \<noteq> Directory then (Inl (fs_action action ?names ExistsNotDirectory), tree)
            else (Inr True, tree)
        | Missing \<Rightarrow> ebind (create_dir_all env action ?names) (\<lambda>_. eret False) tree
        | StatFailed \<Rightarrow> (Inl (fs_io action ?names LstatCall), tree)) = (Inr existed, tree1)"
    and steps: "apply_mode env action ?names mode tree1 = (Inr u, tree2)"
      "apply_owner env action identity ?names owner tree2 = (Inr v, tree')"
    unfolding ensure_dir_def Let_def by (auto simp: ebind_Inr_iff)
  have "is_absolute path" using safe by (auto simp: validate_safe_path_def split: if_splits)
  from first have dir: "\<exists>n. node_at tree1 ?names = Some n \<and> fn_kind n = Directory \<and> same_kinds tree tree1 \<and>
    ((\<exists>m. node_at tree ?names = Some m) \<or> (\<forall>k. 0 < k \<longrightarrow> k \<le> length ?names \<longrightarrow> is_directory tree1 (take k ?names)))"
  proof (cases "stat env tree ?names")
    case (Found n)
    with first stat_found [OF Found] show ?thesis by (auto simp: kinds.refl split: if_splits)
  next
    case Missing
    with first obtain w where made: "create_dir_all env action ?names tree = (Inr w, tree1)" by (auto simp: ebind_Inr_iff)
    note dirs = create_dir_all_Inr [OF made]
    with assms(2) have "is_directory tree1 ?names" by (metis length_greater_0_conv order_refl take_all)
    with dirs keeps_at [OF keeps_create_dir_all made] show ?thesis
      by (auto simp: is_directory_def is_some_and_def split: option.splits)
  qed (use first in simp)
  then obtain n where n: "node_at tree1 ?names = Some n" "fn_kind n = Directory" "same_kinds tree tree1"
    "(\<exists>m. node_at tree ?names = Some m) \<or> (\<forall>k. 0 < k \<longrightarrow> k \<le> length ?names \<longrightarrow> is_directory tree1 (take k ?names))" by blast
  from apply_mode_Inr [OF steps(1) n(1)] n(2) obtain n1 where n1: "tree2 = put_node ?names n1 tree1" "fn_kind n1 = Directory" "mode_reached mode n1"
    by auto
  then have "node_at tree2 ?names = Some n1" by simp
  from apply_owner_Inr [OF steps(2) this n1(2)] obtain n2 where n2: "tree' = put_node ?names n2 tree2" "fn_kind n2 = Directory"
    "fn_mode n2 = fn_mode n1" "owner_reached owner identity n2" by blast
  have "tree' = put_node ?names n2 tree1" unfolding n2(1) n1(1) by (simp add: put_node_def)
  moreover have "mode_reached mode n2" using n1(3) n2(3) by (simp add: mode_reached_def)
  ultimately show thesis using that \<open>is_absolute path\<close> n n2 by blast
qed

lemma directories_above:
  assumes "tree_wf tree" "node_at tree names = Some n" "fn_kind n = Directory" "0 < k" "k \<le> length names"
  shows "is_directory tree (take k names)"
  using assms by (cases "k = length names") (auto simp: tree_wf_def is_directory_def)

lemma ensure_dir_found:
  assumes "\<And>call p. \<not> fe_fault env call p" "is_absolute path"
    and "\<And>k. 0 < k \<Longrightarrow> k \<le> length (path_names path) \<Longrightarrow> is_directory tree (take k (path_names path))"
    and "node_at tree (path_names path) = Some n" "fn_kind n = Directory" "mode_reached mode n" "owner_reached owner identity n"
  shows "ensure_dir env action identity path mode owner tree = (Inr DirectoryReconciled, tree)"
proof -
  let ?names = "path_names path"
  have safe: "validate_safe_path env tree path False action = Inr ()"
    using assms(1-3) by (auto simp: validate_safe_path_def path_names_def intro!: safe_path_directories)
  have found: "stat env tree ?names = Found n" using assms(1,4) by (simp add: stat_def)
  have "\<exists>u. apply_mode env action ?names mode tree = (Inr u, tree)"
    using assms(1,4,6) by (cases mode) (auto simp: apply_mode_def ewhen_some_def mode_reached_def ebind_def set_mode_def)
  moreover have "\<exists>u. apply_owner env action identity ?names owner tree = (Inr u, tree)"
  proof (cases owner)
    case (Some w)
    with assms(7) obtain uid gid where "owner_ids w identity = Inr (uid, gid)"
      "uid \<noteq> - 1 \<longrightarrow> fn_uid n = uid" "gid \<noteq> - 1 \<longrightarrow> fn_gid n = gid" by (auto simp: owner_reached_def)
    with Some assms(1,4,5) found chown_node_directory(2) [of uid n gid] show ?thesis
      by (simp add: apply_owner_def ewhen_some_def chown_with_owner_def posix_chown_def)
  qed (simp add: apply_owner_def ewhen_some_def)
  ultimately show ?thesis
    using safe found assms(5) unfolding ensure_dir_def Let_def by (auto simp: ebind_def)
qed

text \<open>
  A directory that \<open>ensure_dir\<close> reports is there, with the mode and the owner asked for, and
  the action is idempotent: where no call fails, doing it again changes nothing and reports the
  directory as reconciled.
\<close>

theorem ensure_dir_reconciles:
  assumes "ensure_dir env action identity path mode owner tree = (Inr change, tree')" "path_names path \<noteq> []"
  shows "(\<exists>n. node_at tree' (path_names path) = Some n \<and> fn_kind n = Directory \<and> mode_reached mode n \<and>
      owner_reached owner identity n) \<and>
    (tree_wf tree \<longrightarrow> (\<forall>call p. \<not> fe_fault env call p) \<longrightarrow>
      ensure_dir env action identity path mode owner tree' = (Inr DirectoryReconciled, tree'))"
proof -
  let ?names = "path_names path"
  obtain n tree1 n2 where p: "is_absolute path" "same_kinds tree tree1" "node_at tree1 ?names = Some n"
    "fn_kind n2 = Directory" "tree' = put_node ?names n2 tree1" "mode_reached mode n2" "owner_reached owner identity n2"
    "fn_kind n = Directory"
    "(\<exists>m. node_at tree ?names = Some m) \<or> (\<forall>k. 0 < k \<longrightarrow> k \<le> length ?names \<longrightarrow> is_directory tree1 (take k ?names))"
    by (rule ensure_dir_existing [OF assms])
  have kept: "same_kinds tree1 tree'" using p(3,4,5,8) by (auto simp: same_kinds_def)
  have node: "node_at tree' ?names = Some n2" by (simp add: p(5))
  have dirs: "is_directory tree' (take k ?names)" if "tree_wf tree" "0 < k" "k \<le> length ?names" for k
  proof -
    from p(9) have "is_directory tree1 (take k ?names)"
    proof
      assume "\<exists>m. node_at tree ?names = Some m"
      then obtain m where m: "node_at tree ?names = Some m" by blast
      with p(2,3,8) have "fn_kind m = Directory" by (fastforce simp: same_kinds_def)
      from directories_above [OF that(1) m this that(2,3)] p(2) show ?thesis by (blast intro: is_directory_kept)
    qed (use that in blast)
    with kept show ?thesis by (rule is_directory_kept)
  qed
  show ?thesis using node p(1,4,6,7) dirs by (auto intro!: ensure_dir_found)
qed

theorem ensure_dir_reconciles_witness:
  "\<exists>tree'. ensure_dir sample_env ''home'' sample_resolved ''/home/dev/cache/bin'' None (Some ''identity.target'') sample_tree =
       (Inr CreatedDirectory, tree') \<and>
     ensure_dir sample_env ''home'' sample_resolved ''/home/dev/cache/bin'' None (Some ''identity.target'') tree' =
       (Inr DirectoryReconciled, tree')"
proof -
  let ?run = "ensure_dir sample_env ''home'' sample_resolved ''/home/dev/cache/bin'' None (Some ''identity.target'')"
  have "fst (?run sample_tree) = Inr CreatedDirectory" by code_simp
  then obtain tree' where run: "?run sample_tree = (Inr CreatedDirectory, tree')" by (metis prod.collapse)
  have "path_names ''/home/dev/cache/bin'' \<noteq> []" by code_simp
  moreover have "\<forall>call p. \<not> fe_fault sample_env call p" by (simp add: sample_env_def)
  ultimately have "?run tree' = (Inr DirectoryReconciled, tree')"
    using ensure_dir_reconciles [OF run] sample_tree_wf by blast
  with run show ?thesis by blast
qed

end
