(* ===== verification/Core_Walk.thy ===== *)
theory Core_Walk
  imports Core_Filesystem
begin

text \<open>
  The recursive change of owner (\<open>walk_no_symlinks\<close> and \<open>Filesystem::chown\<close> of
  \<open>src/crates/container-init-core/src/filesystem.rs\<close>): what the walk keeps, over two more
  interpretations of the locale \<open>frame\<close>, and that it reaches everything below the path within the
  depth bound of the model.
\<close>

section \<open>Recursive changes of owner\<close>

text \<open>
  What a walk may change: the same paths with the same kinds, and what already has the new owner
  keeps it.
\<close>

definition owned :: "u32 \<Rightarrow> u32 \<Rightarrow> file_tree \<Rightarrow> string list \<Rightarrow> bool" where
  "owned uid gid tree names \<longleftrightarrow> (\<exists>n. node_at tree names = Some n \<and> fn_uid n = uid \<and> fn_gid n = gid)"

definition owner_grows :: "u32 \<Rightarrow> u32 \<Rightarrow> file_tree \<Rightarrow> file_tree \<Rightarrow> bool" where
  "owner_grows uid gid tree tree' \<longleftrightarrow>
     map fst tree' = map fst tree \<and>
     (\<forall>q. map_option fn_kind (node_at tree' q) = map_option fn_kind (node_at tree q)) \<and>
     (\<forall>q. owned uid gid tree q \<longrightarrow> owned uid gid tree' q)"

interpretation grows: frame "owner_grows uid gid" for uid gid
  by unfold_locales (simp_all add: owner_grows_def)

definition unchanged_outside :: "string list \<Rightarrow> file_tree \<Rightarrow> file_tree \<Rightarrow> bool" where
  "unchanged_outside names tree tree' \<longleftrightarrow> (\<forall>q. \<not> prefix names q \<longrightarrow> node_at tree' q = node_at tree q)"

interpretation outside: frame "unchanged_outside names" for names
  by unfold_locales (simp_all add: unchanged_outside_def)

lemma unchanged_above: "prefix names names' \<Longrightarrow> unchanged_outside names' tree tree' \<Longrightarrow> unchanged_outside names tree tree'"
  unfolding unchanged_outside_def by (meson prefix_order.trans)

lemma update_keys: "node_at tree names = Some n \<Longrightarrow> map fst (put_node names n' tree) = map fst tree"
  unfolding node_at_def put_node_def by (induction tree) (auto split: if_splits)

lemma chown_node_ids: "uid \<noteq> - 1 \<Longrightarrow> gid \<noteq> - 1 \<Longrightarrow> fn_uid (chown_node uid gid n) = uid \<and> fn_gid (chown_node uid gid n) = gid"
  by (simp add: chown_node_def)

abbreviation chown_step :: "fs_env \<Rightarrow> string \<Rightarrow> resolved_identity \<Rightarrow> string \<Rightarrow> string list \<Rightarrow> unit fs_effect" where
  "chown_step env action identity owner \<equiv> (\<lambda>names. chown_with_owner env action identity names owner)"

lemma chown_step_eq:
  assumes "owner_ids owner identity = Inr (uid, gid)"
  shows "chown_step env action identity owner names = posix_chown env action names uid gid"
  using assms by (intro ext) (simp add: chown_with_owner_def)

lemma keeps_chown_grows:
  assumes "uid \<noteq> - 1" "gid \<noteq> - 1"
  shows "keeps (owner_grows uid gid) (posix_chown env action names uid gid)"
  unfolding keeps_def
proof
  fix tree
  show "owner_grows uid gid tree (snd (posix_chown env action names uid gid tree))"
  proof (cases "stat env tree names")
    case (Found n)
    with assms chown_node_ids stat_found [OF Found] show ?thesis
      by (auto simp: posix_chown_def grows.refl owner_grows_def update_keys owned_def)
  qed (simp_all add: posix_chown_def grows.refl)
qed

lemma keeps_chown_outside: "keeps (unchanged_outside names) (posix_chown env action names uid gid)"
  by (auto simp: keeps_def posix_chown_def unchanged_outside_def split: stat_outcome.splits)

lemma chown_owns:
  assumes "posix_chown env action names uid gid tree = (Inr u, tree')" "uid \<noteq> - 1" "gid \<noteq> - 1"
  shows "owned uid gid tree' names"
  using assms chown_node_ids by (auto simp: posix_chown_def owned_def dest: stat_found split: stat_outcome.splits if_splits)

lemma keeps_walk_grows:
  assumes "\<And>names. keeps (owner_grows uid gid) (callback names)"
  shows "keeps (owner_grows uid gid) (walk_no_symlinks depth env callback names)"
proof (induction depth arbitrary: names)
  case (Suc depth)
  have "keeps (owner_grows uid gid)
      (efor_each (\<lambda>child. ebind (callback child) (\<lambda>_. walk_no_symlinks depth env callback child)) cs)" for cs
    by (intro grows.keeps_rules assms Suc)
  then show ?case by (auto simp: keeps_def grows.refl split: stat_outcome.splits)
qed (simp add: keeps_def grows.refl)

lemma keeps_weaken: "keeps P m \<Longrightarrow> (\<And>s t. P s t \<Longrightarrow> Q s t) \<Longrightarrow> keeps Q m"
  by (auto simp: keeps_def)

lemma child_below: "child \<in> set (children tree names) \<Longrightarrow> prefix names child"
  by (auto simp: children_def) (metis append_butlast_last_id prefixI)

lemma keeps_walk_outside:
  assumes "\<And>names. keeps (unchanged_outside names) (callback names)"
  shows "keeps (unchanged_outside names) (walk_no_symlinks depth env callback names)"
proof (induction depth arbitrary: names)
  case (Suc depth)
  have "keeps (unchanged_outside names)
      (efor_each (\<lambda>child. ebind (callback child) (\<lambda>_. walk_no_symlinks depth env callback child)) (children tree names))" for tree
  proof (rule outside.keeps_for_each)
    fix child assume "child \<in> set (children tree names)"
    then have "unchanged_outside child s t \<Longrightarrow> unchanged_outside names s t" for s t
      using unchanged_above child_below by blast
    then show "keeps (unchanged_outside names) (ebind (callback child) (\<lambda>_. walk_no_symlinks depth env callback child))"
      using assms Suc by (intro outside.keeps_bind) (blast intro: keeps_weaken)+
  qed
  then show ?case by (auto simp: keeps_def outside.refl split: stat_outcome.splits)
qed (simp add: keeps_def outside.refl)

lemma efor_each_reaches:
  assumes "efor_each f xs s = (Inr u, s')" "x \<in> set xs"
  obtains s1 s2 v ys zs where "f x s1 = (Inr v, s2)" "efor_each f ys s2 = (Inr u, s')" "efor_each f zs s = (Inr (), s1)"
proof -
  have "\<exists>s1 s2 v ys. f x s1 = (Inr v, s2) \<and> efor_each f ys s2 = (Inr u, s') \<and> (\<exists>zs. efor_each f zs s = (Inr (), s1))"
    using assms
  proof (induction xs arbitrary: s)
    case (Cons y ys)
    then obtain s1 v where step: "f y s = (Inr v, s1)" "efor_each f ys s1 = (Inr u, s')" by (auto simp: ebind_Inr_iff)
    show ?case
    proof (cases "x = y")
      case True
      moreover have "efor_each f [] s = (Inr (), s)" by simp
      ultimately show ?thesis using step by blast
    next
      case False
      with Cons.IH [OF step(2)] Cons.prems(2) obtain t1 t2 w ws zs where
        "f x t1 = (Inr w, t2)" "efor_each f ws t2 = (Inr u, s')" "efor_each f zs s1 = (Inr (), t1)" by auto
      moreover have "efor_each f (y # zs) s = (Inr (), t1)" using step(1) \<open>efor_each f zs s1 = (Inr (), t1)\<close> by simp
      ultimately show ?thesis by blast
    qed
  qed simp
  with that show thesis by blast
qed

lemma walk_depth_bound: "node_at tree q = Some n \<Longrightarrow> length q < walk_depth tree"
proof -
  assume "node_at tree q = Some n"
  then have "(q, n) \<in> set tree" by (auto simp: node_at_def dest: map_of_SomeD)
  then have "length q \<le> foldr max (map (\<lambda>(p, _). length p) tree) 0" by (induction tree) auto
  then show ?thesis by (simp add: walk_depth_def)
qed

lemma grows_depth: "owner_grows uid gid tree tree' \<Longrightarrow> walk_depth tree' = walk_depth tree"
proof -
  assume "owner_grows uid gid tree tree'"
  then have "map length (map fst tree') = map length (map fst tree)" by (simp add: owner_grows_def)
  then have "map (\<lambda>(p, _). length p) tree' = map (\<lambda>(p, _). length p) tree" by (simp add: comp_def case_prod_beta')
  then show ?thesis by (simp only: walk_depth_def)
qed

lemma grows_node: "owner_grows uid gid tree tree' \<Longrightarrow> node_at tree' q = None \<longleftrightarrow> node_at tree q = None"
  unfolding owner_grows_def by (metis option.map_disc_iff)

lemma grows_wf: "owner_grows uid gid tree tree' \<Longrightarrow> tree_wf tree \<Longrightarrow> tree_wf tree'"
proof -
  assume grows: "owner_grows uid gid tree tree'" and wf: "tree_wf tree"
  have dir: "is_directory tree' q \<longleftrightarrow> is_directory tree q" for q
    using grows unfolding owner_grows_def is_directory_def is_some_and_def
    by (auto split: option.splits) (metis option.simps(9) option.inject option.map_disc_iff option.distinct(1))+
  show ?thesis unfolding tree_wf_def dir
    using wf grows_node [OF grows] unfolding tree_wf_def by (metis option.exhaust)
qed

text \<open>The walk reaches every node strictly below, whatever its depth: the bound is never met.\<close>

lemma walk_owns:
  assumes "walk_no_symlinks depth env (\<lambda>names. posix_chown env action names uid gid) names tree = (Inr u, tree')"
    and "uid \<noteq> - 1" "gid \<noteq> - 1" "tree_wf tree" "names \<noteq> []" "0 < depth" "walk_depth tree \<le> depth + length names"
    and "strict_prefix names q" "node_at tree q = Some n"
  shows "owned uid gid tree' q"
  using assms(1,4-9)
proof (induction depth arbitrary: names tree tree' u n)
  case (Suc depth)
  let ?cb = "\<lambda>names. posix_chown env action names uid gid"
  let ?body = "\<lambda>child. ebind (?cb child) (\<lambda>_. walk_no_symlinks depth env ?cb child)"
  note cb = keeps_chown_grows [OF assms(2,3), of env action]
  have walk: "keeps (owner_grows uid gid) (walk_no_symlinks d env ?cb p)" for d p by (rule keeps_walk_grows) (rule cb)
  have body: "keeps (owner_grows uid gid) (?body child)" for child by (intro grows.keeps_bind cb walk)
  have rest: "keeps (owner_grows uid gid) (efor_each ?body cs)" for cs by (intro grows.keeps_for_each body)
  obtain c where q: "prefix (names @ [c]) q"
    using Suc.prems(6) by (metis append_Cons append_Nil append_assoc prefix_def strict_prefixE')
  let ?c = "names @ [c]"
  have len: "length names < length q" using Suc.prems(6) by (rule prefix_length_less)
  have dir: "is_directory tree names"
  proof -
    have "take (length names) q = names" using Suc.prems(6) by (auto simp: strict_prefix_def prefix_def)
    moreover have "is_directory tree (take (length names) q)"
      using Suc.prems(2,3,7) len unfolding tree_wf_def by (metis length_greater_0_conv)
    ultimately show ?thesis by simp
  qed
  then obtain m where m: "node_at tree names = Some m" "fn_kind m = Directory"
    by (auto simp: is_directory_def is_some_and_def split: option.splits)
  from Suc.prems(1) m have run: "efor_each ?body (children tree names) tree = (Inr u, tree')"
    by (auto simp: stat_def split: if_splits)
  have "\<exists>k. node_at tree ?c = Some k"
  proof (cases "?c = q")
    case False
    with q have "length ?c < length q" by (intro prefix_length_less) (simp add: strict_prefix_def)
    moreover have "take (length ?c) q = ?c" using q by (auto simp: prefix_def)
    ultimately have "is_directory tree ?c" using Suc.prems(2,7) unfolding tree_wf_def by (metis length_append_singleton zero_less_Suc)
    then show ?thesis by (auto simp: is_directory_def is_some_and_def split: option.splits)
  qed (use Suc.prems(7) in blast)
  then obtain k where k: "node_at tree ?c = Some k" ..
  then have "?c \<in> set (children tree names)" by (force simp: children_def node_at_def dest: map_of_SomeD)
  with run obtain s1 s2 v ys zs where reach: "?body ?c s1 = (Inr v, s2)"
    "efor_each ?body ys s2 = (Inr u, tree')" "efor_each ?body zs tree = (Inr (), s1)" by (rule efor_each_reaches)
  from reach(1) obtain w t where steps: "?cb ?c s1 = (Inr w, t)" "walk_no_symlinks depth env ?cb ?c t = (Inr v, s2)"
    by (auto simp: ebind_Inr_iff)
  have g1: "owner_grows uid gid tree t"
    using keeps_at [OF rest reach(3)] keeps_at [OF cb steps(1)] by (rule grows.trans)
  have g2: "owner_grows uid gid t tree'"
    using keeps_at [OF walk steps(2)] keeps_at [OF rest reach(2)] by (rule grows.trans)
  show ?case
  proof (cases "?c = q")
    case True
    with chown_owns [OF steps(1) assms(2,3)] g2 show ?thesis by (simp add: owner_grows_def)
  next
    case False
    have "length ?c < walk_depth tree" using k by (rule walk_depth_bound)
    with Suc.prems(5) have "0 < depth" by simp
    moreover have "walk_depth t \<le> depth + length ?c" using Suc.prems(5) by (simp add: grows_depth [OF g1])
    moreover have "strict_prefix ?c q" using q False by (simp add: strict_prefix_def)
    moreover obtain n' where "node_at t q = Some n'" using grows_node [OF g1, of q] Suc.prems(7) by (cases "node_at t q") auto
    ultimately have "owned uid gid s2 q" using Suc.IH [OF steps(2) grows_wf [OF g1 Suc.prems(2)]] by blast
    with keeps_at [OF rest reach(2)] show ?thesis by (simp add: owner_grows_def)
  qed
qed simp

text \<open>
  A recursive change of owner that is reported done is done: every node at the path and below
  it belongs to the requested owner, however deep it lies, and nothing else in the tree has
  changed. Symbolic links below the path are changed themselves and not followed.
\<close>

theorem recursive_chown_complete:
  assumes "fs_chown env action identity path owner True tree = (Inr change, tree')" "tree_wf tree"
    and "owner_ids owner identity = Inr (uid, gid)" "uid \<noteq> - 1" "gid \<noteq> - 1"
  shows "(\<forall>names n. node_at tree' names = Some n \<longrightarrow> prefix (path_names path) names \<longrightarrow> fn_uid n = uid \<and> fn_gid n = gid) \<and>
    (\<forall>names. \<not> prefix (path_names path) names \<longrightarrow> node_at tree' names = node_at tree names) \<and>
    (\<forall>names. map_option fn_kind (node_at tree' names) = map_option fn_kind (node_at tree names))"
proof -
  let ?names = "path_names path" and ?cb = "\<lambda>names. posix_chown env action names uid gid"
  have cb_eq: "chown_step env action identity owner = ?cb" using chown_step_eq [OF assms(3)] by (intro ext) simp
  from assms(1) obtain u v tree1 where nonroot: "?names \<noteq> []"
    and first: "?cb ?names tree = (Inr u, tree1)"
    and walk: "walk_no_symlinks (walk_depth tree1) env ?cb ?names tree1 = (Inr v, tree')"
    unfolding fs_chown_def Let_def cb_eq
    by (auto simp: ebind_Inr_iff validate_recursive_path_def rbind_Inr_iff fail_if_Inr_iff)
  have g1: "owner_grows uid gid tree tree1" using keeps_chown_grows [OF assms(4,5)] first by (rule keeps_at)
  have g2: "owner_grows uid gid tree1 tree'"
    by (rule keeps_at [OF keeps_walk_grows walk]) (rule keeps_chown_grows [OF assms(4,5)])
  have grows: "owner_grows uid gid tree tree'" using g1 g2 by (rule grows.trans)
  have "owned uid gid tree' names" if node: "node_at tree' names = Some n" and below: "prefix ?names names" for names n
  proof (cases "names = ?names")
    case True
    with chown_owns [OF first assms(4,5)] g2 show ?thesis by (simp add: owner_grows_def)
  next
    case False
    obtain n' where "node_at tree1 names = Some n'" using grows_node [OF g2, of names] node by (cases "node_at tree1 names") auto
    then show ?thesis
      using walk_owns [OF walk assms(4,5) grows_wf [OF g1 assms(2)] nonroot, of names n'] below False
      by (auto simp: strict_prefix_def walk_depth_def)
  qed
  moreover have "unchanged_outside ?names tree tree'"
    by (rule outside.trans [OF keeps_at [OF keeps_chown_outside first] keeps_at [OF keeps_walk_outside walk]])
      (rule keeps_chown_outside)
  ultimately show ?thesis using grows by (auto simp: owned_def unchanged_outside_def owner_grows_def)
qed

theorem recursive_chown_complete_witness:
  "\<exists>tree' n. fs_chown sample_env ''own'' sample_resolved ''/home'' ''identity.target'' True sample_tree =
      (Inr (OwnershipUpdated True), tree') \<and>
    node_at tree' [''home'', ''dev'', ''notes''] = Some n \<and> fn_uid n = 1000 \<and> fn_kind n = Regular ''mine''"
proof -
  let ?run = "fs_chown sample_env ''own'' sample_resolved ''/home'' ''identity.target'' True sample_tree"
  have "fst ?run = Inr (OwnershipUpdated True)" by code_simp
  then obtain tree' where run: "?run = (Inr (OwnershipUpdated True), tree')" by (metis prod.collapse)
  have ids: "owner_ids ''identity.target'' sample_resolved = Inr (1000, 1000)" by (simp add: owner_ids_def sample_resolved_def)
  note all = recursive_chown_complete [OF run sample_tree_wf ids]
  have kind: "map_option fn_kind (node_at sample_tree [''home'', ''dev'', ''notes'']) = Some (Regular ''mine'')" by code_simp
  have "map_option fn_kind (node_at tree' [''home'', ''dev'', ''notes'']) = Some (Regular ''mine'')"
    using all kind by simp
  then obtain n where n: "node_at tree' [''home'', ''dev'', ''notes''] = Some n" "fn_kind n = Regular ''mine''" by auto
  have "path_names ''/home'' = [''home'']" by code_simp
  then have "fn_uid n = 1000" using all n(1) by simp
  with run n show ?thesis by blast
qed

end
