(* ===== verification/Bootstrap_Plan.thy ===== *)
theory Bootstrap_Plan
  imports Bootstrap_Config "HOL-Library.Product_Lexorder"
begin

text \<open>
  Building the static action plan
  (\<open>src/crates/container-init-bootstrap-model/src/plan.rs\<close>). Every \<open>expect\<close>, index into a
  vector and map lookup by index of the source can panic: the functions return \<open>None\<close> there,
  and the properties show that a plan is built without a panic. \<open>usize\<close> subtraction of zero is
  a panic too.
\<close>

section \<open>Effects\<close>

datatype plan_effect =
    EffIdentityResolve
  | EffIdentityMapUser
  | EffIdentityEnsureHome "string option" "string option" "string option"
  | EffEnsureDir string "string option" "string option"
  | EffEnsureFile string "string option" "string option"
  | EffEnsureSymlink string string "string option"
  | EffChown string string bool
  | EffChmod string string bool
  | EffSetUserShell string string
  | EffDropPrivileges
  | EffSshPrepare string string string "string list" bool
  | EffCgroupV2Init "string option" string "string option" "string option" "string list option"
      "string list option" "string option" "string list option" "(string, string) btree_map option"
  | EffHandoffExec

definition effect_from_action :: "action \<Rightarrow> plan_effect option" where
  "effect_from_action a =
     (case ac_kind a of
        IdentityResolve \<Rightarrow> Some EffIdentityResolve
      | IdentityMapUser \<Rightarrow> Some EffIdentityMapUser
      | IdentityEnsureHome \<Rightarrow> Some (EffIdentityEnsureHome (ac_path a) (ac_mode a) (ac_owner a))
      | FilesystemEnsureDir \<Rightarrow>
          Option.bind (ac_path a) (\<lambda>path. Some (EffEnsureDir path (ac_mode a) (ac_owner a)))
      | FilesystemEnsureFile \<Rightarrow>
          Option.bind (ac_path a) (\<lambda>path. Some (EffEnsureFile path (ac_mode a) (ac_owner a)))
      | FilesystemEnsureSymlink \<Rightarrow>
          Option.bind (ac_link a) (\<lambda>link. Option.bind (ac_target a) (\<lambda>target.
            Some (EffEnsureSymlink link target (ac_owner a))))
      | FilesystemChown \<Rightarrow>
          Option.bind (ac_path a) (\<lambda>path. Option.bind (ac_owner a) (\<lambda>owner.
            Some (EffChown path owner (ac_recursive a))))
      | FilesystemChmod \<Rightarrow>
          Option.bind (ac_path a) (\<lambda>path. Option.bind (ac_mode a) (\<lambda>mode.
            Some (EffChmod path mode (ac_recursive a))))
      | ProcessSetUserShell \<Rightarrow>
          Option.bind (ac_user a) (\<lambda>user. Option.bind (ac_shell a) (\<lambda>shell.
            Some (EffSetUserShell user shell)))
      | ProcessDropPrivileges \<Rightarrow> Some EffDropPrivileges
      | ServiceSshPrepare \<Rightarrow>
          Option.bind (ssh_host_key_dir a) (\<lambda>host_key_dir.
          Option.bind (ssh_authorized_keys_dir a) (\<lambda>authorized_keys_dir.
          Option.bind (ssh_runtime_dir a) (\<lambda>runtime_dir.
            Some (EffSshPrepare host_key_dir authorized_keys_dir runtime_dir
              (if ssh_host_key_types a = [] then [''rsa'', ''ed25519''] else ssh_host_key_types a)
              (ac_content a \<noteq> None \<or> ac_authorized_keys_source a \<noteq> None)))))
      | CgroupV2Init \<Rightarrow>
          Some (EffCgroupV2Init (ac_path a) (cgroup_mount_mode a) (ac_shadow_path a) (ac_subgroup a)
            (ac_controllers a) (ac_optional_controllers a) (ac_subgroup_type a)
            (ac_subgroup_controllers a) (ac_subgroup_controller_values a))
      | HandoffExec \<Rightarrow> Some EffHandoffExec)"

record planned_action =
  pa_id :: string
  pa_kind :: action_kind
  pa_phase :: plan_phase
  pa_run_as :: run_as
  pa_depends_on :: "string list"
  pa_origin :: origin
  pa_idempotency :: idempotency
  pa_effect :: plan_effect

section \<open>Topological order\<close>

text \<open>\<open>v[i]\<close>: out of range it panics.\<close>

definition nth_opt :: "'a list \<Rightarrow> nat \<Rightarrow> 'a option" where
  "nth_opt xs i = (if i < length xs then Some (xs ! i) else None)"

definition id_index :: "action list \<Rightarrow> (string, nat) btree_map" where
  "id_index actions = btree_collect (map (\<lambda>(index, a). (ac_id a, index)) (enumerate 0 actions))"

text \<open>\<open>dependents[indexes[dependency]].push(index)\<close> for the dependencies of one action, then of all.\<close>

fun add_dependents ::
  "(string, nat) btree_map \<Rightarrow> nat \<Rightarrow> string list \<Rightarrow> nat list list \<Rightarrow> nat list list option" where
  "add_dependents indexes index [] dependents = Some dependents"
| "add_dependents indexes index (dependency # ds) dependents =
     (case btree_get dependency indexes of
        None \<Rightarrow> None
      | Some j \<Rightarrow>
          if j < length dependents
          then add_dependents indexes index ds (dependents[j := dependents ! j @ [index]])
          else None)"

fun build_dependents ::
  "(string, nat) btree_map \<Rightarrow> (nat \<times> string list) list \<Rightarrow> nat list list \<Rightarrow> nat list list option" where
  "build_dependents indexes [] dependents = Some dependents"
| "build_dependents indexes ((index, ds) # rest) dependents =
     Option.bind (add_dependents indexes index ds dependents) (build_dependents indexes rest)"

text \<open>The inner loop over the dependents of the action just ordered.\<close>

fun relax ::
  "(nat \<Rightarrow> plan_phase option) \<Rightarrow> nat list \<Rightarrow> nat list \<Rightarrow> (plan_phase \<times> nat) list \<Rightarrow>
   (nat list \<times> (plan_phase \<times> nat) list) option" where
  "relax phase [] indegree ready = Some (indegree, ready)"
| "relax phase (d # ds) indegree ready =
     (if d < length indegree \<and> indegree ! d \<noteq> 0
      then let indegree = indegree[d := indegree ! d - 1]
           in if indegree ! d = 0
              then Option.bind (phase d) (\<lambda>p. relax phase ds indegree (set_insert (p, d) ready))
              else relax phase ds indegree ready
      else None)"

lemma relax_measure:
  "relax phase ds indegree ready = Some (indegree', ready') \<Longrightarrow>
     sum_list indegree' + length ready' \<le> sum_list indegree + length ready"
proof (induction ds arbitrary: indegree ready)
  case (Cons d ds)
  then obtain p where d: "d < length indegree" "indegree ! d \<noteq> 0"
    and rec: "relax phase ds (indegree[d := indegree ! d - 1])
      (if indegree ! d - 1 = 0 then set_insert (p, d) ready else ready) = Some (indegree', ready')"
    by (auto simp: Let_def bind_eq_Some_conv split: if_splits)
  have "indegree ! d \<le> sum_list indegree" using d(1) by (simp add: member_le_sum_list)
  then have "Suc (sum_list (indegree[d := indegree ! d - 1])) = sum_list indegree"
    using d by (simp add: sum_list_update)
  moreover have "length (set_insert (p, d) ready) \<le> Suc (length ready)"
    by (simp add: set_insert_def insort_insert_key_def)
  ultimately show ?case using Cons.IH [OF rec] by (cases "indegree ! d - 1 = 0") simp_all
qed simp

lemma pop_first_Some [simp]: "pop_first xs = Some (x, ys) \<longleftrightarrow> xs = x # ys"
  by (cases xs) auto

function topo_loop ::
  "(nat \<Rightarrow> plan_phase option) \<Rightarrow> nat list list \<Rightarrow> nat list \<Rightarrow> (plan_phase \<times> nat) list \<Rightarrow> nat list \<Rightarrow>
   (nat list \<times> nat list) option" where
  "topo_loop phase dependents indegree ready order =
     (case pop_first ready of
        None \<Rightarrow> Some (order, indegree)
      | Some ((_, index), ready) \<Rightarrow>
          if index < length dependents then
            (case relax phase (dependents ! index) indegree ready of
               None \<Rightarrow> None
             | Some (indegree, ready) \<Rightarrow> topo_loop phase dependents indegree ready (order @ [index]))
          else None)"
  by pat_completeness auto
termination
  by (relation "measure (\<lambda>(_, _, indegree, ready, _). sum_list indegree + length ready)")
    (auto dest!: relax_measure)

declare topo_loop.simps [simp del]

definition initial_ready :: "(nat \<Rightarrow> plan_phase option) \<Rightarrow> nat list \<Rightarrow> (plan_phase \<times> nat) list option" where
  "initial_ready phase indegree =
     map_option set_collect (those (map (\<lambda>(index, _). map_option (\<lambda>p. (p, index)) (phase index))
       (filter (\<lambda>(_, degree). degree = 0) (enumerate 0 indegree))))"

text \<open>\<open>vec![0; actions.len()]\<close> with \<open>indegree[index] = action_dependencies.len()\<close> for each list of dependencies.\<close>

definition initial_indegree :: "action list \<Rightarrow> string list list \<Rightarrow> nat list option" where
  "initial_indegree actions dependencies =
     (if length actions < length dependencies then None
      else Some (map length dependencies @ replicate (length actions - length dependencies) 0))"

definition stable_topological_order ::
  "action list \<Rightarrow> string list list \<Rightarrow> nat list model_result option" where
  "stable_topological_order actions dependencies =
     (let indexes = id_index actions;
          phase = (\<lambda>index. map_option action_phase (nth_opt actions index))
      in Option.bind (initial_indegree actions dependencies) (\<lambda>indegree.
         Option.bind (build_dependents indexes (enumerate 0 dependencies) (replicate (length actions) []))
           (\<lambda>dependents.
         Option.bind (initial_ready phase indegree) (\<lambda>ready.
         Option.bind (topo_loop phase dependents indegree ready [])
           (\<lambda>(order, indegree).
             if length order \<noteq> length actions
             then map_option (Inl \<circ> DependencyCycle)
               (those (map (\<lambda>(index, _). map_option ac_id (nth_opt actions index))
                 (filter (\<lambda>(_, degree). 0 < degree) (enumerate 0 indegree))))
             else Some (Inr order))))))"

section \<open>Building the plan\<close>

fun collect_dependencies ::
  "(string, nat) btree_map \<Rightarrow> action \<Rightarrow> string list \<Rightarrow> string list \<Rightarrow> string list model_result" where
  "collect_dependencies by_id a acc [] = Inr acc"
| "collect_dependencies by_id a acc (dependency # ds) =
     (if dependency = ac_id a then Inl (DependencyCycle [ac_id a])
      else if \<not> contains_key dependency by_id then Inl (MissingDependency (ac_id a) dependency)
      else collect_dependencies by_id a (set_insert dependency acc) ds)"

definition action_dependencies ::
  "(string, nat) btree_map \<Rightarrow> string option \<Rightarrow> action \<Rightarrow> string list model_result" where
  "action_dependencies by_id identity_resolve_id a =
     rbind (collect_dependencies by_id a [] (ac_depends_on a)) (\<lambda>dependencies.
       if ac_kind a \<noteq> IdentityResolve then
         rbind (fail_if (references_identity a \<and> identity_resolve_id = None)
           (MissingIdentityResolve (ac_id a))) (\<lambda>_.
         Inr (case identity_resolve_id of
                Some resolve_id \<Rightarrow> set_insert resolve_id dependencies
              | None \<Rightarrow> dependencies))
       else Inr dependencies)"

definition indexes_of_kind :: "action_kind \<Rightarrow> action list \<Rightarrow> nat list" where
  "indexes_of_kind kind actions =
     map fst (filter (\<lambda>(_, a). ac_kind a = kind) (enumerate 0 actions))"

text \<open>The handoff depends on \<open>process.drop_privileges\<close> when both are there.\<close>

definition order_drop_before_handoff :: "action list \<Rightarrow> string list list \<Rightarrow> string list list option" where
  "order_drop_before_handoff actions dependencies =
     (case (indexes_of_kind HandoffExec actions, indexes_of_kind ProcessDropPrivileges actions) of
        (handoff_index # _, drop_index # _) \<Rightarrow>
          Option.bind (nth_opt dependencies handoff_index) (\<lambda>ds.
          Option.bind (nth_opt actions drop_index) (\<lambda>drop_action.
          Some (dependencies[handoff_index := sort_dedup (ds @ [ac_id drop_action])])))
      | _ \<Rightarrow> Some dependencies)"

fun check_phase_dependencies ::
  "(string, nat) btree_map \<Rightarrow> plan_phase list \<Rightarrow> nat \<Rightarrow> string \<Rightarrow> string list \<Rightarrow> unit model_result option" where
  "check_phase_dependencies by_id phases index name [] = Some (Inr ())"
| "check_phase_dependencies by_id phases index name (dependency # ds) =
     Option.bind (btree_get dependency by_id) (\<lambda>dependency_index.
     Option.bind (nth_opt phases dependency_index) (\<lambda>dependency_phase.
     Option.bind (nth_opt phases index) (\<lambda>phase.
       if phase < dependency_phase then Some (Inl (PhaseViolation name dependency))
       else check_phase_dependencies by_id phases index name ds)))"

fun check_phases ::
  "(string, nat) btree_map \<Rightarrow> plan_phase list \<Rightarrow> string list list \<Rightarrow> (nat \<times> action) list \<Rightarrow> unit model_result option" where
  "check_phases by_id phases dependencies [] = Some (Inr ())"
| "check_phases by_id phases dependencies ((index, a) # rest) =
     Option.bind (nth_opt dependencies index) (\<lambda>ds.
     Option.bind (check_phase_dependencies by_id phases index (ac_id a) ds) (\<lambda>r.
       case r of Inl e \<Rightarrow> Some (Inl e) | Inr _ \<Rightarrow> check_phases by_id phases dependencies rest))"

definition plan_action :: "action list \<Rightarrow> string list list \<Rightarrow> nat \<Rightarrow> planned_action option" where
  "plan_action actions dependencies index =
     Option.bind (nth_opt actions index) (\<lambda>a.
     Option.bind (nth_opt (map action_phase actions) index) (\<lambda>phase.
     Option.bind (nth_opt dependencies index) (\<lambda>depends_on.
     Option.bind (effect_from_action a) (\<lambda>effect.
       Some \<lparr>pa_id = ac_id a, pa_kind = ac_kind a, pa_phase = phase, pa_run_as = ac_run_as a,
         pa_depends_on = depends_on, pa_origin = ac_origin a,
         pa_idempotency = kind_idempotency (ac_kind a), pa_effect = effect\<rparr>))))"

definition plan_at_most_once :: "action_kind \<Rightarrow> config_message \<Rightarrow> action list \<Rightarrow> unit model_result" where
  "plan_at_most_once kind msg actions =
     fail_if (1 < length (indexes_of_kind kind actions)) (Invalid ''bootstrap.actions'' (ConfigMsg msg))"

text \<open>The static dependencies of all actions, or the first error in collecting them.\<close>

definition first_of_kind :: "action_kind \<Rightarrow> action list \<Rightarrow> string option" where
  "first_of_kind kind actions = (case filter (\<lambda>a. ac_kind a = kind) actions of [] \<Rightarrow> None | a # _ \<Rightarrow> Some (ac_id a))"

definition collected_dependencies :: "action list \<Rightarrow> string list list model_result" where
  "collected_dependencies actions =
     rbind (plan_at_most_once IdentityResolve ResolveTwice actions) (\<lambda>_.
     rbind (collect_results (map (action_dependencies (id_index actions) (first_of_kind IdentityResolve actions)) actions)) (\<lambda>dependencies.
     rbind (plan_at_most_once HandoffExec HandoffTwice actions) (\<lambda>_.
     rbind (plan_at_most_once ProcessDropPrivileges DropTwice actions) (\<lambda>_.
     Inr dependencies))))"

definition plan_dependencies :: "action list \<Rightarrow> string list list model_result option" where
  "plan_dependencies actions =
     (case collected_dependencies actions of
        Inl e \<Rightarrow> Some (Inl e)
      | Inr dependencies \<Rightarrow> map_option Inr (order_drop_before_handoff actions dependencies))"

definition plan_from_config :: "bootstrap_config \<Rightarrow> planned_action list model_result option" where
  "plan_from_config c =
     (let actions = bc_actions c in
      case config_validate c of
        Inl e \<Rightarrow> Some (Inl e)
      | Inr _ \<Rightarrow>
          (case plan_dependencies actions of
             None \<Rightarrow> None
           | Some (Inl e) \<Rightarrow> Some (Inl e)
           | Some (Inr dependencies) \<Rightarrow>
               (case check_phases (id_index actions) (map action_phase actions) dependencies (enumerate 0 actions) of
                  None \<Rightarrow> None
                | Some (Inl e) \<Rightarrow> Some (Inl e)
                | Some (Inr _) \<Rightarrow>
                    (case stable_topological_order actions dependencies of
                       None \<Rightarrow> None
                     | Some (Inl e) \<Rightarrow> Some (Inl e)
                     | Some (Inr order) \<Rightarrow>
                         map_option Inr (those (map (plan_action actions dependencies) order))))))"

section \<open>The scheduling loop\<close>

text \<open>
  The loop on an abstract graph: \<open>D i\<close> are the indices the action \<open>i\<close> depends on. The
  invariant ties the counters and the ready set to what is still missing for each action.
\<close>

definition kahn_inv ::
  "nat \<Rightarrow> (nat \<Rightarrow> nat set) \<Rightarrow> (nat \<Rightarrow> plan_phase) \<Rightarrow> nat list \<Rightarrow> (plan_phase \<times> nat) list \<Rightarrow> nat list \<Rightarrow> bool" where
  "kahn_inv n D phase indegree ready order \<longleftrightarrow>
     length indegree = n \<and> distinct order \<and> set order \<subseteq> {..<n} \<and>
     sorted ready \<and> distinct ready \<and> (\<forall>(p, i) \<in> set ready. p = phase i \<and> i < n) \<and>
     (\<forall>i < n. indegree ! i = card (D i - set order)) \<and>
     (\<forall>i < n. (phase i, i) \<in> set ready \<longleftrightarrow> D i \<subseteq> set order \<and> i \<notin> set order) \<and>
     (\<forall>k < length order. D (order ! k) \<subseteq> set (take k order)) \<and>
     sorted (map phase order) \<and> (\<forall>x \<in> set order. \<forall>(p, i) \<in> set ready. phase x \<le> p)"

definition graph_ok :: "nat \<Rightarrow> (nat \<Rightarrow> nat set) \<Rightarrow> (nat \<Rightarrow> plan_phase) \<Rightarrow> nat list list \<Rightarrow> bool" where
  "graph_ok n D phase dependents \<longleftrightarrow>
     length dependents = n \<and> (\<forall>i < n. D i \<subseteq> {..<n}) \<and>
     (\<forall>i < n. distinct (dependents ! i) \<and> set (dependents ! i) = {j. j < n \<and> i \<in> D j}) \<and>
     (\<forall>i < n. \<forall>d \<in> D i. phase d \<le> phase i)"

lemma card_1_mem: "x \<in> A \<Longrightarrow> card A = 1 \<longleftrightarrow> A = {x}"
  by (auto simp: card_1_singleton_iff)

lemma relax_spec:
  assumes "distinct ds" "\<forall>d \<in> set ds. d < length indegree \<and> indegree ! d \<noteq> 0 \<and> look d = Some (phase d)"
    and "sorted ready" "distinct ready"
  shows "\<exists>ready'. relax look ds indegree ready =
      Some (map (\<lambda>j. if j \<in> set ds then indegree ! j - 1 else indegree ! j) [0..<length indegree], ready') \<and>
    sorted ready' \<and> distinct ready' \<and>
    set ready' = set ready \<union> {(phase d, d) | d. d \<in> set ds \<and> indegree ! d = 1}"
  using assms
proof (induction ds arbitrary: indegree ready)
  case Nil
  then show ?case by (simp add: map_nth)
next
  case (Cons d ds)
  let ?deg = "indegree[d := indegree ! d - 1]"
  let ?ready = "if indegree ! d - 1 = 0 then set_insert (phase d, d) ready else ready"
  from Cons.prems have d: "d < length indegree" "indegree ! d \<noteq> 0" "d \<notin> set ds" "look d = Some (phase d)" by auto
  have "\<forall>e \<in> set ds. e < length ?deg \<and> ?deg ! e \<noteq> 0 \<and> look e = Some (phase e)" using Cons.prems d by (auto simp: nth_list_update)
  moreover have "sorted ?ready" "distinct ?ready" "distinct ds" using Cons.prems by auto
  ultimately obtain ready' where
    r: "relax look ds ?deg ?ready =
        Some (map (\<lambda>j. if j \<in> set ds then ?deg ! j - 1 else ?deg ! j) [0..<length ?deg], ready')"
      "sorted ready'" "distinct ready'"
      "set ready' = set ?ready \<union> {(phase e, e) | e. e \<in> set ds \<and> ?deg ! e = 1}"
    using Cons.IH by blast
  have "map (\<lambda>j. if j \<in> set ds then ?deg ! j - 1 else ?deg ! j) [0..<length ?deg] =
      map (\<lambda>j. if j \<in> set (d # ds) then indegree ! j - 1 else indegree ! j) [0..<length indegree]"
    using d by (auto simp: nth_list_update)
  moreover have "set ready' = set ready \<union> {(phase e, e) | e. e \<in> set (d # ds) \<and> indegree ! e = 1}"
    using d r(4) by (auto simp: nth_list_update split: if_splits)
  moreover have "relax look (d # ds) indegree ready = relax look ds ?deg ?ready"
    using d by (simp add: Let_def)
  ultimately have "relax look (d # ds) indegree ready =
      Some (map (\<lambda>j. if j \<in> set (d # ds) then indegree ! j - 1 else indegree ! j) [0..<length indegree], ready')"
    "set ready' = set ready \<union> {(phase e, e) | e. e \<in> set (d # ds) \<and> indegree ! e = 1}"
    using r(1) by simp_all
  with r(2,3) show ?case by blast
qed

lemma kahn_step:
  assumes g: "graph_ok n D phase dependents" and inv: "kahn_inv n D phase indegree ((p, i) # rest) order"
    and look: "\<And>j. j < n \<Longrightarrow> look j = Some (phase j)"
  shows "i < length dependents \<and> (\<exists>indegree' ready'.
    relax look (dependents ! i) indegree rest = Some (indegree', ready') \<and>
    kahn_inv n D phase indegree' ready' (order @ [i]))"
proof -
  from inv have i: "i < n" "p = phase i" and len: "length indegree = n" and ready: "sorted rest" "distinct rest"
    and deg: "\<forall>j < n. indegree ! j = card (D j - set order)"
    and mem: "\<forall>j < n. (phase j, j) \<in> set ((p, i) # rest) \<longleftrightarrow> D j \<subseteq> set order \<and> j \<notin> set order"
    and order: "\<forall>k < length order. D (order ! k) \<subseteq> set (take k order)"
    and rest: "\<forall>(q, j) \<in> set rest. q = phase j \<and> j < n" "(p, i) \<notin> set rest"
      "\<forall>(q, j) \<in> set rest. p \<le> q"
    and early: "\<forall>x \<in> set order. phase x \<le> p" "\<forall>x \<in> set order. \<forall>(q, j) \<in> set rest. phase x \<le> q"
    by (auto simp: kahn_inv_def less_eq_prod_def)
  have io: "D i \<subseteq> set order" "i \<notin> set order" using mem i by auto
  let ?ds = "dependents ! i"
  have ds: "distinct ?ds" "set ?ds = {j. j < n \<and> i \<in> D j}" using g i by (auto simp: graph_ok_def)
  have fin: "finite (D j)" if "j < n" for j
    using g that by (auto simp: graph_ok_def intro: finite_subset)
  have "indegree ! d \<noteq> 0" if "d \<in> set ?ds" for d
    using that ds(2) deg io(2) fin [of d] by auto
  then obtain ready' where r:
    "relax look ?ds indegree rest =
      Some (map (\<lambda>j. if j \<in> set ?ds then indegree ! j - 1 else indegree ! j) [0..<length indegree], ready')"
    "sorted ready'" "distinct ready'"
    "set ready' = set rest \<union> {(phase d, d) | d. d \<in> set ?ds \<and> indegree ! d = 1}"
    using relax_spec [of ?ds indegree look phase rest] ds ready len look by auto
  let ?deg = "map (\<lambda>j. if j \<in> set ?ds then indegree ! j - 1 else indegree ! j) [0..<length indegree]"
  have ordered: "D j \<subseteq> set order" if "j \<in> set order" for j
    using that order by (metis in_set_conv_nth set_take_subset subset_trans)
  have card: "card (D j - set (order @ [i])) = (if i \<in> D j then card (D j - set order) - 1 else card (D j - set order))"
    if "j < n" for j
  proof -
    have "D j - set (order @ [i]) = (D j - set order) - {i}" by auto
    with fin [OF that] io(2) show ?thesis by (simp add: card_Diff_singleton_if)
  qed
  have degrees: "?deg ! j = card (D j - set (order @ [i]))" if "j < n" for j
    using that len deg ds(2) card [OF that] by simp
  have one: "indegree ! j = 1 \<longleftrightarrow> D j - set order = {i}" if "j < n" "i \<in> D j" for j
  proof -
    have "i \<in> D j - set order" using that(2) io(2) by blast
    then have "card (D j - set order) = 1 \<longleftrightarrow> D j - set order = {i}"
      by (rule card_1_mem)
    with that(1) deg show ?thesis by simp
  qed
  have members: "(phase j, j) \<in> set ready' \<longleftrightarrow> D j \<subseteq> set (order @ [i]) \<and> j \<notin> set (order @ [i])" if j: "j < n" for j
  proof (cases "D j \<subseteq> set order")
    case True
    then have "i \<notin> D j" using io(2) by auto
    then have "(phase j, j) \<in> set ready' \<longleftrightarrow> (phase j, j) \<in> set rest" using r(4) ds(2) by auto
    moreover have "(phase j, j) \<in> set rest \<longleftrightarrow> j \<notin> set order \<and> j \<noteq> i"
      using mem j True i(2) rest(2) by auto
    ultimately show ?thesis using True by auto
  next
    case False
    then have "(phase j, j) \<notin> set rest" "j \<notin> set order" "j \<noteq> i" using mem j ordered io(1) by auto
    moreover have "D j \<subseteq> set (order @ [i]) \<longleftrightarrow> i \<in> D j \<and> D j - set order = {i}" using False by auto
    ultimately show ?thesis using r(4) ds(2) j one [OF j] by auto
  qed
  have later: "phase x \<le> q" if "x \<in> set (order @ [i])" "(q, j) \<in> set ready'" for x q j
  proof (cases "(q, j) \<in> set rest")
    case True
    with that(1) early(2) rest(3) i(2) show ?thesis by auto
  next
    case False
    with that(2) r(4) ds(2) have "q = phase j" "j < n" "i \<in> D j" by auto
    with g have "phase i \<le> q" by (auto simp: graph_ok_def)
    with that(1) early(1) i(2) show ?thesis by auto
  qed
  have prefix: "D ((order @ [i]) ! k) \<subseteq> set (take k (order @ [i]))" if "k < length (order @ [i])" for k
    using that order io(1) by (cases "k < length order") (auto simp: nth_append)
  have "kahn_inv n D phase ?deg ready' (order @ [i])"
    unfolding kahn_inv_def
  proof (intro conjI ballI allI impI)
    show "length ?deg = n" using len by simp
    show "distinct (order @ [i])" "set (order @ [i]) \<subseteq> {..<n}" "sorted (map phase (order @ [i]))"
      using inv io(2) i early(1) by (auto simp: kahn_inv_def sorted_append)
    show "case x of (q, j) \<Rightarrow> q = phase j \<and> j < n" if "x \<in> set ready'" for x
      using that r(4) rest(1) ds(2) by auto
    show "case y of (q, j) \<Rightarrow> phase x \<le> q" if "x \<in> set (order @ [i])" "y \<in> set ready'" for x y
      using that later by auto
  qed (use r(2,3) degrees members prefix in blast)+
  moreover have "i < length dependents" using i g by (simp add: graph_ok_def)
  ultimately show ?thesis using r(1) by blast
qed

lemma kahn_loop:
  assumes "graph_ok n D phase dependents" "kahn_inv n D phase indegree ready order" "\<And>j. j < n \<Longrightarrow> look j = Some (phase j)"
  shows "\<exists>order' indegree'. topo_loop look dependents indegree ready order = Some (order', indegree') \<and>
    kahn_inv n D phase indegree' [] order'"
  using assms
proof (induction "sum_list indegree + length ready" arbitrary: indegree ready order rule: less_induct)
  case less
  show ?case
  proof (cases ready)
    case Nil
    with less.prems show ?thesis by (simp add: topo_loop.simps)
  next
    case (Cons e rest)
    obtain p i where e: "e = (p, i)" by (cases e)
    from kahn_step [OF less.prems(1) _ less.prems(3), of indegree p i rest order] less.prems(2) Cons e obtain indegree' ready' where
      s: "i < length dependents" "relax look (dependents ! i) indegree rest = Some (indegree', ready')"
      "kahn_inv n D phase indegree' ready' (order @ [i])" by blast
    have "topo_loop look dependents indegree ready order = topo_loop look dependents indegree' ready' (order @ [i])"
      by (subst topo_loop.simps) (simp add: Cons e s(1,2))
    moreover have "sum_list indegree' + length ready' < sum_list indegree + length ready"
      using relax_measure [OF s(2)] Cons by simp
    ultimately show ?thesis using less.hyps [OF _ less.prems(1) s(3) less.prems(3)] by simp
  qed
qed


section \<open>The graph of a configuration\<close>

lemma enumerate_nth: "enumerate 0 xs = map (\<lambda>i. (i, xs ! i)) [0..<length xs]"
  by (rule nth_equalityI) (auto simp: nth_enumerate_eq)

lemma id_index_get:
  assumes "distinct (map ac_id actions)"
  shows "btree_get name (id_index actions) = Some j \<longleftrightarrow> j < length actions \<and> ac_id (actions ! j) = name"
proof -
  let ?kvs = "map (\<lambda>(index, a). (ac_id a, index)) (enumerate 0 actions)"
  have "map fst ?kvs = map ac_id actions" by (auto simp: enumerate_nth comp_def intro: nth_equalityI)
  then have "distinct (map fst (rev ?kvs))" using assms by (simp add: rev_map [symmetric])
  then have "btree_get name (id_index actions) = Some j \<longleftrightarrow> (name, j) \<in> set ?kvs"
    by (simp add: id_index_def btree_get_collect)
  then show ?thesis by (auto simp: enumerate_nth)
qed

lemma contains_id:
  assumes "distinct (map ac_id actions)"
  shows "contains_key name (id_index actions) \<longleftrightarrow> name \<in> ac_id ` set actions"
proof -
  have "contains_key name (id_index actions) \<longleftrightarrow> (\<exists>j. btree_get name (id_index actions) = Some j)"
    by (simp add: contains_key_def)
  also have "\<dots> \<longleftrightarrow> (\<exists>j < length actions. ac_id (actions ! j) = name)"
    by (simp add: id_index_get [OF assms] conj_commute)
  also have "\<dots> \<longleftrightarrow> name \<in> ac_id ` set actions" by (metis image_iff in_set_conv_nth)
  finally show ?thesis .
qed

lemma add_dependents_spec:
  assumes "\<And>d. d \<in> set ds \<Longrightarrow> \<exists>j < length dependents. btree_get d indexes = Some j"
  shows "add_dependents indexes index ds dependents =
    Some (map (\<lambda>j. dependents ! j @ replicate (length (filter (\<lambda>d. btree_get d indexes = Some j) ds)) index)
      [0..<length dependents])"
  using assms
proof (induction ds arbitrary: dependents)
  case Nil
  then show ?case by (simp add: map_nth)
next
  case (Cons d ds)
  then obtain j where j: "j < length dependents" "btree_get d indexes = Some j" by auto
  let ?new = "dependents[j := dependents ! j @ [index]]"
  have "add_dependents indexes index ds ?new =
      Some (map (\<lambda>j. ?new ! j @ replicate (length (filter (\<lambda>d. btree_get d indexes = Some j) ds)) index)
        [0..<length ?new])"
    using Cons.prems by (intro Cons.IH) simp
  with j show ?case by (auto simp: nth_list_update replicate_append_same [symmetric])
qed

lemma build_dependents_spec:
  assumes "\<And>i ds d. (i, ds) \<in> set entries \<Longrightarrow> d \<in> set ds \<Longrightarrow>
      \<exists>j < length dependents. btree_get d indexes = Some j"
  shows "build_dependents indexes entries dependents =
    Some (map (\<lambda>j. dependents ! j @ concat (map (\<lambda>(i, ds).
        replicate (length (filter (\<lambda>d. btree_get d indexes = Some j) ds)) i) entries))
      [0..<length dependents])"
  using assms
proof (induction entries arbitrary: dependents)
  case Nil
  then show ?case by (simp add: map_nth)
next
  case (Cons e entries)
  obtain i ds where e: "e = (i, ds)" by (cases e)
  let ?new = "map (\<lambda>j. dependents ! j @ replicate (length (filter (\<lambda>d. btree_get d indexes = Some j) ds)) i)
      [0..<length dependents]"
  have "add_dependents indexes i ds dependents = Some ?new"
    using Cons.prems e by (intro add_dependents_spec) auto
  moreover have "build_dependents indexes entries ?new =
      Some (map (\<lambda>j. ?new ! j @ concat (map (\<lambda>(i, ds).
        replicate (length (filter (\<lambda>d. btree_get d indexes = Some j) ds)) i) entries)) [0..<length ?new])"
    using Cons.prems by (intro Cons.IH) auto
  ultimately show ?case by (simp add: e)
qed

text \<open>What \<open>plan_dependencies\<close> hands to the scheduler.\<close>

definition deps_ok :: "action list \<Rightarrow> string list list \<Rightarrow> bool" where
  "deps_ok actions deps \<longleftrightarrow>
     distinct (map ac_id actions) \<and> length deps = length actions \<and>
     (\<forall>ds \<in> set deps. distinct ds \<and> set ds \<subseteq> ac_id ` set actions)"

definition dep_graph :: "action list \<Rightarrow> string list list \<Rightarrow> nat \<Rightarrow> nat set" where
  "dep_graph actions deps i = {j. j < length actions \<and> ac_id (actions ! j) \<in> set (deps ! i)}"

lemma concat_replicate_filter:
  "concat (map (\<lambda>i. replicate (if P i then 1 else 0) i) xs) = filter P xs"
  by (induction xs) auto

lemma build_dependents_graph:
  assumes "deps_ok actions deps"
  shows "build_dependents (id_index actions) (enumerate 0 deps) (replicate (length actions) []) =
    Some (map (\<lambda>j. filter (\<lambda>i. j \<in> dep_graph actions deps i) [0..<length actions]) [0..<length actions])"
proof -
  have ok: "distinct (map ac_id actions)" "length deps = length actions"
    "\<And>ds. ds \<in> set deps \<Longrightarrow> distinct ds" "\<And>ds. ds \<in> set deps \<Longrightarrow> set ds \<subseteq> ac_id ` set actions"
    using assms by (auto simp: deps_ok_def)
  note idx = id_index_get [OF ok(1)]
  have count: "length (filter (\<lambda>d. btree_get d (id_index actions) = Some j) (deps ! i)) =
      (if j \<in> dep_graph actions deps i then 1 else 0)" if "j < length actions" "i < length actions" for i j
  proof -
    have "filter (\<lambda>d. btree_get d (id_index actions) = Some j) (deps ! i) =
        filter (\<lambda>d. d = ac_id (actions ! j)) (deps ! i)"
      using that idx by (intro filter_cong) auto
    moreover have "distinct (deps ! i)" using that ok(2,3) by simp
    ultimately show ?thesis using that
      by (auto simp: dep_graph_def distinct_length_filter Int_def card_1_singleton_iff)
  qed
  let ?none = "replicate (length actions) [] :: nat list list"
  have "\<exists>j < length ?none. btree_get d (id_index actions) = Some j"
    if "(i, ds) \<in> set (enumerate 0 deps)" "d \<in> set ds" for i ds d
  proof -
    from that(1) have "ds \<in> set deps" by (auto simp: enumerate_nth)
    with that(2) ok(4) have "d \<in> ac_id ` set actions" by blast
    then show ?thesis using idx by (auto simp: in_set_conv_nth)
  qed
  then have "build_dependents (id_index actions) (enumerate 0 deps) ?none =
      Some (map (\<lambda>j. ?none ! j @ concat (map (\<lambda>(i, ds).
        replicate (length (filter (\<lambda>d. btree_get d (id_index actions) = Some j) ds)) i) (enumerate 0 deps)))
      [0..<length ?none])"
    by (rule build_dependents_spec)
  also have "\<dots> = Some (map (\<lambda>j. filter (\<lambda>i. j \<in> dep_graph actions deps i) [0..<length actions]) [0..<length actions])"
    using count ok(2)
    by (auto simp: enumerate_nth comp_def concat_replicate_filter [symmetric]
        intro!: arg_cong [where f = concat] map_cong simp del: replicate_0)
  finally show ?thesis .
qed


lemma dep_graph_card:
  assumes "deps_ok actions deps" "i < length actions"
  shows "card (dep_graph actions deps i) = length (deps ! i)"
proof -
  have ds: "distinct (deps ! i)" "set (deps ! i) \<subseteq> ac_id ` set actions" and ids: "distinct (map ac_id actions)"
    using assms by (auto simp: deps_ok_def)
  have "inj_on (\<lambda>j. ac_id (actions ! j)) (dep_graph actions deps i)"
    using ids by (auto simp: inj_on_def dep_graph_def distinct_conv_nth)
  moreover have "(\<lambda>j. ac_id (actions ! j)) ` dep_graph actions deps i = set (deps ! i)"
  proof -
    have "\<exists>j < length actions. ac_id (actions ! j) = d" if "d \<in> set (deps ! i)" for d
      using that ds(2) by (metis imageE in_set_conv_nth subsetD)
    then show ?thesis by (auto simp: dep_graph_def)
  qed
  ultimately show ?thesis using card_image distinct_card [OF ds(1)] by fastforce
qed

lemma those_total: "(\<And>x. x \<in> set xs \<Longrightarrow> f x \<noteq> None) \<Longrightarrow> those (map f xs) = Some (map (the \<circ> f) xs)"
  by (induction xs) (auto split: option.splits)

lemma those_Some: "(\<And>x. x \<in> set xs \<Longrightarrow> f x = Some (g x)) \<Longrightarrow> those (map f xs) = Some (map g xs)"
  by (induction xs) auto

lemma initial_inv:
  assumes "deps_ok actions deps" "\<And>i. i < length actions \<Longrightarrow> look i = Some (phase i)"
  obtains ready where "initial_ready look (map length deps) = Some ready"
    "kahn_inv (length actions) (dep_graph actions deps) phase (map length deps) ready []"
proof -
  let ?ready = "set_collect (map (\<lambda>(index, _). (phase index, index)) (filter (\<lambda>(_, degree). degree = 0) (enumerate 0 (map length deps))))"
  have len: "length deps = length actions" using assms by (simp add: deps_ok_def)
  have initial: "initial_ready look (map length deps) = Some ?ready"
  proof -
    have "those (map (\<lambda>(index, _). map_option (\<lambda>p. (p, index)) (look index)) (filter (\<lambda>(_, degree). degree = 0) (enumerate 0 (map length deps)))) =
        Some (map (\<lambda>(index, _). (phase index, index)) (filter (\<lambda>(_, degree). degree = 0) (enumerate 0 (map length deps))))"
      using assms(2) len by (intro those_Some) (auto simp: enumerate_nth)
    then show ?thesis by (simp add: initial_ready_def)
  qed
  note card = dep_graph_card [OF assms(1)]
  have fin: "finite (dep_graph actions deps i)" for i by (simp add: dep_graph_def)
  have ready: "set ?ready = {(phase i, i) | i. i < length actions \<and> deps ! i = []}"
    using len by (auto simp: set_collect_props enumerate_nth image_iff)
  have "deps ! i = [] \<longleftrightarrow> dep_graph actions deps i = {}" if "i < length actions" for i
    using card [OF that] fin [of i] by (metis card_0_eq length_0_conv)
  then have "kahn_inv (length actions) (dep_graph actions deps) phase (map length deps) ?ready []"
    using ready len card by (auto simp: kahn_inv_def set_collect_props)
  with initial show thesis by (rule that)
qed

lemma topological_order_spec:
  assumes ok: "deps_ok actions deps"
    and phases: "\<And>i d. i < length actions \<Longrightarrow> d \<in> dep_graph actions deps i \<Longrightarrow>
      action_phase (actions ! d) \<le> action_phase (actions ! i)"
  shows "\<exists>order indegree.
    kahn_inv (length actions) (dep_graph actions deps) (\<lambda>i. action_phase (actions ! i)) indegree [] order \<and>
    stable_topological_order actions deps =
      Some (if length order \<noteq> length actions
        then Inl (DependencyCycle (map (\<lambda>(i, _). ac_id (actions ! i))
          (filter (\<lambda>(_, degree). 0 < degree) (enumerate 0 indegree))))
        else Inr order)"
proof -
  let ?n = "length actions" and ?D = "dep_graph actions deps" and ?phase = "\<lambda>i. action_phase (actions ! i)"
  let ?dependents = "map (\<lambda>j. filter (\<lambda>i. j \<in> ?D i) [0..<?n]) [0..<?n]"
  let ?look = "\<lambda>i. map_option action_phase (nth_opt actions i)"
  have look: "\<And>i. i < ?n \<Longrightarrow> ?look i = Some (?phase i)" by (simp add: nth_opt_def)
  obtain ready where ready: "initial_ready ?look (map length deps) = Some ready" "kahn_inv ?n ?D ?phase (map length deps) ready []"
    by (rule initial_inv [OF ok look])
  have "graph_ok ?n ?D ?phase ?dependents"
    using phases by (auto simp: graph_ok_def dep_graph_def)
  from kahn_loop [OF this ready(2) look] obtain order indegree where
    loop: "topo_loop ?look ?dependents (map length deps) ready [] = Some (order, indegree)"
    and inv: "kahn_inv ?n ?D ?phase indegree [] order" by blast
  have degrees: "initial_indegree actions deps = Some (map length deps)" using ok by (simp add: initial_indegree_def deps_ok_def)
  let ?left = "filter (\<lambda>(_, degree). 0 < degree) (enumerate 0 indegree)"
  have "those (map (\<lambda>(i, _). map_option ac_id (nth_opt actions i)) ?left) = Some (map (\<lambda>(i, _). ac_id (actions ! i)) ?left)"
    using inv by (intro those_Some) (auto simp: nth_opt_def kahn_inv_def enumerate_nth)
  with build_dependents_graph [OF ok] loop ready(1) degrees show ?thesis
    by (intro exI [of _ order] exI [of _ indegree] conjI inv) (simp add: stable_topological_order_def Let_def)
qed


section \<open>Collecting the dependencies\<close>

lemma collect_dependencies_Inr:
  "collect_dependencies by_id a acc ds = Inr out \<Longrightarrow> distinct acc \<Longrightarrow>
     distinct out \<and> set out = set acc \<union> set ds \<and> (\<forall>d \<in> set ds. contains_key d by_id \<and> d \<noteq> ac_id a)"
  by (induction by_id a acc ds rule: collect_dependencies.induct) (auto split: if_splits)

lemma action_dependencies_Inr:
  assumes "action_dependencies by_id resolve a = Inr out"
  shows "distinct out \<and>
    set out = set (ac_depends_on a) \<union> (if ac_kind a \<noteq> IdentityResolve then set_option resolve else {}) \<and>
    (\<forall>d \<in> set (ac_depends_on a). contains_key d by_id \<and> d \<noteq> ac_id a) \<and>
    (ac_kind a \<noteq> IdentityResolve \<and> references_identity a \<longrightarrow> resolve \<noteq> None)"
proof -
  from assms obtain deps where "collect_dependencies by_id a [] (ac_depends_on a) = Inr deps"
    and "(if ac_kind a \<noteq> IdentityResolve then
         rbind (fail_if (references_identity a \<and> resolve = None) (MissingIdentityResolve (ac_id a))) (\<lambda>_.
         Inr (case resolve of Some resolve_id \<Rightarrow> set_insert resolve_id deps | None \<Rightarrow> deps))
       else Inr deps) = Inr out"
    by (auto simp: action_dependencies_def rbind_Inr_iff)
  with collect_dependencies_Inr [of by_id a "[]" "ac_depends_on a" deps] show ?thesis
    by (auto simp: rbind_Inr_iff fail_if_Inr_iff split: if_splits option.splits)
qed

lemma indexes_of_kind_set: "set (indexes_of_kind k actions) = {i. i < length actions \<and> ac_kind (actions ! i) = k}"
  by (auto simp: indexes_of_kind_def enumerate_nth image_iff)

lemma indexes_of_kind_distinct: "distinct (indexes_of_kind k actions)"
  by (simp add: indexes_of_kind_def enumerate_nth filter_map comp_def)

definition unique_kind :: "action list \<Rightarrow> action_kind \<Rightarrow> bool" where
  "unique_kind actions k \<longleftrightarrow>
     (\<forall>i < length actions. \<forall>j < length actions. ac_kind (actions ! i) = k \<longrightarrow> ac_kind (actions ! j) = k \<longrightarrow> i = j)"

lemma plan_at_most_once_Inr: "plan_at_most_once k msg actions = Inr u \<longleftrightarrow> unique_kind actions k"
proof -
  have "plan_at_most_once k msg actions = Inr u \<longleftrightarrow> card (set (indexes_of_kind k actions)) \<le> 1"
    by (simp add: plan_at_most_once_def fail_if_Inr_iff distinct_card indexes_of_kind_distinct not_less)
  also have "\<dots> \<longleftrightarrow> (\<forall>x \<in> set (indexes_of_kind k actions). \<forall>y \<in> set (indexes_of_kind k actions). x = y)"
    using card_le_Suc0_iff_eq [of "set (indexes_of_kind k actions)"] by simp
  finally show ?thesis by (auto simp: indexes_of_kind_set unique_kind_def)
qed


text \<open>
  The dependencies a plan uses: what the action declares, the identity resolution for every
  other action, and dropping privileges before the handoff.
\<close>

definition required_deps :: "action list \<Rightarrow> nat \<Rightarrow> string set" where
  "required_deps actions i =
     set (ac_depends_on (actions ! i)) \<union>
     (if ac_kind (actions ! i) \<noteq> IdentityResolve
      then {ac_id a | a. a \<in> set actions \<and> ac_kind a = IdentityResolve} else {}) \<union>
     (if ac_kind (actions ! i) = HandoffExec
      then {ac_id a | a. a \<in> set actions \<and> ac_kind a = ProcessDropPrivileges} else {})"

lemma order_drop_spec:
  assumes "length deps = length actions"
    and "unique_kind actions HandoffExec" "unique_kind actions ProcessDropPrivileges"
  obtains deps' where "order_drop_before_handoff actions deps = Some deps'" "length deps' = length actions"
    "\<And>i. i < length actions \<Longrightarrow> set (deps' ! i) = set (deps ! i) \<union>
     (if ac_kind (actions ! i) = HandoffExec
      then {ac_id a | a. a \<in> set actions \<and> ac_kind a = ProcessDropPrivileges} else {})"
    "\<And>i. i < length actions \<Longrightarrow> distinct (deps ! i) \<Longrightarrow> distinct (deps' ! i)"
proof -
  note handoffs = indexes_of_kind_set [of HandoffExec actions]
    and drops = indexes_of_kind_set [of ProcessDropPrivileges actions]
  show thesis
  proof (cases "indexes_of_kind HandoffExec actions = [] \<or> indexes_of_kind ProcessDropPrivileges actions = []")
    case True
    have "(if ac_kind (actions ! i) = HandoffExec then {ac_id a | a. a \<in> set actions \<and> ac_kind a = ProcessDropPrivileges} else {}) = {}"
      if "i < length actions" for i
    proof (cases "indexes_of_kind HandoffExec actions = []")
      case True
      with handoffs that show ?thesis by auto
    next
      case False
      with \<open>indexes_of_kind HandoffExec actions = [] \<or> _\<close> drops have "\<not> (j < length actions \<and> ac_kind (actions ! j) = ProcessDropPrivileges)" for j by auto
      then have "{ac_id a | a. a \<in> set actions \<and> ac_kind a = ProcessDropPrivileges} = {}" by (auto simp: in_set_conv_nth)
      then show ?thesis by presburger
    qed
    moreover have "order_drop_before_handoff actions deps = Some deps"
      using True by (auto simp: order_drop_before_handoff_def split: list.splits)
    ultimately show thesis by (intro that [of deps] assms(1)) simp_all
  next
    case False
    then obtain h hs d ds where ix: "indexes_of_kind HandoffExec actions = h # hs" "indexes_of_kind ProcessDropPrivileges actions = d # ds"
      by (auto simp: neq_Nil_conv)
    with handoffs drops have h: "h < length actions" "ac_kind (actions ! h) = HandoffExec"
      and d: "d < length actions" "ac_kind (actions ! d) = ProcessDropPrivileges" by auto
    let ?deps = "deps[h := sort_dedup (deps ! h @ [ac_id (actions ! d)])]"
    have "{ac_id a | a. a \<in> set actions \<and> ac_kind a = ProcessDropPrivileges} = {ac_id (actions ! d)}"
      using d assms(3) by (auto simp: in_set_conv_nth unique_kind_def)
    moreover have "ac_kind (actions ! i) = HandoffExec \<longleftrightarrow> i = h" if "i < length actions" for i
      using that assms(2) h by (auto simp: unique_kind_def)
    moreover have "order_drop_before_handoff actions deps = Some ?deps"
      using ix h d assms(1) by (simp add: order_drop_before_handoff_def nth_opt_def)
    ultimately show thesis using assms(1) h
      by (intro that [of ?deps]) (auto simp: nth_list_update sort_dedup_props(3))
  qed
qed

lemma resolve_id_set:
  assumes "plan_at_most_once IdentityResolve ResolveTwice actions = Inr u"
  shows "set_option (first_of_kind IdentityResolve actions)
    = {ac_id a | a. a \<in> set actions \<and> ac_kind a = IdentityResolve}"
proof -
  have same: "a = b" if "a \<in> set actions" "b \<in> set actions" "ac_kind a = IdentityResolve" "ac_kind b = IdentityResolve" for a b
    using assms that unfolding plan_at_most_once_Inr unique_kind_def by (metis in_set_conv_nth)
  show ?thesis
  proof (cases "filter (\<lambda>a. ac_kind a = IdentityResolve) actions")
    case Nil
    then show ?thesis by (auto simp: first_of_kind_def filter_empty_conv)
  next
    case (Cons a rest)
    then have "a \<in> set (filter (\<lambda>a. ac_kind a = IdentityResolve) actions)" by simp
    then have a: "a \<in> set actions" "ac_kind a = IdentityResolve" by auto
    with same have "{ac_id b | b. b \<in> set actions \<and> ac_kind b = IdentityResolve} = {ac_id a}" by blast
    then show ?thesis using Cons by (simp add: first_of_kind_def)
  qed
qed

lemma plan_dependencies_Inr:
  assumes plan: "plan_dependencies actions = Some (Inr deps)" and ids: "distinct (map ac_id actions)"
  shows "deps_ok actions deps" and "i < length actions \<Longrightarrow> set (deps ! i) = required_deps actions i"
    and "i < length actions \<Longrightarrow> ac_id (actions ! i) \<notin> set (ac_depends_on (actions ! i))"
    and "unique_kind actions HandoffExec" "unique_kind actions IdentityResolve"
      "unique_kind actions ProcessDropPrivileges"
proof -
  let ?resolve = "first_of_kind IdentityResolve actions"
  from plan obtain deps0 where
    once: "plan_at_most_once IdentityResolve ResolveTwice actions = Inr ()"
      "plan_at_most_once HandoffExec HandoffTwice actions = Inr ()"
      "plan_at_most_once ProcessDropPrivileges DropTwice actions = Inr ()"
    and deps0: "list_all2 (\<lambda>a ds. action_dependencies (id_index actions) ?resolve a = Inr ds) actions deps0"
    and deps: "order_drop_before_handoff actions deps0 = Some deps"
    by (auto simp: plan_dependencies_def collected_dependencies_def rbind_Inr_iff collect_results_map_Inr_iff split: sum.splits)
  note uniq = once [unfolded plan_at_most_once_Inr]
  show "unique_kind actions HandoffExec" "unique_kind actions IdentityResolve"
    "unique_kind actions ProcessDropPrivileges" by (rule uniq)+
  have len: "length deps0 = length actions" using deps0 by (simp add: list_all2_lengthD)
  have each: "distinct (deps0 ! i)"
    "set (deps0 ! i) = set (ac_depends_on (actions ! i)) \<union> (if ac_kind (actions ! i) \<noteq> IdentityResolve
      then {ac_id a | a. a \<in> set actions \<and> ac_kind a = IdentityResolve} else {})"
    "\<forall>d \<in> set (ac_depends_on (actions ! i)). d \<in> ac_id ` set actions \<and> d \<noteq> ac_id (actions ! i)"
    if "i < length actions" for i
    using action_dependencies_Inr [OF list_all2_nthD [OF deps0 that]] contains_id [OF ids]
    by (simp_all add: resolve_id_set [OF once(1)])
  obtain deps' where drop: "order_drop_before_handoff actions deps0 = Some deps'" "length deps' = length actions"
    "\<And>i. i < length actions \<Longrightarrow> set (deps' ! i) = set (deps0 ! i) \<union>
     (if ac_kind (actions ! i) = HandoffExec
      then {ac_id a | a. a \<in> set actions \<and> ac_kind a = ProcessDropPrivileges} else {})"
    "\<And>i. i < length actions \<Longrightarrow> distinct (deps0 ! i) \<Longrightarrow> distinct (deps' ! i)"
    by (rule order_drop_spec [OF len uniq(2,3)]) blast
  with deps have [simp]: "deps' = deps" by simp
  show setd: "set (deps ! i) = required_deps actions i" if "i < length actions" for i
    using drop(3) [OF that] each(2) [OF that] by (simp add: required_deps_def)
  show "i < length actions \<Longrightarrow> ac_id (actions ! i) \<notin> set (ac_depends_on (actions ! i))" using each(3) by blast
  have "set (deps ! i) \<subseteq> ac_id ` set actions" if "i < length actions" for i
    using setd [OF that] each(3) [OF that] by (auto simp: required_deps_def split: if_splits)
  moreover have "length deps = length actions" using drop(2) by simp
  moreover have "distinct (deps ! i)" if "i < length actions" for i
    using drop(4) [OF that each(1) [OF that]] by simp
  ultimately show "deps_ok actions deps"
    using ids by (auto simp: deps_ok_def all_set_conv_all_nth)
qed


lemma plan_dependencies_total: "plan_dependencies actions \<noteq> None"
proof (cases "collected_dependencies actions")
  case (Inr deps)
  then have "length deps = length actions" "unique_kind actions HandoffExec" "unique_kind actions ProcessDropPrivileges"
    by (auto simp: collected_dependencies_def rbind_Inr_iff collect_results_map_Inr_iff plan_at_most_once_Inr list_all2_lengthD)
  from order_drop_spec [OF this] obtain deps' where "order_drop_before_handoff actions deps = Some deps'" by metis
  with Inr show ?thesis by (simp add: plan_dependencies_def)
qed (simp add: plan_dependencies_def)

section \<open>Phases and effects\<close>

lemma check_phase_dependencies_Cons:
  assumes "btree_get d by_id = Some j" "j < length phases" "index < length phases"
  shows "check_phase_dependencies by_id phases index name (d # ds) =
    (if phases ! index < phases ! j then Some (Inl (PhaseViolation name d)) else check_phase_dependencies by_id phases index name ds)"
  using assms by (simp add: nth_opt_def)

lemma check_phase_dependencies_spec:
  assumes "\<And>d. d \<in> set ds \<Longrightarrow> \<exists>j < length phases. btree_get d by_id = Some j" "index < length phases"
  shows "(\<exists>d. check_phase_dependencies by_id phases index name ds = Some (Inl (PhaseViolation name d))) \<or>
    check_phase_dependencies by_id phases index name ds = Some (Inr ()) \<and>
      (\<forall>d \<in> set ds. phases ! the (btree_get d by_id) \<le> phases ! index)"
  using assms(1)
proof (induction ds)
  case (Cons d ds)
  then obtain j where j: "btree_get d by_id = Some j" "j < length phases" by auto
  have "\<And>e. e \<in> set ds \<Longrightarrow> \<exists>j < length phases. btree_get e by_id = Some j" using Cons.prems by simp
  from Cons.IH [OF this] show ?case
    unfolding check_phase_dependencies_Cons [OF j assms(2)] using j(1) by auto
qed simp

lemma unit_result_ok: "r \<noteq> None \<Longrightarrow> \<not> (\<exists>e. r = Some (Inl e)) \<Longrightarrow> r = Some (Inr ())"
  for r :: "('e, unit) result option"
  by (cases r; cases "the r") auto

lemma check_phases_spec:
  assumes "\<forall>(i, a) \<in> set entries. i < length deps \<and> i < length phases \<and> (\<forall>d \<in> set (deps ! i). \<exists>j < length phases. btree_get d by_id = Some j)"
  shows "check_phases by_id phases deps entries \<noteq> None \<and>
    (check_phases by_id phases deps entries = Some (Inr ()) \<longrightarrow>
      (\<forall>(i, a) \<in> set entries. \<forall>d \<in> set (deps ! i). phases ! the (btree_get d by_id) \<le> phases ! i)) \<and>
    (\<forall>e. check_phases by_id phases deps entries = Some (Inl e) \<longrightarrow> (\<exists>n d. e = PhaseViolation n d))"
  using assms
proof (induction entries)
  case (Cons x entries)
  obtain i a where x: "x = (i, a)" by (cases x)
  let ?first = "check_phase_dependencies by_id phases i (ac_id a) (deps ! i)"
  have i: "i < length deps" "i < length phases" "\<And>d. d \<in> set (deps ! i) \<Longrightarrow> \<exists>j < length phases. btree_get d by_id = Some j"
    using Cons.prems x by auto
  from check_phase_dependencies_spec [OF i(3,2), where name = "ac_id a"]
  consider d where "?first = Some (Inl (PhaseViolation (ac_id a) d))"
    | "?first = Some (Inr ())" "\<forall>d \<in> set (deps ! i). phases ! the (btree_get d by_id) \<le> phases ! i" by blast
  then show ?case
  proof cases
    case 1
    with x i(1) show ?thesis by (simp add: nth_opt_def)
  next
    case 2
    have "\<forall>(i, a) \<in> set entries. i < length deps \<and> i < length phases \<and> (\<forall>d \<in> set (deps ! i). \<exists>j < length phases. btree_get d by_id = Some j)"
      using Cons.prems by simp
    from Cons.IH [OF this] 2 x i(1) show ?thesis by (simp add: nth_opt_def)
  qed
qed simp

lemma validated_effect:
  assumes "validate_action c a = Inr u"
  shows "effect_from_action a \<noteq> None"
proof -
  from assms have "validate_action_kind_fields a = Inr ()"
    by (auto simp: validate_action_Inr validate_action_fields_def rbind_Inr_iff)
  then show ?thesis
    by (cases "ac_kind a")
      (auto simp: validate_action_kind_fields_def effect_from_action_def require_def rbind_Inr_iff
        fail_if_Inr_iff validate_ssh_fields_def ssh_host_key_dir_def ssh_authorized_keys_dir_def
        ssh_runtime_dir_def opt_or_def fail_if_def split: if_splits option.splits)
qed

section \<open>The plan\<close>

text \<open>
  Everything the construction guarantees once the dependencies are collected: no panic, and
  either a phase violation, or a cycle among the remaining actions, or the plan of an order
  that satisfies the invariant of the scheduler.
\<close>

lemma plan_from_config_cases:
  obtains (invalid) e where "plan_from_config c = Some (Inl e)" "config_validate c = Inr () \<Longrightarrow> plan_dependencies (bc_actions c) = Some (Inl e)"
  | (phase) n d where "plan_from_config c = Some (Inl (PhaseViolation n d))"
  | (cycle) deps order indegree where "config_validate c = Inr ()" "plan_dependencies (bc_actions c) = Some (Inr deps)"
      "kahn_inv (length (bc_actions c)) (dep_graph (bc_actions c) deps) (\<lambda>i. action_phase (bc_actions c ! i)) indegree [] order"
      "length order \<noteq> length (bc_actions c)"
      "plan_from_config c = Some (Inl (DependencyCycle (map (\<lambda>(i, _). ac_id (bc_actions c ! i))
          (filter (\<lambda>(_, degree). 0 < degree) (enumerate 0 indegree)))))"
  | (plan) deps order indegree where "config_validate c = Inr ()" "plan_dependencies (bc_actions c) = Some (Inr deps)"
      "kahn_inv (length (bc_actions c)) (dep_graph (bc_actions c) deps) (\<lambda>i. action_phase (bc_actions c ! i)) indegree [] order"
      "length order = length (bc_actions c)"
      "plan_from_config c = Some (Inr (map (the \<circ> plan_action (bc_actions c) deps) order))"
      "\<And>i. i < length (bc_actions c) \<Longrightarrow> plan_action (bc_actions c) deps i \<noteq> None"
proof -
  let ?as = "bc_actions c"
  consider e where "config_validate c = Inl e" | e where "config_validate c = Inr ()" "plan_dependencies ?as = Some (Inl e)"
    | deps where "config_validate c = Inr ()" "plan_dependencies ?as = Some (Inr deps)"
    using plan_dependencies_total [of ?as] by (metis not_None_eq old.unit.exhaust sum.exhaust)
  then show ?thesis
proof cases
  case (1 e)
  then show ?thesis by (intro invalid [of e]) (simp_all add: plan_from_config_def)
next
  case (2 e)
  then show ?thesis by (intro invalid [of e]) (simp_all add: plan_from_config_def)
next
  case (3 deps)
  note valid = 3
  note ids = config_validate_Inr(2) [OF valid(1)]
  note ok = plan_dependencies_Inr(1) [OF valid(2) ids]
  let ?check = "check_phases (id_index ?as) (map action_phase ?as) deps (enumerate 0 ?as)"
  have known: "\<exists>j < length ?as. btree_get d (id_index ?as) = Some j" if "i < length ?as" "d \<in> set (deps ! i)" for i d
  proof -
    from that ok have "d \<in> ac_id ` set ?as" by (auto simp: deps_ok_def)
    then show ?thesis using id_index_get [OF ids] by (auto simp: in_set_conv_nth)
  qed
  have "\<forall>(i, a) \<in> set (enumerate 0 ?as). i < length deps \<and> i < length (map action_phase ?as) \<and>
      (\<forall>d \<in> set (deps ! i). \<exists>j < length (map action_phase ?as). btree_get d (id_index ?as) = Some j)"
    using ok known by (auto simp: enumerate_nth deps_ok_def)
  note spec = check_phases_spec [OF this]
  note check = spec [THEN conjunct1] spec [THEN conjunct2, THEN conjunct2, rule_format]
    and bounded = spec [THEN conjunct2, THEN conjunct1, THEN mp]
  show ?thesis
  proof (cases "\<exists>e. ?check = Some (Inl e)")
    case True
    with check obtain n d where "?check = Some (Inl (PhaseViolation n d))" by blast
    with valid show ?thesis by (intro phase [of n d]) (simp add: plan_from_config_def)
  next
    case False
    with check(1) have checked: "?check = Some (Inr ())" by (rule unit_result_ok)
    have phases: "action_phase (?as ! d) \<le> action_phase (?as ! i)"
      if "i < length ?as" "d \<in> dep_graph ?as deps i" for i d
    proof -
      have "(i, ?as ! i) \<in> set (enumerate 0 ?as)" using that(1) by (auto simp: enumerate_nth)
      moreover have d: "d < length ?as" "ac_id (?as ! d) \<in> set (deps ! i)" using that(2) by (auto simp: dep_graph_def)
      moreover have "btree_get (ac_id (?as ! d)) (id_index ?as) = Some d" using d id_index_get [OF ids] by simp
      ultimately have "map action_phase ?as ! d \<le> map action_phase ?as ! i"
        using bounded [OF checked] by (metis (no_types, lifting) case_prodD option.sel)
      then show ?thesis using d(1) that(1) by simp
    qed
    from topological_order_spec [OF ok phases] obtain order indegree where
      inv: "kahn_inv (length ?as) (dep_graph ?as deps) (\<lambda>i. action_phase (?as ! i)) indegree [] order"
      and out: "stable_topological_order ?as deps =
        Some (if length order \<noteq> length ?as
          then Inl (DependencyCycle (map (\<lambda>(i, _). ac_id (?as ! i))
            (filter (\<lambda>(_, degree). 0 < degree) (enumerate 0 indegree)))) else Inr order)"
      by blast
    have effects: "plan_action ?as deps i \<noteq> None" if "i < length ?as" for i
      using validated_effect [OF config_validate_Inr(3) [OF valid(1)], of "?as ! i"] that ok
      by (auto simp: plan_action_def nth_opt_def deps_ok_def)
    show ?thesis
    proof (cases "length order = length ?as")
      case True
      have "those (map (plan_action ?as deps) order) = Some (map (the \<circ> plan_action ?as deps) order)"
        using effects inv by (intro those_total) (auto simp: kahn_inv_def)
      with True checked out inv valid effects show ?thesis
        by (intro plan [of deps indegree order]) (simp_all add: plan_from_config_def)
    next
      case False
      with checked out inv valid show ?thesis
        by (intro cycle [of deps indegree order]) (simp_all add: plan_from_config_def)
    qed
  qed
qed
qed


lemma plan_action_Some:
  "plan_action actions deps i = Some p \<Longrightarrow>
     pa_id p = ac_id (actions ! i) \<and> pa_kind p = ac_kind (actions ! i) \<and>
     pa_phase p = action_phase (actions ! i) \<and> pa_depends_on p = deps ! i \<and>
     pa_run_as p = ac_run_as (actions ! i) \<and> pa_origin p = ac_origin (actions ! i) \<and>
     effect_from_action (actions ! i) = Some (pa_effect p)"
  by (auto simp: plan_action_def nth_opt_def bind_eq_Some_conv split: if_splits)

text \<open>A plan as the list of action indices it comes from.\<close>

lemma plan_of_order:
  assumes "plan_from_config c = Some (Inr plan)"
  obtains order where "length plan = length order" "distinct order" "set order = {..<length (bc_actions c)}"
    "\<And>k. k < length order \<Longrightarrow> pa_id (plan ! k) = ac_id (bc_actions c ! (order ! k)) \<and>
       pa_kind (plan ! k) = ac_kind (bc_actions c ! (order ! k)) \<and>
       pa_phase (plan ! k) = action_phase (bc_actions c ! (order ! k)) \<and>
       pa_run_as (plan ! k) = ac_run_as (bc_actions c ! (order ! k)) \<and>
       pa_origin (plan ! k) = ac_origin (bc_actions c ! (order ! k)) \<and>
       set (pa_depends_on (plan ! k)) = required_deps (bc_actions c) (order ! k)"
    "sorted (map (\<lambda>i. action_phase (bc_actions c ! i)) order)"
    "\<And>k. k < length order \<Longrightarrow> required_deps (bc_actions c) (order ! k)
       \<subseteq> (\<lambda>i. ac_id (bc_actions c ! i)) ` set (take k order)"
    "distinct (map ac_id (bc_actions c))" "config_validate c = Inr ()"
    "unique_kind (bc_actions c) HandoffExec" "unique_kind (bc_actions c) IdentityResolve"
    "unique_kind (bc_actions c) ProcessDropPrivileges"
proof (cases rule: plan_from_config_cases [of c])
  case (plan deps order indegree)
  let ?as = "bc_actions c"
  note ids = config_validate_Inr(2) [OF plan(1)]
  note deps = plan_dependencies_Inr [OF plan(2) ids]
  from plan(5) assms have p: "plan = map (the \<circ> plan_action ?as deps) order" by simp
  from plan(3) have order: "distinct order" "set order \<subseteq> {..<length ?as}"
    "sorted (map (\<lambda>i. action_phase (?as ! i)) order)"
    "\<And>k. k < length order \<Longrightarrow> dep_graph ?as deps (order ! k) \<subseteq> set (take k order)"
    by (auto simp: kahn_inv_def)
  have set: "set order = {..<length ?as}"
    using order(1,2) plan(4) by (intro card_subset_eq) (simp_all add: distinct_card)
  have before: "required_deps ?as (order ! k) \<subseteq> (\<lambda>i. ac_id (?as ! i)) ` set (take k order)"
    if "k < length order" for k
  proof
    fix d assume d: "d \<in> required_deps ?as (order ! k)"
    have i: "order ! k < length ?as" using nth_mem [OF that] set by simp
    with d deps(2) have dk: "d \<in> set (deps ! (order ! k))" by simp
    from i deps(1) have "deps ! (order ! k) \<in> set deps" by (simp add: deps_ok_def)
    with dk deps(1) have "d \<in> ac_id ` set ?as" unfolding deps_ok_def by blast
    then obtain j where "j < length ?as" "d = ac_id (?as ! j)" by (auto simp: in_set_conv_nth)
    with dk have "j \<in> dep_graph ?as deps (order ! k)" by (simp add: dep_graph_def)
    with order(4) [OF that] \<open>d = ac_id (?as ! j)\<close> show "d \<in> (\<lambda>i. ac_id (?as ! i)) ` set (take k order)" by blast
  qed
  show thesis
  proof (rule that [of order])
    show "length plan = length order" by (simp add: p)
    fix k assume k: "k < length order"
    have i: "order ! k < length ?as" using nth_mem [OF k] set by simp
    from plan(6) [OF i] obtain q where "plan_action ?as deps (order ! k) = Some q" by blast
    with k p plan_action_Some [OF this] deps(2) [OF i] show "pa_id (plan ! k) = ac_id (?as ! (order ! k)) \<and>
       pa_kind (plan ! k) = ac_kind (?as ! (order ! k)) \<and>
       pa_phase (plan ! k) = action_phase (?as ! (order ! k)) \<and>
       pa_run_as (plan ! k) = ac_run_as (?as ! (order ! k)) \<and>
       pa_origin (plan ! k) = ac_origin (?as ! (order ! k)) \<and>
       set (pa_depends_on (plan ! k)) = required_deps ?as (order ! k)" by simp
  qed (use order set before ids plan(1) deps(4-6) in blast)+
qed (use assms in simp_all)


lemma required_deps_kind:
  assumes "j < length actions"
  shows "ac_kind (actions ! j) = IdentityResolve \<Longrightarrow> ac_kind (actions ! i) \<noteq> IdentityResolve \<Longrightarrow>
      ac_id (actions ! j) \<in> required_deps actions i"
    and "ac_kind (actions ! j) = ProcessDropPrivileges \<Longrightarrow> ac_kind (actions ! i) = HandoffExec \<Longrightarrow>
      ac_id (actions ! j) \<in> required_deps actions i"
  using nth_mem [OF assms] by (auto simp: required_deps_def)

lemma ids_by_index: "(\<lambda>i. ac_id (actions ! i)) ` {..<length actions} = ac_id ` set actions"
  by (auto simp: set_conv_nth)

text \<open>When the ready set is empty, what is not ordered still waits for something not ordered.\<close>

lemma kahn_stuck:
  assumes "kahn_inv n D phase indegree [] order" and "\<And>i. finite (D i)"
  shows "i < n \<Longrightarrow> i \<notin> set order \<Longrightarrow> 0 < indegree ! i"
    and "i < n \<Longrightarrow> 0 < indegree ! i \<Longrightarrow> \<exists>j \<in> D i. j \<notin> set order"
proof -
  from assms(1) have deg: "\<And>i. i < n \<Longrightarrow> indegree ! i = card (D i - set order)"
    and mem: "\<And>i. i < n \<Longrightarrow> D i \<subseteq> set order \<Longrightarrow> i \<in> set order"
    by (auto simp: kahn_inv_def)
  show "i < n \<Longrightarrow> 0 < indegree ! i \<Longrightarrow> \<exists>j \<in> D i. j \<notin> set order"
    using deg [of i] by (metis Diff_eq_empty_iff card.empty less_numeral_extra(3) subsetI)
  show "i < n \<Longrightarrow> i \<notin> set order \<Longrightarrow> 0 < indegree ! i"
    using deg [of i] mem [of i] assms(2) [of i] by (auto simp: card_gt_0_iff)
qed

lemma filter_enumerate_set:
  "set (map (\<lambda>(i, _). g i) (filter (\<lambda>(_, d). P d) (enumerate 0 xs))) = {g i | i. i < length xs \<and> P (xs ! i)}"
  by (force simp: enumerate_nth)

lemma collect_dependencies_cycle:
  "collect_dependencies by_id a acc ds = Inl (DependencyCycle names) \<Longrightarrow> names = [ac_id a] \<and> ac_id a \<in> set ds"
  by (induction by_id a acc ds rule: collect_dependencies.induct) (auto split: if_splits)

lemma plan_dependencies_cycle:
  assumes "plan_dependencies actions = Some (Inl (DependencyCycle names))"
  shows "\<exists>i < length actions. names = [ac_id (actions ! i)] \<and> ac_id (actions ! i) \<in> set (ac_depends_on (actions ! i))"
proof -
  from assms obtain resolve a where "a \<in> set actions"
    and "action_dependencies (id_index actions) resolve a = Inl (DependencyCycle names)"
    by (auto simp: plan_dependencies_def collected_dependencies_def plan_at_most_once_def rbind_Inl_iff fail_if_Inl_iff
        split: sum.splits dest!: collect_results_Inl)
  moreover from this(2) have "collect_dependencies (id_index actions) a [] (ac_depends_on a) = Inl (DependencyCycle names)"
    by (auto simp: action_dependencies_def rbind_Inl_iff fail_if_Inl_iff split: if_splits)
  ultimately show ?thesis
    using collect_dependencies_cycle [of "id_index actions" a "[]" "ac_depends_on a" names]
    by (metis in_set_conv_nth)
qed

section \<open>Properties\<close>

text \<open>
  C13. Building a plan never panics: for any configuration at all, no \<open>expect\<close> on a missing
  field, no index out of range, no failed map lookup and no counter underflow is reached, and
  the scheduling loop ends.
\<close>

theorem plan_never_panics: "plan_from_config c \<noteq> None"
  by (cases rule: plan_from_config_cases [of c]) auto

lemma plan_sound:
  assumes "plan_from_config c = Some (Inr plan)"
  shows "distinct (map pa_id plan) \<and> set (map pa_id plan) = set (map ac_id (bc_actions c)) \<and>
    sorted (map pa_phase plan) \<and>
    (\<forall>k < length plan. \<exists>i < length (bc_actions c).
       pa_id (plan ! k) = ac_id (bc_actions c ! i) \<and>
       set (pa_depends_on (plan ! k)) = required_deps (bc_actions c) i \<and>
       set (pa_depends_on (plan ! k)) \<subseteq> set (map pa_id (take k plan)))"
proof -
  from assms obtain order where o: "length plan = length order" "distinct order"
    "set order = {..<length (bc_actions c)}"
    "\<And>k. k < length order \<Longrightarrow> pa_id (plan ! k) = ac_id (bc_actions c ! (order ! k)) \<and>
       pa_phase (plan ! k) = action_phase (bc_actions c ! (order ! k)) \<and>
       set (pa_depends_on (plan ! k)) = required_deps (bc_actions c) (order ! k)"
    "sorted (map (\<lambda>i. action_phase (bc_actions c ! i)) order)"
    "\<And>k. k < length order \<Longrightarrow> required_deps (bc_actions c) (order ! k)
       \<subseteq> (\<lambda>i. ac_id (bc_actions c ! i)) ` set (take k order)"
    "distinct (map ac_id (bc_actions c))"
    by (rule plan_of_order) blast
  have ids: "map pa_id (take k plan) = map (\<lambda>i. ac_id (bc_actions c ! i)) (take k order)" for k
    using o(1,4) by (intro nth_equalityI) auto
  have phases: "map pa_phase plan = map (\<lambda>i. action_phase (bc_actions c ! i)) order"
    using o(1,4) by (intro nth_equalityI) auto
  have all: "map pa_id plan = map (\<lambda>i. ac_id (bc_actions c ! i)) order" using ids [of "length plan"] o(1) by simp
  let ?as = "bc_actions c"
  have "inj_on (\<lambda>i. ac_id (bc_actions c ! i)) {..<length (bc_actions c)}"
    using o(7) by (auto simp: inj_on_def distinct_conv_nth)
  then have "distinct (map pa_id plan)" using o(2,3) all by (simp add: distinct_map)
  moreover have "set (map pa_id plan) = set (map ac_id (bc_actions c))"
    using o(3) all ids_by_index [of ?as] by (simp add: image_image)
  moreover have "\<exists>i < length (bc_actions c). pa_id (plan ! k) = ac_id (bc_actions c ! i) \<and>
       set (pa_depends_on (plan ! k)) = required_deps (bc_actions c) i \<and>
       set (pa_depends_on (plan ! k)) \<subseteq> set (map pa_id (take k plan))" if "k < length plan" for k
    using that o ids [of k] by (intro exI [of _ "order ! k"]) (auto simp: lessThan_iff [symmetric] simp del: lessThan_iff)
  ultimately show ?thesis using o(5) phases by simp
qed

text \<open>
  C11. A plan is a correct schedule. It has every action of the configuration exactly once; the
  phases never go back (root, current, target, handoff); and every action comes after all it
  depends on: what it declares, the identity resolution, and dropping privileges for the
  handoff.
\<close>

theorem plan_order_sound:
  assumes "plan_from_config c = Some (Inr plan)"
  shows "distinct (map pa_id plan) \<and> set (map pa_id plan) = set (map ac_id (bc_actions c)) \<and>
    sorted (map pa_phase plan) \<and>
    (\<forall>k < length plan. \<exists>i < length (bc_actions c).
       pa_id (plan ! k) = ac_id (bc_actions c ! i) \<and>
       set (pa_depends_on (plan ! k)) = required_deps (bc_actions c) i \<and>
       set (pa_depends_on (plan ! k)) \<subseteq> set (map pa_id (take k plan)))"
  using assms by (rule plan_sound)

lemma sample_plan:
  obtains plan where "plan_from_config sample_config = Some (Inr plan)"
    "map pa_id plan = [''resolve'', ''run'', ''cache'', ''handoff'']"
proof -
  have acts: "bc_actions sample_config = sample_actions"
    by (simp add: sample_config_def bootstrap_config_new_def)
  obtain deps where deps: "plan_dependencies sample_actions = Some (Inr deps)"
    "check_phases (id_index sample_actions) (map action_phase sample_actions) deps (enumerate 0 sample_actions) = Some (Inr ())"
    "stable_topological_order sample_actions deps = Some (Inr [1, 2, 0, 3])"
    "map_option (map pa_id) (those (map (plan_action sample_actions deps) [1, 2, 0, 3]))
      = Some [''resolve'', ''run'', ''cache'', ''handoff'']"
  proof
    show "plan_dependencies sample_actions = Some (Inr [[''resolve''], [], [''resolve''], [''cache'', ''resolve'']])"
      by code_simp
  qed code_simp+
  from deps(4) obtain plan where "those (map (plan_action sample_actions deps) [1, 2, 0, 3]) = Some plan"
    "map pa_id plan = [''resolve'', ''run'', ''cache'', ''handoff'']"
    unfolding map_option_eq_Some by (elim exE conjE)
  with deps(1-3) show thesis
    by (intro that [of plan]) (simp_all add: plan_from_config_def acts sample_config_valid)
qed

theorem plan_order_sound_witness:
  "\<exists>plan. plan_from_config sample_config = Some (Inr plan) \<and>
     map pa_id plan = [''resolve'', ''run'', ''cache'', ''handoff''] \<and> sorted (map pa_phase plan)"
proof -
  obtain plan where plan: "plan_from_config sample_config = Some (Inr plan)"
    "map pa_id plan = [''resolve'', ''run'', ''cache'', ''handoff'']" by (rule sample_plan)
  from plan_order_sound [OF plan(1)] plan show ?thesis by (intro exI [of _ plan] conjI) simp_all
qed

lemma planned_from_action:
  assumes "plan_from_config c = Some (Inr plan)" "planned \<in> set plan"
  shows "\<exists>a \<in> set (bc_actions c). pa_origin planned = ac_origin a \<and> pa_run_as planned = ac_run_as a \<and>
    pa_phase planned = action_phase a"
proof -
  from assms(1) obtain order where o: "length plan = length order" "set order = {..<length (bc_actions c)}"
    "\<And>k. k < length order \<Longrightarrow> pa_phase (plan ! k) = action_phase (bc_actions c ! (order ! k)) \<and>
       pa_run_as (plan ! k) = ac_run_as (bc_actions c ! (order ! k)) \<and>
       pa_origin (plan ! k) = ac_origin (bc_actions c ! (order ! k))"
    by (rule plan_of_order) blast
  from assms(2) obtain k where k: "k < length order" "planned = plan ! k" by (metis in_set_conv_nth o(1))
  then have "order ! k < length (bc_actions c)" using o(2) nth_mem by blast
  then show ?thesis using o(3) [OF k(1)] k(2) by (intro bexI [of _ "bc_actions c ! (order ! k)"]) simp_all
qed

lemma plan_fixed_points:
  assumes "plan_from_config c = Some (Inr plan)" and "k < length plan"
  shows "(pa_kind (plan ! k) = IdentityResolve \<longrightarrow> k = 0) \<and>
    (pa_kind (plan ! k) = HandoffExec \<longrightarrow> k = length plan - 1) \<and>
    (pa_kind (plan ! k) = ProcessDropPrivileges \<longrightarrow> (\<forall>m. k < m \<and> m < length plan \<longrightarrow> pa_kind (plan ! m) = HandoffExec))"
proof -
  let ?as = "bc_actions c"
  from assms(1) obtain order where o: "length plan = length order" "distinct order" "set order = {..<length ?as}"
    "\<And>k. k < length order \<Longrightarrow> pa_kind (plan ! k) = ac_kind (?as ! (order ! k))"
    "sorted (map (\<lambda>i. action_phase (?as ! i)) order)"
    "\<And>k. k < length order \<Longrightarrow> required_deps ?as (order ! k) \<subseteq> (\<lambda>i. ac_id (?as ! i)) ` set (take k order)"
    "distinct (map ac_id ?as)"
    "unique_kind ?as HandoffExec" "unique_kind ?as IdentityResolve" "unique_kind ?as ProcessDropPrivileges"
    by (rule plan_of_order) blast
  have idx: "order ! m < length ?as" if "m < length order" for m using that o(3) nth_mem by blast
  have same: "m = m'" if "m < length order" "m' < length order" "pa_kind (plan ! m) = kind"
    "pa_kind (plan ! m') = kind" "unique_kind ?as kind" for m m' kind
  proof -
    have "order ! m = order ! m'"
      using that(5) idx [OF that(1)] idx [OF that(2)] that(3,4) o(4) [OF that(1)] o(4) [OF that(2)]
      unfolding unique_kind_def by metis
    then show ?thesis using o(2) that(1,2) by (simp add: nth_eq_iff_index_eq)
  qed
  have earlier: "m < m'" if m: "m < length order" "m' < length order"
    and dep: "ac_id (?as ! (order ! m)) \<in> required_deps ?as (order ! m')" for m m'
  proof -
    from o(6) [OF m(2)] dep obtain l where l: "l < m'" "ac_id (?as ! (order ! l)) = ac_id (?as ! (order ! m))"
      using m(2) by (fastforce simp: in_set_conv_nth)
    then have "order ! l = order ! m" using o(7) idx [OF m(1)] idx [of l] m(2)
      by (simp add: distinct_conv_nth) metis
    then show ?thesis using o(2) m l(1) by (simp add: nth_eq_iff_index_eq)
  qed
  have late: "pa_kind (plan ! m) \<in> {HandoffExec, ProcessDropPrivileges}"
    if "k < m" "m < length plan" "pa_kind (plan ! k) \<in> {HandoffExec, ProcessDropPrivileges}" for m
  proof -
    have "action_phase (?as ! (order ! k)) \<le> action_phase (?as ! (order ! m))"
      using o(5) that(1,2) o(1) by (simp add: sorted_iff_nth_mono)
    moreover have "action_phase (?as ! (order ! k)) = PhaseHandoff"
      using that o(1,4) by (simp add: action_phase_def kind_phase_handoff)
    ultimately have "action_phase (?as ! (order ! m)) = PhaseHandoff" by (simp add: antisym)
    then show ?thesis using that o(1,4) by (simp add: action_phase_def kind_phase_handoff)
  qed
  have k: "k < length order" using assms(2) o(1) by simp
  have 0: "0 < length order" using k by linarith
  have "k = 0" if "pa_kind (plan ! k) = IdentityResolve"
  proof (cases "pa_kind (plan ! 0) = IdentityResolve")
    case True
    show ?thesis by (rule same [OF k 0 that True o(9)])
  next
    case False
    with that k 0 have "ac_id (?as ! (order ! k)) \<in> required_deps ?as (order ! 0)"
      using required_deps_kind(1) [OF idx [OF k]] o(4) by simp
    from earlier [OF k 0 this] show ?thesis by simp
  qed
  moreover have "k = length plan - 1" if handoff: "pa_kind (plan ! k) = HandoffExec"
  proof (rule ccontr)
    assume "k \<noteq> length plan - 1"
    then have m: "k < length plan - 1" "length plan - 1 < length order" using k o(1) by auto
    with late [of "length plan - 1"] handoff o(1)
    consider "pa_kind (plan ! (length plan - 1)) = HandoffExec"
      | "pa_kind (plan ! (length plan - 1)) = ProcessDropPrivileges" by auto
    then show False
    proof cases
      case 1
      from same [OF k m(2) handoff 1 o(8)] m(1) show False by simp
    next
      case 2
      then have "ac_id (?as ! (order ! (length plan - 1))) \<in> required_deps ?as (order ! k)"
        using required_deps_kind(2) [OF idx [OF m(2)]] o(4) m(2) k handoff by simp
      from earlier [OF m(2) k this] m(1) show False by simp
    qed
  qed
  moreover have "pa_kind (plan ! m) = HandoffExec"
    if "pa_kind (plan ! k) = ProcessDropPrivileges" "k < m" "m < length plan" for m
    using late [OF that(2,3)] that same [OF k _ that(1) _ o(10), of m] o(1) by auto
  ultimately show ?thesis by blast
qed

text \<open>
  C12. The fixed points of a plan: identity resolution is its first action, the handoff its
  last, and after privileges are dropped nothing but the handoff runs.
\<close>

theorem plan_bracketed:
  assumes "plan_from_config c = Some (Inr plan)" and "k < length plan"
  shows "(pa_kind (plan ! k) = IdentityResolve \<longrightarrow> k = 0) \<and>
    (pa_kind (plan ! k) = HandoffExec \<longrightarrow> k = length plan - 1) \<and>
    (pa_kind (plan ! k) = ProcessDropPrivileges \<longrightarrow> (\<forall>m. k < m \<and> m < length plan \<longrightarrow> pa_kind (plan ! m) = HandoffExec))"
  using assms by (rule plan_fixed_points)

theorem plan_bracketed_witness:
  "\<exists>plan. plan_from_config sample_config = Some (Inr plan) \<and> length plan = 4 \<and>
     (pa_kind (plan ! 3) = HandoffExec \<longrightarrow> 3 = length plan - 1)"
proof -
  obtain plan where plan: "plan_from_config sample_config = Some (Inr plan)"
    "map pa_id plan = [''resolve'', ''run'', ''cache'', ''handoff'']" by (rule sample_plan)
  have "length (map pa_id plan) = 4" unfolding plan(2) by simp
  then have "length plan = 4" by simp
  with plan_bracketed [OF plan(1), of 3] plan(1) show ?thesis by auto
qed

text \<open>
  A reported dependency cycle is real: the actions it names are actions of the
  configuration, there is at least one, and each of them depends on one of them.
\<close>

theorem plan_cycle_genuine:
  assumes "plan_from_config c = Some (Inl (DependencyCycle names))" and "config_validate c = Inr ()"
  shows "names \<noteq> [] \<and> (\<forall>name \<in> set names. \<exists>i < length (bc_actions c).
    ac_id (bc_actions c ! i) = name \<and> required_deps (bc_actions c) i \<inter> set names \<noteq> {})"
proof (cases rule: plan_from_config_cases [of c])
  case (invalid e)
  with assms have "plan_dependencies (bc_actions c) = Some (Inl (DependencyCycle names))" by simp
  from plan_dependencies_cycle [OF this] obtain i where
    "i < length (bc_actions c)" "names = [ac_id (bc_actions c ! i)]"
    "ac_id (bc_actions c ! i) \<in> set (ac_depends_on (bc_actions c ! i))" by blast
  then show ?thesis by (auto simp: required_deps_def)
next
  case (cycle deps order indegree)
  note deps = plan_dependencies_Inr [OF cycle(2) config_validate_Inr(2) [OF cycle(1)]]
  let ?as = "bc_actions c" and ?D = "dep_graph (bc_actions c) deps"
  from cycle(5) assms have "names = map (\<lambda>(i, _). ac_id (?as ! i)) (filter (\<lambda>(_, d). 0 < d) (enumerate 0 indegree))"
    by simp
  then have names: "set names = {ac_id (?as ! i) | i. i < length indegree \<and> 0 < indegree ! i}"
    by (simp only: filter_enumerate_set)
  have "finite (?D i)" for i by (simp add: dep_graph_def)
  note stuck = kahn_stuck [OF cycle(3) this]
  have len: "length indegree = length ?as" using cycle(3) by (simp add: kahn_inv_def)
  have "\<not> {..<length ?as} \<subseteq> set order"
    using cycle(3,4) distinct_card [of order] card_mono [of "set order" "{..<length ?as}"]
      card_mono [of "{..<length ?as}" "set order"] by (auto simp: kahn_inv_def)
  then obtain i where "i < length ?as" "i \<notin> set order" by auto
  with stuck(1) names len have "set names \<noteq> {}" by auto
  moreover have "\<exists>i < length ?as. ac_id (?as ! i) = name \<and> required_deps ?as i \<inter> set names \<noteq> {}"
    if "name \<in> set names" for name
  proof -
    from that names len obtain i where i: "i < length ?as" "name = ac_id (?as ! i)" "0 < indegree ! i" by auto
    with stuck(2) obtain j where "j \<in> ?D i" "j \<notin> set order" by blast
    then have j: "j < length ?as" "ac_id (?as ! j) \<in> set (deps ! i)" "0 < indegree ! j"
      using stuck(1) by (auto simp: dep_graph_def)
    with deps(2) [OF i(1)] names len i show ?thesis by (intro exI [of _ i]) auto
  qed
  ultimately show ?thesis by auto
qed (use assms in simp_all)


definition cyclic_config :: bootstrap_config where
  "cyclic_config = sample_config\<lparr>bc_actions :=
     [(action_new ''a'' FilesystemEnsureDir (origin_image ''base''))
        \<lparr>ac_path := Some ''/a'', ac_depends_on := [''b'']\<rparr>,
      (action_new ''b'' FilesystemEnsureDir (origin_image ''base''))
        \<lparr>ac_path := Some ''/b'', ac_depends_on := [''a'']\<rparr>]\<rparr>"

theorem plan_cycle_genuine_witness:
  "plan_from_config cyclic_config = Some (Inl (DependencyCycle [''a'', ''b''])) \<and>
   (\<exists>i < length (bc_actions cyclic_config). ac_id (bc_actions cyclic_config ! i) = ''a'')"
proof -
  have valid: "config_validate cyclic_config = Inr ()"
  proof -
    have "validate_actions cyclic_config [] (bc_actions cyclic_config) = Inr ()"
      "validate_runtime_invariance cyclic_config = Inr ()" by code_simp+
    then show ?thesis
      using sample_with_actions_valid [of "bc_actions cyclic_config"]
      by (simp add: cyclic_config_def MAX_BOOTSTRAP_ACTIONS_def)
  qed
  have "plan_dependencies (bc_actions cyclic_config) = Some (Inr [[''b''], [''a'']])" by code_simp
  moreover have "check_phases (id_index (bc_actions cyclic_config)) (map action_phase (bc_actions cyclic_config))
      [[''b''], [''a'']] (enumerate 0 (bc_actions cyclic_config)) = Some (Inr ())" by code_simp
  moreover have "stable_topological_order (bc_actions cyclic_config) [[''b''], [''a'']]
      = Some (Inl (DependencyCycle [''a'', ''b'']))" by code_simp
  ultimately have "plan_from_config cyclic_config = Some (Inl (DependencyCycle [''a'', ''b'']))"
    by (simp add: plan_from_config_def valid)
  with plan_cycle_genuine [OF this valid] show ?thesis by auto
qed

end
