(* ===== verification/Core_Executor.thy ===== *)
theory Core_Executor
  imports Core_Filesystem Bootstrap_Plan
begin

text \<open>
  Handoff commands and the plan executor (\<open>src/crates/container-init-core/src/handoff.rs\<close>,
  \<open>executor.rs\<close>, the report types of \<open>report.rs\<close>). The state is what actions change: the account
  files, the credentials of the process and the file tree. \<open>ssh.rs\<close> and \<open>cgroup.rs\<close> are not
  modelled: their effect on the whole state is a parameter, about which nothing is assumed.
\<close>

section \<open>Handoff commands\<close>

record handoff_command =
  hf_program :: string
  hf_args :: "string list"

definition from_prefix ::
  "handoff_config \<Rightarrow> string list \<Rightarrow> string list \<Rightarrow> (core_error, handoff_command) result" where
  "from_prefix handoff pre command =
     rbind (for_each (\<lambda>argument. fail_if (argument = [] \<or> has_char argument nul)
       (CoreInvalid ''handoff.command'' CommandArgument)) command) (\<lambda>_.
     Inr \<lparr>hf_program = hc_runtime handoff, hf_args = pre @ command\<rparr>)"

definition from_config :: "handoff_config \<Rightarrow> string list \<Rightarrow> (core_error, handoff_command) result" where
  "from_config handoff command =
     from_prefix handoff (if command = [] then hc_shell_prefix handoff else hc_exec_prefix handoff) command"

definition from_initial_config :: "handoff_config \<Rightarrow> string list \<Rightarrow> (core_error, handoff_command) result" where
  "from_initial_config handoff command =
     from_prefix handoff (if command = [] then hc_shell_prefix handoff else hc_initial_exec_prefix handoff) command"

definition argv :: "handoff_command \<Rightarrow> string list" where
  "argv h = hf_program h # hf_args h"

text \<open>
  What \<open>exec\<close> replaces the process with: the command and the variables set on top of the
  inherited environment.
\<close>

record exec_image =
  ei_command :: handoff_command
  ei_environment :: "(string \<times> string) list"

definition exec_with_identity :: "handoff_command \<Rightarrow> resolved_identity option \<Rightarrow> exec_image" where
  "exec_with_identity h identity =
     \<lparr>ei_command = h, ei_environment =
       (case identity of
          None \<Rightarrow> []
        | Some i \<Rightarrow> [(''HOME'', id_home i), (''USER'', id_user i), (''LOGNAME'', id_user i)])\<rparr>"

definition exec_as_root_service :: "handoff_command \<Rightarrow> exec_image" where
  "exec_as_root_service h =
     \<lparr>ei_command = h, ei_environment = [(''HOME'', ''/root''), (''USER'', ''root''), (''LOGNAME'', ''root'')]\<rparr>"

section \<open>State, options and reports\<close>

text \<open>The last field observes how often the executor was entered; nothing reads it.\<close>

record host_state =
  hs_files :: account_files
  hs_creds :: credentials
  hs_tree :: file_tree
  hs_runs :: nat

datatype exec_change =
    IdentityResolved
  | AccountChange action_change
  | FsChange fs_change
  | CapabilityChange
  | HandoffPrepared

type_synonym capability =
  "action \<Rightarrow> resolved_identity \<Rightarrow> (string, string) btree_map \<Rightarrow> (host_state, core_error, exec_change) effect"

datatype action_status = Succeeded | SkippedCondition | SkippedDependency | FailedWarn | FailedIgnore

datatype outcome_message =
    DependencyFailed
  | ConditionFalse
  | DropSkippedRootService
  | SkippedForRoot
  | Changed exec_change
  | FailedByPolicy

record action_outcome =
  oc_id :: string
  oc_kind :: action_kind
  oc_phase :: plan_phase
  oc_origin :: origin
  oc_status :: action_status
  oc_path :: "string option"
  oc_message :: outcome_message
  oc_error :: "core_error option"

record execution_report =
  er_identity :: resolved_identity
  er_outcomes :: "action_outcome list"
  er_handoff :: "handoff_command option"
  er_root_service :: bool
  er_warnings :: "workspace_status list"

text \<open>
  Where a receipt goes: the directory of its path, as the system finds it when it follows symbolic links, and its name.
\<close>

record receipt_file =
  rf_directory :: "string list"
  rf_name :: string

text \<open>
  The executor with its options, and the outcomes of the system calls it makes. The JSON of a report is a parameter, which
  may fail.
\<close>

record executor =
  ex_config :: bootstrap_config
  ex_context :: runtime_context
  ex_posix :: posix_system
  ex_passwd_path :: string
  ex_faults :: replace_faults
  ex_shell_fault :: bool
  ex_calls :: credential_calls
  ex_fs :: fs_env
  ex_view :: "host_state \<Rightarrow> host_view"
  ex_ssh :: "capability option"
  ex_cgroup :: capability
  ex_receipt :: "receipt_file option"
  ex_report_bytes :: "execution_report \<Rightarrow> string option"

text \<open>The system as it is in a state.\<close>

definition posix_in :: "executor \<Rightarrow> host_state \<Rightarrow> posix_system" where
  "posix_in x hs =
     (ex_posix x)\<lparr>ps_files := hs_files hs, ps_current_ids := (cr_euid (hs_creds hs), cr_egid (hs_creds hs))\<rparr>"

definition fs_env_in :: "executor \<Rightarrow> host_state \<Rightarrow> fs_env" where
  "fs_env_in x hs = (ex_fs x)\<lparr>fe_uid := cr_euid (hs_creds hs), fe_gid := cr_egid (hs_creds hs)\<rparr>"

section \<open>Executing an action\<close>

definition posix_identity_of :: "resolved_identity \<Rightarrow> posix_identity" where
  "posix_identity_of i = \<lparr>pi_uid = id_uid i, pi_gid = id_gid i, pi_user = id_user i, pi_home = id_home i\<rparr>"

definition on_tree ::
  "executor \<Rightarrow> (fs_env \<Rightarrow> fs_change fs_effect) \<Rightarrow> (host_state, core_error, exec_change) effect" where
  "on_tree x operation hs =
     (let (r, tree) = operation (fs_env_in x hs) (hs_tree hs)
      in (rbind r (\<lambda>change. Inr (FsChange change)), hs\<lparr>hs_tree := tree\<rparr>))"

definition map_user_action ::
  "executor \<Rightarrow> action \<Rightarrow> resolved_identity \<Rightarrow> (host_state, core_error, exec_change) effect" where
  "map_user_action x a identity hs =
     (let (r, files) = map_user (ps_getpwnam (ex_posix x) (id_user identity)) (ex_faults x) (hs_files hs)
            (posix_identity_of identity)
      in (rbind (map_err (from_posix (ac_id a) (Some (ex_passwd_path x))) r) (\<lambda>c. Inr (AccountChange c)),
          hs\<lparr>hs_files := files\<rparr>))"

definition set_shell_action ::
  "executor \<Rightarrow> action \<Rightarrow> string \<Rightarrow> string \<Rightarrow> (host_state, core_error, exec_change) effect" where
  "set_shell_action x a user shell hs =
     (let (r, files) = set_user_shell (ex_shell_fault x) (hs_files hs) user shell
      in (rbind (map_err (from_posix (ac_id a) (Some (ex_passwd_path x))) r) (\<lambda>c. Inr (AccountChange c)),
          hs\<lparr>hs_files := files\<rparr>))"

definition drop_action ::
  "executor \<Rightarrow> string \<Rightarrow> resolved_identity \<Rightarrow> (host_state, core_error, exec_change) effect" where
  "drop_action x name identity hs =
     (let (r, creds) = drop_privileges (ex_calls x) (system_user_by_name (posix_in x hs) (id_user identity))
            (hs_creds hs) (posix_identity_of identity)
      in (rbind (map_err (from_posix name None) r) (\<lambda>c. Inr (AccountChange c)), hs\<lparr>hs_creds := creds\<rparr>))"

text \<open>A capability may change anything in the state, but it does not enter the executor.\<close>

definition run_capability :: "(host_state, core_error, exec_change) effect \<Rightarrow> (host_state, core_error, exec_change) effect" where
  "run_capability m hs = (let (r, hs') = m hs in (r, hs'\<lparr>hs_runs := hs_runs hs\<rparr>))"

definition required_path ::
  "action \<Rightarrow> (string, string) btree_map \<Rightarrow> string \<Rightarrow> string option \<Rightarrow> (core_error, string) result" where
  "required_path a values field value =
     rbind (ok_or (CoreInvalid (action_location a field) CoreFieldRequired) value) (\<lambda>value.
     render_path (ac_id a) field value values)"

text \<open>\<open>expect\<close> on a field that validation guarantees: \<open>CorePanic\<close> stands for the panic.\<close>

abbreviation expect :: "'a option \<Rightarrow> (core_error, 'a) result" where
  "expect value \<equiv> ok_or CorePanic value"

definition run_kind ::
  "executor \<Rightarrow> action \<Rightarrow> resolved_identity \<Rightarrow> (string, string) btree_map \<Rightarrow>
   (host_state, core_error, exec_change) effect" where
  "run_kind x a identity values =
     (let path = (\<lambda>field value. elift (required_path a values field value)); name = ac_id a in
      case ac_kind a of
        IdentityResolve \<Rightarrow> eret IdentityResolved
      | IdentityMapUser \<Rightarrow> map_user_action x a identity
      | IdentityEnsureHome \<Rightarrow>
          ebind (elift (case ac_path a of
                          None \<Rightarrow> Inr (id_home identity)
                        | Some value \<Rightarrow> render_path name ''path'' value values)) (\<lambda>home.
          on_tree x (\<lambda>env. ensure_dir env name identity home (opt_or (ac_mode a) (Some ''0755''))
            (opt_or (ac_owner a) (Some ''identity.target''))))
      | FilesystemEnsureDir \<Rightarrow>
          ebind (path ''path'' (ac_path a)) (\<lambda>p.
          on_tree x (\<lambda>env. ensure_dir env name identity p (ac_mode a) (ac_owner a)))
      | FilesystemEnsureFile \<Rightarrow>
          ebind (path ''path'' (ac_path a)) (\<lambda>p.
          on_tree x (\<lambda>env. ensure_file env name identity p (ac_content a) (ac_mode a) (ac_owner a)))
      | FilesystemEnsureSymlink \<Rightarrow>
          ebind (path ''link'' (ac_link a)) (\<lambda>link.
          ebind (path ''target'' (ac_target a)) (\<lambda>target.
          on_tree x (\<lambda>env. ensure_symlink env name identity link target (ac_parent_mode a) (ac_owner a))))
      | FilesystemChown \<Rightarrow>
          ebind (path ''path'' (ac_path a)) (\<lambda>p.
          ebind (elift (expect (ac_owner a))) (\<lambda>owner.
          on_tree x (\<lambda>env. fs_chown env name identity p owner (ac_recursive a))))
      | FilesystemChmod \<Rightarrow>
          ebind (path ''path'' (ac_path a)) (\<lambda>p.
          ebind (elift (expect (ac_mode a))) (\<lambda>mode.
          on_tree x (\<lambda>env. fs_chmod env name p mode (ac_recursive a))))
      | ProcessSetUserShell \<Rightarrow>
          ebind (elift (if ac_user a = Some ''identity.target'' then Inr (id_user identity) else expect (ac_user a)))
            (\<lambda>user.
          ebind (elift (rbind (expect (ac_shell a)) (\<lambda>shell. render_path name ''shell'' shell values))) (\<lambda>shell.
          set_shell_action x a user shell))
      | ProcessDropPrivileges \<Rightarrow> drop_action x name identity
      | ServiceSshPrepare \<Rightarrow>
          (case ex_ssh x of
             None \<Rightarrow> efail (CoreAction name None ServiceDisabled)
           | Some prepare \<Rightarrow> run_capability (prepare a identity values))
      | CgroupV2Init \<Rightarrow> run_capability (ex_cgroup x a identity values)
      | HandoffExec \<Rightarrow> efail CorePanic)"

definition execute_action ::
  "executor \<Rightarrow> action \<Rightarrow> resolved_identity \<Rightarrow> (string, string) btree_map \<Rightarrow> string list \<Rightarrow>
   (host_state, core_error, exec_change \<times> handoff_command option) effect" where
  "execute_action x a identity values command =
     (if ac_kind a = HandoffExec then
        ebind (elift (from_config (bc_handoff (ex_config x)) command)) (\<lambda>h. eret (HandoffPrepared, Some h))
      else ebind (run_kind x a identity values) (\<lambda>change. eret (change, None)))"

section \<open>The execution loop\<close>

definition check_run_as ::
  "host_state \<Rightarrow> run_as \<Rightarrow> resolved_identity \<Rightarrow> planned_action \<Rightarrow> (core_error, unit) result" where
  "check_run_as hs run identity planned =
     (let uid = cr_euid (hs_creds hs) in
      case run of
        RunRoot \<Rightarrow> fail_if (uid \<noteq> 0) (CorePermission (Some (pa_id planned)) RequiresRoot)
      | RunTarget \<Rightarrow> fail_if (uid \<noteq> 0 \<and> uid \<noteq> id_uid identity)
          (CorePermission (Some (pa_id planned)) (RequiresTargetUid (id_uid identity)))
      | RunCurrent \<Rightarrow> Inr ())"

definition is_root_service_handoff :: "executor \<Rightarrow> host_state \<Rightarrow> string list \<Rightarrow> bool" where
  "is_root_service_handoff x hs command \<longleftrightarrow>
     cr_euid (hs_creds hs) = 0 \<and>
     (hc_root_service (bc_handoff (ex_config x)) \<or>
      is_some_and (\<lambda>daemon. command \<noteq> [] \<and> hd command = daemon) (hc_ssh_daemon (bc_handoff (ex_config x))))"

definition identity_warnings :: "bootstrap_config \<Rightarrow> resolved_identity \<Rightarrow> workspace_status list" where
  "identity_warnings config identity =
     (if ic_auto_mapping (bc_identity config) \<and> id_workspace identity \<noteq> WsMounted
      then [id_workspace identity] else [])"

definition interpolation_values ::
  "host_view \<Rightarrow> bootstrap_config \<Rightarrow> runtime_context \<Rightarrow> resolved_identity \<Rightarrow> resolved_inputs \<Rightarrow>
   (string, string) btree_map" where
  "interpolation_values view config context identity inputs =
     btree_collect (base_entries view (bc_workspace_root config) identity context @
       input_entries inputs @ env_entries context)"

definition action_path :: "action \<Rightarrow> (string, string) btree_map \<Rightarrow> (core_error, string option) result" where
  "action_path a values =
     (case (if ac_kind a = FilesystemEnsureSymlink then ac_link a else ac_path a) of
        None \<Rightarrow> Inr None
      | Some value \<Rightarrow> rbind (render_path (ac_id a) ''path'' value values) (\<lambda>p. Inr (Some p)))"

definition outcome_of ::
  "planned_action \<Rightarrow> action_status \<Rightarrow> string option \<Rightarrow> outcome_message \<Rightarrow> core_error option \<Rightarrow> action_outcome" where
  "outcome_of planned status path message error =
     \<lparr>oc_id = pa_id planned, oc_kind = pa_kind planned, oc_phase = pa_phase planned, oc_origin = pa_origin planned,
      oc_status = status, oc_path = path, oc_message = message, oc_error = error\<rparr>"

record loop_state =
  lp_completed :: "(string, action_status) btree_map"
  lp_outcomes :: "action_outcome list"
  lp_handoff :: "handoff_command option"

definition complete :: "action_outcome \<Rightarrow> loop_state \<Rightarrow> loop_state" where
  "complete outcome st =
     st\<lparr>lp_completed := btree_insert (oc_id outcome) (oc_status outcome) (lp_completed st),
        lp_outcomes := lp_outcomes st @ [outcome]\<rparr>"

definition dependencies_failed :: "planned_action \<Rightarrow> loop_state \<Rightarrow> bool" where
  "dependencies_failed planned st =
     list_ex (\<lambda>dependency. \<not> is_some_and (\<lambda>status. status = Succeeded) (btree_get dependency (lp_completed st)))
       (pa_depends_on planned)"

definition annotate_action_error :: "core_error \<Rightarrow> action \<Rightarrow> core_error" where
  "annotate_action_error error a = CoreAnnotated (ac_id a) (ac_origin a) error"

text \<open>What the loop does with the result of \<open>execute_action\<close>; a panic ends everything.\<close>

definition finish_action ::
  "action \<Rightarrow> planned_action \<Rightarrow> (string, string) btree_map \<Rightarrow> loop_state \<Rightarrow>
   (core_error, exec_change \<times> handoff_command option) result \<Rightarrow> (core_error, loop_state) result" where
  "finish_action a planned values st r =
     (case r of
        Inr (change, prepared) \<Rightarrow>
          rbind (action_path a values) (\<lambda>path.
          Inr (complete (outcome_of planned Succeeded path (Changed change) None)
            (st\<lparr>lp_handoff := opt_or prepared (lp_handoff st)\<rparr>)))
      | Inl error \<Rightarrow>
          if error = CorePanic then Inl CorePanic
          else
            let error = annotate_action_error error a in
            (case ac_failure a of
               FailError \<Rightarrow> Inl error
             | FailWarn \<Rightarrow>
                 rbind (action_path a values) (\<lambda>path.
                 Inr (complete (outcome_of planned FailedWarn path FailedByPolicy (Some error)) st))
             | FailIgnore \<Rightarrow>
                 rbind (action_path a values) (\<lambda>path.
                 Inr (complete (outcome_of planned FailedIgnore path FailedByPolicy (Some error)) st))))"

record run_context =
  rx_identity :: resolved_identity
  rx_inputs :: resolved_inputs
  rx_values :: "(string, string) btree_map"
  rx_command :: "string list"
  rx_root_service :: bool

definition execute_planned ::
  "executor \<Rightarrow> run_context \<Rightarrow> planned_action \<Rightarrow> action \<Rightarrow> loop_state \<Rightarrow> (host_state, core_error, loop_state) effect" where
  "execute_planned x run planned a st =
     (let identity = rx_identity run; values = rx_values run;
          skipped = (\<lambda>message. elift (rbind (action_path a values) (\<lambda>path.
            Inr (complete (outcome_of planned Succeeded path message None) st)))) in
      ebind (elift (map_err CoreModel (action_condition a))) (\<lambda>condition.
      ebind (egets (\<lambda>hs. map_err (\<lambda>e. annotate_action_error e a)
          (evaluate (ex_view x hs)
            \<lparr>cc_identity = identity, cc_inputs = rx_inputs run, cc_runtime = ex_context x,
             cc_workspace_root = bc_workspace_root (ex_config x)\<rparr> condition))) (\<lambda>holds.
      if \<not> holds then eret (complete (outcome_of planned SkippedCondition None ConditionFalse None) st)
      else if ac_kind a = ProcessDropPrivileges \<and> rx_root_service run then skipped DropSkippedRootService
      else if id_uid identity = 0 \<and> ac_kind a \<in> {IdentityMapUser, ProcessSetUserShell, ProcessDropPrivileges}
      then skipped SkippedForRoot
      else
        ebind (egets (\<lambda>hs. map_err (\<lambda>e. annotate_action_error e a) (check_run_as hs (ac_run_as a) identity planned)))
          (\<lambda>_ hs.
          let (r, hs) = execute_action x a identity values (rx_command run) hs
          in (finish_action a planned values st r, hs)))))"

definition execute_step ::
  "executor \<Rightarrow> run_context \<Rightarrow> loop_state \<Rightarrow> planned_action \<Rightarrow> (host_state, core_error, loop_state) effect" where
  "execute_step x run st planned =
     (let location = ''bootstrap.plan.'' @ pa_id planned;
          actions = btree_collect (map (\<lambda>a. (ac_id a, a)) (bc_actions (ex_config x))) in
      ebind (elift (ok_or (CoreInvalid location PlanActionAbsent) (btree_get (pa_id planned) actions))) (\<lambda>a.
      ebind (elift (fail_if (pa_kind planned \<noteq> ac_kind a) (CoreInvalid location PlanKindMismatch))) (\<lambda>_.
      if dependencies_failed planned st
      then eret (complete (outcome_of planned SkippedDependency None DependencyFailed None) st)
      else execute_planned x run planned a st)))"

fun execute_loop ::
  "executor \<Rightarrow> run_context \<Rightarrow> planned_action list \<Rightarrow> loop_state \<Rightarrow> (host_state, core_error, loop_state) effect" where
  "execute_loop x run [] st = eret st"
| "execute_loop x run (planned # plan) st =
     ebind (execute_step x run st planned) (execute_loop x run plan)"

section \<open>The receipt\<close>

text \<open>
  \<open>ExecutionReportWriter::write\<close>: the directories of the path are created, the report is written to a new file beside
  the receipt and renamed over it, whatever file or link is there. After an error the new file is removed, also when it
  could not be created because there was one.
\<close>

definition receipt_names :: "receipt_file \<Rightarrow> string list" where
  "receipt_names rf = rf_directory rf @ [rf_name rf]"

definition receipt_temporary :: "fs_env \<Rightarrow> receipt_file \<Rightarrow> string list" where
  "receipt_temporary env rf = rf_directory rf @ [''.'' @ rf_name rf @ ''-container-init-'' @ fe_suffix env]"

definition open_receipt :: "fs_env \<Rightarrow> string list \<Rightarrow> (file_tree, fs_call, unit) effect" where
  "open_receipt env temporary tree =
     (if fe_fault env OpenCall temporary \<or> node_at tree temporary \<noteq> None then (Inl OpenCall, tree)
      else (Inr (), put_node temporary (new_node env (Regular []) 384) tree))"

definition rename_receipt :: "fs_env \<Rightarrow> string list \<Rightarrow> string list \<Rightarrow> (file_tree, fs_call, unit) effect" where
  "rename_receipt env temporary names tree =
     (if is_directory tree names then (Inl RenameCall, tree) else rename_temporary env temporary names tree)"

definition try_replace :: "fs_env \<Rightarrow> receipt_file \<Rightarrow> string \<Rightarrow> (file_tree, fs_call, unit) effect" where
  "try_replace env rf content =
     ebind (open_receipt env (receipt_temporary env rf)) (\<lambda>_.
     ebind (write_temporary env (receipt_temporary env rf) (content @ [CHR 0x0A])) (\<lambda>_.
     rename_receipt env (receipt_temporary env rf) (receipt_names rf)))"

definition replace_receipt :: "fs_env \<Rightarrow> receipt_file \<Rightarrow> string \<Rightarrow> unit fs_effect" where
  "replace_receipt env rf content tree =
     (let temporary = receipt_temporary env rf in
      case try_replace env rf content tree of
        (Inr _, tree) \<Rightarrow> (Inr (), tree)
      | (Inl call, tree) \<Rightarrow>
          (Inl (fs_io ''receipt'' (receipt_names rf) call),
           if fe_fault env RemoveCall temporary \<or> is_directory tree temporary then tree else remove_node temporary tree))"

definition write_report :: "fs_env \<Rightarrow> receipt_file \<Rightarrow> string option \<Rightarrow> unit fs_effect" where
  "write_report env rf encoded =
     ebind (create_dir_all env ''receipt'' (rf_directory rf)) (\<lambda>_.
     ebind (elift (ok_or CoreReceipt encoded)) (replace_receipt env rf))"

definition write_receipt :: "executor \<Rightarrow> execution_report \<Rightarrow> (host_state, core_error, unit) effect" where
  "write_receipt x report hs =
     (case ex_receipt x of
        None \<Rightarrow> (Inr (), hs)
      | Some rf \<Rightarrow>
          let (r, tree) = write_report (fs_env_in x hs) rf (ex_report_bytes x report) (hs_tree hs) in (r, hs\<lparr>hs_tree := tree\<rparr>))"

definition count_run :: "(host_state, core_error, unit) effect" where
  "count_run hs = (Inr (), hs\<lparr>hs_runs := Suc (hs_runs hs)\<rparr>)"

definition execute_internal ::
  "executor \<Rightarrow> planned_action list \<Rightarrow> string list \<Rightarrow> resolved_identity option \<Rightarrow>
   (host_state, core_error, execution_report) effect" where
  "execute_internal x plan command identity_override =
     ebind count_run (\<lambda>_.
     ebind (egets (\<lambda>hs. case identity_override of
          Some identity \<Rightarrow> Inr identity
        | None \<Rightarrow> resolve_prevalidated (posix_in x hs) (ex_config x) (ex_context x))) (\<lambda>identity.
     ebind (egets (\<lambda>hs. Inr (is_root_service_handoff x hs command))) (\<lambda>root_service.
     ebind (elift (resolve_inputs (ex_config x) (ex_context x))) (\<lambda>inputs.
     ebind (egets (\<lambda>hs. Inr (interpolation_values (ex_view x hs) (ex_config x) (ex_context x) identity inputs))) (\<lambda>values.
     ebind (execute_loop x
         \<lparr>rx_identity = identity, rx_inputs = inputs, rx_values = values, rx_command = command,
          rx_root_service = root_service\<rparr>
         plan \<lparr>lp_completed = [], lp_outcomes = [], lp_handoff = None\<rparr>) (\<lambda>st.
     let report = \<lparr>er_identity = identity, er_outcomes = lp_outcomes st, er_handoff = lp_handoff st,
           er_root_service = root_service, er_warnings = identity_warnings (ex_config x) identity\<rparr> in
     ebind (write_receipt x report) (\<lambda>_. eret report)))))))"

definition validate_plan :: "executor \<Rightarrow> planned_action list \<Rightarrow> (core_error, unit) result" where
  "validate_plan x plan =
     rbind (map_err CoreModel (config_validate (ex_config x))) (\<lambda>_.
     rbind (case plan_from_config (ex_config x) of None \<Rightarrow> Inl CorePanic | Some r \<Rightarrow> map_err CoreModel r) (\<lambda>expected.
     fail_if (expected \<noteq> plan) (CoreInvalid ''bootstrap.plan'' PlanForeign)))"

definition execute ::
  "executor \<Rightarrow> planned_action list \<Rightarrow> string list \<Rightarrow> (host_state, core_error, execution_report) effect" where
  "execute x plan command =
     ebind (elift (validate_plan x plan)) (\<lambda>_. execute_internal x plan command None)"

definition build_handoff_command :: "executor \<Rightarrow> string list \<Rightarrow> (core_error, handoff_command) result" where
  "build_handoff_command x command = from_config (bc_handoff (ex_config x)) command"

text \<open>\<open>execute_and_handoff\<close> up to the call of \<open>exec\<close>: the image the process is replaced with.\<close>

definition execute_and_handoff ::
  "executor \<Rightarrow> planned_action list \<Rightarrow> string list \<Rightarrow> (host_state, core_error, exec_image) effect" where
  "execute_and_handoff x plan command =
     ebind (execute x plan command) (\<lambda>report.
     ebind (elift (build_handoff_command x command)) (\<lambda>built.
     let handoff = unwrap_or built (er_handoff report) in
     eret (if er_root_service report then exec_as_root_service handoff
           else exec_with_identity handoff (Some (er_identity report)))))"

definition prepare_exec ::
  "executor \<Rightarrow> string list \<Rightarrow> (host_state, core_error, resolved_identity \<times> handoff_command \<times> bool) effect" where
  "prepare_exec x command =
     ebind (elift (map_err CoreModel (config_validate (ex_config x)))) (\<lambda>_.
     ebind (egets (\<lambda>hs. resolve_prevalidated (posix_in x hs) (ex_config x) (ex_context x))) (\<lambda>identity.
     ebind (egets (\<lambda>hs. Inr (is_root_service_handoff x hs command))) (\<lambda>root_service.
     ebind (elift (build_handoff_command x command)) (\<lambda>handoff.
     eret (identity, handoff, root_service)))))"

definition exec_prepared ::
  "executor \<Rightarrow> resolved_identity \<Rightarrow> handoff_command \<Rightarrow> bool \<Rightarrow> (host_state, core_error, exec_image) effect" where
  "exec_prepared x identity handoff root_service =
     ebind (if \<not> root_service \<and> id_uid identity \<noteq> 0 \<and> \<not> id_run_as_root identity
            then ebind (drop_action x ''drop-privileges'' identity) (\<lambda>_. eret ())
            else eret ()) (\<lambda>_.
     eret (if root_service then exec_as_root_service handoff else exec_with_identity handoff (Some identity)))"

definition exec_and_handoff :: "executor \<Rightarrow> string list \<Rightarrow> (host_state, core_error, exec_image) effect" where
  "exec_and_handoff x command =
     ebind (prepare_exec x command) (\<lambda>(identity, handoff, root_service).
     exec_prepared x identity handoff root_service)"

section \<open>One step\<close>

text \<open>The credentials the target identity asks for.\<close>

definition at_target :: "executor \<Rightarrow> resolved_identity \<Rightarrow> host_state \<Rightarrow> bool" where
  "at_target x identity hs \<longleftrightarrow>
     cr_euid (hs_creds hs) = id_uid identity \<and> cr_egid (hs_creds hs) = id_gid identity \<and>
     (\<exists>groups. sys_getgroups (ex_calls x) (hs_creds hs) = Some groups \<and> id_gid identity \<in> set groups)"

lemma drop_action_target:
  assumes "drop_action x name identity hs = (Inr change, hs')"
  shows "at_target x identity hs'"
proof -
  obtain r creds where run: "drop_privileges (ex_calls x) (system_user_by_name (posix_in x hs) (id_user identity))
      (hs_creds hs) (posix_identity_of identity) = (r, creds)" by fastforce
  with assms have "\<exists>c. r = Inr c" "hs' = hs\<lparr>hs_creds := creds\<rparr>"
    by (auto simp: drop_action_def rbind_Inr_iff map_err_Inr_iff)
  with drop_privileges_spec [OF run] show ?thesis by (auto simp: at_target_def posix_identity_of_def)
qed

lemma execute_action_drop:
  assumes "execute_action x a identity vs command hs = (Inr r, hs')" "ac_kind a = ProcessDropPrivileges"
  shows "at_target x identity hs'"
  using assms by (auto simp: execute_action_def run_kind_def ebind_Inr_iff intro: drop_action_target)

lemma execute_action_handoff:
  assumes "execute_action x a identity vs command hs = (r, hs')" "ac_kind a = HandoffExec"
  shows "hs' = hs"
  using assms by (auto simp: execute_action_def ebind_def split: sum.splits)

lemma execute_action_prepares:
  assumes "execute_action x a identity vs command hs = (Inr (change, Some h), hs')"
  shows "ac_kind a = HandoffExec \<and> from_config (bc_handoff (ex_config x)) command = Inr h"
  using assms by (auto simp: execute_action_def ebind_Inr_iff split: if_splits)

text \<open>
  What a step of the loop adds: one outcome with the planned id; a success means that no
  dependency failed; only the handoff action prepares a command, and it leaves the state alone;
  a successful privilege drop, unless it is skipped for a root service or for root itself,
  leaves the process with the target's credentials.
\<close>

definition step_adds ::
  "executor \<Rightarrow> run_context \<Rightarrow> planned_action \<Rightarrow> loop_state \<Rightarrow> host_state \<Rightarrow> loop_state \<Rightarrow> host_state \<Rightarrow> action_outcome \<Rightarrow> bool" where
  "step_adds x run planned st hs st' hs' outcome \<longleftrightarrow>
     oc_id outcome = pa_id planned \<and>
     lp_outcomes st' = lp_outcomes st @ [outcome] \<and>
     lp_completed st' = btree_insert (pa_id planned) (oc_status outcome) (lp_completed st) \<and>
     (oc_status outcome = Succeeded \<longrightarrow> \<not> dependencies_failed planned st) \<and>
     (oc_status outcome = SkippedDependency \<longleftrightarrow> dependencies_failed planned st) \<and>
     (lp_handoff st' \<noteq> lp_handoff st \<longrightarrow> pa_kind planned = HandoffExec \<and> oc_status outcome = Succeeded) \<and>
     (pa_kind planned = HandoffExec \<longrightarrow> hs' = hs) \<and>
     (pa_kind planned = ProcessDropPrivileges \<and> oc_status outcome = Succeeded \<and> \<not> rx_root_service run \<and>
       id_uid (rx_identity run) \<noteq> 0 \<longrightarrow> at_target x (rx_identity run) hs')"

lemma complete_simps [simp]:
  "lp_outcomes (complete outcome st) = lp_outcomes st @ [outcome]"
  "lp_completed (complete outcome st) = btree_insert (oc_id outcome) (oc_status outcome) (lp_completed st)"
  "lp_handoff (complete outcome st) = lp_handoff st"
  by (simp_all add: complete_def)

lemma outcome_simps [simp]:
  "oc_id (outcome_of planned status path message error) = pa_id planned"
  "oc_status (outcome_of planned status path message error) = status"
  by (simp_all add: outcome_of_def)

lemma finish_action_Inr:
  assumes "finish_action a planned vs st r = Inr st'"
  obtains outcome where "oc_id outcome = pa_id planned" "lp_outcomes st' = lp_outcomes st @ [outcome]"
    "lp_completed st' = btree_insert (pa_id planned) (oc_status outcome) (lp_completed st)"
    "oc_status outcome \<noteq> SkippedDependency"
    "oc_status outcome = Succeeded \<longleftrightarrow> (\<exists>v. r = Inr v)"
    "lp_handoff st' \<noteq> lp_handoff st \<Longrightarrow> \<exists>change h. r = Inr (change, Some h)"
proof (cases r)
  case (Inl error)
  with assms obtain status path e where st': "status = FailedWarn \<or> status = FailedIgnore"
    "st' = complete (outcome_of planned status path FailedByPolicy (Some e)) st"
    by (auto simp: finish_action_def rbind_Inr_iff Let_def split: if_splits failure_policy.splits)
  with Inl show thesis
    by (intro that [of "outcome_of planned status path FailedByPolicy (Some e)"]) auto
next
  case (Inr v)
  then obtain change prepared where r: "r = Inr (change, prepared)" by (cases v) auto
  with assms obtain path where
    "st' = complete (outcome_of planned Succeeded path (Changed change) None) (st\<lparr>lp_handoff := opt_or prepared (lp_handoff st)\<rparr>)"
    by (auto simp: finish_action_def rbind_Inr_iff)
  with r show thesis
    by (intro that [of "outcome_of planned Succeeded path (Changed change) None"]) (auto simp: opt_or_def split: option.splits)
qed

lemma execute_planned_adds:
  assumes "execute_planned x run planned a st hs = (Inr st', hs')" "pa_kind planned = ac_kind a"
    and "\<not> dependencies_failed planned st"
  shows "\<exists>outcome. step_adds x run planned st hs st' hs' outcome"
proof -
  let ?skip = "\<lambda>m. \<exists>path. st' = complete (outcome_of planned Succeeded path m None) st \<and> hs' = hs"
  from assms(1) consider
      (condition) "st' = complete (outcome_of planned SkippedCondition None ConditionFalse None) st" "hs' = hs"
    | (skipped) m where "?skip m" "rx_root_service run \<or> id_uid (rx_identity run) = 0"
    | (run) r where "execute_action x a (rx_identity run) (rx_values run) (rx_command run) hs = (r, hs')"
        "finish_action a planned (rx_values run) st r = Inr st'"
    unfolding execute_planned_def Let_def
    by (auto simp: ebind_Inr_iff rbind_Inr_iff split: if_splits prod.splits)
  then show ?thesis
  proof cases
    case condition
    with assms(3) show ?thesis by (intro exI [of _ "outcome_of planned SkippedCondition None ConditionFalse None"])
      (simp add: step_adds_def)
  next
    case (skipped m)
    then obtain path where "st' = complete (outcome_of planned Succeeded path m None) st" "hs' = hs" by blast
    with skipped(2) assms(3) show ?thesis
      by (intro exI [of _ "outcome_of planned Succeeded path m None"]) (auto simp: step_adds_def)
  next
    case (run r)
    from run(2) obtain outcome where o: "oc_id outcome = pa_id planned" "lp_outcomes st' = lp_outcomes st @ [outcome]"
      "lp_completed st' = btree_insert (pa_id planned) (oc_status outcome) (lp_completed st)"
      "oc_status outcome \<noteq> SkippedDependency" "oc_status outcome = Succeeded \<longleftrightarrow> (\<exists>v. r = Inr v)"
      "lp_handoff st' \<noteq> lp_handoff st \<Longrightarrow> \<exists>change h. r = Inr (change, Some h)"
      by (rule finish_action_Inr) blast
    have "lp_handoff st' \<noteq> lp_handoff st \<Longrightarrow> ac_kind a = HandoffExec"
      using o(6) run(1) execute_action_prepares by blast
    moreover have "ac_kind a = HandoffExec \<Longrightarrow> hs' = hs" using run(1) by (rule execute_action_handoff)
    moreover have "ac_kind a = ProcessDropPrivileges \<Longrightarrow> oc_status outcome = Succeeded \<Longrightarrow> at_target x (rx_identity run) hs'"
      using o(5) run(1) execute_action_drop by blast
    ultimately show ?thesis
      using o assms(2,3) by (intro exI [of _ outcome]) (auto simp: step_adds_def)
  qed
qed

lemma execute_step_adds:
  assumes "execute_step x run st planned hs = (Inr st', hs')"
  shows "\<exists>outcome. step_adds x run planned st hs st' hs' outcome"
proof (cases "dependencies_failed planned st")
  case True
  with assms have "st' = complete (outcome_of planned SkippedDependency None DependencyFailed None) st" "hs' = hs"
    by (auto simp: execute_step_def Let_def ebind_Inr_iff)
  with True show ?thesis
    by (intro exI [of _ "outcome_of planned SkippedDependency None DependencyFailed None"]) (simp add: step_adds_def)
next
  case False
  with assms obtain a where "pa_kind planned = ac_kind a" "execute_planned x run planned a st hs = (Inr st', hs')"
    by (auto simp: execute_step_def Let_def ebind_Inr_iff fail_if_Inr_iff)
  with False show ?thesis by (intro execute_planned_adds)
qed

section \<open>The loop\<close>

abbreviation status_at :: "loop_state \<Rightarrow> nat \<Rightarrow> action_status" where
  "status_at st k \<equiv> oc_status (lp_outcomes st ! k)"

definition met :: "planned_action list \<Rightarrow> action_outcome list \<Rightarrow> nat \<Rightarrow> bool" where
  "met plan outcomes k \<longleftrightarrow>
     (\<forall>d \<in> set (pa_depends_on (plan ! k)). \<exists>m < k. pa_id (plan ! m) = d \<and> oc_status (outcomes ! m) = Succeeded)"

definition loop_inv :: "planned_action list \<Rightarrow> loop_state \<Rightarrow> bool" where
  "loop_inv finished st \<longleftrightarrow>
     map oc_id (lp_outcomes st) = map pa_id finished \<and> btree_wf (lp_completed st) \<and>
     (\<forall>m < length finished. btree_get (pa_id (finished ! m)) (lp_completed st) = Some (status_at st m)) \<and>
     (\<forall>i. i \<notin> set (map pa_id finished) \<longrightarrow> btree_get i (lp_completed st) = None) \<and>
     (\<forall>k < length finished. (status_at st k = Succeeded \<longrightarrow> met finished (lp_outcomes st) k) \<and>
        (status_at st k = SkippedDependency \<longleftrightarrow> \<not> met finished (lp_outcomes st) k)) \<and>
     (lp_handoff st \<noteq> None \<longrightarrow>
        (\<exists>k < length finished. pa_kind (finished ! k) = HandoffExec \<and> status_at st k = Succeeded))"

lemma loop_inv_length: "loop_inv finished st \<Longrightarrow> length (lp_outcomes st) = length finished"
  by (auto simp: loop_inv_def dest: map_eq_imp_length_eq)

lemma met_append:
  assumes "k < length finished" "length outcomes = length finished"
  shows "met (finished @ rest) (outcomes @ others) k \<longleftrightarrow> met finished outcomes k"
proof -
  have "m < length finished" if "m < k" for m using that assms(1) by simp
  with assms show ?thesis unfolding met_def by (simp add: nth_append cong: conj_cong)
qed

lemma failed_iff:
  assumes "loop_inv finished st"
  shows "dependencies_failed planned st \<longleftrightarrow> \<not> met (finished @ [planned]) (lp_outcomes st @ others) (length finished)"
proof -
  note len = loop_inv_length [OF assms]
  have "is_some_and (\<lambda>status. status = Succeeded) (btree_get d (lp_completed st)) \<longleftrightarrow>
      (\<exists>m < length finished. pa_id (finished ! m) = d \<and> status_at st m = Succeeded)" for d
  proof (cases "d \<in> set (map pa_id finished)")
    case True
    then obtain i where i: "i < length finished" "d = pa_id (finished ! i)" by (auto simp: in_set_conv_nth)
    have all: "btree_get (pa_id (finished ! m)) (lp_completed st) = Some (status_at st m)"
      if "m < length finished" for m using assms that by (simp add: loop_inv_def)
    show ?thesis
    proof
      assume "is_some_and (\<lambda>status. status = Succeeded) (btree_get d (lp_completed st))"
      then show "\<exists>m < length finished. pa_id (finished ! m) = d \<and> status_at st m = Succeeded"
        using i all [OF i(1)] by auto
    next
      assume "\<exists>m < length finished. pa_id (finished ! m) = d \<and> status_at st m = Succeeded"
      then obtain m where "m < length finished" "pa_id (finished ! m) = d" "status_at st m = Succeeded" by blast
      with all [of m] have "btree_get d (lp_completed st) = Some Succeeded" by simp
      then show "is_some_and (\<lambda>status. status = Succeeded) (btree_get d (lp_completed st))" by simp
    qed
  next
    case False
    with assms have "btree_get d (lp_completed st) = None" by (simp add: loop_inv_def)
    with False show ?thesis by (metis imageI is_some_and_simps(1) nth_mem set_map)
  qed
  then show ?thesis using len by (auto simp: dependencies_failed_def list_ex_iff met_def nth_append)
qed

lemma loop_inv_step:
  assumes "loop_inv finished st" "step_adds x run planned st hs st' hs' outcome"
    and "pa_id planned \<notin> set (map pa_id finished)"
  shows "loop_inv (finished @ [planned]) st'"
proof -
  note len = loop_inv_length [OF assms(1)] and inv = assms(1) [unfolded loop_inv_def] and step = assms(2) [unfolded step_adds_def]
  have outs: "lp_outcomes st' = lp_outcomes st @ [outcome]" using step by blast
  have get: "btree_get i (lp_completed st') = (if i = pa_id planned then Some (oc_status outcome) else btree_get i (lp_completed st))" for i
    using step inv by (simp add: btree_get_insert)
  have fresh: "m < length finished \<Longrightarrow> pa_id (finished ! m) \<noteq> pa_id planned" for m
    using assms(3) by (metis imageI nth_mem set_map)
  have each: "(status_at st' k = Succeeded \<longrightarrow> met (finished @ [planned]) (lp_outcomes st') k) \<and>
      (status_at st' k = SkippedDependency \<longleftrightarrow> \<not> met (finished @ [planned]) (lp_outcomes st') k)"
    if "k < Suc (length finished)" for k
  proof (cases "k = length finished")
    case True
    have "status_at st' k = oc_status outcome" using True outs len by (simp add: nth_append)
    moreover have "dependencies_failed planned st \<longleftrightarrow> \<not> met (finished @ [planned]) (lp_outcomes st') k"
      using failed_iff [OF assms(1), of planned "[outcome]"] True outs by simp
    moreover have "oc_status outcome = Succeeded \<longrightarrow> \<not> dependencies_failed planned st"
      "oc_status outcome = SkippedDependency \<longleftrightarrow> dependencies_failed planned st" using step by blast+
    ultimately show ?thesis by simp
  next
    case False
    with that have k: "k < length finished" by simp
    with met_append [OF k len] inv outs len show ?thesis by (auto simp: nth_append)
  qed
  have handoff: "lp_handoff st' \<noteq> None \<longrightarrow>
      (\<exists>k < Suc (length finished). pa_kind ((finished @ [planned]) ! k) = HandoffExec \<and> status_at st' k = Succeeded)"
  proof
    assume some: "lp_handoff st' \<noteq> None"
    show "\<exists>k < Suc (length finished). pa_kind ((finished @ [planned]) ! k) = HandoffExec \<and> status_at st' k = Succeeded"
    proof (cases "lp_handoff st' = lp_handoff st")
      case True
      with some inv obtain k where "k < length finished" "pa_kind (finished ! k) = HandoffExec" "status_at st k = Succeeded"
        by auto
      then show ?thesis using outs len by (intro exI [of _ k]) (simp add: nth_append)
    next
      case False
      with step have "pa_kind planned = HandoffExec" "oc_status outcome = Succeeded" by auto
      then show ?thesis using outs len by (intro exI [of _ "length finished"]) (simp add: nth_append)
    qed
  qed
  have stored: "btree_get (pa_id ((finished @ [planned]) ! m)) (lp_completed st') = Some (status_at st' m)"
    if "m < Suc (length finished)" for m
  proof (cases "m = length finished")
    case True
    then show ?thesis using outs len by (simp add: get nth_append)
  next
    case False
    with that have "m < length finished" by simp
    with fresh [of m] inv outs len show ?thesis by (simp add: get nth_append)
  qed
  show ?thesis
    unfolding loop_inv_def
  proof (intro conjI)
    show "map oc_id (lp_outcomes st') = map pa_id (finished @ [planned])" using inv step by simp
    show "btree_wf (lp_completed st')" using step inv by (simp add: btree_wf_insert)
    show "\<forall>i. i \<notin> set (map pa_id (finished @ [planned])) \<longrightarrow> btree_get i (lp_completed st') = None"
      using inv by (simp add: get)
  qed (use stored each handoff in simp_all)
qed

lemma execute_loop_inv:
  assumes "execute_loop x run plan st hs = (Inr st', hs')" "loop_inv finished st" "distinct (map pa_id (finished @ plan))"
  shows "loop_inv (finished @ plan) st'"
  using assms
proof (induction plan arbitrary: finished st hs)
  case (Cons planned plan)
  from Cons.prems(1) obtain st1 hs1 where step: "execute_step x run st planned hs = (Inr st1, hs1)"
    and rest: "execute_loop x run plan st1 hs1 = (Inr st', hs')" by (auto simp: ebind_Inr_iff)
  from execute_step_adds [OF step] obtain outcome where "step_adds x run planned st hs st1 hs1 outcome" ..
  then have "loop_inv (finished @ [planned]) st1" using Cons.prems(2,3) by (intro loop_inv_step) auto
  with rest Cons.prems(3) Cons.IH [of st1 hs1 "finished @ [planned]"] show ?case by simp
qed simp

lemma execute_loop_append:
  "execute_loop x run (plan @ plan') st = ebind (execute_loop x run plan st) (execute_loop x run plan')"
proof (induction plan arbitrary: st)
  case Nil
  then show ?case by (intro ext) simp
next
  case (Cons planned plan)
  then have "execute_loop x run (plan @ plan') = (\<lambda>st. ebind (execute_loop x run plan st) (execute_loop x run plan'))"
    by (intro ext) simp
  then show ?case by (simp add: ebind_assoc)
qed

lemma execute_loop_handoffs:
  assumes "execute_loop x run plan st hs = (Inr st', hs')" "\<forall>p \<in> set plan. pa_kind p = HandoffExec"
  shows "hs' = hs"
  using assms
proof (induction plan arbitrary: st hs)
  case (Cons planned plan)
  from Cons.prems(1) obtain st1 hs1 where step: "execute_step x run st planned hs = (Inr st1, hs1)"
    and rest: "execute_loop x run plan st1 hs1 = (Inr st', hs')" by (auto simp: ebind_Inr_iff)
  from execute_step_adds [OF step] Cons.prems(2) have "hs1 = hs" by (auto simp: step_adds_def)
  with rest Cons show ?case by simp
qed simp

lemma initial_loop_inv: "loop_inv [] \<lparr>lp_completed = [], lp_outcomes = [], lp_handoff = None\<rparr>"
  by (simp add: loop_inv_def btree_wf_def btree_get_def)

lemma counted_state [simp]:
  "posix_in x (hs\<lparr>hs_runs := n\<rparr>) = posix_in x hs"
  "is_root_service_handoff x (hs\<lparr>hs_runs := n\<rparr>) command = is_root_service_handoff x hs command"
  by (simp_all add: posix_in_def is_root_service_handoff_def)

lemma write_receipt_state: "write_receipt x report hs = (r, hs') \<Longrightarrow> \<exists>tree. hs' = hs\<lparr>hs_tree := tree\<rparr>"
  by (auto simp: write_receipt_def split: option.splits prod.splits) (metis host_state.surjective host_state.update_convs(3))

lemma execute_internal_Inr:
  assumes "execute_internal x plan command identity_override hs = (Inr report, hs')"
  obtains run st hs0 hs1 where "execute_loop x run plan \<lparr>lp_completed = [], lp_outcomes = [], lp_handoff = None\<rparr> hs0 = (Inr st, hs1)"
    "hs_creds hs' = hs_creds hs1" "rx_identity run = er_identity report" "rx_root_service run = er_root_service report"
    "rx_root_service run = is_root_service_handoff x hs command" "rx_command run = command"
    "er_outcomes report = lp_outcomes st" "er_handoff report = lp_handoff st"
proof -
  let ?hs = "hs\<lparr>hs_runs := Suc (hs_runs hs)\<rparr>"
  from assms obtain identity inputs st hs1 where
    st: "execute_loop x \<lparr>rx_identity = identity, rx_inputs = inputs,
        rx_values = interpolation_values (ex_view x ?hs) (ex_config x) (ex_context x) identity inputs,
        rx_command = command, rx_root_service = is_root_service_handoff x hs command\<rparr> plan
      \<lparr>lp_completed = [], lp_outcomes = [], lp_handoff = None\<rparr> ?hs = (Inr st, hs1)"
    and receipt: "write_receipt x report hs1 = (Inr (), hs')"
    and report: "er_identity report = identity" "er_outcomes report = lp_outcomes st" "er_handoff report = lp_handoff st"
      "er_root_service report = is_root_service_handoff x hs command"
    unfolding execute_internal_def by (auto simp: ebind_Inr_iff Let_def count_run_def)
  from write_receipt_state [OF receipt] have "hs_creds hs' = hs_creds hs1" by auto
  then show thesis by (intro that [OF st]) (simp_all add: report)
qed

end
