(* ===== verification/Core_Handoff.thy ===== *)
theory Core_Handoff
  imports Core_Executor
begin

text \<open>
  Who the handed-off command runs as: what a whole execution reports
  (\<open>execute_internal\<close>, \<open>execute_and_handoff\<close>, \<open>exec_and_handoff\<close> of
  \<open>src/crates/container-init-core/src/executor.rs\<close>), over the loop invariant of \<open>Core_Executor\<close>
  and the plan of \<open>Bootstrap_Plan\<close>, with a configuration on which they run.
\<close>

section \<open>Plans and executions\<close>

lemma execute_loop_outcomes:
  assumes "execute_loop x run plan st hs = (Inr st', hs')"
  shows "\<exists>later. lp_outcomes st' = lp_outcomes st @ later"
  using assms
proof (induction plan arbitrary: st hs)
  case (Cons planned plan)
  from Cons.prems obtain st1 hs1 where step: "execute_step x run st planned hs = (Inr st1, hs1)"
    and rest: "execute_loop x run plan st1 hs1 = (Inr st', hs')" by (auto simp: ebind_Inr_iff)
  from execute_step_adds [OF step] obtain outcome where "lp_outcomes st1 = lp_outcomes st @ [outcome]"
    by (auto simp: step_adds_def)
  with Cons.IH [OF rest] show ?case by auto
qed simp

lemma plan_drop_dependency:
  assumes "plan_from_config c = Some (Inr plan)" "a \<in> set (bc_actions c)" "ac_kind a = ProcessDropPrivileges"
  shows "k < length plan \<Longrightarrow> pa_kind (plan ! k) = HandoffExec \<Longrightarrow> ac_id a \<in> set (pa_depends_on (plan ! k))"
    and "k < length plan \<Longrightarrow> pa_id (plan ! k) = ac_id a \<Longrightarrow> pa_kind (plan ! k) = ProcessDropPrivileges"
proof -
  let ?as = "bc_actions c"
  from assms(1) obtain order where o: "length plan = length order" "set order = {..<length ?as}"
    "\<And>k. k < length order \<Longrightarrow> pa_id (plan ! k) = ac_id (?as ! (order ! k)) \<and>
       pa_kind (plan ! k) = ac_kind (?as ! (order ! k)) \<and>
       set (pa_depends_on (plan ! k)) = required_deps ?as (order ! k)" "distinct (map ac_id ?as)"
    by (rule plan_of_order) blast
  from assms(2) obtain j where j: "j < length ?as" "a = ?as ! j" by (auto simp: in_set_conv_nth)
  show "ac_id a \<in> set (pa_depends_on (plan ! k))" if "k < length plan" "pa_kind (plan ! k) = HandoffExec"
  proof -
    from that(1) o(1) have k: "k < length order" by simp
    from o(3) [OF k] that(2) have "ac_kind (?as ! (order ! k)) = HandoffExec" by simp
    with required_deps_kind(2) [OF j(1)] assms(3) j(2) have "ac_id a \<in> required_deps ?as (order ! k)" by blast
    with o(3) [OF k] show ?thesis by blast
  qed
  show "pa_kind (plan ! k) = ProcessDropPrivileges" if k: "k < length plan" "pa_id (plan ! k) = ac_id a"
  proof -
    from k(1) o(1) have k': "k < length order" by simp
    have "order ! k < length ?as" using nth_mem [OF k'] o(2) by simp
    moreover have "ac_id (?as ! (order ! k)) = ac_id (?as ! j)" using o(3) [OF k'] k(2) j(2) by simp
    ultimately have "order ! k = j" using o(4) j(1) by (simp add: distinct_conv_nth) metis
    with o(3) [OF k'] assms(3) j(2) show ?thesis by simp
  qed
qed

lemma execute_loop_at:
  assumes "execute_loop x run plan st0 hs = (Inr st', hs')" "loop_inv [] st0" "distinct (map pa_id plan)" "m < length plan"
  obtains st hs1 st1 hs2 where "step_adds x run (plan ! m) st hs1 st1 hs2 (lp_outcomes st' ! m)"
    "execute_loop x run (drop (Suc m) plan) st1 hs2 = (Inr st', hs')"
proof -
  have split: "plan = take m plan @ plan ! m # drop (Suc m) plan" using assms(4) by (rule id_take_nth_drop)
  from assms(1) obtain st hs1 st1 hs2 where run:
    "execute_loop x run (take m plan) st0 hs = (Inr st, hs1)"
    "execute_step x run st (plan ! m) hs1 = (Inr st1, hs2)"
    "execute_loop x run (drop (Suc m) plan) st1 hs2 = (Inr st', hs')"
    by (subst (asm) split) (auto simp: execute_loop_append ebind_Inr_iff)
  have "distinct (map pa_id ([] @ take m plan))" using distinct_take [OF assms(3), of m] by (simp add: take_map)
  from loop_inv_length [OF execute_loop_inv [OF run(1) assms(2) this]] have len: "length (lp_outcomes st) = m"
    using assms(4) by simp
  from execute_step_adds [OF run(2)] obtain outcome where step: "step_adds x run (plan ! m) st hs1 st1 hs2 outcome" ..
  from execute_loop_outcomes [OF run(3)] step len have "lp_outcomes st' ! m = outcome"
    by (auto simp: step_adds_def nth_append)
  with step run(3) that show thesis by blast
qed

section \<open>A bootstrap that drops privileges\<close>

definition drop_actions :: "action list" where
  "drop_actions =
     [(action_new ''resolve'' IdentityResolve (origin_image ''base''))\<lparr>ac_run_as := RunRoot\<rparr>,
      (action_new ''drop'' ProcessDropPrivileges (origin_image ''base''))
        \<lparr>ac_run_as := RunRoot, ac_failure := FailWarn\<rparr>,
      action_new ''handoff'' HandoffExec (origin_image ''base'')]"

definition drop_config :: bootstrap_config where
  "drop_config = sample_config\<lparr>bc_actions := drop_actions,
     bc_identity := identity_config_new\<lparr>ic_default_uid := Some 1000, ic_default_gid := Some 1000\<rparr>\<rparr>"

lemma drop_config_valid: "config_validate drop_config = Inr ()"
proof -
  let ?c = "sample_config\<lparr>bc_actions := drop_actions\<rparr>"
  have "validate_actions ?c [] drop_actions = Inr ()" "validate_runtime_invariance ?c = Inr ()" by code_simp+
  then have base: "config_validate ?c = Inr ()"
    by (intro sample_with_actions_valid) (simp_all add: drop_actions_def MAX_BOOTSTRAP_ACTIONS_def)
  have "validate_actions drop_config [] drop_actions = Inr ()" "validate_runtime_invariance drop_config = Inr ()"
    "identity_config_validate (bc_identity drop_config) = Inr ()" by code_simp+
  moreover have "validate_inputs drop_config = Inr ()" "validate_identity_inputs drop_config = Inr ()"
    "validate_namespaces drop_config = Inr ()" by code_simp+
  ultimately show ?thesis
    using base by (simp add: config_validate_def drop_config_def rbind_Inr_iff fail_if_Inr_iff)
qed

definition drop_deps :: "string list list" where
  "drop_deps = [[], [''resolve''], [''drop'', ''resolve'']]"

definition drop_plan :: "planned_action list" where
  "drop_plan = map (the \<circ> plan_action drop_actions drop_deps) [0, 1, 2]"

lemma drop_plan: "plan_from_config drop_config = Some (Inr drop_plan)"
proof -
  have acts: "bc_actions drop_config = drop_actions" by (simp add: drop_config_def)
  have "plan_dependencies drop_actions = Some (Inr drop_deps)"
    "check_phases (id_index drop_actions) (map action_phase drop_actions) drop_deps (enumerate 0 drop_actions)
      = Some (Inr ())"
    "stable_topological_order drop_actions drop_deps = Some (Inr [0, 1, 2])" by code_simp+
  moreover have "those (map (plan_action drop_actions drop_deps) [0, 1, 2]) = Some drop_plan"
    unfolding drop_plan_def by (intro those_total) (auto simp: plan_action_def nth_opt_def drop_deps_def drop_actions_def effect_from_action_def action_new_def)
  ultimately show ?thesis by (simp add: plan_from_config_def acts drop_config_valid)
qed

definition drop_executor :: "credential_calls \<Rightarrow> executor" where
  "drop_executor calls =
     \<lparr>ex_config = drop_config, ex_context = runtime_context_new ''/w'', ex_posix = sample_posix,
      ex_passwd_path = ''/etc/passwd'', ex_faults = no_faults, ex_shell_fault = False, ex_calls = calls,
      ex_fs = \<lparr>fe_uid = 0, fe_gid = 0, fe_umask = 18, fe_suffix = ''1'', fe_mount_point = (\<lambda>_. False),
        fe_fault = (\<lambda>_ _. False)\<rparr>,
      ex_view = (\<lambda>_. \<lparr>hv_exists = (\<lambda>_. False), hv_writable = (\<lambda>_. False), hv_os = ''linux'', hv_arch = ''x86_64''\<rparr>),
      ex_ssh = None, ex_cgroup = (\<lambda>_ _ _. eret CapabilityChange), ex_receipt = None, ex_report_bytes = (\<lambda>_. None)\<rparr>"

definition root_state :: host_state where
  "root_state = \<lparr>hs_files = \<lparr>af_passwd = None, af_group = None\<rparr>, hs_creds = root_creds, hs_tree = [], hs_runs = 0\<rparr>"

definition drop_identity :: resolved_identity where
  "drop_identity = sample_resolved\<lparr>id_uid_source := ProfileDefault, id_gid_source := ProfileDefault\<rparr>"

lemma drop_resolve:
  "resolve_prevalidated (posix_in (drop_executor calls) root_state) drop_config (runtime_context_new ''/w'') = Inr drop_identity"
proof -
  let ?p = "posix_in (drop_executor calls) root_state"
  have c: "bc_identity drop_config = identity_config_new\<lparr>ic_default_uid := Some 1000, ic_default_gid := Some 1000\<rparr>"
    by (simp add: drop_config_def)
  have inputs: "resolve_inputs drop_config cx = Inr []" for cx
    by (simp add: resolve_inputs_def drop_config_def sample_config_def bootstrap_config_new_def)
  have reject: "reject_symlink_components (\<lambda>_. LNotFound) ''/w'' = Inr ()"
    "normalize_workspace_path ''/w'' = Inr ''/w''" by code_simp+
  have observed: "system_observe_workspace ?p ''/w'' = Unavailable MountinfoUnreadable"
    using reject by (simp add: system_observe_workspace_def posix_in_def drop_executor_def sample_posix_def observe_workspace_def)
  have lookup: "system_user_by_uid ?p uid = Inr None" for uid
    by (simp add: system_user_by_uid_def posix_in_def drop_executor_def root_state_def sample_posix_def
        lookup_user_by_uid_def lookup_file_user_def)
  have dec: "to_decimal 1000 = ''1000''" by code_simp
  show ?thesis
    by (simp add: resolve_prevalidated_def inputs c identity_config_new_def input_bool_def find_input_def
        resolve_target_def input_uid_pair_def input_gid_def fail_if_def runtime_context_new_def observed
        map_pair_def select_uid_def select_gid_def lookup select_user_def check_occupied_def when_some_def
        input_home_def fallback_home_def is_absolute_def drop_identity_def sample_resolved_def dec)
qed

text \<open>The three steps, for system calls of which only \<open>setuid\<close> may fail.\<close>

definition calls_with :: "bool \<Rightarrow> credential_calls" where
  "calls_with works = (if works then sample_calls else sample_calls\<lparr>sys_setuid := (\<lambda>_ _. None)\<rparr>)"

lemma drop_plan_list:
  "map pa_id drop_plan = [''resolve'', ''drop'', ''handoff'']"
  "map pa_kind drop_plan = [IdentityResolve, ProcessDropPrivileges, HandoffExec]"
  "map pa_depends_on drop_plan = [[], [''resolve''], [''drop'', ''resolve'']]"
  by code_simp+

lemma drop_lookup:
  assumes "k < 3"
  shows "btree_get (pa_id (drop_plan ! k)) (btree_collect (map (\<lambda>a. (ac_id a, a)) (bc_actions drop_config))) =
    Some (drop_actions ! k)"
proof -
  have "k = 0 \<or> k = 1 \<or> k = 2" using assms by auto
  then show ?thesis by (elim disjE) (simp_all only:, code_simp+)
qed

lemma run_step:
  assumes "btree_get (pa_id p) (btree_collect (map (\<lambda>a. (ac_id a, a)) (bc_actions (ex_config x)))) = Some a"
    and "pa_kind p = ac_kind a" "\<not> dependencies_failed p st" "ac_when a = None" "\<not> rx_root_service run"
    and "id_uid (rx_identity run) \<noteq> 0" "check_run_as hs (ac_run_as a) (rx_identity run) p = Inr ()"
  shows "execute_step x run st p hs =
    (let (r, hs') = execute_action x a (rx_identity run) (rx_values run) (rx_command run) hs
     in (finish_action a p (rx_values run) st r, hs'))"
  using assms by (simp add: execute_step_def execute_planned_def action_condition_def ebind_def fail_if_def Let_def)

definition creds_after :: "bool \<Rightarrow> credentials" where
  "creds_after works = \<lparr>cr_euid = (if works then 1000 else 0), cr_egid = 1000, cr_groups = [1000]\<rparr>"

lemma root_state_runs [simp]: "root_state\<lparr>hs_runs := 0\<rparr> = root_state"
  by (simp add: root_state_def)

lemma drop_result:
  "drop_action (drop_executor (calls_with works)) name drop_identity (root_state\<lparr>hs_runs := n\<rparr>) =
     (if works then Inr (AccountChange DroppedPrivileges) else Inl (CoreIo (Some name) None AccountFileFailure),
      root_state\<lparr>hs_runs := n, hs_creds := creds_after works\<rparr>)"
  by (simp add: drop_action_def drop_executor_def calls_with_def sample_calls_def posix_in_def root_state_def root_creds_def
      drop_identity_def sample_resolved_def posix_identity_of_def drop_privileges_def change_credentials_def creds_after_def
      supplementary_groups_contain_def system_user_by_name_def lookup_user_by_name_def lookup_file_user_def sample_posix_def)

lemma drop_loop:
  assumes "rx_identity run = drop_identity" "rx_command run = [''bash'']" "\<not> rx_root_service run"
  shows "\<exists>st. execute_loop (drop_executor (calls_with works)) run drop_plan
        \<lparr>lp_completed = [], lp_outcomes = [], lp_handoff = None\<rparr> (root_state\<lparr>hs_runs := n\<rparr>) =
      (Inr st, root_state\<lparr>hs_runs := n, hs_creds := creds_after works\<rparr>) \<and>
    map oc_status (lp_outcomes st) = (if works then [Succeeded, Succeeded, Succeeded] else [Succeeded, FailedWarn, SkippedDependency]) \<and>
    map oc_kind (lp_outcomes st) = [IdentityResolve, ProcessDropPrivileges, HandoffExec] \<and>
    lp_handoff st = (if works then Some \<lparr>hf_program = ''/bin/runtime'', hf_args = [''bash'']\<rparr> else None)"
proof -
  let ?x = "drop_executor (calls_with works)" and ?st0 = "\<lparr>lp_completed = [], lp_outcomes = [], lp_handoff = None\<rparr>"
  obtain p0 p1 p2 where plan: "drop_plan = [p0, p1, p2]" by (simp add: drop_plan_def)
  have ps: "pa_id p0 = ''resolve''" "pa_id p1 = ''drop''" "pa_id p2 = ''handoff''"
    "pa_kind p0 = IdentityResolve" "pa_kind p1 = ProcessDropPrivileges" "pa_kind p2 = HandoffExec"
    "pa_depends_on p0 = []" "pa_depends_on p1 = [''resolve'']" "pa_depends_on p2 = [''drop'', ''resolve'']"
    using drop_plan_list unfolding plan by simp_all
  have config: "ex_config ?x = drop_config" by (simp add: drop_executor_def)
  note lookup = drop_lookup [of 0] drop_lookup [of 1] drop_lookup [of 2]
  let ?a0 = "(action_new ''resolve'' IdentityResolve (origin_image ''base''))\<lparr>ac_run_as := RunRoot\<rparr>"
    and ?a1 = "(action_new ''drop'' ProcessDropPrivileges (origin_image ''base''))\<lparr>ac_run_as := RunRoot, ac_failure := FailWarn\<rparr>"
    and ?a2 = "action_new ''handoff'' HandoffExec (origin_image ''base'')"
    and ?all = "btree_collect (map (\<lambda>a. (ac_id a, a)) (bc_actions (ex_config ?x)))"
  have gets: "btree_get (pa_id p0) ?all = Some ?a0" "btree_get (pa_id p1) ?all = Some ?a1" "btree_get (pa_id p2) ?all = Some ?a2"
    using lookup by (simp_all add: config plan drop_actions_def)
  have uid: "id_uid (rx_identity run) \<noteq> 0" by (simp add: assms(1) drop_identity_def sample_resolved_def)
  let ?st1 = "complete (outcome_of p0 Succeeded None (Changed IdentityResolved) None) ?st0"
  have s0: "execute_step ?x run ?st0 p0 (root_state\<lparr>hs_runs := n\<rparr>) = (Inr ?st1, (root_state\<lparr>hs_runs := n\<rparr>))"
    by (subst run_step [OF gets(1) _ _ _ assms(3) uid])
      (simp_all add: ps dependencies_failed_def action_new_def check_run_as_def root_state_def root_creds_def
        fail_if_def execute_action_def run_kind_def finish_action_def action_path_def)
  let ?st2 = "complete (outcome_of p1 (if works then Succeeded else FailedWarn) None
      (if works then Changed (AccountChange DroppedPrivileges) else FailedByPolicy)
      (if works then None else Some (annotate_action_error (CoreIo (Some ''drop'') None AccountFileFailure) ?a1))) ?st1"
  have drop: "execute_action ?x ?a1 (rx_identity run) (rx_values run) (rx_command run) (root_state\<lparr>hs_runs := n\<rparr>) =
      (if works then Inr (AccountChange DroppedPrivileges, None) else Inl (CoreIo (Some ''drop'') None AccountFileFailure),
       root_state\<lparr>hs_runs := n, hs_creds := creds_after works\<rparr>)"
    using drop_result [of works "''drop''" n] by (simp add: assms(1) execute_action_def run_kind_def action_new_def ebind_def)
  have s1: "execute_step ?x run ?st1 p1 (root_state\<lparr>hs_runs := n\<rparr>) = (Inr ?st2, root_state\<lparr>hs_runs := n, hs_creds := creds_after works\<rparr>)"
  proof (subst run_step [OF gets(2) _ _ _ assms(3) uid])
    show "check_run_as (root_state\<lparr>hs_runs := n\<rparr>) (ac_run_as ?a1) (rx_identity run) p1 = Inr ()"
      by (simp add: check_run_as_def root_state_def root_creds_def fail_if_def)
  qed (unfold drop, simp_all add: ps dependencies_failed_def btree_get_def action_new_def finish_action_def action_path_def)
  have failed: "dependencies_failed p2 ?st2 \<longleftrightarrow> \<not> works"
    by (simp add: dependencies_failed_def ps btree_get_def)
  show ?thesis
  proof (cases works)
    case True
    let ?h = "\<lparr>hf_program = ''/bin/runtime'', hf_args = [''bash'']\<rparr>"
    have "from_config (bc_handoff (ex_config ?x)) [''bash''] = Inr ?h" unfolding config by code_simp
    then have "execute_step ?x run ?st2 p2 (root_state\<lparr>hs_runs := n, hs_creds := creds_after works\<rparr>) =
        (Inr (complete (outcome_of p2 Succeeded None (Changed HandoffPrepared) None) (?st2\<lparr>lp_handoff := Some ?h\<rparr>)),
         root_state\<lparr>hs_runs := n, hs_creds := creds_after works\<rparr>)"
      using failed True
      by (subst run_step [OF gets(3) _ _ _ assms(3) uid])
        (simp_all add: ps action_new_def check_run_as_def execute_action_def finish_action_def action_path_def assms(2))
    with True s0 s1 show ?thesis by (simp add: plan ps outcome_of_def)
  next
    case False
    then have "execute_step ?x run ?st2 p2 (root_state\<lparr>hs_runs := n, hs_creds := creds_after works\<rparr>) =
        (Inr (complete (outcome_of p2 SkippedDependency None DependencyFailed None) ?st2),
         root_state\<lparr>hs_runs := n, hs_creds := creds_after works\<rparr>)"
      using failed gets(3) by (simp add: execute_step_def ebind_def ps fail_if_def action_new_def)
    with False s0 s1 show ?thesis by (simp add: plan ps outcome_of_def)
  qed
qed

section \<open>Properties\<close>

text \<open>
  C4. An execution that returns reports every action of the plan, in its order. An action
  succeeded only if all it depends on had succeeded before it, and it is reported as skipped for
  its dependencies exactly when one of them had not; a prepared handoff means that the handoff
  action was reached and succeeded.
\<close>

theorem execution_respects_dependencies:
  assumes "execute_internal x plan command identity_override hs = (Inr report, hs')" "distinct (map pa_id plan)"
  shows "map oc_id (er_outcomes report) = map pa_id plan \<and>
    (\<forall>k < length plan.
       (oc_status (er_outcomes report ! k) = Succeeded \<longrightarrow> met plan (er_outcomes report) k) \<and>
       (oc_status (er_outcomes report ! k) = SkippedDependency \<longleftrightarrow> \<not> met plan (er_outcomes report) k)) \<and>
    (er_handoff report \<noteq> None \<longrightarrow>
       (\<exists>k < length plan. pa_kind (plan ! k) = HandoffExec \<and> oc_status (er_outcomes report ! k) = Succeeded))"
proof -
  from assms(1) obtain run st hs0 hs1 where
    loop: "execute_loop x run plan \<lparr>lp_completed = [], lp_outcomes = [], lp_handoff = None\<rparr> hs0 = (Inr st, hs1)"
    and report: "er_outcomes report = lp_outcomes st" "er_handoff report = lp_handoff st"
    by (rule execute_internal_Inr)
  have "loop_inv plan st" using execute_loop_inv [OF loop initial_loop_inv] assms(2) by simp
  then show ?thesis unfolding report loop_inv_def by (intro conjI) blast+
qed

text \<open>
  C3. When a plan of the configuration has a step that drops privileges and the run is neither
  for root nor a root service, a prepared handoff is only reported with the process holding the
  target's credentials: the effective user and group are the target's and its group is among the
  supplementary groups.
\<close>

theorem handoff_runs_as_target:
  assumes "plan_from_config (ex_config x) = Some (Inr plan)"
    and "execute_internal x plan command identity_override hs = (Inr report, hs')"
    and "er_handoff report \<noteq> None" "\<not> er_root_service report" "id_uid (er_identity report) \<noteq> 0"
    and "a \<in> set (bc_actions (ex_config x))" "ac_kind a = ProcessDropPrivileges"
  shows "at_target x (er_identity report) hs'"
proof -
  from assms(2) obtain run st hs0 hs9 where
    loop: "execute_loop x run plan \<lparr>lp_completed = [], lp_outcomes = [], lp_handoff = None\<rparr> hs0 = (Inr st, hs9)"
    and creds: "hs_creds hs' = hs_creds hs9"
    and report: "rx_identity run = er_identity report" "rx_root_service run = er_root_service report"
      "er_handoff report = lp_handoff st"
    by (rule execute_internal_Inr)
  from plan_sound [OF assms(1)] have dist: "distinct (map pa_id plan)" by blast
  have inv: "loop_inv plan st" using execute_loop_inv [OF loop initial_loop_inv] dist by simp
  with assms(3) report(3) obtain k where k: "k < length plan" "pa_kind (plan ! k) = HandoffExec" "status_at st k = Succeeded"
    by (auto simp: loop_inv_def)
  have "ac_id a \<in> set (pa_depends_on (plan ! k))" by (rule plan_drop_dependency(1) [OF assms(1,6,7) k(1,2)])
  moreover have "met plan (lp_outcomes st) k" using inv k by (auto simp: loop_inv_def)
  ultimately obtain m where m: "m < k" "pa_id (plan ! m) = ac_id a" "status_at st m = Succeeded"
    by (auto simp: met_def)
  with k(1) have len: "m < length plan" by simp
  have kind: "pa_kind (plan ! m) = ProcessDropPrivileges" by (rule plan_drop_dependency(2) [OF assms(1,6,7) len m(2)])
  obtain st1 hs1 st2 hs2 where step: "step_adds x run (plan ! m) st1 hs1 st2 hs2 (lp_outcomes st ! m)"
    and rest: "execute_loop x run (drop (Suc m) plan) st2 hs2 = (Inr st, hs9)"
    by (rule execute_loop_at [OF loop initial_loop_inv dist len])
  have "\<forall>p \<in> set (drop (Suc m) plan). pa_kind p = HandoffExec"
    using plan_fixed_points [OF assms(1) len] kind by (auto simp: in_set_conv_nth)
  from execute_loop_handoffs [OF rest this] have "hs9 = hs2" .
  moreover have "at_target x (rx_identity run) hs2"
    using step kind m(3) assms(4,5) report(1,2) by (simp add: step_adds_def)
  ultimately show ?thesis using report(1) creds by (simp add: at_target_def)
qed

lemma drop_run:
  "\<exists>report. execute_internal (drop_executor (calls_with works)) drop_plan [''bash''] None root_state =
      (Inr report, root_state\<lparr>hs_runs := 1, hs_creds := creds_after works\<rparr>) \<and>
    er_identity report = drop_identity \<and> \<not> er_root_service report \<and>
    map oc_status (er_outcomes report) = (if works then [Succeeded, Succeeded, Succeeded] else [Succeeded, FailedWarn, SkippedDependency]) \<and>
    map oc_kind (er_outcomes report) = [IdentityResolve, ProcessDropPrivileges, HandoffExec] \<and>
    er_handoff report = (if works then Some \<lparr>hf_program = ''/bin/runtime'', hf_args = [''bash'']\<rparr> else None)"
proof -
  let ?x = "drop_executor (calls_with works)"
  have x: "ex_config ?x = drop_config" "ex_context ?x = runtime_context_new ''/w''" "ex_receipt ?x = None"
    by (simp_all add: drop_executor_def)
  have root: "\<not> is_root_service_handoff ?x root_state [''bash'']"
    unfolding is_root_service_handoff_def x by code_simp
  have runs: "root_state\<lparr>hs_runs := Suc (hs_runs root_state)\<rparr> = root_state\<lparr>hs_runs := 1\<rparr>" by (simp add: root_state_def)
  have inputs: "resolve_inputs drop_config cx = Inr []" for cx
    by (simp add: resolve_inputs_def drop_config_def sample_config_def bootstrap_config_new_def)
  let ?run = "\<lparr>rx_identity = drop_identity, rx_inputs = [],
      rx_values = interpolation_values (ex_view ?x (root_state\<lparr>hs_runs := 1\<rparr>)) drop_config (runtime_context_new ''/w'') drop_identity [],
      rx_command = [''bash''], rx_root_service = False\<rparr>"
  from drop_loop [of ?run works 1] obtain st where st: "execute_loop ?x ?run drop_plan
        \<lparr>lp_completed = [], lp_outcomes = [], lp_handoff = None\<rparr> (root_state\<lparr>hs_runs := 1\<rparr>) =
      (Inr st, root_state\<lparr>hs_runs := 1, hs_creds := creds_after works\<rparr>)"
    "map oc_status (lp_outcomes st) = (if works then [Succeeded, Succeeded, Succeeded] else [Succeeded, FailedWarn, SkippedDependency])"
    "map oc_kind (lp_outcomes st) = [IdentityResolve, ProcessDropPrivileges, HandoffExec]"
    "lp_handoff st = (if works then Some \<lparr>hf_program = ''/bin/runtime'', hf_args = [''bash'']\<rparr> else None)" by auto
  let ?report = "\<lparr>er_identity = drop_identity, er_outcomes = lp_outcomes st, er_handoff = lp_handoff st,
           er_root_service = False, er_warnings = identity_warnings drop_config drop_identity\<rparr>"
  have "execute_internal ?x drop_plan [''bash''] None root_state = (Inr ?report, root_state\<lparr>hs_runs := 1, hs_creds := creds_after works\<rparr>)"
    using drop_resolve [of "calls_with works"] st(1) root
    by (simp add: execute_internal_def x inputs ebind_def count_run_def runs write_receipt_def Let_def)
  with st(2-4) show ?thesis by (intro exI [of _ ?report]) simp
qed

theorem execution_respects_dependencies_witness:
  "\<exists>report hs'. execute_internal (drop_executor (calls_with False)) drop_plan [''bash''] None root_state = (Inr report, hs') \<and>
    oc_status (er_outcomes report ! 2) = SkippedDependency \<and> \<not> met drop_plan (er_outcomes report) 2"
proof -
  obtain report hs' where r: "execute_internal (drop_executor (calls_with False)) drop_plan [''bash''] None root_state = (Inr report, hs')"
    "map oc_status (er_outcomes report) = [Succeeded, FailedWarn, SkippedDependency]"
    using drop_run [of False] by auto
  have plan: "distinct (map pa_id drop_plan)" "2 < length drop_plan" by (simp_all add: drop_plan_list(1)) (simp add: drop_plan_def)
  have "oc_status (er_outcomes report ! 2) = map oc_status (er_outcomes report) ! 2"
    using arg_cong [OF r(2), of length] by simp
  then have "oc_status (er_outcomes report ! 2) = SkippedDependency" by (simp add: r(2))
  with execution_respects_dependencies [OF r(1) plan(1)] plan(2) r(1) show ?thesis by blast
qed

lemma drop_in_config: "drop_actions ! 1 \<in> set (bc_actions drop_config)" "ac_kind (drop_actions ! 1) = ProcessDropPrivileges"
  by code_simp+

theorem handoff_runs_as_target_witness:
  "\<exists>report hs'. execute_internal (drop_executor (calls_with True)) drop_plan [''bash''] None root_state = (Inr report, hs') \<and>
    er_handoff report \<noteq> None \<and> id_uid (er_identity report) = 1000 \<and>
    at_target (drop_executor (calls_with True)) (er_identity report) hs'"
proof -
  let ?x = "drop_executor (calls_with True)"
  obtain report hs' where r: "execute_internal ?x drop_plan [''bash''] None root_state = (Inr report, hs')"
    "er_identity report = drop_identity" "\<not> er_root_service report" "er_handoff report \<noteq> None"
    using drop_run [of True] by auto
  have uid: "id_uid (er_identity report) = 1000" by (simp add: r(2) drop_identity_def sample_resolved_def)
  have c: "ex_config ?x = drop_config" by (simp add: drop_executor_def)
  have "at_target ?x (er_identity report) hs'"
    using drop_plan drop_in_config
    by (intro handoff_runs_as_target [OF _ r(1,4,3), of "drop_actions ! 1"]) (simp_all add: c uid)
  with r uid show ?thesis by blast
qed

lemma exec_despite_skipped_handoff:
  assumes "execute x plan command hs = (Inr report, hs')" "er_handoff report = None" "\<not> er_root_service report"
    and "from_config (bc_handoff (ex_config x)) command = Inr h"
  shows "execute_and_handoff x plan command hs = (Inr (exec_with_identity h (Some (er_identity report))), hs')"
  using assms by (simp add: execute_and_handoff_def build_handoff_command_def ebind_def)

text \<open>
  C30. \<open>execute_and_handoff\<close> does not ask whether the handoff action was reached: when no handoff
  was prepared, it builds the command again and replaces the process with it, in whatever state
  the actions left. A valid configuration shows it: its privilege drop has the policy \<open>warn\<close> and
  fails at \<open>setuid\<close>, its handoff is skipped for that dependency, and the command still runs, as
  root, with the target's \<open>HOME\<close> and \<open>USER\<close>.
\<close>

theorem handoff_not_gated_by_drop:
  "\<exists>report hs' image. execute (drop_executor (calls_with False)) drop_plan [''bash''] root_state = (Inr report, hs') \<and>
    map oc_kind (er_outcomes report) = [IdentityResolve, ProcessDropPrivileges, HandoffExec] \<and>
    map oc_status (er_outcomes report) = [Succeeded, FailedWarn, SkippedDependency] \<and>
    execute_and_handoff (drop_executor (calls_with False)) drop_plan [''bash''] root_state = (Inr image, hs') \<and>
    argv (ei_command image) = [''/bin/runtime'', ''bash''] \<and> (''USER'', id_user (er_identity report)) \<in> set (ei_environment image) \<and>
    id_uid (er_identity report) = 1000 \<and> cr_euid (hs_creds hs') = 0"
proof -
  let ?x = "drop_executor (calls_with False)" and ?hs' = "root_state\<lparr>hs_runs := 1, hs_creds := creds_after False\<rparr>"
  let ?h = "\<lparr>hf_program = ''/bin/runtime'', hf_args = [''bash'']\<rparr>"
  have c: "ex_config ?x = drop_config" by (simp add: drop_executor_def)
  have plan: "validate_plan ?x drop_plan = Inr ()"
    by (simp add: validate_plan_def c drop_config_valid drop_plan fail_if_def)
  obtain report where r: "execute_internal ?x drop_plan [''bash''] None root_state = (Inr report, ?hs')"
    "er_identity report = drop_identity" "\<not> er_root_service report" "er_handoff report = None"
    "map oc_status (er_outcomes report) = [Succeeded, FailedWarn, SkippedDependency]"
    "map oc_kind (er_outcomes report) = [IdentityResolve, ProcessDropPrivileges, HandoffExec]"
    using drop_run [of False] by auto
  have run: "execute ?x drop_plan [''bash''] root_state = (Inr report, ?hs')"
    using r(1) plan by (simp add: execute_def ebind_def)
  have h: "from_config (bc_handoff (ex_config ?x)) [''bash''] = Inr ?h" unfolding c by code_simp
  have image: "argv (ei_command (exec_with_identity ?h (Some i))) = [''/bin/runtime'', ''bash'']"
    "(''USER'', id_user i) \<in> set (ei_environment (exec_with_identity ?h (Some i)))" for i
    by (simp_all add: argv_def exec_with_identity_def)
  have ids: "id_uid (er_identity report) = 1000" "cr_euid (hs_creds ?hs') = 0"
    by (simp_all add: r(2) drop_identity_def sample_resolved_def creds_after_def)
  show ?thesis
    by (intro exI conjI) (rule run r(5,6) exec_despite_skipped_handoff [OF run r(4,3) h] image ids)+
qed

text \<open>
  C29. The direct path of \<open>exec\<close> has no such gap: unless the run is for a root service, for root
  or as root, it replaces the process only after the privileges were dropped, and the process
  then holds the target's credentials.
\<close>

theorem exec_drops_before_handoff:
  assumes "exec_and_handoff x command hs = (Inr img, hs')"
  shows "\<exists>identity h. from_config (bc_handoff (ex_config x)) command = Inr h \<and>
    resolve_prevalidated (posix_in x hs) (ex_config x) (ex_context x) = Inr identity \<and>
    (is_root_service_handoff x hs command \<or> id_uid identity = 0 \<or> id_run_as_root identity \<or>
      (at_target x identity hs' \<and> img = exec_with_identity h (Some identity)))"
  using assms
  by (auto simp: exec_and_handoff_def prepare_exec_def exec_prepared_def build_handoff_command_def ebind_Inr_iff
      dest: drop_action_target split: if_splits)

theorem exec_drops_before_handoff_witness:
  "\<exists>img hs'. exec_and_handoff (drop_executor (calls_with True)) [''bash''] root_state = (Inr img, hs') \<and>
    at_target (drop_executor (calls_with True)) drop_identity hs' \<and> cr_euid (hs_creds hs') = 1000"
proof -
  let ?x = "drop_executor (calls_with True)"
  let ?h = "\<lparr>hf_program = ''/bin/runtime'', hf_args = [''bash'']\<rparr>"
  have c: "ex_config ?x = drop_config" "ex_context ?x = runtime_context_new ''/w''" by (simp_all add: drop_executor_def)
  have h: "from_config (bc_handoff (ex_config ?x)) [''bash''] = Inr ?h" unfolding c by code_simp
  have root: "\<not> is_root_service_handoff ?x root_state [''bash'']"
    unfolding is_root_service_handoff_def c by code_simp
  have target: "id_uid drop_identity \<noteq> 0" "\<not> id_run_as_root drop_identity"
    by (simp_all add: drop_identity_def sample_resolved_def)
  have "\<exists>r. drop_action ?x ''drop-privileges'' drop_identity root_state = (Inr r, root_state\<lparr>hs_creds := creds_after True\<rparr>)"
    using drop_result [of True "''drop-privileges''" 0] by simp
  then have run: "exec_and_handoff ?x [''bash''] root_state =
      (Inr (exec_with_identity ?h (Some drop_identity)), root_state\<lparr>hs_creds := creds_after True\<rparr>)"
    using drop_resolve [of "calls_with True"] h root target drop_config_valid
    by (auto simp: exec_and_handoff_def prepare_exec_def exec_prepared_def build_handoff_command_def ebind_def c)
  have "at_target ?x drop_identity (root_state\<lparr>hs_creds := creds_after True\<rparr>)"
    using exec_drops_before_handoff [OF run] drop_resolve [of "calls_with True"] root target by (auto simp: c)
  with run show ?thesis by (auto simp: creds_after_def)
qed

section \<open>An execution is counted once\<close>

definition same_runs :: "host_state \<Rightarrow> host_state \<Rightarrow> bool" where
  "same_runs hs hs' \<longleftrightarrow> hs_runs hs' = hs_runs hs"

interpretation runs: frame same_runs
  by unfold_locales (simp_all add: same_runs_def)

lemma runs_accounts:
  "keeps same_runs (map_user_action x a identity)" "keeps same_runs (set_shell_action x a user shell)"
  "keeps same_runs (drop_action x name identity)" "keeps same_runs (on_tree x operation)" "keeps same_runs (run_capability m)"
  by (auto simp: keeps_def same_runs_def map_user_action_def set_shell_action_def drop_action_def on_tree_def run_capability_def
      split: prod.splits)

lemma runs_kind: "keeps same_runs (run_kind x a identity values)"
proof -
  have ssh: "keeps same_runs (case ex_ssh x of None \<Rightarrow> efail e | Some prepare \<Rightarrow> run_capability (prepare a identity values))" for e
    by (cases "ex_ssh x") (simp_all add: runs.keeps_pure runs_accounts)
  show ?thesis unfolding run_kind_def Let_def
    by (cases "ac_kind a") (simp_all, (intro conjI impI runs.keeps_rules runs_accounts ssh)+)
qed

lemma runs_step: "keeps same_runs (execute_step x run st planned)"
proof -
  have "keeps same_runs (\<lambda>hs. let (r, hs) = execute_action x a (rx_identity run) (rx_values run) (rx_command run) hs
        in (finish_action a planned (rx_values run) st r, hs))" for a
  proof -
    have "keeps same_runs (execute_action x a (rx_identity run) (rx_values run) (rx_command run))"
      unfolding execute_action_def by (intro runs.keeps_rules runs_kind)
    then show ?thesis by (auto simp: keeps_def split: prod.splits) (metis snd_conv)
  qed
  then show ?thesis unfolding execute_step_def execute_planned_def Let_def by (intro runs.keeps_rules)
qed

lemma runs_loop: "keeps same_runs (execute_loop x run plan st)"
proof (induction plan arbitrary: st)
  case (Cons planned plan)
  from runs_step Cons show ?case unfolding execute_loop.simps by (intro runs.keeps_bind)
qed (simp add: runs.keeps_pure)

lemma execute_internal_runs:
  assumes "execute_internal x plan command identity_override hs = (result, hs')"
  shows "hs_runs hs' = Suc (hs_runs hs)"
proof -
  have "keeps same_runs (write_receipt x report)" for report
    unfolding keeps_def
  proof
    fix hs
    obtain r hs' where "write_receipt x report hs = (r, hs')" by force
    with write_receipt_state [OF this] show "same_runs hs (snd (write_receipt x report hs))" by (auto simp: same_runs_def)
  qed
  note kept = runs_loop this
  have "\<exists>rest. execute_internal x plan command identity_override = ebind count_run rest \<and> (\<forall>u. keeps same_runs (rest u))"
    unfolding execute_internal_def Let_def by (intro exI conjI allI, rule refl) (intro runs.keeps_rules kept)
  then obtain rest where rest: "execute_internal x plan command identity_override = ebind count_run rest" "\<And>u. keeps same_runs (rest u)"
    by blast
  then have "hs' = snd (rest () (hs\<lparr>hs_runs := Suc (hs_runs hs)\<rparr>))"
    using assms by (simp add: ebind_def count_run_def)
  with rest(2) show ?thesis by (simp add: keeps_def same_runs_def)
qed

section \<open>An execution keeps what is in the tree\<close>

definition tree_kept :: "host_state \<Rightarrow> host_state \<Rightarrow> bool" where
  "tree_kept hs hs' \<longleftrightarrow> same_kinds (hs_tree hs) (hs_tree hs')"

interpretation host: frame tree_kept
  by unfold_locales (simp add: tree_kept_def kinds.refl, auto simp: tree_kept_def intro: same_kinds_trans)

lemma keeps_on_tree: "(\<And>env. keeps same_kinds (operation env)) \<Longrightarrow> keeps tree_kept (on_tree x operation)"
  by (auto simp: keeps_def tree_kept_def on_tree_def split: prod.splits) (metis snd_conv)

lemma keeps_accounts:
  "keeps tree_kept (map_user_action x a identity)" "keeps tree_kept (set_shell_action x a user shell)"
  "keeps tree_kept (drop_action x name identity)"
  by (auto simp: keeps_def tree_kept_def map_user_action_def set_shell_action_def drop_action_def kinds.refl split: prod.splits)

lemmas keeps_actions = keeps_ensure_dir keeps_ensure_file keeps_ensure_symlink keeps_fs_chown keeps_fs_chmod

lemma keeps_run_kind:
  assumes "ac_kind a \<notin> {ServiceSshPrepare, CgroupV2Init}"
  shows "keeps tree_kept (run_kind x a identity values)"
  using assms unfolding run_kind_def Let_def
  by (cases "ac_kind a")
    (simp_all, (intro conjI impI host.keeps_rules keeps_on_tree keeps_actions keeps_accounts)+)

lemma keeps_execute_action:
  assumes "ac_kind a \<notin> {ServiceSshPrepare, CgroupV2Init}"
  shows "keeps tree_kept (execute_action x a identity values command)"
  unfolding execute_action_def by (intro host.keeps_rules keeps_run_kind assms)

lemma keeps_execute_step:
  assumes "\<And>a. a \<in> set (bc_actions (ex_config x)) \<Longrightarrow> ac_kind a \<notin> {ServiceSshPrepare, CgroupV2Init}"
  shows "keeps tree_kept (execute_step x run st planned)"
proof -
  have planned: "keeps tree_kept (execute_planned x run planned a st)" if "a \<in> set (bc_actions (ex_config x))" for a
  proof -
    have "keeps tree_kept (\<lambda>hs. let (r, hs) = execute_action x a (rx_identity run) (rx_values run) (rx_command run) hs
        in (finish_action a planned (rx_values run) st r, hs))"
      using keeps_execute_action [OF assms [OF that]] by (auto simp: keeps_def split: prod.splits) (metis snd_conv)
    then show ?thesis unfolding execute_planned_def Let_def by (intro host.keeps_rules)
  qed
  let ?found = "btree_get (pa_id planned) (btree_collect (map (\<lambda>a. (ac_id a, a)) (bc_actions (ex_config x))))"
  show ?thesis
  proof (cases ?found)
    case None
    then show ?thesis by (simp add: keeps_def execute_step_def Let_def ebind_def host.refl)
  next
    case (Some a)
    then have "a \<in> set (bc_actions (ex_config x))" by (auto simp: btree_get_collect dest!: map_of_SomeD)
    from planned [OF this] have "keeps tree_kept (ebind (elift (fail_if (pa_kind planned \<noteq> ac_kind a)
        (CoreInvalid (''bootstrap.plan.'' @ pa_id planned) PlanKindMismatch))) (\<lambda>_.
      if dependencies_failed planned st
      then eret (complete (outcome_of planned SkippedDependency None DependencyFailed None) st)
      else execute_planned x run planned a st))" by (intro host.keeps_rules)
    with Some show ?thesis by (simp add: keeps_def execute_step_def Let_def)
  qed
qed

lemma keeps_execute_loop:
  assumes "\<And>a. a \<in> set (bc_actions (ex_config x)) \<Longrightarrow> ac_kind a \<notin> {ServiceSshPrepare, CgroupV2Init}"
  shows "keeps tree_kept (execute_loop x run plan st)"
proof (induction plan arbitrary: st)
  case (Cons planned plan)
  from keeps_execute_step [OF assms] Cons show ?case unfolding execute_loop.simps by (intro host.keeps_bind)
qed (simp add: host.keeps_pure)

text \<open>The receipt and the temporary file beside it are the two places a report may change.\<close>

definition receipt_places :: "executor \<Rightarrow> string list set" where
  "receipt_places x = (case ex_receipt x of None \<Rightarrow> {} | Some rf \<Rightarrow> {receipt_names rf, receipt_temporary (ex_fs x) rf})"

definition kinds_except :: "string list set \<Rightarrow> file_tree \<Rightarrow> file_tree \<Rightarrow> bool" where
  "kinds_except places tree tree' \<longleftrightarrow>
     (\<forall>names n. names \<notin> places \<longrightarrow> node_at tree names = Some n \<longrightarrow> (\<exists>n'. node_at tree' names = Some n' \<and> fn_kind n' = fn_kind n))"

interpretation except: frame "kinds_except places"
  by unfold_locales (simp add: kinds_except_def, unfold kinds_except_def, metis)

lemma same_kinds_except: "same_kinds tree tree' \<Longrightarrow> kinds_except places tree tree'"
  by (simp add: same_kinds_def kinds_except_def)

lemma node_at_changes:
  "names \<noteq> place \<Longrightarrow> node_at (put_node place n tree) names = node_at tree names"
  "names \<noteq> place \<Longrightarrow> node_at (remove_node place tree) names = node_at tree names"
  by (simp_all add: node_at_def put_node_def remove_node_def update_conv' delete_conv')

lemma receipt_steps:
  assumes "temporary \<in> places" "names \<in> places"
  shows "keeps (kinds_except places) (open_receipt env temporary)" "keeps (kinds_except places) (write_temporary env temporary content)"
    "keeps (kinds_except places) (rename_receipt env temporary names)" "kinds_except places tree (remove_node temporary tree)"
proof -
  have other: "place \<in> places \<Longrightarrow> place' \<notin> places \<Longrightarrow> place' \<noteq> place" for place place' by auto
  note simps = keeps_def kinds_except_def open_receipt_def write_temporary_def rename_receipt_def rename_temporary_def
    node_at_changes other [OF assms(1)] other [OF assms(2)]
  show "keeps (kinds_except places) (open_receipt env temporary)" "keeps (kinds_except places) (write_temporary env temporary content)"
    "keeps (kinds_except places) (rename_receipt env temporary names)" "kinds_except places tree (remove_node temporary tree)"
    by (auto simp: simps split: option.splits)
qed

lemma keeps_write_report:
  assumes "receipt_names rf \<in> places" "receipt_temporary env rf \<in> places"
  shows "keeps (kinds_except places) (write_report env rf encoded)"
proof -
  note steps = receipt_steps [OF assms(2,1)]
  have "keeps (kinds_except places) (create_dir_all env ''receipt'' (rf_directory rf))"
    using keeps_create_dir_all [of env "''receipt''" "rf_directory rf"] same_kinds_except by (auto simp: keeps_def)
  moreover have "keeps (kinds_except places) (replace_receipt env rf content)" for content
    unfolding keeps_def
  proof
    fix tree
    have "keeps (kinds_except places) (try_replace env rf content)"
      unfolding try_replace_def by (intro except.keeps_bind steps(1-3))
    then have "kinds_except places tree (snd (try_replace env rf content tree))" by (simp add: keeps_def)
    then show "kinds_except places tree (snd (replace_receipt env rf content tree))"
      using steps(4) except.trans by (auto simp: replace_receipt_def Let_def split: prod.split sum.split)
  qed
  ultimately show ?thesis unfolding write_report_def by (intro except.keeps_rules)
qed

definition tree_kept_except :: "string list set \<Rightarrow> host_state \<Rightarrow> host_state \<Rightarrow> bool" where
  "tree_kept_except places hs hs' \<longleftrightarrow> kinds_except places (hs_tree hs) (hs_tree hs')"

interpretation host_except: frame "tree_kept_except places"
  by unfold_locales (simp add: tree_kept_except_def except.refl, unfold tree_kept_except_def, rule except.trans)

lemma keeps_write_receipt: "keeps (tree_kept_except (receipt_places x)) (write_receipt x report)"
proof (cases "ex_receipt x")
  case None
  then show ?thesis by (simp add: keeps_def write_receipt_def host_except.refl)
next
  case (Some rf)
  have "keeps (kinds_except (receipt_places x)) (write_report (fs_env_in x hs) rf encoded)" for hs encoded
    by (rule keeps_write_report) (simp_all add: receipt_places_def Some receipt_temporary_def fs_env_in_def)
  then show ?thesis by (auto simp: keeps_def write_receipt_def Some tree_kept_except_def split: prod.splits) (metis snd_conv)
qed

lemma keeps_execute_internal:
  assumes "\<And>a. a \<in> set (bc_actions (ex_config x)) \<Longrightarrow> ac_kind a \<notin> {ServiceSshPrepare, CgroupV2Init}"
  shows "keeps (tree_kept_except (receipt_places x)) (execute_internal x plan command identity_override)"
proof -
  have "keeps (tree_kept_except (receipt_places x)) count_run"
    by (simp add: keeps_def count_run_def tree_kept_except_def except.refl)
  moreover have "keeps (tree_kept_except (receipt_places x)) (execute_loop x run plan st)" for run st
    using keeps_execute_loop [OF assms] same_kinds_except by (auto simp: keeps_def tree_kept_def tree_kept_except_def)
  ultimately show ?thesis
    unfolding execute_internal_def Let_def by (intro host_except.keeps_rules keeps_write_receipt)
qed

text \<open>
  C28. An execution without SSH and cgroup actions, whose effects are not modelled, never removes or replaces what is in
  the file tree, whether it succeeds or fails halfway: a file keeps its content, a link its target, a directory stays a
  directory; only modes and owners of existing nodes change. The exceptions are the receipt, which is renamed over what
  is there, and its temporary file. The account files are not part of this tree: \<open>map_user\<close> and
  \<open>set_user_shell\<close> rewrite them.
\<close>

theorem execution_keeps_files:
  assumes "execute_internal x plan command identity_override hs = (result, hs')"
    and "\<forall>a \<in> set (bc_actions (ex_config x)). ac_kind a \<noteq> ServiceSshPrepare \<and> ac_kind a \<noteq> CgroupV2Init"
    and "node_at (hs_tree hs) names = Some n" "names \<notin> receipt_places x"
  shows "\<exists>n'. node_at (hs_tree hs') names = Some n' \<and> fn_kind n' = fn_kind n"
proof -
  have "keeps (tree_kept_except (receipt_places x)) (execute_internal x plan command identity_override)"
    using assms(2) by (intro keeps_execute_internal) auto
  from keeps_at [OF this assms(1)] assms(3,4) show ?thesis by (simp add: tree_kept_except_def kinds_except_def)
qed

definition file_actions :: "action list" where
  "file_actions =
     [(action_new ''resolve'' IdentityResolve (origin_image ''base''))\<lparr>ac_run_as := RunRoot\<rparr>,
      (action_new ''notes'' FilesystemEnsureFile (origin_image ''base''))
        \<lparr>ac_run_as := RunRoot, ac_path := Some ''/home/dev/notes'', ac_content := Some ''new''\<rparr>,
      action_new ''handoff'' HandoffExec (origin_image ''base'')]"

definition file_plan :: "planned_action list" where
  "file_plan = map (the \<circ> plan_action file_actions [[], [''resolve''], [''notes'', ''resolve'']]) [0, 1, 2]"

theorem execution_keeps_files_witness:
  "\<exists>n'. node_at (hs_tree (snd (execute_internal
       ((drop_executor (calls_with True))\<lparr>ex_config := drop_config\<lparr>bc_actions := file_actions\<rparr>,
          ex_receipt := Some \<lparr>rf_directory = [''run''], rf_name = ''receipt''\<rparr>, ex_report_bytes := (\<lambda>_. Some ''done'')\<rparr>)
       file_plan [''bash''] None (root_state\<lparr>hs_tree := sample_tree\<rparr>)))) [''home'', ''dev'', ''notes''] = Some n' \<and>
     fn_kind n' = Regular ''mine''"
proof -
  let ?x = "(drop_executor (calls_with True))\<lparr>ex_config := drop_config\<lparr>bc_actions := file_actions\<rparr>,
      ex_receipt := Some \<lparr>rf_directory = [''run''], rf_name = ''receipt''\<rparr>, ex_report_bytes := (\<lambda>_. Some ''done'')\<rparr>"
    and ?hs = "root_state\<lparr>hs_tree := sample_tree\<rparr>"
  obtain result hs' where run: "execute_internal ?x file_plan [''bash''] None ?hs = (result, hs')" by fastforce
  have acts: "\<forall>a \<in> set (bc_actions (ex_config ?x)). ac_kind a \<noteq> ServiceSshPrepare \<and> ac_kind a \<noteq> CgroupV2Init"
    by (simp add: file_actions_def action_new_def)
  have node: "node_at (hs_tree ?hs) [''home'', ''dev'', ''notes''] = Some (plain_node (Regular ''mine''))"
    by (simp add: sample_tree_def node_at_def)
  have place: "[''home'', ''dev'', ''notes''] \<notin> receipt_places ?x" by (simp add: receipt_places_def receipt_names_def receipt_temporary_def)
  show ?thesis using execution_keeps_files [OF run acts node place] by (simp add: run plain_node_def)
qed

end
