(* ===== verification/Init_Protocol.thy ===== *)
theory Init_Protocol
  imports Core_Executor Unix_Frame
begin

text \<open>
  The messages between the init backend and its clients and their validation
  (\<open>src/crates/container-init-protocol/src/protocol_types.rs\<close>, \<open>lib.rs\<close>, the names of
  \<open>abstract_endpoint.rs\<close>). A \<open>usize\<close> is a natural number and \<open>checked_add\<close> on it fails from \<open>2 ^ 64\<close>
  on. JSON values are of a type \<open>'v\<close>.
\<close>

section \<open>Limits\<close>

definition PROTOCOL_VERSION :: nat where "PROTOCOL_VERSION = 4"
definition MAX_REQUEST_FRAME_BYTES :: nat where "MAX_REQUEST_FRAME_BYTES = 16 * 1024 * 1024"
definition MAX_RESPONSE_FRAME_BYTES :: nat where "MAX_RESPONSE_FRAME_BYTES = 8 * 1024 * 1024"
definition MAX_ARGV_ITEMS :: nat where "MAX_ARGV_ITEMS = 512"
definition MAX_ARGV_ITEM_BYTES :: nat where "MAX_ARGV_ITEM_BYTES = 64 * 1024"
definition MAX_ARGV_TOTAL_BYTES :: nat where "MAX_ARGV_TOTAL_BYTES = 1024 * 1024"
definition MAX_RUNTIME_INPUTS :: nat where "MAX_RUNTIME_INPUTS = 128"
definition MAX_ENVIRONMENT_NAMES :: nat where "MAX_ENVIRONMENT_NAMES = 512"
definition MAX_RUNTIME_VALUE_BYTES :: nat where "MAX_RUNTIME_VALUE_BYTES = 64 * 1024"
definition MAX_RUNTIME_VALUES_TOTAL_BYTES :: nat where "MAX_RUNTIME_VALUES_TOTAL_BYTES = 512 * 1024"
definition MAX_CWD_BYTES :: nat where "MAX_CWD_BYTES = 4 * 1024"
definition MAX_PLAN_PAGE_ACTIONS :: nat where "MAX_PLAN_PAGE_ACTIONS = 256"
definition FRAME_TIMEOUT_MS :: nat where "FRAME_TIMEOUT_MS = 30000"

lemmas protocol_limits_defs =
  MAX_ARGV_ITEMS_def MAX_ARGV_ITEM_BYTES_def MAX_ARGV_TOTAL_BYTES_def MAX_RUNTIME_INPUTS_def
  MAX_ENVIRONMENT_NAMES_def MAX_RUNTIME_VALUE_BYTES_def MAX_RUNTIME_VALUES_TOTAL_BYTES_def MAX_CWD_BYTES_def

record protocol_limits =
  pl_request_frame_bytes :: nat
  pl_response_frame_bytes :: nat
  pl_argv_items :: nat
  pl_argv_item_bytes :: nat
  pl_argv_total_bytes :: nat
  pl_runtime_inputs :: nat
  pl_environment_names :: nat
  pl_runtime_value_bytes :: nat
  pl_runtime_values_total_bytes :: nat
  pl_cwd_bytes :: nat
  pl_plan_page_actions :: nat
  pl_supplementary_groups :: nat
  pl_frame_timeout_ms :: nat

text \<open>\<open>platform_limit\<close> is the answer of \<open>sysconf(_SC_NGROUPS_MAX)\<close>.\<close>

definition max_supplementary_groups :: "int \<Rightarrow> nat" where
  "max_supplementary_groups platform_limit =
     (if 0 < platform_limit then min (nat platform_limit) 65536 else 65536)"

definition limits_current :: "int \<Rightarrow> protocol_limits" where
  "limits_current platform_limit =
     \<lparr>pl_request_frame_bytes = MAX_REQUEST_FRAME_BYTES, pl_response_frame_bytes = MAX_RESPONSE_FRAME_BYTES,
      pl_argv_items = MAX_ARGV_ITEMS, pl_argv_item_bytes = MAX_ARGV_ITEM_BYTES,
      pl_argv_total_bytes = MAX_ARGV_TOTAL_BYTES, pl_runtime_inputs = MAX_RUNTIME_INPUTS,
      pl_environment_names = MAX_ENVIRONMENT_NAMES, pl_runtime_value_bytes = MAX_RUNTIME_VALUE_BYTES,
      pl_runtime_values_total_bytes = MAX_RUNTIME_VALUES_TOTAL_BYTES, pl_cwd_bytes = MAX_CWD_BYTES,
      pl_plan_page_actions = MAX_PLAN_PAGE_ACTIONS,
      pl_supplementary_groups = max_supplementary_groups platform_limit, pl_frame_timeout_ms = FRAME_TIMEOUT_MS\<rparr>"

section \<open>Messages\<close>

datatype backend_state = Starting | BackendReady | BackendFailed | Stopping

datatype identity_request = RequestPeer u32 u32 | RequestRoot | RequestUser string

datatype client_request =
    Hello
  | PrepareExec "string list" string "(string, string) btree_map" "(string, string) btree_map" u64
  | CommitExec string
  | AbortExec string
  | GetExecResult string
  | PrepareIdentity string "(string, string) btree_map" "(string, string) btree_map" identity_request
  | Status
  | PlanRequest "string option" nat
  | Doctor

record client_message =
  cm_version :: nat
  cm_request :: client_request

record cwd_object =
  co_device :: u64
  co_inode :: u64

record prepared_handoff =
  ph_prepare_id :: string
  ph_snapshot_id :: string
  ph_command :: handoff_command
  ph_cwd :: string
  ph_cwd_object :: cwd_object
  ph_login_environment :: "(string, string) btree_map"
  ph_identity :: resolved_identity
  ph_supplemental_groups :: "u32 list"
  ph_root_service :: bool

record prepared_identity =
  pd_uid :: u32
  pd_gid :: u32
  pd_user :: string
  pd_home :: string
  pd_supplemental_groups :: "u32 list"
  pd_run_as_root :: bool

record peer_credentials =
  pc_pid :: u32
  pc_uid :: u32
  pc_gid :: u32

record receipt_summary =
  rs_succeeded :: bool
  rs_action_count :: nat
  rs_warning_count :: nat

datatype exec_transaction_state =
  TxPrepared | TxCommitting | TxCommitted | TxAborted | TxFailed | TxOutcomeUnknown

section \<open>Errors\<close>

datatype frame_message =
    BudgetOutOfRange
  | IdentityUserInvalid
  | SnapshotIdInvalid
  | PrepareIdInvalid
  | ArgumentNul nat
  | RuntimeNameInvalid string
  | FrameEmpty
  | FrameLengthExceedsU32
  | CallerGroupsExceed

text \<open>
  \<open>ProtocolJson e\<close> is the \<open>InvalidFrame\<close> whose message is the text of the JSON error \<open>e\<close>; the model keeps the error in
  place of its text.
\<close>

datatype 'j protocol_error =
    ProtocolIo io_error
  | ProtocolJson 'j
  | InvalidFrame frame_message
  | UnsupportedVersion nat
  | FrameTooLarge nat nat
  | LimitExceeded string string nat nat
  | IncompatibleLimits

fun map_frame_error :: "'j frame_error \<Rightarrow> 'j protocol_error" where
  "map_frame_error (Io e) = ProtocolIo e"
| "map_frame_error (Json e) = ProtocolJson e"
| "map_frame_error EmptyFrame = InvalidFrame FrameEmpty"
| "map_frame_error (TooLarge len limit) = FrameTooLarge len limit"
| "map_frame_error (LengthOverflow _) = InvalidFrame FrameLengthExceedsU32"

definition read_message_with_limit ::
  "('m, 'j) deserializer \<Rightarrow> bytes \<Rightarrow> nat \<Rightarrow> ('j protocol_error, 'm \<times> bytes) result" where
  "read_message_with_limit de reader limit = map_err map_frame_error (read_json_frame de reader limit)"

definition read_message :: "('m, 'j) deserializer \<Rightarrow> bytes \<Rightarrow> ('j protocol_error, 'm \<times> bytes) result" where
  "read_message de reader = read_message_with_limit de reader MAX_REQUEST_FRAME_BYTES"

definition write_message ::
  "('m, 'j) serializer \<Rightarrow> 'w writer_ops \<Rightarrow> 'w \<Rightarrow> 'm \<Rightarrow> ('j protocol_error, 'w) result" where
  "write_message ser ops writer message =
     map_err map_frame_error (write_json_frame ser ops writer message MAX_RESPONSE_FRAME_BYTES)"

section \<open>Validation\<close>

definition usize_add :: "'e \<Rightarrow> nat \<Rightarrow> nat \<Rightarrow> ('e, nat) result" where
  "usize_add e a b = (if a + b < 2 ^ 64 then Inr (a + b) else Inl e)"

definition USIZE_MAX :: nat where "USIZE_MAX = 2 ^ 64 - 1"

definition add_argument ::
  "nat \<Rightarrow> nat \<times> string \<Rightarrow> ('j protocol_error, nat) result" where
  "add_argument so_far numbered =
     (let (index, argument) = numbered in
      rbind (fail_if (has_char argument nul) (InvalidFrame (ArgumentNul index))) (\<lambda>_.
      rbind (fail_if (MAX_ARGV_ITEM_BYTES < length argument)
        (LimitExceeded ''argument_too_large'' (''argv['' @ to_decimal index @ '']'') (length argument) MAX_ARGV_ITEM_BYTES)) (\<lambda>_.
      usize_add (LimitExceeded ''argv_too_large'' ''argv.total_bytes'' USIZE_MAX MAX_ARGV_TOTAL_BYTES)
        so_far (length argument))))"

definition validate_argv :: "string list \<Rightarrow> ('j protocol_error, unit) result" where
  "validate_argv args =
     rbind (fail_if (MAX_ARGV_ITEMS < length args)
       (LimitExceeded ''argv_too_large'' ''argv.items'' (length args) MAX_ARGV_ITEMS)) (\<lambda>_.
     rbind (fold_result add_argument 0 (enumerate 0 args)) (\<lambda>sum_bytes.
     fail_if (MAX_ARGV_TOTAL_BYTES < sum_bytes)
       (LimitExceeded ''argv_too_large'' ''argv.total_bytes'' sum_bytes MAX_ARGV_TOTAL_BYTES)))"

definition runtime_name_ok :: "string \<Rightarrow> bool" where
  "runtime_name_ok name \<longleftrightarrow> name \<noteq> [] \<and> length name \<le> 256 \<and>
     list_all (\<lambda>c. is_ascii_alphanumeric c \<or> c = CHR ''_'' \<or> c = CHR ''.'') name"

definition add_runtime_value :: "nat \<Rightarrow> string \<times> string \<Rightarrow> ('j protocol_error, nat) result" where
  "add_runtime_value value_bytes entry =
     (let (name, value) = entry;
          overflow = LimitExceeded ''request_too_large'' ''runtime_values.total_bytes'' USIZE_MAX
            MAX_RUNTIME_VALUES_TOTAL_BYTES in
      rbind (fail_if (\<not> runtime_name_ok name) (InvalidFrame (RuntimeNameInvalid name))) (\<lambda>_.
      rbind (fail_if (MAX_RUNTIME_VALUE_BYTES < length value)
        (LimitExceeded ''argument_too_large'' (''runtime_values.'' @ name) (length value) MAX_RUNTIME_VALUE_BYTES)) (\<lambda>_.
      rbind (usize_add overflow value_bytes (length name)) (\<lambda>size.
      usize_add overflow size (length value)))))"

definition validate_runtime_values ::
  "(string, string) btree_map \<Rightarrow> (string, string) btree_map \<Rightarrow> ('j protocol_error, unit) result" where
  "validate_runtime_values inputs environment =
     rbind (fail_if (MAX_RUNTIME_INPUTS < length inputs)
       (LimitExceeded ''request_too_large'' ''inputs.items'' (length inputs) MAX_RUNTIME_INPUTS)) (\<lambda>_.
     rbind (fail_if (MAX_ENVIRONMENT_NAMES < length environment)
       (LimitExceeded ''request_too_large'' ''environment.items'' (length environment) MAX_ENVIRONMENT_NAMES)) (\<lambda>_.
     rbind (fold_result add_runtime_value 0 (inputs @ environment)) (\<lambda>value_bytes.
     fail_if (MAX_RUNTIME_VALUES_TOTAL_BYTES < value_bytes)
       (LimitExceeded ''request_too_large'' ''runtime_values.total_bytes'' value_bytes
         MAX_RUNTIME_VALUES_TOTAL_BYTES))))"

record request_validation =
  rv_argv :: "string list option"
  rv_cwd :: "string option"
  rv_inputs :: "(string, string) btree_map option"
  rv_environment :: "(string, string) btree_map option"

definition identity_user_ok :: "string \<Rightarrow> bool" where
  "identity_user_ok name \<longleftrightarrow> name \<noteq> [] \<and> length name \<le> 32 \<and>
     list_all (\<lambda>c. is_ascii_alphanumeric c \<or> c = CHR ''_'' \<or> c = CHR ''-'') name"

fun request_fields :: "client_request \<Rightarrow> ('j protocol_error, request_validation) result" where
  "request_fields (PrepareExec args cwd inputs environment request_budget_ms) =
     rbind (fail_if (request_budget_ms = 0 \<or> 300000 < request_budget_ms) (InvalidFrame BudgetOutOfRange)) (\<lambda>_.
     Inr \<lparr>rv_argv = Some args, rv_cwd = Some cwd, rv_inputs = Some inputs, rv_environment = Some environment\<rparr>)"
| "request_fields (PrepareIdentity cwd inputs environment requested) =
     rbind (case requested of
              RequestUser name \<Rightarrow> fail_if (\<not> identity_user_ok name) (InvalidFrame IdentityUserInvalid)
            | _ \<Rightarrow> Inr ()) (\<lambda>_.
     Inr \<lparr>rv_argv = None, rv_cwd = Some cwd, rv_inputs = Some inputs, rv_environment = Some environment\<rparr>)"
| "request_fields (PlanRequest snapshot_id _) =
     rbind (fail_if (is_some_and (\<lambda>s. s = [] \<or> 128 < length s) snapshot_id) (InvalidFrame SnapshotIdInvalid)) (\<lambda>_.
     Inr \<lparr>rv_argv = None, rv_cwd = None, rv_inputs = None, rv_environment = None\<rparr>)"
| "request_fields _ = Inr \<lparr>rv_argv = None, rv_cwd = None, rv_inputs = None, rv_environment = None\<rparr>"

fun request_prepare_id :: "client_request \<Rightarrow> string option" where
  "request_prepare_id (CommitExec prepare_id) = Some prepare_id"
| "request_prepare_id (AbortExec prepare_id) = Some prepare_id"
| "request_prepare_id (GetExecResult prepare_id) = Some prepare_id"
| "request_prepare_id _ = None"

definition is_ascii_hexdigit :: "char \<Rightarrow> bool" where
  "is_ascii_hexdigit c \<longleftrightarrow> c \<in> set ''0123456789abcdefABCDEF''"

definition prepare_id_ok :: "string \<Rightarrow> bool" where
  "prepare_id_ok prepare_id \<longleftrightarrow> prepare_id \<noteq> [] \<and> length prepare_id \<le> 128 \<and> list_all is_ascii_hexdigit prepare_id"

definition validate_message :: "client_message \<Rightarrow> ('j protocol_error, unit) result" where
  "validate_message message =
     rbind (fail_if (cm_version message \<noteq> PROTOCOL_VERSION) (UnsupportedVersion (cm_version message))) (\<lambda>_.
     rbind (request_fields (cm_request message)) (\<lambda>fields.
     rbind (when_some (rv_cwd fields) (\<lambda>cwd. fail_if (MAX_CWD_BYTES < length cwd)
       (LimitExceeded ''argument_too_large'' ''cwd'' (length cwd) MAX_CWD_BYTES))) (\<lambda>_.
     rbind (fail_if (is_some_and (\<lambda>prepare_id. \<not> prepare_id_ok prepare_id) (request_prepare_id (cm_request message)))
       (InvalidFrame PrepareIdInvalid)) (\<lambda>_.
     rbind (when_some (rv_argv fields) validate_argv) (\<lambda>_.
     case (rv_inputs fields, rv_environment fields) of
       (Some inputs, Some environment) \<Rightarrow> validate_runtime_values inputs environment
     | _ \<Rightarrow> Inr ())))))"

section \<open>Endpoint names\<close>

text \<open>The length of \<open>sun_path\<close> on Linux.\<close>

definition SUN_PATH_BYTES :: nat where "SUN_PATH_BYTES = 108"

datatype endpoint_error = NameEmpty | NameNul | NameTooLong | DisplayWithoutAt

definition validate_name :: "string \<Rightarrow> (endpoint_error, unit) result" where
  "validate_name name =
     rbind (fail_if (name = []) NameEmpty) (\<lambda>_.
     rbind (fail_if (has_char name nul) NameNul) (\<lambda>_.
     fail_if (SUN_PATH_BYTES < length name + 1) NameTooLong))"

definition endpoint_new :: "string \<Rightarrow> (endpoint_error, string) result" where
  "endpoint_new name = rbind (validate_name name) (\<lambda>_. Inr name)"

definition endpoint_display :: "string \<Rightarrow> string" where
  "endpoint_display name = ''@'' @ name"

definition from_display :: "string \<Rightarrow> (endpoint_error, string) result" where
  "from_display shown = rbind (ok_or DisplayWithoutAt (strip_prefix ''@'' shown)) endpoint_new"


section \<open>What validation accepts\<close>

text \<open>A loop that adds sizes up and never leaves \<open>usize\<close>.\<close>

lemma usize_add_Inr [simp]: "usize_add e a b = Inr c \<longleftrightarrow> a + b < 2 ^ 64 \<and> c = a + b"
  by (auto simp: usize_add_def)

lemma fold_sizes_Inr:
  assumes "\<And>s x s'. f s x = Inr s' \<longleftrightarrow> ok x \<and> s + size_of x < 2 ^ 64 \<and> s' = s + (size_of x :: nat)"
    and "\<And>x. x \<in> set xs \<Longrightarrow> ok x \<Longrightarrow> size_of x \<le> bound" and "start + length xs * bound < 2 ^ 64"
  shows "fold_result f start xs = Inr t \<longleftrightarrow> list_all ok xs \<and> t = start + sum_list (map size_of xs)"
  using assms(2,3)
proof (induction xs arbitrary: start)
  case (Cons x xs)
  show ?case
  proof (cases "ok x")
    case True
    with Cons.prems have small: "start + size_of x + length xs * bound < 2 ^ 64" by fastforce
    then have "f start x = Inr (start + size_of x)" using assms(1) True by simp
    then show ?thesis using Cons.IH [of "start + size_of x"] Cons.prems(1) small True by (auto simp: add.assoc)
  next
    case False
    then have "\<And>s'. f start x \<noteq> Inr s'" using assms(1) by blast
    then show ?thesis using False by (auto simp: rbind_Inr_iff)
  qed
qed auto

definition argument_ok :: "string \<Rightarrow> bool" where
  "argument_ok argument \<longleftrightarrow> \<not> has_char argument nul \<and> length argument \<le> MAX_ARGV_ITEM_BYTES"

lemma validate_argv_iff:
  "validate_argv args = Inr () \<longleftrightarrow> length args \<le> MAX_ARGV_ITEMS \<and> list_all argument_ok args \<and>
     sum_list (map length args) \<le> MAX_ARGV_TOTAL_BYTES"
proof (cases "length args \<le> MAX_ARGV_ITEMS")
  case True
  have "fold_result add_argument 0 (enumerate 0 args) = (Inr t :: ('j protocol_error, _) result) \<longleftrightarrow>
      list_all (argument_ok \<circ> snd) (enumerate 0 args) \<and> t = 0 + sum_list (map (length \<circ> snd) (enumerate 0 args))" for t
  proof (rule fold_sizes_Inr [where bound = MAX_ARGV_ITEM_BYTES])
    show "0 + length (enumerate 0 args) * MAX_ARGV_ITEM_BYTES < 2 ^ 64"
      using True by (simp add: protocol_limits_defs)
  qed (auto simp: add_argument_def argument_ok_def rbind_Inr_iff fail_if_Inr_iff not_less split: prod.splits)
  then have loop: "fold_result add_argument 0 (enumerate 0 args) = (Inr t :: ('j protocol_error, _) result) \<longleftrightarrow>
      list_all argument_ok args \<and> t = sum_list (map length args)" for t
    by (simp add: list.pred_map [symmetric] del: map_map) (simp flip: map_map)
  show ?thesis using True by (auto simp: validate_argv_def rbind_Inr_iff fail_if_Inr_iff loop not_less)
qed (simp add: validate_argv_def rbind_Inr_iff fail_if_Inr_iff)

definition entry_size :: "string \<times> string \<Rightarrow> nat" where
  "entry_size entry = length (fst entry) + length (snd entry)"

definition runtime_entry_ok :: "string \<times> string \<Rightarrow> bool" where
  "runtime_entry_ok entry \<longleftrightarrow> runtime_name_ok (fst entry) \<and> length (snd entry) \<le> MAX_RUNTIME_VALUE_BYTES"

lemma validate_runtime_values_iff:
  "validate_runtime_values inputs environment = Inr () \<longleftrightarrow>
     length inputs \<le> MAX_RUNTIME_INPUTS \<and> length environment \<le> MAX_ENVIRONMENT_NAMES \<and>
     list_all runtime_entry_ok (inputs @ environment) \<and>
     sum_list (map entry_size (inputs @ environment)) \<le> MAX_RUNTIME_VALUES_TOTAL_BYTES"
proof (cases "length inputs \<le> MAX_RUNTIME_INPUTS \<and> length environment \<le> MAX_ENVIRONMENT_NAMES")
  case True
  have "fold_result add_runtime_value 0 (inputs @ environment) = (Inr t :: ('j protocol_error, _) result) \<longleftrightarrow>
      list_all runtime_entry_ok (inputs @ environment) \<and> t = 0 + sum_list (map entry_size (inputs @ environment))" for t
  proof (rule fold_sizes_Inr [where bound = "256 + MAX_RUNTIME_VALUE_BYTES"])
    show "0 + length (inputs @ environment) * (256 + MAX_RUNTIME_VALUE_BYTES) < 2 ^ 64"
      using True by (simp add: protocol_limits_defs)
  qed (auto simp: add_runtime_value_def runtime_entry_ok_def entry_size_def runtime_name_ok_def
      rbind_Inr_iff fail_if_Inr_iff not_less Let_def split: prod.splits)
  note loop = this
  show ?thesis using True
    by (auto simp: validate_runtime_values_def rbind_Inr_iff fail_if_Inr_iff not_less loop
        simp del: list_all_append map_append sum_list_append)
qed (auto simp: validate_runtime_values_def rbind_Inr_iff fail_if_Inr_iff not_le)

text \<open>The requests that a server accepts, said without the order of the checks.\<close>

definition values_ok :: "(string, string) btree_map \<Rightarrow> (string, string) btree_map \<Rightarrow> bool" where
  "values_ok inputs environment \<longleftrightarrow>
     length inputs \<le> 128 \<and> length environment \<le> 512 \<and>
     (\<forall>(name, value) \<in> set (inputs @ environment). runtime_name_ok name \<and> length value \<le> 65536) \<and>
     sum_list (map entry_size (inputs @ environment)) \<le> 524288"

fun request_ok :: "client_request \<Rightarrow> bool" where
  "request_ok (PrepareExec args cwd inputs environment budget) \<longleftrightarrow>
     1 \<le> budget \<and> budget \<le> 300000 \<and> length cwd \<le> 4096 \<and>
     length args \<le> 512 \<and> (\<forall>argument \<in> set args. nul \<notin> set argument \<and> length argument \<le> 65536) \<and>
     sum_list (map length args) \<le> 1048576 \<and> values_ok inputs environment"
| "request_ok (PrepareIdentity cwd inputs environment requested) \<longleftrightarrow>
     (\<forall>name. requested = RequestUser name \<longrightarrow> identity_user_ok name) \<and> length cwd \<le> 4096 \<and> values_ok inputs environment"
| "request_ok (PlanRequest snapshot_id _) \<longleftrightarrow> (\<forall>s. snapshot_id = Some s \<longrightarrow> 1 \<le> length s \<and> length s \<le> 128)"
| "request_ok (CommitExec prepare_id) \<longleftrightarrow> prepare_id_ok prepare_id"
| "request_ok (AbortExec prepare_id) \<longleftrightarrow> prepare_id_ok prepare_id"
| "request_ok (GetExecResult prepare_id) \<longleftrightarrow> prepare_id_ok prepare_id"
| "request_ok _ \<longleftrightarrow> True"

lemma values_ok_iff: "validate_runtime_values inputs environment = Inr () \<longleftrightarrow> values_ok inputs environment"
  by (auto simp: validate_runtime_values_iff values_ok_def runtime_entry_ok_def list_all_iff protocol_limits_defs
      case_prod_beta)

lemma argv_ok_iff:
  "validate_argv args = Inr () \<longleftrightarrow> length args \<le> 512 \<and>
     (\<forall>argument \<in> set args. nul \<notin> set argument \<and> length argument \<le> 65536) \<and> sum_list (map length args) \<le> 1048576"
  by (auto simp: validate_argv_iff argument_ok_def list_all_iff protocol_limits_defs)

text \<open>
  C25. Validation accepts exactly the requests within the published limits. The sums of sizes it
  computes never leave \<open>usize\<close>, so no request is refused for an overflow.
\<close>

theorem validate_message_exact:
  "validate_message message = Inr () \<longleftrightarrow> cm_version message = 4 \<and> request_ok (cm_request message)"
proof -
  have budget: "budget \<noteq> 0 \<longleftrightarrow> 1 \<le> budget" for budget :: u64 using word_gt_0 [of budget] by (metis inc_le add_0 linorder_not_less word_less_1)
  show ?thesis
    by (cases "cm_request message")
      (auto simp: validate_message_def rbind_Inr_iff fail_if_Inr_iff when_some_Inr_iff values_ok_iff argv_ok_iff
        PROTOCOL_VERSION_def is_some_and_def not_less Suc_le_eq MAX_CWD_BYTES_def budget split: identity_request.splits option.splits)
qed

end
