(* ===== verification/Backend_Runtime.thy ===== *)
theory Backend_Runtime
  imports Init_Protocol
begin

text \<open>
  The state of the init backend (\<open>src/crates/container-init-backend/src/server/runtime.rs\<close>, the
  transactions of \<open>transaction.rs\<close>), the configurations it derives from a profile, and the pages of a plan
  (\<open>inspection.rs\<close>). A \<open>HashMap\<close> is kept as a sorted list; nothing depends on its order. Instants
  and durations are in nanoseconds.
\<close>

unbundle bit_operations_syntax

section \<open>Errors\<close>

datatype backend_message =
    DeadlineInvalid
  | NotReady
  | UndeclaredInput
  | UnusedEnvironment
  | ValueNul
  | CwdUnresolved
  | RootServiceNeedsRoot
  | OnlyOwnIdentity
  | GroupsUnavailable
  | PeerGroupsUnverified
  | OnlyOwnGroups
  | HandoffLimit string nat nat
  | HandoffInvalid frame_message
  | SnapshotCommandInvalid
  | PrepareIdUnavailable
  | PrepareExpired
  | CapacityExhausted
  | TransactionUnknown
  | TransactionForeign
  | TransactionSnapshot
  | TransactionDisappeared
  | IdentityNotReconciled
  | InputNotDeclared
  | InputTargetTwice
  | InputValueInvalid
  | OnlyObservedIdentity
  | OnlyRootMayName
  | RootPeerNotAllowed
  | NameNotAllowed
  | InvalidCursor
  | PageUnserializable
  | PlanActionTooLarge string nat
  | HelloRequired
  | HelloThenPrepare
  | VersionText nat
  | FrameSizeText nat nat
  | LimitText string nat nat
  | ProtocolText frame_message
  | ResponseTooLarge
  | FrameLengthZero
  | FrameOverMaximum
  | BodyReadersFull
  | FrameDeadline
  | JsonText
  | StillStarting
  | InputNotEnabled
  | RequestPlanFailed
  | AbortedBeforeCommit

record backend_error =
  be_class :: string
  be_retryable :: bool
  be_message :: backend_message
  be_action_id :: "string option"
  be_path :: "string option"

definition backend_err :: "string \<Rightarrow> bool \<Rightarrow> backend_message \<Rightarrow> backend_error" where
  "backend_err cls retryable message =
     \<lparr>be_class = cls, be_retryable = retryable, be_message = message, be_action_id = None, be_path = None\<rparr>"

datatype error_class = ClassConfiguration | ClassTrust | ClassIdentity | ClassAction

text \<open>\<open>CoreError::class\<close>; a panic ends the process and has no class.\<close>

fun core_error_class :: "core_error \<Rightarrow> error_class option" where
  "core_error_class (CoreModel _) = Some ClassConfiguration"
| "core_error_class (CoreInvalid _ _) = Some ClassConfiguration"
| "core_error_class (CoreIdentity _) = Some ClassIdentity"
| "core_error_class (CorePermission _ _) = Some ClassTrust"
| "core_error_class (CoreAction _ _ _) = Some ClassAction"
| "core_error_class (CoreIo _ _ _) = Some ClassAction"
| "core_error_class CoreReceipt = Some ClassAction"
| "core_error_class CorePanic = None"
| "core_error_class (CoreAnnotated _ _ source) = core_error_class source"

fun class_text :: "error_class option \<Rightarrow> string" where
  "class_text (Some ClassConfiguration) = ''configuration''"
| "class_text (Some ClassTrust) = ''trust''"
| "class_text (Some ClassIdentity) = ''identity''"
| "class_text (Some ClassAction) = ''action''"
| "class_text None = ''panic''"

definition runtime_error_core :: "core_error \<Rightarrow> backend_error" where
  "runtime_error_core e = backend_err (class_text (core_error_class e)) False IdentityNotReconciled"

section \<open>State\<close>

datatype transaction_state_data =
    Prepared runtime_context resolved_identity
  | Committing
  | Committed receipt_summary
  | Aborted
  | Failed backend_error

record exec_transaction =
  et_owner_uid :: u32
  et_owner_gid :: u32
  et_snapshot_id :: string
  et_deadline :: nat
  et_state :: transaction_state_data

record backend_status =
  st_state :: backend_state
  st_profile :: string
  st_snapshot_id :: string
  st_backend_pid :: u32
  st_initial_child_pid :: "u32 option"
  st_started_unix_seconds :: u64
  st_active_connections :: nat

record allowed_client_values =
  av_runtime_inputs :: "string list"
  av_environment_names :: "string list"

record backend_runtime =
  rt_profile :: string
  rt_snapshot_id :: string
  rt_config :: bootstrap_config
  rt_plan :: "planned_action list"
  rt_request_config :: bootstrap_config
  rt_request_plan :: "planned_action list"
  rt_startup_identity :: resolved_identity
  rt_allowed :: allowed_client_values
  rt_transactions :: "(string, exec_transaction) btree_map"
  rt_status :: backend_status
  rt_active_connections :: nat

definition runtime_status :: "backend_runtime \<Rightarrow> backend_status" where
  "runtime_status rt = (rt_status rt)\<lparr>st_active_connections := rt_active_connections rt\<rparr>"

definition set_active_connections :: "nat \<Rightarrow> backend_runtime \<Rightarrow> backend_runtime" where
  "set_active_connections count rt = rt\<lparr>rt_active_connections := count\<rparr>"

definition mark_stopping :: "backend_runtime \<Rightarrow> backend_runtime" where
  "mark_stopping rt = rt\<lparr>rt_status := (rt_status rt)\<lparr>st_state := Stopping\<rparr>\<rparr>"

section \<open>Derived configurations\<close>

definition trim_dependencies :: "action list \<Rightarrow> action list" where
  "trim_dependencies actions =
     map (\<lambda>a. a\<lparr>ac_depends_on := filter (\<lambda>dependency. dependency \<in> set (map ac_id actions)) (ac_depends_on a)\<rparr>) actions"

definition startup_config :: "bootstrap_config \<Rightarrow> bootstrap_config" where
  "startup_config config =
     config\<lparr>bc_actions := trim_dependencies (filter (\<lambda>a. \<not> is_workspace (or_source (ac_origin a)) \<and>
       ac_kind a \<notin> {ProcessDropPrivileges, HandoffExec}) (bc_actions config))\<rparr>"

definition identity_kinds :: "action_kind set" where
  "identity_kinds = {IdentityResolve, IdentityMapUser, IdentityEnsureHome, ProcessSetUserShell}"

definition request_config :: "bootstrap_config \<Rightarrow> bootstrap_config" where
  "request_config config =
     config\<lparr>bc_actions := trim_dependencies (filter (\<lambda>a. is_workspace (or_source (ac_origin a)) \<or>
       ac_kind a \<in> identity_kinds) (bc_actions config))\<rparr>"

fun reference_environment :: "condition_value \<Rightarrow> string list" where
  "reference_environment (Reference reference) =
     (case strip_prefix ''env.'' reference of Some name \<Rightarrow> [name] | None \<Rightarrow> [])"
| "reference_environment _ = []"

fun collect_environment_names :: "condition \<Rightarrow> string list \<Rightarrow> string list" where
  "collect_environment_names (CEqual l r) names =
     fold set_insert (reference_environment l @ reference_environment r) names"
| "collect_environment_names (CNotEqual l r) names =
     fold set_insert (reference_environment l @ reference_environment r) names"
| "collect_environment_names (CAnd parts) names = fold collect_environment_names parts names"
| "collect_environment_names (COr parts) names = fold collect_environment_names parts names"
| "collect_environment_names (CNot part) names = collect_environment_names part names"
| "collect_environment_names _ names = names"

definition declared_runtime_inputs :: "bootstrap_config \<Rightarrow> string list" where
  "declared_runtime_inputs config =
     fold (\<lambda>(name, input) names. if in_runtime input then fold set_insert (name # in_aliases input) names else names)
       (bc_inputs config) []"

definition allowed_client_values :: "bootstrap_config \<Rightarrow> (core_error, allowed_client_values) result" where
  "allowed_client_values config =
     (let runtime_inputs = declared_runtime_inputs config in
      rbind (fold_result (\<lambda>names a. if ac_kind a \<in> identity_kinds
          then rbind (map_err CoreModel (action_condition a)) (\<lambda>condition. Inr (collect_environment_names condition names))
          else Inr names) runtime_inputs (bc_actions config)) (\<lambda>environment_names.
      Inr \<lparr>av_runtime_inputs = runtime_inputs, av_environment_names = environment_names\<rparr>))"

section \<open>The snapshot id\<close>

definition fnv1a :: "u8 list \<Rightarrow> u64" where
  "fnv1a bytes = fold (\<lambda>byte hash. (hash XOR ucast byte) * 0x100000001b3) bytes 0xcbf29ce484222325"

definition hex_digit :: "nat \<Rightarrow> char" where
  "hex_digit n = ''0123456789abcdef'' ! n"

definition hex_text :: "nat \<Rightarrow> nat \<Rightarrow> string" where
  "hex_text digits n = map (\<lambda>k. hex_digit (n div 16 ^ k mod 16)) (rev [0..<digits])"

text \<open>\<open>serialized\<close> is the JSON text of profile, configuration and plan.\<close>

definition calculate_snapshot_id :: "u8 list option \<Rightarrow> (core_error, string) result" where
  "calculate_snapshot_id serialized =
     (case serialized of None \<Rightarrow> Inl CoreReceipt | Some bytes \<Rightarrow> Inr (hex_text 16 (unat (fnv1a bytes))))"

section \<open>Plan pages\<close>

record 'v plan_page =
  pp_online :: bool
  pp_profile :: string
  pp_snapshot_id :: string
  pp_offset :: nat
  pp_next_offset :: "nat option"
  pp_total_actions :: nat
  pp_actions :: "'v list"

text \<open>\<open>serde_json\<close>: the value of an action, the lengths of the texts of an action and of a whole response.\<close>

record 'v page_json =
  pj_value :: "planned_action \<Rightarrow> 'v option"
  pj_action_bytes :: "planned_action \<Rightarrow> nat option"
  pj_page_bytes :: "'v plan_page \<Rightarrow> nat option"

definition make_page :: "backend_runtime \<Rightarrow> nat \<Rightarrow> nat option \<Rightarrow> 'v list \<Rightarrow> 'v plan_page" where
  "make_page rt offset next actions =
     \<lparr>pp_online = True, pp_profile = rt_profile rt, pp_snapshot_id = rt_snapshot_id rt, pp_offset = offset,
      pp_next_offset = next, pp_total_actions = length (rt_plan rt), pp_actions = actions\<rparr>"

fun page_loop :: "'v page_json \<Rightarrow> backend_runtime \<Rightarrow> nat \<Rightarrow> nat \<Rightarrow> (backend_error, 'v plan_page) result" where
  "page_loop json rt offset 0 =
     (let a = rt_plan rt ! offset in
      Inl (backend_err ''response_too_large'' False
        (PlanActionTooLarge (pa_id a) (unwrap_or 0 (pj_action_bytes json a)))))"
| "page_loop json rt offset (Suc k) =
     (let count = Suc k; unserializable = backend_err ''internal'' False PageUnserializable in
      rbind (ok_or unserializable (those (map (pj_value json) (take count (drop offset (rt_plan rt)))))) (\<lambda>page_actions.
      let page = make_page rt offset
            (if offset + count < length (rt_plan rt) then Some (offset + count) else None) page_actions in
      rbind (ok_or unserializable (pj_page_bytes json page)) (\<lambda>bytes.
      if bytes \<le> MAX_RESPONSE_FRAME_BYTES then Inr page else page_loop json rt offset k)))"

definition plan_page_response ::
  "'v page_json \<Rightarrow> backend_runtime \<Rightarrow> string option \<Rightarrow> nat \<Rightarrow> (backend_error, 'v plan_page) result" where
  "plan_page_response json rt requested_snapshot offset =
     (let total_actions = length (rt_plan rt) in
      if total_actions < offset \<or>
         offset = 0 \<and> is_some_and (\<lambda>snapshot. snapshot \<noteq> rt_snapshot_id rt) requested_snapshot \<or>
         offset \<noteq> 0 \<and> requested_snapshot \<noteq> Some (rt_snapshot_id rt)
      then Inl (backend_err ''invalid_cursor'' False InvalidCursor)
      else
        let max_count = min (total_actions - offset) MAX_PLAN_PAGE_ACTIONS in
        if max_count = 0 then Inr (make_page rt offset None [])
        else page_loop json rt offset max_count)"

record doctor_report =
  dr_ok :: bool
  dr_profile :: string
  dr_snapshot_id :: string
  dr_backend :: backend_status
  dr_identity :: resolved_identity
  dr_runtime :: string
  dr_exists :: bool
  dr_executable :: bool

text \<open>\<open>metadata\<close> answers whether a path is a regular file and its mode.\<close>

definition is_executable :: "(string \<Rightarrow> (bool \<times> u32) option) \<Rightarrow> string \<Rightarrow> bool" where
  "is_executable metadata path =
     (case metadata path of None \<Rightarrow> False | Some (regular, mode) \<Rightarrow> regular \<and> mode AND 0x49 \<noteq> 0)"

definition doctor_response :: "(string \<Rightarrow> (bool \<times> u32) option) \<Rightarrow> backend_runtime \<Rightarrow> doctor_report" where
  "doctor_response metadata rt =
     (let runtime_path = hc_runtime (bc_handoff (rt_config rt));
          exists = is_some_and fst (metadata runtime_path);
          executable_ok = is_executable metadata runtime_path in
      \<lparr>dr_ok = exists \<and> executable_ok, dr_profile = rt_profile rt, dr_snapshot_id = rt_snapshot_id rt,
       dr_backend = runtime_status rt, dr_identity = rt_startup_identity rt, dr_runtime = runtime_path,
       dr_exists = exists, dr_executable = executable_ok\<rparr>)"

end
