(* ===== verification/Backend_Identity.thy ===== *)
theory Backend_Identity
  imports Backend_Runtime
begin

text \<open>
  Identities for requests (\<open>src/crates/container-init-backend/src/server/identity.rs\<close>): the working
  directory of a request, its inputs, the groups of a user and of a peer, and \<open>PrepareIdentity\<close>. What the
  system answers is the record \<open>backend_system\<close>; its executor has the options of the backend, and
  configuration and context of a request are put in its place.
\<close>

section \<open>The system\<close>

record opened_directory =
  od_metadata :: "(bool \<times> cwd_object) option"
  od_link :: "string option"

record backend_system =
  sy_executor :: executor
  sy_open_directory :: "string \<Rightarrow> opened_directory option"
  sy_proc_status :: "u32 \<Rightarrow> string option"
  sy_getgrouplist :: "string \<Rightarrow> u32 \<Rightarrow> nat \<Rightarrow> (int, u32 list) result"
  sy_ngroups_max :: int
  sy_urandom :: "u8 list option"

definition executor_for :: "backend_system \<Rightarrow> bootstrap_config \<Rightarrow> runtime_context \<Rightarrow> executor" where
  "executor_for sys config context = (sy_executor sys)\<lparr>ex_config := config, ex_context := context, ex_receipt := None\<rparr>"

section \<open>Working directories\<close>

datatype cwd_error = CwdNotAbsolute | CwdNul | CwdOpen | CwdMetadata | CwdNotDirectory | CwdReadlink | CwdChanged

record resolved_cwd =
  rw_canonical_path :: string
  rw_object :: cwd_object

definition resolve_cwd_object :: "backend_system \<Rightarrow> string \<Rightarrow> (cwd_error, resolved_cwd) result" where
  "resolve_cwd_object sys path =
     rbind (fail_if (\<not> is_absolute path \<or> ParentDir \<in> set (components path)) CwdNotAbsolute) (\<lambda>_.
     rbind (fail_if (has_char path nul) CwdNul) (\<lambda>_.
     rbind (ok_or CwdOpen (sy_open_directory sys path)) (\<lambda>directory.
     rbind (ok_or CwdMetadata (od_metadata directory)) (\<lambda>(is_dir, obj).
     rbind (fail_if (\<not> is_dir) CwdNotDirectory) (\<lambda>_.
     rbind (ok_or CwdReadlink (od_link directory)) (\<lambda>canonical_path.
     rbind (fail_if (\<not> is_absolute canonical_path \<or> ends_with canonical_path '' (deleted)'') CwdChanged) (\<lambda>_.
     Inr \<lparr>rw_canonical_path = canonical_path, rw_object = obj\<rparr>)))))))"

section \<open>Groups\<close>

datatype group_error =
  StatusUnreadable | StatusLacksGroups | GroupsMalformed | GroupsOverLimit | GroupUserNul | GroupListInvalid | GroupsPending

definition peer_groups :: "backend_system \<Rightarrow> u32 \<Rightarrow> u32 \<Rightarrow> (group_error, u32 list) result" where
  "peer_groups sys pid effective_gid =
     rbind (ok_or StatusUnreadable (sy_proc_status sys pid)) (\<lambda>status.
     rbind (ok_or StatusLacksGroups (find (\<lambda>line. starts_with line ''Groups:'') (lines status))) (\<lambda>line.
     fold_result (\<lambda>groups field.
       rbind (ok_or GroupsMalformed (parse_u32 field)) (\<lambda>group.
       let groups = set_insert group groups in
       rbind (fail_if (max_supplementary_groups (sy_ngroups_max sys) < length groups) GroupsOverLimit) (\<lambda>_.
       Inr groups))) [effective_gid] (drop 1 (split_whitespace line))))"

text \<open>
  The loop around \<open>getgrouplist\<close>, which answers with the groups or with the size it needs. It is
  documented to ask for more than it was given; \<open>GroupsPending\<close> stands for a loop that goes on.
\<close>

fun group_list_loop ::
  "nat \<Rightarrow> (nat \<Rightarrow> (int, u32 list) result) \<Rightarrow> nat \<Rightarrow> nat \<Rightarrow> (group_error, u32 list) result" where
  "group_list_loop 0 call group_limit count = Inl GroupsPending"
| "group_list_loop (Suc fuel) call group_limit count =
     (case call count of
        Inr groups \<Rightarrow> Inr groups
      | Inl needed \<Rightarrow>
          if needed \<le> 0 \<or> int group_limit < needed then Inl GroupListInvalid
          else group_list_loop fuel call group_limit (nat needed))"

definition supplementary_groups :: "backend_system \<Rightarrow> resolved_identity \<Rightarrow> (group_error, u32 list) result" where
  "supplementary_groups sys identity =
     (let group_limit = max_supplementary_groups (sy_ngroups_max sys) in
      rbind (fail_if (has_char (id_user identity) nul) GroupUserNul) (\<lambda>_.
      rbind (group_list_loop (group_limit + 2) (sy_getgrouplist sys (id_user identity) (id_gid identity)) group_limit
        (min group_limit 16)) (\<lambda>groups.
      let groups = sort_dedup groups;
          groups = sort (if id_gid identity \<in> set groups then groups else groups @ [id_gid identity]) in
      rbind (fail_if (group_limit < length groups) GroupsOverLimit) (\<lambda>_. Inr groups))))"

section \<open>Inputs\<close>

definition runtime_declaration :: "bootstrap_config \<Rightarrow> string \<Rightarrow> bootstrap_input option" where
  "runtime_declaration config name =
     (case core_input_declaration config (Some name) of
        Some declaration \<Rightarrow> if in_runtime declaration then Some declaration else None
      | None \<Rightarrow> None)"

definition validate_request_inputs ::
  "bootstrap_config \<Rightarrow> (string, string) btree_map \<Rightarrow> (backend_error, unit) result" where
  "validate_request_inputs config inputs =
     rbind (fold_result (\<lambda>targets (name, raw).
       rbind (ok_or (backend_err ''invalid_input'' False InputNotDeclared) (runtime_declaration config name)) (\<lambda>declaration.
       rbind (fail_if (in_target declaration \<in> set targets) (backend_err ''invalid_input'' False InputTargetTwice)) (\<lambda>_.
       rbind (map_err (\<lambda>_. backend_err ''invalid_input'' False InputValueInvalid) (parse_value declaration raw)) (\<lambda>_.
       Inr (set_insert (in_target declaration) targets))))) [] inputs) (\<lambda>_. Inr ())"

definition request_context ::
  "string \<Rightarrow> (string, string) btree_map \<Rightarrow> (string, string) btree_map \<Rightarrow> runtime_context" where
  "request_context cwd environment inputs =
     fold (\<lambda>(name, raw). with_cli_input name raw) inputs (with_environment environment (runtime_context_new cwd))"

section \<open>Requests for an identity\<close>

record identity_request_options =
  io_requested :: identity_request
  io_cwd :: string
  io_inputs :: "(string, string) btree_map"
  io_environment :: "(string, string) btree_map"

definition allowed_peer_identity :: "backend_runtime \<Rightarrow> u32 \<Rightarrow> u32 \<Rightarrow> bool" where
  "allowed_peer_identity rt uid gid \<longleftrightarrow>
     uid = id_uid (rt_startup_identity rt) \<and> gid = id_gid (rt_startup_identity rt) \<or>
     (case (ic_default_uid (bc_identity (rt_request_config rt)), ic_default_gid (bc_identity (rt_request_config rt))) of
        (Some default_uid, Some default_gid) \<Rightarrow> uid = default_uid \<and> gid = default_gid
      | _ \<Rightarrow> False)"

fun requested_ids :: "peer_credentials \<Rightarrow> identity_request \<Rightarrow> u32 \<times> u32" where
  "requested_ids peer (RequestPeer uid gid) = (uid, gid)"
| "requested_ids peer RequestRoot = (0, 0)"
| "requested_ids peer (RequestUser name) = (pc_uid peer, pc_gid peer)"

definition check_identity_request ::
  "backend_runtime \<Rightarrow> peer_credentials \<Rightarrow> identity_request \<Rightarrow> (backend_error, unit) result" where
  "check_identity_request rt peer requested =
     rbind (fail_if (pc_uid peer \<noteq> 0 \<and> requested_ids peer requested \<noteq> (pc_uid peer, pc_gid peer))
       (backend_err ''permission'' False OnlyObservedIdentity)) (\<lambda>_.
     rbind (fail_if ((case requested of RequestPeer _ _ \<Rightarrow> False | _ \<Rightarrow> True) \<and> pc_uid peer \<noteq> 0)
       (backend_err ''permission'' False OnlyRootMayName)) (\<lambda>_.
     if pc_uid peer = 0 then
       (case requested of
          RequestPeer uid gid \<Rightarrow> fail_if (\<not> allowed_peer_identity rt uid gid)
            (backend_err ''permission'' False RootPeerNotAllowed)
        | RequestUser name \<Rightarrow> fail_if (name \<noteq> ''root'' \<and> ic_default_user (bc_identity (rt_request_config rt)) \<noteq> Some name)
            (backend_err ''permission'' False NameNotAllowed)
        | RequestRoot \<Rightarrow> Inr ())
     else Inr ()))"

definition identity_input_names :: "identity_config \<Rightarrow> string list" where
  "identity_input_names c =
     List.map_filter (\<lambda>name. name) [ic_run_as_root_input c, ic_uid_input c, ic_gid_input c, ic_home_input c]"

fun with_requested_identity ::
  "identity_request \<Rightarrow> identity_config \<times> (string, string) btree_map \<Rightarrow> identity_config \<times> (string, string) btree_map" where
  "with_requested_identity (RequestPeer uid gid) (c, inputs) =
     (c\<lparr>ic_default_user := None, ic_default_uid := Some uid, ic_default_gid := Some gid, ic_auto_mapping := False\<rparr>, inputs)"
| "with_requested_identity RequestRoot (c, inputs) =
     (case ic_run_as_root_input c of
        Some name \<Rightarrow> (c, if contains_key name inputs then inputs else btree_insert name ''1'' inputs)
      | None \<Rightarrow> (c\<lparr>ic_default_user := Some ''root'', ic_default_uid := Some 0, ic_default_gid := Some 0,
          ic_auto_mapping := False\<rparr>, inputs))"
| "with_requested_identity (RequestUser name) (c, inputs) =
     (c\<lparr>ic_default_user := Some name, ic_default_uid := None, ic_default_gid := None, ic_auto_mapping := False\<rparr>, inputs)"

definition prepare_identity ::
  "backend_system \<Rightarrow> backend_runtime \<Rightarrow> peer_credentials \<Rightarrow> identity_request_options \<Rightarrow>
   (host_state, backend_error, prepared_identity) effect" where
  "prepare_identity sys rt peer options =
     ebind (elift (fail_if (st_state (runtime_status rt) \<noteq> BackendReady) (backend_err ''backend_not_ready'' True NotReady))) (\<lambda>_.
     ebind (elift (check_identity_request rt peer (io_requested options))) (\<lambda>_.
     ebind (elift (map_err (\<lambda>_. backend_err ''permission'' False CwdUnresolved) (resolve_cwd_object sys (io_cwd options)))) (\<lambda>cwd.
     let config = rt_request_config rt;
         names = identity_input_names (bc_identity config);
         inputs = filter (\<lambda>(name, _). name \<notin> set names) (io_inputs options);
         environment = filter (\<lambda>(name, _). name \<notin> set names) (io_environment options);
         (identity_config, inputs) = with_requested_identity (io_requested options) (bc_identity config, inputs);
         config = config\<lparr>bc_identity := identity_config\<rparr> in
     ebind (elift (validate_request_inputs config inputs)) (\<lambda>_.
     let x = executor_for sys config (request_context (rw_canonical_path cwd) environment inputs) in
     ebind (emap_err runtime_error_core (execute_internal x (rt_request_plan rt) [] None)) (\<lambda>report.
     let identity = er_identity report in
     ebind (elift (map_err (\<lambda>_. backend_err ''identity'' False GroupsUnavailable) (supplementary_groups sys identity)))
       (\<lambda>groups.
     eret \<lparr>pd_uid = id_uid identity, pd_gid = id_gid identity, pd_user = id_user identity,
       pd_home = id_home identity, pd_supplemental_groups = groups, pd_run_as_root = id_run_as_root identity\<rparr>))))))"

end
