(* ===== verification/Backend_Transaction.thy ===== *)
theory Backend_Transaction
  imports Backend_Identity Core_Handoff Machines
begin

text \<open>
  Exec transactions (\<open>src/crates/container-init-backend/src/server/transaction.rs\<close>): a client prepares a
  command, which fixes the identity it runs as, and commits or aborts it later. The arguments
  \<open>started\<close>, \<open>now\<close> are the answers of \<open>Instant::now\<close>, in the order of the calls.
\<close>

section \<open>Data\<close>

definition PREPARE_TTL :: nat where "PREPARE_TTL = 30 * 10 ^ 9"
definition MAX_TRANSACTIONS :: nat where "MAX_TRANSACTIONS = 256"
definition MAX_TRANSACTIONS_PER_PEER :: nat where "MAX_TRANSACTIONS_PER_PEER = 8"

record commit_result =
  wc_prepare_id :: string
  wc_state :: exec_transaction_state
  wc_receipt_summary :: "receipt_summary option"
  wc_error :: "backend_error option"

record hello_info =
  hi_state :: backend_state
  hi_profile :: string
  hi_snapshot_id :: string
  hi_runtime_inputs :: "string list"
  hi_environment_names :: "string list"
  hi_limits :: protocol_limits

datatype 'v server_response =
    HelloResponse hello_info
  | PreparedExec prepared_handoff
  | CommitResult commit_result
  | IdentityResponse prepared_identity
  | StatusResponse backend_status
  | PlanPage "'v plan_page"
  | DoctorResponse doctor_report
  | ErrorResponse backend_error
  | OtherResponse

record prepare_exec_options =
  po_argv :: "string list"
  po_cwd :: string
  po_inputs :: "(string, string) btree_map"
  po_environment :: "(string, string) btree_map"
  po_request_budget :: nat

text \<open>The backend and the host it runs on.\<close>

record backend =
  bk_runtime :: backend_runtime
  bk_host :: host_state

section \<open>Prepare\<close>

text \<open>\<open>Instant::checked_add\<close>: seconds are signed 64-bit numbers.\<close>

definition instant_checked_add :: "nat \<Rightarrow> nat \<Rightarrow> nat option" where
  "instant_checked_add t duration = (if (t + duration) div 10 ^ 9 < 2 ^ 63 then Some (t + duration) else None)"

definition is_root_service :: "bootstrap_config \<Rightarrow> string list \<Rightarrow> u32 \<Rightarrow> bool \<Rightarrow> bool" where
  "is_root_service config command owner_uid initial_handoff \<longleftrightarrow>
     owner_uid = 0 \<and> initial_handoff \<and>
     (hc_root_service (bc_handoff config) \<or>
      is_some_and (\<lambda>daemon. command \<noteq> [] \<and> hd command = daemon) (hc_ssh_daemon (bc_handoff config)))"

fun handoff_argv_error :: "unit protocol_error \<Rightarrow> backend_error" where
  "handoff_argv_error (LimitExceeded cls field seen_count limit) = backend_err cls False (HandoffLimit field seen_count limit)"
| "handoff_argv_error (InvalidFrame message) = backend_err ''invalid_snapshot'' False (HandoffInvalid message)"
| "handoff_argv_error _ = backend_err ''invalid_snapshot'' False SnapshotCommandInvalid"

definition transaction_is_active :: "exec_transaction \<Rightarrow> bool" where
  "transaction_is_active transaction =
     (case et_state transaction of Prepared _ _ \<Rightarrow> True | Committing \<Rightarrow> True | _ \<Rightarrow> False)"

definition retain_transactions ::
  "nat \<Rightarrow> (string, exec_transaction) btree_map \<Rightarrow> (string, exec_transaction) btree_map" where
  "retain_transactions now transactions =
     filter (\<lambda>(_, transaction). now < et_deadline transaction \<or> et_state transaction = Committing) transactions"

definition peer_transactions :: "peer_credentials \<Rightarrow> (string, exec_transaction) btree_map \<Rightarrow> nat" where
  "peer_transactions peer transactions =
     length (filter (\<lambda>transaction. et_owner_uid transaction = pc_uid peer \<and> et_owner_gid transaction = pc_gid peer \<and>
       transaction_is_active transaction) (map snd transactions))"

definition new_prepare_id :: "backend_system \<Rightarrow> string option" where
  "new_prepare_id sys =
     (case sy_urandom sys of
        None \<Rightarrow> None
      | Some bytes \<Rightarrow> if length bytes = 24 then Some (concat (map (\<lambda>byte. hex_text 2 (unat byte)) bytes)) else None)"

definition login_environment :: "bool \<Rightarrow> resolved_identity \<Rightarrow> (string, string) btree_map" where
  "login_environment root_service identity =
     btree_collect
       [(''HOME'', if root_service then ''/root'' else id_home identity),
        (''USER'', if root_service then ''root'' else id_user identity),
        (''LOGNAME'', if root_service then ''root'' else id_user identity)]"

text \<open>The checks on the values of a request, before anything is resolved.\<close>

definition check_request_values :: "backend_runtime \<Rightarrow> prepare_exec_options \<Rightarrow> (backend_error, unit) result" where
  "check_request_values rt options =
     rbind (fail_if (st_state (runtime_status rt) \<noteq> BackendReady) (backend_err ''backend_not_ready'' True NotReady)) (\<lambda>_.
     rbind (fail_if (\<exists>name \<in> set (map fst (po_inputs options)). name \<notin> set (av_runtime_inputs (rt_allowed rt)))
       (backend_err ''invalid_input'' False UndeclaredInput)) (\<lambda>_.
     rbind (fail_if (\<exists>name \<in> set (map fst (po_environment options)). name \<notin> set (av_environment_names (rt_allowed rt)))
       (backend_err ''invalid_environment'' False UnusedEnvironment)) (\<lambda>_.
     fail_if (\<exists>raw \<in> set (map snd (po_inputs options) @ map snd (po_environment options)). has_char raw nul)
       (backend_err ''invalid_request'' False ValueNul))))"

text \<open>Who may run as whom.\<close>

definition check_peer_identity ::
  "backend_system \<Rightarrow> peer_credentials \<Rightarrow> resolved_identity \<Rightarrow> bool \<Rightarrow> (backend_error, u32 list) result" where
  "check_peer_identity sys peer identity root_service =
     rbind (fail_if (root_service \<and> pc_uid peer \<noteq> 0) (backend_err ''permission'' False RootServiceNeedsRoot)) (\<lambda>_.
     rbind (fail_if (pc_uid peer \<noteq> 0 \<and>
         (id_uid identity \<noteq> pc_uid peer \<or> id_gid identity \<noteq> pc_gid peer \<or> id_run_as_root identity))
       (backend_err ''permission'' False OnlyOwnIdentity)) (\<lambda>_.
     rbind (if root_service then Inr []
            else map_err (\<lambda>_. backend_err ''identity'' False GroupsUnavailable) (supplementary_groups sys identity))
       (\<lambda>supplemental_groups.
     rbind (if pc_uid peer \<noteq> 0 then
              rbind (map_err (\<lambda>_. backend_err ''permission'' False PeerGroupsUnverified)
                (peer_groups sys (pc_pid peer) (pc_gid peer))) (\<lambda>seen_groups.
              fail_if (seen_groups \<noteq> supplemental_groups) (backend_err ''permission'' False OnlyOwnGroups))
            else Inr ()) (\<lambda>_.
     Inr supplemental_groups))))"

definition check_handoff_command :: "executor \<Rightarrow> string list \<Rightarrow> (backend_error, handoff_command) result" where
  "check_handoff_command x args =
     rbind (map_err runtime_error_core (build_handoff_command x args)) (\<lambda>command.
     rbind (map_err handoff_argv_error (validate_argv (argv command))) (\<lambda>_.
     rbind (fail_if (\<not> is_absolute (hf_program command) \<or> (\<exists>argument \<in> set (hf_args command). has_char argument nul))
       (backend_err ''invalid_snapshot'' False SnapshotCommandInvalid)) (\<lambda>_.
     Inr command)))"

text \<open>The registration of a prepared transaction; expired ones go even when the capacity is exhausted.\<close>

definition register_transaction ::
  "nat \<Rightarrow> peer_credentials \<Rightarrow> string \<Rightarrow> nat \<Rightarrow> runtime_context \<Rightarrow> resolved_identity \<Rightarrow>
   (backend_runtime, backend_error, unit) effect" where
  "register_transaction now peer prepare_id deadline context identity rt =
     (let transactions = retain_transactions now (rt_transactions rt);
          rt = rt\<lparr>rt_transactions := transactions\<rparr> in
      if MAX_TRANSACTIONS \<le> length transactions \<or> MAX_TRANSACTIONS_PER_PEER \<le> peer_transactions peer transactions
      then (Inl (backend_err ''capacity'' True CapacityExhausted), rt)
      else
        (Inr (), rt\<lparr>rt_transactions := btree_insert prepare_id
           \<lparr>et_owner_uid = pc_uid peer, et_owner_gid = pc_gid peer, et_snapshot_id = rt_snapshot_id rt,
            et_deadline = deadline, et_state = Prepared context identity\<rparr> transactions\<rparr>))"

text \<open>What a client asks for, checked and resolved, on the host as it is; nothing changes.\<close>

record resolved_request =
  rq_context :: runtime_context
  rq_deadline :: nat
  rq_handoff :: prepared_handoff

definition resolve_request ::
  "backend_system \<Rightarrow> nat \<Rightarrow> nat \<Rightarrow> peer_credentials \<Rightarrow> prepare_exec_options \<Rightarrow> backend \<Rightarrow>
   (backend_error, resolved_request) result" where
  "resolve_request sys started now peer options b =
     (let rt = bk_runtime b in
      rbind (ok_or (backend_err ''invalid_request'' False DeadlineInvalid)
        (instant_checked_add started (min (po_request_budget options) PREPARE_TTL))) (\<lambda>request_deadline.
      rbind (check_request_values rt options) (\<lambda>_.
      rbind (map_err (\<lambda>_. backend_err ''invalid_cwd'' False CwdUnresolved) (resolve_cwd_object sys (po_cwd options))) (\<lambda>cwd.
      rbind (validate_request_inputs (rt_request_config rt) (po_inputs options)) (\<lambda>_.
      let context = request_context (rw_canonical_path cwd) (po_environment options) (po_inputs options);
          x = executor_for sys (rt_request_config rt) context in
      rbind (map_err runtime_error_core (resolve_prevalidated (posix_in x (bk_host b)) (ex_config x) (ex_context x))) (\<lambda>identity.
      let root_service = is_root_service (rt_config rt) (po_argv options) (cr_euid (hs_creds (bk_host b))) False in
      rbind (check_peer_identity sys peer identity root_service) (\<lambda>supplemental_groups.
      rbind (check_handoff_command x (po_argv options)) (\<lambda>command.
      rbind (ok_or (backend_err ''internal'' False PrepareIdUnavailable) (new_prepare_id sys)) (\<lambda>prepare_id.
      rbind (fail_if (request_deadline \<le> now) (backend_err ''request_timeout'' False PrepareExpired)) (\<lambda>_.
      Inr \<lparr>rq_context = context, rq_deadline = request_deadline,
        rq_handoff =
          \<lparr>ph_prepare_id = prepare_id, ph_snapshot_id = rt_snapshot_id rt, ph_command = command,
           ph_cwd = rw_canonical_path cwd, ph_cwd_object = rw_object cwd,
           ph_login_environment = login_environment root_service identity, ph_identity = identity,
           ph_supplemental_groups = supplemental_groups, ph_root_service = root_service\<rparr>\<rparr>))))))))))"

definition backend_prepare_exec ::
  "backend_system \<Rightarrow> nat \<Rightarrow> nat \<Rightarrow> peer_credentials \<Rightarrow> prepare_exec_options \<Rightarrow>
   (backend, backend_error, prepared_handoff) effect" where
  "backend_prepare_exec sys started now peer options b =
     (case resolve_request sys started now peer options b of
        Inl e \<Rightarrow> (Inl e, b)
      | Inr request \<Rightarrow>
          let handoff = rq_handoff request;
              (r, rt) = register_transaction now peer (ph_prepare_id handoff) (rq_deadline request)
                (rq_context request) (ph_identity handoff) (bk_runtime b) in
          (rbind r (\<lambda>_. Inr handoff), b\<lparr>bk_runtime := rt\<rparr>))"

section \<open>Commit, abort and result\<close>

fun transaction_response :: "string \<Rightarrow> transaction_state_data \<Rightarrow> commit_result" where
  "transaction_response prepare_id (Prepared _ _) =
     \<lparr>wc_prepare_id = prepare_id, wc_state = TxPrepared, wc_receipt_summary = None, wc_error = None\<rparr>"
| "transaction_response prepare_id Committing =
     \<lparr>wc_prepare_id = prepare_id, wc_state = TxCommitting, wc_receipt_summary = None, wc_error = None\<rparr>"
| "transaction_response prepare_id (Committed summary) =
     \<lparr>wc_prepare_id = prepare_id, wc_state = TxCommitted, wc_receipt_summary = Some summary, wc_error = None\<rparr>"
| "transaction_response prepare_id Aborted =
     \<lparr>wc_prepare_id = prepare_id, wc_state = TxAborted, wc_receipt_summary = None, wc_error = None\<rparr>"
| "transaction_response prepare_id (Failed error) =
     \<lparr>wc_prepare_id = prepare_id, wc_state = TxFailed, wc_receipt_summary = None, wc_error = Some error\<rparr>"

definition set_transaction_state :: "string \<Rightarrow> transaction_state_data \<Rightarrow> backend \<Rightarrow> backend" where
  "set_transaction_state prepare_id state b =
     b\<lparr>bk_runtime := (bk_runtime b)\<lparr>rt_transactions := map (\<lambda>(key, transaction).
       (key, if key = prepare_id then transaction\<lparr>et_state := state\<rparr> else transaction)) (rt_transactions (bk_runtime b))\<rparr>\<rparr>"

abbreviation transaction_of :: "string \<Rightarrow> backend \<Rightarrow> exec_transaction option" where
  "transaction_of prepare_id b \<equiv> btree_get prepare_id (rt_transactions (bk_runtime b))"

abbreviation foreign :: "peer_credentials \<Rightarrow> exec_transaction \<Rightarrow> bool" where
  "foreign peer transaction \<equiv> et_owner_uid transaction \<noteq> pc_uid peer \<or> et_owner_gid transaction \<noteq> pc_gid peer"

definition summarize :: "execution_report \<Rightarrow> receipt_summary" where
  "summarize report =
     \<lparr>rs_succeeded = list_all (\<lambda>oc. oc_status oc = Succeeded) (er_outcomes report),
      rs_action_count = length (er_outcomes report), rs_warning_count = length (er_warnings report)\<rparr>"

definition commit_exec ::
  "backend_system \<Rightarrow> nat \<Rightarrow> peer_credentials \<Rightarrow> string \<Rightarrow> backend \<Rightarrow> 'v server_response \<times> backend" where
  "commit_exec sys now peer prepare_id b =
     (case transaction_of prepare_id b of
        None \<Rightarrow> (ErrorResponse (backend_err ''unknown_transaction'' False TransactionUnknown), b)
      | Some transaction \<Rightarrow>
          if foreign peer transaction
          then (ErrorResponse (backend_err ''permission'' False TransactionForeign), b)
          else if et_snapshot_id transaction \<noteq> rt_snapshot_id (bk_runtime b)
          then (ErrorResponse (backend_err ''invalid_snapshot'' False TransactionSnapshot), b)
          else
            (case et_state transaction of
               Prepared context identity \<Rightarrow>
                 if now < et_deadline transaction then
                   let b = set_transaction_state prepare_id Committing b;
                       x = executor_for sys (rt_request_config (bk_runtime b)) context;
                       (r, hs) = execute_internal x (rt_request_plan (bk_runtime b)) [] (Some identity) (bk_host b);
                       b = b\<lparr>bk_host := hs\<rparr>;
                       outcome = (case r of Inr report \<Rightarrow> Committed (summarize report)
                                          | Inl e \<Rightarrow> Failed (runtime_error_core e)) in
                   (case transaction_of prepare_id b of
                      None \<Rightarrow> (ErrorResponse (backend_err ''unknown_transaction'' False TransactionDisappeared), b)
                    | Some _ \<Rightarrow> (CommitResult (transaction_response prepare_id outcome),
                        set_transaction_state prepare_id outcome b))
                 else (CommitResult (transaction_response prepare_id Aborted), set_transaction_state prepare_id Aborted b)
             | state \<Rightarrow> (CommitResult (transaction_response prepare_id state), b)))"

definition is_prepared :: "transaction_state_data \<Rightarrow> bool" where
  "is_prepared state = (case state of Prepared _ _ \<Rightarrow> True | _ \<Rightarrow> False)"

definition abort_exec :: "peer_credentials \<Rightarrow> string \<Rightarrow> backend \<Rightarrow> 'v server_response \<times> backend" where
  "abort_exec peer prepare_id b =
     (case transaction_of prepare_id b of
        None \<Rightarrow> (ErrorResponse (backend_err ''unknown_transaction'' False TransactionUnknown), b)
      | Some transaction \<Rightarrow>
          if foreign peer transaction
          then (ErrorResponse (backend_err ''permission'' False TransactionForeign), b)
          else if is_prepared (et_state transaction)
          then (CommitResult (transaction_response prepare_id Aborted), set_transaction_state prepare_id Aborted b)
          else (CommitResult (transaction_response prepare_id (et_state transaction)), b))"

definition get_exec_result :: "nat \<Rightarrow> peer_credentials \<Rightarrow> string \<Rightarrow> backend \<Rightarrow> 'v server_response \<times> backend" where
  "get_exec_result now peer prepare_id b =
     (case transaction_of prepare_id b of
        None \<Rightarrow> (ErrorResponse (backend_err ''unknown_transaction'' False TransactionUnknown), b)
      | Some transaction \<Rightarrow>
          if foreign peer transaction
          then (ErrorResponse (backend_err ''permission'' False TransactionForeign), b)
          else if et_deadline transaction \<le> now \<and> is_prepared (et_state transaction)
          then (CommitResult (transaction_response prepare_id Aborted), set_transaction_state prepare_id Aborted b)
          else (CommitResult (transaction_response prepare_id (et_state transaction)), b))"

section \<open>Settling a transaction\<close>

lemma set_transaction_state_fields [simp]:
  "bk_host (set_transaction_state pid s b) = bk_host b"
  "rt_request_config (bk_runtime (set_transaction_state pid s b)) = rt_request_config (bk_runtime b)"
  "rt_request_plan (bk_runtime (set_transaction_state pid s b)) = rt_request_plan (bk_runtime b)"
  "rt_snapshot_id (bk_runtime (set_transaction_state pid s b)) = rt_snapshot_id (bk_runtime b)"
  "rt_startup_identity (bk_runtime (set_transaction_state pid s b)) = rt_startup_identity (bk_runtime b)"
  by (simp_all add: set_transaction_state_def)

lemma transaction_of_set [simp]:
  "transaction_of q (set_transaction_state pid s b) =
     (if q = pid then map_option (\<lambda>t. t\<lparr>et_state := s\<rparr>) (transaction_of q b) else transaction_of q b)"
proof -
  have "map_of (map (\<lambda>(key, t). (key, if key = pid then t\<lparr>et_state := s\<rparr> else t)) m) q =
      (if q = pid then map_option (\<lambda>t. t\<lparr>et_state := s\<rparr>) (map_of m q) else map_of m q)" for m :: "(string, exec_transaction) btree_map"
    by (induction m) auto
  then show ?thesis by (simp add: set_transaction_state_def btree_get_def)
qed

lemma set_transaction_state_again [simp]:
  "set_transaction_state pid s2 (set_transaction_state pid s1 b) = set_transaction_state pid s2 b"
  by (simp add: set_transaction_state_def comp_def case_prod_beta cong: if_cong)

lemma set_transaction_state_host:
  "set_transaction_state pid s (b\<lparr>bk_host := hs\<rparr>) = (set_transaction_state pid s b)\<lparr>bk_host := hs\<rparr>"
  by (simp add: set_transaction_state_def)

text \<open>The execution of a committed transaction.\<close>

definition committed_execution ::
  "backend_system \<Rightarrow> runtime_context \<Rightarrow> resolved_identity \<Rightarrow> backend \<Rightarrow> transaction_state_data \<times> host_state" where
  "committed_execution sys cx identity b =
     (let (r, hs) = execute_internal (executor_for sys (rt_request_config (bk_runtime b)) cx)
            (rt_request_plan (bk_runtime b)) [] (Some identity) (bk_host b) in
      (case r of Inr report \<Rightarrow> Committed (summarize report) | Inl e \<Rightarrow> Failed (runtime_error_core e), hs))"

lemma commit_exec_cases [consumes 1, case_names refused settled expired executed]:
  assumes "commit_exec sys now peer pid b = (response, b')"
  obtains e where "response = ErrorResponse e" "b' = b"
  | t where "transaction_of pid b = Some t" "\<not> foreign peer t" "\<not> is_prepared (et_state t)"
      "response = CommitResult (transaction_response pid (et_state t))" "b' = b"
  | t where "transaction_of pid b = Some t" "\<not> foreign peer t" "is_prepared (et_state t)" "et_deadline t \<le> now"
      "response = CommitResult (transaction_response pid Aborted)" "b' = set_transaction_state pid Aborted b"
  | t cx identity final hs where "transaction_of pid b = Some t" "\<not> foreign peer t"
      "et_state t = Prepared cx identity" "now < et_deadline t"
      "committed_execution sys cx identity b = (final, hs)"
      "response = CommitResult (transaction_response pid final)" "b' = set_transaction_state pid final (b\<lparr>bk_host := hs\<rparr>)"
proof (cases "transaction_of pid b")
  case None
  with assms show ?thesis by (auto simp: commit_exec_def intro: that(1))
next
  case (Some t)
  show ?thesis
  proof (cases "foreign peer t \<or> et_snapshot_id t \<noteq> rt_snapshot_id (bk_runtime b)")
    case True
    with assms Some show ?thesis by (cases "foreign peer t") (auto simp: commit_exec_def intro: that(1))
  next
    case False
    show ?thesis
    proof (cases "et_state t")
      case (Prepared cx identity)
      show ?thesis
      proof (cases "now < et_deadline t")
        case True
        obtain final hs where run: "committed_execution sys cx identity b = (final, hs)" by (cases "committed_execution sys cx identity b")
        with assms Some False Prepared True
        have "response = CommitResult (transaction_response pid final) \<and> b' = set_transaction_state pid final (b\<lparr>bk_host := hs\<rparr>)"
          by (auto simp: commit_exec_def committed_execution_def Let_def set_transaction_state_host split: prod.splits sum.splits)
        then show ?thesis using that(4) [OF Some _ Prepared True run] False by blast
      next
        case late: False
        with assms Some False Prepared show ?thesis
          by (intro that(3) [of t]) (auto simp: commit_exec_def is_prepared_def)
      qed
    qed (use assms Some False in \<open>auto simp: commit_exec_def is_prepared_def intro!: that(2) [of t]\<close>)
  qed
qed

section \<open>The invariant of the transactions\<close>

text \<open>A prepared command of an ordinary owner runs with the owner's ids.\<close>

definition owner_bound :: "exec_transaction \<Rightarrow> bool" where
  "owner_bound t \<longleftrightarrow> (\<forall>cx identity. et_state t = Prepared cx identity \<longrightarrow> et_owner_uid t \<noteq> 0 \<longrightarrow>
     id_uid identity = et_owner_uid t \<and> id_gid identity = et_owner_gid t \<and> \<not> id_run_as_root identity)"

definition active_of :: "u32 \<Rightarrow> u32 \<Rightarrow> exec_transaction \<Rightarrow> bool" where
  "active_of uid gid t \<longleftrightarrow> et_owner_uid t = uid \<and> et_owner_gid t = gid \<and> transaction_is_active t"

definition active_count :: "u32 \<Rightarrow> u32 \<Rightarrow> (string, exec_transaction) btree_map \<Rightarrow> nat" where
  "active_count uid gid transactions = length (filter (active_of uid gid) (map snd transactions))"

lemma active_count_Cons [simp]:
  "active_count uid gid [] = 0"
  "active_count uid gid (entry # m) = (if active_of uid gid (snd entry) then 1 else 0) + active_count uid gid m"
  by (simp_all add: active_count_def)

lemma active_count_insert: "active_count uid gid (btree_insert k t m) \<le> (if active_of uid gid t then 1 else 0) + active_count uid gid m"
  by (induction k t m rule: btree_insert.induct) auto

lemma active_count_filter: "active_count uid gid (filter Q m) \<le> active_count uid gid m"
  by (induction m) auto

lemma peer_transactions_count: "peer_transactions peer m = active_count (pc_uid peer) (pc_gid peer) m"
  unfolding peer_transactions_def active_count_def active_of_def ..

definition transactions_ok :: "backend_runtime \<Rightarrow> bool" where
  "transactions_ok rt \<longleftrightarrow> btree_wf (rt_transactions rt) \<and> length (rt_transactions rt) \<le> MAX_TRANSACTIONS \<and>
     (\<forall>uid gid. active_count uid gid (rt_transactions rt) \<le> MAX_TRANSACTIONS_PER_PEER) \<and>
     (\<forall>(_, t) \<in> set (rt_transactions rt). et_snapshot_id t = rt_snapshot_id rt \<and> et_state t \<noteq> Committing \<and> owner_bound t)"

definition backend_inv :: "backend \<Rightarrow> bool" where
  "backend_inv b \<longleftrightarrow> transactions_ok (bk_runtime b)"

lemma backend_inv_host [simp]: "backend_inv (b\<lparr>bk_host := hs\<rparr>) = backend_inv b"
  by (simp add: backend_inv_def)

lemma set_state_inv:
  assumes "backend_inv b" "s \<noteq> Committing" "\<not> is_prepared s"
  shows "backend_inv (set_transaction_state pid s b)"
proof -
  let ?f = "\<lambda>(key, t). (key, if key = pid then t\<lparr>et_state := s\<rparr> else t)" and ?ts = "rt_transactions (bk_runtime b)"
  have inactive: "\<not> transaction_is_active (t\<lparr>et_state := s\<rparr>)" for t
    using assms(2,3) by (auto simp: transaction_is_active_def is_prepared_def split: transaction_state_data.splits)
  have keys: "map fst (map ?f ?ts) = map fst ?ts" by (simp add: case_prod_beta)
  have "active_count uid gid (map ?f m) \<le> active_count uid gid m" for uid gid m
    using inactive by (induction m) (auto simp: active_of_def split: if_splits)
  then have "active_count uid gid (map ?f ?ts) \<le> MAX_TRANSACTIONS_PER_PEER" for uid gid
    using assms(1) le_trans unfolding backend_inv_def transactions_ok_def by blast
  moreover have "owner_bound (t\<lparr>et_state := s\<rparr>)" for t
    using assms(3) by (auto simp: owner_bound_def is_prepared_def)
  moreover have "btree_wf (map ?f ?ts)" using assms(1) unfolding btree_wf_def keys backend_inv_def transactions_ok_def by blast
  ultimately show ?thesis
    using assms(1,2) unfolding backend_inv_def transactions_ok_def set_transaction_state_def
    by (auto split: if_splits)
qed

lemma check_peer_identity_Inr:
  assumes "check_peer_identity sys peer identity root_service = Inr groups" "pc_uid peer \<noteq> 0"
  shows "id_uid identity = pc_uid peer" "id_gid identity = pc_gid peer" "\<not> id_run_as_root identity" "\<not> root_service"
    "peer_groups sys (pc_pid peer) (pc_gid peer) = Inr groups"
  using assms by (auto simp: check_peer_identity_def rbind_Inr_iff fail_if_Inr_iff map_err_Inr_iff)

lemma resolve_request_Inr:
  assumes "resolve_request sys started now peer options b = Inr request"
  obtains root_service groups where
    "check_peer_identity sys peer (ph_identity (rq_handoff request)) root_service = Inr groups"
    "ph_supplemental_groups (rq_handoff request) = groups" "ph_root_service (rq_handoff request) = root_service"
    "new_prepare_id sys = Some (ph_prepare_id (rq_handoff request))" "now < rq_deadline request"
    "st_state (rt_status (bk_runtime b)) = BackendReady" "rq_deadline request \<le> started + PREPARE_TTL"
  using assms
  by (auto simp: resolve_request_def Let_def rbind_Inr_iff map_err_Inr_iff fail_if_Inr_iff check_request_values_def
      runtime_status_def instant_checked_add_def not_le ok_or_Inr_iff split: if_splits)

lemma transactions_ok_filter:
  assumes "transactions_ok rt"
  shows "transactions_ok (rt\<lparr>rt_transactions := filter Q (rt_transactions rt)\<rparr>)"
proof -
  have "length (filter Q (rt_transactions rt)) \<le> MAX_TRANSACTIONS"
    using assms unfolding transactions_ok_def by (blast intro: le_trans [OF length_filter_le])
  moreover have "active_count uid gid (filter Q (rt_transactions rt)) \<le> MAX_TRANSACTIONS_PER_PEER" for uid gid
    using assms unfolding transactions_ok_def by (blast intro: le_trans [OF active_count_filter])
  ultimately show ?thesis using assms by (auto simp: transactions_ok_def btree_wf_filter)
qed

lemma register_inv:
  assumes "transactions_ok rt" "register_transaction now peer pid deadline cx identity rt = (r, rt')"
    and "pc_uid peer \<noteq> 0 \<Longrightarrow> id_uid identity = pc_uid peer \<and> id_gid identity = pc_gid peer \<and> \<not> id_run_as_root identity"
  shows "transactions_ok rt'"
proof -
  let ?kept = "retain_transactions now (rt_transactions rt)"
  let ?new = "\<lparr>et_owner_uid = pc_uid peer, et_owner_gid = pc_gid peer, et_snapshot_id = rt_snapshot_id rt,
      et_deadline = deadline, et_state = Prepared cx identity\<rparr>"
  have kept: "transactions_ok (rt\<lparr>rt_transactions := ?kept\<rparr>)"
    using assms(1) unfolding retain_transactions_def by (rule transactions_ok_filter)
  show ?thesis
  proof (cases "MAX_TRANSACTIONS \<le> length ?kept \<or> MAX_TRANSACTIONS_PER_PEER \<le> peer_transactions peer ?kept")
    case True
    with assms(2) kept show ?thesis by (simp add: register_transaction_def)
  next
    case False
    then have room: "length ?kept < MAX_TRANSACTIONS"
      "active_count (pc_uid peer) (pc_gid peer) ?kept < MAX_TRANSACTIONS_PER_PEER"
      by (auto simp: peer_transactions_count)
    have rt': "rt' = rt\<lparr>rt_transactions := btree_insert pid ?new ?kept\<rparr>"
      using assms(2) False by (simp add: register_transaction_def)
    have "active_count uid gid (btree_insert pid ?new ?kept) \<le> MAX_TRANSACTIONS_PER_PEER" for uid gid
    proof (cases "active_of uid gid ?new")
      case True
      then have "uid = pc_uid peer" "gid = pc_gid peer" by (auto simp: active_of_def)
      with room(2) active_count_insert [of uid gid pid ?new ?kept] show ?thesis by (simp split: if_splits)
    next
      case False
      with active_count_insert [of uid gid pid ?new ?kept] kept show ?thesis
        by (auto simp: transactions_ok_def intro: le_trans)
    qed
    moreover have "owner_bound ?new" using assms(3) by (auto simp: owner_bound_def)
    ultimately show ?thesis
      using kept room(1) length_insert [of pid ?new ?kept] unfolding rt' transactions_ok_def
      by (auto intro: btree_wf_insert dest!: btree_insert_mem)
  qed
qed

lemma prepare_inv:
  assumes "backend_inv b" "backend_prepare_exec sys started now peer options b = (r, b')"
  shows "backend_inv b'"
proof (cases "resolve_request sys started now peer options b")
  case (Inl e)
  with assms show ?thesis by (simp add: backend_prepare_exec_def)
next
  case (Inr request)
  then obtain root_service groups where check: "check_peer_identity sys peer (ph_identity (rq_handoff request)) root_service = Inr groups"
    by (rule resolve_request_Inr)
  with assms Inr check_peer_identity_Inr [OF check] show ?thesis
    by (auto simp: backend_prepare_exec_def backend_inv_def Let_def split: prod.splits elim!: register_inv)
qed

lemma commit_inv:
  assumes "commit_exec sys now peer pid b = (response, b')" "backend_inv b"
  shows "backend_inv b'"
  using assms(1)
proof (cases rule: commit_exec_cases)
  case (executed t cx identity final hs)
  from executed(5) have "final \<noteq> Committing" "\<not> is_prepared final"
    by (auto simp: committed_execution_def is_prepared_def Let_def split: prod.splits sum.splits)
  then show ?thesis using assms(2) executed(7) set_state_inv [of "b\<lparr>bk_host := hs\<rparr>" final pid] by simp
qed (use assms(2) in \<open>auto intro: set_state_inv simp: is_prepared_def\<close>)

lemma abort_inv: "abort_exec peer pid b = (response, b') \<Longrightarrow> backend_inv b \<Longrightarrow> backend_inv b'"
  by (auto simp: abort_exec_def is_prepared_def split: option.splits if_splits intro!: set_state_inv)

lemma result_inv: "get_exec_result now peer pid b = (response, b') \<Longrightarrow> backend_inv b \<Longrightarrow> backend_inv b'"
  by (auto simp: get_exec_result_def is_prepared_def split: option.splits if_splits intro!: set_state_inv)

section \<open>Histories of a transaction\<close>

text \<open>What clients do with transactions, in the order the backend serves it.\<close>

datatype transaction_event =
    PrepareTx backend_system nat nat peer_credentials prepare_exec_options
  | CommitTx backend_system nat peer_credentials string
  | AbortTx peer_credentials string
  | ResultTx nat peer_credentials string
  | HostTx host_state

definition after_event :: "transaction_event \<Rightarrow> backend \<Rightarrow> backend" where
  "after_event event b =
     (case event of
        PrepareTx sys started now peer options \<Rightarrow> snd (backend_prepare_exec sys started now peer options b)
      | CommitTx sys now peer pid \<Rightarrow> snd (commit_exec sys now peer pid b :: unit server_response \<times> backend)
      | AbortTx peer pid \<Rightarrow> snd (abort_exec peer pid b :: unit server_response \<times> backend)
      | ResultTx now peer pid \<Rightarrow> snd (get_exec_result now peer pid b :: unit server_response \<times> backend)
      | HostTx hs \<Rightarrow> b\<lparr>bk_host := hs\<rparr>)"

text \<open>The executions of a plan in the events for one transaction, as the executor itself counts them.\<close>

definition names_transaction :: "string \<Rightarrow> transaction_event \<Rightarrow> bool" where
  "names_transaction pid event =
     (case event of CommitTx _ _ _ q \<Rightarrow> q = pid | AbortTx _ q \<Rightarrow> q = pid | ResultTx _ _ q \<Rightarrow> q = pid | _ \<Rightarrow> False)"

definition executions :: "transaction_event \<Rightarrow> backend \<Rightarrow> nat" where
  "executions event b = hs_runs (bk_host (after_event event b)) - hs_runs (bk_host b)"

primrec plan_runs :: "string \<Rightarrow> transaction_event list \<Rightarrow> backend \<Rightarrow> nat" where
  "plan_runs pid [] b = 0"
| "plan_runs pid (event # events) b =
     (if names_transaction pid event then executions event b else 0) + plan_runs pid events (after_event event b)"

definition hands_out :: "string \<Rightarrow> transaction_event \<Rightarrow> bool" where
  "hands_out pid event = (case event of PrepareTx sys _ _ _ _ \<Rightarrow> new_prepare_id sys = Some pid | _ \<Rightarrow> False)"

definition settled :: "string \<Rightarrow> backend \<Rightarrow> bool" where
  "settled pid b = (case transaction_of pid b of None \<Rightarrow> True | Some t \<Rightarrow> \<not> is_prepared (et_state t))"

lemma settled_set [simp]: "\<not> is_prepared s \<Longrightarrow> settled pid b \<Longrightarrow> settled pid (set_transaction_state q s b)"
  by (auto simp: settled_def split: option.splits)

lemma transaction_of_host [simp]: "transaction_of pid (b\<lparr>bk_host := hs\<rparr>) = transaction_of pid b" by simp

lemma get_filter: "btree_get pid (filter Q m) = Some t \<Longrightarrow> btree_wf m \<Longrightarrow> btree_get pid m = Some t"
  by (auto simp: btree_get_def btree_wf_def strict_sorted_iff intro!: map_of_is_SomeI dest!: map_of_SomeD)

lemma committed_not_prepared: "committed_execution sys cx identity b = (final, hs) \<Longrightarrow> \<not> is_prepared final"
  by (auto simp: committed_execution_def is_prepared_def Let_def split: prod.splits sum.splits)

lemma after_event_inv: "backend_inv b \<Longrightarrow> backend_inv (after_event event b)"
  by (cases event) (auto simp: after_event_def intro: prepare_inv [OF _ prod.collapse [symmetric]]
      commit_inv [OF prod.collapse [symmetric]] abort_inv [OF prod.collapse [symmetric]] result_inv [OF prod.collapse [symmetric]])

lemma prepare_settled:
  assumes "backend_inv b" "settled pid b" "new_prepare_id sys \<noteq> Some pid"
    and "backend_prepare_exec sys started now peer options b = (r, b')"
  shows "settled pid b'"
proof (cases "resolve_request sys started now peer options b")
  case (Inl e)
  with assms(2,4) show ?thesis by (simp add: backend_prepare_exec_def)
next
  case (Inr request)
  let ?kept = "retain_transactions now (rt_transactions (bk_runtime b))"
  have other: "ph_prepare_id (rq_handoff request) \<noteq> pid" by (rule resolve_request_Inr [OF Inr]) (use assms(3) in auto)
  have kept: "btree_get pid ?kept = Some t \<Longrightarrow> \<not> is_prepared (et_state t)" for t
    using get_filter assms(1,2) by (fastforce simp: retain_transactions_def settled_def backend_inv_def transactions_ok_def)
  have "btree_wf ?kept" using assms(1) by (simp add: retain_transactions_def backend_inv_def transactions_ok_def btree_wf_filter)
  then have "transaction_of pid b' = btree_get pid ?kept"
    using assms(4) Inr other by (auto simp: backend_prepare_exec_def register_transaction_def Let_def btree_get_insert split: if_splits)
  with kept show ?thesis by (simp add: settled_def split: option.splits)
qed

lemma after_event_settled:
  assumes "backend_inv b" "settled pid b" "\<not> hands_out pid event"
  shows "settled pid (after_event event b)"
proof (cases event)
  case (PrepareTx sys started now peer options)
  then show ?thesis
    using assms prepare_settled [OF assms(1,2), of sys started now peer options]
    by (cases "backend_prepare_exec sys started now peer options b") (auto simp: after_event_def hands_out_def)
next
  case (CommitTx sys now peer q)
  obtain response :: "unit server_response" and b' where run: "commit_exec sys now peer q b = (response, b')" by fastforce
  then have "settled pid b'"
  proof (cases rule: commit_exec_cases)
    case (executed t cx identity final hs)
    then show ?thesis using assms(2) committed_not_prepared by (simp add: settled_def)
  qed (use assms(2) in \<open>auto simp: is_prepared_def\<close>)
  with run CommitTx show ?thesis by (simp add: after_event_def)
next
  case (AbortTx peer q)
  then show ?thesis using assms(2) by (auto simp: after_event_def abort_exec_def is_prepared_def split: option.splits)
next
  case (ResultTx now peer q)
  then show ?thesis using assms(2) by (auto simp: after_event_def get_exec_result_def is_prepared_def split: option.splits)
next
  case (HostTx hs)
  then show ?thesis using assms(2) by (simp add: after_event_def settled_def)
qed

text \<open>An event executes at most one plan; when it does, it is a commit of a prepared transaction and settles it.\<close>

lemma executions_once:
  assumes "names_transaction pid event"
  shows "executions event b = 0 \<or> executions event b = 1 \<and> \<not> settled pid b \<and> settled pid (after_event event b)"
proof (cases event)
  case (CommitTx sys now peer q)
  with assms have q: "q = pid" by (simp add: names_transaction_def)
  obtain response :: "unit server_response" and b' where run: "commit_exec sys now peer pid b = (response, b')" by fastforce
  then have after: "after_event event b = b'" by (simp add: CommitTx q after_event_def)
  from run show ?thesis
  proof (cases rule: commit_exec_cases)
    case (executed t cx identity final hs)
    from executed(5) have "hs_runs hs = Suc (hs_runs (bk_host b))"
      by (auto simp: committed_execution_def dest: execute_internal_runs split: prod.splits)
    then have "executions event b = 1" by (simp add: executions_def after executed(7))
    moreover have "settled pid b'" using executed committed_not_prepared by (simp add: settled_def)
    moreover have "\<not> settled pid b" using executed(1,3) by (simp add: settled_def is_prepared_def)
    ultimately show ?thesis by (simp add: after)
  qed (simp_all add: executions_def after)
qed (use assms in \<open>auto simp: names_transaction_def executions_def after_event_def abort_exec_def get_exec_result_def split: option.splits\<close>)

lemma settled_never_runs:
  assumes "backend_inv b" "settled pid b" "\<And>event. event \<in> set events \<Longrightarrow> \<not> hands_out pid event"
  shows "plan_runs pid events b = 0"
  using assms
proof (induction events arbitrary: b)
  case (Cons event events)
  have "names_transaction pid event \<Longrightarrow> executions event b = 0" using executions_once [of pid event b] Cons.prems(2) by blast
  with Cons after_event_settled [OF Cons.prems(1,2), of event] after_event_inv show ?case by simp
qed simp

section \<open>A backend with a prepared command\<close>

definition sample_system :: backend_system where
  "sample_system =
     \<lparr>sy_executor = drop_executor sample_calls,
      sy_open_directory = (\<lambda>path. Some \<lparr>od_metadata = Some (True, \<lparr>co_device = 1, co_inode = 2\<rparr>), od_link = Some path\<rparr>),
      sy_proc_status = (\<lambda>_. Some ''Groups:''), sy_getgrouplist = (\<lambda>_ _ _. Inr [1000]), sy_ngroups_max = 64,
      sy_urandom = Some (replicate 24 7)\<rparr>"

definition sample_runtime :: backend_runtime where
  "sample_runtime =
     \<lparr>rt_profile = ''base'', rt_snapshot_id = ''s'', rt_config = drop_config, rt_plan = drop_plan,
      rt_request_config = request_config drop_config, rt_request_plan = [], rt_startup_identity = drop_identity,
      rt_allowed = \<lparr>av_runtime_inputs = [], av_environment_names = []\<rparr>, rt_transactions = [],
      rt_status = \<lparr>st_state = BackendReady, st_profile = ''base'', st_snapshot_id = ''s'', st_backend_pid = 1,
        st_initial_child_pid = Some 7, st_started_unix_seconds = 0, st_active_connections = 0\<rparr>,
      rt_active_connections = 0\<rparr>"

definition sample_backend :: backend where
  "sample_backend = \<lparr>bk_runtime = sample_runtime, bk_host = root_state\<rparr>"

definition sample_peer :: peer_credentials where
  "sample_peer = \<lparr>pc_pid = 9, pc_uid = 1000, pc_gid = 1000\<rparr>"

definition sample_options :: prepare_exec_options where
  "sample_options = \<lparr>po_argv = [''bash''], po_cwd = ''/w'', po_inputs = [], po_environment = [], po_request_budget = 5\<rparr>"

definition sample_id :: string where
  "sample_id = concat (replicate 24 ''07'')"

definition sample_transaction :: exec_transaction where
  "sample_transaction = \<lparr>et_owner_uid = 1000, et_owner_gid = 1000, et_snapshot_id = ''s'', et_deadline = 5,
     et_state = Prepared (runtime_context_new ''/w'') drop_identity\<rparr>"

definition prepared_backend :: backend where
  "prepared_backend = sample_backend\<lparr>bk_runtime := sample_runtime\<lparr>rt_transactions := [(sample_id, sample_transaction)]\<rparr>\<rparr>"

text \<open>The actions of a configuration have no part in the identity.\<close>

lemma resolve_prevalidated_actions:
  "resolve_prevalidated posix (config\<lparr>bc_actions := actions\<rparr>) cx = resolve_prevalidated posix config cx"
proof -
  let ?c = "config\<lparr>bc_actions := actions\<rparr>"
  have declared: "core_input_declaration ?c = core_input_declaration config" "find_input ?c = find_input config"
    by (intro ext, simp add: core_input_declaration_def find_input_def cong: option.case_cong)+
  have inputs: "resolve_inputs ?c cx = resolve_inputs config cx" by (simp add: resolve_inputs_def)
  have fields: "input_uid_pair ?c = input_uid_pair config" "input_gid ?c = input_gid config" "input_bool ?c = input_bool config"
    "input_home ?c = input_home config" "input_namespace_of ?c = input_namespace_of config"
    by (intro ext, simp add: input_uid_pair_def input_gid_def input_bool_def input_home_def input_namespace_of_def declared
        split: option.split parsed_runtime_input.split)+
  have chosen: "map_pair posix ?c = map_pair posix config" "select_gid posix ?c = select_gid posix config"
    by (intro ext, simp add: map_pair_def select_gid_def fields Let_def split: option.split prod.split)+
  have "resolve_target posix ?c cx = resolve_target posix config cx"
    by (intro ext) (simp add: resolve_target_def fields chosen)
  then show ?thesis unfolding resolve_prevalidated_def by (simp add: fields inputs cong: if_cong)
qed

lemma sample_request_resolves:
  "resolve_prevalidated (posix_in (executor_for sample_system (request_config drop_config) cx) root_state)
     (request_config drop_config) (runtime_context_new ''/w'') = Inr drop_identity"
proof -
  let ?p = "posix_in (executor_for sample_system (request_config drop_config) cx) root_state"
  have same: "?p = posix_in (drop_executor sample_calls) root_state"
    by (simp add: posix_in_def executor_for_def sample_system_def)
  have "resolve_prevalidated p (request_config drop_config) cx = resolve_prevalidated p drop_config cx" for p cx
    by (simp add: request_config_def resolve_prevalidated_actions)
  then show ?thesis unfolding same using drop_resolve by simp
qed

lemma group_list_loop_answer: "call count = Inr groups \<Longrightarrow> 0 < fuel \<Longrightarrow> group_list_loop fuel call limit count = Inr groups"
  by (cases fuel) simp_all

lemma sample_limit: "max_supplementary_groups (sy_ngroups_max sample_system) = 64"
  by (simp add: max_supplementary_groups_def sample_system_def)

lemma sample_groups: "supplementary_groups sample_system drop_identity = Inr [1000]"
proof -
  have "\<not> has_char (id_user drop_identity) nul" by code_simp
  then show ?thesis
    using group_list_loop_answer [of "\<lambda>_. Inr [1000]" 16 "[1000]" 66 64]
    by (simp add: supplementary_groups_def Let_def fail_if_def sample_system_def drop_identity_def sample_resolved_def
        sort_dedup_def max_supplementary_groups_def)
qed

lemma sample_peer_groups: "peer_groups sample_system 9 1000 = Inr [1000]"
proof -
  have "lines ''Groups:'' = [''Groups:'']" "starts_with ''Groups:'' ''Groups:''" "split_whitespace ''Groups:'' = [''Groups:'']"
    by code_simp+
  then show ?thesis by (simp add: peer_groups_def sample_limit fail_if_def) (simp add: sample_system_def)
qed

lemma sample_prepares:
  "resolve_request sample_system 0 2 sample_peer sample_options sample_backend =
     Inr \<lparr>rq_context = runtime_context_new ''/w'', rq_deadline = 5,
       rq_handoff = \<lparr>ph_prepare_id = sample_id, ph_snapshot_id = ''s'',
         ph_command = \<lparr>hf_program = ''/bin/runtime'', hf_args = [''bash'']\<rparr>, ph_cwd = ''/w'',
         ph_cwd_object = \<lparr>co_device = 1, co_inode = 2\<rparr>, ph_login_environment = login_environment False drop_identity,
         ph_identity = drop_identity, ph_supplemental_groups = [1000], ph_root_service = False\<rparr>\<rparr>"
proof -
  let ?config = "request_config drop_config"
  let ?x = "executor_for sample_system ?config (runtime_context_new ''/w'')"
  have deadline: "instant_checked_add 0 (min (po_request_budget sample_options) PREPARE_TTL) = Some 5"
    by (simp add: instant_checked_add_def sample_options_def PREPARE_TTL_def)
  have vals: "check_request_values (bk_runtime sample_backend) sample_options = Inr ()"
    by (simp add: check_request_values_def runtime_status_def sample_backend_def sample_runtime_def sample_options_def fail_if_def)
  have cwd: "resolve_cwd_object sample_system ''/w'' = Inr \<lparr>rw_canonical_path = ''/w'', rw_object = \<lparr>co_device = 1, co_inode = 2\<rparr>\<rparr>"
    by code_simp
  have inputs: "validate_request_inputs ?config [] = Inr ()" by (simp add: validate_request_inputs_def)
  have cx: "request_context ''/w'' [] [] = runtime_context_new ''/w''"
    by (simp add: request_context_def with_environment_def runtime_context_new_def btree_collect_def btree_extend_def)
  have command: "check_handoff_command ?x [''bash''] = Inr \<lparr>hf_program = ''/bin/runtime'', hf_args = [''bash'']\<rparr>"
  proof -
    have "from_config (bc_handoff drop_config) [''bash''] = Inr \<lparr>hf_program = ''/bin/runtime'', hf_args = [''bash'']\<rparr>" by code_simp
    moreover have "validate_argv [''/bin/runtime'', ''bash''] = (Inr () :: (unit protocol_error, unit) result)" by (simp add: argv_ok_iff)
    ultimately show ?thesis
      by (simp add: check_handoff_command_def build_handoff_command_def executor_for_def request_config_def argv_def fail_if_def
          is_absolute_def)
  qed
  have id: "new_prepare_id sample_system = Some sample_id" by code_simp
  have root: "\<not> is_root_service drop_config command uid False" for command uid by (simp add: is_root_service_def)
  have checked: "check_peer_identity sample_system sample_peer drop_identity False = Inr [1000]"
    using sample_groups sample_peer_groups by (simp add: check_peer_identity_def sample_peer_def drop_identity_def sample_resolved_def fail_if_def)
  show ?thesis
    using deadline vals cwd inputs cx command id root checked sample_request_resolves [of "runtime_context_new ''/w''"]
    by (simp add: resolve_request_def Let_def sample_options_def sample_backend_def sample_runtime_def fail_if_def
      executor_for_def)
qed

lemma sample_prepare:
  "after_event (PrepareTx sample_system 0 2 sample_peer sample_options) sample_backend = prepared_backend"
proof -
  have "after_event (PrepareTx sample_system 0 2 sample_peer sample_options) sample_backend =
      sample_backend\<lparr>bk_runtime := snd (register_transaction 2 sample_peer sample_id 5 (runtime_context_new ''/w'') drop_identity
        (bk_runtime sample_backend))\<rparr>"
    by (simp add: after_event_def backend_prepare_exec_def sample_prepares Let_def case_prod_beta)
  also have "\<dots> = prepared_backend"
    by (simp add: Let_def register_transaction_def prepared_backend_def
      retain_transactions_def peer_transactions_def sample_peer_def sample_transaction_def sample_backend_def sample_runtime_def
      MAX_TRANSACTIONS_def MAX_TRANSACTIONS_PER_PEER_def)
  finally show ?thesis .
qed

lemma prepared_backend_ok: "backend_inv prepared_backend" "transaction_of sample_id prepared_backend = Some sample_transaction"
proof -
  have start: "backend_inv sample_backend"
    by (simp add: backend_inv_def transactions_ok_def sample_backend_def sample_runtime_def btree_wf_def)
  show "backend_inv prepared_backend" using after_event_inv [OF start] sample_prepare by metis
  show "transaction_of sample_id prepared_backend = Some sample_transaction" by (simp add: prepared_backend_def btree_get_def)
qed

lemma no_transactions_inv: "rt_transactions (bk_runtime b) = [] \<Longrightarrow> backend_inv b"
  by (simp add: backend_inv_def transactions_ok_def btree_wf_def)

interpretation transactions: machine "\<lambda>b. rt_transactions (bk_runtime b) = []" after_event backend_inv
  by unfold_locales (blast intro: no_transactions_inv after_event_inv)+

section \<open>Properties\<close>

text \<open>
  C5. A command runs as its owner. After any sequence of prepares, commits, aborts and queries by any
  peers, with any changes of the host in between, a command that is still prepared for a peer other than root will
  be committed with the uid and gid of that peer, and not as root.
\<close>

theorem prepared_commands_bound_to_owner:
  assumes "rt_transactions (bk_runtime b) = []" "transaction_of pid (fold after_event events b) = Some t"
    and "et_state t = Prepared cx identity" "et_owner_uid t \<noteq> 0"
  shows "id_uid identity = et_owner_uid t \<and> id_gid identity = et_owner_gid t \<and> \<not> id_run_as_root identity"
proof -
  have "backend_inv (fold after_event events b)"
    using assms(1) by (rule transactions.run_start_inv)
  then have "owner_bound t" using btree_get_mem [OF assms(2)] by (auto simp: backend_inv_def transactions_ok_def)
  with assms(3,4) show ?thesis by (auto simp: owner_bound_def)
qed

theorem prepared_commands_bound_to_owner_witness:
  "id_uid drop_identity = 1000 \<and> id_gid drop_identity = 1000 \<and> \<not> id_run_as_root drop_identity"
proof -
  have "rt_transactions (bk_runtime sample_backend) = []" by (simp add: sample_backend_def sample_runtime_def)
  moreover have "transaction_of sample_id (fold after_event [PrepareTx sample_system 0 2 sample_peer sample_options] sample_backend) =
      Some sample_transaction" using sample_prepare prepared_backend_ok(2) by simp
  ultimately show ?thesis
    using prepared_commands_bound_to_owner [of sample_backend sample_id
        "[PrepareTx sample_system 0 2 sample_peer sample_options]" sample_transaction "runtime_context_new ''/w''" drop_identity]
    by (simp add: sample_transaction_def)
qed

text \<open>
  C6. A transaction is executed at most once. As long as its id is not handed out again, the executor is entered at most
  once in all the commits, aborts and queries for it together, whatever is retried and whatever happens to other
  transactions and to the host in between.
\<close>

theorem commit_at_most_once:
  assumes "backend_inv b" "\<forall>event \<in> set events. \<not> hands_out pid event"
  shows "plan_runs pid events b \<le> 1"
  using assms
proof (induction events arbitrary: b)
  case (Cons event events)
  note inv = after_event_inv [OF Cons.prems(1), of event]
  show ?case
  proof (cases "names_transaction pid event \<and> executions event b \<noteq> 0")
    case True
    with executions_once [of pid event b] have once: "executions event b = 1" "settled pid (after_event event b)" by auto
    have "plan_runs pid events (after_event event b) = 0"
      using Cons.prems(2) by (intro settled_never_runs [OF inv once(2)]) simp
    with True once(1) show ?thesis by simp
  next
    case False
    then show ?thesis using Cons.IH [OF inv] Cons.prems(2) by auto
  qed
qed simp

theorem commit_at_most_once_witness:
  "plan_runs sample_id [CommitTx sample_system 3 sample_peer sample_id, CommitTx sample_system 4 sample_peer sample_id]
     prepared_backend = 1"
proof -
  let ?first = "CommitTx sample_system 3 sample_peer sample_id" and ?second = "CommitTx sample_system 4 sample_peer sample_id"
  obtain response :: "unit server_response" and b' where run: "commit_exec sample_system 3 sample_peer sample_id prepared_backend = (response, b')"
    by fastforce
  then have "executions ?first prepared_backend = 1"
  proof (cases rule: commit_exec_cases)
    case (executed t cx identity final hs)
    from executed(5) have "hs_runs hs = Suc (hs_runs (bk_host prepared_backend))"
      by (auto simp: committed_execution_def dest: execute_internal_runs split: prod.splits)
    with run executed(7) show ?thesis by (simp add: executions_def after_event_def)
  qed (use run prepared_backend_ok(2) in
      \<open>simp_all add: commit_exec_def sample_transaction_def sample_peer_def is_prepared_def prepared_backend_def sample_runtime_def
        Let_def split: prod.splits option.splits\<close>)
  then have "1 \<le> plan_runs sample_id [?first, ?second] prepared_backend" by (simp add: names_transaction_def)
  moreover have "plan_runs sample_id [?first, ?second] prepared_backend \<le> 1"
    by (rule commit_at_most_once [OF prepared_backend_ok(1)]) (simp add: hands_out_def)
  ultimately show ?thesis by (rule antisym [rotated])
qed

end
