(* ===== verification/Backend_Connection.thy ===== *)
theory Backend_Connection
  imports Backend_Transaction
begin

text \<open>
  Connections of the init backend (\<open>src/crates/container-init-backend/src/server/connection.rs\<close>, the
  connection handling of \<open>lifecycle.rs\<close>): dispatch of requests, reading and writing frames on
  non-blocking sockets, timeouts and admission. The outcomes of the system calls are given as lists;
  \<open>None\<close> means that they are used up before the code returns. The JSON decoder of requests and the
  serialiser of responses are parameters.
\<close>

section \<open>Dispatch\<close>

record 'v server_message =
  sm_version :: nat
  sm_response :: "'v server_response"

text \<open>What a request meets: the system, the clock at its two readings, JSON and file metadata.\<close>

record 'v service_env =
  se_system :: backend_system
  se_started :: nat
  se_now :: nat
  se_json :: "'v page_json"
  se_metadata :: "string \<Rightarrow> (bool \<times> u32) option"

definition respond :: "('a \<Rightarrow> 'v server_response) \<Rightarrow> (backend_error, 'a) result \<times> 's \<Rightarrow> 'v server_response \<times> 's" where
  "respond ok outcome = (case outcome of (Inr x, s) \<Rightarrow> (ok x, s) | (Inl e, s) \<Rightarrow> (ErrorResponse e, s))"

fun prepare_response :: "'v service_env \<Rightarrow> peer_credentials \<Rightarrow> client_request \<Rightarrow> backend \<Rightarrow> 'v server_response \<times> backend" where
  "prepare_response env peer (PrepareExec args cwd inputs environment request_budget_ms) b =
     respond PreparedExec (backend_prepare_exec (se_system env) (se_started env) (se_now env) peer
       \<lparr>po_argv = args, po_cwd = cwd, po_inputs = inputs, po_environment = environment,
        po_request_budget = unat request_budget_ms * 10 ^ 6\<rparr> b)"
| "prepare_response env peer (PrepareIdentity cwd inputs environment requested) b =
     (let (r, hs) = prepare_identity (se_system env) (bk_runtime b) peer
            \<lparr>io_requested = requested, io_cwd = cwd, io_inputs = inputs, io_environment = environment\<rparr> (bk_host b)
      in respond IdentityResponse (r, b\<lparr>bk_host := hs\<rparr>))"
| "prepare_response env peer _ b = (ErrorResponse (backend_err ''protocol'' False HelloThenPrepare), b)"

definition hello_info_of :: "int \<Rightarrow> backend_runtime \<Rightarrow> hello_info" where
  "hello_info_of ngroups rt =
     \<lparr>hi_state = st_state (runtime_status rt), hi_profile = rt_profile rt, hi_snapshot_id = rt_snapshot_id rt,
      hi_runtime_inputs = av_runtime_inputs (rt_allowed rt), hi_environment_names = av_environment_names (rt_allowed rt),
      hi_limits = limits_current ngroups\<rparr>"

fun first_response :: "'v service_env \<Rightarrow> peer_credentials \<Rightarrow> client_request \<Rightarrow> backend \<Rightarrow> ('v server_response \<times> bool) \<times> backend" where
  "first_response env peer Status b = ((StatusResponse (runtime_status (bk_runtime b)), False), b)"
| "first_response env peer (PlanRequest snapshot_id offset) b =
     ((case plan_page_response (se_json env) (bk_runtime b) snapshot_id offset of
         Inr page \<Rightarrow> PlanPage page | Inl e \<Rightarrow> ErrorResponse e, False), b)"
| "first_response env peer Doctor b = ((DoctorResponse (doctor_response (se_metadata env) (bk_runtime b)), False), b)"
| "first_response env peer (CommitExec prepare_id) b =
     (let (response, b) = commit_exec (se_system env) (se_now env) peer prepare_id b in ((response, False), b))"
| "first_response env peer (AbortExec prepare_id) b =
     (let (response, b) = abort_exec peer prepare_id b in ((response, False), b))"
| "first_response env peer (GetExecResult prepare_id) b =
     (let (response, b) = get_exec_result (se_now env) peer prepare_id b in ((response, False), b))"
| "first_response env peer Hello b =
     ((HelloResponse (hello_info_of (sy_ngroups_max (se_system env)) (bk_runtime b)), True), b)"
| "first_response env peer (PrepareExec _ _ _ _ _) b = ((ErrorResponse (backend_err ''protocol'' False HelloRequired), False), b)"
| "first_response env peer (PrepareIdentity _ _ _ _) b = ((ErrorResponse (backend_err ''protocol'' False HelloRequired), False), b)"

definition dispatch ::
  "'v service_env \<Rightarrow> peer_credentials \<Rightarrow> client_message \<Rightarrow> bool \<Rightarrow> backend \<Rightarrow> ('v server_response \<times> bool) \<times> backend" where
  "dispatch env peer message hello_completed b =
     (if hello_completed
      then let (response, b) = prepare_response env peer (cm_request message) b in ((response, False), b)
      else first_response env peer (cm_request message) b)"

definition authorized_peer_uid :: "u32 \<Rightarrow> peer_credentials \<Rightarrow> bool" where
  "authorized_peer_uid startup_uid peer \<longleftrightarrow> 0 < pc_pid peer \<and> (pc_uid peer = 0 \<or> pc_uid peer = startup_uid)"

definition authorized_peer :: "backend_runtime \<Rightarrow> peer_credentials \<Rightarrow> bool" where
  "authorized_peer rt peer = authorized_peer_uid (id_uid (rt_startup_identity rt)) peer"

fun protocol_error_response :: "'j protocol_error \<Rightarrow> backend_error" where
  "protocol_error_response (UnsupportedVersion version) = backend_err ''unsupported_version'' False (VersionText version)"
| "protocol_error_response (FrameTooLarge len limit) = backend_err ''request_too_large'' False (FrameSizeText len limit)"
| "protocol_error_response (LimitExceeded cls field measured limit) = backend_err cls False (LimitText field measured limit)"
| "protocol_error_response (InvalidFrame message) = backend_err ''protocol'' False (ProtocolText message)"
| "protocol_error_response _ = backend_err ''protocol'' False JsonText"

definition decode_message ::
  "(client_message, 'j) deserializer \<Rightarrow> bytes \<Rightarrow> ('j protocol_error, client_message) result" where
  "decode_message de payload =
     rbind (map_err ProtocolJson (de payload)) (\<lambda>message. rbind (validate_message message) (\<lambda>_. Inr message))"

definition encode_response :: "('v server_message, 'j) serializer \<Rightarrow> 'v server_response \<Rightarrow> bytes" where
  "encode_response ser response =
     (case encode_json_frame ser \<lparr>sm_version = PROTOCOL_VERSION, sm_response = response\<rparr> MAX_RESPONSE_FRAME_BYTES of
        Inr framed \<Rightarrow> framed
      | Inl _ \<Rightarrow>
          (case encode_json_frame ser \<lparr>sm_version = PROTOCOL_VERSION,
               sm_response = ErrorResponse (backend_err ''response_too_large'' False ResponseTooLarge)\<rparr>
               MAX_RESPONSE_FRAME_BYTES of
             Inr framed \<Rightarrow> framed
           | Inl _ \<Rightarrow> []))"

section \<open>Connections\<close>

definition MAX_CONNECTIONS :: nat where "MAX_CONNECTIONS = 32"
definition MAX_BODY_READERS :: nat where "MAX_BODY_READERS = 4"
definition MAX_ACCEPTS_PER_TICK :: nat where "MAX_ACCEPTS_PER_TICK = 64"
definition FRAME_TIMEOUT :: nat where "FRAME_TIMEOUT = FRAME_TIMEOUT_MS * 10 ^ 6"
definition SCRATCH_BYTES :: nat where "SCRATCH_BYTES = 8192"

record connection =
  cn_peer :: peer_credentials
  cn_frame_deadline :: nat
  cn_header :: bytes
  cn_header_read :: nat
  cn_expected_payload :: "nat option"
  cn_payload :: bytes
  cn_body_admitted :: bool
  cn_output :: "bytes option"
  cn_output_offset :: nat
  cn_hello_completed :: bool
  cn_keepalive_after_write :: bool

definition connection_new :: "peer_credentials \<Rightarrow> nat \<Rightarrow> connection" where
  "connection_new peer now =
     \<lparr>cn_peer = peer, cn_frame_deadline = now + FRAME_TIMEOUT, cn_header = replicate 4 0, cn_header_read = 0,
      cn_expected_payload = None, cn_payload = [], cn_body_admitted = False, cn_output = None, cn_output_offset = 0,
      cn_hello_completed = False, cn_keepalive_after_write = False\<rparr>"

definition queue_error :: "('v server_message, 'j) serializer \<Rightarrow> backend_error \<Rightarrow> connection \<Rightarrow> connection" where
  "queue_error ser e c =
     c\<lparr>cn_output := Some (encode_response ser (ErrorResponse e)), cn_output_offset := 0, cn_keepalive_after_write := False\<rparr>"

text \<open>\<open>read\<close> on the socket: \<open>ReadSome k\<close> returns at most \<open>k\<close> of the bytes that have arrived.\<close>

datatype read_outcome = ReadSome nat | ReadWouldBlock | ReadInterrupted | ReadFailed

type_synonym reader_state = "connection \<times> backend \<times> bytes"

definition read_header ::
  "('v server_message, 'j) serializer \<Rightarrow> nat \<Rightarrow> bytes \<Rightarrow> connection \<Rightarrow> connection" where
  "read_header ser body_readers bs c =
     (let header = take (cn_header_read c) (cn_header c) @ bs @ drop (cn_header_read c + length bs) (cn_header c);
          c = c\<lparr>cn_header := header, cn_header_read := cn_header_read c + length bs\<rparr> in
      if cn_header_read c = length (cn_header c) then
        let len = unat (from_be_bytes header) in
        if len = 0 then queue_error ser (backend_err ''protocol'' False FrameLengthZero) c
        else if MAX_REQUEST_FRAME_BYTES < len then queue_error ser (backend_err ''request_too_large'' False FrameOverMaximum) c
        else if MAX_BODY_READERS \<le> body_readers then queue_error ser (backend_err ''capacity'' True BodyReadersFull) c
        else c\<lparr>cn_expected_payload := Some len, cn_payload := [], cn_body_admitted := True\<rparr>
      else c)"

definition serve_payload ::
  "(client_message, 'j) deserializer \<Rightarrow> ('v server_message, 'j) serializer \<Rightarrow> 'v service_env \<Rightarrow>
   connection \<times> backend \<Rightarrow> connection \<times> backend" where
  "serve_payload de ser env cb =
     (let (c, b) = cb; c = c\<lparr>cn_body_admitted := False\<rparr> in
      case decode_message de (cn_payload c) of
        Inl e \<Rightarrow> (queue_error ser (protocol_error_response e) c, b)
      | Inr message \<Rightarrow>
          let ((response, keepalive), b) = dispatch env (cn_peer c) message (cn_hello_completed c) b in
          (c\<lparr>cn_output := Some (encode_response ser response), cn_output_offset := 0,
             cn_keepalive_after_write := keepalive\<rparr>, b))"

definition read_body ::
  "(client_message, 'j) deserializer \<Rightarrow> ('v server_message, 'j) serializer \<Rightarrow> 'v service_env \<Rightarrow> bytes \<Rightarrow>
   connection \<times> backend \<Rightarrow> connection \<times> backend" where
  "read_body de ser env bs cb =
     (let (c, b) = cb; expected = unwrap_or 0 (cn_expected_payload c);
          copied = min (length bs) (expected - length (cn_payload c));
          c = c\<lparr>cn_payload := cn_payload c @ take copied bs\<rparr> in
      if length (cn_payload c) = expected then serve_payload de ser env (c, b) else (c, b))"

text \<open>One \<open>read\<close> that returns data: how many bytes it gives, and the state after they are handled.\<close>

definition read_size :: "nat \<Rightarrow> connection \<Rightarrow> bytes \<Rightarrow> nat" where
  "read_size k c arrived =
     min k (min (if cn_expected_payload c = None then length (cn_header c) - cn_header_read c else SCRATCH_BYTES)
       (length arrived))"

definition read_some ::
  "(client_message, 'j) deserializer \<Rightarrow> ('v server_message, 'j) serializer \<Rightarrow> 'v service_env \<Rightarrow> nat \<Rightarrow>
   nat \<Rightarrow> reader_state \<Rightarrow> reader_state" where
  "read_some de ser env body_readers n st =
     (let (c, b, arrived) = st;
          (c, b) = (if cn_expected_payload c = None then (read_header ser body_readers (take n arrived) c, b)
                    else read_body de ser env (take n arrived) (c, b))
      in (c, b, drop n arrived))"

primrec read_connection ::
  "(client_message, 'j) deserializer \<Rightarrow> ('v server_message, 'j) serializer \<Rightarrow> 'v service_env \<Rightarrow> nat \<Rightarrow>
   read_outcome list \<Rightarrow> reader_state \<Rightarrow> (bool \<times> reader_state) option" where
  "read_connection de ser env body_readers [] st = None"
| "read_connection de ser env body_readers (outcome # outcomes) st =
     (case outcome of
        ReadWouldBlock \<Rightarrow> Some (True, st)
      | ReadInterrupted \<Rightarrow> read_connection de ser env body_readers outcomes st
      | ReadFailed \<Rightarrow> Some (False, st)
      | ReadSome k \<Rightarrow>
          let n = read_size k (fst st) (snd (snd st)) in
          if n = 0 then Some (False, st)
          else
            let st = read_some de ser env body_readers n st in
            if cn_output (fst st) \<noteq> None then Some (True, st)
            else read_connection de ser env body_readers outcomes st)"

text \<open>\<open>write\<close> on the socket; the third component of the state is what has been sent.\<close>

datatype write_outcome = WriteSome nat | WriteWouldBlock | WriteInterrupted | WriteFailed

definition connection_reset :: "nat \<Rightarrow> connection \<Rightarrow> connection" where
  "connection_reset now c =
     c\<lparr>cn_hello_completed := True, cn_header := replicate 4 0, cn_header_read := 0, cn_expected_payload := None,
       cn_payload := [], cn_body_admitted := False, cn_output := None, cn_output_offset := 0,
       cn_keepalive_after_write := False, cn_frame_deadline := now + FRAME_TIMEOUT\<rparr>"

primrec write_loop :: "nat \<Rightarrow> bytes \<Rightarrow> write_outcome list \<Rightarrow> connection \<times> bytes \<Rightarrow> (bool \<times> connection \<times> bytes) option" where
  "write_loop now out [] st = None"
| "write_loop now out (outcome # outcomes) st =
     (case outcome of
        WriteWouldBlock \<Rightarrow> Some (True, st)
      | WriteInterrupted \<Rightarrow> write_loop now out outcomes st
      | WriteFailed \<Rightarrow> Some (False, st)
      | WriteSome k \<Rightarrow>
          let (c, sent) = st;
              n = min k (length out - cn_output_offset c);
              sent = sent @ take n (drop (cn_output_offset c) out);
              c = c\<lparr>cn_output_offset := cn_output_offset c + n\<rparr> in
          if n = 0 then Some (False, (c, sent))
          else if cn_output_offset c = length out then
            if cn_keepalive_after_write c then Some (True, (connection_reset now c, sent)) else Some (False, (c, sent))
          else write_loop now out outcomes (c, sent))"

definition write_connection :: "nat \<Rightarrow> write_outcome list \<Rightarrow> connection \<times> bytes \<Rightarrow> (bool \<times> connection \<times> bytes) option" where
  "write_connection now outcomes st =
     (case cn_output (fst st) of None \<Rightarrow> Some (True, st) | Some out \<Rightarrow> write_loop now out outcomes st)"

section \<open>The table of connections\<close>

type_synonym connections = "(nat, connection) btree_map"

text \<open>One answer of \<open>accept\<close>, with the descriptor and the credentials the kernel reports for the peer.\<close>

datatype accept_outcome =
    Accepted nat bool "peer_credentials option" bool
  | AcceptWouldBlock | AcceptInterrupted | AcceptFailed

primrec accept_loop ::
  "backend_runtime \<Rightarrow> nat \<Rightarrow> accept_outcome list \<Rightarrow> nat \<Rightarrow> connections \<Rightarrow> (bool \<times> connections) option" where
  "accept_loop rt now [] taken conns = (if taken < MAX_ACCEPTS_PER_TICK then None else Some (True, conns))"
| "accept_loop rt now (outcome # outcomes) taken conns =
     (if \<not> taken < MAX_ACCEPTS_PER_TICK then Some (True, conns)
      else
        (case outcome of
           Accepted fd cloexec_ok peer nonblocking_ok \<Rightarrow>
             if \<not> cloexec_ok then Some (False, conns)
             else
               (case peer of
                  Some peer \<Rightarrow>
                    if \<not> authorized_peer rt peer \<or> MAX_CONNECTIONS \<le> length conns
                    then accept_loop rt now outcomes (Suc taken) conns
                    else if \<not> nonblocking_ok then Some (False, conns)
                    else accept_loop rt now outcomes (Suc taken) (btree_insert fd (connection_new peer now) conns)
                | None \<Rightarrow> accept_loop rt now outcomes (Suc taken) conns)
         | AcceptWouldBlock \<Rightarrow> Some (True, conns)
         | AcceptInterrupted \<Rightarrow> accept_loop rt now outcomes taken conns
         | AcceptFailed \<Rightarrow> Some (False, conns)))"

definition accept_connections ::
  "backend_runtime \<Rightarrow> nat \<Rightarrow> accept_outcome list \<Rightarrow> connections \<Rightarrow> (bool \<times> connections) option" where
  "accept_connections rt now outcomes conns = accept_loop rt now outcomes 0 conns"

definition body_readers :: "connections \<Rightarrow> nat" where
  "body_readers conns = length (filter cn_body_admitted (map snd conns))"

text \<open>
  \<open>handle_connection\<close>: \<open>readable\<close> and \<open>writable\<close> are the poll events, \<open>arrived\<close> the bytes waiting on the
  socket.
\<close>

definition handle_connection ::
  "(client_message, 'j) deserializer \<Rightarrow> ('v server_message, 'j) serializer \<Rightarrow> 'v service_env \<Rightarrow> nat \<Rightarrow>
   bool \<Rightarrow> bool \<Rightarrow> read_outcome list \<Rightarrow> write_outcome list \<Rightarrow> bytes \<Rightarrow> connections \<times> backend \<Rightarrow>
   (bytes \<times> bytes \<times> connections \<times> backend) option" where
  "handle_connection de ser env fd readable writable reads writes arrived st =
     (let (conns, b) = st in
      case btree_get fd conns of
        None \<Rightarrow> Some (arrived, [], conns, b)
      | Some c \<Rightarrow>
          Option.bind (if readable then read_connection de ser env (body_readers conns) reads (c, b, arrived)
                       else Some (True, (c, b, arrived))) (\<lambda>(keep, c, b, arrived).
          Option.bind (if keep \<and> writable then write_connection (se_now env) writes (c, []) else Some (keep, c, []))
            (\<lambda>(keep, c, sent).
          Some (arrived, sent, if keep then btree_insert fd c conns else btree_remove fd conns, b))))"

definition expire_connection :: "('v server_message, 'j) serializer \<Rightarrow> nat \<Rightarrow> connection \<Rightarrow> connection option" where
  "expire_connection ser now c =
     (if now < cn_frame_deadline c then Some c
      else
        (case cn_output c of
           None \<Rightarrow> Some (c\<lparr>cn_output := Some (encode_response ser (ErrorResponse (backend_err ''request_timeout'' True FrameDeadline))),
             cn_output_offset := 0, cn_frame_deadline := now + FRAME_TIMEOUT\<rparr>)
         | Some _ \<Rightarrow> None))"

definition expire_connections ::
  "('v server_message, 'j) serializer \<Rightarrow> nat \<Rightarrow> connections \<times> backend_runtime \<Rightarrow> connections \<times> backend_runtime" where
  "expire_connections ser now st =
     (let (conns, rt) = st;
          conns = List.map_filter (\<lambda>(fd, c). map_option (Pair fd) (expire_connection ser now c)) conns
      in (conns, set_active_connections (length conns) rt))"

section \<open>The server\<close>

text \<open>
  The state of the loop in \<open>supervise\<close> as far as requests go. An event is one thing the loop does: it
  accepts connections, handles one that is ready or broken, lets connections expire, counts them, or begins
  to stop; the host may change in between. Events whose outcomes end early have not happened.
\<close>

record server =
  sv_listening :: bool
  sv_connections :: connections
  sv_backend :: backend

definition begin_stopping :: "server \<Rightarrow> server" where
  "begin_stopping sv =
     sv\<lparr>sv_listening := False, sv_connections := [],
        sv_backend := (sv_backend sv)\<lparr>bk_runtime := mark_stopping (bk_runtime (sv_backend sv))\<rparr>\<rparr>"

datatype 'v server_event =
    AcceptEvent nat "accept_outcome list"
  | ReadyEvent "'v service_env" nat bool bool "read_outcome list" "write_outcome list" bytes
  | BrokenEvent nat
  | ExpireEvent nat
  | CountEvent
  | StopEvent
  | HostEvent host_state

definition expire_server :: "('v server_message, 'j) serializer \<Rightarrow> nat \<Rightarrow> server \<Rightarrow> server" where
  "expire_server ser now sv =
     (let (conns, rt) = expire_connections ser now (sv_connections sv, bk_runtime (sv_backend sv))
      in sv\<lparr>sv_connections := conns, sv_backend := (sv_backend sv)\<lparr>bk_runtime := rt\<rparr>\<rparr>)"

definition count_connections :: "server \<Rightarrow> server" where
  "count_connections sv =
     sv\<lparr>sv_backend := (sv_backend sv)\<lparr>bk_runtime := set_active_connections (length (sv_connections sv)) (bk_runtime (sv_backend sv))\<rparr>\<rparr>"

definition serve_ready ::
  "(client_message, 'j) deserializer \<Rightarrow> ('v server_message, 'j) serializer \<Rightarrow> 'v service_env \<Rightarrow> nat \<Rightarrow>
   bool \<Rightarrow> bool \<Rightarrow> read_outcome list \<Rightarrow> write_outcome list \<Rightarrow> bytes \<Rightarrow> server \<Rightarrow> server" where
  "serve_ready de ser env fd readable writable reads writes arrived sv =
     (case handle_connection de ser env fd readable writable reads writes arrived (sv_connections sv, sv_backend sv) of
        None \<Rightarrow> sv
      | Some (_, _, conns, b) \<Rightarrow> sv\<lparr>sv_connections := conns, sv_backend := b\<rparr>)"

fun server_step ::
  "(client_message, 'j) deserializer \<Rightarrow> ('v server_message, 'j) serializer \<Rightarrow> 'v server_event \<Rightarrow> server \<Rightarrow> server" where
  "server_step de ser (AcceptEvent now outcomes) sv =
     (if sv_listening sv then
        (case accept_connections (bk_runtime (sv_backend sv)) now outcomes (sv_connections sv) of
           None \<Rightarrow> sv | Some (_, conns) \<Rightarrow> sv\<lparr>sv_connections := conns\<rparr>)
      else sv)"
| "server_step de ser (ReadyEvent env fd readable writable reads writes arrived) sv =
     serve_ready de ser env fd readable writable reads writes arrived sv"
| "server_step de ser (BrokenEvent fd) sv = sv\<lparr>sv_connections := btree_remove fd (sv_connections sv)\<rparr>"
| "server_step de ser (ExpireEvent now) sv = expire_server ser now sv"
| "server_step de ser CountEvent sv = count_connections sv"
| "server_step de ser StopEvent sv = begin_stopping sv"
| "server_step de ser (HostEvent hs) sv = sv\<lparr>sv_backend := (sv_backend sv)\<lparr>bk_host := hs\<rparr>\<rparr>"

definition server_start :: "server \<Rightarrow> bool" where
  "server_start sv \<longleftrightarrow> sv_connections sv = [] \<and> rt_transactions (bk_runtime (sv_backend sv)) = []"

section \<open>What a request leaves alone\<close>

definition same_setup :: "backend \<Rightarrow> backend \<Rightarrow> bool" where
  "same_setup b b' \<longleftrightarrow>
     bk_runtime b' = (bk_runtime b)\<lparr>rt_transactions := rt_transactions (bk_runtime b')\<rparr>"

lemma same_setup_rules [simp, intro]:
  "same_setup b b" "same_setup b (set_transaction_state pid s b)" "same_setup b (b\<lparr>bk_host := hs\<rparr>)"
  "same_setup b (set_transaction_state pid s (b\<lparr>bk_host := hs\<rparr>))"
  by (simp_all add: same_setup_def set_transaction_state_def)

lemma same_setup_prepare:
  "backend_prepare_exec sys started now peer options b = (r, b') \<Longrightarrow> same_setup b b'"
  by (auto simp: backend_prepare_exec_def register_transaction_def same_setup_def Let_def split: sum.splits if_splits prod.splits)

lemma respond_snd: "respond ok outcome = (r, s) \<Longrightarrow> s = snd outcome"
  by (auto simp: respond_def split: prod.splits sum.splits)

lemma prepare_response_step:
  assumes "prepare_response env peer request b = (response, b')"
  shows "same_setup b b' \<and> (backend_inv b \<longrightarrow> backend_inv b')"
proof (cases request)
  case (PrepareExec args cwd inputs environment budget)
  with assms obtain r where "backend_prepare_exec (se_system env) (se_started env) (se_now env) peer
       \<lparr>po_argv = args, po_cwd = cwd, po_inputs = inputs, po_environment = environment,
        po_request_budget = unat budget * 10 ^ 6\<rparr> b = (r, b')"
    by (metis prepare_response.simps(1) prod.collapse respond_snd)
  then show ?thesis using prepare_inv same_setup_prepare by blast
next
  case (PrepareIdentity cwd inputs environment requested)
  with assms show ?thesis by (auto simp: Let_def split: prod.splits dest!: respond_snd)
qed (use assms in auto)

lemma first_response_step:
  fixes env :: "'v service_env"
  assumes "first_response env peer request b = (answer, b')"
  shows "same_setup b b' \<and> (backend_inv b \<longrightarrow> backend_inv b')"
proof (cases request)
  case (CommitExec pid)
  with assms obtain response :: "'v server_response" where commit: "commit_exec (se_system env) (se_now env) peer pid b = (response, b')"
    by (auto split: prod.splits)
  then have "same_setup b b'" by (cases rule: commit_exec_cases) auto
  with commit_inv [OF commit] show ?thesis by blast
next
  case (AbortExec pid)
  with assms obtain response :: "'v server_response" where abort: "abort_exec peer pid b = (response, b')" by (auto split: prod.splits)
  then have "same_setup b b'" by (auto simp: abort_exec_def split: option.splits if_splits)
  with abort_inv [OF abort] show ?thesis by blast
next
  case (GetExecResult pid)
  with assms obtain response :: "'v server_response" where get: "get_exec_result (se_now env) peer pid b = (response, b')" by (auto split: prod.splits)
  then have "same_setup b b'" by (auto simp: get_exec_result_def split: option.splits if_splits)
  with result_inv [OF get] show ?thesis by blast
qed (use assms in auto)

lemma dispatch_step:
  assumes "dispatch env peer message hello b = (answer, b')"
  shows "same_setup b b' \<and> (backend_inv b \<longrightarrow> backend_inv b')"
proof (cases hello)
  case True
  with assms obtain response where "prepare_response env peer (cm_request message) b = (response, b')"
    by (auto simp: dispatch_def split: prod.splits)
  then show ?thesis by (rule prepare_response_step)
next
  case False
  with assms have "first_response env peer (cm_request message) b = (answer, b')" by (simp add: dispatch_def)
  then show ?thesis by (rule first_response_step)
qed

lemma same_setup_authorized: "same_setup b b' \<Longrightarrow> authorized_peer (bk_runtime b') = authorized_peer (bk_runtime b)"
  unfolding authorized_peer_def same_setup_def by (intro ext) (metis backend_runtime.select_convs(7) backend_runtime.surjective backend_runtime.update_convs(9))

section \<open>The invariant of the server\<close>

definition connection_ok :: "backend_runtime \<Rightarrow> connection \<Rightarrow> bool" where
  "connection_ok rt c \<longleftrightarrow> authorized_peer rt (cn_peer c) \<and> length (cn_header c) = 4 \<and> cn_header_read c \<le> 4 \<and>
     (\<forall>n. cn_expected_payload c = Some n \<longrightarrow> 0 < n \<and> n \<le> MAX_REQUEST_FRAME_BYTES \<and> length (cn_payload c) \<le> n) \<and>
     (cn_body_admitted c \<longrightarrow> cn_expected_payload c \<noteq> None)"

text \<open>One handled read: what it keeps, and that a body is only admitted below the limit.\<close>

definition read_keeps :: "nat \<Rightarrow> connection \<times> backend \<Rightarrow> connection \<times> backend \<Rightarrow> bool" where
  "read_keeps readers cb cb' \<longleftrightarrow>
     same_setup (snd cb) (snd cb') \<and> (backend_inv (snd cb) \<longrightarrow> backend_inv (snd cb')) \<and>
     (connection_ok (bk_runtime (snd cb)) (fst cb) \<longrightarrow> connection_ok (bk_runtime (snd cb')) (fst cb')) \<and>
     (cn_body_admitted (fst cb') \<longrightarrow> cn_body_admitted (fst cb) \<or> readers < MAX_BODY_READERS)"

lemma connection_ok_setup: "same_setup b b' \<Longrightarrow> connection_ok (bk_runtime b') = connection_ok (bk_runtime b)"
  by (intro ext) (simp add: connection_ok_def same_setup_authorized)

lemma same_setup_trans: "same_setup a b \<Longrightarrow> same_setup b c \<Longrightarrow> same_setup a c"
  unfolding same_setup_def by (metis backend_runtime.update_convs(9) backend_runtime.surjective)

lemma read_keeps_trans: "read_keeps n x y \<Longrightarrow> read_keeps n y z \<Longrightarrow> read_keeps n x z"
  unfolding read_keeps_def by (blast intro: same_setup_trans)

lemma queue_error_keeps: "read_keeps n (c, b) (queue_error ser e c, b)"
  by (simp add: read_keeps_def queue_error_def connection_ok_def)

lemma read_header_keeps:
  assumes "length bs \<le> length (cn_header c) - cn_header_read c" "cn_expected_payload c = None"
  shows "read_keeps n (c, b) (read_header ser n bs c, b)"
  using assms unfolding read_keeps_def read_header_def Let_def
  by (auto simp: queue_error_def connection_ok_def)

lemma serve_payload_keeps:
  assumes "serve_payload de ser env (c, b) = (c', b')"
  shows "read_keeps n (c, b) (c', b')"
proof (cases "decode_message de (cn_payload c)")
  case (Inl e)
  with assms show ?thesis by (auto simp: serve_payload_def read_keeps_def queue_error_def connection_ok_def)
next
  case (Inr message)
  with assms obtain answer where d: "dispatch env (cn_peer c) message (cn_hello_completed c) b = (answer, b')"
    and c': "cn_peer c' = cn_peer c" "cn_header c' = cn_header c" "cn_header_read c' = cn_header_read c"
      "cn_expected_payload c' = cn_expected_payload c" "cn_payload c' = cn_payload c" "\<not> cn_body_admitted c'"
    by (auto simp: serve_payload_def split: prod.splits)
  from dispatch_step [OF d] c' connection_ok_setup [of b b'] show ?thesis
    by (auto simp: read_keeps_def connection_ok_def)
qed

lemma read_body_keeps:
  assumes "read_body de ser env bs (c, b) = (c', b')" "cn_expected_payload c \<noteq> None"
  shows "read_keeps n (c, b) (c', b')"
proof -
  let ?c = "c\<lparr>cn_payload := cn_payload c @ take (min (length bs) (unwrap_or 0 (cn_expected_payload c) - length (cn_payload c))) bs\<rparr>"
  have copied: "read_keeps n (c, b) (?c, b)" using assms(2) by (auto simp: read_keeps_def connection_ok_def unwrap_or_def)
  have "(c', b') = (?c, b) \<or> serve_payload de ser env (?c, b) = (c', b')"
    using assms(1) by (auto simp: read_body_def Let_def split: if_splits)
  then show ?thesis
  proof
    assume "serve_payload de ser env (?c, b) = (c', b')"
    from read_keeps_trans [OF copied serve_payload_keeps [OF this]] show ?thesis .
  qed (use copied in simp)
qed

lemma read_some_keeps:
  assumes "read_some de ser env n (read_size k c arrived) (c, b, arrived) = (c', b', rest)"
  shows "read_keeps n (c, b) (c', b')"
proof (cases "cn_expected_payload c")
  case None
  with assms have "(c', b') = (read_header ser n (take (read_size k c arrived) arrived) c, b)" by (simp add: read_some_def)
  then show ?thesis using None by (auto intro!: read_header_keeps simp: read_size_def)
next
  case (Some len)
  with assms have "read_body de ser env (take (read_size k c arrived) arrived) (c, b) = (c', b')"
    by (auto simp: read_some_def Let_def split: prod.splits)
  then show ?thesis using Some by (intro read_body_keeps) auto
qed

lemma read_connection_keeps:
  assumes "read_connection de ser env n outcomes (c, b, arrived) = Some (keep, c', b', rest)"
  shows "read_keeps n (c, b) (c', b')"
  using assms
proof (induction outcomes arbitrary: c b arrived)
  case (Cons outcome outcomes)
  have same: "read_keeps n x x" for x by (simp add: read_keeps_def)
  show ?case
  proof (cases outcome)
    case (ReadSome k)
    obtain c1 b1 rest1 where st1: "read_some de ser env n (read_size k c arrived) (c, b, arrived) = (c1, b1, rest1)"
      by (metis prod_cases3)
    note first = read_some_keeps [OF st1]
    have "(c', b') = (c, b) \<or> (c', b') = (c1, b1) \<or>
        read_connection de ser env n outcomes (c1, b1, rest1) = Some (keep, c', b', rest)"
      using Cons.prems st1 ReadSome by (auto simp: Let_def split: if_splits)
    then consider "(c', b') = (c, b)" | "(c', b') = (c1, b1)" |
      "read_connection de ser env n outcomes (c1, b1, rest1) = Some (keep, c', b', rest)" by blast
    then show ?thesis
    proof cases
      case 3
      from read_keeps_trans [OF first Cons.IH [OF this]] show ?thesis .
    qed (use first same in simp_all)
  qed (use Cons same in auto)
qed simp

lemma write_connection_keeps:
  assumes "write_connection now outcomes (c, sent) = Some (keep, c', sent')"
  shows "(connection_ok rt c \<longrightarrow> connection_ok rt c') \<and> (cn_body_admitted c' \<longrightarrow> cn_body_admitted c)"
proof (cases "cn_output c")
  case None
  with assms show ?thesis by (simp add: write_connection_def)
next
  case (Some out)
  with assms have "write_loop now out outcomes (c, sent) = Some (keep, c', sent')" by (simp add: write_connection_def)
  then show ?thesis
  proof (induction outcomes arbitrary: c sent)
    case (Cons outcome outcomes)
    show ?case
    proof (cases outcome)
      case (WriteSome k)
      let ?c = "c\<lparr>cn_output_offset := cn_output_offset c + min k (length out - cn_output_offset c)\<rparr>"
      have "c' = ?c \<or> c' = connection_reset now ?c \<or>
          (\<exists>sent1. write_loop now out outcomes (?c, sent1) = Some (keep, c', sent'))"
        using Cons.prems WriteSome by (auto simp: Let_def split: if_splits)
      then show ?thesis using Cons.IH [of ?c] by (auto simp: connection_ok_def connection_reset_def)
    qed (use Cons in auto)
  qed simp
qed

section \<open>Counting body readers\<close>

abbreviation admitted :: "connection \<Rightarrow> nat" where
  "admitted c \<equiv> if cn_body_admitted c then 1 else 0"

lemma body_readers_Cons [simp]: "body_readers [] = 0" "body_readers (entry # conns) = admitted (snd entry) + body_readers conns"
  by (simp_all add: body_readers_def)

lemma body_readers_insert: "body_readers (btree_insert fd c conns) \<le> admitted c + body_readers conns"
  by (induction fd c conns rule: btree_insert.induct) auto

lemma insert_present:
  assumes "btree_wf conns" "btree_get fd conns = Some c"
  shows "body_readers (btree_insert fd c' conns) + admitted c = body_readers conns + admitted c'"
    and "length (btree_insert fd c' conns) = length conns"
proof -
  have "body_readers (btree_insert fd c' conns) + admitted c = body_readers conns + admitted c' \<and>
      length (btree_insert fd c' conns) = length conns"
    using assms
  proof (induction fd c' conns rule: btree_insert.induct)
    case (2 fd c' fd1 c1 conns)
    have "fd1 \<le> fd"
    proof (cases "fd = fd1")
      case False
      with 2(3) have "fd \<in> fst ` set conns" by (auto simp: btree_get_def dest!: map_of_SomeD intro: rev_image_eqI)
      with 2(2) show ?thesis by (auto simp: btree_wf_def)
    qed simp
    then show ?case using 2 by (auto simp: btree_wf_def btree_get_def)
  qed (simp add: btree_get_def)
  then show "body_readers (btree_insert fd c' conns) + admitted c = body_readers conns + admitted c'"
    "length (btree_insert fd c' conns) = length conns" by simp_all
qed

lemma remove_less: "body_readers (btree_remove fd conns) \<le> body_readers conns" "length (btree_remove fd conns) \<le> length conns"
  by (induction fd conns rule: btree_remove.induct) auto

section \<open>The server machine\<close>

definition server_inv :: "server \<Rightarrow> bool" where
  "server_inv sv \<longleftrightarrow> backend_inv (sv_backend sv) \<and> btree_wf (sv_connections sv) \<and>
     length (sv_connections sv) \<le> MAX_CONNECTIONS \<and> body_readers (sv_connections sv) \<le> MAX_BODY_READERS \<and>
     (\<forall>(_, c) \<in> set (sv_connections sv). connection_ok (bk_runtime (sv_backend sv)) c)"

lemma accept_inv:
  assumes "accept_loop rt now outcomes taken conns = Some (ok, conns')"
    and "btree_wf conns" "length conns \<le> MAX_CONNECTIONS" "body_readers conns \<le> MAX_BODY_READERS"
    and "\<forall>(_, c) \<in> set conns. connection_ok rt c"
  shows "btree_wf conns' \<and> length conns' \<le> MAX_CONNECTIONS \<and> body_readers conns' \<le> MAX_BODY_READERS \<and>
    (\<forall>(_, c) \<in> set conns'. connection_ok rt c)"
  using assms
proof (induction outcomes arbitrary: taken conns)
  case (Cons outcome outcomes)
  show ?case
  proof (cases outcome)
    case (Accepted fd cloexec_ok peer nonblocking_ok)
    show ?thesis
    proof (cases "taken < MAX_ACCEPTS_PER_TICK \<and> cloexec_ok \<and> nonblocking_ok \<and>
        (\<exists>p. peer = Some p \<and> authorized_peer rt p \<and> length conns < MAX_CONNECTIONS)")
      case True
      then obtain p where p: "peer = Some p" "authorized_peer rt p" "length conns < MAX_CONNECTIONS" by blast
      let ?new = "connection_new p now"
      have new: "connection_ok rt ?new" "admitted ?new = 0" using p(2) by (simp_all add: connection_ok_def connection_new_def)
      have "accept_loop rt now outcomes (Suc taken) (btree_insert fd ?new conns) = Some (ok, conns')"
        using Cons.prems(1) True p Accepted by (simp add: not_le)
      then show ?thesis
      proof (rule Cons.IH)
        show "length (btree_insert fd ?new conns) \<le> MAX_CONNECTIONS" using length_insert [of fd ?new conns] p(3) by simp
        show "body_readers (btree_insert fd ?new conns) \<le> MAX_BODY_READERS"
          using body_readers_insert [of fd ?new conns] new(2) Cons.prems(4) by simp
        show "\<forall>(_, c) \<in> set (btree_insert fd ?new conns). connection_ok rt c"
          using Cons.prems(5) new(1) by (auto dest!: btree_insert_mem)
      qed (use Cons.prems(2) in \<open>rule btree_wf_insert\<close>)
    next
      case False
      then have "conns' = conns \<or> accept_loop rt now outcomes (Suc taken) conns = Some (ok, conns')"
        using Cons.prems(1) Accepted by (auto split: option.splits if_splits)
      then show ?thesis
      proof
        assume "accept_loop rt now outcomes (Suc taken) conns = Some (ok, conns')"
        then show ?thesis using Cons.prems(2-5) by (rule Cons.IH)
      qed (use Cons.prems in simp)
    qed
  next
    case AcceptInterrupted
    show ?thesis
    proof (cases "taken < MAX_ACCEPTS_PER_TICK")
      case True
      with Cons.prems(1) AcceptInterrupted have "accept_loop rt now outcomes taken conns = Some (ok, conns')" by simp
      then show ?thesis using Cons.prems(2-5) by (rule Cons.IH)
    qed (use Cons.prems in auto)
  qed (use Cons.prems in \<open>auto split: if_splits\<close>)
qed (auto split: if_splits)

lemma ready_inv:
  assumes "server_inv sv"
  shows "server_inv (serve_ready de ser env fd readable writable reads writes arrived sv)"
proof (cases "handle_connection de ser env fd readable writable reads writes arrived (sv_connections sv, sv_backend sv)")
  case None
  with assms show ?thesis by (simp add: serve_ready_def)
next
  case (Some r)
  let ?conns = "sv_connections sv" and ?b = "sv_backend sv"
  obtain arrived' sent conns' b' where r: "r = (arrived', sent, conns', b')" by (metis prod_cases4)
  have sv': "serve_ready de ser env fd readable writable reads writes arrived sv = sv\<lparr>sv_connections := conns', sv_backend := b'\<rparr>"
    using Some r by (simp add: serve_ready_def)
  show ?thesis
  proof (cases "btree_get fd ?conns")
    case None
    with Some r have "conns' = ?conns" "b' = ?b" by (simp_all add: handle_connection_def)
    with sv' assms show ?thesis by (simp add: server_inv_def)
  next
    case (Some c)
    let ?n = "body_readers ?conns"
    from \<open>handle_connection _ _ _ _ _ _ _ _ _ _ = Some r\<close> obtain keep c1 b1 rest
      where run1: "(if readable then read_connection de ser env ?n reads (c, ?b, arrived) else Some (True, (c, ?b, arrived))) =
          Some (keep, c1, b1, rest)"
        and run2: "Option.bind (if keep \<and> writable then write_connection (se_now env) writes (c1, []) else Some (keep, c1, []))
          (\<lambda>(keep, c, sent). Some (rest, sent, if keep then btree_insert fd c ?conns else btree_remove fd ?conns, b1)) = Some r"
      by (simp only: handle_connection_def Let_def prod.case option.case Some Option.bind_eq_Some_conv)
        (auto simp only: prod.case Option.bind_eq_Some_conv)
    have c1: "read_keeps ?n (c, ?b) (c1, b1)"
    proof (cases readable)
      case True
      with run1 show ?thesis by (auto intro: read_connection_keeps)
    qed (use run1 in \<open>simp add: read_keeps_def\<close>)
    from run2 obtain keep2 c2 sent2
      where w: "(if keep \<and> writable then write_connection (se_now env) writes (c1, []) else Some (keep, c1, [])) = Some (keep2, c2, sent2)"
        and "r = (rest, sent2, if keep2 then btree_insert fd c2 ?conns else btree_remove fd ?conns, b1)"
      by (simp only: Option.bind_eq_Some_conv) (auto simp only: prod.case option.inject)
    then have out: "conns' = (if keep2 then btree_insert fd c2 ?conns else btree_remove fd ?conns)" "b' = b1" using r by auto
    have c2: "(connection_ok rt c1 \<longrightarrow> connection_ok rt c2) \<and> (cn_body_admitted c2 \<longrightarrow> cn_body_admitted c1)" for rt
    proof (cases "keep \<and> writable")
      case True
      with w show ?thesis by (auto dest: write_connection_keeps [of _ _ _ _ _ _ _ rt])
    qed (use w in auto)
    have wf: "btree_wf ?conns" and small: "length ?conns \<le> MAX_CONNECTIONS" "?n \<le> MAX_BODY_READERS"
      and ok: "\<And>key c. (key, c) \<in> set ?conns \<Longrightarrow> connection_ok (bk_runtime ?b) c"
      using assms by (auto simp: server_inv_def)
    have kept: "connection_ok (bk_runtime b1) = connection_ok (bk_runtime ?b)"
      using c1 by (intro connection_ok_setup) (simp add: read_keeps_def)
    have okc: "connection_ok (bk_runtime b1) c2"
      using c1 c2 ok [OF btree_get_mem [OF Some]] by (simp add: read_keeps_def)
    have count: "body_readers (btree_insert fd c2 ?conns) \<le> MAX_BODY_READERS"
      using insert_present(1) [OF wf Some, of c2] c1 c2 small(2) by (auto simp: read_keeps_def split: if_splits)
    have "backend_inv b1" using c1 assms by (simp add: read_keeps_def server_inv_def)
    moreover have "btree_wf conns'" using out(1) wf by (auto intro: wf_intros)
    moreover have "length conns' \<le> MAX_CONNECTIONS" "body_readers conns' \<le> MAX_BODY_READERS"
      using out(1) count insert_present(2) [OF wf Some, of c2] remove_less [of fd ?conns] small by auto
    moreover have "connection_ok (bk_runtime b1) c'" if "(key, c') \<in> set conns'" for key c'
      using that out(1) okc ok kept by (auto dest!: btree_insert_mem btree_remove_mem split: if_splits)
    ultimately show ?thesis unfolding sv' out(2) by (auto simp: server_inv_def)
  qed
qed

lemma expire_connection_keeps:
  assumes "expire_connection ser now c = Some c'"
  shows "cn_body_admitted c' = cn_body_admitted c" "connection_ok rt c' = connection_ok rt c"
  using assms by (auto simp: expire_connection_def connection_ok_def split: if_splits option.splits)

lemma expire_keeps:
  fixes ser :: "('v server_message, 'j) serializer"
  defines "expire now \<equiv> List.map_filter (\<lambda>(fd, c). map_option (Pair fd) (expire_connection ser now c))"
  shows "btree_wf conns \<Longrightarrow> btree_wf (expire now conns)" "length (expire now conns) \<le> length conns"
    "body_readers (expire now conns) \<le> body_readers conns"
    "\<forall>(_, c) \<in> set conns. connection_ok rt c \<Longrightarrow> \<forall>(_, c) \<in> set (expire now conns). connection_ok rt c"
proof -
  have keys: "fst entry \<in> fst ` set m" if "entry \<in> set (expire now m)" for entry m
    using that unfolding expire_def by (induction m) (auto simp: List.map_filter_simps split: option.splits)
  show "btree_wf (expire now conns)" if "btree_wf conns"
    using that
  proof (induction conns)
    case (Cons entry conns)
    then show ?case using keys [of _ conns] unfolding expire_def
      by (cases entry) (fastforce simp: List.map_filter_simps btree_wf_def split: option.splits)
  qed (simp add: expire_def List.map_filter_simps)
  show "length (expire now conns) \<le> length conns"
    unfolding expire_def by (induction conns) (auto simp: List.map_filter_simps split: option.splits)
  show "body_readers (expire now conns) \<le> body_readers conns"
    unfolding expire_def by (induction conns) (auto simp: List.map_filter_simps expire_connection_keeps(1) split: option.splits)
  show "\<forall>(_, c) \<in> set (expire now conns). connection_ok rt c" if "\<forall>(_, c) \<in> set conns. connection_ok rt c"
    using that unfolding expire_def
    by (induction conns) (auto simp: List.map_filter_simps expire_connection_keeps(2) split: option.splits)
qed

lemma connection_ok_runtime [simp]:
  "connection_ok (set_active_connections k rt) = connection_ok rt" "connection_ok (mark_stopping rt) = connection_ok rt"
  by (auto simp: connection_ok_def authorized_peer_def set_active_connections_def mark_stopping_def)

lemma transactions_ok_runtime [simp]:
  "transactions_ok (set_active_connections k rt) = transactions_ok rt" "transactions_ok (mark_stopping rt) = transactions_ok rt"
  by (simp_all add: transactions_ok_def set_active_connections_def mark_stopping_def)

lemma server_step_inv:
  assumes "server_inv sv"
  shows "server_inv (server_step de ser event sv)"
proof (cases event)
  case (AcceptEvent now outcomes)
  show ?thesis
  proof (cases "sv_listening sv \<and> accept_connections (bk_runtime (sv_backend sv)) now outcomes (sv_connections sv) \<noteq> None")
    case True
    then obtain ok conns where run: "accept_loop (bk_runtime (sv_backend sv)) now outcomes 0 (sv_connections sv) = Some (ok, conns)"
      by (auto simp: accept_connections_def)
    have "btree_wf conns \<and> length conns \<le> MAX_CONNECTIONS \<and> body_readers conns \<le> MAX_BODY_READERS \<and>
        (\<forall>(_, c) \<in> set conns. connection_ok (bk_runtime (sv_backend sv)) c)"
      using assms by (intro accept_inv [OF run]) (auto simp: server_inv_def)
    with True run assms AcceptEvent show ?thesis by (auto simp: accept_connections_def server_inv_def)
  qed (use assms AcceptEvent in \<open>auto split: option.splits\<close>)
next
  case (ReadyEvent env fd readable writable reads writes arrived)
  then show ?thesis using ready_inv [OF assms] by simp
next
  case (BrokenEvent fd)
  with assms remove_less [of fd "sv_connections sv"] show ?thesis
    by (auto simp: server_inv_def intro: wf_intros dest!: btree_remove_mem)
next
  case (ExpireEvent now)
  with assms expire_keeps [where conns = "sv_connections sv" and ser = ser and now = now] show ?thesis
    unfolding server_inv_def backend_inv_def by (auto simp: expire_server_def expire_connections_def Let_def)
next
  case CountEvent
  with assms show ?thesis by (auto simp: server_inv_def backend_inv_def count_connections_def)
next
  case StopEvent
  with assms show ?thesis by (simp add: server_inv_def begin_stopping_def backend_inv_def btree_wf_def)
next
  case (HostEvent hs)
  with assms show ?thesis by (simp add: server_inv_def)
qed

lemma server_start_inv: "server_start sv \<Longrightarrow> server_inv sv"
  by (auto simp: server_start_def server_inv_def backend_inv_def transactions_ok_def btree_wf_def)

interpretation server: machine server_start "server_step de ser" server_inv for de :: "(client_message, 'j) deserializer" and ser :: "('v server_message, 'j) serializer"
  by unfold_locales (blast intro: server_start_inv server_step_inv)+

definition sample_de :: "(client_message, unit) deserializer" where "sample_de = (\<lambda>_. Inl ())"
definition sample_ser :: "(unit server_message, unit) serializer" where "sample_ser = (\<lambda>_. ([], None))"

definition sample_server :: "connections \<Rightarrow> server" where
  "sample_server conns = \<lparr>sv_listening = True, sv_connections = conns, sv_backend = sample_backend\<rparr>"

text \<open>
  C7. Bounds of the server. However clients connect, read, write, break off and time out, the server holds at most
  32 connections, all of them with root or with the user it started the container for, admits at most 4 request bodies
  at a time, keeps at most 256 transactions and at most 8 active ones for each owner.
\<close>

theorem server_bounds:
  assumes "server_start sv" "sv' = fold (server_step de ser) events sv"
  shows "length (sv_connections sv') \<le> 32 \<and> body_readers (sv_connections sv') \<le> 4 \<and>
    length (rt_transactions (bk_runtime (sv_backend sv'))) \<le> 256 \<and>
    active_count uid gid (rt_transactions (bk_runtime (sv_backend sv'))) \<le> 8 \<and>
    (\<forall>(_, c) \<in> set (sv_connections sv'). pc_uid (cn_peer c) = 0 \<or>
       pc_uid (cn_peer c) = id_uid (rt_startup_identity (bk_runtime (sv_backend sv'))))"
proof -
  have "server_inv sv'" unfolding assms(2) using assms(1) by (rule server.run_start_inv)
  then show ?thesis
    by (auto simp: server_inv_def backend_inv_def transactions_ok_def MAX_CONNECTIONS_def MAX_BODY_READERS_def MAX_TRANSACTIONS_def
        MAX_TRANSACTIONS_PER_PEER_def connection_ok_def authorized_peer_def authorized_peer_uid_def)
qed

theorem server_bounds_witness:
  "fold (server_step sample_de sample_ser) [AcceptEvent 0 [Accepted 5 True (Some sample_peer) True, AcceptWouldBlock]] (sample_server []) =
      sample_server [(5, connection_new sample_peer 0)] \<and>
    length (sv_connections (sample_server [(5, connection_new sample_peer 0)])) \<le> 32"
proof -
  let ?events = "[AcceptEvent 0 [Accepted 5 True (Some sample_peer) True, AcceptWouldBlock]]"
  have "server_start (sample_server [])" by (simp add: server_start_def sample_server_def sample_backend_def sample_runtime_def)
  moreover have run: "fold (server_step sample_de sample_ser) ?events (sample_server []) = sample_server [(5, connection_new sample_peer 0)]"
    by (simp add: sample_server_def accept_connections_def MAX_ACCEPTS_PER_TICK_def MAX_CONNECTIONS_def authorized_peer_def
        authorized_peer_uid_def sample_peer_def sample_backend_def sample_runtime_def drop_identity_def sample_resolved_def)
  ultimately show ?thesis using server_bounds [of "sample_server []" _ sample_de sample_ser ?events] by simp
qed

end
