(* ===== verification/Backend_Lifecycle.thy ===== *)
theory Backend_Lifecycle
  imports Backend_Connection
begin

text \<open>
  The life of the init backend (\<open>src/crates/container-init-backend/src/server/lifecycle.rs\<close> and
  \<open>src/crates/container-init-backend/src/server.rs\<close>): the lease on the endpoint, start up, the child it hands
  over to, and the loop that supervises the child and serves connections until it stops.
  One iteration of the loop meets the answers of a \<open>tick\<close>.
\<close>

section \<open>The initial child\<close>

record spawned =
  sp_pid :: u32
  sp_command :: handoff_command
  sp_cwd :: string
  sp_environment :: "(string \<times> string) list"
  sp_credentials :: credentials

datatype spawn_error = SpawnDenied | SpawnGroups group_error | SpawnFailed

definition handoff_environment :: "resolved_identity \<Rightarrow> bool \<Rightarrow> (string \<times> string) list" where
  "handoff_environment identity root_service =
     (if id_uid identity \<noteq> 0
      then [(''CONTAINER_INIT_HANDOFF_UID'', to_decimal (unat (id_uid identity))),
            (''CONTAINER_INIT_HANDOFF_GID'', to_decimal (unat (id_gid identity)))] else []) @
     (if root_service
      then [(''CONTAINER_INIT_HANDOFF_UID'', to_decimal (unat (id_uid identity))), (''HOME'', ''/root''),
            (''USER'', ''root''), (''LOGNAME'', ''root''), (''CONTAINER_INIT_HANDOFF_USER'', id_user identity)]
      else [(''HOME'', id_home identity), (''USER'', id_user identity), (''LOGNAME'', id_user identity)])"

text \<open>\<open>pre_exec\<close> in the child; \<open>unblocked\<close> tells whether the signal mask could be changed.\<close>

definition pre_exec ::
  "credential_calls \<Rightarrow> u32 list option \<Rightarrow> u32 \<Rightarrow> u32 \<Rightarrow> bool \<Rightarrow> credentials \<Rightarrow> credentials option" where
  "pre_exec calls groups uid gid unblocked creds =
     Option.bind (case groups of
        None \<Rightarrow> Some creds
      | Some groups \<Rightarrow>
          Option.bind (sys_setgroups calls creds groups) (\<lambda>creds.
          Option.bind (sys_setgid calls creds gid) (\<lambda>creds.
          sys_setuid calls creds uid))) (\<lambda>creds.
     if unblocked then Some creds else None)"

text \<open>\<open>started\<close> is the process id when the new process could be started.\<close>

definition spawn_handoff ::
  "backend_system \<Rightarrow> bool \<Rightarrow> u32 option \<Rightarrow> handoff_command \<Rightarrow> resolved_identity \<Rightarrow> bool \<Rightarrow> string \<Rightarrow> credentials \<Rightarrow>
   (spawn_error, spawned) result" where
  "spawn_handoff sys unblocked started handoff identity root_service cwd creds =
     (let change = \<not> root_service \<and> (id_uid identity \<noteq> cr_euid creds \<or> id_gid identity \<noteq> cr_egid creds) in
      rbind (if change then
               rbind (fail_if (cr_euid creds \<noteq> 0) SpawnDenied) (\<lambda>_.
               rbind (map_err SpawnGroups (supplementary_groups sys identity)) (\<lambda>groups. Inr (Some groups)))
             else Inr None) (\<lambda>groups.
      rbind (ok_or SpawnFailed (pre_exec (ex_calls (sy_executor sys)) groups (id_uid identity) (id_gid identity) unblocked creds))
        (\<lambda>child_creds.
      rbind (ok_or SpawnFailed started) (\<lambda>pid.
      Inr \<lparr>sp_pid = pid, sp_command = handoff, sp_cwd = cwd, sp_environment = handoff_environment identity root_service,
        sp_credentials = child_creds\<rparr>))))"

section \<open>Supervision\<close>

definition SHUTDOWN_GRACE :: nat where "SHUTDOWN_GRACE = 5 * 10 ^ 9"
definition SIGTERM :: int where "SIGTERM = 15"
definition SIGKILL :: int where "SIGKILL = 9"

datatype exit_status = ExitCode int | ExitSignal int

datatype supervise_error =
    ChildWaitFailed | SignalReadFailed | SignalTruncated | AdoptedWaitFailed | PollFailed | AcceptLoopFailed | HandoffTimedOut

text \<open>\<open>read\<close> on the signal descriptor, and \<open>waitpid(-1, \<dots>, WNOHANG)\<close>\<close>

datatype signal_read = SignalRecord int | SignalWouldBlock | SignalInterrupted | SignalShort | SignalError

fun read_shutdown_signal :: "signal_read \<Rightarrow> (supervise_error, int option) result" where
  "read_shutdown_signal (SignalRecord signal) = Inr (Some signal)"
| "read_shutdown_signal SignalWouldBlock = Inr None"
| "read_shutdown_signal SignalInterrupted = Inr None"
| "read_shutdown_signal SignalError = Inl SignalReadFailed"
| "read_shutdown_signal SignalShort = Inl SignalTruncated"

datatype wait_outcome = WaitReaped | WaitRunning | WaitInterrupted | WaitNoChild | WaitError

fun reap_adopted_children :: "wait_outcome list \<Rightarrow> (supervise_error, bool) result option" where
  "reap_adopted_children [] = None"
| "reap_adopted_children (WaitReaped # waits) = reap_adopted_children waits"
| "reap_adopted_children (WaitRunning # waits) = Some (Inr False)"
| "reap_adopted_children (WaitInterrupted # waits) = Some (Inr True)"
| "reap_adopted_children (WaitNoChild # waits) = Some (Inr True)"
| "reap_adopted_children (WaitError # waits) = Some (Inl AdoptedWaitFailed)"

datatype poll_target = ListenerTarget | SignalTarget | ConnectionTarget nat

record poll_events =
  ev_in :: bool
  ev_out :: bool
  ev_hup :: bool
  ev_err :: bool
  ev_nval :: bool

definition no_events :: poll_events where
  "no_events = \<lparr>ev_in = False, ev_out = False, ev_hup = False, ev_err = False, ev_nval = False\<rparr>"

definition poll_descriptors :: "bool \<Rightarrow> connections \<Rightarrow> (poll_target \<times> poll_events) list" where
  "poll_descriptors listening conns =
     (if listening then [(ListenerTarget, no_events\<lparr>ev_in := True\<rparr>)] else []) @
     [(SignalTarget, no_events\<lparr>ev_in := True\<rparr>)] @
     map (\<lambda>(fd, c). (ConnectionTarget fd,
       if cn_output c \<noteq> None then no_events\<lparr>ev_out := True\<rparr> else no_events\<lparr>ev_in := True\<rparr>)) conns"

text \<open>
  \<open>poll\<close> is asked for the events of every descriptor and answers with the events that occurred. The code
  walks its \<open>HashMap\<close> in some order; the model walks by descriptor.
\<close>

datatype poll_answer = PollInterrupted | PollError | PollEvents "poll_target \<Rightarrow> poll_events \<Rightarrow> poll_events"

text \<open>What an iteration meets. \<open>tk_io\<close> holds the answers of \<open>read\<close> and \<open>write\<close> on a connection.\<close>

record 'v tick =
  tk_try_wait :: "exit_status option option"
  tk_signal :: signal_read
  tk_stop_now :: nat
  tk_grace_now :: nat
  tk_limit_now :: nat
  tk_waits :: "wait_outcome list"
  tk_poll :: poll_answer
  tk_accept_now :: nat
  tk_accepts :: "accept_outcome list"
  tk_io :: "nat \<Rightarrow> 'v service_env \<times> read_outcome list \<times> write_outcome list \<times> bytes"
  tk_expire_now :: nat

record supervisor =
  su_child_pid :: u32
  su_server :: server
  su_child_status :: "exit_status option"
  su_stopping_since :: "nat option"
  su_sent_kill :: bool
  su_kills :: "(int \<times> int) list"

text \<open>A signal for the process group of the child.\<close>

definition kill_group :: "int \<Rightarrow> supervisor \<Rightarrow> supervisor" where
  "kill_group signal su = su\<lparr>su_kills := su_kills su @ [(- sint (su_child_pid su), signal)]\<rparr>"

definition start_stopping :: "nat \<Rightarrow> int \<Rightarrow> supervisor \<Rightarrow> supervisor" where
  "start_stopping now signal su =
     (kill_group signal (su\<lparr>su_server := begin_stopping (su_server su)\<rparr>))\<lparr>su_stopping_since := Some now\<rparr>"

definition reap_main_child :: "'v tick \<Rightarrow> (supervisor, supervise_error, unit) effect" where
  "reap_main_child tk su =
     (if su_child_status su = None
      then (case tk_try_wait tk of None \<Rightarrow> (Inl ChildWaitFailed, su) | Some status \<Rightarrow> (Inr (), su\<lparr>su_child_status := status\<rparr>))
      else (Inr (), su))"

definition stop_after_child :: "'v tick \<Rightarrow> (supervisor, supervise_error, unit) effect" where
  "stop_after_child tk su =
     (Inr (), if su_child_status su \<noteq> None \<and> su_stopping_since su = None then start_stopping (tk_stop_now tk) SIGTERM su else su)"

definition stop_on_signal :: "'v tick \<Rightarrow> int option \<Rightarrow> (supervisor, supervise_error, unit) effect" where
  "stop_on_signal tk signal su =
     (Inr (), case signal of
        Some signal \<Rightarrow> if su_stopping_since su = None then start_stopping (tk_stop_now tk) signal su else su
      | None \<Rightarrow> su)"

text \<open>The first half of an iteration: who has ended, and whether to stop.\<close>

definition watch_child :: "'v tick \<Rightarrow> (supervisor, supervise_error, unit) effect" where
  "watch_child tk =
     ebind (reap_main_child tk) (\<lambda>_.
     ebind (stop_after_child tk) (\<lambda>_.
     ebind (elift (read_shutdown_signal (tk_signal tk))) (stop_on_signal tk)))"

definition escalate :: "'v tick \<Rightarrow> nat \<Rightarrow> supervisor \<Rightarrow> supervisor" where
  "escalate tk started su =
     (if su_child_status su = None \<and> \<not> su_sent_kill su \<and> SHUTDOWN_GRACE \<le> tk_grace_now tk - started
      then (kill_group SIGKILL su)\<lparr>su_sent_kill := True\<rparr> else su)"

text \<open>Whether the loop ends: \<open>Some (Inr True)\<close> is \<open>break\<close>.\<close>

definition finished_stopping :: "'v tick \<Rightarrow> nat \<Rightarrow> supervisor \<Rightarrow> (supervise_error, bool) result option" where
  "finished_stopping tk started su =
     Option.bind (if su_child_status su \<noteq> None \<and> sv_connections (su_server su) = []
                  then reap_adopted_children (tk_waits tk) else Some (Inr False)) (\<lambda>r.
     Some (rbind r (\<lambda>gone. Inr (gone \<or> SHUTDOWN_GRACE + 10 ^ 9 \<le> tk_limit_now tk - started))))"

text \<open>A descriptor on which something happened.\<close>

definition serve_target ::
  "(client_message, 'j) deserializer \<Rightarrow> ('v server_message, 'j) serializer \<Rightarrow> 'v tick \<Rightarrow>
   poll_target \<times> poll_events \<Rightarrow> server \<Rightarrow> (supervise_error, server) result option" where
  "serve_target de ser tk ready sv =
     (case ready of
        (ListenerTarget, ev) \<Rightarrow>
          if (ev_in ev \<or> ev_hup ev) \<and> sv_listening sv then
            map_option (\<lambda>(ok, conns). if ok then Inr (sv\<lparr>sv_connections := conns\<rparr>) else Inl AcceptLoopFailed)
              (accept_connections (bk_runtime (sv_backend sv)) (tk_accept_now tk) (tk_accepts tk) (sv_connections sv))
          else Some (Inr sv)
      | (SignalTarget, ev) \<Rightarrow> Some (Inr sv)
      | (ConnectionTarget fd, ev) \<Rightarrow>
          if ev_err ev \<or> ev_nval ev then Some (Inr (sv\<lparr>sv_connections := btree_remove fd (sv_connections sv)\<rparr>))
          else if contains_key fd (sv_connections sv) then
            (case tk_io tk fd of
               (env, reads, writes, arrived) \<Rightarrow>
                 map_option (\<lambda>(_, _, conns, b). Inr (sv\<lparr>sv_connections := conns, sv_backend := b\<rparr>))
                   (handle_connection de ser env fd (ev_in ev \<or> ev_hup ev) (ev_out ev) reads writes arrived
                     (sv_connections sv, sv_backend sv)))
          else Some (Inr sv))"

primrec serve_targets ::
  "(client_message, 'j) deserializer \<Rightarrow> ('v server_message, 'j) serializer \<Rightarrow> 'v tick \<Rightarrow>
   (poll_target \<times> poll_events) list \<Rightarrow> server \<Rightarrow> (supervise_error, server) result option" where
  "serve_targets de ser tk [] sv = Some (Inr sv)"
| "serve_targets de ser tk (ready # rest) sv =
     Option.bind (serve_target de ser tk ready sv) (\<lambda>r.
       case r of Inl e \<Rightarrow> Some (Inl e) | Inr sv \<Rightarrow> serve_targets de ser tk rest sv)"

definition poll_and_serve ::
  "(client_message, 'j) deserializer \<Rightarrow> ('v server_message, 'j) serializer \<Rightarrow> 'v tick \<Rightarrow> server \<Rightarrow>
   (supervise_error, server) result option" where
  "poll_and_serve de ser tk sv =
     (let sv = count_connections sv in
      case tk_poll tk of
        PollInterrupted \<Rightarrow> Some (Inr sv)
      | PollError \<Rightarrow> Some (Inl PollFailed)
      | PollEvents answer \<Rightarrow>
          let ready = filter (\<lambda>(_, ev). ev \<noteq> no_events)
                (map (\<lambda>(target, wanted). (target, answer target wanted)) (poll_descriptors (sv_listening sv) (sv_connections sv))) in
          map_option (map_sum id (expire_server ser (tk_expire_now tk))) (serve_targets de ser tk ready sv))"

text \<open>
  After an error of \<open>accept\<close> the connections are dropped with the process; \<open>Break\<close> has the state before
  \<open>poll\<close>.
\<close>

datatype progress = Continue supervisor | Finish supervisor | Break supervise_error supervisor

definition supervise_tick ::
  "(client_message, 'j) deserializer \<Rightarrow> ('v server_message, 'j) serializer \<Rightarrow> 'v tick \<Rightarrow> supervisor \<Rightarrow> progress option" where
  "supervise_tick de ser tk su =
     (case watch_child tk su of
        (Inl e, su) \<Rightarrow> Some (Break e su)
      | (Inr _, su) \<Rightarrow>
          let su = (case su_stopping_since su of None \<Rightarrow> su | Some started \<Rightarrow> escalate tk started su) in
          Option.bind (case su_stopping_since su of None \<Rightarrow> Some (Inr False) | Some started \<Rightarrow> finished_stopping tk started su) (\<lambda>stop.
          case stop of
            Inl e \<Rightarrow> Some (Break e su)
          | Inr True \<Rightarrow> Some (Finish su)
          | Inr False \<Rightarrow>
              map_option (\<lambda>r. case r of Inl e \<Rightarrow> Break e su | Inr sv \<Rightarrow> Continue (su\<lparr>su_server := sv\<rparr>))
                (poll_and_serve de ser tk (su_server su))))"

definition exit_code :: "exit_status option \<Rightarrow> (supervise_error, int) result" where
  "exit_code status =
     (case status of
        None \<Rightarrow> Inl HandoffTimedOut
      | Some (ExitCode code) \<Rightarrow> Inr code
      | Some (ExitSignal signal) \<Rightarrow> Inr (128 + signal))"

text \<open>\<open>None\<close> means that the loop still runs when the ticks are used up.\<close>

definition close_supervisor :: "supervisor \<Rightarrow> supervisor" where
  "close_supervisor su =
     su\<lparr>su_server := (su_server su)\<lparr>sv_listening := False,
       sv_backend := (sv_backend (su_server su))\<lparr>bk_runtime := mark_stopping (bk_runtime (sv_backend (su_server su)))\<rparr>\<rparr>\<rparr>"

primrec supervise ::
  "(client_message, 'j) deserializer \<Rightarrow> ('v server_message, 'j) serializer \<Rightarrow> 'v tick list \<Rightarrow> supervisor \<Rightarrow>
   ((supervise_error, int) result \<times> supervisor) option" where
  "supervise de ser [] su = None"
| "supervise de ser (tk # ticks) su =
     (case supervise_tick de ser tk su of
        None \<Rightarrow> None
      | Some (Continue su') \<Rightarrow> supervise de ser ticks su'
      | Some (Finish su') \<Rightarrow> Some (exit_code (su_child_status su'), close_supervisor su')
      | Some (Break e su') \<Rightarrow> Some (Inl e, su'))"

definition supervise_init :: "u32 \<Rightarrow> backend \<Rightarrow> supervisor" where
  "supervise_init child_pid b =
     \<lparr>su_child_pid = child_pid, su_server = \<lparr>sv_listening = True, sv_connections = [], sv_backend = b\<rparr>,
      su_child_status = None, su_stopping_since = None, su_sent_kill = False, su_kills = []\<rparr>"

section \<open>Claiming the endpoint\<close>

text \<open>
  One request for the status of the backend that holds the endpoint: the clock before it, its answer, the
  clock at the test for a retry and at the pause.
\<close>

record status_attempt =
  sa_before :: nat
  sa_answer :: "backend_status option"
  sa_failed_at :: nat
  sa_pause_at :: nat

datatype claim_error = ClaimWrongOwner | ClaimNonblocking | ClaimBindFailed | ClaimDeadlineInvalid | ClaimTimedOut | ClaimUnverified

text \<open>The third argument is the pause before the next attempt; the pauses made are returned with the result.\<close>

primrec status_loop ::
  "nat \<Rightarrow> status_attempt list \<Rightarrow> nat \<Rightarrow> nat list \<Rightarrow> ((claim_error, backend_status) result \<times> nat list) option" where
  "status_loop deadline [] delay pauses = None"
| "status_loop deadline (attempt # attempts) delay pauses =
     (if deadline - sa_before attempt = 0 then Some (Inl ClaimTimedOut, pauses)
      else
        (case sa_answer attempt of
           Some status \<Rightarrow> Some (Inr status, pauses)
         | None \<Rightarrow>
             if sa_failed_at attempt < deadline
             then status_loop deadline attempts (min (delay * 2) (100 * 10 ^ 6))
               (pauses @ [min delay (deadline - sa_pause_at attempt)])
             else Some (Inl ClaimUnverified, pauses)))"

definition request_existing_status ::
  "nat \<Rightarrow> nat \<Rightarrow> status_attempt list \<Rightarrow> ((claim_error, backend_status) result \<times> nat list) option" where
  "request_existing_status now timeout attempts =
     (case instant_checked_add now timeout of
        None \<Rightarrow> Some (Inl ClaimDeadlineInvalid, [])
      | Some deadline \<Rightarrow> status_loop deadline attempts (10 * 10 ^ 6) [])"

datatype bind_outcome = BindOk bool | BindInUse | BindError

datatype backend_claim = Acquired | AlreadyRunning backend_status

definition claim ::
  "u32 \<Rightarrow> u32 \<Rightarrow> bind_outcome \<Rightarrow> nat \<Rightarrow> nat \<Rightarrow> status_attempt list \<Rightarrow> (claim_error, backend_claim) result option" where
  "claim owner_uid euid bound now timeout attempts =
     (if owner_uid \<noteq> euid then Some (Inl ClaimWrongOwner)
      else
        (case bound of
           BindOk nonblocking_ok \<Rightarrow> Some (if nonblocking_ok then Inr Acquired else Inl ClaimNonblocking)
         | BindInUse \<Rightarrow>
             map_option (\<lambda>(r, _). rbind r (\<lambda>status. Inr (AlreadyRunning status))) (request_existing_status now timeout attempts)
         | BindError \<Rightarrow> Some (Inl ClaimBindFailed)))"

section \<open>Start up\<close>

record backend_start_options =
  bs_profile :: string
  bs_config :: bootstrap_config
  bs_plan :: "planned_action list"
  bs_startup_context :: runtime_context
  bs_command :: "string list"

text \<open>
  What start up meets: the system, the serialised snapshot, the signal mask, the listener, the child that is
  started, the process id and the clock.
\<close>

record startup_env =
  se_startup :: backend_system
  se_snapshot :: "u8 list option"
  se_masked :: bool
  se_listener :: bool
  se_unblocked :: bool
  se_child :: "u32 option"
  se_pid :: u32
  se_clock :: u64

datatype backend_run_error = RunCore core_error | RunIo | RunSpawn spawn_error

definition build_plan :: "bootstrap_config \<Rightarrow> (core_error, planned_action list) result" where
  "build_plan config = (case plan_from_config config of None \<Rightarrow> Inl CorePanic | Some r \<Rightarrow> map_err CoreModel r)"

definition initial_runtime ::
  "startup_env \<Rightarrow> backend_start_options \<Rightarrow> string \<Rightarrow> planned_action list \<Rightarrow> allowed_client_values \<Rightarrow> resolved_identity \<Rightarrow> u32 \<Rightarrow>
   backend_runtime" where
  "initial_runtime env options snapshot_id request_plan allowed identity child_pid =
     \<lparr>rt_profile = bs_profile options, rt_snapshot_id = snapshot_id, rt_config = bs_config options,
      rt_plan = bs_plan options, rt_request_config = request_config (bs_config options),
      rt_request_plan = request_plan, rt_startup_identity = identity, rt_allowed = allowed, rt_transactions = [],
      rt_status = \<lparr>st_state = BackendReady, st_profile = bs_profile options, st_snapshot_id = snapshot_id,
        st_backend_pid = se_pid env, st_initial_child_pid = Some child_pid,
        st_started_unix_seconds = se_clock env, st_active_connections = 0\<rparr>,
      rt_active_connections = 0\<rparr>"

definition backend_start ::
  "startup_env \<Rightarrow> u32 \<Rightarrow> backend_start_options \<Rightarrow> (host_state, backend_run_error, spawned \<times> backend_runtime) effect" where
  "backend_start env owner_uid options =
     ebind (elift (fail_if (\<not> se_masked env) RunIo)) (\<lambda>_.
     ebind (elift (map_err RunCore (calculate_snapshot_id (se_snapshot env)))) (\<lambda>snapshot_id.
     let startup = startup_config (bs_config options); request = request_config (bs_config options) in
     ebind (elift (map_err RunCore (build_plan startup))) (\<lambda>startup_plan.
     ebind (elift (map_err RunCore (build_plan request))) (\<lambda>request_plan.
     ebind (elift (map_err RunCore (allowed_client_values request))) (\<lambda>allowed.
     ebind (emap_err RunCore (execute_internal
       ((sy_executor (se_startup env))\<lparr>ex_config := startup, ex_context := bs_startup_context options\<rparr>) startup_plan [] None)) (\<lambda>report.
     let identity = er_identity report;
         root_service = is_root_service (bs_config options) (bs_command options) owner_uid True in
     ebind (elift (map_err RunCore (from_initial_config (bc_handoff (bs_config options)) (bs_command options)))) (\<lambda>handoff.
     ebind (egets (\<lambda>hs. fail_if (cr_euid (hs_creds hs) \<noteq> 0 \<and>
         (id_uid identity \<noteq> cr_euid (hs_creds hs) \<or> id_gid identity \<noteq> cr_egid (hs_creds hs)))
       (RunCore (CorePermission None PermissionDenied)))) (\<lambda>_.
     ebind (elift (fail_if (\<not> se_listener env) RunIo)) (\<lambda>_.
     ebind (egets (\<lambda>hs. map_err RunSpawn (spawn_handoff (se_startup env) (se_unblocked env) (se_child env) handoff identity
       root_service (rc_cwd (bs_startup_context options)) (hs_creds hs)))) (\<lambda>child.
     eret (child, initial_runtime env options snapshot_id request_plan allowed identity (sp_pid child))))))))))))"

section \<open>The loop drives the server\<close>

text \<open>What an iteration does to the server is a sequence of server events.\<close>

definition steps_to ::
  "(client_message, 'j) deserializer \<Rightarrow> ('v server_message, 'j) serializer \<Rightarrow> server \<Rightarrow> server \<Rightarrow> bool" where
  "steps_to de ser sv sv' \<longleftrightarrow> (\<exists>events. sv' = fold (server_step de ser) events sv)"

lemma steps_to_refl [simp]: "steps_to de ser sv sv"
  unfolding steps_to_def by (rule exI [of _ "[]"]) simp

lemma steps_to_step: "steps_to de ser sv sv1 \<Longrightarrow> steps_to de ser sv (server_step de ser event sv1)"
  unfolding steps_to_def by (metis fold_append fold_simps comp_apply)

lemma steps_to_trans: "steps_to de ser sv sv1 \<Longrightarrow> steps_to de ser sv1 sv2 \<Longrightarrow> steps_to de ser sv sv2"
  unfolding steps_to_def by (metis fold_append comp_apply)

lemma steps_to_start: "steps_to de ser sv sv' \<Longrightarrow> server_start sv \<Longrightarrow> server_inv sv'"
  unfolding steps_to_def by (auto intro: server.run_start_inv)

lemma serve_target_steps:
  assumes "serve_target de ser tk ready sv = Some (Inr sv')"
  shows "steps_to de ser sv sv'"
proof -
  obtain target ev where ready: "ready = (target, ev)" by (cases ready)
  have "sv' = sv \<or> (\<exists>event. sv' = server_step de ser event sv)"
  proof (cases target)
    case ListenerTarget
    show ?thesis
    proof (cases "(ev_in ev \<or> ev_hup ev) \<and> sv_listening sv")
      case True
      with assms ready ListenerTarget have "sv' = server_step de ser (AcceptEvent (tk_accept_now tk) (tk_accepts tk)) sv"
        by (auto simp: serve_target_def split: if_splits)
      then show ?thesis by blast
    qed (use assms ready ListenerTarget in \<open>auto simp: serve_target_def\<close>)
  next
    case (ConnectionTarget fd)
    obtain env reads writes arrived where io: "tk_io tk fd = (env, reads, writes, arrived)" by (metis prod_cases4)
    show ?thesis
    proof (cases "ev_err ev \<or> ev_nval ev")
      case True
      with assms ready ConnectionTarget have "sv' = server_step de ser (BrokenEvent fd) sv" by (simp add: serve_target_def)
      then show ?thesis by blast
    next
      case False
      show ?thesis
      proof (cases "contains_key fd (sv_connections sv)")
        case True
        with False assms ready ConnectionTarget io
        have "sv' = server_step de ser (ReadyEvent env fd (ev_in ev \<or> ev_hup ev) (ev_out ev) reads writes arrived) sv"
          by (auto simp: serve_target_def serve_ready_def)
        then show ?thesis by blast
      qed (use False assms ready ConnectionTarget in \<open>simp add: serve_target_def\<close>)
    qed
  qed (use assms ready in \<open>simp add: serve_target_def\<close>)
  then show ?thesis using steps_to_step [OF steps_to_refl] by auto
qed

lemma serve_targets_steps: "serve_targets de ser tk targets sv = Some (Inr sv') \<Longrightarrow> steps_to de ser sv sv'"
proof (induction targets arbitrary: sv)
  case (Cons ready targets)
  then obtain r where r: "serve_target de ser tk ready sv = Some r"
    "(case r of Inl e \<Rightarrow> Some (Inl e) | Inr sv \<Rightarrow> serve_targets de ser tk targets sv) = Some (Inr sv')"
    by (auto simp: Option.bind_eq_Some_conv)
  then obtain sv1 where "serve_target de ser tk ready sv = Some (Inr sv1)" "serve_targets de ser tk targets sv1 = Some (Inr sv')"
    by (cases r) auto
  then show ?case using Cons.IH serve_target_steps steps_to_trans by blast
qed simp

lemma poll_and_serve_steps:
  assumes "poll_and_serve de ser tk sv = Some (Inr sv')"
  shows "steps_to de ser sv sv'"
proof -
  have first: "steps_to de ser sv (count_connections sv)" using steps_to_step [OF steps_to_refl, of de ser sv CountEvent] by simp
  show ?thesis
  proof (cases "tk_poll tk")
    case (PollEvents answer)
    with assms obtain targets r where r: "serve_targets de ser tk targets (count_connections sv) = Some r"
        "map_sum id (expire_server ser (tk_expire_now tk)) r = Inr sv'"
      by (auto simp: poll_and_serve_def Let_def)
    then obtain sv1 where "serve_targets de ser tk targets (count_connections sv) = Some (Inr sv1)"
      and sv': "sv' = server_step de ser (ExpireEvent (tk_expire_now tk)) sv1"
      by (cases r) auto
    then show ?thesis using serve_targets_steps steps_to_trans [OF first] steps_to_step by blast
  qed (use assms first in \<open>auto simp: poll_and_serve_def\<close>)
qed

lemma poll_and_serve_quiet:
  assumes "\<not> sv_listening sv" "sv_connections sv = []"
  obtains "poll_and_serve de ser tk sv = Some (Inl PollFailed)"
  | sv' where "poll_and_serve de ser tk sv = Some (Inr sv')" "\<not> sv_listening sv'" "sv_connections sv' = []"
proof (cases "tk_poll tk")
  case (PollEvents answer)
  have "serve_target de ser tk (SignalTarget, ev) sv = Some (Inr sv)" for ev sv by (simp add: serve_target_def)
  with assms PollEvents have "poll_and_serve de ser tk sv = Some (Inr (expire_server ser (tk_expire_now tk) (count_connections sv)))"
    by (simp add: poll_and_serve_def poll_descriptors_def count_connections_def Let_def)
  then show ?thesis using assms
    by (intro that(2) [OF \<open>poll_and_serve _ _ _ _ = _\<close>]) (simp_all add: expire_server_def expire_connections_def count_connections_def List.map_filter_simps)
qed (use assms in \<open>auto simp: poll_and_serve_def count_connections_def intro: that\<close>)

section \<open>Stopping\<close>

text \<open>Signals go to the group of the child: one when stopping begins, \<open>SIGKILL\<close> at most once after it.\<close>

definition supervisor_ok :: "supervisor \<Rightarrow> bool" where
  "supervisor_ok su \<longleftrightarrow>
     (case su_stopping_since su of
        None \<Rightarrow> su_kills su = [] \<and> \<not> su_sent_kill su
      | Some _ \<Rightarrow> \<not> sv_listening (su_server su) \<and> sv_connections (su_server su) = [] \<and>
          (\<exists>signal. su_kills su = (- sint (su_child_pid su), signal) #
             (if su_sent_kill su then [(- sint (su_child_pid su), SIGKILL)] else [])))"

lemma start_stopping_ok:
  "supervisor_ok su \<Longrightarrow> su_stopping_since su = None \<Longrightarrow> supervisor_ok (start_stopping now signal su)"
  by (simp add: supervisor_ok_def start_stopping_def kill_group_def begin_stopping_def)

lemma start_stopping_fields [simp]:
  "su_server (start_stopping now signal su) = begin_stopping (su_server su)" "su_child_pid (start_stopping now signal su) = su_child_pid su"
  "su_stopping_since (start_stopping now signal su) = Some now" "su_child_status (start_stopping now signal su) = su_child_status su"
  by (simp_all add: start_stopping_def kill_group_def)

lemma read_signal_error [simp]: "read_shutdown_signal answer \<noteq> Inl HandoffTimedOut"
  by (cases answer) simp_all

lemma reap_adopted_error: "reap_adopted_children waits \<noteq> Some (Inl HandoffTimedOut)"
  by (induction waits rule: reap_adopted_children.induct) simp_all

lemma finished_stopping_error: "finished_stopping tk started su \<noteq> Some (Inl HandoffTimedOut)"
  using reap_adopted_error [of "tk_waits tk"] by (auto simp: finished_stopping_def Option.bind_eq_Some_conv rbind_Inl_iff)

lemma poll_and_serve_error: "poll_and_serve de ser tk sv \<noteq> Some (Inl HandoffTimedOut)"
proof -
  have one: "serve_target de ser tk ready sv \<noteq> Some (Inl HandoffTimedOut)" for ready sv
    by (auto simp: serve_target_def split: prod.splits poll_target.splits if_splits)
  have "serve_targets de ser tk targets sv \<noteq> Some (Inl HandoffTimedOut)" for targets sv
  proof (induction targets arbitrary: sv)
    case (Cons ready targets)
    show ?case
    proof
      assume "serve_targets de ser tk (ready # targets) sv = Some (Inl HandoffTimedOut)"
      then obtain r where "serve_target de ser tk ready sv = Some r"
        "(case r of Inl e \<Rightarrow> Some (Inl e) | Inr sv \<Rightarrow> serve_targets de ser tk targets sv) = Some (Inl HandoffTimedOut)"
        by (auto simp: Option.bind_eq_Some_conv)
      with one [of ready sv] Cons.IH show False by (cases r) auto
    qed
  qed simp
  note many = this
  have "map_sum id f r = Inl e \<longleftrightarrow> r = Inl e" for f :: "server \<Rightarrow> server" and r and e :: supervise_error
    by (cases r) auto
  with many show ?thesis by (auto simp: poll_and_serve_def Let_def split: poll_answer.splits)
qed

lemma watch_child_keeps:
  assumes "watch_child tk su = (r, su')" "supervisor_ok su"
  shows "supervisor_ok su'" "steps_to de ser (su_server su) (su_server su')" "su_child_pid su' = su_child_pid su"
    "su_stopping_since su = Some started \<Longrightarrow> su_stopping_since su' = Some started"
    "r \<noteq> Inl HandoffTimedOut"
proof -
  have stop: "steps_to de ser sv (begin_stopping sv)" for sv using steps_to_step [OF steps_to_refl, of de ser sv StopEvent] by simp
  have status: "supervisor_ok (su\<lparr>su_child_status := status\<rparr>)" for status using assms(2) unfolding supervisor_ok_def by (cases "su_stopping_since su") (auto split: if_splits)
  note defs = watch_child_def ebind_def elift_def reap_main_child_def stop_after_child_def stop_on_signal_def
  show "supervisor_ok su'" "steps_to de ser (su_server su) (su_server su')" "su_child_pid su' = su_child_pid su"
    "su_stopping_since su = Some started \<Longrightarrow> su_stopping_since su' = Some started"
    "r \<noteq> Inl HandoffTimedOut"
    using assms stop status by (auto simp: defs read_signal_error split: if_splits option.splits sum.splits intro: start_stopping_ok)
qed

lemma escalate_keeps:
  assumes "supervisor_ok su" "su_stopping_since su = Some started"
  shows "supervisor_ok (escalate tk started su)" "su_server (escalate tk started su) = su_server su"
    "su_child_pid (escalate tk started su) = su_child_pid su" "su_stopping_since (escalate tk started su) = Some started"
    "su_child_status (escalate tk started su) = su_child_status su"
  using assms by (auto simp: escalate_def supervisor_ok_def kill_group_def)

lemma tick_cases [consumes 2, case_names failed finished continued]:
  assumes "supervise_tick de ser tk su = Some progress" "supervisor_ok su"
  obtains e su' where "progress = Break e su'" "supervisor_ok su'" "steps_to de ser (su_server su) (su_server su')" "su_child_pid su' = su_child_pid su"
      "e \<noteq> HandoffTimedOut"
  | su' started where "progress = Finish su'" "supervisor_ok su'" "steps_to de ser (su_server su) (su_server su')"
      "su_child_pid su' = su_child_pid su" "su_stopping_since su' = Some started"
      "su_child_status su' = None \<Longrightarrow> SHUTDOWN_GRACE \<le> tk_grace_now tk - started \<Longrightarrow> su_sent_kill su'"
      "su_child_status su' = None \<Longrightarrow> SHUTDOWN_GRACE + 10 ^ 9 \<le> tk_limit_now tk - started"
  | su' where "progress = Continue su'" "supervisor_ok su'" "steps_to de ser (su_server su) (su_server su')"
      "su_child_pid su' = su_child_pid su"
proof -
  obtain r su1 where watch: "watch_child tk su = (r, su1)" by fastforce
  note w = watch_child_keeps [OF watch assms(2)]
  show ?thesis
  proof (cases r)
    case (Inl e)
    with assms(1) watch w show ?thesis by (intro that(1) [of e su1]) (auto simp: supervise_tick_def)
  next
    case (Inr u)
    define su2 where "su2 = (case su_stopping_since su1 of None \<Rightarrow> su1 | Some started \<Rightarrow> escalate tk started su1)"
    have su2: "supervisor_ok su2" "su_server su2 = su_server su1" "su_child_pid su2 = su_child_pid su1"
      "su_stopping_since su2 = su_stopping_since su1" "su_child_status su2 = su_child_status su1"
      unfolding su2_def using w(1) escalate_keeps by (auto split: option.splits)
    define stop where "stop = (case su_stopping_since su2 of None \<Rightarrow> Some (Inr False) | Some started \<Rightarrow> finished_stopping tk started su2)"
    have run: "Option.bind stop (\<lambda>stop. case stop of Inl e \<Rightarrow> Some (Break e su2) | Inr True \<Rightarrow> Some (Finish su2)
        | Inr False \<Rightarrow> map_option (\<lambda>r. case r of Inl e \<Rightarrow> Break e su2 | Inr sv \<Rightarrow> Continue (su2\<lparr>su_server := sv\<rparr>))
                (poll_and_serve de ser tk (su_server su2))) = Some progress"
      using assms(1) watch Inr unfolding stop_def su2_def supervise_tick_def by (simp add: Let_def)
    have steps: "steps_to de ser (su_server su) (su_server su2)" "su_child_pid su2 = su_child_pid su"
      using w(2,3) su2(2,3) by simp_all
    obtain r where r: "stop = Some r" using run by (cases stop) simp_all
    consider e where "stop = Some (Inl e)" | "stop = Some (Inr True)" | "stop = Some (Inr False)"
    proof (cases r)
      case (Inr b)
      with r show ?thesis by (cases b) (auto intro: that)
    qed (use r in \<open>auto intro: that\<close>)
    then show ?thesis
    proof cases
      case (1 e)
      then have "e \<noteq> HandoffTimedOut"
        using finished_stopping_error unfolding stop_def by (auto split: option.splits)
      with 1 run su2(1) steps show ?thesis by (intro that(1) [of e su2]) simp_all
    next
      case 2
      then obtain started where started: "su_stopping_since su2 = Some started" "finished_stopping tk started su2 = Some (Inr True)"
        unfolding stop_def by (auto split: option.splits)
      have killed: "su_child_status su2 = None \<Longrightarrow> SHUTDOWN_GRACE \<le> tk_grace_now tk - started \<Longrightarrow> su_sent_kill su2"
        using started(1) su2(4,5) unfolding su2_def by (auto simp: escalate_def kill_group_def)
      have "su_child_status su2 = None \<Longrightarrow> SHUTDOWN_GRACE + 10 ^ 9 \<le> tk_limit_now tk - started"
        using started(2) by (simp add: finished_stopping_def)
      then show ?thesis using that(2) [OF _ su2(1) steps started(1) killed] run 2 by simp
    next
      case 3
      with run obtain served where served: "poll_and_serve de ser tk (su_server su2) = Some served"
        "progress = (case served of Inl e \<Rightarrow> Break e su2 | Inr sv \<Rightarrow> Continue (su2\<lparr>su_server := sv\<rparr>))" by auto
      consider (err) e where "poll_and_serve de ser tk (su_server su2) = Some (Inl e)" "progress = Break e su2"
        | (go) sv where "poll_and_serve de ser tk (su_server su2) = Some (Inr sv)" "progress = Continue (su2\<lparr>su_server := sv\<rparr>)"
        using served by (cases served) auto
      then show ?thesis
      proof cases
        case err
        with su2(1) steps poll_and_serve_error [of de ser tk "su_server su2"] show ?thesis
          by (intro that(1) [of e su2]) auto
      next
        case go
        note served = poll_and_serve_steps [OF go(1)]
        have "supervisor_ok (su2\<lparr>su_server := sv\<rparr>)"
        proof (cases "su_stopping_since su2")
          case (Some started)
          with su2(1) have "\<not> sv_listening (su_server su2)" "sv_connections (su_server su2) = []" by (simp_all add: supervisor_ok_def)
          then have "\<not> sv_listening sv \<and> sv_connections sv = []"
            by (rule poll_and_serve_quiet [where de = de and ser = ser and tk = tk]) (use go(1) in simp_all)
          with su2(1) Some show ?thesis by (auto simp: supervisor_ok_def split: if_splits)
        qed (use su2(1) in \<open>simp add: supervisor_ok_def\<close>)
        then show ?thesis using that(3) [OF go(2)] steps steps_to_trans [OF steps(1) served] by simp
      qed
    qed
  qed
qed

lemma supervise_keeps:
  assumes "supervise de ser ticks su = Some (r, su')" "supervisor_ok su"
  shows "supervisor_ok su' \<and> steps_to de ser (su_server su) (su_server su') \<and> su_child_pid su' = su_child_pid su"
  using assms
proof (induction ticks arbitrary: su)
  case (Cons tk ticks)
  from Cons.prems(1) obtain progress where tick: "supervise_tick de ser tk su = Some progress" by (auto split: option.splits)
  show ?case using tick Cons.prems(2)
  proof (cases rule: tick_cases)
    case (failed e su1)
    with Cons.prems(1) tick show ?thesis by simp
  next
    case (finished su1 started)
    have "sv_connections (su_server su1) = []" using finished(2,5) by (simp add: supervisor_ok_def)
    then have "su_server (close_supervisor su1) = server_step de ser StopEvent (su_server su1)"
      by (simp add: close_supervisor_def begin_stopping_def)
    moreover have "supervisor_ok (close_supervisor su1)"
      using finished(2) by (auto simp: supervisor_ok_def close_supervisor_def split: option.splits)
    moreover have "su_child_pid (close_supervisor su1) = su_child_pid su1" by (simp add: close_supervisor_def)
    ultimately show ?thesis
      using Cons.prems(1) tick finished(1,4) steps_to_step [OF finished(3), of StopEvent] by auto
  next
    case (continued su1)
    with Cons.prems(1) tick Cons.IH [of su1] steps_to_trans show ?thesis by fastforce
  qed
qed simp

lemma supervise_init_ok [simp]: "supervisor_ok (supervise_init pid b)"
  by (simp add: supervise_init_def supervisor_ok_def)

text \<open>Giving up on the child: only after \<open>SIGKILL\<close>, when the two readings of the clock are close.\<close>

lemma supervise_timeout:
  assumes "supervise de ser ticks su = Some (Inl HandoffTimedOut, su')" "supervisor_ok su"
    and "\<And>tk. tk \<in> set ticks \<Longrightarrow> tk_limit_now tk \<le> tk_grace_now tk + 10 ^ 9"
  shows "su_sent_kill su'"
  using assms
proof (induction ticks arbitrary: su)
  case (Cons tk ticks)
  from Cons.prems(1) obtain progress where tick: "supervise_tick de ser tk su = Some progress" by (auto split: option.splits)
  show ?case using tick Cons.prems(2)
  proof (cases rule: tick_cases)
    case (failed e su1)
    with Cons.prems(1) tick show ?thesis by simp
  next
    case (finished su1 started)
    then have "su_child_status su1 = None" using Cons.prems(1) tick by (auto simp: exit_code_def split: option.splits exit_status.splits)
    with finished(6,7) Cons.prems(3) [of tk] have "su_sent_kill su1" by force
    with finished Cons.prems(1) tick show ?thesis by (auto simp: close_supervisor_def)
  next
    case (continued su1)
    with Cons.prems tick Cons.IH [of su1] show ?thesis by simp
  qed
qed simp

subsection \<open>The signals of a supervision\<close>

text \<open>
  What the iterations ask for: the signal for the group of the child and the time at which stopping begins, from the first
  iteration in which the child has ended (\<open>SIGTERM\<close>) or a signal has arrived (that signal); and the first exit status.
\<close>

definition request_of :: "'v tick \<Rightarrow> (int \<times> nat) option" where
  "request_of tk =
     (case tk_try_wait tk of
        None \<Rightarrow> None
      | Some (Some _) \<Rightarrow> Some (SIGTERM, tk_stop_now tk)
      | Some None \<Rightarrow> (case tk_signal tk of SignalRecord signal \<Rightarrow> Some (signal, tk_stop_now tk) | _ \<Rightarrow> None))"

definition stop_request :: "'v tick list \<Rightarrow> (int \<times> nat) option" where
  "stop_request ticks = find_map request_of ticks"

definition child_exit :: "'v tick list \<Rightarrow> exit_status option" where
  "child_exit ticks = find_map (\<lambda>tk. Option.bind (tk_try_wait tk) (\<lambda>status. status)) ticks"

definition history :: "'v tick list \<Rightarrow> supervisor \<Rightarrow> bool" where
  "history ticks su \<longleftrightarrow>
     su_child_status su = child_exit ticks \<and>
     (case su_stopping_since su of
        None \<Rightarrow> su_child_status su = None \<and> stop_request ticks = None \<and> su_kills su = [] \<and> \<not> su_sent_kill su
      | Some now \<Rightarrow> \<exists>signal. stop_request ticks = Some (signal, now) \<and>
          su_kills su = (- sint (su_child_pid su), signal) # (if su_sent_kill su then [(- sint (su_child_pid su), SIGKILL)] else []) \<and>
          (su_sent_kill su \<longrightarrow> (\<exists>tk \<in> set ticks. SHUTDOWN_GRACE \<le> tk_grace_now tk - now)))"

lemma find_map_append: "find_map f (xs @ ys) = (case find_map f xs of None \<Rightarrow> find_map f ys | Some y \<Rightarrow> Some y)"
  by (induction xs) (auto split: option.split)

lemma history_append:
  "stop_request (ticks @ [tk]) = (case stop_request ticks of None \<Rightarrow> request_of tk | Some p \<Rightarrow> Some p)"
  "child_exit (ticks @ [tk]) = (case child_exit ticks of None \<Rightarrow> Option.bind (tk_try_wait tk) (\<lambda>status. status) | Some p \<Rightarrow> Some p)"
  by (simp_all add: stop_request_def child_exit_def find_map_append split: option.split)

lemma history_prefix:
  "stop_request ticks = Some p \<Longrightarrow> stop_request (ticks @ later) = Some p" "child_exit ticks = Some s \<Longrightarrow> child_exit (ticks @ later) = Some s"
  by (simp_all add: stop_request_def child_exit_def find_map_append)

lemma watch_child_history:
  assumes "watch_child tk su = (r, su')" "history ticks su"
  shows "history (ticks @ [tk]) su'"
proof (cases "su_stopping_since su")
  case None
  with assms(2) have start: "child_exit ticks = None" "su_child_status su = None" "stop_request ticks = None" "su_kills su = []" "\<not> su_sent_kill su"
    by (auto simp: history_def)
  note defs = watch_child_def ebind_def elift_def reap_main_child_def stop_after_child_def stop_on_signal_def
    start_stopping_def kill_group_def request_of_def
  show ?thesis
  proof (cases "tk_try_wait tk")
    case wait: None
    with assms(1) None start show ?thesis by (auto simp: defs history_def history_append)
  next
    case wait: (Some status)
    show ?thesis
    proof (cases status)
      case (Some st)
      with assms(1) None start wait show ?thesis
        by (auto simp: defs history_def history_append split: sum.splits option.splits)
    next
      case running: None
      show ?thesis
        using assms(1) None start wait running by (cases "tk_signal tk") (auto simp: defs history_def history_append)
    qed
  qed
next
  case (Some now)
  have exit: "child_exit (ticks @ [tk]) = su_child_status su'"
    using assms Some by (auto simp: watch_child_def ebind_def elift_def reap_main_child_def stop_after_child_def stop_on_signal_def
        history_def history_append split: sum.splits option.splits if_splits)
  have "su_stopping_since su' = Some now \<and> su_kills su' = su_kills su \<and> su_sent_kill su' = su_sent_kill su \<and> su_child_pid su' = su_child_pid su"
    using assms(1) Some by (auto simp: watch_child_def ebind_def elift_def reap_main_child_def stop_after_child_def stop_on_signal_def
        split: sum.splits option.splits if_splits)
  with assms(2) Some exit show ?thesis by (auto simp: history_def history_append split: if_splits)
qed

lemma escalate_history:
  assumes "history (ticks @ [tk]) su" "su_stopping_since su = Some now"
  shows "history (ticks @ [tk]) (escalate tk now su)"
  using assms by (auto simp: history_def escalate_def kill_group_def)

fun progress_state :: "progress \<Rightarrow> supervisor" where
  "progress_state (Continue su) = su"
| "progress_state (Finish su) = su"
| "progress_state (Break _ su) = su"

lemma tick_history:
  assumes "supervise_tick de ser tk su = Some progress" "history ticks su"
  shows "history (ticks @ [tk]) (progress_state progress)"
proof -
  obtain r su1 where watch: "watch_child tk su = (r, su1)" by fastforce
  define su2 where "su2 = (case su_stopping_since su1 of None \<Rightarrow> su1 | Some now \<Rightarrow> escalate tk now su1)"
  have ok: "history (ticks @ [tk]) su1" "history (ticks @ [tk]) su2"
    using watch_child_history [OF watch assms(2)] escalate_history unfolding su2_def by (auto split: option.split)
  have served: "history (ticks @ [tk]) (su2\<lparr>su_server := sv\<rparr>)" for sv
    using ok(2) by (cases "su_stopping_since su2") (auto simp: history_def)
  show ?thesis
  proof (cases r)
    case (Inl e)
    with assms(1) watch ok(1) show ?thesis by (auto simp: supervise_tick_def)
  next
    case (Inr u)
    with assms(1) watch have run: "Option.bind (case su_stopping_since su2 of None \<Rightarrow> Some (Inr False) | Some started \<Rightarrow> finished_stopping tk started su2)
      (\<lambda>stop. case stop of Inl e \<Rightarrow> Some (Break e su2) | Inr True \<Rightarrow> Some (Finish su2)
        | Inr False \<Rightarrow> map_option (\<lambda>r. case r of Inl e \<Rightarrow> Break e su2 | Inr sv \<Rightarrow> Continue (su2\<lparr>su_server := sv\<rparr>))
                (poll_and_serve de ser tk (su_server su2))) = Some progress"
      unfolding su2_def supervise_tick_def by (simp add: Let_def)
    then obtain stop where stop: "(case stop of Inl e \<Rightarrow> Some (Break e su2) | Inr True \<Rightarrow> Some (Finish su2)
        | Inr False \<Rightarrow> map_option (\<lambda>r. case r of Inl e \<Rightarrow> Break e su2 | Inr sv \<Rightarrow> Continue (su2\<lparr>su_server := sv\<rparr>))
                (poll_and_serve de ser tk (su_server su2))) = Some progress"
      by (auto simp: Option.bind_eq_Some_conv simp del: not_None_eq)
    have "progress_state (case r of Inl e \<Rightarrow> Break e su2 | Inr sv \<Rightarrow> Continue (su2\<lparr>su_server := sv\<rparr>)) = su2 \<or>
        (\<exists>sv. progress_state (case r of Inl e \<Rightarrow> Break e su2 | Inr sv \<Rightarrow> Continue (su2\<lparr>su_server := sv\<rparr>)) = su2\<lparr>su_server := sv\<rparr>)"
      for r :: "(supervise_error, server) result"
      by (cases r) auto
    with stop have "progress_state progress = su2 \<or> (\<exists>sv. progress_state progress = su2\<lparr>su_server := sv\<rparr>)"
      by (cases stop) (auto split: bool.splits)
    with ok(2) served show ?thesis by auto
  qed
qed

lemma supervise_history:
  assumes "supervise de ser ticks su = Some (r, su')" "history before su"
  shows "\<exists>now later. before @ ticks = now @ later \<and> history now su' \<and> (\<forall>code. r = Inr code \<longrightarrow> exit_code (su_child_status su') = r)"
  using assms
proof (induction ticks arbitrary: su before)
  case (Cons tk ticks)
  from Cons.prems(1) obtain progress where tick: "supervise_tick de ser tk su = Some progress" by (auto split: option.splits)
  note after = tick_history [OF tick Cons.prems(2)]
  show ?case
  proof (cases progress)
    case (Continue su1)
    with Cons.prems(1) tick Cons.IH [of su1 "before @ [tk]"] after show ?thesis by simp
  next
    case (Finish su1)
    with after have "history (before @ [tk]) (close_supervisor su1)"
      by (cases "su_stopping_since su1") (auto simp: history_def close_supervisor_def)
    with Finish Cons.prems(1) tick show ?thesis
      by (intro exI [of _ "before @ [tk]"] exI [of _ ticks]) (auto simp: close_supervisor_def)
  next
    case (Break e su1)
    with Cons.prems(1) tick after show ?thesis by (intro exI [of _ "before @ [tk]"] exI [of _ ticks]) auto
  qed
qed simp

lemma supervise_init_history [simp]: "history [] (supervise_init pid b)"
  by (simp add: history_def supervise_init_def child_exit_def stop_request_def)

section \<open>Shutdown\<close>

lemma reap_returns: "\<exists>wait \<in> set waits. wait \<noteq> WaitReaped \<Longrightarrow> \<exists>r. reap_adopted_children waits = Some r"
  by (induction waits rule: reap_adopted_children.induct) auto

lemma finished_stopping_returns:
  assumes "\<exists>wait \<in> set (tk_waits tk). wait \<noteq> WaitReaped"
  obtains e where "finished_stopping tk started su = Some (Inl e)"
  | gone where "finished_stopping tk started su = Some (Inr (gone \<or> SHUTDOWN_GRACE + 10 ^ 9 \<le> tk_limit_now tk - started))"
proof -
  let ?over = "su_child_status su \<noteq> None \<and> sv_connections (su_server su) = []"
  obtain r0 where "reap_adopted_children (tk_waits tk) = Some r0" using reap_returns [OF assms] ..
  then have "(if ?over then reap_adopted_children (tk_waits tk) else Some (Inr False)) = Some (if ?over then r0 else Inr False)" by simp
  then obtain r where r: "(if ?over then reap_adopted_children (tk_waits tk) else Some (Inr False)) = Some r" ..
  then show ?thesis using that unfolding finished_stopping_def r by (cases r) auto
qed

lemma stopping_tick:
  assumes "watch_child tk su = (Inr u, su1)" "supervisor_ok su1" "su_stopping_since su1 = Some started"
    and "\<exists>wait \<in> set (tk_waits tk). wait \<noteq> WaitReaped"
  obtains progress where "supervise_tick de ser tk su = Some progress"
    "\<And>su'. progress = Continue su' \<Longrightarrow> su_stopping_since su' = Some started \<and> \<not> SHUTDOWN_GRACE + 10 ^ 9 \<le> tk_limit_now tk - started"
proof -
  let ?su2 = "escalate tk started su1"
  note su2 = escalate_keeps [OF assms(2,3), of tk]
  have quiet: "\<not> sv_listening (su_server su1)" "sv_connections (su_server su1) = []"
    using assms(2,3) by (simp_all add: supervisor_ok_def)
  have tick: "supervise_tick de ser tk su = Option.bind (finished_stopping tk started ?su2) (\<lambda>stop.
      case stop of Inl e \<Rightarrow> Some (Break e ?su2) | Inr True \<Rightarrow> Some (Finish ?su2)
      | Inr False \<Rightarrow> map_option (\<lambda>r. case r of Inl e \<Rightarrow> Break e ?su2 | Inr sv \<Rightarrow> Continue (?su2\<lparr>su_server := sv\<rparr>))
          (poll_and_serve de ser tk (su_server ?su2)))"
    using assms(1,3) su2(4) by (simp add: supervise_tick_def Let_def)
  show ?thesis
  proof (cases rule: finished_stopping_returns [OF assms(4), of started ?su2])
    case (1 e)
    with tick show ?thesis by (intro that) auto
  next
    case (2 gone)
    show ?thesis
    proof (cases "gone \<or> SHUTDOWN_GRACE + 10 ^ 9 \<le> tk_limit_now tk - started")
      case True
      with 2 tick show ?thesis by (intro that) auto
    next
      case False
      obtain r where "poll_and_serve de ser tk (su_server su1) = Some r"
        using poll_and_serve_quiet [OF quiet, of de ser tk] by metis
      with False 2 tick su2 show ?thesis by (cases r) (auto intro!: that)
    qed
  qed
qed

lemma supervise_stops:
  assumes "supervisor_ok su" "su_stopping_since su = Some started"
    and "\<And>tk. tk \<in> set ticks \<Longrightarrow> \<exists>wait \<in> set (tk_waits tk). wait \<noteq> WaitReaped"
    and "\<exists>tk \<in> set ticks. started + SHUTDOWN_GRACE + 10 ^ 9 \<le> tk_limit_now tk"
  shows "\<exists>r su'. supervise de ser ticks su = Some (r, su')"
  using assms
proof (induction ticks arbitrary: su)
  case (Cons tk ticks)
  obtain r su1 where watch: "watch_child tk su = (r, su1)" by fastforce
  note w = watch_child_keeps [OF watch Cons.prems(1)]
  show ?case
  proof (cases r)
    case (Inl e)
    with watch show ?thesis by (simp add: supervise_tick_def)
  next
    case (Inr u)
    have waits: "\<exists>wait \<in> set (tk_waits tk). wait \<noteq> WaitReaped" using Cons.prems(3) by simp
    obtain progress where tick: "supervise_tick de ser tk su = Some progress"
      "\<And>su'. progress = Continue su' \<Longrightarrow> su_stopping_since su' = Some started \<and> \<not> SHUTDOWN_GRACE + 10 ^ 9 \<le> tk_limit_now tk - started"
      by (rule stopping_tick [OF watch [unfolded Inr] w(1) w(4) [OF Cons.prems(2)] waits, of de ser]) blast
    show ?thesis
    proof (cases progress)
      case (Continue su')
      from tick(1) Cons.prems(1) have "supervisor_ok su'" by (cases rule: tick_cases) (use Continue in auto)
      moreover have "\<exists>tk \<in> set ticks. started + SHUTDOWN_GRACE + 10 ^ 9 \<le> tk_limit_now tk"
        using Cons.prems(4) tick(2) [OF Continue] by auto
      ultimately show ?thesis using Cons.IH [of su'] Cons.prems(3) tick Continue by simp
    qed (use tick in simp_all)
  qed
qed simp

text \<open>The tick that begins the shutdown: the child has ended, or a signal has arrived.\<close>

definition asks_to_stop :: "'v tick \<Rightarrow> bool" where
  "asks_to_stop tk \<longleftrightarrow> (\<exists>status. tk_try_wait tk = Some (Some status)) \<or>
     tk_try_wait tk \<noteq> None \<and> (\<exists>signal. tk_signal tk = SignalRecord signal)"

lemma watch_child_stops:
  assumes "watch_child tk su = (Inr u, su1)" "asks_to_stop tk" "su_stopping_since su = None" "su_child_status su = None"
  shows "su_stopping_since su1 = Some (tk_stop_now tk)"
  using assms by (auto simp: asks_to_stop_def watch_child_def ebind_def elift_def reap_main_child_def stop_after_child_def
      stop_on_signal_def split: if_splits option.splits sum.splits)

text \<open>
  C8. Shutdown ends. From the iteration in which the child has ended or a signal has arrived, the loop
  returns within six seconds: as soon as one iteration reads a clock six seconds past the
  beginning of the stop, whatever the child, \<open>poll\<close> and the other answers do, the supervisor has returned. The children
  that \<open>waitpid\<close> reports as reaped in one go have to be finitely many.
\<close>

theorem shutdown_returns:
  assumes "supervisor_ok su" "su_stopping_since su = None" "su_child_status su = None" "asks_to_stop tk"
    and "\<forall>tk' \<in> set (tk # ticks). \<exists>wait \<in> set (tk_waits tk'). wait \<noteq> WaitReaped"
    and "\<exists>tk' \<in> set ticks. tk_stop_now tk + SHUTDOWN_GRACE + 10 ^ 9 \<le> tk_limit_now tk'"
  shows "\<exists>r su'. supervise de ser (tk # ticks) su = Some (r, su')"
proof -
  obtain r su1 where watch: "watch_child tk su = (r, su1)" by fastforce
  note w = watch_child_keeps [OF watch assms(1)]
  show ?thesis
  proof (cases r)
    case (Inl e)
    with watch show ?thesis by (simp add: supervise_tick_def)
  next
    case (Inr u)
    with watch have stopping: "su_stopping_since su1 = Some (tk_stop_now tk)" using assms(2-4) by (auto intro: watch_child_stops)
    have waits: "\<exists>wait \<in> set (tk_waits tk). wait \<noteq> WaitReaped" using assms(5) by simp
    obtain progress where tick: "supervise_tick de ser tk su = Some progress"
      "\<And>su'. progress = Continue su' \<Longrightarrow> su_stopping_since su' = Some (tk_stop_now tk)"
      by (rule stopping_tick [OF watch [unfolded Inr] w(1) stopping waits, of de ser]) blast
    show ?thesis
    proof (cases progress)
      case (Continue su')
      from tick(1) assms(1) have "supervisor_ok su'" by (cases rule: tick_cases) (use Continue in auto)
      moreover have "\<exists>wait \<in> set (tk_waits tk'). wait \<noteq> WaitReaped" if "tk' \<in> set ticks" for tk'
        using assms(5) that by simp
      ultimately show ?thesis using supervise_stops [of su' "tk_stop_now tk" ticks de ser] assms(6) tick Continue by simp
    qed (use tick in simp_all)
  qed
qed

text \<open>
  C18. Signals to the child. In every completed supervision the group of the child gets no signal, or first the one the first
  request to stop asks for (the signal that arrived, or \<open>SIGTERM\<close> when the child had ended) and after it, at most once,
  \<open>SIGKILL\<close>, and that only in an iteration at least the grace period after the request. Supervision reports that the child did not exit only
  after both, provided that the two clock readings of an iteration are within a second. And an exit code is that of the exit status the child
  was first seen with: its code, or 128 plus the signal that ended it.
\<close>

theorem supervision_signals:
  assumes "supervise de ser ticks (supervise_init pid b) = Some (r, su)"
  shows "(su_kills su = [] \<or>
      (\<exists>signal now. stop_request ticks = Some (signal, now) \<and>
        (su_kills su = [(- sint pid, signal)] \<or>
         su_kills su = [(- sint pid, signal), (- sint pid, SIGKILL)] \<and>
           (\<exists>tk \<in> set ticks. SHUTDOWN_GRACE \<le> tk_grace_now tk - now)))) \<and>
    (r = Inl HandoffTimedOut \<longrightarrow> (\<forall>tk \<in> set ticks. tk_limit_now tk \<le> tk_grace_now tk + 10 ^ 9) \<longrightarrow> length (su_kills su) = 2) \<and>
    (\<forall>code. r = Inr code \<longrightarrow> (\<exists>status. child_exit ticks = Some status \<and>
      code = (case status of ExitCode c \<Rightarrow> c | ExitSignal signal \<Rightarrow> 128 + signal)))"
proof -
  have pid: "su_child_pid su = pid" "supervisor_ok su" using supervise_keeps [OF assms supervise_init_ok] by (simp_all add: supervise_init_def)
  obtain seen later where seen: "ticks = seen @ later" "history seen su" "\<forall>code. r = Inr code \<longrightarrow> exit_code (su_child_status su) = r"
    using supervise_history [OF assms supervise_init_history] by auto
  have "su_kills su = [] \<or> (\<exists>signal now. stop_request ticks = Some (signal, now) \<and>
      (su_kills su = [(- sint pid, signal)] \<or> su_kills su = [(- sint pid, signal), (- sint pid, SIGKILL)] \<and>
         (\<exists>tk \<in> set ticks. SHUTDOWN_GRACE \<le> tk_grace_now tk - now)))"
    using seen(2) pid(1) history_prefix(1) [of seen _ later] unfolding seen(1) history_def
    by (cases "su_stopping_since su") (auto split: if_splits)
  moreover have "su_sent_kill su" if "r = Inl HandoffTimedOut" "\<forall>tk \<in> set ticks. tk_limit_now tk \<le> tk_grace_now tk + 10 ^ 9"
    using supervise_timeout [of de ser ticks "supervise_init pid b" su] assms that by simp
  then have "r = Inl HandoffTimedOut \<longrightarrow> (\<forall>tk \<in> set ticks. tk_limit_now tk \<le> tk_grace_now tk + 10 ^ 9) \<longrightarrow> length (su_kills su) = 2"
    using pid(2) by (auto simp: supervisor_ok_def split: option.splits)
  moreover have "\<exists>status. child_exit ticks = Some status \<and>
      code = (case status of ExitCode c \<Rightarrow> c | ExitSignal signal \<Rightarrow> 128 + signal)" if "r = Inr code" for code
    using seen(2,3) that history_prefix(2) [of seen _ later] unfolding seen(1) history_def
    by (auto simp: exit_code_def split: option.splits exit_status.splits)
  ultimately show ?thesis by blast
qed

definition sample_tick :: "signal_read \<Rightarrow> nat \<Rightarrow> unit tick" where
  "sample_tick signal clock =
     \<lparr>tk_try_wait = Some None, tk_signal = signal, tk_stop_now = clock, tk_grace_now = clock, tk_limit_now = clock,
      tk_waits = [WaitNoChild], tk_poll = PollInterrupted, tk_accept_now = clock, tk_accepts = [],
      tk_io = (\<lambda>_. (\<lparr>se_system = sample_system, se_started = 0, se_now = 0,
        se_json = \<lparr>pj_value = (\<lambda>_. None), pj_action_bytes = (\<lambda>_. None), pj_page_bytes = (\<lambda>_. None)\<rparr>,
        se_metadata = (\<lambda>_. None)\<rparr>, [], [], [])), tk_expire_now = clock\<rparr>"

lemma sample_supervision:
  "\<exists>su. supervise sample_de sample_ser [sample_tick (SignalRecord 15) 0, sample_tick SignalWouldBlock 6000000000]
     (supervise_init 7 sample_backend) = Some (Inl HandoffTimedOut, su) \<and> su_kills su = [(- 7, 15), (- 7, 9)]"
  by (simp add: supervise_tick_def watch_child_def ebind_def elift_def reap_main_child_def stop_after_child_def stop_on_signal_def
      sample_tick_def supervise_init_def start_stopping_def kill_group_def begin_stopping_def escalate_def finished_stopping_def
      SHUTDOWN_GRACE_def SIGKILL_def poll_and_serve_def count_connections_def exit_code_def close_supervisor_def)

theorem supervision_signals_witness:
  "\<exists>su. supervise sample_de sample_ser [sample_tick (SignalRecord 15) 0, sample_tick SignalWouldBlock 6000000000]
      (supervise_init 7 sample_backend) = Some (Inl HandoffTimedOut, su) \<and>
    su_kills su = [(- sint (7 :: u32), 15), (- sint (7 :: u32), SIGKILL)]"
proof -
  let ?ticks = "[sample_tick (SignalRecord 15) 0, sample_tick SignalWouldBlock 6000000000]"
  from sample_supervision obtain su where run: "supervise sample_de sample_ser ?ticks (supervise_init 7 sample_backend) =
      Some (Inl HandoffTimedOut, su)" by blast
  have "stop_request ?ticks = Some (15, 0)" by (simp add: stop_request_def request_of_def sample_tick_def)
  moreover have "\<forall>tk \<in> set ?ticks. tk_limit_now tk \<le> tk_grace_now tk + 10 ^ 9" by (simp add: sample_tick_def)
  ultimately show ?thesis using supervision_signals [OF run] run by fastforce
qed

theorem shutdown_returns_witness:
  "\<exists>r su. supervise sample_de sample_ser [sample_tick (SignalRecord 15) 0, sample_tick SignalWouldBlock 6000000000]
     (supervise_init 7 sample_backend) = Some (r, su)"
  by (rule shutdown_returns)
    (simp_all add: sample_tick_def asks_to_stop_def SHUTDOWN_GRACE_def, simp_all add: supervise_init_def)

text \<open>
  C19. The loop of the supervisor refines the server. Whatever a completed supervision meets, the server ends in a state that
  a sequence of server events leads to from the beginning, so that what holds of the server along all events holds
  under the loop, however it mixes polling, expiry and shutdown.
\<close>

theorem supervise_refines_server:
  assumes "supervise de ser ticks (supervise_init pid b) = Some (r, su)"
  shows "\<exists>events. su_server su = fold (server_step de ser) events \<lparr>sv_listening = True, sv_connections = [], sv_backend = b\<rparr>"
  using supervise_keeps [OF assms supervise_init_ok] by (simp add: steps_to_def supervise_init_def)

theorem supervise_refines_server_witness:
  "\<exists>su events. supervise sample_de sample_ser [sample_tick (SignalRecord 15) 0, sample_tick SignalWouldBlock 6000000000]
      (supervise_init 7 sample_backend) = Some (Inl HandoffTimedOut, su) \<and>
    su_server su = fold (server_step sample_de sample_ser) events
      \<lparr>sv_listening = True, sv_connections = [], sv_backend = sample_backend\<rparr>"
  using sample_supervision supervise_refines_server by blast

end
