(* ===== verification/Backend_Broker.thy ===== *)
theory Backend_Broker
  imports Backend_Transaction
begin

text \<open>
  What \<open>prepare_identity\<close> of \<open>src/crates/container-init-backend/src/server/identity.rs\<close> gives to a peer: its own
  identity when the identity inputs of the profile have no other names, and root through an alias of the
  input for \<open>run_as_root\<close>.
\<close>

section \<open>Identities that a broker asks for\<close>

text \<open>An input that the context does not set and that no alias sets is not found.\<close>

lemma resolve_input_other:
  assumes "resolve_input cx resolved (n, d) = Inr resolved'" "btree_wf resolved" "btree_get name resolved = None"
    and "n = name \<Longrightarrow> declared_value n d cx = None" "name \<notin> set (in_aliases d)"
  shows "btree_wf resolved' \<and> btree_get name resolved' = None"
proof (cases "declared_value n d cx")
  case (Some raw)
  then have other: "n \<noteq> name" using assms(4) by auto
  from Some assms(1) obtain input where "resolved' = fold (\<lambda>alias. btree_insert alias input) (in_aliases d) (btree_insert n input resolved)"
    by (auto simp: resolve_input_def rbind_Inr_iff Let_def)
  moreover have "btree_wf (fold (\<lambda>alias. btree_insert alias input) aliases m) \<and>
      btree_get name (fold (\<lambda>alias. btree_insert alias input) aliases m) = None"
    if "btree_wf m" "btree_get name m = None" "name \<notin> set aliases" for aliases m
    using that by (induction aliases arbitrary: m) (auto simp: btree_wf_insert btree_get_insert)
  ultimately show ?thesis using other assms(2,3,5) by (simp add: btree_wf_insert btree_get_insert)
qed (use assms in \<open>simp add: resolve_input_def\<close>)

lemma resolve_inputs_other:
  assumes "resolve_inputs config cx = Inr inputs"
    and "\<And>n d. (n, d) \<in> set (bc_inputs config) \<Longrightarrow> name \<notin> set (in_aliases d)"
    and "\<And>d. (name, d) \<in> set (bc_inputs config) \<Longrightarrow> declared_value name d cx = None"
  shows "find_input config inputs (Some name) = None"
proof -
  have "btree_get name inputs = None"
    if "fold_result (resolve_input cx) resolved entries = Inr inputs" "btree_wf resolved" "btree_get name resolved = None"
      "set entries \<subseteq> set (bc_inputs config)" for resolved entries
    using that
  proof (induction entries arbitrary: resolved)
    case (Cons entry entries)
    obtain n d where entry: "entry = (n, d)" by fastforce
    from Cons.prems(1) entry obtain resolved1 where first: "resolve_input cx resolved (n, d) = Inr resolved1"
      and rest: "fold_result (resolve_input cx) resolved1 entries = Inr inputs" by (auto simp: rbind_Inr_iff)
    have "(n, d) \<in> set (bc_inputs config)" using Cons.prems(4) entry by simp
    then have "btree_wf resolved1 \<and> btree_get name resolved1 = None"
      by (intro resolve_input_other [OF first Cons.prems(2,3)]) (auto dest: assms(2,3))
    then show ?case using Cons.IH [OF rest] Cons.prems(4) by simp
  qed simp
  from this [of "[]" "bc_inputs config"] assms(1) have "btree_get name inputs = None"
    by (simp add: resolve_inputs_def btree_wf_def btree_get_def)
  moreover have "find (\<lambda>(_, declaration). name \<in> set (in_aliases declaration)) (bc_inputs config) = None"
    using assms(2) by (auto simp: find_None_iff)
  ultimately show ?thesis by (simp add: find_input_def)
qed

text \<open>Inputs for the identity that have one name only and no value of their own.\<close>

definition identity_inputs_plain :: "bootstrap_config \<Rightarrow> bool" where
  "identity_inputs_plain config \<longleftrightarrow>
     (\<forall>(n, d) \<in> set (bc_inputs config).
        (n \<in> set (identity_input_names (bc_identity config)) \<longrightarrow> in_aliases d = [] \<and> in_default d = None) \<and>
        (\<forall>alias \<in> set (in_aliases d). alias \<notin> set (identity_input_names (bc_identity config))))"

lemma stripped_value:
  assumes "in_aliases d = []" "in_default d = None" "name \<in> set names"
  shows "declared_value name d (request_context cwd (filter (\<lambda>(n, _). n \<notin> set names) environment)
     (filter (\<lambda>(n, _). n \<notin> set names) inputs)) = None"
proof -
  have cli: "rc_cli_inputs (fold (\<lambda>(name, raw). with_cli_input name raw) entries cx) = btree_extend (rc_cli_inputs cx) entries" for entries cx
    by (induction entries arbitrary: cx) (auto simp: with_cli_input_def btree_extend_def)
  have env: "rc_env (fold (\<lambda>(name, raw). with_cli_input name raw) entries cx) = rc_env cx" for entries cx
    by (induction entries arbitrary: cx) (auto simp: with_cli_input_def)
  have "map_of (rev (filter (\<lambda>(n, _). n \<notin> set names) entries)) name = None" for entries :: "(string \<times> string) list"
    using assms(3) by (auto simp: map_of_eq_None_iff)
  then have "btree_get name (btree_collect (filter (\<lambda>(n, _). n \<notin> set names) entries)) = None" for entries :: "(string \<times> string) list"
    by (simp add: btree_get_collect)
  moreover have "btree_extend [] m = btree_collect m" for m :: "(string \<times> string) list" by (simp add: btree_collect_def)
  ultimately show ?thesis
    using assms by (simp add: declared_value_def request_context_def cli env with_environment_def runtime_context_new_def)
qed

lemma plain_inputs_unset:
  assumes "identity_inputs_plain config" "name \<in> set (identity_input_names (bc_identity config))" "bc_inputs config' = bc_inputs config"
    and "cx = request_context cwd (filter (\<lambda>(n, _). n \<notin> set (identity_input_names (bc_identity config))) environment)
      (filter (\<lambda>(n, _). n \<notin> set (identity_input_names (bc_identity config))) inputs)"
    and "resolve_inputs config' cx = Inr resolved"
  shows "find_input config' resolved (Some name) = None"
proof (rule resolve_inputs_other [OF assms(5)])
  show "name \<notin> set (in_aliases d)" if "(n, d) \<in> set (bc_inputs config')" for n d
    using that assms(1-3) by (auto simp: identity_inputs_plain_def)
  show "declared_value name d cx = None" if "(name, d) \<in> set (bc_inputs config')" for d
    using that assms(1-3) unfolding assms(4) by (intro stripped_value) (auto simp: identity_inputs_plain_def)
qed

lemma resolve_prevalidated_defaults:
  assumes "resolve_prevalidated posix config cx = Inr identity"
    and "\<And>name resolved. name \<in> set (identity_input_names (bc_identity config)) \<Longrightarrow> resolve_inputs config cx = Inr resolved \<Longrightarrow>
      find_input config resolved (Some name) = None"
    and "ic_default_uid (bc_identity config) = Some uid" "ic_default_gid (bc_identity config) = Some gid"
    and "\<not> ic_auto_mapping (bc_identity config)"
  shows "id_uid identity = uid \<and> id_gid identity = gid \<and> \<not> id_run_as_root identity"
proof -
  let ?c = "bc_identity config"
  from assms(1) obtain resolved where resolved: "resolve_inputs config cx = Inr resolved"
    by (auto simp: resolve_prevalidated_def rbind_Inr_iff Let_def)
  have unset: "find_input config resolved name = None"
    if "name \<in> {ic_run_as_root_input ?c, ic_uid_input ?c, ic_gid_input ?c, ic_home_input ?c}" for name
  proof (cases name)
    case (Some n)
    with that have "n \<in> set (identity_input_names ?c)" by (auto simp: identity_input_names_def List.map_filter_simps split: option.splits dest: sym [of "Some n"])
    then show ?thesis using assms(2) [OF _ resolved, of n] Some by simp
  qed (simp add: find_input_def)
  have target: "resolve_target posix config cx resolved = Inr identity"
    using assms(1) resolved unset [of "ic_run_as_root_input ?c"]
    by (auto simp: resolve_prevalidated_def rbind_Inr_iff input_bool_def unwrap_or_def Let_def)
  have "input_uid_pair config resolved (ic_uid_input ?c) = Inr None" "input_gid config resolved (ic_gid_input ?c) = Inr None"
    using unset by (simp_all add: input_uid_pair_def input_gid_def)
  with target show ?thesis
    by (elim resolve_targetE) (use assms(3-5) in \<open>auto simp: map_pair_def select_uid_def select_gid_def Let_def\<close>)
qed

lemma emap_err_Inr_iff: "emap_err g m s = (Inr x, s') \<longleftrightarrow> m s = (Inr x, s')"
  by (auto simp: emap_err_def map_err_Inr_iff split: prod.splits)

lemma execute_internal_identity:
  "execute_internal x plan command None hs = (Inr report, hs') \<Longrightarrow>
    resolve_prevalidated (posix_in x hs) (ex_config x) (ex_context x) = Inr (er_identity report)"
  by (auto simp: execute_internal_def ebind_Inr_iff egets_def count_run_def posix_in_def Let_def eret_def)

text \<open>
  C21. An identity for a peer is the identity of the peer. When the inputs for the identity have no aliases and no defaults, a peer other
  than root that asks for an identity gets its own uid and gid, and never root, whatever inputs and environment it sends.
\<close>

theorem prepare_identity_own:
  assumes "identity_inputs_plain (rt_request_config rt)" "pc_uid peer \<noteq> 0"
    and "prepare_identity sys rt peer options hs = (Inr identity, hs')"
  shows "pd_uid identity = pc_uid peer \<and> pd_gid identity = pc_gid peer \<and> \<not> pd_run_as_root identity"
proof -
  let ?config = "rt_request_config rt" and ?names = "identity_input_names (bc_identity (rt_request_config rt))"
  let ?own = "?config\<lparr>bc_identity := (bc_identity ?config)\<lparr>ic_default_user := None, ic_default_uid := Some (pc_uid peer),
      ic_default_gid := Some (pc_gid peer), ic_auto_mapping := False\<rparr>\<rparr>"
  from assms(2,3) have "check_identity_request rt peer (io_requested options) = Inr ()"
    by (auto simp: prepare_identity_def ebind_Inr_iff elift_def)
  with assms(2) have requested: "io_requested options = RequestPeer (pc_uid peer) (pc_gid peer)"
    by (cases "io_requested options") (auto simp: check_identity_request_def rbind_Inr_iff fail_if_Inr_iff)
  from assms(3) requested obtain cwd report hs1 where
    run: "execute_internal (executor_for sys ?own (request_context cwd (filter (\<lambda>(n, _). n \<notin> set ?names) (io_environment options))
        (filter (\<lambda>(n, _). n \<notin> set ?names) (io_inputs options)))) (rt_request_plan rt) [] None hs = (Inr report, hs1)"
    and identity: "pd_uid identity = id_uid (er_identity report)" "pd_gid identity = id_gid (er_identity report)"
      "pd_run_as_root identity = id_run_as_root (er_identity report)"
    by (auto simp: prepare_identity_def ebind_Inr_iff elift_def emap_err_Inr_iff Let_def)
  have "id_uid (er_identity report) = pc_uid peer \<and> id_gid (er_identity report) = pc_gid peer \<and> \<not> id_run_as_root (er_identity report)"
  proof (rule resolve_prevalidated_defaults)
    show "resolve_prevalidated (posix_in (executor_for sys ?own (request_context cwd (filter (\<lambda>(n, _). n \<notin> set ?names) (io_environment options))
        (filter (\<lambda>(n, _). n \<notin> set ?names) (io_inputs options)))) hs) ?own
        (request_context cwd (filter (\<lambda>(n, _). n \<notin> set ?names) (io_environment options))
        (filter (\<lambda>(n, _). n \<notin> set ?names) (io_inputs options))) = Inr (er_identity report)"
      using execute_internal_identity [OF run] by (simp add: executor_for_def)
    show "find_input ?own resolved (Some name) = None"
      if "name \<in> set (identity_input_names (bc_identity ?own))" "resolve_inputs ?own (request_context cwd
          (filter (\<lambda>(n, _). n \<notin> set ?names) (io_environment options)) (filter (\<lambda>(n, _). n \<notin> set ?names) (io_inputs options))) = Inr resolved"
      for name resolved
      using that by (intro plain_inputs_unset [OF assms(1) _ _ refl]) (simp_all add: identity_input_names_def)
  qed simp_all
  with identity show ?thesis by simp
qed

text \<open>A profile in which root is asked for by an input with an alias.\<close>

definition broker_config :: "string list \<Rightarrow> bootstrap_config" where
  "broker_config aliases = drop_config\<lparr>bc_actions := [],
     bc_inputs := [(''RUN_AS_ROOT'', (bootstrap_input_new ''identity.run_as_root'' TBool)\<lparr>in_aliases := aliases, in_runtime := True\<rparr>)],
     bc_identity := (bc_identity drop_config)\<lparr>ic_run_as_root_input := Some ''RUN_AS_ROOT''\<rparr>\<rparr>"

definition broker_runtime :: "string list \<Rightarrow> backend_runtime" where
  "broker_runtime aliases = sample_runtime\<lparr>rt_config := broker_config aliases, rt_plan := [],
     rt_request_config := request_config (broker_config aliases)\<rparr>"

definition broker_options :: "string \<Rightarrow> identity_request_options" where
  "broker_options name = \<lparr>io_requested = RequestPeer 1000 1000, io_cwd = ''/w'', io_inputs = [(name, ''1'')], io_environment = []\<rparr>"

lemma broker_config_valid: "config_validate (broker_config [''AS_ROOT'']) = Inr ()"
proof -
  let ?c = "broker_config [''AS_ROOT'']"
  have "validate_actions ?c [] [] = Inr ()" "validate_runtime_invariance ?c = Inr ()"
    "identity_config_validate (bc_identity ?c) = Inr ()" "validate_inputs ?c = Inr ()" "validate_identity_inputs ?c = Inr ()"
    "validate_namespaces ?c = Inr ()" by code_simp+
  then show ?thesis
    using drop_config_valid by (simp add: config_validate_def broker_config_def rbind_Inr_iff fail_if_Inr_iff)
qed

lemma broker_plan: "plan_from_config (request_config (broker_config [''AS_ROOT''])) = Some (Inr (rt_request_plan (broker_runtime [''AS_ROOT''])))"
proof -
  have same: "request_config (broker_config aliases) = broker_config aliases" for aliases
    by (simp add: request_config_def broker_config_def trim_dependencies_def)
  have acts: "bc_actions (broker_config [''AS_ROOT'']) = []" by (simp add: broker_config_def)
  have "plan_dependencies [] = Some (Inr [])" "check_phases (id_index []) (map action_phase []) [] (enumerate 0 []) = Some (Inr ())"
    "stable_topological_order [] [] = Some (Inr [])" by code_simp+
  then show ?thesis by (simp add: same plan_from_config_def acts broker_config_valid broker_runtime_def sample_runtime_def)
qed

lemma broker_identity:
  fixes aliases :: "string list" and identity :: resolved_identity
  assumes "validate_request_inputs config inputs = Inr ()"
    and "(config, inputs) = (let names = identity_input_names (bc_identity (broker_config aliases));
        (identity_config, inputs) = with_requested_identity (RequestPeer 1000 1000) (bc_identity (broker_config aliases),
          filter (\<lambda>(name, _). name \<notin> set names) [(name, ''1'')])
      in ((broker_config aliases)\<lparr>bc_identity := identity_config\<rparr>, inputs))"
    and "resolve_prevalidated (posix_in (executor_for sample_system config (request_context ''/w'' [] inputs)) root_state) config
      (request_context ''/w'' [] inputs) = Inr identity"
    and "\<exists>resolved. resolve_inputs config (request_context ''/w'' [] inputs) = Inr resolved"
    and "supplementary_groups sample_system identity = Inr groups"
  shows "\<exists>hs. prepare_identity sample_system (broker_runtime aliases) sample_peer (broker_options name) root_state =
     (Inr \<lparr>pd_uid = id_uid identity, pd_gid = id_gid identity, pd_user = id_user identity, pd_home = id_home identity,
        pd_supplemental_groups = groups, pd_run_as_root = id_run_as_root identity\<rparr>, hs)"
proof -
  have same: "request_config (broker_config aliases) = broker_config aliases" for aliases
    by (simp add: request_config_def broker_config_def trim_dependencies_def)
  have cwd: "resolve_cwd_object sample_system ''/w'' = Inr \<lparr>rw_canonical_path = ''/w'', rw_object = \<lparr>co_device = 1, co_inode = 2\<rparr>\<rparr>"
    by code_simp
  have ready: "st_state (runtime_status (broker_runtime aliases)) = BackendReady" "rt_request_config (broker_runtime aliases) = broker_config aliases"
    "rt_request_plan (broker_runtime aliases) = []"
    by (simp_all add: runtime_status_def broker_runtime_def sample_runtime_def same)
  have allowed: "check_identity_request (broker_runtime aliases) sample_peer (RequestPeer 1000 1000) = Inr ()"
    by (simp add: check_identity_request_def sample_peer_def fail_if_def)
  from assms(4) obtain resolved where "resolve_inputs config (request_context ''/w'' [] inputs) = Inr resolved" ..
  then show ?thesis
    using assms(1,3,5) cwd ready allowed assms(2)
    by (auto simp: prepare_identity_def broker_options_def ebind_def elift_def emap_err_def execute_internal_def egets_def
        executor_for_def fail_if_def Let_def count_run_def write_receipt_def)
qed

definition alias_request_config :: bootstrap_config where
  "alias_request_config = (broker_config [''AS_ROOT''])\<lparr>bc_identity := (bc_identity (broker_config [''AS_ROOT'']))
     \<lparr>ic_default_user := None, ic_default_uid := Some 1000, ic_default_gid := Some 1000, ic_auto_mapping := False\<rparr>\<rparr>"

definition root_identity :: resolved_identity where
  "root_identity = \<lparr>id_uid = 0, id_gid = 0, id_user = ''root'', id_home = ''/root'', id_run_as_root = True,
     id_uid_source = FromRunAsRoot, id_gid_source = FromRunAsRoot, id_workspace = WsNotMounted\<rparr>"

lemma alias_inputs:
  "validate_request_inputs alias_request_config [(''AS_ROOT'', ''1'')] = Inr ()"
  "\<exists>resolved. resolve_inputs alias_request_config (request_context ''/w'' [] [(''AS_ROOT'', ''1'')]) = Inr resolved \<and>
     input_bool alias_request_config resolved (Some ''RUN_AS_ROOT'') = Inr (Some True) \<and>
     input_home alias_request_config resolved None = Inr None"
proof -
  show "validate_request_inputs alias_request_config [(''AS_ROOT'', ''1'')] = Inr ()" by code_simp
  have "resolve_inputs alias_request_config (request_context ''/w'' [] [(''AS_ROOT'', ''1'')]) =
      Inr [(''AS_ROOT'', \<lparr>ri_name = ''RUN_AS_ROOT'', ri_raw = ''1'', ri_parsed = RBool True\<rparr>),
        (''RUN_AS_ROOT'', \<lparr>ri_name = ''RUN_AS_ROOT'', ri_raw = ''1'', ri_parsed = RBool True\<rparr>)]" by code_simp
  then show "\<exists>resolved. resolve_inputs alias_request_config (request_context ''/w'' [] [(''AS_ROOT'', ''1'')]) = Inr resolved \<and>
     input_bool alias_request_config resolved (Some ''RUN_AS_ROOT'') = Inr (Some True) \<and>
     input_home alias_request_config resolved None = Inr None"
    by (simp add: input_bool_def input_home_def find_input_def btree_get_def)
qed

lemma alias_resolves:
  "resolve_prevalidated posix alias_request_config (request_context ''/w'' [] [(''AS_ROOT'', ''1'')]) = Inr root_identity"
proof -
  have names: "ic_run_as_root_input (bc_identity alias_request_config) = Some ''RUN_AS_ROOT''"
    "ic_home_input (bc_identity alias_request_config) = None" "ic_default_home (bc_identity alias_request_config) = None"
    by code_simp+
  from alias_inputs(2) show ?thesis
    by (auto simp: resolve_prevalidated_def names Let_def root_identity_def DEFAULT_ROOT_HOME_def)
qed

lemma root_groups: "supplementary_groups sample_system root_identity = Inr [0, 1000]"
proof -
  have limit: "max_supplementary_groups (sy_ngroups_max sample_system) = 64"
    by (simp add: max_supplementary_groups_def sample_system_def)
  have "\<not> has_char (id_user root_identity) nul" by code_simp
  then show ?thesis
    using group_list_loop_answer [of "\<lambda>_. Inr [1000]" 16 "[1000]" 66 64]
    by (simp add: supplementary_groups_def limit Let_def fail_if_def sample_system_def root_identity_def sort_dedup_def
        max_supplementary_groups_def)
qed

text \<open>
  C22. An alias of an identity input gives root away. The profile is valid and its request plan is the one the backend
  builds; a peer with uid 1000 asks for its own identity and sends the alias of the input for \<open>run_as_root\<close>, which is
  not stripped: the backend answers with uid 0 and \<open>run_as_root\<close>.
\<close>

theorem prepare_identity_alias_gives_root:
  "config_validate (broker_config [''AS_ROOT'']) = Inr () \<and>
   plan_from_config (request_config (broker_config [''AS_ROOT''])) = Some (Inr (rt_request_plan (broker_runtime [''AS_ROOT'']))) \<and>
   pc_uid sample_peer = 1000 \<and>
   (\<exists>identity hs. prepare_identity sample_system (broker_runtime [''AS_ROOT'']) sample_peer (broker_options ''AS_ROOT'') root_state =
      (Inr identity, hs) \<and> pd_uid identity = 0 \<and> pd_gid identity = 0 \<and> pd_run_as_root identity)"
proof -
  have config: "(alias_request_config, [(''AS_ROOT'', ''1'')]) = (let names = identity_input_names (bc_identity (broker_config [''AS_ROOT'']));
        (identity_config, inputs) = with_requested_identity (RequestPeer 1000 1000) (bc_identity (broker_config [''AS_ROOT'']),
          filter (\<lambda>(name, _). name \<notin> set names) [(''AS_ROOT'', ''1'')])
      in ((broker_config [''AS_ROOT''])\<lparr>bc_identity := identity_config\<rparr>, inputs))"
    by (simp add: alias_request_config_def identity_input_names_def broker_config_def drop_config_def identity_config_new_def
        List.map_filter_simps)
  have "\<exists>hs. prepare_identity sample_system (broker_runtime [''AS_ROOT'']) sample_peer (broker_options ''AS_ROOT'') root_state =
     (Inr \<lparr>pd_uid = id_uid root_identity, pd_gid = id_gid root_identity, pd_user = id_user root_identity, pd_home = id_home root_identity,
        pd_supplemental_groups = [0, 1000], pd_run_as_root = id_run_as_root root_identity\<rparr>, hs)"
    using alias_inputs(2) by (intro broker_identity [OF alias_inputs(1) config alias_resolves _ root_groups]) blast
  then show ?thesis using broker_config_valid broker_plan by (auto simp: sample_peer_def root_identity_def)
qed

definition plain_request_config :: bootstrap_config where
  "plain_request_config = (broker_config [])\<lparr>bc_identity := (bc_identity (broker_config []))
     \<lparr>ic_default_user := None, ic_default_uid := Some 1000, ic_default_gid := Some 1000, ic_auto_mapping := False\<rparr>\<rparr>"

lemma plain_resolves:
  "resolve_prevalidated (posix_in (executor_for sample_system plain_request_config cx) root_state) plain_request_config
     (runtime_context_new ''/w'') = Inr drop_identity"
proof -
  let ?p = "posix_in (executor_for sample_system plain_request_config cx) root_state"
  have same: "?p = posix_in (drop_executor sample_calls) root_state" by (simp add: posix_in_def executor_for_def sample_system_def)
  have c: "bc_identity plain_request_config = identity_config_new\<lparr>ic_default_uid := Some 1000, ic_default_gid := Some 1000,
      ic_run_as_root_input := Some ''RUN_AS_ROOT''\<rparr>"
    by (simp add: plain_request_config_def broker_config_def drop_config_def identity_config_new_def)
  have inputs: "resolve_inputs plain_request_config (runtime_context_new ''/w'') = Inr []" by code_simp
  have unset: "find_input plain_request_config [] name = None" for name
    by (simp add: find_input_def btree_get_def plain_request_config_def broker_config_def bootstrap_input_new_def split: Option.bind_splits)
  have drop: "resolve_target posix drop_config (runtime_context_new ''/w'') [] = Inr drop_identity"
    if "posix = posix_in (drop_executor sample_calls) root_state" for posix
  proof -
    have "resolve_inputs drop_config cx = Inr []" for cx
      by (simp add: resolve_inputs_def drop_config_def sample_config_def bootstrap_config_new_def)
    then show ?thesis using drop_resolve [of sample_calls] that
      by (simp add: resolve_prevalidated_def drop_config_def identity_config_new_def input_bool_def find_input_def unwrap_or_def)
  qed
  have "resolve_target posix plain_request_config (runtime_context_new ''/w'') [] = resolve_target posix drop_config (runtime_context_new ''/w'') []"
    for posix
    by (simp add: resolve_target_def c unset input_uid_pair_def input_gid_def input_home_def map_pair_def select_gid_def drop_config_def
        identity_config_new_def find_input_def select_uid_def)
  then show ?thesis unfolding same using drop
    by (simp add: resolve_prevalidated_def inputs c identity_config_new_def input_bool_def unset unwrap_or_def)
qed

theorem prepare_identity_own_witness:
  "\<exists>identity hs. prepare_identity sample_system (broker_runtime []) sample_peer (broker_options ''RUN_AS_ROOT'') root_state = (Inr identity, hs) \<and>
     pd_uid identity = pc_uid sample_peer \<and> pd_gid identity = pc_gid sample_peer \<and> \<not> pd_run_as_root identity"
proof -
  have config: "(plain_request_config, []) = (let names = identity_input_names (bc_identity (broker_config []));
        (identity_config, inputs) = with_requested_identity (RequestPeer 1000 1000) (bc_identity (broker_config []),
          filter (\<lambda>(name, _). name \<notin> set names) [(''RUN_AS_ROOT'', ''1'')])
      in ((broker_config [])\<lparr>bc_identity := identity_config\<rparr>, inputs))"
    by (simp add: plain_request_config_def identity_input_names_def broker_config_def drop_config_def identity_config_new_def
        List.map_filter_simps)
  have cx: "request_context ''/w'' [] [] = runtime_context_new ''/w''"
    by (simp add: request_context_def with_environment_def runtime_context_new_def btree_collect_def btree_extend_def)
  have inputs: "validate_request_inputs plain_request_config [] = Inr ()" by (simp add: validate_request_inputs_def)
  have resolved: "\<exists>resolved. resolve_inputs plain_request_config (request_context ''/w'' [] []) = Inr resolved"
    unfolding cx by (intro exI [of _ "[]"]) code_simp
  obtain identity hs where run: "prepare_identity sample_system (broker_runtime []) sample_peer (broker_options ''RUN_AS_ROOT'') root_state =
      (Inr identity, hs)"
    using broker_identity [OF inputs config _ resolved sample_groups] plain_resolves unfolding cx by blast
  have "identity_inputs_plain (rt_request_config (broker_runtime []))" by code_simp
  then show ?thesis using prepare_identity_own [OF _ _ run] run by (auto simp: sample_peer_def)
qed

end
