(* ===== verification/Backend_Client.thy ===== *)
theory Backend_Client
  imports Backend_Connection
begin

text \<open>
  The clients of the init backend (\<open>src/crates/container-init-backend/src/client.rs\<close> and
  \<open>src/crates/container-init-protocol/src/client.rs\<close>). An \<open>exchange\<close> holds what one connection answers: the clock,
  the connection with the uid of the peer, whether the request could be written, and the response. Operations that make
  several requests take the exchanges as a list; \<open>None\<close> means that the list ends before they return.
\<close>

section \<open>Errors and exchanges\<close>

datatype client_io = IoError io_error | PeerUidMismatch u32

datatype 'j client_error =
    ClientIo client_io
  | ClientProtocol "'j protocol_error"
  | ClientBackend backend_error
  | UnexpectedResponse
  | ClientTimedOut
  | OutcomeUnknown

fun protocol_client_error :: "'j protocol_error \<Rightarrow> 'j client_error" where
  "protocol_client_error (ProtocolIo TimedOut) = ClientTimedOut"
| "protocol_client_error e = ClientProtocol e"

fun transport_failure :: "'j client_error \<Rightarrow> bool" where
  "transport_failure (ClientIo _) = True"
| "transport_failure (ClientProtocol (ProtocolIo _)) = True"
| "transport_failure ClientTimedOut = True"
| "transport_failure _ = False"

record ('v, 'j) exchange =
  xc_now :: nat
  xc_connect :: "(io_error, u32) result"
  xc_written :: "'j protocol_error option"
  xc_answer :: "('j protocol_error, 'v server_message) result"

definition connect_until :: "u32 \<Rightarrow> nat \<Rightarrow> ('v, 'j) exchange \<Rightarrow> ('j client_error, unit) result" where
  "connect_until expected_uid deadline xc =
     rbind (fail_if (deadline \<le> xc_now xc) ClientTimedOut) (\<lambda>_.
     rbind (map_err (ClientIo \<circ> IoError) (xc_connect xc)) (\<lambda>uid.
     fail_if (uid \<noteq> expected_uid) (ClientIo (PeerUidMismatch uid))))"

definition written :: "'j protocol_error option \<Rightarrow> ('j client_error, unit) result" where
  "written failure = (case failure of None \<Rightarrow> Inr () | Some e \<Rightarrow> Inl (protocol_client_error e))"

definition read_server_response ::
  "('j protocol_error, 'v server_message) result \<Rightarrow> ('j client_error, 'v server_response) result" where
  "read_server_response answer =
     rbind (map_err protocol_client_error answer) (\<lambda>response.
     rbind (fail_if (sm_version response \<noteq> PROTOCOL_VERSION) (ClientProtocol (UnsupportedVersion (sm_version response)))) (\<lambda>_.
     Inr (sm_response response)))"

definition request_until :: "u32 \<Rightarrow> nat \<Rightarrow> ('v, 'j) exchange \<Rightarrow> ('j client_error, 'v server_response) result" where
  "request_until expected_uid deadline xc =
     rbind (connect_until expected_uid deadline xc) (\<lambda>_.
     rbind (written (xc_written xc)) (\<lambda>_.
     read_server_response (xc_answer xc)))"

definition client_deadline :: "nat \<Rightarrow> nat \<Rightarrow> ('j client_error, nat) result" where
  "client_deadline timeout now =
     rbind (fail_if (timeout = 0) ClientTimedOut) (\<lambda>_. ok_or ClientTimedOut (instant_checked_add now timeout))"

section \<open>Status and doctor\<close>

definition status_until :: "u32 \<Rightarrow> nat \<Rightarrow> ('v, 'j) exchange \<Rightarrow> ('j client_error, backend_status) result" where
  "status_until expected_uid deadline xc =
     rbind (request_until expected_uid deadline xc) (\<lambda>response.
     case response of StatusResponse status \<Rightarrow> Inr status | ErrorResponse e \<Rightarrow> Inl (ClientBackend e) | _ \<Rightarrow> Inl UnexpectedResponse)"

definition client_doctor :: "u32 \<Rightarrow> nat \<Rightarrow> ('v, 'j) exchange \<Rightarrow> ('j client_error, doctor_report) result" where
  "client_doctor expected_uid deadline xc =
     rbind (request_until expected_uid deadline xc) (\<lambda>response.
     case response of DoctorResponse report \<Rightarrow> Inr report | ErrorResponse e \<Rightarrow> Inl (ClientBackend e) | _ \<Rightarrow> Inl UnexpectedResponse)"

section \<open>Plans\<close>

definition validate_plan_page ::
  "'v plan_page \<Rightarrow> string option \<Rightarrow> string option \<Rightarrow> nat \<Rightarrow> ('j client_error, unit) result" where
  "validate_plan_page page expected_snapshot expected_profile offset =
     (let end_offset = min (offset + length (pp_actions page)) USIZE_MAX in
      fail_if
        (MAX_PLAN_PAGE_ACTIONS < length (pp_actions page) \<or> \<not> pp_online page \<or> pp_offset page \<noteq> offset \<or>
         pp_snapshot_id page = [] \<or> 128 < length (pp_snapshot_id page) \<or>
         is_some_and (\<lambda>expected. expected \<noteq> pp_snapshot_id page) expected_snapshot \<or>
         is_some_and (\<lambda>expected. expected \<noteq> pp_profile page) expected_profile \<or>
         pp_total_actions page < end_offset \<or>
         is_some_and (\<lambda>next. next \<noteq> end_offset \<or> next \<le> offset) (pp_next_offset page) \<or>
         pp_next_offset page = None \<and> end_offset \<noteq> pp_total_actions page \<or>
         pp_next_offset page \<noteq> None \<and> pp_actions page = [])
        UnexpectedResponse)"

record 'v whole_plan =
  wp_profile :: string
  wp_snapshot_id :: string
  wp_actions :: "'v list"

text \<open>The request of each round is determined by the state, so that the answers can depend on it.\<close>

record 'v paging =
  pg_seen :: "(string \<times> string) option"
  pg_offset :: nat
  pg_actions :: "'v list"

definition plan_request :: "'v paging \<Rightarrow> client_request" where
  "plan_request pg = PlanRequest (map_option fst (pg_seen pg)) (pg_offset pg)"

definition take_page :: "'v server_response \<Rightarrow> 'v paging \<Rightarrow> ('j client_error, 'v paging + 'v whole_plan) result" where
  "take_page response pg =
     rbind (case response of PlanPage page \<Rightarrow> Inr page | ErrorResponse e \<Rightarrow> Inl (ClientBackend e) | _ \<Rightarrow> Inl UnexpectedResponse) (\<lambda>page.
     rbind (validate_plan_page page (map_option fst (pg_seen pg)) (map_option snd (pg_seen pg)) (pg_offset pg)) (\<lambda>_.
     let (snapshot_id, profile) = unwrap_or (pp_snapshot_id page, pp_profile page) (pg_seen pg);
         actions = pg_actions pg @ pp_actions page in
     Inr (case pp_next_offset page of
            Some next \<Rightarrow> Inl \<lparr>pg_seen = Some (snapshot_id, profile), pg_offset = next, pg_actions = actions\<rparr>
          | None \<Rightarrow> Inr \<lparr>wp_profile = profile, wp_snapshot_id = snapshot_id, wp_actions = actions\<rparr>)))"

text \<open>\<open>answer\<close> is what a request meets on its connection; \<open>fuel\<close> bounds the number of requests.\<close>

fun plan_loop ::
  "nat \<Rightarrow> (client_request \<Rightarrow> ('j client_error, 'v server_response) result) \<Rightarrow> 'v paging \<Rightarrow>
   ('j client_error, 'v whole_plan) result option" where
  "plan_loop 0 answer pg = None"
| "plan_loop (Suc fuel) answer pg =
     (case rbind (answer (plan_request pg)) (\<lambda>response. take_page response pg) of
        Inl e \<Rightarrow> Some (Inl e)
      | Inr (Inr whole) \<Rightarrow> Some (Inr whole)
      | Inr (Inl pg) \<Rightarrow> plan_loop fuel answer pg)"

definition client_plan ::
  "nat \<Rightarrow> (client_request \<Rightarrow> ('j client_error, 'v server_response) result) \<Rightarrow> ('j client_error, 'v whole_plan) result option" where
  "client_plan fuel answer = plan_loop fuel answer \<lparr>pg_seen = None, pg_offset = 0, pg_actions = []\<rparr>"

section \<open>Prepare\<close>

record caller_credentials =
  ca_uid :: u32
  ca_gid :: u32
  ca_groups :: "u32 list option"

text \<open>The answers of the two calls of \<open>getgroups\<close>: the number of groups and the groups.\<close>

definition current_groups ::
  "int \<Rightarrow> u32 \<Rightarrow> (io_error, nat) result \<Rightarrow> (io_error, u32 list) result \<Rightarrow> ('j client_error, u32 list) result" where
  "current_groups ngroups_max egid count groups =
     rbind (map_err (ClientIo \<circ> IoError) count) (\<lambda>count.
     rbind (fail_if (max_supplementary_groups ngroups_max < count) (ClientProtocol (InvalidFrame CallerGroupsExceed))) (\<lambda>_.
     rbind (map_err (ClientIo \<circ> IoError) groups) (\<lambda>groups.
     Inr (sort_dedup (groups @ [egid])))))"

definition caller_credentials_now ::
  "int \<Rightarrow> u32 \<Rightarrow> u32 \<Rightarrow> (io_error, nat) result \<Rightarrow> (io_error, u32 list) result \<Rightarrow> ('j client_error, caller_credentials) result" where
  "caller_credentials_now ngroups_max euid egid count groups =
     rbind (if euid = 0 then Inr None else rbind (current_groups ngroups_max egid count groups) (\<lambda>groups. Inr (Some groups))) (\<lambda>groups.
     Inr \<lparr>ca_uid = euid, ca_gid = egid, ca_groups = groups\<rparr>)"

definition handoff_credentials_match :: "caller_credentials \<Rightarrow> resolved_identity \<Rightarrow> u32 list \<Rightarrow> bool \<Rightarrow> bool" where
  "handoff_credentials_match caller identity supplemental_groups root_service \<longleftrightarrow>
     ca_uid caller = 0 \<or>
     \<not> root_service \<and> \<not> id_run_as_root identity \<and> id_uid identity = ca_uid caller \<and> id_gid identity = ca_gid caller \<and>
     ca_groups caller = Some supplemental_groups"

definition login_value_ok :: "string \<Rightarrow> bool" where
  "login_value_ok value \<longleftrightarrow> value \<noteq> [] \<and> \<not> has_char value nul \<and> \<not> has_char value (CHR 0x0A)"

definition login_environment_matches :: "prepared_handoff \<Rightarrow> bool" where
  "login_environment_matches prepared \<longleftrightarrow>
     (let env = ph_login_environment prepared; identity = ph_identity prepared;
          entry = (\<lambda>name P. is_some_and P (btree_get name env)) in
      length env = 3 \<and> list_all (\<lambda>name. entry name login_value_ok) [''HOME'', ''USER'', ''LOGNAME''] \<and>
      (if ph_root_service prepared
       then entry ''HOME'' (\<lambda>v. v = ''/root'') \<and> entry ''USER'' (\<lambda>v. v = ''root'') \<and> entry ''LOGNAME'' (\<lambda>v. v = ''root'')
       else entry ''HOME'' (\<lambda>v. starts_with v ''/'' \<and> v = id_home identity) \<and> entry ''USER'' (\<lambda>v. v = id_user identity) \<and>
         entry ''LOGNAME'' (\<lambda>v. v = id_user identity)))"

definition strictly_sorted :: "u32 list \<Rightarrow> bool" where
  "strictly_sorted groups = list_all (\<lambda>(a, b). a < b) (zip groups (tl groups))"

definition validate_prepared ::
  "int \<Rightarrow> prepared_handoff \<Rightarrow> caller_credentials \<Rightarrow> ('j client_error, prepared_handoff) result" where
  "validate_prepared ngroups_max prepared caller =
     (let identity = ph_identity prepared; groups = ph_supplemental_groups prepared in
      if \<not> is_absolute (hf_program (ph_command prepared)) \<or>
         list_ex (\<lambda>argument. has_char argument nul) (hf_args (ph_command prepared)) \<or>
         \<not> is_absolute (ph_cwd prepared) \<or> ParentDir \<in> set (components (ph_cwd prepared)) \<or>
         \<not> login_environment_matches prepared \<or> \<not> is_absolute (id_home identity) \<or> has_char (id_user identity) nul \<or>
         max_supplementary_groups ngroups_max < length groups \<or>
         \<not> ph_root_service prepared \<and> id_gid identity \<notin> set groups \<or> \<not> strictly_sorted groups \<or>
         \<not> handoff_credentials_match caller identity groups (ph_root_service prepared) \<or>
         length (ph_prepare_id prepared) \<noteq> 48 \<or> \<not> list_all is_ascii_hexdigit (ph_prepare_id prepared) \<or>
         ph_snapshot_id prepared = [] \<or> 128 < length (ph_snapshot_id prepared) \<or> co_inode (ph_cwd_object prepared) = 0
      then Inl UnexpectedResponse else Inr prepared)"

record client_options =
  cl_argv :: "string list"
  cl_cwd :: string
  cl_inputs :: "(string, string) btree_map"
  cl_environment :: "(string, string) btree_map"

definition request_budget :: "nat \<Rightarrow> nat \<Rightarrow> u64" where
  "request_budget deadline now = of_nat (max 1 (min 300000 ((deadline - now) div 10 ^ 6)))"

text \<open>What is sent after \<open>Hello\<close>: only what the backend says it uses.\<close>

definition prepare_message ::
  "int \<Rightarrow> hello_info \<Rightarrow> nat \<Rightarrow> nat \<Rightarrow> client_options \<Rightarrow> ('j client_error, client_message) result" where
  "prepare_message ngroups_max info deadline now options =
     rbind (fail_if (hi_state info \<noteq> BackendReady) (ClientBackend (backend_err ''backend_not_ready'' True StillStarting))) (\<lambda>_.
     rbind (fail_if (hi_limits info \<noteq> limits_current ngroups_max) (ClientProtocol IncompatibleLimits)) (\<lambda>_.
     rbind (fail_if (\<exists>name \<in> set (map fst (cl_inputs options)). name \<notin> set (hi_runtime_inputs info))
       (ClientBackend (backend_err ''invalid_input'' False InputNotEnabled))) (\<lambda>_.
     let message = \<lparr>cm_version = PROTOCOL_VERSION, cm_request = PrepareExec (cl_argv options) (cl_cwd options) (cl_inputs options)
           (filter (\<lambda>(name, _). name \<in> set (hi_environment_names info)) (cl_environment options)) (request_budget deadline now)\<rparr> in
     rbind (map_err ClientProtocol (validate_message message)) (\<lambda>_. Inr message))))"

text \<open>One attempt: the clock, its two exchanges on one connection with the clock before the second, and the clock at the pause.\<close>

record ('v, 'j) prepare_attempt =
  at_now :: nat
  at_hello :: "('v, 'j) exchange"
  at_clock :: nat
  at_written :: "'j protocol_error option"
  at_answer :: "('j protocol_error, 'v server_message) result"
  at_pause :: nat

text \<open>The result and the transaction that is aborted, if there is one.\<close>

definition prepare_once_until ::
  "int \<Rightarrow> u32 \<Rightarrow> nat \<Rightarrow> client_options \<Rightarrow> caller_credentials \<Rightarrow> ('v, 'j) prepare_attempt \<Rightarrow>
   ('j client_error, prepared_handoff) result \<times> string option" where
  "prepare_once_until ngroups_max expected_uid deadline options caller attempt =
     (case rbind (request_until expected_uid deadline (at_hello attempt)) (\<lambda>response.
           rbind (case response of HelloResponse info \<Rightarrow> Inr info | ErrorResponse e \<Rightarrow> Inl (ClientBackend e) | _ \<Rightarrow> Inl UnexpectedResponse)
             (\<lambda>info.
           rbind (prepare_message ngroups_max info deadline (at_clock attempt) options) (\<lambda>_.
           rbind (written (at_written attempt)) (\<lambda>_.
           rbind (read_server_response (at_answer attempt)) (\<lambda>response.
           case response of PreparedExec prepared \<Rightarrow> Inr (info, prepared) | ErrorResponse e \<Rightarrow> Inl (ClientBackend e)
             | _ \<Rightarrow> Inl UnexpectedResponse))))) of
        Inl e \<Rightarrow> (Inl e, None)
      | Inr (info, prepared) \<Rightarrow>
          let validated = rbind (validate_prepared ngroups_max prepared caller) (\<lambda>prepared.
                rbind (fail_if (ph_snapshot_id prepared \<noteq> hi_snapshot_id info) UnexpectedResponse) (\<lambda>_. Inr prepared)) in
          (validated, if (\<exists>e. validated = Inl e) \<and> ph_prepare_id prepared \<noteq> [] then Some (ph_prepare_id prepared) else None))"

primrec prepare_loop ::
  "int \<Rightarrow> u32 \<Rightarrow> nat \<Rightarrow> client_options \<Rightarrow> caller_credentials \<Rightarrow> ('v, 'j) prepare_attempt list \<Rightarrow> nat \<Rightarrow>
   ('j client_error, prepared_handoff) result option" where
  "prepare_loop ngroups_max expected_uid deadline options caller [] delay = None"
| "prepare_loop ngroups_max expected_uid deadline options caller (attempt # attempts) delay =
     (if deadline \<le> at_now attempt then Some (Inl ClientTimedOut)
      else
        (case fst (prepare_once_until ngroups_max expected_uid deadline options caller attempt) of
           Inl (ClientBackend e) \<Rightarrow>
             if be_retryable e then
               if deadline - at_pause attempt = 0 then Some (Inl ClientTimedOut)
               else prepare_loop ngroups_max expected_uid deadline options caller attempts (min (delay * 2) (100 * 10 ^ 6))
             else Some (Inl (ClientBackend e))
         | result \<Rightarrow> Some result))"

definition prepare_until ::
  "int \<Rightarrow> u32 \<Rightarrow> nat \<Rightarrow> client_options \<Rightarrow> ('j client_error, caller_credentials) result \<Rightarrow> ('v, 'j) prepare_attempt list \<Rightarrow>
   ('j client_error, prepared_handoff) result option" where
  "prepare_until ngroups_max expected_uid deadline options caller attempts =
     (case rbind (map_err ClientProtocol (validate_argv (cl_argv options))) (\<lambda>_. caller) of
        Inl e \<Rightarrow> Some (Inl e)
      | Inr caller \<Rightarrow> prepare_loop ngroups_max expected_uid deadline options caller attempts (10 * 10 ^ 6))"

section \<open>Commit\<close>

definition commit_result_if_done :: "commit_result \<Rightarrow> ('j client_error, receipt_summary) result option" where
  "commit_result_if_done result =
     (case wc_state result of
        TxCommitted \<Rightarrow> Some (ok_or UnexpectedResponse (wc_receipt_summary result))
      | TxFailed \<Rightarrow> Some (Inl (ClientBackend (unwrap_or (backend_err ''commit_failed'' False RequestPlanFailed) (wc_error result))))
      | TxOutcomeUnknown \<Rightarrow> Some (Inl OutcomeUnknown)
      | TxPrepared \<Rightarrow> None
      | TxCommitting \<Rightarrow> None
      | TxAborted \<Rightarrow> Some (Inl (ClientBackend (backend_err ''transaction_aborted'' False AbortedBeforeCommit))))"

definition get_exec_result_until ::
  "u32 \<Rightarrow> nat \<Rightarrow> string \<Rightarrow> ('v, 'j) exchange \<Rightarrow> ('j client_error, commit_result) result" where
  "get_exec_result_until expected_uid deadline prepare_id xc =
     rbind (request_until expected_uid deadline xc) (\<lambda>response.
     case response of
       CommitResult result \<Rightarrow> if wc_prepare_id result = prepare_id then Inr result else Inl UnexpectedResponse
     | ErrorResponse e \<Rightarrow> if be_class e = ''unknown_transaction'' then Inl OutcomeUnknown else Inl (ClientBackend e)
     | _ \<Rightarrow> Inl UnexpectedResponse)"

definition abort_until :: "u32 \<Rightarrow> nat \<Rightarrow> string \<Rightarrow> ('v, 'j) exchange \<Rightarrow> ('j client_error, unit) result" where
  "abort_until expected_uid deadline prepare_id xc =
     rbind (request_until expected_uid deadline xc) (\<lambda>response.
     case response of
       CommitResult result \<Rightarrow>
         if wc_prepare_id result = prepare_id \<and> wc_state result = TxAborted then Inr () else Inl UnexpectedResponse
     | ErrorResponse e \<Rightarrow> Inl (ClientBackend e)
     | _ \<Rightarrow> Inl UnexpectedResponse)"

text \<open>One query: the clock before it, its exchange, and the clock at the pause.\<close>

record ('v, 'j) query =
  qu_now :: nat
  qu_exchange :: "('v, 'j) exchange"
  qu_pause :: nat

primrec poll_exec_result ::
  "u32 \<Rightarrow> nat \<Rightarrow> string \<Rightarrow> ('v, 'j) query list \<Rightarrow> ('j client_error, receipt_summary) result option" where
  "poll_exec_result expected_uid deadline prepare_id [] = None"
| "poll_exec_result expected_uid deadline prepare_id (query # queries) =
     (if deadline \<le> qu_now query then Some (Inl OutcomeUnknown)
      else
        (case get_exec_result_until expected_uid deadline prepare_id (qu_exchange query) of
           Inr result \<Rightarrow>
             (case commit_result_if_done result of
                Some done \<Rightarrow> Some done
              | None \<Rightarrow>
                  if deadline - qu_pause query = 0 then Some (Inl OutcomeUnknown)
                  else poll_exec_result expected_uid deadline prepare_id queries)
         | Inl e \<Rightarrow> Some (Inl (if transport_failure e then OutcomeUnknown else e))))"

definition commit_until ::
  "u32 \<Rightarrow> nat \<Rightarrow> string \<Rightarrow> ('v, 'j) exchange \<Rightarrow> ('v, 'j) query list \<Rightarrow> ('j client_error, receipt_summary) result option" where
  "commit_until expected_uid deadline prepare_id first queries =
     (case request_until expected_uid deadline first of
        Inr (CommitResult result) \<Rightarrow>
          if wc_prepare_id result \<noteq> prepare_id then Some (Inl UnexpectedResponse)
          else
            (case commit_result_if_done result of
               Some done \<Rightarrow> Some done
             | None \<Rightarrow> poll_exec_result expected_uid deadline prepare_id queries)
      | Inr (ErrorResponse e) \<Rightarrow>
          if be_class e = ''unknown_transaction'' then poll_exec_result expected_uid deadline prepare_id queries
          else Some (Inl (ClientBackend e))
      | Inr _ \<Rightarrow> Some (Inl UnexpectedResponse)
      | Inl _ \<Rightarrow> poll_exec_result expected_uid deadline prepare_id queries)"

section \<open>The identity broker\<close>

datatype broker_error =
    BrokerTimeoutInvalid | BrokerUnavailable | BrokerPeerCheck | BrokerPeerUid u32 | BrokerStream | BrokerWrite | BrokerResponse
  | BrokerVersion | BrokerHello | BrokerRefused backend_error | BrokerUnexpected | BrokerInvalidIdentity

definition expect_hello :: "('j protocol_error, 'v server_message) result \<Rightarrow> (broker_error, hello_info) result" where
  "expect_hello answer =
     rbind (map_err (\<lambda>_. BrokerResponse) answer) (\<lambda>response.
     rbind (fail_if (sm_version response \<noteq> PROTOCOL_VERSION) BrokerVersion) (\<lambda>_.
     case sm_response response of HelloResponse info \<Rightarrow> Inr info | ErrorResponse e \<Rightarrow> Inl (BrokerRefused e) | _ \<Rightarrow> Inl BrokerHello))"

definition restrict_to_allowed :: "(string, string) btree_map \<Rightarrow> string list \<Rightarrow> (string, string) btree_map" where
  "restrict_to_allowed values allowed = filter (\<lambda>(name, _). name \<in> set allowed) values"

definition validate_identity :: "prepared_identity \<Rightarrow> (broker_error, unit) result" where
  "validate_identity identity =
     fail_if (pd_user identity = [] \<or> has_char (pd_user identity) nul \<or> \<not> is_absolute (pd_home identity) \<or>
       \<not> strictly_sorted (pd_supplemental_groups identity) \<or> pd_uid identity = 0 \<and> pd_gid identity \<noteq> 0 \<or>
       pd_run_as_root identity \<and> pd_uid identity \<noteq> 0) BrokerInvalidIdentity"

record broker_connection =
  br_connect :: "(unit, u32 option) result"
  br_setup :: bool

definition broker_connect :: "nat \<Rightarrow> nat \<Rightarrow> u32 \<Rightarrow> broker_connection \<Rightarrow> (broker_error, unit) result" where
  "broker_connect timeout now expected_uid link =
     rbind (ok_or BrokerTimeoutInvalid (instant_checked_add now timeout)) (\<lambda>_.
     rbind (map_err (\<lambda>_. BrokerUnavailable) (br_connect link)) (\<lambda>peer.
     rbind (ok_or BrokerPeerCheck peer) (\<lambda>uid.
     rbind (fail_if (uid \<noteq> expected_uid) (BrokerPeerUid uid)) (\<lambda>_.
     fail_if (\<not> br_setup link) BrokerStream))))"

text \<open>The answers: whether each of the two requests could be written, and the responses. The second request is returned too.\<close>

definition broker_request ::
  "hello_info \<Rightarrow> identity_request \<Rightarrow> string \<Rightarrow> (string, string) btree_map \<Rightarrow> (string, string) btree_map \<Rightarrow> client_message" where
  "broker_request info requested cwd inputs environment =
     \<lparr>cm_version = PROTOCOL_VERSION, cm_request = PrepareIdentity cwd (restrict_to_allowed inputs (hi_runtime_inputs info))
       (restrict_to_allowed environment (hi_environment_names info)) requested\<rparr>"

definition broker_resolve ::
  "nat \<Rightarrow> nat \<Rightarrow> u32 \<Rightarrow> broker_connection \<Rightarrow> bool \<Rightarrow> ('j protocol_error, 'v server_message) result \<Rightarrow>
   (client_message \<Rightarrow> bool \<times> ('j protocol_error, 'v server_message) result) \<Rightarrow>
   identity_request \<Rightarrow> string \<Rightarrow> (string, string) btree_map \<Rightarrow> (string, string) btree_map \<Rightarrow> (broker_error, prepared_identity) result" where
  "broker_resolve timeout now expected_uid link hello_written hello answer requested cwd inputs environment =
     rbind (broker_connect timeout now expected_uid link) (\<lambda>_.
     rbind (fail_if (\<not> hello_written) BrokerWrite) (\<lambda>_.
     rbind (expect_hello hello) (\<lambda>info.
     let (request_written, reply) = answer (broker_request info requested cwd inputs environment) in
     rbind (fail_if (\<not> request_written) BrokerWrite) (\<lambda>_.
     rbind (map_err (\<lambda>_. BrokerResponse) reply) (\<lambda>response.
     rbind (fail_if (sm_version response \<noteq> PROTOCOL_VERSION) BrokerVersion) (\<lambda>_.
     rbind (case sm_response response of
              IdentityResponse identity \<Rightarrow> Inr identity
            | ErrorResponse e \<Rightarrow> Inl (BrokerRefused e)
            | _ \<Rightarrow> Inl BrokerUnexpected) (\<lambda>identity.
     rbind (validate_identity identity) (\<lambda>_. Inr identity))))))))"

section \<open>A plan read page by page\<close>

text \<open>A backend that answers requests for pages.\<close>

definition page_server :: "'v page_json \<Rightarrow> backend_runtime \<Rightarrow> client_request \<Rightarrow> ('j client_error, 'v server_response) result" where
  "page_server json rt request =
     (case request of
        PlanRequest snapshot_id offset \<Rightarrow>
          Inr (case plan_page_response json rt snapshot_id offset of Inr page \<Rightarrow> PlanPage page | Inl e \<Rightarrow> ErrorResponse e)
      | _ \<Rightarrow> Inl UnexpectedResponse)"

text \<open>
  The page of the plan that starts at an offset and has so many actions; such pages can be serialised, and the one with a single
  action fits into a frame.
\<close>

definition page_of :: "backend_runtime \<Rightarrow> 'v list \<Rightarrow> nat \<Rightarrow> nat \<Rightarrow> 'v plan_page" where
  "page_of rt values offset count =
     make_page rt offset (if offset + count < length values then Some (offset + count) else None) (take count (drop offset values))"

definition pages_fit :: "'v page_json \<Rightarrow> backend_runtime \<Rightarrow> 'v list \<Rightarrow> bool" where
  "pages_fit json rt values \<longleftrightarrow>
     map (pj_value json) (rt_plan rt) = map Some values \<and>
     (\<forall>offset count. 0 < count \<longrightarrow> offset + count \<le> length values \<longrightarrow> pj_page_bytes json (page_of rt values offset count) \<noteq> None) \<and>
     (\<forall>offset bytes. offset < length values \<longrightarrow> pj_page_bytes json (page_of rt values offset 1) = Some bytes \<longrightarrow>
        bytes \<le> MAX_RESPONSE_FRAME_BYTES)"

lemma those_map_Some [simp]: "those (map Some xs) = Some xs"
  by (induction xs) simp_all

lemma page_values:
  assumes "pages_fit json rt values"
  shows "those (map (pj_value json) (take count (drop offset (rt_plan rt)))) = Some (take count (drop offset values))"
  using assms by (simp add: pages_fit_def flip: take_map drop_map) (simp add: take_map drop_map)

lemma page_loop_spec:
  assumes "pages_fit json rt values" "0 < k" "offset + k \<le> length values"
  obtains count where "0 < count" "count \<le> k" "page_loop json rt offset k =
     Inr (make_page rt offset (if offset + count < length values then Some (offset + count) else None) (take count (drop offset values)))"
  using assms(2,3)
proof (induction k arbitrary: thesis)
  case (Suc k)
  have len: "length (rt_plan rt) = length values" using assms(1) by (metis pages_fit_def length_map)
  let ?page = "make_page rt offset (if offset + Suc k < length values then Some (offset + Suc k) else None) (take (Suc k) (drop offset values))"
  obtain bytes where bytes: "pj_page_bytes json ?page = Some bytes"
    using assms(1) Suc.prems(3) unfolding pages_fit_def page_of_def by blast
  show ?case
  proof (cases "bytes \<le> MAX_RESPONSE_FRAME_BYTES")
    case True
    then show ?thesis using bytes by (intro Suc.prems(1) [of "Suc k"]) (simp_all add: page_values [OF assms(1)] len Let_def)
  next
    case False
    have "k \<noteq> 0"
    proof
      assume k: "k = 0"
      have "pj_page_bytes json (page_of rt values offset 1) = Some bytes" "offset < length values"
        using bytes Suc.prems(3) unfolding k page_of_def by (simp_all split: if_splits)
      then have "bytes \<le> MAX_RESPONSE_FRAME_BYTES" using assms(1) unfolding pages_fit_def by blast
      then show False using False by simp
    qed
    then obtain count where "0 < count" "count \<le> k" "page_loop json rt offset k =
        Inr (make_page rt offset (if offset + count < length values then Some (offset + count) else None) (take count (drop offset values)))"
      using Suc.IH Suc.prems(3) by auto
    then show ?thesis using bytes False by (intro Suc.prems(1) [of count]) (simp_all add: page_values [OF assms(1)] len Let_def)
  qed
qed simp

definition snapshot_id_ok :: "string \<Rightarrow> bool" where
  "snapshot_id_ok snapshot_id \<longleftrightarrow> snapshot_id \<noteq> [] \<and> length snapshot_id \<le> 128"

lemma page_served:
  assumes "pages_fit json rt values" "snapshot_id_ok (rt_snapshot_id rt)" "length values \<le> USIZE_MAX"
    and "pg_offset pg < length values \<or> length values = 0 \<and> pg_offset pg = 0"
    and "pg_seen pg = (if pg_offset pg = 0 then None else Some (rt_snapshot_id rt, rt_profile rt))"
  obtains count where "count \<le> MAX_PLAN_PAGE_ACTIONS" "0 < count \<or> length values = 0" "pg_offset pg + count \<le> length values"
    "rbind (page_server json rt (plan_request pg)) (\<lambda>response. take_page response pg) =
      Inr (if pg_offset pg + count < length values
           then Inl \<lparr>pg_seen = Some (rt_snapshot_id rt, rt_profile rt), pg_offset = pg_offset pg + count,
             pg_actions = pg_actions pg @ take count (drop (pg_offset pg) values)\<rparr>
           else Inr \<lparr>wp_profile = rt_profile rt, wp_snapshot_id = rt_snapshot_id rt,
             wp_actions = pg_actions pg @ take count (drop (pg_offset pg) values)\<rparr>)"
proof -
  let ?off = "pg_offset pg"
  have len: "length (rt_plan rt) = length values" using assms(1) by (metis pages_fit_def length_map)
  have cursor: "plan_page_response json rt (map_option fst (pg_seen pg)) ?off =
      (let k = min (length values - ?off) MAX_PLAN_PAGE_ACTIONS in
       if k = 0 then Inr (make_page rt ?off None []) else page_loop json rt ?off k)"
    using assms(4,5) by (auto simp: plan_page_response_def len Let_def MAX_PLAN_PAGE_ACTIONS_def min_def)
  show ?thesis
  proof (cases "length values = 0")
    case True
    then show ?thesis using assms cursor
      by (intro that [of 0]) (auto simp: page_server_def plan_request_def take_page_def make_page_def validate_plan_page_def
          Let_def fail_if_def len snapshot_id_ok_def USIZE_MAX_def)
  next
    case False
    let ?k = "min (length values - ?off) MAX_PLAN_PAGE_ACTIONS"
    have k: "0 < ?k" "?off + ?k \<le> length values" using False assms(4) by (auto simp: MAX_PLAN_PAGE_ACTIONS_def)
    from page_loop_spec [OF assms(1) k] obtain count where count: "0 < count" "count \<le> ?k"
      and page: "page_loop json rt ?off ?k = Inr (make_page rt ?off (if ?off + count < length values then Some (?off + count) else None)
        (take count (drop ?off values)))" by blast
    have "?off + count \<le> USIZE_MAX" "?off + count \<le> length values" using count k assms(3) by auto
    then show ?thesis using assms(2,5) cursor page count k
      by (intro that [of count]) (auto simp: page_server_def plan_request_def take_page_def make_page_def validate_plan_page_def
          Let_def fail_if_def len snapshot_id_ok_def)
  qed
qed

lemma plan_loop_reads:
  fixes json :: "'v page_json"
  assumes "pages_fit json rt values" "snapshot_id_ok (rt_snapshot_id rt)" "length values \<le> USIZE_MAX"
    and "pg_offset pg < length values \<or> length values = 0 \<and> pg_offset pg = 0"
    and "pg_seen pg = (if pg_offset pg = 0 then None else Some (rt_snapshot_id rt, rt_profile rt))"
    and "pg_actions pg = take (pg_offset pg) values" "length values - pg_offset pg < fuel"
  shows "plan_loop fuel (page_server json rt :: client_request \<Rightarrow> ('j client_error, 'v server_response) result) pg =
     Some (Inr \<lparr>wp_profile = rt_profile rt, wp_snapshot_id = rt_snapshot_id rt, wp_actions = values\<rparr>)"
  using assms(4-7)
proof (induction fuel arbitrary: pg)
  case (Suc fuel)
  from page_served [OF assms(1-3) Suc.prems(1,2)] obtain count where
    count: "0 < count \<or> length values = 0" "pg_offset pg + count \<le> length values"
    and step: "rbind ((page_server json rt :: client_request \<Rightarrow> ('j client_error, 'v server_response) result) (plan_request pg)) (\<lambda>response. take_page response pg) =
      Inr (if pg_offset pg + count < length values
           then Inl \<lparr>pg_seen = Some (rt_snapshot_id rt, rt_profile rt), pg_offset = pg_offset pg + count,
             pg_actions = pg_actions pg @ take count (drop (pg_offset pg) values)\<rparr>
           else Inr \<lparr>wp_profile = rt_profile rt, wp_snapshot_id = rt_snapshot_id rt,
             wp_actions = pg_actions pg @ take count (drop (pg_offset pg) values)\<rparr>)" by blast
  have got: "pg_actions pg @ take count (drop (pg_offset pg) values) = take (pg_offset pg + count) values"
    using Suc.prems(3) by (simp add: take_add)
  show ?case
  proof (cases "pg_offset pg + count < length values")
    case True
    let ?pg = "\<lparr>pg_seen = Some (rt_snapshot_id rt, rt_profile rt), pg_offset = pg_offset pg + count,
        pg_actions = take (pg_offset pg + count) values\<rparr>"
    have "plan_loop fuel (page_server json rt :: client_request \<Rightarrow> ('j client_error, 'v server_response) result) ?pg =
        Some (Inr \<lparr>wp_profile = rt_profile rt, wp_snapshot_id = rt_snapshot_id rt, wp_actions = values\<rparr>)"
      using True count Suc.prems(4) by (intro Suc.IH) auto
    then show ?thesis using True step got by simp
  next
    case False
    then show ?thesis using step got count(2) by simp
  qed
qed simp

text \<open>
  C20. A plan survives paging. When the pages that the plan can be cut into can be serialised, each page with one of its actions
  fits into a frame, the snapshot id is not empty and has at most 128 bytes and the number of actions is a \<open>usize\<close>,
  a client that asks the backend for page after page gets exactly the actions of the plan, in order, within
  one request more than the plan has actions, whatever sizes the pages have; every check of the client accepts every page.
\<close>

theorem plan_pages_reassembled:
  assumes "pages_fit json rt values" "snapshot_id_ok (rt_snapshot_id rt)" "length values \<le> USIZE_MAX"
  shows "client_plan (Suc (length values)) (page_server json rt) =
     Some (Inr \<lparr>wp_profile = rt_profile rt, wp_snapshot_id = rt_snapshot_id rt, wp_actions = values\<rparr>)"
  unfolding client_plan_def using assms by (intro plan_loop_reads) auto

definition sample_json :: "string page_json" where
  "sample_json = \<lparr>pj_value = (\<lambda>a. Some (pa_id a)), pj_action_bytes = (\<lambda>_. Some 1),
     pj_page_bytes = (\<lambda>page. Some (length (pp_actions page) * 5000000))\<rparr>"

theorem plan_pages_reassembled_witness:
  "client_plan 4 (page_server sample_json sample_runtime :: client_request \<Rightarrow> (unit client_error, string server_response) result) =
     Some (Inr \<lparr>wp_profile = ''base'', wp_snapshot_id = ''s'', wp_actions = [''resolve'', ''drop'', ''handoff'']\<rparr>)"
proof -
  have "pages_fit sample_json sample_runtime [''resolve'', ''drop'', ''handoff'']"
    using drop_plan_list(1) by (auto simp: pages_fit_def page_of_def sample_json_def sample_runtime_def make_page_def MAX_RESPONSE_FRAME_BYTES_def
        map_eq_Cons_conv drop_plan_def)
  moreover have "snapshot_id_ok (rt_snapshot_id sample_runtime)" "length [''resolve'', ''drop'', ''handoff''] \<le> USIZE_MAX"
    "Suc (length [''resolve'', ''drop'', ''handoff'']) = 4" "rt_profile sample_runtime = ''base''" "rt_snapshot_id sample_runtime = ''s''"
    by (simp_all add: snapshot_id_ok_def sample_runtime_def USIZE_MAX_def)
  ultimately show ?thesis using plan_pages_reassembled [of sample_json sample_runtime "[''resolve'', ''drop'', ''handoff'']"] by metis
qed

section \<open>What the backend prepares and what the client accepts\<close>

lemma hex_text_length: "length (hex_text digits n) = digits"
  by (simp add: hex_text_def)

lemma hex_text_digits: "list_all is_ascii_hexdigit (hex_text digits n)"
proof -
  have all: "\<forall>k < 16. is_ascii_hexdigit (hex_digit k)" by code_simp
  have "is_ascii_hexdigit (hex_digit (m mod 16))" for m by (rule all [rule_format]) simp
  then show ?thesis by (simp add: hex_text_def list_all_iff)
qed

lemma prepare_id_shape:
  assumes "new_prepare_id sys = Some prepare_id"
  shows "length prepare_id = 48" "list_all is_ascii_hexdigit prepare_id"
proof -
  from assms obtain bytes :: "u8 list" where bytes: "length bytes = 24" "prepare_id = concat (map (\<lambda>byte. hex_text 2 (unat byte)) bytes)"
    by (auto simp: new_prepare_id_def split: option.splits if_splits)
  have "length (concat (map (\<lambda>byte :: u8. hex_text 2 (unat byte)) xs)) = 2 * length xs" for xs
    by (induction xs) (simp_all add: hex_text_length)
  with bytes show "length prepare_id = 48" by simp
  have "list_all is_ascii_hexdigit (concat (map (\<lambda>byte :: u8. hex_text 2 (unat byte)) xs))" for xs
    by (induction xs) (simp_all add: hex_text_digits)
  with bytes show "list_all is_ascii_hexdigit prepare_id" by simp
qed

lemma strictly_sorted_iff: "strictly_sorted groups \<longleftrightarrow> sorted_wrt (<) groups"
proof (induction groups rule: induct_list012)
  case (3 a b groups)
  then show ?case by (auto simp: strictly_sorted_def intro: less_trans)
qed (simp_all add: strictly_sorted_def)

lemma supplementary_groups_shape:
  assumes "supplementary_groups sys identity = Inr groups"
  shows "sorted_wrt (<) groups" "id_gid identity \<in> set groups" "length groups \<le> max_supplementary_groups (sy_ngroups_max sys)"
    "\<not> has_char (id_user identity) nul"
proof -
  from assms obtain listed where listed: "groups = sort (if id_gid identity \<in> set (sort_dedup listed) then sort_dedup listed
      else sort_dedup listed @ [id_gid identity])"
    and rest: "length groups \<le> max_supplementary_groups (sy_ngroups_max sys)" "\<not> has_char (id_user identity) nul"
    by (auto simp: supplementary_groups_def Let_def rbind_Inr_iff fail_if_Inr_iff not_less)
  show "sorted_wrt (<) groups" using listed by (auto simp: strict_sorted_iff)
  show "id_gid identity \<in> set groups" using listed by (auto split: if_splits)
  show "length groups \<le> max_supplementary_groups (sy_ngroups_max sys)" "\<not> has_char (id_user identity) nul" using rest by simp_all
qed

lemma resolved_home_absolute:
  assumes "resolve_prevalidated posix config cx = Inr identity" "\<not> id_run_as_root identity"
  shows "is_absolute (id_home identity)"
proof -
  from assms obtain inputs where "resolve_target posix config cx inputs = Inr identity"
    by (auto simp: resolve_prevalidated_def Let_def rbind_Inr_iff split: if_splits)
  then show ?thesis by (elim resolve_targetE) simp
qed

text \<open>
  Client and backend agree on prepared commands. What the backend prepares for a peer passes every check the client of that
  peer makes, if the peer's groups are what the backend reads of them, the working directory has an inode and no
  parent component in the name the kernel gives, the name and home of the identity are not empty and without line breaks, and a home
  configured for root is absolute.
\<close>

theorem prepared_handoff_accepted:
  assumes "resolve_request sys started now peer options b = Inr request"
    and "ca_uid caller = pc_uid peer" "ca_gid caller = pc_gid peer"
    and "pc_uid peer \<noteq> 0 \<longrightarrow> map_option Inr (ca_groups caller) = Some (peer_groups sys (pc_pid peer) (pc_gid peer))"
    and "snapshot_id_ok (rt_snapshot_id (bk_runtime b))"
    and "co_inode (ph_cwd_object (rq_handoff request)) \<noteq> 0" "ParentDir \<notin> set (components (ph_cwd (rq_handoff request)))"
    and "login_value_ok (id_home (ph_identity (rq_handoff request)))" "login_value_ok (id_user (ph_identity (rq_handoff request)))"
    and "id_run_as_root (ph_identity (rq_handoff request)) \<longrightarrow> is_absolute (id_home (ph_identity (rq_handoff request)))"
  shows "validate_prepared (sy_ngroups_max sys) (rq_handoff request) caller = Inr (rq_handoff request)"
proof -
  let ?h = "rq_handoff request"
  have never: "\<not> is_root_service config command uid False" for config command uid by (simp add: is_root_service_def)
  from assms(1) obtain cx where
    resolved: "resolve_prevalidated (posix_in (executor_for sys (rt_request_config (bk_runtime b)) cx) (bk_host b))
      (rt_request_config (bk_runtime b)) cx = Inr (ph_identity ?h)"
    and checked: "check_peer_identity sys peer (ph_identity ?h) False = Inr (ph_supplemental_groups ?h)"
    and command: "check_handoff_command (executor_for sys (rt_request_config (bk_runtime b)) cx) (po_argv options) = Inr (ph_command ?h)"
    and prepared: "new_prepare_id sys = Some (ph_prepare_id ?h)" "ph_snapshot_id ?h = rt_snapshot_id (bk_runtime b)"
      "ph_login_environment ?h = login_environment False (ph_identity ?h)" "\<not> ph_root_service ?h" "is_absolute (ph_cwd ?h)"
    by (auto simp: resolve_request_def Let_def rbind_Inr_iff map_err_Inr_iff fail_if_Inr_iff ok_or_Inr_iff never
        resolve_cwd_object_def executor_for_def)
  have groups: "supplementary_groups sys (ph_identity ?h) = Inr (ph_supplemental_groups ?h)"
    using checked by (auto simp: check_peer_identity_def rbind_Inr_iff map_err_Inr_iff)
  note shape = supplementary_groups_shape [OF groups]
  have own: "handoff_credentials_match caller (ph_identity ?h) (ph_supplemental_groups ?h) False"
    using check_peer_identity_Inr [OF checked] assms(2-4) by (cases "pc_uid peer = 0") (auto simp: handoff_credentials_match_def)
  have home: "is_absolute (id_home (ph_identity ?h))"
    using resolved_home_absolute [OF resolved] assms(10) by blast
  have login: "login_environment_matches ?h"
    using assms(8,9) home prepared(3,4)
    by (simp add: login_environment_matches_def login_environment_def btree_get_collect btree_collect_def btree_extend_def
        btree_get_def is_absolute_def)
  have argv: "is_absolute (hf_program (ph_command ?h))" "\<not> list_ex (\<lambda>argument. has_char argument nul) (hf_args (ph_command ?h))"
    using command by (auto simp: check_handoff_command_def rbind_Inr_iff fail_if_Inr_iff list_ex_iff)
  show ?thesis
    using shape own home login argv prepared prepare_id_shape [OF prepared(1)] assms(5-7)
    by (simp add: validate_prepared_def Let_def strictly_sorted_iff snapshot_id_ok_def not_less)
qed

theorem prepared_handoff_accepted_witness:
  "\<exists>request. resolve_request sample_system 0 2 sample_peer sample_options sample_backend = Inr request \<and>
     validate_prepared (sy_ngroups_max sample_system) (rq_handoff request) \<lparr>ca_uid = 1000, ca_gid = 1000, ca_groups = Some [1000]\<rparr> =
       (Inr (rq_handoff request) :: (unit client_error, prepared_handoff) result)"
proof -
  have "login_value_ok (id_home drop_identity)" "login_value_ok (id_user drop_identity)" "ParentDir \<notin> set (components ''/w'')"
    "\<not> id_run_as_root drop_identity" by code_simp+
  moreover have "snapshot_id_ok (rt_snapshot_id (bk_runtime sample_backend))"
    by (simp add: snapshot_id_ok_def sample_backend_def sample_runtime_def)
  moreover from sample_prepares obtain request
    where run: "resolve_request sample_system 0 2 sample_peer sample_options sample_backend = Inr request"
      and "ph_identity (rq_handoff request) = drop_identity" "ph_cwd (rq_handoff request) = ''/w''"
      "co_inode (ph_cwd_object (rq_handoff request)) = 2" by simp
  ultimately have "validate_prepared (sy_ngroups_max sample_system) (rq_handoff request)
      \<lparr>ca_uid = 1000, ca_gid = 1000, ca_groups = Some [1000]\<rparr> = (Inr (rq_handoff request) :: (unit client_error, prepared_handoff) result)"
    by (intro prepared_handoff_accepted [OF run]) (simp_all add: sample_peer_def sample_peer_groups)
  with run show ?thesis by blast
qed

end
