(* ===== verification/Spec2Isabelle.thy ===== *)
theory Spec2Isabelle
  imports Dev_Loader Dev_Cache Dev_Worker Dev_Shell Condition_Grammar Unix_Frame Loader_Load Core_Walk Core_Handoff Backend_Lifecycle Backend_Broker Backend_Client
begin

text \<open>
  A verification development for the container bootstrap runtime and the development environments of this repository.

  The program. An image or a workspace declares bootstrap actions (create a directory, map a user,
  drop privileges, hand off to a command) with inputs, conditions and path templates, in profiles
  that extend each other. \<open>container-init-bootstrap-loader\<close> merges a profile and its parents into one
  configuration.
  \<open>container-init-bootstrap-model\<close> holds these declarations, validates a configuration, above all
  which source may declare what, and orders the actions into a plan. \<open>container-init-core\<close>
  resolves the identity the command shall run as, executes the plan and replaces the process with
  the command; it changes accounts, credentials and ids through \<open>container-init-posix\<close>.
  \<open>container-init-backend\<close> does so as the first process of a container: it starts the command, supervises it, and
  serves clients that prepare and commit further commands over the messages of \<open>container-init-protocol\<close>.
  The \<open>dev-env\<close> crates give a shell in the container its environment: \<open>dev-env-loader\<close> merges profiles and overlays into a
  configuration (\<open>dev-env-model\<close>), \<open>dev-env-core\<close> and \<open>dev-env-provider\<close> materialise it by running the commands of providers and
  reading the variables they print, \<open>dev-env-shell\<close> starts the shell, and a resident backend keeps results in a cache.
  \<open>condition-expr\<close>, \<open>profile-graph\<close> and \<open>unix-frame\<close> are small crates used by both
  families: a boolean expression parser, the traversal of profile inheritance, and
  length-prefixed frames on Unix sockets. All paths below are relative to \<open>src/crates\<close>.

  Conventions. A fallible function returns \<open>('e, 'a) result\<close>, a sum with the error on the left;
  \<open>rbind\<close> is the \<open>?\<close> operator, \<open>for_each\<close> a loop with \<open>?\<close> in it. Fallible code that changes state is
  an \<open>effect\<close> (theory \<open>Effects\<close>): it returns its result with the state reached, also after an error,
  because nothing is undone. A function that could panic returns an option and \<open>None\<close> is the panic
  (\<open>Bootstrap_Plan\<close>, where every indexing of a vector is checked, \<open>nth_opt\<close>), or has an error for it (\<open>CorePanic\<close> in
  \<open>Core_Executor\<close>, \<open>LoadPanic\<close> and \<open>LoaderPanic\<close> in the loaders). Texts are lists of
  bytes; \<open>u32\<close> and \<open>u64\<close> are words of that width. \<open>BTreeMap\<close> and \<open>BTreeSet\<close> are sorted lists
  (\<open>Rust_Collections\<close>). Struct accessors of the source are the record selectors. Messages of errors
  are constructors, one for each place that makes an error, with the values the text shows.

  Theories and sources.

  \<^item> \<open>Prelude\<close>, \<open>Rust_Str\<close>, \<open>Rust_Collections\<close>, \<open>Effects\<close>: the parts of Rust's standard library the
    code uses, with the laws the other theories rest on. \<open>Effects\<close> has the locale \<open>frame\<close>: a
    reflexive and transitive relation that primitive effects respect is respected by everything
    composed of them. It is interpreted on the file tree (\<open>Core_Filesystem\<close>) and on the state
    of the executor (\<open>Core_Handoff\<close>).
  \<^item> \<open>Condition_Expr\<close>, \<open>Condition_Grammar\<close>: \<open>condition-expr/src/lib.rs\<close>. The parser and an abstract
    syntax with a printer; parsing inverts printing, and only well-nested texts are accepted.
  \<^item> \<open>Profile_Graph\<close>: \<open>profile-graph/src/lib.rs\<close>. The depth-first traversal with its depth bound,
    over a loader and an applier that are parameters: it visits exactly the reachable profiles,
    parents first, its errors name real defects, and it succeeds on well-formed graphs. The recursion
    ends because the depth bound decreases.
  \<^item> \<open>Unix_Frame\<close>: \<open>unix-frame/src/lib.rs\<close>. Encoding and decoding, and the reads and writes with a
    deadline over the answers of \<open>poll\<close>, \<open>read\<close> and \<open>write\<close>, which are parameters given as
    sequences.
  \<^item> \<open>Bootstrap_Types\<close>, \<open>Bootstrap_Condition\<close>, \<open>Bootstrap_Input\<close>, \<open>Bootstrap_Action\<close>,
    \<open>Bootstrap_Config\<close>, \<open>Bootstrap_Plan\<close>: \<open>container-init-bootstrap-model/src\<close>. Path templates,
    typed inputs, every check of \<open>BootstrapConfig::validate\<close> in its order, and plan construction with
    its stable topological order. Shown: the trust boundary of a validated configuration, that
    startup actions do not depend on a request, that plans are
    correct schedules with resolution first and the handoff last, that reported cycles are real and
    that building a plan never panics. The loop of the topological order has as fuel the number
    of actions, and \<open>plan_never_panics\<close> shows it is enough.
  \<^item> \<open>Loader_Raw\<close>, \<open>Loader_Merge\<close>, \<open>Loader_Load\<close>: \<open>container-init-bootstrap-loader/src\<close>. Profile
    documents (\<open>raw.rs\<close>), merging them with explicit overrides (\<open>merge.rs\<close>), the registry and the
    traversal (\<open>loader.rs\<close>). The TOML parser with the derived deserialiser is a parameter, about
    which nothing is assumed. A panic is the error \<open>LoadPanic\<close>. Shown: an untrusted profile only
    adds actions, nothing is overridden without a declaration, and loading never panics. The 21
    scalar settings are seen as one list for this, so that the proof about \<open>merge_scalar\<close> is done
    once.
  \<^item> \<open>Posix_Namespace\<close>, \<open>Posix_Accounts\<close>, \<open>Posix_Reconcile\<close>: \<open>container-init-posix/src\<close>. Id maps,
    mount information, workspace observation, \<open>passwd\<close> and \<open>group\<close>, credentials. What the C library
    and the kernel answer is a parameter: \<open>getpwnam\<close>, the credential calls, which replacements of a
    file and which reads fail. Shown: exact and injective id translation, exactness and idempotence of the account
    reconciliation, that a failed mapping leaves the accounts as they were apart from two failures that are named, and that
    privileges are only reported as dropped when they are.
  \<^item> \<open>Core_Identity\<close>, \<open>Core_Condition\<close>: \<open>container-init-core/src/identity.rs\<close>, \<open>context.rs\<close>,
    \<open>condition.rs\<close>, \<open>error.rs\<close>. Inputs, the cascades for uid and gid, and evaluation of conditions over
    a view of the host.
  \<^item> \<open>Core_Filesystem\<close>, \<open>Core_Walk\<close>: \<open>container-init-core/src/filesystem.rs\<close> and the file calls of
    \<open>container-init-posix\<close>, over an explicit tree of nodes in which a path is looked up without
    following links; which calls fail is a parameter. The recursive walk is bounded by
    \<open>walk_depth\<close>, one more than the longest path of the tree; each level of the walk goes one name
    deeper, so no walk reaches the bound. Shown: links are never followed, nothing existing is
    removed or replaced, directories are established and stay as they are when the action is
    repeated, and a recursive change of owner reaches every node below its path.
  \<^item> \<open>Core_Executor\<close>, \<open>Core_Handoff\<close>: \<open>handoff.rs\<close>, \<open>executor.rs\<close> and the reports and the receipt file of \<open>report.rs\<close>. The
    execution loop over account files, credentials and file tree, with every action kind; writing the receipt creates
    directories, writes a temporary file and renames it in the same tree. The field \<open>hs_runs\<close> of the state is an observation:
    \<open>execute_internal\<close> counts its own executions there, and no definition reads it. Shown by an
    invariant of the loop: outcomes respect dependencies, and a prepared handoff means that the
    process has the target's credentials when the configuration drops privileges;
    \<open>execute_and_handoff\<close> however does not depend on the handoff being prepared, which is shown on
    a configuration.
  \<^item> \<open>Init_Protocol\<close>: \<open>container-init-protocol/src\<close>. The messages and their validation, of which it is shown what
    exactly it accepts, and the names of endpoints.
  \<^item> \<open>Backend_Runtime\<close>, \<open>Backend_Identity\<close>, \<open>Backend_Transaction\<close>, \<open>Backend_Connection\<close>, \<open>Backend_Lifecycle\<close>,
    \<open>Backend_Broker\<close>: \<open>container-init-backend/src/server.rs\<close> and \<open>server/\<close>. The derived configurations, plan pages, working
    directories and groups, transactions, connections, the table of connections, start up and the supervising loop. Instants are
    nanoseconds; the answers of the system are lists, and \<open>None\<close> means that they end before the code returns. The JSON decoder and
    encoder are parameters. The loop around \<open>getgrouplist\<close> has fuel \<open>group_limit + 2\<close>, and \<open>GroupsPending\<close> stands for the loop going on.
    Shown by invariants over all sequences of events (locale \<open>machine\<close> of the theory \<open>Machines\<close>, interpreted on the
    transactions and on the server): a prepared command belongs to the ids of its owner, a transaction is executed at most
    once, the tables stay within their limits, shutdown ends and signals come in order; and that a peer may get root
    through an alias of an identity input.
  \<^item> \<open>Backend_Client\<close>: \<open>container-init-backend/src/client.rs\<close> and \<open>container-init-protocol/src/client.rs\<close>. Requests on
    connections, reading a plan page by page, prepare with its retries, commit with its queries, the identity broker. The loop
    over plan pages has the number of requests as fuel. Shown together with the backend: a plan survives paging, and what the backend
    prepares passes the checks of the client.
  \<^item> \<open>Dev_Types\<close>, \<open>Dev_Shellenv\<close>, \<open>Dev_Config\<close>, \<open>Dev_Request\<close>: \<open>dev-env-model/src\<close>. Names, values, conditions, configurations with their
    validation, the order of the providers and \<open>PATH\<close>, requests, cache keys and the messages of the backend, printing and
    reading shell environments. Shown: what is printed is read back, provider order and \<open>PATH\<close> are what they shall be, a cache key
    names a directory of the workspace, and messages arrive as they were sent.
  \<^item> \<open>Dev_Merge\<close>, \<open>Dev_Loader\<close>: \<open>dev-env-loader/src\<close>. Merging documents with the trust checks, the loader, runtime inputs. TOML and the
    derived conversions are a record of parameters; where a result needs that unknown fields are refused, that is a named
    hypothesis. Shown: what untrusted overlays and runtime values can change at most, and that a feature name with a dot can make
    the loader panic.
  \<^item> \<open>Dev_Provider\<close>, \<open>Dev_Worker\<close>: \<open>dev-env-provider/src\<close>. Templates, globs, fingerprints, the prepare and shellenv steps of a
    provider over an executor of commands that is a parameter, and the frames between the supervisor and its worker
    (locale \<open>field_codec\<close>, interpreted on the four kinds of fields). Shown: every command is one the configuration gives,
    the glob matcher is exact, and the worker gets the command that was checked.
  \<^item> \<open>Dev_Materialize\<close>, \<open>Dev_Cache\<close>: \<open>dev-env-core/src\<close>. The initial environment, the run over all providers, the result cache and the
    cache of prepared steps as a machine (locale \<open>machine\<close>). Shown: the commands of a run are those of enabled providers,
    the initial value of each variable, that the caches stay within their bounds and that a hit belongs to its key.
  \<^item> \<open>Dev_Shell\<close>: \<open>dev-env-shell/src\<close>. Argument vectors of shells and shims.
  \<^item> This theory: from the registered profiles to the plan. Actions that run as root or outside the
    target phase come from profiles of the image or the admin.

  Not modelled. \<open>ssh.rs\<close> and \<open>cgroup.rs\<close> of the core are parameters of the executor, about which
  nothing is assumed. Serialisation, \<open>Display\<close> texts, exit
  codes, logging and argument parsing are left out; so are \<open>unshare\<close> and \<open>mount\<close>, which are single
  system calls, and so is reading profile files and directories in the loader. \<open>container-init-cli\<close> and \<open>dev-env-cli\<close>, the process and
  socket code of \<open>dev-env-provider\<close> (spawning, pipes, timeouts) and the reading of files by \<open>dev-env-loader\<close> are not modelled.
\<close>

section \<open>From profiles to a plan\<close>

text \<open>
  C2. From the profiles to the plan. When a registry is built, a profile is loaded from it and its
  configuration gives a plan, then every planned action that runs as root, or is not in the target
  phase, was declared by a registered profile, under its own id, that comes from the image or the admin.
\<close>

theorem privileged_actions_from_trusted_profiles:
  fixes toml :: "'x toml_parser"
  assumes "fold_result (add_profile toml) [] sources = Inr profiles"
    and "load_bootstrap toml profiles profile_id = Inr (config, chain)"
    and "plan_from_config config = Some (Inr plan)" "planned \<in> set plan"
    and "pa_run_as planned = RunRoot \<or> pa_phase planned \<noteq> PhaseTarget"
  shows "\<exists>source \<in> set sources. so_id source = or_profile (pa_origin planned) \<and> is_trusted (so_source source)"
proof -
  obtain a where a: "a \<in> set (bc_actions config)" "pa_origin planned = ac_origin a" "pa_run_as planned = ac_run_as a"
    "pa_phase planned = action_phase a" using planned_from_action [OF assms(3,4)] by blast
  from registry_built [OF assms(1)] have wf: "registry_wf profiles"
    and mem: "btree_get pid profiles = Some source \<Longrightarrow> source \<in> set sources" for pid source by blast+
  note loaded = load_bootstrap_Inr [OF assms(2) wf]
  then obtain p :: loaded_profile and source where p: "lo_id p = or_profile (ac_origin a)" "lo_source p = or_source (ac_origin a)"
    "btree_get (lo_id p) profiles = Some source" "so_source source = lo_source p" using a(1) by blast
  from loaded have "config_validate config = Inr ()" by blast
  from untrusted_action [OF config_validate_Inr(3) [OF this a(1)]] assms(5) a(3,4) have "is_trusted (or_source (ac_origin a))"
    by (cases "is_trusted (or_source (ac_origin a))") auto
  with p mem wf a(2) show ?thesis by (auto simp: registry_wf_def intro!: bexI [of _ source])
qed

lemma merged_plan:
  obtains plan where "plan_from_config merged_config = Some (Inr plan)"
    "map pa_id plan = [''resolve'', ''run'', ''cache'', ''handoff'']"
    "pa_run_as (hd plan) = RunRoot" "or_profile (pa_origin (hd plan)) = ''base''"
proof -
  have acts: "bc_actions merged_config = md_actions overlay_merged" by (simp add: merged_config_def)
  have valid: "config_validate merged_config = Inr ()" using load_bootstrap_Inr [OF sample_load] registry_built [OF sample_registry_built] by blast
  let ?as = "md_actions overlay_merged"
  obtain deps where deps: "plan_dependencies ?as = Some (Inr deps)"
    "check_phases (id_index ?as) (map action_phase ?as) deps (enumerate 0 ?as) = Some (Inr ())"
    "stable_topological_order ?as deps = Some (Inr [0, 1, 3, 2])"
    "map_option (\<lambda>plan. (map pa_id plan, pa_run_as (hd plan), or_profile (pa_origin (hd plan))))
       (those (map (plan_action ?as deps) [0, 1, 3, 2]))
      = Some ([''resolve'', ''run'', ''cache'', ''handoff''], RunRoot, ''base'')"
  proof
    show "plan_dependencies ?as = Some (Inr [[], [''resolve''], [''cache'', ''resolve''], [''resolve'']])"
      by code_simp
  qed code_simp+
  from deps(4) obtain plan where "those (map (plan_action ?as deps) [0, 1, 3, 2]) = Some plan"
    "map pa_id plan = [''resolve'', ''run'', ''cache'', ''handoff'']" "pa_run_as (hd plan) = RunRoot"
    "or_profile (pa_origin (hd plan)) = ''base''"
    unfolding map_option_eq_Some prod.inject by (elim exE conjE)
  with deps(1-3) show thesis
    by (intro that [of plan]) (simp_all add: plan_from_config_def acts valid)
qed

theorem privileged_actions_from_trusted_profiles_witness:
  "\<exists>plan. plan_from_config merged_config = Some (Inr plan) \<and> pa_run_as (hd plan) = RunRoot \<and>
     (\<exists>source \<in> {base_source, overlay_source}. so_id source = ''base'' \<and> is_trusted (so_source source))"
proof -
  obtain plan where plan: "plan_from_config merged_config = Some (Inr plan)"
    "map pa_id plan = [''resolve'', ''run'', ''cache'', ''handoff'']"
    "pa_run_as (hd plan) = RunRoot" "or_profile (pa_origin (hd plan)) = ''base''" by (rule merged_plan)
  then have "hd plan \<in> set plan" by (intro hd_in_set) auto
  from privileged_actions_from_trusted_profiles [OF sample_registry_built sample_load plan(1) this] plan(1,3,4)
  show ?thesis by (intro exI [of _ plan]) simp
qed

end
